(* ===== verification/Prelude.thy ===== *)
theory Prelude
  imports Main "HOL-Library.Word" "HOL-Library.AList" "HOL-Library.Monad_Syntax"
begin

text \<open>
  Shared vocabulary of the development: machine integers, byte buffers, the result types of
  the Rust code, insertion-ordered maps, and the contracts (locales) that several components
  share.

  A Rust function that takes \<^verbatim>\<open>&mut self\<close> is a function that returns the new state. A call
  that does not return (a failed \<^verbatim>\<open>expect\<close>, \<^verbatim>\<open>unwrap\<close> or \<^verbatim>\<open>assert!\<close>, an
  \<^verbatim>\<open>unimplemented!\<close> branch, or a loop that never ends) is the value \<open>None\<close> of an option
  type, so that every theorem that a call returns is a statement of the form
  \<open>\<exists>s'. f s = Some s'\<close>.
\<close>

section \<open>Integers, buffers, results\<close>

type_synonym u8 = "8 word"
type_synonym u16 = "16 word"
type_synonym u32 = "32 word"
type_synonym u128 = "128 word"
type_synonym bytes = "u8 list"

text \<open>\<^verbatim>\<open>std::time::Duration\<close>, in nanoseconds.\<close>

type_synonym duration = nat

text \<open>
  A task waker. The code only clones wakers, compares them with \<^verbatim>\<open>will_wake\<close> and calls
  \<^verbatim>\<open>wake\<close>; the model names each by a number and records the calls to \<^verbatim>\<open>wake\<close> in the
  state of the component that makes them.
\<close>

type_synonym waker = nat

text \<open>The variants of \<^verbatim>\<open>std::io::ErrorKind\<close> the sources construct.\<close>

datatype ErrorKind =
    NotFound | PermissionDenied | ConnectionRefused | ConnectionReset | NotConnected
  | AddrInUse | AddrNotAvailable | BrokenPipe | WouldBlock | InvalidInput | TimedOut
  | Unsupported

datatype io_error = Kind ErrorKind | RawOsError nat

type_synonym 'a io_result = "io_error + 'a"

abbreviation (input) Err :: "io_error \<Rightarrow> 'a io_result" where
  "Err e \<equiv> Inl e"

abbreviation (input) Ok :: "'a \<Rightarrow> 'a io_result" where
  "Ok v \<equiv> Inr v"

text \<open>\<^verbatim>\<open>std::task::Poll\<close>.\<close>

datatype 'a Poll = Pending | Ready 'a

section \<open>Collections of facts\<close>

text \<open>
  \<open>imap_simps\<close>: lookups after an update of an insertion-ordered map;
  \<open>frame_simps\<close>: what an operation leaves unchanged;
  \<open>inv_intros\<close>: one introduction rule per operation that keeps an invariant.
\<close>

named_theorems imap_simps "lookup laws of insertion-ordered maps"
named_theorems frame_simps "fields an operation does not change"
named_theorems inv_intros "invariant preservation, one rule per operation"

section \<open>Insertion-ordered maps\<close>

text \<open>
  \<^verbatim>\<open>IndexMap\<close> is an association list with distinct keys in insertion order:
  \<^verbatim>\<open>get\<close> is \<^const>\<open>map_of\<close>, \<^verbatim>\<open>insert\<close> is \<^const>\<open>AList.update\<close> (an
  existing key keeps its place, a new one goes to the end), \<^verbatim>\<open>shift_remove\<close> is
  \<^const>\<open>AList.delete\<close>, an update through \<^verbatim>\<open>get_mut\<close> is \<^const>\<open>AList.map_entry\<close>, and
  \<^verbatim>\<open>swap_remove\<close> moves the last entry into the hole.
\<close>

type_synonym ('k, 'v) imap = "('k \<times> 'v) list"

abbreviation imap_get :: "('k, 'v) imap \<Rightarrow> 'k \<Rightarrow> 'v option" where
  "imap_get \<equiv> map_of"

abbreviation imap_insert :: "'k \<Rightarrow> 'v \<Rightarrow> ('k, 'v) imap \<Rightarrow> ('k, 'v) imap" where
  "imap_insert \<equiv> AList.update"

abbreviation imap_shift_remove :: "'k \<Rightarrow> ('k, 'v) imap \<Rightarrow> ('k, 'v) imap" where
  "imap_shift_remove \<equiv> AList.delete"

abbreviation imap_modify :: "'k \<Rightarrow> ('v \<Rightarrow> 'v) \<Rightarrow> ('k, 'v) imap \<Rightarrow> ('k, 'v) imap" where
  "imap_modify \<equiv> AList.map_entry"

abbreviation imap_keys :: "('k, 'v) imap \<Rightarrow> 'k list" where
  "imap_keys m \<equiv> map fst m"

abbreviation imap_wf :: "('k, 'v) imap \<Rightarrow> bool" where
  "imap_wf m \<equiv> distinct (imap_keys m)"

definition imap_retain :: "('k \<Rightarrow> 'v \<Rightarrow> bool) \<Rightarrow> ('k, 'v) imap \<Rightarrow> ('k, 'v) imap" where
  "imap_retain P m = filter (\<lambda>(k, v). P k v) m"

fun imap_swap_remove :: "'k \<Rightarrow> ('k, 'v) imap \<Rightarrow> ('k, 'v) imap" where
  "imap_swap_remove k [] = []"
| "imap_swap_remove k (p # ps) =
     (if fst p = k then (if ps = [] then [] else last ps # butlast ps)
      else p # imap_swap_remove k ps)"

lemmas [imap_simps] = update_conv delete_conv map_of_map_entry

lemma imap_get_insert [imap_simps]:
  "imap_get (imap_insert k v m) k' = (if k' = k then Some v else imap_get m k')"
  by (simp add: update_conv)

lemma imap_get_modify [imap_simps]:
  "imap_get (imap_modify k f m) k' =
     (if k' = k then map_option f (imap_get m k) else imap_get m k')"
  by (cases "imap_get m k") (auto simp: map_of_map_entry)

lemma imap_keys_modify [simp]: "imap_keys (imap_modify k f m) = imap_keys m"
  by (induction m) auto

lemma imap_wf_insert: "imap_wf m \<Longrightarrow> imap_wf (imap_insert k v m)"
  by (rule distinct_update)

lemma imap_wf_retain: "imap_wf m \<Longrightarrow> imap_wf (imap_retain P m)"
  unfolding imap_retain_def by (induction m) auto

lemma imap_get_retain:
  assumes "imap_wf m"
  shows "imap_get (imap_retain P m) k =
    (case imap_get m k of None \<Rightarrow> None | Some v \<Rightarrow> if P k v then Some v else None)"
  using assms by (induction m) (auto simp: imap_retain_def map_of_eq_None_iff split: option.splits)

lemma imap_retain_keys: "k \<in> set (imap_keys (imap_retain P m)) \<Longrightarrow> k \<in> set (imap_keys m)"
  by (auto simp: imap_retain_def)

lemma imap_retain_set: "p \<in> set (imap_retain P m) \<longleftrightarrow> p \<in> set m \<and> P (fst p) (snd p)"
  by (cases p) (auto simp: imap_retain_def)

lemma set_imap_swap_remove:
  "imap_wf m \<Longrightarrow> set (imap_swap_remove k m) = {p \<in> set m. fst p \<noteq> k}"
proof (induction m)
  case Nil
  then show ?case by simp
next
  case (Cons p ps)
  have "ps \<noteq> [] \<Longrightarrow> set (last ps # butlast ps) = set ps"
    by (cases ps rule: rev_cases) auto
  with Cons show ?case by (auto simp: rev_image_eqI split: if_splits)
qed

lemma imap_wf_swap_remove: "imap_wf m \<Longrightarrow> imap_wf (imap_swap_remove k m)"
proof (induction m)
  case Nil
  then show ?case by simp
next
  case (Cons p ps)
  have rot: "ps \<noteq> [] \<Longrightarrow> distinct (map fst (last ps # butlast ps)) = distinct (map fst ps)"
    by (cases ps rule: rev_cases) auto
  have "fst p \<notin> fst ` set (imap_swap_remove k ps)"
    using Cons.prems by (auto simp: set_imap_swap_remove)
  with Cons rot show ?case by auto
qed

lemma imap_get_swap_remove:
  assumes "imap_wf m"
  shows "imap_get (imap_swap_remove k m) k' = (if k' = k then None else imap_get m k')"
proof -
  have wf: "imap_wf (imap_swap_remove k m)"
    using assms by (rule imap_wf_swap_remove)
  show ?thesis
  proof (cases "k' = k")
    case True
    then have "k' \<notin> fst ` set (imap_swap_remove k m)"
      using assms by (auto simp: set_imap_swap_remove)
    with True show ?thesis by (simp add: map_of_eq_None_iff)
  next
    case False
    have "imap_get (imap_swap_remove k m) k' = Some v \<longleftrightarrow> imap_get m k' = Some v" for v
      using False assms wf by (auto simp: set_imap_swap_remove)
    then show ?thesis using False by (metis not_Some_eq)
  qed
qed

text \<open>The laws the clients of a map rely on, whatever its order.\<close>

locale finite_map =
  fixes wf :: "'m \<Rightarrow> bool"
    and get :: "'m \<Rightarrow> 'k \<Rightarrow> 'v option"
    and put :: "'k \<Rightarrow> 'v \<Rightarrow> 'm \<Rightarrow> 'm"
    and del :: "'k \<Rightarrow> 'm \<Rightarrow> 'm"
  assumes wf_put: "wf m \<Longrightarrow> wf (put k v m)"
    and wf_del: "wf m \<Longrightarrow> wf (del k m)"
    and get_put: "wf m \<Longrightarrow> get (put k v m) k' = (if k' = k then Some v else get m k')"
    and get_del: "wf m \<Longrightarrow> get (del k m) k' = (if k' = k then None else get m k')"
begin

lemma get_put_same: "wf m \<Longrightarrow> get (put k v m) k = Some v"
  by (simp add: get_put)

lemma del_put: "wf m \<Longrightarrow> get m k = None \<Longrightarrow> get (del k (put k v m)) = get m"
  by (rule ext) (simp add: get_put get_del wf_put)

lemma put_put: "wf m \<Longrightarrow> get (put k v (put k w m)) = get (put k v m)"
  by (rule ext) (simp add: get_put wf_put)

lemma move:
  assumes "wf m" "get m a = Some v" "a \<noteq> b"
  shows "get (put b v (del a m)) a = None" "get (put b v (del a m)) b = Some v"
    "c \<noteq> a \<Longrightarrow> c \<noteq> b \<Longrightarrow> get (put b v (del a m)) c = get m c"
  using assms by (simp_all add: get_put get_del wf_del)

end

interpretation imap_shift: finite_map imap_wf imap_get imap_insert imap_shift_remove
  by unfold_locales (auto simp: imap_simps intro: distinct_update distinct_delete)

interpretation imap_swap: finite_map imap_wf imap_get imap_insert imap_swap_remove
  by unfold_locales
    (auto simp: imap_simps imap_get_swap_remove intro: distinct_update imap_wf_swap_remove)

section \<open>Transition systems with an invariant\<close>

text \<open>
  Several components are state machines driven by a list of calls: a kernel by its system
  calls, a file system by its operations, a link by its events. The locale states the
  contract they share (every admissible call returns and keeps the invariant) and proves
  once that every run does.
\<close>

locale invariant_system =
  fixes step :: "'s \<Rightarrow> 'op \<Rightarrow> 's option"
    and inv :: "'s \<Rightarrow> bool"
    and admissible :: "'s \<Rightarrow> 'op \<Rightarrow> bool"
  assumes step_returns: "inv s \<Longrightarrow> admissible s a \<Longrightarrow> \<exists>s'. step s a = Some s'"
    and step_inv: "inv s \<Longrightarrow> admissible s a \<Longrightarrow> step s a = Some s' \<Longrightarrow> inv s'"
begin

fun run :: "'s \<Rightarrow> 'op list \<Rightarrow> 's option" where
  "run s [] = Some s"
| "run s (a # as) = Option.bind (step s a) (\<lambda>s'. run s' as)"

fun admissible_run :: "'s \<Rightarrow> 'op list \<Rightarrow> bool" where
  "admissible_run s [] = True"
| "admissible_run s (a # as) =
     (admissible s a \<and> (case step s a of None \<Rightarrow> True | Some s' \<Rightarrow> admissible_run s' as))"

lemma run_inv: "inv s \<Longrightarrow> admissible_run s as \<Longrightarrow> \<exists>s'. run s as = Some s' \<and> inv s'"
proof (induction as arbitrary: s)
  case Nil
  then show ?case by simp
next
  case (Cons a as)
  then obtain s' where "step s a = Some s'" using step_returns by fastforce
  moreover from this Cons.prems have "inv s'" by (auto intro: step_inv)
  ultimately show ?case using Cons by auto
qed

end

section \<open>Numbers as text\<close>

text \<open>How the standard library prints an unsigned number in a radix up to 16, in lower case.\<close>

definition digit_char :: "nat \<Rightarrow> char" where
  "digit_char d = char_of (if d < 10 then 48 + d else 87 + d)"

fun radix_string :: "nat \<Rightarrow> nat \<Rightarrow> string" where
  "radix_string b n =
     (if b \<le> 1 \<or> n < b then [digit_char n] else radix_string b (n div b) @ [digit_char (n mod b)])"

declare radix_string.simps [simp del]

definition decimal :: "nat \<Rightarrow> string" where
  "decimal n = radix_string 10 n"

section \<open>Lists\<close>

lemma take_append_drop_slice:
  "a \<le> b \<Longrightarrow> b \<le> length xs \<Longrightarrow> take a xs @ take (b - a) (drop a xs) @ drop b xs = xs"
  by (metis append_assoc append_take_drop_id le_add_diff_inverse take_add)

lemma find_None_filter: "find P xs = None \<longleftrightarrow> filter P xs = []"
  by (auto simp: find_None_iff filter_empty_conv)

lemma find_Some_hd_filter: "find P xs = Some x \<Longrightarrow> x \<in> set xs \<and> P x"
  by (auto simp: find_Some_iff)

lemma bind_Some_iff:
  "Option.bind m f = Some y \<longleftrightarrow> (\<exists>x. m = Some x \<and> f x = Some y)"
  by (cases m) auto

section \<open>Total correctness of option computations\<close>

text \<open>
  \<open>returns m P\<close>: the computation \<open>m\<close> returns (it neither panics nor diverges) and its result
  satisfies \<open>P\<close>. The rewrite rules push the postcondition through sequencing.
\<close>

definition returns :: "'a option \<Rightarrow> ('a \<Rightarrow> bool) \<Rightarrow> bool" where
  "returns m P \<longleftrightarrow> (\<exists>x. m = Some x \<and> P x)"

lemma returns_simps [simp]:
  "returns (Some x) P = P x" "returns None P = False"
  "returns (Option.bind m f) P = returns m (\<lambda>x. returns (f x) P)"
  "returns (if b then m1 else m2) P = (if b then returns m1 P else returns m2 P)"
  by (auto simp: returns_def bind_Some_iff)

lemma returns_mono: "returns m P \<Longrightarrow> (\<And>x. P x \<Longrightarrow> Q x) \<Longrightarrow> returns m Q"
  by (auto simp: returns_def)

lemma returns_eqI: "m = Some x \<Longrightarrow> P x \<Longrightarrow> returns m P"
  by (simp add: returns_def)

end
