(* ===== verification/Net_Addr.thy ===== *)
theory Net_Addr
  imports Prelude
begin

text \<open>
  The parts of \<^verbatim>\<open>std::net\<close> the crates use: IP addresses with their derived order,
  socket addresses, and the address classes (loopback, unspecified). An IPv4 address is its
  32-bit big-endian value, an IPv6 address its 128-bit value; the order of
  \<^verbatim>\<open>std::net::IpAddr\<close> puts every IPv4 address before every IPv6 address and compares
  octets, that is values, within a family. The flow label and scope id of an IPv6 socket
  address are zero throughout, as \<^verbatim>\<open>SocketAddr::new\<close> makes them.
\<close>

datatype IpAddr = V4 u32 | V6 u128

datatype SocketAddr = SocketAddr (sa_ip: IpAddr) (sa_port: u16)

fun is_loopback :: "IpAddr \<Rightarrow> bool" where
  "is_loopback (V4 a) = (drop_bit 24 a = 127)"
| "is_loopback (V6 a) = (a = 1)"

fun is_unspecified :: "IpAddr \<Rightarrow> bool" where
  "is_unspecified (V4 a) = (a = 0)"
| "is_unspecified (V6 a) = (a = 0)"

fun is_ipv4 :: "IpAddr \<Rightarrow> bool" where
  "is_ipv4 (V4 a) = True"
| "is_ipv4 (V6 a) = False"

text \<open>\<^verbatim>\<open>LOCALHOST\<close> and \<^verbatim>\<open>UNSPECIFIED\<close> of the family of a given address.\<close>

fun localhost_like :: "IpAddr \<Rightarrow> IpAddr" where
  "localhost_like (V4 _) = V4 0x7F000001"
| "localhost_like (V6 _) = V6 1"

fun unspecified_like :: "IpAddr \<Rightarrow> IpAddr" where
  "unspecified_like (V4 _) = V4 0"
| "unspecified_like (V6 _) = V6 0"

lemma localhost_like_loopback [simp]: "is_loopback (localhost_like a)"
  by (cases a) simp_all

lemma localhost_like_specified [simp]: "\<not> is_unspecified (localhost_like a)"
  by (cases a) simp_all

lemma unspecified_like_unspecified [simp]: "is_unspecified (unspecified_like a)"
  by (cases a) simp_all

lemma loopback_specified: "is_loopback a \<Longrightarrow> \<not> is_unspecified a"
  by (cases a) auto

instantiation IpAddr :: linorder
begin

fun less_eq_IpAddr :: "IpAddr \<Rightarrow> IpAddr \<Rightarrow> bool" where
  "less_eq_IpAddr (V4 a) (V4 b) = (a \<le> b)"
| "less_eq_IpAddr (V4 a) (V6 b) = True"
| "less_eq_IpAddr (V6 a) (V4 b) = False"
| "less_eq_IpAddr (V6 a) (V6 b) = (a \<le> b)"

definition less_IpAddr :: "IpAddr \<Rightarrow> IpAddr \<Rightarrow> bool" where
  "less_IpAddr a b = (a \<le> b \<and> \<not> b \<le> a)"

instance
proof
  fix x y z :: IpAddr
  show "(x < y) = (x \<le> y \<and> \<not> y \<le> x)" by (rule less_IpAddr_def)
  show "x \<le> x" by (cases x) simp_all
  show "x \<le> y \<Longrightarrow> y \<le> z \<Longrightarrow> x \<le> z" by (cases x; cases y; cases z) auto
  show "x \<le> y \<Longrightarrow> y \<le> x \<Longrightarrow> x = y" by (cases x; cases y) auto
  show "x \<le> y \<or> y \<le> x" by (cases x; cases y) auto
qed

end

lemma less_IpAddr_simps [simp]:
  "V4 a < V4 b \<longleftrightarrow> a < b" "V4 a < V6 c" "\<not> V6 c < V4 a" "V6 c < V6 d \<longleftrightarrow> c < d"
  by (auto simp: less_IpAddr_def)

end
