(* ===== verification/Packet.thy ===== *)
theory Packet
  imports Net_Addr
begin

text \<open>
  \<^verbatim>\<open>turmoil-net/src/kernel/packet.rs\<close>: structured packets and their size for MTU
  accounting. Header sizes are the constants of the source.
\<close>

definition IPV4_HEADER_SIZE :: nat where
  "IPV4_HEADER_SIZE = 20"

definition IPV6_HEADER_SIZE :: nat where
  "IPV6_HEADER_SIZE = 40"

definition UDP_HEADER_SIZE :: nat where
  "UDP_HEADER_SIZE = 8"

definition TCP_HEADER_SIZE :: nat where
  "TCP_HEADER_SIZE = 20"

lemmas header_sizes =
  IPV4_HEADER_SIZE_def IPV6_HEADER_SIZE_def UDP_HEADER_SIZE_def TCP_HEADER_SIZE_def

record TcpFlags =
  fl_syn :: bool
  fl_ack :: bool
  fl_fin :: bool
  fl_rst :: bool
  fl_psh :: bool
  fl_urg :: bool

text \<open>\<^verbatim>\<open>TcpFlags::default()\<close>.\<close>

definition no_flags :: TcpFlags where
  "no_flags = \<lparr>fl_syn = False, fl_ack = False, fl_fin = False, fl_rst = False, fl_psh = False,
     fl_urg = False\<rparr>"

record UdpDatagram =
  ud_src_port :: u16
  ud_dst_port :: u16
  ud_payload :: bytes

record TcpSegment =
  seg_src_port :: u16
  seg_dst_port :: u16
  seg_seq :: u32
  seg_ack :: u32
  seg_flags :: TcpFlags
  seg_window :: u16
  seg_payload :: bytes

datatype Transport = Udp UdpDatagram | Tcp TcpSegment

record Packet =
  pkt_src :: IpAddr
  pkt_dst :: IpAddr
  pkt_ttl :: u8
  pkt_payload :: Transport

text \<open>
  \<^verbatim>\<open>payload.len() as u32\<close> keeps the low 32 bits of the length; the additions are
  \<^verbatim>\<open>u32\<close> additions of a build with overflow checks, where a sum past \<open>2 ^ 32\<close> does not
  return.
\<close>

definition u32_add :: "nat \<Rightarrow> nat \<Rightarrow> nat option" where
  "u32_add a b = (if a + b < 2 ^ 32 then Some (a + b) else None)"

fun transport_size :: "Transport \<Rightarrow> nat option" where
  "transport_size (Udp d) = u32_add UDP_HEADER_SIZE (length (ud_payload d) mod 2 ^ 32)"
| "transport_size (Tcp s) = u32_add TCP_HEADER_SIZE (length (seg_payload s) mod 2 ^ 32)"

definition packet_size :: "Packet \<Rightarrow> nat option" where
  "packet_size p = do {
     let ip_hdr = (case pkt_dst p of V4 _ \<Rightarrow> IPV4_HEADER_SIZE | V6 _ \<Rightarrow> IPV6_HEADER_SIZE);
     t \<leftarrow> transport_size (pkt_payload p);
     u32_add ip_hdr t
   }"

end
