(* ===== verification/Socket.thy ===== *)
theory Socket
  imports Packet
begin

text \<open>
  \<^verbatim>\<open>turmoil-net/src/kernel/socket.rs\<close>: the kernel's socket records, the per-host socket
  table with its three indices (sockets by descriptor, sockets by bound address, connections
  by address pair), and the ephemeral port allocator. Descriptors are the \<^verbatim>\<open>u64\<close> counter of
  the table, as natural numbers.
\<close>

section \<open>Data\<close>

datatype Domain = Inet | Inet6 | Unix

datatype Type = Stream | Dgram | SeqPacket

datatype Addr = Addr_Inet SocketAddr | Addr_Unix string

type_synonym Fd = nat

datatype SocketOption =
    Broadcast bool | ReuseAddr bool | ReusePort bool | Linger "duration option"
  | RecvBufferSize nat | SendBufferSize nat | KeepAlive bool
  | TcpNoDelay bool | TcpKeepIdle duration | TcpKeepInterval duration | TcpKeepCount u32
  | IpTtl u8 | IpMulticastTtl u8 | IpMulticastLoop bool
  | IpAddMembership u32 u32 | IpDropMembership u32 u32
  | Ipv6Only bool | Ipv6MulticastHops u8 | Ipv6MulticastLoop bool
  | Ipv6JoinGroup u128 u32 | Ipv6LeaveGroup u128 u32

datatype SocketOptionKind =
    K_Broadcast | K_ReuseAddr | K_ReusePort | K_Linger | K_RecvBufferSize | K_SendBufferSize
  | K_KeepAlive | K_TcpNoDelay | K_TcpKeepIdle | K_TcpKeepInterval | K_TcpKeepCount
  | K_IpTtl | K_IpMulticastTtl | K_IpMulticastLoop
  | K_Ipv6Only | K_Ipv6MulticastHops | K_Ipv6MulticastLoop

datatype TcpState =
    SynSent | SynReceived | Established | FinWait1 | FinWait2 | CloseWait | LastAck | Closing
  | Closed

record Tcb =
  tcb_state :: TcpState
  tcb_peer :: SocketAddr
  snd_nxt :: u32
  snd_una :: u32
  snd_wnd :: u16
  rcv_nxt :: u32
  send_buf :: bytes
  recv_buf :: bytes
  wr_closed :: bool
  peer_fin :: bool
  fin_seq :: "u32 option"
  reset :: bool
  timed_out :: bool
  egress_since_ack :: nat
  retx_attempts :: nat

record ListenState =
  backlog :: nat
  ready :: "Fd list"
  accept_wakers :: "waker list"

definition ListenState_new :: "nat \<Rightarrow> ListenState" where
  "ListenState_new n = \<lparr>backlog = n, ready = [], accept_wakers = []\<rparr>"

record BindKey =
  bk_domain :: Domain
  bk_ty :: Type
  local_addr :: IpAddr
  local_port :: u16

record Socket =
  sk_domain :: Domain
  sk_ty :: Type
  bound :: "BindKey option"
  sk_peer :: "Addr option"
  broadcast :: bool
  ttl :: u8
  tcp_nodelay :: bool
  recv_queue :: "(Addr \<times> bytes) list"
  read_wakers :: "waker list"
  write_wakers :: "waker list"
  tcb :: "Tcb option"
  listen :: "ListenState option"
  connect_waker :: "waker option"
  fd_closed :: bool

definition Socket_new :: "Domain \<Rightarrow> Type \<Rightarrow> Socket" where
  "Socket_new d t = \<lparr>sk_domain = d, sk_ty = t, bound = None, sk_peer = None, broadcast = False,
     ttl = 64, tcp_nodelay = False, recv_queue = [], read_wakers = [], write_wakers = [],
     tcb = None, listen = None, connect_waker = None, fd_closed = False\<rparr>"

text \<open>\<^verbatim>\<open>register\<close>: a waker is added once.\<close>

definition register :: "waker list \<Rightarrow> waker \<Rightarrow> waker list" where
  "register slot w = (if w \<in> set slot then slot else slot @ [w])"

definition register_read_waker :: "waker \<Rightarrow> Socket \<Rightarrow> Socket" where
  "register_read_waker w s = s\<lparr>read_wakers := register (read_wakers s) w\<rparr>"

definition register_write_waker :: "waker \<Rightarrow> Socket \<Rightarrow> Socket" where
  "register_write_waker w s = s\<lparr>write_wakers := register (write_wakers s) w\<rparr>"

text \<open>
  \<^verbatim>\<open>wake_all\<close> drains a slot and wakes every waker in it; the second component is the list
  of wakers woken.
\<close>

definition wake_all :: "waker list \<Rightarrow> waker list \<times> waker list" where
  "wake_all slot = ([], slot)"

definition wake_read :: "Socket \<Rightarrow> Socket \<times> waker list" where
  "wake_read s = (let (slot, ws) = wake_all (read_wakers s) in (s\<lparr>read_wakers := slot\<rparr>, ws))"

definition wake_write :: "Socket \<Rightarrow> Socket \<times> waker list" where
  "wake_write s = (let (slot, ws) = wake_all (write_wakers s) in (s\<lparr>write_wakers := slot\<rparr>, ws))"

section \<open>Ephemeral ports\<close>

record PortAllocator =
  range_start :: u16
  range_end :: u16
  cursor :: u16

definition PortAllocator_new :: "u16 \<Rightarrow> u16 \<Rightarrow> PortAllocator" where
  "PortAllocator_new lo hi = \<lparr>range_start = lo, range_end = hi, cursor = lo\<rparr>"

text \<open>The cursor after \<open>p\<close>; \<^verbatim>\<open>p + 1\<close> past the last \<^verbatim>\<open>u16\<close> does not return.\<close>

definition next_port :: "PortAllocator \<Rightarrow> u16 \<Rightarrow> u16 option" where
  "next_port a p =
     (if p = range_end a then Some (range_start a) else if p = 0xFFFF then None else Some (p + 1))"

partial_function (option) allocate_loop ::
  "(u16 \<Rightarrow> bool) \<Rightarrow> u16 \<Rightarrow> PortAllocator \<Rightarrow> (u16 option \<times> PortAllocator) option" where
  "allocate_loop in_use start a = do {
     let p = cursor a;
     c \<leftarrow> next_port a p;
     let a' = a\<lparr>cursor := c\<rparr>;
     if \<not> in_use p then Some (Some p, a')
     else if c = start then Some (None, a')
     else allocate_loop in_use start a'
   }"

definition allocate ::
  "(u16 \<Rightarrow> bool) \<Rightarrow> PortAllocator \<Rightarrow> (u16 option \<times> PortAllocator) option" where
  "allocate in_use a = allocate_loop in_use (cursor a) a"

section \<open>The socket table\<close>

record SocketTable =
  next_id :: nat
  sockets :: "(Fd, Socket) imap"
  bindings :: "(BindKey, Fd list) imap"
  connections :: "(SocketAddr \<times> SocketAddr, Fd) imap"
  ports :: PortAllocator

definition SocketTable_new :: SocketTable where
  "SocketTable_new = \<lparr>next_id = 1, sockets = [], bindings = [], connections = [],
     ports = PortAllocator_new 49152 65535\<rparr>"

definition st_insert :: "Socket \<Rightarrow> SocketTable \<Rightarrow> Fd \<times> SocketTable" where
  "st_insert s t =
     (let fd = next_id t
      in (fd, t\<lparr>next_id := next_id t + 1, sockets := imap_insert fd s (sockets t)\<rparr>))"

definition st_get :: "SocketTable \<Rightarrow> Fd \<Rightarrow> Socket option" where
  "st_get t fd = imap_get (sockets t) fd"

text \<open>An update through \<^verbatim>\<open>get_mut\<close>.\<close>

definition st_modify :: "Fd \<Rightarrow> (Socket \<Rightarrow> Socket) \<Rightarrow> SocketTable \<Rightarrow> SocketTable" where
  "st_modify fd f t = t\<lparr>sockets := imap_modify fd f (sockets t)\<rparr>"

definition st_remove :: "Fd \<Rightarrow> SocketTable \<Rightarrow> SocketTable" where
  "st_remove fd t = t\<lparr>
     bindings := imap_retain (\<lambda>_ fds. fds \<noteq> [])
                   (map (\<lambda>(k, fds). (k, filter (\<lambda>f. f \<noteq> fd) fds)) (bindings t)),
     connections := imap_retain (\<lambda>_ f. f \<noteq> fd) (connections t),
     sockets := imap_shift_remove fd (sockets t)\<rparr>"

definition find_by_bind :: "SocketTable \<Rightarrow> BindKey \<Rightarrow> Fd list" where
  "find_by_bind t key = (case imap_get (bindings t) key of None \<Rightarrow> [] | Some fds \<Rightarrow> fds)"

definition insert_binding :: "BindKey \<Rightarrow> Fd \<Rightarrow> SocketTable \<Rightarrow> SocketTable" where
  "insert_binding key fd t =
     t\<lparr>bindings := imap_insert key (find_by_bind t key @ [fd]) (bindings t)\<rparr>"

definition insert_connection ::
  "SocketAddr \<Rightarrow> SocketAddr \<Rightarrow> Fd \<Rightarrow> SocketTable \<Rightarrow> SocketTable option" where
  "insert_connection loc rem fd t =
     (if is_unspecified (sa_ip loc) then None
      else Some (t\<lparr>connections := imap_insert (loc, rem) fd (connections t)\<rparr>))"

definition find_connection :: "SocketTable \<Rightarrow> SocketAddr \<Rightarrow> SocketAddr \<Rightarrow> Fd option" where
  "find_connection t loc rem = imap_get (connections t) (loc, rem)"

definition connections_on :: "SocketTable \<Rightarrow> SocketAddr \<Rightarrow> (SocketAddr \<times> Fd) list" where
  "connections_on t loc =
     map (\<lambda>((l, r), fd). (r, fd)) (filter (\<lambda>((l, r), fd). l = loc) (connections t))"

definition bindings_on_port ::
  "SocketTable \<Rightarrow> Domain \<Rightarrow> Type \<Rightarrow> u16 \<Rightarrow> (BindKey \<times> Fd list) list" where
  "bindings_on_port t d ty p =
     filter (\<lambda>(k, _). bk_domain k = d \<and> bk_ty k = ty \<and> local_port k = p) (bindings t)"

definition port_in_use :: "SocketTable \<Rightarrow> Domain \<Rightarrow> Type \<Rightarrow> u16 \<Rightarrow> bool" where
  "port_in_use t d ty p =
     list_ex (\<lambda>k. bk_domain k = d \<and> bk_ty k = ty \<and> local_port k = p) (imap_keys (bindings t))"

definition allocate_port ::
  "Domain \<Rightarrow> Type \<Rightarrow> SocketTable \<Rightarrow> (u16 option \<times> SocketTable) option" where
  "allocate_port d ty t = do {
     (p, a) \<leftarrow> allocate (port_in_use t d ty) (ports t);
     Some (p, t\<lparr>ports := a\<rparr>)
   }"

end
