(* ===== verification/Kernel_State.thy ===== *)
theory Kernel_State
  imports Socket
begin

text \<open>
  The state of \<^verbatim>\<open>turmoil-net/src/kernel/mod.rs\<close>: configuration, the \<^verbatim>\<open>Kernel\<close> record and
  the accessors the protocol modules use. The field \<open>woken\<close> is the sequence of
  \<^verbatim>\<open>Waker::wake\<close> calls made so far; it is the only field with no counterpart in the struct.
  Sizes and counters (\<^verbatim>\<open>usize\<close>, and the \<^verbatim>\<open>u32\<close> limits of the configuration) are natural
  numbers; sequence numbers, windows and ports are words.
\<close>

section \<open>Configuration\<close>

definition DEFAULT_MTU :: nat where
  "DEFAULT_MTU = 1500"

definition DEFAULT_LOOPBACK_MTU :: nat where
  "DEFAULT_LOOPBACK_MTU = 65536"

definition DEFAULT_BACKLOG :: nat where
  "DEFAULT_BACKLOG = 1024"

definition DEFAULT_RETX_THRESHOLD :: nat where
  "DEFAULT_RETX_THRESHOLD = 3"

definition DEFAULT_RETX_MAX :: nat where
  "DEFAULT_RETX_MAX = 5"

definition DEFAULT_SEND_BUF_CAP :: nat where
  "DEFAULT_SEND_BUF_CAP = 64 * 1024"

definition DEFAULT_RECV_BUF_CAP :: nat where
  "DEFAULT_RECV_BUF_CAP = 64 * 1024"

definition EAFNOSUPPORT :: nat where
  "EAFNOSUPPORT = 97"

definition EMSGSIZE :: nat where
  "EMSGSIZE = 90"

record KernelConfig =
  cfg_mtu :: nat
  cfg_loopback_mtu :: nat
  cfg_send_buf_cap :: nat
  cfg_recv_buf_cap :: nat
  cfg_default_backlog :: nat
  cfg_retx_threshold :: nat
  cfg_retx_max :: nat

definition KernelConfig_default :: KernelConfig where
  "KernelConfig_default = \<lparr>cfg_mtu = DEFAULT_MTU, cfg_loopback_mtu = DEFAULT_LOOPBACK_MTU,
     cfg_send_buf_cap = DEFAULT_SEND_BUF_CAP, cfg_recv_buf_cap = DEFAULT_RECV_BUF_CAP,
     cfg_default_backlog = DEFAULT_BACKLOG, cfg_retx_threshold = DEFAULT_RETX_THRESHOLD,
     cfg_retx_max = DEFAULT_RETX_MAX\<rparr>"

lemmas config_defs = KernelConfig_default_def DEFAULT_MTU_def DEFAULT_LOOPBACK_MTU_def
  DEFAULT_BACKLOG_def DEFAULT_RETX_THRESHOLD_def DEFAULT_RETX_MAX_def DEFAULT_SEND_BUF_CAP_def
  DEFAULT_RECV_BUF_CAP_def

section \<open>The kernel\<close>

record Kernel =
  table :: SocketTable
  addresses :: "IpAddr list"
  mtu :: nat
  loopback_mtu :: nat
  send_buf_cap :: nat
  recv_buf_cap :: nat
  default_backlog :: nat
  retx_threshold :: nat
  retx_max :: nat
  outbound :: "Packet list"
  tcp_isn :: u32
  woken :: "waker list"

definition Kernel_with_config :: "KernelConfig \<Rightarrow> Kernel" where
  "Kernel_with_config cfg = \<lparr>table = SocketTable_new, addresses = [], mtu = cfg_mtu cfg,
     loopback_mtu = cfg_loopback_mtu cfg, send_buf_cap = cfg_send_buf_cap cfg,
     recv_buf_cap = cfg_recv_buf_cap cfg, default_backlog = cfg_default_backlog cfg,
     retx_threshold = cfg_retx_threshold cfg, retx_max = cfg_retx_max cfg, outbound = [],
     tcp_isn = 0x01000000, woken = []\<rparr>"

definition Kernel_new :: Kernel where
  "Kernel_new = Kernel_with_config KernelConfig_default"

text \<open>
  \<^verbatim>\<open>lookup\<close> and \<^verbatim>\<open>lookup_mut\<close>: \<open>None\<close> is the \<^verbatim>\<open>NotFound\<close> error, which the
  internal callers \<^verbatim>\<open>unwrap\<close>.
\<close>

definition lookup :: "Kernel \<Rightarrow> Fd \<Rightarrow> Socket option" where
  "lookup k fd = st_get (table k) fd"

definition modify :: "Fd \<Rightarrow> (Socket \<Rightarrow> Socket) \<Rightarrow> Kernel \<Rightarrow> Kernel" where
  "modify fd f k = k\<lparr>table := st_modify fd f (table k)\<rparr>"

definition put_table :: "SocketTable \<Rightarrow> Kernel \<Rightarrow> Kernel" where
  "put_table t k = k\<lparr>table := t\<rparr>"

definition wake :: "waker list \<Rightarrow> Kernel \<Rightarrow> Kernel" where
  "wake ws k = k\<lparr>woken := woken k @ ws\<rparr>"

definition add_address :: "IpAddr \<Rightarrow> Kernel \<Rightarrow> Kernel" where
  "add_address a k = (if a \<in> set (addresses k) then k else k\<lparr>addresses := addresses k @ [a]\<rparr>)"

definition is_local :: "Kernel \<Rightarrow> IpAddr \<Rightarrow> bool" where
  "is_local k a = (if is_loopback a then True else a \<in> set (addresses k))"

definition mk_socket :: "Domain \<Rightarrow> Type \<Rightarrow> Kernel \<Rightarrow> Fd \<times> Kernel" where
  "mk_socket d ty k = (let (fd, t) = st_insert (Socket_new d ty) (table k) in (fd, put_table t k))"

definition push_outbound :: "Packet \<Rightarrow> Kernel \<Rightarrow> Kernel" where
  "push_outbound p k = k\<lparr>outbound := outbound k @ [p]\<rparr>"

text \<open>The first configured address of the family of \<open>dst\<close>.\<close>

definition source_address :: "Kernel \<Rightarrow> IpAddr \<Rightarrow> IpAddr option" where
  "source_address k dst = find (\<lambda>a. is_ipv4 a = is_ipv4 dst) (addresses k)"

end
