(* ===== verification/Udp.thy ===== *)
theory Udp
  imports Kernel_State
begin

text \<open>
  \<^verbatim>\<open>turmoil-net/src/kernel/udp.rs\<close>: datagram send, receive, peek, demultiplexing of inbound
  datagrams, and the ephemeral bind that both protocols share in shape. A \<^verbatim>\<open>ReadBuf\<close> is the
  room it has left; the bytes put into it are part of the result.
\<close>

section \<open>Operations\<close>

definition udp_recv_from ::
  "Socket \<Rightarrow> waker \<Rightarrow> nat \<Rightarrow> (Addr \<times> bytes) io_result Poll \<times> Socket" where
  "udp_recv_from st w room =
     (case recv_queue st of
        (from, payload) # rest \<Rightarrow>
          (let n = min (length payload) room
           in (Ready (Ok (from, take n payload)), st\<lparr>recv_queue := rest\<rparr>))
      | [] \<Rightarrow> (Pending, register_read_waker w st))"

definition udp_recv :: "Socket \<Rightarrow> waker \<Rightarrow> nat \<Rightarrow> bytes io_result Poll \<times> Socket" where
  "udp_recv st w room =
     (case udp_recv_from st w room of
        (Ready (Inr (_, data)), st') \<Rightarrow> (Ready (Ok data), st')
      | (Ready (Inl e), st') \<Rightarrow> (Ready (Err e), st')
      | (Pending, st') \<Rightarrow> (Pending, st'))"

definition udp_peek_from ::
  "Socket \<Rightarrow> waker \<Rightarrow> nat \<Rightarrow> (Addr \<times> bytes) io_result Poll \<times> Socket" where
  "udp_peek_from st w room =
     (case recv_queue st of
        (from, payload) # rest \<Rightarrow>
          (let n = min (length payload) room in (Ready (Ok (from, take n payload)), st))
      | [] \<Rightarrow> (Pending, register_read_waker w st))"

definition udp_auto_bind ::
  "Kernel \<Rightarrow> Fd \<Rightarrow> Domain \<Rightarrow> Type \<Rightarrow> IpAddr \<Rightarrow> (BindKey io_result \<times> Kernel) option" where
  "udp_auto_bind k fd domain ty dst =
     (case (if is_loopback dst then Some (localhost_like dst) else source_address k dst) of
        None \<Rightarrow> Some (Err (Kind AddrNotAvailable), k)
      | Some local_ip \<Rightarrow> do {
          (port, t) \<leftarrow> allocate_port domain ty (table k);
          let k1 = put_table t k;
          case port of
            None \<Rightarrow> Some (Err (Kind AddrInUse), k1)
          | Some p \<Rightarrow> do {
              let key = \<lparr>bk_domain = domain, bk_ty = ty, local_addr = local_ip, local_port = p\<rparr>;
              let k2 = put_table (insert_binding key fd (table k1)) k1;
              _ \<leftarrow> lookup k2 fd;
              Some (Ok key, modify fd (\<lambda>s. s\<lparr>bound := Some key\<rparr>) k2)
            }
        })"

definition udp_max_payload :: "Kernel \<Rightarrow> SocketAddr \<Rightarrow> nat" where
  "udp_max_payload k dst =
     (let ip_hdr = (case sa_ip dst of V4 _ \<Rightarrow> IPV4_HEADER_SIZE | V6 _ \<Rightarrow> IPV6_HEADER_SIZE);
          m = (if is_loopback (sa_ip dst) then loopback_mtu k else mtu k)
      in m - ip_hdr - UDP_HEADER_SIZE)"

definition is_ipv4_broadcast :: "u32 \<Rightarrow> bool" where
  "is_ipv4_broadcast a = (a = 0xFFFFFFFF \<or> take_bit 8 a = 255)"

definition udp_src_ip :: "Kernel \<Rightarrow> BindKey \<Rightarrow> IpAddr \<Rightarrow> IpAddr" where
  "udp_src_ip k src_bind dst =
     (if is_unspecified (local_addr src_bind) then
        (if is_loopback dst then localhost_like dst
         else case source_address k dst of None \<Rightarrow> local_addr src_bind | Some a \<Rightarrow> a)
      else local_addr src_bind)"

definition udp_send_to ::
  "Kernel \<Rightarrow> Fd \<Rightarrow> bytes \<Rightarrow> SocketAddr \<Rightarrow> (nat io_result Poll \<times> Kernel) option" where
  "udp_send_to k fd buf dst = do {
     st \<leftarrow> lookup k fd;
     if (case sa_ip dst of V4 a \<Rightarrow> is_ipv4_broadcast a | V6 _ \<Rightarrow> False) \<and> \<not> broadcast st
     then Some (Ready (Err (Kind PermissionDenied)), k)
     else if length buf mod 2 ^ 32 > udp_max_payload k dst
     then Some (Ready (Err (RawOsError EMSGSIZE)), k)
     else do {
       (r, k1) \<leftarrow> (case bound st of
                     Some bk \<Rightarrow> Some (Ok bk, k)
                   | None \<Rightarrow> udp_auto_bind k fd (sk_domain st) Dgram (sa_ip dst));
       case r of
         Inl e \<Rightarrow> Some (Ready (Err e), k1)
       | Inr src_bind \<Rightarrow>
           Some (Ready (Ok (length buf)), push_outbound
             \<lparr>pkt_src = udp_src_ip k1 src_bind (sa_ip dst), pkt_dst = sa_ip dst, pkt_ttl = 64,
              pkt_payload = Udp \<lparr>ud_src_port = local_port src_bind, ud_dst_port = sa_port dst,
                                 ud_payload = buf\<rparr>\<rparr> k1)
     }
   }"

text \<open>The socket an inbound datagram is for: the exact binding first, then the wildcard.\<close>

definition ip_domain :: "IpAddr \<Rightarrow> Domain" where
  "ip_domain a = (case a of V4 _ \<Rightarrow> Inet | V6 _ \<Rightarrow> Inet6)"

definition exact_key :: "Type \<Rightarrow> IpAddr \<Rightarrow> u16 \<Rightarrow> BindKey" where
  "exact_key ty ip p = \<lparr>bk_domain = ip_domain ip, bk_ty = ty, local_addr = ip, local_port = p\<rparr>"

definition wildcard_key :: "Type \<Rightarrow> IpAddr \<Rightarrow> u16 \<Rightarrow> BindKey" where
  "wildcard_key ty ip p = \<lparr>bk_domain = ip_domain ip, bk_ty = ty,
     local_addr = unspecified_like ip, local_port = p\<rparr>"

definition first_fd :: "Fd list \<Rightarrow> Fd option" where
  "first_fd fds = (case fds of [] \<Rightarrow> None | fd # _ \<Rightarrow> Some fd)"

definition udp_target :: "Kernel \<Rightarrow> Packet \<Rightarrow> UdpDatagram \<Rightarrow> Fd option" where
  "udp_target k pkt d =
     (case first_fd (find_by_bind (table k) (exact_key Dgram (pkt_dst pkt) (ud_dst_port d))) of
        Some fd \<Rightarrow> Some fd
      | None \<Rightarrow> first_fd (find_by_bind (table k) (wildcard_key Dgram (pkt_dst pkt) (ud_dst_port d))))"

definition udp_deliver :: "Kernel \<Rightarrow> Packet \<Rightarrow> UdpDatagram \<Rightarrow> Kernel option" where
  "udp_deliver k pkt d =
     (case udp_target k pkt d of
        None \<Rightarrow> Some k
      | Some fd \<Rightarrow> do {
          st \<leftarrow> lookup k fd;
          let from = Addr_Inet (SocketAddr (pkt_src pkt) (ud_src_port d));
          if (case sk_peer st of Some peer \<Rightarrow> peer \<noteq> from | None \<Rightarrow> False) then Some k
          else do {
            let (st', ws) = wake_read (st\<lparr>recv_queue := recv_queue st @ [(from, ud_payload d)]\<rparr>);
            Some (wake ws (modify fd (\<lambda>_. st') k))
          }
        })"

end
