(* ===== verification/Tcp.thy ===== *)
theory Tcp
  imports Udp
begin

text \<open>
  \<^verbatim>\<open>turmoil-net/src/kernel/tcp.rs\<close>: the TCP state machine of a host. Each function of the
  file is a definition here; the body of \<^verbatim>\<open>handle_established\<close> is split at its three
  comment-marked stages (ACK, data, FIN) and \<^verbatim>\<open>segment_one\<close> at its loop, so that each
  stage is a function of one control block.
\<close>

section \<open>Shared helpers\<close>

definition DEFAULT_WINDOW :: u16 where
  "DEFAULT_WINDOW = 65535"

definition advertised_window :: "nat \<Rightarrow> nat \<Rightarrow> u16" where
  "advertised_window recv_cap recv_len = of_nat (min (recv_cap - recv_len) 65535)"

text \<open>\<open>None\<close> is the failed \<^verbatim>\<open>expect\<close> on an unbound socket.\<close>

definition bound_endpoint :: "Socket \<Rightarrow> SocketAddr option" where
  "bound_endpoint st =
     map_option (\<lambda>b. SocketAddr (local_addr b) (local_port b)) (bound st)"

definition mss_for :: "Kernel \<Rightarrow> IpAddr \<Rightarrow> nat" where
  "mss_for k src_ip =
     (let ip_hdr = (case src_ip of V4 _ \<Rightarrow> IPV4_HEADER_SIZE | V6 _ \<Rightarrow> IPV6_HEADER_SIZE);
          m = (if is_loopback src_ip then loopback_mtu k else mtu k)
      in m - ip_hdr - TCP_HEADER_SIZE)"

definition emit :: "SocketAddr \<Rightarrow> SocketAddr \<Rightarrow> TcpSegment \<Rightarrow> Kernel \<Rightarrow> Kernel" where
  "emit src dst seg k = push_outbound
     \<lparr>pkt_src = sa_ip src, pkt_dst = sa_ip dst, pkt_ttl = 64, pkt_payload = Tcp seg\<rparr> k"

definition initial_sequence :: "Kernel \<Rightarrow> u32 \<times> Kernel" where
  "initial_sequence k = (tcp_isn k, k\<lparr>tcp_isn := tcp_isn k + 0x10000\<rparr>)"

definition park_connect :: "Fd \<Rightarrow> waker \<Rightarrow> Kernel \<Rightarrow> Kernel option" where
  "park_connect fd w k = do {
     _ \<leftarrow> lookup k fd;
     Some (modify fd (\<lambda>s. s\<lparr>connect_waker := Some w\<rparr>) k)
   }"

definition wake_connect :: "Fd \<Rightarrow> Kernel \<Rightarrow> Kernel option" where
  "wake_connect fd k = do {
     st \<leftarrow> lookup k fd;
     let k1 = modify fd (\<lambda>s. s\<lparr>connect_waker := None\<rparr>) k;
     Some (case connect_waker st of None \<Rightarrow> k1 | Some w \<Rightarrow> wake [w] k1)
   }"

definition abort_error :: "Tcb \<Rightarrow> io_error option" where
  "abort_error t =
     (if reset t then Some (Kind ConnectionReset)
      else if timed_out t then Some (Kind TimedOut) else None)"

datatype AbortReason = Abort_Reset | Abort_TimedOut

definition abort_tcb :: "AbortReason \<Rightarrow> Tcb \<Rightarrow> Tcb" where
  "abort_tcb reason t =
     (let t1 = t\<lparr>tcb_state := Closed\<rparr>;
          t2 = (case reason of Abort_Reset \<Rightarrow> t1\<lparr>reset := True\<rparr> | Abort_TimedOut \<Rightarrow> t1\<lparr>timed_out := True\<rparr>)
      in t2\<lparr>send_buf := [], recv_buf := []\<rparr>)"

definition abort_with :: "AbortReason \<Rightarrow> Fd \<Rightarrow> Kernel \<Rightarrow> Kernel option" where
  "abort_with reason fd k = do {
     st \<leftarrow> lookup k fd;
     let st1 = st\<lparr>tcb := map_option (abort_tcb reason) (tcb st), connect_waker := None\<rparr>;
     let (st2, rd) = wake_read st1;
     let (st3, wr) = wake_write st2;
     let cw = (case connect_waker st of None \<Rightarrow> [] | Some w \<Rightarrow> [w]);
     Some (wake (cw @ rd @ wr) (modify fd (\<lambda>_. st3) k))
   }"

definition abort_connection :: "Fd \<Rightarrow> Kernel \<Rightarrow> Kernel option" where
  "abort_connection fd k = abort_with Abort_Reset fd k"

definition abort_timed_out :: "Fd \<Rightarrow> Kernel \<Rightarrow> Kernel option" where
  "abort_timed_out fd k = abort_with Abort_TimedOut fd k"

section \<open>Listeners\<close>

text \<open>The inner \<open>option\<close> is the code's result, the outer one its \<^verbatim>\<open>unwrap\<close>.\<close>

fun first_listening :: "SocketTable \<Rightarrow> Fd list \<Rightarrow> Fd option option" where
  "first_listening t [] = Some None"
| "first_listening t (fd # fds) = do {
     s \<leftarrow> st_get t fd;
     if listen s \<noteq> None then Some (Some fd) else first_listening t fds
   }"

definition find_listener :: "Kernel \<Rightarrow> SocketAddr \<Rightarrow> Fd option option" where
  "find_listener k loc =
     first_listening (table k)
       (find_by_bind (table k) (exact_key Stream (sa_ip loc) (sa_port loc)) @
        find_by_bind (table k) (wildcard_key Stream (sa_ip loc) (sa_port loc)))"

definition count_children :: "Kernel \<Rightarrow> Fd \<Rightarrow> SocketAddr \<Rightarrow> nat" where
  "count_children k listener_fd loc =
     length (filter (\<lambda>(_, fd). fd \<noteq> listener_fd \<and>
         (case Option.bind (lookup k fd) tcb of
            None \<Rightarrow> False | Some t \<Rightarrow> tcb_state t = SynReceived))
       (connections_on (table k) loc))"

definition push_to_listener :: "Fd \<Rightarrow> SocketAddr \<Rightarrow> Kernel \<Rightarrow> Kernel option" where
  "push_to_listener child loc k = do {
     lo \<leftarrow> find_listener k loc;
     case lo of
       None \<Rightarrow> Some k
     | Some listener_fd \<Rightarrow> do {
         st \<leftarrow> lookup k listener_fd;
         l \<leftarrow> listen st;
         Some (wake (accept_wakers l) (modify listener_fd
           (\<lambda>s. s\<lparr>listen := Some (l\<lparr>ready := ready l @ [child], accept_wakers := []\<rparr>)\<rparr>) k))
       }
   }"

definition new_tcb :: "TcpState \<Rightarrow> SocketAddr \<Rightarrow> u32 \<Rightarrow> u16 \<Rightarrow> u32 \<Rightarrow> Tcb" where
  "new_tcb state peer isn wnd rcv = \<lparr>tcb_state = state, tcb_peer = peer, snd_nxt = isn + 1,
     snd_una = isn + 1, snd_wnd = wnd, rcv_nxt = rcv, send_buf = [], recv_buf = [],
     wr_closed = False, peer_fin = False, fin_seq = None, reset = False, timed_out = False,
     egress_since_ack = 0, retx_attempts = 0\<rparr>"

definition accept_syn ::
  "Fd \<Rightarrow> SocketAddr \<Rightarrow> SocketAddr \<Rightarrow> TcpSegment \<Rightarrow> Kernel \<Rightarrow> Kernel option" where
  "accept_syn listener_fd loc rem s k = do {
     st \<leftarrow> lookup k listener_fd;
     l \<leftarrow> listen st;
     let in_flight = count_children k listener_fd loc;
     if in_flight + length (ready l) \<ge> backlog l then Some k
     else do {
       let (child, t1) = st_insert (Socket_new (sk_domain st) (sk_ty st)) (table k);
       let bind_key = \<lparr>bk_domain = sk_domain st, bk_ty = sk_ty st, local_addr = sa_ip loc,
                       local_port = sa_port loc\<rparr>;
       let k1 = put_table (insert_binding bind_key child t1) k;
       let (isn, k2) = initial_sequence k1;
       _ \<leftarrow> lookup k2 child;
       let k3 = modify child (\<lambda>c. c\<lparr>bound := Some bind_key, sk_peer := Some (Addr_Inet rem),
                  tcb := Some (new_tcb SynReceived rem isn (seg_window s) (seg_seq s + 1))\<rparr>) k2;
       t4 \<leftarrow> insert_connection loc rem child (table k3);
       Some (emit loc rem
         \<lparr>seg_src_port = sa_port loc, seg_dst_port = sa_port rem, seg_seq = isn,
          seg_ack = seg_seq s + 1, seg_flags = no_flags\<lparr>fl_syn := True, fl_ack := True\<rparr>,
          seg_window = DEFAULT_WINDOW, seg_payload = []\<rparr> (put_table t4 k3))
     }
   }"

section \<open>Connect\<close>

definition tcp_auto_bind ::
  "Kernel \<Rightarrow> Fd \<Rightarrow> Domain \<Rightarrow> IpAddr \<Rightarrow> (unit io_result \<times> Kernel) option" where
  "tcp_auto_bind k fd domain dst =
     (case (if is_loopback dst then Some (localhost_like dst) else source_address k dst) of
        None \<Rightarrow> Some (Err (Kind AddrNotAvailable), k)
      | Some local_ip \<Rightarrow> do {
          (port, t) \<leftarrow> allocate_port domain Stream (table k);
          let k1 = put_table t k;
          case port of
            None \<Rightarrow> Some (Err (Kind AddrInUse), k1)
          | Some p \<Rightarrow> do {
              let key = \<lparr>bk_domain = domain, bk_ty = Stream, local_addr = local_ip, local_port = p\<rparr>;
              let k2 = put_table (insert_binding key fd (table k1)) k1;
              _ \<leftarrow> lookup k2 fd;
              Some (Ok (), modify fd (\<lambda>s. s\<lparr>bound := Some key\<rparr>) k2)
            }
        })"

definition local_endpoint :: "Kernel \<Rightarrow> Fd \<Rightarrow> SocketAddr option" where
  "local_endpoint k fd = do {
     st \<leftarrow> lookup k fd;
     bind \<leftarrow> bound st;
     let ip = (if is_unspecified (local_addr bind) then
                 (case map_option (\<lambda>t. sa_ip (tcb_peer t)) (tcb st) of
                    Some p \<Rightarrow> if is_loopback p then localhost_like p
                              else (case source_address k p of None \<Rightarrow> local_addr bind | Some a \<Rightarrow> a)
                  | None \<Rightarrow> local_addr bind)
               else local_addr bind);
     Some (SocketAddr ip (local_port bind))
   }"

text \<open>The second half of \<^verbatim>\<open>poll_connect\<close>: allocate the control block, send the SYN and park.\<close>

definition connect_syn :: "Kernel \<Rightarrow> Fd \<Rightarrow> waker \<Rightarrow> SocketAddr \<Rightarrow> (unit io_result Poll \<times> Kernel) option" where
  "connect_syn k fd w peer = do {
     src \<leftarrow> local_endpoint k fd;
     let (isn, k1) = initial_sequence k;
     _ \<leftarrow> lookup k1 fd;
     let k2 = modify fd (\<lambda>s. s\<lparr>tcb := Some (new_tcb SynSent peer isn DEFAULT_WINDOW 0),
                               sk_peer := Some (Addr_Inet peer)\<rparr>) k1;
     t3 \<leftarrow> insert_connection src peer fd (table k2);
     let k4 = emit src peer
       \<lparr>seg_src_port = sa_port src, seg_dst_port = sa_port peer, seg_seq = isn, seg_ack = 0,
        seg_flags = no_flags\<lparr>fl_syn := True\<rparr>, seg_window = DEFAULT_WINDOW,
        seg_payload = []\<rparr> (put_table t3 k2);
     k5 \<leftarrow> park_connect fd w k4;
     Some (Pending, k5)
   }"

definition tcp_poll_connect ::
  "Kernel \<Rightarrow> Fd \<Rightarrow> waker \<Rightarrow> Domain \<Rightarrow> SocketAddr \<Rightarrow> bool \<Rightarrow> (unit io_result Poll \<times> Kernel) option" where
  "tcp_poll_connect k fd w domain peer is_bound = do {
     st \<leftarrow> lookup k fd;
     case tcb st of
       Some t \<Rightarrow>
         (case tcb_state t of
            Established \<Rightarrow> Some (Ready (Ok ()), k)
          | SynSent \<Rightarrow> do { k1 \<leftarrow> park_connect fd w k; Some (Pending, k1) }
          | SynReceived \<Rightarrow> do { k1 \<leftarrow> park_connect fd w k; Some (Pending, k1) }
          | _ \<Rightarrow> Some (Ready (Err (Kind (if timed_out t then TimedOut else ConnectionRefused))), k))
     | None \<Rightarrow> do {
         (r, k1) \<leftarrow> (if is_bound then Some (Ok (), k) else tcp_auto_bind k fd domain (sa_ip peer));
         case r of
           Inl e \<Rightarrow> Some (Ready (Err e), k1)
         | Inr _ \<Rightarrow> connect_syn k1 fd w peer
       }
   }"

section \<open>Inbound segments\<close>

definition emit_rst :: "SocketAddr \<Rightarrow> SocketAddr \<Rightarrow> TcpSegment \<Rightarrow> Kernel \<Rightarrow> Kernel" where
  "emit_rst loc rem s k =
     (let (sq, ak, ack_flag) =
        (if fl_ack (seg_flags s) then (seg_ack s, 0, False)
         else (0, seg_seq s + (of_nat (length (seg_payload s)) + (if fl_syn (seg_flags s) then 1 else 0)
                  + (if fl_fin (seg_flags s) then 1 else 0)), True))
      in emit loc rem
           \<lparr>seg_src_port = sa_port loc, seg_dst_port = sa_port rem, seg_seq = sq, seg_ack = ak,
            seg_flags = no_flags\<lparr>fl_rst := True, fl_ack := ack_flag\<rparr>, seg_window = 0,
            seg_payload = []\<rparr> k)"

text \<open>The pure acknowledgement sent after accepted data, FIN, SYN-ACK or a window update.\<close>

definition ack_segment :: "SocketAddr \<Rightarrow> SocketAddr \<Rightarrow> Tcb \<Rightarrow> u16 \<Rightarrow> TcpSegment" where
  "ack_segment loc rem t window =
     \<lparr>seg_src_port = sa_port loc, seg_dst_port = sa_port rem, seg_seq = snd_nxt t,
      seg_ack = rcv_nxt t, seg_flags = no_flags\<lparr>fl_ack := True\<rparr>, seg_window = window,
      seg_payload = []\<rparr>"

definition fin_acked_state :: "TcpState \<Rightarrow> TcpState" where
  "fin_acked_state s =
     (case s of FinWait1 \<Rightarrow> FinWait2 | Closing \<Rightarrow> Closed | LastAck \<Rightarrow> Closed | other \<Rightarrow> other)"

definition fin_received_state :: "TcpState \<Rightarrow> TcpState" where
  "fin_received_state s =
     (case s of Established \<Rightarrow> CloseWait | FinWait1 \<Rightarrow> Closing | FinWait2 \<Rightarrow> Closed | other \<Rightarrow> other)"

text \<open>
  The ACK stage. \<^verbatim>\<open>split_to\<close> past the end of the buffer does not return.
\<close>

definition est_ack :: "TcpSegment \<Rightarrow> Tcb \<Rightarrow> Tcb option" where
  "est_ack s t =
     (if \<not> fl_ack (seg_flags s) then Some t
      else do {
        let acked = seg_ack s - snd_una t;
        let in_flight = snd_nxt t - snd_una t;
        t1 \<leftarrow> (if 0 < acked \<and> acked \<le> in_flight then do {
                 let fin_acked = (case fin_seq t of None \<Rightarrow> False | Some fs \<Rightarrow> seg_ack s = fs + 1);
                 let data_bytes = (if fin_acked then acked - 1 else acked);
                 if 0 < data_bytes \<and> length (send_buf t) < unat data_bytes then None
                 else Some (t\<lparr>send_buf := drop (unat data_bytes) (send_buf t), snd_una := seg_ack s,
                             egress_since_ack := 0, retx_attempts := 0,
                             tcb_state := if fin_acked then fin_acked_state (tcb_state t)
                                          else tcb_state t\<rparr>)
               }
               else Some t);
        Some (t1\<lparr>snd_wnd := seg_window s\<rparr>)
      })"

text \<open>The data stage; the second component says that bytes were accepted.\<close>

definition est_data :: "nat \<Rightarrow> TcpSegment \<Rightarrow> Tcb \<Rightarrow> Tcb \<times> bool" where
  "est_data recv_cap s t =
     (if seg_payload s \<noteq> [] \<and> seg_seq s = rcv_nxt t \<and> \<not> peer_fin t then
        (let room = recv_cap - length (recv_buf t);
             n = min (length (seg_payload s)) room
         in if 0 < n then
              (t\<lparr>recv_buf := recv_buf t @ take n (seg_payload s),
                 rcv_nxt := rcv_nxt t + of_nat n\<rparr>, True)
            else (t, False))
      else (t, False))"

text \<open>The FIN stage; the second component says that the FIN was accepted.\<close>

definition est_fin :: "TcpSegment \<Rightarrow> Tcb \<Rightarrow> Tcb \<times> bool" where
  "est_fin s t =
     (if fl_fin (seg_flags s) \<and> \<not> peer_fin t \<and>
         seg_seq s + of_nat (length (seg_payload s)) = rcv_nxt t
      then (t\<lparr>peer_fin := True, rcv_nxt := rcv_nxt t + 1,
              tcb_state := fin_received_state (tcb_state t)\<rparr>, True)
      else (t, False))"

definition handle_established ::
  "Fd \<Rightarrow> SocketAddr \<Rightarrow> SocketAddr \<Rightarrow> TcpSegment \<Rightarrow> Kernel \<Rightarrow> Kernel option" where
  "handle_established fd loc rem s k = do {
     let recv_cap = recv_buf_cap k;
     st \<leftarrow> lookup k fd;
     t \<leftarrow> tcb st;
     t1 \<leftarrow> est_ack s t;
     let (t2, got_data) = est_data recv_cap s t1;
     let (t3, got_fin) = est_fin s t2;
     let st1 = st\<lparr>tcb := Some t3\<rparr>;
     let (st2, wr) = (if fl_ack (seg_flags s) then wake_write st1 else (st1, []));
     let (st3, rd) = (if got_data \<or> got_fin then wake_read st2 else (st2, []));
     let k1 = wake (wr @ rd) (modify fd (\<lambda>_. st3) k);
     if got_data \<or> got_fin then
       Some (emit loc rem
         (ack_segment loc rem t3 (advertised_window recv_cap (length (recv_buf t3)))) k1)
     else Some k1
   }"

definition handle_on_connection ::
  "Fd \<Rightarrow> SocketAddr \<Rightarrow> SocketAddr \<Rightarrow> TcpSegment \<Rightarrow> Kernel \<Rightarrow> Kernel option" where
  "handle_on_connection fd loc rem s k =
     (if fl_rst (seg_flags s) then abort_connection fd k
      else do {
        st \<leftarrow> lookup k fd;
        t \<leftarrow> tcb st;
        if tcb_state t = SynSent \<and> fl_syn (seg_flags s) \<and> fl_ack (seg_flags s) then do {
          let t1 = t\<lparr>tcb_state := Established, rcv_nxt := seg_seq s + 1, snd_wnd := seg_window s\<rparr>;
          k1 \<leftarrow> wake_connect fd (modify fd (\<lambda>st. st\<lparr>tcb := Some t1\<rparr>) k);
          Some (emit loc rem (ack_segment loc rem t1 (advertised_window (recv_buf_cap k) 0)) k1)
        }
        else if tcb_state t = SynReceived \<and> fl_ack (seg_flags s) \<and> \<not> fl_syn (seg_flags s) then
          (if seg_ack s \<noteq> snd_nxt t then Some k
           else push_to_listener fd loc
             (modify fd (\<lambda>st. st\<lparr>tcb := Some (t\<lparr>tcb_state := Established,
                                               snd_wnd := seg_window s\<rparr>)\<rparr>) k))
        else if tcb_state t \<in> {Established, FinWait1, FinWait2, CloseWait, Closing, LastAck} then
          handle_established fd loc rem s k
        else Some k
      })"

definition tcp_deliver :: "Kernel \<Rightarrow> Packet \<Rightarrow> TcpSegment \<Rightarrow> Kernel option" where
  "tcp_deliver k pkt s =
     (let loc = SocketAddr (pkt_dst pkt) (seg_dst_port s);
          rem = SocketAddr (pkt_src pkt) (seg_src_port s)
      in case find_connection (table k) loc rem of
           Some fd \<Rightarrow> handle_on_connection fd loc rem s k
         | None \<Rightarrow>
             if fl_syn (seg_flags s) \<and> \<not> fl_ack (seg_flags s) then do {
               lo \<leftarrow> find_listener k loc;
               case lo of
                 Some listener \<Rightarrow> accept_syn listener loc rem s k
               | None \<Rightarrow> Some (emit_rst loc rem s k)
             }
             else if \<not> fl_rst (seg_flags s) then Some (emit_rst loc rem s k)
             else Some k)"

end
