(* ===== verification/Tcp_Calls.thy ===== *)
theory Tcp_Calls
  imports Tcp
begin

text \<open>
  The rest of \<^verbatim>\<open>turmoil-net/src/kernel/tcp.rs\<close>: the calls of the application (send,
  receive, peek, shutdown, close) and the three sweeps of an egress pass (retransmission,
  segmentation, reaping).
\<close>

section \<open>Close\<close>

definition shutdown_state :: "TcpState \<Rightarrow> TcpState" where
  "shutdown_state s = (case s of Established \<Rightarrow> FinWait1 | CloseWait \<Rightarrow> LastAck | other \<Rightarrow> other)"

text \<open>Queue a FIN after the bytes in \<^verbatim>\<open>send_buf\<close> and close the write side.\<close>

definition queue_fin :: "Tcb \<Rightarrow> Tcb" where
  "queue_fin t = t\<lparr>fin_seq := Some (snd_una t + of_nat (length (send_buf t))), wr_closed := True,
     tcb_state := shutdown_state (tcb_state t)\<rparr>"

definition rst_segment :: "SocketAddr \<Rightarrow> SocketAddr \<Rightarrow> Tcb \<Rightarrow> TcpSegment" where
  "rst_segment loc rem t =
     \<lparr>seg_src_port = sa_port loc, seg_dst_port = sa_port rem, seg_seq = snd_nxt t,
      seg_ack = rcv_nxt t, seg_flags = no_flags\<lparr>fl_rst := True, fl_ack := True\<rparr>, seg_window = 0,
      seg_payload = []\<rparr>"

datatype Action =
    Reap | Linger_Action | Rst SocketAddr SocketAddr | CloseListener SocketAddr

definition close_action :: "Socket \<Rightarrow> Action option" where
  "close_action st =
     (if sk_ty st = Stream \<and> tcb st = None \<and> listen st \<noteq> None then
        map_option CloseListener (bound_endpoint st)
      else case (sk_ty st, tcb st) of
        (Stream, Some t) \<Rightarrow>
          if \<not> reset t \<and> \<not> timed_out t \<and> tcb_state t \<noteq> Closed \<and> tcb_state t \<noteq> SynSent \<and>
             tcb_state t \<noteq> SynReceived then
            (if recv_buf t \<noteq> [] then
               map_option (\<lambda>loc. Rst loc (tcb_peer t)) (bound_endpoint st)
             else Some Linger_Action)
          else Some Reap
      | _ \<Rightarrow> Some Reap)"

text \<open>
  The unaccepted children of a closing listener: its accept queue, then every half-open
  connection on the listener's port (and address, unless the listener is a wildcard).
\<close>

definition half_open_on :: "SocketAddr \<Rightarrow> Socket \<Rightarrow> bool" where
  "half_open_on loc st =
     (case (tcb st, bound st) of
        (Some t, Some b) \<Rightarrow>
          tcb_state t = SynReceived \<and> local_port b = sa_port loc \<and>
          (is_unspecified (sa_ip loc) \<or> local_addr b = sa_ip loc)
      | _ \<Rightarrow> False)"

definition unaccepted_children :: "Kernel \<Rightarrow> Fd \<Rightarrow> SocketAddr \<Rightarrow> Fd list" where
  "unaccepted_children k fd loc =
     (let queued = (case Option.bind (lookup k fd) listen of None \<Rightarrow> [] | Some l \<Rightarrow> ready l)
      in queued @ map fst (filter (\<lambda>(c, st). c \<noteq> fd \<and> c \<notin> set queued \<and> half_open_on loc st)
                             (sockets (table k))))"

fun reset_children :: "Fd list \<Rightarrow> Kernel \<Rightarrow> Kernel option" where
  "reset_children [] k = Some k"
| "reset_children (c # cs) k =
     (case lookup k c of
        None \<Rightarrow> reset_children cs k
      | Some st \<Rightarrow>
          (case tcb st of
             None \<Rightarrow> reset_children cs (put_table (st_remove c (table k)) k)
           | Some t \<Rightarrow> do {
               child_local \<leftarrow> bound_endpoint st;
               let k1 = emit child_local (tcb_peer t) (rst_segment child_local (tcb_peer t) t) k;
               reset_children cs (put_table (st_remove c (table k1)) k1)
             }))"

definition on_close :: "Fd \<Rightarrow> Kernel \<Rightarrow> (bool \<times> Kernel) option" where
  "on_close fd k =
     (case lookup k fd of
        None \<Rightarrow> Some (True, k)
      | Some st \<Rightarrow> do {
          action \<leftarrow> close_action st;
          case action of
            Reap \<Rightarrow> Some (True, k)
          | Rst loc rem \<Rightarrow> do {
              t \<leftarrow> tcb st;
              Some (True, emit loc rem (rst_segment loc rem t) k)
            }
          | Linger_Action \<Rightarrow> do {
              t \<leftarrow> tcb st;
              Some (False, modify fd (\<lambda>s. s\<lparr>fd_closed := True,
                 tcb := Some (if wr_closed t then t else queue_fin t)\<rparr>) k)
            }
          | CloseListener loc \<Rightarrow> do {
              k1 \<leftarrow> reset_children (unaccepted_children k fd loc) k;
              Some (True, k1)
            }
        })"

definition reapable :: "Socket \<Rightarrow> bool" where
  "reapable s \<longleftrightarrow> fd_closed s \<and>
     (case tcb s of None \<Rightarrow> True | Some t \<Rightarrow> tcb_state t = Closed \<or> reset t)"

definition reap_closed :: "Kernel \<Rightarrow> Kernel" where
  "reap_closed k =
     (let victims = map fst (filter (\<lambda>(_, s). reapable s) (sockets (table k)))
      in fold (\<lambda>fd k. put_table (st_remove fd (table k)) k) victims k)"

section \<open>Send, shutdown, receive\<close>

definition tcp_poll_send ::
  "Kernel \<Rightarrow> Fd \<Rightarrow> waker \<Rightarrow> bytes \<Rightarrow> nat io_result Poll \<times> Kernel" where
  "tcp_poll_send k fd w buf =
     (case lookup k fd of
        None \<Rightarrow> (Ready (Err (Kind NotFound)), k)
      | Some st \<Rightarrow>
        (case tcb st of
           None \<Rightarrow> (Ready (Err (Kind NotConnected)), k)
         | Some t \<Rightarrow>
           (case abort_error t of
              Some e \<Rightarrow> (Ready (Err e), k)
            | None \<Rightarrow>
                if wr_closed t then (Ready (Err (Kind BrokenPipe)), k)
                else if tcb_state t \<notin> {Established, CloseWait} then
                  (Ready (Err (Kind NotConnected)), k)
                else
                  (let space = send_buf_cap k - length (send_buf t)
                   in if space = 0 then (Pending, modify fd (register_write_waker w) k)
                      else
                        (let n = min (length buf) space
                         in (Ready (Ok n), modify fd (\<lambda>s. s\<lparr>tcb :=
                              Some (t\<lparr>send_buf := send_buf t @ take n buf\<rparr>)\<rparr>) k))))))"

definition tcp_poll_shutdown_write :: "Kernel \<Rightarrow> Fd \<Rightarrow> unit io_result Poll \<times> Kernel" where
  "tcp_poll_shutdown_write k fd =
     (case lookup k fd of
        None \<Rightarrow> (Ready (Err (Kind NotFound)), k)
      | Some st \<Rightarrow>
        (case tcb st of
           None \<Rightarrow> (Ready (Err (Kind NotConnected)), k)
         | Some t \<Rightarrow>
           (case abort_error t of
              Some e \<Rightarrow> (Ready (Err e), k)
            | None \<Rightarrow>
                if wr_closed t then (Ready (Ok ()), k)
                else (Ready (Ok ()), modify fd (\<lambda>s. s\<lparr>tcb := Some (queue_fin t)\<rparr>) k))))"

text \<open>
  The scatter loop of \<^verbatim>\<open>poll_recv_vectored\<close>: how many bytes were copied, what is left of
  the receive buffer, and the caller's buffers afterwards.
\<close>

fun drain_into :: "bytes \<Rightarrow> bytes list \<Rightarrow> nat \<times> bytes \<times> bytes list" where
  "drain_into rb [] = (0, rb, [])"
| "drain_into rb (b # bs) =
     (let len = min (length rb) (length b);
          rest = drop len rb;
          b' = take len rb @ drop len b
      in if rest = [] then (len, rest, b' # bs)
         else (let (n, rest', bs') = drain_into rest bs in (len + n, rest', b' # bs')))"

definition readable_state :: "TcpState \<Rightarrow> bool" where
  "readable_state s \<longleftrightarrow> s \<in> {Established, FinWait1, FinWait2, CloseWait}"

definition tcp_poll_recv_vectored ::
  "Kernel \<Rightarrow> Fd \<Rightarrow> waker option \<Rightarrow> bytes list \<Rightarrow> (nat io_result Poll \<times> bytes list \<times> Kernel) option" where
  "tcp_poll_recv_vectored k fd cx bufs =
     (case lookup k fd of
        None \<Rightarrow> Some (Ready (Err (Kind NotFound)), bufs, k)
      | Some st \<Rightarrow>
        (case tcb st of
           None \<Rightarrow> Some (Ready (Err (Kind NotConnected)), bufs, k)
         | Some t \<Rightarrow>
           (case abort_error t of
              Some e \<Rightarrow> Some (Ready (Err e), bufs, k)
            | None \<Rightarrow>
                if recv_buf t = [] then
                  (if peer_fin t then Some (Ready (Ok 0), bufs, k)
                   else if \<not> readable_state (tcb_state t) then
                     Some (Ready (Err (Kind NotConnected)), bufs, k)
                   else Some (Pending, bufs,
                     (case cx of None \<Rightarrow> k | Some w \<Rightarrow> modify fd (register_read_waker w) k)))
                else do {
                  loc \<leftarrow> bound_endpoint st;
                  let (n, rest, bufs') = drain_into (recv_buf t) bufs;
                  let t1 = t\<lparr>recv_buf := rest\<rparr>;
                  let k1 = modify fd (\<lambda>s. s\<lparr>tcb := Some t1\<rparr>) k;
                  let k2 = (if n \<ge> recv_buf_cap k div 2 then
                              emit loc (tcb_peer t) (ack_segment loc (tcb_peer t) t1
                                (advertised_window (recv_buf_cap k) (length (recv_buf t1)))) k1
                            else k1);
                  Some (Ready (Ok n), bufs', k2)
                })))"

definition tcp_poll_recv ::
  "Kernel \<Rightarrow> Fd \<Rightarrow> waker \<Rightarrow> bytes \<Rightarrow> (nat io_result Poll \<times> bytes \<times> Kernel) option" where
  "tcp_poll_recv k fd w buf = do {
     (r, bufs, k1) \<leftarrow> tcp_poll_recv_vectored k fd (Some w) [buf];
     Some (r, hd bufs, k1)
   }"

definition tcp_poll_peek ::
  "Kernel \<Rightarrow> Fd \<Rightarrow> waker \<Rightarrow> bytes \<Rightarrow> nat io_result Poll \<times> bytes \<times> Kernel" where
  "tcp_poll_peek k fd w buf =
     (case lookup k fd of
        None \<Rightarrow> (Ready (Err (Kind NotFound)), buf, k)
      | Some st \<Rightarrow>
        (case tcb st of
           None \<Rightarrow> (Ready (Err (Kind NotConnected)), buf, k)
         | Some t \<Rightarrow>
           (case abort_error t of
              Some e \<Rightarrow> (Ready (Err e), buf, k)
            | None \<Rightarrow>
                if recv_buf t = [] then
                  (if peer_fin t then (Ready (Ok 0), buf, k)
                   else if \<not> readable_state (tcb_state t) then
                     (Ready (Err (Kind NotConnected)), buf, k)
                   else (Pending, buf, modify fd (register_read_waker w) k))
                else
                  (let n = min (length (recv_buf t)) (length buf)
                   in (Ready (Ok n), take n (recv_buf t) @ drop n buf, k)))))"

section \<open>Retransmission\<close>

definition retx_candidate :: "Socket \<Rightarrow> bool" where
  "retx_candidate st =
     (case tcb st of
        None \<Rightarrow> False
      | Some t \<Rightarrow>
          tcb_state t \<in> {SynSent, SynReceived} \<or>
          (tcb_state t \<in> {Established, CloseWait, FinWait1, Closing, LastAck} \<and>
           snd_una t \<noteq> snd_nxt t))"

datatype RetxOutcome = Retx_Wait | Retx_Abort | Retx_Handshake | Retx_Rewind

text \<open>One candidate of the sweep: the new control block and what to do with the socket.\<close>

definition retx_one :: "nat \<Rightarrow> nat \<Rightarrow> Tcb \<Rightarrow> Tcb \<times> RetxOutcome" where
  "retx_one threshold mx t =
     (let t1 = t\<lparr>egress_since_ack := egress_since_ack t + 1\<rparr>
      in if egress_since_ack t1 < threshold then (t1, Retx_Wait)
         else if retx_attempts t1 \<ge> mx then (t1, Retx_Abort)
         else
           (let t2 = t1\<lparr>retx_attempts := retx_attempts t1 + 1, egress_since_ack := 0\<rparr>
            in if tcb_state t2 \<in> {SynSent, SynReceived} then (t2, Retx_Handshake)
               else (t2\<lparr>snd_nxt := snd_una t2\<rparr>, Retx_Rewind)))"

fun retx_sweep :: "Fd list \<Rightarrow> Kernel \<Rightarrow> (Kernel \<times> Fd list \<times> Fd list) option" where
  "retx_sweep [] k = Some (k, [], [])"
| "retx_sweep (fd # fds) k = do {
     st \<leftarrow> lookup k fd;
     t \<leftarrow> tcb st;
     let (t1, outcome) = retx_one (retx_threshold k) (retx_max k) t;
     (k1, abort, resend) \<leftarrow> retx_sweep fds (modify fd (\<lambda>s. s\<lparr>tcb := Some t1\<rparr>) k);
     Some (k1, if outcome = Retx_Abort then fd # abort else abort,
               if outcome = Retx_Handshake then fd # resend else resend)
   }"

definition emit_handshake :: "Fd \<Rightarrow> Kernel \<Rightarrow> Kernel option" where
  "emit_handshake fd k = do {
     st \<leftarrow> lookup k fd;
     t \<leftarrow> tcb st;
     loc \<leftarrow> bound_endpoint st;
     (ack_flag, ack) \<leftarrow> (case tcb_state t of
                            SynSent \<Rightarrow> Some (False, 0)
                          | SynReceived \<Rightarrow> Some (True, rcv_nxt t)
                          | _ \<Rightarrow> None);
     Some (emit loc (tcb_peer t)
       \<lparr>seg_src_port = sa_port loc, seg_dst_port = sa_port (tcb_peer t), seg_seq = snd_una t - 1,
        seg_ack = ack, seg_flags = no_flags\<lparr>fl_syn := True, fl_ack := ack_flag\<rparr>,
        seg_window = DEFAULT_WINDOW, seg_payload = []\<rparr> k)
   }"

fun for_fds :: "(Fd \<Rightarrow> Kernel \<Rightarrow> Kernel option) \<Rightarrow> Fd list \<Rightarrow> Kernel \<Rightarrow> Kernel option" where
  "for_fds f [] k = Some k"
| "for_fds f (fd # fds) k = do { k1 \<leftarrow> f fd k; for_fds f fds k1 }"

definition check_retx :: "Kernel \<Rightarrow> Kernel option" where
  "check_retx k = do {
     let candidates = map fst (filter (\<lambda>(_, s). retx_candidate s) (sockets (table k)));
     (k1, abort, resend) \<leftarrow> retx_sweep candidates k;
     k2 \<leftarrow> for_fds emit_handshake resend k1;
     for_fds abort_timed_out abort k2
   }"

section \<open>Segmentation\<close>

definition fin_pending :: "Tcb \<Rightarrow> bool" where
  "fin_pending t = (case fin_seq t of None \<Rightarrow> False | Some fs \<Rightarrow> snd_nxt t = fs)"

definition segment_candidate :: "Socket \<Rightarrow> bool" where
  "segment_candidate s =
     (case tcb s of
        None \<Rightarrow> False
      | Some t \<Rightarrow>
          tcb_state t \<in> {Established, CloseWait, FinWait1, Closing, LastAck} \<and>
          (unat (snd_nxt t - snd_una t) < length (send_buf t) \<or> fin_pending t))"

text \<open>
  One turn of the loop of \<^verbatim>\<open>segment_one\<close> on the control block: the sequence number, the
  payload and the FIN flag of the segment to send, or \<open>None\<close> when the loop returns.
\<close>

definition segment_next :: "nat \<Rightarrow> Tcb \<Rightarrow> (u32 \<times> bytes \<times> bool \<times> Tcb) option" where
  "segment_next mss t =
     (let in_flight = unat (snd_nxt t - snd_una t);
          unsent = length (send_buf t) - in_flight;
          wnd_remaining = unat (snd_wnd t) - in_flight
      in if 0 < unsent \<and> 0 < wnd_remaining then
           (let n = min (min unsent mss) wnd_remaining
            in Some (snd_nxt t, take n (drop in_flight (send_buf t)), False,
                     t\<lparr>snd_nxt := snd_nxt t + of_nat n\<rparr>))
         else if fin_pending t \<and> 0 < wnd_remaining then
           Some (snd_nxt t, [], True, t\<lparr>snd_nxt := snd_nxt t + 1\<rparr>)
         else None)"

definition data_segment :: "SocketAddr \<Rightarrow> nat \<Rightarrow> Tcb \<Rightarrow> u32 \<Rightarrow> bytes \<Rightarrow> bool \<Rightarrow> TcpSegment" where
  "data_segment loc recv_cap t sq payload is_fin =
     \<lparr>seg_src_port = sa_port loc, seg_dst_port = sa_port (tcb_peer t), seg_seq = sq,
      seg_ack = rcv_nxt t,
      seg_flags = no_flags\<lparr>fl_ack := True, fl_psh := \<not> is_fin \<and> payload \<noteq> [], fl_fin := is_fin\<rparr>,
      seg_window = advertised_window recv_cap (length (recv_buf t)), seg_payload = payload\<rparr>"

partial_function (option) segment_loop ::
  "Fd \<Rightarrow> SocketAddr \<Rightarrow> nat \<Rightarrow> Kernel \<Rightarrow> Kernel option" where
  "segment_loop fd loc mss k = do {
     st \<leftarrow> lookup k fd;
     t \<leftarrow> tcb st;
     case segment_next mss t of
       None \<Rightarrow> Some k
     | Some (sq, payload, is_fin, t1) \<Rightarrow>
         segment_loop fd loc mss
           (emit loc (tcb_peer t1) (data_segment loc (recv_buf_cap k) t1 sq payload is_fin)
             (modify fd (\<lambda>s. s\<lparr>tcb := Some t1\<rparr>) k))
   }"

definition segment_one :: "Fd \<Rightarrow> Kernel \<Rightarrow> Kernel option" where
  "segment_one fd k = do {
     st \<leftarrow> lookup k fd;
     loc \<leftarrow> bound_endpoint st;
     segment_loop fd loc (mss_for k (sa_ip loc)) k
   }"

definition segment_all :: "Kernel \<Rightarrow> Kernel option" where
  "segment_all k =
     for_fds segment_one (map fst (filter (\<lambda>(_, s). segment_candidate s) (sockets (table k)))) k"

end
