(* ===== verification/Kernel.thy ===== *)
theory Kernel
  imports Tcp_Calls
begin

text \<open>
  The system calls of \<^verbatim>\<open>turmoil-net/src/kernel/mod.rs\<close>, the inbound dispatch
  \<^verbatim>\<open>deliver\<close> and the outbound pump \<^verbatim>\<open>egress\<close>. Calls return \<open>None\<close> where the code panics
  (an \<^verbatim>\<open>AF_UNIX\<close> address, a socket of the wrong type, an option that is not implemented).
\<close>

section \<open>Sockets and options\<close>

definition kernel_open :: "Kernel \<Rightarrow> Domain \<Rightarrow> Type \<Rightarrow> Fd \<times> Kernel" where
  "kernel_open k d ty = mk_socket d ty k"

definition kernel_close :: "Kernel \<Rightarrow> Fd \<Rightarrow> Kernel option" where
  "kernel_close k fd = do {
     (reap, k1) \<leftarrow> on_close fd k;
     Some (if reap then put_table (st_remove fd (table k1)) k1 else k1)
   }"

definition bind_conflict :: "Kernel \<Rightarrow> BindKey \<Rightarrow> bool" where
  "bind_conflict k key =
     list_ex (\<lambda>(existing, _). local_addr existing = local_addr key \<or>
                is_unspecified (local_addr existing) \<or> is_unspecified (local_addr key))
       (bindings_on_port (table k) (bk_domain key) (bk_ty key) (local_port key))"

text \<open>The two halves of \<^verbatim>\<open>bind\<close>: the port, then the conflict check and the new socket.\<close>

definition bind_port :: "Kernel \<Rightarrow> Domain \<Rightarrow> Type \<Rightarrow> u16 \<Rightarrow> (u16 option \<times> Kernel) option" where
  "bind_port k domain ty port =
     (if port = 0 then do {
        (p, t) \<leftarrow> allocate_port domain ty (table k);
        Some (p, put_table t k)
      }
      else Some (Some port, k))"

definition bind_key_to :: "Kernel \<Rightarrow> BindKey \<Rightarrow> (Fd io_result \<times> Kernel) option" where
  "bind_key_to k key =
     (if bind_conflict k key then Some (Err (Kind AddrInUse), k)
      else do {
        let (fd, k1) = mk_socket (bk_domain key) (bk_ty key) k;
        let k2 = put_table (insert_binding key fd (table k1)) k1;
        _ \<leftarrow> lookup k2 fd;
        Some (Ok fd, modify fd (\<lambda>s. s\<lparr>bound := Some key\<rparr>) k2)
      })"

definition kernel_bind :: "Kernel \<Rightarrow> Addr \<Rightarrow> Type \<Rightarrow> (Fd io_result \<times> Kernel) option" where
  "kernel_bind k addr ty =
     (case addr of
        Addr_Unix _ \<Rightarrow> None
      | Addr_Inet sa \<Rightarrow> do {
          let domain = ip_domain (sa_ip sa);
          if \<not> is_unspecified (sa_ip sa) \<and> \<not> is_local k (sa_ip sa) then
            Some (Err (Kind AddrNotAvailable), k)
          else do {
            (port, k1) \<leftarrow> bind_port k domain ty (sa_port sa);
            case port of
              None \<Rightarrow> Some (Err (Kind AddrInUse), k1)
            | Some p \<Rightarrow> bind_key_to k1
                \<lparr>bk_domain = domain, bk_ty = ty, local_addr = sa_ip sa, local_port = p\<rparr>
          }
        })"

definition set_option :: "Kernel \<Rightarrow> Fd \<Rightarrow> SocketOption \<Rightarrow> (unit io_result \<times> Kernel) option" where
  "set_option k fd opt =
     (case lookup k fd of
        None \<Rightarrow> Some (Err (Kind NotFound), k)
      | Some _ \<Rightarrow>
          (case opt of
             Broadcast v \<Rightarrow> Some (Ok (), modify fd (\<lambda>s. s\<lparr>broadcast := v\<rparr>) k)
           | IpTtl v \<Rightarrow> Some (Ok (), modify fd (\<lambda>s. s\<lparr>ttl := v\<rparr>) k)
           | TcpNoDelay v \<Rightarrow> Some (Ok (), modify fd (\<lambda>s. s\<lparr>tcp_nodelay := v\<rparr>) k)
           | _ \<Rightarrow> None))"

definition get_option :: "Kernel \<Rightarrow> Fd \<Rightarrow> SocketOptionKind \<Rightarrow> SocketOption io_result option" where
  "get_option k fd kind =
     (case lookup k fd of
        None \<Rightarrow> Some (Err (Kind NotFound))
      | Some st \<Rightarrow>
          (case kind of
             K_Broadcast \<Rightarrow> Some (Ok (Broadcast (broadcast st)))
           | K_IpTtl \<Rightarrow> Some (Ok (IpTtl (ttl st)))
           | K_TcpNoDelay \<Rightarrow> Some (Ok (TcpNoDelay (tcp_nodelay st)))
           | _ \<Rightarrow> None))"

definition kernel_local_addr :: "Kernel \<Rightarrow> Fd \<Rightarrow> Addr io_result" where
  "kernel_local_addr k fd =
     (case lookup k fd of
        None \<Rightarrow> Err (Kind NotFound)
      | Some st \<Rightarrow>
          (case bound st of
             None \<Rightarrow> Err (Kind InvalidInput)
           | Some key \<Rightarrow> Ok (Addr_Inet (SocketAddr (local_addr key) (local_port key)))))"

definition kernel_peer_addr :: "Kernel \<Rightarrow> Fd \<Rightarrow> Addr io_result" where
  "kernel_peer_addr k fd =
     (case lookup k fd of
        None \<Rightarrow> Err (Kind NotFound)
      | Some st \<Rightarrow> (case sk_peer st of None \<Rightarrow> Err (Kind NotConnected) | Some a \<Rightarrow> Ok a))"

section \<open>Datagram and stream calls\<close>

definition family_matches :: "Domain \<Rightarrow> SocketAddr \<Rightarrow> bool" where
  "family_matches d sa =
     (case (d, sa_ip sa) of (Inet, V4 _) \<Rightarrow> True | (Inet6, V6 _) \<Rightarrow> True | _ \<Rightarrow> False)"

definition kernel_poll_send_to ::
  "Kernel \<Rightarrow> Fd \<Rightarrow> bytes \<Rightarrow> Addr \<Rightarrow> (nat io_result Poll \<times> Kernel) option" where
  "kernel_poll_send_to k fd buf dst =
     (case dst of
        Addr_Unix _ \<Rightarrow> None
      | Addr_Inet dst_sa \<Rightarrow>
          (case lookup k fd of
             None \<Rightarrow> Some (Ready (Err (Kind NotFound)), k)
           | Some st \<Rightarrow>
               if sk_ty st \<noteq> Dgram then None
               else if \<not> family_matches (sk_domain st) dst_sa then
                 Some (Ready (Err (RawOsError EAFNOSUPPORT)), k)
               else udp_send_to k fd buf dst_sa))"

definition kernel_poll_recv_from ::
  "Kernel \<Rightarrow> Fd \<Rightarrow> waker \<Rightarrow> nat \<Rightarrow> ((Addr \<times> bytes) io_result Poll \<times> Kernel) option" where
  "kernel_poll_recv_from k fd w room =
     (case lookup k fd of
        None \<Rightarrow> Some (Ready (Err (Kind NotFound)), k)
      | Some st \<Rightarrow>
          if sk_ty st \<noteq> Dgram then None
          else (let (r, st') = udp_recv_from st w room in Some (r, modify fd (\<lambda>_. st') k)))"

definition kernel_poll_peek_from ::
  "Kernel \<Rightarrow> Fd \<Rightarrow> waker \<Rightarrow> nat \<Rightarrow> ((Addr \<times> bytes) io_result Poll \<times> Kernel) option" where
  "kernel_poll_peek_from k fd w room =
     (case lookup k fd of
        None \<Rightarrow> Some (Ready (Err (Kind NotFound)), k)
      | Some st \<Rightarrow>
          if sk_ty st \<noteq> Dgram then None
          else (let (r, st') = udp_peek_from st w room in Some (r, modify fd (\<lambda>_. st') k)))"

definition kernel_poll_connect ::
  "Kernel \<Rightarrow> Fd \<Rightarrow> waker \<Rightarrow> Addr \<Rightarrow> (unit io_result Poll \<times> Kernel) option" where
  "kernel_poll_connect k fd w addr =
     (case addr of
        Addr_Unix _ \<Rightarrow> None
      | Addr_Inet peer \<Rightarrow>
          (case lookup k fd of
             None \<Rightarrow> Some (Ready (Err (Kind NotFound)), k)
           | Some st \<Rightarrow>
               if \<not> family_matches (sk_domain st) peer then
                 Some (Ready (Err (RawOsError EAFNOSUPPORT)), k)
               else
                 (case sk_ty st of
                    Dgram \<Rightarrow> do {
                      (r, k1) \<leftarrow> (if bound st \<noteq> None then Some (Ok (), k)
                                  else do {
                                    (b, k1) \<leftarrow> udp_auto_bind k fd (sk_domain st) Dgram (sa_ip peer);
                                    Some (case b of Inl e \<Rightarrow> Err e | Inr _ \<Rightarrow> Ok (), k1)
                                  });
                      case r of
                        Inl e \<Rightarrow> Some (Ready (Err e), k1)
                      | Inr _ \<Rightarrow> do {
                          _ \<leftarrow> lookup k1 fd;
                          Some (Ready (Ok ()), modify fd (\<lambda>s. s\<lparr>sk_peer := Some (Addr_Inet peer)\<rparr>) k1)
                        }
                    }
                  | Stream \<Rightarrow> tcp_poll_connect k fd w (sk_domain st) peer (bound st \<noteq> None)
                  | SeqPacket \<Rightarrow> None)))"

definition kernel_listen :: "Kernel \<Rightarrow> Fd \<Rightarrow> nat \<Rightarrow> (unit io_result \<times> Kernel) option" where
  "kernel_listen k fd n =
     (case lookup k fd of
        None \<Rightarrow> Some (Err (Kind NotFound), k)
      | Some st \<Rightarrow>
          if sk_ty st \<noteq> Stream \<or> bound st = None then None
          else Some (Ok (), modify fd (\<lambda>s. s\<lparr>listen := Some (ListenState_new n)\<rparr>) k))"

definition kernel_poll_accept ::
  "Kernel \<Rightarrow> Fd \<Rightarrow> waker \<Rightarrow> ((Fd \<times> SocketAddr) io_result Poll \<times> Kernel) option" where
  "kernel_poll_accept k fd w =
     (case lookup k fd of
        None \<Rightarrow> Some (Ready (Err (Kind NotFound)), k)
      | Some st \<Rightarrow> do {
          l \<leftarrow> listen st;
          case ready l of
            child # rest \<Rightarrow> do {
              let k1 = modify fd (\<lambda>s. s\<lparr>listen := Some (l\<lparr>ready := rest\<rparr>)\<rparr>) k;
              c \<leftarrow> lookup k1 child;
              t \<leftarrow> tcb c;
              Some (Ready (Ok (child, tcb_peer t)), k1)
            }
          | [] \<Rightarrow> Some (Pending, modify fd
               (\<lambda>s. s\<lparr>listen := Some (l\<lparr>accept_wakers := register (accept_wakers l) w\<rparr>)\<rparr>) k)
        })"

definition kernel_poll_send ::
  "Kernel \<Rightarrow> Fd \<Rightarrow> waker \<Rightarrow> bytes \<Rightarrow> (nat io_result Poll \<times> Kernel) option" where
  "kernel_poll_send k fd w buf =
     (case lookup k fd of
        None \<Rightarrow> Some (Ready (Err (Kind NotFound)), k)
      | Some st \<Rightarrow>
          (case sk_ty st of
             Dgram \<Rightarrow>
               (case sk_peer st of
                  None \<Rightarrow> Some (Ready (Err (Kind NotConnected)), k)
                | Some (Addr_Unix _) \<Rightarrow> None
                | Some (Addr_Inet peer_sa) \<Rightarrow> udp_send_to k fd buf peer_sa)
           | Stream \<Rightarrow> Some (tcp_poll_send k fd w buf)
           | SeqPacket \<Rightarrow> None))"

definition kernel_poll_recv ::
  "Kernel \<Rightarrow> Fd \<Rightarrow> waker \<Rightarrow> bytes \<Rightarrow> (nat io_result Poll \<times> bytes \<times> Kernel) option" where
  "kernel_poll_recv k fd w buf =
     (case lookup k fd of
        None \<Rightarrow> Some (Ready (Err (Kind NotFound)), buf, k)
      | Some st \<Rightarrow>
          (case sk_ty st of
             Dgram \<Rightarrow>
               (let (r, st') = udp_recv st w (length buf); k1 = modify fd (\<lambda>_. st') k
                in Some (case r of
                     Ready (Inr d) \<Rightarrow> (Ready (Ok (length d)), d @ drop (length d) buf, k1)
                   | Ready (Inl e) \<Rightarrow> (Ready (Err e), buf, k1)
                   | Pending \<Rightarrow> (Pending, buf, k1)))
           | Stream \<Rightarrow> tcp_poll_recv k fd w buf
           | SeqPacket \<Rightarrow> None))"

definition kernel_try_recv_vectored ::
  "Kernel \<Rightarrow> Fd \<Rightarrow> bytes list \<Rightarrow> (nat io_result \<times> bytes list \<times> Kernel) option" where
  "kernel_try_recv_vectored k fd bufs =
     (case lookup k fd of
        None \<Rightarrow> Some (Err (Kind NotFound), bufs, k)
      | Some st \<Rightarrow>
          if sk_ty st \<noteq> Stream then Some (Err (Kind Unsupported), bufs, k)
          else do {
            (r, bufs', k1) \<leftarrow> tcp_poll_recv_vectored k fd None bufs;
            Some (case r of Ready x \<Rightarrow> x | Pending \<Rightarrow> Err (Kind WouldBlock), bufs', k1)
          })"

definition kernel_poll_shutdown_write ::
  "Kernel \<Rightarrow> Fd \<Rightarrow> (unit io_result Poll \<times> Kernel) option" where
  "kernel_poll_shutdown_write k fd =
     (case lookup k fd of
        None \<Rightarrow> Some (Ready (Err (Kind NotFound)), k)
      | Some st \<Rightarrow> if sk_ty st = Stream then Some (tcp_poll_shutdown_write k fd) else None)"

definition kernel_poll_peek ::
  "Kernel \<Rightarrow> Fd \<Rightarrow> waker \<Rightarrow> bytes \<Rightarrow> (nat io_result Poll \<times> bytes \<times> Kernel) option" where
  "kernel_poll_peek k fd w buf =
     (case lookup k fd of
        None \<Rightarrow> Some (Ready (Err (Kind NotFound)), buf, k)
      | Some st \<Rightarrow>
          (case sk_ty st of
             Dgram \<Rightarrow>
               (let (r, st') = udp_peek_from st w (length buf); k1 = modify fd (\<lambda>_. st') k
                in Some (case r of
                     Ready (Inr (_, d)) \<Rightarrow> (Ready (Ok (length d)), d @ drop (length d) buf, k1)
                   | Ready (Inl e) \<Rightarrow> (Ready (Err e), buf, k1)
                   | Pending \<Rightarrow> (Pending, buf, k1)))
           | Stream \<Rightarrow> Some (tcp_poll_peek k fd w buf)
           | SeqPacket \<Rightarrow> None))"

section \<open>Packets in and out\<close>

definition kernel_deliver :: "Kernel \<Rightarrow> Packet \<Rightarrow> Kernel option" where
  "kernel_deliver k pkt =
     (case pkt_payload pkt of Udp d \<Rightarrow> udp_deliver k pkt d | Tcp s \<Rightarrow> tcp_deliver k pkt s)"

text \<open>Local packets fold back through \<^verbatim>\<open>deliver\<close>, the others leave the host.\<close>

fun route_drained :: "Packet list \<Rightarrow> Kernel \<Rightarrow> Packet list \<Rightarrow> (Kernel \<times> Packet list) option" where
  "route_drained [] k out = Some (k, out)"
| "route_drained (p # ps) k out =
     (if is_local k (pkt_dst p) then do { k1 \<leftarrow> kernel_deliver k p; route_drained ps k1 out }
      else route_drained ps k (out @ [p]))"

partial_function (option) egress_loop ::
  "Kernel \<Rightarrow> Packet list \<Rightarrow> (Kernel \<times> Packet list) option" where
  "egress_loop k out = do {
     k1 \<leftarrow> segment_all k;
     if outbound k1 = [] then Some (k1, out)
     else do {
       (k2, out2) \<leftarrow> route_drained (outbound k1) (k1\<lparr>outbound := []\<rparr>) out;
       egress_loop k2 out2
     }
   }"

definition kernel_egress :: "Kernel \<Rightarrow> Packet list \<Rightarrow> (Kernel \<times> Packet list) option" where
  "kernel_egress k out = do {
     k1 \<leftarrow> check_retx k;
     (k2, out2) \<leftarrow> egress_loop k1 out;
     Some (reap_closed k2, out2)
   }"

end
