(* ===== verification/Port_Facts.thy ===== *)
theory Port_Facts
  imports Socket
begin

text \<open>
  Correctness of the ephemeral port allocator of \<^verbatim>\<open>socket.rs\<close>: the rotating scan returns,
  and it finds the first free port in cyclic order from the cursor.
\<close>

section \<open>The cyclic order\<close>

definition alloc_wf :: "PortAllocator \<Rightarrow> bool" where
  "alloc_wf a \<longleftrightarrow> range_start a \<le> cursor a \<and> cursor a \<le> range_end a"

text \<open>The ports of the range, from the cursor to the end and on from the start.\<close>

definition ports_from :: "PortAllocator \<Rightarrow> u16 list" where
  "ports_from a =
     map of_nat [unat (cursor a)..<Suc (unat (range_end a))] @
     map of_nat [unat (range_start a)..<unat (cursor a)]"

text \<open>\<open>ring a s ps\<close>: stepping from the head of \<open>ps\<close> visits exactly \<open>ps\<close> before it is back at \<open>s\<close>.\<close>

fun ring :: "PortAllocator \<Rightarrow> u16 \<Rightarrow> u16 list \<Rightarrow> bool" where
  "ring a s [] = False"
| "ring a s [p] = (next_port a p = Some s)"
| "ring a s (p # q # ps) = (next_port a p = Some q \<and> q \<noteq> s \<and> ring a s (q # ps))"

lemma next_port_cursor [simp]: "next_port (a\<lparr>cursor := c\<rparr>) p = next_port a p"
  by (simp add: next_port_def)

lemma ring_cursor [simp]: "ring (a\<lparr>cursor := c\<rparr>) s ps = ring a s ps"
  by (induction a s ps rule: ring.induct) auto

lemma u16_of_nat_inj: "m < 65536 \<Longrightarrow> n < 65536 \<Longrightarrow> (of_nat m :: u16) = of_nat n \<longleftrightarrow> m = n"
  by (auto dest: arg_cong [where f = unat] simp: unat_of_nat)

lemma unat_u16_less: "unat (p :: u16) < 65536"
  using unsigned_less [of p, where ?'a = nat] by simp

lemma next_port_below:
  assumes "i < unat (range_end a)"
  shows "next_port a (of_nat i) = Some (of_nat (Suc i))"
proof -
  have lt: "unat (range_end a) < 65536" by (rule unat_u16_less)
  have "(of_nat i :: u16) \<noteq> of_nat (unat (range_end a))"
    using assms lt by (subst u16_of_nat_inj) auto
  moreover have "(of_nat i :: u16) \<noteq> of_nat 65535"
    using assms lt by (subst u16_of_nat_inj) auto
  ultimately show ?thesis by (simp add: next_port_def add.commute)
qed

lemma next_port_end: "next_port a (range_end a) = Some (range_start a)"
  by (simp add: next_port_def)

lemma ring_tail:
  assumes "i < unat s" "s \<le> range_end a"
  shows "ring a s (map of_nat [i..<unat s])"
  using assms
proof (induction "unat s - i" arbitrary: i)
  case 0
  then show ?case by simp
next
  case (Suc d)
  have le: "unat s \<le> unat (range_end a)" using Suc.prems by (simp add: word_le_nat_alt)
  have nxt: "next_port a (of_nat i) = Some (of_nat (Suc i))"
    using Suc.prems le by (intro next_port_below) simp
  show ?case
  proof (cases "Suc i = unat s")
    case True
    then have "[i..<unat s] = [i]" by (simp add: upt_rec)
    moreover have "(of_nat (Suc i) :: u16) = s" using True by (simp del: of_nat_Suc)
    ultimately show ?thesis using nxt by simp
  next
    case False
    then have lt: "Suc i < unat s" using Suc.prems by simp
    have "(of_nat (Suc i) :: u16) \<noteq> of_nat (unat s)"
      using lt unat_u16_less [of s] by (subst u16_of_nat_inj) auto
    then have ne: "(of_nat (Suc i) :: u16) \<noteq> s" by simp
    have "ring a s (map of_nat [Suc i..<unat s])"
      using Suc lt by (intro Suc.hyps) auto
    moreover have "[i..<unat s] = i # Suc i # [Suc (Suc i)..<unat s]"
      using lt by (simp add: upt_rec)
    moreover have "[Suc i..<unat s] = Suc i # [Suc (Suc i)..<unat s]"
      using lt by (simp add: upt_rec)
    ultimately show ?thesis using nxt ne by (simp del: of_nat_Suc)
  qed
qed

lemma ring_head:
  assumes "alloc_wf a" "unat (cursor a) \<le> i" "i \<le> unat (range_end a)"
  shows "ring a (cursor a)
     (map of_nat [i..<Suc (unat (range_end a))] @ map of_nat [unat (range_start a)..<unat (cursor a)])"
  using assms(2,3)
proof (induction "unat (range_end a) - i" arbitrary: i)
  case 0
  then have i: "i = unat (range_end a)" by simp
  have wf: "range_start a \<le> cursor a" "cursor a \<le> range_end a"
    using assms(1) by (simp_all add: alloc_wf_def)
  show ?case
  proof (cases "range_start a = cursor a")
    case True
    then show ?thesis using i by (simp add: next_port_end)
  next
    case False
    then have lt: "unat (range_start a) < unat (cursor a)"
      using wf by (metis order.not_eq_order_implies_strict word_less_nat_alt)
    then have "ring a (cursor a) (map of_nat [unat (range_start a)..<unat (cursor a)])"
      using wf by (intro ring_tail) auto
    moreover have "[unat (range_start a)..<unat (cursor a)] =
        unat (range_start a) # [Suc (unat (range_start a))..<unat (cursor a)]"
      using lt by (simp add: upt_rec)
    ultimately show ?thesis using i False by (simp add: next_port_end)
  qed
next
  case (Suc d)
  then have lt: "i < unat (range_end a)" by simp
  have nxt: "next_port a (of_nat i) = Some (of_nat (Suc i))"
    using lt by (rule next_port_below)
  have "(of_nat (Suc i) :: u16) \<noteq> of_nat (unat (cursor a))"
    using Suc.prems lt unat_u16_less [of "range_end a"] by (subst u16_of_nat_inj) auto
  then have ne: "(of_nat (Suc i) :: u16) \<noteq> cursor a" by simp
  have "ring a (cursor a) (map of_nat [Suc i..<Suc (unat (range_end a))] @
      map of_nat [unat (range_start a)..<unat (cursor a)])"
    using Suc lt by (intro Suc.hyps) auto
  moreover have "[i..<Suc (unat (range_end a))] = i # Suc i # [Suc (Suc i)..<Suc (unat (range_end a))]"
    using lt by (simp add: upt_rec)
  moreover have "[Suc i..<Suc (unat (range_end a))] = Suc i # [Suc (Suc i)..<Suc (unat (range_end a))]"
    using lt by (simp add: upt_rec)
  ultimately show ?case using nxt ne by (simp del: of_nat_Suc upt_Suc)
qed

lemma ring_ports_from: "alloc_wf a \<Longrightarrow> ring a (cursor a) (ports_from a)"
  unfolding ports_from_def by (rule ring_head) (auto simp: alloc_wf_def word_le_nat_alt)

section \<open>The scan\<close>

lemma allocate_loop_ring:
  assumes "ring a s ps" "hd ps = cursor a"
  shows "\<exists>c. allocate_loop in_use s a = Some (find (\<lambda>p. \<not> in_use p) ps, a\<lparr>cursor := c\<rparr>) \<and>
             (case find (\<lambda>p. \<not> in_use p) ps of
                None \<Rightarrow> c = s | Some p \<Rightarrow> next_port a p = Some c)"
  using assms
proof (induction ps arbitrary: a)
  case Nil
  then show ?case by simp
next
  case (Cons p ps)
  have cur: "cursor a = p" using Cons.prems by simp
  show ?case
  proof (cases ps)
    case Nil
    then show ?thesis using Cons.prems cur by (simp add: allocate_loop.simps [of _ s a])
  next
    case (Cons q qs)
    note ring = Cons.prems(1) [unfolded Cons]
    show ?thesis
    proof (cases "in_use p")
      case False
      then show ?thesis using ring cur Cons by (simp add: allocate_loop.simps [of _ s a])
    next
      case True
      let ?a = "a\<lparr>cursor := q\<rparr>"
      have "allocate_loop in_use s a = allocate_loop in_use s ?a"
        using ring cur True by (simp add: allocate_loop.simps [of _ s a])
      moreover have "\<exists>c. allocate_loop in_use s ?a =
            Some (find (\<lambda>p. \<not> in_use p) ps, ?a\<lparr>cursor := c\<rparr>) \<and>
            (case find (\<lambda>p. \<not> in_use p) ps of
               None \<Rightarrow> c = s | Some p \<Rightarrow> next_port ?a p = Some c)"
        using ring Cons by (intro Cons.IH) auto
      ultimately show ?thesis using True by (simp cong: option.case_cong)
    qed
  qed
qed

lemma next_port_range:
  assumes "next_port a p = Some c" "range_start a \<le> p" "p \<le> range_end a"
  shows "range_start a \<le> c \<and> c \<le> range_end a"
proof (cases "p = range_end a")
  case True
  with assms show ?thesis by (auto simp: next_port_def)
next
  case False
  then have lt: "p < range_end a" using assms by simp
  then have c: "c = p + 1" and ov: "p \<noteq> 0xFFFF"
    using assms False by (auto simp: next_port_def split: if_splits)
  have "unat (p + 1) = Suc (unat p)"
    using lt unat_u16_less [of "range_end a"] by (simp add: unat_word_ariths word_less_nat_alt)
  then show ?thesis using assms lt c by (simp add: word_le_nat_alt word_less_nat_alt)
qed

lemma set_ports_from:
  assumes "alloc_wf a"
  shows "set (ports_from a) = {p. range_start a \<le> p \<and> p \<le> range_end a}"
proof -
  have wf: "unat (range_start a) \<le> unat (cursor a)" "unat (cursor a) \<le> unat (range_end a)"
    using assms by (simp_all add: alloc_wf_def word_le_nat_alt)
  then have "{unat (range_start a)..unat (range_end a)} =
      {unat (cursor a)..<Suc (unat (range_end a))} \<union> {unat (range_start a)..<unat (cursor a)}"
    by auto
  then have "set (ports_from a) = of_nat ` {unat (range_start a)..unat (range_end a)}"
    by (simp only: ports_from_def set_append set_map set_upt image_Un)
  also have "\<dots> = {p. range_start a \<le> p \<and> p \<le> range_end a}"
  proof (intro equalityI subsetI)
    fix p :: u16
    assume "p \<in> of_nat ` {unat (range_start a)..unat (range_end a)}"
    then obtain i where i: "p = of_nat i" "unat (range_start a) \<le> i" "i \<le> unat (range_end a)"
      by auto
    then have "unat p = i"
      using unat_u16_less [of "range_end a"] by (simp add: unat_of_nat)
    with i show "p \<in> {p. range_start a \<le> p \<and> p \<le> range_end a}"
      by (simp add: word_le_nat_alt)
  next
    fix p :: u16
    assume "p \<in> {p. range_start a \<le> p \<and> p \<le> range_end a}"
    then show "p \<in> of_nat ` {unat (range_start a)..unat (range_end a)}"
      by (intro image_eqI [where x = "unat p"]) (auto simp: word_le_nat_alt)
  qed
  finally show ?thesis .
qed

lemma allocate_spec:
  assumes "alloc_wf a"
  obtains c where
    "allocate in_use a = Some (find (\<lambda>p. \<not> in_use p) (ports_from a), a\<lparr>cursor := c\<rparr>)"
    "alloc_wf (a\<lparr>cursor := c\<rparr>)"
proof -
  have hd: "hd (ports_from a) = cursor a"
    using assms by (auto simp: ports_from_def alloc_wf_def word_le_nat_alt upt_rec simp del: upt_Suc)
  obtain c where c: "allocate_loop in_use (cursor a) a =
      Some (find (\<lambda>p. \<not> in_use p) (ports_from a), a\<lparr>cursor := c\<rparr>)"
    and nxt: "case find (\<lambda>p. \<not> in_use p) (ports_from a) of
        None \<Rightarrow> c = cursor a | Some p \<Rightarrow> next_port a p = Some c"
    using allocate_loop_ring [OF ring_ports_from [OF assms] hd] by blast
  have "range_start a \<le> c \<and> c \<le> range_end a"
  proof (cases "find (\<lambda>p. \<not> in_use p) (ports_from a)")
    case None
    then show ?thesis using nxt assms by (simp add: alloc_wf_def)
  next
    case (Some p)
    then have "p \<in> set (ports_from a)" by (auto dest: find_Some_hd_filter)
    then have "range_start a \<le> p" "p \<le> range_end a" using assms by (simp_all add: set_ports_from)
    then show ?thesis using Some nxt by (intro next_port_range) simp_all
  qed
  then show ?thesis using that c by (simp add: allocate_def alloc_wf_def)
qed

text \<open>The contract of an allocator of names out of a finite range, and its consequences.\<close>

locale port_source =
  fixes alloc :: "('p \<Rightarrow> bool) \<Rightarrow> 'a \<Rightarrow> ('p option \<times> 'a) option"
    and wf :: "'a \<Rightarrow> bool"
    and names :: "'a \<Rightarrow> 'p set"
  assumes returns: "wf a \<Longrightarrow> \<exists>r a'. alloc used a = Some (r, a')"
    and keeps_wf: "wf a \<Longrightarrow> alloc used a = Some (r, a') \<Longrightarrow> wf a'"
    and keeps_names: "wf a \<Longrightarrow> alloc used a = Some (r, a') \<Longrightarrow> names a' = names a"
    and fresh: "wf a \<Longrightarrow> alloc used a = Some (Some p, a') \<Longrightarrow> p \<in> names a \<and> \<not> used p"
    and exhausted: "wf a \<Longrightarrow> alloc used a = Some (None, a') \<Longrightarrow> p \<in> names a \<Longrightarrow> used p"
begin

lemma succeeds_iff:
  "wf a \<Longrightarrow> (\<exists>p a'. alloc used a = Some (Some p, a')) \<longleftrightarrow> (\<exists>p \<in> names a. \<not> used p)"
  using returns [of a used] fresh [of a used] exhausted [of a used]
  by (metis not_None_eq)

end

interpretation port_alloc: port_source allocate alloc_wf "\<lambda>a. {p. range_start a \<le> p \<and> p \<le> range_end a}"
proof
  fix a used
  assume wf: "alloc_wf a"
  from wf obtain c where c:
    "allocate used a = Some (find (\<lambda>p. \<not> used p) (ports_from a), a\<lparr>cursor := c\<rparr>)"
    "alloc_wf (a\<lparr>cursor := c\<rparr>)"
    by (rule allocate_spec)
  show "\<exists>r a'. allocate used a = Some (r, a')" using c by auto
  fix r a'
  assume r: "allocate used a = Some (r, a')"
  show "alloc_wf a'" using r c by simp
  show "{p. range_start a' \<le> p \<and> p \<le> range_end a'} = {p. range_start a \<le> p \<and> p \<le> range_end a}"
    using r c by auto
next
  fix a used p a'
  assume wf: "alloc_wf a" and r: "allocate used a = Some (Some p, a')"
  from wf obtain c where
    "allocate used a = Some (find (\<lambda>p. \<not> used p) (ports_from a), a\<lparr>cursor := c\<rparr>)"
    by (rule allocate_spec)
  with r show "p \<in> {p. range_start a \<le> p \<and> p \<le> range_end a} \<and> \<not> used p"
    using set_ports_from [OF wf] by (auto dest!: find_Some_hd_filter)
next
  fix a used a' p
  assume wf: "alloc_wf a" and r: "allocate used a = Some (None, a')"
    and p: "p \<in> {p. range_start a \<le> p \<and> p \<le> range_end a}"
  from wf obtain c where
    "allocate used a = Some (find (\<lambda>p. \<not> used p) (ports_from a), a\<lparr>cursor := c\<rparr>)"
    by (rule allocate_spec)
  with r p show "used p" using set_ports_from [OF wf] by (auto simp: find_None_iff)
qed

end
