(* ===== verification/Kernel_Inv.thy ===== *)
theory Kernel_Inv
  imports Kernel Port_Facts
begin

text \<open>
  The invariant of a host's kernel: the three indices of the socket table agree with the
  sockets, every socket is well formed, the send side of every connection is consistent with
  its sequence numbers, and every descriptor in an accept queue can be accepted. The lemmas
  of this theory say how the primitive updates of the table keep it.
\<close>

section \<open>Well-formed sockets\<close>

text \<open>
  The send side: \<open>snd_una\<close> is the sequence number of the first buffered byte, the bytes in
  flight are a prefix of the buffer, and a queued FIN comes right after the buffer until it
  is acknowledged.
\<close>

definition in_flight :: "Tcb \<Rightarrow> nat" where
  "in_flight t = unat (snd_nxt t - snd_una t)"

definition fin_wf :: "Tcb \<Rightarrow> bool" where
  "fin_wf t \<longleftrightarrow>
     (case fin_seq t of
        None \<Rightarrow> in_flight t \<le> length (send_buf t)
      | Some fs \<Rightarrow>
          fs = snd_una t + of_nat (length (send_buf t)) \<and> in_flight t \<le> length (send_buf t) + 1 \<or>
          fs + 1 = snd_una t \<and> snd_nxt t = snd_una t \<and> send_buf t = [])"

definition tcb_wf :: "nat \<Rightarrow> Tcb \<Rightarrow> bool" where
  "tcb_wf cap t \<longleftrightarrow> length (send_buf t) \<le> cap \<and> (fin_seq t \<noteq> None \<longrightarrow> wr_closed t) \<and>
     (tcb_state t \<noteq> Closed \<longrightarrow> fin_wf t)"

definition sock_wf :: "nat \<Rightarrow> Socket \<Rightarrow> bool" where
  "sock_wf cap s \<longleftrightarrow>
     (tcb s \<noteq> None \<longrightarrow> bound s \<noteq> None) \<and> (listen s \<noteq> None \<longrightarrow> bound s \<noteq> None) \<and>
     (\<forall>key. bound s = Some key \<longrightarrow> bk_domain key = sk_domain s \<and> bk_ty key = sk_ty s) \<and>
     (\<forall>t. tcb s = Some t \<longrightarrow> tcb_wf cap t \<and> (tcb_state t = SynReceived \<longrightarrow> \<not> fd_closed s))"

definition ready_of :: "Socket \<Rightarrow> Fd list" where
  "ready_of s = (case listen s of None \<Rightarrow> [] | Some l \<Rightarrow> ready l)"

definition acceptable :: "(Fd \<Rightarrow> Socket option) \<Rightarrow> Fd \<Rightarrow> bool" where
  "acceptable g c \<longleftrightarrow>
     (\<exists>s t. g c = Some s \<and> tcb s = Some t \<and> tcb_state t \<noteq> SynReceived \<and> \<not> fd_closed s)"

text \<open>\<open>X\<close> is the set of listeners whose accept queue is being torn down.\<close>

definition sockets_inv :: "nat \<Rightarrow> Fd set \<Rightarrow> nat \<Rightarrow> (Fd \<Rightarrow> Socket option) \<Rightarrow> bool" where
  "sockets_inv cap X n g \<longleftrightarrow>
     (\<forall>fd s. g fd = Some s \<longrightarrow> fd < n \<and> sock_wf cap s \<and> distinct (ready_of s) \<and>
        (fd \<notin> X \<longrightarrow> (\<forall>c \<in> set (ready_of s). acceptable g c))) \<and>
     (\<forall>a b s s'. g a = Some s \<longrightarrow> g b = Some s' \<longrightarrow> a \<noteq> b \<longrightarrow>
        set (ready_of s) \<inter> set (ready_of s') = {})"

text \<open>The indices of the table: bindings are exact, connections point at their sockets.\<close>

definition index_inv :: "SocketTable \<Rightarrow> bool" where
  "index_inv t \<longleftrightarrow> imap_wf (sockets t) \<and> imap_wf (bindings t) \<and> imap_wf (connections t) \<and>
     alloc_wf (ports t) \<and>
     (\<forall>key fd. fd \<in> set (find_by_bind t key) \<longleftrightarrow> (\<exists>s. st_get t fd = Some s \<and> bound s = Some key)) \<and>
     (\<forall>loc rem fd. find_connection t loc rem = Some fd \<longrightarrow>
        (\<exists>s c. st_get t fd = Some s \<and> tcb s = Some c \<and> tcb_peer c = rem \<and>
               bound_endpoint s = Some loc))"

text \<open>Every segment carries at least one byte, whatever the address family.\<close>

definition mtu_ok :: "Kernel \<Rightarrow> bool" where
  "mtu_ok k \<longleftrightarrow> IPV6_HEADER_SIZE + TCP_HEADER_SIZE < mtu k \<and>
     IPV6_HEADER_SIZE + TCP_HEADER_SIZE < loopback_mtu k"

definition kinv :: "Fd set \<Rightarrow> Kernel \<Rightarrow> bool" where
  "kinv X k \<longleftrightarrow> index_inv (table k) \<and>
     sockets_inv (send_buf_cap k) X (next_id (table k)) (st_get (table k)) \<and>
     send_buf_cap k < 2 ^ 32 - 1 \<and> mtu_ok k \<and> (\<forall>a \<in> set (addresses k). \<not> is_unspecified a)"

definition kernel_inv :: "Kernel \<Rightarrow> bool" where
  "kernel_inv k \<longleftrightarrow> kinv {} k"

section \<open>Frame laws of the kernel state\<close>

lemma lookup_eq: "lookup k = st_get (table k)"
  by (rule ext) (simp add: lookup_def)

lemma st_get_modify [simp]:
  "st_get (st_modify fd f t) fd' = (if fd' = fd then map_option f (st_get t fd) else st_get t fd')"
  by (cases "imap_get (sockets t) fd") (auto simp: st_get_def st_modify_def imap_simps)

lemma lookup_modify [simp]:
  "lookup (modify fd f k) fd' = (if fd' = fd then map_option f (lookup k fd) else lookup k fd')"
  by (simp add: lookup_def modify_def)

lemma st_modify_frame [simp]:
  "next_id (st_modify fd f t) = next_id t" "bindings (st_modify fd f t) = bindings t"
  "connections (st_modify fd f t) = connections t" "ports (st_modify fd f t) = ports t"
  "find_by_bind (st_modify fd f t) = find_by_bind t"
  "find_connection (st_modify fd f t) = find_connection t"
  "imap_keys (sockets (st_modify fd f t)) = imap_keys (sockets t)"
  by (auto simp: st_modify_def find_by_bind_def find_connection_def intro!: ext)

lemma modify_frame [simp]:
  "table (modify fd f k) = st_modify fd f (table k)" "addresses (modify fd f k) = addresses k"
  "mtu (modify fd f k) = mtu k" "loopback_mtu (modify fd f k) = loopback_mtu k"
  "send_buf_cap (modify fd f k) = send_buf_cap k" "recv_buf_cap (modify fd f k) = recv_buf_cap k"
  "outbound (modify fd f k) = outbound k" "tcp_isn (modify fd f k) = tcp_isn k"
  "retx_threshold (modify fd f k) = retx_threshold k" "retx_max (modify fd f k) = retx_max k"
  "woken (modify fd f k) = woken k" "default_backlog (modify fd f k) = default_backlog k"
  by (simp_all add: modify_def)

lemma wake_frame [simp]:
  "table (wake ws k) = table k" "addresses (wake ws k) = addresses k" "mtu (wake ws k) = mtu k"
  "loopback_mtu (wake ws k) = loopback_mtu k" "send_buf_cap (wake ws k) = send_buf_cap k"
  "recv_buf_cap (wake ws k) = recv_buf_cap k" "outbound (wake ws k) = outbound k"
  "retx_threshold (wake ws k) = retx_threshold k" "retx_max (wake ws k) = retx_max k"
  "lookup (wake ws k) = lookup k"
  by (auto simp: wake_def lookup_def)

lemma emit_frame [simp]:
  "table (emit a b s k) = table k" "addresses (emit a b s k) = addresses k"
  "mtu (emit a b s k) = mtu k" "loopback_mtu (emit a b s k) = loopback_mtu k"
  "send_buf_cap (emit a b s k) = send_buf_cap k" "recv_buf_cap (emit a b s k) = recv_buf_cap k"
  "retx_threshold (emit a b s k) = retx_threshold k" "retx_max (emit a b s k) = retx_max k"
  "woken (emit a b s k) = woken k" "lookup (emit a b s k) = lookup k"
  "outbound (emit a b s k) = outbound k @
     [\<lparr>pkt_src = sa_ip a, pkt_dst = sa_ip b, pkt_ttl = 64, pkt_payload = Tcp s\<rparr>]"
  by (auto simp: emit_def push_outbound_def lookup_def)

lemma push_outbound_frame [simp]:
  "table (push_outbound p k) = table k" "addresses (push_outbound p k) = addresses k"
  "send_buf_cap (push_outbound p k) = send_buf_cap k"
  "recv_buf_cap (push_outbound p k) = recv_buf_cap k"
  "outbound (push_outbound p k) = outbound k @ [p]" "lookup (push_outbound p k) = lookup k"
  by (auto simp: push_outbound_def lookup_def)

lemma put_table_frame [simp]:
  "table (put_table t k) = t" "addresses (put_table t k) = addresses k"
  "mtu (put_table t k) = mtu k" "loopback_mtu (put_table t k) = loopback_mtu k"
  "send_buf_cap (put_table t k) = send_buf_cap k" "recv_buf_cap (put_table t k) = recv_buf_cap k"
  "outbound (put_table t k) = outbound k" "tcp_isn (put_table t k) = tcp_isn k"
  "retx_threshold (put_table t k) = retx_threshold k" "retx_max (put_table t k) = retx_max k"
  "lookup (put_table t k) = st_get t"
  by (auto simp: put_table_def lookup_def)

lemma isn_frame [simp]:
  "table (k\<lparr>tcp_isn := n\<rparr>) = table k" "lookup (k\<lparr>tcp_isn := n\<rparr>) = lookup k"
  "lookup (k\<lparr>outbound := ps\<rparr>) = lookup k"
  by (auto simp: lookup_def)

lemma mtu_ok_frame [simp]:
  "mtu_ok (modify fd f k) = mtu_ok k" "mtu_ok (wake ws k) = mtu_ok k" "mtu_ok (emit a b s k) = mtu_ok k"
  "mtu_ok (push_outbound p k) = mtu_ok k"
  "mtu_ok (put_table t k) = mtu_ok k" "mtu_ok (k\<lparr>outbound := ps\<rparr>) = mtu_ok k"
  "mtu_ok (k\<lparr>tcp_isn := n\<rparr>) = mtu_ok k"
  by (simp_all add: mtu_ok_def) (simp_all add: push_outbound_def)

lemma kinv_frame [simp]:
  "kinv X (wake ws k) = kinv X k" "kinv X (emit a b s k) = kinv X k"
  "kinv X (push_outbound p k) = kinv X k" "kinv X (k\<lparr>tcp_isn := n\<rparr>) = kinv X k"
  "kinv X (k\<lparr>outbound := ps\<rparr>) = kinv X k"
  by (simp_all add: kinv_def)

section \<open>Reading the invariant\<close>

lemma sockets_invD:
  assumes "sockets_inv cap X n g" "g fd = Some s"
  shows "fd < n" "sock_wf cap s" "distinct (ready_of s)"
    "fd \<notin> X \<Longrightarrow> c \<in> set (ready_of s) \<Longrightarrow> acceptable g c"
  using assms by (auto simp: sockets_inv_def)

lemma sock_wf_unbound: "sock_wf cap s \<Longrightarrow> bound s = None \<Longrightarrow> tcb s = None \<and> listen s = None"
  by (auto simp: sock_wf_def)

lemma kinv_mtu: "kinv X k \<Longrightarrow> mtu_ok k"
  by (simp add: kinv_def)

lemma kinv_cap: "kinv X k \<Longrightarrow> send_buf_cap k < 2 ^ 32 - 1"
  by (simp add: kinv_def)

lemma kinv_socket:
  assumes "kinv X k" "lookup k fd = Some s"
  shows "fd < next_id (table k)" "sock_wf (send_buf_cap k) s" "distinct (ready_of s)"
    "fd \<notin> X \<Longrightarrow> c \<in> set (ready_of s) \<Longrightarrow> acceptable (lookup k) c"
  using assms by (auto simp: kinv_def sockets_inv_def lookup_eq)

lemma kinv_tcb:
  assumes "kinv X k" "lookup k fd = Some s" "tcb s = Some t"
  shows "tcb_wf (send_buf_cap k) t" "\<exists>key. bound s = Some key"
    "\<exists>loc. bound_endpoint s = Some loc"
  using kinv_socket(2) [OF assms(1,2)] assms(3) by (auto simp: sock_wf_def bound_endpoint_def)

lemma kinv_bind:
  "kinv X k \<Longrightarrow> fd \<in> set (find_by_bind (table k) key) \<longleftrightarrow>
     (\<exists>s. lookup k fd = Some s \<and> bound s = Some key)"
  by (simp add: kinv_def index_inv_def lookup_def)

lemma kinv_connection:
  assumes "kinv X k" "find_connection (table k) loc rem = Some fd"
  obtains s t where "lookup k fd = Some s" "tcb s = Some t" "tcb_peer t = rem"
    "bound_endpoint s = Some loc"
  using assms unfolding kinv_def index_inv_def lookup_eq by blast

section \<open>Updates of one socket\<close>

text \<open>
  \<open>sock_step b cap s s'\<close>: an update of a socket that every other socket may ignore. With
  \<open>b\<close> false the socket may be in an accept queue, and its descriptor stays open.
\<close>

definition sock_step :: "bool \<Rightarrow> nat \<Rightarrow> Socket \<Rightarrow> Socket \<Rightarrow> bool" where
  "sock_step b cap s s' \<longleftrightarrow> sock_wf cap s' \<and> bound s' = bound s \<and>
     distinct (ready_of s') \<and> set (ready_of s') \<subseteq> set (ready_of s) \<and>
     (fd_closed s' \<longrightarrow> fd_closed s \<or> b) \<and>
     (\<forall>t. tcb s = Some t \<longrightarrow> (\<exists>t'. tcb s' = Some t' \<and> tcb_peer t' = tcb_peer t \<and>
        (tcb_state t' = SynReceived \<longrightarrow> tcb_state t = SynReceived)))"

lemma acceptable_step:
  assumes "acceptable g c" "g fd = Some s" "sock_step b cap s s'" "b \<Longrightarrow> c \<noteq> fd"
  shows "acceptable (g(fd \<mapsto> s')) c"
  using assms unfolding acceptable_def sock_step_def
  by (cases "c = fd") fastforce+

lemma sockets_inv_step:
  assumes inv: "sockets_inv cap X n g" and s: "g fd = Some s" and st: "sock_step b cap s s'"
    and b: "\<And>a u. b \<Longrightarrow> g a = Some u \<Longrightarrow> a \<notin> X \<Longrightarrow> fd \<notin> set (ready_of u)"
  shows "sockets_inv cap X n (g(fd \<mapsto> s'))"
  unfolding sockets_inv_def
proof (intro conjI allI impI ballI)
  fix a u assume au: "(g(fd \<mapsto> s')) a = Some u"
  obtain u0 where u0: "g a = Some u0" "set (ready_of u) \<subseteq> set (ready_of u0)"
    using au s st by (cases "a = fd") (auto simp: sock_step_def)
  show "a < n" using u0 inv by (auto simp: sockets_inv_def)
  show "sock_wf cap u" "distinct (ready_of u)"
    using au inv st by (cases "a = fd"; auto simp: sockets_inv_def sock_step_def)+
  fix c assume "a \<notin> X" "c \<in> set (ready_of u)"
  then have c: "c \<in> set (ready_of u0)" "acceptable g c" using u0 inv by (auto simp: sockets_inv_def)
  then show "acceptable (g(fd \<mapsto> s')) c"
    using b [OF _ u0(1)] \<open>a \<notin> X\<close> by (intro acceptable_step [where s = s and b = b and cap = cap] s st) auto
next
  fix a b' u v assume "(g(fd \<mapsto> s')) a = Some u" "(g(fd \<mapsto> s')) b' = Some v" "a \<noteq> b'"
  then obtain u0 v0 where "g a = Some u0" "set (ready_of u) \<subseteq> set (ready_of u0)"
    "g b' = Some v0" "set (ready_of v) \<subseteq> set (ready_of v0)"
    using s st by (auto simp: sock_step_def split: if_splits)
  with \<open>a \<noteq> b'\<close> inv show "set (ready_of u) \<inter> set (ready_of v) = {}"
    unfolding sockets_inv_def by blast
qed

lemma st_get_st_modify_fun:
  "st_get t fd = Some s \<Longrightarrow> st_get (st_modify fd f t) = (st_get t)(fd \<mapsto> f s)"
  by (rule ext) simp

lemma index_inv_step:
  assumes "index_inv t" "st_get t fd = Some s" "bound (f s) = bound s"
    "\<And>c. tcb s = Some c \<Longrightarrow> \<exists>c'. tcb (f s) = Some c' \<and> tcb_peer c' = tcb_peer c"
  shows "index_inv (st_modify fd f t)"
proof -
  have b: "(\<exists>u. st_get (st_modify fd f t) a = Some u \<and> bound u = Some key) \<longleftrightarrow>
      (\<exists>u. st_get t a = Some u \<and> bound u = Some key)" for a key
    using assms(2,3) by auto
  have c: "\<exists>u c. st_get (st_modify fd f t) a = Some u \<and> tcb u = Some c \<and> tcb_peer c = rem \<and>
      bound_endpoint u = Some loc"
    if "st_get t a = Some u" "tcb u = Some c" "tcb_peer c = rem" "bound_endpoint u = Some loc"
    for a u c loc rem
    using that assms(2-4) by (cases "a = fd") (fastforce simp: bound_endpoint_def)+
  show ?thesis
    using assms(1) unfolding index_inv_def b st_modify_frame
    by (elim conjE, intro conjI allI impI) (assumption | blast | (drule spec, fast intro: c))+
qed

lemma kinv_modify_gen:
  assumes "kinv X k" "lookup k fd = Some s" "sock_step b (send_buf_cap k) s (f s)"
    and "\<And>a u. b \<Longrightarrow> lookup k a = Some u \<Longrightarrow> a \<notin> X \<Longrightarrow> fd \<notin> set (ready_of u)"
  shows "kinv X (modify fd f k)"
proof -
  have s: "st_get (table k) fd = Some s" using assms(2) by (simp add: lookup_def)
  have "sockets_inv (send_buf_cap k) X (next_id (table k)) ((st_get (table k))(fd \<mapsto> f s))"
    using assms s by (intro sockets_inv_step [where s = s and b = b]) (auto simp: kinv_def lookup_eq)
  moreover have "index_inv (st_modify fd f (table k))"
    using assms(1,3) s by (intro index_inv_step [OF _ s]) (auto simp: kinv_def sock_step_def)
  ultimately show ?thesis
    using assms(1) by (simp add: kinv_def st_get_st_modify_fun [OF s])
qed

lemma kinv_modify:
  assumes "kinv X k" "lookup k fd = Some s" "sock_step False (send_buf_cap k) s (f s)"
  shows "kinv X (modify fd f k)"
  using assms by (rule kinv_modify_gen) simp

section \<open>Updates of the table\<close>

lemma st_get_insert:
  "st_get (snd (st_insert s t)) = (st_get t)(next_id t \<mapsto> s)" "fst (st_insert s t) = next_id t"
  "next_id (snd (st_insert s t)) = Suc (next_id t)"
  "find_by_bind (snd (st_insert s t)) = find_by_bind t"
  "find_connection (snd (st_insert s t)) = find_connection t"
  by (auto simp: st_insert_def Let_def st_get_def find_by_bind_def find_connection_def imap_simps
      intro!: ext)

lemma fresh_fd: "kinv X k \<Longrightarrow> lookup k (next_id (table k)) = None"
  using kinv_socket(1) [of X k "next_id (table k)"] by (cases "lookup k (next_id (table k))") auto

lemma acceptable_new: "acceptable g c \<Longrightarrow> g fd = None \<Longrightarrow> acceptable (g(fd \<mapsto> s)) c"
  by (auto simp: acceptable_def)

lemma sockets_inv_new:
  assumes inv: "sockets_inv cap X n g" and fd: "n \<le> fd" and wf: "sock_wf cap s" "listen s = None"
  shows "sockets_inv cap X (Suc fd) (g(fd \<mapsto> s))"
proof -
  have none: "g fd = None"
    using inv fd by (cases "g fd") (auto simp: sockets_inv_def dest!: spec [of _ fd])
  have r: "ready_of s = []" using wf by (simp add: ready_of_def)
  show ?thesis
    unfolding sockets_inv_def
  proof (intro conjI allI impI ballI)
    fix a u assume "(g(fd \<mapsto> s)) a = Some u"
    then have u: "a = fd \<and> u = s \<or> a \<noteq> fd \<and> g a = Some u" by (auto split: if_splits)
    show "a < Suc fd" "sock_wf cap u" "distinct (ready_of u)"
      using u fd wf r by (auto dest: sockets_invD [OF inv] less_le_trans)
    fix c assume "a \<notin> X" "c \<in> set (ready_of u)"
    then have "acceptable g c" using u r inv by (auto simp: sockets_inv_def)
    then show "acceptable (g(fd \<mapsto> s)) c" using none by (rule acceptable_new)
  next
    fix a b u v
    assume "(g(fd \<mapsto> s)) a = Some u" "(g(fd \<mapsto> s)) b = Some v" "a \<noteq> b"
    then show "set (ready_of u) \<inter> set (ready_of v) = {}"
      using inv r unfolding sockets_inv_def by (auto split: if_splits)
  qed
qed

lemma kinv_mk_socket:
  assumes "kinv X k"
  shows "kinv X (snd (mk_socket d ty k))"
    "lookup (snd (mk_socket d ty k)) = (lookup k)(next_id (table k) \<mapsto> Socket_new d ty)"
    "fst (mk_socket d ty k) = next_id (table k)"
proof -
  let ?t = "snd (st_insert (Socket_new d ty) (table k))"
  have none: "st_get (table k) (next_id (table k)) = None"
    using fresh_fd [OF assms] by (simp add: lookup_eq)
  have mk: "mk_socket d ty k = (next_id (table k), put_table ?t k)"
    by (simp add: mk_socket_def split_beta st_get_insert)
  have idx: "index_inv (table k)" using assms by (simp add: kinv_def)
  have new: "bound (Socket_new d ty) = None" "tcb (Socket_new d ty) = None"
    "listen (Socket_new d ty) = None" "sock_wf c (Socket_new d ty)" for c
    by (simp_all add: Socket_new_def sock_wf_def)
  have frame: "imap_wf (sockets ?t)" "bindings ?t = bindings (table k)"
    "connections ?t = connections (table k)" "ports ?t = ports (table k)"
    using idx by (auto simp: st_insert_def Let_def index_inv_def intro: distinct_update)
  have "index_inv ?t"
    using idx frame none new unfolding index_inv_def st_get_insert
    by (simp, intro conjI allI impI) (metis option.distinct(1) option.inject)+
  moreover have "sockets_inv (send_buf_cap k) X (next_id ?t) (st_get ?t)"
    using assms new unfolding st_get_insert by (intro sockets_inv_new) (auto simp: kinv_def)
  ultimately show "kinv X (snd (mk_socket d ty k))"
    using assms by (simp add: mk kinv_def)
  show "lookup (snd (mk_socket d ty k)) = (lookup k)(next_id (table k) \<mapsto> Socket_new d ty)"
    by (simp add: mk st_get_insert lookup_eq)
  show "fst (mk_socket d ty k) = next_id (table k)" by (simp add: mk)
qed

lemma insert_binding_frame [simp]:
  "find_by_bind (insert_binding key fd t) key' =
     (if key' = key then find_by_bind t key @ [fd] else find_by_bind t key')"
  "st_get (insert_binding key fd t) = st_get t" "sockets (insert_binding key fd t) = sockets t"
  "connections (insert_binding key fd t) = connections t"
  "find_connection (insert_binding key fd t) = find_connection t"
  "ports (insert_binding key fd t) = ports t" "next_id (insert_binding key fd t) = next_id t"
  by (auto simp: insert_binding_def find_by_bind_def st_get_def find_connection_def imap_simps
      intro!: ext)

lemma sockets_inv_bind:
  assumes inv: "sockets_inv cap X n g" and s: "g fd = Some s" "bound s = None"
    and wf: "sock_wf cap s'" "listen s' = None"
  shows "sockets_inv cap X n (g(fd \<mapsto> s'))"
proof -
  have old: "tcb s = None" "listen s = None" "fd < n"
    using sockets_invD [OF inv s(1)] s(2) by (simp_all add: sock_wf_unbound)
  have acc: "acceptable (g(fd \<mapsto> s')) c" if "acceptable g c" for c
    using that s old by (auto simp: acceptable_def)
  have r: "ready_of s' = []" using wf by (simp add: ready_of_def)
  show ?thesis
    unfolding sockets_inv_def
  proof (intro conjI allI impI ballI)
    fix a u assume "(g(fd \<mapsto> s')) a = Some u"
    then have u: "a = fd \<and> u = s' \<or> a \<noteq> fd \<and> g a = Some u" by (auto split: if_splits)
    show "a < n" "sock_wf cap u" "distinct (ready_of u)"
      using u inv old wf r by (auto simp: sockets_inv_def)
    fix c assume "a \<notin> X" "c \<in> set (ready_of u)"
    then show "acceptable (g(fd \<mapsto> s')) c" using u r inv by (auto simp: sockets_inv_def intro!: acc)
  next
    fix a b u v
    assume "(g(fd \<mapsto> s')) a = Some u" "(g(fd \<mapsto> s')) b = Some v" "a \<noteq> b"
    then show "set (ready_of u) \<inter> set (ready_of v) = {}"
      using inv r unfolding sockets_inv_def by (auto split: if_splits)
  qed
qed

lemma kinv_bind_socket:
  assumes inv: "kinv X k" and s: "lookup k fd = Some s" "bound s = None"
    and f: "bound (f s) = Some key" "sock_wf (send_buf_cap k) (f s)" "listen (f s) = None"
  shows "kinv X (modify fd f (put_table (insert_binding key fd (table k)) k))"
proof -
  let ?t = "st_modify fd f (insert_binding key fd (table k))"
  have s': "st_get (table k) fd = Some s" using s by (simp add: lookup_eq)
  have get: "st_get ?t = (st_get (table k))(fd \<mapsto> f s)" using s' by (intro ext) simp
  have idx: "index_inv (table k)" using inv by (simp add: kinv_def)
  have notcb: "tcb s = None" using kinv_socket(2) [OF inv s(1)] s(2) by (simp add: sock_wf_unbound)
  have bwf: "imap_wf (bindings (insert_binding key fd (table k)))"
    using idx by (auto simp: insert_binding_def index_inv_def intro: distinct_update)
  have "fd' \<in> set (find_by_bind ?t key') \<longleftrightarrow> (\<exists>u. st_get ?t fd' = Some u \<and> bound u = Some key')"
    for fd' key'
    using idx s' s(2) f(1) unfolding index_inv_def get by auto
  moreover have "\<exists>u c. st_get ?t fd' = Some u \<and> tcb u = Some c \<and> tcb_peer c = rem \<and>
      bound_endpoint u = Some loc" if "find_connection ?t loc rem = Some fd'" for loc rem fd'
  proof -
    from that idx obtain u c where "st_get (table k) fd' = Some u" "tcb u = Some c"
      "tcb_peer c = rem" "bound_endpoint u = Some loc" unfolding index_inv_def by fastforce
    with notcb s' show ?thesis unfolding get by (intro exI [of _ u] exI [of _ c]) auto
  qed
  ultimately have "index_inv ?t"
    using idx bwf unfolding index_inv_def by simp
  moreover have "sockets_inv (send_buf_cap k) X (next_id ?t) (st_get ?t)"
    using inv s' s f unfolding get by (intro sockets_inv_bind) (auto simp: kinv_def)
  ultimately show ?thesis using inv by (simp add: kinv_def)
qed

lemma kinv_insert_connection:
  assumes inv: "kinv X k" and s: "lookup k fd = Some s" "tcb s = Some c" "tcb_peer c = rem"
    "bound_endpoint s = Some loc" and loc: "\<not> is_unspecified (sa_ip loc)"
  obtains t where "insert_connection loc rem fd (table k) = Some t" "kinv X (put_table t k)"
    "st_get t = lookup k"
proof -
  let ?t = "(table k)\<lparr>connections := imap_insert (loc, rem) fd (connections (table k))\<rparr>"
  have get: "st_get ?t = st_get (table k)" "find_by_bind ?t = find_by_bind (table k)"
    by (auto simp: st_get_def find_by_bind_def intro!: ext)
  have conn: "find_connection ?t l r =
      (if l = loc \<and> r = rem then Some fd else find_connection (table k) l r)" for l r
    by (auto simp: find_connection_def imap_simps)
  have "index_inv ?t"
    using inv s unfolding kinv_def index_inv_def get conn
    by (auto simp: lookup_eq intro: distinct_update)
  then have "kinv X (put_table ?t k)" using inv by (simp add: kinv_def get)
  then show ?thesis using that [of ?t] loc by (simp add: insert_connection_def get lookup_eq)
qed

lemma kinv_allocate_port:
  assumes "kinv X k"
  obtains p t where "allocate_port d ty (table k) = Some (p, t)" "kinv X (put_table t k)"
    "st_get t = lookup k" "bindings t = bindings (table k)"
proof -
  have wf: "alloc_wf (ports (table k))" using assms by (simp add: kinv_def index_inv_def)
  then obtain p a where pa: "allocate (port_in_use (table k) d ty) (ports (table k)) = Some (p, a)"
    using port_alloc.returns by blast
  let ?t = "(table k)\<lparr>ports := a\<rparr>"
  have get: "st_get ?t = st_get (table k)" "find_by_bind ?t = find_by_bind (table k)"
    "find_connection ?t = find_connection (table k)"
    by (auto simp: st_get_def find_by_bind_def find_connection_def intro!: ext)
  have "alloc_wf a" using wf pa by (rule port_alloc.keeps_wf)
  then have "kinv X (put_table ?t k)"
    using assms by (simp add: kinv_def index_inv_def get)
  then show ?thesis using that [of p ?t] pa by (simp add: allocate_port_def get lookup_eq)
qed

lemma st_get_remove: "st_get (st_remove fd t) = (st_get t)(fd := None)"
  by (rule ext) (simp add: st_get_def st_remove_def imap_simps)

lemma find_by_bind_remove:
  assumes "imap_wf (bindings t)"
  shows "find_by_bind (st_remove fd t) key = filter (\<lambda>f. f \<noteq> fd) (find_by_bind t key)"
proof -
  let ?m = "map (\<lambda>(k, fds). (k, filter (\<lambda>f. f \<noteq> fd) fds)) (bindings t)"
  have "imap_wf ?m" using assms by (simp add: comp_def split_beta)
  moreover have "imap_get ?m key = map_option (filter (\<lambda>f. f \<noteq> fd)) (imap_get (bindings t) key)"
    by (simp add: map_of_map)
  ultimately show ?thesis
    by (auto simp: find_by_bind_def st_remove_def imap_get_retain split: option.splits)
qed

lemma find_connection_remove:
  assumes "imap_wf (connections t)" "find_connection (st_remove fd t) loc rem = Some fd'"
  shows "find_connection t loc rem = Some fd' \<and> fd' \<noteq> fd"
  using assms by (auto simp: find_connection_def st_remove_def imap_get_retain
      split: option.splits if_splits)

lemma index_inv_remove:
  assumes "index_inv t"
  shows "index_inv (st_remove fd t)"
proof -
  have wf: "imap_wf (bindings t)" "imap_wf (connections t)" "imap_wf (sockets t)"
    "alloc_wf (ports t)" using assms by (auto simp: index_inv_def)
  have "imap_wf (sockets (st_remove fd t))" "imap_wf (connections (st_remove fd t))"
    "imap_wf (bindings (st_remove fd t))" "alloc_wf (ports (st_remove fd t))"
    using wf by (auto simp: st_remove_def comp_def split_beta
        intro!: distinct_delete imap_wf_retain)
  moreover have "a \<in> set (find_by_bind (st_remove fd t) key) \<longleftrightarrow>
      (\<exists>s. st_get (st_remove fd t) a = Some s \<and> bound s = Some key)" for a key
    using assms by (auto simp: find_by_bind_remove [OF wf(1)] st_get_remove index_inv_def)
  moreover have "\<exists>s c. st_get (st_remove fd t) a = Some s \<and> tcb s = Some c \<and> tcb_peer c = rem \<and>
      bound_endpoint s = Some loc" if "find_connection (st_remove fd t) loc rem = Some a" for loc rem a
    using find_connection_remove [OF wf(2) that] assms
    unfolding index_inv_def st_get_remove fun_upd_apply by meson
  ultimately show ?thesis unfolding index_inv_def by blast
qed

lemma sockets_inv_remove:
  assumes inv: "sockets_inv cap (insert fd X) n g"
    and q: "\<And>a s. g a = Some s \<Longrightarrow> a \<noteq> fd \<Longrightarrow> a \<notin> X \<Longrightarrow> fd \<notin> set (ready_of s)"
  shows "sockets_inv cap X n (g(fd := None))"
  unfolding sockets_inv_def
proof (intro conjI allI impI ballI)
  fix a u assume "(g(fd := None)) a = Some u"
  then have u: "a \<noteq> fd" "g a = Some u" by (auto split: if_splits)
  show "a < n" "sock_wf cap u" "distinct (ready_of u)" using sockets_invD [OF inv u(2)] by auto
  fix c assume "a \<notin> X" "c \<in> set (ready_of u)"
  with u q have "acceptable g c" "c \<noteq> fd" using sockets_invD(4) [OF inv u(2)] by auto
  then show "acceptable (g(fd := None)) c" by (auto simp: acceptable_def)
next
  fix a b u v assume "(g(fd := None)) a = Some u" "(g(fd := None)) b = Some v" "a \<noteq> b"
  then show "set (ready_of u) \<inter> set (ready_of v) = {}"
    using inv unfolding sockets_inv_def by (auto split: if_splits)
qed

lemma kinv_remove:
  assumes "kinv (insert fd X) k"
    and "\<And>a s. lookup k a = Some s \<Longrightarrow> a \<noteq> fd \<Longrightarrow> a \<notin> X \<Longrightarrow> fd \<notin> set (ready_of s)"
  shows "kinv X (put_table (st_remove fd (table k)) k)"
  using assms sockets_inv_remove [of "send_buf_cap k" fd X "next_id (table k)" "st_get (table k)"]
  by (auto simp: kinv_def lookup_eq st_get_remove index_inv_remove) (simp_all add: st_remove_def)

lemma kinv_mono: "kinv X k \<Longrightarrow> X \<subseteq> Y \<Longrightarrow> kinv Y k"
  unfolding kinv_def sockets_inv_def by blast

lemma kernel_inv_new:
  assumes "cfg_send_buf_cap cfg < 2 ^ 32 - 1" "60 < cfg_mtu cfg" "60 < cfg_loopback_mtu cfg"
  shows "kernel_inv (Kernel_with_config cfg)"
  using assms by (auto simp: kernel_inv_def kinv_def Kernel_with_config_def SocketTable_new_def
      index_inv_def sockets_inv_def st_get_def find_by_bind_def find_connection_def alloc_wf_def
      PortAllocator_new_def mtu_ok_def header_sizes)

end
