(* ===== verification/Tcb_Facts.thy ===== *)
theory Tcb_Facts
  imports Kernel_Inv
begin

text \<open>
  What each stage of the TCP state machine does to one control block: the ACK, data and FIN
  stages of an inbound segment, the segmentation step, the retransmission step, shutdown and
  abort. Every stage keeps the send side well formed.
\<close>

section \<open>Sequence arithmetic\<close>

lemma unat_u32_less: "unat (x :: u32) < 2 ^ 32"
  using unsigned_less [of x, where ?'a = nat] by simp

lemma u32_of_nat_inj: "m < 2 ^ 32 \<Longrightarrow> n < 2 ^ 32 \<Longrightarrow> (of_nat m :: u32) = of_nat n \<longleftrightarrow> m = n"
  by (auto dest: arg_cong [where f = unat] simp: unat_of_nat)

lemma unat_of_nat_u32: "n < 2 ^ 32 \<Longrightarrow> unat (of_nat n :: u32) = n"
  by (simp add: unat_of_nat)

lemma seq_split: "(y :: u32) = x + of_nat (unat (y - x))"
  by simp

lemma seq_diff: "y - z \<le> x - z \<Longrightarrow> unat ((x :: u32) - y) = unat (x - z) - unat (y - z)"
  using unat_sub [of "y - z" "x - z"] by simp

lemma seq_advance:
  assumes "unat ((x :: u32) - z) + n < 2 ^ 32"
  shows "unat (x + of_nat n - z) = unat (x - z) + n"
proof -
  have "x + of_nat n - z = of_nat (unat (x - z) + n)" by simp
  then show ?thesis using assms by (simp only: unat_of_nat_u32)
qed

lemma snd_nxt_in_flight: "snd_nxt t = snd_una t + of_nat (in_flight t)"
  by (simp add: in_flight_def)

lemma in_flight_less: "in_flight t < 2 ^ 32"
  unfolding in_flight_def by (rule unat_u32_less)

section \<open>The ACK stage\<close>

text \<open>How many new sequence numbers a segment acknowledges; zero for a stale or bogus ACK.\<close>

definition newly_acked :: "TcpSegment \<Rightarrow> Tcb \<Rightarrow> nat" where
  "newly_acked s t =
     (let a = unat (seg_ack s - snd_una t)
      in if fl_ack (seg_flags s) \<and> a \<le> in_flight t then a else 0)"

definition acks_fin :: "TcpSegment \<Rightarrow> Tcb \<Rightarrow> bool" where
  "acks_fin s t \<longleftrightarrow> 0 < newly_acked s t \<and> fin_seq t \<noteq> None \<and>
     newly_acked s t = length (send_buf t) + 1"

lemma fin_acked_iff:
  assumes "fin_wf t" "length (send_buf t) < 2 ^ 32 - 1" "fin_seq t = Some fs"
    "0 < acked" "acked = seg_ack s - snd_una t" "unat acked \<le> in_flight t"
  shows "seg_ack s = fs + 1 \<longleftrightarrow> unat acked = length (send_buf t) + 1"
proof -
  let ?l = "length (send_buf t)"
  have "in_flight t \<noteq> 0" using assms by (simp add: word_less_nat_alt)
  then have fs: "fs = snd_una t + of_nat ?l" using assms(1,3) by (auto simp: fin_wf_def in_flight_def)
  have "seg_ack s = fs + 1 \<longleftrightarrow> acked = of_nat (?l + 1)"
    using assms(5) fs by (auto simp: algebra_simps)
  also have "\<dots> \<longleftrightarrow> unat acked = ?l + 1"
  proof
    assume "acked = of_nat (?l + 1)"
    then show "unat acked = ?l + 1" using assms(2) by (simp only: unat_of_nat_u32)
  next
    assume "unat acked = ?l + 1"
    then have "of_nat (unat acked) = (of_nat (?l + 1) :: u32)" by (rule arg_cong)
    then show "acked = of_nat (?l + 1)" by simp
  qed
  finally show ?thesis .
qed

text \<open>The whole effect of the ACK stage on a well-formed control block.\<close>

lemma est_ack_eq:
  assumes wf: "tcb_wf cap t" "cap < 2 ^ 32 - 1" "tcb_state t \<noteq> Closed"
  shows "est_ack s t = Some (
     if \<not> fl_ack (seg_flags s) then t
     else if newly_acked s t = 0 then t\<lparr>snd_wnd := seg_window s\<rparr>
     else t\<lparr>send_buf := drop (newly_acked s t) (send_buf t),
            snd_una := snd_una t + of_nat (newly_acked s t),
            egress_since_ack := 0, retx_attempts := 0,
            tcb_state := if acks_fin s t then fin_acked_state (tcb_state t) else tcb_state t,
            snd_wnd := seg_window s\<rparr>)"
proof (cases "fl_ack (seg_flags s) \<and> newly_acked s t \<noteq> 0")
  case False
  then show ?thesis
    by (auto simp: est_ack_def newly_acked_def in_flight_def word_le_nat_alt word_less_nat_alt Let_def
        split: if_splits)
next
  case True
  let ?l = "length (send_buf t)" and ?a = "seg_ack s - snd_una t"
  have len: "?l < 2 ^ 32 - 1" using wf by (simp add: tcb_wf_def)
  have fw: "fin_wf t" using wf by (simp add: tcb_wf_def)
  have a: "newly_acked s t = unat ?a" "unat ?a \<le> in_flight t" "0 < ?a" "fl_ack (seg_flags s)"
    using True by (auto simp: newly_acked_def Let_def word_less_nat_alt split: if_splits)
  have cond: "0 < ?a \<and> ?a \<le> snd_nxt t - snd_una t"
    using a by (simp add: word_le_nat_alt in_flight_def)
  define fa where "fa = (case fin_seq t of None \<Rightarrow> False | Some fs \<Rightarrow> seg_ack s = fs + 1)"
  have fa: "fa \<longleftrightarrow> acks_fin s t"
    using fin_acked_iff [OF fw len _ a(3) refl a(2)] a
    by (auto simp: fa_def acks_fin_def word_less_nat_alt split: option.splits)
  define d where "d = (if fa then ?a - 1 else ?a)"
  have "unat ?a \<le> ?l \<or> fa"
    using a fw fa unfolding fin_wf_def acks_fin_def
    by (auto simp: in_flight_def word_less_nat_alt split: option.splits)
  moreover have "unat (?a - 1) = unat ?a - 1" using a(3) by (metis less_irrefl unat_minus_one)
  then have "fa \<Longrightarrow> unat d = ?l \<and> unat ?a = Suc ?l"
    using fa a by (simp add: d_def acks_fin_def)
  ultimately have d: "unat d \<le> ?l" "drop (unat d) (send_buf t) = drop (unat ?a) (send_buf t)"
    by (auto simp: d_def)
  have "est_ack s t = Some (t\<lparr>send_buf := drop (unat d) (send_buf t), snd_una := seg_ack s,
      egress_since_ack := 0, retx_attempts := 0,
      tcb_state := if fa then fin_acked_state (tcb_state t) else tcb_state t,
      snd_wnd := seg_window s\<rparr>)"
    using a cond d(1) unfolding est_ack_def Let_def fa_def [symmetric] d_def [symmetric] by simp
  then show ?thesis using a True d(2) fa by simp
qed

lemma newly_acked_le: "newly_acked s t \<le> in_flight t"
  by (simp add: newly_acked_def Let_def)

lemma in_flight_after_ack:
  assumes "snd_nxt t' = snd_nxt t" "snd_una t' = snd_una t + of_nat (newly_acked s t)"
  shows "in_flight t' = in_flight t - newly_acked s t"
proof -
  let ?n = "newly_acked s t"
  have n: "?n < 2 ^ 32" using newly_acked_le in_flight_less by (rule le_less_trans)
  have "in_flight t' = unat (snd_nxt t - (snd_una t + of_nat ?n))"
    using assms by (simp add: in_flight_def)
  also have "\<dots> = unat (snd_nxt t - snd_una t) - unat (snd_una t + of_nat ?n - snd_una t)"
    using newly_acked_le [of s t] n
    by (intro seq_diff) (simp add: word_le_nat_alt unat_of_nat_u32 in_flight_def)
  also have "\<dots> = in_flight t - ?n" using n by (simp add: unat_of_nat_u32 in_flight_def)
  finally show ?thesis .
qed

text \<open>Stages move a connection only among the states after the handshake.\<close>

lemma fin_acked_state_simps [simp]:
  "fin_acked_state s = SynReceived \<longleftrightarrow> s = SynReceived" "fin_acked_state s = SynSent \<longleftrightarrow> s = SynSent"
  by (cases s; simp add: fin_acked_state_def)+

lemma fin_received_state_simps [simp]:
  "fin_received_state s = SynReceived \<longleftrightarrow> s = SynReceived"
  "fin_received_state s = SynSent \<longleftrightarrow> s = SynSent"
  by (cases s; simp add: fin_received_state_def)+

lemma shutdown_state_simps [simp]:
  "shutdown_state s = SynReceived \<longleftrightarrow> s = SynReceived" "shutdown_state s = SynSent \<longleftrightarrow> s = SynSent"
  "shutdown_state s = Closed \<longleftrightarrow> s = Closed"
  by (cases s; simp add: shutdown_state_def)+

lemma acked_in_buf:
  assumes "fin_wf t"
  shows "newly_acked s t \<le> length (send_buf t) \<or>
    fin_seq t = Some (snd_una t + of_nat (length (send_buf t))) \<and>
      newly_acked s t = Suc (length (send_buf t)) \<and> in_flight t = newly_acked s t"
proof (cases "newly_acked s t \<le> length (send_buf t)")
  case False
  then have "length (send_buf t) < in_flight t" using newly_acked_le [of s t] by simp
  then show ?thesis using assms False newly_acked_le [of s t]
    by (auto simp: fin_wf_def in_flight_def split: option.splits)
qed simp

lemma fin_wf_ack:
  assumes fw: "fin_wf t"
    and t': "snd_nxt t' = snd_nxt t" "snd_una t' = snd_una t + of_nat (newly_acked s t)"
      "send_buf t' = drop (newly_acked s t) (send_buf t)" "fin_seq t' = fin_seq t"
  shows "fin_wf t'"
proof -
  let ?n = "newly_acked s t" and ?l = "length (send_buf t)"
  have fl: "in_flight t' = in_flight t - ?n" using t' by (intro in_flight_after_ack)
  show ?thesis
  proof (cases "?n \<le> ?l")
    case True
    then have "of_nat ?n + of_nat (?l - ?n) = (of_nat ?l :: u32)" by (metis of_nat_add le_add_diff_inverse)
    then have sum: "snd_una t + of_nat ?l = snd_una t' + of_nat (length (send_buf t'))"
      using t' by (simp add: add.assoc)
    show ?thesis
    proof (cases "in_flight t = 0")
      case True
      then have "?n = 0" using newly_acked_le [of s t] by simp
      then show ?thesis using fw t' fl by (auto simp: fin_wf_def split: option.splits)
    next
      case False
      then show ?thesis using fw t' fl sum True
        by (auto simp: fin_wf_def in_flight_def split: option.splits)
    qed
  next
    case False
    then have n: "fin_seq t = Some (snd_una t + of_nat ?l)" "?n = Suc ?l" "in_flight t = ?n"
      using acked_in_buf [OF fw, of s] by auto
    then have "snd_nxt t' = snd_una t'" using t' snd_nxt_in_flight [of t] by simp
    then show ?thesis using n t' by (simp add: fin_wf_def add.assoc add.commute)
  qed
qed

text \<open>What the ACK stage promises to the callers.\<close>

definition tcb_step :: "nat \<Rightarrow> Tcb \<Rightarrow> Tcb \<Rightarrow> bool" where
  "tcb_step cap t t' \<longleftrightarrow> tcb_wf cap t' \<and> tcb_peer t' = tcb_peer t \<and>
     (tcb_state t' = SynReceived \<longrightarrow> tcb_state t = SynReceived)"

lemma est_ack_step:
  assumes wf: "tcb_wf cap t" "cap < 2 ^ 32 - 1" "tcb_state t \<noteq> Closed"
  obtains t' where "est_ack s t = Some t'" "tcb_step cap t t'" "recv_buf t' = recv_buf t"
    "rcv_nxt t' = rcv_nxt t" "peer_fin t' = peer_fin t"
proof -
  let ?n = "newly_acked s t"
  define t' where "t' = (if \<not> fl_ack (seg_flags s) then t
     else if ?n = 0 then t\<lparr>snd_wnd := seg_window s\<rparr>
     else t\<lparr>send_buf := drop ?n (send_buf t), snd_una := snd_una t + of_nat ?n,
            egress_since_ack := 0, retx_attempts := 0,
            tcb_state := if acks_fin s t then fin_acked_state (tcb_state t) else tcb_state t,
            snd_wnd := seg_window s\<rparr>)"
  have r: "est_ack s t = Some t'" unfolding t'_def by (rule est_ack_eq [OF wf])
  have fw: "fin_wf t" using wf by (simp add: tcb_wf_def)
  have "fin_wf t'"
    using fw newly_acked_def [of s t]
    by (intro fin_wf_ack [OF fw, where s = s]) (auto simp: t'_def)
  then have "tcb_wf cap t'" using wf by (auto simp: tcb_wf_def t'_def)
  moreover have "tcb_peer t' = tcb_peer t" "tcb_state t' = SynReceived \<Longrightarrow> tcb_state t = SynReceived"
    by (auto simp: t'_def split: if_splits)
  ultimately show ?thesis using that [OF r] by (simp add: tcb_step_def) (simp add: t'_def)
qed

section \<open>The other stages\<close>

lemma tcb_step_refl: "tcb_wf cap t \<Longrightarrow> tcb_step cap t t"
  by (simp add: tcb_step_def)

lemma tcb_step_trans: "tcb_step cap t u \<Longrightarrow> tcb_step cap u v \<Longrightarrow> tcb_step cap t v"
  by (auto simp: tcb_step_def)

text \<open>Fields the send side does not depend on.\<close>

lemma fin_wf_frame [simp]:
  "fin_wf (t\<lparr>tcb_state := st\<rparr>) = fin_wf t" "fin_wf (t\<lparr>recv_buf := r\<rparr>) = fin_wf t"
  "fin_wf (t\<lparr>rcv_nxt := n\<rparr>) = fin_wf t" "fin_wf (t\<lparr>peer_fin := b\<rparr>) = fin_wf t"
  "fin_wf (t\<lparr>snd_wnd := w\<rparr>) = fin_wf t" "fin_wf (t\<lparr>egress_since_ack := e\<rparr>) = fin_wf t"
  "fin_wf (t\<lparr>retx_attempts := e\<rparr>) = fin_wf t" "fin_wf (t\<lparr>wr_closed := b\<rparr>) = fin_wf t"
  by (simp_all add: fin_wf_def in_flight_def cong: option.case_cong)

lemma est_data_step:
  assumes "tcb_wf cap t"
  shows "tcb_step cap t (fst (est_data rcap s t))"
  using assms by (auto simp: est_data_def tcb_step_def tcb_wf_def Let_def)

lemma est_fin_step:
  assumes "tcb_wf cap t" "tcb_state t \<noteq> Closed"
  shows "tcb_step cap t (fst (est_fin s t))"
  using assms by (auto simp: est_fin_def tcb_step_def tcb_wf_def)

lemma est_data_state [simp]: "tcb_state (fst (est_data rcap s t)) = tcb_state t"
  by (simp add: est_data_def Let_def)

lemma fin_acked_tcb_wf: "tcb_wf cap t \<Longrightarrow> tcb_wf cap (fst (est_fin s t))"
  by (cases "tcb_state t") (auto simp: est_fin_def tcb_wf_def fin_received_state_def)

lemma queue_fin_step:
  assumes "tcb_wf cap t" "\<not> wr_closed t"
  shows "tcb_step cap t (queue_fin t)"
proof -
  have "fin_seq t = None" using assms by (auto simp: tcb_wf_def)
  then have "fin_wf (queue_fin t)" if "tcb_state t \<noteq> Closed"
    using assms that by (auto simp: queue_fin_def fin_wf_def tcb_wf_def in_flight_def)
  then show ?thesis using assms by (auto simp: tcb_step_def tcb_wf_def) (auto simp: queue_fin_def)
qed

lemma abort_tcb_step: "tcb_wf cap t \<Longrightarrow> tcb_step cap t (abort_tcb r t)"
  by (cases r) (auto simp: abort_tcb_def tcb_step_def tcb_wf_def Let_def)

lemma new_tcb_wf: "tcb_wf cap (new_tcb st peer isn wnd rcv)"
  by (simp add: new_tcb_def tcb_wf_def fin_wf_def in_flight_def)

lemma fin_wf_rewind:
  "fin_wf t \<Longrightarrow> snd_nxt t' = snd_una t \<Longrightarrow> snd_una t' = snd_una t \<Longrightarrow> send_buf t' = send_buf t \<Longrightarrow>
     fin_seq t' = fin_seq t \<Longrightarrow> fin_wf t'"
  by (auto simp: fin_wf_def in_flight_def split: option.splits)

lemma retx_one_step: "tcb_wf cap t \<Longrightarrow> tcb_step cap t (fst (retx_one th mx t))"
  by (auto simp: retx_one_def tcb_step_def tcb_wf_def Let_def intro: fin_wf_rewind)

lemma retx_one_state [simp]: "tcb_state (fst (retx_one th mx t)) = tcb_state t"
  by (simp add: retx_one_def Let_def)

lemma send_step:
  assumes "tcb_wf cap t" "\<not> wr_closed t" "length d \<le> cap - length (send_buf t)"
  shows "tcb_step cap t (t\<lparr>send_buf := send_buf t @ d\<rparr>)"
  using assms by (auto simp: tcb_step_def tcb_wf_def fin_wf_def in_flight_def)

section \<open>Segmentation\<close>

definition unsent_len :: "Tcb \<Rightarrow> nat" where
  "unsent_len t = length (send_buf t) - in_flight t"

lemma segment_next_cases:
  assumes "segment_next mss t = Some (sq, payload, is_fin, t')"
  obtains
    (data) n where "\<not> is_fin" "n = min (min (unsent_len t) mss) (unat (snd_wnd t) - in_flight t)"
      "0 < unsent_len t" "0 < unat (snd_wnd t) - in_flight t"
      "sq = snd_nxt t" "payload = take n (drop (in_flight t) (send_buf t))"
      "t' = t\<lparr>snd_nxt := snd_nxt t + of_nat n\<rparr>" "length payload = n"
  | (fin) "is_fin" "fin_pending t" "0 < unat (snd_wnd t) - in_flight t" "unsent_len t = 0"
      "sq = snd_nxt t" "payload = []" "t' = t\<lparr>snd_nxt := snd_nxt t + 1\<rparr>"
proof (cases "0 < unsent_len t \<and> 0 < unat (snd_wnd t) - in_flight t")
  case True
  then have "segment_next mss t = (let n = min (min (unsent_len t) mss) (unat (snd_wnd t) - in_flight t)
      in Some (snd_nxt t, take n (drop (in_flight t) (send_buf t)), False,
               t\<lparr>snd_nxt := snd_nxt t + of_nat n\<rparr>))"
    unfolding segment_next_def unsent_len_def in_flight_def Let_def by simp
  then show ?thesis
    using assms True by (intro data [OF _ refl]) (simp_all add: Let_def unsent_len_def)
next
  case False
  then have seg: "segment_next mss t = (if fin_pending t \<and> 0 < unat (snd_wnd t) - in_flight t then
      Some (snd_nxt t, [], True, t\<lparr>snd_nxt := snd_nxt t + 1\<rparr>) else None)"
    unfolding segment_next_def unsent_len_def in_flight_def Let_def by (simp only: if_False)
  then have p: "fin_pending t" "0 < unat (snd_wnd t) - in_flight t"
    using assms by (auto simp del: diff_is_0_eq split: if_splits)
  then show ?thesis using seg assms False by (intro fin) simp_all
qed

lemma segment_next_frame:
  assumes "segment_next mss t = Some (sq, payload, is_fin, t')"
  obtains n where "t' = t\<lparr>snd_nxt := n\<rparr>"
  using assms
proof (cases rule: segment_next_cases)
  case (data n)
  from data(7) show ?thesis by (rule that)
next
  case fin
  from fin(7) show ?thesis by (rule that)
qed

lemma fin_pending_wf:
  assumes "fin_wf t" "fin_pending t" "length (send_buf t) < 2 ^ 32 - 1"
  shows "in_flight t = length (send_buf t)" "fin_seq t = Some (snd_nxt t)"
    "snd_nxt t = snd_una t + of_nat (length (send_buf t))"
proof -
  let ?l = "length (send_buf t)"
  obtain fs where fs: "fin_seq t = Some fs" "snd_nxt t = fs"
    using assms(2) by (auto simp: fin_pending_def split: option.splits)
  then have eq: "snd_nxt t = snd_una t + of_nat ?l"
    using assms(1) by (auto simp: fin_wf_def)
  then show "in_flight t = ?l" "snd_nxt t = snd_una t + of_nat ?l" "fin_seq t = Some (snd_nxt t)"
    using assms(3) fs by (simp_all add: in_flight_def unat_of_nat_u32)
qed

lemma segment_next_step:
  assumes wf: "tcb_wf cap t" "cap < 2 ^ 32 - 1" "tcb_state t \<noteq> Closed"
    and seg: "segment_next mss t = Some (sq, payload, is_fin, t')"
  shows "tcb_step cap t t'"
proof -
  have fw: "fin_wf t" and len: "length (send_buf t) < 2 ^ 32 - 1"
    using wf by (auto simp: tcb_wf_def)
  from seg have "fin_wf t'"
  proof (cases rule: segment_next_cases)
    case (data n)
    have le: "in_flight t + n \<le> length (send_buf t)" using data by (simp add: unsent_len_def)
    have "in_flight t' = unat (snd_nxt t + of_nat n - snd_una t)" by (simp add: data(7) in_flight_def)
    also have "\<dots> = in_flight t + n"
      using le len unfolding in_flight_def by (intro seq_advance) simp
    finally have fl: "in_flight t' = in_flight t + n" .
    have ne: "send_buf t \<noteq> []" using data(3) by (auto simp: unsent_len_def)
    have "snd_una t' = snd_una t" "send_buf t' = send_buf t" "fin_seq t' = fin_seq t"
      by (simp_all add: data(7))
    then show ?thesis using fw fl le ne unfolding fin_wf_def by (simp split: option.splits)
  next
    case fin
    note p = fin_pending_wf [OF fw fin(2) len]
    have "in_flight t' = unat (snd_nxt t + of_nat 1 - snd_una t)" by (simp add: fin(7) in_flight_def)
    also have "\<dots> = in_flight t + 1"
      using p(1) len unfolding in_flight_def by (intro seq_advance) simp
    finally show ?thesis using p by (simp add: fin(7) fin_wf_def)
  qed
  moreover obtain n where "t' = t\<lparr>snd_nxt := n\<rparr>" using seg by (rule segment_next_frame)
  ultimately show ?thesis using wf by (simp add: tcb_step_def tcb_wf_def)
qed

end
