(* ===== verification/Kernel_Safety.thy ===== *)
theory Kernel_Safety
  imports Tcb_Facts
begin

text \<open>
  No call of the kernel panics or diverges on a reachable state, and every call keeps the
  kernel invariant: the operations of \<^verbatim>\<open>tcp.rs\<close> and \<^verbatim>\<open>udp.rs\<close> first, then the system
  calls and the packet paths of \<^verbatim>\<open>mod.rs\<close> built on them.
\<close>

section \<open>Socket updates\<close>

lemma sock_stepI:
  assumes "sock_wf cap s" "distinct (ready_of s)"
    and "bound s' = bound s" "sk_domain s' = sk_domain s" "sk_ty s' = sk_ty s"
    and "listen s' = listen s" "fd_closed s' = fd_closed s"
    and "tcb s' = tcb s \<or> (\<exists>t t'. tcb s = Some t \<and> tcb s' = Some t' \<and> tcb_step cap t t')"
  shows "sock_step b cap s s'"
  using assms unfolding sock_step_def sock_wf_def tcb_step_def ready_of_def by auto

lemma kinv_update:
  assumes k: "kinv X k" "lookup k fd = Some s"
    and "bound (f s) = bound s" "sk_domain (f s) = sk_domain s" "sk_ty (f s) = sk_ty s"
    and "listen (f s) = listen s" "fd_closed (f s) = fd_closed s"
    and "tcb (f s) = tcb s \<or>
      (\<exists>t t'. tcb s = Some t \<and> tcb (f s) = Some t' \<and> tcb_step (send_buf_cap k) t t')"
  shows "kinv X (modify fd f k)"
  using assms kinv_socket [OF k] by (intro kinv_modify [OF k] sock_stepI)

text \<open>Updates that leave the control block alone, and updates of the control block only.\<close>

lemma imap_modify_absent: "imap_get m k = None \<Longrightarrow> imap_modify k f m = m"
  by (induction m) (auto split: if_splits)

lemma modify_absent: "lookup k fd = None \<Longrightarrow> modify fd f k = k"
  by (simp add: lookup_def st_get_def modify_def st_modify_def imap_modify_absent)

lemma kinv_update_other:
  assumes "kinv X k"
    and "\<And>s. bound (f s) = bound s" "\<And>s. sk_domain (f s) = sk_domain s" "\<And>s. sk_ty (f s) = sk_ty s"
    and "\<And>s. listen (f s) = listen s" "\<And>s. fd_closed (f s) = fd_closed s" "\<And>s. tcb (f s) = tcb s"
  shows "kinv X (modify fd f k)"
proof (cases "lookup k fd")
  case None
  then show ?thesis using assms(1) by (simp add: modify_absent)
next
  case (Some s)
  with assms show ?thesis by (intro kinv_update) auto
qed

lemma kinv_update_tcb:
  assumes "kinv X k" "lookup k fd = Some s" "tcb s = Some t" "tcb_step (send_buf_cap k) t t'"
  shows "kinv X (modify fd (\<lambda>s. s\<lparr>tcb := Some t'\<rparr>) k)"
  using assms by (intro kinv_update [OF assms(1,2)]) auto

lemma wake_read_eq [simp]: "wake_read s = (s\<lparr>read_wakers := []\<rparr>, read_wakers s)"
  by (simp add: wake_read_def wake_all_def)

lemma wake_write_eq [simp]: "wake_write s = (s\<lparr>write_wakers := []\<rparr>, write_wakers s)"
  by (simp add: wake_write_def wake_all_def)

section \<open>TCP primitives\<close>

lemma park_connect_safe:
  "kinv X k \<Longrightarrow> lookup k fd = Some s \<Longrightarrow> returns (park_connect fd w k) (kinv X)"
  by (simp add: park_connect_def kinv_update_other)

lemma wake_connect_safe:
  "kinv X k \<Longrightarrow> lookup k fd = Some s \<Longrightarrow> returns (wake_connect fd k) (kinv X)"
  by (auto simp: wake_connect_def Let_def kinv_update_other split: option.splits)

lemma abort_with_safe:
  assumes "kinv X k" "lookup k fd = Some s"
  shows "returns (abort_with r fd k) (kinv X)"
proof -
  have "tcb s = None \<or> (\<exists>t. tcb s = Some t \<and> tcb_step (send_buf_cap k) t (abort_tcb r t))"
    using kinv_tcb(1) [OF assms] abort_tcb_step by (cases "tcb s") auto
  then show ?thesis
    using assms by (auto simp: abort_with_def Let_def intro!: kinv_update [OF assms])
qed

lemma first_listening_safe:
  assumes "\<And>fd. fd \<in> set fds \<Longrightarrow> \<exists>s. st_get t fd = Some s"
  shows "returns (first_listening t fds) (\<lambda>r. \<forall>fd. r = Some fd \<longrightarrow>
     fd \<in> set fds \<and> (\<exists>s l. st_get t fd = Some s \<and> listen s = Some l))"
  using assms
proof (induction fds)
  case (Cons fd fds)
  obtain s where s: "st_get t fd = Some s" using Cons.prems [of fd] by auto
  have "returns (first_listening t fds) (\<lambda>r. \<forall>a. r = Some a \<longrightarrow>
      a \<in> set (fd # fds) \<and> (\<exists>s l. st_get t a = Some s \<and> listen s = Some l))"
    by (rule returns_mono [OF Cons.IH]) (use Cons.prems in auto)
  then show ?case using s by auto
qed simp

lemma find_listener_safe:
  assumes "kinv X k"
  shows "returns (find_listener k loc) (\<lambda>r. \<forall>fd. r = Some fd \<longrightarrow>
     (\<exists>s l. lookup k fd = Some s \<and> listen s = Some l))"
  unfolding find_listener_def
  by (rule returns_mono [OF first_listening_safe])
    (use kinv_bind [OF assms] in \<open>auto simp: lookup_eq\<close>)

text \<open>Queueing an acceptable child that no accept queue holds.\<close>

lemma kinv_push_ready:
  assumes inv: "kinv X k" and s: "lookup k fd = Some s" "listen s = Some l"
    and c: "acceptable (lookup k) c" "\<And>a u. lookup k a = Some u \<Longrightarrow> c \<notin> set (ready_of u)"
    and l': "ready l' = ready l @ [c]"
  shows "kinv X (modify fd (\<lambda>s. s\<lparr>listen := Some l'\<rparr>) k)"
proof -
  let ?s = "s\<lparr>listen := Some l'\<rparr>" and ?g = "st_get (table k)"
  have g: "?g fd = Some s" using s by (simp add: lookup_eq)
  have ready: "ready_of ?s = ready_of s @ [c]" using l' s(2) by (simp add: ready_of_def)
  have acc: "acceptable (?g(fd \<mapsto> ?s)) x" if "acceptable ?g x" for x
    using that g by (auto simp: acceptable_def)
  have idx: "index_inv (st_modify fd (\<lambda>s. s\<lparr>listen := Some l'\<rparr>) (table k))"
    using inv g by (intro index_inv_step [OF _ g]) (auto simp: kinv_def)
  have S: "sockets_inv (send_buf_cap k) X (next_id (table k)) ?g" using inv by (simp add: kinv_def)
  have "sockets_inv (send_buf_cap k) X (next_id (table k)) (?g(fd \<mapsto> ?s))"
    unfolding sockets_inv_def
  proof (intro conjI allI impI ballI)
    fix a u assume "(?g(fd \<mapsto> ?s)) a = Some u"
    then have u: "a = fd \<and> u = ?s \<or> a \<noteq> fd \<and> ?g a = Some u" by (auto split: if_splits)
    note F = sockets_invD [OF S g] sockets_invD [OF S, of a u]
    show "a < next_id (table k)" using u F by auto
    show "sock_wf (send_buf_cap k) u" using u F s(2) by (auto simp: sock_wf_def)
    show "distinct (ready_of u)" using u F(3,7) ready c(2) [OF s(1)] by auto
    fix x assume "a \<notin> X" "x \<in> set (ready_of u)"
    then have "acceptable ?g x" using u F(4,8) ready c(1) by (auto simp: lookup_eq)
    then show "acceptable (?g(fd \<mapsto> ?s)) x" by (rule acc)
  next
    fix a b u v assume "(?g(fd \<mapsto> ?s)) a = Some u" "(?g(fd \<mapsto> ?s)) b = Some v" "a \<noteq> b"
    moreover have "set (ready_of u) \<inter> set (ready_of v) = {}"
      if "?g a = Some u" "?g b = Some v" "a \<noteq> b" for a b u v
      using S that unfolding sockets_inv_def by blast
    ultimately show "set (ready_of u) \<inter> set (ready_of v) = {}"
      using g ready c(2) unfolding lookup_eq by (fastforce split: if_splits)
  qed
  then show ?thesis using inv idx by (simp add: kinv_def st_get_st_modify_fun [OF g])
qed

lemma push_to_listener_safe:
  assumes inv: "kinv X k"
    and c: "acceptable (lookup k) c" "\<And>a u. lookup k a = Some u \<Longrightarrow> c \<notin> set (ready_of u)"
  shows "returns (push_to_listener c loc k) (kinv X)"
  unfolding push_to_listener_def returns_simps
proof (rule returns_mono [OF find_listener_safe [OF inv]])
  fix lo assume lo: "\<forall>fd. lo = Some fd \<longrightarrow> (\<exists>s l. lookup k fd = Some s \<and> listen s = Some l)"
  show "returns (case lo of None \<Rightarrow> Some k | Some fd \<Rightarrow> do {
         st \<leftarrow> lookup k fd;
         l \<leftarrow> listen st;
         Some (wake (accept_wakers l) (modify fd
           (\<lambda>s. s\<lparr>listen := Some (l\<lparr>ready := ready l @ [c], accept_wakers := []\<rparr>)\<rparr>) k))
       }) (kinv X)"
  proof (cases lo)
    case None
    then show ?thesis using inv by simp
  next
    case (Some fd)
    with lo obtain s l where s: "lookup k fd = Some s" "listen s = Some l" by auto
    have "kinv X (modify fd (\<lambda>s. s\<lparr>listen := Some (l\<lparr>ready := ready l @ [c], accept_wakers := []\<rparr>)\<rparr>) k)"
      by (rule kinv_push_ready [OF inv s c]) simp_all
    then show ?thesis using Some s by simp
  qed
qed

section \<open>Inbound packets\<close>

lemma handle_established_safe:
  assumes inv: "kinv X k" and s: "lookup k fd = Some s" "tcb s = Some t" and st: "tcb_state t \<noteq> Closed"
  shows "returns (handle_established fd loc rem sg k) (kinv X)"
proof -
  let ?c = "send_buf_cap k"
  have wf: "tcb_wf ?c t" using inv s by (rule kinv_tcb)
  obtain t1 where t1: "est_ack sg t = Some t1" "tcb_step ?c t t1"
    using est_ack_step [OF wf kinv_cap [OF inv] st, of sg] by metis
  let ?t2 = "fst (est_data (recv_buf_cap k) sg t1)" and ?t3 = "fst (est_fin sg (fst (est_data (recv_buf_cap k) sg t1)))"
  have w1: "tcb_wf ?c t1" using t1 by (simp add: tcb_step_def)
  have s2: "tcb_step ?c t1 ?t2" using w1 by (rule est_data_step)
  then have w3: "tcb_wf ?c ?t3" by (simp add: tcb_step_def fin_acked_tcb_wf)
  have "tcb_peer ?t3 = tcb_peer ?t2" "tcb_state ?t3 = SynReceived \<longleftrightarrow> tcb_state ?t2 = SynReceived"
    by (auto simp: est_fin_def)
  then have step: "tcb_step ?c t ?t3" using t1(2) s2 w3 by (auto simp: tcb_step_def)
  then show ?thesis
    using s t1(1) unfolding handle_established_def Let_def
    by (auto simp: split_beta intro!: kinv_update [OF inv s(1)])
qed

lemma tcb_step_state:
  "tcb_wf cap t \<Longrightarrow> tcb_state t \<noteq> Closed \<Longrightarrow> st \<noteq> SynReceived \<Longrightarrow>
     tcb_step cap t (t\<lparr>tcb_state := st, rcv_nxt := n, snd_wnd := w\<rparr>)"
  "tcb_wf cap t \<Longrightarrow> tcb_state t \<noteq> Closed \<Longrightarrow> st \<noteq> SynReceived \<Longrightarrow>
     tcb_step cap t (t\<lparr>tcb_state := st, snd_wnd := w\<rparr>)"
  by (auto simp: tcb_step_def tcb_wf_def)

lemma not_queued:
  assumes "kinv {} k" "lookup k c = Some s" "tcb s = Some t" "tcb_state t = SynReceived"
    and "lookup k a = Some u"
  shows "c \<notin> set (ready_of u)"
  using kinv_socket(4) [OF assms(1,5), of c] assms(2-4) by (auto simp: acceptable_def)

lemma handle_on_connection_safe:
  assumes inv: "kinv {} k" and s: "lookup k fd = Some s" "tcb s = Some t"
  shows "returns (handle_on_connection fd loc rem sg k) (kinv {})"
proof -
  let ?c = "send_buf_cap k"
  have wf: "tcb_wf ?c t" using inv s by (rule kinv_tcb)
  consider (rst) "fl_rst (seg_flags sg)"
    | (synack) "\<not> fl_rst (seg_flags sg)" "tcb_state t = SynSent" "fl_syn (seg_flags sg) \<and> fl_ack (seg_flags sg)"
    | (ack) "\<not> fl_rst (seg_flags sg)" "tcb_state t = SynReceived" "fl_ack (seg_flags sg) \<and> \<not> fl_syn (seg_flags sg)"
        "seg_ack sg = snd_nxt t"
    | (est) "\<not> fl_rst (seg_flags sg)"
        "tcb_state t \<in> {Established, FinWait1, FinWait2, CloseWait, Closing, LastAck}"
    | (ignore) "\<not> fl_rst (seg_flags sg)"
        "\<not> (tcb_state t = SynSent \<and> fl_syn (seg_flags sg) \<and> fl_ack (seg_flags sg))"
        "\<not> (tcb_state t = SynReceived \<and> fl_ack (seg_flags sg) \<and> \<not> fl_syn (seg_flags sg) \<and>
            seg_ack sg = snd_nxt t)"
        "tcb_state t \<notin> {Established, FinWait1, FinWait2, CloseWait, Closing, LastAck}"
    by blast
  then show ?thesis
  proof cases
    case rst
    then show ?thesis
      using abort_with_safe [OF inv s(1)] by (simp add: handle_on_connection_def abort_connection_def)
  next
    case synack
    let ?t = "t\<lparr>tcb_state := Established, rcv_nxt := seg_seq sg + 1, snd_wnd := seg_window sg\<rparr>"
    let ?k = "modify fd (\<lambda>s. s\<lparr>tcb := Some ?t\<rparr>) k"
    have "kinv {} ?k"
      using synack wf by (intro kinv_update_tcb [OF inv s] tcb_step_state) auto
    moreover have "lookup ?k fd = Some (s\<lparr>tcb := Some ?t\<rparr>)" using s by simp
    ultimately have "returns (wake_connect fd ?k) (kinv {})" by (rule wake_connect_safe)
    then show ?thesis using s synack by (simp add: handle_on_connection_def Let_def)
  next
    case ack
    let ?t = "t\<lparr>tcb_state := Established, snd_wnd := seg_window sg\<rparr>"
    let ?k = "modify fd (\<lambda>s. s\<lparr>tcb := Some ?t\<rparr>) k"
    have k: "kinv {} ?k" using ack wf by (intro kinv_update_tcb [OF inv s] tcb_step_state) auto
    have "\<not> fd_closed s" using kinv_socket(2) [OF inv s(1)] s(2) ack by (simp add: sock_wf_def)
    then have "acceptable (lookup ?k) fd" using s by (simp add: acceptable_def)
    moreover have "fd \<notin> set (ready_of u)" if "lookup ?k a = Some u" for a u
      using that not_queued [OF inv s ack(2)] s(1) by (auto simp: ready_of_def split: if_splits)
    ultimately have "returns (push_to_listener fd loc ?k) (kinv {})"
      by (rule push_to_listener_safe [OF k])
    then show ?thesis using s ack by (simp add: handle_on_connection_def)
  next
    case est
    then have "handle_on_connection fd loc rem sg k = handle_established fd loc rem sg k"
      using s by (auto simp: handle_on_connection_def)
    then show ?thesis using est handle_established_safe [OF inv s] by auto
  next
    case ignore
    then have "handle_on_connection fd loc rem sg k = Some k"
      using s by (auto simp: handle_on_connection_def)
    then show ?thesis using inv by simp
  qed
qed

lemma put_table_put_table [simp]: "put_table t (put_table u k) = put_table t k"
  by (simp add: put_table_def)

lemma modify_isn [simp]: "modify fd f (k\<lparr>tcp_isn := n\<rparr>) = (modify fd f k)\<lparr>tcp_isn := n\<rparr>"
  by (simp add: modify_def)

lemma put_table_isn [simp]: "put_table t (k\<lparr>tcp_isn := n\<rparr>) = (put_table t k)\<lparr>tcp_isn := n\<rparr>"
  by (simp add: put_table_def)

lemma accept_syn_safe:
  assumes inv: "kinv X k" and l: "lookup k lfd = Some st" "listen st = Some l"
    and dst: "\<not> is_unspecified (sa_ip loc)"
  shows "returns (accept_syn lfd loc rem sg k) (kinv X)"
proof (cases "count_children k lfd loc + length (ready l) \<ge> backlog l")
  case True
  then show ?thesis using l inv by (simp add: accept_syn_def Let_def)
next
  case False
  let ?d = "sk_domain st" and ?ty = "sk_ty st" and ?c = "next_id (table k)"
  let ?k0 = "snd (mk_socket ?d ?ty k)"
  let ?key = "\<lparr>bk_domain = ?d, bk_ty = ?ty, local_addr = sa_ip loc, local_port = sa_port loc\<rparr>"
  let ?f = "\<lambda>c. c\<lparr>bound := Some ?key, sk_peer := Some (Addr_Inet rem),
      tcb := Some (new_tcb SynReceived rem (tcp_isn k) (seg_window sg) (seg_seq sg + 1))\<rparr>"
  let ?k1 = "modify ?c ?f (put_table (insert_binding ?key ?c (table ?k0)) ?k0)"
  note mk = kinv_mk_socket [OF inv, of ?d ?ty]
  have look: "lookup ?k0 ?c = Some (Socket_new ?d ?ty)" by (simp add: mk)
  have k1: "kinv X ?k1"
    by (rule kinv_bind_socket [OF mk(1) look])
      (auto simp: Socket_new_def sock_wf_def new_tcb_wf new_tcb_def [of SynReceived] tcb_wf_def
        fin_wf_def in_flight_def)
  have "lookup ?k1 ?c = Some (?f (Socket_new ?d ?ty))" using look by (simp add: lookup_eq)
  then obtain t where t: "insert_connection loc rem ?c (table ?k1) = Some t" "kinv X (put_table t ?k1)"
    by (rule kinv_insert_connection [OF k1]) (auto simp: new_tcb_def bound_endpoint_def dst)
  have tab: "put_table (snd (st_insert (Socket_new ?d ?ty) (table k))) k = ?k0"
    "fst (st_insert (Socket_new ?d ?ty) (table k)) = ?c"
    by (simp_all add: mk_socket_def split_beta st_get_insert)
  have t0: "snd (st_insert (Socket_new ?d ?ty) (table k)) = table ?k0"
    by (simp add: mk_socket_def split_beta)
  have pt: "put_table (insert_binding ?key ?c (table ?k0)) k =
      put_table (insert_binding ?key ?c (table ?k0)) ?k0"
    by (simp add: mk_socket_def split_beta put_table_def)
  have look2: "st_get (table ?k0) ?c = Some (Socket_new ?d ?ty)" using look by (simp add: lookup_eq)
  show ?thesis
    using False l t look2 unfolding accept_syn_def Let_def
    by (simp add: split_beta tab t0 pt initial_sequence_def)
qed

lemma kinv_emit_rst [simp]: "kinv X (emit_rst loc rem sg k) = kinv X k"
  by (simp add: emit_rst_def split_beta)

lemma tcp_deliver_safe:
  assumes inv: "kinv {} k" and dst: "\<not> is_unspecified (pkt_dst pkt)"
  shows "returns (tcp_deliver k pkt sg) (kinv {})"
proof -
  let ?loc = "SocketAddr (pkt_dst pkt) (seg_dst_port sg)"
  let ?rem = "SocketAddr (pkt_src pkt) (seg_src_port sg)"
  show ?thesis
  proof (cases "find_connection (table k) ?loc ?rem")
    case (Some fd)
    then obtain s t where "lookup k fd = Some s" "tcb s = Some t"
      using kinv_connection [OF inv] by metis
    then show ?thesis
      using Some handle_on_connection_safe [OF inv] by (simp add: tcp_deliver_def Let_def)
  next
    case None
    have "returns (find_listener k ?loc) (\<lambda>lo. returns (case lo of
        Some l \<Rightarrow> accept_syn l ?loc ?rem sg k | None \<Rightarrow> Some (emit_rst ?loc ?rem sg k)) (kinv {}))"
      by (rule returns_mono [OF find_listener_safe [OF inv]])
        (use inv dst in \<open>auto split: option.splits
           elim!: accept_syn_safe [OF inv]\<close>)
    then show ?thesis
      using None inv by (simp add: tcp_deliver_def Let_def)
  qed
qed

lemma first_fd_mem: "first_fd fds = Some fd \<Longrightarrow> fd \<in> set fds"
  by (auto simp: first_fd_def split: list.splits)

lemma udp_target_bound:
  assumes "kinv X k" "udp_target k pkt d = Some fd"
  obtains s key where "lookup k fd = Some s" "bound s = Some key"
    "key \<in> {exact_key Dgram (pkt_dst pkt) (ud_dst_port d), wildcard_key Dgram (pkt_dst pkt) (ud_dst_port d)}"
  using assms(2) kinv_bind [OF assms(1)]
  by (auto simp: udp_target_def split: option.splits dest!: first_fd_mem)

lemma udp_deliver_safe:
  assumes inv: "kinv X k"
  shows "returns (udp_deliver k pkt d) (kinv X)"
proof (cases "udp_target k pkt d")
  case None
  then show ?thesis using inv by (simp add: udp_deliver_def)
next
  case (Some fd)
  then obtain s where "lookup k fd = Some s" using udp_target_bound [OF inv] by metis
  then show ?thesis
    using inv Some by (auto simp: udp_deliver_def Let_def intro!: kinv_update [OF inv])
qed

theorem kernel_deliver_safe:
  assumes "kernel_inv k" "\<not> is_unspecified (pkt_dst pkt)"
  shows "returns (kernel_deliver k pkt) kernel_inv"
  using assms tcp_deliver_safe udp_deliver_safe
  by (auto simp: kernel_deliver_def kernel_inv_def [abs_def] split: Transport.splits)

section \<open>Connect\<close>

text \<open>The address an ephemeral bind picks is concrete, so the four-tuple index accepts it.\<close>

lemma bind_source_specified:
  assumes "kinv X k"
    "(if is_loopback dst then Some (localhost_like dst) else source_address k dst) = Some ip"
  shows "\<not> is_unspecified ip"
  using assms by (auto simp: kinv_def source_address_def split: if_splits dest!: find_Some_hd_filter)

lemma auto_bind_socket:
  assumes inv: "kinv X k" and s: "lookup k fd = Some s" "bound s = None"
    and key: "bk_domain key = sk_domain s" "bk_ty key = sk_ty s"
  shows "kinv X (modify fd (\<lambda>s. s\<lparr>bound := Some key\<rparr>) (put_table (insert_binding key fd (table k)) k))"
proof (rule kinv_bind_socket [OF inv s])
  have "sock_wf (send_buf_cap k) s" using kinv_socket(2) [OF inv s(1)] .
  then show "sock_wf (send_buf_cap k) (s\<lparr>bound := Some key\<rparr>)" "listen (s\<lparr>bound := Some key\<rparr>) = None"
    using key s(2) by (auto simp: sock_wf_def)
qed simp

lemma udp_auto_bind_safe:
  assumes inv: "kinv X k" and s: "lookup k fd = Some s" "bound s = None"
    and d: "d = sk_domain s" "ty = sk_ty s"
  shows "returns (udp_auto_bind k fd d ty dst) (\<lambda>(r, k'). kinv X k' \<and> addresses k' = addresses k \<and>
    (case r of Inl _ \<Rightarrow> lookup k' = lookup k
     | Inr key \<Rightarrow> lookup k' = (lookup k)(fd \<mapsto> s\<lparr>bound := Some key\<rparr>) \<and> \<not> is_unspecified (local_addr key)))"
proof (cases "if is_loopback dst then Some (localhost_like dst) else source_address k dst")
  case None
  then show ?thesis using inv by (simp add: udp_auto_bind_def)
next
  case (Some ip)
  obtain p t where a: "allocate_port d ty (table k) = Some (p, t)" "kinv X (put_table t k)"
    "st_get t = lookup k"
    using kinv_allocate_port [OF inv] by metis
  let ?key = "\<lambda>q. \<lparr>bk_domain = d, bk_ty = ty, local_addr = ip, local_port = q\<rparr>"
  have "kinv X (modify fd (\<lambda>s. s\<lparr>bound := Some (?key q)\<rparr>)
      (put_table (insert_binding (?key q) fd (table (put_table t k))) (put_table t k)))" for q
    by (rule auto_bind_socket [OF a(2)]) (use a s d in simp_all)
  then show ?thesis
    using Some a s bind_source_specified [OF inv Some]
    by (auto simp: udp_auto_bind_def Let_def split: option.splits)
qed

lemma tcp_auto_bind_eq:
  "tcp_auto_bind k fd d dst = Option.bind (udp_auto_bind k fd d Stream dst)
     (\<lambda>(r, k'). Some (case r of Inl e \<Rightarrow> Inl e | Inr _ \<Rightarrow> Inr (), k'))"
  by (cases "allocate_port d Stream (table k)"; cases "lookup k fd")
    (auto simp: tcp_auto_bind_def udp_auto_bind_def Let_def split: option.splits)

lemma local_endpoint_bound:
  assumes "lookup k fd = Some s" "bound s = Some key" "\<not> is_unspecified (local_addr key)"
  shows "local_endpoint k fd = Some (SocketAddr (local_addr key) (local_port key))"
  using assms by (simp add: local_endpoint_def Let_def)

text \<open>The second half of a connect: a bound socket sends its SYN.\<close>

lemma connect_syn_safe:
  assumes inv: "kinv X k" and s: "lookup k fd = Some s" "bound s = Some key" "tcb s = None"
    and key: "\<not> is_unspecified (local_addr key)"
  shows "returns (connect_syn k fd w peer) (\<lambda>(r, k'). kinv X k')"
proof -
  let ?src = "SocketAddr (local_addr key) (local_port key)"
  let ?t = "new_tcb SynSent peer (tcp_isn k) DEFAULT_WINDOW 0"
  let ?f = "\<lambda>s. s\<lparr>tcb := Some ?t, sk_peer := Some (Addr_Inet peer)\<rparr>"
  let ?k = "modify fd ?f k"
  have wf: "sock_wf (send_buf_cap k) s" "distinct (ready_of s)" using kinv_socket [OF inv s(1)] by auto
  have "sock_wf (send_buf_cap k) (?f s)"
    using wf(1) s(2) by (auto simp: sock_wf_def new_tcb_wf) (simp add: new_tcb_def)
  then have k: "kinv X ?k"
    using wf s by (intro kinv_modify [OF inv s(1)]) (auto simp: sock_step_def ready_of_def)
  have look: "lookup ?k fd = Some (?f s)" using s by simp
  obtain t where t: "insert_connection ?src peer fd (table ?k) = Some t" "kinv X (put_table t ?k)"
    "st_get t = lookup ?k"
    by (rule kinv_insert_connection [OF k look, where rem = peer and loc = ?src])
      (use s key in \<open>auto simp: new_tcb_def bound_endpoint_def\<close>)
  have look2: "st_get t fd = Some (?f s)" using t(3) s(1) by simp
  then have "returns (park_connect fd w (emit ?src peer sg (put_table t ?k))) (kinv X)" for sg
    using t(2) by (intro park_connect_safe) simp_all
  then have "returns (park_connect fd w (emit ?src peer sg ((put_table t ?k)\<lparr>tcp_isn := n\<rparr>))) (kinv X)" for sg n
    using t(2) look2 by (intro park_connect_safe) simp_all
  then show ?thesis
    using s t(1) key unfolding connect_syn_def
    by (simp add: local_endpoint_bound [OF s(1,2) key] initial_sequence_def)
qed

lemma tcp_poll_connect_safe:
  assumes inv: "kinv X k" and s: "lookup k fd = Some s" "sk_ty s = Stream"
    and key: "\<And>key. bound s = Some key \<Longrightarrow> tcb s = None \<Longrightarrow> \<not> is_unspecified (local_addr key)"
  shows "returns (tcp_poll_connect k fd w (sk_domain s) peer (bound s \<noteq> None)) (\<lambda>(r, k'). kinv X k')"
proof (cases "tcb s")
  case (Some t)
  then show ?thesis
    using inv s park_connect_safe [OF inv s(1), of w]
    by (cases "tcb_state t") (auto simp: tcp_poll_connect_def)
next
  case None
  show ?thesis
  proof (cases "bound s")
    case (Some b)
    then show ?thesis
      using connect_syn_safe [OF inv s(1) Some None key [OF Some None]] s(1) None
      by (simp add: tcp_poll_connect_def)
  next
    case unb: None
    have bind: "returns (tcp_auto_bind k fd (sk_domain s) (sa_ip peer)) (\<lambda>(r, k'). kinv X k' \<and>
        (case r of Inl _ \<Rightarrow> True | Inr _ \<Rightarrow> \<exists>key. lookup k' fd = Some (s\<lparr>bound := Some key\<rparr>) \<and>
           \<not> is_unspecified (local_addr key)))"
      unfolding tcp_auto_bind_eq returns_simps
      by (rule returns_mono [OF udp_auto_bind_safe [OF inv s(1) unb refl s(2) [symmetric]]])
        (clarsimp split: sum.splits, blast)
    have "returns (tcp_auto_bind k fd (sk_domain s) (sa_ip peer)) (\<lambda>(r, k'). returns
        (case r of Inl e \<Rightarrow> Some (Ready (Err e), k') | Inr _ \<Rightarrow> connect_syn k' fd w peer)
        (\<lambda>(r, k'). kinv X k'))"
      by (rule returns_mono [OF bind])
        (use None in \<open>auto split: sum.splits elim!: connect_syn_safe\<close>)
    then show ?thesis using s None unb by (simp add: tcp_poll_connect_def case_prod_beta')
  qed
qed

section \<open>Close\<close>

lemma half_open_not_queued:
  assumes "kinv {} k" "(c, st) \<in> set (sockets (table k))" "half_open_on loc st" "lookup k a = Some u"
  shows "c \<notin> set (ready_of u)"
proof -
  have "imap_wf (sockets (table k))" using assms(1) by (simp add: kinv_def index_inv_def)
  then have "lookup k c = Some st" using assms(2) by (simp add: lookup_def st_get_def)
  moreover obtain t where "tcb st = Some t" "tcb_state t = SynReceived"
    using assms(3) by (auto simp: half_open_on_def split: option.splits)
  ultimately show ?thesis using assms(1,4) by (intro not_queued)
qed

lemma unaccepted_children_only_here:
  assumes inv: "kinv {} k" and s: "lookup k fd = Some s"
    and c: "c \<in> set (unaccepted_children k fd loc)" and a: "lookup k a = Some u" "a \<noteq> fd"
  shows "c \<notin> set (ready_of u)"
proof (cases "c \<in> set (ready_of s)")
  case True
  have "set (ready_of s) \<inter> set (ready_of u) = {}"
    using inv s a unfolding kinv_def sockets_inv_def lookup_eq by blast
  with True show ?thesis by blast
next
  case False
  then obtain st where "(c, st) \<in> set (sockets (table k))" "half_open_on loc st"
    using c s by (auto simp: unaccepted_children_def Let_def ready_of_def split: option.splits)
  then show ?thesis using inv a(1) by (intro half_open_not_queued)
qed

text \<open>Only the accept queue of \<open>fd\<close> may hold the children that are removed.\<close>

lemma reset_children_safe:
  assumes "kinv {fd} k" "\<And>c a u. c \<in> set cs \<Longrightarrow> lookup k a = Some u \<Longrightarrow> a \<noteq> fd \<Longrightarrow> c \<notin> set (ready_of u)"
  shows "returns (reset_children cs k) (\<lambda>k'. kinv {fd} k' \<and>
     (\<forall>a u. lookup k' a = Some u \<longrightarrow> lookup k a = Some u))"
  using assms
proof (induction cs arbitrary: k)
  case (Cons c cs)
  let ?drop = "\<lambda>k. put_table (st_remove c (table k)) k"
  have rec: "returns (reset_children cs (?drop k')) (\<lambda>k''. kinv {fd} k'' \<and>
      (\<forall>a u. lookup k'' a = Some u \<longrightarrow> lookup k a = Some u))"
    if "table k' = table k" "kinv {fd} k'" for k'
  proof (rule returns_mono [OF Cons.IH])
    have "kinv (insert c {fd}) k'" using that(2) by (rule kinv_mono) auto
    then show "kinv {fd} (?drop k')"
      using Cons.prems(2) [of c] that(1) by (intro kinv_remove) (auto simp: lookup_eq)
    show "x \<notin> set (ready_of u)" if "x \<in> set cs" "lookup (?drop k') a = Some u" "a \<noteq> fd" for x a u
      using that \<open>table k' = table k\<close> Cons.prems(2) [of x a u]
      by (auto simp: st_get_remove lookup_eq split: if_splits)
    show "kinv {fd} k'' \<and> (\<forall>a u. lookup k'' a = Some u \<longrightarrow> lookup k a = Some u)"
      if "kinv {fd} k'' \<and> (\<forall>a u. lookup k'' a = Some u \<longrightarrow> lookup (?drop k') a = Some u)" for k''
      using that \<open>table k' = table k\<close>
      by (metis fun_upd_apply lookup_eq option.distinct(1) put_table_frame(11) st_get_remove)
  qed
  show ?case
  proof (cases "lookup k c")
    case None
    then show ?thesis using Cons by (auto intro!: Cons.IH)
  next
    case (Some st)
    show ?thesis
    proof (cases "tcb st")
      case None
      then show ?thesis using Some rec [of k] Cons.prems(1) by simp
    next
      case (Some t)
      then obtain loc where "bound_endpoint st = Some loc"
        using kinv_tcb(3) [OF Cons.prems(1) \<open>lookup k c = Some st\<close>] by auto
      then show ?thesis using Some \<open>lookup k c = Some st\<close> rec Cons.prems(1) by simp
    qed
  qed
qed simp

text \<open>A descriptor the application holds: no accept queue has it.\<close>

definition held :: "Kernel \<Rightarrow> Fd \<Rightarrow> bool" where
  "held k fd \<longleftrightarrow> (\<forall>a u. lookup k a = Some u \<longrightarrow> fd \<notin> set (ready_of u))"

lemma kinv_linger:
  assumes inv: "kinv {} k" and s: "lookup k fd = Some s" "tcb s = Some t" and h: "held k fd"
    and st: "tcb_state t \<noteq> SynReceived" and t': "tcb_step (send_buf_cap k) t t'"
  shows "kinv {} (modify fd (\<lambda>s. s\<lparr>fd_closed := True, tcb := Some t'\<rparr>) k)"
proof (rule kinv_modify_gen [OF inv s(1), where b = True])
  show "sock_step True (send_buf_cap k) s (s\<lparr>fd_closed := True, tcb := Some t'\<rparr>)"
    using kinv_socket(2,3) [OF inv s(1)] s(2) st t'
    by (auto simp: sock_step_def sock_wf_def ready_of_def tcb_step_def)
qed (use h in \<open>auto simp: held_def\<close>)

lemma kinv_remove_held: "kinv {} k \<Longrightarrow> held k fd \<Longrightarrow> kinv {} (put_table (st_remove fd (table k)) k)"
  by (rule kinv_remove [OF kinv_mono]) (auto simp: held_def)

lemma kernel_close_safe:
  assumes inv: "kinv {} k" and h: "held k fd"
  shows "returns (kernel_close k fd) (kinv {})"
proof (cases "lookup k fd")
  case None
  then show ?thesis using kinv_remove_held [OF inv h] by (simp add: kernel_close_def on_close_def)
next
  case (Some s)
  let ?drop = "\<lambda>k. put_table (st_remove fd (table k)) k"
  have drop: "kinv {} (?drop k)" using inv h by (rule kinv_remove_held)
  have ep: "\<exists>a. close_action s = Some a"
    using kinv_socket(2) [OF inv Some]
    by (auto simp: close_action_def bound_endpoint_def sock_wf_def split: Type.splits option.splits)
  then obtain a where a: "close_action s = Some a" by blast
  show ?thesis
  proof (cases a)
    case Reap
    then show ?thesis using a Some drop by (simp add: kernel_close_def on_close_def)
  next
    case Linger_Action
    then obtain t where t: "tcb s = Some t" "tcb_state t \<noteq> SynReceived"
      using a by (auto simp: close_action_def split: if_splits Type.splits option.splits)
    have "tcb_step (send_buf_cap k) t (if wr_closed t then t else queue_fin t)"
      using kinv_tcb(1) [OF inv Some t(1)] by (simp add: tcb_step_refl queue_fin_step)
    then have "kinv {} (modify fd (\<lambda>s. s\<lparr>fd_closed := True,
        tcb := Some (if wr_closed t then t else queue_fin t)\<rparr>) k)"
      by (rule kinv_linger [OF inv Some t(1) h t(2)])
    then show ?thesis using a Some Linger_Action t by (simp add: kernel_close_def on_close_def)
  next
    case (Rst loc rem)
    then obtain t where "tcb s = Some t"
      using a by (auto simp: close_action_def split: if_splits Type.splits option.splits)
    moreover have "kinv {} (?drop (emit loc rem sg k))" for sg
      using kinv_remove_held [of "emit loc rem sg k" fd] inv h by (simp add: held_def)
    ultimately show ?thesis using a Some Rst by (simp add: kernel_close_def on_close_def)
  next
    case (CloseListener loc)
    have "returns (reset_children (unaccepted_children k fd loc) k) (\<lambda>k'. kinv {} (?drop k'))"
    proof (rule returns_mono [OF reset_children_safe])
      show "kinv {fd} k" using inv by (rule kinv_mono) simp
      show "c \<notin> set (ready_of u)"
        if "c \<in> set (unaccepted_children k fd loc)" "lookup k a = Some u" "a \<noteq> fd" for c a u
        using unaccepted_children_only_here [OF inv Some] that by blast
      show "kinv {} (?drop k')"
        if "kinv {fd} k' \<and> (\<forall>a u. lookup k' a = Some u \<longrightarrow> lookup k a = Some u)" for k'
        using that h by (intro kinv_remove) (auto simp: held_def)
    qed
    then show ?thesis using a Some CloseListener by (simp add: kernel_close_def on_close_def)
  qed
qed

end
