(* ===== verification/Segmentation.thy ===== *)
theory Segmentation
  imports Kernel_Safety
begin

text \<open>
  Segmentation of the send buffer (\<^verbatim>\<open>segment_one\<close>, \<^verbatim>\<open>segment_all\<close>): the loop returns and
  sends exactly the reference list of segments, namely the unsent bytes the peer's window
  admits, cut into pieces of at most one MSS with consecutive sequence numbers, followed by
  the FIN when everything before it is sent and the window has room.
\<close>

section \<open>Reference\<close>

fun chunks :: "nat \<Rightarrow> bytes \<Rightarrow> bytes list" where
  "chunks 0 xs = []"
| "chunks (Suc n) [] = []"
| "chunks (Suc n) (x # xs) = take (Suc n) (x # xs) # chunks (Suc n) (drop n xs)"

fun number :: "u32 \<Rightarrow> bytes list \<Rightarrow> (u32 \<times> bytes \<times> bool) list" where
  "number sq [] = []"
| "number sq (p # ps) = (sq, p, False) # number (sq + of_nat (length p)) ps"

definition sendable :: "Tcb \<Rightarrow> bytes" where
  "sendable t = take (unat (snd_wnd t) - in_flight t) (drop (in_flight t) (send_buf t))"

definition fin_sendable :: "Tcb \<Rightarrow> bool" where
  "fin_sendable t \<longleftrightarrow> fin_seq t = Some (snd_una t + of_nat (length (send_buf t))) \<and>
     in_flight t \<le> length (send_buf t) \<and> length (send_buf t) < unat (snd_wnd t)"

definition seg_list :: "nat \<Rightarrow> Tcb \<Rightarrow> (u32 \<times> bytes \<times> bool) list" where
  "seg_list mss t = number (snd_nxt t) (chunks mss (sendable t)) @
     (if fin_sendable t then [(snd_una t + of_nat (length (send_buf t)), [], True)] else [])"

lemma chunks_Cons: "0 < n \<Longrightarrow> xs \<noteq> [] \<Longrightarrow> chunks n xs = take n xs # chunks n (drop n xs)"
  by (cases n; cases xs) auto

lemma chunks_Nil [simp]: "chunks n [] = []"
  by (cases n) auto

lemma concat_chunks: "0 < n \<Longrightarrow> concat (chunks n xs) = xs"
proof (induction n xs rule: chunks.induct)
  case (3 n x xs)
  then show ?case by simp
qed auto

lemma chunks_le: "p \<in> set (chunks n xs) \<Longrightarrow> p \<noteq> [] \<and> length p \<le> n"
  by (induction n xs rule: chunks.induct) auto

lemma number_payloads: "map (fst \<circ> snd) (number sq ps) = ps"
  by (induction sq ps rule: number.induct) auto

section \<open>One turn of the loop\<close>

lemma segment_next_data:
  assumes fw: "fin_wf t" and len: "length (send_buf t) < 2 ^ 32 - 1" and mss: "0 < mss"
    and d: "sendable t \<noteq> []"
  obtains t' where
    "segment_next mss t = Some (snd_nxt t, take mss (sendable t), False, t')"
    "t' = t\<lparr>snd_nxt := snd_nxt t + of_nat (length (take mss (sendable t)))\<rparr>"
    "sendable t' = drop mss (sendable t)" "fin_sendable t' = fin_sendable t"
    "in_flight t' = in_flight t + length (take mss (sendable t))"
    "in_flight t + length (take mss (sendable t)) \<le> length (send_buf t)"
proof -
  let ?i = "in_flight t" and ?w = "unat (snd_wnd t)" and ?l = "length (send_buf t)"
  have pos: "?i < ?l" "?i < ?w" using d by (auto simp: sendable_def)
  define n where "n = min (min (?l - ?i) mss) (?w - ?i)"
  have n1: "n = length (take mss (sendable t))"
    by (simp add: n_def sendable_def min.commute min.left_commute)
  have n2: "0 < n" using pos mss by (simp add: n_def)
  have "n \<le> ?l - ?i" "n \<le> ?w - ?i" by (simp_all add: n_def)
  then have n3: "?i + n \<le> ?l" "?i + n \<le> ?w" using pos by linarith+
  note n = n1 n2 n3
  have "take (min (length xs) m) xs = take m xs" for xs :: bytes and m by (simp add: min_def)
  then have pay: "take n (drop ?i (send_buf t)) = take mss (sendable t)"
    by (simp add: n_def sendable_def min.assoc flip: length_drop)
  define t' where "t' = t\<lparr>snd_nxt := snd_nxt t + of_nat n\<rparr>"
  have seg: "segment_next mss t = Some (snd_nxt t, take mss (sendable t), False, t')"
    using pos unfolding segment_next_def in_flight_def [symmetric] Let_def n_def [symmetric] pay
    by (simp add: t'_def)
  have "in_flight t' = unat (snd_nxt t + of_nat n - snd_una t)" by (simp add: t'_def in_flight_def)
  also have "\<dots> = ?i + n" using n(3) len unfolding in_flight_def by (intro seq_advance) simp
  finally have i': "in_flight t' = ?i + n" .
  have "drop mss (sendable t) = drop n (sendable t)" using n(1) by (simp add: min_def split: if_splits)
  also have "\<dots> = sendable t'"
    unfolding sendable_def i' by (simp add: t'_def drop_take add.commute)
  finally have s': "sendable t' = drop mss (sendable t)" by simp
  have f': "fin_sendable t' = fin_sendable t"
    using n pos unfolding fin_sendable_def i' by (simp add: t'_def)
  show ?thesis using that [OF seg _ s' f'] i' n by (simp add: t'_def)
qed

lemma segment_next_no_data:
  assumes fw: "fin_wf t" and len: "length (send_buf t) < 2 ^ 32 - 1" and d: "sendable t = []"
  shows "segment_next mss t = (if fin_sendable t then
     Some (snd_una t + of_nat (length (send_buf t)), [], True, t\<lparr>snd_nxt := snd_nxt t + 1\<rparr>) else None)"
proof -
  have no: "\<not> (0 < length (send_buf t) - in_flight t \<and> 0 < unat (snd_wnd t) - in_flight t)"
    using d by (auto simp: sendable_def)
  have "fin_pending t \<and> in_flight t < unat (snd_wnd t) \<longleftrightarrow> fin_sendable t"
  proof
    assume p: "fin_pending t \<and> in_flight t < unat (snd_wnd t)"
    then show "fin_sendable t"
      using fin_pending_wf [OF fw _ len] by (auto simp: fin_sendable_def)
  next
    assume f: "fin_sendable t"
    then have "in_flight t = length (send_buf t)" using no by (auto simp: fin_sendable_def)
    then show "fin_pending t \<and> in_flight t < unat (snd_wnd t)"
      using f snd_nxt_in_flight [of t] by (simp add: fin_sendable_def fin_pending_def)
  qed
  moreover have "fin_pending t \<Longrightarrow> snd_nxt t = snd_una t + of_nat (length (send_buf t))"
    using fin_pending_wf [OF fw _ len] by simp
  ultimately show ?thesis
    using no unfolding segment_next_def in_flight_def [symmetric] Let_def by auto
qed

lemma after_fin:
  assumes fw: "fin_wf t" and len: "length (send_buf t) < 2 ^ 32 - 1" and d: "sendable t = []"
    and f: "fin_sendable t"
  defines "t' \<equiv> t\<lparr>snd_nxt := snd_nxt t + 1\<rparr>"
  shows "sendable t' = []" "\<not> fin_sendable t'" "in_flight t' = length (send_buf t) + 1"
proof -
  have i: "in_flight t = length (send_buf t)" using d f by (auto simp: sendable_def fin_sendable_def)
  have "in_flight t' = unat (snd_nxt t + of_nat 1 - snd_una t)" by (simp add: t'_def in_flight_def)
  also have "\<dots> = in_flight t + 1" using i len unfolding in_flight_def by (intro seq_advance) simp
  finally show fl: "in_flight t' = length (send_buf t) + 1" using i by simp
  show "sendable t' = []" "\<not> fin_sendable t'"
    unfolding sendable_def fin_sendable_def fl by (simp_all add: t'_def)
qed

section \<open>The loop\<close>

definition seg_packet :: "SocketAddr \<Rightarrow> nat \<Rightarrow> Tcb \<Rightarrow> u32 \<times> bytes \<times> bool \<Rightarrow> Packet" where
  "seg_packet loc rcap t = (\<lambda>(sq, p, f).
     \<lparr>pkt_src = sa_ip loc, pkt_dst = sa_ip (tcb_peer t), pkt_ttl = 64,
      pkt_payload = Tcp (data_segment loc rcap t sq p f)\<rparr>)"

lemma seg_packet_snd_nxt [simp]: "seg_packet loc rcap (t\<lparr>snd_nxt := n\<rparr>) = seg_packet loc rcap t"
  by (auto simp: seg_packet_def data_segment_def intro!: ext)

lemma imap_modify_twice: "imap_modify k f (imap_modify k g m) = imap_modify k (f \<circ> g) m"
  by (induction m) auto

lemma modify_twice: "modify fd f (modify fd g k) = modify fd (f \<circ> g) k"
  by (simp add: modify_def st_modify_def imap_modify_twice)

lemma imap_modify_id: "imap_get m k = Some v \<Longrightarrow> f v = v \<Longrightarrow> imap_modify k f m = m"
  by (induction m) (auto split: if_splits)

lemma modify_id: "lookup k fd = Some s \<Longrightarrow> f s = s \<Longrightarrow> modify fd f k = k"
  by (simp add: lookup_def st_get_def modify_def st_modify_def imap_modify_id)

lemma modify_outbound [simp]:
  "modify fd f (k\<lparr>outbound := ps\<rparr>) = (modify fd f k)\<lparr>outbound := ps\<rparr>"
  by (simp add: modify_def)

text \<open>The sequence number after everything that can be sent is sent.\<close>

definition nxt_after :: "Tcb \<Rightarrow> u32" where
  "nxt_after t = snd_nxt t + of_nat (length (sendable t) + (if fin_sendable t then 1 else 0))"

definition pumped :: "Fd \<Rightarrow> SocketAddr \<Rightarrow> nat \<Rightarrow> Tcb \<Rightarrow> Tcb \<Rightarrow> Kernel \<Rightarrow> Kernel" where
  "pumped fd loc mss t t' k = (modify fd (\<lambda>s. s\<lparr>tcb := Some t'\<rparr>) k)
     \<lparr>outbound := outbound k @ map (seg_packet loc (recv_buf_cap k) t) (seg_list mss t)\<rparr>"

lemma segment_loop_turn:
  assumes "lookup k fd = Some s" "tcb s = Some t"
    "segment_next mss t = Some (sq, p, f, t1)" "t1 = t\<lparr>snd_nxt := n\<rparr>"
    "seg_list mss t = (sq, p, f) # seg_list mss t1"
    "segment_loop fd loc mss ((modify fd (\<lambda>s. s\<lparr>tcb := Some t1\<rparr>) k)
        \<lparr>outbound := outbound k @ [seg_packet loc (recv_buf_cap k) t (sq, p, f)]\<rparr>) =
      Some (pumped fd loc mss t1 t' ((modify fd (\<lambda>s. s\<lparr>tcb := Some t1\<rparr>) k)
        \<lparr>outbound := outbound k @ [seg_packet loc (recv_buf_cap k) t (sq, p, f)]\<rparr>))"
  shows "segment_loop fd loc mss k = Some (pumped fd loc mss t t' k)"
proof -
  have "emit loc (tcb_peer t1) (data_segment loc (recv_buf_cap k) t1 sq p f)
      (modify fd (\<lambda>s. s\<lparr>tcb := Some t1\<rparr>) k) = (modify fd (\<lambda>s. s\<lparr>tcb := Some t1\<rparr>) k)
        \<lparr>outbound := outbound k @ [seg_packet loc (recv_buf_cap k) t (sq, p, f)]\<rparr>"
    using assms(4) by (simp add: emit_def push_outbound_def seg_packet_def data_segment_def)
  then have "segment_loop fd loc mss k = Some (pumped fd loc mss t1 t' ((modify fd (\<lambda>s. s\<lparr>tcb := Some t1\<rparr>) k)
        \<lparr>outbound := outbound k @ [seg_packet loc (recv_buf_cap k) t (sq, p, f)]\<rparr>))"
    using assms(1-3,6) by (subst segment_loop.simps) simp
  also have "\<dots> = Some (pumped fd loc mss t t' k)"
    using assms(4,5) by (simp add: pumped_def modify_twice comp_def)
  finally show ?thesis .
qed

lemma segment_loop_eq:
  assumes "lookup k fd = Some s" "tcb s = Some t"
    and "fin_wf t" "length (send_buf t) < 2 ^ 32 - 1" "0 < mss"
  shows "segment_loop fd loc mss k = Some (pumped fd loc mss t (t\<lparr>snd_nxt := nxt_after t\<rparr>) k)"
    "seg_list mss (t\<lparr>snd_nxt := nxt_after t\<rparr>) = []" "fin_wf (t\<lparr>snd_nxt := nxt_after t\<rparr>)"
proof -
  define m where "m = length (sendable t) + (if fin_sendable t then 1 else 0)"
  have "segment_loop fd loc mss k = Some (pumped fd loc mss t (t\<lparr>snd_nxt := nxt_after t\<rparr>) k) \<and>
     seg_list mss (t\<lparr>snd_nxt := nxt_after t\<rparr>) = [] \<and> fin_wf (t\<lparr>snd_nxt := nxt_after t\<rparr>)"
    using assms(1-4) m_def
  proof (induction m arbitrary: k s t rule: less_induct)
    case (less m)
    note fw = less.prems(3) and len = less.prems(4)
    have rec: ?case if seg: "segment_next mss t = Some (sq, p, f, t1)" "t1 = t\<lparr>snd_nxt := n1\<rparr>"
      "seg_list mss t = (sq, p, f) # seg_list mss t1" "fin_wf t1"
      "length (sendable t1) + (if fin_sendable t1 then 1 else 0) < m"
      "nxt_after t1 = nxt_after t" for sq p f t1 n1
    proof -
      let ?k = "(modify fd (\<lambda>s. s\<lparr>tcb := Some t1\<rparr>) k)
        \<lparr>outbound := outbound k @ [seg_packet loc (recv_buf_cap k) t (sq, p, f)]\<rparr>"
      have "segment_loop fd loc mss ?k = Some (pumped fd loc mss t1 (t1\<lparr>snd_nxt := nxt_after t1\<rparr>) ?k) \<and>
          seg_list mss (t1\<lparr>snd_nxt := nxt_after t1\<rparr>) = [] \<and> fin_wf (t1\<lparr>snd_nxt := nxt_after t1\<rparr>)"
        using less.prems(1) seg len by (intro less.IH [OF seg(5), where s = "s\<lparr>tcb := Some t1\<rparr>"]) simp_all
      then show ?case
        using segment_loop_turn [OF less.prems(1,2) seg(1-3)] seg(2,6) by simp
    qed
    consider (data) "sendable t \<noteq> []" | (fin) "sendable t = []" "fin_sendable t"
      | (stop) "sendable t = []" "\<not> fin_sendable t" by blast
    then show ?case
    proof cases
      case data
      then obtain t' where t': "segment_next mss t = Some (snd_nxt t, take mss (sendable t), False, t')"
        "t' = t\<lparr>snd_nxt := snd_nxt t + of_nat (length (take mss (sendable t)))\<rparr>"
        "sendable t' = drop mss (sendable t)" "fin_sendable t' = fin_sendable t"
        "in_flight t' = in_flight t + length (take mss (sendable t))"
        "in_flight t + length (take mss (sendable t)) \<le> length (send_buf t)"
        using segment_next_data [OF fw len assms(5)] by metis
      have "seg_list mss t = (snd_nxt t, take mss (sendable t), False) # seg_list mss t'"
        using chunks_Cons [OF assms(5) data] t'(2-4) by (simp add: seg_list_def)
      moreover have "send_buf t \<noteq> []" using data by (auto simp: sendable_def)
      then have "fin_wf t'"
        using fw t'(2,5,6) by (simp add: fin_wf_def split: option.splits)
      moreover have "length (sendable t') + (if fin_sendable t' then 1 else 0) < m"
        using data assms(5) t'(3,4) less.prems(5) by (simp add: neq_Nil_conv)
      moreover have "nxt_after t' = nxt_after t"
        using t'(2-4) by (simp add: nxt_after_def min_def flip: of_nat_add)
      ultimately show ?thesis using rec t'(1,2) by blast
    next
      case fin
      let ?t = "t\<lparr>snd_nxt := snd_nxt t + 1\<rparr>"
      note af = after_fin [OF fw len fin]
      have "fin_wf ?t" using af(3) fin(2) by (simp add: fin_wf_def fin_sendable_def)
      moreover have "seg_list mss t = (snd_una t + of_nat (length (send_buf t)), [], True) # seg_list mss ?t"
        using fin af by (simp add: seg_list_def)
      moreover have "nxt_after ?t = nxt_after t" using fin af by (simp add: nxt_after_def)
      ultimately show ?thesis
        using rec [OF _ refl] segment_next_no_data [OF fw len fin(1), of mss] fin(2) af less.prems(5)
        by simp
    next
      case stop
      then have "segment_next mss t = None" using segment_next_no_data [OF fw len] by simp
      moreover have "pumped fd loc mss t t k = k"
        using stop modify_id [OF less.prems(1), of "\<lambda>s. s\<lparr>tcb := Some t\<rparr>"] less.prems(2)
        by (simp add: pumped_def seg_list_def)
      moreover have "t\<lparr>snd_nxt := nxt_after t\<rparr> = t" using stop by (simp add: nxt_after_def)
      ultimately show ?thesis
        using stop less.prems(1,2) fw by (simp add: segment_loop.simps [of fd] seg_list_def)
    qed
  qed
  then show "segment_loop fd loc mss k = Some (pumped fd loc mss t (t\<lparr>snd_nxt := nxt_after t\<rparr>) k)"
    "seg_list mss (t\<lparr>snd_nxt := nxt_after t\<rparr>) = []" "fin_wf (t\<lparr>snd_nxt := nxt_after t\<rparr>)"
    by blast+
qed

section \<open>Sweeps over sockets\<close>

lemma for_fds_inv:
  assumes "\<And>fd k. fd \<in> set fds \<Longrightarrow> P k \<Longrightarrow> returns (f fd k) P" "P k"
  shows "returns (for_fds f fds k) P"
  using assms
proof (induction fds arbitrary: k)
  case (Cons fd fds)
  have "returns (f fd k) (\<lambda>k1. returns (for_fds f fds k1) P)"
    by (rule returns_mono [OF Cons.prems(1)]) (use Cons in auto)
  then show ?case by simp
qed simp

lemma mss_pos: "mtu_ok k \<Longrightarrow> 0 < mss_for k ip"
  by (cases ip) (auto simp: mtu_ok_def mss_for_def header_sizes Let_def)

definition live :: "Kernel \<Rightarrow> Fd \<Rightarrow> bool" where
  "live k fd \<longleftrightarrow> (\<exists>s t. lookup k fd = Some s \<and> tcb s = Some t \<and> tcb_state t \<noteq> Closed)"

lemma pumped_frame [simp]:
  "lookup (pumped fd loc mss t t' k) a =
     (if a = fd then map_option (\<lambda>s. s\<lparr>tcb := Some t'\<rparr>) (lookup k fd) else lookup k a)"
  by (simp add: pumped_def)

lemma kinv_mem: "kinv X k \<Longrightarrow> (fd, s) \<in> set (sockets (table k)) \<longleftrightarrow> lookup k fd = Some s"
  by (simp add: kinv_def index_inv_def lookup_def st_get_def)

lemma segment_one_safe:
  assumes inv: "kinv X k" and fd: "live k fd"
  shows "returns (segment_one fd k) (\<lambda>k'. kinv X k' \<and> (\<forall>a. live k a \<longrightarrow> live k' a))"
proof -
  obtain s t where s: "lookup k fd = Some s" "tcb s = Some t" "tcb_state t \<noteq> Closed"
    using fd by (auto simp: live_def)
  obtain loc where loc: "bound_endpoint s = Some loc" using kinv_tcb(3) [OF inv s(1,2)] by auto
  have wf: "tcb_wf (send_buf_cap k) t" using inv s(1,2) by (rule kinv_tcb)
  then have fw: "fin_wf t" "length (send_buf t) < 2 ^ 32 - 1"
    using s(3) kinv_cap [OF inv] by (auto simp: tcb_wf_def)
  let ?mss = "mss_for k (sa_ip loc)"
  note seg = segment_loop_eq [OF s(1,2) fw mss_pos [OF kinv_mtu [OF inv], of "sa_ip loc"]]
  have "tcb_step (send_buf_cap k) t (t\<lparr>snd_nxt := nxt_after t\<rparr>)"
    using wf seg(3) by (simp add: tcb_step_def tcb_wf_def)
  then have "kinv X (pumped fd loc ?mss t (t\<lparr>snd_nxt := nxt_after t\<rparr>) k)"
    using kinv_update_tcb [OF inv s(1,2)] by (simp add: pumped_def)
  moreover have "live (pumped fd loc ?mss t (t\<lparr>snd_nxt := nxt_after t\<rparr>) k) a" if "live k a" for a
    using that s by (auto simp: live_def)
  ultimately show ?thesis using s loc seg(1) by (simp add: segment_one_def)
qed

end
