(* ===== verification/Egress.thy ===== *)
theory Egress
  imports Segmentation
begin

text \<open>
  One egress pass (\<^verbatim>\<open>Kernel::egress\<close>): the retransmission sweep, the loop that segments,
  drains the outbound queue and folds loopback packets back into the host, and the reaping
  of closed sockets. The pass returns on every state that satisfies the invariant: a
  potential bounds the packets that loopback traffic can still produce.
\<close>

section \<open>Retransmission\<close>

definition conn_state :: "Kernel \<Rightarrow> Fd \<Rightarrow> TcpState option" where
  "conn_state k fd = map_option tcb_state (Option.bind (lookup k fd) tcb)"

lemma conn_stateE:
  assumes "conn_state k fd = Some st"
  obtains s t where "lookup k fd = Some s" "tcb s = Some t" "tcb_state t = st"
  using assms by (auto simp: conn_state_def bind_Some_iff)

lemma conn_state_frame [simp]:
  "conn_state (emit a b s k) = conn_state k" "conn_state (wake ws k) = conn_state k"
  by (auto simp: conn_state_def)

lemma conn_state_update:
  assumes "lookup k fd = Some s" "tcb s = Some t" "tcb_state t' = tcb_state t"
  shows "conn_state (modify fd (\<lambda>s. s\<lparr>tcb := Some t'\<rparr>) k) = conn_state k"
  using assms by (auto simp: conn_state_def)

lemma retx_sweep_safe:
  assumes "kinv X k" "\<And>fd. fd \<in> set fds \<Longrightarrow> conn_state k fd \<noteq> None"
  shows "returns (retx_sweep fds k) (\<lambda>(k', ab, rs). kinv X k' \<and>
    conn_state k' = conn_state k \<and> set ab \<subseteq> set fds \<and>
    (\<forall>fd \<in> set rs. conn_state k fd \<in> {Some SynSent, Some SynReceived}))"
  using assms
proof (induction fds arbitrary: k)
  case (Cons fd fds)
  obtain s t where s: "lookup k fd = Some s" "tcb s = Some t"
    using Cons.prems(2) [of fd] by (auto elim: conn_stateE)
  let ?r = "retx_one (retx_threshold k) (retx_max k) t"
  let ?k = "modify fd (\<lambda>s. s\<lparr>tcb := Some (fst ?r)\<rparr>) k"
  have cs: "conn_state ?k = conn_state k" using s by (rule conn_state_update) simp
  have "tcb_step (send_buf_cap k) t (fst ?r)"
    using kinv_tcb(1) [OF Cons.prems(1) s] by (rule retx_one_step)
  then have "kinv X ?k" by (rule kinv_update_tcb [OF Cons.prems(1) s])
  then have IH: "returns (retx_sweep fds ?k) (\<lambda>(k', ab, rs). kinv X k' \<and>
      conn_state k' = conn_state k \<and> set ab \<subseteq> set fds \<and>
      (\<forall>fd \<in> set rs. conn_state k fd \<in> {Some SynSent, Some SynReceived}))"
    using Cons.IH [of ?k] Cons.prems(2) unfolding cs by simp
  have hs: "snd ?r = Retx_Handshake \<Longrightarrow> conn_state k fd \<in> {Some SynSent, Some SynReceived}"
    using s by (auto simp: retx_one_def Let_def conn_state_def split: if_splits)
  show ?case
    using s hs by (simp add: split_beta) (rule returns_mono [OF IH], auto)
qed simp

lemma emit_handshake_safe:
  assumes inv: "kinv X k" and st: "conn_state k fd \<in> {Some SynSent, Some SynReceived}"
  shows "returns (emit_handshake fd k) (\<lambda>k'. kinv X k' \<and> conn_state k' = conn_state k)"
proof -
  obtain s t where s: "lookup k fd = Some s" "tcb s = Some t" "tcb_state t \<in> {SynSent, SynReceived}"
    using st by (auto elim: conn_stateE)
  obtain loc where "bound_endpoint s = Some loc" using kinv_tcb(3) [OF inv s(1,2)] by auto
  then show ?thesis using s inv by (auto simp: emit_handshake_def)
qed

lemma abort_with_conn:
  assumes "abort_with r fd k = Some k'"
  shows "conn_state k' a \<noteq> None \<longleftrightarrow> conn_state k a \<noteq> None"
    "recv_buf_cap k' = recv_buf_cap k"
  using assms
  by (auto simp: abort_with_def bind_Some_iff Let_def conn_state_def split: if_splits)

lemma check_retx_safe:
  assumes inv: "kinv X k"
  shows "returns (check_retx k) (\<lambda>k'. kinv X k')"
proof -
  define fds where "fds = map fst (filter (\<lambda>(_, s). retx_candidate s) (sockets (table k)))"
  have cand: "conn_state k fd \<noteq> None" if "fd \<in> set fds" for fd
    using that by (auto simp: fds_def kinv_mem [OF inv] conn_state_def retx_candidate_def split: option.splits)
  have resend: "returns (for_fds emit_handshake rs k1)
      (\<lambda>k'. kinv X k' \<and> conn_state k' = conn_state k)"
    if "kinv X k1" "conn_state k1 = conn_state k"
      "\<forall>fd \<in> set rs. conn_state k fd \<in> {Some SynSent, Some SynReceived}" for rs k1
    by (rule for_fds_inv) (use that in \<open>auto elim!: returns_mono [OF emit_handshake_safe]\<close>)
  have abort: "returns (for_fds abort_timed_out ab k1) (\<lambda>k'. kinv X k' \<and>
      (\<forall>fd \<in> set ab. conn_state k' fd \<noteq> None))"
    if "kinv X k1" "\<forall>fd \<in> set ab. conn_state k1 fd \<noteq> None" for ab k1
  proof (rule for_fds_inv)
    fix fd k2 assume fd: "fd \<in> set ab"
      and k2: "kinv X k2 \<and> (\<forall>fd \<in> set ab. conn_state k2 fd \<noteq> None)"
    then obtain s where "lookup k2 fd = Some s" by (auto elim: conn_stateE)
    with k2 obtain k3 where "abort_with Abort_TimedOut fd k2 = Some k3" "kinv X k3"
      using abort_with_safe [of X k2 fd s Abort_TimedOut] by (auto simp: returns_def)
    then show "returns (abort_timed_out fd k2) (\<lambda>k'. kinv X k' \<and>
        (\<forall>fd \<in> set ab. conn_state k' fd \<noteq> None))"
      using k2 abort_with_conn [of Abort_TimedOut fd k2 k3] by (simp add: abort_timed_out_def)
  qed (use that in auto)
  show ?thesis
    unfolding check_retx_def Let_def returns_simps fds_def [symmetric]
  proof (rule returns_mono [OF retx_sweep_safe [OF inv cand]])
    fix x assume x: "case x of (k', ab, rs) \<Rightarrow> kinv X k' \<and>
      conn_state k' = conn_state k \<and> set ab \<subseteq> set fds \<and>
      (\<forall>fd \<in> set rs. conn_state k fd \<in> {Some SynSent, Some SynReceived})"
    obtain k1 ab rs where [simp]: "x = (k1, ab, rs)" by (cases x)
    have "returns (for_fds emit_handshake rs k1) (\<lambda>k2. returns (for_fds abort_timed_out ab k2)
        (\<lambda>k'. kinv X k'))"
    proof (rule returns_mono [OF resend])
      fix k2 assume k2: "kinv X k2 \<and> conn_state k2 = conn_state k"
      then have "\<forall>fd \<in> set ab. conn_state k2 fd \<noteq> None" using x cand by auto
      then show "returns (for_fds abort_timed_out ab k2) (\<lambda>k'. kinv X k')"
        using k2 by (intro returns_mono [OF abort]) auto
    qed (use x in auto)
    then show "returns (case x of (k1, abort, resend) \<Rightarrow> do {
        k2 \<leftarrow> for_fds emit_handshake resend k1; for_fds abort_timed_out abort k2 })
        (\<lambda>k'. kinv X k')" by simp
  qed
qed

section \<open>The potential\<close>

text \<open>
  A segment can make the host send one more packet only by using something up: a byte of
  receive room, the one FIN a peer may send, a pending handshake, a byte or FIN still to be
  sent, or a SYN (which also creates a socket with all of these).
\<close>

definition fin_left :: "Tcb \<Rightarrow> bool" where
  "fin_left t \<longleftrightarrow> fin_seq t = Some (snd_una t + of_nat (length (send_buf t))) \<and>
     in_flight t \<le> length (send_buf t)"

definition send_pot :: "Tcb \<Rightarrow> nat" where
  "send_pot t = 2 * unsent_len t + (if fin_left t then 2 else 0)"

definition room :: "nat \<Rightarrow> Tcb \<Rightarrow> nat" where
  "room cap t = cap - length (recv_buf t)"

definition tcb_pot :: "nat \<Rightarrow> Tcb \<Rightarrow> nat" where
  "tcb_pot cap t =
     (if tcb_state t = Closed then 0
      else room cap t + (if peer_fin t then 0 else 1) +
           (if tcb_state t = SynSent then 1 else 0) + send_pot t)"

definition sock_pot :: "nat \<Rightarrow> Socket \<Rightarrow> nat" where
  "sock_pot cap s = (case tcb s of None \<Rightarrow> 0 | Some t \<Rightarrow> tcb_pot cap t)"

fun transport_pot :: "nat \<Rightarrow> Transport \<Rightarrow> nat" where
  "transport_pot cap (Udp d) = 1"
| "transport_pot cap (Tcp s) =
     (if fl_syn (seg_flags s) \<and> \<not> fl_ack (seg_flags s) then cap + 4
      else if fl_rst (seg_flags s) then 1 else 2)"

definition pkts_pot :: "nat \<Rightarrow> Packet list \<Rightarrow> nat" where
  "pkts_pot cap ps = sum_list (map (transport_pot cap \<circ> pkt_payload) ps)"

definition socks_pot :: "Kernel \<Rightarrow> nat" where
  "socks_pot k = sum_list (map (sock_pot (recv_buf_cap k) \<circ> snd) (sockets (table k)))"

definition pot :: "Kernel \<Rightarrow> nat" where
  "pot k = socks_pot k + pkts_pot (recv_buf_cap k) (outbound k)"

lemma pkts_pot_simps [simp]:
  "pkts_pot cap [] = 0" "pkts_pot cap (p # ps) = transport_pot cap (pkt_payload p) + pkts_pot cap ps"
  "pkts_pot cap (ps @ qs) = pkts_pot cap ps + pkts_pot cap qs"
  by (simp_all add: pkts_pot_def)

lemma sum_map_entry:
  fixes h :: "'v \<Rightarrow> nat"
  assumes "imap_get m k = Some v"
  shows "sum_list (map (h \<circ> snd) (imap_modify k f m)) + h v = sum_list (map (h \<circ> snd) m) + h (f v)"
  using assms by (induction m) (auto split: if_splits)

lemma socks_pot_modify:
  assumes "lookup k fd = Some s"
  shows "socks_pot (modify fd f k) + sock_pot (recv_buf_cap k) s = socks_pot k + sock_pot (recv_buf_cap k) (f s)"
  using assms sum_map_entry [of "sockets (table k)" fd s "sock_pot (recv_buf_cap k)" f]
  by (simp add: socks_pot_def lookup_def st_get_def) (simp add: st_modify_def)

lemma socks_pot_frame [simp]:
  "socks_pot (wake ws k) = socks_pot k" "socks_pot (emit a b s k) = socks_pot k"
  "socks_pot (k\<lparr>outbound := ps\<rparr>) = socks_pot k" "socks_pot (k\<lparr>tcp_isn := n\<rparr>) = socks_pot k"
  by (simp_all add: socks_pot_def)

lemma pot_frame [simp]:
  "pot (wake ws k) = pot k" "pot (k\<lparr>tcp_isn := n\<rparr>) = pot k"
  "pot (emit a b s k) = pot k + transport_pot (recv_buf_cap k) (Tcp s)"
  by (simp_all add: pot_def)

lemma pot_modify:
  assumes "lookup k fd = Some s"
  shows "pot (modify fd f k) + sock_pot (recv_buf_cap k) s = pot k + sock_pot (recv_buf_cap k) (f s)"
  using socks_pot_modify [OF assms, of f] by (simp add: pot_def)

lemma pot_modify_same:
  assumes "\<And>s. lookup k fd = Some s \<Longrightarrow> tcb (f s) = tcb s"
  shows "pot (modify fd f k) = pot k"
proof (cases "lookup k fd")
  case None
  then show ?thesis by (simp add: modify_absent)
next
  case (Some s)
  then show ?thesis using pot_modify [OF Some, of f] assms by (simp add: sock_pot_def)
qed

section \<open>The stages and the potential\<close>

lemma send_pot_frame [simp]:
  "send_pot (t\<lparr>tcb_state := st\<rparr>) = send_pot t" "send_pot (t\<lparr>recv_buf := r\<rparr>) = send_pot t"
  "send_pot (t\<lparr>rcv_nxt := n\<rparr>) = send_pot t" "send_pot (t\<lparr>peer_fin := b\<rparr>) = send_pot t"
  "send_pot (t\<lparr>snd_wnd := w\<rparr>) = send_pot t"
  by (simp_all add: send_pot_def unsent_len_def fin_left_def in_flight_def)

lemma room_frame [simp]:
  "room cap (t\<lparr>tcb_state := st\<rparr>) = room cap t" "room cap (t\<lparr>rcv_nxt := n\<rparr>) = room cap t"
  "room cap (t\<lparr>peer_fin := b\<rparr>) = room cap t" "room cap (t\<lparr>snd_wnd := w\<rparr>) = room cap t"
  by (simp_all add: room_def)

lemma unsent_ack:
  assumes "fin_wf t" "snd_nxt t' = snd_nxt t" "snd_una t' = snd_una t + of_nat (newly_acked s t)"
    "send_buf t' = drop (newly_acked s t) (send_buf t)" "fin_seq t' = fin_seq t"
  shows "unsent_len t' = unsent_len t" "fin_left t' = fin_left t"
proof -
  let ?n = "newly_acked s t" and ?l = "length (send_buf t)"
  have fl: "in_flight t' = in_flight t - ?n" using assms by (intro in_flight_after_ack)
  have le: "?n \<le> in_flight t" by (rule newly_acked_le)
  have len: "length (send_buf t') = ?l - ?n" using assms(4) by simp
  show "unsent_len t' = unsent_len t"
    unfolding unsent_len_def fl len using le by simp
  show "fin_left t' = fin_left t"
  proof (cases "?n \<le> ?l")
    case True
    then have "of_nat ?n + of_nat (?l - ?n) = (of_nat ?l :: u32)" by (metis of_nat_add le_add_diff_inverse)
    then show ?thesis using True le assms(3,5) unfolding fin_left_def fl len by (auto simp: add.assoc)
  next
    case False
    then have n: "fin_seq t = Some (snd_una t + of_nat ?l)" "?n = Suc ?l" "in_flight t = ?n"
      using acked_in_buf [OF assms(1), of s] by auto
    then show ?thesis using assms(3,5) unfolding fin_left_def fl len by (simp add: algebra_simps)
  qed
qed

lemma est_ack_pot:
  assumes wf: "tcb_wf c t" "c < 2 ^ 32 - 1" "tcb_state t \<noteq> Closed" "est_ack s t = Some t'"
  shows "tcb_pot cap t' \<le> tcb_pot cap t"
proof -
  have fw: "fin_wf t" using wf by (simp add: tcb_wf_def)
  define u where "u = t\<lparr>send_buf := drop (newly_acked s t) (send_buf t),
            snd_una := snd_una t + of_nat (newly_acked s t),
            egress_since_ack := 0, retx_attempts := 0,
            tcb_state := if acks_fin s t then fin_acked_state (tcb_state t) else tcb_state t,
            snd_wnd := seg_window s\<rparr>"
  have u: "unsent_len u = unsent_len t" "fin_left u = fin_left t"
    by (rule unsent_ack [OF fw, where s = s]; simp add: u_def)+
  have "tcb_pot cap u \<le> tcb_pot cap t"
    using wf(3) unfolding tcb_pot_def send_pot_def room_def u by (simp add: u_def)
  moreover have "tcb_pot cap (t\<lparr>snd_wnd := w\<rparr>) = tcb_pot cap t" for w
    by (simp add: tcb_pot_def)
  ultimately show ?thesis
    using wf(4) unfolding est_ack_eq [OF wf(1-3)] u_def [symmetric] by (auto split: if_splits)
qed

lemma est_data_pot:
  "tcb_pot cap (fst (est_data cap s t)) + (if snd (est_data cap s t) \<and> tcb_state t \<noteq> Closed then 1 else 0)
     \<le> tcb_pot cap t"
proof (cases "snd (est_data cap s t)")
  case True
  define n where "n = min (length (seg_payload s)) (cap - length (recv_buf t))"
  have d: "est_data cap s t = (t\<lparr>recv_buf := recv_buf t @ take n (seg_payload s),
      rcv_nxt := rcv_nxt t + of_nat n\<rparr>, True)" "0 < n"
    using True by (auto simp: est_data_def Let_def n_def split: if_splits)
  have len: "length (take n (seg_payload s)) = n" and "n \<le> cap - length (recv_buf t)"
    by (simp_all add: n_def)
  then have "length (recv_buf t) + n \<le> cap" using d(2) by simp
  then have "Suc (room cap (fst (est_data cap s t))) \<le> room cap t"
    using d len by (simp add: room_def)
  then show ?thesis using d(1) unfolding tcb_pot_def by simp
next
  case False
  then have "fst (est_data cap s t) = t" by (auto simp: est_data_def Let_def split: if_splits)
  then show ?thesis using False by simp
qed

lemma est_fin_pot:
  "tcb_pot cap (fst (est_fin s t)) + (if snd (est_fin s t) \<and> tcb_state t \<noteq> Closed then 1 else 0)
     \<le> tcb_pot cap t"
  by (cases "tcb_state t") (auto simp: est_fin_def tcb_pot_def fin_received_state_def)

lemma accept_pot:
  assumes "tcb_wf c t" "c < 2 ^ 32 - 1" "tcb_state t \<noteq> Closed" "est_ack sg t = Some t1"
    and d_def: "d = est_data cap sg t1" and f_def: "f = est_fin sg (fst d)"
  shows "tcb_pot cap (fst f) + (if snd d \<or> snd f then 1 else 0) \<le> tcb_pot cap t"
proof (cases "tcb_state t1 = Closed")
  case False
  have "tcb_pot cap t1 \<le> tcb_pot cap t" using assms(1-4) by (rule est_ack_pot)
  then show ?thesis
    using False est_data_pot [of cap sg t1] est_fin_pot [of cap sg "fst d"]
    by (auto simp: d_def f_def split: if_splits)
next
  case True
  then have zero: "tcb_pot cap (fst f) = 0"
    by (simp add: f_def d_def est_fin_def tcb_pot_def fin_received_state_def)
  have same: "recv_buf t1 = recv_buf t" "peer_fin t1 = peer_fin t"
    using est_ack_step [OF assms(1-3), of sg] assms(4) by (metis option.inject)+
  have "0 < tcb_pot cap t" if "snd d \<or> snd f"
  proof (cases "snd d")
    case True
    then have "0 < room cap t"
      using same by (auto simp: d_def est_data_def room_def Let_def split: if_splits)
    then show ?thesis using assms(3) by (simp add: tcb_pot_def)
  next
    case False
    then have "fst d = t1" by (auto simp: d_def est_data_def Let_def split: if_splits)
    then have "\<not> peer_fin t" using False that same by (auto simp: f_def est_fin_def split: if_splits)
    then show ?thesis using assms(3) by (simp add: tcb_pot_def)
  qed
  then show ?thesis using zero by auto
qed

lemma handle_established_pot:
  assumes inv: "kinv X k" and s: "lookup k fd = Some s" "tcb s = Some t" "tcb_state t \<noteq> Closed"
    and r: "handle_established fd loc rem sg k = Some k'"
  shows "pot k' < pot k + 2" "recv_buf_cap k' = recv_buf_cap k"
proof -
  let ?c = "recv_buf_cap k"
  note wf = kinv_tcb(1) [OF inv s(1,2)] kinv_cap [OF inv] s(3)
  obtain t1 where t1: "est_ack sg t = Some t1" using est_ack_step [OF wf, of sg] by metis
  define d where "d = est_data ?c sg t1"
  define f where "f = est_fin sg (fst d)"
  have p: "tcb_pot ?c (fst f) + (if snd d \<or> snd f then 1 else 0) \<le> tcb_pot ?c t"
    using wf t1 d_def f_def by (rule accept_pot)
  obtain st3 ws where k': "k' = (if snd d \<or> snd f then emit loc rem (ack_segment loc rem (fst f)
        (advertised_window ?c (length (recv_buf (fst f))))) (wake ws (modify fd (\<lambda>_. st3) k))
      else wake ws (modify fd (\<lambda>_. st3) k))" "tcb st3 = Some (fst f)"
    using r s t1 unfolding handle_established_def Let_def d_def f_def
    by (simp add: split_beta del: wake_read_eq wake_write_eq) (auto simp: split: if_splits)
  have "pot (modify fd (\<lambda>_. st3) k) + tcb_pot ?c t = pot k + tcb_pot ?c (fst f)"
    using pot_modify [OF s(1), of "\<lambda>_. st3"] s(2) k'(2) by (simp add: sock_pot_def)
  then show "pot k' < pot k + 2"
    using p unfolding k'(1) by (simp add: ack_segment_def no_flags_def split: if_splits)
  show "recv_buf_cap k' = recv_buf_cap k"
    unfolding k'(1) by simp
qed

section \<open>Inbound packets and the potential\<close>

text \<open>\<open>cheap n k k'\<close>: the configuration is kept and the potential grows by less than \<open>n\<close>.\<close>

definition cheap :: "nat \<Rightarrow> Kernel \<Rightarrow> Kernel \<Rightarrow> bool" where
  "cheap n k k' \<longleftrightarrow> pot k' < pot k + n \<and> recv_buf_cap k' = recv_buf_cap k"

lemma abort_with_pot:
  assumes "lookup k fd = Some s" "abort_with r fd k = Some k'"
  shows "cheap 1 k k'"
proof -
  obtain st ws where k': "k' = wake ws (modify fd (\<lambda>_. st) k)" "tcb st = map_option (abort_tcb r) (tcb s)"
    using assms by (auto simp: abort_with_def Let_def)
  have "sock_pot c st = 0" for c
    using k'(2) by (cases "tcb s"; cases r) (auto simp: sock_pot_def tcb_pot_def abort_tcb_def Let_def)
  then show ?thesis
    using pot_modify [OF assms(1), of "\<lambda>_. st"] by (simp add: cheap_def k'(1))
qed

lemma wake_connect_pot: "wake_connect fd k = Some k' \<Longrightarrow>
    pot k' = pot k \<and> recv_buf_cap k' = recv_buf_cap k"
  by (auto simp: wake_connect_def bind_Some_iff Let_def pot_modify_same split: option.splits)

lemma push_to_listener_pot: "push_to_listener c loc k = Some k' \<Longrightarrow>
    pot k' = pot k \<and> recv_buf_cap k' = recv_buf_cap k"
  by (auto simp: push_to_listener_def bind_Some_iff pot_modify_same split: option.splits)

lemma tcb_pot_state:
  "tcb_state t = SynSent \<Longrightarrow>
     Suc (tcb_pot c (t\<lparr>tcb_state := Established, rcv_nxt := n, snd_wnd := w\<rparr>)) = tcb_pot c t"
  "tcb_state t = SynReceived \<Longrightarrow>
     tcb_pot c (t\<lparr>tcb_state := Established, snd_wnd := w\<rparr>) = tcb_pot c t"
  by (simp_all add: tcb_pot_def)

lemma cheap_mono: "cheap m k k' \<Longrightarrow> m \<le> n \<Longrightarrow> cheap n k k'"
  by (auto simp: cheap_def)

lemma handle_on_connection_pot:
  assumes inv: "kinv {} k" and s: "lookup k fd = Some s" "tcb s = Some t"
    and r: "handle_on_connection fd loc rem sg k = Some k'"
  shows "cheap (if fl_rst (seg_flags sg) then 1 else 2) k k'"
proof (cases "fl_rst (seg_flags sg)")
  case True
  then show ?thesis
    using r abort_with_pot [OF s(1)] by (simp add: handle_on_connection_def abort_connection_def)
next
  case rst: False
  let ?syn = "tcb_state t = SynSent \<and> fl_syn (seg_flags sg) \<and> fl_ack (seg_flags sg)"
  let ?ack = "tcb_state t = SynReceived \<and> fl_ack (seg_flags sg) \<and> \<not> fl_syn (seg_flags sg)"
  let ?est = "tcb_state t \<in> {Established, FinWait1, FinWait2, CloseWait, Closing, LastAck}"
  note body = r [unfolded handle_on_connection_def] rst s
  consider (syn) ?syn | (ack) ?ack | (est) ?est | (none) "\<not> ?syn" "\<not> ?ack" "\<not> ?est" by blast
  then have "cheap 2 k k'"
  proof cases
    case syn
    let ?t = "t\<lparr>tcb_state := Established, rcv_nxt := seg_seq sg + 1, snd_wnd := seg_window sg\<rparr>"
    let ?k = "modify fd (\<lambda>s. s\<lparr>tcb := Some ?t\<rparr>) k"
    obtain k1 where k1: "wake_connect fd ?k = Some k1"
      "k' = emit loc rem (ack_segment loc rem ?t (advertised_window (recv_buf_cap k) 0)) k1"
      using body syn by (auto simp: bind_Some_iff Let_def)
    have "Suc (pot ?k) = pot k"
      using pot_modify [OF s(1), of "\<lambda>s. s\<lparr>tcb := Some ?t\<rparr>"] s(2)
        tcb_pot_state(1) [of t "recv_buf_cap k" "seg_window sg" "seg_seq sg + 1"] syn
      by (simp add: sock_pot_def)
    then show ?thesis
      using wake_connect_pot [OF k1(1)] k1(2) by (simp add: cheap_def ack_segment_def no_flags_def)
  next
    case ack
    let ?t = "t\<lparr>tcb_state := Established, snd_wnd := seg_window sg\<rparr>"
    let ?k = "modify fd (\<lambda>s. s\<lparr>tcb := Some ?t\<rparr>) k"
    have "k' = k \<or> push_to_listener fd loc ?k = Some k'" using body ack by (auto split: if_splits)
    moreover have "pot ?k = pot k"
      using pot_modify [OF s(1), of "\<lambda>s. s\<lparr>tcb := Some ?t\<rparr>"] s(2) tcb_pot_state(2) [of t "recv_buf_cap k"] ack
      by (simp add: sock_pot_def)
    ultimately show ?thesis using push_to_listener_pot [of fd loc ?k k'] by (auto simp: cheap_def)
  next
    case est
    then have "handle_established fd loc rem sg k = Some k'" using body by auto
    then show ?thesis using handle_established_pot [OF inv s] est by (auto simp: cheap_def)
  next
    case none
    then have "k' = k" using body by (auto split: if_splits)
    then show ?thesis by (simp add: cheap_def)
  qed
  then show ?thesis using rst by simp
qed

lemma imap_insert_fresh: "k \<notin> set (imap_keys m) \<Longrightarrow> imap_insert k v m = m @ [(k, v)]"
  by (induction m) auto

lemma socks_pot_insert:
  assumes "kinv X k"
  shows "socks_pot (put_table (snd (st_insert s (table k))) k) = socks_pot k + sock_pot (recv_buf_cap k) s"
proof -
  have "next_id (table k) \<notin> set (imap_keys (sockets (table k)))"
    using fresh_fd [OF assms] by (auto simp: lookup_def st_get_def map_of_eq_None_iff)
  then have "imap_insert (next_id (table k)) s (sockets (table k)) = sockets (table k) @ [(next_id (table k), s)]"
    by (rule imap_insert_fresh)
  then show ?thesis by (simp add: socks_pot_def st_insert_def Let_def)
qed

lemma socks_pot_put_table:
  "sockets t = sockets (table k) \<Longrightarrow> socks_pot (put_table t k) = socks_pot k"
  by (simp add: socks_pot_def)

lemma accept_syn_pot:
  assumes inv: "kinv X k" and r: "accept_syn lfd loc rem sg k = Some k'"
  shows "cheap (recv_buf_cap k + 4) k k'"
proof -
  obtain st l where l: "lookup k lfd = Some st" "listen st = Some l"
    using r by (auto simp: accept_syn_def bind_Some_iff)
  show ?thesis
  proof (cases "count_children k lfd loc + length (ready l) \<ge> backlog l")
    case True
    then show ?thesis using r l by (simp add: accept_syn_def Let_def cheap_def)
  next
    case False
    let ?d = "sk_domain st" and ?ty = "sk_ty st" and ?c = "next_id (table k)" and ?cap = "recv_buf_cap k"
    let ?key = "\<lparr>bk_domain = ?d, bk_ty = ?ty, local_addr = sa_ip loc, local_port = sa_port loc\<rparr>"
    let ?t = "new_tcb SynReceived rem (tcp_isn k) (seg_window sg) (seg_seq sg + 1)"
    let ?f = "\<lambda>c. c\<lparr>bound := Some ?key, sk_peer := Some (Addr_Inet rem), tcb := Some ?t\<rparr>"
    let ?t1 = "snd (st_insert (Socket_new ?d ?ty) (table k))"
    let ?k1 = "put_table (insert_binding ?key ?c ?t1) k"
    let ?sg = "\<lparr>seg_src_port = sa_port loc, seg_dst_port = sa_port rem, seg_seq = tcp_isn k,
          seg_ack = seg_seq sg + 1, seg_flags = no_flags\<lparr>fl_syn := True, fl_ack := True\<rparr>,
          seg_window = DEFAULT_WINDOW, seg_payload = []\<rparr>"
    obtain t4 where t4: "insert_connection loc rem ?c (table (modify ?c ?f ?k1)) = Some t4"
      "k' = emit loc rem ?sg ((put_table t4 (modify ?c ?f ?k1))\<lparr>tcp_isn := tcp_isn k + 0x10000\<rparr>)"
      using r l False by (auto simp: accept_syn_def Let_def bind_Some_iff split_beta initial_sequence_def
          st_get_insert)
    have sock: "sockets t4 = sockets (table (modify ?c ?f ?k1))"
      using t4(1) by (auto simp: insert_connection_def split: if_splits)
    have look: "lookup ?k1 ?c = Some (Socket_new ?d ?ty)" by (simp add: st_get_insert)
    have "socks_pot ?k1 = socks_pot (put_table ?t1 k)"
      using socks_pot_put_table [of "insert_binding ?key ?c ?t1" "put_table ?t1 k"] by simp
    also have "\<dots> = socks_pot k" by (simp add: socks_pot_insert [OF inv] sock_pot_def Socket_new_def)
    finally have k1: "socks_pot ?k1 = socks_pot k" .
    have "socks_pot (modify ?c ?f ?k1) = socks_pot k + tcb_pot ?cap ?t"
      using socks_pot_modify [OF look, of ?f] k1 by (simp add: sock_pot_def Socket_new_def)
    moreover have "tcb_pot ?cap ?t = ?cap + 1"
      by (simp add: tcb_pot_def new_tcb_def room_def send_pot_def unsent_len_def fin_left_def)
    ultimately show ?thesis
      using socks_pot_put_table [OF sock] unfolding t4(2) cheap_def
      by (simp add: pot_def no_flags_def)
  qed
qed

lemma udp_deliver_result:
  assumes "udp_deliver k pkt d = Some k'"
  obtains "k' = k"
  | fd s s' ws where "lookup k fd = Some s" "tcb s' = tcb s" "k' = wake ws (modify fd (\<lambda>_. s') k)"
proof (cases "udp_target k pkt d")
  case None
  then show ?thesis using assms that(1) by (simp add: udp_deliver_def)
next
  case (Some fd)
  then obtain s where s: "lookup k fd = Some s" using assms by (auto simp: udp_deliver_def bind_Some_iff)
  let ?from = "Addr_Inet (SocketAddr (pkt_src pkt) (ud_src_port d))"
  show ?thesis
  proof (cases "case sk_peer s of Some peer \<Rightarrow> peer \<noteq> ?from | None \<Rightarrow> False")
    case True
    then show ?thesis using assms Some s that(1) by (simp add: udp_deliver_def)
  next
    case False
    then show ?thesis
      using assms Some s that(2) [of fd s "s\<lparr>recv_queue := recv_queue s @ [(?from, ud_payload d)],
          read_wakers := []\<rparr>" "read_wakers s"]
      by (simp add: udp_deliver_def)
  qed
qed

lemma kernel_deliver_cheap:
  assumes inv: "kernel_inv k" and r: "kernel_deliver k pkt = Some k'"
  shows "cheap (transport_pot (recv_buf_cap k) (pkt_payload pkt)) k k'"
proof (cases "pkt_payload pkt")
  case (Udp d)
  then have "udp_deliver k pkt d = Some k'" using r by (simp add: kernel_deliver_def)
  then consider "k' = k"
    | fd s s' ws where "lookup k fd = Some s" "tcb s' = tcb s" "k' = wake ws (modify fd (\<lambda>_. s') k)"
    by (rule udp_deliver_result)
  then show ?thesis
  proof cases
    case 2
    then have "pot k' = pot k" using pot_modify_same [of k fd "\<lambda>_. s'"] by simp
    then show ?thesis using 2 Udp by (simp add: cheap_def)
  qed (simp add: cheap_def Udp)
next
  case (Tcp sg)
  let ?loc = "SocketAddr (pkt_dst pkt) (seg_dst_port sg)"
  let ?rem = "SocketAddr (pkt_src pkt) (seg_src_port sg)"
  have inv': "kinv {} k" using inv by (simp add: kernel_inv_def)
  have rst: "pot (emit_rst ?loc ?rem sg k) = pot k + 1"
    "recv_buf_cap (emit_rst ?loc ?rem sg k) = recv_buf_cap k"
    by (simp_all add: emit_rst_def split_beta no_flags_def)
  have d: "tcp_deliver k pkt sg = Some k'" using r Tcp by (simp add: kernel_deliver_def)
  show ?thesis
  proof (cases "find_connection (table k) ?loc ?rem")
    case (Some fd)
    then obtain s t where "lookup k fd = Some s" "tcb s = Some t"
      using kinv_connection [OF inv'] by metis
    then have "cheap (if fl_rst (seg_flags sg) then 1 else 2) k k'"
      using handle_on_connection_pot [OF inv'] d Some by (simp add: tcp_deliver_def Let_def)
    then show ?thesis using Tcp by (auto elim!: cheap_mono)
  next
    case None
    then show ?thesis
      using d Tcp rst accept_syn_pot [OF inv']
      by (auto simp: tcp_deliver_def Let_def bind_Some_iff cheap_def split: option.splits if_splits)
  qed
qed

section \<open>Segmentation and the potential\<close>

lemma number_pot: "sum_list (map (\<lambda>x. 2) (number sq ps)) = 2 * length ps"
  by (induction sq ps rule: number.induct) auto

lemma chunks_count: "length (chunks n xs) \<le> length xs"
  by (induction n xs rule: chunks.induct) auto

lemma seg_packet_pot: "transport_pot cap (pkt_payload (seg_packet loc rcap t x)) = 2"
  by (cases x) (simp add: seg_packet_def data_segment_def no_flags_def)

lemma seg_list_pot:
  "pkts_pot cap (map (seg_packet loc rcap t) (seg_list mss t)) = 2 * length (seg_list mss t)"
proof -
  have "transport_pot cap \<circ> pkt_payload \<circ> seg_packet loc rcap t = (\<lambda>x. 2)"
    by (rule ext) (simp add: seg_packet_pot)
  then show ?thesis by (simp add: pkts_pot_def sum_list_triv)
qed

lemma length_number: "length (number sq ps) = length ps"
  by (induction sq ps rule: number.induct) auto

lemma in_flight_after:
  assumes "fin_wf t" "length (send_buf t) < 2 ^ 32 - 1"
  shows "in_flight (t\<lparr>snd_nxt := nxt_after t\<rparr>) =
    in_flight t + length (sendable t) + (if fin_sendable t then 1 else 0)"
proof -
  have le: "in_flight t + length (sendable t) \<le> length (send_buf t) \<or> sendable t = [] \<and> \<not> fin_sendable t"
    by (auto simp: sendable_def fin_sendable_def)
  let ?n = "length (sendable t) + (if fin_sendable t then 1 else 0)"
  have "in_flight (t\<lparr>snd_nxt := nxt_after t\<rparr>) = unat (snd_nxt t + of_nat ?n - snd_una t)"
    by (simp add: in_flight_def nxt_after_def)
  also have "\<dots> = unat (snd_nxt t - snd_una t) + ?n"
    using le assms(2) in_flight_less [of t] by (intro seq_advance) (auto simp: in_flight_def)
  finally show ?thesis by (simp add: in_flight_def)
qed

lemma seg_list_send_pot:
  assumes fw: "fin_wf t" and len: "length (send_buf t) < 2 ^ 32 - 1"
  shows "2 * length (seg_list mss t) + send_pot (t\<lparr>snd_nxt := nxt_after t\<rparr>) \<le> send_pot t"
proof -
  let ?t = "t\<lparr>snd_nxt := nxt_after t\<rparr>"
  note fl = in_flight_after [OF fw len]
  have sl: "length (sendable t) \<le> unsent_len t" by (simp add: sendable_def unsent_len_def)
  have u: "unsent_len ?t + length (sendable t) \<le> unsent_len t"
    using sl unfolding unsent_len_def fl by (auto simp: fin_sendable_def)
  have f: "fin_left ?t \<longrightarrow> fin_left t \<and> \<not> fin_sendable t" "fin_sendable t \<longrightarrow> fin_left t"
    unfolding fin_left_def fl by (auto simp: fin_sendable_def sendable_def split: if_splits)
  have "length (seg_list mss t) \<le> length (sendable t) + (if fin_sendable t then 1 else 0)"
    using chunks_count [of mss "sendable t"] by (simp add: seg_list_def length_number)
  then show ?thesis using u f unfolding send_pot_def by (simp split: if_splits)
qed

lemma pot_pumped:
  assumes s: "lookup k fd = Some s" "tcb s = Some t" "tcb_state t \<noteq> Closed"
    and wf: "fin_wf t" "length (send_buf t) < 2 ^ 32 - 1"
  shows "pot (pumped fd loc mss t (t\<lparr>snd_nxt := nxt_after t\<rparr>) k) \<le> pot k"
proof -
  let ?c = "recv_buf_cap k" and ?t = "t\<lparr>snd_nxt := nxt_after t\<rparr>"
  have "socks_pot (modify fd (\<lambda>s. s\<lparr>tcb := Some ?t\<rparr>) k) + tcb_pot ?c t = socks_pot k + tcb_pot ?c ?t"
    using socks_pot_modify [OF s(1), of "\<lambda>s. s\<lparr>tcb := Some ?t\<rparr>"] s(2) by (simp add: sock_pot_def)
  moreover have "tcb_pot ?c ?t + 2 * length (seg_list mss t) \<le> tcb_pot ?c t"
    using seg_list_send_pot [OF wf, of mss] s(3) by (simp add: tcb_pot_def room_def)
  ultimately show ?thesis by (simp add: pot_def pumped_def seg_list_pot)
qed

lemma segment_one_pot:
  assumes inv: "kinv X k" and fd: "live k fd"
  shows "returns (segment_one fd k) (\<lambda>k'. kinv X k' \<and> (\<forall>a. live k a \<longrightarrow> live k' a) \<and>
     pot k' \<le> pot k \<and> recv_buf_cap k' = recv_buf_cap k)"
proof -
  obtain s t where s: "lookup k fd = Some s" "tcb s = Some t" "tcb_state t \<noteq> Closed"
    using fd by (auto simp: live_def)
  obtain loc where loc: "bound_endpoint s = Some loc" using kinv_tcb(3) [OF inv s(1,2)] by auto
  have fw: "fin_wf t" "length (send_buf t) < 2 ^ 32 - 1"
    using kinv_tcb(1) [OF inv s(1,2)] s(3) kinv_cap [OF inv] by (auto simp: tcb_wf_def)
  have "segment_one fd k = Some (pumped fd loc (mss_for k (sa_ip loc)) t (t\<lparr>snd_nxt := nxt_after t\<rparr>) k)"
    using segment_loop_eq(1) [OF s(1,2) fw mss_pos [OF kinv_mtu [OF inv]]] s loc by (simp add: segment_one_def)
  then show ?thesis
    using segment_one_safe [OF assms] pot_pumped [OF s fw] by (simp add: pumped_def)
qed

lemma segment_all_pot:
  assumes inv: "kinv X k"
  shows "returns (segment_all k) (\<lambda>k'. kinv X k' \<and> pot k' \<le> pot k \<and>
     recv_buf_cap k' = recv_buf_cap k)"
proof -
  define fds where "fds = map fst (filter (\<lambda>(_, s). segment_candidate s) (sockets (table k)))"
  let ?P = "\<lambda>k'. kinv X k' \<and> (\<forall>fd \<in> set fds. live k' fd) \<and> pot k' \<le> pot k \<and>
     recv_buf_cap k' = recv_buf_cap k"
  have live: "live k fd" if "fd \<in> set fds" for fd
    using that by (auto simp: fds_def live_def kinv_mem [OF inv] segment_candidate_def split: option.splits)
  have "returns (for_fds segment_one fds k) ?P"
  proof (rule for_fds_inv)
    fix fd k1 assume "fd \<in> set fds" "?P k1"
    then show "returns (segment_one fd k1) ?P"
      by (intro returns_mono [OF segment_one_pot]) auto
  qed (use inv live in auto)
  then show ?thesis unfolding segment_all_def fds_def [symmetric] by (rule returns_mono) auto
qed

section \<open>The pass\<close>

lemma is_local_specified: "kinv X k \<Longrightarrow> is_local k a \<Longrightarrow> \<not> is_unspecified a"
  by (auto simp: is_local_def kinv_def loopback_specified split: if_splits)

lemma route_drained_safe:
  assumes "kernel_inv k"
  shows "returns (route_drained ps k out) (\<lambda>(k', out'). kernel_inv k' \<and>
    recv_buf_cap k' = recv_buf_cap k \<and> pot k' + length ps \<le> pot k + pkts_pot (recv_buf_cap k) ps)"
  using assms
proof (induction ps arbitrary: k out)
  case (Cons p ps)
  let ?w = "transport_pot (recv_buf_cap k) (pkt_payload p)"
  have w: "1 \<le> ?w" by (cases "pkt_payload p") auto
  show ?case
  proof (cases "is_local k (pkt_dst p)")
    case True
    have "\<not> is_unspecified (pkt_dst p)"
      using is_local_specified True Cons.prems(1) by (auto simp: kernel_inv_def)
    then obtain k1 where k1: "kernel_deliver k p = Some k1" "kernel_inv k1"
      using kernel_deliver_safe [OF Cons.prems(1)] by (auto simp: returns_def)
    have "cheap ?w k k1" by (rule kernel_deliver_cheap [OF Cons.prems(1) k1(1)])
    then show ?thesis
      using True k1 Cons.IH [OF k1(2), of out]
      by (auto simp: cheap_def elim!: returns_mono)
  next
    case False
    then show ?thesis using Cons.IH [OF Cons.prems, of "out @ [p]"] w by (auto elim!: returns_mono)
  qed
qed simp

lemma egress_loop_returns:
  assumes "kernel_inv k"
  shows "returns (egress_loop k out) (\<lambda>(k', out'). kernel_inv k')"
  using assms
proof (induction "pot k" arbitrary: k out rule: less_induct)
  case less
  have inv: "kinv {} k" using less.prems by (simp add: kernel_inv_def)
  obtain k1 where k1: "segment_all k = Some k1" "kernel_inv k1" "pot k1 \<le> pot k"
    using segment_all_pot [OF inv] by (auto simp: returns_def kernel_inv_def)
  show ?case
  proof (cases "outbound k1 = []")
    case True
    then show ?thesis using k1 by (subst egress_loop.simps) simp
  next
    case False
    let ?k = "k1\<lparr>outbound := []\<rparr>"
    have "kernel_inv ?k" using k1 by (simp add: kernel_inv_def)
    then obtain k2 out2 where k2: "route_drained (outbound k1) ?k out = Some (k2, out2)"
      "kernel_inv k2"
      "pot k2 + length (outbound k1) \<le> pot ?k + pkts_pot (recv_buf_cap k1) (outbound k1)"
      using route_drained_safe [of ?k "outbound k1" out] by (auto simp: returns_def)
    have "pot ?k + pkts_pot (recv_buf_cap k1) (outbound k1) = pot k1" by (simp add: pot_def)
    then have "pot k2 < pot k" using k2(3) k1(3) False by (cases "outbound k1") auto
    then have "returns (egress_loop k2 out2) (\<lambda>(k', out'). kernel_inv k')"
      using k2 by (intro less.hyps)
    then show ?thesis using k1 k2 False by (subst egress_loop.simps) simp
  qed
qed

lemma reap_closed_safe:
  assumes inv: "kernel_inv k"
  shows "kernel_inv (reap_closed k)"
proof -
  let ?drop = "\<lambda>fd k. put_table (st_remove fd (table k)) k"
  define victims where "victims = map fst (filter (\<lambda>(_, s). reapable s) (sockets (table k)))"
  have closed: "held k fd" if "fd \<in> set victims" for fd
    using that inv kinv_socket(4) [of "{}" k]
    by (fastforce simp: victims_def held_def kernel_inv_def kinv_mem reapable_def acceptable_def)
  have "kinv {} (fold ?drop fds k)" if "kinv {} k" "\<And>fd. fd \<in> set fds \<Longrightarrow> held k fd" for fds
    using that
  proof (induction fds arbitrary: k)
    case (Cons fd fds)
    have "kinv {} (?drop fd k)" using Cons.prems by (intro kinv_remove_held) auto
    moreover have "held (?drop fd k) a" if "a \<in> set fds" for a
      using Cons.prems(2) [of a] that by (auto simp: held_def st_get_remove lookup_eq split: if_splits)
    ultimately show ?case using Cons.IH [of "?drop fd k"] by simp
  qed simp
  then have "kinv {} (fold ?drop victims k)" using inv closed by (simp add: kernel_inv_def)
  then show ?thesis by (simp add: reap_closed_def kernel_inv_def Let_def victims_def)
qed

lemma kernel_egress_safe:
  assumes inv: "kernel_inv k"
  shows "returns (kernel_egress k out) (\<lambda>(k', out'). kernel_inv k')"
proof -
  obtain k1 where k1: "check_retx k = Some k1" "kernel_inv k1"
    using check_retx_safe [of "{}" k] assms by (auto simp: returns_def kernel_inv_def)
  obtain k2 out2 where "egress_loop k1 out = Some (k2, out2)" "kernel_inv k2"
    using egress_loop_returns [OF k1(2), of out] by (auto simp: returns_def)
  then show ?thesis using k1 reap_closed_safe by (simp add: kernel_egress_def)
qed

end
