(* ===== verification/Kernel_Runs.thy ===== *)
theory Kernel_Runs
  imports Egress
begin

text \<open>
  The system calls that were not covered by \<open>Kernel_Safety\<close>, the sweeps of an egress pass,
  and runs of a kernel: any sequence of admissible calls and inbound packets returns and
  keeps the invariant.
\<close>

section \<open>Stream calls\<close>

lemma tcp_poll_send_safe:
  assumes inv: "kinv X k"
  shows "kinv X (snd (tcp_poll_send k fd w buf))"
proof (cases "lookup k fd")
  case (Some s)
  have step: "tcb_step (send_buf_cap k) t (t\<lparr>send_buf := send_buf t @ d\<rparr>)"
    if "tcb s = Some t" "\<not> wr_closed t" "length d \<le> send_buf_cap k - length (send_buf t)" for t d
    using kinv_tcb(1) [OF inv Some that(1)] that by (intro send_step)
  show ?thesis
    using inv Some
    by (auto simp: tcp_poll_send_def Let_def register_write_waker_def step
        intro!: kinv_update_other kinv_update_tcb [OF inv Some] split: option.splits)
qed (use inv in \<open>simp add: tcp_poll_send_def\<close>)

lemma tcp_poll_shutdown_safe:
  assumes inv: "kinv X k"
  shows "kinv X (snd (tcp_poll_shutdown_write k fd))"
proof (cases "lookup k fd")
  case (Some s)
  have step: "tcb_step (send_buf_cap k) t (queue_fin t)" if "tcb s = Some t" "\<not> wr_closed t" for t
    using kinv_tcb(1) [OF inv Some that(1)] that by (intro queue_fin_step)
  show ?thesis
    using inv Some
    by (auto simp: tcp_poll_shutdown_write_def step intro!: kinv_update_tcb [OF inv Some]
        split: option.splits)
qed (use inv in \<open>simp add: tcp_poll_shutdown_write_def\<close>)

lemma tcb_step_recv_buf: "tcb_wf cap t \<Longrightarrow> tcb_step cap t (t\<lparr>recv_buf := r\<rparr>)"
  by (simp add: tcb_step_def tcb_wf_def)

lemma drain_into_length: "length (snd (snd (drain_into rb bs))) = length bs"
  by (induction rb bs rule: drain_into.induct) (auto simp: Let_def split_beta)

lemma tcp_poll_recv_vectored_safe:
  assumes inv: "kinv X k"
  shows "returns (tcp_poll_recv_vectored k fd cx bufs)
    (\<lambda>(r, bufs', k'). kinv X k' \<and> length bufs' = length bufs)"
proof (cases "lookup k fd")
  case (Some s)
  show ?thesis
  proof (cases "tcb s")
    case (Some t)
    then obtain loc where loc: "bound_endpoint s = Some loc"
      using kinv_tcb(3) [OF inv \<open>lookup k fd = Some s\<close>] by auto
    have "kinv X (modify fd (\<lambda>s. s\<lparr>tcb := Some (t\<lparr>recv_buf := r\<rparr>)\<rparr>) k)" for r
      using kinv_tcb(1) [OF inv \<open>lookup k fd = Some s\<close> Some]
      by (intro kinv_update_tcb [OF inv \<open>lookup k fd = Some s\<close> Some] tcb_step_recv_buf)
    then show ?thesis
      using Some loc inv \<open>lookup k fd = Some s\<close>
      by (auto simp: tcp_poll_recv_vectored_def Let_def split_beta drain_into_length
          register_read_waker_def intro!: kinv_update_other split: option.splits)
  qed (use inv Some in \<open>simp add: tcp_poll_recv_vectored_def\<close>)
qed (use inv in \<open>simp add: tcp_poll_recv_vectored_def\<close>)

lemma tcp_poll_recv_safe:
  "kinv X k \<Longrightarrow> returns (tcp_poll_recv k fd w buf) (\<lambda>(r, buf', k'). kinv X k')"
  unfolding tcp_poll_recv_def returns_simps
  by (rule returns_mono [OF tcp_poll_recv_vectored_safe]) auto

lemma tcp_poll_peek_safe: "kinv X k \<Longrightarrow> kinv X (snd (snd (tcp_poll_peek k fd w buf)))"
  by (auto simp: tcp_poll_peek_def Let_def register_read_waker_def intro!: kinv_update_other
      split: option.splits)

section \<open>Datagram calls\<close>

lemma udp_recv_from_frame:
  "bound (snd (udp_recv_from s w n)) = bound s" "sk_domain (snd (udp_recv_from s w n)) = sk_domain s"
  "sk_ty (snd (udp_recv_from s w n)) = sk_ty s" "listen (snd (udp_recv_from s w n)) = listen s"
  "fd_closed (snd (udp_recv_from s w n)) = fd_closed s" "tcb (snd (udp_recv_from s w n)) = tcb s"
  by (simp_all add: udp_recv_from_def Let_def register_read_waker_def split: list.splits)

lemma udp_peek_from_frame:
  "bound (snd (udp_peek_from s w n)) = bound s" "sk_domain (snd (udp_peek_from s w n)) = sk_domain s"
  "sk_ty (snd (udp_peek_from s w n)) = sk_ty s" "listen (snd (udp_peek_from s w n)) = listen s"
  "fd_closed (snd (udp_peek_from s w n)) = fd_closed s" "tcb (snd (udp_peek_from s w n)) = tcb s"
  by (simp_all add: udp_peek_from_def Let_def register_read_waker_def split: list.splits)

lemma udp_recv_snd: "snd (udp_recv s w n) = snd (udp_recv_from s w n)"
  by (simp add: udp_recv_def split: prod.splits Poll.splits sum.splits)

lemma kinv_put_socket:
  assumes "kinv X k" "lookup k fd = Some s" "s' = snd (udp_recv_from s w n) \<or> s' = snd (udp_peek_from s w n)"
  shows "kinv X (modify fd (\<lambda>_. s') k)"
  using assms by (intro kinv_update [OF assms(1,2)]) (auto simp: udp_recv_from_frame udp_peek_from_frame)

lemma udp_send_to_safe:
  assumes inv: "kinv X k" and s: "lookup k fd = Some s" "sk_ty s = Dgram"
  shows "returns (udp_send_to k fd buf dst) (\<lambda>(r, k'). kinv X k')"
proof (cases "bound s")
  case None
  have "returns (udp_auto_bind k fd (sk_domain s) Dgram (sa_ip dst)) (\<lambda>(r, k'). kinv X k')"
    by (rule returns_mono [OF udp_auto_bind_safe [OF inv s(1) None refl]]) (use s in auto)
  then have "returns (udp_auto_bind k fd (sk_domain s) Dgram (sa_ip dst)) (\<lambda>(r, k1). returns
      (case r of Inl e \<Rightarrow> Some (Ready (Err e), k1) | Inr src_bind \<Rightarrow>
           Some (Ready (Ok (length buf)), push_outbound
             \<lparr>pkt_src = udp_src_ip k1 src_bind (sa_ip dst), pkt_dst = sa_ip dst, pkt_ttl = 64,
              pkt_payload = Udp \<lparr>ud_src_port = local_port src_bind, ud_dst_port = sa_port dst,
                                 ud_payload = buf\<rparr>\<rparr> k1)) (\<lambda>(r, k'). kinv X k'))"
    by (rule returns_mono) (auto split: sum.splits)
  then show ?thesis using s inv None by (simp add: udp_send_to_def case_prod_beta')
next
  case (Some key)
  then show ?thesis using s inv by (simp add: udp_send_to_def)
qed

lemma udp_connect_safe:
  assumes inv: "kinv X k" and s: "lookup k fd = Some s" "sk_ty s = Dgram"
    "family_matches (sk_domain s) peer"
  shows "returns (kernel_poll_connect k fd w (Addr_Inet peer)) (\<lambda>(r, k'). kinv X k')"
proof (cases "bound s")
  case (Some key)
  then show ?thesis using s inv by (simp add: kernel_poll_connect_def kinv_update_other)
next
  case None
  have "returns (udp_auto_bind k fd (sk_domain s) Dgram (sa_ip peer)) (\<lambda>(r, k1). returns
      (case r of Inl e \<Rightarrow> Some (Ready (Err e), k1) | Inr _ \<Rightarrow> do {
         _ \<leftarrow> lookup k1 fd;
         Some (Ready (Ok ()), modify fd (\<lambda>s. s\<lparr>sk_peer := Some (Addr_Inet peer)\<rparr>) k1) })
      (\<lambda>(r, k'). kinv X k'))"
    by (rule returns_mono [OF udp_auto_bind_safe [OF inv s(1) None refl]])
      (use s in \<open>auto split: sum.splits intro!: kinv_update_other\<close>)
  then show ?thesis
    using s None by (auto simp: kernel_poll_connect_def case_prod_beta' elim!: returns_mono split: sum.splits)
qed

section \<open>Bind, listen, accept\<close>

lemma bind_key_to_safe:
  assumes inv: "kinv X k"
  shows "returns (bind_key_to k key) (\<lambda>(r, k'). kinv X k')"
proof -
  let ?m = "mk_socket (bk_domain key) (bk_ty key) k"
  note mk = kinv_mk_socket [OF inv, of "bk_domain key" "bk_ty key"]
  have look: "lookup (snd ?m) (fst ?m) = Some (Socket_new (bk_domain key) (bk_ty key))"
    by (simp add: mk)
  have "kinv X (modify (fst ?m) (\<lambda>s. s\<lparr>bound := Some key\<rparr>)
      (put_table (insert_binding key (fst ?m) (table (snd ?m))) (snd ?m)))"
    by (rule auto_bind_socket [OF mk(1) look]) (simp_all add: Socket_new_def)
  then show ?thesis using inv look by (simp add: bind_key_to_def split_beta lookup_eq)
qed

lemma bind_port_safe:
  assumes "kinv X k"
  shows "returns (bind_port k d ty p) (\<lambda>(r, k'). kinv X k')"
proof -
  obtain q t where "allocate_port d ty (table k) = Some (q, t)" "kinv X (put_table t k)"
    using kinv_allocate_port [OF assms] by metis
  then show ?thesis using assms by (simp add: bind_port_def)
qed

lemma kernel_bind_safe:
  assumes inv: "kinv X k"
  shows "returns (kernel_bind k (Addr_Inet sa) ty) (\<lambda>(r, k'). kinv X k')"
proof -
  let ?d = "ip_domain (sa_ip sa)"
  have "returns (bind_port k ?d ty (sa_port sa)) (\<lambda>(port, k1). returns (case port of
      None \<Rightarrow> Some (Err (Kind AddrInUse), k1)
    | Some p \<Rightarrow> bind_key_to k1 \<lparr>bk_domain = ?d, bk_ty = ty, local_addr = sa_ip sa, local_port = p\<rparr>)
      (\<lambda>(r, k'). kinv X k'))"
    by (rule returns_mono [OF bind_port_safe [OF inv]]) (auto split: option.splits simp: bind_key_to_safe)
  then show ?thesis using inv by (simp add: kernel_bind_def Let_def case_prod_beta')
qed

lemma kinv_set_listen:
  assumes inv: "kinv X k" and s: "lookup k fd = Some s" "bound s \<noteq> None"
    and l: "distinct (ready l)" "set (ready l) \<subseteq> set (ready_of s)"
  shows "kinv X (modify fd (\<lambda>s. s\<lparr>listen := Some l\<rparr>) k)"
proof (rule kinv_modify [OF inv s(1)])
  show "sock_step False (send_buf_cap k) s (s\<lparr>listen := Some l\<rparr>)"
    using kinv_socket(2) [OF inv s(1)] s(2) l
    by (auto simp: sock_step_def sock_wf_def ready_of_def)
qed

lemma kernel_listen_safe:
  assumes inv: "kinv X k" and s: "\<And>s. lookup k fd = Some s \<Longrightarrow> sk_ty s = Stream \<and> bound s \<noteq> None"
  shows "returns (kernel_listen k fd n) (\<lambda>(r, k'). kinv X k')"
  using inv s by (auto simp: kernel_listen_def ListenState_new_def split: option.splits
      intro!: kinv_set_listen)

lemma kernel_poll_accept_safe:
  assumes inv: "kinv {} k" and s: "\<And>s. lookup k fd = Some s \<Longrightarrow> listen s \<noteq> None"
  shows "returns (kernel_poll_accept k fd w) (\<lambda>(r, k'). kinv {} k')"
proof (cases "lookup k fd")
  case (Some st)
  then obtain l where l: "listen st = Some l" using s by auto
  have b: "bound st \<noteq> None" using kinv_socket(2) [OF inv Some] l by (auto simp: sock_wf_def)
  have ready: "ready_of st = ready l" "distinct (ready l)"
    using l kinv_socket(3) [OF inv Some] by (auto simp: ready_of_def)
  show ?thesis
  proof (cases "ready l")
    case Nil
    then show ?thesis
      using Some l kinv_set_listen [OF inv Some b] by (simp add: kernel_poll_accept_def)
  next
    case (Cons child rest)
    let ?k = "modify fd (\<lambda>s. s\<lparr>listen := Some (l\<lparr>ready := rest\<rparr>)\<rparr>) k"
    have k: "kinv {} ?k" using ready Cons by (intro kinv_set_listen [OF inv Some b]) auto
    have "acceptable (lookup k) child"
      using kinv_socket(4) [OF inv Some, of child] ready Cons by simp
    then obtain c t where "lookup k child = Some c" "tcb c = Some t" by (auto simp: acceptable_def)
    then show ?thesis using k Some l Cons by (auto simp: kernel_poll_accept_def Let_def)
  qed
qed (use inv in \<open>simp add: kernel_poll_accept_def\<close>)

section \<open>Runs\<close>

text \<open>
  The calls a host makes on its kernel (the methods of \<^verbatim>\<open>impl Kernel\<close> that the shim and
  the fabric use), and when the code is meant to accept them: an application only closes
  descriptors it holds, uses a socket by its type, and does not connect a wildcard-bound
  stream; packets carry a concrete destination.
\<close>

datatype Call =
    Call_open Domain Type | Call_close Fd | Call_bind Addr Type | Call_set_option Fd SocketOption
  | Call_send_to Fd bytes Addr | Call_recv_from Fd waker nat | Call_peek_from Fd waker nat
  | Call_connect Fd waker Addr | Call_listen Fd nat | Call_accept Fd waker
  | Call_send Fd waker bytes | Call_recv Fd waker bytes | Call_try_recv_vectored Fd "bytes list"
  | Call_shutdown_write Fd | Call_peek Fd waker bytes
  | Call_add_address IpAddr | Call_deliver Packet | Call_egress

fun call :: "Kernel \<Rightarrow> Call \<Rightarrow> Kernel option" where
  "call k (Call_open d ty) = Some (snd (kernel_open k d ty))"
| "call k (Call_close fd) = kernel_close k fd"
| "call k (Call_bind a ty) = map_option snd (kernel_bind k a ty)"
| "call k (Call_set_option fd opt) = map_option snd (set_option k fd opt)"
| "call k (Call_send_to fd buf a) = map_option snd (kernel_poll_send_to k fd buf a)"
| "call k (Call_recv_from fd w n) = map_option snd (kernel_poll_recv_from k fd w n)"
| "call k (Call_peek_from fd w n) = map_option snd (kernel_poll_peek_from k fd w n)"
| "call k (Call_connect fd w a) = map_option snd (kernel_poll_connect k fd w a)"
| "call k (Call_listen fd n) = map_option snd (kernel_listen k fd n)"
| "call k (Call_accept fd w) = map_option snd (kernel_poll_accept k fd w)"
| "call k (Call_send fd w buf) = map_option snd (kernel_poll_send k fd w buf)"
| "call k (Call_recv fd w buf) = map_option (snd \<circ> snd) (kernel_poll_recv k fd w buf)"
| "call k (Call_try_recv_vectored fd bufs) = map_option (snd \<circ> snd) (kernel_try_recv_vectored k fd bufs)"
| "call k (Call_shutdown_write fd) = map_option snd (kernel_poll_shutdown_write k fd)"
| "call k (Call_peek fd w buf) = map_option (snd \<circ> snd) (kernel_poll_peek k fd w buf)"
| "call k (Call_add_address a) = Some (add_address a k)"
| "call k (Call_deliver p) = kernel_deliver k p"
| "call k Call_egress = map_option fst (kernel_egress k [])"

definition on_fd :: "Kernel \<Rightarrow> Fd \<Rightarrow> (Socket \<Rightarrow> bool) \<Rightarrow> bool" where
  "on_fd k fd P = (case lookup k fd of None \<Rightarrow> True | Some s \<Rightarrow> P s)"

fun is_inet :: "Addr \<Rightarrow> bool" where
  "is_inet (Addr_Inet _) = True"
| "is_inet (Addr_Unix _) = False"

fun admissible_call :: "Kernel \<Rightarrow> Call \<Rightarrow> bool" where
  "admissible_call k (Call_close fd) = held k fd"
| "admissible_call k (Call_bind a ty) = is_inet a"
| "admissible_call k (Call_set_option fd opt) =
     (case opt of Broadcast _ \<Rightarrow> True | IpTtl _ \<Rightarrow> True | TcpNoDelay _ \<Rightarrow> True | _ \<Rightarrow> False)"
| "admissible_call k (Call_send_to fd buf a) = (is_inet a \<and> on_fd k fd (\<lambda>s. sk_ty s = Dgram))"
| "admissible_call k (Call_recv_from fd w n) = on_fd k fd (\<lambda>s. sk_ty s = Dgram)"
| "admissible_call k (Call_peek_from fd w n) = on_fd k fd (\<lambda>s. sk_ty s = Dgram)"
| "admissible_call k (Call_connect fd w a) = (is_inet a \<and> on_fd k fd (\<lambda>s. sk_ty s \<noteq> SeqPacket \<and>
     (sk_ty s = Stream \<longrightarrow> tcb s = None \<longrightarrow>
       (case bound s of None \<Rightarrow> True | Some key \<Rightarrow> \<not> is_unspecified (local_addr key)))))"
| "admissible_call k (Call_listen fd n) = on_fd k fd (\<lambda>s. sk_ty s = Stream \<and> bound s \<noteq> None)"
| "admissible_call k (Call_accept fd w) = on_fd k fd (\<lambda>s. listen s \<noteq> None)"
| "admissible_call k (Call_send fd w buf) = on_fd k fd (\<lambda>s. sk_ty s \<noteq> SeqPacket \<and>
     (case sk_peer s of None \<Rightarrow> True | Some a \<Rightarrow> is_inet a))"
| "admissible_call k (Call_recv fd w buf) = on_fd k fd (\<lambda>s. sk_ty s \<noteq> SeqPacket)"
| "admissible_call k (Call_shutdown_write fd) = on_fd k fd (\<lambda>s. sk_ty s = Stream)"
| "admissible_call k (Call_peek fd w buf) = on_fd k fd (\<lambda>s. sk_ty s \<noteq> SeqPacket)"
| "admissible_call k (Call_add_address a) = (\<not> is_unspecified a)"
| "admissible_call k (Call_deliver p) = (\<not> is_unspecified (pkt_dst p))"
| "admissible_call k c = True"

lemma returns_map [simp]: "returns (map_option f m) P = returns m (P \<circ> f)"
  by (cases m) auto

lemma kernel_poll_send_safe:
  assumes inv: "kinv {} k" and a: "admissible_call k (Call_send fd w buf)"
  shows "returns (kernel_poll_send k fd w buf) (\<lambda>(r, k'). kinv {} k')"
proof (cases "lookup k fd")
  case (Some s)
  have "kinv {} k'" if "tcp_poll_send k fd w buf = (r, k')" for r k'
    using tcp_poll_send_safe [OF inv, of fd w buf] that by simp
  then show ?thesis
    using Some inv a udp_send_to_safe [OF inv Some]
    by (cases "sk_ty s") (auto simp: kernel_poll_send_def on_fd_def split: option.splits Addr.splits prod.splits)
qed (use inv in \<open>simp add: kernel_poll_send_def\<close>)

lemma kernel_poll_connect_safe:
  assumes inv: "kinv {} k" and a: "admissible_call k (Call_connect fd w a)"
  shows "returns (kernel_poll_connect k fd w a) (\<lambda>(r, k'). kinv {} k')"
proof -
  obtain peer where peer: "a = Addr_Inet peer" using a by (cases a) auto
  show ?thesis
  proof (cases "lookup k fd")
    case (Some s)
    consider (fam) "\<not> family_matches (sk_domain s) peer"
      | (dgram) "family_matches (sk_domain s) peer" "sk_ty s = Dgram"
      | (stream) "family_matches (sk_domain s) peer" "sk_ty s = Stream"
      using a Some by (cases "sk_ty s") (auto simp: on_fd_def)
    then show ?thesis
    proof cases
      case fam
      then show ?thesis using Some inv peer by (simp add: kernel_poll_connect_def)
    next
      case dgram
      then show ?thesis using udp_connect_safe [OF inv Some] peer by simp
    next
      case stream
      have "returns (tcp_poll_connect k fd w (sk_domain s) peer (bound s \<noteq> None)) (\<lambda>(r, k'). kinv {} k')"
        using a Some stream by (intro tcp_poll_connect_safe [OF inv Some]) (auto simp: on_fd_def)
      then show ?thesis using Some stream peer by (simp add: kernel_poll_connect_def)
    qed
  qed (use inv peer in \<open>simp add: kernel_poll_connect_def\<close>)
qed

lemma dgram_recv_safe:
  assumes inv: "kinv X k" and s: "lookup k fd = Some s"
  shows "udp_recv s w n = (r, s') \<Longrightarrow> kinv X (modify fd (\<lambda>_. s') k)"
    "udp_recv_from s w n = (r', s') \<Longrightarrow> kinv X (modify fd (\<lambda>_. s') k)"
    "udp_peek_from s w n = (r', s') \<Longrightarrow> kinv X (modify fd (\<lambda>_. s') k)"
  using kinv_put_socket [OF inv s, of s' w n] udp_recv_snd [of s w n] by auto

lemma kernel_poll_recv_safe:
  assumes inv: "kinv {} k" and a: "on_fd k fd (\<lambda>s. sk_ty s \<noteq> SeqPacket)"
  shows "returns (kernel_poll_recv k fd w buf) (\<lambda>(r, buf', k'). kinv {} k')"
    "returns (kernel_poll_peek k fd w buf) (\<lambda>(r, buf', k'). kinv {} k')"
proof -
  have peek: "kinv {} k'" if "tcp_poll_peek k fd w buf = (r, b, k')" for r b k'
    using tcp_poll_peek_safe [OF inv, of fd w buf] that by simp
  show "returns (kernel_poll_recv k fd w buf) (\<lambda>(r, buf', k'). kinv {} k')"
    using inv a tcp_poll_recv_safe [OF inv, of fd w buf]
    by (auto simp: kernel_poll_recv_def on_fd_def Let_def dgram_recv_safe split: option.splits Type.splits
        prod.splits Poll.splits sum.splits)
  show "returns (kernel_poll_peek k fd w buf) (\<lambda>(r, buf', k'). kinv {} k')"
    using inv a peek
    by (auto simp: kernel_poll_peek_def on_fd_def Let_def dgram_recv_safe split: option.splits Type.splits
        prod.splits Poll.splits sum.splits)
qed

lemma set_option_safe:
  assumes "kinv X k" "admissible_call k (Call_set_option fd opt)"
  shows "returns (set_option k fd opt) (\<lambda>(r, k'). kinv X k')"
  using assms by (auto simp: set_option_def kinv_update_other split: option.splits SocketOption.splits)

lemma dgram_calls_safe:
  assumes inv: "kinv X k" and a: "on_fd k fd (\<lambda>s. sk_ty s = Dgram)"
  shows "returns (kernel_poll_recv_from k fd w n) (\<lambda>(r, k'). kinv X k')"
    "returns (kernel_poll_peek_from k fd w n) (\<lambda>(r, k'). kinv X k')"
    "returns (kernel_poll_send_to k fd buf (Addr_Inet dst)) (\<lambda>(r, k'). kinv X k')"
  using inv a
  by (auto simp: kernel_poll_recv_from_def kernel_poll_peek_from_def kernel_poll_send_to_def on_fd_def
      dgram_recv_safe udp_send_to_safe split: option.splits prod.splits)

lemma kernel_try_recv_vectored_safe:
  assumes inv: "kinv X k"
  shows "returns (kernel_try_recv_vectored k fd bufs) (\<lambda>(r, b, k'). kinv X k')"
proof -
  have "returns (tcp_poll_recv_vectored k fd None bufs)
     (\<lambda>(r, b, k1). returns (Some (case r of Ready x \<Rightarrow> x | Pending \<Rightarrow> Err (Kind WouldBlock), b, k1))
        (\<lambda>(r, b, k'). kinv X k'))"
    by (rule returns_mono [OF tcp_poll_recv_vectored_safe [OF inv]]) auto
  then show ?thesis
    using inv by (auto simp: kernel_try_recv_vectored_def case_prod_beta' split: option.splits)
qed

lemma kernel_shutdown_safe:
  assumes "kinv X k" "on_fd k fd (\<lambda>s. sk_ty s = Stream)"
  shows "returns (kernel_poll_shutdown_write k fd) (\<lambda>(r, k'). kinv X k')"
  using assms tcp_poll_shutdown_safe [OF assms(1), of fd]
  by (auto simp: kernel_poll_shutdown_write_def on_fd_def split: option.splits prod.splits)

lemma kinv_add_address: "kinv X k \<Longrightarrow> \<not> is_unspecified a \<Longrightarrow> kinv X (add_address a k)"
  by (simp add: add_address_def kinv_def mtu_ok_def)

lemma call_safe:
  assumes inv: "kernel_inv k" and a: "admissible_call k c"
  shows "returns (call k c) kernel_inv"
proof -
  have k: "kinv {} k" using inv by (simp add: kernel_inv_def)
  have eq: "kernel_inv = kinv {}" by (rule ext) (simp add: kernel_inv_def)
  show ?thesis
  proof (cases c)
    case (Call_bind addr ty)
    then obtain sa where "addr = Addr_Inet sa" using a by (cases addr) auto
    then show ?thesis
      using Call_bind kernel_bind_safe [OF k, of sa ty] by (simp add: eq case_prod_beta' comp_def)
  next
    case (Call_send_to fd buf addr)
    then obtain sa where "addr = Addr_Inet sa" using a by (cases addr) auto
    then show ?thesis
      using Call_send_to a dgram_calls_safe(3) [OF k, of fd buf sa] by (simp add: eq case_prod_beta' comp_def)
  next
    case (Call_deliver p)
    then show ?thesis using a kernel_deliver_safe [OF inv] by simp
  next
    case (Call_listen fd n)
    then show ?thesis
      using a kernel_listen_safe [OF k, of fd n] by (simp add: eq on_fd_def case_prod_beta' comp_def
          split: option.splits)
  next
    case (Call_accept fd w)
    then show ?thesis
      using a kernel_poll_accept_safe [OF k, of fd w] by (simp add: eq on_fd_def case_prod_beta' comp_def
          split: option.splits)
  next
    case Call_egress
    then show ?thesis using kernel_egress_safe [OF inv, of "[]"] by (simp add: case_prod_beta' comp_def)
  qed (use a k in \<open>simp_all add: eq comp_def kernel_open_def kinv_mk_socket kernel_close_safe
      kernel_poll_send_safe [unfolded case_prod_beta'] kernel_poll_connect_safe [unfolded case_prod_beta']
      kernel_poll_recv_safe [unfolded case_prod_beta'] set_option_safe [unfolded case_prod_beta']
      dgram_calls_safe [unfolded case_prod_beta'] kernel_try_recv_vectored_safe [unfolded case_prod_beta']
      kernel_shutdown_safe [unfolded case_prod_beta'] kinv_add_address\<close>)
qed

interpretation kernel_run: invariant_system call kernel_inv admissible_call
  using call_safe by unfold_locales (fastforce simp: returns_def)+

section \<open>Safety of a host\<close>

text \<open>
  C1. A host never panics and never hangs. From a kernel built with any valid configuration
  (both MTUs hold a TCP header and a byte, the send buffer is below the sequence space),
  every sequence of system calls, inbound packets and egress passes that uses sockets as the
  code documents returns, and the socket table is consistent after every one of them.
\<close>

theorem kernel_run_safe:
  assumes "cfg_send_buf_cap cfg < 2 ^ 32 - 1" "60 < cfg_mtu cfg" "60 < cfg_loopback_mtu cfg"
    and "kernel_run.admissible_run (Kernel_with_config cfg) calls"
  shows "\<exists>k. kernel_run.run (Kernel_with_config cfg) calls = Some k \<and> kernel_inv k"
  using kernel_inv_new [OF assms(1-3)] assms(4) by (rule kernel_run.run_inv)

text \<open>A server: bind and listen on port 80, then the three segments of a client's handshake.\<close>

definition demo_packet :: "TcpFlags \<Rightarrow> u32 \<Rightarrow> u32 \<Rightarrow> bytes \<Rightarrow> Packet" where
  "demo_packet fl sq ak d =
     \<lparr>pkt_src = V4 0x0A000002, pkt_dst = V4 0x0A000001, pkt_ttl = 64, pkt_payload = Tcp
        \<lparr>seg_src_port = 5000, seg_dst_port = 80, seg_seq = sq, seg_ack = ak, seg_flags = fl,
         seg_window = 1000, seg_payload = d\<rparr>\<rparr>"

definition demo_calls :: "Call list" where
  "demo_calls =
     [Call_add_address (V4 0x0A000001),
      Call_bind (Addr_Inet (SocketAddr (V4 0) 80)) Stream, Call_listen 1 16,
      Call_deliver (demo_packet (no_flags\<lparr>fl_syn := True\<rparr>) 100 0 []), Call_egress,
      Call_deliver (demo_packet (no_flags\<lparr>fl_ack := True\<rparr>) 101 0x01000001 [1, 2, 3]), Call_egress]"

lemma demo_calls_admissible:
  "kernel_run.admissible_run (Kernel_with_config KernelConfig_default) demo_calls"
  by (auto simp: demo_calls_def demo_packet_def Kernel_with_config_def config_defs kernel_bind_def bind_port_def
      bind_key_to_def bind_conflict_def bindings_on_port_def SocketTable_new_def mk_socket_def st_insert_def
      add_address_def put_table_def insert_binding_def find_by_bind_def lookup_def st_get_def modify_def st_modify_def
      on_fd_def Socket_new_def Let_def ip_domain_def split: option.splits)

theorem kernel_run_safe_witness:
  "\<exists>k. kernel_run.run (Kernel_with_config KernelConfig_default) demo_calls = Some k \<and> kernel_inv k"
  by (rule kernel_run_safe) (rule demo_calls_admissible | simp add: config_defs)+

text \<open>
  One egress pass terminates on every consistent state, however the host talks to itself
  over loopback: the retransmission sweep, every round of segmentation and local delivery,
  and the reaping of closed sockets return, and the table is consistent afterwards.
\<close>

theorem kernel_egress_terminates:
  assumes "kernel_inv k"
  shows "\<exists>k' out'. kernel_egress k out = Some (k', out') \<and> kernel_inv k'"
  using kernel_egress_safe [OF assms, of out] by (auto simp: returns_def)

theorem kernel_egress_terminates_witness:
  "\<exists>k' out'. kernel_egress (Kernel_with_config KernelConfig_default) [] = Some (k', out') \<and> kernel_inv k'"
  by (rule kernel_egress_terminates, rule kernel_inv_new) (simp_all add: config_defs)

text \<open>
  Any packet with a concrete destination can be delivered: whatever the flags, sequence
  numbers, window and payload of a segment, the state machine does not panic (no failed
  lookup, no split past the end of a send buffer, no half-filled connection index) and keeps
  the table consistent.
\<close>

theorem kernel_deliver_total:
  assumes "kernel_inv k" "\<not> is_unspecified (pkt_dst pkt)"
  shows "\<exists>k'. kernel_deliver k pkt = Some k' \<and> kernel_inv k'"
  using kernel_deliver_safe [OF assms] by (auto simp: returns_def)

theorem kernel_deliver_total_witness:
  "\<exists>k'. kernel_deliver (Kernel_with_config KernelConfig_default)
          (demo_packet (no_flags\<lparr>fl_syn := True\<rparr>) 100 0 []) = Some k' \<and> kernel_inv k'"
  by (rule kernel_deliver_total, rule kernel_inv_new) (simp_all add: config_defs demo_packet_def)

end
