(* ===== verification/Tcp_Stream.thy ===== *)
theory Tcp_Stream
  imports Kernel_Runs "HOL-Library.Sublist"
begin

text \<open>
  The byte stream of one direction of a connection, end to end: a sending and a receiving
  control block joined by a network that may lose, duplicate, delay and reorder segments.
  The steps are the stages of \<^verbatim>\<open>tcp.rs\<close> on single control blocks (\<^verbatim>\<open>poll_send\<close>,
  \<^verbatim>\<open>poll_shutdown_write\<close>, \<^verbatim>\<open>segment_one\<close>, \<^verbatim>\<open>check_retx\<close>, \<^verbatim>\<open>handle_established\<close>,
  \<^verbatim>\<open>poll_recv\<close>, \<^verbatim>\<open>abort_with\<close>). Segments of the other direction are arbitrary, so the
  result does not depend on the peer's acknowledgements being honest.
\<close>

section \<open>The system\<close>

text \<open>The control block \<^verbatim>\<open>handle_established\<close> stores for an inbound segment.\<close>

definition rx :: "nat \<Rightarrow> TcpSegment \<Rightarrow> Tcb \<Rightarrow> Tcb option" where
  "rx cap s t = map_option (\<lambda>t1. fst (est_fin s (fst (est_data cap s t1)))) (est_ack s t)"

lemma handle_established_rx:
  assumes "lookup k fd = Some st" "tcb st = Some t" "handle_established fd loc rem s k = Some k'"
  shows "\<exists>st'. lookup k' fd = Some st' \<and> tcb st' = rx (recv_buf_cap k) s t"
  using assms by (auto simp: handle_established_def rx_def bind_Some_iff Let_def split_beta split: if_splits)

record Stream =
  src :: Tcb
  dst :: Tcb
  wire :: "TcpSegment set"
  written :: bytes
  got :: bytes

definition stream_start :: "u32 \<Rightarrow> nat \<Rightarrow> Stream \<Rightarrow> bool" where
  "stream_start s0 cap n \<longleftrightarrow>
     snd_una (src n) = s0 \<and> snd_nxt (src n) = s0 \<and> send_buf (src n) = [] \<and> fin_seq (src n) = None \<and>
     \<not> wr_closed (src n) \<and> tcb_state (src n) = Established \<and> cap < 2 ^ 32 - 1 \<and>
     rcv_nxt (dst n) = s0 \<and> recv_buf (dst n) = [] \<and> \<not> peer_fin (dst n) \<and>
     tcb_state (dst n) = Established \<and> wire n = {} \<and> written n = [] \<and> got n = []"

inductive stream_step :: "nat \<Rightarrow> Stream \<Rightarrow> Stream \<Rightarrow> bool" for cap where
  send: "\<not> wr_closed (src n) \<Longrightarrow> tcb_state (src n) \<in> {Established, CloseWait} \<Longrightarrow>
     length d \<le> cap - length (send_buf (src n)) \<Longrightarrow> length (written n) + length d < 2 ^ 32 - 1 \<Longrightarrow>
     stream_step cap n (n\<lparr>src := (src n)\<lparr>send_buf := send_buf (src n) @ d\<rparr>, written := written n @ d\<rparr>)"
| shutdown: "\<not> wr_closed (src n) \<Longrightarrow> stream_step cap n (n\<lparr>src := queue_fin (src n)\<rparr>)"
| segment: "tcb_state (src n) \<noteq> Closed \<Longrightarrow> segment_next mss (src n) = Some (sq, p, f, t') \<Longrightarrow>
     stream_step cap n (n\<lparr>src := t', wire := insert (data_segment loc rcap t' sq p f) (wire n)\<rparr>)"
| retransmit: "tcb_state (src n) \<noteq> Closed \<Longrightarrow>
     stream_step cap n (n\<lparr>src := fst (retx_one th mx (src n))\<rparr>)"
| peer_segment: "tcb_state (src n) \<noteq> Closed \<Longrightarrow> rx rcap s (src n) = Some t' \<Longrightarrow>
     stream_step cap n (n\<lparr>src := t'\<rparr>)"
| deliver: "s \<in> wire n \<Longrightarrow> tcb_state (dst n) \<noteq> Closed \<Longrightarrow> rx rcap s (dst n) = Some t' \<Longrightarrow>
     stream_step cap n (n\<lparr>dst := t'\<rparr>)"
| read: "stream_step cap n (n\<lparr>dst := (dst n)\<lparr>recv_buf := drop m (recv_buf (dst n))\<rparr>,
     got := got n @ take m (recv_buf (dst n))\<rparr>)"
| abort_src: "stream_step cap n (n\<lparr>src := abort_tcb r (src n)\<rparr>)"
| abort_dst: "stream_step cap n (n\<lparr>dst := abort_tcb r (dst n)\<rparr>)"

inductive_cases stream_stepE: "stream_step cap n n'"

section \<open>The invariant\<close>

text \<open>The send buffer is the unacknowledged suffix of what was written.\<close>

definition src_inv :: "u32 \<Rightarrow> nat \<Rightarrow> bytes \<Rightarrow> Tcb \<Rightarrow> bool" where
  "src_inv s0 cap w t \<longleftrightarrow> tcb_wf cap t \<and> cap < 2 ^ 32 - 1 \<and> length w < 2 ^ 32 - 1 \<and>
     (tcb_state t \<noteq> Closed \<longrightarrow> (\<exists>a. w = a @ send_buf t \<and>
        (snd_una t = s0 + of_nat (length a) \<or> send_buf t = [] \<and> snd_nxt t = snd_una t \<and>
           (\<exists>fs. fin_seq t = Some fs \<and> fs + 1 = snd_una t))))"

text \<open>Every segment ever sent carries a slice of the stream at its sequence number.\<close>

definition seg_inv :: "u32 \<Rightarrow> bytes \<Rightarrow> bool \<Rightarrow> TcpSegment \<Rightarrow> bool" where
  "seg_inv s0 w closed s \<longleftrightarrow> (\<exists>off. seg_seq s = s0 + of_nat off \<and> off \<le> length w \<and>
     prefix (seg_payload s) (drop off w) \<and>
     (fl_fin (seg_flags s) \<longrightarrow> seg_payload s = [] \<and> off = length w \<and> closed))"

definition dst_inv :: "u32 \<Rightarrow> bytes \<Rightarrow> bool \<Rightarrow> bytes \<Rightarrow> Tcb \<Rightarrow> bool" where
  "dst_inv s0 w closed g t \<longleftrightarrow> prefix (g @ recv_buf t) w \<and>
     (tcb_state t \<noteq> Closed \<longrightarrow> \<not> peer_fin t \<longrightarrow> rcv_nxt t = s0 + of_nat (length (g @ recv_buf t))) \<and>
     (peer_fin t \<longrightarrow> abort_error t = None \<longrightarrow> g @ recv_buf t = w \<and> closed)"

definition stream_inv :: "u32 \<Rightarrow> nat \<Rightarrow> Stream \<Rightarrow> bool" where
  "stream_inv s0 cap n \<longleftrightarrow> src_inv s0 cap (written n) (src n) \<and>
     (\<forall>s \<in> wire n. seg_inv s0 (written n) (wr_closed (src n)) s) \<and>
     dst_inv s0 (written n) (wr_closed (src n)) (got n) (dst n)"

lemma stream_start_inv: "stream_start s0 cap n \<Longrightarrow> stream_inv s0 cap n"
  by (auto simp: stream_start_def stream_inv_def src_inv_def dst_inv_def tcb_wf_def fin_wf_def in_flight_def)

lemma rx_src:
  assumes inv: "src_inv s0 cap w t" and st: "tcb_state t \<noteq> Closed" and r: "rx rcap s t = Some t'"
  shows "src_inv s0 cap w t' \<and> wr_closed t' = wr_closed t"
proof -
  have wf: "tcb_wf cap t" "cap < 2 ^ 32 - 1" using inv by (auto simp: src_inv_def)
  have fw: "fin_wf t" using wf st by (simp add: tcb_wf_def)
  let ?n = "newly_acked s t"
  obtain t1 where t1: "est_ack s t = Some t1" and t': "t' = fst (est_fin s (fst (est_data rcap s t1)))"
    using r by (auto simp: rx_def)
  have step: "tcb_step cap t t1" using est_ack_step [OF wf st, of s] t1 by (metis option.inject)
  have wf': "tcb_wf cap t'"
    using step est_data_step [of cap t1 rcap s] unfolding t' by (auto simp: tcb_step_def intro: fin_acked_tcb_wf)
  have f: "send_buf t' = send_buf t1" "snd_una t' = snd_una t1" "snd_nxt t' = snd_nxt t1"
    "fin_seq t' = fin_seq t1" "wr_closed t' = wr_closed t1" "tcb_state t1 = Closed \<Longrightarrow> tcb_state t' = Closed"
    by (auto simp: t' est_fin_def est_data_def Let_def fin_received_state_def)
  have t1': "send_buf t1 = drop ?n (send_buf t)" "snd_una t1 = snd_una t + of_nat ?n"
    "snd_nxt t1 = snd_nxt t" "fin_seq t1 = fin_seq t" "wr_closed t1 = wr_closed t"
    using t1 unfolding est_ack_eq [OF wf st] by (auto simp: newly_acked_def split: if_splits)
  obtain a where a: "w = a @ send_buf t" and una: "snd_una t = s0 + of_nat (length a) \<or>
      send_buf t = [] \<and> snd_nxt t = snd_una t \<and> (\<exists>fs. fin_seq t = Some fs \<and> fs + 1 = snd_una t)"
    using inv st by (auto simp: src_inv_def)
  have "\<exists>a. w = a @ send_buf t1 \<and> (snd_una t1 = s0 + of_nat (length a) \<or> send_buf t1 = [] \<and>
      snd_nxt t1 = snd_una t1 \<and> (\<exists>fs. fin_seq t1 = Some fs \<and> fs + 1 = snd_una t1))"
  proof (cases "?n \<le> length (send_buf t)")
    case True
    have "w = (a @ take ?n (send_buf t)) @ send_buf t1" using a by (simp add: t1'(1))
    moreover have "?n = 0" if "snd_nxt t = snd_una t"
      using newly_acked_le [of s t] that by (simp add: in_flight_def)
    ultimately show ?thesis
      using una True by (intro exI [of _ "a @ take ?n (send_buf t)"]) (auto simp: t1' add.assoc)
  next
    case False
    then have n: "fin_seq t = Some (snd_una t + of_nat (length (send_buf t)))"
      "?n = Suc (length (send_buf t))" "in_flight t = ?n"
      using acked_in_buf [OF fw, of s] by auto
    then have "snd_nxt t = snd_una t1" using snd_nxt_in_flight [of t] t1'(2) by simp
    then show ?thesis using n a by (intro exI [of _ w]) (auto simp: t1' add.assoc add.commute)
  qed
  then show ?thesis using inv wf' f t1'(5) by (auto simp: src_inv_def)
qed

lemma seg_inv_mono:
  "seg_inv s0 w c s \<Longrightarrow> (c \<longrightarrow> d = [] \<and> c') \<Longrightarrow> seg_inv s0 (w @ d) c' s"
  unfolding seg_inv_def by (auto intro: prefix_prefix)

lemma segment_seg_inv:
  assumes inv: "src_inv s0 cap w t" and st: "tcb_state t \<noteq> Closed"
    and seg: "segment_next mss t = Some (sq, p, f, t')"
  shows "seg_inv s0 w (wr_closed t') (data_segment loc rcap t' sq p f)" "wr_closed t' = wr_closed t"
proof -
  obtain a where a: "w = a @ send_buf t" and una: "snd_una t = s0 + of_nat (length a) \<or>
      send_buf t = [] \<and> snd_nxt t = snd_una t \<and> (\<exists>fs. fin_seq t = Some fs \<and> fs + 1 = snd_una t)"
    using inv st by (auto simp: src_inv_def)
  have wf: "fin_wf t" "length (send_buf t) < 2 ^ 32 - 1" "fin_seq t \<noteq> None \<longrightarrow> wr_closed t"
    using inv st a by (auto simp: src_inv_def tcb_wf_def)
  obtain nn where nn: "t' = t\<lparr>snd_nxt := nn\<rparr>" using seg by (rule segment_next_frame)
  then show "wr_closed t' = wr_closed t" by simp
  from seg show "seg_inv s0 w (wr_closed t') (data_segment loc rcap t' sq p f)"
  proof (cases rule: segment_next_cases)
    case (data n)
    then have u: "snd_una t = s0 + of_nat (length a)" using una by (auto simp: unsent_len_def)
    have "in_flight t \<le> length (send_buf t)" using data(3) by (simp add: unsent_len_def)
    moreover have "sq = s0 + of_nat (length a + in_flight t)"
      using data(5) u snd_nxt_in_flight [of t] by (simp add: add.assoc)
    ultimately show ?thesis
      using data(1,6) a unfolding seg_inv_def data_segment_def
      by (intro exI [of _ "length a + in_flight t"]) (simp add: no_flags_def take_is_prefix)
  next
    case fin
    note p = fin_pending_wf [OF wf(1) fin(2) wf(2)]
    have "snd_una t = s0 + of_nat (length a)" using una p(2) by auto
    then have "sq = s0 + of_nat (length w)" using fin(5) p(3) a by (simp add: add.assoc)
    then show ?thesis
      using fin(1,6) wf(3) p(2) nn unfolding seg_inv_def data_segment_def
      by (intro exI [of _ "length w"]) (simp add: no_flags_def)
  qed
qed

lemma rx_dst:
  assumes inv: "dst_inv s0 w c g t" and st: "tcb_state t \<noteq> Closed" and sg: "seg_inv s0 w c s"
    and len: "length w < 2 ^ 32 - 1" and r: "rx rcap s t = Some t'"
  shows "dst_inv s0 w c g t'"
proof -
  obtain t1 where t1: "est_ack s t = Some t1" and t': "t' = fst (est_fin s (fst (est_data rcap s t1)))"
    using r by (auto simp: rx_def)
  have f: "recv_buf t1 = recv_buf t" "rcv_nxt t1 = rcv_nxt t" "peer_fin t1 = peer_fin t"
    "abort_error t1 = abort_error t"
    using t1 by (auto simp: est_ack_def bind_Some_iff Let_def abort_error_def split: if_splits)
  have pre: "prefix (g @ recv_buf t) w" using inv by (simp add: dst_inv_def)
  show ?thesis
  proof (cases "peer_fin t")
    case True
    then have "recv_buf t' = recv_buf t" "peer_fin t'" "abort_error t' = abort_error t"
      using f by (auto simp: t' est_fin_def est_data_def abort_error_def)
    then show ?thesis using inv True by (simp add: dst_inv_def)
  next
    case False
    let ?r = "length (g @ recv_buf t)"
    have nxt: "rcv_nxt t = s0 + of_nat ?r" using inv st False by (simp add: dst_inv_def)
    obtain off where off: "seg_seq s = s0 + of_nat off" "off \<le> length w" "prefix (seg_payload s) (drop off w)"
      "fl_fin (seg_flags s) \<longrightarrow> seg_payload s = [] \<and> off = length w \<and> c"
      using sg by (auto simp: seg_inv_def)
    have "?r \<le> length w" using pre by (rule prefix_length_le)
    then have eq: "seg_seq s = rcv_nxt t \<longleftrightarrow> off = ?r"
      using off(1,2) nxt len u32_of_nat_inj [of off ?r] by simp
    define d where "d = est_data rcap s t1"
    have d: "dst_inv s0 w c g (fst d) \<and> (seg_payload s = [] \<longrightarrow> fst d = t1)"
    proof (cases "snd d")
      case True
      define n where "n = min (length (seg_payload s)) (rcap - length (recv_buf t1))"
      have n: "fst d = t1\<lparr>recv_buf := recv_buf t @ take n (seg_payload s),
          rcv_nxt := rcv_nxt t + of_nat n\<rparr>" "seg_seq s = rcv_nxt t" "seg_payload s \<noteq> []"
        using True unfolding d_def est_data_def Let_def n_def [symmetric]
        by (simp_all add: f split: if_splits)
      have nl: "n \<le> length (seg_payload s)" by (simp add: n_def)
      have "prefix (take n (seg_payload s)) (drop ?r w)"
        using off(3) eq n(2) take_is_prefix [of n "seg_payload s"] by (metis prefix_order.trans)
      moreover have "w = (g @ recv_buf t) @ drop ?r w" using pre by (metis append_eq_conv_conj prefixE)
      ultimately have "prefix ((g @ recv_buf t) @ take n (seg_payload s)) w" by (metis same_prefix_prefix)
      then show ?thesis using n nl False f nxt by (simp add: dst_inv_def add.assoc min_absorb2)
    next
      case no: False
      then have "fst d = t1" by (auto simp: d_def est_data_def Let_def split: if_splits)
      then show ?thesis using inv False f st nxt by (simp add: dst_inv_def)
    qed
    show ?thesis
    proof (cases "snd (est_fin s (fst d))")
      case True
      then have fin: "fl_fin (seg_flags s)" "seg_seq s + of_nat (length (seg_payload s)) = rcv_nxt (fst d)"
        by (auto simp: est_fin_def split: if_splits)
      then have "seg_payload s = []" "off = length w" "c" using off(4) by auto
      moreover have "fst d = t1" using d calculation(1) by blast
      ultimately have "seg_seq s = rcv_nxt t" using fin(2) f(2) by simp
      then have "length w = ?r" using eq \<open>off = length w\<close> by simp
      then have w: "g @ recv_buf t = w" using pre by (auto simp: prefix_def)
      have t'': "t' = t1\<lparr>peer_fin := True, rcv_nxt := rcv_nxt t1 + 1,
          tcb_state := fin_received_state (tcb_state t1)\<rparr>"
        using True \<open>fst d = t1\<close> unfolding t' d_def [symmetric] by (auto simp: est_fin_def split: if_splits)
      then have "recv_buf t' = recv_buf t" "peer_fin t'" using f by simp_all
      then show ?thesis using w \<open>c\<close> by (simp add: dst_inv_def)
    next
      case nof: False
      then have "t' = fst d" by (auto simp: t' d_def est_fin_def split: if_splits)
      then show ?thesis using d by simp
    qed
  qed
qed

section \<open>Every step keeps the invariant\<close>

lemma src_inv_closed_frame:
  "src_inv s0 cap w t \<Longrightarrow> tcb_wf cap t' \<Longrightarrow> tcb_state t' = Closed \<Longrightarrow> src_inv s0 cap w t'"
  by (simp add: src_inv_def)

lemma src_inv_send:
  assumes "src_inv s0 cap w t" "\<not> wr_closed t" "length d \<le> cap - length (send_buf t)"
    "length w + length d < 2 ^ 32 - 1"
  shows "src_inv s0 cap (w @ d) (t\<lparr>send_buf := send_buf t @ d\<rparr>)"
proof -
  have wf: "tcb_wf cap t" using assms(1) by (simp add: src_inv_def)
  then have "fin_seq t = None" using assms(2) by (auto simp: tcb_wf_def)
  moreover have "tcb_wf cap (t\<lparr>send_buf := send_buf t @ d\<rparr>)"
    using send_step [OF wf assms(2,3)] by (simp add: tcb_step_def)
  ultimately show ?thesis using assms(1,4) by (auto simp: src_inv_def)
qed

lemma src_inv_queue_fin:
  assumes "src_inv s0 cap w t" "\<not> wr_closed t"
  shows "src_inv s0 cap w (queue_fin t)"
proof -
  have wf: "tcb_wf cap t" using assms(1) by (simp add: src_inv_def)
  then have "fin_seq t = None" using assms(2) by (auto simp: tcb_wf_def)
  moreover have "tcb_wf cap (queue_fin t)" using queue_fin_step [OF wf assms(2)] by (simp add: tcb_step_def)
  moreover have "send_buf (queue_fin t) = send_buf t" "snd_una (queue_fin t) = snd_una t"
    "tcb_state (queue_fin t) = Closed \<longleftrightarrow> tcb_state t = Closed"
    by (simp_all add: queue_fin_def)
  ultimately show ?thesis using assms(1) by (auto simp: src_inv_def)
qed

lemma src_inv_nxt:
  assumes "src_inv s0 cap w t" "tcb_step cap t t'" "snd_una t' = snd_una t" "send_buf t' = send_buf t"
    "fin_seq t' = fin_seq t" "tcb_state t' = tcb_state t"
    "snd_nxt t = snd_una t \<Longrightarrow> send_buf t = [] \<Longrightarrow> fin_seq t = Some (snd_una t - 1) \<Longrightarrow> snd_nxt t' = snd_una t"
  shows "src_inv s0 cap w t'"
  using assms unfolding src_inv_def tcb_step_def by (auto simp: algebra_simps)

lemma src_inv_segment:
  assumes "src_inv s0 cap w t" "tcb_state t \<noteq> Closed" "segment_next mss t = Some (sq, p, f, t')"
  shows "src_inv s0 cap w t'"
proof -
  have wf: "tcb_wf cap t" "cap < 2 ^ 32 - 1" using assms(1) by (auto simp: src_inv_def)
  obtain nn where nn: "t' = t\<lparr>snd_nxt := nn\<rparr>" using assms(3) by (rule segment_next_frame)
  have "\<not> fin_pending t" if "snd_nxt t = snd_una t" "fin_seq t = Some (snd_una t - 1)"
    using that by (simp add: fin_pending_def)
  then have "segment_next mss t = None"
    if "snd_nxt t = snd_una t" "send_buf t = []" "fin_seq t = Some (snd_una t - 1)"
    using that by (simp add: segment_next_def Let_def)
  then show ?thesis
    using assms(3) segment_next_step [OF wf assms(2,3)] by (intro src_inv_nxt [OF assms(1)]) (auto simp: nn)
qed

lemma retx_one_frame:
  "snd_una (fst (retx_one th mx t)) = snd_una t" "send_buf (fst (retx_one th mx t)) = send_buf t"
  "fin_seq (fst (retx_one th mx t)) = fin_seq t"
  "snd_nxt (fst (retx_one th mx t)) \<in> {snd_nxt t, snd_una t}"
  by (simp_all add: retx_one_def Let_def)

lemma src_inv_retx:
  assumes inv: "src_inv s0 cap w t"
  shows "src_inv s0 cap w (fst (retx_one th mx t))"
proof (rule src_inv_nxt [OF inv])
  show "tcb_step cap t (fst (retx_one th mx t))" using inv by (intro retx_one_step) (simp add: src_inv_def)
  show "snd_nxt (fst (retx_one th mx t)) = snd_una t" if "snd_nxt t = snd_una t"
    using retx_one_frame(4) [of th mx t] that by simp
qed (simp_all add: retx_one_frame)

lemma stream_step_inv:
  assumes "stream_inv s0 cap n" "stream_step cap n n'"
  shows "stream_inv s0 cap n'"
  using assms(2)
proof cases
  case (send d)
  have s: "src_inv s0 cap (written n @ d) ((src n)\<lparr>send_buf := send_buf (src n) @ d\<rparr>)"
    using assms(1) send by (intro src_inv_send) (auto simp: stream_inv_def)
  have "\<forall>s \<in> wire n. seg_inv s0 (written n @ d) (wr_closed (src n)) s"
    using assms(1) send(2) by (auto simp: stream_inv_def intro: seg_inv_mono)
  moreover have "dst_inv s0 (written n @ d) (wr_closed (src n)) (got n) (dst n)"
    using assms(1) send(2) by (auto simp: stream_inv_def dst_inv_def)
  ultimately show ?thesis using s send by (simp add: stream_inv_def)
next
  case shutdown
  have "seg_inv s0 (written n) c s \<Longrightarrow> seg_inv s0 (written n) True s"
    "dst_inv s0 (written n) c (got n) (dst n) \<Longrightarrow> dst_inv s0 (written n) True (got n) (dst n)" for c s
    by (auto simp: seg_inv_def dst_inv_def)
  moreover have "wr_closed (queue_fin t)" for t by (simp add: queue_fin_def)
  ultimately show ?thesis
    using assms(1) shutdown src_inv_queue_fin [of s0 cap "written n" "src n"] by (auto simp: stream_inv_def)
next
  case (segment mss sq p f t' loc rcap)
  have i: "src_inv s0 cap (written n) (src n)" using assms(1) by (simp add: stream_inv_def)
  show ?thesis
    using assms(1) segment src_inv_segment [OF i segment(2,3)] segment_seg_inv(1) [OF i segment(2,3), of loc rcap]
      segment_seg_inv(2) [OF i segment(2,3)]
    by (auto simp: stream_inv_def)
next
  case (retransmit th mx)
  have "wr_closed (fst (retx_one th mx (src n))) = wr_closed (src n)" by (simp add: retx_one_def Let_def)
  then show ?thesis using assms(1) retransmit by (auto simp: stream_inv_def src_inv_retx)
next
  case (peer_segment rcap s t')
  then show ?thesis
    using assms(1) rx_src [OF _ peer_segment(2,3), of s0 cap "written n"] by (auto simp: stream_inv_def)
next
  case (deliver s rcap t')
  have "length (written n) < 2 ^ 32 - 1" using assms(1) by (auto simp: stream_inv_def src_inv_def)
  then have "dst_inv s0 (written n) (wr_closed (src n)) (got n) t'"
    using assms(1) deliver by (intro rx_dst [OF _ deliver(3) _ _ deliver(4)]) (auto simp: stream_inv_def)
  then show ?thesis using assms(1) deliver by (simp add: stream_inv_def)
next
  case (read m)
  have "abort_error (t\<lparr>recv_buf := b\<rparr>) = abort_error t" for t b by (simp add: abort_error_def)
  then show ?thesis using assms(1) read by (simp add: stream_inv_def dst_inv_def)
next
  case (abort_src r)
  have "tcb_wf cap (src n)" using assms(1) by (simp add: stream_inv_def src_inv_def)
  then have "tcb_wf cap (abort_tcb r (src n))" using abort_tcb_step by (auto simp: tcb_step_def)
  moreover have "wr_closed (abort_tcb r (src n)) = wr_closed (src n)" "tcb_state (abort_tcb r (src n)) = Closed"
    by (cases r; simp add: abort_tcb_def Let_def)+
  ultimately show ?thesis
    using assms(1) abort_src by (auto simp: stream_inv_def intro: src_inv_closed_frame)
next
  case (abort_dst r)
  have "recv_buf (abort_tcb r t) = []" "tcb_state (abort_tcb r t) = Closed" "abort_error (abort_tcb r t) = Some (case r of Abort_Reset \<Rightarrow> Kind ConnectionReset | _ \<Rightarrow>
      if reset t then Kind ConnectionReset else Kind TimedOut)" for t
    by (cases r; simp add: abort_tcb_def abort_error_def Let_def)+
  moreover have "prefix (got n) (written n)"
    using assms(1) by (auto simp: stream_inv_def dst_inv_def intro: append_prefixD)
  ultimately show ?thesis using assms(1) abort_dst by (simp add: stream_inv_def dst_inv_def)
qed

section \<open>Bytes arrive in order and intact\<close>

text \<open>
  C2. Whatever the network does with the segments of a connection (loss, duplication,
  reordering, delay) and whatever segments the other direction carries, what the reader has
  received is at every moment a prefix of what the writer has written; and when the reader
  is told end of file (the buffer is empty, the peer's FIN is in, no abort), it has received
  every byte and the writer has shut down. The stream is shorter than the sequence space.
\<close>

theorem stream_in_order:
  assumes "stream_start s0 cap n" "(stream_step cap)\<^sup>*\<^sup>* n n'"
  shows "prefix (got n' @ recv_buf (dst n')) (written n') \<and>
    (peer_fin (dst n') \<and> recv_buf (dst n') = [] \<and> abort_error (dst n') = None \<longrightarrow>
       got n' = written n' \<and> wr_closed (src n'))"
proof -
  have "stream_inv s0 cap n'"
    using assms(2) stream_start_inv [OF assms(1)] by induction (auto intro: stream_step_inv)
  then show ?thesis by (auto simp: stream_inv_def dst_inv_def)
qed

text \<open>One byte, written, segmented, delivered twice and read.\<close>

definition demo_stream :: Stream where
  "demo_stream = \<lparr>
     src = new_tcb Established (SocketAddr (V4 2) 80) 0 1000 1,
     dst = new_tcb Established (SocketAddr (V4 1) 99) 0 1000 1, wire = {}, written = [], got = []\<rparr>"

theorem stream_in_order_witness:
  "\<exists>n'. (stream_step 10)\<^sup>*\<^sup>* demo_stream n' \<and> got n' = [7] \<and> prefix (got n' @ recv_buf (dst n')) (written n')"
proof -
  have start: "stream_start 1 10 demo_stream" by (simp add: stream_start_def demo_stream_def new_tcb_def)
  let ?n1 = "demo_stream\<lparr>src := (src demo_stream)\<lparr>send_buf := [7]\<rparr>, written := [7]\<rparr>"
  have s1: "stream_step 10 demo_stream ?n1"
    using stream_step.send [of demo_stream "[7]" 10] by (simp add: demo_stream_def new_tcb_def)
  define t2 where "t2 = (src ?n1)\<lparr>snd_nxt := 2\<rparr>"
  let ?sg = "data_segment (SocketAddr (V4 1) 99) 10 t2 1 [7] False"
  let ?n2 = "?n1\<lparr>src := t2, wire := {?sg}\<rparr>"
  have "segment_next 100 (src ?n1) = Some (1, [7], False, t2)"
    by (simp add: segment_next_def t2_def demo_stream_def new_tcb_def)
  then have s2: "stream_step 10 ?n1 ?n2"
    using stream_step.segment [of ?n1 100 1 "[7]" False t2 10 "SocketAddr (V4 1) 99" 10]
    by (simp add: demo_stream_def new_tcb_def)
  obtain t3 where t3: "rx 10 ?sg (dst ?n2) = Some t3" "recv_buf t3 = [7]"
    by (simp add: rx_def est_ack_def est_data_def est_fin_def data_segment_def no_flags_def
        demo_stream_def new_tcb_def t2_def)
  let ?n3 = "?n2\<lparr>dst := t3\<rparr>"
  have s3: "stream_step 10 ?n2 ?n3"
    using stream_step.deliver [of ?sg ?n2 10 t3 10] t3 by (simp add: demo_stream_def new_tcb_def)
  let ?n4 = "?n3\<lparr>dst := t3\<lparr>recv_buf := []\<rparr>, got := [7]\<rparr>"
  have s4: "stream_step 10 ?n3 ?n4"
    using stream_step.read [of 10 ?n3 1] t3(2) by (simp add: demo_stream_def)
  have run: "(stream_step 10)\<^sup>*\<^sup>* demo_stream ?n4"
    using s1 s2 s3 s4 by (meson rtranclp.rtrancl_into_rtrancl rtranclp.rtrancl_refl)
  show ?thesis using stream_in_order [OF start run] run by (intro exI [of _ ?n4]) simp
qed

end
