(* ===== verification/Kernel_Props.thy ===== *)
theory Kernel_Props
  imports Kernel_Runs
begin

text \<open>
  Functional behaviour of the kernel's components: ports and bind, socket options, datagrams,
  the stages of a TCP segment, segmentation, reads, retransmission and aborts.
\<close>

section \<open>Ephemeral ports and bind\<close>

text \<open>
  \<^verbatim>\<open>PortAllocator::allocate\<close> returns, and its result is the first free port in cyclic
  order from the cursor (\<open>None\<close> exactly when every port of the range is in use), with the
  cursor left inside the range.
\<close>

theorem allocate_first_free:
  assumes "alloc_wf a"
  shows "\<exists>c. allocate in_use a = Some (find (\<lambda>p. \<not> in_use p) (ports_from a), a\<lparr>cursor := c\<rparr>) \<and>
    alloc_wf (a\<lparr>cursor := c\<rparr>) \<and>
    (find (\<lambda>p. \<not> in_use p) (ports_from a) = None \<longleftrightarrow>
       (\<forall>p. range_start a \<le> p \<and> p \<le> range_end a \<longrightarrow> in_use p))"
proof -
  obtain c where "allocate in_use a = Some (find (\<lambda>p. \<not> in_use p) (ports_from a), a\<lparr>cursor := c\<rparr>)"
    "alloc_wf (a\<lparr>cursor := c\<rparr>)"
    using allocate_spec [OF assms] by blast
  then show ?thesis using set_ports_from [OF assms] by (auto simp: find_None_iff)
qed

theorem allocate_first_free_witness:
  "\<exists>c. allocate (\<lambda>p. p = 49152) (PortAllocator_new 49152 49154) =
         Some (Some 49153, (PortAllocator_new 49152 49154)\<lparr>cursor := c\<rparr>)"
proof -
  let ?a = "PortAllocator_new 49152 49154"
  have "ports_from ?a = [49152, 49153, 49154]"
    by (simp add: ports_from_def PortAllocator_new_def upt_rec)
  moreover have "alloc_wf ?a" by (simp add: alloc_wf_def PortAllocator_new_def)
  ultimately show ?thesis using allocate_first_free [of ?a "\<lambda>p. p = 49152"] by auto
qed

lemma bind_conflict_iff:
  assumes inv: "kinv X k"
  shows "bind_conflict k key \<longleftrightarrow> (\<exists>key' fds. imap_get (bindings (table k)) key' = Some fds \<and>
     bk_domain key' = bk_domain key \<and> bk_ty key' = bk_ty key \<and> local_port key' = local_port key \<and>
     (local_addr key' = local_addr key \<or> is_unspecified (local_addr key') \<or> is_unspecified (local_addr key)))"
proof -
  have "imap_wf (bindings (table k))" using inv by (simp add: kinv_def index_inv_def)
  then show ?thesis by (auto simp: bind_conflict_def bindings_on_port_def list_ex_iff)
qed

lemma bind_key_to_result:
  assumes inv: "kinv X k" and ok: "\<not> bind_conflict k key"
  obtains k' where "bind_key_to k key = Some (Inr (next_id (table k)), k')"
    "lookup k' = (lookup k)(next_id (table k) \<mapsto> (Socket_new (bk_domain key) (bk_ty key))\<lparr>bound := Some key\<rparr>)"
    "imap_get (bindings (table k')) key = Some (find_by_bind (table k) key @ [next_id (table k)])"
proof -
  let ?m = "mk_socket (bk_domain key) (bk_ty key) k" and ?fd = "next_id (table k)"
  note mk = kinv_mk_socket [OF inv, of "bk_domain key" "bk_ty key"]
  let ?k' = "modify ?fd (\<lambda>s. s\<lparr>bound := Some key\<rparr>) (put_table (insert_binding key ?fd (table (snd ?m))) (snd ?m))"
  have fb: "find_by_bind (table (snd ?m)) = find_by_bind (table k)"
    by (simp add: mk_socket_def split_beta st_get_insert)
  have "bind_key_to k key = Some (Inr ?fd, ?k')"
    using ok mk by (simp add: bind_key_to_def split_beta lookup_eq)
  moreover have "lookup ?k' = (lookup k)(?fd \<mapsto> (Socket_new (bk_domain key) (bk_ty key))\<lparr>bound := Some key\<rparr>)"
    using mk(2) by (intro ext) (simp add: lookup_eq)
  moreover have "imap_get (bindings (table ?k')) key = Some (find_by_bind (table k) key @ [?fd])"
    by (simp add: insert_binding_def imap_simps fb)
  ultimately show ?thesis by (rule that)
qed

text \<open>
  A successful \<^verbatim>\<open>bind\<close> creates a fresh socket that \<^verbatim>\<open>local_addr\<close> reports at the
  requested address (with the requested port, or with one that no binding of that protocol
  used when the port was 0) and leaves every other socket alone. A second bind to the same
  address then fails with \<^verbatim>\<open>AddrInUse\<close>.
\<close>

theorem bind_local_addr:
  assumes inv: "kernel_inv k" and r: "kernel_bind k (Addr_Inet sa) ty = Some (Inr fd, k')"
  shows "\<exists>p. kernel_local_addr k' fd = Inr (Addr_Inet (SocketAddr (sa_ip sa) p)) \<and>
    (if sa_port sa = 0 then \<not> port_in_use (table k) (ip_domain (sa_ip sa)) ty p else p = sa_port sa) \<and>
    lookup k fd = None \<and> (\<forall>a. a \<noteq> fd \<longrightarrow> lookup k' a = lookup k a) \<and>
    (p \<noteq> 0 \<longrightarrow> (\<exists>k''. kernel_bind k' (Addr_Inet (SocketAddr (sa_ip sa) p)) ty = Some (Inl (Kind AddrInUse), k'')))"
proof -
  let ?d = "ip_domain (sa_ip sa)"
  have k: "kinv {} k" using inv by (simp add: kernel_inv_def)
  obtain p k1 where p: "bind_port k ?d ty (sa_port sa) = Some (Some p, k1)"
    and b: "bind_key_to k1 \<lparr>bk_domain = ?d, bk_ty = ty, local_addr = sa_ip sa, local_port = p\<rparr> = Some (Inr fd, k')"
    and loc: "is_unspecified (sa_ip sa) \<or> is_local k (sa_ip sa)"
    using r by (auto simp: kernel_bind_def Let_def bind_Some_iff split: if_splits option.splits)
  let ?key = "\<lparr>bk_domain = ?d, bk_ty = ty, local_addr = sa_ip sa, local_port = p\<rparr>"
  have k1: "kinv {} k1" using bind_port_safe [OF k, of ?d ty "sa_port sa"] p by (simp add: returns_def)
  have frame: "lookup k1 = lookup k" "next_id (table k1) = next_id (table k)" "addresses k1 = addresses k"
    using p by (auto simp: bind_port_def allocate_port_def bind_Some_iff lookup_def st_get_def
        split: if_splits intro!: ext)
  have port: "if sa_port sa = 0 then \<not> port_in_use (table k) ?d ty p else p = sa_port sa"
  proof (cases "sa_port sa = 0")
    case True
    then obtain a where "allocate (port_in_use (table k) ?d ty) (ports (table k)) = Some (Some p, a)"
      using p by (auto simp: bind_port_def allocate_port_def bind_Some_iff)
    then show ?thesis
      using True port_alloc.fresh k by (fastforce simp: kinv_def index_inv_def)
  qed (use p in \<open>simp add: bind_port_def\<close>)
  have nc: "\<not> bind_conflict k1 ?key" using b by (auto simp: bind_key_to_def)
  obtain k2 where k2: "bind_key_to k1 ?key = Some (Inr (next_id (table k1)), k2)"
    "lookup k2 = (lookup k1)(next_id (table k1) \<mapsto> (Socket_new (bk_domain ?key) (bk_ty ?key))\<lparr>bound := Some ?key\<rparr>)"
    "imap_get (bindings (table k2)) ?key = Some (find_by_bind (table k1) ?key @ [next_id (table k1)])"
    using bind_key_to_result [OF k1 nc] by metis
  then have fd: "fd = next_id (table k)" "k' = k2" using b frame by auto
  have k': "kinv {} k'" using bind_key_to_safe [OF k1, of ?key] b by (simp add: returns_def)
  have conf: "bind_conflict k' ?key" using k2(3) fd bind_conflict_iff [OF k', of ?key] by auto
  have addr: "addresses k' = addresses k"
    using b frame nc by (auto simp: bind_key_to_def bind_Some_iff mk_socket_def split_beta)
  have again: "kernel_bind k' (Addr_Inet (SocketAddr (sa_ip sa) p)) ty = Some (Inl (Kind AddrInUse), k')"
    if "p \<noteq> 0"
    using that conf loc addr by (auto simp: kernel_bind_def bind_port_def bind_key_to_def Let_def is_local_def)
  have "kernel_local_addr k' fd = Inr (Addr_Inet (SocketAddr (sa_ip sa) p))"
    using k2(2) fd frame by (simp add: kernel_local_addr_def)
  then show ?thesis
    using port again k2(2) fd frame fresh_fd [OF k] by (intro exI [of _ p]) auto
qed

theorem bind_local_addr_witness:
  "\<exists>fd k'. kernel_bind Kernel_new (Addr_Inet (SocketAddr (V4 0) 80)) Dgram = Some (Inr fd, k') \<and>
     kernel_local_addr k' fd = Inr (Addr_Inet (SocketAddr (V4 0) 80))"
proof -
  have inv: "kernel_inv Kernel_new"
    unfolding Kernel_new_def by (rule kernel_inv_new) (simp_all add: config_defs)
  have nc: "\<not> bind_conflict Kernel_new key" for key
    by (simp add: bind_conflict_def bindings_on_port_def Kernel_new_def Kernel_with_config_def SocketTable_new_def)
  have k: "kinv {} Kernel_new" using inv by (simp add: kernel_inv_def)
  obtain fd k' where b: "kernel_bind Kernel_new (Addr_Inet (SocketAddr (V4 0) 80)) Dgram = Some (Inr fd, k')"
    using bind_key_to_result [OF k nc] by (simp add: kernel_bind_def bind_port_def Let_def) metis
  then show ?thesis using bind_local_addr [OF inv b] by auto
qed

section \<open>Socket options\<close>

definition option_kind :: "SocketOption \<Rightarrow> SocketOptionKind option" where
  "option_kind opt = (case opt of Broadcast _ \<Rightarrow> Some K_Broadcast | IpTtl _ \<Rightarrow> Some K_IpTtl
     | TcpNoDelay _ \<Rightarrow> Some K_TcpNoDelay | _ \<Rightarrow> None)"

text \<open>
  Reading an option after writing it gives the value written, the other options keep
  their value, and no other socket sees the change; on a descriptor that is not open both
  calls fail with \<^verbatim>\<open>NotFound\<close>.
\<close>

theorem option_roundtrip:
  assumes "option_kind opt = Some kind" "set_option k fd opt = Some (r, k')"
  shows "(if lookup k fd = None then r = Inl (Kind NotFound) \<and> get_option k' fd kind = Some (Inl (Kind NotFound))
          else r = Inr () \<and> get_option k' fd kind = Some (Inr opt)) \<and>
    (\<forall>kind'. kind' \<noteq> kind \<longrightarrow> get_option k' fd kind' = get_option k fd kind') \<and>
    (\<forall>fd'. fd' \<noteq> fd \<longrightarrow> lookup k' fd' = lookup k fd')"
  using assms
  by (auto simp: set_option_def get_option_def option_kind_def split: option.splits SocketOption.splits
      SocketOptionKind.splits if_splits)

theorem option_roundtrip_witness:
  "\<exists>k'. set_option (snd (kernel_open Kernel_new Inet Dgram)) 1 (Broadcast True) = Some (Inr (), k') \<and>
     get_option k' 1 K_Broadcast = Some (Inr (Broadcast True))"
proof -
  let ?k = "snd (kernel_open Kernel_new Inet Dgram)"
  have l: "lookup ?k 1 = Some (Socket_new Inet Dgram)"
    by (simp add: kernel_open_def mk_socket_def st_insert_def Let_def Kernel_new_def Kernel_with_config_def
        SocketTable_new_def st_get_def)
  obtain r k' where s: "set_option ?k 1 (Broadcast True) = Some (r, k')"
    using l by (simp add: set_option_def)
  from option_roundtrip [OF _ s, of K_Broadcast] show ?thesis
    using l s by (auto simp: option_kind_def)
qed

section \<open>Datagrams\<close>

lemma woken_wake [simp]: "woken (wake ws k) = woken k @ ws"
  by (simp add: wake_def)

text \<open>
  Where an inbound datagram goes: to the first socket bound to exactly its destination,
  else to the first socket bound to the wildcard address of its family on that port, else
  nowhere; a socket connected to another peer drops it. The receiving socket has it at the
  end of its queue with the sender's address, its readers are woken, and no other socket
  changes.
\<close>

theorem udp_deliver_target:
  assumes inv: "kernel_inv k" and pl: "pkt_payload pkt = Udp d"
    and r: "kernel_deliver k pkt = Some k'"
  shows "case udp_target k pkt d of
      None \<Rightarrow> k' = k
    | Some fd \<Rightarrow> \<exists>s. lookup k fd = Some s \<and> sk_ty s = Dgram \<and>
        (let from = Addr_Inet (SocketAddr (pkt_src pkt) (ud_src_port d))
         in if sk_peer s \<notin> {None, Some from} then k' = k
            else lookup k' = (lookup k)(fd \<mapsto> s\<lparr>recv_queue := recv_queue s @ [(from, ud_payload d)],
                                                 read_wakers := []\<rparr>) \<and>
                 woken k' = woken k @ read_wakers s \<and> outbound k' = outbound k)"
proof (cases "udp_target k pkt d")
  case None
  then show ?thesis using r pl by (simp add: kernel_deliver_def udp_deliver_def)
next
  case (Some fd)
  have k: "kinv {} k" using inv by (simp add: kernel_inv_def)
  obtain s key where s: "lookup k fd = Some s" "bound s = Some key"
    "key \<in> {exact_key Dgram (pkt_dst pkt) (ud_dst_port d), wildcard_key Dgram (pkt_dst pkt) (ud_dst_port d)}"
    using udp_target_bound [OF k Some] by blast
  have ty: "sk_ty s = Dgram"
    using kinv_socket(2) [OF k s(1)] s(2,3) by (auto simp: sock_wf_def exact_key_def wildcard_key_def)
  let ?from = "Addr_Inet (SocketAddr (pkt_src pkt) (ud_src_port d))"
  have "udp_deliver k pkt d = Some k'" using r pl by (simp add: kernel_deliver_def)
  then have "if sk_peer s \<notin> {None, Some ?from} then k' = k
     else k' = wake (read_wakers s) (modify fd (\<lambda>_. s\<lparr>recv_queue := recv_queue s @ [(?from, ud_payload d)],
                                                 read_wakers := []\<rparr>) k)"
    using Some s(1) by (auto simp: udp_deliver_def Let_def split: option.splits if_splits)
  then show ?thesis
    using Some s(1) ty by (auto simp: Let_def split: if_splits)
qed

definition demo_udp :: Kernel where
  "demo_udp = snd (the (kernel_bind Kernel_new (Addr_Inet (SocketAddr (V4 0) 7)) Dgram))"

lemma kernel_inv_Kernel_new: "kernel_inv Kernel_new"
  unfolding Kernel_new_def by (rule kernel_inv_new) (simp_all add: config_defs)

lemma demo_udp_inv: "kernel_inv demo_udp"
  using kernel_bind_safe [of "{}" Kernel_new "SocketAddr (V4 0) 7" Dgram] kernel_inv_Kernel_new
  by (auto simp: demo_udp_def returns_def kernel_inv_def)

lemma demo_udp_socket:
  "find_by_bind (table demo_udp) (wildcard_key Dgram (V4 1) 7) = [1]"
  "find_by_bind (table demo_udp) (exact_key Dgram (V4 1) 7) = []"
  "lookup demo_udp 1 = Some ((Socket_new Inet Dgram)\<lparr>bound := Some (wildcard_key Dgram (V4 1) 7)\<rparr>)"
  by (simp_all add: demo_udp_def kernel_bind_def bind_port_def bind_key_to_def bind_conflict_def
      bindings_on_port_def Kernel_new_def Kernel_with_config_def SocketTable_new_def mk_socket_def
      st_insert_def st_get_def find_by_bind_def exact_key_def wildcard_key_def ip_domain_def Let_def
      st_modify_def insert_binding_def lookup_def)

theorem udp_deliver_target_witness:
  "\<exists>k' s. kernel_deliver demo_udp \<lparr>pkt_src = V4 2, pkt_dst = V4 1, pkt_ttl = 64,
          pkt_payload = Udp \<lparr>ud_src_port = 9, ud_dst_port = 7, ud_payload = [1]\<rparr>\<rparr> = Some k' \<and>
     lookup k' 1 = Some s \<and> recv_queue s = [(Addr_Inet (SocketAddr (V4 2) 9), [1])]"
proof -
  let ?d = "\<lparr>ud_src_port = 9, ud_dst_port = 7, ud_payload = [1]\<rparr>"
  let ?p = "\<lparr>pkt_src = V4 2, pkt_dst = V4 1, pkt_ttl = 64, pkt_payload = Udp ?d\<rparr>"
  have t: "udp_target demo_udp ?p ?d = Some 1"
    by (simp add: udp_target_def demo_udp_socket first_fd_def)
  obtain k' where k': "kernel_deliver demo_udp ?p = Some k'"
    using kernel_deliver_safe [OF demo_udp_inv, of ?p] by (auto simp: returns_def)
  then show ?thesis
    using udp_deliver_target [OF demo_udp_inv _ k', of ?d] t demo_udp_socket(3) by (simp add: Socket_new_def)
qed

lemma udp_auto_bind_outbound:
  "udp_auto_bind k fd d ty dst = Some (r, k1) \<Longrightarrow> outbound k1 = outbound k"
  by (auto simp: udp_auto_bind_def bind_Some_iff Let_def split: option.splits)

text \<open>
  \<^verbatim>\<open>send_to\<close> never puts a datagram larger than the path's MTU on the wire: a
  successful send queues exactly one packet, from the socket's source address to the given
  destination with the given payload, whose size with headers is at most the MTU of the
  interface it leaves by; a longer payload is \<^verbatim>\<open>EMSGSIZE\<close> and queues nothing.
\<close>

theorem udp_send_fits_mtu:
  assumes r: "udp_send_to k fd buf dst = Some (res, k')" and len: "length buf < 2 ^ 32 - 100"
    and mtu: "mtu_ok k"
  shows "(\<forall>n. res = Ready (Inr n) \<longrightarrow> n = length buf \<and>
      (\<exists>p. outbound k' = outbound k @ [p] \<and> pkt_dst p = sa_ip dst \<and>
         (\<exists>d. pkt_payload p = Udp d \<and> ud_payload d = buf \<and> ud_dst_port d = sa_port dst) \<and>
         (\<exists>sz. packet_size p = Some sz \<and>
            sz \<le> (if is_loopback (sa_ip dst) then loopback_mtu k else mtu k)))) \<and>
    (udp_max_payload k dst < length buf \<longrightarrow> (\<exists>e. res = Ready (Inl e)) \<and> k' = k)"
proof -
  obtain st where st: "lookup k fd = Some st" using r by (auto simp: udp_send_to_def bind_Some_iff)
  have m: "length buf mod 2 ^ 32 = length buf" using len by simp
  let ?bc = "(case sa_ip dst of V4 a \<Rightarrow> is_ipv4_broadcast a | V6 _ \<Rightarrow> False) \<and> \<not> broadcast st"
  show ?thesis
  proof (cases "?bc \<or> udp_max_payload k dst < length buf")
    case True
    then show ?thesis using r st m by (auto simp: udp_send_to_def split: if_splits)
  next
    case False
    let ?bind = "case bound st of Some bk \<Rightarrow> Some (Ok bk, k)
        | None \<Rightarrow> udp_auto_bind k fd (sk_domain st) Dgram (sa_ip dst)"
    have bind: "outbound k1 = outbound k" if "?bind = Some (b, k1)" for b k1
      using that by (auto simp: udp_auto_bind_outbound split: option.splits)
    obtain b k1 where b: "?bind = Some (b, k1)" and res:
      "(case b of Inl e \<Rightarrow> Some (Ready (Err e), k1) | Inr src_bind \<Rightarrow>
           Some (Ready (Ok (length buf)), push_outbound
             \<lparr>pkt_src = udp_src_ip k1 src_bind (sa_ip dst), pkt_dst = sa_ip dst, pkt_ttl = 64,
              pkt_payload = Udp \<lparr>ud_src_port = local_port src_bind, ud_dst_port = sa_port dst,
                                 ud_payload = buf\<rparr>\<rparr> k1)) = Some (res, k')"
      using r st m False by (auto simp: udp_send_to_def bind_Some_iff)
    have fits: "length buf \<le> udp_max_payload k dst" using False by simp
    show ?thesis
    proof (cases b)
      case (Inl e)
      then show ?thesis using res fits by auto
    next
      case (Inr sb)
      let ?p = "\<lparr>pkt_src = udp_src_ip k1 sb (sa_ip dst), pkt_dst = sa_ip dst, pkt_ttl = 64,
              pkt_payload = Udp \<lparr>ud_src_port = local_port sb, ud_dst_port = sa_port dst,
                                 ud_payload = buf\<rparr>\<rparr>"
      have "\<exists>sz. packet_size ?p = Some sz \<and> sz \<le> (if is_loopback (sa_ip dst) then loopback_mtu k else mtu k)"
        using fits m len mtu
        by (cases "sa_ip dst") (auto simp: packet_size_def u32_add_def udp_max_payload_def header_sizes
            mtu_ok_def Let_def split: if_splits)
      then show ?thesis using Inr res fits bind [OF b] by auto
    qed
  qed
qed

theorem udp_send_fits_mtu_witness:
  "\<exists>res k'. udp_send_to (snd (kernel_open Kernel_new Inet Dgram)) 1 (replicate 2000 0)
      (SocketAddr (V4 9) 7) = Some (res, k') \<and> (\<exists>e. res = Ready (Inl e))"
proof -
  let ?k = "snd (kernel_open Kernel_new Inet Dgram)" and ?dst = "SocketAddr (V4 9) 7"
  have l: "lookup ?k 1 = Some (Socket_new Inet Dgram)" "mtu ?k = 1500" "mtu_ok ?k"
    by (simp_all add: kernel_open_def mk_socket_def st_insert_def Let_def Kernel_new_def Kernel_with_config_def
        SocketTable_new_def st_get_def config_defs mtu_ok_def header_sizes)
  obtain res k' where r: "udp_send_to ?k 1 (replicate 2000 0) ?dst = Some (res, k')"
    using l by (simp add: udp_send_to_def is_ipv4_broadcast_def udp_max_payload_def header_sizes)
  show ?thesis
    using udp_send_fits_mtu [OF r] l r by (auto simp: udp_max_payload_def header_sizes Let_def)
qed

end
