(* ===== verification/Tcp_Props.thy ===== *)
theory Tcp_Props
  imports Kernel_Runs
begin

text \<open>
  Functional behaviour of the TCP part of the kernel: what a segment, a read, a close, a
  handshake and a silent peer do.
\<close>

section \<open>A connected host\<close>

text \<open>
  A host at 10.0.0.1 with one established connection to 10.0.0.2: three bytes received, two
  bytes written and not yet sent. The witnesses use it.
\<close>

definition demo_loc :: SocketAddr where
  "demo_loc = SocketAddr (V4 0x0A000001) 80"

definition demo_rem :: SocketAddr where
  "demo_rem = SocketAddr (V4 0x0A000002) 5000"

definition demo_tcb :: Tcb where
  "demo_tcb = (new_tcb Established demo_rem 0 1000 104)\<lparr>send_buf := [4, 5], recv_buf := [1, 2, 3]\<rparr>"

definition demo_sock :: Socket where
  "demo_sock = (Socket_new Inet Stream)\<lparr>
     bound := Some \<lparr>bk_domain = Inet, bk_ty = Stream, local_addr = sa_ip demo_loc, local_port = sa_port demo_loc\<rparr>,
     sk_peer := Some (Addr_Inet demo_rem), tcb := Some demo_tcb\<rparr>"

definition demo_host :: Kernel where
  "demo_host = Kernel_new\<lparr>addresses := [sa_ip demo_loc], table := SocketTable_new\<lparr>next_id := 4,
     sockets := [(3, demo_sock)], bindings := [(the (bound demo_sock), [3])],
     connections := [((demo_loc, demo_rem), 3)]\<rparr>\<rparr>"

lemma demo_lookup [simp]:
  "lookup demo_host 3 = Some demo_sock" "tcb demo_sock = Some demo_tcb"
  "bound_endpoint demo_sock = Some demo_loc" "recv_buf_cap demo_host = 65536" "mtu demo_host = 1500"
  by (simp_all add: demo_host_def lookup_def st_get_def demo_sock_def Socket_new_def bound_endpoint_def
      demo_loc_def Kernel_new_def Kernel_with_config_def config_defs)

lemma demo_host_inv: "kernel_inv demo_host"
proof -
  have get: "st_get (table demo_host) fd = (if fd = 3 then Some demo_sock else None)" for fd
    by (simp add: demo_host_def st_get_def)
  have "sock_wf 65536 demo_sock"
    by (simp add: sock_wf_def demo_sock_def Socket_new_def tcb_wf_def demo_tcb_def new_tcb_def fin_wf_def
        in_flight_def)
  then have "sockets_inv 65536 {} 4 (st_get (table demo_host))"
    by (auto simp: sockets_inv_def get ready_of_def demo_sock_def Socket_new_def split: if_splits)
  moreover have "index_inv (table demo_host)"
    unfolding index_inv_def get
    by (auto simp: demo_host_def SocketTable_new_def alloc_wf_def PortAllocator_new_def find_by_bind_def
        find_connection_def demo_sock_def Socket_new_def demo_tcb_def new_tcb_def bound_endpoint_def demo_loc_def
        split: if_splits)
  moreover have "mtu_ok demo_host" "send_buf_cap demo_host = 65536" "next_id (table demo_host) = 4"
    "addresses demo_host = [V4 0x0A000001]"
    by (simp_all add: demo_host_def Kernel_new_def Kernel_with_config_def config_defs mtu_ok_def header_sizes
        demo_loc_def)
  ultimately show ?thesis by (simp add: kernel_inv_def kinv_def)
qed

text \<open>The same host as a server: a listener and one connection in the handshake.\<close>

definition demo_key :: BindKey where
  "demo_key = \<lparr>bk_domain = Inet, bk_ty = Stream, local_addr = sa_ip demo_loc, local_port = sa_port demo_loc\<rparr>"

definition demo_listener :: Socket where
  "demo_listener = (Socket_new Inet Stream)\<lparr>bound := Some demo_key, listen := Some (ListenState_new 8)\<rparr>"

definition demo_child :: Socket where
  "demo_child = (Socket_new Inet Stream)\<lparr>bound := Some demo_key, sk_peer := Some (Addr_Inet demo_rem),
     tcb := Some (new_tcb SynReceived demo_rem 0 1000 104)\<rparr>"

definition demo_server :: Kernel where
  "demo_server = Kernel_new\<lparr>addresses := [sa_ip demo_loc], table := SocketTable_new\<lparr>next_id := 5,
     sockets := [(3, demo_listener), (4, demo_child)], bindings := [(demo_key, [3, 4])],
     connections := [((demo_loc, demo_rem), 4)]\<rparr>\<rparr>"

lemmas demo_server_defs = demo_server_def demo_listener_def demo_child_def demo_key_def Socket_new_def
  ListenState_new_def demo_loc_def demo_rem_def Kernel_new_def Kernel_with_config_def SocketTable_new_def config_defs

lemma demo_server_lookup:
  "lookup demo_server fd = (if fd = 3 then Some demo_listener else if fd = 4 then Some demo_child else None)"
  by (simp add: lookup_def st_get_def demo_server_def)

lemma demo_ready: "ready_of demo_listener = []" "ready_of demo_child = []"
  by (simp_all add: ready_of_def demo_server_defs)

lemma demo_server_inv: "kernel_inv demo_server"
proof -
  have get: "st_get (table demo_server) fd =
      (if fd = 3 then Some demo_listener else if fd = 4 then Some demo_child else None)" for fd
    by (simp add: demo_server_def st_get_def)
  have "sock_wf 65536 demo_child" "sock_wf 65536 demo_listener"
    by (simp_all add: sock_wf_def demo_server_defs tcb_wf_def new_tcb_def fin_wf_def in_flight_def)
  then have "sockets_inv 65536 {} 5 (st_get (table demo_server))"
    by (auto simp: sockets_inv_def get demo_ready split: if_splits)
  moreover have "index_inv (table demo_server)"
    unfolding index_inv_def get
    by (auto simp: demo_server_defs alloc_wf_def PortAllocator_new_def find_by_bind_def
        find_connection_def new_tcb_def bound_endpoint_def split: if_splits)
  moreover have "mtu_ok demo_server" "send_buf_cap demo_server = 65536" "next_id (table demo_server) = 5"
    "addresses demo_server = [V4 0x0A000001]"
    by (simp_all add: demo_server_defs mtu_ok_def header_sizes)
  ultimately show ?thesis by (simp add: kernel_inv_def kinv_def)
qed

section \<open>Segmentation\<close>

text \<open>
  C33. \<^verbatim>\<open>segment_one\<close> is equivalent to a reference: it queues, in order and after what was
  queued before, the bytes of the send buffer that are unsent and inside the peer's window,
  cut into non-empty pieces of at most one MSS with consecutive sequence numbers, then the
  FIN if it follows the last byte inside the window; and nothing sendable remains.
\<close>

theorem segment_one_sends:
  assumes inv: "kernel_inv k" and s: "lookup k fd = Some s" "tcb s = Some t" "tcb_state t \<noteq> Closed"
    and loc: "bound_endpoint s = Some loc"
  shows "\<exists>k' t' ps. segment_one fd k = Some k' \<and>
    outbound k' = outbound k @ map (seg_packet loc (recv_buf_cap k) t) ps \<and>
    ps = number (snd_nxt t) (chunks (mss_for k (sa_ip loc)) (sendable t)) @
       (if fin_sendable t then [(snd_una t + of_nat (length (send_buf t)), [], True)] else []) \<and>
    concat (map (fst \<circ> snd) ps) = sendable t \<and>
    (\<forall>(sq, p, f) \<in> set ps. length p \<le> mss_for k (sa_ip loc) \<and> (f \<or> p \<noteq> [])) \<and>
    lookup k' = (lookup k)(fd \<mapsto> s\<lparr>tcb := Some t'\<rparr>) \<and> t' = t\<lparr>snd_nxt := nxt_after t\<rparr> \<and>
    sendable t' = [] \<and> \<not> fin_sendable t'"
proof -
  have k: "kinv {} k" using inv by (simp add: kernel_inv_def)
  let ?mss = "mss_for k (sa_ip loc)" and ?t = "t\<lparr>snd_nxt := nxt_after t\<rparr>"
  have mss: "0 < ?mss" by (rule mss_pos [OF kinv_mtu [OF k]])
  have fw: "fin_wf t" "length (send_buf t) < 2 ^ 32 - 1"
    using kinv_tcb(1) [OF k s(1,2)] s(3) kinv_cap [OF k] by (auto simp: tcb_wf_def)
  note seg = segment_loop_eq [OF s(1,2) fw mss]
  have one: "segment_one fd k = Some (pumped fd loc ?mss t ?t k)"
    using seg(1) s(1) loc by (simp add: segment_one_def)
  have pay: "concat (map (fst \<circ> snd) (seg_list ?mss t)) = sendable t"
    using mss by (simp add: seg_list_def number_payloads concat_chunks)
  have num: "(sq, p, f) \<in> set (number n ps) \<Longrightarrow> p \<in> set ps" for sq p f n ps
    by (induction n ps rule: number.induct) auto
  have sz: "\<forall>(sq, p, f) \<in> set (seg_list ?mss t). length p \<le> ?mss \<and> (f \<or> p \<noteq> [])"
    using chunks_le by (auto simp: seg_list_def split: if_splits dest!: num)
  have lk: "lookup (pumped fd loc ?mss t ?t k) = (lookup k)(fd \<mapsto> s\<lparr>tcb := Some ?t\<rparr>)"
    using s(1) by (intro ext) simp
  have "chunks ?mss (sendable ?t) = []" "\<not> fin_sendable ?t"
    using seg(2) by (auto simp: seg_list_def split: if_splits dest: arg_cong [where f = "map (fst \<circ> snd)"]
        simp: number_payloads)
  then have "sendable ?t = []" "\<not> fin_sendable ?t" using concat_chunks [OF mss, of "sendable ?t"] by auto
  then show ?thesis
    using one pay sz lk
    by (intro exI [of _ "pumped fd loc ?mss t ?t k"] exI [of _ ?t] exI [of _ "seg_list ?mss t"])
      (simp add: pumped_def seg_list_def)
qed

theorem segment_one_sends_witness:
  "\<exists>k'. segment_one 3 demo_host = Some k' \<and>
     outbound k' = [seg_packet demo_loc 65536 demo_tcb (1, [4, 5], False)]"
proof -
  have "sendable demo_tcb = [4, 5]" "\<not> fin_sendable demo_tcb" "snd_nxt demo_tcb = 1"
    "tcb_state demo_tcb \<noteq> Closed" "mss_for demo_host (sa_ip demo_loc) = 1460" "outbound demo_host = []"
    by (simp_all add: sendable_def fin_sendable_def in_flight_def demo_tcb_def new_tcb_def mss_for_def
        header_sizes demo_loc_def demo_host_def Kernel_new_def Kernel_with_config_def config_defs)
  moreover have "chunks 1460 [4, 5 :: u8] = [[4, 5]]" using chunks_Cons [of 1460 "[4, 5 :: u8]"] by simp
  ultimately show ?thesis
    using segment_one_sends [OF demo_host_inv, of 3 demo_sock demo_tcb demo_loc] by auto
qed

section \<open>Acknowledgements and data\<close>

text \<open>
  The ACK stage on a well-formed connection never splits past the end of the send
  buffer. An acknowledgement of \<open>n\<close> new sequence numbers drops exactly the first \<open>n\<close> bytes
  (all of them, and the FIN, when \<open>n\<close> is one more than the buffer), keeps the bytes not yet
  sent, and resets the retransmission counters; a stale or impossible one only updates the
  window.
\<close>

theorem est_ack_behaviour:
  assumes "tcb_wf cap t" "cap < 2 ^ 32 - 1" "tcb_state t \<noteq> Closed" "fl_ack (seg_flags sg)"
  shows "\<exists>t'. est_ack sg t = Some t' \<and> tcb_wf cap t' \<and> snd_wnd t' = seg_window sg \<and>
    snd_nxt t' = snd_nxt t \<and>
    (let n = newly_acked sg t in
       send_buf t' = drop n (send_buf t) \<and> snd_una t' = snd_una t + of_nat n \<and>
       in_flight t' = in_flight t - n \<and> unsent_len t' = unsent_len t \<and> n \<le> length (send_buf t) + 1 \<and>
       (0 < n \<longrightarrow> egress_since_ack t' = 0 \<and> retx_attempts t' = 0) \<and>
       tcb_state t' = (if acks_fin sg t then fin_acked_state (tcb_state t) else tcb_state t))"
proof -
  have fw: "fin_wf t" using assms by (simp add: tcb_wf_def)
  obtain t' where t': "est_ack sg t = Some t'" "tcb_step cap t t'"
    using est_ack_step [OF assms(1-3)] by metis
  have f: "send_buf t' = drop (newly_acked sg t) (send_buf t)" "snd_nxt t' = snd_nxt t"
    "snd_una t' = snd_una t + of_nat (newly_acked sg t)" "fin_seq t' = fin_seq t" "snd_wnd t' = seg_window sg"
    "0 < newly_acked sg t \<longrightarrow> egress_since_ack t' = 0 \<and> retx_attempts t' = 0"
    "tcb_state t' = (if acks_fin sg t then fin_acked_state (tcb_state t) else tcb_state t)"
    using t'(1) assms(4) unfolding est_ack_eq [OF assms(1-3)] by (auto simp: acks_fin_def)
  have "newly_acked sg t \<le> length (send_buf t) + 1" using acked_in_buf [OF fw, of sg] by auto
  then show ?thesis
    using t' f in_flight_after_ack [OF f(2,3)] unsent_ack(1) [OF fw f(2,3,1,4)]
    by (intro exI [of _ t']) (simp add: Let_def tcb_step_def)
qed

theorem est_ack_behaviour_witness:
  "\<exists>t'. est_ack \<lparr>seg_src_port = 1, seg_dst_port = 2, seg_seq = 0, seg_ack = 12,
            seg_flags = no_flags\<lparr>fl_ack := True\<rparr>, seg_window = 5, seg_payload = []\<rparr>
          ((new_tcb Established (SocketAddr (V4 1) 2) 9 100 0)\<lparr>send_buf := [1, 2, 3], snd_nxt := 13\<rparr>) = Some t' \<and>
     send_buf t' = [3]"
proof -
  let ?sg = "\<lparr>seg_src_port = 1, seg_dst_port = 2, seg_seq = 0, seg_ack = 12,
            seg_flags = no_flags\<lparr>fl_ack := True\<rparr>, seg_window = 5, seg_payload = []\<rparr>"
  let ?t = "(new_tcb Established (SocketAddr (V4 1) 2) 9 100 0)\<lparr>send_buf := [1, 2, 3], snd_nxt := 13\<rparr>"
  have "newly_acked ?sg ?t = 2" by (simp add: newly_acked_def in_flight_def new_tcb_def)
  moreover have "tcb_wf 10 ?t" by (simp add: tcb_wf_def fin_wf_def in_flight_def new_tcb_def)
  moreover have "tcb_state ?t \<noteq> Closed" "send_buf ?t = [1, 2, 3]" by (simp_all add: new_tcb_def)
  ultimately show ?thesis using est_ack_behaviour [of 10 ?t ?sg] by (auto simp: Let_def)
qed

text \<open>
  The data and FIN stages accept only what comes next. A segment whose sequence number
  is the next expected one has as many of its bytes appended as the receive buffer has room
  for and advances the expected number by as many; any other segment changes nothing. The
  receive buffer never exceeds its capacity, and a FIN is accepted once, only directly after
  the last byte received.
\<close>

theorem est_data_fin_in_order:
  assumes "length (recv_buf t) \<le> cap"
  shows "let (t1, got_data) = est_data cap sg t; (t2, got_fin) = est_fin sg t1;
             n = min (length (seg_payload sg)) (cap - length (recv_buf t));
             m = (if got_data then n else 0)
         in recv_buf t2 = recv_buf t @ take m (seg_payload sg) \<and>
            length (recv_buf t2) \<le> cap \<and>
            rcv_nxt t2 = rcv_nxt t + of_nat m + (if got_fin then 1 else 0) \<and>
            (got_data \<longleftrightarrow> 0 < n \<and> seg_seq sg = rcv_nxt t \<and> \<not> peer_fin t) \<and>
            (got_fin \<longleftrightarrow> fl_fin (seg_flags sg) \<and> \<not> peer_fin t \<and>
               seg_seq sg + of_nat (length (seg_payload sg)) = rcv_nxt t + of_nat m) \<and>
            peer_fin t2 = (peer_fin t \<or> got_fin) \<and> send_buf t2 = send_buf t \<and> snd_una t2 = snd_una t \<and>
            tcb_state t2 = (if got_fin then fin_received_state (tcb_state t) else tcb_state t)"
proof (cases "seg_payload sg \<noteq> [] \<and> seg_seq sg = rcv_nxt t \<and> \<not> peer_fin t \<and> length (recv_buf t) < cap")
  case True
  let ?n = "min (length (seg_payload sg)) (cap - length (recv_buf t))"
  have d: "est_data cap sg t = (t\<lparr>recv_buf := recv_buf t @ take ?n (seg_payload sg),
      rcv_nxt := rcv_nxt t + of_nat ?n\<rparr>, True)"
    using True by (simp add: est_data_def Let_def)
  show ?thesis unfolding d Let_def using True by (auto simp: est_fin_def min_def)
next
  case False
  then have d: "est_data cap sg t = (t, False)" using assms by (auto simp: est_data_def Let_def)
  show ?thesis unfolding d Let_def using False assms by (auto simp: est_fin_def)
qed

theorem est_data_fin_in_order_witness:
  "est_data 4 \<lparr>seg_src_port = 1, seg_dst_port = 2, seg_seq = 0, seg_ack = 12,
            seg_flags = no_flags, seg_window = 5, seg_payload = [1, 2, 3]\<rparr>
          ((new_tcb Established (SocketAddr (V4 1) 2) 9 100 0)\<lparr>recv_buf := [8, 9]\<rparr>) =
     ((new_tcb Established (SocketAddr (V4 1) 2) 9 100 0)\<lparr>recv_buf := [8, 9, 1, 2], rcv_nxt := 2\<rparr>, True)"
proof -
  let ?sg = "\<lparr>seg_src_port = 1, seg_dst_port = 2, seg_seq = 0, seg_ack = 12,
            seg_flags = no_flags, seg_window = 5, seg_payload = [1, 2, 3]\<rparr>"
  let ?t = "(new_tcb Established (SocketAddr (V4 1) 2) 9 100 0)\<lparr>recv_buf := [8, 9]\<rparr>"
  have "length (recv_buf ?t) \<le> 4" by (simp add: new_tcb_def)
  from est_data_fin_in_order [OF this, of ?sg] show ?thesis
    by (simp add: est_data_def est_fin_def new_tcb_def Let_def no_flags_def)
qed

section \<open>Reads\<close>

lemma drain_into_spec:
  assumes "drain_into rb bs = (n, rest, bs')"
  shows "n = min (length rb) (length (concat bs))" "rest = drop n rb"
    "concat bs' = take n rb @ drop n (concat bs)" "map length bs' = map length bs"
  using assms
proof (induction rb bs arbitrary: n rest bs' rule: drain_into.induct)
  case (2 rb b bs)
  let ?len = "min (length rb) (length b)"
  {
    case 1
    show ?case
      using 1 "2.IH"(1) [OF refl refl refl]
      by (cases "drop ?len rb = []") (auto simp: Let_def split: prod.splits)
  next
    case 2
    show ?case
      using 2 "2.IH"(2) [OF refl refl refl]
      by (cases "drop ?len rb = []") (auto simp: Let_def add.commute split: prod.splits)
  next
    case 3
    show ?case
      using 3 "2.IH"(3) [OF refl refl refl]
      by (cases "drop ?len rb = []") (auto simp: Let_def take_add split: prod.splits)
  next
    case 4
    show ?case
      using 4 "2.IH"(4) [OF refl refl refl]
      by (cases "drop ?len rb = []") (auto simp: Let_def split: prod.splits)
  }
qed auto

text \<open>
  A (vectored) read hands over the front of the receive buffer exactly once: it returns
  the number of bytes copied, the smaller of what is buffered and what the buffers hold; those
  bytes fill the caller's buffers in order without touching the rest of them; and the receive
  buffer keeps exactly the remaining bytes. Peeking first returns the same bytes and takes
  nothing.
\<close>

theorem recv_takes_front:
  assumes inv: "kernel_inv k" and s: "lookup k fd = Some st" "tcb st = Some t"
    and t: "abort_error t = None" "recv_buf t \<noteq> []"
    and that: "n = min (length (recv_buf t)) (length (concat bufs))"
  shows "\<exists>k' bufs'. tcp_poll_recv_vectored k fd cx bufs = Some (Ready (Inr n), bufs', k') \<and>
      concat bufs' = take n (recv_buf t) @ drop n (concat bufs) \<and> map length bufs' = map length bufs \<and>
      lookup k' = (lookup k)(fd \<mapsto> st\<lparr>tcb := Some (t\<lparr>recv_buf := drop n (recv_buf t)\<rparr>)\<rparr>) \<and>
      tcp_poll_peek k fd w (concat bufs) = (Ready (Inr n), concat bufs', k)"
proof -
  obtain loc where loc: "bound_endpoint st = Some loc"
    using kinv_tcb(3) [of "{}" k fd st t] inv s by (auto simp: kernel_inv_def)
  obtain m rest bufs' where d: "drain_into (recv_buf t) bufs = (m, rest, bufs')" by (metis prod_cases3)
  note spec = drain_into_spec [OF d]
  have m: "m = n" using spec(1) that by simp
  let ?k = "modify fd (\<lambda>s. s\<lparr>tcb := Some (t\<lparr>recv_buf := rest\<rparr>)\<rparr>) k"
  obtain k' where r: "tcp_poll_recv_vectored k fd cx bufs = Some (Ready (Inr n), bufs', k')" "lookup k' = lookup ?k"
    using s t loc d m by (simp add: tcp_poll_recv_vectored_def Let_def split: if_splits)
  have "lookup ?k = (lookup k)(fd \<mapsto> st\<lparr>tcb := Some (t\<lparr>recv_buf := drop n (recv_buf t)\<rparr>)\<rparr>)"
    using s spec(2) m by (intro ext) simp
  moreover have "tcp_poll_peek k fd w (concat bufs) = (Ready (Inr n), concat bufs', k)"
    using s t spec(3) m that by (simp add: tcp_poll_peek_def Let_def)
  ultimately show ?thesis using r spec(3,4) m that by auto
qed

theorem recv_takes_front_witness:
  "\<exists>k' bufs'. tcp_poll_recv_vectored demo_host 3 None [[0, 0], [0, 0]] = Some (Ready (Inr 3), bufs', k') \<and>
     concat bufs' = [1, 2, 3, 0]"
proof -
  have "abort_error demo_tcb = None" "recv_buf demo_tcb = [1, 2, 3]"
    by (simp_all add: abort_error_def demo_tcb_def new_tcb_def)
  then show ?thesis
    using recv_takes_front [OF demo_host_inv demo_lookup(1,2), where n = 3 and bufs = "[[0, 0], [0, 0]]" and cx = None and w = 7]
    by auto
qed

section \<open>Aborts and timeouts\<close>



text \<open>The control block after \<open>n\<close> egress passes without an acknowledgement.\<close>

definition silent_passes :: "nat \<Rightarrow> nat \<Rightarrow> nat \<Rightarrow> Tcb \<Rightarrow> Tcb" where
  "silent_passes th mx n t = ((\<lambda>t. fst (retx_one th mx t)) ^^ n) t"

lemma silent_counters:
  assumes "0 < th" "egress_since_ack t = 0" "retx_attempts t = 0" "n < th * (mx + 1)"
  shows "egress_since_ack (silent_passes th mx n t) = n mod th \<and>
    retx_attempts (silent_passes th mx n t) = n div th \<and>
    tcb_state (silent_passes th mx n t) = tcb_state t"
  using assms(4)
proof (induction n)
  case 0
  then show ?case using assms by (simp add: silent_passes_def)
next
  case (Suc n)
  let ?t = "silent_passes th mx n t"
  have IH: "egress_since_ack ?t = n mod th" "retx_attempts ?t = n div th" "tcb_state ?t = tcb_state t"
    using Suc by auto
  have step: "silent_passes th mx (Suc n) t = fst (retx_one th mx ?t)" by (simp add: silent_passes_def)
  show ?case
  proof (cases "Suc (n mod th) < th")
    case True
    then have "Suc n mod th = Suc (n mod th)" "Suc n div th = n div th"
      by (auto simp: mod_Suc div_Suc)
    then show ?thesis using True IH step by (simp add: retx_one_def Let_def)
  next
    case False
    then have m: "Suc (n mod th) = th" using mod_less_divisor [OF assms(1), of n] by linarith
    then have mod: "Suc n mod th = 0" "Suc n div th = Suc (n div th)" by (auto simp: mod_Suc div_Suc)
    then have "Suc (n div th) * th = Suc n" by (metis add.right_neutral div_mult_mod_eq)
    then have "n div th < mx" using Suc.prems by (metis Suc_eq_plus1 mult.commute nat_mult_less_cancel_disj not_less_eq)
    then show ?thesis using m IH step mod by (simp add: retx_one_def Let_def)
  qed
qed



section \<open>Closing a listener\<close>

definition child_rst :: "Socket \<Rightarrow> Packet list" where
  "child_rst st = (case (bound_endpoint st, tcb st) of
      (Some loc, Some t) \<Rightarrow> [\<lparr>pkt_src = sa_ip loc, pkt_dst = sa_ip (tcb_peer t), pkt_ttl = 64,
         pkt_payload = Tcp (rst_segment loc (tcb_peer t) t)\<rparr>]
    | _ \<Rightarrow> [])"

lemma reset_children_result:
  assumes "reset_children cs k = Some k'" "distinct cs"
  shows "lookup k' = (\<lambda>a. if a \<in> set cs then None else lookup k a) \<and>
    outbound k' = outbound k @ concat (map (\<lambda>c. case lookup k c of None \<Rightarrow> [] | Some st \<Rightarrow> child_rst st) cs)"
  using assms
proof (induction cs arbitrary: k)
  case (Cons c cs)
  have drop: "lookup (put_table (st_remove c (table k1)) k1) = (lookup k1)(c := None)" for k1
    by (simp add: st_get_remove lookup_eq)
  have other: "concat (map (\<lambda>x. case ((lookup k)(c := None)) x of None \<Rightarrow> [] | Some st \<Rightarrow> child_rst st) cs) =
      concat (map (\<lambda>x. case lookup k x of None \<Rightarrow> [] | Some st \<Rightarrow> child_rst st) cs)"
    using Cons.prems(2) by (intro arg_cong [where f = concat] map_cong) auto
  show ?case
  proof (cases "lookup k c")
    case None
    then have "reset_children cs k = Some k'" using Cons.prems by simp
    then show ?thesis using Cons None by (auto intro!: ext)
  next
    case (Some st)
    let ?k1 = "case tcb st of None \<Rightarrow> k | Some t \<Rightarrow>
        emit (the (bound_endpoint st)) (tcb_peer t) (rst_segment (the (bound_endpoint st)) (tcb_peer t) t) k"
    have r: "reset_children cs (put_table (st_remove c (table ?k1)) ?k1) = Some k'"
      and b: "tcb st \<noteq> None \<longrightarrow> bound_endpoint st \<noteq> None"
      using Cons.prems(1) Some by (auto simp: bind_Some_iff split: option.splits)
    have f: "lookup ?k1 = lookup k" "outbound ?k1 = outbound k @ child_rst st"
      using b by (auto simp: child_rst_def split: option.splits)
    have "lookup k' = (\<lambda>a. if a \<in> set cs then None else ((lookup k)(c := None)) a) \<and>
        outbound k' = outbound k @ child_rst st @
          concat (map (\<lambda>x. case lookup k x of None \<Rightarrow> [] | Some st \<Rightarrow> child_rst st) cs)"
      using Cons.IH [OF r] Cons.prems(2) unfolding drop f other by (simp add: f)
    then show ?thesis using Some by (auto intro!: ext)
  qed
qed simp

lemma unaccepted_distinct:
  assumes "kinv X k" "lookup k fd = Some s"
  shows "distinct (unaccepted_children k fd loc)"
proof -
  have "imap_wf (sockets (table k))" using assms(1) by (simp add: kinv_def index_inv_def)
  then have "distinct (map fst (filter P (sockets (table k))))" for P by (rule distinct_map_filter)
  moreover have "distinct (case Option.bind (lookup k fd) listen of None \<Rightarrow> [] | Some l \<Rightarrow> ready l)"
    using kinv_socket(3) [OF assms] assms(2) by (simp add: ready_of_def split: option.splits)
  ultimately show ?thesis by (auto simp: unaccepted_children_def Let_def)
qed

text \<open>
  Closing a listener resets every connection that was never accepted, both those waiting
  in its accept queue and those still in the handshake on its port: each is sent one RST and
  leaves the table, together with the listener; every other socket stays as it was.
\<close>

theorem close_listener_resets:
  assumes inv: "kernel_inv k" and h: "held k fd" and s: "lookup k fd = Some s" "sk_ty s = Stream" "tcb s = None"
    and l: "listen s \<noteq> None" and loc: "bound_endpoint s = Some loc"
  shows "\<exists>k'. kernel_close k fd = Some k' \<and>
    lookup k' = (\<lambda>a. if a = fd \<or> a \<in> set (unaccepted_children k fd loc) then None else lookup k a) \<and>
    outbound k' = outbound k @ concat (map (\<lambda>c. case lookup k c of None \<Rightarrow> [] | Some st \<Rightarrow> child_rst st)
      (unaccepted_children k fd loc))"
proof -
  let ?cs = "unaccepted_children k fd loc"
  have k: "kinv {} k" using inv by (simp add: kernel_inv_def)
  obtain k1 where k1: "reset_children ?cs k = Some k1"
    using reset_children_safe [of fd k ?cs] kinv_mono [OF k, of "{fd}"] unaccepted_children_only_here [OF k s(1)]
    by (auto simp: returns_def)
  have "kernel_close k fd = Some (put_table (st_remove fd (table k1)) k1)"
    using s l loc k1 by (simp add: kernel_close_def on_close_def close_action_def)
  then show ?thesis
    using reset_children_result [OF k1 unaccepted_distinct [OF k s(1)]]
    by (auto simp: st_get_remove lookup_eq)
qed

theorem close_listener_resets_witness:
  "\<exists>k'. kernel_close demo_server 3 = Some k' \<and> lookup k' = (\<lambda>_. None) \<and>
     outbound k' = [\<lparr>pkt_src = sa_ip demo_loc, pkt_dst = sa_ip demo_rem, pkt_ttl = 64,
       pkt_payload = Tcp (rst_segment demo_loc demo_rem (new_tcb SynReceived demo_rem 0 1000 104))\<rparr>]"
proof -
  have h: "held demo_server 3"
    by (auto simp: held_def demo_server_lookup demo_ready split: if_splits)
  have c: "unaccepted_children demo_server 3 demo_loc = [4]"
    by (simp add: unaccepted_children_def demo_server_lookup half_open_on_def)
      (simp add: demo_server_defs bound_endpoint_def new_tcb_def)
  have r: "child_rst demo_child = [\<lparr>pkt_src = sa_ip demo_loc, pkt_dst = sa_ip demo_rem, pkt_ttl = 64,
       pkt_payload = Tcp (rst_segment demo_loc demo_rem (new_tcb SynReceived demo_rem 0 1000 104))\<rparr>]"
    by (simp add: child_rst_def demo_server_defs bound_endpoint_def new_tcb_def)
  have "lookup demo_server 3 = Some demo_listener" "sk_ty demo_listener = Stream" "tcb demo_listener = None"
    "listen demo_listener \<noteq> None" "bound_endpoint demo_listener = Some demo_loc"
    by (simp_all add: demo_server_lookup) (simp_all add: demo_server_defs bound_endpoint_def)
  note * = close_listener_resets [OF demo_server_inv h this]
  have "lookup k' = (\<lambda>_. None)"
    if "lookup k' = (\<lambda>a. if a = 3 \<or> a \<in> set [4] then None else lookup demo_server a)" for k'
    unfolding that by (auto simp: demo_server_lookup)
  moreover have "outbound demo_server = []" by (simp add: demo_server_defs)
  ultimately show ?thesis using * unfolding c by (auto simp: demo_server_lookup r)
qed

section \<open>The handshake\<close>

lemma first_listening_skip:
  assumes "st_get t c = Some s" "listen s = None"
  shows "first_listening t (xs @ c # ys) = first_listening t (xs @ ys)"
  using assms by (induction xs) (auto intro!: arg_cong2 [where f = Option.bind])

lemma first_listening_cong:
  assumes "\<And>fd. fd \<in> set fds \<Longrightarrow> st_get t fd = st_get t' fd"
  shows "first_listening t fds = first_listening t' fds"
  using assms by (induction fds) (auto intro!: arg_cong2 [where f = Option.bind])

lemma accept_syn_result:
  assumes inv: "kinv X k" and l: "lookup k lfd = Some st" "listen st = Some l"
    and room: "count_children k lfd loc + length (ready l) < backlog l"
    and dst: "\<not> is_unspecified (sa_ip loc)"
    and c_def: "c = next_id (table k)"
    and child_def: "child = (Socket_new (sk_domain st) (sk_ty st))\<lparr>bound := Some \<lparr>bk_domain = sk_domain st, bk_ty = sk_ty st,
        local_addr = sa_ip loc, local_port = sa_port loc\<rparr>, sk_peer := Some (Addr_Inet rem),
        tcb := Some (new_tcb SynReceived rem (tcp_isn k) (seg_window sg) (seg_seq sg + 1))\<rparr>"
  obtains k1 where "accept_syn lfd loc rem sg k = Some k1" "lookup k1 = (lookup k)(c \<mapsto> child)"
    "find_connection (table k1) loc rem = Some c" "kinv X k1"
    "outbound k1 = outbound k @ [\<lparr>pkt_src = sa_ip loc, pkt_dst = sa_ip rem, pkt_ttl = 64, pkt_payload = Tcp
       \<lparr>seg_src_port = sa_port loc, seg_dst_port = sa_port rem, seg_seq = tcp_isn k,
        seg_ack = seg_seq sg + 1, seg_flags = no_flags\<lparr>fl_syn := True, fl_ack := True\<rparr>,
        seg_window = DEFAULT_WINDOW, seg_payload = []\<rparr>\<rparr>]"
    "\<forall>key. find_by_bind (table k1) key = find_by_bind (table k) key @
       (if key = \<lparr>bk_domain = sk_domain st, bk_ty = sk_ty st, local_addr = sa_ip loc, local_port = sa_port loc\<rparr>
        then [c] else [])"
proof -
  obtain k1 where k1: "accept_syn lfd loc rem sg k = Some k1" "kinv X k1"
    using accept_syn_safe [OF inv l dst, of rem sg] by (auto simp: returns_def)
  let ?t1 = "snd (st_insert (Socket_new (sk_domain st) (sk_ty st)) (table k))"
  let ?key = "\<lparr>bk_domain = sk_domain st, bk_ty = sk_ty st, local_addr = sa_ip loc, local_port = sa_port loc\<rparr>"
  have ins: "st_insert s t = (next_id t, snd (st_insert s t))" for s t by (simp add: st_insert_def Let_def)
  have tab: "table k1 = (st_modify c (\<lambda>x. x\<lparr>bound := Some ?key, sk_peer := Some (Addr_Inet rem),
       tcb := Some (new_tcb SynReceived rem (tcp_isn k) (seg_window sg) (seg_seq sg + 1))\<rparr>)
         (insert_binding ?key c ?t1))
      \<lparr>connections := imap_insert (loc, rem) c (connections (table k))\<rparr>"
    and out: "outbound k1 = outbound k @ [\<lparr>pkt_src = sa_ip loc, pkt_dst = sa_ip rem, pkt_ttl = 64, pkt_payload = Tcp
       \<lparr>seg_src_port = sa_port loc, seg_dst_port = sa_port rem, seg_seq = tcp_isn k,
        seg_ack = seg_seq sg + 1, seg_flags = no_flags\<lparr>fl_syn := True, fl_ack := True\<rparr>,
        seg_window = DEFAULT_WINDOW, seg_payload = []\<rparr>\<rparr>]"
    using k1(1) l room dst unfolding accept_syn_def Let_def
    by (subst (asm) ins; auto simp: bind_Some_iff initial_sequence_def insert_connection_def c_def
        st_get_insert split: if_splits; simp add: st_insert_def Let_def)+
  have "lookup k1 = (lookup k)(c \<mapsto> child)"
    by (intro ext) (auto simp: lookup_eq tab child_def c_def st_get_def st_modify_def insert_binding_def
        st_insert_def Let_def imap_simps)
  moreover have "find_connection (table k1) loc rem = Some c"
    by (simp add: tab find_connection_def imap_simps)
  moreover have "find_by_bind (table k1) key = find_by_bind (table k) key @ (if key = ?key then [c] else [])" for key
    by (auto simp: tab find_by_bind_def insert_binding_def st_modify_def st_insert_def Let_def imap_simps)
  ultimately show ?thesis using that [OF k1(1)] k1(2) out by simp
qed

text \<open>A new socket that does not listen does not change which listener a port has.\<close>

lemma find_listener_child:
  assumes inv: "kinv X k" and c: "c = next_id (table k)" "lookup k1 = (lookup k)(c \<mapsto> s)" "listen s = None"
    and b: "\<And>key. find_by_bind (table k1) key = find_by_bind (table k) key @ (if key = key' then [c] else [])"
  shows "find_listener k1 loc = find_listener k loc"
proof -
  have new: "c \<notin> set (find_by_bind (table k) key)" for key
    using kinv_bind [OF inv] kinv_socket(1) [OF inv] c(1) by fastforce
  have get: "st_get (table k1) c = Some s" using c(2) by (simp add: lookup_eq [symmetric])
  have skip: "first_listening (table k1) (xs @ (if P then [c] else []) @ ys) = first_listening (table k1) (xs @ ys)"
    for P xs ys using first_listening_skip [OF get c(3)] by simp
  have "first_listening (table k1) (find_by_bind (table k) a @ find_by_bind (table k) b) =
      first_listening (table k) (find_by_bind (table k) a @ find_by_bind (table k) b)" for a b
    by (intro first_listening_cong) (use new c(2) in \<open>auto simp: lookup_eq fun_eq_iff\<close>)
  then show ?thesis using skip [of _ _ "_ @ _"] skip [of _ _ "[]"] skip
    by (simp add: find_listener_def b flip: append_assoc)
qed

lemma find_listener_modify:
  assumes s: "lookup k c = Some s" "listen s = None" "listen (f s) = None"
  shows "find_listener (modify c f k) loc = find_listener k loc"
proof -
  have "first_listening (table (modify c f k)) fds = first_listening (table k) fds" for fds
    using s by (induction fds) (auto simp: lookup_eq intro!: arg_cong2 [where f = Option.bind])
  then show ?thesis by (simp add: find_listener_def find_by_bind_def)
qed

text \<open>
  C34. The passive side of the three-way handshake. A SYN for a listener with room in its
  backlog creates a child socket in \<open>SynReceived\<close>, bound to the address of the packet and
  registered under the connection's endpoints, and queues one SYN-ACK that acknowledges the
  SYN. The acknowledgement of that SYN-ACK moves the child to \<open>Established\<close> and puts it at the
  end of the listener's accept queue; when the queue was empty the next \<^verbatim>\<open>accept\<close> returns that
  child with the address of its peer.
\<close>

theorem passive_handshake:
  assumes inv: "kernel_inv k" and dst: "\<not> is_unspecified (sa_ip loc)"
    and l: "find_connection (table k) loc rem = None" "find_listener k loc = Some (Some lfd)"
      "lookup k lfd = Some st" "listen st = Some l"
    and room: "count_children k lfd loc + length (ready l) < backlog l"
    and syn: "fl_syn (seg_flags sg)" "\<not> fl_ack (seg_flags sg)"
      "seg_dst_port sg = sa_port loc" "seg_src_port sg = sa_port rem"
    and ack: "fl_ack (seg_flags ak)" "\<not> fl_syn (seg_flags ak)" "\<not> fl_rst (seg_flags ak)"
      "seg_dst_port ak = sa_port loc" "seg_src_port ak = sa_port rem" "seg_ack ak = tcp_isn k + 1"
  shows "\<exists>k1 k2 c child. lookup k c = None \<and>
    kernel_deliver k \<lparr>pkt_src = sa_ip rem, pkt_dst = sa_ip loc, pkt_ttl = 64, pkt_payload = Tcp sg\<rparr> = Some k1 \<and>
    outbound k1 = outbound k @ [\<lparr>pkt_src = sa_ip loc, pkt_dst = sa_ip rem, pkt_ttl = 64, pkt_payload = Tcp
       \<lparr>seg_src_port = sa_port loc, seg_dst_port = sa_port rem, seg_seq = tcp_isn k,
        seg_ack = seg_seq sg + 1, seg_flags = no_flags\<lparr>fl_syn := True, fl_ack := True\<rparr>,
        seg_window = DEFAULT_WINDOW, seg_payload = []\<rparr>\<rparr>] \<and>
    lookup k1 = (lookup k)(c \<mapsto> child) \<and> bound_endpoint child = Some loc \<and>
    tcb child = Some (new_tcb SynReceived rem (tcp_isn k) (seg_window sg) (seg_seq sg + 1)) \<and>
    find_connection (table k1) loc rem = Some c \<and>
    kernel_deliver k1 \<lparr>pkt_src = sa_ip rem, pkt_dst = sa_ip loc, pkt_ttl = 64, pkt_payload = Tcp ak\<rparr> = Some k2 \<and>
    outbound k2 = outbound k1 \<and>
    lookup k2 = (lookup k1)(c \<mapsto> child\<lparr>tcb := Some ((new_tcb Established rem (tcp_isn k) (seg_window ak)
         (seg_seq sg + 1)))\<rparr>, lfd \<mapsto> st\<lparr>listen := Some (l\<lparr>ready := ready l @ [c], accept_wakers := []\<rparr>)\<rparr>) \<and>
    (ready l = [] \<longrightarrow> (\<exists>k3. kernel_poll_accept k2 lfd w = Some (Ready (Ok (c, rem)), k3)))"
proof -
  have k: "kinv {} k" using inv by (simp add: kernel_inv_def)
  let ?c = "next_id (table k)"
  define child where "child = (Socket_new (sk_domain st) (sk_ty st))\<lparr>bound := Some \<lparr>bk_domain = sk_domain st,
        bk_ty = sk_ty st, local_addr = sa_ip loc, local_port = sa_port loc\<rparr>, sk_peer := Some (Addr_Inet rem),
        tcb := Some (new_tcb SynReceived rem (tcp_isn k) (seg_window sg) (seg_seq sg + 1))\<rparr>"
  have fresh: "lookup k ?c = None" using kinv_socket(1) [OF k] by fastforce
  have ne: "lfd \<noteq> ?c" using fresh l(3) by auto
  have ends: "SocketAddr (sa_ip a) (sa_port a) = a" for a by (cases a) simp
  obtain k1 where k1: "accept_syn lfd loc rem sg k = Some k1" "lookup k1 = (lookup k)(?c \<mapsto> child)"
    "find_connection (table k1) loc rem = Some ?c" "kinv {} k1"
    and out: "outbound k1 = outbound k @ [\<lparr>pkt_src = sa_ip loc, pkt_dst = sa_ip rem, pkt_ttl = 64, pkt_payload = Tcp
       \<lparr>seg_src_port = sa_port loc, seg_dst_port = sa_port rem, seg_seq = tcp_isn k,
        seg_ack = seg_seq sg + 1, seg_flags = no_flags\<lparr>fl_syn := True, fl_ack := True\<rparr>,
        seg_window = DEFAULT_WINDOW, seg_payload = []\<rparr>\<rparr>]"
    and bd: "\<forall>key. find_by_bind (table k1) key = find_by_bind (table k) key @
       (if key = \<lparr>bk_domain = sk_domain st, bk_ty = sk_ty st, local_addr = sa_ip loc, local_port = sa_port loc\<rparr>
        then [?c] else [])"
    by (rule accept_syn_result [OF k l(3,4) room dst refl child_def]) blast
  have d1: "kernel_deliver k \<lparr>pkt_src = sa_ip rem, pkt_dst = sa_ip loc, pkt_ttl = 64, pkt_payload = Tcp sg\<rparr> = Some k1"
    using k1(1) l(1,2) syn by (simp add: kernel_deliver_def tcp_deliver_def ends)
  have lc: "lookup k1 ?c = Some child" "listen child = None" "lookup k1 lfd = Some st"
    using k1(2) ne l(3) by (auto simp: child_def Socket_new_def)
  note fl = find_listener_child [OF k refl k1(2) lc(2) spec [OF bd]]
  let ?t = "new_tcb Established rem (tcp_isn k) (seg_window ak) (seg_seq sg + 1)"
  let ?k = "modify ?c (\<lambda>st. st\<lparr>tcb := Some ?t\<rparr>) k1"
  have fl2: "find_listener ?k loc = Some (Some lfd)"
    using find_listener_modify [OF lc(1,2), of "\<lambda>st. st\<lparr>tcb := Some ?t\<rparr>" loc] lc(2) fl l(2) by simp
  let ?k2 = "wake (accept_wakers l) (modify lfd
           (\<lambda>s. s\<lparr>listen := Some (l\<lparr>ready := ready l @ [?c], accept_wakers := []\<rparr>)\<rparr>) ?k)"
  have p: "push_to_listener ?c loc ?k = Some ?k2"
    unfolding push_to_listener_def fl2 using ne lc(3) l(4) by simp
  have d2: "kernel_deliver k1 \<lparr>pkt_src = sa_ip rem, pkt_dst = sa_ip loc, pkt_ttl = 64, pkt_payload = Tcp ak\<rparr> = Some ?k2"
    using ack p lc(1) k1(3)
    by (simp add: kernel_deliver_def tcp_deliver_def ends handle_on_connection_def child_def new_tcb_def)
  have lk: "lookup ?k2 = (lookup k1)(?c \<mapsto> child\<lparr>tcb := Some ?t\<rparr>,
      lfd \<mapsto> st\<lparr>listen := Some (l\<lparr>ready := ready l @ [?c], accept_wakers := []\<rparr>)\<rparr>)"
    using lc ne by (intro ext) simp
  have "ready l = [] \<longrightarrow> (\<exists>k3. kernel_poll_accept ?k2 lfd w = Some (Ready (Ok (?c, rem)), k3))"
    using ne lc by (simp add: kernel_poll_accept_def new_tcb_def)
  moreover have "bound_endpoint child = Some loc"
    by (simp add: child_def bound_endpoint_def ends)
  moreover have "tcb child = Some (new_tcb SynReceived rem (tcp_isn k) (seg_window sg) (seg_seq sg + 1))"
    by (simp add: child_def)
  ultimately show ?thesis
    using fresh d1 out k1(2,3) d2 lk
    by (intro exI [of _ k1] exI [of _ ?k2] exI [of _ ?c] exI [of _ child]) simp
qed

theorem passive_handshake_witness:
  "\<exists>k1 k2 k3 c. kernel_deliver demo_server \<lparr>pkt_src = V4 0x0A000003, pkt_dst = V4 0x0A000001, pkt_ttl = 64,
      pkt_payload = Tcp \<lparr>seg_src_port = 6000, seg_dst_port = 80, seg_seq = 7, seg_ack = 0,
        seg_flags = no_flags\<lparr>fl_syn := True\<rparr>, seg_window = 1000, seg_payload = []\<rparr>\<rparr> = Some k1 \<and>
    kernel_deliver k1 \<lparr>pkt_src = V4 0x0A000003, pkt_dst = V4 0x0A000001, pkt_ttl = 64,
      pkt_payload = Tcp \<lparr>seg_src_port = 6000, seg_dst_port = 80, seg_seq = 8, seg_ack = tcp_isn demo_server + 1,
        seg_flags = no_flags\<lparr>fl_ack := True\<rparr>, seg_window = 1000, seg_payload = []\<rparr>\<rparr> = Some k2 \<and>
    kernel_poll_accept k2 3 0 = Some (Ready (Ok (c, SocketAddr (V4 0x0A000003) 6000)), k3)"
proof -
  let ?loc = "SocketAddr (V4 0x0A000001) 80" and ?rem = "SocketAddr (V4 0x0A000003) 6000"
  have a: "\<not> is_unspecified (sa_ip ?loc)" "find_connection (table demo_server) ?loc ?rem = None"
    "find_listener demo_server ?loc = Some (Some 3)" "lookup demo_server 3 = Some demo_listener"
    "listen demo_listener = Some (ListenState_new 8)"
    by (simp_all add: find_connection_def find_listener_def find_by_bind_def exact_key_def wildcard_key_def
        ip_domain_def demo_server_lookup) (simp_all add: demo_server_defs st_get_def)
  have b: "count_children demo_server 3 ?loc + length (ready (ListenState_new 8)) < backlog (ListenState_new 8)"
    by (simp add: count_children_def connections_on_def demo_server_lookup)
      (simp add: demo_server_defs new_tcb_def)
  show ?thesis
    using passive_handshake [OF demo_server_inv a b, where w = 0 and
        sg = "\<lparr>seg_src_port = 6000, seg_dst_port = 80, seg_seq = 7, seg_ack = 0,
          seg_flags = no_flags\<lparr>fl_syn := True\<rparr>, seg_window = 1000, seg_payload = []\<rparr>" and
        ak = "\<lparr>seg_src_port = 6000, seg_dst_port = 80, seg_seq = 8, seg_ack = tcp_isn demo_server + 1,
          seg_flags = no_flags\<lparr>fl_ack := True\<rparr>, seg_window = 1000, seg_payload = []\<rparr>"]
    by (auto simp: no_flags_def ListenState_new_def)
qed

end
