(* ===== verification/Tcp_Limits.thy ===== *)
theory Tcp_Limits
  imports Tcp_Props
begin

text \<open>
  Where the TCP code of \<^verbatim>\<open>turmoil-net\<close> stops short of TCP, each as a theorem on the model: an
  out-of-order or duplicate segment is not acknowledged, a read smaller than half the buffer
  never reopens the window, an MTU without room for payload makes segmentation loop forever,
  and an explicit connect from a wildcard-bound socket fails an assertion.
\<close>

section \<open>Acknowledgements\<close>

text \<open>
  A segment whose bytes are not exactly the next ones (a duplicate after a lost
  acknowledgement, or one after a gap) changes neither the receive buffer nor the expected
  sequence number and is answered by nothing at all. A sender whose acknowledgement was lost
  therefore never hears of it again and runs into its retransmission limit.
\<close>

theorem stale_segment_unanswered:
  assumes s: "lookup k fd = Some st" "tcb st = Some t"
    and sq: "seg_seq sg \<noteq> rcv_nxt t" "seg_seq sg + of_nat (length (seg_payload sg)) \<noteq> rcv_nxt t \<or> \<not> fl_fin (seg_flags sg)"
    and r: "handle_established fd loc rem sg k = Some k'"
  shows "outbound k' = outbound k \<and> (\<exists>st' t'. lookup k' fd = Some st' \<and> tcb st' = Some t' \<and>
    recv_buf t' = recv_buf t \<and> rcv_nxt t' = rcv_nxt t \<and> peer_fin t' = peer_fin t)"
proof -
  obtain t1 where t1: "est_ack sg t = Some t1" using r s by (cases "est_ack sg t") (simp_all add: handle_established_def)
  have "rcv_nxt t1 = rcv_nxt t" "recv_buf t1 = recv_buf t" "peer_fin t1 = peer_fin t"
    using t1 by (auto simp: est_ack_def Let_def bind_Some_iff split: if_splits)
  moreover from this have "est_data c sg t1 = (t1, False)" "est_fin sg t1 = (t1, False)" for c
    using sq by (auto simp: est_data_def est_fin_def)
  ultimately show ?thesis using r s t1
    by (auto simp: handle_established_def Let_def wake_write_def split: if_splits prod.splits)
qed

theorem stale_segment_unanswered_witness:
  "\<exists>k'. handle_established 3 demo_loc demo_rem
     \<lparr>seg_src_port = 5000, seg_dst_port = 80, seg_seq = 101, seg_ack = 0, seg_flags = no_flags,
      seg_window = 1000, seg_payload = [1, 2, 3]\<rparr> demo_host = Some k' \<and> outbound k' = outbound demo_host"
proof -
  let ?sg = "\<lparr>seg_src_port = 5000, seg_dst_port = 80, seg_seq = 101, seg_ack = 0, seg_flags = no_flags,
      seg_window = 1000, seg_payload = [1, 2, 3]\<rparr> :: TcpSegment"
  obtain k' where k': "handle_established 3 demo_loc demo_rem ?sg demo_host = Some k'"
    by (simp add: handle_established_def est_ack_def est_data_def est_fin_def no_flags_def demo_tcb_def new_tcb_def)
  then show ?thesis
    using stale_segment_unanswered [OF demo_lookup(1,2) _ _ k'] by (auto simp: demo_tcb_def new_tcb_def no_flags_def)
qed

section \<open>The receive window\<close>

text \<open>
  A read of fewer bytes than half the receive buffer sends no window update, whatever the
  window was before it: after the buffer has filled up and the peer has seen a zero window,
  a reader that takes small bites can empty the whole buffer without the peer ever being told.
\<close>

theorem small_read_no_update:
  assumes s: "lookup k fd = Some st" "tcb st = Some t"
    and small: "length (concat bufs) < recv_buf_cap k div 2"
    and r: "tcp_poll_recv_vectored k fd cx bufs = Some (p, bufs', k')"
  shows "outbound k' = outbound k"
proof -
  obtain n rest b where d: "drain_into (recv_buf t) bufs = (n, rest, b)" by (metis prod_cases3)
  have "n < recv_buf_cap k div 2" using drain_into_spec(1) [OF d] small by simp
  then show ?thesis using s r d
    by (auto simp: tcp_poll_recv_vectored_def Let_def bind_Some_iff split: if_splits option.splits)
qed

definition full_host :: Kernel where
  "full_host = modify 3 (\<lambda>s. s\<lparr>tcb := Some (demo_tcb\<lparr>recv_buf := [1, 2, 3, 4]\<rparr>)\<rparr>) (demo_host\<lparr>recv_buf_cap := 4\<rparr>)"

theorem small_read_no_update_witness:
  "\<exists>p bufs' k'. tcp_poll_recv_vectored full_host 3 None [[0]] = Some (p, bufs', k') \<and>
     advertised_window (recv_buf_cap full_host) (length [1, 2, 3, 4 :: u8]) = 0 \<and> outbound k' = outbound full_host"
proof -
  have l: "lookup full_host 3 = Some (demo_sock\<lparr>tcb := Some (demo_tcb\<lparr>recv_buf := [1, 2, 3, 4]\<rparr>)\<rparr>)"
    "recv_buf_cap full_host = 4"
    by (simp_all add: full_host_def) (simp add: lookup_def demo_host_def st_get_def)
  moreover have "bound_endpoint (demo_sock\<lparr>tcb := x\<rparr>) = Some demo_loc" for x
    using demo_lookup(3) by (simp add: bound_endpoint_def)
  ultimately obtain p bufs' k' where r: "tcp_poll_recv_vectored full_host 3 None [[0]] = Some (p, bufs', k')"
    by (auto simp: tcp_poll_recv_vectored_def Let_def abort_error_def demo_tcb_def new_tcb_def)
  then show ?thesis using small_read_no_update [OF l(1) _ _ r] l(2) by (simp add: advertised_window_def)
qed

section \<open>Configuration\<close>

lemma segment_loop_stuck:
  assumes "lookup k fd = Some st" "tcb st = Some t" "sendable t \<noteq> []" "segment_loop fd loc 0 k = Some k'"
  shows False
  using assms(4,1-3)
proof (induction fd loc "0 :: nat" k k' arbitrary: st
    rule: segment_loop.raw_induct [rotated, consumes 1, case_names step])
  case (step loop fd loc k k')
  have n: "segment_next 0 t = Some (snd_nxt t, [], False, t)"
    using assms(3) by (simp add: segment_next_def sendable_def in_flight_def Let_def)
  let ?k = "emit loc (tcb_peer t) (data_segment loc (recv_buf_cap k) t (snd_nxt t) [] False)
     (modify fd (\<lambda>s. s\<lparr>tcb := Some t\<rparr>) k)"
  have "loop fd loc 0 ?k = Some k'" using step(2-) n by simp
  then show ?case using step.prems step(1) [of fd loc ?k k' "st\<lparr>tcb := Some t\<rparr>"] by simp
qed

text \<open>
  An interface MTU that leaves no room for payload after the IPv4 and TCP headers is
  accepted by the configuration, and the first byte an application sends over it makes
  segmentation queue empty segments forever.
\<close>

theorem tiny_mtu_never_returns:
  assumes s: "lookup k fd = Some st" "tcb st = Some t" "sendable t \<noteq> []" "bound_endpoint st = Some (SocketAddr (V4 a) p)"
    and m: "\<not> is_loopback (V4 a)" "mtu k \<le> IPV4_HEADER_SIZE + TCP_HEADER_SIZE"
  shows "segment_one fd k = None"
proof -
  have "mss_for k (V4 a) = 0" using m by (simp add: mss_for_def)
  then show ?thesis using s segment_loop_stuck [OF s(1-3)] by (cases "segment_one fd k") (auto simp: segment_one_def)
qed

theorem tiny_mtu_never_returns_witness: "segment_one 3 (demo_host\<lparr>mtu := 40\<rparr>) = None"
proof -
  have "lookup (demo_host\<lparr>mtu := 40\<rparr>) 3 = Some demo_sock" by (simp add: lookup_def demo_host_def st_get_def)
  moreover have "sendable demo_tcb \<noteq> []"
    by (simp add: sendable_def in_flight_def demo_tcb_def new_tcb_def)
  ultimately show ?thesis
    using tiny_mtu_never_returns [of "demo_host\<lparr>mtu := 40\<rparr>" 3 demo_sock demo_tcb "0x0A000001" 80] demo_lookup(2,3)
    by (simp add: demo_loc_def header_sizes)
qed

text \<open>
  Connecting a TCP socket that was bound to the wildcard address, which the operating
  system allows, fails the assertion that connection keys are concrete: the local endpoint is
  resolved before the control block with the peer's address exists.
\<close>

theorem wildcard_connect_panics:
  assumes s: "lookup k fd = Some st" "sk_ty st = Stream" "tcb st = None" "bound st = Some key"
    and w: "is_unspecified (local_addr key)" and f: "family_matches (sk_domain st) peer"
  shows "kernel_poll_connect k fd wk (Addr_Inet peer) = None"
  using assms by (simp add: kernel_poll_connect_def tcp_poll_connect_def connect_syn_def local_endpoint_def
      insert_connection_def Let_def initial_sequence_def lookup_eq)

theorem wildcard_connect_panics_witness:
  "\<exists>fd k. kernel_bind Kernel_new (Addr_Inet (SocketAddr (V4 0) 80)) Stream = Some (Ok fd, k) \<and>
     kernel_poll_connect k fd 0 (Addr_Inet demo_rem) = None"
proof -
  let ?st = "(Socket_new Inet Stream)\<lparr>bound := Some (wildcard_key Stream (V4 1) 80)\<rparr>"
  obtain fd k where k: "kernel_bind Kernel_new (Addr_Inet (SocketAddr (V4 0) 80)) Stream = Some (Ok fd, k)"
    "lookup k fd = Some ?st"
    by (simp add: kernel_bind_def bind_port_def bind_key_to_def bind_conflict_def
      bindings_on_port_def Kernel_new_def Kernel_with_config_def SocketTable_new_def mk_socket_def
      st_insert_def st_get_def find_by_bind_def wildcard_key_def ip_domain_def Let_def
      st_modify_def insert_binding_def lookup_def)
  then show ?thesis
    using wildcard_connect_panics [OF k(2), of _ demo_rem 0]
    by (auto simp: Socket_new_def wildcard_key_def family_matches_def demo_rem_def)
qed

end
