(* ===== verification/Net_Show.thy ===== *)
theory Net_Show
  imports Net_Addr
begin

text \<open>
  How the standard library prints addresses: dotted decimal octets, colon-separated hexadecimal
  groups with the first longest run of zero groups compressed, and brackets around an IPv6
  address before a port.
\<close>

definition show_ipv4 :: "u32 \<Rightarrow> string" where
  "show_ipv4 a =
     decimal (unat (drop_bit 24 a)) @ ''.'' @ decimal (unat (and (drop_bit 16 a) 0xFF)) @ ''.'' @
     decimal (unat (and (drop_bit 8 a) 0xFF)) @ ''.'' @ decimal (unat (and a 0xFF))"

definition segments :: "u128 \<Rightarrow> nat list" where
  "segments a = map (\<lambda>i. unat (and (drop_bit (112 - 16 * i) a) 0xFFFF)) [0 ..< 8]"

text \<open>The first longest run of zero groups, as its start and its length.\<close>

fun longest_zeros :: "nat \<Rightarrow> nat \<times> nat \<Rightarrow> nat \<times> nat \<Rightarrow> nat list \<Rightarrow> nat \<times> nat" where
  "longest_zeros i cur best [] = best"
| "longest_zeros i (cs, cl) (bs, bl) (x # xs) =
     (if x = 0 then
        (let cur = (if cl = 0 then i else cs, cl + 1)
         in longest_zeros (i + 1) cur (if bl < snd cur then cur else (bs, bl)) xs)
      else longest_zeros (i + 1) (0, 0) (bs, bl) xs)"

fun join :: "string \<Rightarrow> string list \<Rightarrow> string" where
  "join sep [] = []"
| "join sep [x] = x"
| "join sep (x # y # ys) = x @ sep @ join sep (y # ys)"

definition show_ipv6 :: "u128 \<Rightarrow> string" where
  "show_ipv6 a =
     (if drop_bit 32 a = 0xFFFF then ''::ffff:'' @ show_ipv4 (ucast a)
      else
        (let segs = segments a;
             hex = map (radix_string 16) segs;
             (start, len) = longest_zeros 0 (0, 0) (0, 0) segs
         in if 1 < len then join '':'' (take start hex) @ ''::'' @ join '':'' (drop (start + len) hex)
            else join '':'' hex))"

fun show_socket_addr :: "SocketAddr \<Rightarrow> string" where
  "show_socket_addr (SocketAddr (V4 a) p) = show_ipv4 a @ '':'' @ decimal (unat p)"
| "show_socket_addr (SocketAddr (V6 a) p) = ''['' @ show_ipv6 a @ '']:'' @ decimal (unat p)"

fun show_ip :: "IpAddr \<Rightarrow> string" where
  "show_ip (V4 a) = show_ipv4 a"
| "show_ip (V6 a) = show_ipv6 a"

end
