(* ===== verification/Netstat.thy ===== *)
theory Netstat
  imports Tcp_Props Net_Show
begin

text \<open>
  \<^verbatim>\<open>turmoil-net/src/netstat.rs\<close>: the snapshot of a host's socket table and its printed form.
\<close>

section \<open>The snapshot\<close>

datatype Proto = Proto_Tcp | Proto_Udp

datatype NetstatState =
    NS_Listen | NS_SynSent | NS_SynReceived | NS_Established | NS_FinWait1 | NS_FinWait2 | NS_CloseWait
  | NS_LastAck | NS_Closing | NS_Closed

record NetstatEntry =
  ns_proto :: Proto
  ns_recv_q :: nat
  ns_send_q :: nat
  ns_local :: SocketAddr
  ns_peer :: "SocketAddr option"
  ns_state :: "NetstatState option"

fun NetstatState_from :: "TcpState \<Rightarrow> NetstatState" where
  "NetstatState_from SynSent = NS_SynSent"
| "NetstatState_from SynReceived = NS_SynReceived"
| "NetstatState_from Established = NS_Established"
| "NetstatState_from FinWait1 = NS_FinWait1"
| "NetstatState_from FinWait2 = NS_FinWait2"
| "NetstatState_from CloseWait = NS_CloseWait"
| "NetstatState_from LastAck = NS_LastAck"
| "NetstatState_from Closing = NS_Closing"
| "NetstatState_from Closed = NS_Closed"

definition tcb_entry :: "Tcb \<Rightarrow> SocketAddr \<Rightarrow> NetstatEntry" where
  "tcb_entry t loc = \<lparr>ns_proto = Proto_Tcp, ns_recv_q = length (recv_buf t), ns_send_q = length (send_buf t),
     ns_local = loc, ns_peer = Some (tcb_peer t), ns_state = Some (NetstatState_from (tcb_state t))\<rparr>"

definition listen_entry :: "ListenState \<Rightarrow> SocketAddr \<Rightarrow> NetstatEntry" where
  "listen_entry l loc = \<lparr>ns_proto = Proto_Tcp, ns_recv_q = length (ready l), ns_send_q = backlog l,
     ns_local = loc, ns_peer = None, ns_state = Some NS_Listen\<rparr>"

definition udp_entry :: "Socket \<Rightarrow> SocketAddr \<Rightarrow> NetstatEntry" where
  "udp_entry s loc = \<lparr>ns_proto = Proto_Udp, ns_recv_q = sum_list (map (\<lambda>(_, b). length b) (recv_queue s)),
     ns_send_q = 0, ns_local = loc, ns_peer = None, ns_state = None\<rparr>"

definition tcp_entry :: "Socket \<Rightarrow> SocketAddr \<Rightarrow> NetstatEntry option" where
  "tcp_entry s loc =
     (case tcb s of
        Some t \<Rightarrow> if tcb_state t = Closed then None else Some (tcb_entry t loc)
      | None \<Rightarrow> (case listen s of Some l \<Rightarrow> Some (listen_entry l loc) | None \<Rightarrow> None))"

definition entry_for :: "Socket \<Rightarrow> NetstatEntry option" where
  "entry_for s =
     (case bound s of
        None \<Rightarrow> None
      | Some b \<Rightarrow>
          (let loc = SocketAddr (local_addr b) (local_port b)
           in case sk_ty s of
                Stream \<Rightarrow> tcp_entry s loc
              | Dgram \<Rightarrow> Some (udp_entry s loc)
              | SeqPacket \<Rightarrow> None))"

definition snapshot :: "Kernel \<Rightarrow> NetstatEntry list" where
  "snapshot k = List.map_filter (\<lambda>(_, s). entry_for s) (sockets (table k))"

section \<open>The table\<close>

fun show_proto :: "Proto \<Rightarrow> string" where
  "show_proto Proto_Tcp = ''tcp''"
| "show_proto Proto_Udp = ''udp''"

fun show_state :: "NetstatState \<Rightarrow> string" where
  "show_state NS_Listen = ''LISTEN''"
| "show_state NS_SynSent = ''SYN_SENT''"
| "show_state NS_SynReceived = ''SYN_RCVD''"
| "show_state NS_Established = ''ESTABLISHED''"
| "show_state NS_FinWait1 = ''FIN_WAIT1''"
| "show_state NS_FinWait2 = ''FIN_WAIT2''"
| "show_state NS_CloseWait = ''CLOSE_WAIT''"
| "show_state NS_LastAck = ''LAST_ACK''"
| "show_state NS_Closing = ''CLOSING''"
| "show_state NS_Closed = ''CLOSED''"

definition HEADERS :: "string list" where
  "HEADERS = [''Proto'', ''Recv-Q'', ''Send-Q'', ''Local Address'', ''Foreign Address'', ''State'']"

definition netstat_row :: "NetstatEntry \<Rightarrow> string list" where
  "netstat_row e =
     [show_proto (ns_proto e), decimal (ns_recv_q e), decimal (ns_send_q e), show_socket_addr (ns_local e),
      case ns_peer e of None \<Rightarrow> ''*:*'' | Some p \<Rightarrow> show_socket_addr p,
      case ns_state e of None \<Rightarrow> [] | Some s \<Rightarrow> show_state s]"

text \<open>\<^verbatim>\<open>{:>w$}\<close> and \<^verbatim>\<open>{:<w$}\<close>: padding with blanks on the left and on the right.\<close>

definition pad_left :: "nat \<Rightarrow> string \<Rightarrow> string" where
  "pad_left w s = replicate (w - length s) CHR '' '' @ s"

definition pad_right :: "nat \<Rightarrow> string \<Rightarrow> string" where
  "pad_right w s = s @ replicate (w - length s) CHR '' ''"

definition print_cell :: "nat \<Rightarrow> nat \<Rightarrow> nat \<Rightarrow> string \<Rightarrow> string" where
  "print_cell n i w cell =
     (if 0 < i then '' '' else []) @
     (if i = n - 1 then cell else if i = 1 \<or> i = 2 then pad_left w cell else pad_right w cell)"

definition write_row :: "string list \<Rightarrow> nat list \<Rightarrow> string" where
  "write_row row widths =
     concat (map (\<lambda>i. print_cell (length row) i (widths ! i) (row ! i)) [0 ..< length row]) @ [CHR 0x0A]"

definition widen :: "string list \<Rightarrow> nat list \<Rightarrow> nat list" where
  "widen row widths = map2 max widths (map length row)"

definition netstat_display :: "NetstatEntry list \<Rightarrow> string" where
  "netstat_display entries =
     (let rows = map netstat_row entries;
          widths = fold widen rows (map length HEADERS)
      in write_row HEADERS widths @ concat (map (\<lambda>row. write_row row widths) rows))"

section \<open>What the snapshot shows\<close>

lemma closed_only [simp]: "NetstatState_from x = NS_Closed \<longleftrightarrow> x = Closed"
  by (cases x) simp_all

lemma tcp_entry_local: "tcp_entry s loc = Some e \<Longrightarrow> ns_local e = loc \<and> ns_state e \<noteq> Some NS_Closed"
  by (auto simp: tcp_entry_def tcb_entry_def listen_entry_def split: option.splits if_splits)

lemma entry_for_local:
  "entry_for s = Some e \<Longrightarrow> ns_state e \<noteq> Some NS_Closed \<and> bound_endpoint s = Some (ns_local e)"
  by (cases "sk_ty s") (auto simp: entry_for_def bound_endpoint_def udp_entry_def Let_def split: option.splits dest: tcp_entry_local)

lemma snapshot_rows:
  assumes "kernel_inv k"
  shows "\<lbrakk>lookup k fd = Some s; sk_ty s = Stream; tcb s = Some t; tcb_state t \<noteq> Closed\<rbrakk> \<Longrightarrow>
      \<exists>loc e. bound_endpoint s = Some loc \<and> e \<in> set (snapshot k) \<and> ns_local e = loc \<and> ns_peer e = Some (tcb_peer t) \<and>
        ns_recv_q e = length (recv_buf t) \<and> ns_send_q e = length (send_buf t) \<and>
        ns_send_q e \<le> send_buf_cap k \<and> ns_state e = Some (NetstatState_from (tcb_state t))"
    and "\<lbrakk>lookup k fd = Some s; sk_ty s = Stream; tcb s = None; listen s = Some l\<rbrakk> \<Longrightarrow>
      \<exists>loc e. bound_endpoint s = Some loc \<and> e \<in> set (snapshot k) \<and> ns_local e = loc \<and> ns_peer e = None \<and>
        ns_recv_q e = length (ready l) \<and> ns_send_q e = backlog l \<and> ns_state e = Some NS_Listen"
    and "e \<in> set (snapshot k) \<Longrightarrow> ns_state e \<noteq> Some NS_Closed \<and>
      (\<exists>fd s. lookup k fd = Some s \<and> bound_endpoint s = Some (ns_local e))"
proof -
  have in_table: "(fd, s) \<in> set (sockets (table k))" if "lookup k fd = Some s" for fd s
    using that by (simp add: lookup_def st_get_def map_of_SomeD)
  have wf: "sock_wf (send_buf_cap k) s" if "lookup k fd = Some s" for fd s
    using that assms by (auto simp: kernel_inv_def kinv_def sockets_inv_def lookup_def)
  have row: "e \<in> set (snapshot k)" if "lookup k fd = Some s" "entry_for s = Some e" for fd s e
    using that in_table by (force simp: snapshot_def List.map_filter_def)
  show "\<exists>loc e. bound_endpoint s = Some loc \<and> e \<in> set (snapshot k) \<and> ns_local e = loc \<and> ns_peer e = Some (tcb_peer t) \<and>
        ns_recv_q e = length (recv_buf t) \<and> ns_send_q e = length (send_buf t) \<and>
        ns_send_q e \<le> send_buf_cap k \<and> ns_state e = Some (NetstatState_from (tcb_state t))"
    if s: "lookup k fd = Some s" "sk_ty s = Stream" "tcb s = Some t" "tcb_state t \<noteq> Closed"
  proof -
    from wf [OF s(1)] s(3) obtain b where b: "bound s = Some b" and cap: "length (send_buf t) \<le> send_buf_cap k"
      by (auto simp: sock_wf_def tcb_wf_def)
    have "entry_for s = Some (tcb_entry t (SocketAddr (local_addr b) (local_port b)))"
      by (simp add: entry_for_def tcp_entry_def b s)
    from row [OF s(1) this] b cap show ?thesis by (fastforce simp: bound_endpoint_def tcb_entry_def)
  qed
  show "\<exists>loc e. bound_endpoint s = Some loc \<and> e \<in> set (snapshot k) \<and> ns_local e = loc \<and> ns_peer e = None \<and>
        ns_recv_q e = length (ready l) \<and> ns_send_q e = backlog l \<and> ns_state e = Some NS_Listen"
    if s: "lookup k fd = Some s" "sk_ty s = Stream" "tcb s = None" "listen s = Some l"
  proof -
    from wf [OF s(1)] s(4) obtain b where b: "bound s = Some b" by (auto simp: sock_wf_def)
    have "entry_for s = Some (listen_entry l (SocketAddr (local_addr b) (local_port b)))"
      by (simp add: entry_for_def tcp_entry_def b s)
    from row [OF s(1) this] b show ?thesis by (fastforce simp: bound_endpoint_def listen_entry_def)
  qed
  show "ns_state e \<noteq> Some NS_Closed \<and> (\<exists>fd s. lookup k fd = Some s \<and> bound_endpoint s = Some (ns_local e))"
    if "e \<in> set (snapshot k)"
  proof -
    from that obtain fd s where s: "(fd, s) \<in> set (sockets (table k))" "entry_for s = Some e"
      by (auto simp: snapshot_def List.map_filter_def split: prod.splits)
    have "imap_wf (sockets (table k))" using assms by (simp add: kernel_inv_def kinv_def index_inv_def)
    with s(1) have "lookup k fd = Some s" by (simp add: lookup_def st_get_def)
    with entry_for_local [OF s(2)] show ?thesis by blast
  qed
qed

text \<open>
  C38. In a consistent kernel the snapshot has a row for every connection that is not closed and
  one for every listener, with the bytes waiting on each side, and never shows a closed
  connection; every row is the row of a bound socket.
\<close>

theorem snapshot_shows_connections:
  assumes "kernel_inv k"
  shows "(\<forall>fd s t. lookup k fd = Some s \<and> sk_ty s = Stream \<and> tcb s = Some t \<and> tcb_state t \<noteq> Closed \<longrightarrow>
      (\<exists>loc e. bound_endpoint s = Some loc \<and> e \<in> set (snapshot k) \<and> ns_local e = loc \<and> ns_peer e = Some (tcb_peer t) \<and>
        ns_recv_q e = length (recv_buf t) \<and> ns_send_q e = length (send_buf t) \<and>
        ns_send_q e \<le> send_buf_cap k \<and> ns_state e = Some (NetstatState_from (tcb_state t)))) \<and>
    (\<forall>fd s l. lookup k fd = Some s \<and> sk_ty s = Stream \<and> tcb s = None \<and> listen s = Some l \<longrightarrow>
      (\<exists>loc e. bound_endpoint s = Some loc \<and> e \<in> set (snapshot k) \<and> ns_local e = loc \<and> ns_peer e = None \<and>
        ns_recv_q e = length (ready l) \<and> ns_send_q e = backlog l \<and> ns_state e = Some NS_Listen)) \<and>
    (\<forall>e\<in>set (snapshot k). ns_state e \<noteq> Some NS_Closed \<and>
      (\<exists>fd s. lookup k fd = Some s \<and> bound_endpoint s = Some (ns_local e)))"
  using snapshot_rows [OF assms] by blast


section \<open>The table can be read back\<close>

text \<open>A reader of the table: lines, and the words of a line.\<close>

function split_on :: "char \<Rightarrow> string \<Rightarrow> string list" where
  "split_on c s =
     (case dropWhile (\<lambda>x. x = c) s of
        [] \<Rightarrow> []
      | t \<Rightarrow> takeWhile (\<lambda>x. x \<noteq> c) t # split_on c (dropWhile (\<lambda>x. x \<noteq> c) t))"
  by pat_completeness auto
termination
proof (relation "measure (\<lambda>(c, s). length s)")
  fix c :: char and s x xs
  assume d: "dropWhile (\<lambda>x. x = c) s = x # xs"
  then have "x \<noteq> c" by (simp add: dropWhile_eq_Cons_conv)
  moreover have "length (x # xs) \<le> length s" using length_dropWhile_le [of "\<lambda>x. x = c" s] by (simp only: d)
  moreover have "length (dropWhile (\<lambda>x. x \<noteq> c) xs) \<le> length xs" by (rule length_dropWhile_le)
  ultimately show "((c, dropWhile (\<lambda>x. x \<noteq> c) (x # xs)), c, s) \<in> measure (\<lambda>(c, s). length s)" by simp
qed simp

declare split_on.simps [simp del]

lemma split_on_sep [simp]: "split_on c (c # s) = split_on c s"
  by (simp add: split_on.simps)

lemma split_on_nil [simp]: "split_on c [] = []"
  by (simp add: split_on.simps)

lemma split_on_blanks [simp]: "split_on c (replicate n c @ s) = split_on c s"
  by (induction n) simp_all

lemma split_on_word: "c \<notin> set w \<Longrightarrow> split_on c (w @ c # s) = (if w = [] then [] else [w]) @ split_on c s"
proof (cases w)
  case (Cons x xs)
  assume "c \<notin> set w"
  then have "x \<noteq> c" "\<forall>y \<in> set xs. y \<noteq> c" using Cons by auto
  with Cons show ?thesis by (subst split_on.simps) (simp add: takeWhile_append2 dropWhile_append2)
qed simp

lemma split_on_last: "c \<notin> set w \<Longrightarrow> split_on c w = (if w = [] then [] else [w])"
proof (cases w)
  case (Cons x xs)
  assume "c \<notin> set w"
  then have "x \<noteq> c" "\<forall>y \<in> set xs. y \<noteq> c" using Cons by auto
  with Cons show ?thesis
    by (subst split_on.simps) (simp add: takeWhile_eq_all_conv [THEN iffD2] dropWhile_eq_Nil_conv [THEN iffD2])
qed simp

text \<open>Text without blanks and line breaks.\<close>

definition plain :: "string \<Rightarrow> bool" where
  "plain s \<longleftrightarrow> CHR '' '' \<notin> set s \<and> CHR 0x0A \<notin> set s"

lemma plain_simps [simp]:
  "plain []" "plain (x # s) = (x \<noteq> CHR '' '' \<and> x \<noteq> CHR 0x0A \<and> plain s)" "plain (s @ t) = (plain s \<and> plain t)"
  by (auto simp: plain_def)

lemma plain_digit: "d < 16 \<Longrightarrow> digit_char d \<noteq> CHR '' '' \<and> digit_char d \<noteq> CHR 0x0A"
proof -
  assume "d < 16"
  then have "of_char (digit_char d) = (if d < 10 then 48 + d else 87 + d)" by (simp add: digit_char_def)
  then show ?thesis by (auto dest: arg_cong [where f = "of_char :: char \<Rightarrow> nat"] split: if_splits)
qed

lemma plain_radix: "\<lbrakk>1 < b; b \<le> 16\<rbrakk> \<Longrightarrow> plain (radix_string b n)"
proof (induction b n rule: radix_string.induct)
  case (1 b n)
  have "n mod b < 16" using 1 by (meson less_le_trans mod_less_divisor order.strict_trans zero_less_one)
  with 1 plain_digit [of n] plain_digit [of "n mod b"] show ?case by (subst radix_string.simps) auto
qed

lemma plain_decimal [simp]: "plain (decimal n)" "decimal n \<noteq> []"
  by (simp_all add: decimal_def plain_radix) (simp add: radix_string.simps)

lemma plain_join: "\<lbrakk>plain sep; \<forall>x \<in> set xs. plain x\<rbrakk> \<Longrightarrow> plain (join sep xs)"
  by (induction sep xs rule: join.induct) auto

lemma plain_ipv4 [simp]: "plain (show_ipv4 a)"
  by (simp add: show_ipv4_def)

lemma plain_ipv6 [simp]: "plain (show_ipv6 a)"
  by (auto simp: show_ipv6_def Let_def intro!: plain_join plain_radix dest!: in_set_takeD in_set_dropD split: prod.split)

lemma plain_addr [simp]: "plain (show_socket_addr a)" "show_socket_addr a \<noteq> []"
  by (cases a rule: show_socket_addr.cases; simp)+

lemma plain_state: "plain (show_state s)"
  by (cases s) simp_all

lemma plain_row: "\<forall>c \<in> set (netstat_row e). plain c"
  by (cases "ns_proto e") (auto simp: netstat_row_def plain_state split: option.split)

text \<open>A row of six plain cells, all but the last non-empty, is printed so that its words are its cells.\<close>

lemma write_row_words:
  assumes "plain a" "plain b" "plain c" "plain d" "plain e" "plain f"
    and "a \<noteq> []" "b \<noteq> []" "c \<noteq> []" "d \<noteq> []" "e \<noteq> []"
  shows "\<exists>line. write_row [a, b, c, d, e, f] w = line @ [CHR 0x0A] \<and> CHR 0x0A \<notin> set line \<and> line \<noteq> [] \<and>
    split_on CHR '' '' line = [a, b, c, d, e] @ (if f = [] then [] else [f])"
proof -
  let ?line = "pad_right (w ! 0) a @ '' '' @ pad_left (w ! 1) b @ '' '' @ pad_left (w ! 2) c @ '' '' @
    pad_right (w ! 3) d @ '' '' @ pad_right (w ! 4) e @ '' '' @ f"
  have row: "write_row [a, b, c, d, e, f] w = ?line @ [CHR 0x0A]"
    by (simp add: write_row_def print_cell_def upt_rec eval_nat_numeral)
  have padr: "split_on CHR '' '' (pad_right n x @ CHR '' '' # s) = x # split_on CHR '' '' s" if "plain x" "x \<noteq> []" for n x s
  proof -
    have eq: "pad_right n x @ CHR '' '' # s = x @ CHR '' '' # replicate (n - length x) CHR '' '' @ s"
      using replicate_app_Cons_same [of "n - length x" "CHR '' ''" s] by (simp add: pad_right_def)
    show ?thesis unfolding eq using that by (simp add: split_on_word plain_def)
  qed
  have padl: "split_on CHR '' '' (pad_left n x @ CHR '' '' # s) = x # split_on CHR '' '' s" if "plain x" "x \<noteq> []" for n x s
    using that by (simp add: pad_left_def split_on_word plain_def)
  have "split_on CHR '' '' ?line = [a, b, c, d, e] @ (if f = [] then [] else [f])"
    using assms by (simp add: padr padl split_on_last plain_def)
  moreover have "CHR 0x0A \<notin> set ?line" using assms by (auto simp: plain_def pad_left_def pad_right_def)
  ultimately show ?thesis using row by blast
qed

definition words_of :: "NetstatEntry \<Rightarrow> string list" where
  "words_of e = filter (\<lambda>c. c \<noteq> []) (netstat_row e)"

lemma entry_words:
  "\<exists>line. write_row (netstat_row e) w = line @ [CHR 0x0A] \<and> CHR 0x0A \<notin> set line \<and> line \<noteq> [] \<and>
     split_on CHR '' '' line = words_of e"
proof -
  define a where "a = show_proto (ns_proto e)"
  define p where "p = (case ns_peer e of None \<Rightarrow> ''*:*'' | Some p \<Rightarrow> show_socket_addr p)"
  define f where "f = (case ns_state e of None \<Rightarrow> [] | Some s \<Rightarrow> show_state s)"
  have ne: "a \<noteq> []" "p \<noteq> []" by (cases "ns_proto e", simp_all add: a_def p_def split: option.split)
  have row: "netstat_row e = [a, decimal (ns_recv_q e), decimal (ns_send_q e), show_socket_addr (ns_local e), p, f]"
    by (simp add: netstat_row_def a_def p_def f_def)
  have "plain a" "plain p" "plain f" using plain_row [of e] row by simp_all
  moreover have "words_of e = [a, decimal (ns_recv_q e), decimal (ns_send_q e), show_socket_addr (ns_local e), p] @
      (if f = [] then [] else [f])"
    using ne by (simp add: words_of_def row)
  ultimately show ?thesis
    unfolding row using write_row_words ne by (metis plain_addr plain_decimal)
qed

lemma newline_row: "\<forall>c \<in> set row. CHR 0x0A \<notin> set c \<Longrightarrow> row \<noteq> [] \<Longrightarrow> hd row \<noteq> [] \<Longrightarrow>
  \<exists>line. write_row row w = line @ [CHR 0x0A] \<and> CHR 0x0A \<notin> set line \<and> line \<noteq> []"
proof -
  assume cells: "\<forall>c \<in> set row. CHR 0x0A \<notin> set c" and ne: "row \<noteq> []" "hd row \<noteq> []"
  let ?cell = "\<lambda>i. print_cell (length row) i (w ! i) (row ! i)"
  have "CHR 0x0A \<notin> set (?cell i)" if "i < length row" for i
    using that cells by (auto simp: print_cell_def pad_left_def pad_right_def)
  moreover have "?cell 0 \<noteq> []" using ne by (cases row) (simp_all add: print_cell_def pad_right_def)
  then have "concat (map ?cell [0 ..< length row]) \<noteq> []" using ne by (auto simp: concat_eq_Nil_conv)
  ultimately show ?thesis
    by (intro exI [of _ "concat (map ?cell [0 ..< length row])"]) (auto simp: write_row_def)
qed

lemma split_on_lines:
  "\<lbrakk>\<And>x. \<exists>line. g x = line @ [c] \<and> c \<notin> set line \<and> line \<noteq> [] \<and> h line = k x\<rbrakk> \<Longrightarrow>
   map h (split_on c (concat (map g xs))) = map k xs"
proof (induction xs)
  case (Cons x xs)
  then obtain line where "g x = line @ [c]" "c \<notin> set line" "line \<noteq> []" "h line = k x" by blast
  with Cons show ?case by (simp add: split_on_word)
qed simp

text \<open>
  The printed table can be read back: after the line of headings there is one line per
  entry, in order, and the words of that line (maximal runs of non-blank characters) are exactly
  the protocol, both queue lengths, both addresses (a missing peer as \<^verbatim>\<open>*:*\<close>) and the state if
  there is one, whatever the widths of the columns. No printed cell contains a blank or a line
  break.
\<close>

theorem netstat_table_reads_back:
  "map (split_on CHR '' '') (tl (split_on CHR 0x0A (netstat_display entries))) = map words_of entries"
proof -
  let ?w = "fold widen (map netstat_row entries) (map length HEADERS)"
  have "\<exists>line. write_row HEADERS ?w = line @ [CHR 0x0A] \<and> CHR 0x0A \<notin> set line \<and> line \<noteq> []"
    by (rule newline_row) (simp_all add: HEADERS_def)
  then obtain line where "write_row HEADERS ?w = line @ [CHR 0x0A]" "CHR 0x0A \<notin> set line" "line \<noteq> []" by blast
  then have "tl (split_on CHR 0x0A (netstat_display entries)) =
      split_on CHR 0x0A (concat (map (\<lambda>e. write_row (netstat_row e) ?w) entries))"
    by (simp add: netstat_display_def Let_def comp_def split_on_word)
  then show ?thesis using split_on_lines [OF entry_words] by simp
qed

section \<open>Instance\<close>

theorem snapshot_shows_connections_witness:
  "kernel_inv demo_host \<and> lookup demo_host 3 = Some demo_sock \<and> tcb demo_sock = Some demo_tcb \<and>
   (\<exists>e. e \<in> set (snapshot demo_host) \<and> ns_local e = demo_loc \<and> ns_peer e = Some (tcb_peer demo_tcb) \<and>
      ns_state e = Some NS_Established)"
proof -
  have "sk_ty demo_sock = Stream" "tcb_state demo_tcb = Established"
    by (simp_all add: demo_sock_def Socket_new_def demo_tcb_def new_tcb_def)
  with snapshot_shows_connections [OF demo_host_inv, THEN conjunct1, rule_format, of 3 demo_sock demo_tcb] demo_lookup demo_host_inv
  show ?thesis by auto
qed

end
