(* ===== verification/Ip_Parse.thy ===== *)
theory Ip_Parse
  imports Net_Addr
begin

text \<open>
  \<^verbatim>\<open>str::parse::<IpAddr>\<close> of the standard library, which both name tables use to let address
  literals through: dotted decimal octets without leading zeros, or colon-separated
  hexadecimal groups with one \<^verbatim>\<open>::\<close> and an optional embedded IPv4 tail. A parser returns
  the value and the unread rest, or \<open>None\<close>.
\<close>

definition digit_of :: "int \<Rightarrow> char \<Rightarrow> int option" where
  "digit_of radix c =
     (let n = of_char c :: int;
          d = (if 48 \<le> n \<and> n \<le> 57 then n - 48 else if 97 \<le> n \<and> n \<le> 102 then n - 87
               else if 65 \<le> n \<and> n \<le> 70 then n - 55 else radix)
      in if d < radix then Some d else None)"

fun read_digits :: "int \<Rightarrow> string \<Rightarrow> int list \<times> string" where
  "read_digits radix [] = ([], [])"
| "read_digits radix (c # s) =
     (case digit_of radix c of
        None \<Rightarrow> ([], c # s)
      | Some d \<Rightarrow> (let (ds, r) = read_digits radix s in (d # ds, r)))"

definition read_number :: "int \<Rightarrow> nat \<Rightarrow> bool \<Rightarrow> int \<Rightarrow> string \<Rightarrow> (int \<times> string) option" where
  "read_number radix max_digits zero_prefix bound s =
     (let (ds, r) = read_digits radix s;
          n = foldl (\<lambda>a d. a * radix + d) 0 ds
      in if ds = [] \<or> max_digits < length ds \<or> bound \<le> n \<or> \<not> zero_prefix \<and> hd ds = 0 \<and> 1 < length ds
         then None else Some (n, r))"

definition read_char :: "char \<Rightarrow> string \<Rightarrow> string option" where
  "read_char c s = (case s of [] \<Rightarrow> None | d # r \<Rightarrow> if d = c then Some r else None)"

definition read_octet :: "string \<Rightarrow> (int \<times> string) option" where
  "read_octet s = read_number 10 3 False 256 s"

definition read_ipv4 :: "string \<Rightarrow> (int \<times> string) option" where
  "read_ipv4 s = do {
     (a, s1) \<leftarrow> read_octet s; s2 \<leftarrow> read_char CHR ''.'' s1;
     (b, s3) \<leftarrow> read_octet s2; s4 \<leftarrow> read_char CHR ''.'' s3;
     (c, s5) \<leftarrow> read_octet s4; s6 \<leftarrow> read_char CHR ''.'' s5;
     (d, s7) \<leftarrow> read_octet s6;
     Some (((a * 256 + b) * 256 + c) * 256 + d, s7)
   }"

definition read_separator :: "char \<Rightarrow> bool \<Rightarrow> (string \<Rightarrow> ('a \<times> string) option) \<Rightarrow> string \<Rightarrow> ('a \<times> string) option" where
  "read_separator sep first inner s = do { s1 \<leftarrow> (if first then Some s else read_char sep s); inner s1 }"

text \<open>Up to \<open>limit\<close> groups; the flag says that an embedded IPv4 address ended them.\<close>

fun read_groups :: "nat \<Rightarrow> bool \<Rightarrow> string \<Rightarrow> int list \<times> bool \<times> string" where
  "read_groups 0 first s = ([], False, s)"
| "read_groups (Suc n) first s =
     (case (if 0 < n then read_separator CHR '':'' first read_ipv4 s else None) of
        Some (v, r) \<Rightarrow> ([v div 65536, v mod 65536], True, r)
      | None \<Rightarrow>
          (case read_separator CHR '':'' first (read_number 16 4 True 65536) s of
             None \<Rightarrow> ([], False, s)
           | Some (g, r) \<Rightarrow> (let (gs, v4, r') = read_groups n False r in (g # gs, v4, r'))))"

definition read_ipv6 :: "string \<Rightarrow> (int \<times> string) option" where
  "read_ipv6 s =
     (let (head, v4, r) = read_groups 8 True s;
          value_of = foldl (\<lambda>a g. a * 65536 + g) 0
      in if length head = 8 then Some (value_of head, r)
         else if v4 then None
         else do {
           r1 \<leftarrow> read_char CHR '':'' r; r2 \<leftarrow> read_char CHR '':'' r1;
           let (tail, _, r3) = read_groups (8 - (length head + 1)) True r2;
           Some (value_of (head @ replicate (8 - length head - length tail) 0 @ tail), r3)
         })"

definition parse_ip :: "string \<Rightarrow> IpAddr option" where
  "parse_ip s =
     (case read_ipv4 s of
        Some (v, []) \<Rightarrow> Some (V4 (of_int v))
      | Some (v, _ # _) \<Rightarrow> None
      | None \<Rightarrow> (case read_ipv6 s of Some (v, []) \<Rightarrow> Some (V6 (of_int v)) | _ \<Rightarrow> None))"

end
