(* ===== verification/Name_Table.thy ===== *)
theory Name_Table
  imports Ip_Parse
begin

text \<open>
  What both crates promise of their name tables: a literal passes through, a known name keeps
  its address, a new name gets the next address of the subnet. The locale states it for an
  abstract table; the consequences (stability, injectivity, the reverse lookup) are proved
  once and used for the tables of both crates.
\<close>

text \<open>\<^verbatim>\<open>Ipv4Addr::new\<close> and \<^verbatim>\<open>Ipv6Addr::new\<close>.\<close>

definition ipv4_new :: "u8 \<Rightarrow> u8 \<Rightarrow> u8 \<Rightarrow> u8 \<Rightarrow> IpAddr" where
  "ipv4_new a b c d = V4 (of_nat (((unat a * 256 + unat b) * 256 + unat c) * 256 + unat d))"

definition ipv6_new :: "u16 list \<Rightarrow> IpAddr" where
  "ipv6_new gs = V6 (of_nat (foldl (\<lambda>a g. a * 65536 + unat g) 0 gs))"

text \<open>The linear search of \<^verbatim>\<open>reverse\<close>.\<close>

definition reverse_in :: "(string, IpAddr) imap \<Rightarrow> IpAddr \<Rightarrow> string option" where
  "reverse_in ns a = map_option fst (find (\<lambda>(_, b). b = a) ns)"

section \<open>Addresses of a subnet\<close>

lemma unat_ucast_u8: "unat (ucast (w :: u32) :: u8) = unat w mod 256"
  by (simp add: unsigned_ucast_eq take_bit_eq_mod)

lemma unat_ucast_u16: "unat (ucast (w :: u128) :: u16) = unat w mod 65536"
  by (simp add: unsigned_ucast_eq take_bit_eq_mod)

lemma of_nat_eq_small: "(of_nat a :: 'a::len word) = of_nat b \<Longrightarrow> a < 2 ^ LENGTH('a) \<Longrightarrow> b < 2 ^ LENGTH('a) \<Longrightarrow> a = b"
  by (metis mod_less unat_of_nat)

lemma unat_Suc_small: "i < n \<Longrightarrow> n < 2 ^ LENGTH('a) \<Longrightarrow> unat (of_nat (Suc i) :: 'a::len word) = Suc i"
  unfolding unat_of_nat by (intro mod_less) simp

lemma Suc_mod_inj: "i < n \<Longrightarrow> j < n \<Longrightarrow> Suc i mod n = Suc j mod n \<Longrightarrow> i = j"
  by (auto simp: mod_Suc split: if_splits)

text \<open>The low sixteen bits of the counter under the prefix 192.168.\<close>

lemma subnet_value:
  "ipv4_new 192 168 (ucast (drop_bit 8 (host :: u32))) (ucast (and host 0xFF)) =
     V4 (of_nat (0xC0A80000 + unat host mod 65536))"
proof -
  have 1: "unat (ucast (drop_bit 8 host) :: u8) = unat host div 256 mod 256"
    unfolding unat_ucast_u8 unat_drop_bit_eq by (simp add: drop_bit_eq_div)
  have "and host 0xFF = take_bit 8 host" by (simp add: take_bit_eq_mask mask_eq_exp_minus_1)
  then have "unat (and host 0xFF) = unat host mod 256"
    by (simp only: unsigned_take_bit_eq) (simp add: take_bit_eq_mod)
  then have 2: "unat (ucast (and host 0xFF) :: u8) = unat host mod 256"
    unfolding unat_ucast_u8 by simp
  have "unat host mod 65536 = unat host div 256 mod 256 * 256 + unat host mod 256"
    using mod_mult2_eq [of "unat host" 256 256] by simp
  then show ?thesis by (simp add: ipv4_new_def 1 2)
qed

lemma subnet_inj: "inj_on (\<lambda>i. V4 (of_nat (0xC0A80000 + unat (of_nat (Suc i) :: u32) mod 65536))) {..<65536}"
proof (rule inj_onI)
  fix i j :: nat
  assume ij: "i \<in> {..<65536}" "j \<in> {..<65536}"
    and eq: "V4 (of_nat (0xC0A80000 + unat (of_nat (Suc i) :: u32) mod 65536)) =
      V4 (of_nat (0xC0A80000 + unat (of_nat (Suc j) :: u32) mod 65536))"
  have u: "unat (of_nat (Suc i) :: u32) = Suc i" "unat (of_nat (Suc j) :: u32) = Suc j"
    using ij by (auto intro!: unat_Suc_small [where n = 65536] simp del: of_nat_Suc)
  have "0xC0A80000 + Suc i mod 65536 = 0xC0A80000 + Suc j mod 65536"
    using eq mod_less_divisor [of 65536 "Suc i"] mod_less_divisor [of 65536 "Suc j"]
    unfolding u IpAddr.inject by (intro of_nat_eq_small [where 'a = 32]) simp_all
  then have "Suc i mod 65536 = Suc j mod 65536" by linarith
  then show "i = j" using Suc_mod_inj [of i 65536 j] ij by simp
qed

section \<open>The interface of a name table\<close>

lemma imap_insert_new: "imap_get m k = None \<Longrightarrow> imap_insert k v m = m @ [(k, v)]"
  by (induction m) (auto split: if_splits)

locale name_table =
  fixes resolve :: "string \<Rightarrow> 's \<Rightarrow> IpAddr \<times> 's" and names :: "'s \<Rightarrow> (string, IpAddr) imap"
    and literal :: "string \<Rightarrow> IpAddr option" and addr :: "nat \<Rightarrow> IpAddr" and limit :: nat
    and in_step :: "'s \<Rightarrow> bool"
  assumes literal_through: "literal n = Some ip \<Longrightarrow> resolve n s = (ip, s)"
    and known: "literal n = None \<Longrightarrow> imap_get (names s) n = Some ip \<Longrightarrow> resolve n s = (ip, s)"
    and new_name: "literal n = None \<Longrightarrow> imap_get (names s) n = None \<Longrightarrow> in_step s \<Longrightarrow>
      \<exists>s'. resolve n s = (addr (length (names s)), s') \<and> in_step s' \<and>
        names s' = names s @ [(n, addr (length (names s)))]"
    and addr_inj: "inj_on addr {..<limit}"
begin

text \<open>A table reached by resolving names: keys are distinct, addresses handed out in order.\<close>

definition table_ok :: "'s \<Rightarrow> bool" where
  "table_ok s \<longleftrightarrow> in_step s \<and> imap_wf (names s) \<and> map snd (names s) = map addr [0..<length (names s)]"

fun resolve_all :: "string list \<Rightarrow> 's \<Rightarrow> 's" where
  "resolve_all [] s = s"
| "resolve_all (n # ns) s = resolve_all ns (snd (resolve n s))"

lemma resolve_all_append: "resolve_all (ns @ ms) s = resolve_all ms (resolve_all ns s)"
  by (induction ns arbitrary: s) simp_all

lemma resolve_step:
  assumes "table_ok s"
  shows "table_ok (snd (resolve n s)) \<and> (\<exists>new. names (snd (resolve n s)) = names s @ new) \<and>
    (literal n = None \<longrightarrow> imap_get (names (snd (resolve n s))) n = Some (fst (resolve n s)))"
proof (cases "literal n")
  case None
  note lit = None
  show ?thesis
  proof (cases "imap_get (names s) n")
    case None
    obtain s' where s': "resolve n s = (addr (length (names s)), s')" "in_step s'"
      "names s' = names s @ [(n, addr (length (names s)))]"
      using new_name [OF lit None] assms by (auto simp: table_ok_def)
    have "n \<notin> fst ` set (names s)" using None by (simp add: map_of_eq_None_iff)
    then show ?thesis using s' assms None by (auto simp: table_ok_def map_add_def)
  qed (use assms lit known in auto)
qed (use assms literal_through in auto)

lemma resolve_all_ok: "table_ok s \<Longrightarrow> table_ok (resolve_all ns s) \<and> (\<exists>new. names (resolve_all ns s) = names s @ new)"
proof (induction ns arbitrary: s)
  case (Cons n ns)
  note step = resolve_step [OF Cons.prems, of n]
  then show ?case using Cons.IH [of "snd (resolve n s)"] by auto
qed simp

text \<open>Resolving is stable: whatever is resolved in between, a name keeps its address.\<close>

lemma resolve_stable:
  assumes "table_ok s"
  shows "fst (resolve n (resolve_all ms (snd (resolve n s)))) = fst (resolve n s)"
proof (cases "literal n")
  case None
  note step = resolve_step [OF assms, of n]
  obtain new where "names (resolve_all ms (snd (resolve n s))) = names (snd (resolve n s)) @ new"
    using resolve_all_ok step by blast
  then have "imap_get (names (resolve_all ms (snd (resolve n s)))) n = Some (fst (resolve n s))"
    using step None by (simp add: map_add_def)
  then show ?thesis using known [OF None] by simp
qed (simp add: literal_through)

lemma get_addr:
  assumes "table_ok s" "imap_get (names s) n = Some a"
  shows "\<exists>i < length (names s). names s ! i = (n, a) \<and> a = addr i"
proof -
  obtain i where i: "i < length (names s)" "names s ! i = (n, a)"
    using map_of_SomeD [OF assms(2)] by (auto simp: in_set_conv_nth)
  have "map snd (names s) ! i = addr i" using assms(1) i(1) by (simp add: table_ok_def)
  then show ?thesis using i by auto
qed

text \<open>As long as the subnet is not exhausted, two names never share an address.\<close>

lemma names_distinct:
  assumes ok: "table_ok s" and len: "length (names s) \<le> limit"
    and a: "imap_get (names s) n = Some a" "imap_get (names s) m = Some a"
  shows "n = m"
proof -
  obtain i j where ij: "i < length (names s)" "names s ! i = (n, a)" "a = addr i"
    "j < length (names s)" "names s ! j = (m, a)" "a = addr j"
    using get_addr [OF ok a(1)] get_addr [OF ok a(2)] by auto
  have "addr i = addr j" "i \<in> {..<limit}" "j \<in> {..<limit}" using ij(1,3,4,6) len by simp_all
  then have "i = j" using addr_inj by (blast dest: inj_onD)
  then show ?thesis using ij(2,5) by simp
qed

lemma reverse_ok:
  assumes ok: "table_ok s" and len: "length (names s) \<le> limit" and a: "imap_get (names s) n = Some a"
  shows "reverse_in (names s) a = Some n"
proof -
  have wf: "distinct (map fst (names s))" using ok by (simp add: table_ok_def)
  have "find (\<lambda>(_, b). b = a) (names s) \<noteq> None"
    using map_of_SomeD [OF a] by (auto simp: find_None_iff)
  then obtain p where p: "find (\<lambda>(_, b). b = a) (names s) = Some p" by (auto simp del: split_paired_Ex)
  then have "p \<in> set (names s)" "snd p = a" using find_Some_hd_filter [OF p] by auto
  then have "imap_get (names s) (fst p) = Some a"
    using map_of_is_SomeI [OF wf, of "fst p" a] by (metis prod.collapse)
  then show ?thesis using names_distinct [OF ok len a] p by (simp add: reverse_in_def)
qed

end

end
