(* ===== verification/Net_Dns.thy ===== *)
theory Net_Dns
  imports Name_Table
begin

text \<open>
  \<^verbatim>\<open>turmoil-net/src/dns.rs\<close>: hostnames are given addresses of 192.168.0.0/16 in order of first
  sight; \<^verbatim>\<open>localhost\<close> and address literals pass through.
\<close>

record Dns =
  dns_next :: u32
  dns_names :: "(string, IpAddr) imap"

definition Dns_new :: Dns where
  "Dns_new = \<lparr>dns_next = 1, dns_names = []\<rparr>"

definition reserved :: "string \<Rightarrow> IpAddr option" where
  "reserved name = (if name = ''localhost'' then Some (ipv4_new 127 0 0 1) else None)"

definition subnet_addr :: "u32 \<Rightarrow> IpAddr" where
  "subnet_addr host = ipv4_new 192 168 (ucast (drop_bit 8 host)) (ucast (and host 0xFF))"

definition dns_resolve :: "string \<Rightarrow> Dns \<Rightarrow> IpAddr \<times> Dns" where
  "dns_resolve name d =
     (case reserved name of
        Some ip \<Rightarrow> (ip, d)
      | None \<Rightarrow>
          (case parse_ip name of
             Some ip \<Rightarrow> (ip, d)
           | None \<Rightarrow>
               (case imap_get (dns_names d) name of
                  Some ip \<Rightarrow> (ip, d)
                | None \<Rightarrow>
                    (let ip = subnet_addr (dns_next d)
                     in (ip, \<lparr>dns_next = dns_next d + 1,
                              dns_names = imap_insert name ip (dns_names d)\<rparr>)))))"

definition dns_lookup :: "string \<Rightarrow> Dns \<Rightarrow> IpAddr option" where
  "dns_lookup name d =
     (case reserved name of
        Some ip \<Rightarrow> Some ip
      | None \<Rightarrow> (case parse_ip name of Some ip \<Rightarrow> Some ip | None \<Rightarrow> imap_get (dns_names d) name))"

definition dns_reverse :: "Dns \<Rightarrow> IpAddr \<Rightarrow> string option" where
  "dns_reverse d a = reverse_in (dns_names d) a"

text \<open>\<^verbatim>\<open>ToIpAddr\<close>: a hostname or an address, with its allocating and read-only resolution.\<close>

datatype ToIpAddr = Name string | Literal IpAddr

fun to_ip_addr :: "ToIpAddr \<Rightarrow> Dns \<Rightarrow> IpAddr \<times> Dns" where
  "to_ip_addr (Name n) d = dns_resolve n d"
| "to_ip_addr (Literal a) d = (a, d)"

fun try_to_ip_addr :: "ToIpAddr \<Rightarrow> Dns \<Rightarrow> IpAddr option" where
  "try_to_ip_addr (Name n) d = dns_lookup n d"
| "try_to_ip_addr (Literal a) d = Some a"

fun to_ip_addrs :: "ToIpAddr list \<Rightarrow> Dns \<Rightarrow> IpAddr list \<times> Dns" where
  "to_ip_addrs [] d = ([], d)"
| "to_ip_addrs (t # ts) d =
     (let (a, d1) = to_ip_addr t d; (as, d2) = to_ip_addrs ts d1 in (a # as, d2))"

section \<open>The table of the crate\<close>

lemma subnet_addr_value: "subnet_addr host = V4 (of_nat (0xC0A80000 + unat host mod 65536))"
  unfolding subnet_addr_def by (rule subnet_value)

text \<open>The address of the \<open>i\<close>-th hostname, and the counter in step with the table.\<close>

definition nth_addr :: "nat \<Rightarrow> IpAddr" where
  "nth_addr i = subnet_addr (of_nat (Suc i))"

definition net_in_step :: "Dns \<Rightarrow> bool" where
  "net_in_step d \<longleftrightarrow> dns_next d = of_nat (Suc (length (dns_names d)))"

lemma nth_addr_inj: "inj_on nth_addr {..<65536}"
  unfolding nth_addr_def subnet_addr_value by (rule subnet_inj)

definition net_literal :: "string \<Rightarrow> IpAddr option" where
  "net_literal n = (case reserved n of Some ip \<Rightarrow> Some ip | None \<Rightarrow> parse_ip n)"

interpretation net_names: name_table dns_resolve dns_names net_literal nth_addr 65536 net_in_step
proof unfold_locales
  show "inj_on nth_addr {..<65536}" by (rule nth_addr_inj)
next
  fix n :: string and d :: Dns
  assume "net_literal n = None" "imap_get (dns_names d) n = None" "net_in_step d"
  then show "\<exists>s'. dns_resolve n d = (nth_addr (length (dns_names d)), s') \<and> net_in_step s' \<and>
      dns_names s' = dns_names d @ [(n, nth_addr (length (dns_names d)))]"
    by (auto simp: dns_resolve_def net_literal_def Let_def imap_insert_new net_in_step_def nth_addr_def
        split: option.splits)
qed (auto simp: dns_resolve_def net_literal_def split: option.splits)

lemma net_table_ok_new: "net_names.table_ok Dns_new"
  by (simp add: net_names.table_ok_def net_in_step_def Dns_new_def)

lemma dns_lookup_literal:
  "dns_lookup n d = (case net_literal n of Some ip \<Rightarrow> Some ip | None \<Rightarrow> imap_get (dns_names d) n)"
  by (simp add: dns_lookup_def net_literal_def split: option.splits)

text \<open>The table after resolving some names, in order.\<close>

definition resolved :: "string list \<Rightarrow> Dns" where
  "resolved ns = foldl (\<lambda>d n. snd (dns_resolve n d)) Dns_new ns"

lemma resolved_all: "foldl (\<lambda>d n. snd (dns_resolve n d)) d ns = net_names.resolve_all ns d"
  by (induction ns arbitrary: d) simp_all

lemma net_lit_witness: "net_literal ''alpha'' = None" "net_literal ''beta'' = None"
  by (simp_all add: net_literal_def reserved_def) code_simp+

text \<open>
  The name table of a network. After any sequence of resolutions a hostname keeps the
  address it was first given, and \<^verbatim>\<open>lookup\<close> reports it without allocating; and as long as at
  most 65536 hostnames were seen, different hostnames have different addresses and
  \<^verbatim>\<open>reverse\<close> finds the hostname of an address again.
\<close>

theorem dns_stable_injective:
  assumes n: "reserved n = None" "parse_ip n = None"
  shows "dns_lookup n (resolved (ns @ n # ms)) = Some (fst (dns_resolve n (resolved ns))) \<and>
    dns_resolve n (resolved (ns @ n # ms)) = (fst (dns_resolve n (resolved ns)), resolved (ns @ n # ms)) \<and>
    (length (dns_names (resolved (ns @ n # ms))) \<le> 65536 \<longrightarrow>
      (\<forall>m. imap_get (dns_names (resolved (ns @ n # ms))) m = Some (fst (dns_resolve n (resolved ns))) \<longrightarrow> m = n) \<and>
      dns_reverse (resolved (ns @ n # ms)) (fst (dns_resolve n (resolved ns))) = Some n)"
proof -
  have lit: "net_literal n = None" using n by (simp add: net_literal_def)
  let ?d = "resolved ns" and ?e = "resolved (ns @ n # ms)"
  have ok: "net_names.table_ok ?d"
    using net_names.resolve_all_ok [OF net_table_ok_new] by (simp add: resolved_def resolved_all)
  have e: "?e = net_names.resolve_all ms (snd (dns_resolve n ?d))"
    by (simp add: resolved_def resolved_all net_names.resolve_all_append)
  note step = net_names.resolve_step [OF ok, of n]
  obtain new where new: "dns_names ?e = dns_names (snd (dns_resolve n ?d)) @ new" "net_names.table_ok ?e"
    using net_names.resolve_all_ok [of "snd (dns_resolve n ?d)" ms] step unfolding e by auto
  have get: "imap_get (dns_names ?e) n = Some (fst (dns_resolve n ?d))"
    using new(1) step lit by (simp add: map_add_def)
  show ?thesis
    using get net_names.known [OF lit get] dns_lookup_literal [of n ?e] lit
      net_names.names_distinct [OF new(2) _ _ get] net_names.reverse_ok [OF new(2) _ get]
    by (auto simp: dns_reverse_def)
qed

theorem dns_stable_injective_witness:
  "dns_lookup ''alpha'' (resolved [''alpha'', ''beta'']) = Some (subnet_addr 1) \<and>
   dns_reverse (resolved [''alpha'', ''beta'']) (subnet_addr 1) = Some ''alpha''"
proof -
  have n: "reserved ''alpha'' = None" "parse_ip ''alpha'' = None" "reserved ''beta'' = None" "parse_ip ''beta'' = None"
    using net_lit_witness by (auto simp: net_literal_def split: option.splits)
  have "fst (dns_resolve ''alpha'' (resolved [])) = subnet_addr 1"
    "length (dns_names (resolved [''alpha'', ''beta''])) \<le> 65536"
    by (simp_all add: resolved_def dns_resolve_def Dns_new_def n Let_def)
  then show ?thesis using dns_stable_injective [OF n(1,2), of "[]" "[''beta'']"] by simp
qed

text \<open>The subnet wraps around: the 65537th hostname is given the first one's address.\<close>

lemma subnet_wraps: "subnet_addr 65537 = subnet_addr 1"
  by (simp add: subnet_addr_value)

end
