(* ===== verification/Fabric.thy ===== *)
theory Fabric
  imports Kernel_Runs Net_Dns
begin

text \<open>
  \<^verbatim>\<open>turmoil-net/src/fabric.rs\<close>, \<^verbatim>\<open>rule.rs\<close> and \<^verbatim>\<open>lib.rs\<close>: the registry of hosts and the routing of
  packets between them, the packet rules, and the \<^verbatim>\<open>Net\<close> that ties them to a name table and to
  the thread's current host. A rule is code of the user: it is a state of type \<open>'r\<close> with a
  step function \<open>on_packet\<close>, which the operations that consult rules take as an argument.
  \<open>None\<close> is a panic, as in the kernel.
\<close>

section \<open>Hosts\<close>

type_synonym HostId = nat

record Host =
  host_addrs :: "IpAddr list"
  host_kernel :: Kernel

record Fabric =
  fb_hosts :: "(HostId, Host) imap"
  ip_to_host :: "(IpAddr, HostId) imap"
  fb_next_id :: nat
  default_cfg :: KernelConfig

definition Fabric_new :: "KernelConfig \<Rightarrow> Fabric" where
  "Fabric_new cfg = \<lparr>fb_hosts = [], ip_to_host = [], fb_next_id = 0, default_cfg = cfg\<rparr>"

text \<open>The validation loop: the first address that may not be registered decides the error.\<close>

fun check_addrs :: "Fabric \<Rightarrow> IpAddr list \<Rightarrow> unit io_result" where
  "check_addrs f [] = Ok ()"
| "check_addrs f (a # as) =
     (if is_loopback a then Err (Kind InvalidInput)
      else if imap_get (ip_to_host f) a \<noteq> None then Err (Kind AddrInUse)
      else check_addrs f as)"

text \<open>Host ids are 32-bit; handing out the last one overflows the counter.\<close>

definition try_add_host :: "IpAddr list \<Rightarrow> Fabric \<Rightarrow> (HostId io_result \<times> Fabric) option" where
  "try_add_host addrs f =
     (case check_addrs f addrs of
        Inl e \<Rightarrow> Some (Err e, f)
      | Inr _ \<Rightarrow>
          if 2 ^ 32 \<le> fb_next_id f + 1 then None
          else
            (let hid = fb_next_id f;
                 kernel = fold add_address addrs (Kernel_with_config (default_cfg f))
             in Some (Ok hid, f\<lparr>fb_next_id := hid + 1,
                  ip_to_host := fold (\<lambda>a m. imap_insert a hid m) addrs (ip_to_host f),
                  fb_hosts := imap_insert hid \<lparr>host_addrs = addrs, host_kernel = kernel\<rparr> (fb_hosts f)\<rparr>)))"

definition fabric_add_host :: "IpAddr list \<Rightarrow> Fabric \<Rightarrow> (HostId \<times> Fabric) option" where
  "fabric_add_host addrs f = do {
     (r, f1) \<leftarrow> try_add_host addrs f;
     case r of Inl _ \<Rightarrow> None | Inr hid \<Rightarrow> Some (hid, f1)
   }"

definition host_ids :: "Fabric \<Rightarrow> HostId list" where
  "host_ids f = imap_keys (fb_hosts f)"

definition kernel_of :: "Fabric \<Rightarrow> HostId \<Rightarrow> Kernel option" where
  "kernel_of f hid = map_option host_kernel (imap_get (fb_hosts f) hid)"

definition put_kernel :: "HostId \<Rightarrow> Kernel \<Rightarrow> Fabric \<Rightarrow> Fabric" where
  "put_kernel hid k f = f\<lparr>fb_hosts := imap_modify hid (\<lambda>h. h\<lparr>host_kernel := k\<rparr>) (fb_hosts f)\<rparr>"

definition host_for_ip :: "Fabric \<Rightarrow> IpAddr \<Rightarrow> HostId option" where
  "host_for_ip f ip = imap_get (ip_to_host f) ip"

fun egress_hosts ::
  "(HostId, Host) imap \<Rightarrow> Packet list \<Rightarrow> ((HostId, Host) imap \<times> Packet list) option" where
  "egress_hosts [] out = Some ([], out)"
| "egress_hosts ((hid, h) # hs) out = do {
     (k, out1) \<leftarrow> kernel_egress (host_kernel h) out;
     (hs1, out2) \<leftarrow> egress_hosts hs out1;
     Some ((hid, h\<lparr>host_kernel := k\<rparr>) # hs1, out2)
   }"

definition fabric_egress_all :: "Fabric \<Rightarrow> Packet list \<Rightarrow> (Fabric \<times> Packet list) option" where
  "fabric_egress_all f out = do {
     (hs, out1) \<leftarrow> egress_hosts (fb_hosts f) out;
     Some (f\<lparr>fb_hosts := hs\<rparr>, out1)
   }"

definition fabric_deliver :: "Fabric \<Rightarrow> Packet \<Rightarrow> Fabric option" where
  "fabric_deliver f pkt =
     (case imap_get (ip_to_host f) (pkt_dst pkt) of
        None \<Rightarrow> Some f
      | Some dst \<Rightarrow> do {
          k \<leftarrow> kernel_of f dst;
          k1 \<leftarrow> kernel_deliver k pkt;
          Some (put_kernel dst k1 f)
        })"

section \<open>Rules\<close>

datatype Verdict = Pass | Deliver duration | Drop

type_synonym RuleId = nat

text \<open>The built-in rule \<^verbatim>\<open>Latency\<close>; its state is its delay.\<close>

definition latency_on_packet :: "duration \<Rightarrow> Packet \<Rightarrow> Verdict \<times> duration" where
  "latency_on_packet delay pkt = (Deliver delay, delay)"

fun evaluate_rules ::
  "('r \<Rightarrow> Packet \<Rightarrow> Verdict \<times> 'r) \<Rightarrow> Packet \<Rightarrow> (RuleId, 'r) imap \<Rightarrow> Verdict \<times> (RuleId, 'r) imap" where
  "evaluate_rules on_packet pkt [] = (Pass, [])"
| "evaluate_rules on_packet pkt ((rid, r) # rs) =
     (let (v, r1) = on_packet r pkt
      in if v = Pass then (let (v2, rs2) = evaluate_rules on_packet pkt rs in (v2, (rid, r1) # rs2))
         else (v, (rid, r1) # rs))"

section \<open>The network of a thread\<close>

record 'r Net =
  net_fabric :: Fabric
  net_dns :: Dns
  net_current :: "HostId option"
  net_rules :: "(RuleId, 'r) imap"
  next_rule_id :: nat

definition Net_with_config :: "KernelConfig \<Rightarrow> 'r Net" where
  "Net_with_config cfg = \<lparr>net_fabric = Fabric_new cfg, net_dns = Dns_new, net_current = None,
     net_rules = [], next_rule_id = 1\<rparr>"

definition Net_new :: "'r Net" where
  "Net_new = Net_with_config KernelConfig_default"

definition net_add_host :: "ToIpAddr list \<Rightarrow> 'r Net \<Rightarrow> (HostId \<times> 'r Net) option" where
  "net_add_host addrs n = do {
     let (ips, dns) = to_ip_addrs addrs (net_dns n);
     (hid, fab) \<leftarrow> fabric_add_host ips (net_fabric n);
     Some (hid, n\<lparr>net_fabric := fab, net_dns := dns,
       net_current := (case net_current n of None \<Rightarrow> Some hid | Some c \<Rightarrow> Some c)\<rparr>)
   }"

definition net_lookup :: "string \<Rightarrow> 'r Net \<Rightarrow> IpAddr \<times> 'r Net" where
  "net_lookup name n = (let (ip, dns) = dns_resolve name (net_dns n) in (ip, n\<lparr>net_dns := dns\<rparr>))"

definition net_install_rule :: "'r \<Rightarrow> 'r Net \<Rightarrow> RuleId \<times> 'r Net" where
  "net_install_rule r n =
     (next_rule_id n, n\<lparr>next_rule_id := next_rule_id n + 1,
        net_rules := imap_insert (next_rule_id n) r (net_rules n)\<rparr>)"

definition net_uninstall_rule :: "RuleId \<Rightarrow> 'r Net \<Rightarrow> 'r Net" where
  "net_uninstall_rule rid n = n\<lparr>net_rules := imap_shift_remove rid (net_rules n)\<rparr>"

definition net_evaluate ::
  "('r \<Rightarrow> Packet \<Rightarrow> Verdict \<times> 'r) \<Rightarrow> Packet \<Rightarrow> 'r Net \<Rightarrow> Verdict \<times> 'r Net" where
  "net_evaluate on_packet pkt n =
     (let (v, rs) = evaluate_rules on_packet pkt (net_rules n) in (v, n\<lparr>net_rules := rs\<rparr>))"

text \<open>The thread-local slot: \<^verbatim>\<open>enter\<close> fills it, dropping the guard empties it.\<close>

definition enter :: "'r Net \<Rightarrow> 'r Net option \<Rightarrow> 'r Net option option" where
  "enter n slot = (case slot of None \<Rightarrow> Some (Some n) | Some _ \<Rightarrow> None)"

definition guard_egress_all :: "'r Net \<Rightarrow> Packet list \<Rightarrow> ('r Net \<times> Packet list) option" where
  "guard_egress_all n out = do {
     (fab, out1) \<leftarrow> fabric_egress_all (net_fabric n) out;
     Some (n\<lparr>net_fabric := fab\<rparr>, out1)
   }"

definition guard_deliver :: "Packet \<Rightarrow> 'r Net \<Rightarrow> 'r Net option" where
  "guard_deliver pkt n = do {
     fab \<leftarrow> fabric_deliver (net_fabric n) pkt;
     Some (n\<lparr>net_fabric := fab\<rparr>)
   }"

definition set_current :: "HostId \<Rightarrow> 'r Net \<Rightarrow> 'r Net" where
  "set_current hid n = n\<lparr>net_current := Some hid\<rparr>"

text \<open>\<^verbatim>\<open>sys\<close>: a system call runs on the kernel of the current host.\<close>

definition sys :: "(Kernel \<Rightarrow> ('a \<times> Kernel) option) \<Rightarrow> 'r Net \<Rightarrow> ('a \<times> 'r Net) option" where
  "sys g n = do {
     hid \<leftarrow> net_current n;
     k \<leftarrow> kernel_of (net_fabric n) hid;
     (x, k1) \<leftarrow> g k;
     Some (x, n\<lparr>net_fabric := put_kernel hid k1 (net_fabric n)\<rparr>)
   }"

definition lookup_host :: "string \<Rightarrow> 'r Net option \<Rightarrow> IpAddr option" where
  "lookup_host name slot = do { n \<leftarrow> slot; dns_lookup name (net_dns n) }"

end
