(* ===== verification/Fabric_Props.thy ===== *)
theory Fabric_Props
  imports Fabric
begin

text \<open>
  Correctness of the fabric: the registry is consistent (every address belongs to exactly one
  live host), routing reaches the owner of an address and nobody else, every operation returns,
  and the rule chain is decided by its first rule that does not pass.
\<close>

section \<open>The registry invariant\<close>

definition valid_cfg :: "KernelConfig \<Rightarrow> bool" where
  "valid_cfg cfg \<longleftrightarrow> cfg_send_buf_cap cfg < 2 ^ 32 - 1 \<and> 60 < cfg_mtu cfg \<and> 60 < cfg_loopback_mtu cfg"

definition fabric_inv :: "Fabric \<Rightarrow> bool" where
  "fabric_inv f \<longleftrightarrow> imap_wf (fb_hosts f) \<and> valid_cfg (default_cfg f) \<and>
     (\<forall>hid h. imap_get (fb_hosts f) hid = Some h \<longrightarrow> hid < fb_next_id f \<and> kernel_inv (host_kernel h)) \<and>
     (\<forall>a hid. imap_get (ip_to_host f) a = Some hid \<longleftrightarrow>
        (\<exists>h. imap_get (fb_hosts f) hid = Some h \<and> a \<in> set (host_addrs h))) \<and>
     (\<forall>a hid. imap_get (ip_to_host f) a = Some hid \<longrightarrow> \<not> is_loopback a \<and> \<not> is_unspecified a)"

lemma fabric_inv_new: "valid_cfg cfg \<Longrightarrow> fabric_inv (Fabric_new cfg)"
  by (simp add: fabric_inv_def Fabric_new_def)

lemma check_addrs_ok:
  "check_addrs f as = Inr () \<longleftrightarrow> (\<forall>a \<in> set as. \<not> is_loopback a \<and> imap_get (ip_to_host f) a = None)"
  by (induction as) auto

lemma check_addrs_error:
  "check_addrs f as = Inl e \<Longrightarrow> e \<in> {Kind InvalidInput, Kind AddrInUse} \<and>
     (\<exists>a \<in> set as. is_loopback a \<or> imap_get (ip_to_host f) a \<noteq> None)"
  by (induction as) (auto split: if_splits)

lemma get_register:
  "imap_get (fold (\<lambda>a m. imap_insert a hid m) as m) x = (if x \<in> set as then Some hid else imap_get m x)"
  by (induction as arbitrary: m) (auto simp: imap_simps)

lemma kernel_inv_add_addresses:
  assumes "kernel_inv k" "\<forall>a \<in> set as. \<not> is_unspecified a"
  shows "kernel_inv (fold add_address as k)"
  using assms
proof (induction as arbitrary: k)
  case (Cons a as)
  have "kernel_inv (add_address a k)"
    using kernel_run.step_inv [of k "Call_add_address a"] Cons.prems by simp
  then show ?case using Cons by simp
qed simp

lemma fabric_inv_kernel:
  assumes "fabric_inv f" "kernel_of f hid = Some k"
  shows "kernel_inv k"
  using assms by (auto simp: fabric_inv_def kernel_of_def)

lemma kernel_of_put: "kernel_of (put_kernel hid k f) x =
    (if x = hid then map_option (\<lambda>_. k) (kernel_of f hid) else kernel_of f x)"
  by (auto simp: kernel_of_def put_kernel_def imap_get_modify option.map_comp comp_def)

lemma fabric_inv_put:
  assumes inv: "fabric_inv f" and k: "kernel_inv k"
  shows "fabric_inv (put_kernel hid k f)"
proof -
  have get: "imap_get (fb_hosts (put_kernel hid k f)) x =
      (if x = hid then map_option (\<lambda>h. h\<lparr>host_kernel := k\<rparr>) (imap_get (fb_hosts f) x) else imap_get (fb_hosts f) x)" for x
    by (simp add: put_kernel_def imap_get_modify)
  show ?thesis
    using inv k unfolding fabric_inv_def get
    by (auto simp: put_kernel_def split: if_splits)
qed

section \<open>Registering hosts\<close>

lemma fabric_inv_fresh: "fabric_inv f \<Longrightarrow> imap_get (fb_hosts f) (fb_next_id f) = None"
  unfolding fabric_inv_def by (metis less_irrefl not_Some_eq)

lemma add_host_ok:
  assumes inv: "fabric_inv f" and room: "fb_next_id f + 1 < 2 ^ 32"
    and addrs: "\<forall>a \<in> set addrs. \<not> is_unspecified a"
    and ok: "\<forall>a \<in> set addrs. \<not> is_loopback a \<and> imap_get (ip_to_host f) a = None"
    and h: "h = \<lparr>host_addrs = addrs, host_kernel = fold add_address addrs (Kernel_with_config (default_cfg f))\<rparr>"
    and f': "f' = f\<lparr>fb_next_id := fb_next_id f + 1,
      ip_to_host := fold (\<lambda>a m. imap_insert a (fb_next_id f) m) addrs (ip_to_host f),
      fb_hosts := imap_insert (fb_next_id f) h (fb_hosts f)\<rparr>"
  shows "fabric_add_host addrs f = Some (fb_next_id f, f') \<and> fabric_inv f'"
proof -
  note fresh = fabric_inv_fresh [OF inv]
  have kinv: "kernel_inv (host_kernel h)"
    unfolding h Host.select_convs using inv addrs
    by (intro kernel_inv_add_addresses kernel_inv_new) (auto simp: fabric_inv_def valid_cfg_def)
  have r: "fabric_add_host addrs f = Some (fb_next_id f, f')"
    using check_addrs_ok [of f addrs] ok room by (simp add: fabric_add_host_def try_add_host_def Let_def f' h)
  have none: "imap_get (ip_to_host f) a \<noteq> Some (fb_next_id f)" for a
    using inv fresh by (auto simp: fabric_inv_def)
  have taken: "a \<notin> set (host_addrs h)" if "a \<in> set addrs" "(hid, h) \<in> set (fb_hosts f)" for a hid h
    using inv ok that unfolding fabric_inv_def by (metis map_of_is_SomeI option.discI)
  have "host_addrs h = addrs" by (simp add: h)
  then have "fabric_inv f'"
    using inv ok addrs kinv fresh none taken unfolding fabric_inv_def f'
    by (auto simp: imap_simps get_register imap_wf_insert less_Suc_eq split: if_splits)
  then show ?thesis using r by blast
qed

text \<open>
  Registering a host on a consistent fabric: it is refused (the call panics) exactly when
  an address is a loopback address or already claimed. Otherwise the host gets a fresh id, its
  addresses route to it, every other address keeps its owner, every other host its kernel, and
  the registry stays consistent.
\<close>

theorem add_host_registers:
  assumes inv: "fabric_inv f" and room: "fb_next_id f + 1 < 2 ^ 32"
    and addrs: "\<forall>a \<in> set addrs. \<not> is_unspecified a"
  shows "if \<exists>a \<in> set addrs. is_loopback a \<or> host_for_ip f a \<noteq> None then fabric_add_host addrs f = None
    else \<exists>hid f'. fabric_add_host addrs f = Some (hid, f') \<and> fabric_inv f' \<and> kernel_of f hid = None \<and>
      kernel_of f' hid = Some (fold add_address addrs (Kernel_with_config (default_cfg f))) \<and>
      host_ids f' = host_ids f @ [hid] \<and>
      (\<forall>a. host_for_ip f' a = (if a \<in> set addrs then Some hid else host_for_ip f a)) \<and>
      (\<forall>x. x \<noteq> hid \<longrightarrow> kernel_of f' x = kernel_of f x)"
proof (cases "check_addrs f addrs")
  case (Inl e)
  then show ?thesis
    using check_addrs_error [OF Inl] by (auto simp: fabric_add_host_def try_add_host_def host_for_ip_def)
next
  case (Inr u)
  then have ok: "\<forall>a \<in> set addrs. \<not> is_loopback a \<and> imap_get (ip_to_host f) a = None"
    using check_addrs_ok [of f addrs] by (cases u) simp
  then show ?thesis
    using add_host_ok [OF inv room addrs ok refl refl] fabric_inv_fresh [OF inv]
    by (auto simp: host_for_ip_def get_register kernel_of_def host_ids_def imap_insert_new map_add_def
        split: option.splits)
qed

theorem add_host_registers_witness:
  "\<exists>hid f'. fabric_add_host [V4 0x0A000001] (Fabric_new KernelConfig_default) = Some (hid, f') \<and> fabric_inv f' \<and>
     host_for_ip f' (V4 0x0A000001) = Some hid"
  using add_host_registers [of "Fabric_new KernelConfig_default" "[V4 0x0A000001]"]
    fabric_inv_new [of KernelConfig_default]
  by (auto simp: valid_cfg_def config_defs Fabric_new_def host_for_ip_def)

section \<open>Routing\<close>

lemma deliver_owner:
  assumes inv: "fabric_inv f" and h: "host_for_ip f (pkt_dst pkt) = Some hid"
  obtains k k' where "kernel_of f hid = Some k" "kernel_deliver k pkt = Some k'" "kernel_inv k'"
    "fabric_deliver f pkt = Some (put_kernel hid k' f)" "fabric_inv (put_kernel hid k' f)"
proof -
  obtain k where k: "kernel_of f hid = Some k" "\<not> is_unspecified (pkt_dst pkt)"
    using inv h by (fastforce simp: fabric_inv_def host_for_ip_def kernel_of_def)
  obtain k' where k': "kernel_deliver k pkt = Some k'" "kernel_inv k'"
    using kernel_deliver_safe [OF fabric_inv_kernel [OF inv k(1)] k(2)] by (auto simp: returns_def)
  show ?thesis
    using h k k' fabric_inv_put [OF inv k'(2)] by (intro that) (simp_all add: fabric_deliver_def host_for_ip_def)
qed

lemma fabric_deliver_safe:
  assumes inv: "fabric_inv f"
  shows "returns (fabric_deliver f pkt) fabric_inv"
proof (cases "host_for_ip f (pkt_dst pkt)")
  case None
  then show ?thesis using inv by (simp add: fabric_deliver_def host_for_ip_def)
next
  case (Some hid)
  then show ?thesis by (rule deliver_owner [OF inv]) (simp add: returns_def)
qed

lemma egress_hosts_safe:
  assumes "\<forall>(hid, h) \<in> set hs. kernel_inv (host_kernel h)"
  shows "returns (egress_hosts hs out) (\<lambda>(hs', out'). map (\<lambda>(hid, h). (hid, host_addrs h)) hs' =
    map (\<lambda>(hid, h). (hid, host_addrs h)) hs \<and> (\<forall>(hid, h) \<in> set hs'. kernel_inv (host_kernel h)))"
  using assms
proof (induction hs arbitrary: out)
  case (Cons p hs)
  obtain hid h where p: "p = (hid, h)" by (cases p)
  obtain k out1 where k: "kernel_egress (host_kernel h) out = Some (k, out1)" "kernel_inv k"
    using kernel_egress_safe [of "host_kernel h" out] Cons.prems p by (auto simp: returns_def)
  obtain hs' out' where "egress_hosts hs out1 = Some (hs', out')"
    "map (\<lambda>(hid, h). (hid, host_addrs h)) hs' = map (\<lambda>(hid, h). (hid, host_addrs h)) hs"
    "\<forall>(hid, h) \<in> set hs'. kernel_inv (host_kernel h)"
    using Cons.IH [of out1] Cons.prems by (auto simp: returns_def)
  then show ?case using k p by (simp add: returns_def)
qed simp

lemma get_of_shape:
  assumes "map (\<lambda>(hid, h). (hid, host_addrs h)) hs' = map (\<lambda>(hid, h). (hid, host_addrs h)) hs"
  shows "imap_keys hs' = imap_keys hs \<and> (\<forall>x. map_option host_addrs (imap_get hs' x) = map_option host_addrs (imap_get hs x))"
  using assms
proof (induction hs' arbitrary: hs)
  case (Cons p hs')
  then obtain q hs1 where "hs = q # hs1" by (cases hs) auto
  then show ?case using Cons by (cases p; cases q) auto
qed simp

lemma fabric_egress_safe:
  assumes inv: "fabric_inv f"
  shows "returns (fabric_egress_all f out) (\<lambda>(f', out'). fabric_inv f')"
proof -
  have all: "\<forall>(hid, h) \<in> set (fb_hosts f). kernel_inv (host_kernel h)"
    using inv by (auto simp: fabric_inv_def)
  obtain hs out' where hs: "egress_hosts (fb_hosts f) out = Some (hs, out')"
    "\<forall>(hid, h) \<in> set hs. kernel_inv (host_kernel h)"
    and shape: "map (\<lambda>(hid, h). (hid, host_addrs h)) hs = map (\<lambda>(hid, h). (hid, host_addrs h)) (fb_hosts f)"
    using egress_hosts_safe [OF all, of out] by (auto simp: returns_def)
  note same = get_of_shape [OF shape]
  have addrs: "(\<exists>h. imap_get hs x = Some h \<and> a \<in> set (host_addrs h)) \<longleftrightarrow>
      (\<exists>h. imap_get (fb_hosts f) x = Some h \<and> a \<in> set (host_addrs h))" for x a
    using same [THEN conjunct2, THEN spec, of x] by (cases "imap_get hs x"; cases "imap_get (fb_hosts f) x") auto
  have dom: "imap_get hs x \<noteq> None \<longleftrightarrow> imap_get (fb_hosts f) x \<noteq> None" for x
    using same by (metis option.map_disc_iff)
  have plain: "\<not> is_loopback a \<and> \<not> is_unspecified a" if "imap_get (ip_to_host f) a = Some hid" for a hid
    using inv that unfolding fabric_inv_def by blast
  have "fabric_inv (f\<lparr>fb_hosts := hs\<rparr>)"
    unfolding fabric_inv_def
  proof (intro conjI allI impI)
    fix hid h assume h: "imap_get (fb_hosts (f\<lparr>fb_hosts := hs\<rparr>)) hid = Some h"
    then show "hid < fb_next_id (f\<lparr>fb_hosts := hs\<rparr>)" using inv dom [of hid] by (auto simp: fabric_inv_def)
    show "kernel_inv (host_kernel h)" using hs(2) map_of_SomeD h by fastforce
  next
    fix a x assume "imap_get (ip_to_host (f\<lparr>fb_hosts := hs\<rparr>)) a = Some x"
    then show "\<not> is_loopback a" "\<not> is_unspecified a" using plain by auto
  qed (use inv same in \<open>simp_all add: fabric_inv_def addrs del: map_of_eq_Some_iff\<close>)
  then show ?thesis using hs(1) by (simp add: fabric_egress_all_def returns_def)
qed

text \<open>
  Routing between hosts. Delivering a packet on a consistent fabric always returns. A
  packet for a registered address reaches the one host that owns it, whose kernel processes
  it, and no other host sees anything; a packet for any other address is dropped without a
  trace. The registry stays consistent.
\<close>

theorem deliver_routes:
  assumes inv: "fabric_inv f"
  shows "case host_for_ip f (pkt_dst pkt) of
      None \<Rightarrow> fabric_deliver f pkt = Some f
    | Some hid \<Rightarrow> \<exists>k k' f'. kernel_of f hid = Some k \<and> kernel_deliver k pkt = Some k' \<and>
        fabric_deliver f pkt = Some f' \<and> fabric_inv f' \<and> kernel_of f' = (kernel_of f)(hid \<mapsto> k') \<and>
        ip_to_host f' = ip_to_host f"
proof (cases "host_for_ip f (pkt_dst pkt)")
  case None
  then show ?thesis by (simp add: fabric_deliver_def host_for_ip_def)
next
  case (Some hid)
  obtain k k' where k: "kernel_of f hid = Some k" "kernel_deliver k pkt = Some k'"
    "fabric_deliver f pkt = Some (put_kernel hid k' f)" "fabric_inv (put_kernel hid k' f)"
    using deliver_owner [OF inv Some] by metis
  have "kernel_of (put_kernel hid k' f) = (kernel_of f)(hid \<mapsto> k')"
    using k(1) by (intro ext) (simp add: kernel_of_put)
  then show ?thesis using Some k by (simp add: put_kernel_def)
qed

theorem deliver_routes_witness:
  "fabric_deliver (Fabric_new KernelConfig_default) (demo_packet no_flags 0 0 []) = Some (Fabric_new KernelConfig_default)"
  using deliver_routes [of "Fabric_new KernelConfig_default" "demo_packet no_flags 0 0 []"]
    fabric_inv_new [of KernelConfig_default]
  by (simp add: valid_cfg_def config_defs host_for_ip_def Fabric_new_def)

section \<open>Rules\<close>

text \<open>
  The rule chain: the verdict on a packet is that of the first installed rule, in
  installation order, that does not pass (\<open>Pass\<close> if there is none). The rules up to and
  including that one have seen the packet and updated their state; those after it have not
  run at all.
\<close>

theorem first_verdict_wins:
  "if \<forall>(rid, r) \<in> set rs. fst (on_packet r pkt) = Pass
   then evaluate_rules on_packet pkt rs = (Pass, map (\<lambda>(rid, r). (rid, snd (on_packet r pkt))) rs)
   else \<exists>before rid r after. rs = before @ (rid, r) # after \<and>
     (\<forall>(i, q) \<in> set before. fst (on_packet q pkt) = Pass) \<and> fst (on_packet r pkt) \<noteq> Pass \<and>
     evaluate_rules on_packet pkt rs =
       (fst (on_packet r pkt), map (\<lambda>(i, q). (i, snd (on_packet q pkt))) before @ (rid, snd (on_packet r pkt)) # after)"
proof (induction rs)
  case (Cons p rs)
  obtain rid r where p: "p = (rid, r)" by (cases p)
  show ?case
  proof (cases "fst (on_packet r pkt) = Pass")
    case False
    then have "evaluate_rules on_packet pkt (p # rs) = (fst (on_packet r pkt), (rid, snd (on_packet r pkt)) # rs)"
      by (simp add: p case_prod_beta' Let_def)
    then show ?thesis using False p by (auto intro!: exI [of _ "[]"])
  next
    case True
    then have step: "evaluate_rules on_packet pkt (p # rs) = (fst (evaluate_rules on_packet pkt rs),
        (rid, snd (on_packet r pkt)) # snd (evaluate_rules on_packet pkt rs))"
      by (simp add: p case_prod_beta' Let_def)
    show ?thesis
    proof (cases "\<forall>(rid, r) \<in> set rs. fst (on_packet r pkt) = Pass")
      case True
      then show ?thesis using Cons.IH step \<open>fst (on_packet r pkt) = Pass\<close> p by simp
    next
      case False
      then obtain before i q after where b: "rs = before @ (i, q) # after"
        "\<forall>(i, q) \<in> set before. fst (on_packet q pkt) = Pass" "fst (on_packet q pkt) \<noteq> Pass"
        "evaluate_rules on_packet pkt rs = (fst (on_packet q pkt),
           map (\<lambda>(i, q). (i, snd (on_packet q pkt))) before @ (i, snd (on_packet q pkt)) # after)"
        using Cons.IH unfolding if_not_P [OF False] by blast
      have "\<not> (\<forall>(rid, r) \<in> set (p # rs). fst (on_packet r pkt) = Pass)" using b by auto
      moreover have "p # rs = (p # before) @ (i, q) # after"
        "\<forall>(i, q) \<in> set (p # before). fst (on_packet q pkt) = Pass"
        "evaluate_rules on_packet pkt (p # rs) = (fst (on_packet q pkt),
           map (\<lambda>(i, q). (i, snd (on_packet q pkt))) (p # before) @ (i, snd (on_packet q pkt)) # after)"
        using b step True p by simp_all
      ultimately show ?thesis using b(3) by (simp only: if_False) blast
    qed
  qed
qed simp

theorem first_verdict_wins_witness:
  "evaluate_rules latency_on_packet (demo_packet no_flags 0 0 []) [(1, 5), (2, 7)] = (Deliver 5, [(1, 5), (2, 7)])"
proof -
  let ?p = "demo_packet no_flags 0 0 []" and ?rs = "[(1, 5), (2, 7)] :: (nat \<times> duration) list"
  have "\<not> (\<forall>(rid, r) \<in> set ?rs. fst (latency_on_packet r ?p) = Pass)" by (force simp: latency_on_packet_def)
  then show ?thesis
    using first_verdict_wins [of ?rs latency_on_packet ?p] by (auto simp: latency_on_packet_def Cons_eq_append_conv)
qed

end
