(* ===== verification/Scheduler.thy ===== *)
theory Scheduler
  imports Fabric_Props
begin

text \<open>
  \<^verbatim>\<open>turmoil-net/src/fixture/scheduler.rs\<close>: the clock-driven packet scheduler of the fixtures. It
  advances the simulated time, delivers what has come due, drains every host and routes each
  packet by the verdict of the rules. \<^verbatim>\<open>binary_search_by\<close> on a sorted vector without an equal
  key returns the number of smaller keys.
\<close>

record Scheduled =
  deliver_at :: duration
  sch_seq :: nat
  sch_pkt :: Packet

record Scheduler =
  sch_now :: duration
  sch_pending :: "Scheduled list"
  next_seq :: nat
  sch_egress :: "Packet list"

definition Scheduler_new :: Scheduler where
  "Scheduler_new = \<lparr>sch_now = 0, sch_pending = [], next_seq = 0, sch_egress = []\<rparr>"

definition before :: "Scheduled \<Rightarrow> Scheduled \<Rightarrow> bool" where
  "before a b \<longleftrightarrow> deliver_at a < deliver_at b \<or> (deliver_at a = deliver_at b \<and> sch_seq a < sch_seq b)"

definition schedule :: "Packet \<Rightarrow> duration \<Rightarrow> Scheduler \<Rightarrow> Scheduler" where
  "schedule pkt delay s =
     (let entry = \<lparr>deliver_at = sch_now s + delay, sch_seq = next_seq s, sch_pkt = pkt\<rparr>;
          idx = length (filter (\<lambda>p. before p entry) (sch_pending s))
      in s\<lparr>next_seq := next_seq s + 1,
           sch_pending := take idx (sch_pending s) @ entry # drop idx (sch_pending s)\<rparr>)"

fun deliver_all :: "Packet list \<Rightarrow> 'r Net \<Rightarrow> 'r Net option" where
  "deliver_all [] n = Some n"
| "deliver_all (p # ps) n = do { n1 \<leftarrow> guard_deliver p n; deliver_all ps n1 }"

text \<open>The loop over the drained packets: drop, deliver now, or schedule for later.\<close>

fun route_all ::
  "('r \<Rightarrow> Packet \<Rightarrow> Verdict \<times> 'r) \<Rightarrow> Packet list \<Rightarrow> Scheduler \<Rightarrow> 'r Net \<Rightarrow> (Scheduler \<times> 'r Net) option" where
  "route_all on_packet [] s n = Some (s, n)"
| "route_all on_packet (p # ps) s n =
     (let (v, n1) = net_evaluate on_packet p n
      in case v of
           Drop \<Rightarrow> route_all on_packet ps s n1
         | Deliver d \<Rightarrow>
             if d = 0 then do { n2 \<leftarrow> guard_deliver p n1; route_all on_packet ps s n2 }
             else route_all on_packet ps (schedule p d s) n1
         | Pass \<Rightarrow> do { n2 \<leftarrow> guard_deliver p n1; route_all on_packet ps s n2 })"

definition tick ::
  "('r \<Rightarrow> Packet \<Rightarrow> Verdict \<times> 'r) \<Rightarrow> duration \<Rightarrow> Scheduler \<Rightarrow> 'r Net \<Rightarrow> (Scheduler \<times> 'r Net) option" where
  "tick on_packet dt s n = do {
     let now = sch_now s + dt;
     let ready = takeWhile (\<lambda>p. \<not> now < deliver_at p) (sch_pending s);
     let s1 = s\<lparr>sch_now := now, sch_pending := dropWhile (\<lambda>p. \<not> now < deliver_at p) (sch_pending s)\<rparr>;
     n1 \<leftarrow> deliver_all (map sch_pkt ready) n;
     (n2, egress) \<leftarrow> guard_egress_all n1 (sch_egress s1);
     (s2, n3) \<leftarrow> route_all on_packet egress (s1\<lparr>sch_egress := []\<rparr>) n2;
     Some (s2, n3)
   }"

section \<open>The queue stays sorted\<close>

text \<open>
  The pending queue is strictly sorted by deadline and emission number, every number is below
  the counter, and nothing in it is due.
\<close>

definition sched_inv :: "Scheduler \<Rightarrow> bool" where
  "sched_inv s \<longleftrightarrow> sorted_wrt before (sch_pending s) \<and>
     (\<forall>p \<in> set (sch_pending s). sch_seq p < next_seq s \<and> sch_now s < deliver_at p)"

lemma before_trans: "before a b \<Longrightarrow> before b c \<Longrightarrow> before a c"
  by (auto simp: before_def)

lemma filter_before_prefix:
  assumes "sorted_wrt before ps"
  shows "filter (\<lambda>p. before p e) ps = takeWhile (\<lambda>p. before p e) ps"
  using assms
proof (induction ps)
  case (Cons p ps)
  show ?case
  proof (cases "before p e")
    case False
    then have "\<not> before q e" if "q \<in> set ps" for q using Cons.prems that before_trans by auto
    then show ?thesis using False by simp
  qed (use Cons in simp)
qed simp

lemma schedule_appends:
  assumes inv: "sched_inv s" and e: "e = \<lparr>deliver_at = sch_now s + d, sch_seq = next_seq s, sch_pkt = pkt\<rparr>"
  shows "sch_pending (schedule pkt d s) = takeWhile (\<lambda>p. before p e) (sch_pending s) @ e # dropWhile (\<lambda>p. before p e) (sch_pending s)"
proof -
  have "sorted_wrt before (sch_pending s)" using inv by (simp add: sched_inv_def)
  note f = filter_before_prefix [OF this, of e]
  show ?thesis unfolding schedule_def Let_def e [symmetric] f
    by (simp add: takeWhile_eq_take [symmetric] dropWhile_eq_drop [symmetric])
qed

lemma schedule_frame [simp]:
  "next_seq (schedule pkt d s) = Suc (next_seq s)" "sch_now (schedule pkt d s) = sch_now s"
  "sch_egress (schedule pkt d s) = sch_egress s"
  by (simp_all add: schedule_def Let_def)

lemma sorted_wrt_between:
  "sorted_wrt P (xs @ ys) \<Longrightarrow> \<forall>x \<in> set xs. P x e \<Longrightarrow> \<forall>y \<in> set ys. P e y \<Longrightarrow> sorted_wrt P (xs @ e # ys)"
  by (auto simp: sorted_wrt_append)

lemma schedule_inv:
  assumes inv: "sched_inv s" and d: "0 < d"
  shows "sched_inv (schedule pkt d s)"
proof -
  define e where "e = \<lparr>deliver_at = sch_now s + d, sch_seq = next_seq s, sch_pkt = pkt\<rparr>"
  let ?ps = "sch_pending s"
  note pend = schedule_appends [OF inv e_def]
  have s: "sorted_wrt before ?ps" and n: "\<forall>p \<in> set ?ps. sch_seq p < next_seq s \<and> sch_now s < deliver_at p"
    using inv by (auto simp: sched_inv_def)
  have 1: "\<forall>p \<in> set (takeWhile (\<lambda>p. before p e) ?ps). before p e" using set_takeWhileD by fast
  have split: "sorted_wrt before (takeWhile (\<lambda>p. before p e) ?ps @ dropWhile (\<lambda>p. before p e) ?ps)"
    using s by (simp only: takeWhile_dropWhile_id)
  have 2: "\<forall>p \<in> set (dropWhile (\<lambda>p. before p e) ?ps). before e p"
  proof
    fix p assume p: "p \<in> set (dropWhile (\<lambda>p. before p e) ?ps)"
    then obtain q qs where q: "dropWhile (\<lambda>p. before p e) ?ps = q # qs" by (cases "dropWhile (\<lambda>p. before p e) ?ps") auto
    have "q \<in> set ?ps" using q by (metis list.set_intros(1) set_dropWhileD)
    moreover have "\<not> before q e" using q by (metis dropWhile_eq_Cons_conv)
    ultimately have "before e q" using n by (auto simp: before_def e_def)
    moreover have "p = q \<or> before q p" using p split q by (auto simp: sorted_wrt_append)
    ultimately show "before e p" using before_trans by blast
  qed
  have "sorted_wrt before (sch_pending (schedule pkt d s))"
    unfolding pend using split 1 2 by (rule sorted_wrt_between)
  moreover have "set (takeWhile (\<lambda>p. before p e) ?ps) \<union> set (dropWhile (\<lambda>p. before p e) ?ps) = set ?ps"
    by (metis set_append takeWhile_dropWhile_id)
  then have "set (sch_pending (schedule pkt d s)) = insert e (set ?ps)"
    unfolding pend by (simp only: set_append list.set Un_insert_right)
  ultimately show ?thesis
    using n d by (auto simp: sched_inv_def less_Suc_eq) (auto simp: e_def)
qed

lemma schedule_old:
  assumes "sched_inv s" "m \<le> next_seq s"
  shows "filter (\<lambda>p. sch_seq p < m) (sch_pending (schedule pkt d s)) = filter (\<lambda>p. sch_seq p < m) (sch_pending s)"
proof -
  define e where "e = \<lparr>deliver_at = sch_now s + d, sch_seq = next_seq s, sch_pkt = pkt\<rparr>"
  have "filter (\<lambda>p. sch_seq p < m) (takeWhile (\<lambda>p. before p e) ps @ e # dropWhile (\<lambda>p. before p e) ps) =
      filter (\<lambda>p. sch_seq p < m) (takeWhile (\<lambda>p. before p e) ps @ dropWhile (\<lambda>p. before p e) ps)" for ps
    using assms(2) unfolding filter_append filter.simps by (simp add: e_def)
  then show ?thesis unfolding schedule_appends [OF assms(1) e_def] by simp
qed

lemma due_prefix:
  assumes "sched_inv s"
  shows "takeWhile (\<lambda>p. \<not> now < deliver_at p) (sch_pending s) = filter (\<lambda>p. deliver_at p \<le> now) (sch_pending s)"
    "dropWhile (\<lambda>p. \<not> now < deliver_at p) (sch_pending s) = filter (\<lambda>p. now < deliver_at p) (sch_pending s)"
proof -
  have "sorted_wrt before (sch_pending s)" using assms by (simp add: sched_inv_def)
  then have "takeWhile (\<lambda>p. \<not> now < deliver_at p) (sch_pending s) = filter (\<lambda>p. deliver_at p \<le> now) (sch_pending s) \<and>
    dropWhile (\<lambda>p. \<not> now < deliver_at p) (sch_pending s) = filter (\<lambda>p. now < deliver_at p) (sch_pending s)"
  proof (induction "sch_pending s" arbitrary: s)
    case (Cons p ps)
    have tail: "now < deliver_at q" if "now < deliver_at p" "q \<in> set ps" for q
      using Cons.prems Cons.hyps(2) [symmetric] that by (fastforce simp: before_def)
    have "sorted_wrt before (sch_pending (s\<lparr>sch_pending := ps\<rparr>))"
      using Cons.prems Cons.hyps(2) [symmetric] by simp
    note IH = Cons.hyps(1) [OF _ this]
    show ?case
    proof (cases "now < deliver_at p")
      case True
      have "filter (\<lambda>p. deliver_at p \<le> now) ps = []" using tail [OF True] by (auto simp: filter_empty_conv not_le)
      moreover have "filter (\<lambda>p. now < deliver_at p) ps = ps" using tail [OF True] by (auto simp: filter_id_conv)
      ultimately show ?thesis using True Cons.hyps(2) [symmetric] by simp
    next
      case False
      then show ?thesis using IH Cons.hyps(2) [symmetric] by simp
    qed
  qed simp
  then show "takeWhile (\<lambda>p. \<not> now < deliver_at p) (sch_pending s) = filter (\<lambda>p. deliver_at p \<le> now) (sch_pending s)"
    "dropWhile (\<lambda>p. \<not> now < deliver_at p) (sch_pending s) = filter (\<lambda>p. now < deliver_at p) (sch_pending s)" by auto
qed

section \<open>A tick returns\<close>

definition net_inv :: "'r Net \<Rightarrow> bool" where
  "net_inv n \<longleftrightarrow> fabric_inv (net_fabric n)"

lemma guard_deliver_safe: "net_inv n \<Longrightarrow> returns (guard_deliver p n) net_inv"
  unfolding guard_deliver_def net_inv_def returns_simps
  by (rule returns_mono [OF fabric_deliver_safe]) auto

lemma deliver_all_safe: "net_inv n \<Longrightarrow> returns (deliver_all ps n) net_inv"
proof (induction ps arbitrary: n)
  case (Cons p ps)
  then show ?case unfolding deliver_all.simps returns_simps
    by (intro returns_mono [OF guard_deliver_safe]) auto
qed simp

lemma net_inv_evaluate: "net_inv (snd (net_evaluate on_packet p n)) = net_inv n"
  by (simp add: net_evaluate_def net_inv_def case_prod_beta' Let_def)

lemma guard_egress_safe: "net_inv n \<Longrightarrow> returns (guard_egress_all n out) (\<lambda>(n', out'). net_inv n')"
  unfolding guard_egress_all_def net_inv_def returns_simps
  by (rule returns_mono [OF fabric_egress_safe]) auto

text \<open>What the routing loop may do to the scheduler.\<close>

definition extends :: "Scheduler \<Rightarrow> Scheduler \<Rightarrow> bool" where
  "extends s s' \<longleftrightarrow> sched_inv s' \<and> sch_now s' = sch_now s \<and> next_seq s \<le> next_seq s' \<and> sch_egress s' = sch_egress s \<and>
     filter (\<lambda>p. sch_seq p < next_seq s) (sch_pending s') = sch_pending s"

lemma extends_schedule:
  assumes inv: "sched_inv s" "0 < d" and e: "extends (schedule p d s) s'"
  shows "extends s s'"
proof -
  have "filter (\<lambda>p. sch_seq p < next_seq s) (sch_pending s') =
      filter (\<lambda>p. sch_seq p < next_seq s) (filter (\<lambda>p. sch_seq p < Suc (next_seq s)) (sch_pending s'))"
    by (auto intro!: filter_cong simp: filter_filter)
  also have "\<dots> = filter (\<lambda>p. sch_seq p < next_seq s) (sch_pending (schedule p d s))"
    using e by (simp add: extends_def)
  also have "\<dots> = sch_pending s"
    using schedule_old [OF inv(1) le_refl] inv(1) by (auto simp: filter_id_conv sched_inv_def)
  finally show ?thesis using e by (simp add: extends_def)
qed

lemma extends_refl: "sched_inv s \<Longrightarrow> extends s s"
  by (auto simp: extends_def filter_id_conv sched_inv_def)

lemma route_all_safe:
  assumes "net_inv n" "sched_inv s"
  shows "returns (route_all on_packet ps s n) (\<lambda>(s', n'). net_inv n' \<and> extends s s')"
  using assms
proof (induction ps arbitrary: s n)
  case (Cons p ps)
  obtain v n1 where v: "net_evaluate on_packet p n = (v, n1)" by (cases "net_evaluate on_packet p n")
  have n1: "net_inv n1" using net_inv_evaluate [of on_packet p n] v Cons.prems by simp
  have now: "returns (Option.bind (guard_deliver p n1) (\<lambda>n2. route_all on_packet ps s n2))
      (\<lambda>(s', n'). net_inv n' \<and> extends s s')"
    unfolding returns_simps by (rule returns_mono [OF guard_deliver_safe [OF n1]]) (rule Cons.IH [OF _ Cons.prems(2)])
  have later: "returns (route_all on_packet ps (schedule p d s) n1) (\<lambda>(s', n'). net_inv n' \<and> extends s s')"
    if "0 < d" for d
    by (rule returns_mono [OF Cons.IH [OF n1 schedule_inv [OF Cons.prems(2) that]]])
      (use extends_schedule [OF Cons.prems(2) that] in auto)
  show ?case using v now later Cons.IH [OF n1 Cons.prems(2)] by (cases v) simp_all
qed (simp add: extends_refl)

lemma drop_due_inv:
  assumes "sched_inv s"
  shows "sched_inv (s\<lparr>sch_now := now, sch_pending := filter (\<lambda>p. now < deliver_at p) (sch_pending s), sch_egress := []\<rparr>)"
  using assms by (auto simp: sched_inv_def sorted_wrt_filter)

lemma tick_eq:
  assumes n: "net_inv n" and s: "sched_inv s" and now: "now = sch_now s + dt"
  obtains n1 n2 egress s' n' where
    "deliver_all (map sch_pkt (filter (\<lambda>p. deliver_at p \<le> now) (sch_pending s))) n = Some n1"
    "guard_egress_all n1 (sch_egress s) = Some (n2, egress)"
    "route_all on_packet egress (s\<lparr>sch_now := now,
       sch_pending := filter (\<lambda>p. now < deliver_at p) (sch_pending s), sch_egress := []\<rparr>) n2 = Some (s', n')"
    "tick on_packet dt s n = Some (s', n')" "net_inv n'" "sched_inv s'" "sch_now s' = now" "sch_egress s' = []"
    "filter (\<lambda>p. sch_seq p < next_seq s) (sch_pending s') = filter (\<lambda>p. now < deliver_at p) (sch_pending s)"
proof -
  let ?s = "s\<lparr>sch_now := now, sch_pending := filter (\<lambda>p. now < deliver_at p) (sch_pending s), sch_egress := []\<rparr>"
  obtain n1 where n1: "deliver_all (map sch_pkt (filter (\<lambda>p. deliver_at p \<le> now) (sch_pending s))) n = Some n1" "net_inv n1"
    using deliver_all_safe [OF n] by (auto simp: returns_def)
  obtain n2 egress where n2: "guard_egress_all n1 (sch_egress s) = Some (n2, egress)" "net_inv n2"
    using guard_egress_safe [OF n1(2), of "sch_egress s"] by (auto simp: returns_def)
  obtain s' n' where r: "route_all on_packet egress ?s n2 = Some (s', n')" "net_inv n'" "extends ?s s'"
    using route_all_safe [OF n2(2) drop_due_inv [OF s], of on_packet egress now] by (auto simp: returns_def)
  have "tick on_packet dt s n = Some (s', n')"
    using n1(1) n2(1) r(1) by (simp add: tick_def Let_def due_prefix [OF s] flip: now)
  then show ?thesis using n1(1) n2(1) r by (intro that) (auto simp: extends_def)
qed



section \<open>Fixed latency keeps the order\<close>

lemma schedule_last:
  assumes inv: "sched_inv s" and le: "\<forall>p \<in> set (sch_pending s). deliver_at p \<le> sch_now s + d"
  shows "sch_pending (schedule pkt d s) =
    sch_pending s @ [\<lparr>deliver_at = sch_now s + d, sch_seq = next_seq s, sch_pkt = pkt\<rparr>]"
proof -
  let ?e = "\<lparr>deliver_at = sch_now s + d, sch_seq = next_seq s, sch_pkt = pkt\<rparr>"
  have "\<forall>p \<in> set (sch_pending s). before p ?e"
    using inv le by (auto simp: sched_inv_def before_def le_less)
  then have "filter (\<lambda>p. before p ?e) (sch_pending s) = sch_pending s" by (simp add: filter_id_conv)
  then show ?thesis by (simp add: schedule_def Let_def)
qed

text \<open>
  A fixed latency delays every packet by exactly that much and never reorders: when the
  only rule is \<^verbatim>\<open>Latency::fixed(d)\<close> and nothing pending is later than \<open>d\<close> from now, the drained
  packets all go to the end of the queue in the order they were emitted, each due exactly
  \<open>d\<close> from now, and the network is not touched.
\<close>

theorem latency_fifo:
  assumes "sched_inv s" "0 < d" "net_rules n = [(rid, d)]"
    and "\<forall>p \<in> set (sch_pending s). deliver_at p \<le> sch_now s + d"
  shows "\<exists>s'. route_all latency_on_packet ps s n = Some (s', n) \<and> sched_inv s' \<and> sch_now s' = sch_now s \<and>
    sch_pending s' = sch_pending s @
      map (\<lambda>(i, p). \<lparr>deliver_at = sch_now s + d, sch_seq = i, sch_pkt = p\<rparr>) (enumerate (next_seq s) ps)"
  using assms(1,4)
proof (induction ps arbitrary: s)
  case (Cons p ps)
  have ev: "net_evaluate latency_on_packet p n = (Deliver d, n)"
    using assms(3) by (simp add: net_evaluate_def latency_on_packet_def)
  let ?s = "schedule p d s"
  note pend = schedule_last [OF Cons.prems, of p]
  have "\<forall>q \<in> set (sch_pending ?s). deliver_at q \<le> sch_now ?s + d" using Cons.prems(2) pend by auto
  then show ?case
    using Cons.IH [OF schedule_inv [OF Cons.prems(1) assms(2)], of p] ev assms(2) pend by simp
qed simp

theorem latency_fifo_witness:
  "\<exists>s'. route_all latency_on_packet [demo_packet no_flags 0 0 [], demo_packet no_flags 1 0 []] Scheduler_new
       (Net_new\<lparr>net_rules := [(1, 5)]\<rparr>) = Some (s', Net_new\<lparr>net_rules := [(1, 5)]\<rparr>) \<and>
     map sch_pkt (sch_pending s') = [demo_packet no_flags 0 0 [], demo_packet no_flags 1 0 []] \<and>
     map deliver_at (sch_pending s') = [5, 5]"
  using latency_fifo [of Scheduler_new 5 "Net_new\<lparr>net_rules := [(1, 5)]\<rparr>" 1
      "[demo_packet no_flags 0 0 [], demo_packet no_flags 1 0 []]"]
  by (auto simp: Scheduler_new_def sched_inv_def)

section \<open>Runs of a simulated network\<close>

text \<open>
  What a test does with a network once it is entered: ticks, system calls of the current
  host's tasks, switching the current host, and installing and removing rules. Hosts are
  registered beforehand.
\<close>

datatype 'r NetOp =
    Op_tick duration | Op_sys Call | Op_set_current HostId | Op_rule 'r | Op_unrule RuleId
  | Op_add_host "ToIpAddr list"

definition sys_call :: "Call \<Rightarrow> 'r Net \<Rightarrow> 'r Net option" where
  "sys_call c n = map_option snd (sys (\<lambda>k. map_option (Pair ()) (call k c)) n)"

fun net_step ::
  "('r \<Rightarrow> Packet \<Rightarrow> Verdict \<times> 'r) \<Rightarrow> Scheduler \<times> 'r Net \<Rightarrow> 'r NetOp \<Rightarrow> (Scheduler \<times> 'r Net) option" where
  "net_step on_packet (s, n) (Op_tick dt) = tick on_packet dt s n"
| "net_step on_packet (s, n) (Op_sys c) = map_option (Pair s) (sys_call c n)"
| "net_step on_packet (s, n) (Op_set_current hid) = Some (s, set_current hid n)"
| "net_step on_packet (s, n) (Op_rule r) = Some (s, snd (net_install_rule r n))"
| "net_step on_packet (s, n) (Op_unrule rid) = Some (s, net_uninstall_rule rid n)"
| "net_step on_packet (s, n) (Op_add_host as) = map_option (\<lambda>(_, n1). (s, n1)) (net_add_host as n)"

text \<open>What the code asks of its caller: a current host, and addresses nobody has.\<close>

fun net_admissible :: "Scheduler \<times> 'r Net \<Rightarrow> 'r NetOp \<Rightarrow> bool" where
  "net_admissible (s, n) (Op_sys c) =
     (case Option.bind (net_current n) (kernel_of (net_fabric n)) of None \<Rightarrow> False | Some k \<Rightarrow> admissible_call k c)"
| "net_admissible (s, n) (Op_add_host as) =
     (fb_next_id (net_fabric n) + 1 < 2 ^ 32 \<and>
      (\<forall>a \<in> set (fst (to_ip_addrs as (net_dns n))). \<not> is_unspecified a \<and> \<not> is_loopback a \<and>
         host_for_ip (net_fabric n) a = None))"
| "net_admissible sn op = True"

definition sim_inv :: "Scheduler \<times> 'r Net \<Rightarrow> bool" where
  "sim_inv sn \<longleftrightarrow> sched_inv (fst sn) \<and> net_inv (snd sn)"

lemma sys_call_safe:
  assumes n: "net_inv n" and a: "net_admissible (s, n) (Op_sys c)"
  shows "returns (sys_call c n) net_inv"
proof -
  obtain hid k where k: "net_current n = Some hid" "kernel_of (net_fabric n) hid = Some k" "admissible_call k c"
    using a by (auto split: option.splits simp: bind_Some_iff)
  obtain k' where "call k c = Some k'" "kernel_inv k'"
    using call_safe [OF fabric_inv_kernel [OF _ k(2)] k(3)] n by (auto simp: net_inv_def returns_def)
  then show ?thesis
    using k fabric_inv_put [of "net_fabric n" k' hid] n by (simp add: sys_call_def sys_def net_inv_def returns_def)
qed

lemma add_host_safe:
  assumes n: "net_inv n" and a: "net_admissible (s, n) (Op_add_host as)"
  shows "returns (net_add_host as n) (\<lambda>(_, n'). net_inv n')"
proof -
  obtain ips dns where ips: "to_ip_addrs as (net_dns n) = (ips, dns)" by (cases "to_ip_addrs as (net_dns n)")
  show ?thesis
    using add_host_ok [of "net_fabric n" ips, OF _ _ _ _ refl refl] n a ips
    by (auto simp: net_add_host_def net_inv_def returns_def host_for_ip_def)
qed

lemma net_step_safe:
  assumes inv: "sim_inv sn" and a: "net_admissible sn op"
  shows "returns (net_step on_packet sn op) sim_inv"
proof -
  obtain s n where sn: "sn = (s, n)" by (cases sn)
  have i: "sched_inv s" "net_inv n" using inv sn by (auto simp: sim_inv_def)
  show ?thesis
  proof (cases op)
    case (Op_tick dt)
    then show ?thesis
      using tick_eq [OF i(2,1) refl, of dt on_packet] sn by (metis (no_types) net_step.simps(1) returns_eqI sim_inv_def fst_conv snd_conv)
  next
    case (Op_sys c)
    then show ?thesis using sys_call_safe [OF i(2)] a sn i(1) by (auto simp: returns_def sim_inv_def simp del: net_admissible.simps)
  next
    case (Op_add_host as)
    then show ?thesis
      using add_host_safe [OF i(2), of s as] a sn i(1)
      by (auto simp: returns_def sim_inv_def simp del: net_admissible.simps)
  qed (use sn i in \<open>auto simp: sim_inv_def net_inv_def set_current_def net_install_rule_def net_uninstall_rule_def\<close>)
qed

interpretation net_run: invariant_system "net_step on_packet" sim_inv net_admissible
  for on_packet :: "'r \<Rightarrow> Packet \<Rightarrow> Verdict \<times> 'r"
proof unfold_locales
  fix sn :: "Scheduler \<times> 'r Net" and op :: "'r NetOp"
  assume "sim_inv sn" "net_admissible sn op"
  then obtain sn' where sn': "net_step on_packet sn op = Some sn'" "sim_inv sn'"
    using net_step_safe [of sn op on_packet] by (auto simp: returns_def)
  then show "\<exists>sn'. net_step on_packet sn op = Some sn'" by blast
  show "sim_inv s'" if "net_step on_packet sn op = Some s'" for s' using that sn' by simp
qed


definition demo_net_ops :: "duration NetOp list" where
  "demo_net_ops = [Op_add_host [Literal (V4 0x0A000001)], Op_add_host [Literal (V4 0x0A000002)], Op_rule 5,
     Op_sys (Call_open Inet Stream), Op_set_current 1, Op_sys (Call_open Inet Dgram), Op_tick 10]"


end
