(* ===== verification/Fs_Data.thy ===== *)
theory Fs_Data
  imports Complex_Main Prelude
begin

text \<open>
  \<^verbatim>\<open>turmoil-fs/src/lib.rs\<close>, the data of a simulated file system: paths, pending operations,
  inodes, the page cache, the configuration and the state of a host. Probabilities are
  rationals in place of 64-bit floats; sizes and offsets are unbounded. The random number
  generator is a third-party crate: its state has type \<open>'g\<close> and the operations that draw from
  it take the drawing function as an argument.
\<close>

section \<open>Paths\<close>

text \<open>
  \<^verbatim>\<open>std::path::Path\<close> compares, hashes and takes parents by components, so a path is its
  component list.
\<close>

datatype Component = RootDir | CurDir | ParentDir | Normal string

type_synonym Path = "Component list"

definition path_parent :: "Path \<Rightarrow> Path option" where
  "path_parent p = (if p = [] \<or> last p = RootDir then None else Some (butlast p))"

section \<open>Pending operations and inodes\<close>

datatype PendingOp =
    CreateFile Path duration u32
  | CreateDir Path duration u32
  | CreateSymlink Path Path duration
  | CreateHardLink Path Path duration
  | Write Path nat bytes duration
  | SetLen Path nat duration
  | SetPermissions Path u32 duration
  | Rename Path Path
  | RemoveFile Path
  | RemoveDir Path

record FileData =
  content :: bytes
  crtime :: duration
  mtime :: duration
  ctime :: duration
  file_mode_bits :: u32
  nlink :: nat

definition FileData_with_mode :: "duration \<Rightarrow> u32 \<Rightarrow> FileData" where
  "FileData_with_mode now mode = \<lparr>content = [], crtime = now, mtime = now, ctime = now,
     file_mode_bits = mode, nlink = 1\<rparr>"

record DirData =
  d_crtime :: duration
  d_mtime :: duration
  d_ctime :: duration
  dir_mode_bits :: u32

definition DirData_with_mode :: "duration \<Rightarrow> u32 \<Rightarrow> DirData" where
  "DirData_with_mode now mode = \<lparr>d_crtime = now, d_mtime = now, d_ctime = now, dir_mode_bits = mode\<rparr>"

definition DirData_new :: "duration \<Rightarrow> DirData" where
  "DirData_new now = DirData_with_mode now 0x1ED"

record SymlinkData =
  s_target :: Path
  s_crtime :: duration
  s_mtime :: duration
  s_ctime :: duration

definition SymlinkData_new :: "Path \<Rightarrow> duration \<Rightarrow> SymlinkData" where
  "SymlinkData_new target now = \<lparr>s_target = target, s_crtime = now, s_mtime = now, s_ctime = now\<rparr>"

section \<open>Index sets\<close>

text \<open>\<^verbatim>\<open>indexmap::IndexSet\<close>: an insertion-ordered map to the unit type.\<close>

type_synonym 'a iset = "('a, unit) imap"

abbreviation iset_insert :: "'a \<Rightarrow> 'a iset \<Rightarrow> 'a iset" where
  "iset_insert x s \<equiv> imap_insert x () s"

abbreviation iset_swap_remove :: "'a \<Rightarrow> 'a iset \<Rightarrow> 'a iset" where
  "iset_swap_remove x s \<equiv> imap_swap_remove x s"

abbreviation iset_contains :: "'a iset \<Rightarrow> 'a \<Rightarrow> bool" where
  "iset_contains s x \<equiv> imap_get s x \<noteq> None"

section \<open>The page cache\<close>

type_synonym prob = rat

record PageCacheConfig =
  page_size :: nat
  max_pages :: nat
  random_eviction_probability :: prob

definition PageCacheConfig_default :: PageCacheConfig where
  "PageCacheConfig_default = \<lparr>page_size = 4096, max_pages = 256, random_eviction_probability = 0\<rparr>"

record PageCache =
  pages :: "(Path \<times> nat) iset"
  pc_config :: PageCacheConfig

definition PageCache_new :: "PageCacheConfig \<Rightarrow> PageCache" where
  "PageCache_new cfg = \<lparr>pages = [], pc_config = cfg\<rparr>"

definition cache_access ::
  "(prob \<Rightarrow> 'g \<Rightarrow> bool \<times> 'g) \<Rightarrow> PageCache \<Rightarrow> Path \<Rightarrow> nat \<Rightarrow> 'g \<Rightarrow> bool \<times> PageCache \<times> 'g" where
  "cache_access random_bool c path offset g =
     (let key = (path, offset div page_size (pc_config c));
          pr = random_eviction_probability (pc_config c);
          (chaos, g1) = (if 0 < pr then random_bool pr g else (False, g))
      in if chaos then (False, c\<lparr>pages := iset_swap_remove key (pages c)\<rparr>, g1)
         else if iset_contains (pages c) key then
           (True, c\<lparr>pages := iset_insert key (iset_swap_remove key (pages c))\<rparr>, g1)
         else (False, c, g1))"

text \<open>The eviction loop; removing index 0 of an empty set changes nothing.\<close>

partial_function (option) evict :: "nat \<Rightarrow> (Path \<times> nat) iset \<Rightarrow> (Path \<times> nat) iset option" where
  "evict mx ps = (if mx \<le> length ps then evict mx (tl ps) else Some ps)"

definition cache_insert :: "PageCache \<Rightarrow> Path \<Rightarrow> nat \<Rightarrow> PageCache option" where
  "cache_insert c path offset = do {
     let key = (path, offset div page_size (pc_config c));
     ps \<leftarrow> evict (max_pages (pc_config c)) (pages c);
     Some (c\<lparr>pages := iset_insert key (iset_swap_remove key ps)\<rparr>)
   }"

definition invalidate_file :: "PageCache \<Rightarrow> Path \<Rightarrow> PageCache" where
  "invalidate_file c path = c\<lparr>pages := imap_retain (\<lambda>(p, _) _. p \<noteq> path) (pages c)\<rparr>"

section \<open>Configuration and state\<close>

text \<open>\<^verbatim>\<open>distribution\<close> is the rate of an exponential distribution of a third-party crate.\<close>

record IoLatency =
  min_latency :: duration
  max_latency :: duration
  distribution :: rat

definition IoLatency_default :: IoLatency where
  "IoLatency_default = \<lparr>min_latency = 50 * 10 ^ 3, max_latency = 5 * 10 ^ 6, distribution = 5\<rparr>"

record FsConfig =
  cfg_sync_probability :: prob
  cfg_capacity :: "nat option"
  cfg_io_error_probability :: prob
  cfg_corruption_probability :: prob
  cfg_short_read_probability :: prob
  cfg_noatime :: bool
  cfg_direct_io_alignment :: nat
  cfg_block_size :: "nat option"
  cfg_io_latency :: "IoLatency option"
  cfg_page_cache :: "PageCacheConfig option"

definition FsConfig_default :: FsConfig where
  "FsConfig_default = \<lparr>cfg_sync_probability = 0, cfg_capacity = None, cfg_io_error_probability = 0,
     cfg_corruption_probability = 0, cfg_short_read_probability = 0, cfg_noatime = True,
     cfg_direct_io_alignment = 512, cfg_block_size = None, cfg_io_latency = None, cfg_page_cache = None\<rparr>"

text \<open>A corruption event; the installed hook is user code, and the model records its calls.\<close>

record FsCorruption =
  cor_path :: Path
  cor_offset :: nat
  cor_len :: nat

type_synonym RawFd = nat

definition SIM_FD_BASE :: RawFd where
  "SIM_FD_BASE = 2 ^ 30"

record 'g FsState =
  fs_now :: duration
  corruptions :: "FsCorruption list"
  fs_rng :: 'g
  persisted_files :: "(Path, FileData) imap"
  persisted_dirs :: "(Path, DirData) imap"
  persisted_symlinks :: "(Path, SymlinkData) imap"
  synced_entries :: "Path iset"
  pending :: "PendingOp list"
  open_handles :: "(RawFd, Path) imap"
  direct_io_fds :: "RawFd iset"
  next_fd :: RawFd
  sync_probability :: prob
  capacity :: "nat option"
  io_error_probability :: prob
  corruption_probability :: prob
  short_read_probability :: prob
  direct_io_alignment :: nat
  block_size :: "nat option"
  io_latency :: "IoLatency option"
  page_cache :: "PageCache option"

definition FsState_new :: "FsConfig \<Rightarrow> 'g \<Rightarrow> 'g FsState" where
  "FsState_new cfg seeded = \<lparr>fs_now = 0, corruptions = [], fs_rng = seeded, persisted_files = [],
     persisted_dirs = [([RootDir], DirData_new 0)], persisted_symlinks = [],
     synced_entries = [([RootDir], ())], pending = [], open_handles = [], direct_io_fds = [],
     next_fd = SIM_FD_BASE, sync_probability = cfg_sync_probability cfg, capacity = cfg_capacity cfg,
     io_error_probability = cfg_io_error_probability cfg,
     corruption_probability = cfg_corruption_probability cfg,
     short_read_probability = cfg_short_read_probability cfg,
     direct_io_alignment = cfg_direct_io_alignment cfg, block_size = cfg_block_size cfg,
     io_latency = cfg_io_latency cfg, page_cache = map_option PageCache_new (cfg_page_cache cfg)\<rparr>"

section \<open>Byte vectors\<close>

text \<open>\<^verbatim>\<open>Vec::resize\<close> with zeros, and \<^verbatim>\<open>copy_from_slice\<close> into a range.\<close>

definition resize :: "nat \<Rightarrow> bytes \<Rightarrow> bytes" where
  "resize n xs = take n xs @ replicate (n - length xs) 0"

definition blit :: "nat \<Rightarrow> bytes \<Rightarrow> bytes \<Rightarrow> bytes" where
  "blit pos src dst = take pos dst @ src @ drop (pos + length src) dst"

definition write_content :: "nat \<Rightarrow> bytes \<Rightarrow> bytes \<Rightarrow> bytes" where
  "write_content offset data c =
     (let fin = offset + length data
      in blit offset data (if length c < fin then resize fin c else c))"

end
