(* ===== verification/Fs_State.thy ===== *)
theory Fs_State
  imports Fs_Data
begin

text \<open>
  \<^verbatim>\<open>FsState\<close> of \<^verbatim>\<open>turmoil-fs/src/lib.rs\<close>: how entries and contents are resolved through the
  pending operations, and the operations that queue new ones. The error of an operation is
  the message the code returns. Resolving a hard link recurses on its target and need not
  end, so the operations that read a file's content return an \<open>option\<close>.
\<close>

type_synonym 'a fs_result = "string + 'a"

abbreviation (input) ENOENT :: string where
  "ENOENT \<equiv> ''No such file or directory''"

abbreviation (input) EEXIST :: string where
  "EEXIST \<equiv> ''File exists''"

section \<open>Resolution through the pending operations\<close>

text \<open>\<^verbatim>\<open>resolve_persisted_path\<close> and its twin \<^verbatim>\<open>resolve_symlink_path\<close> walk the queue backwards.\<close>

fun rename_back :: "PendingOp list \<Rightarrow> Path \<Rightarrow> Path" where
  "rename_back [] cur = cur"
| "rename_back (Rename from to # ops) cur = rename_back ops (if to = cur then from else cur)"
| "rename_back (_ # ops) cur = rename_back ops cur"

definition resolve_persisted_path :: "'g FsState \<Rightarrow> Path \<Rightarrow> Path" where
  "resolve_persisted_path fs path = rename_back (rev (pending fs)) path"

definition resolve_symlink_path :: "'g FsState \<Rightarrow> Path \<Rightarrow> Path" where
  "resolve_symlink_path fs path = rename_back (rev (pending fs)) path"

fun link_target :: "PendingOp list \<Rightarrow> Path \<Rightarrow> Path option" where
  "link_target [] path = None"
| "link_target (CreateHardLink p target _ # ops) path =
     (if p = path then Some target else link_target ops path)"
| "link_target (_ # ops) path = link_target ops path"

definition resolve_hardlink_target :: "'g FsState \<Rightarrow> Path \<Rightarrow> Path option" where
  "resolve_hardlink_target fs path = link_target (pending fs) path"

partial_function (option) resolve_content_path :: "'g FsState \<Rightarrow> Path \<Rightarrow> Path option" where
  "resolve_content_path fs path =
     (case resolve_hardlink_target fs path of
        Some target \<Rightarrow> resolve_content_path fs target
      | None \<Rightarrow> Some (resolve_persisted_path fs path))"

fun rename_forward :: "PendingOp list \<Rightarrow> Path \<Rightarrow> Path" where
  "rename_forward [] cur = cur"
| "rename_forward (Rename from to # ops) cur = rename_forward ops (if from = cur then to else cur)"
| "rename_forward (_ # ops) cur = rename_forward ops cur"

definition path_renamed_to :: "'g FsState \<Rightarrow> Path \<Rightarrow> Path \<Rightarrow> bool" where
  "path_renamed_to fs from to \<longleftrightarrow> rename_forward (pending fs) from = to"

section \<open>Which entry a path is\<close>

datatype EntryKind = File | Directory | Symlink

definition persisted_kind :: "'g FsState \<Rightarrow> Path \<Rightarrow> EntryKind option" where
  "persisted_kind fs path =
     (if imap_get (persisted_files fs) path \<noteq> None then Some File
      else if imap_get (persisted_dirs fs) path \<noteq> None then Some Directory
      else if imap_get (persisted_symlinks fs) path \<noteq> None then Some Symlink
      else None)"

fun kind_back :: "(Path \<Rightarrow> EntryKind option) \<Rightarrow> PendingOp list \<Rightarrow> Path \<Rightarrow> EntryKind option" where
  "kind_back base [] path = base path"
| "kind_back base (op # ops) path =
     (case op of
        CreateFile p _ _ \<Rightarrow> if p = path then Some File else kind_back base ops path
      | CreateHardLink p _ _ \<Rightarrow> if p = path then Some File else kind_back base ops path
      | CreateDir p _ _ \<Rightarrow> if p = path then Some Directory else kind_back base ops path
      | CreateSymlink p _ _ \<Rightarrow> if p = path then Some Symlink else kind_back base ops path
      | RemoveFile p \<Rightarrow> if p = path then None else kind_back base ops path
      | RemoveDir p \<Rightarrow> if p = path then None else kind_back base ops path
      | Rename from to \<Rightarrow>
          if from = path then None
          else if to = path then kind_back base ops from
          else kind_back base ops path
      | _ \<Rightarrow> kind_back base ops path)"

definition entry_kind :: "'g FsState \<Rightarrow> Path \<Rightarrow> EntryKind option" where
  "entry_kind fs path = kind_back (persisted_kind fs) (rev (pending fs)) path"

definition file_exists :: "'g FsState \<Rightarrow> Path \<Rightarrow> bool" where
  "file_exists fs path \<longleftrightarrow> entry_kind fs path = Some File"

definition dir_exists :: "'g FsState \<Rightarrow> Path \<Rightarrow> bool" where
  "dir_exists fs path \<longleftrightarrow> entry_kind fs path = Some Directory"

definition symlink_exists :: "'g FsState \<Rightarrow> Path \<Rightarrow> bool" where
  "symlink_exists fs path \<longleftrightarrow> entry_kind fs path = Some Symlink"

definition parent_exists :: "'g FsState \<Rightarrow> Path \<Rightarrow> bool" where
  "parent_exists fs path =
     (case path_parent path of None \<Rightarrow> True | Some p \<Rightarrow> if p = [] then True else dir_exists fs p)"

fun child_of :: "'g FsState \<Rightarrow> Path \<Rightarrow> PendingOp \<Rightarrow> bool" where
  "child_of fs path (CreateFile p _ _) = (path_parent p = Some path \<and> file_exists fs p)"
| "child_of fs path (CreateDir p _ _) = (path_parent p = Some path \<and> dir_exists fs p)"
| "child_of fs path (CreateSymlink p _ _) = (path_parent p = Some path \<and> symlink_exists fs p)"
| "child_of fs path _ = False"

definition dir_has_children :: "'g FsState \<Rightarrow> Path \<Rightarrow> bool" where
  "dir_has_children fs path \<longleftrightarrow>
     list_ex (\<lambda>p. path_parent p = Some path \<and> file_exists fs p) (imap_keys (persisted_files fs)) \<or>
     list_ex (\<lambda>p. path_parent p = Some path \<and> dir_exists fs p) (imap_keys (persisted_dirs fs)) \<or>
     list_ex (\<lambda>p. path_parent p = Some path \<and> symlink_exists fs p) (imap_keys (persisted_symlinks fs)) \<or>
     list_ex (child_of fs path) (pending fs)"

section \<open>Lengths, space and descriptors\<close>

text \<open>The loop of \<^verbatim>\<open>file_len\<close>; \<open>hits\<close> says which paths stand for the content path.\<close>

fun len_after :: "(Path \<Rightarrow> bool) \<Rightarrow> PendingOp list \<Rightarrow> nat \<Rightarrow> nat" where
  "len_after hits [] len = len"
| "len_after hits (Write p offset data _ # ops) len =
     len_after hits ops (if hits p \<and> len < offset + length data then offset + length data else len)"
| "len_after hits (SetLen p n _ # ops) len = len_after hits ops (if hits p then n else len)"
| "len_after hits (_ # ops) len = len_after hits ops len"

definition persisted_content :: "'g FsState \<Rightarrow> Path \<Rightarrow> bytes" where
  "persisted_content fs path = (case imap_get (persisted_files fs) path of None \<Rightarrow> [] | Some f \<Rightarrow> content f)"

definition hits_content :: "'g FsState \<Rightarrow> Path \<Rightarrow> Path \<Rightarrow> bool" where
  "hits_content fs content_path p \<longleftrightarrow> p = content_path \<or> path_renamed_to fs p content_path"

definition file_len :: "'g FsState \<Rightarrow> Path \<Rightarrow> nat option" where
  "file_len fs path = do {
     cp \<leftarrow> resolve_content_path fs path;
     Some (len_after (hits_content fs cp) (pending fs) (length (persisted_content fs cp)))
   }"

fun pending_growth :: "'g FsState \<Rightarrow> PendingOp \<Rightarrow> nat" where
  "pending_growth fs (Write path offset data _) = offset + length data - length (persisted_content fs path)"
| "pending_growth fs (SetLen path len _) = len - length (persisted_content fs path)"
| "pending_growth fs _ = 0"

definition used_bytes :: "'g FsState \<Rightarrow> nat" where
  "used_bytes fs =
     sum_list (map (\<lambda>(_, f). length (content f)) (persisted_files fs)) +
     sum_list (map (pending_growth fs) (pending fs))"

definition check_space :: "'g FsState \<Rightarrow> nat \<Rightarrow> unit fs_result" where
  "check_space fs additional =
     (case capacity fs of
        None \<Rightarrow> Inr ()
      | Some cap \<Rightarrow> if cap < used_bytes fs + additional then Inl ''No space left on device'' else Inr ())"

text \<open>Descriptors are 32-bit signed; the counter panics on overflow.\<close>

definition alloc_fd :: "'g FsState \<Rightarrow> (RawFd \<times> 'g FsState) option" where
  "alloc_fd fs =
     (if next_fd fs + 1 < 2 ^ 31 then Some (next_fd fs, fs\<lparr>next_fd := next_fd fs + 1\<rparr>) else None)"

section \<open>Operations that queue\<close>

definition push_op :: "PendingOp \<Rightarrow> 'g FsState \<Rightarrow> 'g FsState" where
  "push_op op fs = fs\<lparr>pending := pending fs @ [op]\<rparr>"

definition invalidate :: "Path \<Rightarrow> 'g FsState \<Rightarrow> 'g FsState" where
  "invalidate path fs = fs\<lparr>page_cache := map_option (\<lambda>c. invalidate_file c path) (page_cache fs)\<rparr>"

definition occupied :: "'g FsState \<Rightarrow> Path \<Rightarrow> bool" where
  "occupied fs path \<longleftrightarrow> dir_exists fs path \<or> file_exists fs path \<or> symlink_exists fs path"

definition mkdir_with_mode :: "'g FsState \<Rightarrow> Path \<Rightarrow> duration \<Rightarrow> u32 \<Rightarrow> unit fs_result \<times> 'g FsState" where
  "mkdir_with_mode fs path time mode =
     (if (case path_parent path of None \<Rightarrow> False | Some p \<Rightarrow> p \<noteq> [] \<and> \<not> dir_exists fs p) then (Inl ENOENT, fs)
      else if occupied fs path then (Inl EEXIST, fs)
      else (Inr (), push_op (CreateDir path time mode) fs))"

definition mkdir :: "'g FsState \<Rightarrow> Path \<Rightarrow> duration \<Rightarrow> unit fs_result \<times> 'g FsState" where
  "mkdir fs path time = mkdir_with_mode fs path time 0x1ED"

definition rmdir :: "'g FsState \<Rightarrow> Path \<Rightarrow> unit fs_result \<times> 'g FsState" where
  "rmdir fs path =
     (if \<not> dir_exists fs path then (Inl ENOENT, fs)
      else if dir_has_children fs path then (Inl ''Directory not empty'', fs)
      else (Inr (), push_op (RemoveDir path) fs))"

definition unlink :: "'g FsState \<Rightarrow> Path \<Rightarrow> unit fs_result \<times> 'g FsState" where
  "unlink fs path =
     (if \<not> file_exists fs path \<and> \<not> symlink_exists fs path then (Inl ENOENT, fs)
      else (Inr (), push_op (RemoveFile path) (invalidate path fs)))"

definition rename :: "'g FsState \<Rightarrow> Path \<Rightarrow> Path \<Rightarrow> unit fs_result \<times> 'g FsState" where
  "rename fs from to =
     (if \<not> parent_exists fs to then (Inl ENOENT, fs)
      else if file_exists fs from then
        (if dir_exists fs to then (Inl ''Is a directory'', fs)
         else (Inr (), push_op (Rename from to) fs))
      else if dir_exists fs from then
        (if file_exists fs to \<or> symlink_exists fs to then (Inl ''Not a directory'', fs)
         else if dir_exists fs to \<and> dir_has_children fs to then (Inl ''Directory not empty'', fs)
         else (Inr (), push_op (Rename from to) fs))
      else if symlink_exists fs from then
        (if dir_exists fs to then (Inl ''Is a directory'', fs)
         else (Inr (), push_op (Rename from to) fs))
      else (Inl ENOENT, fs))"

definition write_file :: "'g FsState \<Rightarrow> Path \<Rightarrow> nat \<Rightarrow> bytes \<Rightarrow> duration \<Rightarrow> 'g FsState" where
  "write_file fs path offset data time =
     (if data = [] then fs else push_op (Write path offset data time) fs)"

definition set_file_len :: "'g FsState \<Rightarrow> Path \<Rightarrow> nat \<Rightarrow> duration \<Rightarrow> 'g FsState" where
  "set_file_len fs path len time = push_op (SetLen path len time) (invalidate path fs)"

definition create_file_with_mode :: "'g FsState \<Rightarrow> Path \<Rightarrow> duration \<Rightarrow> u32 \<Rightarrow> 'g FsState" where
  "create_file_with_mode fs path time mode = push_op (CreateFile path time mode) fs"

definition create_symlink :: "'g FsState \<Rightarrow> Path \<Rightarrow> Path \<Rightarrow> duration \<Rightarrow> unit fs_result \<times> 'g FsState" where
  "create_symlink fs path target time =
     (if \<not> parent_exists fs path then (Inl ENOENT, fs)
      else if occupied fs path then (Inl EEXIST, fs)
      else (Inr (), push_op (CreateSymlink path target time) fs))"

definition create_hard_link :: "'g FsState \<Rightarrow> Path \<Rightarrow> Path \<Rightarrow> duration \<Rightarrow> unit fs_result \<times> 'g FsState" where
  "create_hard_link fs path target time =
     (if \<not> parent_exists fs path then (Inl ENOENT, fs)
      else if \<not> file_exists fs target then (Inl ENOENT, fs)
      else if occupied fs path then (Inl EEXIST, fs)
      else (Inr (), push_op (CreateHardLink path target time) fs))"

fun symlink_back :: "PendingOp list \<Rightarrow> Path \<Rightarrow> Path fs_result option" where
  "symlink_back [] path = None"
| "symlink_back (CreateSymlink p target _ # ops) path =
     (if p = path then Some (Inr target) else symlink_back ops path)"
| "symlink_back (RemoveFile p # ops) path = (if p = path then Some (Inl ENOENT) else symlink_back ops path)"
| "symlink_back (_ # ops) path = symlink_back ops path"

definition read_link :: "'g FsState \<Rightarrow> Path \<Rightarrow> Path fs_result" where
  "read_link fs path =
     (let original = resolve_symlink_path fs path
      in case symlink_back (rev (pending fs)) original of
           Some r \<Rightarrow> r
         | None \<Rightarrow> (case imap_get (persisted_symlinks fs) original of
                      None \<Rightarrow> Inl ENOENT | Some s \<Rightarrow> Inr (s_target s)))"

definition set_permissions :: "'g FsState \<Rightarrow> Path \<Rightarrow> u32 \<Rightarrow> duration \<Rightarrow> unit fs_result \<times> 'g FsState" where
  "set_permissions fs path mode time =
     (if \<not> file_exists fs path \<and> \<not> dir_exists fs path then (Inl ENOENT, fs)
      else (Inr (), push_op (SetPermissions path mode time) fs))"

end
