(* ===== verification/Fs_Sync.thy ===== *)
theory Fs_Sync
  imports Fs_State
begin

text \<open>
  \<^verbatim>\<open>FsState\<close> of \<^verbatim>\<open>turmoil-fs/src/lib.rs\<close>, continued: applying operations to the persisted state,
  \<^verbatim>\<open>fsync\<close> on files and directories, crashes with torn writes, and the queries for contents,
  permissions, link counts, timestamps and directory entries.
\<close>

section \<open>Applying an operation\<close>

definition touch_file :: "(bytes \<Rightarrow> bytes) \<Rightarrow> duration \<Rightarrow> FileData \<Rightarrow> FileData" where
  "touch_file g time f = f\<lparr>content := g (content f), mtime := time, ctime := time\<rparr>"

text \<open>\<^verbatim>\<open>entry(..).or_insert_with(..)\<close>.\<close>

definition or_insert :: "'k \<Rightarrow> 'v \<Rightarrow> ('k, 'v) imap \<Rightarrow> ('k, 'v) imap" where
  "or_insert k v m = (if imap_get m k = None then imap_insert k v m else m)"

fun apply_op_to_persisted :: "PendingOp \<Rightarrow> 'g FsState \<Rightarrow> 'g FsState" where
  "apply_op_to_persisted (CreateFile path time mode) fs =
     fs\<lparr>persisted_files := or_insert path (FileData_with_mode time mode) (persisted_files fs)\<rparr>"
| "apply_op_to_persisted (CreateDir path time mode) fs =
     fs\<lparr>persisted_dirs := or_insert path (DirData_with_mode time mode) (persisted_dirs fs)\<rparr>"
| "apply_op_to_persisted (CreateSymlink path target time) fs =
     fs\<lparr>persisted_symlinks := or_insert path (SymlinkData_new target time) (persisted_symlinks fs)\<rparr>"
| "apply_op_to_persisted (CreateHardLink path target time) fs =
     (case imap_get (persisted_files fs) target of
        None \<Rightarrow> fs
      | Some f \<Rightarrow>
          (let n = nlink f + 1
           in fs\<lparr>persisted_files := imap_insert path (f\<lparr>nlink := n\<rparr>)
                (imap_modify target (\<lambda>t. t\<lparr>nlink := n, ctime := time\<rparr>) (persisted_files fs))\<rparr>))"
| "apply_op_to_persisted (Write path offset data time) fs =
     fs\<lparr>persisted_files := imap_modify path (touch_file (write_content offset data) time) (persisted_files fs)\<rparr>"
| "apply_op_to_persisted (SetLen path len time) fs =
     fs\<lparr>persisted_files := imap_modify path (touch_file (resize len) time) (persisted_files fs)\<rparr>"
| "apply_op_to_persisted (SetPermissions path mode time) fs =
     (if imap_get (persisted_files fs) path \<noteq> None then
        fs\<lparr>persisted_files := imap_modify path (\<lambda>f. f\<lparr>file_mode_bits := mode, ctime := time\<rparr>) (persisted_files fs)\<rparr>
      else
        fs\<lparr>persisted_dirs := imap_modify path (\<lambda>d. d\<lparr>dir_mode_bits := mode, d_ctime := time\<rparr>) (persisted_dirs fs)\<rparr>)"
| "apply_op_to_persisted (Rename from to) fs =
     (case imap_get (persisted_files fs) from of
        Some f \<Rightarrow> fs\<lparr>persisted_files := imap_insert to f (imap_swap_remove from (persisted_files fs))\<rparr>
      | None \<Rightarrow>
        (case imap_get (persisted_dirs fs) from of
           Some d \<Rightarrow> fs\<lparr>persisted_dirs := imap_insert to d (imap_swap_remove from (persisted_dirs fs))\<rparr>
         | None \<Rightarrow>
           (case imap_get (persisted_symlinks fs) from of
              Some s \<Rightarrow> fs\<lparr>persisted_symlinks := imap_insert to s (imap_swap_remove from (persisted_symlinks fs))\<rparr>
            | None \<Rightarrow> fs)))"
| "apply_op_to_persisted (RemoveFile path) fs =
     fs\<lparr>persisted_files := imap_swap_remove path (persisted_files fs),
        persisted_symlinks := imap_swap_remove path (persisted_symlinks fs)\<rparr>"
| "apply_op_to_persisted (RemoveDir path) fs =
     fs\<lparr>persisted_dirs := imap_swap_remove path (persisted_dirs fs)\<rparr>"

section \<open>Syncing a file\<close>

fun data_op_on :: "Path \<Rightarrow> PendingOp \<Rightarrow> bool" where
  "data_op_on path (Write p _ _ _) = (p = path)"
| "data_op_on path (SetLen p _ _) = (p = path)"
| "data_op_on path _ = False"

fun find_create :: "PendingOp list \<Rightarrow> Path \<Rightarrow> duration \<times> u32" where
  "find_create [] path = (0, 0x1A4)"
| "find_create (CreateFile p time mode # ops) path = (if p = path then (time, mode) else find_create ops path)"
| "find_create (_ # ops) path = find_create ops path"

definition sync_file :: "'g FsState \<Rightarrow> Path \<Rightarrow> unit fs_result \<times> 'g FsState" where
  "sync_file fs path =
     (if \<not> file_exists fs path then (Inl ENOENT, fs)
      else
        (let to_flush = filter (data_op_on path) (pending fs);
             to_keep = filter (\<lambda>op. \<not> data_op_on path op) (pending fs);
             (t, mode) = find_create to_keep path;
             fs1 = fs\<lparr>persisted_files := or_insert path (FileData_with_mode t mode) (persisted_files fs),
                      pending := to_keep\<rparr>
         in (Inr (), fold apply_op_to_persisted to_flush fs1)))"

text \<open>\<^verbatim>\<open>fdatasync\<close> has the same body.\<close>

definition sync_file_data :: "'g FsState \<Rightarrow> Path \<Rightarrow> unit fs_result \<times> 'g FsState" where
  "sync_file_data fs path =
     (if \<not> file_exists fs path then (Inl ENOENT, fs)
      else
        (let to_flush = filter (data_op_on path) (pending fs);
             to_keep = filter (\<lambda>op. \<not> data_op_on path op) (pending fs);
             (t, mode) = find_create to_keep path;
             fs1 = fs\<lparr>persisted_files := or_insert path (FileData_with_mode t mode) (persisted_files fs),
                      pending := to_keep\<rparr>
         in (Inr (), fold apply_op_to_persisted to_flush fs1)))"

section \<open>Syncing a directory\<close>

fun entry_op_in :: "Path \<Rightarrow> PendingOp \<Rightarrow> bool" where
  "entry_op_in dir (CreateDir p _ _) = (p = dir \<or> path_parent p = Some dir)"
| "entry_op_in dir (CreateFile p _ _) = (path_parent p = Some dir)"
| "entry_op_in dir (CreateSymlink p _ _) = (path_parent p = Some dir)"
| "entry_op_in dir (CreateHardLink p _ _) = (path_parent p = Some dir)"
| "entry_op_in dir (RemoveFile p) = (path_parent p = Some dir)"
| "entry_op_in dir (RemoveDir p) = (path_parent p = Some dir)"
| "entry_op_in dir (Rename from to) = (path_parent from = Some dir \<or> path_parent to = Some dir)"
| "entry_op_in dir _ = False"

text \<open>
  What flushing an operation does to the durable entries of the directory; the flag says that
  the directory's contents changed. Only operations that \<open>entry_op_in\<close> selects reach it.
\<close>

fun sync_entry :: "Path \<Rightarrow> PendingOp \<Rightarrow> Path iset \<Rightarrow> bool \<times> Path iset" where
  "sync_entry dir (CreateFile p _ _) es =
     (if path_parent p = Some dir then (True, iset_insert p es) else (False, es))"
| "sync_entry dir (CreateDir p _ _) es =
     (if p = dir then (False, iset_insert p es)
      else if path_parent p = Some dir then (True, iset_insert p es) else (False, es))"
| "sync_entry dir (CreateSymlink p _ _) es =
     (if path_parent p = Some dir then (True, iset_insert p es) else (False, es))"
| "sync_entry dir (CreateHardLink p _ _) es =
     (if path_parent p = Some dir then (True, iset_insert p es) else (False, es))"
| "sync_entry dir (RemoveFile p) es =
     (if path_parent p = Some dir then (True, iset_swap_remove p es) else (False, es))"
| "sync_entry dir (RemoveDir p) es =
     (if path_parent p = Some dir then (True, iset_swap_remove p es) else (False, es))"
| "sync_entry dir (Rename from to) es =
     (let from_here = (path_parent from = Some dir); to_here = (path_parent to = Some dir);
          es1 = (if from_here then iset_swap_remove from es else es)
      in (from_here \<or> to_here, if to_here then iset_insert to es1 else es1))"
| "sync_entry dir _ es = (False, es)"

fun flush_entries :: "Path \<Rightarrow> PendingOp list \<Rightarrow> bool \<Rightarrow> 'g FsState \<Rightarrow> bool \<times> 'g FsState" where
  "flush_entries dir [] modified fs = (modified, fs)"
| "flush_entries dir (op # ops) modified fs =
     (let (m, es) = sync_entry dir op (synced_entries fs)
      in flush_entries dir ops (modified \<or> m) (apply_op_to_persisted op (fs\<lparr>synced_entries := es\<rparr>)))"

definition sync_dir :: "'g FsState \<Rightarrow> Path \<Rightarrow> duration \<Rightarrow> unit fs_result \<times> 'g FsState" where
  "sync_dir fs path time =
     (if \<not> dir_exists fs path then (Inl ENOENT, fs)
      else
        (let to_flush = filter (entry_op_in path) (pending fs);
             to_keep = filter (\<lambda>op. \<not> entry_op_in path op) (pending fs);
             (modified, fs1) = flush_entries path to_flush False (fs\<lparr>pending := to_keep\<rparr>)
         in (Inr (), if modified then
               fs1\<lparr>persisted_dirs := imap_modify path (\<lambda>d. d\<lparr>d_mtime := time, d_ctime := time\<rparr>) (persisted_dirs fs1)\<rparr>
             else fs1)))"

section \<open>Crashes\<close>

text \<open>
  The torn writes: \<open>random_range lo hi\<close> draws how many blocks of a pending write survive.
\<close>

fun torn_writes ::
  "(nat \<Rightarrow> nat \<Rightarrow> 'g \<Rightarrow> nat \<times> 'g) \<Rightarrow> nat \<Rightarrow> Path iset \<Rightarrow> PendingOp list \<Rightarrow> 'g
     \<Rightarrow> (Path \<times> nat \<times> bytes \<times> duration) list \<times> 'g" where
  "torn_writes random_range bs synced [] g = ([], g)"
| "torn_writes random_range bs synced (Write path offset data time # ops) g =
     (let total = (length data + bs - 1) div bs
      in if \<not> iset_contains synced path \<or> total = 0 then torn_writes random_range bs synced ops g
         else
           (let (surviving, g1) = random_range 0 (total + 1) g;
                (ws, g2) = torn_writes random_range bs synced ops g1
            in if surviving = 0 then (ws, g2)
               else ((path, offset, take (min (surviving * bs) (length data)) data, time) # ws, g2)))"
| "torn_writes random_range bs synced (_ # ops) g = torn_writes random_range bs synced ops g"

definition apply_torn_writes :: "(nat \<Rightarrow> nat \<Rightarrow> 'g \<Rightarrow> nat \<times> 'g) \<Rightarrow> nat \<Rightarrow> 'g FsState \<Rightarrow> 'g FsState" where
  "apply_torn_writes random_range bs fs =
     (let (ws, g) = torn_writes random_range bs (synced_entries fs) (pending fs) (fs_rng fs)
      in fs\<lparr>fs_rng := g,
            persisted_files := fold (\<lambda>(path, offset, data, time).
              imap_modify path (touch_file (write_content offset data) time)) ws (persisted_files fs)\<rparr>)"

definition crash :: "(nat \<Rightarrow> nat \<Rightarrow> 'g \<Rightarrow> nat \<times> 'g) \<Rightarrow> 'g FsState \<Rightarrow> 'g FsState" where
  "crash random_range fs =
     (let fs1 = (case block_size fs of None \<Rightarrow> fs | Some bs \<Rightarrow> apply_torn_writes random_range bs fs)
      in fs1\<lparr>pending := [],
             persisted_files := imap_retain (\<lambda>p _. iset_contains (synced_entries fs1) p) (persisted_files fs1),
             persisted_dirs := imap_retain (\<lambda>p _. iset_contains (synced_entries fs1) p) (persisted_dirs fs1),
             persisted_symlinks := imap_retain (\<lambda>p _. iset_contains (synced_entries fs1) p) (persisted_symlinks fs1)\<rparr>)"

section \<open>Reading\<close>

text \<open>The overlay loop of \<^verbatim>\<open>read_file\<close> on the region that is returned.\<close>

fun overlay :: "(Path \<Rightarrow> bool) \<Rightarrow> nat \<Rightarrow> PendingOp list \<Rightarrow> bytes \<Rightarrow> bytes" where
  "overlay hits offset [] region = region"
| "overlay hits offset (Write p write_off data _ # ops) region =
     (let write_end = write_off + length data;
          read_end = offset + length region
      in if hits p \<and> write_off < read_end \<and> offset < write_end then
           (let overlap_start = max write_off offset;
                overlap_end = min write_end read_end
            in overlay hits offset ops
                 (blit (overlap_start - offset)
                    (take (overlap_end - overlap_start) (drop (overlap_start - write_off) data)) region))
         else overlay hits offset ops region)"
| "overlay hits offset (_ # ops) region = overlay hits offset ops region"

definition read_file :: "'g FsState \<Rightarrow> Path \<Rightarrow> bytes \<Rightarrow> nat \<Rightarrow> (nat \<times> bytes) option" where
  "read_file fs path buf offset =
     (if buf = [] then Some (0, buf)
      else do {
        len \<leftarrow> file_len fs path;
        if len \<le> offset then Some (0, buf)
        else do {
          let to_read = min (length buf) (len - offset);
          cp \<leftarrow> resolve_content_path fs path;
          let region = (case imap_get (persisted_files fs) cp of
                          None \<Rightarrow> replicate to_read 0
                        | Some f \<Rightarrow> blit 0 (take to_read (drop offset (content f))) (replicate to_read 0));
          Some (to_read, overlay (hits_content fs cp) offset (pending fs) region @ drop to_read buf)
        }
      })"

section \<open>Metadata\<close>

fun mode_back :: "bool \<Rightarrow> PendingOp list \<Rightarrow> Path \<Rightarrow> u32 option" where
  "mode_back dir [] path = None"
| "mode_back dir (SetPermissions p mode _ # ops) path = (if p = path then Some mode else mode_back dir ops path)"
| "mode_back dir (CreateFile p _ mode # ops) path =
     (if \<not> dir \<and> p = path then Some mode else mode_back dir ops path)"
| "mode_back dir (CreateDir p _ mode # ops) path =
     (if dir \<and> p = path then Some mode else mode_back dir ops path)"
| "mode_back dir (_ # ops) path = mode_back dir ops path"

definition file_mode :: "'g FsState \<Rightarrow> Path \<Rightarrow> u32 option" where
  "file_mode fs path =
     (case mode_back False (rev (pending fs)) path of
        Some m \<Rightarrow> Some m | None \<Rightarrow> map_option file_mode_bits (imap_get (persisted_files fs) path))"

definition dir_mode :: "'g FsState \<Rightarrow> Path \<Rightarrow> u32 option" where
  "dir_mode fs path =
     (case mode_back True (rev (pending fs)) path of
        Some m \<Rightarrow> Some m | None \<Rightarrow> map_option dir_mode_bits (imap_get (persisted_dirs fs) path))"

fun links_to :: "Path \<Rightarrow> PendingOp \<Rightarrow> bool" where
  "links_to path (CreateHardLink _ target _) = (target = path)"
| "links_to path _ = False"

partial_function (option) file_nlink :: "'g FsState \<Rightarrow> Path \<Rightarrow> nat option" where
  "file_nlink fs path =
     (case resolve_hardlink_target fs path of
        Some target \<Rightarrow> file_nlink fs target
      | None \<Rightarrow>
          Some ((case imap_get (persisted_files fs) path of None \<Rightarrow> 1 | Some f \<Rightarrow> nlink f) +
                length (filter (links_to path) (pending fs))))"

type_synonym timestamps = "duration \<times> duration \<times> duration"

fun file_times :: "(Path \<Rightarrow> bool) \<Rightarrow> Path \<Rightarrow> PendingOp list \<Rightarrow> timestamps option \<Rightarrow> timestamps option" where
  "file_times hits path [] ts = ts"
| "file_times hits path (CreateFile p time _ # ops) ts =
     file_times hits path ops (if p = path then Some (time, time, time) else ts)"
| "file_times hits path (Write p _ _ time # ops) ts =
     file_times hits path ops (if hits p then map_option (\<lambda>(c, _, _). (c, time, time)) ts else ts)"
| "file_times hits path (SetLen p _ time # ops) ts =
     file_times hits path ops (if hits p then map_option (\<lambda>(c, _, _). (c, time, time)) ts else ts)"
| "file_times hits path (_ # ops) ts = file_times hits path ops ts"

definition file_timestamps :: "'g FsState \<Rightarrow> Path \<Rightarrow> timestamps option" where
  "file_timestamps fs path =
     file_times (\<lambda>p. p = path \<or> path_renamed_to fs p path) path (pending fs)
       (map_option (\<lambda>f. (crtime f, mtime f, ctime f))
         (imap_get (persisted_files fs) (resolve_persisted_path fs path)))"

fun dir_times :: "Path \<Rightarrow> PendingOp list \<Rightarrow> timestamps option \<Rightarrow> timestamps option" where
  "dir_times path [] ts = ts"
| "dir_times path (op # ops) ts = dir_times path ops
     (case op of
        CreateDir p time _ \<Rightarrow>
          if p = path then Some (time, time, time)
          else if path_parent p = Some path then map_option (\<lambda>(c, _, _). (c, time, time)) ts else ts
      | CreateFile p time _ \<Rightarrow>
          if path_parent p = Some path then map_option (\<lambda>(c, _, _). (c, time, time)) ts else ts
      | RemoveFile p \<Rightarrow> if path_parent p = Some path then map_option (\<lambda>(c, m, _). (c, m, m)) ts else ts
      | RemoveDir p \<Rightarrow> if path_parent p = Some path then map_option (\<lambda>(c, m, _). (c, m, m)) ts else ts
      | Rename from to \<Rightarrow>
          if path_parent from = Some path \<or> path_parent to = Some path
          then map_option (\<lambda>(c, m, _). (c, m, m)) ts else ts
      | _ \<Rightarrow> ts)"

definition dir_timestamps :: "'g FsState \<Rightarrow> Path \<Rightarrow> timestamps option" where
  "dir_timestamps fs path = dir_times path (pending fs)
     (map_option (\<lambda>d. (d_crtime d, d_mtime d, d_ctime d)) (imap_get (persisted_dirs fs) path))"

fun symlink_times :: "Path \<Rightarrow> PendingOp list \<Rightarrow> timestamps option \<Rightarrow> timestamps option" where
  "symlink_times path [] ts = ts"
| "symlink_times path (CreateSymlink p _ time # ops) ts =
     symlink_times path ops (if p = path then Some (time, time, time) else ts)"
| "symlink_times path (_ # ops) ts = symlink_times path ops ts"

definition symlink_timestamps :: "'g FsState \<Rightarrow> Path \<Rightarrow> timestamps option" where
  "symlink_timestamps fs path = symlink_times path (pending fs)
     (map_option (\<lambda>s. (s_crtime s, s_mtime s, s_ctime s)) (imap_get (persisted_symlinks fs) path))"

fun listed :: "'g FsState \<Rightarrow> Path \<Rightarrow> PendingOp \<Rightarrow> Path list" where
  "listed fs path (CreateFile p _ _) = (if path_parent p = Some path \<and> file_exists fs p then [p] else [])"
| "listed fs path (CreateDir p _ _) = (if path_parent p = Some path \<and> dir_exists fs p then [p] else [])"
| "listed fs path (CreateSymlink p _ _) = (if path_parent p = Some path \<and> symlink_exists fs p then [p] else [])"
| "listed fs path (Rename _ to) = (if path_parent to = Some path \<and> occupied fs to then [to] else [])"
| "listed fs path _ = []"

text \<open>The entries are collected in a \<^verbatim>\<open>HashSet\<close>, so their order is unspecified.\<close>

definition dir_entries :: "'g FsState \<Rightarrow> Path \<Rightarrow> Path set" where
  "dir_entries fs path =
     set (filter (\<lambda>p. path_parent p = Some path \<and> file_exists fs p) (imap_keys (persisted_files fs))) \<union>
     set (filter (\<lambda>p. path_parent p = Some path \<and> dir_exists fs p) (imap_keys (persisted_dirs fs))) \<union>
     set (filter (\<lambda>p. path_parent p = Some path \<and> symlink_exists fs p) (imap_keys (persisted_symlinks fs))) \<union>
     set (concat (map (listed fs path) (pending fs)))"

end
