(* ===== verification/Fs_Shim.thy ===== *)
theory Fs_Shim
  imports Fs_Sync
begin

text \<open>
  \<^verbatim>\<open>turmoil-fs/src/shim/std/fs/mod.rs\<close>: the drop-in replacement of \<^verbatim>\<open>std::fs\<close>. Each function runs on
  the file system of the current host, passed and returned explicitly, with the host's clock
  \<open>fs_now\<close>. An error carries its \<^verbatim>\<open>std::io::ErrorKind\<close> and its message. The outer \<open>option\<close> is
  \<open>None\<close> where the code does not return: an endless hard-link resolution or a panic.
\<close>

section \<open>Results\<close>

datatype IoKind = Io_Other | Io_NotFound | Io_AlreadyExists | Io_PermissionDenied | Io_InvalidInput | Io_InvalidData

type_synonym 'a io_result = "(IoKind \<times> string) + 'a"

abbreviation (input) HANDLE_GONE :: "IoKind \<times> string" where
  "HANDLE_GONE \<equiv> (Io_NotFound, ''file handle not found'')"

definition map_err :: "IoKind \<Rightarrow> 'a fs_result \<times> 's \<Rightarrow> 'a io_result \<times> 's" where
  "map_err kind r = (map_sum (Pair kind) (\<lambda>x. x) (fst r), snd r)"

text \<open>The generator of the host, a parameter: a biased coin, a bounded draw, and a byte.\<close>

record 'g Rng =
  random_bool :: "prob \<Rightarrow> 'g \<Rightarrow> bool \<times> 'g"
  random_range :: "nat \<Rightarrow> nat \<Rightarrow> 'g \<Rightarrow> nat \<times> 'g"
  random_u8 :: "'g \<Rightarrow> 8 word \<times> 'g"

text \<open>\<^verbatim>\<open>prob > 0.0 && ctx.random_bool(prob)\<close>: no draw when the probability is zero.\<close>

definition flip :: "'g Rng \<Rightarrow> prob \<Rightarrow> 'g FsState \<Rightarrow> bool \<times> 'g FsState" where
  "flip rng pr fs =
     (if 0 < pr then let (b, g) = random_bool rng pr (fs_rng fs) in (b, fs\<lparr>fs_rng := g\<rparr>) else (False, fs))"

section \<open>Directories\<close>

definition create_dir :: "'g FsState \<Rightarrow> Path \<Rightarrow> unit io_result \<times> 'g FsState" where
  "create_dir fs path = map_err Io_Other (mkdir fs path (fs_now fs))"

definition create_dir_with_mode :: "'g FsState \<Rightarrow> Path \<Rightarrow> u32 \<Rightarrow> unit io_result \<times> 'g FsState" where
  "create_dir_with_mode fs path mode = map_err Io_Other (mkdir_with_mode fs path (fs_now fs) mode)"

text \<open>The ancestors to create, the path itself first.\<close>

function missing_dirs :: "'g FsState \<Rightarrow> Path \<Rightarrow> Path list" where
  "missing_dirs fs p =
     (if p = [] then [] else if dir_exists fs p then []
      else p # (case path_parent p of None \<Rightarrow> [] | Some q \<Rightarrow> missing_dirs fs q))"
  by auto

termination
  by (relation "measure (\<lambda>(fs, p). length p)") (auto simp: path_parent_def split: if_splits)

fun create_missing :: "('g FsState \<Rightarrow> Path \<Rightarrow> unit fs_result \<times> 'g FsState) \<Rightarrow> Path list \<Rightarrow> 'g FsState
    \<Rightarrow> unit io_result \<times> 'g FsState" where
  "create_missing mk [] fs = (Inr (), fs)"
| "create_missing mk (d # ds) fs =
     (if dir_exists fs d \<or> file_exists fs d then create_missing mk ds fs
      else (case mk fs d of
              (Inl e, fs1) \<Rightarrow> (Inl (Io_Other, e), fs1)
            | (Inr _, fs1) \<Rightarrow> create_missing mk ds fs1))"

definition create_dir_all :: "'g FsState \<Rightarrow> Path \<Rightarrow> unit io_result \<times> 'g FsState" where
  "create_dir_all fs path =
     create_missing (\<lambda>fs1 d. mkdir fs1 d (fs_now fs)) (rev (missing_dirs fs path)) fs"

definition create_dir_all_with_mode :: "'g FsState \<Rightarrow> Path \<Rightarrow> u32 \<Rightarrow> unit io_result \<times> 'g FsState" where
  "create_dir_all_with_mode fs path mode =
     create_missing (\<lambda>fs1 d. mkdir_with_mode fs1 d (fs_now fs) mode) (rev (missing_dirs fs path)) fs"

record DirBuilder =
  recursive :: bool
  db_mode :: u32

definition DirBuilder_new :: DirBuilder where
  "DirBuilder_new = \<lparr>recursive = False, db_mode = 0x1ED\<rparr>"

definition DirBuilder_create :: "DirBuilder \<Rightarrow> 'g FsState \<Rightarrow> Path \<Rightarrow> unit io_result \<times> 'g FsState" where
  "DirBuilder_create b fs path =
     (if recursive b then create_dir_all_with_mode fs path (db_mode b) else create_dir_with_mode fs path (db_mode b))"

definition remove_dir :: "'g FsState \<Rightarrow> Path \<Rightarrow> unit io_result \<times> 'g FsState" where
  "remove_dir fs path = map_err Io_Other (rmdir fs path)"

definition shim_sync_dir :: "'g FsState \<Rightarrow> Path \<Rightarrow> unit io_result \<times> 'g FsState" where
  "shim_sync_dir fs path = map_err Io_Other (sync_dir fs path (fs_now fs))"

definition read_dir :: "'g FsState \<Rightarrow> Path \<Rightarrow> Path set io_result" where
  "read_dir fs path =
     (if \<not> dir_exists fs path then Inl (Io_NotFound, ''directory not found'') else Inr (dir_entries fs path))"

text \<open>
  Recursive removal. The entries of a directory come from a \<^verbatim>\<open>HashSet\<close>; \<open>order\<close> stands for its
  iteration order.
\<close>

partial_function (option) remove_entries ::
  "(Path set \<Rightarrow> Path list) \<Rightarrow> Path list \<Rightarrow> 'g FsState \<Rightarrow> (unit io_result \<times> 'g FsState) option" where
  "remove_entries order entries fs =
     (case entries of
        [] \<Rightarrow> Some (Inr (), fs)
      | e # es \<Rightarrow>
          if dir_exists fs e then
            Option.bind (remove_entries order (order (dir_entries fs e)) fs) (\<lambda>(r, fs1).
              case r of
                Inl err \<Rightarrow> Some (Inl err, fs1)
              | Inr _ \<Rightarrow>
                  (case rmdir fs1 e of
                     (Inl m, fs2) \<Rightarrow> Some (Inl (Io_Other, m), fs2)
                   | (Inr _, fs2) \<Rightarrow> remove_entries order es fs2))
          else if file_exists fs e \<or> symlink_exists fs e then
            (case unlink fs e of
               (Inl m, fs1) \<Rightarrow> Some (Inl (Io_Other, m), fs1)
             | (Inr _, fs1) \<Rightarrow> remove_entries order es fs1)
          else remove_entries order es fs)"

definition remove_dir_contents_recursive ::
  "(Path set \<Rightarrow> Path list) \<Rightarrow> 'g FsState \<Rightarrow> Path \<Rightarrow> (unit io_result \<times> 'g FsState) option" where
  "remove_dir_contents_recursive order fs path = remove_entries order (order (dir_entries fs path)) fs"

definition remove_dir_all ::
  "(Path set \<Rightarrow> Path list) \<Rightarrow> 'g FsState \<Rightarrow> Path \<Rightarrow> (unit io_result \<times> 'g FsState) option" where
  "remove_dir_all order fs path =
     (if \<not> dir_exists fs path then Some (Inl (Io_NotFound, ''directory not found''), fs)
      else
        Option.bind (remove_dir_contents_recursive order fs path) (\<lambda>(r, fs1).
          case r of Inl err \<Rightarrow> Some (Inl err, fs1) | Inr _ \<Rightarrow> Some (map_err Io_Other (rmdir fs1 path))))"

section \<open>Names and links\<close>

definition remove_file :: "'g FsState \<Rightarrow> Path \<Rightarrow> unit io_result \<times> 'g FsState" where
  "remove_file fs path = map_err Io_NotFound (unlink fs path)"

definition shim_rename :: "'g FsState \<Rightarrow> Path \<Rightarrow> Path \<Rightarrow> unit io_result \<times> 'g FsState" where
  "shim_rename fs from to = map_err Io_Other (rename fs from to)"

definition symlink :: "'g FsState \<Rightarrow> Path \<Rightarrow> Path \<Rightarrow> unit io_result \<times> 'g FsState" where
  "symlink fs original link = map_err Io_Other (create_symlink fs link original (fs_now fs))"

definition hard_link :: "'g FsState \<Rightarrow> Path \<Rightarrow> Path \<Rightarrow> unit io_result \<times> 'g FsState" where
  "hard_link fs original link = map_err Io_Other (create_hard_link fs link original (fs_now fs))"

definition shim_read_link :: "'g FsState \<Rightarrow> Path \<Rightarrow> Path io_result" where
  "shim_read_link fs path = map_sum (Pair Io_NotFound) (\<lambda>x. x) (read_link fs path)"

definition shim_set_permissions :: "'g FsState \<Rightarrow> Path \<Rightarrow> u32 \<Rightarrow> unit io_result \<times> 'g FsState" where
  "shim_set_permissions fs path mode = map_err Io_Other (set_permissions fs path mode (fs_now fs))"

text \<open>One symbolic link is followed, not a chain.\<close>

definition follow :: "'g FsState \<Rightarrow> Path \<Rightarrow> Path io_result" where
  "follow fs path = (if symlink_exists fs path then shim_read_link fs path else Inr path)"

definition exists :: "'g FsState \<Rightarrow> Path \<Rightarrow> bool" where
  "exists fs path =
     (case follow fs path of
        Inl _ \<Rightarrow> False
      | Inr resolved \<Rightarrow> file_exists fs resolved \<or> dir_exists fs resolved \<or> symlink_exists fs resolved)"

section \<open>Metadata\<close>

record Metadata =
  md_len :: nat
  md_is_dir :: bool
  md_is_symlink :: bool
  md_crtime :: duration
  md_mtime :: duration
  md_ctime :: duration
  md_mode :: u32
  md_nlink :: nat

definition md_is_file :: "Metadata \<Rightarrow> bool" where
  "md_is_file m \<longleftrightarrow> \<not> md_is_dir m \<and> \<not> md_is_symlink m"

text \<open>\<^verbatim>\<open>MetadataExt\<close>: the file type in the high bits of the mode, and 512-byte blocks rounded up.\<close>

definition md_full_mode :: "Metadata \<Rightarrow> u32" where
  "md_full_mode m =
     or (if md_is_symlink m then 0xA000 else if md_is_dir m then 0x4000 else 0x8000) (md_mode m)"

definition md_blocks :: "Metadata \<Rightarrow> nat" where
  "md_blocks m = (md_len m + 511) div 512"

definition metadata_of :: "nat \<Rightarrow> bool \<Rightarrow> bool \<Rightarrow> timestamps option \<Rightarrow> u32 \<Rightarrow> nat \<Rightarrow> Metadata" where
  "metadata_of len d l ts mode links =
     (let (cr, m, c) = (case ts of None \<Rightarrow> (0, 0, 0) | Some t \<Rightarrow> t)
      in \<lparr>md_len = len, md_is_dir = d, md_is_symlink = l, md_crtime = cr, md_mtime = m, md_ctime = c,
          md_mode = mode, md_nlink = links\<rparr>)"

definition or_mode :: "u32 option \<Rightarrow> u32 \<Rightarrow> u32" where
  "or_mode m d = (case m of None \<Rightarrow> d | Some x \<Rightarrow> x)"

text \<open>The branch for files, which \<^verbatim>\<open>File::metadata\<close> shares.\<close>

definition file_metadata :: "'g FsState \<Rightarrow> Path \<Rightarrow> Metadata option" where
  "file_metadata fs path = do {
     len \<leftarrow> file_len fs path;
     links \<leftarrow> file_nlink fs path;
     Some (metadata_of len False False (file_timestamps fs path) (or_mode (file_mode fs path) 0x1A4) links)
   }"

definition dir_metadata :: "'g FsState \<Rightarrow> Path \<Rightarrow> Metadata" where
  "dir_metadata fs path =
     metadata_of 0 True False (dir_timestamps fs path) (or_mode (dir_mode fs path) 0x1ED) 2"

definition metadata :: "'g FsState \<Rightarrow> Path \<Rightarrow> Metadata io_result option" where
  "metadata fs path =
     (case follow fs path of
        Inl e \<Rightarrow> Some (Inl e)
      | Inr resolved \<Rightarrow>
          if file_exists fs resolved then map_option Inr (file_metadata fs resolved)
          else if dir_exists fs resolved then Some (Inr (dir_metadata fs resolved))
          else Some (Inl (Io_NotFound, ''file or directory not found'')))"

definition symlink_metadata :: "'g FsState \<Rightarrow> Path \<Rightarrow> Metadata io_result option" where
  "symlink_metadata fs path =
     (if symlink_exists fs path then
        Some (Inr (metadata_of 0 False True (symlink_timestamps fs path) 0x1FF 1))
      else if file_exists fs path then map_option Inr (file_metadata fs path)
      else if dir_exists fs path then Some (Inr (dir_metadata fs path))
      else Some (Inl (Io_NotFound, ''file or directory not found'')))"

section \<open>Opening\<close>

record OpenOptions =
  oo_read :: bool
  oo_write :: bool
  oo_append :: bool
  oo_truncate :: bool
  oo_create :: bool
  oo_create_new :: bool
  oo_mode :: u32
  oo_custom_flags :: "32 word"
  oo_direct_io :: bool

definition OpenOptions_new :: OpenOptions where
  "OpenOptions_new = \<lparr>oo_read = False, oo_write = False, oo_append = False, oo_truncate = False,
     oo_create = False, oo_create_new = False, oo_mode = 0x1A4, oo_custom_flags = 0, oo_direct_io = False\<rparr>"

definition O_DIRECT :: "32 word" where
  "O_DIRECT = 0x4000"

record FileHandle =
  fd :: RawFd
  readable :: bool
  writable :: bool
  append_mode :: bool
  direct_io :: bool
  cursor :: nat

definition FileHandle_from_parts :: "RawFd \<Rightarrow> bool \<Rightarrow> bool \<Rightarrow> bool \<Rightarrow> bool \<Rightarrow> FileHandle" where
  "FileHandle_from_parts f r w a d =
     \<lparr>fd = f, readable = r, writable = w, append_mode = a, direct_io = d, cursor = 0\<rparr>"

text \<open>A new descriptor is registered for a path, and as direct if asked.\<close>

definition register_fd :: "'g FsState \<Rightarrow> Path \<Rightarrow> bool \<Rightarrow> (RawFd \<times> 'g FsState) option" where
  "register_fd fs path direct = do {
     (n, fs1) \<leftarrow> alloc_fd fs;
     let fs2 = fs1\<lparr>open_handles := imap_insert n path (open_handles fs1)\<rparr>;
     Some (n, if direct then fs2\<lparr>direct_io_fds := iset_insert n (direct_io_fds fs2)\<rparr> else fs2)
   }"

definition open_file ::
  "OpenOptions \<Rightarrow> 'g FsState \<Rightarrow> Path \<Rightarrow> (FileHandle io_result \<times> 'g FsState) option" where
  "open_file opts fs path =
     (case follow fs path of
        Inl e \<Rightarrow> Some (Inl e, fs)
      | Inr resolved \<Rightarrow>
          if oo_create_new opts \<and> file_exists fs resolved then
            Some (Inl (Io_AlreadyExists, ''file already exists''), fs)
          else if \<not> file_exists fs resolved \<and> \<not> (oo_create opts \<or> oo_create_new opts) then
            Some (Inl (Io_NotFound, ''file not found''), fs)
          else if \<not> file_exists fs resolved \<and> \<not> parent_exists fs resolved then
            Some (Inl (Io_NotFound, ''parent directory not found''), fs)
          else do {
            let fs1 = (if file_exists fs resolved then fs
                       else create_file_with_mode fs resolved (fs_now fs) (oo_mode opts));
            let fs2 = (if oo_truncate opts \<and> oo_write opts then set_file_len fs1 resolved 0 (fs_now fs) else fs1);
            let direct = (oo_direct_io opts \<or> and (oo_custom_flags opts) O_DIRECT \<noteq> 0);
            (n, fs3) \<leftarrow> register_fd fs2 resolved direct;
            Some (Inr (FileHandle_from_parts n (oo_read opts) (oo_write opts \<or> oo_append opts)
                         (oo_append opts) direct), fs3)
          })"

definition File_open :: "'g FsState \<Rightarrow> Path \<Rightarrow> (FileHandle io_result \<times> 'g FsState) option" where
  "File_open = open_file (OpenOptions_new\<lparr>oo_read := True\<rparr>)"

definition File_create :: "'g FsState \<Rightarrow> Path \<Rightarrow> (FileHandle io_result \<times> 'g FsState) option" where
  "File_create = open_file (OpenOptions_new\<lparr>oo_write := True, oo_create := True, oo_truncate := True\<rparr>)"

definition File_drop :: "FileHandle \<Rightarrow> 'g FsState \<Rightarrow> 'g FsState" where
  "File_drop h fs = fs\<lparr>open_handles := imap_swap_remove (fd h) (open_handles fs),
     direct_io_fds := iset_swap_remove (fd h) (direct_io_fds fs)\<rparr>"

definition try_clone :: "FileHandle \<Rightarrow> 'g FsState \<Rightarrow> (FileHandle io_result \<times> 'g FsState) option" where
  "try_clone h fs =
     (case imap_get (open_handles fs) (fd h) of
        None \<Rightarrow> Some (Inl HANDLE_GONE, fs)
      | Some path \<Rightarrow> do {
          (n, fs1) \<leftarrow> register_fd fs path (direct_io h);
          Some (Inr (h\<lparr>fd := n, cursor := 0\<rparr>), fs1)
        })"

definition handle_path :: "FileHandle \<Rightarrow> 'g FsState \<Rightarrow> Path option" where
  "handle_path h fs = imap_get (open_handles fs) (fd h)"

definition handle_metadata :: "FileHandle \<Rightarrow> 'g FsState \<Rightarrow> Metadata io_result option" where
  "handle_metadata h fs =
     (case imap_get (open_handles fs) (fd h) of
        None \<Rightarrow> Some (Inl HANDLE_GONE)
      | Some path \<Rightarrow> map_option Inr (file_metadata fs path))"

section \<open>Reading, writing and syncing through a handle\<close>

text \<open>A file may be flushed at random after a change; the result of that sync is ignored.\<close>

definition maybe_sync :: "'g Rng \<Rightarrow> Path \<Rightarrow> 'g FsState \<Rightarrow> 'g FsState" where
  "maybe_sync rng path fs =
     (let (b, fs1) = flip rng (sync_probability fs) fs in if b then snd (sync_file fs1 path) else fs1)"

definition set_len :: "'g Rng \<Rightarrow> FileHandle \<Rightarrow> 'g FsState \<Rightarrow> nat \<Rightarrow> unit io_result \<times> 'g FsState" where
  "set_len rng h fs len =
     (if \<not> writable h then (Inl (Io_PermissionDenied, ''file not opened for writing''), fs)
      else
        (case imap_get (open_handles fs) (fd h) of
           None \<Rightarrow> (Inl HANDLE_GONE, fs)
         | Some path \<Rightarrow> (Inr (), maybe_sync rng path (set_file_len fs path len (fs_now fs)))))"

definition sync_all :: "FileHandle \<Rightarrow> 'g FsState \<Rightarrow> unit io_result \<times> 'g FsState" where
  "sync_all h fs =
     (case imap_get (open_handles fs) (fd h) of
        None \<Rightarrow> (Inl HANDLE_GONE, fs)
      | Some path \<Rightarrow> map_err Io_Other (sync_file fs path))"

definition sync_data :: "FileHandle \<Rightarrow> 'g FsState \<Rightarrow> unit io_result \<times> 'g FsState" where
  "sync_data h fs =
     (case imap_get (open_handles fs) (fd h) of
        None \<Rightarrow> (Inl HANDLE_GONE, fs)
      | Some path \<Rightarrow> map_err Io_Other (sync_file_data fs path))"

text \<open>
  The O_DIRECT check: buffer address, offset and length are multiples of the alignment. The
  address of the caller's buffer is an argument.
\<close>

definition misaligned :: "FileHandle \<Rightarrow> 'g FsState \<Rightarrow> nat \<Rightarrow> nat \<Rightarrow> nat \<Rightarrow> bool" where
  "misaligned h fs ptr offset len \<longleftrightarrow>
     direct_io h \<and>
     (\<not> direct_io_alignment fs dvd ptr \<or> \<not> direct_io_alignment fs dvd offset \<or> \<not> direct_io_alignment fs dvd len)"

definition misaligned_error :: "'g FsState \<Rightarrow> IoKind \<times> string" where
  "misaligned_error fs =
     (Io_InvalidInput, ''direct I/O: buffer pointer, offset, and length must be aligned to '' @
        decimal (direct_io_alignment fs) @ '' bytes'')"

text \<open>An injected short read: fewer bytes are reported, and the tail of the buffer is zeroed.\<close>

definition shorten :: "'g Rng \<Rightarrow> nat \<Rightarrow> bytes \<Rightarrow> 'g FsState \<Rightarrow> nat \<times> bytes \<times> 'g FsState" where
  "shorten rng n buf fs =
     (if n \<le> 1 then (n, buf, fs)
      else
        (let (b, fs1) = flip rng (short_read_probability fs) fs
         in if \<not> b then (n, buf, fs1)
            else
              (let (short, g) = random_range rng 1 n (fs_rng fs1)
               in (short, blit short (replicate (n - short) 0) buf, fs1\<lparr>fs_rng := g\<rparr>))))"

text \<open>Injected silent corruption: one byte of the result has bits flipped, and the hook is told.\<close>

definition corrupt :: "'g Rng \<Rightarrow> Path \<Rightarrow> nat \<Rightarrow> nat \<Rightarrow> bytes \<Rightarrow> 'g FsState \<Rightarrow> bytes \<times> 'g FsState" where
  "corrupt rng path offset n buf fs =
     (if n = 0 then (buf, fs)
      else
        (let (b, fs1) = flip rng (corruption_probability fs) fs
         in if \<not> b then (buf, fs1)
            else
              (let (pos, g1) = random_range rng 0 n (fs_rng fs1);
                   (byte, g2) = random_u8 rng g1
               in (buf[pos := xor (buf ! pos) (max byte 1)],
                   fs1\<lparr>fs_rng := g2,
                       corruptions := corruptions fs1 @ [\<lparr>cor_path = path, cor_offset = offset + pos, cor_len = 1\<rparr>]\<rparr>))))"

definition read_at_internal ::
  "'g Rng \<Rightarrow> FileHandle \<Rightarrow> 'g FsState \<Rightarrow> nat \<Rightarrow> bytes \<Rightarrow> nat \<Rightarrow> (nat io_result \<times> bytes \<times> 'g FsState) option" where
  "read_at_internal rng h fs ptr buf offset =
     (if \<not> readable h then Some (Inl (Io_PermissionDenied, ''file not opened for reading''), buf, fs)
      else if misaligned h fs ptr offset (length buf) then Some (Inl (misaligned_error fs), buf, fs)
      else
        (let (io_error, fs1) = flip rng (io_error_probability fs) fs
         in if io_error then Some (Inl (Io_Other, ''I/O error''), buf, fs1)
            else
              (case imap_get (open_handles fs1) (fd h) of
                 None \<Rightarrow> Some (Inl HANDLE_GONE, buf, fs1)
               | Some path \<Rightarrow> do {
                   (n, buf1) \<leftarrow> read_file fs1 path buf offset;
                   let (n2, buf2, fs2) = shorten rng n buf1 fs1;
                   let (buf3, fs3) = corrupt rng path offset n2 buf2 fs2;
                   Some (Inr n2, buf3, fs3)
                 })))"

definition write_at_internal ::
  "'g Rng \<Rightarrow> FileHandle \<Rightarrow> 'g FsState \<Rightarrow> nat \<Rightarrow> bytes \<Rightarrow> nat \<Rightarrow> (nat io_result \<times> 'g FsState) option" where
  "write_at_internal rng h fs ptr buf offset =
     (if \<not> writable h then Some (Inl (Io_PermissionDenied, ''file not opened for writing''), fs)
      else if misaligned h fs ptr offset (length buf) then Some (Inl (misaligned_error fs), fs)
      else
        (let (io_error, fs1) = flip rng (io_error_probability fs) fs
         in if io_error then Some (Inl (Io_Other, ''I/O error''), fs1)
            else
              (case imap_get (open_handles fs1) (fd h) of
                 None \<Rightarrow> Some (Inl HANDLE_GONE, fs1)
               | Some path \<Rightarrow> do {
                   current_len \<leftarrow> file_len fs1 path;
                   let additional = offset + length buf - current_len;
                   case (if 0 < additional then check_space fs1 additional else Inr ()) of
                     Inl e \<Rightarrow> Some (Inl (Io_Other, e), fs1)
                   | Inr _ \<Rightarrow>
                       Some (Inr (length buf), maybe_sync rng path (write_file fs1 path offset buf (fs_now fs1)))
                 })))"

text \<open>\<^verbatim>\<open>std::io::Read\<close> and \<^verbatim>\<open>std::io::Write\<close> keep the cursor.\<close>

definition File_read ::
  "'g Rng \<Rightarrow> FileHandle \<Rightarrow> 'g FsState \<Rightarrow> nat \<Rightarrow> bytes \<Rightarrow> (nat io_result \<times> bytes \<times> FileHandle \<times> 'g FsState) option" where
  "File_read rng h fs ptr buf = do {
     (r, buf1, fs1) \<leftarrow> read_at_internal rng h fs ptr buf (cursor h);
     Some (r, buf1, case r of Inl _ \<Rightarrow> h | Inr n \<Rightarrow> h\<lparr>cursor := cursor h + n\<rparr>, fs1)
   }"

definition File_write ::
  "'g Rng \<Rightarrow> FileHandle \<Rightarrow> 'g FsState \<Rightarrow> nat \<Rightarrow> bytes \<Rightarrow> (nat io_result \<times> FileHandle \<times> 'g FsState) option" where
  "File_write rng h fs ptr buf = do {
     offset \<leftarrow> (if append_mode h then
                 (case imap_get (open_handles fs) (fd h) of
                    None \<Rightarrow> Some (cursor h) | Some path \<Rightarrow> file_len fs path)
               else Some (cursor h));
     (r, fs1) \<leftarrow> write_at_internal rng h fs ptr buf offset;
     Some (r, case r of Inl _ \<Rightarrow> h | Inr n \<Rightarrow> h\<lparr>cursor := offset + n\<rparr>, fs1)
   }"

text \<open>\<^verbatim>\<open>std::io::Seek\<close>: positions are cast to 64-bit signed integers, whose addition panics on overflow.\<close>

datatype SeekFrom = From_start nat | From_end int | From_current int

definition as_i64 :: "nat \<Rightarrow> int" where
  "as_i64 n = sint (word_of_nat n :: 64 word)"

definition add_i64 :: "int \<Rightarrow> int \<Rightarrow> int option" where
  "add_i64 a b = (if - (2 ^ 63) \<le> a + b \<and> a + b < 2 ^ 63 then Some (a + b) else None)"

definition handle_len :: "FileHandle \<Rightarrow> 'g FsState \<Rightarrow> nat option option" where
  "handle_len h fs =
     (case imap_get (open_handles fs) (fd h) of
        None \<Rightarrow> Some None | Some path \<Rightarrow> map_option Some (file_len fs path))"

definition File_seek :: "FileHandle \<Rightarrow> 'g FsState \<Rightarrow> SeekFrom \<Rightarrow> (nat io_result \<times> FileHandle) option" where
  "File_seek h fs pos = do {
     len \<leftarrow> handle_len h fs;
     new_pos \<leftarrow> (case pos of
                   From_start offset \<Rightarrow> Some (Inr (as_i64 offset))
                 | From_end offset \<Rightarrow>
                     (case len of
                        None \<Rightarrow> Some (Inl (Io_NotFound, ''file not found''))
                      | Some n \<Rightarrow> map_option Inr (add_i64 (as_i64 n) offset))
                 | From_current offset \<Rightarrow> map_option Inr (add_i64 (as_i64 (cursor h)) offset));
     Some (case new_pos of
             Inl e \<Rightarrow> (Inl e, h)
           | Inr n \<Rightarrow> if n < 0 then (Inl (Io_InvalidInput, ''invalid seek to a negative position''), h)
                      else (Inr (nat n), h\<lparr>cursor := nat n\<rparr>))
   }"

section \<open>Whole files\<close>

text \<open>
  The handle is dropped when the function returns, on the error paths too. The buffer is a
  fresh vector at address \<open>ptr\<close>.
\<close>

definition read_path :: "'g Rng \<Rightarrow> nat \<Rightarrow> 'g FsState \<Rightarrow> Path \<Rightarrow> (bytes io_result \<times> 'g FsState) option" where
  "read_path rng ptr fs path = do {
     (r, fs1) \<leftarrow> File_open fs path;
     case r of
       Inl e \<Rightarrow> Some (Inl e, fs1)
     | Inr h \<Rightarrow> do {
         md \<leftarrow> handle_metadata h fs1;
         case md of
           Inl e \<Rightarrow> Some (Inl e, File_drop h fs1)
         | Inr m \<Rightarrow>
             if md_len m = 0 then Some (Inr [], File_drop h fs1)
             else do {
               (n, buf, fs2) \<leftarrow> read_at_internal rng h fs1 ptr (replicate (md_len m) 0) 0;
               Some (case n of Inl e \<Rightarrow> Inl e | Inr _ \<Rightarrow> Inr buf, File_drop h fs2)
             }
       }
   }"

definition write_path ::
  "'g Rng \<Rightarrow> nat \<Rightarrow> 'g FsState \<Rightarrow> Path \<Rightarrow> bytes \<Rightarrow> (unit io_result \<times> 'g FsState) option" where
  "write_path rng ptr fs path data = do {
     (r, fs1) \<leftarrow> File_create fs path;
     case r of
       Inl e \<Rightarrow> Some (Inl e, fs1)
     | Inr h \<Rightarrow>
         if data = [] then Some (Inr (), File_drop h fs1)
         else do {
           (n, fs2) \<leftarrow> write_at_internal rng h fs1 ptr data 0;
           Some (case n of Inl e \<Rightarrow> Inl e | Inr _ \<Rightarrow> Inr (), File_drop h fs2)
         }
   }"

definition copy :: "'g Rng \<Rightarrow> nat \<Rightarrow> 'g FsState \<Rightarrow> Path \<Rightarrow> Path \<Rightarrow> (nat io_result \<times> 'g FsState) option" where
  "copy rng ptr fs src dst = do {
     (r, fs1) \<leftarrow> read_path rng ptr fs src;
     case r of
       Inl e \<Rightarrow> Some (Inl e, fs1)
     | Inr data \<Rightarrow> do {
         (w, fs2) \<leftarrow> write_path rng ptr fs1 dst data;
         Some (case w of Inl e \<Rightarrow> Inl e | Inr _ \<Rightarrow> Inr (length data), fs2)
       }
   }"

section \<open>Canonical paths\<close>

definition MAX_SYMLINK_FOLLOWS :: nat where
  "MAX_SYMLINK_FOLLOWS = 40"

definition is_absolute :: "Path \<Rightarrow> bool" where
  "is_absolute p \<longleftrightarrow> p \<noteq> [] \<and> hd p = RootDir"

text \<open>\<^verbatim>\<open>PathBuf::pop\<close> and \<^verbatim>\<open>PathBuf::push\<close>; inner \<^verbatim>\<open>.\<close> components are not part of a path.\<close>

definition path_pop :: "Path \<Rightarrow> Path" where
  "path_pop p = (case path_parent p of None \<Rightarrow> p | Some q \<Rightarrow> q)"

definition path_push :: "Path \<Rightarrow> Path \<Rightarrow> Path" where
  "path_push base p =
     (if is_absolute p then p else if base = [] then p else base @ filter (\<lambda>c. c \<noteq> CurDir) p)"

text \<open>
  The inner loop of \<^verbatim>\<open>canonicalize\<close>: \<open>left\<close> counts the symbolic links that may still be followed.
\<close>

fun follow_links ::
  "'g FsState \<Rightarrow> nat \<Rightarrow> Path list \<Rightarrow> Path \<Rightarrow> (nat \<times> Path list \<times> Path) io_result" where
  "follow_links fs 0 visited result =
     (if symlink_exists fs result then Inl (Io_Other, ''too many levels of symbolic links'')
      else Inr (0, visited, result))"
| "follow_links fs (Suc left) visited result =
     (if \<not> symlink_exists fs result then Inr (Suc left, visited, result)
      else if result \<in> set visited then Inl (Io_Other, ''symbolic link loop detected'')
      else
        (case shim_read_link fs result of
           Inl e \<Rightarrow> Inl e
         | Inr target \<Rightarrow>
             follow_links fs left (result # visited)
               (if is_absolute target then target else path_push (path_pop result) target)))"

fun canonical_components ::
  "'g FsState \<Rightarrow> Path \<Rightarrow> nat \<Rightarrow> Path list \<Rightarrow> Path \<Rightarrow> Path io_result" where
  "canonical_components fs [] left visited result = Inr result"
| "canonical_components fs (RootDir # cs) left visited result = canonical_components fs cs left visited result"
| "canonical_components fs (CurDir # cs) left visited result = canonical_components fs cs left visited result"
| "canonical_components fs (ParentDir # cs) left visited result =
     canonical_components fs cs left visited (path_pop result)"
| "canonical_components fs (Normal name # cs) left visited result =
     (case follow_links fs left visited (path_push result [Normal name]) of
        Inl e \<Rightarrow> Inl e
      | Inr (left1, visited1, result1) \<Rightarrow> canonical_components fs cs left1 visited1 result1)"

definition canonicalize :: "'g FsState \<Rightarrow> Path \<Rightarrow> Path io_result" where
  "canonicalize fs path =
     (case canonical_components fs path MAX_SYMLINK_FOLLOWS [] [RootDir] of
        Inl e \<Rightarrow> Inl e
      | Inr result \<Rightarrow>
          if \<not> file_exists fs result \<and> \<not> dir_exists fs result \<and> \<not> symlink_exists fs result
          then Inl (Io_NotFound, ''path does not exist'') else Inr result)"

end
