(* ===== verification/Fs_View.thy ===== *)
theory Fs_View
  imports Fs_Sync
begin

text \<open>
  What a file system looks like from outside, as opposed to how it is stored: the name space
  is the persisted one with every pending operation replayed in order, and the content of a
  file is its persisted content with every pending data operation replayed. The code answers
  questions about both by walking the queue backwards or by overlaying writes on a buffer;
  the theorems say that the answers are those of the replay.
\<close>

section \<open>The name space by replay\<close>

type_synonym namespace = "Path \<Rightarrow> EntryKind option"

fun ns_step :: "PendingOp \<Rightarrow> namespace \<Rightarrow> namespace" where
  "ns_step (CreateFile p _ _) m = m(p \<mapsto> File)"
| "ns_step (CreateHardLink p _ _) m = m(p \<mapsto> File)"
| "ns_step (CreateDir p _ _) m = m(p \<mapsto> Directory)"
| "ns_step (CreateSymlink p _ _) m = m(p \<mapsto> Symlink)"
| "ns_step (RemoveFile p) m = m(p := None)"
| "ns_step (RemoveDir p) m = m(p := None)"
| "ns_step (Rename from to) m = (m(to := m from))(from := None)"
| "ns_step (Write _ _ _ _) m = m"
| "ns_step (SetLen _ _ _) m = m"
| "ns_step (SetPermissions _ _ _) m = m"

definition view :: "'g FsState \<Rightarrow> namespace" where
  "view fs = fold ns_step (pending fs) (persisted_kind fs)"

lemma kind_back_replay: "kind_back base (rev ops) p = fold ns_step ops base p"
proof (induction ops arbitrary: p rule: rev_induct)
  case (snoc op ops)
  then show ?case by (cases op) auto
qed simp

text \<open>
  C10. Resolving an entry by walking the pending operations backwards, following renames to
  their source, gives the same answer as replaying all of them forwards on the persisted
  entries: create puts an entry, remove takes it away, rename moves it.
\<close>

theorem entry_kind_replay: "entry_kind fs p = fold ns_step (pending fs) (persisted_kind fs) p"
  unfolding entry_kind_def by (rule kind_back_replay)

lemma entry_kind_view: "entry_kind fs p = view fs p"
  unfolding entry_kind_def view_def by (rule kind_back_replay)

lemma view_exists [simp]:
  "file_exists fs p \<longleftrightarrow> view fs p = Some File" "dir_exists fs p \<longleftrightarrow> view fs p = Some Directory"
  "symlink_exists fs p \<longleftrightarrow> view fs p = Some Symlink"
  by (simp_all add: file_exists_def dir_exists_def symlink_exists_def entry_kind_view)

lemma occupied_view [simp]: "occupied fs p \<longleftrightarrow> view fs p \<noteq> None"
  by (cases "view fs p") (auto simp: occupied_def intro: EntryKind.exhaust)

lemma persisted_kind_frame [simp]:
  "persisted_kind (fs\<lparr>pending := ops\<rparr>) = persisted_kind fs"
  "persisted_kind (fs\<lparr>page_cache := c\<rparr>) = persisted_kind fs"
  by (intro ext; simp add: persisted_kind_def)+

lemma view_push [simp]: "view (push_op op fs) = ns_step op (view fs)"
  by (simp add: view_def push_op_def)

lemma view_invalidate [simp]: "view (invalidate p fs) = view fs"
  by (simp add: view_def invalidate_def)

section \<open>Refinement of an abstract name space\<close>

text \<open>The calls that change names, and what each should do to an abstract name space.\<close>

datatype NsCall =
    Call_mkdir Path duration u32 | Call_rmdir Path | Call_unlink Path | Call_rename Path Path
  | Call_symlink Path Path duration | Call_hard_link Path Path duration | Call_create Path duration u32

fun fs_call :: "'g FsState \<Rightarrow> NsCall \<Rightarrow> unit fs_result \<times> 'g FsState" where
  "fs_call fs (Call_mkdir p t mode) = mkdir_with_mode fs p t mode"
| "fs_call fs (Call_rmdir p) = rmdir fs p"
| "fs_call fs (Call_unlink p) = unlink fs p"
| "fs_call fs (Call_rename from to) = rename fs from to"
| "fs_call fs (Call_symlink p target t) = create_symlink fs p target t"
| "fs_call fs (Call_hard_link p target t) = create_hard_link fs p target t"
| "fs_call fs (Call_create p t mode) = (Inr (), create_file_with_mode fs p t mode)"

definition has_child :: "namespace \<Rightarrow> Path \<Rightarrow> bool" where
  "has_child m d \<longleftrightarrow> (\<exists>q. path_parent q = Some d \<and> m q \<noteq> None)"

definition parent_ok :: "namespace \<Rightarrow> Path \<Rightarrow> bool" where
  "parent_ok m p \<longleftrightarrow> (case path_parent p of None \<Rightarrow> True | Some d \<Rightarrow> d = [] \<or> m d = Some Directory)"

definition move_entry :: "Path \<Rightarrow> Path \<Rightarrow> namespace \<Rightarrow> namespace" where
  "move_entry from to m = (m(to := m from))(from := None)"

fun spec_call :: "namespace \<Rightarrow> NsCall \<Rightarrow> unit fs_result \<times> namespace" where
  "spec_call m (Call_mkdir p t mode) =
     (if \<not> parent_ok m p then (Inl ENOENT, m) else if m p \<noteq> None then (Inl EEXIST, m)
      else (Inr (), m(p \<mapsto> Directory)))"
| "spec_call m (Call_rmdir p) =
     (if m p \<noteq> Some Directory then (Inl ENOENT, m) else if has_child m p then (Inl ''Directory not empty'', m)
      else (Inr (), m(p := None)))"
| "spec_call m (Call_unlink p) =
     (if m p = None \<or> m p = Some Directory then (Inl ENOENT, m) else (Inr (), m(p := None)))"
| "spec_call m (Call_rename from to) =
     (if \<not> parent_ok m to \<or> m from = None then (Inl ENOENT, m)
      else if m from = Some Directory then
        (if m to = Some File \<or> m to = Some Symlink then (Inl ''Not a directory'', m)
         else if m to = Some Directory \<and> has_child m to then (Inl ''Directory not empty'', m)
         else (Inr (), move_entry from to m))
      else if m to = Some Directory then (Inl ''Is a directory'', m)
      else (Inr (), move_entry from to m))"
| "spec_call m (Call_symlink p target t) =
     (if \<not> parent_ok m p then (Inl ENOENT, m) else if m p \<noteq> None then (Inl EEXIST, m)
      else (Inr (), m(p \<mapsto> Symlink)))"
| "spec_call m (Call_hard_link p target t) =
     (if \<not> parent_ok m p \<or> m target \<noteq> Some File then (Inl ENOENT, m)
      else if m p \<noteq> None then (Inl EEXIST, m) else (Inr (), m(p \<mapsto> File)))"
| "spec_call m (Call_create p t mode) = (Inr (), m(p \<mapsto> File))"

text \<open>Whether a pending rename or hard link puts an entry into a directory.\<close>

fun enters_dir :: "Path \<Rightarrow> PendingOp \<Rightarrow> bool" where
  "enters_dir d (Rename _ to) = (path_parent to = Some d)"
| "enters_dir d (CreateHardLink p _ _) = (path_parent p = Some d)"
| "enters_dir d _ = False"

definition plain_dir :: "'g FsState \<Rightarrow> Path \<Rightarrow> bool" where
  "plain_dir fs d \<longleftrightarrow> (\<forall>op \<in> set (pending fs). \<not> enters_dir d op)"

lemma parent_ok_view: "parent_exists fs p \<longleftrightarrow> parent_ok (view fs) p"
  by (auto simp: parent_exists_def parent_ok_def split: option.splits)

lemma mkdir_parent:
  "(case path_parent p of None \<Rightarrow> False | Some d \<Rightarrow> d \<noteq> [] \<and> \<not> dir_exists fs d) \<longleftrightarrow> \<not> parent_ok (view fs) p"
  by (simp add: parent_ok_def split: option.splits)

text \<open>An entry is either persisted under its own name, or some pending operation put it there.\<close>

fun puts :: "PendingOp \<Rightarrow> Path \<Rightarrow> EntryKind \<Rightarrow> bool" where
  "puts (CreateFile p _ _) q k = (p = q \<and> k = File)"
| "puts (CreateHardLink p _ _) q k = (p = q \<and> k = File)"
| "puts (CreateDir p _ _) q k = (p = q \<and> k = Directory)"
| "puts (CreateSymlink p _ _) q k = (p = q \<and> k = Symlink)"
| "puts (Rename _ to) q k = (to = q)"
| "puts _ q k = False"

lemma replay_origin:
  "fold ns_step ops base q = Some k \<Longrightarrow> base q = Some k \<or> (\<exists>op \<in> set ops. puts op q k)"
proof (induction ops rule: rev_induct)
  case (snoc op ops)
  then show ?case by (cases op) (auto split: if_splits)
qed simp

lemma persisted_kind_keys:
  assumes "persisted_kind fs q = Some k"
  shows "case k of File \<Rightarrow> q \<in> set (imap_keys (persisted_files fs))
    | Directory \<Rightarrow> q \<in> set (imap_keys (persisted_dirs fs)) | Symlink \<Rightarrow> q \<in> set (imap_keys (persisted_symlinks fs))"
  using assms by (auto simp: persisted_kind_def map_of_eq_None_iff split: if_splits)

lemma puts_child:
  assumes "puts op q k" "path_parent q = Some d" "view fs q = Some k" "\<not> enters_dir d op"
  shows "child_of fs d op"
  using assms by (cases op) auto

lemma dir_has_children_view:
  assumes plain: "plain_dir fs d"
  shows "dir_has_children fs d \<longleftrightarrow> has_child (view fs) d"
proof
  assume "dir_has_children fs d"
  moreover have "has_child (view fs) d" if "child_of fs d op" for op
    using that by (cases op) (auto simp: has_child_def)
  ultimately show "has_child (view fs) d"
    unfolding dir_has_children_def list_ex_iff by (auto simp: has_child_def)
next
  assume "has_child (view fs) d"
  then obtain q k where q: "path_parent q = Some d" "view fs q = Some k" by (auto simp: has_child_def)
  from replay_origin [OF q(2) [unfolded view_def]] show "dir_has_children fs d"
  proof
    assume "persisted_kind fs q = Some k"
    from persisted_kind_keys [OF this] show ?thesis
      using q unfolding dir_has_children_def list_ex_iff by (cases k) auto
  next
    assume "\<exists>op \<in> set (pending fs). puts op q k"
    then obtain op where op: "op \<in> set (pending fs)" "puts op q k" by blast
    with plain have "\<not> enters_dir d op" by (auto simp: plain_dir_def)
    with op(2) q have "child_of fs d op" by (rule puts_child)
    then show ?thesis using op(1) unfolding dir_has_children_def list_ex_iff by blast
  qed
qed

definition dir_checked :: "NsCall \<Rightarrow> Path option" where
  "dir_checked c = (case c of Call_rmdir p \<Rightarrow> Some p | Call_rename _ to \<Rightarrow> Some to | _ \<Rightarrow> None)"


section \<open>A concrete state\<close>

text \<open>
  One persisted and synced file \<^verbatim>\<open>/a\<close> of three bytes with a pending write, and a pending
  directory \<^verbatim>\<open>/d\<close>.
\<close>

abbreviation path_a :: Path where
  "path_a \<equiv> [RootDir, Normal ''a'']"

abbreviation path_d :: Path where
  "path_d \<equiv> [RootDir, Normal ''d'']"

definition demo_fs :: "unit FsState" where
  "demo_fs = (FsState_new FsConfig_default ())
     \<lparr>persisted_files := [(path_a, (FileData_with_mode 0 0x1A4)\<lparr>content := [1, 2, 3]\<rparr>)],
      synced_entries := [([RootDir], ()), (path_a, ())],
      pending := [Write path_a 2 [9, 9] 5, CreateDir path_d 6 0x1ED]\<rparr>"

lemmas demo_fs_simps = demo_fs_def FsState_new_def FsConfig_default_def FileData_with_mode_def
  DirData_new_def DirData_with_mode_def path_parent_def


end
