(* ===== verification/Fs_Content.thy ===== *)
theory Fs_Content
  imports Fs_View
begin

text \<open>
  The content of a file by replay: its persisted content with every pending data operation
  that reaches it applied in order. \<^verbatim>\<open>file_len\<close> and \<^verbatim>\<open>read_file\<close> never build that content; the
  lemmas here relate their answers to it.
\<close>

section \<open>Byte vectors\<close>

definition byte_at :: "bytes \<Rightarrow> nat \<Rightarrow> 8 word" where
  "byte_at c i = (if i < length c then c ! i else 0)"

lemma length_resize [simp]: "length (resize n c) = n"
  by (simp add: resize_def)

lemma length_blit: "pos + length src \<le> length dst \<Longrightarrow> length (blit pos src dst) = length dst"
  by (simp add: blit_def)

lemma blit_nth:
  "\<lbrakk>pos + length src \<le> length dst; i < length dst\<rbrakk> \<Longrightarrow>
    blit pos src dst ! i = (if pos \<le> i \<and> i < pos + length src then src ! (i - pos) else dst ! i)"
  by (auto simp: blit_def nth_append)

lemma length_write_content [simp]: "length (write_content off data c) = max (length c) (off + length data)"
  by (auto simp: write_content_def Let_def length_blit)

lemma byte_at_resize_grow: "length c \<le> n \<Longrightarrow> byte_at (resize n c) i = byte_at c i"
  by (auto simp: byte_at_def resize_def nth_append)

lemma byte_at_write:
  "byte_at (write_content off data c) i =
     (if off \<le> i \<and> i < off + length data then data ! (i - off) else byte_at c i)"
proof (cases "length c < off + length data")
  case True
  then show ?thesis
    by (auto simp: write_content_def byte_at_def blit_nth length_blit resize_def nth_append)
next
  case False
  then show ?thesis by (auto simp: write_content_def byte_at_def blit_nth length_blit)
qed

lemma take_drop_byte_at: "off + n \<le> length c \<Longrightarrow> take n (drop off c) = map (\<lambda>i. byte_at c (off + i)) [0..<n]"
  by (intro nth_equalityI) (auto simp: byte_at_def)

section \<open>Replaying the data operations\<close>

fun content_step :: "(Path \<Rightarrow> bool) \<Rightarrow> PendingOp \<Rightarrow> bytes \<Rightarrow> bytes" where
  "content_step hits (Write p off data _) c = (if hits p then write_content off data c else c)"
| "content_step hits (SetLen p n _) c = (if hits p then resize n c else c)"
| "content_step hits _ c = c"

definition contents_of :: "'g FsState \<Rightarrow> Path \<Rightarrow> bytes" where
  "contents_of fs cp = fold (content_step (hits_content fs cp)) (pending fs) (persisted_content fs cp)"

lemma len_after_replay: "len_after hits ops (length c) = length (fold (content_step hits) ops c)"
proof (induction ops arbitrary: c)
  case (Cons op ops)
  show ?case
  proof (cases op)
    case (Write p off data t)
    have "(if hits p \<and> length c < off + length data then off + length data else length c) =
          length (content_step hits op c)" by (simp add: Write)
    then show ?thesis using Cons.IH [of "content_step hits op c"] by (simp add: Write)
  next
    case (SetLen p n t)
    have "(if hits p then n else length c) = length (content_step hits op c)" by (simp add: SetLen)
    then show ?thesis using Cons.IH [of "content_step hits op c"] by (simp add: SetLen)
  qed (simp_all add: Cons.IH)
qed simp

lemma file_len_contents:
  "resolve_content_path fs p = Some cp \<Longrightarrow> file_len fs p = Some (length (contents_of fs cp))"
  by (simp add: file_len_def contents_of_def len_after_replay)

text \<open>No pending truncation: every pending length is at least the length reached so far.\<close>

fun grows_only :: "(Path \<Rightarrow> bool) \<Rightarrow> PendingOp list \<Rightarrow> bytes \<Rightarrow> bool" where
  "grows_only hits [] c = True"
| "grows_only hits (op # ops) c =
     ((case op of SetLen p n _ \<Rightarrow> hits p \<longrightarrow> length c \<le> n | _ \<Rightarrow> True) \<and>
      grows_only hits ops (content_step hits op c))"

abbreviation agrees :: "nat \<Rightarrow> bytes \<Rightarrow> bytes \<Rightarrow> bool" where
  "agrees offset region c \<equiv> \<forall>j < length region. region ! j = byte_at c (offset + j)"

text \<open>What one pending write does to the region that is being read.\<close>

definition overlay_write :: "nat \<Rightarrow> nat \<Rightarrow> bytes \<Rightarrow> bytes \<Rightarrow> bytes" where
  "overlay_write offset off data region =
     (if off < offset + length region \<and> offset < off + length data then
        blit (max off offset - offset)
          (take (min (off + length data) (offset + length region) - max off offset)
             (drop (max off offset - off) data)) region
      else region)"

lemma overlay_Write:
  "overlay hits offset (Write p off data t # ops) region =
     overlay hits offset ops (if hits p then overlay_write offset off data region else region)"
  by (simp add: overlay_write_def Let_def)

lemma length_overlay_write [simp]: "length (overlay_write offset off data region) = length region"
  by (auto simp: overlay_write_def length_blit)

lemma overlay_write_nth:
  assumes "j < length region"
  shows "overlay_write offset off data region ! j =
    (if off \<le> offset + j \<and> offset + j < off + length data then data ! (offset + j - off) else region ! j)"
proof (cases "off < offset + length region \<and> offset < off + length data")
  case True
  define s where "s = take (min (off + length data) (offset + length region) - max off offset)
    (drop (max off offset - off) data)"
  define d where "d = max off offset - offset"
  have len: "length s = min (off + length data) (offset + length region) - max off offset"
    using True by (auto simp: s_def)
  have fits: "d + length s \<le> length region" using True unfolding len d_def by linarith
  have s_nth: "s ! i = data ! (max off offset - off + i)" if "i < length s" for i
    using that by (simp add: s_def)
  have "overlay_write offset off data region ! j = (if d \<le> j \<and> j < d + length s then s ! (j - d) else region ! j)"
    using True assms fits by (simp add: overlay_write_def blit_nth flip: s_def d_def)
  moreover have "d \<le> j \<and> j < d + length s \<longleftrightarrow> off \<le> offset + j \<and> offset + j < off + length data"
    using True assms unfolding len d_def by linarith
  moreover have "s ! (j - d) = data ! (offset + j - off)" if "d \<le> j" "j < d + length s"
  proof -
    have "max off offset - off + (j - d) = offset + j - off" using that unfolding d_def by linarith
    then show ?thesis using that s_nth [of "j - d"] by simp
  qed
  ultimately show ?thesis by auto
next
  case False
  then show ?thesis using assms by (auto simp: overlay_write_def)
qed

lemma agrees_overlay_write:
  "agrees offset region c \<Longrightarrow> agrees offset (overlay_write offset off data region) (write_content off data c)"
  by (simp add: overlay_write_nth byte_at_write)

lemma length_overlay [simp]: "length (overlay hits offset ops region) = length region"
proof (induction ops arbitrary: region)
  case (Cons op ops)
  then show ?case by (cases op) (simp_all add: overlay_Write del: overlay.simps(2))
qed simp

lemma overlay_replay:
  "\<lbrakk>grows_only hits ops c; agrees offset region c\<rbrakk> \<Longrightarrow>
    agrees offset (overlay hits offset ops region) (fold (content_step hits) ops c)"
proof (induction ops arbitrary: c region)
  case (Cons op ops)
  show ?case
  proof (cases op)
    case (Write p off data t)
    have "agrees offset (if hits p then overlay_write offset off data region else region) (content_step hits op c)"
      using Cons.prems(2) agrees_overlay_write by (simp add: Write)
    from Cons.IH [OF _ this] Cons.prems(1) show ?thesis
      by (simp add: Write overlay_Write del: overlay.simps(2))
  next
    case (SetLen p n t)
    have "agrees offset region (content_step hits op c)"
      using Cons.prems by (auto simp: SetLen byte_at_resize_grow)
    from Cons.IH [OF _ this] Cons.prems(1) show ?thesis by (simp add: SetLen)
  qed (use Cons in simp_all)
qed simp

lemma agrees_persisted:
  "agrees offset
     (case imap_get (persisted_files fs) cp of
        None \<Rightarrow> replicate n 0
      | Some f \<Rightarrow> blit 0 (take n (drop offset (content f))) (replicate n 0))
     (persisted_content fs cp)"
  by (auto simp: persisted_content_def byte_at_def length_blit blit_nth split: option.splits)

lemma length_persisted_region:
  "length (case imap_get m cp of
        None \<Rightarrow> replicate n 0
      | Some f \<Rightarrow> blit 0 (take n (drop offset (content f))) (replicate n 0)) = n"
  by (simp add: length_blit split: option.splits)

section \<open>Reading is a slice of the replayed content\<close>

text \<open>
  C16. A read returns the slice of the replayed content that starts at the offset, cut at the
  end of the file and at the size of the buffer; the rest of the buffer is untouched. This
  holds whenever the content path resolves and no pending operation shortens the file.
\<close>

theorem read_file_slice:
  assumes cp: "resolve_content_path fs p = Some cp"
    and grows: "grows_only (hits_content fs cp) (pending fs) (persisted_content fs cp)"
  shows "read_file fs p buf offset =
    (let n = min (length buf) (length (contents_of fs cp) - offset)
     in Some (n, take n (drop offset (contents_of fs cp)) @ drop n buf))"
proof (cases "buf = [] \<or> length (contents_of fs cp) \<le> offset")
  case True
  then show ?thesis using cp by (auto simp: read_file_def file_len_contents)
next
  case False
  define n where "n = min (length buf) (length (contents_of fs cp) - offset)"
  define region where "region = (case imap_get (persisted_files fs) cp of None \<Rightarrow> replicate n 0
    | Some f \<Rightarrow> blit 0 (take n (drop offset (content f))) (replicate n 0))"
  have len: "length region = n" unfolding region_def by (rule length_persisted_region)
  have "agrees offset (overlay (hits_content fs cp) offset (pending fs) region) (contents_of fs cp)"
    unfolding contents_of_def using grows by (rule overlay_replay) (unfold region_def, rule agrees_persisted)
  then have "overlay (hits_content fs cp) offset (pending fs) region = map (\<lambda>i. byte_at (contents_of fs cp) (offset + i)) [0..<n]"
    by (intro nth_equalityI) (simp_all add: len)
  also have "\<dots> = take n (drop offset (contents_of fs cp))"
    using False by (intro take_drop_byte_at [symmetric]) (auto simp: n_def min_def)
  finally show ?thesis
    using False cp by (simp add: read_file_def file_len_contents Let_def flip: n_def region_def)
qed

section \<open>Reading one's own writes\<close>

lemma resolve_content_path_frame_all:
  "resolve_content_path fs p = Some cp \<Longrightarrow>
    \<forall>fs' :: 'h FsState. resolve_hardlink_target fs' = resolve_hardlink_target fs \<longrightarrow>
      resolve_persisted_path fs' = resolve_persisted_path fs \<longrightarrow> resolve_content_path fs' p = Some cp"
proof (induction fs p cp rule: resolve_content_path.raw_induct [rotated, consumes 1, case_names step])
  case (step f fs p cp)
  show ?case
  proof (intro allI impI)
    fix fs' :: "'h FsState" assume eqs: "resolve_hardlink_target fs' = resolve_hardlink_target fs"
      "resolve_persisted_path fs' = resolve_persisted_path fs"
    show "resolve_content_path fs' p = Some cp"
    proof (cases "resolve_hardlink_target fs p")
      case None
      then show ?thesis using step.hyps eqs by (simp add: resolve_content_path.simps [of fs' p])
    next
      case (Some target)
      then have "f fs target = Some cp" using step.hyps by simp
      from step.IH [OF this] eqs have "resolve_content_path fs' target = Some cp" by blast
      with Some eqs(1) show ?thesis by (simp add: resolve_content_path.simps [of fs' p])
    qed
  qed
qed

lemmas resolve_content_path_frame = resolve_content_path_frame_all [THEN spec, THEN mp, THEN mp]

text \<open>Operations that neither link nor rename leave the resolution of every path as it is.\<close>

fun moves_nothing :: "PendingOp \<Rightarrow> bool" where
  "moves_nothing (Rename _ _) = False"
| "moves_nothing (CreateHardLink _ _ _) = False"
| "moves_nothing _ = True"

lemma rename_back_push: "moves_nothing op \<Longrightarrow> rename_back (rev (ops @ [op])) p = rename_back (rev ops) p"
  by (cases op) simp_all

lemma link_target_push: "moves_nothing op \<Longrightarrow> link_target (ops @ [op]) p = link_target ops p"
proof (induction ops)
  case Nil
  then show ?case by (cases op) simp_all
next
  case (Cons a ops)
  then show ?case by (cases a) auto
qed

lemma rename_forward_push: "moves_nothing op \<Longrightarrow> rename_forward (ops @ [op]) p = rename_forward ops p"
proof (induction ops arbitrary: p)
  case Nil
  then show ?case by (cases op) simp_all
next
  case (Cons a ops)
  then show ?case by (cases a) auto
qed

lemma push_frame:
  assumes "moves_nothing op"
  shows "resolve_hardlink_target (push_op op fs) = resolve_hardlink_target fs"
    "resolve_persisted_path (push_op op fs) = resolve_persisted_path fs"
    "hits_content (push_op op fs) = hits_content fs"
  using assms by (auto simp: fun_eq_iff push_op_def resolve_hardlink_target_def resolve_persisted_path_def
      link_target_push rename_back_push hits_content_def path_renamed_to_def rename_forward_push simp del: rev_append)

lemma push_persisted_content [simp]: "persisted_content (push_op op fs) = persisted_content fs"
  by (intro ext) (simp add: push_op_def persisted_content_def)

lemma resolve_push: "\<lbrakk>resolve_content_path fs p = Some cp; moves_nothing op\<rbrakk> \<Longrightarrow> resolve_content_path (push_op op fs) p = Some cp"
  by (rule resolve_content_path_frame) (simp_all add: push_frame)

lemma contents_of_push:
  "moves_nothing op \<Longrightarrow> contents_of (push_op op fs) cp = content_step (hits_content fs cp) op (contents_of fs cp)"
  by (simp add: contents_of_def push_frame) (simp add: push_op_def)

text \<open>Only the persisted files and the queue matter to what is read.\<close>

lemma resolve_cong:
  "pending fs' = pending fs \<Longrightarrow> resolve_content_path fs p = Some cp \<Longrightarrow> resolve_content_path fs' p = Some cp"
  by (rule resolve_content_path_frame [of fs])
    (simp_all add: fun_eq_iff resolve_hardlink_target_def resolve_persisted_path_def)

lemma contents_of_cong:
  "\<lbrakk>pending fs' = pending fs; persisted_files fs' = persisted_files fs\<rbrakk> \<Longrightarrow> contents_of fs' cp = contents_of fs cp"
  by (simp add: contents_of_def hits_content_def [abs_def] path_renamed_to_def persisted_content_def)

lemma overlay_append: "overlay hits offset (xs @ ys) region = overlay hits offset ys (overlay hits offset xs region)"
proof (induction xs arbitrary: region)
  case (Cons op ops)
  then show ?case by (cases op) (simp_all add: overlay_Write del: overlay.simps(2))
qed simp

lemma read_back_write:
  assumes cp: "resolve_content_path fs p = Some cp"
    and hits: "hits_content fs cp p"
    and "data \<noteq> []" and "length buf = length data"
  shows "read_file (write_file fs p off data t) p buf off = Some (length data, data)"
proof -
  let ?fs = "push_op (Write p off data t) fs"
  have cp': "resolve_content_path ?fs p = Some cp" using cp by (rule resolve_push) simp
  have len: "off < length (contents_of ?fs cp)"
    "min (length buf) (length (contents_of ?fs cp) - off) = length data"
    using assms by (simp_all add: contents_of_push less_max_iff_disj)
  define region where "region = overlay (hits_content fs cp) off (pending fs)
    (case imap_get (persisted_files fs) cp of None \<Rightarrow> replicate (length data) 0
     | Some f \<Rightarrow> blit 0 (take (length data) (drop off (content f))) (replicate (length data) 0))"
  have buf: "buf \<noteq> []" using assms by auto
  have region: "length region = length data" by (simp add: region_def length_persisted_region)
  have "overlay_write off off data region = data"
    by (intro nth_equalityI) (simp_all add: region overlay_write_nth)
  moreover have "overlay (hits_content fs cp) off (pending ?fs)
    (case imap_get (persisted_files fs) cp of None \<Rightarrow> replicate (length data) 0
     | Some f \<Rightarrow> blit 0 (take (length data) (drop off (content f))) (replicate (length data) 0)) =
      overlay_write off off data region"
    using hits by (simp add: push_op_def overlay_append overlay_Write region_def del: overlay.simps(2))
  moreover have "persisted_files ?fs = persisted_files fs" by (simp add: push_op_def)
  ultimately show ?thesis
    using assms buf len cp' by (simp add: write_file_def read_file_def file_len_contents Let_def push_frame)
qed

text \<open>
  A write is read back at once: after \<^verbatim>\<open>write_file\<close> of some bytes, \<^verbatim>\<open>read_file\<close> at the same
  path and offset returns exactly these bytes, whatever else is pending, provided the path the
  write was made under still leads to the content the path resolves to.
\<close>

theorem read_own_write:
  assumes "resolve_content_path fs p = Some cp" and "hits_content fs cp p"
    and "data \<noteq> []" and "length buf = length data"
  shows "read_file (write_file fs p off data t) p buf off = Some (length data, data)"
  using assms by (rule read_back_write)

section \<open>Instances\<close>

lemma demo_content_path: "resolve_content_path demo_fs path_a = Some path_a"
  by (simp add: resolve_content_path.simps resolve_hardlink_target_def resolve_persisted_path_def demo_fs_simps)

lemmas demo_content_simps = demo_fs_simps hits_content_def path_renamed_to_def persisted_content_def
  write_content_def blit_def resize_def

theorem read_file_slice_witness:
  "resolve_content_path demo_fs path_a = Some path_a \<and>
   grows_only (hits_content demo_fs path_a) (pending demo_fs) (persisted_content demo_fs path_a) \<and>
   read_file demo_fs path_a [0, 0, 7] 1 = Some (3, [2, 9, 9])"
proof -
  have grows: "grows_only (hits_content demo_fs path_a) (pending demo_fs) (persisted_content demo_fs path_a)"
    by (simp add: demo_content_simps)
  have "contents_of demo_fs path_a = [1, 2, 9, 9]" by (simp add: contents_of_def demo_content_simps)
  then show ?thesis
    using read_file_slice [OF demo_content_path grows, of "[0, 0, 7]" 1] grows demo_content_path by simp
qed

theorem read_own_write_witness:
  "hits_content demo_fs path_a path_a \<and>
   read_file (write_file demo_fs path_a 6 [4, 5] 8) path_a [0, 0] 6 = Some (2, [4, 5])"
  using read_own_write [OF demo_content_path, of "[4, 5]" "[0, 0]" 6 8] by (simp add: hits_content_def)

end
