(* ===== verification/Fs_Durable.thy ===== *)
theory Fs_Durable
  imports Fs_Content
begin

text \<open>
  Durability: what is on the simulated disk after a crash. The entries that survive are the
  synced ones; a file whose data and whose directory were synced keeps its content; without a
  sync, at most whole blocks from the front of each pending write survive.
\<close>

section \<open>The index maps stay well formed\<close>

definition fs_wf :: "'g FsState \<Rightarrow> bool" where
  "fs_wf fs \<longleftrightarrow> imap_wf (persisted_files fs) \<and> imap_wf (persisted_dirs fs) \<and>
     imap_wf (persisted_symlinks fs) \<and> imap_wf (synced_entries fs)"

lemma imap_wf_or_insert: "imap_wf m \<Longrightarrow> imap_wf (or_insert k v m)"
  by (simp add: or_insert_def imap_wf_insert)

lemma imap_get_or_insert [imap_simps]:
  "imap_get (or_insert k v m) k' =
     (if k' = k then Some (case imap_get m k of None \<Rightarrow> v | Some w \<Rightarrow> w) else imap_get m k')"
  by (auto simp: or_insert_def imap_simps split: option.splits)

lemma imap_get_retain_key: "imap_get (imap_retain (\<lambda>k _. P k) m) k = (if P k then imap_get m k else None)"
  by (induction m) (auto simp: imap_retain_def)

lemmas fs_wf_rules = imap_wf_or_insert imap_wf_insert imap_wf_swap_remove imap_wf_retain

lemma apply_op_wf: "fs_wf fs \<Longrightarrow> fs_wf (apply_op_to_persisted op fs)"
  by (cases op) (auto simp: fs_wf_def Let_def fs_wf_rules split: option.splits)

lemma apply_op_frame [simp]:
  "synced_entries (apply_op_to_persisted op fs) = synced_entries fs"
  "pending (apply_op_to_persisted op fs) = pending fs"
  "block_size (apply_op_to_persisted op fs) = block_size fs"
  "fs_rng (apply_op_to_persisted op fs) = fs_rng fs"
  by (cases op; simp add: Let_def split: option.splits)+

lemma fold_apply_wf: "fs_wf fs \<Longrightarrow> fs_wf (fold apply_op_to_persisted ops fs)"
  by (induction ops arbitrary: fs) (simp_all add: apply_op_wf)

lemma fold_apply_frame [simp]:
  "synced_entries (fold apply_op_to_persisted ops fs) = synced_entries fs"
  "pending (fold apply_op_to_persisted ops fs) = pending fs"
  "block_size (fold apply_op_to_persisted ops fs) = block_size fs"
  by (induction ops arbitrary: fs) simp_all

lemma sync_entry_wf: "imap_wf es \<Longrightarrow> imap_wf (snd (sync_entry d op es))"
  by (cases op) (auto simp: Let_def fs_wf_rules)

lemma flush_entries_wf: "fs_wf fs \<Longrightarrow> fs_wf (snd (flush_entries d ops b fs))"
proof (induction ops arbitrary: b fs)
  case (Cons op ops)
  obtain m es where es: "sync_entry d op (synced_entries fs) = (m, es)" by fastforce
  have "fs_wf (fs\<lparr>synced_entries := es\<rparr>)"
    using Cons.prems sync_entry_wf [of "synced_entries fs" d op] by (simp add: fs_wf_def es)
  then show ?case using Cons.IH by (simp add: es apply_op_wf)
qed simp

lemma sync_file_wf: "fs_wf fs \<Longrightarrow> fs_wf (snd (sync_file fs p))"
proof -
  assume "fs_wf fs"
  then have "fs_wf (fs\<lparr>persisted_files := or_insert p f (persisted_files fs), pending := ops\<rparr>)" for f ops
    by (simp add: fs_wf_def fs_wf_rules)
  then show ?thesis using \<open>fs_wf fs\<close> unfolding sync_file_def Let_def case_prod_beta' by (simp add: fold_apply_wf)
qed

lemma sync_dir_wf: "fs_wf fs \<Longrightarrow> fs_wf (snd (sync_dir fs d t))"
proof -
  assume "fs_wf fs"
  then have "fs_wf (fs\<lparr>pending := ops\<rparr>)" for ops by (simp add: fs_wf_def)
  then show ?thesis
    using flush_entries_wf [of "fs\<lparr>pending := filter (\<lambda>op. \<not> entry_op_in d op) (pending fs)\<rparr>" d _ False] \<open>fs_wf fs\<close>
    unfolding sync_dir_def Let_def case_prod_beta' by (auto simp: fs_wf_def)
qed

lemma fold_modify_keys:
  "imap_keys (fold (\<lambda>(p, off, data, t). imap_modify p (touch_file (write_content off data) t)) ws m) = imap_keys m"
  by (induction ws arbitrary: m) (simp_all add: case_prod_beta')

lemma apply_torn_writes_frame [simp]:
  "persisted_dirs (apply_torn_writes rr bs fs) = persisted_dirs fs"
  "persisted_symlinks (apply_torn_writes rr bs fs) = persisted_symlinks fs"
  "synced_entries (apply_torn_writes rr bs fs) = synced_entries fs"
  "imap_keys (persisted_files (apply_torn_writes rr bs fs)) = imap_keys (persisted_files fs)"
  by (simp_all add: apply_torn_writes_def fold_modify_keys Let_def split: prod.split)

lemma crash_wf: "fs_wf fs \<Longrightarrow> fs_wf (crash rr fs)"
  by (simp add: crash_def fs_wf_def Let_def imap_wf_retain split: option.splits)

section \<open>Which entries survive\<close>

lemma imap_keys_get: "imap_keys m = imap_keys m' \<Longrightarrow> imap_get m k = None \<longleftrightarrow> imap_get m' k = None"
  unfolding map_of_eq_None_iff by (metis list.set_map)

text \<open>
  After a crash exactly the entries whose directory entry was synced are left, each of the
  kind it had on disk: nothing pending survives as an entry, torn writes included.
\<close>

theorem crash_keeps_synced:
  "entry_kind (crash rr fs) p = (if iset_contains (synced_entries fs) p then persisted_kind fs p else None)"
proof -
  define fs1 where "fs1 = (case block_size fs of None \<Rightarrow> fs | Some bs \<Rightarrow> apply_torn_writes rr bs fs)"
  have "imap_get (persisted_files fs1) p = None \<longleftrightarrow> imap_get (persisted_files fs) p = None"
    by (rule imap_keys_get) (simp add: fs1_def split: option.splits)
  moreover have "persisted_dirs fs1 = persisted_dirs fs" "persisted_symlinks fs1 = persisted_symlinks fs"
    "synced_entries fs1 = synced_entries fs" by (simp_all add: fs1_def split: option.splits)
  ultimately show ?thesis
    by (cases "imap_get (persisted_files fs) p"; cases "imap_get (persisted_files fs1) p")
      (simp_all add: entry_kind_def crash_def Let_def persisted_kind_def imap_get_retain_key flip: fs1_def)
qed

section \<open>A synced file keeps its content\<close>

text \<open>A pending operation that does not remove, move or relink the entry at \<open>p\<close>.\<close>

fun undisturbed :: "Path \<Rightarrow> PendingOp \<Rightarrow> bool" where
  "undisturbed p (Rename from to) = (from \<noteq> p \<and> to \<noteq> p)"
| "undisturbed p (CreateHardLink q _ _) = (q \<noteq> p)"
| "undisturbed p (RemoveFile q) = (q \<noteq> p)"
| "undisturbed p (RemoveDir q) = (q \<noteq> p)"
| "undisturbed p _ = True"

definition on_disk :: "'g FsState \<Rightarrow> Path \<Rightarrow> bytes \<Rightarrow> bool" where
  "on_disk fs p c \<longleftrightarrow> (\<exists>f. imap_get (persisted_files fs) p = Some f \<and> content f = c)"

lemma on_disk_frame [simp]:
  "on_disk (fs\<lparr>synced_entries := es\<rparr>) p c = on_disk fs p c"
  "on_disk (fs\<lparr>pending := ops\<rparr>) p c = on_disk fs p c"
  "on_disk (fs\<lparr>persisted_dirs := ds\<rparr>) p c = on_disk fs p c"
  by (simp_all add: on_disk_def)

lemma apply_undisturbed:
  assumes "fs_wf fs" "undisturbed p op" "\<not> data_op_on p op" "on_disk fs p c"
  shows "on_disk (apply_op_to_persisted op fs) p c"
  using assms
  by (cases op) (auto simp: on_disk_def fs_wf_def imap_simps imap_get_swap_remove Let_def touch_file_def
      split: option.splits simp del: map_of_eq_Some_iff)

lemma sync_entry_keeps:
  "\<lbrakk>imap_wf es; undisturbed p op; iset_contains es p\<rbrakk> \<Longrightarrow> iset_contains (snd (sync_entry d op es)) p"
  by (cases op) (auto simp: Let_def imap_simps imap_get_swap_remove imap_wf_swap_remove
      simp del: map_of_eq_Some_iff)

lemma flush_keeps:
  assumes "fs_wf fs" "\<forall>op \<in> set ops. undisturbed p op \<and> \<not> data_op_on p op" "on_disk fs p c"
  shows "on_disk (snd (flush_entries d ops b fs)) p c"
  using assms
proof (induction ops arbitrary: b fs)
  case (Cons op ops)
  obtain m es where es: "sync_entry d op (synced_entries fs) = (m, es)" by fastforce
  have wf: "fs_wf (fs\<lparr>synced_entries := es\<rparr>)"
    using Cons.prems(1) sync_entry_wf [of "synced_entries fs" d op] by (simp add: fs_wf_def es)
  have "on_disk (apply_op_to_persisted op (fs\<lparr>synced_entries := es\<rparr>)) p c"
    using Cons.prems wf by (intro apply_undisturbed) simp_all
  with Cons.IH [OF apply_op_wf [OF wf], of op] Cons.prems(2) show ?case by (simp add: es)
qed simp

fun creates_entry :: "Path \<Rightarrow> PendingOp \<Rightarrow> bool" where
  "creates_entry p (CreateFile q _ _) = (q = p)"
| "creates_entry p _ = False"

lemma flush_synced:
  assumes "fs_wf fs" "\<forall>op \<in> set ops. undisturbed p op" "path_parent p = Some d"
    and "iset_contains (synced_entries fs) p \<or> (\<exists>op \<in> set ops. creates_entry p op)"
  shows "iset_contains (synced_entries (snd (flush_entries d ops b fs))) p"
  using assms
proof (induction ops arbitrary: b fs)
  case (Cons op ops)
  obtain m es where es: "sync_entry d op (synced_entries fs) = (m, es)" by fastforce
  have wf: "fs_wf (fs\<lparr>synced_entries := es\<rparr>)"
    using Cons.prems(1) sync_entry_wf [of "synced_entries fs" d op] by (simp add: fs_wf_def es)
  have "iset_contains es p" if "iset_contains (synced_entries fs) p"
    using that Cons.prems sync_entry_keeps [of "synced_entries fs" p op d] by (simp add: fs_wf_def es)
  moreover have "iset_contains es p" if "creates_entry p op"
    using that es Cons.prems(3) by (cases op) (auto simp: imap_simps)
  ultimately have "iset_contains es p \<or> (\<exists>op \<in> set ops. creates_entry p op)" using Cons.prems(4) by auto
  with Cons.IH [OF apply_op_wf [OF wf], of op] Cons.prems(2,3) show ?case by (simp add: es)
qed simp

lemma fold_data_ops:
  "on_disk fs p c \<Longrightarrow>
    on_disk (fold apply_op_to_persisted (filter (data_op_on p) ops) fs) p (fold (content_step ((=) p)) ops c)"
proof (induction ops arbitrary: fs c)
  case (Cons op ops)
  show ?case
  proof (cases "data_op_on p op")
    case True
    have "on_disk (apply_op_to_persisted op fs) p (content_step ((=) p) op c)"
      using True Cons.prems by (cases op) (auto simp: on_disk_def imap_simps touch_file_def)
    then show ?thesis using Cons.IH True by simp
  next
    case False
    then have "content_step ((=) p) op c = c" by (cases op) auto
    then show ?thesis using Cons False by simp
  qed
qed simp

lemma rename_forward_calm:
  "\<forall>op \<in> set ops. undisturbed p op \<Longrightarrow> rename_forward ops q = p \<longleftrightarrow> q = p"
proof (induction ops arbitrary: q)
  case (Cons op ops)
  then show ?case by (cases op) auto
qed simp

lemma hits_content_calm: "\<forall>op \<in> set (pending fs). undisturbed p op \<Longrightarrow> hits_content fs p = (=) p"
  by (auto simp: hits_content_def path_renamed_to_def rename_forward_calm)

lemma sync_file_on_disk:
  assumes "sync_file fs p = (Inr (), fs1)" "\<forall>op \<in> set (pending fs). undisturbed p op"
  shows "on_disk fs1 p (contents_of fs p)"
    and "pending fs1 = filter (\<lambda>op. \<not> data_op_on p op) (pending fs)"
    and "synced_entries fs1 = synced_entries fs" and "block_size fs1 = block_size fs"
proof -
  obtain t m where fs1: "fs1 = fold apply_op_to_persisted (filter (data_op_on p) (pending fs))
      (fs\<lparr>persisted_files := or_insert p (FileData_with_mode t m) (persisted_files fs),
          pending := filter (\<lambda>op. \<not> data_op_on p op) (pending fs)\<rparr>)"
    using assms(1) by (auto simp: sync_file_def case_prod_beta' Let_def split: if_splits)
  show "on_disk fs1 p (contents_of fs p)"
    unfolding fs1 contents_of_def hits_content_calm [OF assms(2)]
    by (rule fold_data_ops)
      (simp add: on_disk_def persisted_content_def imap_simps FileData_with_mode_def split: option.splits)
qed (use assms(1) in \<open>auto simp: sync_file_def case_prod_beta' Let_def split: if_splits\<close>)

lemma flush_entries_frame [simp]:
  "block_size (snd (flush_entries d ops b fs)) = block_size fs"
  "pending (snd (flush_entries d ops b fs)) = pending fs"
  by (induction d ops b fs rule: flush_entries.induct) (simp_all add: case_prod_beta' Let_def)

lemma sync_dir_on_disk:
  assumes wf: "fs_wf fs" and calm: "\<forall>op \<in> set (pending fs). undisturbed p op \<and> \<not> data_op_on p op"
    and "on_disk fs p c" and "sync_dir fs d t = (Inr (), fs')" and parent: "path_parent p = Some d"
    and entry: "iset_contains (synced_entries fs) p \<or> (\<exists>op \<in> set (pending fs). creates_entry p op)"
  shows "on_disk fs' p c" and "iset_contains (synced_entries fs') p" and "block_size fs' = block_size fs"
proof -
  let ?fs = "fs\<lparr>pending := filter (\<lambda>op. \<not> entry_op_in d op) (pending fs)\<rparr>"
  let ?flushed = "snd (flush_entries d (filter (entry_op_in d) (pending fs)) False ?fs)"
  have wf': "fs_wf ?fs" using wf by (simp add: fs_wf_def)
  have "on_disk ?flushed p c" using wf' calm assms(3) by (intro flush_keeps) auto
  moreover have "creates_entry p op \<Longrightarrow> entry_op_in d op" for op using parent by (cases op) auto
  then have "iset_contains (synced_entries ?flushed) p"
    using wf' calm parent entry by (intro flush_synced) auto
  ultimately show "on_disk fs' p c" "iset_contains (synced_entries fs') p" "block_size fs' = block_size fs"
    using assms(4) by (auto simp: sync_dir_def case_prod_beta' Let_def split: if_splits)
qed

lemma torn_writes_paths:
  "\<forall>op \<in> set ops. \<not> data_op_on p op \<Longrightarrow> \<forall>w \<in> set (fst (torn_writes rr bs synced ops g)). fst w \<noteq> p"
proof (induction ops arbitrary: g)
  case (Cons op ops)
  then show ?case by (cases op) (auto simp: case_prod_beta' Let_def)
qed simp

lemma fold_modify_other:
  "\<forall>w \<in> set ws. fst w \<noteq> p \<Longrightarrow>
    imap_get (fold (\<lambda>(q, off, data, t). imap_modify q (touch_file (write_content off data) t)) ws m) p = imap_get m p"
  by (induction ws arbitrary: m) (auto simp: imap_simps)

lemma torn_keeps:
  "\<forall>op \<in> set (pending fs). \<not> data_op_on p op \<Longrightarrow>
    imap_get (persisted_files (apply_torn_writes rr bs fs)) p = imap_get (persisted_files fs) p"
  using torn_writes_paths [of "pending fs" p rr bs "synced_entries fs" "fs_rng fs"]
  by (auto simp: apply_torn_writes_def Let_def fold_modify_other split: prod.split)

lemma crash_on_disk:
  assumes "on_disk fs p c" "iset_contains (synced_entries fs) p"
    and "block_size fs = None \<or> (\<forall>op \<in> set (pending fs). \<not> data_op_on p op)"
  shows "imap_get (persisted_files (crash rr fs)) p = imap_get (persisted_files fs) p"
  using assms by (auto simp: crash_def Let_def imap_get_retain_key torn_keeps split: option.splits)

text \<open>
  C8. Durability: once a file was synced (\<^verbatim>\<open>sync_all\<close>) and then its parent directory
  (\<^verbatim>\<open>sync_dir\<close>), a crash leaves the file in place with exactly the content it had when it was
  synced, whatever is queued in between (with torn writes enabled: as long as nothing more is
  written to the file itself). The file's entry is new or synced, and no pending operation
  removes, renames or relinks it.
\<close>

theorem synced_file_survives_crash:
  assumes wf: "fs_wf fs" and parent: "path_parent p = Some d"
    and calm: "\<forall>op \<in> set (pending fs). undisturbed p op"
    and entry: "iset_contains (synced_entries fs) p \<or> (\<exists>op \<in> set (pending fs). creates_entry p op)"
    and s1: "sync_file fs p = (Inr (), fs1)" and s2: "sync_dir fs1 d t = (Inr (), fs2)"
    and later: "block_size fs = None \<or> (\<forall>op \<in> set ops. \<not> data_op_on p op)"
  shows "file_exists (crash rr (fs2\<lparr>pending := ops\<rparr>)) p \<and>
    contents_of (crash rr (fs2\<lparr>pending := ops\<rparr>)) p = contents_of fs p"
proof -
  note fs1 = sync_file_on_disk [OF s1 calm]
  have wf1: "fs_wf fs1" using sync_file_wf [OF wf, of p] s1 by simp
  have "iset_contains (synced_entries fs1) p \<or> (\<exists>op \<in> set (pending fs1). creates_entry p op)"
    using entry unfolding fs1(2,3) by (auto, metis creates_entry.simps data_op_on.elims(2))
  with sync_dir_on_disk [OF wf1 _ fs1(1) s2 parent] calm fs1(2,4)
  have fs2: "on_disk fs2 p (contents_of fs p)" "iset_contains (synced_entries fs2) p" "block_size fs2 = block_size fs"
    by auto
  have pend: "pending (crash rr (fs2\<lparr>pending := ops\<rparr>)) = []" by (simp add: crash_def Let_def)
  have "on_disk (crash rr (fs2\<lparr>pending := ops\<rparr>)) p (contents_of fs p)"
    using crash_on_disk [of "fs2\<lparr>pending := ops\<rparr>" p "contents_of fs p" rr] fs2 later by (simp add: on_disk_def)
  then show ?thesis
    using pend by (auto simp: view_def persisted_kind_def contents_of_def persisted_content_def on_disk_def)
qed

section \<open>Torn writes\<close>

fun writes_on :: "Path \<Rightarrow> PendingOp list \<Rightarrow> (nat \<times> bytes) list" where
  "writes_on p [] = []"
| "writes_on p (Write q off data _ # ops) = (if q = p then (off, data) # writes_on p ops else writes_on p ops)"
| "writes_on p (_ # ops) = writes_on p ops"

text \<open>The writes with the number of blocks of each that reached the disk.\<close>

fun torn_content :: "nat \<Rightarrow> (nat \<times> bytes) list \<Rightarrow> nat list \<Rightarrow> bytes \<Rightarrow> bytes" where
  "torn_content bs ((off, data) # ws) (k # ks) c =
     torn_content bs ws ks (if k = 0 then c else write_content off (take (k * bs) data) c)"
| "torn_content bs _ _ c = c"

abbreviation apply_writes :: "(Path \<times> nat \<times> bytes \<times> duration) list \<Rightarrow> (Path, FileData) imap \<Rightarrow> (Path, FileData) imap" where
  "apply_writes ws m \<equiv> fold (\<lambda>(q, off, data, t). imap_modify q (touch_file (write_content off data) t)) ws m"

lemma content_touch_file [simp]: "content (touch_file h t f) = h (content f)"
  by (simp add: touch_file_def)

lemma torn_writes_content:
  assumes "imap_get m p = Some f" "iset_contains synced p"
  shows "\<exists>ks f'. length ks = length (writes_on p ops) \<and>
    imap_get (apply_writes (fst (torn_writes rr bs synced ops g)) m) p = Some f' \<and>
    content f' = torn_content bs (writes_on p ops) ks (content f)"
  using assms
proof (induction ops arbitrary: g m f)
  case Nil
  then show ?case by auto
next
  case (Cons op ops)
  show ?case
  proof (cases op)
    case (Write q off data t)
    let ?total = "(length data + bs - 1) div bs"
    obtain k g1 where k: "rr 0 (?total + 1) g = (k, g1)" by fastforce
    let ?piece = "take (min (k * bs) (length data)) data"
    consider (skip) "\<not> iset_contains synced q \<or> ?total = 0" | (none) "iset_contains synced q" "?total \<noteq> 0" "k = 0"
      | (some) "iset_contains synced q" "?total \<noteq> 0" "k \<noteq> 0" by blast
    then show ?thesis
    proof cases
      case skip
      from Cons.IH [OF Cons.prems, of g] obtain ks f' where
        "length ks = length (writes_on p ops)" "content f' = torn_content bs (writes_on p ops) ks (content f)"
        "imap_get (apply_writes (fst (torn_writes rr bs synced ops g)) m) p = Some f'" by blast
      then show ?thesis using skip
        by (intro exI [of _ "if q = p then 0 # ks else ks"] exI [of _ f']) (auto simp: Write Let_def)
    next
      case none
      from Cons.IH [OF Cons.prems, of g1] obtain ks f' where
        "length ks = length (writes_on p ops)" "content f' = torn_content bs (writes_on p ops) ks (content f)"
        "imap_get (apply_writes (fst (torn_writes rr bs synced ops g1)) m) p = Some f'" by blast
      then show ?thesis using none k
        by (intro exI [of _ "if q = p then 0 # ks else ks"] exI [of _ f']) (auto simp: Write Let_def case_prod_beta')
    next
      case some
      let ?m = "imap_modify q (touch_file (write_content off ?piece) t) m"
      let ?f = "if q = p then touch_file (write_content off ?piece) t f else f"
      have "imap_get ?m p = Some ?f" using Cons.prems(1) by (cases "q = p") (simp_all add: imap_get_modify)
      from Cons.IH [OF this Cons.prems(2), of g1] obtain ks f' where
        "length ks = length (writes_on p ops)" "content f' = torn_content bs (writes_on p ops) ks (content ?f)"
        "imap_get (apply_writes (fst (torn_writes rr bs synced ops g1)) ?m) p = Some f'" by blast
      moreover have "?piece = take (k * bs) data" by (simp add: min_def)
      ultimately show ?thesis using some k
        by (intro exI [of _ "if q = p then k # ks else ks"] exI [of _ f'])
          (auto simp: Write Let_def case_prod_beta')
    qed
  qed (use Cons in simp_all)
qed

lemma persisted_files_torn:
  "persisted_files (apply_torn_writes rr bs fs) =
     apply_writes (fst (torn_writes rr bs (synced_entries fs) (pending fs) (fs_rng fs))) (persisted_files fs)"
  by (simp add: apply_torn_writes_def Let_def split: prod.split)

text \<open>
  C24. Torn writes: with a block size configured, the content of a synced file after a crash is
  its content on disk with a whole number of leading blocks of each pending write applied, in
  the order of the writes; pending truncations are lost.
\<close>

theorem crash_tears_writes:
  assumes "block_size fs = Some bs" "imap_get (persisted_files fs) p = Some f" "iset_contains (synced_entries fs) p"
  shows "\<exists>ks. length ks = length (writes_on p (pending fs)) \<and>
    contents_of (crash rr fs) p = torn_content bs (writes_on p (pending fs)) ks (content f)"
proof -
  obtain ks f' where ks: "length ks = length (writes_on p (pending fs))"
    "imap_get (persisted_files (apply_torn_writes rr bs fs)) p = Some f'"
    "content f' = torn_content bs (writes_on p (pending fs)) ks (content f)"
    using torn_writes_content [OF assms(2,3), of "pending fs" rr bs "fs_rng fs", folded persisted_files_torn]
    by (elim exE conjE) (rule that)
  have "contents_of (crash rr fs) p = content f'"
    using assms(1,3) ks(2)
    by (simp add: contents_of_def crash_def Let_def persisted_content_def imap_get_retain_key)
  then show ?thesis using ks(1,3) by (intro exI [of _ ks]) simp
qed

section \<open>Instances\<close>

text \<open>A new file \<^verbatim>\<open>/b\<close> is created and written, then synced, and its directory with it.\<close>

abbreviation path_b :: Path where
  "path_b \<equiv> [RootDir, Normal ''b'']"

definition new_file_fs :: "unit FsState" where
  "new_file_fs = push_op (Write path_b 1 [7] 9) (push_op (CreateFile path_b 8 0x1A4) demo_fs)"

lemmas durable_simps = new_file_fs_def push_op_def demo_content_simps fs_wf_def or_insert_def touch_file_def
  persisted_kind_def view_def

theorem synced_file_survives_crash_witness:
  "\<exists>fs1 fs2. sync_file new_file_fs path_b = (Inr (), fs1) \<and> sync_dir fs1 [RootDir] 10 = (Inr (), fs2) \<and>
    file_exists (crash (\<lambda>lo hi g. (lo, g)) (fs2\<lparr>pending := [RemoveFile path_b]\<rparr>)) path_b \<and>
    contents_of (crash (\<lambda>lo hi g. (lo, g)) (fs2\<lparr>pending := [RemoveFile path_b]\<rparr>)) path_b = [0, 7]"
proof -
  obtain fs1 where s1: "sync_file new_file_fs path_b = (Inr (), fs1)"
    and fs1: "persisted_dirs fs1 = [([RootDir], DirData_new 0)]" "persisted_files fs1 = [(path_a, (FileData_with_mode 0 0x1A4)\<lparr>content := [1, 2, 3]\<rparr>),
       (path_b, (FileData_with_mode 8 0x1A4)\<lparr>content := [0, 7], mtime := 9, ctime := 9\<rparr>)]"
      "pending fs1 = [Write path_a 2 [9, 9] 5, CreateDir path_d 6 0x1ED, CreateFile path_b 8 0x1A4]"
    by (simp add: sync_file_def durable_simps Let_def)
  have "dir_exists fs1 [RootDir]" by (simp add: view_def persisted_kind_def fs1)
  then obtain fs2 where s2: "sync_dir fs1 [RootDir] 10 = (Inr (), fs2)"
    by (auto simp: sync_dir_def case_prod_beta' Let_def)
  have "contents_of new_file_fs path_b = [0, 7]" by (simp add: contents_of_def durable_simps)
  moreover have "fs_wf new_file_fs" "path_parent path_b = Some [RootDir]"
    "\<forall>op \<in> set (pending new_file_fs). undisturbed path_b op"
    "\<exists>op \<in> set (pending new_file_fs). creates_entry path_b op" "block_size new_file_fs = None"
    by (simp_all add: durable_simps)
  ultimately show ?thesis
    using s1 s2 synced_file_survives_crash [OF _ _ _ _ s1 s2, of "[RemoveFile path_b]" "\<lambda>lo hi g. (lo, g)"] by auto
qed

theorem crash_tears_writes_witness:
  "\<exists>ks. length ks = 1 \<and>
    contents_of (crash (\<lambda>lo hi g. (1, g)) (demo_fs\<lparr>block_size := Some 1\<rparr>)) path_a =
      torn_content 1 [(2, [9, 9])] ks [1, 2, 3]"
  using crash_tears_writes [of "demo_fs\<lparr>block_size := Some 1\<rparr>" 1 path_a
      "(FileData_with_mode 0 0x1A4)\<lparr>content := [1, 2, 3]\<rparr>" "\<lambda>lo hi g. (1, g)"]
  by (simp add: demo_fs_simps)

end
