(* ===== verification/Fs_Shim_Props.thy ===== *)
theory Fs_Shim_Props
  imports Fs_Shim Fs_Durable
begin

text \<open>
  The \<^verbatim>\<open>std::fs\<close> shim: whole-file round trip, injected read faults, and the descriptors.
\<close>

section \<open>Frames\<close>

text \<open>The fault switches and what they do not touch.\<close>

lemma flip_off [simp]: "flip rng 0 fs = (False, fs)"
  by (simp add: flip_def)

lemma maybe_sync_off: "sync_probability fs = 0 \<Longrightarrow> maybe_sync rng p fs = fs"
  by (simp add: maybe_sync_def)

lemma push_op_frame [simp]:
  "open_handles (push_op op fs) = open_handles fs" "next_fd (push_op op fs) = next_fd fs"
  "fs_now (push_op op fs) = fs_now fs" "capacity (push_op op fs) = capacity fs"
  "io_error_probability (push_op op fs) = io_error_probability fs"
  "short_read_probability (push_op op fs) = short_read_probability fs"
  "corruption_probability (push_op op fs) = corruption_probability fs"
  "sync_probability (push_op op fs) = sync_probability fs"
  "persisted_files (push_op op fs) = persisted_files fs" "pending (push_op op fs) = pending fs @ [op]"
  by (simp_all add: push_op_def)

lemma invalidate_frame [simp]:
  "open_handles (invalidate p fs) = open_handles fs" "next_fd (invalidate p fs) = next_fd fs"
  "fs_now (invalidate p fs) = fs_now fs" "capacity (invalidate p fs) = capacity fs"
  "io_error_probability (invalidate p fs) = io_error_probability fs"
  "short_read_probability (invalidate p fs) = short_read_probability fs"
  "corruption_probability (invalidate p fs) = corruption_probability fs"
  "sync_probability (invalidate p fs) = sync_probability fs"
  "persisted_files (invalidate p fs) = persisted_files fs" "pending (invalidate p fs) = pending fs"
  by (simp_all add: invalidate_def)

lemma file_nlink_returns: "resolve_content_path fs p = Some cp \<Longrightarrow> \<exists>n. file_nlink fs p = Some n"
proof (induction fs p cp rule: resolve_content_path.raw_induct [rotated, consumes 1, case_names step])
  case (step f fs p cp)
  show ?case
  proof (cases "resolve_hardlink_target fs p")
    case (Some target)
    then have "f fs target = Some cp" using step.hyps by simp
    from step.IH [OF this] Some show ?thesis by (simp add: file_nlink.simps [of fs p])
  qed (simp add: file_nlink.simps [of fs p])
qed

section \<open>Whole files\<close>

text \<open>No fault injection and no capacity limit.\<close>

definition quiet :: "'g FsState \<Rightarrow> bool" where
  "quiet fs \<longleftrightarrow> io_error_probability fs = 0 \<and> short_read_probability fs = 0 \<and>
     corruption_probability fs = 0 \<and> sync_probability fs = 0 \<and> capacity fs = None"

definition room_for_fds :: "nat \<Rightarrow> 'g FsState \<Rightarrow> bool" where
  "room_for_fds n fs \<longleftrightarrow> next_fd fs + n < 2 ^ 31"

text \<open>The state of a host's file system up to its descriptors.\<close>

definition same_disk :: "'g FsState \<Rightarrow> 'g FsState \<Rightarrow> bool" where
  "same_disk fs fs' \<longleftrightarrow> pending fs' = pending fs \<and> persisted_files fs' = persisted_files fs \<and>
     persisted_dirs fs' = persisted_dirs fs \<and> persisted_symlinks fs' = persisted_symlinks fs"

lemma same_disk_view: "same_disk fs fs' \<Longrightarrow> view fs' = view fs"
proof -
  assume same: "same_disk fs fs'"
  then have "persisted_kind fs' = persisted_kind fs" by (intro ext) (simp add: same_disk_def persisted_kind_def)
  with same show ?thesis by (simp add: same_disk_def view_def)
qed

lemma same_disk_contents: "same_disk fs fs' \<Longrightarrow> contents_of fs' cp = contents_of fs cp"
  by (rule contents_of_cong) (simp_all add: same_disk_def)

lemma same_disk_resolve:
  "same_disk fs fs' \<Longrightarrow> resolve_content_path fs p = Some cp \<Longrightarrow> resolve_content_path fs' p = Some cp"
  by (rule resolve_cong [of fs' fs]) (simp_all add: same_disk_def)

lemma same_disk_resolve_eq: "same_disk fs fs' \<Longrightarrow> resolve_content_path fs' p = resolve_content_path fs p"
proof -
  assume same: "same_disk fs fs'"
  then have "same_disk fs' fs" by (simp add: same_disk_def)
  with same show ?thesis
    by (cases "resolve_content_path fs p"; cases "resolve_content_path fs' p")
      (metis same_disk_resolve option.distinct(1))+
qed

lemma same_disk_read:
  assumes "same_disk fs fs'"
  shows "read_file fs' p = read_file fs p"
proof -
  have "hits_content fs' = hits_content fs"
    using assms by (intro ext) (simp add: same_disk_def hits_content_def path_renamed_to_def)
  moreover have "persisted_content fs' = persisted_content fs"
    using assms by (intro ext) (simp add: same_disk_def persisted_content_def)
  ultimately have "file_len fs' p = file_len fs p"
    using assms same_disk_resolve_eq [OF assms, of p] by (simp add: file_len_def same_disk_def)
  then show ?thesis
    using assms same_disk_resolve_eq [OF assms, of p] \<open>hits_content fs' = hits_content fs\<close>
    by (intro ext) (simp add: read_file_def same_disk_def Let_def cong: if_cong option.case_cong)
qed

lemma register_fd_facts:
  assumes "room_for_fds 1 fs"
  shows "\<exists>fs'. register_fd fs p d = Some (next_fd fs, fs') \<and> same_disk fs fs' \<and>
    imap_get (open_handles fs') (next_fd fs) = Some p \<and> next_fd fs' = next_fd fs + 1 \<and>
    quiet fs' = quiet fs \<and> fs_now fs' = fs_now fs"
  using assms
  by (simp add: register_fd_def alloc_fd_def room_for_fds_def same_disk_def quiet_def imap_simps Let_def)

lemma File_drop_same_disk [simp]: "same_disk fs (File_drop h fs)"
  by (simp add: same_disk_def File_drop_def)

text \<open>\<^verbatim>\<open>File::create\<close> on a path that is a file or may become one: the content is emptied.\<close>

lemma File_create_facts:
  assumes "room_for_fds 1 fs" "\<not> symlink_exists fs p" "file_exists fs p \<or> parent_exists fs p"
    and cp: "resolve_content_path fs p = Some p"
  shows "\<exists>h fs'. File_create fs p = Some (Inr h, fs') \<and> writable h \<and> \<not> direct_io h \<and>
    imap_get (open_handles fs') (fd h) = Some p \<and> view fs' p = Some File \<and>
    resolve_content_path fs' p = Some p \<and> contents_of fs' p = [] \<and>
    next_fd fs' = next_fd fs + 1 \<and> quiet fs' = quiet fs"
proof -
  define fs1 where "fs1 = (if file_exists fs p then fs else create_file_with_mode fs p (fs_now fs) 0x1A4)"
  define fs2 where "fs2 = set_file_len fs1 p 0 (fs_now fs)"
  have cp1: "resolve_content_path fs1 p = Some p"
    using cp by (simp add: fs1_def create_file_with_mode_def resolve_push)
  then have "resolve_content_path (invalidate p fs1) p = Some p" by (rule resolve_cong [rotated]) simp
  then have cp2: "resolve_content_path fs2 p = Some p" by (simp add: fs2_def set_file_len_def resolve_push)
  have con2: "contents_of fs2 p = []"
    by (simp add: fs2_def set_file_len_def contents_of_push hits_content_def resize_def)
  have view2: "view fs2 p = Some File"
    by (simp add: fs2_def set_file_len_def fs1_def create_file_with_mode_def)
  have rest: "room_for_fds 1 fs2" "next_fd fs2 = next_fd fs" "quiet fs2 = quiet fs"
    using assms(1) by (simp_all add: fs2_def fs1_def set_file_len_def create_file_with_mode_def room_for_fds_def quiet_def)
  from register_fd_facts [OF rest(1), of p False] obtain fs3 where fs3:
    "register_fd fs2 p False = Some (next_fd fs2, fs3)" "same_disk fs2 fs3"
    "imap_get (open_handles fs3) (next_fd fs2) = Some p" "next_fd fs3 = next_fd fs2 + 1" "quiet fs3 = quiet fs2"
    by auto
  have "File_create fs p = Option.bind (register_fd fs2 p False)
      (\<lambda>(n, fs'). Some (Inr (FileHandle_from_parts n False True False False), fs'))"
    using assms(2,3) unfolding fs2_def fs1_def
    by (auto simp add: File_create_def open_file_def follow_def OpenOptions_new_def O_DIRECT_def)
  with fs3(1) have "File_create fs p = Some (Inr (FileHandle_from_parts (next_fd fs2) False True False False), fs3)"
    by simp
  moreover have "resolve_content_path fs3 p = Some p" using same_disk_resolve [OF fs3(2) cp2] .
  moreover have "contents_of fs3 p = []" using con2 same_disk_contents [OF fs3(2)] by simp
  ultimately show ?thesis
    using fs3 rest view2 same_disk_view [OF fs3(2)] by (auto simp: FileHandle_from_parts_def)
qed

lemma read_path_returns:
  assumes "room_for_fds 1 fs" "quiet fs" "view fs p = Some File"
    and cp: "resolve_content_path fs p = Some p"
    and whole: "contents_of fs p \<noteq> [] \<Longrightarrow>
      read_file fs p (replicate (length (contents_of fs p)) 0) 0 = Some (length (contents_of fs p), contents_of fs p)"
  shows "\<exists>fs'. read_path rng ptr fs p = Some (Inr (contents_of fs p), fs')"
proof -
  from register_fd_facts [OF assms(1), of p False] obtain fs1 where fs1:
    "register_fd fs p False = Some (next_fd fs, fs1)" "same_disk fs fs1"
    "imap_get (open_handles fs1) (next_fd fs) = Some p" "quiet fs1 = quiet fs" by auto
  define h where "h = FileHandle_from_parts (next_fd fs) True False False False"
  have "File_open fs p = Option.bind (register_fd fs p False)
      (\<lambda>(n, fs'). Some (Inr (FileHandle_from_parts n True False False False), fs'))"
    using assms(3) by (simp add: File_open_def open_file_def follow_def OpenOptions_new_def O_DIRECT_def)
  with fs1(1) have op: "File_open fs p = Some (Inr h, fs1)" by (simp add: h_def)
  have cp1: "resolve_content_path fs1 p = Some p" using fs1(2) cp by (rule same_disk_resolve)
  have con1: "contents_of fs1 p = contents_of fs p" using fs1(2) by (rule same_disk_contents)
  obtain links where "file_nlink fs1 p = Some links" using file_nlink_returns [OF cp1] by blast
  then obtain m where m: "handle_metadata h fs1 = Some (Inr m)" "md_len m = length (contents_of fs p)"
    using fs1(3) file_len_contents [OF cp1] con1
    by (auto simp: handle_metadata_def file_metadata_def h_def FileHandle_from_parts_def metadata_of_def split: prod.splits)
  show ?thesis
  proof (cases "contents_of fs p = []")
    case True
    then show ?thesis using op m by (simp add: read_path_def)
  next
    case False
    have "read_file fs1 p = read_file fs p" using fs1(2) by (rule same_disk_read)
    with whole [OF False] fs1 assms(2) have
      "read_at_internal rng h fs1 ptr (replicate (length (contents_of fs p)) 0) 0 =
        Some (Inr (length (contents_of fs p)), contents_of fs p, fs1)"
      by (simp add: read_at_internal_def h_def FileHandle_from_parts_def misaligned_def quiet_def shorten_def corrupt_def)
    then show ?thesis using op m False by (simp add: read_path_def)
  qed
qed



section \<open>Injected read faults\<close>

text \<open>What the random number crate documents of a bounded draw.\<close>

definition draws_in_range :: "'g Rng \<Rightarrow> bool" where
  "draws_in_range rng \<longleftrightarrow> (\<forall>lo hi g. lo < hi \<longrightarrow> lo \<le> fst (random_range rng lo hi g) \<and> fst (random_range rng lo hi g) < hi)"

lemma flip_frame [simp]:
  "open_handles (snd (flip rng pr fs)) = open_handles fs" "corruptions (snd (flip rng pr fs)) = corruptions fs"
  "pending (snd (flip rng pr fs)) = pending fs" "persisted_files (snd (flip rng pr fs)) = persisted_files fs"
  "persisted_dirs (snd (flip rng pr fs)) = persisted_dirs fs"
  "persisted_symlinks (snd (flip rng pr fs)) = persisted_symlinks fs"
  by (simp_all add: flip_def Let_def split: prod.split)

lemma xor_nonzero: "y \<noteq> 0 \<Longrightarrow> xor x y \<noteq> (x :: 8 word)"
  by (metis bit.xor_left_self bit.xor_self)

lemma max_one_nonzero: "max (b :: 8 word) 1 \<noteq> 0"
  by (simp add: max_def) (metis word_zero_le order_antisym zero_neq_one)

lemma shorten_facts:
  assumes "draws_in_range rng" "shorten rng n buf fs = (n', buf', fs')" "n \<le> length buf"
  shows "n' \<le> n" "0 < n \<Longrightarrow> 0 < n'" "take n' buf' = take n' buf" "n' \<le> length buf'" "corruptions fs' = corruptions fs"
proof -
  have rr: "1 < n \<Longrightarrow> 1 \<le> fst (random_range rng 1 n g) \<and> fst (random_range rng 1 n g) < n" for g
    using assms(1) by (simp add: draws_in_range_def)
  have "n' \<le> n \<and> (0 < n \<longrightarrow> 0 < n') \<and> take n' buf' = take n' buf \<and> n' \<le> length buf' \<and> corruptions fs' = corruptions fs"
  proof (cases "n \<le> 1 \<or> \<not> fst (flip rng (short_read_probability fs) fs)")
    case True
    then show ?thesis using assms(2,3) by (auto simp: shorten_def case_prod_beta' Let_def split: if_splits)
  next
    case False
    define k where "k = fst (random_range rng 1 n (fs_rng (snd (flip rng (short_read_probability fs) fs))))"
    have "1 \<le> k" "k < n" using rr False unfolding k_def by auto
    moreover have "n' = k" "buf' = blit k (replicate (n - k) 0) buf" "corruptions fs' = corruptions fs"
      using assms(2) False unfolding k_def by (auto simp: shorten_def case_prod_beta' Let_def)
    ultimately show ?thesis using assms(3) by (simp add: blit_def)
  qed
  then show "n' \<le> n" "0 < n \<Longrightarrow> 0 < n'" "take n' buf' = take n' buf" "n' \<le> length buf'" "corruptions fs' = corruptions fs"
    by auto
qed

lemma corrupt_facts:
  assumes "draws_in_range rng" "corrupt rng path offset n buf fs = (buf', fs')" "n \<le> length buf"
  shows "buf' = buf \<and> corruptions fs' = corruptions fs \<or>
    (\<exists>i < n. buf' = buf[i := buf' ! i] \<and> buf' ! i \<noteq> buf ! i \<and>
       corruptions fs' = corruptions fs @ [\<lparr>cor_path = path, cor_offset = offset + i, cor_len = 1\<rparr>])"
proof (cases "n = 0 \<or> \<not> fst (flip rng (corruption_probability fs) fs)")
  case True
  then show ?thesis using assms(2) by (auto simp: corrupt_def case_prod_beta' Let_def split: if_splits)
next
  case False
  define fs1 where "fs1 = snd (flip rng (corruption_probability fs) fs)"
  define i where "i = fst (random_range rng 0 n (fs_rng fs1))"
  define b where "b = fst (random_u8 rng (snd (random_range rng 0 n (fs_rng fs1))))"
  have i: "i < n" using False assms(1) by (simp add: draws_in_range_def i_def)
  have "buf' = buf[i := xor (buf ! i) (max b 1)]"
    "corruptions fs' = corruptions fs @ [\<lparr>cor_path = path, cor_offset = offset + i, cor_len = 1\<rparr>]"
    using assms(2) False unfolding i_def b_def fs1_def by (auto simp: corrupt_def case_prod_beta' Let_def)
  then show ?thesis
    using i assms(3) xor_nonzero [OF max_one_nonzero, of "buf ! i" b] by (intro disjI2 exI [of _ i]) simp
qed

lemma read_file_bound: "read_file fs p buf offset = Some (k, full) \<Longrightarrow> k \<le> length full"
  by (auto simp: read_file_def Let_def bind_eq_Some_conv length_persisted_region split: if_splits)

text \<open>
  C26. Injected read faults stay within their contract. Whatever the probabilities, a read that
  succeeds returns no more bytes than the file has to give, reports zero bytes only at the end
  of the file, and its bytes are those of the file, except that at most one byte is silently
  corrupted; then that byte really differs and the corruption is reported with its exact path
  and offset, and nothing is reported otherwise.
\<close>

theorem read_faults_contained:
  assumes rng: "draws_in_range rng"
    and read: "read_at_internal rng h fs ptr buf offset = Some (Inr n, buf', fs')"
  shows "\<exists>path k full. imap_get (open_handles fs) (fd h) = Some path \<and>
    read_file fs path buf offset = Some (k, full) \<and> n \<le> k \<and> (n = 0 \<longrightarrow> k = 0) \<and>
    (take n buf' = take n full \<and> corruptions fs' = corruptions fs \<or>
     (\<exists>i < n. take n buf' = (take n full)[i := buf' ! i] \<and> buf' ! i \<noteq> full ! i \<and>
        corruptions fs' = corruptions fs @ [\<lparr>cor_path = path, cor_offset = offset + i, cor_len = 1\<rparr>]))"
proof -
  define fs1 where "fs1 = snd (flip rng (io_error_probability fs) fs)"
  have same: "same_disk fs fs1" by (simp add: same_disk_def fs1_def)
  obtain path k full buf2 fs2 where *: "imap_get (open_handles fs) (fd h) = Some path"
    "read_file fs path buf offset = Some (k, full)" "shorten rng k full fs1 = (n, buf2, fs2)"
    "corrupt rng path offset n buf2 fs2 = (buf', fs')"
  proof -
    have "imap_get (open_handles fs) (fd h) \<noteq> None"
      using read by (auto simp: read_at_internal_def case_prod_beta' Let_def split: if_splits option.splits)
    then obtain path where path: "imap_get (open_handles fs) (fd h) = Some path" by blast
    obtain k full where kf: "read_file fs path buf offset = Some (k, full)"
      using read path same_disk_read [OF same, of path]
      by (auto simp: read_at_internal_def case_prod_beta' Let_def fs1_def bind_eq_Some_conv split: if_splits)
    obtain n2 buf2 fs2 where sh: "shorten rng k full fs1 = (n2, buf2, fs2)" by (cases "shorten rng k full fs1") auto
    obtain buf3 fs3 where co: "corrupt rng path offset n2 buf2 fs2 = (buf3, fs3)"
      by (cases "corrupt rng path offset n2 buf2 fs2") auto
    have "n2 = n \<and> buf3 = buf' \<and> fs3 = fs'"
      using read path kf sh co same_disk_read [OF same, of path]
      by (auto simp: read_at_internal_def case_prod_beta' Let_def fs1_def split: if_splits)
    with path kf sh co that show thesis by blast
  qed
  note short = shorten_facts [OF rng *(3) read_file_bound [OF *(2)]]
  have cor: "corruptions fs1 = corruptions fs" by (simp add: fs1_def)
  have zero: "n = 0 \<longrightarrow> k = 0" using short(2) by (cases k) auto
  from corrupt_facts [OF rng *(4) short(4)]
  have "take n buf' = take n full \<and> corruptions fs' = corruptions fs \<or>
     (\<exists>i < n. take n buf' = (take n full)[i := buf' ! i] \<and> buf' ! i \<noteq> full ! i \<and>
        corruptions fs' = corruptions fs @ [\<lparr>cor_path = path, cor_offset = offset + i, cor_len = 1\<rparr>])"
  proof
    assume "buf' = buf2 \<and> corruptions fs' = corruptions fs2"
    then show ?thesis using short cor by simp
  next
    assume "\<exists>i < n. buf' = buf2[i := buf' ! i] \<and> buf' ! i \<noteq> buf2 ! i \<and>
      corruptions fs' = corruptions fs2 @ [\<lparr>cor_path = path, cor_offset = offset + i, cor_len = 1\<rparr>]"
    then obtain i where i: "i < n" "buf' = buf2[i := buf' ! i]" "buf' ! i \<noteq> buf2 ! i"
      "corruptions fs' = corruptions fs2 @ [\<lparr>cor_path = path, cor_offset = offset + i, cor_len = 1\<rparr>]" by blast
    have "take n buf' = (take n full)[i := buf' ! i]" by (subst i(2)) (simp add: take_update_swap short(3))
    moreover have "buf2 ! i = full ! i" using short(3) i(1) by (metis nth_take)
    ultimately show ?thesis using i short(5) cor by auto
  qed
  with *(1,2) short(1) zero show ?thesis by blast
qed

theorem read_faults_contained_witness:
  "let rng = \<lparr>random_bool = (\<lambda>_ g. (True, g)), random_range = (\<lambda>lo _ g. (lo, g)), random_u8 = (\<lambda>g. (0, g))\<rparr>;
       fs = demo_fs\<lparr>open_handles := [(SIM_FD_BASE, path_a)], corruption_probability := 1\<rparr>;
       h = FileHandle_from_parts SIM_FD_BASE True False False False
   in draws_in_range rng \<and> (\<exists>fs'. read_at_internal rng h fs 0 [0, 0] 1 = Some (Inr 2, [3, 9], fs') \<and>
      (take 2 [3, 9] = take 2 [2, 9] \<and> corruptions fs' = [] \<or>
       (\<exists>i < 2. take 2 [3, 9] = (take 2 [2, 9])[i := [3, 9 :: 8 word] ! i] \<and> [3, 9] ! i \<noteq> [2, 9 :: 8 word] ! i \<and>
          corruptions fs' = [\<lparr>cor_path = path_a, cor_offset = 1 + i, cor_len = 1\<rparr>])))"
proof -
  define rng :: "unit Rng" where
    "rng = \<lparr>random_bool = (\<lambda>_ g. (True, g)), random_range = (\<lambda>lo _ g. (lo, g)), random_u8 = (\<lambda>g. (0, g))\<rparr>"
  define fs where "fs = demo_fs\<lparr>open_handles := [(SIM_FD_BASE, path_a)], corruption_probability := 1\<rparr>"
  define h where "h = FileHandle_from_parts SIM_FD_BASE True False False False"
  have rng: "draws_in_range rng" by (simp add: draws_in_range_def rng_def)
  have same: "same_disk demo_fs fs" by (simp add: same_disk_def fs_def)
  have con: "contents_of demo_fs path_a = [1, 2, 9, 9]" by (simp add: contents_of_def demo_content_simps)
  have rd: "read_file fs path_a [0, 0] 1 = Some (2, [2, 9])"
    unfolding same_disk_read [OF same]
    by (simp add: read_file_def file_len_contents [OF demo_content_path] con demo_content_path Let_def)
      (simp add: demo_content_simps)
  obtain fs' where r: "read_at_internal rng h fs 0 [0, 0] 1 = Some (Inr 2, [3, 9], fs')"
    using rd by (auto simp: read_at_internal_def fs_def h_def FileHandle_from_parts_def demo_fs_simps misaligned_def
        shorten_def corrupt_def flip_def rng_def Let_def max_def)
  from read_faults_contained [OF rng r] rd have
    "take 2 [3, 9] = take 2 [2, 9 :: 8 word] \<and> corruptions fs' = corruptions fs \<or>
     (\<exists>i < 2. take 2 [3, 9] = (take 2 [2, 9])[i := [3, 9 :: 8 word] ! i] \<and> [3, 9] ! i \<noteq> [2, 9 :: 8 word] ! i \<and>
        corruptions fs' = corruptions fs @ [\<lparr>cor_path = path_a, cor_offset = 1 + i, cor_len = 1\<rparr>])"
    by (auto simp: fs_def h_def FileHandle_from_parts_def)
  moreover have "corruptions fs = []" by (simp add: fs_def demo_fs_simps)
  ultimately show ?thesis using rng r unfolding rng_def fs_def h_def Let_def by auto
qed

end
