(* ===== verification/Fs_Run.thy ===== *)
theory Fs_Run
  imports Fs_Shim_Props
begin

text \<open>
  A host's file system as a transition system over the calls of the \<^verbatim>\<open>std::fs\<close> shim: every call
  returns and keeps the invariant, as long as no pending chain of hard links is closed into a
  cycle and the descriptor counter has not run out.
\<close>

section \<open>Hard links that lead somewhere\<close>

definition links :: "PendingOp list \<Rightarrow> (Path \<times> Path) set" where
  "links ops = {(p, t). \<exists>time. CreateHardLink p t time \<in> set ops}"

lemma links_simps [simp]:
  "links [] = {}"
  "links (op # ops) = (case op of CreateHardLink p t _ \<Rightarrow> insert (p, t) (links ops) | _ \<Rightarrow> links ops)"
  by (auto simp: links_def split: PendingOp.splits)

lemma links_append [simp]: "links (xs @ ys) = links xs \<union> links ys"
  by (auto simp: links_def)

lemma links_filter: "links (filter P ops) \<subseteq> links ops"
  by (auto simp: links_def)

lemma finite_links: "finite (links ops)"
proof (induction ops)
  case (Cons op ops)
  then show ?case by (cases op) simp_all
qed simp

lemma link_target_links: "link_target ops p = Some t \<Longrightarrow> (p, t) \<in> links ops"
proof (induction ops)
  case (Cons op ops)
  then show ?case by (cases op) (auto split: if_splits)
qed simp

lemma resolve_total:
  assumes "acyclic (links (pending fs))"
  shows "\<exists>cp. resolve_content_path fs p = Some cp"
proof -
  have "wf ((links (pending fs))\<inverse>)" using finite_links assms by (rule finite_acyclic_wf_converse)
  then show ?thesis
  proof (induction p rule: wf_induct_rule)
    case (less p)
    show ?case
    proof (cases "resolve_hardlink_target fs p")
      case None
      then show ?thesis by (simp add: resolve_content_path.simps [of fs p])
    next
      case (Some t)
      then have "(t, p) \<in> (links (pending fs))\<inverse>"
        by (simp add: resolve_hardlink_target_def link_target_links)
      from less [OF this] Some show ?thesis by (simp add: resolve_content_path.simps [of fs p])
    qed
  qed
qed

section \<open>The invariant\<close>

definition fds_ok :: "'g FsState \<Rightarrow> bool" where
  "fds_ok fs \<longleftrightarrow> imap_wf (open_handles fs) \<and> imap_wf (direct_io_fds fs) \<and>
     fst ` set (open_handles fs) \<subseteq> {SIM_FD_BASE ..< next_fd fs} \<and>
     fst ` set (direct_io_fds fs) \<subseteq> fst ` set (open_handles fs) \<and>
     SIM_FD_BASE \<le> next_fd fs \<and> next_fd fs < 2 ^ 31"

definition fs_inv :: "'g FsState \<Rightarrow> bool" where
  "fs_inv fs \<longleftrightarrow> fs_wf fs \<and> fds_ok fs \<and> acyclic (links (pending fs))"

lemma fds_frame [simp]:
  "fds_ok (fs\<lparr>pending := ops\<rparr>) = fds_ok fs" "fds_ok (fs\<lparr>persisted_dirs := ds\<rparr>) = fds_ok fs"
  "fds_ok (fs\<lparr>persisted_files := m\<rparr>) = fds_ok fs" "fds_ok (fs\<lparr>synced_entries := es\<rparr>) = fds_ok fs"
  by (simp_all add: fds_ok_def)

lemma inv_push: "\<lbrakk>fs_inv fs; \<forall>p t m. op \<noteq> CreateHardLink p t m\<rbrakk> \<Longrightarrow> fs_inv (push_op op fs)"
  by (cases op) (simp_all add: fs_inv_def fs_wf_def fds_ok_def push_op_def)

lemma inv_invalidate: "fs_inv fs \<Longrightarrow> fs_inv (invalidate p fs)"
  by (simp add: fs_inv_def fs_wf_def fds_ok_def invalidate_def)

lemma inv_push_link:
  assumes "fs_inv fs" "p \<noteq> t" "p \<notin> snd ` links (pending fs)"
  shows "fs_inv (push_op (CreateHardLink p t m) fs)"
proof -
  have "(t, p) \<notin> (links (pending fs))\<^sup>*"
    using assms(2,3) by (metis image_eqI rtranclE snd_conv)
  then have "acyclic (insert (p, t) (links (pending fs)))"
    using assms(1) by (simp add: fs_inv_def acyclic_insert)
  then show ?thesis using assms(1) by (simp add: fs_inv_def fs_wf_def fds_ok_def push_op_def)
qed

lemma inv_rng [simp]:
  "fs_inv (fs\<lparr>fs_rng := g\<rparr>) = fs_inv fs" "fs_inv (fs\<lparr>corruptions := cs\<rparr>) = fs_inv fs"
  by (simp_all add: fs_inv_def fs_wf_def fds_ok_def)

lemma inv_flip: "fs_inv fs \<Longrightarrow> fs_inv (snd (flip rng pr fs))"
  by (simp add: flip_def Let_def split: prod.split)

lemma map_err_snd [simp]: "snd (map_err k r) = snd r"
  by (simp add: map_err_def)

section \<open>Each call keeps it\<close>

lemma inv_mkdir_with_mode: "fs_inv fs \<Longrightarrow> fs_inv (snd (mkdir_with_mode fs p t m))"
  by (simp add: mkdir_with_mode_def inv_push)

lemma inv_rmdir: "fs_inv fs \<Longrightarrow> fs_inv (snd (rmdir fs p))"
  by (simp add: rmdir_def inv_push)

lemma inv_unlink: "fs_inv fs \<Longrightarrow> fs_inv (snd (unlink fs p))"
  by (simp add: unlink_def inv_push inv_invalidate)

lemma inv_rename: "fs_inv fs \<Longrightarrow> fs_inv (snd (rename fs p q))"
  by (simp add: rename_def inv_push)

lemma inv_create_symlink: "fs_inv fs \<Longrightarrow> fs_inv (snd (create_symlink fs p q t))"
  by (simp add: create_symlink_def inv_push)

lemma inv_set_permissions: "fs_inv fs \<Longrightarrow> fs_inv (snd (set_permissions fs p m t))"
  by (simp add: set_permissions_def inv_push)

lemma inv_create_hard_link:
  "\<lbrakk>fs_inv fs; p \<notin> snd ` links (pending fs)\<rbrakk> \<Longrightarrow> fs_inv (snd (create_hard_link fs p t m))"
  by (auto simp: create_hard_link_def intro!: inv_push_link)

lemma inv_set_file_len: "fs_inv fs \<Longrightarrow> fs_inv (set_file_len fs p n t)"
  by (simp add: set_file_len_def inv_push inv_invalidate)

lemma inv_write_file: "fs_inv fs \<Longrightarrow> fs_inv (write_file fs p off d t)"
  by (simp add: write_file_def inv_push)

lemma fold_apply_fds [simp]: "fds_ok (fold apply_op_to_persisted ops fs) = fds_ok fs"
proof (induction ops arbitrary: fs)
  case (Cons op ops)
  have "fds_ok (apply_op_to_persisted op fs) = fds_ok fs"
    by (cases op) (simp_all add: fds_ok_def Let_def split: option.split)
  with Cons show ?case by simp
qed simp

lemma inv_sync_file: "fs_inv fs \<Longrightarrow> fs_inv (snd (sync_file fs p))"
proof -
  assume inv: "fs_inv fs"
  have "acyclic (links (filter (\<lambda>op. \<not> data_op_on p op) (pending fs)))"
    using inv by (auto simp: fs_inv_def intro: acyclic_subset [OF _ links_filter])
  then show ?thesis
    using inv sync_file_wf [of fs p] unfolding fs_inv_def sync_file_def Let_def case_prod_beta' by simp
qed

lemma sync_file_data_eq: "sync_file_data fs p = sync_file fs p"
  by (simp add: sync_file_def sync_file_data_def)

lemma flush_entries_fds [simp]: "fds_ok (snd (flush_entries d ops b fs)) = fds_ok fs"
proof (induction ops arbitrary: b fs)
  case (Cons op ops)
  obtain m es where es: "sync_entry d op (synced_entries fs) = (m, es)" by fastforce
  have "fds_ok (apply_op_to_persisted op (fs\<lparr>synced_entries := es\<rparr>)) = fds_ok fs"
    using fold_apply_fds [of "[op]" "fs\<lparr>synced_entries := es\<rparr>"] by (simp add: fds_ok_def)
  with Cons show ?case by (simp add: es)
qed simp

lemma inv_sync_dir: "fs_inv fs \<Longrightarrow> fs_inv (snd (sync_dir fs d t))"
proof -
  assume inv: "fs_inv fs"
  have "acyclic (links (filter (\<lambda>op. \<not> entry_op_in d op) (pending fs)))"
    using inv by (auto simp: fs_inv_def intro: acyclic_subset [OF _ links_filter])
  then show ?thesis
    using inv sync_dir_wf [of fs d t] unfolding fs_inv_def sync_dir_def Let_def case_prod_beta' by simp
qed

lemma inv_crash: "fs_inv fs \<Longrightarrow> fs_inv (crash rr fs)"
proof -
  assume inv: "fs_inv fs"
  have "fds_ok (apply_torn_writes rr bs fs) = fds_ok fs" for bs
    by (simp add: apply_torn_writes_def fds_ok_def Let_def split: prod.split)
  then have "fds_ok (crash rr fs) = fds_ok fs"
    by (auto simp: crash_def fds_ok_def Let_def split: option.split)
  moreover have "pending (crash rr fs) = []" by (simp add: crash_def Let_def)
  ultimately show ?thesis using inv crash_wf [of fs rr] by (simp add: fs_inv_def acyclic_def)
qed

lemma inv_maybe_sync: "fs_inv fs \<Longrightarrow> fs_inv (maybe_sync rng p fs)"
  using inv_flip [of fs rng "sync_probability fs"]
  by (simp add: maybe_sync_def case_prod_beta' Let_def inv_sync_file)

lemma alloc_register:
  assumes inv: "fs_inv fs" and room: "room_for_fds 1 fs"
  shows "\<exists>fs'. register_fd fs p d = Some (next_fd fs, fs') \<and> fs_inv fs'"
proof -
  have wider: "{SIM_FD_BASE ..< next_fd fs} \<subseteq> {SIM_FD_BASE ..< Suc (next_fd fs)}" by auto
  let ?fs = "fs\<lparr>next_fd := next_fd fs + 1, open_handles := imap_insert (next_fd fs) p (open_handles fs)\<rparr>"
  have "fds_ok ?fs" "fds_ok (?fs\<lparr>direct_io_fds := iset_insert (next_fd fs) (direct_io_fds fs)\<rparr>)"
    using inv room wider by (auto simp: fs_inv_def fds_ok_def room_for_fds_def imap_wf_insert dom_update)
  then show ?thesis
    using inv room by (simp add: register_fd_def alloc_fd_def room_for_fds_def fs_inv_def fs_wf_def Let_def)
qed

lemma inv_create_missing:
  assumes mk: "\<And>fs1 d. fs_inv fs1 \<Longrightarrow> fs_inv (snd (mk fs1 d))" and "fs_inv fs"
  shows "fs_inv (snd (create_missing mk ds fs))"
  using assms(2)
proof (induction ds arbitrary: fs)
  case (Cons d ds)
  then show ?case using mk [of fs d] by (auto split: prod.splits sum.splits)
qed simp

lemma register_returns:
  "\<lbrakk>fs_inv fs; room_for_fds 1 fs\<rbrakk> \<Longrightarrow> returns (register_fd fs p d) (\<lambda>(n, fs'). fs_inv fs')"
  using alloc_register [of fs p d] by auto

lemma inv_open_file:
  fixes fs :: "'g FsState"
  assumes "fs_inv fs" "room_for_fds 1 fs"
  shows "returns (open_file opts fs p) (\<lambda>(r, fs'). fs_inv fs')"
proof -
  have created: "fs_inv (create_file_with_mode fs q t m) \<and> room_for_fds 1 (create_file_with_mode fs q t m)" for q t m
    using assms by (simp add: create_file_with_mode_def inv_push room_for_fds_def)
  have truncated: "fs_inv (set_file_len fs1 q 0 t) \<and> room_for_fds 1 (set_file_len fs1 q 0 t)"
    if "fs_inv fs1 \<and> room_for_fds 1 fs1" for fs1 :: "'g FsState" and q t
    using that by (simp add: inv_set_file_len room_for_fds_def) (simp add: set_file_len_def)
  have registered: "returns (register_fd fs1 q d)
      (\<lambda>x. returns (case x of (n, fs2) \<Rightarrow> Some (g n, fs2)) (\<lambda>(r, fs'). fs_inv fs'))"
    if "fs_inv fs1 \<and> room_for_fds (Suc 0) fs1" for fs1 :: "'g FsState" and q d and g :: "nat \<Rightarrow> FileHandle io_result"
    using register_returns [of fs1 q d] that by (auto elim: returns_mono)
  show ?thesis
    unfolding open_file_def Let_def using assms created truncated
    by (auto split: sum.split intro!: registered)
qed

lemma dom_swap_remove: "imap_wf m \<Longrightarrow> fst ` set (imap_swap_remove k m) = fst ` set m - {k}"
  by (simp add: set_imap_swap_remove) force

lemma inv_drop: "fs_inv fs \<Longrightarrow> fs_inv (File_drop h fs)"
  unfolding fs_inv_def fs_wf_def fds_ok_def File_drop_def
  by (simp add: imap_wf_swap_remove dom_swap_remove subset_insert_iff) blast

lemma inv_try_clone: "\<lbrakk>fs_inv fs; room_for_fds 1 fs\<rbrakk> \<Longrightarrow> returns (try_clone h fs) (\<lambda>(r, fs'). fs_inv fs')"
  by (auto simp: try_clone_def split: option.split intro: returns_mono [OF register_returns])

lemma inv_set_len: "fs_inv fs \<Longrightarrow> fs_inv (snd (set_len rng h fs n))"
  by (simp add: set_len_def inv_maybe_sync inv_set_file_len split: option.split)

lemma inv_sync_all: "fs_inv fs \<Longrightarrow> fs_inv (snd (sync_all h fs))"
  by (simp add: sync_all_def inv_sync_file split: option.split)

lemma file_len_returns: "fs_inv fs \<Longrightarrow> \<exists>n. file_len fs p = Some n"
  using resolve_total [of fs p] by (auto simp: fs_inv_def file_len_def)

lemma read_file_returns: "fs_inv fs \<Longrightarrow> \<exists>r. read_file fs p buf off = Some r"
  using resolve_total [of fs p] file_len_returns [of fs p] by (auto simp: fs_inv_def read_file_def Let_def)

lemma inv_shorten: "fs_inv fs \<Longrightarrow> fs_inv (snd (snd (shorten rng n buf fs)))"
  using inv_flip [of fs rng "short_read_probability fs"] by (simp add: shorten_def case_prod_beta' Let_def)

lemma inv_corrupt: "fs_inv fs \<Longrightarrow> fs_inv (snd (corrupt rng p off n buf fs))"
  using inv_flip [of fs rng "corruption_probability fs"] by (simp add: corrupt_def case_prod_beta' Let_def)

lemma inv_read_at: "fs_inv fs \<Longrightarrow> returns (read_at_internal rng h fs ptr buf off) (\<lambda>(r, buf', fs'). fs_inv fs')"
proof -
  assume inv: "fs_inv fs"
  let ?fs = "snd (flip rng (io_error_probability fs) fs)"
  have inv1: "fs_inv ?fs" using inv by (rule inv_flip)
  have "returns (Option.bind (read_file ?fs p buf off) (\<lambda>(n, buf1).
      let (n2, buf2, fs2) = shorten rng n buf1 ?fs; (buf3, fs3) = corrupt rng p off n2 buf2 fs2
      in Some (Inr n2 :: nat io_result, buf3, fs3))) (\<lambda>(r, buf', fs'). fs_inv fs')" for p
    using read_file_returns [OF inv1, of p buf off] inv_corrupt [OF inv_shorten [OF inv1]]
    by (auto simp: case_prod_beta' Let_def)
  then show ?thesis
    using inv inv1 unfolding read_at_internal_def by (simp add: case_prod_beta' Let_def split: option.split)
qed

lemma inv_write_at: "fs_inv fs \<Longrightarrow> returns (write_at_internal rng h fs ptr buf off) (\<lambda>(r, fs'). fs_inv fs')"
proof -
  assume inv: "fs_inv fs"
  let ?fs = "snd (flip rng (io_error_probability fs) fs)"
  have inv1: "fs_inv ?fs" using inv by (rule inv_flip)
  then have len: "returns (file_len ?fs p) (\<lambda>_. True)" for p using file_len_returns by (fastforce simp: returns_def)
  have written: "fs_inv (maybe_sync rng p (write_file ?fs p off buf t))" for p t
    using inv1 by (simp add: inv_maybe_sync inv_write_file)
  show ?thesis
    using inv inv1 written unfolding write_at_internal_def
    by (auto simp: case_prod_beta' Let_def split: option.split sum.split intro!: returns_mono [OF len])
qed

lemma read_path_safe: "\<lbrakk>fs_inv fs; room_for_fds 1 fs\<rbrakk> \<Longrightarrow> returns (read_path rng ptr fs p) (\<lambda>(r, fs'). fs_inv fs')"
proof -
  assume "fs_inv fs" "room_for_fds 1 fs"
  then have op: "returns (File_open fs p) (\<lambda>(r, fs'). fs_inv fs')" unfolding File_open_def by (rule inv_open_file)
  have md: "returns (handle_metadata h fs1) (\<lambda>_. True)" if inv: "fs_inv fs1" for h and fs1 :: "'a FsState"
  proof -
    have "\<exists>m. file_metadata fs1 q = Some m" for q
    proof -
      obtain cp where "resolve_content_path fs1 q = Some cp" using resolve_total [of fs1 q] inv by (auto simp: fs_inv_def)
      then show ?thesis using file_nlink_returns file_len_returns [OF inv, of q] by (fastforce simp: file_metadata_def)
    qed
    then show ?thesis
      by (cases "imap_get (open_handles fs1) (fd h)") (auto simp: handle_metadata_def returns_def)
  qed
  show ?thesis
    unfolding read_path_def returns_simps
    using op
    by (auto elim!: returns_mono split: sum.split intro!: returns_mono [OF md] returns_mono [OF inv_read_at] inv_drop)
qed

lemma write_path_safe: "\<lbrakk>fs_inv fs; room_for_fds 1 fs\<rbrakk> \<Longrightarrow> returns (write_path rng ptr fs p data) (\<lambda>(r, fs'). fs_inv fs')"
proof -
  assume "fs_inv fs" "room_for_fds 1 fs"
  then have op: "returns (File_create fs p) (\<lambda>(r, fs'). fs_inv fs')" unfolding File_create_def by (rule inv_open_file)
  show ?thesis
    unfolding write_path_def returns_simps
    using op by (auto elim!: returns_mono split: sum.split intro!: returns_mono [OF inv_write_at] inv_drop)
qed

section \<open>Runs\<close>

datatype FsOp =
    Op_create_dir Path | Op_create_dir_all Path | Op_remove_dir Path | Op_sync_dir Path
  | Op_remove_file Path | Op_rename Path Path | Op_symlink Path Path | Op_hard_link Path Path
  | Op_set_permissions Path u32 | Op_open OpenOptions Path | Op_drop FileHandle | Op_try_clone FileHandle
  | Op_set_len FileHandle nat | Op_sync_all FileHandle | Op_sync_data FileHandle
  | Op_read_at FileHandle nat bytes nat | Op_write_at FileHandle nat bytes nat
  | Op_read_path nat Path | Op_write_path nat Path bytes | Op_crash

abbreviation after :: "('a \<times> 's) option \<Rightarrow> 's option" where
  "after m \<equiv> map_option snd m"

fun fs_step :: "'g Rng \<Rightarrow> 'g FsState \<Rightarrow> FsOp \<Rightarrow> 'g FsState option" where
  "fs_step rng fs (Op_create_dir p) = Some (snd (create_dir fs p))"
| "fs_step rng fs (Op_create_dir_all p) = Some (snd (create_dir_all fs p))"
| "fs_step rng fs (Op_remove_dir p) = Some (snd (remove_dir fs p))"
| "fs_step rng fs (Op_sync_dir p) = Some (snd (shim_sync_dir fs p))"
| "fs_step rng fs (Op_remove_file p) = Some (snd (remove_file fs p))"
| "fs_step rng fs (Op_rename p q) = Some (snd (shim_rename fs p q))"
| "fs_step rng fs (Op_symlink orig lnk) = Some (snd (symlink fs orig lnk))"
| "fs_step rng fs (Op_hard_link orig lnk) = Some (snd (hard_link fs orig lnk))"
| "fs_step rng fs (Op_set_permissions p m) = Some (snd (shim_set_permissions fs p m))"
| "fs_step rng fs (Op_open opts p) = after (open_file opts fs p)"
| "fs_step rng fs (Op_drop h) = Some (File_drop h fs)"
| "fs_step rng fs (Op_try_clone h) = after (try_clone h fs)"
| "fs_step rng fs (Op_set_len h n) = Some (snd (set_len rng h fs n))"
| "fs_step rng fs (Op_sync_all h) = Some (snd (sync_all h fs))"
| "fs_step rng fs (Op_sync_data h) = Some (snd (sync_data h fs))"
| "fs_step rng fs (Op_read_at h ptr buf off) = map_option (snd \<circ> snd) (read_at_internal rng h fs ptr buf off)"
| "fs_step rng fs (Op_write_at h ptr buf off) = after (write_at_internal rng h fs ptr buf off)"
| "fs_step rng fs (Op_read_path ptr p) = after (read_path rng ptr fs p)"
| "fs_step rng fs (Op_write_path ptr p data) = after (write_path rng ptr fs p data)"
| "fs_step rng fs Op_crash = Some (crash (random_range rng) fs)"

text \<open>
  Two calls have a condition: a new hard link must not take a name that a pending hard link
  points to, and a call that opens a file needs a descriptor to be left.
\<close>

fun fs_admissible :: "'g FsState \<Rightarrow> FsOp \<Rightarrow> bool" where
  "fs_admissible fs (Op_hard_link orig lnk) = (lnk \<notin> snd ` links (pending fs))"
| "fs_admissible fs (Op_open _ _) = room_for_fds 1 fs"
| "fs_admissible fs (Op_try_clone _) = room_for_fds 1 fs"
| "fs_admissible fs (Op_read_path _ _) = room_for_fds 1 fs"
| "fs_admissible fs (Op_write_path _ _ _) = room_for_fds 1 fs"
| "fs_admissible fs _ = True"

lemma returns_after: "returns m (\<lambda>(r, fs'). P fs') \<Longrightarrow> returns (after m) P"
  by (cases m) auto

lemmas inv_calls = inv_mkdir_with_mode inv_rmdir inv_unlink inv_rename inv_create_symlink inv_set_permissions
  inv_create_hard_link inv_sync_dir inv_drop inv_set_len inv_sync_all inv_crash inv_create_missing

lemma fs_step_safe:
  assumes "fs_inv fs" "fs_admissible fs op"
  shows "returns (fs_step rng fs op) fs_inv"
proof (cases op)
  case (Op_read_at h ptr buf off)
  then show ?thesis using inv_read_at [OF assms(1), of rng h ptr buf off] by (auto simp: returns_def)
next
  case (Op_sync_data h)
  have "sync_data h fs = sync_all h fs" by (simp add: sync_data_def sync_all_def sync_file_data_eq split: option.split)
  then show ?thesis using assms Op_sync_data by (simp add: inv_sync_all)
qed (use assms in \<open>simp_all add: inv_calls create_dir_def mkdir_def create_dir_all_def remove_dir_def shim_sync_dir_def
    remove_file_def shim_rename_def symlink_def hard_link_def shim_set_permissions_def
    returns_after inv_open_file inv_try_clone inv_write_at read_path_safe write_path_safe\<close>)

interpretation fs_run: invariant_system "fs_step rng" fs_inv fs_admissible for rng :: "'g Rng"
proof unfold_locales
  fix fs :: "'g FsState" and a assume "fs_inv fs" "fs_admissible fs a"
  then obtain fs' where "fs_step rng fs a = Some fs'" "fs_inv fs'"
    using fs_step_safe [of fs a rng] by (auto simp: returns_def)
  then show "\<exists>fs'. fs_step rng fs a = Some fs'" and "\<And>fs'. fs_step rng fs a = Some fs' \<Longrightarrow> fs_inv fs'" by auto
qed

lemma FsState_new_inv: "fs_inv (FsState_new cfg seed)"
  by (simp add: fs_inv_def fs_wf_def fds_ok_def FsState_new_def SIM_FD_BASE_def acyclic_def)



end
