(* ===== verification/Fs_Limits.thy ===== *)
theory Fs_Limits
  imports Fs_Run
begin

text \<open>
  Behaviour of the simulated file system that differs from the POSIX semantics it documents,
  each as a theorem about the model: renames onto themselves, writes after a rename, data
  hidden by a rename, truncation seen by reads, permissions that never reach the disk, cycles
  of hard links, directories emptied or replaced by mistake, and a page cache of no pages.
\<close>

section \<open>Names\<close>

text \<open>Renaming a file onto itself succeeds and makes it disappear; POSIX says it does nothing.\<close>

theorem rename_self_vanishes:
  assumes "file_exists fs p" "parent_exists fs p"
  shows "fst (rename fs p p) = Inr () \<and> entry_kind (snd (rename fs p p)) p = None"
  using assms by (simp add: rename_def entry_kind_view)

text \<open>\<^verbatim>\<open>File::create\<close> on a directory replaces it by an empty file instead of failing.\<close>

theorem create_replaces_directory:
  assumes "dir_exists fs p" "parent_exists fs p" "room_for_fds 1 fs" "resolve_content_path fs p = Some p"
  shows "\<exists>h fs'. File_create fs p = Some (Inr h, fs') \<and> file_exists fs' p"
  using File_create_facts [of fs p] assms by auto

text \<open>\<^verbatim>\<open>create_dir_all\<close> on a file reports success and creates nothing.\<close>

lemma missing_dirs_self: "p \<noteq> [] \<Longrightarrow> \<not> dir_exists fs p \<Longrightarrow> \<exists>ds. missing_dirs fs p = p # ds"
  by (subst missing_dirs.simps) simp

theorem create_dir_all_on_file:
  assumes "file_exists fs p" "path_parent p = Some d" "dir_exists fs d"
  shows "create_dir_all fs p = (Inr (), fs)"
proof -
  have "missing_dirs fs p = [p]"
    using assms by (subst missing_dirs.simps) (auto simp: path_parent_def missing_dirs.simps [of fs d] split: if_splits)
  then show ?thesis using assms(1) by (simp add: create_dir_all_def)
qed

text \<open>A directory holding only a file renamed into it counts as empty and is removed.\<close>

abbreviation path_d_a :: Path where
  "path_d_a \<equiv> path_d @ [Normal ''a'']"

theorem rmdir_of_nonempty_dir:
  "\<exists>fs1 fs2. rename demo_fs path_a path_d_a = (Inr (), fs1) \<and> file_exists fs1 path_d_a \<and>
    rmdir fs1 path_d = (Inr (), fs2) \<and> file_exists fs2 path_d_a \<and> \<not> dir_exists fs2 path_d"
proof -
  let ?fs1 = "push_op (Rename path_a path_d_a) demo_fs"
  have "rename demo_fs path_a path_d_a = (Inr (), ?fs1)"
    by (simp add: rename_def parent_exists_def demo_fs_simps view_def persisted_kind_def)
  moreover have "rmdir ?fs1 path_d = (Inr (), push_op (RemoveDir path_d) ?fs1)"
    by (simp add: rmdir_def dir_has_children_def push_op_def demo_fs_simps view_def persisted_kind_def)
  moreover have "file_exists ?fs1 path_d_a" "file_exists (push_op (RemoveDir path_d) ?fs1) path_d_a"
    "\<not> dir_exists (push_op (RemoveDir path_d) ?fs1) path_d"
    by (simp_all add: push_op_def demo_fs_simps view_def persisted_kind_def)
  ultimately show ?thesis by blast
qed

section \<open>Data\<close>

text \<open>
  A write through the new name of a renamed file is not seen through that name: reads look
  for writes under the old name only.
\<close>

lemma resolve_no_links:
  "links (pending fs) = {} \<Longrightarrow> resolve_content_path fs p = Some (resolve_persisted_path fs p)"
proof -
  assume "links (pending fs) = {}"
  then have "resolve_hardlink_target fs p = None"
    using link_target_links [of "pending fs" p] by (cases "link_target (pending fs) p") (auto simp: resolve_hardlink_target_def)
  then show ?thesis by (simp add: resolve_content_path.simps [of fs p])
qed

definition renamed_fs :: "unit FsState" where
  "renamed_fs = push_op (Rename path_a path_b) demo_fs"

lemmas limit_simps = renamed_fs_def push_op_def demo_content_simps read_file_def file_len_def
  write_file_def resolve_no_links resolve_persisted_path_def Let_def

theorem write_after_rename_lost:
  "read_file (write_file renamed_fs path_b 0 [8] 9) path_b [0] 0 = Some (1, [1])"
  by (simp add: limit_simps)

text \<open>After a pending truncation, a read returns bytes of the old content in the gap.\<close>

theorem truncated_bytes_reappear:
  "read_file (write_file (set_file_len demo_fs path_a 0 8) path_a 2 [7] 9) path_a [0, 0, 0] 0 = Some (3, [1, 2, 7])"
  by (simp add: limit_simps set_file_len_def invalidate_def)

text \<open>
  Write to a new file, rename it, sync the directory: the file is there under its new name,
  but empty, because its data is still queued under the old one.
\<close>

theorem renamed_data_hidden:
  "\<exists>fs1 fs2. rename new_file_fs path_b [RootDir, Normal ''c''] = (Inr (), fs1) \<and>
    file_len fs1 [RootDir, Normal ''c''] = Some 2 \<and>
    sync_dir fs1 [RootDir] 10 = (Inr (), fs2) \<and> file_exists fs2 [RootDir, Normal ''c''] \<and>
    file_len fs2 [RootDir, Normal ''c''] = Some 0"
proof -
  let ?c = "[RootDir, Normal ''c'']"
  let ?fs1 = "push_op (Rename path_b ?c) new_file_fs"
  have "rename new_file_fs path_b ?c = (Inr (), ?fs1)"
    by (simp add: rename_def parent_exists_def durable_simps)
  moreover have "file_len ?fs1 ?c = Some 2"
    by (simp add: limit_simps new_file_fs_def)
  moreover obtain fs2 where "sync_dir ?fs1 [RootDir] 10 = (Inr (), fs2)" "file_exists fs2 ?c" "file_len fs2 ?c = Some 0"
    by (simp add: sync_dir_def limit_simps durable_simps imap_simps)
  ultimately show ?thesis by blast
qed

text \<open>The space accounting counts overlapping pending writes more than once.\<close>

theorem overlapping_writes_counted_twice:
  "used_bytes (write_file (write_file (FsState_new FsConfig_default ()) path_a 0 [1, 2] 0) path_a 0 [3, 4] 1) = 4"
  by (simp add: used_bytes_def write_file_def push_op_def persisted_content_def FsState_new_def)

section \<open>Durability\<close>

text \<open>
  A permission change never reaches the disk: no sync of a file or of a directory takes it out
  of the queue, so a crash always undoes it.
\<close>

theorem permissions_never_durable:
  assumes "SetPermissions p m t \<in> set (pending fs)"
  shows "SetPermissions p m t \<in> set (pending (snd (sync_file fs q))) \<and>
    SetPermissions p m t \<in> set (pending (snd (sync_dir fs d now)))"
  using assms by (auto simp: sync_file_def sync_dir_def case_prod_beta' Let_def)

section \<open>Calls that do not return\<close>

text \<open>
  Linking \<^verbatim>\<open>b\<close> to \<^verbatim>\<open>a\<close>, removing \<^verbatim>\<open>a\<close> and linking \<^verbatim>\<open>a\<close> to \<^verbatim>\<open>b\<close> leaves two pending links that point
  at each other: every later read of either name recurses forever.
\<close>

lemma resolve_cycle:
  "resolve_content_path fs p = Some cp \<Longrightarrow>
    resolve_hardlink_target fs a = Some b \<Longrightarrow> resolve_hardlink_target fs b = Some a \<Longrightarrow> p \<noteq> a \<and> p \<noteq> b"
proof (induction fs p cp rule: resolve_content_path.raw_induct [rotated, consumes 1, case_names step])
  case (step f fs p cp)
  then show ?case by (cases "resolve_hardlink_target fs p") fastforce+
qed

lemma demo_view:
  "view demo_fs path_a = Some File" "view demo_fs path_b = None" "view demo_fs [RootDir] = Some Directory"
  by (simp_all add: demo_fs_simps view_def persisted_kind_def)

theorem hard_link_cycle_diverges:
  "\<exists>fs1 fs2 fs3. create_hard_link demo_fs path_b path_a 1 = (Inr (), fs1) \<and> unlink fs1 path_a = (Inr (), fs2) \<and>
    create_hard_link fs2 path_a path_b 2 = (Inr (), fs3) \<and> file_exists fs3 path_a \<and>
    file_len fs3 path_a = None \<and> read_file fs3 path_a [0] 0 = None"
proof -
  let ?fs1 = "push_op (CreateHardLink path_b path_a 1) demo_fs"
  let ?fs2 = "push_op (RemoveFile path_a) (invalidate path_a ?fs1)"
  let ?fs3 = "push_op (CreateHardLink path_a path_b 2) ?fs2"
  have "create_hard_link demo_fs path_b path_a 1 = (Inr (), ?fs1)" "unlink ?fs1 path_a = (Inr (), ?fs2)"
    "create_hard_link ?fs2 path_a path_b 2 = (Inr (), ?fs3)" "file_exists ?fs3 path_a"
    by (simp_all add: create_hard_link_def unlink_def parent_exists_def path_parent_def demo_view)
  moreover have "resolve_hardlink_target ?fs3 path_a = Some path_b" "resolve_hardlink_target ?fs3 path_b = Some path_a"
    by (simp_all add: resolve_hardlink_target_def push_op_def invalidate_def demo_fs_simps)
  then have "resolve_content_path ?fs3 path_a = None"
    using resolve_cycle [of ?fs3 path_a _ path_a path_b] by (cases "resolve_content_path ?fs3 path_a") auto
  then have "file_len ?fs3 path_a = None" "read_file ?fs3 path_a [0] 0 = None" by (simp_all add: file_len_def read_file_def)
  ultimately show ?thesis by blast
qed

text \<open>With \<^verbatim>\<open>max_pages\<close> set to zero the eviction loop of the page cache never ends.\<close>

theorem empty_cache_never_returns:
  "max_pages (pc_config c) = 0 \<Longrightarrow> cache_insert c p off = None"
proof -
  assume "max_pages (pc_config c) = 0"
  moreover have "evict 0 ps = Some qs \<Longrightarrow> False" for ps qs
    by (induction "0 :: nat" ps qs rule: evict.raw_induct [rotated, consumes 1, case_names step]) auto
  then have "evict 0 ps = None" for ps by (cases "evict 0 ps") auto
  ultimately show ?thesis by (simp add: cache_insert_def)
qed

end
