(* ===== verification/Sim_Host.thy ===== *)
theory Sim_Host
  imports Net_Addr
begin

text \<open>
  \<^verbatim>\<open>turmoil/src/host.rs\<close> and \<^verbatim>\<open>turmoil/src/envelope.rs\<close>: the network software of a simulated host, with
  UDP binds, TCP listeners and stream sockets that put segments back in order. A bounded tokio
  channel is its queue, its capacity and whether the receiver is gone. Objects shared by reference
  count (a channel, a flow control) have numbers; the flow controls themselves are kept by the
  world. What is still queued when a stream socket is removed is kept for its reader in
  \<open>tcp_orphans\<close>, by the number of the channel.
\<close>

section \<open>Messages\<close>

text \<open>A SYN carries the one-shot sender of the handshake, named by a number.\<close>

datatype Segment = Syn nat | Data nat bytes | Fin nat | Rst

datatype Protocol = ProtoTcp Segment | ProtoUdp bytes

record Envelope =
  env_src :: SocketAddr
  env_dst :: SocketAddr
  env_message :: Protocol

section \<open>Channels\<close>

record 'a channel =
  ch_capacity :: nat
  ch_queue :: "'a list"
  ch_closed :: bool

text \<open>\<^verbatim>\<open>mpsc::channel\<close> panics on capacity zero.\<close>

definition channel_new :: "nat \<Rightarrow> 'a channel option" where
  "channel_new cap = (if cap = 0 then None else Some \<lparr>ch_capacity = cap, ch_queue = [], ch_closed = False\<rparr>)"

datatype 'a send_outcome = SendOk "'a channel" | SendFull | SendClosed

definition try_send :: "'a \<Rightarrow> 'a channel \<Rightarrow> 'a send_outcome" where
  "try_send x c =
     (if ch_closed c then SendClosed
      else if ch_capacity c \<le> length (ch_queue c) then SendFull
      else SendOk (c\<lparr>ch_queue := ch_queue c @ [x]\<rparr>))"

section \<open>UDP\<close>

definition DEFAULT_BROADCAST :: bool where
  "DEFAULT_BROADCAST = False"

definition DEFAULT_MULTICAST_LOOP :: bool where
  "DEFAULT_MULTICAST_LOOP = True"

record UdpBind =
  ub_bind_addr :: SocketAddr
  ub_target_addr :: "SocketAddr option"
  ub_broadcast :: bool
  ub_multicast_loop :: bool
  ub_queue :: "(bytes \<times> SocketAddr) channel"

record HostUdp =
  udp_binds :: "(u16, UdpBind) imap"
  udp_capacity :: nat

definition HostUdp_new :: "nat \<Rightarrow> HostUdp" where
  "HostUdp_new cap = \<lparr>udp_binds = [], udp_capacity = cap\<rparr>"

definition udp_is_port_assigned :: "HostUdp \<Rightarrow> u16 \<Rightarrow> bool" where
  "udp_is_port_assigned u port = list_ex (\<lambda>p. p = port) (imap_keys (udp_binds u))"

definition is_broadcast_enabled :: "HostUdp \<Rightarrow> u16 \<Rightarrow> bool" where
  "is_broadcast_enabled u port =
     (case imap_get (udp_binds u) port of None \<Rightarrow> DEFAULT_BROADCAST | Some b \<Rightarrow> ub_broadcast b)"

definition is_multicast_loop_enabled :: "HostUdp \<Rightarrow> u16 \<Rightarrow> bool" where
  "is_multicast_loop_enabled u port =
     (case imap_get (udp_binds u) port of None \<Rightarrow> DEFAULT_MULTICAST_LOOP | Some b \<Rightarrow> ub_multicast_loop b)"

definition udp_set_broadcast :: "u16 \<Rightarrow> bool \<Rightarrow> HostUdp \<Rightarrow> HostUdp" where
  "udp_set_broadcast port on u =
     u\<lparr>udp_binds := imap_modify port (\<lambda>b. b\<lparr>ub_broadcast := on\<rparr>) (udp_binds u)\<rparr>"

definition udp_set_multicast_loop :: "u16 \<Rightarrow> bool \<Rightarrow> HostUdp \<Rightarrow> HostUdp" where
  "udp_set_multicast_loop port on u =
     u\<lparr>udp_binds := imap_modify port (\<lambda>b. b\<lparr>ub_multicast_loop := on\<rparr>) (udp_binds u)\<rparr>"

definition udp_bind :: "SocketAddr \<Rightarrow> HostUdp \<Rightarrow> (SocketAddr io_result \<times> HostUdp) option" where
  "udp_bind a u = do {
     ch \<leftarrow> channel_new (udp_capacity u);
     Some (case imap_get (udp_binds u) (sa_port a) of
       Some _ \<Rightarrow> (Err (Kind AddrInUse), u)
     | None \<Rightarrow>
         (Ok a, u\<lparr>udp_binds := imap_insert (sa_port a)
            \<lparr>ub_bind_addr = a, ub_target_addr = None, ub_broadcast = DEFAULT_BROADCAST,
             ub_multicast_loop = DEFAULT_MULTICAST_LOOP, ub_queue = ch\<rparr> (udp_binds u)\<rparr>))
   }"

definition udp_connect :: "SocketAddr \<Rightarrow> SocketAddr \<Rightarrow> HostUdp \<Rightarrow> HostUdp option" where
  "udp_connect src dst u =
     (case imap_get (udp_binds u) (sa_port src) of
        None \<Rightarrow> None
      | Some _ \<Rightarrow> Some (u\<lparr>udp_binds := imap_modify (sa_port src) (\<lambda>b. b\<lparr>ub_target_addr := Some dst\<rparr>) (udp_binds u)\<rparr>))"

text \<open>Whether a bound address accepts a packet routed to an address.\<close>

definition addr_matches :: "SocketAddr \<Rightarrow> SocketAddr \<Rightarrow> bool" where
  "addr_matches b dst =
     (if is_unspecified (sa_ip b) \<and> sa_port b = sa_port dst then True else b = dst)"

definition is_same :: "SocketAddr \<Rightarrow> SocketAddr \<Rightarrow> bool" where
  "is_same src dst \<longleftrightarrow> is_loopback (sa_ip dst) \<or> sa_ip src = sa_ip dst"

definition udp_receive :: "SocketAddr \<Rightarrow> SocketAddr \<Rightarrow> bytes \<Rightarrow> HostUdp \<Rightarrow> HostUdp" where
  "udp_receive src dst datagram u =
     (case imap_get (udp_binds u) (sa_port dst) of
        None \<Rightarrow> u
      | Some b \<Rightarrow>
          if (case ub_target_addr b of None \<Rightarrow> False | Some target \<Rightarrow> \<not> addr_matches target src) then u
          else if \<not> addr_matches (ub_bind_addr b) dst then u
          else
            (case try_send (datagram, src) (ub_queue b) of
               SendOk ch \<Rightarrow> u\<lparr>udp_binds := imap_modify (sa_port dst) (\<lambda>b. b\<lparr>ub_queue := ch\<rparr>) (udp_binds u)\<rparr>
             | _ \<Rightarrow> u))"

definition udp_unbind :: "SocketAddr \<Rightarrow> HostUdp \<Rightarrow> HostUdp option" where
  "udp_unbind a u =
     (case imap_get (udp_binds u) (sa_port a) of
        None \<Rightarrow> None
      | Some _ \<Rightarrow> Some (u\<lparr>udp_binds := imap_swap_remove (sa_port a) (udp_binds u)\<rparr>))"

section \<open>Stream sockets\<close>

datatype SocketPair = SocketPair (pair_local: SocketAddr) (pair_remote: SocketAddr)

definition SocketPair_new :: "SocketAddr \<Rightarrow> SocketAddr \<Rightarrow> SocketPair option" where
  "SocketPair_new a b = (if a = b then None else Some (SocketPair a b))"

datatype SequencedSegment = SeqData bytes | SeqFin

datatype StreamState = Stream_Open | Stream_ReadClosed | Stream_Reset

text \<open>
  \<open>st_sender\<close> says that the sending side of the receive channel still exists; the channel is
  kept beside it, since the stream still reads what is queued.
\<close>

record StreamSocket =
  st_buf :: "(nat, SequencedSegment) imap"
  st_next_send_seq :: nat
  st_recv_seq :: nat
  st_sender :: bool
  st_chan :: "bytes channel"
  st_chan_id :: nat
  st_flow_write :: nat
  st_flow_read :: nat
  st_reset_waker :: "waker option"
  st_ref_ct :: nat

definition StreamSocket_new :: "nat \<Rightarrow> nat \<Rightarrow> nat \<Rightarrow> nat \<Rightarrow> StreamSocket option" where
  "StreamSocket_new cap chan flow_write flow_read = do {
     ch \<leftarrow> channel_new cap;
     Some \<lparr>st_buf = [], st_next_send_seq = 1, st_recv_seq = 0, st_sender = True, st_chan = ch, st_chan_id = chan,
       st_flow_write = flow_write, st_flow_read = flow_read, st_reset_waker = None, st_ref_ct = 2\<rparr>
   }"

definition assign_seq :: "StreamSocket \<Rightarrow> nat \<times> StreamSocket" where
  "assign_seq s = (st_next_send_seq s, s\<lparr>st_next_send_seq := st_next_send_seq s + 1\<rparr>)"

definition socket_state :: "StreamSocket \<Rightarrow> StreamState" where
  "socket_state s = (if st_sender s then Stream_Open else Stream_ReadClosed)"

lemma length_imap_swap_remove: "imap_get m k \<noteq> None \<Longrightarrow> length (imap_swap_remove k m) < length m"
  by (induction m) (auto split: if_splits)

text \<open>
  The loop of \<^verbatim>\<open>buffer\<close>: hand over the segments that follow the last one received. \<open>Inl ()\<close> asks for
  a reset.
\<close>

function drain_buf :: "StreamSocket \<Rightarrow> (unit + unit) \<times> StreamSocket" where
  "drain_buf s =
     (case imap_get (st_buf s) (st_recv_seq s + 1) of
        None \<Rightarrow> (Inr (), s)
      | Some seg \<Rightarrow>
          (let s1 = s\<lparr>st_buf := imap_swap_remove (st_recv_seq s + 1) (st_buf s)\<rparr>
           in if \<not> st_sender s1 then (Inl (), s1)
              else
                (case seg of
                   SeqData bs \<Rightarrow>
                     (case try_send bs (st_chan s1) of
                        SendOk ch \<Rightarrow> drain_buf (s1\<lparr>st_chan := ch, st_recv_seq := st_recv_seq s1 + 1\<rparr>)
                      | SendClosed \<Rightarrow> (Inl (), s1)
                      | SendFull \<Rightarrow> (Inr (), s1\<lparr>st_buf := imap_insert (st_recv_seq s1 + 1) (SeqData bs) (st_buf s1)\<rparr>))
                 | SeqFin \<Rightarrow>
                     if ch_closed (st_chan s1) then (Inl (), s1)
                     else drain_buf (s1\<lparr>st_sender := False, st_recv_seq := st_recv_seq s1 + 1\<rparr>))))"
  by auto

termination
  by (relation "measure (\<lambda>s. length (st_buf s))") (auto simp: length_imap_swap_remove)

definition buffer :: "nat \<Rightarrow> SequencedSegment \<Rightarrow> StreamSocket \<Rightarrow> ((Protocol + unit) \<times> StreamSocket) option" where
  "buffer sq seg s =
     (if imap_get (st_buf s) sq \<noteq> None then None
      else
        (let (r, s1) = drain_buf (s\<lparr>st_buf := imap_insert sq seg (st_buf s)\<rparr>)
         in Some (map_sum (\<lambda>_. ProtoTcp Rst) (\<lambda>_. ()) r, s1)))"

section \<open>TCP\<close>

record ServerSocket =
  sv_bind_addr :: SocketAddr
  sv_notify :: bool
  sv_deque :: "(nat \<times> SocketAddr) list"

record HostTcp =
  tcp_binds :: "(u16, ServerSocket) imap"
  tcp_server_capacity :: nat
  tcp_sockets :: "(SocketPair, StreamSocket) imap"
  tcp_capacity :: nat
  tcp_woken :: "waker list"
  tcp_orphans :: "(nat, bytes list) imap"

definition HostTcp_new :: "nat \<Rightarrow> HostTcp" where
  "HostTcp_new cap = \<lparr>tcp_binds = [], tcp_server_capacity = cap, tcp_sockets = [], tcp_capacity = cap, tcp_woken = [],
     tcp_orphans = []\<rparr>"

definition tcp_is_port_assigned :: "HostTcp \<Rightarrow> u16 \<Rightarrow> bool" where
  "tcp_is_port_assigned t port \<longleftrightarrow>
     list_ex (\<lambda>p. p = port) (imap_keys (tcp_binds t)) \<or>
     list_ex (\<lambda>a. sa_port (pair_local a) = port) (imap_keys (tcp_sockets t))"

definition tcp_bind :: "SocketAddr \<Rightarrow> HostTcp \<Rightarrow> SocketAddr io_result \<times> HostTcp" where
  "tcp_bind a t =
     (case imap_get (tcp_binds t) (sa_port a) of
        Some _ \<Rightarrow> (Err (Kind AddrInUse), t)
      | None \<Rightarrow>
          (Ok a, t\<lparr>tcp_binds := imap_insert (sa_port a)
             \<lparr>sv_bind_addr = a, sv_notify = False, sv_deque = []\<rparr> (tcp_binds t)\<rparr>))"

definition new_stream :: "SocketPair \<Rightarrow> nat \<Rightarrow> nat \<Rightarrow> nat \<Rightarrow> HostTcp \<Rightarrow> HostTcp option" where
  "new_stream pair chan flow_write flow_read t = do {
     sock \<leftarrow> StreamSocket_new (tcp_capacity t) chan flow_write flow_read;
     if imap_get (tcp_sockets t) pair \<noteq> None then None
     else Some (t\<lparr>tcp_sockets := imap_insert pair sock (tcp_sockets t)\<rparr>)
   }"

definition flow_control :: "SocketPair \<Rightarrow> HostTcp \<Rightarrow> (nat \<times> nat) option" where
  "flow_control pair t = map_option (\<lambda>s. (st_flow_write s, st_flow_read s)) (imap_get (tcp_sockets t) pair)"

definition stream_count :: "HostTcp \<Rightarrow> nat" where
  "stream_count t = length (tcp_sockets t)"

definition tcp_accept :: "SocketAddr \<Rightarrow> HostTcp \<Rightarrow> ((nat \<times> SocketAddr) option \<times> HostTcp) option" where
  "tcp_accept a t =
     (case imap_get (tcp_binds t) (sa_port a) of
        None \<Rightarrow> None
      | Some b \<Rightarrow>
          Some (case sv_deque b of
            [] \<Rightarrow> (None, t)
          | x # xs \<Rightarrow> (Some x, t\<lparr>tcp_binds := imap_modify (sa_port a) (\<lambda>b. b\<lparr>sv_deque := xs\<rparr>) (tcp_binds t)\<rparr>)))"

definition assign_send_seq :: "SocketPair \<Rightarrow> HostTcp \<Rightarrow> nat option \<times> HostTcp" where
  "assign_send_seq pair t =
     (case imap_get (tcp_sockets t) pair of
        None \<Rightarrow> (None, t)
      | Some sock \<Rightarrow>
          (let (sq, sock1) = assign_seq sock
           in (Some sq, t\<lparr>tcp_sockets := imap_insert pair sock1 (tcp_sockets t)\<rparr>)))"

text \<open>Removing a stream socket drops the sender of its channel; the receiver keeps the queue.\<close>

definition remove_socket :: "SocketPair \<Rightarrow> StreamSocket \<Rightarrow> HostTcp \<Rightarrow> HostTcp" where
  "remove_socket pair sock t =
     t\<lparr>tcp_sockets := imap_swap_remove pair (tcp_sockets t),
       tcp_orphans := (if ch_closed (st_chan sock) then tcp_orphans t
                       else imap_insert (st_chan_id sock) (ch_queue (st_chan sock)) (tcp_orphans t))\<rparr>"

definition reset_stream :: "SocketPair \<Rightarrow> HostTcp \<Rightarrow> HostTcp" where
  "reset_stream pair t =
     (case imap_get (tcp_sockets t) pair of
        None \<Rightarrow> t
      | Some sock \<Rightarrow>
          (remove_socket pair sock t)\<lparr>tcp_woken :=
            tcp_woken t @ (case st_reset_waker sock of None \<Rightarrow> [] | Some w \<Rightarrow> [w])\<rparr>)"

text \<open>Data and FIN go to the stream of the pair seen from this host; without one, a reset is sent back.\<close>

definition to_stream ::
  "SocketPair \<Rightarrow> nat \<Rightarrow> SequencedSegment \<Rightarrow> HostTcp \<Rightarrow> ((Protocol + unit) \<times> HostTcp) option" where
  "to_stream pair sq seg t =
     (case imap_get (tcp_sockets t) pair of
        None \<Rightarrow> Some (Inl (ProtoTcp Rst), t)
      | Some sock \<Rightarrow> do {
          (r, sock1) \<leftarrow> buffer sq seg sock;
          Some (r, t\<lparr>tcp_sockets := imap_insert pair sock1 (tcp_sockets t)\<rparr>)
        })"

definition tcp_receive ::
  "SocketAddr \<Rightarrow> SocketAddr \<Rightarrow> Segment \<Rightarrow> HostTcp \<Rightarrow> ((Protocol + unit) \<times> HostTcp) option" where
  "tcp_receive src dst segment t =
     (case segment of
        Syn ack \<Rightarrow>
          (case imap_get (tcp_binds t) (sa_port dst) of
             None \<Rightarrow> Some (Inr (), t)
           | Some b \<Rightarrow>
               if length (sv_deque b) = tcp_server_capacity t then None
               else if addr_matches (sv_bind_addr b) dst then
                 Some (Inr (), t\<lparr>tcp_binds := imap_modify (sa_port dst)
                   (\<lambda>b. b\<lparr>sv_deque := sv_deque b @ [(ack, src)], sv_notify := True\<rparr>) (tcp_binds t)\<rparr>)
               else Some (Inr (), t))
      | Data sq data \<Rightarrow> do { pair \<leftarrow> SocketPair_new dst src; to_stream pair sq (SeqData data) t }
      | Fin sq \<Rightarrow> do { pair \<leftarrow> SocketPair_new dst src; to_stream pair sq SeqFin t }
      | Rst \<Rightarrow> do { pair \<leftarrow> SocketPair_new dst src; Some (Inr (), reset_stream pair t) })"

definition has_buffered_data :: "SocketPair \<Rightarrow> HostTcp \<Rightarrow> bool" where
  "has_buffered_data pair t =
     (case imap_get (tcp_sockets t) pair of
        None \<Rightarrow> False
      | Some s \<Rightarrow> list_ex (\<lambda>(_, seg). case seg of SeqData _ \<Rightarrow> True | SeqFin \<Rightarrow> False) (st_buf s))"

definition stream_state :: "SocketPair \<Rightarrow> HostTcp \<Rightarrow> StreamState" where
  "stream_state pair t =
     (case imap_get (tcp_sockets t) pair of None \<Rightarrow> Stream_Reset | Some s \<Rightarrow> socket_state s)"

definition poll_stream_state :: "SocketPair \<Rightarrow> waker \<Rightarrow> HostTcp \<Rightarrow> StreamState \<times> HostTcp" where
  "poll_stream_state pair w t =
     (case imap_get (tcp_sockets t) pair of
        None \<Rightarrow> (Stream_Reset, t)
      | Some s \<Rightarrow>
          (socket_state s, t\<lparr>tcp_sockets := imap_insert pair (s\<lparr>st_reset_waker := Some w\<rparr>) (tcp_sockets t)\<rparr>))"

text \<open>The reference counter panics below zero.\<close>

definition close_stream_half :: "SocketPair \<Rightarrow> HostTcp \<Rightarrow> HostTcp option" where
  "close_stream_half pair t =
     (case imap_get (tcp_sockets t) pair of
        None \<Rightarrow> Some t
      | Some s \<Rightarrow>
          if st_ref_ct s = 0 then None
          else if st_ref_ct s = 1 then Some (remove_socket pair s t)
          else Some (t\<lparr>tcp_sockets := imap_insert pair (s\<lparr>st_ref_ct := st_ref_ct s - 1\<rparr>) (tcp_sockets t)\<rparr>))"

definition tcp_unbind :: "SocketAddr \<Rightarrow> HostTcp \<Rightarrow> HostTcp option" where
  "tcp_unbind a t =
     (case imap_get (tcp_binds t) (sa_port a) of
        None \<Rightarrow> None
      | Some _ \<Rightarrow> Some (t\<lparr>tcp_binds := imap_swap_remove (sa_port a) (tcp_binds t)\<rparr>))"

section \<open>Hosts\<close>

record HostTimer =
  ht_elapsed :: duration
  ht_now :: "nat option"
  ht_start_offset :: duration
  ht_since_epoch :: duration

definition HostTimer_new :: "duration \<Rightarrow> duration \<Rightarrow> HostTimer" where
  "HostTimer_new start epoch = \<lparr>ht_elapsed = 0, ht_now = None, ht_start_offset = start, ht_since_epoch = epoch\<rparr>"

definition timer_tick :: "duration \<Rightarrow> HostTimer \<Rightarrow> HostTimer" where
  "timer_tick d t = t\<lparr>ht_elapsed := ht_elapsed t + d\<rparr>"

definition timer_now :: "nat \<Rightarrow> HostTimer \<Rightarrow> HostTimer" where
  "timer_now now t = t\<lparr>ht_now := Some now\<rparr>"

text \<open>\<open>clock\<close> is the current instant; \<^verbatim>\<open>Instant::elapsed\<close> saturates.\<close>

definition timer_elapsed :: "nat \<Rightarrow> HostTimer \<Rightarrow> duration option" where
  "timer_elapsed clock t = (case ht_now t of None \<Rightarrow> None | Some now \<Rightarrow> Some (ht_elapsed t + (clock - now)))"

definition sim_elapsed :: "nat \<Rightarrow> HostTimer \<Rightarrow> duration option" where
  "sim_elapsed clock t = map_option (\<lambda>e. ht_start_offset t + e) (timer_elapsed clock t)"

definition timer_since_epoch :: "nat \<Rightarrow> HostTimer \<Rightarrow> duration option" where
  "timer_since_epoch clock t = map_option (\<lambda>e. ht_since_epoch t + e) (sim_elapsed clock t)"

record SimHost =
  nodename :: string
  host_addr :: IpAddr
  host_timer :: HostTimer
  host_udp :: HostUdp
  host_tcp :: HostTcp
  next_ephemeral_port :: u16
  ephemeral_ports :: "u16 \<times> u16"

definition SimHost_new :: "string \<Rightarrow> IpAddr \<Rightarrow> HostTimer \<Rightarrow> u16 \<times> u16 \<Rightarrow> nat \<Rightarrow> nat \<Rightarrow> SimHost" where
  "SimHost_new name a timer ports tcp_cap udp_cap =
     \<lparr>nodename = name, host_addr = a, host_timer = timer, host_udp = HostUdp_new udp_cap,
      host_tcp = HostTcp_new tcp_cap, next_ephemeral_port = fst ports, ephemeral_ports = ports\<rparr>"

text \<open>At most one attempt per port of the range; \<open>None\<close> is the panic on exhaustion.\<close>

fun assign_loop :: "nat \<Rightarrow> SimHost \<Rightarrow> (u16 \<times> SimHost) option" where
  "assign_loop 0 h = None"
| "assign_loop (Suc n) h =
     (let ret = next_ephemeral_port h;
          h1 = h\<lparr>next_ephemeral_port :=
            if next_ephemeral_port h = snd (ephemeral_ports h) then fst (ephemeral_ports h)
            else next_ephemeral_port h + 1\<rparr>
      in if udp_is_port_assigned (host_udp h1) ret \<or> tcp_is_port_assigned (host_tcp h1) ret then assign_loop n h1
         else Some (ret, h1))"

definition assign_ephemeral_port :: "SimHost \<Rightarrow> (u16 \<times> SimHost) option" where
  "assign_ephemeral_port h =
     assign_loop (Suc (unat (snd (ephemeral_ports h))) - unat (fst (ephemeral_ports h))) h"

definition receive_from_network :: "Envelope \<Rightarrow> SimHost \<Rightarrow> ((Protocol + unit) \<times> SimHost) option" where
  "receive_from_network e h =
     (case env_message e of
        ProtoTcp segment \<Rightarrow> do {
          (r, t) \<leftarrow> tcp_receive (env_src e) (env_dst e) segment (host_tcp h);
          Some (r, h\<lparr>host_tcp := t\<rparr>)
        }
      | ProtoUdp datagram \<Rightarrow>
          Some (Inr (), h\<lparr>host_udp := udp_receive (env_src e) (env_dst e) datagram (host_udp h)\<rparr>))"

end
