(* ===== verification/Sim_Top.thy ===== *)
theory Sim_Top
  imports Complex_Main Sim_Host
begin

text \<open>
  \<^verbatim>\<open>turmoil/src/top.rs\<close> and the link part of \<^verbatim>\<open>turmoil/src/config.rs\<close>: the links between hosts, with
  latency, random failure, partitions and holds. The random number generator and its
  exponential distribution are third-party code: a record of two drawing functions over a
  generator state \<open>'g\<close>. Rates and samples are rationals in place of 64-bit floats. The clock of
  the topology, a tokio runtime that runs no tasks, is its current instant.
\<close>

section \<open>Configuration\<close>

record Latency =
  min_message_latency :: duration
  max_message_latency :: duration
  latency_distribution :: rat

definition Latency_default :: Latency where
  "Latency_default = \<lparr>min_message_latency = 0, max_message_latency = 100 * 10 ^ 6, latency_distribution = 5\<rparr>"

record MessageLoss =
  fail_rate :: rat
  repair_rate :: rat

definition MessageLoss_default :: MessageLoss where
  "MessageLoss_default = \<lparr>fail_rate = 0, repair_rate = 1\<rparr>"

record LinkConfig =
  lc_latency :: "Latency option"
  lc_message_loss :: "MessageLoss option"

definition LinkConfig_default :: LinkConfig where
  "LinkConfig_default = \<lparr>lc_latency = None, lc_message_loss = None\<rparr>"

record 'g NetRng =
  coin :: "rat \<Rightarrow> 'g \<Rightarrow> bool \<times> 'g"
  exp_sample :: "rat \<Rightarrow> 'g \<Rightarrow> rat \<times> 'g"

section \<open>Links\<close>

datatype LinkState = Healthy | ExplicitPartition | RandPartition | Hold

datatype DeliveryStatus = DeliverAfter nat | OnHold

record Sent =
  sent_src :: SocketAddr
  sent_dst :: SocketAddr
  sent_status :: DeliveryStatus
  sent_protocol :: Protocol

definition sent_deliver :: "nat \<Rightarrow> Sent \<Rightarrow> Sent" where
  "sent_deliver now m = m\<lparr>sent_status := DeliverAfter now\<rparr>"

record Link =
  state_a_b :: LinkState
  state_b_a :: LinkState
  link_config :: LinkConfig
  link_sent :: "Sent list"
  deliverable :: "(IpAddr, Envelope list) imap"
  link_now :: nat

definition Link_new :: "nat \<Rightarrow> Link" where
  "Link_new now = \<lparr>state_a_b = Healthy, state_b_a = Healthy, link_config = LinkConfig_default, link_sent = [],
     deliverable = [], link_now = now\<rparr>"

definition get_state_for_message :: "IpAddr \<Rightarrow> IpAddr \<Rightarrow> Link \<Rightarrow> LinkState" where
  "get_state_for_message src dst l = (if src < dst then state_a_b l else state_b_a l)"

definition link_latency :: "Latency \<Rightarrow> Link \<Rightarrow> Latency" where
  "link_latency global l = (case lc_latency (link_config l) of None \<Rightarrow> global | Some c \<Rightarrow> c)"

definition link_loss :: "MessageLoss \<Rightarrow> Link \<Rightarrow> MessageLoss" where
  "link_loss global l = (case lc_message_loss (link_config l) of None \<Rightarrow> global | Some c \<Rightarrow> c)"

text \<open>The range is in whole milliseconds; subtracting durations panics below zero.\<close>

definition delay :: "'g NetRng \<Rightarrow> Latency \<Rightarrow> Link \<Rightarrow> 'g \<Rightarrow> (duration \<times> 'g) option" where
  "delay rng global l g =
     (let c = link_latency global l;
          (mult, g1) = exp_sample rng (latency_distribution c) g
      in if max_message_latency c < min_message_latency c then None
         else
           (let range = (max_message_latency c - min_message_latency c) div 10 ^ 6;
                d = min_message_latency c + nat \<lfloor>of_nat range * mult\<rfloor> * 10 ^ 6
            in Some (min d (max_message_latency c), g1)))"

definition toss :: "'g NetRng \<Rightarrow> rat \<Rightarrow> 'g \<Rightarrow> bool \<times> 'g" where
  "toss rng rate g = (if 0 < rate then coin rng rate g else (False, g))"

definition rand_partition :: "'g NetRng \<Rightarrow> MessageLoss \<Rightarrow> Link \<Rightarrow> 'g \<Rightarrow> bool \<times> 'g" where
  "rand_partition rng global l g = toss rng (fail_rate (link_loss global l)) g"

definition rand_repair :: "'g NetRng \<Rightarrow> MessageLoss \<Rightarrow> Link \<Rightarrow> 'g \<Rightarrow> bool \<times> 'g" where
  "rand_repair rng global l g = toss rng (repair_rate (link_loss global l)) g"

definition link_hold :: "Link \<Rightarrow> Link" where
  "link_hold l = l\<lparr>state_a_b := Hold, state_b_a := Hold,
     link_sent := map (\<lambda>m. m\<lparr>sent_status := OnHold\<rparr>) (link_sent l)\<rparr>"

definition link_release :: "Link \<Rightarrow> Link" where
  "link_release l = l\<lparr>state_a_b := Healthy, state_b_a := Healthy,
     link_sent := map (\<lambda>m. if sent_status m = OnHold then sent_deliver (link_now l) m else m) (link_sent l)\<rparr>"

definition explicit_partition :: "Link \<Rightarrow> Link" where
  "explicit_partition l = l\<lparr>state_a_b := ExplicitPartition, state_b_a := ExplicitPartition, link_sent := []\<rparr>"

definition link_partition_oneway :: "IpAddr \<Rightarrow> IpAddr \<Rightarrow> Link \<Rightarrow> Link" where
  "link_partition_oneway src dst l =
     (let l1 = (if src < dst then l\<lparr>state_a_b := ExplicitPartition\<rparr> else l\<lparr>state_b_a := ExplicitPartition\<rparr>)
      in l1\<lparr>link_sent := filter (\<lambda>m. sa_ip (sent_src m) \<noteq> src) (link_sent l1)\<rparr>)"

definition link_repair_oneway :: "IpAddr \<Rightarrow> IpAddr \<Rightarrow> Link \<Rightarrow> Link" where
  "link_repair_oneway src dst l = (if src < dst then l\<lparr>state_a_b := Healthy\<rparr> else l\<lparr>state_b_a := Healthy\<rparr>)"

definition explicit_repair :: "Link \<Rightarrow> Link" where
  "explicit_repair l = l\<lparr>state_a_b := Healthy, state_b_a := Healthy\<rparr>"

text \<open>
  The second arm of the \<^verbatim>\<open>match\<close> has two alternatives and a guard that draws: Rust runs the guard
  again for the second alternative when it failed for the first.
\<close>

definition rand_partition_or_repair :: "'g NetRng \<Rightarrow> MessageLoss \<Rightarrow> Link \<Rightarrow> 'g \<Rightarrow> Link \<times> 'g" where
  "rand_partition_or_repair rng global l g =
     (let (do_rand, g1) = rand_partition rng global l g
      in if (state_a_b l = Healthy \<or> state_b_a l = Healthy) \<and> do_rand then
           (l\<lparr>state_a_b := RandPartition, state_b_a := RandPartition, link_sent := []\<rparr>, g1)
         else
           (let (r1, g2) = (if state_a_b l = RandPartition then rand_repair rng global l g1 else (False, g1))
            in if r1 then (link_release l, g2)
               else
                 (let (r2, g3) = (if state_b_a l = RandPartition then rand_repair rng global l g2 else (False, g2))
                  in if r2 then (link_release l, g3) else (l, g3))))"

text \<open>The loop of \<^verbatim>\<open>process_deliverables\<close>: index \<open>i - moved\<close> of the shrinking queue at step \<open>i\<close>.\<close>

definition push_deliverable :: "IpAddr \<Rightarrow> Envelope \<Rightarrow> (IpAddr, Envelope list) imap \<Rightarrow> (IpAddr, Envelope list) imap" where
  "push_deliverable ip e d =
     imap_insert ip ((case imap_get d ip of None \<Rightarrow> [] | Some es \<Rightarrow> es) @ [e]) d"

definition envelope_of :: "Sent \<Rightarrow> Envelope" where
  "envelope_of m = \<lparr>env_src = sent_src m, env_dst = sent_dst m, env_message = sent_protocol m\<rparr>"

fun is_due :: "nat \<Rightarrow> Sent \<Rightarrow> bool" where
  "is_due now m = (case sent_status m of DeliverAfter time \<Rightarrow> time \<le> now | OnHold \<Rightarrow> False)"

fun process_loop ::
  "nat \<Rightarrow> nat \<Rightarrow> nat \<Rightarrow> nat \<Rightarrow> Sent list \<Rightarrow> (IpAddr, Envelope list) imap \<Rightarrow> Sent list \<times> (IpAddr, Envelope list) imap" where
  "process_loop now 0 i moved sent d = (sent, d)"
| "process_loop now (Suc n) i moved sent d =
     (let index = i - moved; m = sent ! index
      in if is_due now m then
           process_loop now n (i + 1) (moved + 1) (take index sent @ drop (index + 1) sent)
             (push_deliverable (sa_ip (sent_dst m)) (envelope_of m) d)
         else process_loop now n (i + 1) moved sent d)"

definition process_deliverables :: "Link \<Rightarrow> Link" where
  "process_deliverables l =
     (let (sent, d) = process_loop (link_now l) (length (link_sent l)) 0 0 (link_sent l) (deliverable l)
      in l\<lparr>link_sent := sent, deliverable := d\<rparr>)"

definition link_enqueue ::
  "'g NetRng \<Rightarrow> Latency \<Rightarrow> SocketAddr \<Rightarrow> SocketAddr \<Rightarrow> Protocol \<Rightarrow> Link \<Rightarrow> 'g \<Rightarrow> (Link \<times> 'g) option" where
  "link_enqueue rng global src dst message l g =
     (case get_state_for_message (sa_ip src) (sa_ip dst) l of
        Healthy \<Rightarrow> do {
          (d, g1) \<leftarrow> delay rng global l g;
          Some (l\<lparr>link_sent := link_sent l @ [\<lparr>sent_src = src, sent_dst = dst,
             sent_status = DeliverAfter (link_now l + d), sent_protocol = message\<rparr>]\<rparr>, g1)
        }
      | Hold \<Rightarrow>
          Some (l\<lparr>link_sent := link_sent l @ [\<lparr>sent_src = src, sent_dst = dst,
             sent_status = OnHold, sent_protocol = message\<rparr>]\<rparr>, g)
      | _ \<Rightarrow> Some (l, g))"

text \<open>The global configuration has both parts set; a missing part is a panic.\<close>

definition link_enqueue_message ::
  "'g NetRng \<Rightarrow> LinkConfig \<Rightarrow> SocketAddr \<Rightarrow> SocketAddr \<Rightarrow> Protocol \<Rightarrow> Link \<Rightarrow> 'g \<Rightarrow> (Link \<times> 'g) option" where
  "link_enqueue_message rng cfg src dst message l g = do {
     loss \<leftarrow> lc_message_loss cfg;
     let (l1, g1) = rand_partition_or_repair rng loss l g;
     latency \<leftarrow> lc_latency cfg;
     (l2, g2) \<leftarrow> link_enqueue rng latency src dst message l1 g1;
     Some (process_deliverables l2, g2)
   }"

definition link_tick :: "nat \<Rightarrow> Link \<Rightarrow> Link" where
  "link_tick now l = process_deliverables (l\<lparr>link_now := now\<rparr>)"

fun deliver_each ::
  "'g NetRng \<Rightarrow> LinkConfig \<Rightarrow> Envelope list \<Rightarrow> SimHost \<Rightarrow> Link \<Rightarrow> 'g \<Rightarrow> (SimHost \<times> Link \<times> 'g) option" where
  "deliver_each rng cfg [] h l g = Some (h, l, g)"
| "deliver_each rng cfg (e # es) h l g = do {
     (r, h1) \<leftarrow> receive_from_network e h;
     (l1, g1) \<leftarrow> (case r of
                    Inr _ \<Rightarrow> Some (l, g)
                  | Inl reply \<Rightarrow> link_enqueue_message rng cfg (env_dst e) (env_src e) reply l g);
     deliver_each rng cfg es h1 l1 g1
   }"

definition link_deliver_messages ::
  "'g NetRng \<Rightarrow> LinkConfig \<Rightarrow> SimHost \<Rightarrow> Link \<Rightarrow> 'g \<Rightarrow> (SimHost \<times> Link \<times> 'g) option" where
  "link_deliver_messages rng cfg h l g =
     (let es = (case imap_get (deliverable l) (host_addr h) of None \<Rightarrow> [] | Some es \<Rightarrow> es)
      in deliver_each rng cfg es h (l\<lparr>deliverable := imap_insert (host_addr h) [] (deliverable l)\<rparr>) g)"

text \<open>\<^verbatim>\<open>LinkIter::deliver_all\<close>: everything in flight, held or not, becomes due.\<close>

definition link_deliver_all :: "Link \<Rightarrow> Link" where
  "link_deliver_all l = l\<lparr>link_sent := map (sent_deliver (link_now l)) (link_sent l)\<rparr>"

section \<open>The topology\<close>

type_synonym Pair = "IpAddr \<times> IpAddr"

definition Pair_new :: "IpAddr \<Rightarrow> IpAddr \<Rightarrow> Pair option" where
  "Pair_new a b = (if a = b then None else Some (if a < b then (a, b) else (b, a)))"

record Topology =
  top_config :: LinkConfig
  links_of :: "(Pair, Link) imap"
  top_now :: nat

definition Topology_new :: "LinkConfig \<Rightarrow> Topology" where
  "Topology_new cfg = \<lparr>top_config = cfg, links_of = [], top_now = 0\<rparr>"

definition top_register :: "IpAddr \<Rightarrow> IpAddr \<Rightarrow> Topology \<Rightarrow> Topology option" where
  "top_register a b t = do {
     pair \<leftarrow> Pair_new a b;
     if imap_get (links_of t) pair \<noteq> None then None
     else Some (t\<lparr>links_of := imap_insert pair (Link_new (top_now t)) (links_of t)\<rparr>)
   }"

text \<open>\<^verbatim>\<open>get_link_mut\<close> panics when the hosts have no link.\<close>

definition on_link :: "IpAddr \<Rightarrow> IpAddr \<Rightarrow> (Link \<Rightarrow> Link) \<Rightarrow> Topology \<Rightarrow> Topology option" where
  "on_link a b f t = do {
     pair \<leftarrow> Pair_new a b;
     l \<leftarrow> imap_get (links_of t) pair;
     Some (t\<lparr>links_of := imap_insert pair (f l) (links_of t)\<rparr>)
   }"

definition top_hold :: "IpAddr \<Rightarrow> IpAddr \<Rightarrow> Topology \<Rightarrow> Topology option" where
  "top_hold a b = on_link a b link_hold"

definition top_release :: "IpAddr \<Rightarrow> IpAddr \<Rightarrow> Topology \<Rightarrow> Topology option" where
  "top_release a b = on_link a b link_release"

definition top_partition :: "IpAddr \<Rightarrow> IpAddr \<Rightarrow> Topology \<Rightarrow> Topology option" where
  "top_partition a b = on_link a b explicit_partition"

definition top_partition_oneway :: "IpAddr \<Rightarrow> IpAddr \<Rightarrow> Topology \<Rightarrow> Topology option" where
  "top_partition_oneway a b = on_link a b (link_partition_oneway a b)"

definition top_repair :: "IpAddr \<Rightarrow> IpAddr \<Rightarrow> Topology \<Rightarrow> Topology option" where
  "top_repair a b = on_link a b explicit_repair"

definition top_repair_oneway :: "IpAddr \<Rightarrow> IpAddr \<Rightarrow> Topology \<Rightarrow> Topology option" where
  "top_repair_oneway a b = on_link a b (link_repair_oneway a b)"

text \<open>A link takes a copy of the global setting when its own is first changed.\<close>

definition set_max_message_latency :: "duration \<Rightarrow> Topology \<Rightarrow> Topology option" where
  "set_max_message_latency v t = do {
     c \<leftarrow> lc_latency (top_config t);
     Some (t\<lparr>top_config := (top_config t)\<lparr>lc_latency := Some (c\<lparr>max_message_latency := v\<rparr>)\<rparr>\<rparr>)
   }"

definition set_fail_rate :: "rat \<Rightarrow> Topology \<Rightarrow> Topology option" where
  "set_fail_rate v t = do {
     c \<leftarrow> lc_message_loss (top_config t);
     Some (t\<lparr>top_config := (top_config t)\<lparr>lc_message_loss := Some (c\<lparr>fail_rate := v\<rparr>)\<rparr>\<rparr>)
   }"

definition set_link_message_latency :: "IpAddr \<Rightarrow> IpAddr \<Rightarrow> duration \<Rightarrow> Topology \<Rightarrow> Topology option" where
  "set_link_message_latency a b v t = do {
     global \<leftarrow> lc_latency (top_config t);
     on_link a b (\<lambda>l. l\<lparr>link_config := (link_config l)\<lparr>lc_latency :=
       Some ((link_latency global l)\<lparr>min_message_latency := v, max_message_latency := v\<rparr>)\<rparr>\<rparr>) t
   }"

definition set_link_max_message_latency :: "IpAddr \<Rightarrow> IpAddr \<Rightarrow> duration \<Rightarrow> Topology \<Rightarrow> Topology option" where
  "set_link_max_message_latency a b v t = do {
     global \<leftarrow> lc_latency (top_config t);
     on_link a b (\<lambda>l. l\<lparr>link_config := (link_config l)\<lparr>lc_latency :=
       Some ((link_latency global l)\<lparr>max_message_latency := v\<rparr>)\<rparr>\<rparr>) t
   }"

definition set_link_fail_rate :: "IpAddr \<Rightarrow> IpAddr \<Rightarrow> rat \<Rightarrow> Topology \<Rightarrow> Topology option" where
  "set_link_fail_rate a b v t = do {
     global \<leftarrow> lc_message_loss (top_config t);
     on_link a b (\<lambda>l. l\<lparr>link_config := (link_config l)\<lparr>lc_message_loss :=
       Some ((link_loss global l)\<lparr>fail_rate := v\<rparr>)\<rparr>\<rparr>) t
   }"

definition top_enqueue_message ::
  "'g NetRng \<Rightarrow> SocketAddr \<Rightarrow> SocketAddr \<Rightarrow> Protocol \<Rightarrow> Topology \<Rightarrow> 'g \<Rightarrow> (unit io_result \<times> Topology \<times> 'g) option" where
  "top_enqueue_message rng src dst message t g = do {
     pair \<leftarrow> Pair_new (sa_ip src) (sa_ip dst);
     case imap_get (links_of t) pair of
       None \<Rightarrow> Some (Err (Kind ConnectionRefused), t, g)
     | Some l \<Rightarrow> do {
         (l1, g1) \<leftarrow> link_enqueue_message rng (top_config t) src dst message l g;
         Some (Ok (), t\<lparr>links_of := imap_insert pair l1 (links_of t)\<rparr>, g1)
       }
   }"

fun deliver_links ::
  "'g NetRng \<Rightarrow> LinkConfig \<Rightarrow> (Pair, Link) imap \<Rightarrow> SimHost \<Rightarrow> 'g \<Rightarrow> ((Pair, Link) imap \<times> SimHost \<times> 'g) option" where
  "deliver_links rng cfg [] h g = Some ([], h, g)"
| "deliver_links rng cfg ((pair, l) # ls) h g = do {
     (h1, l1, g1) \<leftarrow> (if fst pair = host_addr h \<or> snd pair = host_addr h then link_deliver_messages rng cfg h l g
                      else Some (h, l, g));
     (ls1, h2, g2) \<leftarrow> deliver_links rng cfg ls h1 g1;
     Some ((pair, l1) # ls1, h2, g2)
   }"

definition top_deliver_messages ::
  "'g NetRng \<Rightarrow> SimHost \<Rightarrow> Topology \<Rightarrow> 'g \<Rightarrow> (SimHost \<times> Topology \<times> 'g) option" where
  "top_deliver_messages rng h t g = do {
     (ls, h1, g1) \<leftarrow> deliver_links rng (top_config t) (links_of t) h g;
     Some (h1, t\<lparr>links_of := ls\<rparr>, g1)
   }"

definition tick_by :: "duration \<Rightarrow> Topology \<Rightarrow> Topology" where
  "tick_by d t =
     (let now = top_now t + d
      in t\<lparr>top_now := now, links_of := map (\<lambda>(p, l). (p, link_tick now l)) (links_of t)\<rparr>)"

end
