(* ===== verification/Sim_Links.thy ===== *)
theory Sim_Links
  imports Sim_Top "HOL-Library.Multiset"
begin

text \<open>
  What the links of \<^verbatim>\<open>turmoil/src/top.rs\<close> promise: the removal loop of \<^verbatim>\<open>process_deliverables\<close> is a
  stable partition of the messages in flight, a healthy link delivers each message once and within
  its latency bounds, a held link keeps everything and loses nothing until it is released, and a
  one-way partition stops one direction only. The last section has the limits of random failure.
\<close>

section \<open>The removal loop is a stable partition\<close>

definition queue_for :: "(IpAddr, Envelope list) imap \<Rightarrow> IpAddr \<Rightarrow> Envelope list" where
  "queue_for d ip = (case imap_get d ip of None \<Rightarrow> [] | Some es \<Rightarrow> es)"

lemma queue_for_push:
  "queue_for (push_deliverable ip' e d) ip = queue_for d ip @ (if ip' = ip then [e] else [])"
  by (auto simp: queue_for_def push_deliverable_def imap_simps)

text \<open>The messages for one address among those due, as the envelopes the host will see.\<close>

definition due_for :: "nat \<Rightarrow> IpAddr \<Rightarrow> Sent list \<Rightarrow> Envelope list" where
  "due_for now ip ms = map envelope_of (filter (\<lambda>m. is_due now m \<and> sa_ip (sent_dst m) = ip) ms)"

lemma due_for_simps [simp]:
  "due_for now ip [] = []"
  "due_for now ip (ms @ ms') = due_for now ip ms @ due_for now ip ms'"
  by (simp_all add: due_for_def)

lemma due_for_Cons:
  "due_for now ip (m # ms) =
     (if is_due now m \<and> sa_ip (sent_dst m) = ip then [envelope_of m] else []) @ due_for now ip ms"
  by (simp add: due_for_def)

text \<open>At step \<open>i\<close> the first \<open>i - moved\<close> messages have been kept, and the rest is still to be seen.\<close>

lemma process_loop_kept:
  "i = length kept + moved \<Longrightarrow>
   fst (process_loop now (length rest) i moved (kept @ rest) d) = kept @ filter (\<lambda>m. \<not> is_due now m) rest"
proof (induction rest arbitrary: i moved kept d)
  case (Cons m rest)
  show ?case
  proof (cases "is_due now m")
    case True
    then show ?thesis using Cons.IH [of "i + 1" kept "moved + 1"] Cons.prems by (simp add: Let_def)
  next
    case False
    then show ?thesis using Cons.IH [of "i + 1" "kept @ [m]" moved] Cons.prems by (simp add: Let_def)
  qed
qed simp

lemma process_loop_queue:
  "i = length kept + moved \<Longrightarrow>
   queue_for (snd (process_loop now (length rest) i moved (kept @ rest) d)) ip =
     queue_for d ip @ due_for now ip rest"
proof (induction rest arbitrary: i moved kept d)
  case (Cons m rest)
  show ?case
  proof (cases "is_due now m")
    case True
    then show ?thesis
      using Cons.IH [of "i + 1" kept "moved + 1"] Cons.prems
      by (simp add: Let_def queue_for_push due_for_Cons)
  next
    case False
    then show ?thesis
      using Cons.IH [of "i + 1" "kept @ [m]" moved] Cons.prems by (simp add: Let_def due_for_Cons)
  qed
qed simp

lemma process_sent: "link_sent (process_deliverables l) = filter (\<lambda>m. \<not> is_due (link_now l) m) (link_sent l)"
  using process_loop_kept [of 0 "[]" 0 "link_now l" "link_sent l" "deliverable l"]
  by (simp add: process_deliverables_def case_prod_beta' Let_def)

lemma process_queue:
  "queue_for (deliverable (process_deliverables l)) ip =
     queue_for (deliverable l) ip @ due_for (link_now l) ip (link_sent l)"
  using process_loop_queue [of 0 "[]" 0 "link_now l" "link_sent l" "deliverable l" ip]
  by (simp add: process_deliverables_def case_prod_beta' Let_def)

lemma process_frame [simp]:
  "link_now (process_deliverables l) = link_now l"
  "state_a_b (process_deliverables l) = state_a_b l"
  "state_b_a (process_deliverables l) = state_b_a l"
  "link_config (process_deliverables l) = link_config l"
  by (simp_all add: process_deliverables_def case_prod_beta' Let_def)

lemma process_none_due:
  assumes "\<forall>m \<in> set (link_sent l). \<not> is_due (link_now l) m"
  shows "process_deliverables l = l"
proof -
  have "process_loop now (length rest) i moved (kept @ rest) d = (kept @ rest, d)"
    if "\<forall>m \<in> set rest. \<not> is_due now m" "i = length kept + moved" for now rest i moved kept d
    using that
  proof (induction rest arbitrary: i kept)
    case (Cons m rest)
    then show ?case using Cons.IH [of "i + 1" "kept @ [m]"] by (simp add: Let_def)
  qed simp
  from this [OF assms, of 0 "[]" 0] show ?thesis by (simp add: process_deliverables_def)
qed

section \<open>A healthy link delivers within its bounds\<close>

text \<open>The message is the last of those in flight, due within the bounds of the link.\<close>

lemma delay_bounds:
  assumes "min_message_latency (link_latency global l) \<le> max_message_latency (link_latency global l)"
  obtains d g' where "delay rng global l g = Some (d, g')"
    "min_message_latency (link_latency global l) \<le> d" "d \<le> max_message_latency (link_latency global l)"
  using assms by (auto simp: delay_def Let_def case_prod_beta')

lemma no_random_change:
  assumes "fail_rate (link_loss global l) \<le> 0" "state_a_b l \<noteq> RandPartition" "state_b_a l \<noteq> RandPartition"
  shows "rand_partition_or_repair rng global l g = (l, g)"
  using assms by (simp add: rand_partition_or_repair_def rand_partition_def toss_def)

lemma is_due_mono: "is_due now m \<Longrightarrow> now \<le> now' \<Longrightarrow> is_due now' m"
  by (auto split: DeliveryStatus.splits)

lemma due_for_split:
  assumes "now \<le> now'"
  shows "mset (due_for now ip ms) + mset (due_for now' ip (filter (\<lambda>m. \<not> is_due now m) ms)) =
    mset (due_for now' ip ms)"
proof (induction ms)
  case (Cons m ms)
  then show ?case using is_due_mono [OF _ assms, of m] by (auto simp: due_for_Cons simp del: is_due.simps)
qed simp

lemma tick_after_process:
  assumes "link_now l \<le> now"
  shows "mset (queue_for (deliverable (link_tick now (process_deliverables l))) ip) =
    mset (queue_for (deliverable l) ip) + mset (due_for now ip (link_sent l))"
  using due_for_split [OF assms, of ip "link_sent l"]
  by (simp add: link_tick_def process_queue process_sent)

text \<open>
  C21. On a link that is healthy in the direction of a message and does not fail at random, sending the
  message succeeds whatever the generator draws, with a delay between the minimum and the maximum
  latency of the link: at a later tick the queue of each address holds what it would have held without
  the message, and the destination's holds the message exactly once more if the delay has passed.
\<close>

theorem healthy_link_delivers:
  fixes rng :: "'g NetRng"
  assumes cfg: "lc_message_loss cfg = Some loss" "lc_latency cfg = Some latency"
    and quiet: "fail_rate (link_loss loss l) \<le> 0" "state_a_b l \<noteq> RandPartition" "state_b_a l \<noteq> RandPartition"
    and healthy: "get_state_for_message (sa_ip src) (sa_ip dst) l = Healthy"
    and range: "min_message_latency (link_latency latency l) \<le> max_message_latency (link_latency latency l)"
  shows "\<exists>l' g' d. link_enqueue_message rng cfg src dst message l g = Some (l', g') \<and>
    min_message_latency (link_latency latency l) \<le> d \<and> d \<le> max_message_latency (link_latency latency l) \<and>
    (\<forall>t ip. mset (queue_for (deliverable (link_tick (link_now l + t) l')) ip) =
       mset (queue_for (deliverable (link_tick (link_now l + t) (process_deliverables l))) ip) +
       (if ip = sa_ip dst \<and> d \<le> t then {#\<lparr>env_src = src, env_dst = dst, env_message = message\<rparr>#} else {#}))"
proof -
  obtain d g' where d: "delay rng latency l g = Some (d, g')"
    "min_message_latency (link_latency latency l) \<le> d" "d \<le> max_message_latency (link_latency latency l)"
    by (rule delay_bounds [OF range])
  define l2 where "l2 = l\<lparr>link_sent := link_sent l @ [\<lparr>sent_src = src, sent_dst = dst,
    sent_status = DeliverAfter (link_now l + d), sent_protocol = message\<rparr>]\<rparr>"
  have sent: "link_enqueue_message rng cfg src dst message l g = Some (process_deliverables l2, g')"
    using d(1) by (simp add: link_enqueue_message_def cfg no_random_change [OF quiet] link_enqueue_def healthy l2_def)
  have "mset (queue_for (deliverable (link_tick (link_now l + t) (process_deliverables l2))) ip) =
      mset (queue_for (deliverable (link_tick (link_now l + t) (process_deliverables l))) ip) +
      (if ip = sa_ip dst \<and> d \<le> t then {#\<lparr>env_src = src, env_dst = dst, env_message = message\<rparr>#} else {#})" for t ip
    using tick_after_process [of l2 "link_now l + t" ip] tick_after_process [of l "link_now l + t" ip]
    by (auto simp: l2_def due_for_Cons envelope_of_def)
  with sent d(2,3) show ?thesis by blast
qed

definition two_rng :: "nat NetRng" where
  "two_rng = \<lparr>coin = (\<lambda>r g. (r > 1 / 2, g + 1)), exp_sample = (\<lambda>r g. (1 / 2, g + 1))\<rparr>"

definition default_links :: LinkConfig where
  "default_links = \<lparr>lc_latency = Some Latency_default, lc_message_loss = Some MessageLoss_default\<rparr>"

theorem healthy_link_delivers_witness:
  "\<exists>l' g' d. link_enqueue_message two_rng default_links (SocketAddr (V4 10) 1) (SocketAddr (V4 20) 2) (ProtoUdp [7]) (Link_new 0) 0 =
      Some (l', g') \<and> d \<le> 100 * 10 ^ 6 \<and>
    (\<forall>t ip. mset (queue_for (deliverable (link_tick (0 + t) l')) ip) =
       (if ip = V4 20 \<and> d \<le> t
        then {#\<lparr>env_src = SocketAddr (V4 10) 1, env_dst = SocketAddr (V4 20) 2, env_message = ProtoUdp [7]\<rparr>#} else {#}))"
  using healthy_link_delivers [of default_links MessageLoss_default Latency_default "Link_new 0" "SocketAddr (V4 10) 1"
    "SocketAddr (V4 20) 2" two_rng "ProtoUdp [7]" 0]
  by (simp add: default_links_def MessageLoss_default_def Latency_default_def Link_new_def LinkConfig_default_def
    link_loss_def link_latency_def get_state_for_message_def link_tick_def process_deliverables_def queue_for_def)

section \<open>Holding and releasing\<close>

text \<open>What may happen to a held link: messages are sent in both directions and the clock moves.\<close>

datatype LinkOp = SendOp SocketAddr SocketAddr Protocol | TickOp nat

fun link_run :: "'g NetRng \<Rightarrow> LinkConfig \<Rightarrow> LinkOp list \<Rightarrow> Link \<Rightarrow> 'g \<Rightarrow> (Link \<times> 'g) option" where
  "link_run rng cfg [] l g = Some (l, g)"
| "link_run rng cfg (SendOp src dst message # ops) l g =
     Option.bind (link_enqueue_message rng cfg src dst message l g) (\<lambda>(l1, g1). link_run rng cfg ops l1 g1)"
| "link_run rng cfg (TickOp t # ops) l g = link_run rng cfg ops (link_tick t l) g"

fun sent_by :: "LinkOp list \<Rightarrow> Envelope list" where
  "sent_by [] = []"
| "sent_by (SendOp src dst message # ops) = \<lparr>env_src = src, env_dst = dst, env_message = message\<rparr> # sent_by ops"
| "sent_by (TickOp t # ops) = sent_by ops"

definition link_held :: "Link \<Rightarrow> bool" where
  "link_held l \<longleftrightarrow> state_a_b l = Hold \<and> state_b_a l = Hold \<and> (\<forall>m \<in> set (link_sent l). sent_status m = OnHold)"

lemma held_hold: "link_held (link_hold l)"
  by (auto simp: link_held_def link_hold_def)

lemma envelope_of_status [simp]: "envelope_of (m\<lparr>sent_status := st\<rparr>) = envelope_of m"
  by (simp add: envelope_of_def)

lemma held_process: "link_held l \<Longrightarrow> process_deliverables l = l"
  by (rule process_none_due) (simp add: link_held_def)

lemma held_tick: "link_held l \<Longrightarrow> link_tick t l = l\<lparr>link_now := t\<rparr> \<and> link_held (l\<lparr>link_now := t\<rparr>)"
  by (simp add: link_tick_def held_process link_held_def)

lemma held_send:
  assumes "link_held l" "lc_message_loss cfg = Some loss" "lc_latency cfg = Some latency"
  obtains l' g' where "link_enqueue_message rng cfg src dst message l g = Some (l', g')" "link_held l'"
    "deliverable l' = deliverable l"
    "map envelope_of (link_sent l') =
       map envelope_of (link_sent l) @ [\<lparr>env_src = src, env_dst = dst, env_message = message\<rparr>]"
proof -
  define l2 where "l2 = l\<lparr>link_sent := link_sent l @ [\<lparr>sent_src = src, sent_dst = dst,
    sent_status = OnHold, sent_protocol = message\<rparr>]\<rparr>"
  obtain g' where "rand_partition_or_repair rng loss l g = (l, g')"
    using assms(1) by (auto simp: rand_partition_or_repair_def link_held_def case_prod_beta')
  moreover have "link_held l2"
    using assms(1) by (simp add: l2_def link_held_def)
  ultimately have "link_enqueue_message rng cfg src dst message l g = Some (l2, g')"
    using assms held_process [of l2]
    by (simp add: link_enqueue_message_def link_enqueue_def get_state_for_message_def link_held_def l2_def)
  then show ?thesis using \<open>link_held l2\<close> by (rule that) (simp_all add: l2_def envelope_of_def)
qed

lemma held_run:
  assumes "link_held l" "lc_message_loss cfg = Some loss" "lc_latency cfg = Some latency"
  shows "\<exists>l' g'. link_run rng cfg ops l g = Some (l', g') \<and> link_held l' \<and> deliverable l' = deliverable l \<and>
    map envelope_of (link_sent l') = map envelope_of (link_sent l) @ sent_by ops"
  using assms(1)
proof (induction ops arbitrary: l g)
  case (Cons op ops)
  show ?case
  proof (cases op)
    case (SendOp src dst message)
    obtain l1 g1 where "link_enqueue_message rng cfg src dst message l g = Some (l1, g1)" "link_held l1"
      "deliverable l1 = deliverable l"
      "map envelope_of (link_sent l1) =
         map envelope_of (link_sent l) @ [\<lparr>env_src = src, env_dst = dst, env_message = message\<rparr>]"
      using held_send [OF Cons.prems assms(2,3)] by metis
    then show ?thesis using Cons.IH [of l1 g1] by (simp add: SendOp)
  next
    case (TickOp t)
    then show ?thesis
      using held_tick [OF Cons.prems, of t] Cons.IH [of "l\<lparr>link_now := t\<rparr>" g] by simp
  qed
qed simp

lemma held_release_tick:
  assumes "link_held l"
  shows "link_sent (link_tick (link_now l + t) (link_release l)) = []"
    and "queue_for (deliverable (link_tick (link_now l + t) (link_release l))) ip =
      queue_for (deliverable l) ip @ filter (\<lambda>e. sa_ip (env_dst e) = ip) (map envelope_of (link_sent l))"
proof -
  have due: "is_due (link_now l + t) m \<longleftrightarrow> m \<in> set (link_sent (link_release l))"
    if "m \<in> set (link_sent (link_release l))" for m
    using that assms by (auto simp: link_held_def link_release_def sent_deliver_def)
  then show "link_sent (link_tick (link_now l + t) (link_release l)) = []"
    by (simp add: link_tick_def process_sent filter_empty_conv)
  have all: "link_sent (link_release l) = map (sent_deliver (link_now l)) (link_sent l)"
    using assms by (simp add: link_held_def link_release_def)
  have "due_for (link_now l + t) ip (map (sent_deliver (link_now l)) ms) =
      filter (\<lambda>e. sa_ip (env_dst e) = ip) (map envelope_of ms)" for ms
    by (induction ms) (simp_all add: due_for_Cons sent_deliver_def, simp_all add: envelope_of_def)
  moreover have "deliverable (link_release l) = deliverable l"
    by (simp add: link_release_def)
  ultimately show "queue_for (deliverable (link_tick (link_now l + t) (link_release l))) ip =
      queue_for (deliverable l) ip @ filter (\<lambda>e. sa_ip (env_dst e) = ip) (map envelope_of (link_sent l))"
    by (simp add: link_tick_def process_queue all)
qed

text \<open>
  C20. Holding a link loses and delivers nothing: whatever is sent over it and however the clock moves,
  every send succeeds and the queues of its hosts do not change; after the release, the next tick of the
  topology delivers everything that was in flight and everything sent meanwhile, in the order it was
  sent, and leaves nothing on the link.
\<close>

theorem link_hold_release:
  fixes rng :: "'g NetRng"
  assumes "lc_message_loss cfg = Some loss" "lc_latency cfg = Some latency"
  shows "\<exists>l' g'. link_run rng cfg ops (link_hold l) g = Some (l', g') \<and> deliverable l' = deliverable l \<and>
    (\<forall>t. link_sent (link_tick (link_now l' + t) (link_release l')) = [] \<and>
      (\<forall>ip. queue_for (deliverable (link_tick (link_now l' + t) (link_release l'))) ip =
        queue_for (deliverable l) ip @
        filter (\<lambda>e. sa_ip (env_dst e) = ip) (map envelope_of (link_sent l) @ sent_by ops)))"
proof -
  have "deliverable (link_hold l) = deliverable l"
    "map envelope_of (link_sent (link_hold l)) = map envelope_of (link_sent l)"
    by (simp_all add: link_hold_def)
  then obtain l' g' where "link_run rng cfg ops (link_hold l) g = Some (l', g')" "link_held l'" "deliverable l' = deliverable l"
    "map envelope_of (link_sent l') = map envelope_of (link_sent l) @ sent_by ops"
    using held_run [OF held_hold assms, of rng ops l g] by auto
  then show ?thesis using held_release_tick [of l'] by simp
qed

theorem link_hold_release_witness:
  "\<exists>l' g'. link_run two_rng default_links [SendOp (SocketAddr (V4 10) 1) (SocketAddr (V4 20) 2) (ProtoUdp [7]), TickOp 9]
      (link_hold (Link_new 0)) 0 = Some (l', g') \<and>
    (\<forall>t. queue_for (deliverable (link_tick (link_now l' + t) (link_release l'))) (V4 20) =
      [\<lparr>env_src = SocketAddr (V4 10) 1, env_dst = SocketAddr (V4 20) 2, env_message = ProtoUdp [7]\<rparr>])"
  using link_hold_release [of default_links MessageLoss_default Latency_default two_rng
    "[SendOp (SocketAddr (V4 10) 1) (SocketAddr (V4 20) 2) (ProtoUdp [7]), TickOp 9]" "Link_new 0" 0]
  by (auto simp: default_links_def Link_new_def queue_for_def)

section \<open>Partitions\<close>

text \<open>A one-way partition drops what is sent in its direction and nothing else.\<close>

lemma get_state_partition_oneway:
  assumes "a \<noteq> b"
  shows "get_state_for_message a b (link_partition_oneway a b l) = ExplicitPartition"
    and "get_state_for_message b a (link_partition_oneway a b l) = get_state_for_message b a l"
  using assms by (auto simp: get_state_for_message_def link_partition_oneway_def Let_def)

lemma partition_oneway_drops:
  assumes "sa_ip src \<noteq> sa_ip dst" "l' = link_partition_oneway (sa_ip src) (sa_ip dst) l"
  shows "link_enqueue rng global src dst message l' g = Some (l', g)"
    and "link_sent l' = filter (\<lambda>m. sa_ip (sent_src m) \<noteq> sa_ip src) (link_sent l)"
  using assms get_state_partition_oneway [of "sa_ip src" "sa_ip dst" l]
  by (auto simp: link_enqueue_def link_partition_oneway_def Let_def)

lemma repair_undoes_partition:
  assumes "a \<noteq> b"
  shows "get_state_for_message a b (link_repair_oneway a b l) = Healthy"
    and "get_state_for_message b a (link_repair_oneway a b l) = get_state_for_message b a l"
    and "link_sent (link_repair_oneway a b l) = link_sent l"
  using assms by (auto simp: get_state_for_message_def link_repair_oneway_def)

section \<open>Limits of random failure\<close>

text \<open>
  A random failure of a link with an explicit one-way partition turns both directions into random
  partitions, and the random repair that follows makes both healthy: the explicit partition is gone,
  though nobody repaired it.
\<close>

lemma random_repair_lifts_explicit_partition:
  assumes "state_a_b l = ExplicitPartition" "state_b_a l = Healthy"
    and "rand_partition rng global l g = (True, g1)"
    and "rand_repair rng global (l\<lparr>state_a_b := RandPartition, state_b_a := RandPartition, link_sent := []\<rparr>) g2 = (True, g3)"
    and "rand_partition rng global (l\<lparr>state_a_b := RandPartition, state_b_a := RandPartition, link_sent := []\<rparr>) g1 = (b, g2)"
  shows "\<exists>l1. rand_partition_or_repair rng global l g = (l1, g1) \<and>
    state_a_b (fst (rand_partition_or_repair rng global l1 g1)) = Healthy"
  using assms by (simp add: rand_partition_or_repair_def link_release_def)

text \<open>A failed link gets two draws at the repair rate on each message, not one.\<close>

lemma repair_draws_twice:
  assumes "state_a_b l = RandPartition" "state_b_a l = RandPartition"
    and "rand_partition rng global l g = (b, g1)"
    and "rand_repair rng global l g1 = (False, g2)" "rand_repair rng global l g2 = (True, g3)"
  shows "rand_partition_or_repair rng global l g = (link_release l, g3)"
  using assms by (simp add: rand_partition_or_repair_def)

text \<open>Repairing a held link without releasing it leaves what was held on the link, at every later time.\<close>

lemma repair_strands_held:
  assumes "link_held l"
  shows "link_tick t (explicit_repair l) = (explicit_repair l)\<lparr>link_now := t\<rparr>"
  using assms by (auto simp: link_tick_def explicit_repair_def link_held_def intro!: process_none_due)

text \<open>Lowering the maximum latency below the minimum makes the next message on a healthy link panic.\<close>

lemma lowered_maximum_panics:
  assumes "lc_latency (link_config l) = Some c" "max_message_latency c < min_message_latency c"
    and "get_state_for_message (sa_ip src) (sa_ip dst) l = Healthy"
  shows "link_enqueue rng global src dst message l g = None"
  using assms by (simp add: link_enqueue_def delay_def link_latency_def case_prod_beta' Let_def)

end
