(* ===== verification/Sim_Dns.thy ===== *)
theory Sim_Dns
  imports Name_Table
begin

text \<open>
  \<^verbatim>\<open>turmoil/src/ip.rs\<close> and \<^verbatim>\<open>turmoil/src/dns.rs\<close>: the address iterators of an IPv4 and an IPv6
  simulation, and the name table that hands their addresses out.
\<close>

section \<open>Address iterators\<close>

datatype IpVersion = Ver4 | Ver6

datatype IpVersionAddrIter = Iter4 u32 | Iter6 u128

fun version_iter :: "IpVersion \<Rightarrow> IpVersionAddrIter" where
  "version_iter Ver4 = Iter4 1"
| "version_iter Ver6 = Iter6 1"

fun iter_next :: "IpVersionAddrIter \<Rightarrow> IpAddr \<times> IpVersionAddrIter" where
  "iter_next (Iter4 host) =
     (ipv4_new 192 168 (ucast (drop_bit 8 host)) (ucast (and host 0xFF)), Iter4 (host + 1))"
| "iter_next (Iter6 host) =
     (ipv6_new [0xFE80, 0, 0, 0, ucast (and (drop_bit 48 host) 0xFFFF), ucast (and (drop_bit 32 host) 0xFFFF),
        ucast (and (drop_bit 16 host) 0xFFFF), ucast (and host 0xFFFF)], Iter6 (host + 1))"

section \<open>The name table\<close>

record SimDns =
  sd_addrs :: IpVersionAddrIter
  sd_names :: "(string, IpAddr) imap"

definition SimDns_new :: "IpVersionAddrIter \<Rightarrow> SimDns" where
  "SimDns_new it = \<lparr>sd_addrs = it, sd_names = []\<rparr>"

definition name_to_ip_addr :: "string \<Rightarrow> SimDns \<Rightarrow> IpAddr \<times> SimDns" where
  "name_to_ip_addr n d =
     (case parse_ip n of
        Some ip \<Rightarrow> (ip, d)
      | None \<Rightarrow>
          (case imap_get (sd_names d) n of
             Some ip \<Rightarrow> (ip, d)
           | None \<Rightarrow>
               (let (ip, it) = iter_next (sd_addrs d)
                in (ip, \<lparr>sd_addrs = it, sd_names = imap_insert n ip (sd_names d)\<rparr>))))"

definition sim_reverse :: "SimDns \<Rightarrow> IpAddr \<Rightarrow> string option" where
  "sim_reverse d a = reverse_in (sd_names d) a"

text \<open>\<^verbatim>\<open>ToIpAddrs for Regex\<close>; the pattern is the predicate \<open>is_match\<close> on hostnames.\<close>

fun lookup_matching :: "(string \<Rightarrow> bool) \<Rightarrow> string list \<Rightarrow> SimDns \<Rightarrow> IpAddr list \<times> SimDns" where
  "lookup_matching is_match [] d = ([], d)"
| "lookup_matching is_match (h # hs) d =
     (if is_match h then
        (let (a, d1) = name_to_ip_addr h d; (as, d2) = lookup_matching is_match hs d1 in (a # as, d2))
      else lookup_matching is_match hs d)"

definition regex_to_ip_addrs :: "(string \<Rightarrow> bool) \<Rightarrow> SimDns \<Rightarrow> IpAddr list \<times> SimDns" where
  "regex_to_ip_addrs is_match d = lookup_matching is_match (imap_keys (sd_names d)) d"

definition name_port_to_socket_addr :: "string \<Rightarrow> u16 \<Rightarrow> SimDns \<Rightarrow> SocketAddr io_result" where
  "name_port_to_socket_addr n p d =
     (case parse_ip n of
        Some ip \<Rightarrow> Ok (SocketAddr ip p)
      | None \<Rightarrow>
          (case imap_get (sd_names d) n of
             Some ip \<Rightarrow> Ok (SocketAddr ip p)
           | None \<Rightarrow> Err (Kind NotFound)))"

section \<open>Both versions as name tables\<close>

definition addr4 :: "nat \<Rightarrow> IpAddr" where
  "addr4 i = fst (iter_next (Iter4 (of_nat (Suc i))))"

definition addr6 :: "nat \<Rightarrow> IpAddr" where
  "addr6 i = fst (iter_next (Iter6 (of_nat (Suc i))))"

definition in_step4 :: "SimDns \<Rightarrow> bool" where
  "in_step4 d \<longleftrightarrow> sd_addrs d = Iter4 (of_nat (Suc (length (sd_names d))))"

definition in_step6 :: "SimDns \<Rightarrow> bool" where
  "in_step6 d \<longleftrightarrow> sd_addrs d = Iter6 (of_nat (Suc (length (sd_names d))))"

lemma subnet6_value:
  "fst (iter_next (Iter6 host)) = V6 (of_nat (0xFE80 * 2 ^ 112 + unat host mod 2 ^ 64))"
proof -
  have low: "and w 0xFFFF = take_bit 16 w" for w :: u128
    by (simp add: take_bit_eq_mask mask_eq_exp_minus_1)
  have d: "unat (ucast (and (drop_bit k host) 0xFFFF) :: u16) = unat host div 2 ^ k mod 65536" for k
    unfolding unat_ucast_u16 low
    by (simp only: unsigned_take_bit_eq unat_drop_bit_eq) (simp add: take_bit_eq_mod drop_bit_eq_div)
  have d0: "unat (ucast (and host 0xFFFF) :: u16) = unat host mod 65536"
    using d [of 0] by simp
  have m: "n mod 2 ^ 64 = ((n div 2 ^ 48 mod 65536 * 65536 + n div 2 ^ 32 mod 65536) * 65536 +
      n div 2 ^ 16 mod 65536) * 65536 + n mod 65536" for n :: nat
    using mod_mult2_eq [of n "2 ^ 48" 65536] mod_mult2_eq [of n "2 ^ 32" 65536] mod_mult2_eq [of n "2 ^ 16" 65536]
    by simp
  show ?thesis unfolding iter_next.simps ipv6_new_def fst_conv m by (simp add: d d0)
qed

lemma addr4_inj: "inj_on addr4 {..<65536}"
  unfolding addr4_def iter_next.simps fst_conv subnet_value by (rule subnet_inj)

lemma addr6_inj: "inj_on addr6 {..<2 ^ 64}"
proof (rule inj_onI)
  fix i j :: nat
  assume ij: "i \<in> {..<2 ^ 64}" "j \<in> {..<2 ^ 64}" and eq: "addr6 i = addr6 j"
  have u: "unat (of_nat (Suc i) :: u128) = Suc i" "unat (of_nat (Suc j) :: u128) = Suc j"
    using ij by (auto intro!: unat_Suc_small [where n = "2 ^ 64"] simp del: of_nat_Suc)
  have "0xFE80 * 2 ^ 112 + Suc i mod 2 ^ 64 = 0xFE80 * 2 ^ 112 + Suc j mod 2 ^ 64"
    using eq mod_less_divisor [of "2 ^ 64" "Suc i"] mod_less_divisor [of "2 ^ 64" "Suc j"]
    unfolding addr6_def subnet6_value u IpAddr.inject by (intro of_nat_eq_small [where 'a = 128]) simp_all
  then have "Suc i mod 2 ^ 64 = Suc j mod 2 ^ 64" by linarith
  then show "i = j" using Suc_mod_inj [of i "2 ^ 64" j] ij by simp
qed

interpretation sim_names4: name_table name_to_ip_addr sd_names parse_ip addr4 65536 in_step4
proof unfold_locales
  show "inj_on addr4 {..<65536}" by (rule addr4_inj)
qed (auto simp: name_to_ip_addr_def imap_insert_new in_step4_def addr4_def)

interpretation sim_names6: name_table name_to_ip_addr sd_names parse_ip addr6 "2 ^ 64" in_step6
proof unfold_locales
  show "inj_on addr6 {..<2 ^ 64}" by (rule addr6_inj)
qed (auto simp: name_to_ip_addr_def imap_insert_new in_step6_def addr6_def)

section \<open>The table of a simulation\<close>

definition sim_resolved :: "IpVersion \<Rightarrow> string list \<Rightarrow> SimDns" where
  "sim_resolved v ns = foldl (\<lambda>d n. snd (name_to_ip_addr n d)) (SimDns_new (version_iter v)) ns"

definition subnet_size :: "IpVersion \<Rightarrow> nat" where
  "subnet_size v = (case v of Ver4 \<Rightarrow> 65536 | Ver6 \<Rightarrow> 2 ^ 64)"

lemma sim_resolved_ok:
  "sim_names4.table_ok (sim_resolved Ver4 ns)" "sim_names6.table_ok (sim_resolved Ver6 ns)"
proof -
  have "foldl (\<lambda>d n. snd (name_to_ip_addr n d)) d ns = sim_names4.resolve_all ns d" for d
    by (induction ns arbitrary: d) simp_all
  moreover have "sim_names4.table_ok (SimDns_new (version_iter Ver4))"
    by (simp add: sim_names4.table_ok_def in_step4_def SimDns_new_def)
  ultimately show "sim_names4.table_ok (sim_resolved Ver4 ns)"
    using sim_names4.resolve_all_ok by (simp add: sim_resolved_def)
  have "foldl (\<lambda>d n. snd (name_to_ip_addr n d)) d ns = sim_names6.resolve_all ns d" for d
    by (induction ns arbitrary: d) simp_all
  moreover have "sim_names6.table_ok (SimDns_new (version_iter Ver6))"
    by (simp add: sim_names6.table_ok_def in_step6_def SimDns_new_def)
  ultimately show "sim_names6.table_ok (sim_resolved Ver6 ns)"
    using sim_names6.resolve_all_ok by (simp add: sim_resolved_def)
qed

lemma sim_names_keys:
  "set (imap_keys (sd_names (foldl (\<lambda>d n. snd (name_to_ip_addr n d)) d ns))) =
     set (imap_keys (sd_names d)) \<union> {n \<in> set ns. parse_ip n = None}"
proof (induction ns arbitrary: d)
  case (Cons n ns)
  have "imap_get (sd_names d) n = Some a \<Longrightarrow> n \<in> fst ` set (sd_names d)" for a
    by (rule image_eqI [of _ fst "(n, a)"]) (auto dest: map_of_SomeD)
  then have "set (imap_keys (sd_names (snd (name_to_ip_addr n d)))) =
      set (imap_keys (sd_names d)) \<union> (if parse_ip n = None then {n} else {})"
    by (cases "imap_get (sd_names d) n")
      (auto simp: name_to_ip_addr_def imap_insert_new split: option.splits prod.splits)
  then show ?case using Cons.IH [of "snd (name_to_ip_addr n d)"] by auto
qed simp

text \<open>
  Addresses in a simulation, for both IP versions. A hostname that was resolved is known
  to \<^verbatim>\<open>to_socket_addr\<close> under the address it was given, one that never was is \<^verbatim>\<open>NotFound\<close>
  (looking up a socket address never allocates), and while the subnet is not exhausted (65536
  names in IPv4, 2^64 in IPv6) two hostnames never share an address and \<^verbatim>\<open>reverse\<close> inverts the
  lookup.
\<close>

theorem sim_dns_lookup:
  assumes n: "parse_ip n = None" and d: "d = sim_resolved v ns"
  shows "(n \<notin> set ns \<longrightarrow> name_port_to_socket_addr n p d = Err (Kind NotFound)) \<and>
    (n \<in> set ns \<longrightarrow> name_port_to_socket_addr n p d = Ok (SocketAddr (fst (name_to_ip_addr n d)) p) \<and>
       snd (name_to_ip_addr n d) = d \<and>
       (length (sd_names d) \<le> subnet_size v \<longrightarrow> sim_reverse d (fst (name_to_ip_addr n d)) = Some n \<and>
          (\<forall>m \<in> set ns. parse_ip m = None \<longrightarrow> fst (name_to_ip_addr m d) = fst (name_to_ip_addr n d) \<longrightarrow> m = n)))"
proof -
  have known: "m \<in> set ns \<longleftrightarrow> imap_get (sd_names d) m \<noteq> None" if "parse_ip m = None" for m
    using sim_names_keys [of "SimDns_new (version_iter v)" ns] that
    by (auto simp: d sim_resolved_def SimDns_new_def map_of_eq_None_iff)
  have get: "name_to_ip_addr m d = (the (imap_get (sd_names d) m), d)" if "parse_ip m = None" "m \<in> set ns" for m
    using known that by (auto simp: name_to_ip_addr_def)
  have inj: "m = n" if "length (sd_names d) \<le> subnet_size v" "imap_get (sd_names d) n = Some a"
    "imap_get (sd_names d) m = Some a" for m a
    using that sim_names4.names_distinct [OF sim_resolved_ok(1), of ns m a n]
      sim_names6.names_distinct [OF sim_resolved_ok(2), of ns m a n]
    by (cases v) (auto simp: d subnet_size_def)
  have rev: "sim_reverse d a = Some n"
    if "length (sd_names d) \<le> subnet_size v" "imap_get (sd_names d) n = Some a" for a
    using that sim_names4.reverse_ok [OF sim_resolved_ok(1)] sim_names6.reverse_ok [OF sim_resolved_ok(2)]
    by (cases v) (auto simp: d subnet_size_def sim_reverse_def)
  show ?thesis
  proof (cases "imap_get (sd_names d) n")
    case None
    then show ?thesis using known [OF n] n by (simp add: name_port_to_socket_addr_def)
  next
    case (Some a)
    have "n \<in> set ns" "fst (name_to_ip_addr n d) = a" "snd (name_to_ip_addr n d) = d" "name_port_to_socket_addr n p d = Ok (SocketAddr a p)"
      using Some known [OF n] n by (simp_all add: name_port_to_socket_addr_def name_to_ip_addr_def)
    moreover have "m = n" if "length (sd_names d) \<le> subnet_size v" "m \<in> set ns" "parse_ip m = None"
      "fst (name_to_ip_addr m d) = a" for m
      using get [OF that(3,2)] known [OF that(3)] that(2,4) inj [OF that(1) Some, of m] by auto
    ultimately show ?thesis using rev [OF _ Some] by metis
  qed
qed

theorem sim_dns_lookup_witness:
  "name_port_to_socket_addr ''alpha'' 80 (sim_resolved Ver6 [''beta'', ''alpha'']) = Ok (SocketAddr (addr6 1) 80) \<and>
   sim_reverse (sim_resolved Ver6 [''beta'', ''alpha'']) (addr6 1) = Some ''alpha'' \<and>
   name_port_to_socket_addr ''alpha'' 80 (sim_resolved Ver4 [''beta'']) = Err (Kind NotFound)"
proof -
  have n: "parse_ip ''alpha'' = None" "parse_ip ''beta'' = None" by code_simp+
  let ?d = "sim_resolved Ver6 [''beta'', ''alpha'']"
  have d: "?d = \<lparr>sd_addrs = Iter6 3, sd_names = [(''beta'', addr6 0), (''alpha'', addr6 1)]\<rparr>"
    by (simp add: sim_resolved_def name_to_ip_addr_def SimDns_new_def n addr6_def)
  have "fst (name_to_ip_addr ''alpha'' ?d) = addr6 1" "length (sd_names ?d) \<le> subnet_size Ver6"
    by (simp_all add: d name_to_ip_addr_def n subnet_size_def)
  then show ?thesis
    using sim_dns_lookup [OF n(1) refl, where v = Ver6 and ns = "[''beta'', ''alpha'']" and p = 80]
      sim_dns_lookup [OF n(1) refl, where v = Ver4 and ns = "[''beta'']" and p = 80] by simp
qed

end
