(* ===== verification/Sim_World.thy ===== *)
theory Sim_World
  imports Sim_Top Sim_Dns
begin

text \<open>
  \<^verbatim>\<open>turmoil/src/world.rs\<close> with \<^verbatim>\<open>for_pairs\<close> of \<^verbatim>\<open>turmoil/src/lib.rs\<close> and the multicast groups of
  \<^verbatim>\<open>turmoil/src/net/udp.rs\<close>: the hosts of a simulation, their links, names and groups, and the calls
  that registering a host, sending a message and changing links between sets of hosts make on
  them. The thread-local reference to the world is the state passed along. A generic argument
  that resolves to addresses is a function of the name table. The file-system seed that
  registration draws under a feature flag is not drawn. \<open>w_loopback\<close> holds the tasks spawned to
  deliver a message on the sending host itself.
\<close>

section \<open>Multicast groups\<close>

text \<open>\<^verbatim>\<open>IndexSet\<close> is an insertion-ordered map to unit.\<close>

type_synonym 'a iset = "('a, unit) imap"

type_synonym MulticastGroups = "(SocketAddr, SocketAddr iset) imap"

definition destination_addresses :: "MulticastGroups \<Rightarrow> SocketAddr \<Rightarrow> SocketAddr iset" where
  "destination_addresses gs grp = (case imap_get gs grp of None \<Rightarrow> [] | Some members \<Rightarrow> members)"

definition contains_destination_address :: "MulticastGroups \<Rightarrow> IpAddr \<Rightarrow> SocketAddr \<Rightarrow> bool" where
  "contains_destination_address gs grp member =
     (case imap_get gs (SocketAddr grp (sa_port member)) of
        None \<Rightarrow> False
      | Some members \<Rightarrow> imap_get members member \<noteq> None)"

definition group_join :: "IpAddr \<Rightarrow> SocketAddr \<Rightarrow> MulticastGroups \<Rightarrow> MulticastGroups" where
  "group_join grp member gs =
     (let key = SocketAddr grp (sa_port member)
      in case imap_get gs key of
           Some members \<Rightarrow> imap_insert key (imap_insert member () members) gs
         | None \<Rightarrow> imap_insert key [(member, ())] gs)"

definition group_leave :: "IpAddr \<Rightarrow> SocketAddr \<Rightarrow> MulticastGroups \<Rightarrow> MulticastGroups" where
  "group_leave grp member gs =
     (let key = SocketAddr grp (sa_port member);
          gs1 = imap_modify key (imap_swap_remove member) gs
      in case imap_get gs1 key of
           Some members \<Rightarrow> if members = [] then imap_swap_remove key gs1 else gs1
         | None \<Rightarrow> gs1)"

definition group_leave_all :: "SocketAddr \<Rightarrow> MulticastGroups \<Rightarrow> MulticastGroups" where
  "group_leave_all member gs =
     imap_retain (\<lambda>_ members. members \<noteq> []) (map (\<lambda>(k, members). (k, imap_swap_remove member members)) gs)"

section \<open>The world\<close>

text \<open>
  Beside the fields of the code the world keeps what streams share by reference count: the flow
  controls, the handshakes whose one-shot channel was used (\<open>w_acked\<close>) or whose receiver is gone
  (\<open>w_cancelled\<close>), and the next number for a shared object.
\<close>

record FlowControl =
  fc_credits :: nat
  fc_waker :: "waker option"

record 'g World =
  w_hosts :: "(IpAddr, SimHost) imap"
  w_topology :: Topology
  w_dns :: SimDns
  w_groups :: MulticastGroups
  w_current :: "IpAddr option"
  w_rng :: 'g
  w_tick_duration :: duration
  w_loopback :: "(IpAddr \<times> Envelope) list"
  w_flows :: "(nat, FlowControl) imap"
  w_acked :: "nat list"
  w_cancelled :: "nat list"
  w_next_id :: nat
  w_woken :: "waker list"

definition World_new :: "LinkConfig \<Rightarrow> 'g \<Rightarrow> IpVersionAddrIter \<Rightarrow> duration \<Rightarrow> 'g World" where
  "World_new link rng addrs tick =
     \<lparr>w_hosts = [], w_topology = Topology_new link, w_dns = SimDns_new addrs, w_groups = [], w_current = None,
      w_rng = rng, w_tick_duration = tick, w_loopback = [], w_flows = [], w_acked = [], w_cancelled = [], w_next_id = 0, w_woken = []\<rparr>"

definition current_host :: "'g World \<Rightarrow> SimHost option" where
  "current_host w = Option.bind (w_current w) (imap_get (w_hosts w))"

text \<open>An update through \<^verbatim>\<open>current_host_mut\<close>.\<close>

definition set_current_host :: "SimHost \<Rightarrow> 'g World \<Rightarrow> 'g World option" where
  "set_current_host h w = do {
     a \<leftarrow> w_current w;
     Some (w\<lparr>w_hosts := imap_insert a h (w_hosts w)\<rparr>)
   }"

definition try_current_host :: "'g World \<Rightarrow> string + SimHost" where
  "try_current_host w =
     (case w_current w of
        None \<Rightarrow> Inl ''current host missing''
      | Some a \<Rightarrow> (case imap_get (w_hosts w) a of None \<Rightarrow> Inl ''host missing'' | Some h \<Rightarrow> Inr h))"

definition world_lookup :: "string \<Rightarrow> 'g World \<Rightarrow> IpAddr \<times> 'g World" where
  "world_lookup n w = (let (a, d) = name_to_ip_addr n (w_dns w) in (a, w\<lparr>w_dns := d\<rparr>))"

definition reverse_lookup :: "'g World \<Rightarrow> IpAddr \<Rightarrow> string option" where
  "reverse_lookup w a = sim_reverse (w_dns w) a"

type_synonym to_ip_addrs = "SimDns \<Rightarrow> IpAddr list \<times> SimDns"

definition world_lookup_many :: "to_ip_addrs \<Rightarrow> 'g World \<Rightarrow> IpAddr list \<times> 'g World" where
  "world_lookup_many hosts w = (let (as, d) = hosts (w_dns w) in (as, w\<lparr>w_dns := d\<rparr>))"

definition on_topology :: "(Topology \<Rightarrow> Topology option) \<Rightarrow> 'g World \<Rightarrow> 'g World option" where
  "on_topology f w = do { t \<leftarrow> f (w_topology w); Some (w\<lparr>w_topology := t\<rparr>) }"

fun for_pairs :: "IpAddr list \<Rightarrow> IpAddr list \<Rightarrow> (IpAddr \<Rightarrow> IpAddr \<Rightarrow> 's \<Rightarrow> 's option) \<Rightarrow> 's \<Rightarrow> 's option" where
  "for_pairs [] bs f s = Some s"
| "for_pairs (a # as) bs f s = do {
     s1 \<leftarrow> fold (\<lambda>b so. Option.bind so (\<lambda>s. if a \<noteq> b then f a b s else Some s)) bs (Some s);
     for_pairs as bs f s1
   }"

definition world_pairs ::
  "(IpAddr \<Rightarrow> IpAddr \<Rightarrow> Topology \<Rightarrow> Topology option) \<Rightarrow> to_ip_addrs \<Rightarrow> to_ip_addrs \<Rightarrow> 'g World \<Rightarrow> 'g World option" where
  "world_pairs f a b w =
     (let (as, w1) = world_lookup_many a w; (bs, w2) = world_lookup_many b w1
      in for_pairs as bs (\<lambda>x y. on_topology (f x y)) w2)"

definition hold_many :: "to_ip_addrs \<Rightarrow> to_ip_addrs \<Rightarrow> 'g World \<Rightarrow> 'g World option" where
  "hold_many = world_pairs top_hold"

definition release_many :: "to_ip_addrs \<Rightarrow> to_ip_addrs \<Rightarrow> 'g World \<Rightarrow> 'g World option" where
  "release_many = world_pairs top_release"

definition partition_many :: "to_ip_addrs \<Rightarrow> to_ip_addrs \<Rightarrow> 'g World \<Rightarrow> 'g World option" where
  "partition_many = world_pairs top_partition"

definition partition_oneway_many :: "to_ip_addrs \<Rightarrow> to_ip_addrs \<Rightarrow> 'g World \<Rightarrow> 'g World option" where
  "partition_oneway_many = world_pairs top_partition_oneway"

definition repair_many :: "to_ip_addrs \<Rightarrow> to_ip_addrs \<Rightarrow> 'g World \<Rightarrow> 'g World option" where
  "repair_many = world_pairs top_repair"

definition repair_oneway_many :: "to_ip_addrs \<Rightarrow> to_ip_addrs \<Rightarrow> 'g World \<Rightarrow> 'g World option" where
  "repair_oneway_many = world_pairs top_repair_oneway"

definition est_tcp_streams :: "'g World \<Rightarrow> nat option" where
  "est_tcp_streams w = map_option (\<lambda>h. stream_count (host_tcp h)) (current_host w)"

definition est_tcp_streams_on :: "string \<Rightarrow> 'g World \<Rightarrow> (nat \<times> 'g World) option" where
  "est_tcp_streams_on n w =
     (let (a, w1) = world_lookup n w
      in map_option (\<lambda>h. (stream_count (host_tcp h), w1)) (imap_get (w_hosts w1) a))"

text \<open>The part of the simulation's configuration that a host takes.\<close>

record HostConfig =
  cfg_ephemeral_ports :: "u16 \<times> u16"
  cfg_tcp_capacity :: nat
  cfg_udp_capacity :: nat

fun register_links :: "IpAddr list \<Rightarrow> IpAddr \<Rightarrow> Topology \<Rightarrow> Topology option" where
  "register_links [] a t = Some t"
| "register_links (e # es) a t = do { t1 \<leftarrow> top_register e a t; register_links es a t1 }"

definition world_register ::
  "IpAddr \<Rightarrow> string \<Rightarrow> HostTimer \<Rightarrow> HostConfig \<Rightarrow> 'g World \<Rightarrow> 'g World option" where
  "world_register a name timer cfg w =
     (if imap_get (w_hosts w) a \<noteq> None then None
      else do {
        t \<leftarrow> register_links (imap_keys (w_hosts w)) a (w_topology w);
        Some (w\<lparr>w_topology := t, w_hosts := imap_insert a
          (SimHost_new name a timer (cfg_ephemeral_ports cfg) (cfg_tcp_capacity cfg) (cfg_udp_capacity cfg)) (w_hosts w)\<rparr>)
      })"

definition send_message ::
  "'g NetRng \<Rightarrow> SocketAddr \<Rightarrow> SocketAddr \<Rightarrow> Protocol \<Rightarrow> 'g World \<Rightarrow> (unit io_result \<times> 'g World) option" where
  "send_message rng src dst message w = do {
     (r, t, g) \<leftarrow> top_enqueue_message rng src dst message (w_topology w) (w_rng w);
     Some (r, w\<lparr>w_topology := t, w_rng := g\<rparr>)
   }"

definition world_tick :: "IpAddr \<Rightarrow> duration \<Rightarrow> 'g World \<Rightarrow> 'g World option" where
  "world_tick a d w = do {
     h \<leftarrow> imap_get (w_hosts w) a;
     Some (w\<lparr>w_hosts := imap_insert a (h\<lparr>host_timer := timer_tick d (host_timer h)\<rparr>) (w_hosts w)\<rparr>)
   }"

end
