(* ===== verification/Sim_Groups.thy ===== *)
theory Sim_Groups
  imports Sim_World
begin

text \<open>
  The multicast table of a simulation against its specification: a set of pairs of a group address and a
  member. The table groups the members by the address and port that a packet is sent to, and
  drops a group with its last member.
\<close>

section \<open>The invariant of the table\<close>

definition groups_ok :: "MulticastGroups \<Rightarrow> bool" where
  "groups_ok gs \<longleftrightarrow> imap_wf gs \<and>
     (\<forall>k ms. imap_get gs k = Some ms \<longrightarrow> ms \<noteq> [] \<and> imap_wf ms \<and> (\<forall>m \<in> set (imap_keys ms). sa_port m = sa_port k))"

lemma groups_okI:
  assumes "imap_wf gs" "\<And>k ms. imap_get gs k = Some ms \<Longrightarrow>
    ms \<noteq> [] \<and> imap_wf ms \<and> (\<forall>m \<in> set (imap_keys ms). sa_port m = sa_port k)"
  shows "groups_ok gs"
  using assms unfolding groups_ok_def by blast

lemma groups_okD:
  assumes "groups_ok gs" "imap_get gs k = Some ms"
  shows "ms \<noteq> []" "imap_wf ms" "m \<in> fst ` set ms \<Longrightarrow> sa_port m = sa_port k"
  using assms unfolding groups_ok_def by (auto simp del: map_of_eq_Some_iff)

text \<open>Membership as the members of the group's entry.\<close>

definition dests :: "MulticastGroups \<Rightarrow> SocketAddr \<Rightarrow> SocketAddr set" where
  "dests gs k = set (imap_keys (destination_addresses gs k))"

lemma dests_get: "dests gs k = (case imap_get gs k of None \<Rightarrow> {} | Some ms \<Rightarrow> set (imap_keys ms))"
  by (simp add: dests_def destination_addresses_def split: option.splits)

lemma contains_iff: "contains_destination_address gs g m \<longleftrightarrow> m \<in> dests gs (SocketAddr g (sa_port m))"
  by (cases "imap_get gs (SocketAddr g (sa_port m))")
    (simp_all add: contains_destination_address_def dests_get dom_map_of_conv_image_fst [symmetric] dom_def)

lemma dests_port: "groups_ok gs \<Longrightarrow> m \<in> dests gs k \<Longrightarrow> sa_port m = sa_port k"
  by (cases "imap_get gs k") (auto simp: dests_get groups_okD simp del: map_of_eq_Some_iff)

lemma swap_remove_keys:
  "imap_wf m \<Longrightarrow> set (imap_keys (imap_swap_remove k m)) = set (imap_keys m) - {k}"
  by (auto simp: set_imap_swap_remove)

lemma map_value_get: "imap_get (map (\<lambda>(k, v). (k, f v)) m) k = map_option f (imap_get m k)"
  by (induction m) auto

section \<open>The operations\<close>


text \<open>What the entry of each address holds after an operation.\<close>

lemma join_members:
  assumes "groups_ok gs"
  shows "dests (group_join g m gs) k =
    dests gs k \<union> (if k = SocketAddr g (sa_port m) then {m} else {})"
  using assms
  by (auto simp: group_join_def dests_get imap_simps Let_def dom_update split: option.splits)

lemma join_ok:
  assumes "groups_ok gs"
  shows "groups_ok (group_join g m gs)"
proof (rule groups_okI)
  show "imap_wf (group_join g m gs)"
    using assms by (auto simp: groups_ok_def group_join_def Let_def split: option.splits intro!: distinct_update)
next
  fix k ms
  assume "imap_get (group_join g m gs) k = Some ms"
  then consider "k \<noteq> SocketAddr g (sa_port m)" "imap_get gs k = Some ms"
    | "k = SocketAddr g (sa_port m)" "ms = [(m, ())]"
    | ms' where "k = SocketAddr g (sa_port m)" "imap_get gs k = Some ms'" "ms = imap_insert m () ms'"
    by (auto simp: group_join_def Let_def imap_simps split: option.splits if_splits)
  then show "ms \<noteq> [] \<and> imap_wf ms \<and> (\<forall>m \<in> set (imap_keys ms). sa_port m = sa_port k)"
  proof cases
    case 1
    then show ?thesis using groups_okD [OF assms] by auto
  next
    case 3
    have "ms \<noteq> []" using 3(3) by (cases ms') auto
    then show ?thesis
      using 3 groups_okD [OF assms 3(2)] by (auto simp: dom_update intro!: distinct_update)
  qed simp
qed

lemma modify_wf: "imap_wf gs \<Longrightarrow> imap_wf (imap_modify k f gs)"
  by simp

lemma leave_get:
  assumes "groups_ok gs"
  shows "imap_get (group_leave g m gs) k =
    (if k = SocketAddr g (sa_port m)
     then Option.bind (imap_get gs k) (\<lambda>ms. if imap_swap_remove m ms = [] then None else Some (imap_swap_remove m ms))
     else imap_get gs k)"
proof -
  let ?k = "SocketAddr g (sa_port m)"
  have wf: "imap_wf (imap_modify ?k (imap_swap_remove m) gs)"
    using assms by (simp add: groups_ok_def)
  show ?thesis
    by (simp add: group_leave_def Let_def imap_get_swap_remove [OF wf] imap_get_modify split: option.splits)
qed

lemma dests_shrink:
  assumes "groups_ok gs" and get: "imap_get gs' k =
    Option.bind (imap_get gs k) (\<lambda>ms. if imap_swap_remove m ms = [] then None else Some (imap_swap_remove m ms))"
  shows "dests gs' k = dests gs k - {m}"
proof (cases "imap_get gs k")
  case None
  with get show ?thesis by (simp add: dests_get)
next
  case (Some ms)
  have "set (imap_keys (imap_swap_remove m ms)) = set (imap_keys ms) - {m}"
    by (rule swap_remove_keys) (rule groups_okD [OF assms(1) Some])
  with get Some show ?thesis by (auto simp: dests_get simp del: map_of_eq_Some_iff split: if_splits)
qed

lemma leave_members:
  assumes "groups_ok gs"
  shows "dests (group_leave g m gs) k = dests gs k - (if k = SocketAddr g (sa_port m) then {m} else {})"
  using dests_shrink [OF assms, of "group_leave g m gs" k m] leave_get [OF assms, of g m k]
  by (cases "k = SocketAddr g (sa_port m)") (simp_all add: dests_get)

lemma leave_ok:
  assumes "groups_ok gs"
  shows "groups_ok (group_leave g m gs)"
proof (rule groups_okI)
  show "imap_wf (group_leave g m gs)"
    using assms
    by (auto simp: group_leave_def Let_def groups_ok_def split: option.splits intro!: imap_wf_swap_remove)
next
  fix k ms
  assume "imap_get (group_leave g m gs) k = Some ms"
  then consider "imap_get gs k = Some ms"
    | ms' where "imap_get gs k = Some ms'" "ms = imap_swap_remove m ms'" "ms \<noteq> []"
    by (auto simp: leave_get [OF assms] bind_Some_iff split: if_splits)
  then show "ms \<noteq> [] \<and> imap_wf ms \<and> (\<forall>m \<in> set (imap_keys ms). sa_port m = sa_port k)"
  proof cases
    case 1
    then show ?thesis using groups_okD [OF assms 1] by auto
  next
    case 2
    then show ?thesis
      using groups_okD [OF assms 2(1)] swap_remove_keys [of ms' m] by (auto intro: imap_wf_swap_remove)
  qed
qed

lemma leave_all_get:
  assumes "groups_ok gs"
  shows "imap_get (group_leave_all m gs) k =
    Option.bind (imap_get gs k) (\<lambda>ms. if imap_swap_remove m ms = [] then None else Some (imap_swap_remove m ms))"
proof -
  have "imap_wf (map (\<lambda>(k, ms). (k, imap_swap_remove m ms)) gs)"
    using assms by (simp add: groups_ok_def comp_def case_prod_beta')
  then show ?thesis
    by (auto simp: group_leave_all_def imap_get_retain map_value_get split: option.splits)
qed

lemma leave_all_members: "groups_ok gs \<Longrightarrow> dests (group_leave_all m gs) k = dests gs k - {m}"
  by (rule dests_shrink) (simp_all add: leave_all_get)

lemma leave_all_ok:
  assumes "groups_ok gs"
  shows "groups_ok (group_leave_all m gs)"
proof (rule groups_okI)
  show "imap_wf (group_leave_all m gs)"
    unfolding group_leave_all_def
    by (rule imap_wf_retain) (use assms in \<open>simp add: groups_ok_def comp_def case_prod_beta'\<close>)
next
  fix k ms
  assume "imap_get (group_leave_all m gs) k = Some ms"
  then obtain ms' where "imap_get gs k = Some ms'" "ms = imap_swap_remove m ms'" "ms \<noteq> []"
    by (auto simp: leave_all_get [OF assms] bind_Some_iff split: if_splits)
  then show "ms \<noteq> [] \<and> imap_wf ms \<and> (\<forall>m \<in> set (imap_keys ms). sa_port m = sa_port k)"
    using groups_okD [OF assms, of k ms'] swap_remove_keys [of ms' m] by (auto intro: imap_wf_swap_remove)
qed

section \<open>Refinement\<close>

datatype GroupOp = JoinOp IpAddr SocketAddr | LeaveOp IpAddr SocketAddr | LeaveAllOp SocketAddr

fun group_step :: "GroupOp \<Rightarrow> MulticastGroups \<Rightarrow> MulticastGroups" where
  "group_step (JoinOp g m) gs = group_join g m gs"
| "group_step (LeaveOp g m) gs = group_leave g m gs"
| "group_step (LeaveAllOp m) gs = group_leave_all m gs"

fun spec_step :: "GroupOp \<Rightarrow> (IpAddr \<times> SocketAddr) set \<Rightarrow> (IpAddr \<times> SocketAddr) set" where
  "spec_step (JoinOp g m) S = insert (g, m) S"
| "spec_step (LeaveOp g m) S = S - {(g, m)}"
| "spec_step (LeaveAllOp m) S = {(g, m'). (g, m') \<in> S \<and> m' \<noteq> m}"

definition members_of :: "MulticastGroups \<Rightarrow> (IpAddr \<times> SocketAddr) set" where
  "members_of gs = {(g, m). contains_destination_address gs g m}"

lemma group_step_refines:
  assumes "groups_ok gs"
  shows "groups_ok (group_step op gs)" "members_of (group_step op gs) = spec_step op (members_of gs)"
proof -
  show "groups_ok (group_step op gs)"
    using assms by (cases op) (simp_all add: join_ok leave_ok leave_all_ok)
  show "members_of (group_step op gs) = spec_step op (members_of gs)"
    using assms by (cases op) (auto simp: members_of_def contains_iff join_members leave_members leave_all_members)
qed

lemma groups_run:
  "groups_ok gs \<Longrightarrow> groups_ok (fold group_step ops gs) \<and>
     members_of (fold group_step ops gs) = fold spec_step ops (members_of gs)"
  by (induction ops arbitrary: gs) (simp_all add: group_step_refines)

text \<open>
  C23. After any sequence of joins, leaves and departures from the empty table, a member is in a group
  exactly if the abstract set of memberships has it; the addresses a packet to a group and port is
  sent to are the members of that group on that port, each once; and no group is empty.
\<close>

theorem multicast_refines:
  "let gs = fold group_step ops []; S = fold spec_step ops {} in
     members_of gs = S \<and>
     (\<forall>g p. set (imap_keys (destination_addresses gs (SocketAddr g p))) = {m. (g, m) \<in> S \<and> sa_port m = p} \<and>
       distinct (imap_keys (destination_addresses gs (SocketAddr g p)))) \<and>
     [] \<notin> snd ` set gs"
proof -
  define gs where "gs = fold group_step ops []"
  have ok: "groups_ok gs" and abs: "members_of gs = fold spec_step ops {}"
    using groups_run [of "[]" ops]
    by (simp_all add: gs_def groups_ok_def members_of_def contains_destination_address_def)
  have "set (imap_keys (destination_addresses gs (SocketAddr g p))) = {m. (g, m) \<in> members_of gs \<and> sa_port m = p}" for g p
    using dests_port [OF ok, of _ "SocketAddr g p"] unfolding dests_def [symmetric]
    by (auto simp: members_of_def contains_iff)
  moreover have "distinct (imap_keys (destination_addresses gs (SocketAddr g p)))" for g p
    using groups_okD(2) [OF ok] by (simp add: destination_addresses_def split: option.splits)
  moreover have "[] \<notin> snd ` set gs"
    using ok map_of_is_SomeI [of gs] by (fastforce simp: groups_ok_def)
  ultimately show ?thesis by (simp add: abs [symmetric] gs_def Let_def)
qed

end
