(* ===== verification/Sim_Stream.thy ===== *)
theory Sim_Stream
  imports Sim_Host
begin

text \<open>
  The receiving side of a simulated TCP stream as a state machine: segments arrive in any order,
  each sequence number at most once, and the application takes chunks from the channel. What it
  has taken, followed by what is queued, is always the data of a prefix of the sequence.
\<close>

section \<open>The state machine\<close>

text \<open>The socket, the chunks taken so far, and the sequence numbers that have arrived.\<close>

type_synonym rx_state = "StreamSocket \<times> bytes list \<times> nat set"

inductive rx_step :: "(nat \<Rightarrow> SequencedSegment) \<Rightarrow> rx_state \<Rightarrow> rx_state \<Rightarrow> bool" for sent where
  Arrive: "\<lbrakk>0 < sq; sq \<notin> arrived; buffer sq (sent sq) s = Some (Inr (), s')\<rbrakk> \<Longrightarrow>
     rx_step sent (s, taken, arrived) (s', taken, insert sq arrived)"
| Take: "ch_queue (st_chan s) = chunk # rest \<Longrightarrow>
     rx_step sent (s, taken, arrived) (s\<lparr>st_chan := (st_chan s)\<lparr>ch_queue := rest\<rparr>\<rparr>, taken @ [chunk], arrived)"
| Assign: "rx_step sent (s, taken, arrived) (snd (assign_seq s), taken, arrived)"

inductive_cases rx_stepE: "rx_step sent x y"

definition rx_reaches :: "(nat \<Rightarrow> SequencedSegment) \<Rightarrow> rx_state \<Rightarrow> rx_state \<Rightarrow> bool" where
  "rx_reaches sent = (rx_step sent)\<^sup>*\<^sup>*"

section \<open>Prefixes of the sequence\<close>

fun seg_data :: "SequencedSegment \<Rightarrow> bytes list" where
  "seg_data (SeqData b) = [b]"
| "seg_data SeqFin = []"

definition data_upto :: "(nat \<Rightarrow> SequencedSegment) \<Rightarrow> nat \<Rightarrow> bytes list" where
  "data_upto sent n = concat (map (\<lambda>k. seg_data (sent (Suc k))) [0..<n])"

lemma data_upto_Suc: "data_upto sent (Suc n) = data_upto sent n @ seg_data (sent (Suc n))"
  by (simp add: data_upto_def)

lemma length_data_upto: "length (data_upto sent n) \<le> n"
proof (induction n)
  case (Suc n)
  then show ?case by (cases "sent (Suc n)") (simp_all add: data_upto_Suc)
qed (simp add: data_upto_def)

text \<open>What has been received is in order, and the buffer holds the rest of what has arrived.\<close>

definition in_order :: "(nat \<Rightarrow> SequencedSegment) \<Rightarrow> rx_state \<Rightarrow> bool" where
  "in_order sent = (\<lambda>(s, taken, arrived).
     imap_wf (st_buf s) \<and>
     (\<forall>k seg. imap_get (st_buf s) k = Some seg \<longrightarrow> st_recv_seq s < k \<and> seg = sent k) \<and>
     arrived = {1..st_recv_seq s} \<union> dom (imap_get (st_buf s)) \<and>
     taken @ ch_queue (st_chan s) = data_upto sent (st_recv_seq s))"

text \<open>The next segment is not waiting, unless the channel is full.\<close>

definition drained :: "StreamSocket \<Rightarrow> bool" where
  "drained s \<longleftrightarrow> (case imap_get (st_buf s) (st_recv_seq s + 1) of
     None \<Rightarrow> True
   | Some (SeqData _) \<Rightarrow> ch_capacity (st_chan s) \<le> length (ch_queue (st_chan s))
   | Some SeqFin \<Rightarrow> False)"

lemma try_send_ok: "try_send x c = SendOk ch \<Longrightarrow> ch = c\<lparr>ch_queue := ch_queue c @ [x]\<rparr>"
  by (simp add: try_send_def split: if_splits)

lemma try_send_full: "try_send x c = SendFull \<Longrightarrow> ch_capacity c \<le> length (ch_queue c)"
  by (simp add: try_send_def split: if_splits)

lemma in_order_advance:
  assumes inv: "in_order sent (s, taken, arrived)" and n: "n = st_recv_seq s"
    and seg: "imap_get (st_buf s) (Suc n) = Some seg"
    and s': "st_buf s' = imap_swap_remove (Suc n) (st_buf s)" "st_recv_seq s' = Suc n"
      "ch_queue (st_chan s') = ch_queue (st_chan s) @ seg_data seg"
  shows "in_order sent (s', taken, arrived)"
proof -
  have wf: "imap_wf (st_buf s)" and buf: "\<And>k g. imap_get (st_buf s) k = Some g \<Longrightarrow> n < k \<and> g = sent k"
    and arr: "arrived = {1..n} \<union> dom (imap_get (st_buf s))"
    and out: "taken @ ch_queue (st_chan s) = data_upto sent n"
    using inv n by (auto simp: in_order_def)
  have get': "imap_get (st_buf s') = (imap_get (st_buf s))(Suc n := None)"
    using wf by (intro ext) (simp add: s'(1) imap_get_swap_remove)
  have "imap_wf (st_buf s')" using wf by (simp add: s'(1) imap_wf_swap_remove)
  moreover have "Suc n < k \<and> g = sent k" if "imap_get (st_buf s') k = Some g" for k g
    using that buf [of k g] by (auto simp: get' split: if_splits)
  moreover have "arrived = {1..Suc n} \<union> dom (imap_get (st_buf s'))"
    unfolding arr get' using seg by (auto simp: atLeastAtMostSuc_conv)
  moreover have "taken @ ch_queue (st_chan s') = data_upto sent (Suc n)"
    using out buf [OF seg] by (simp add: s'(3) data_upto_Suc flip: append_assoc)
  ultimately show ?thesis using s'(2) by (simp add: in_order_def)
qed

lemma in_order_same:
  assumes "in_order sent (s, taken, arrived)" "imap_get (st_buf s') = imap_get (st_buf s)" "imap_wf (st_buf s')"
    "st_recv_seq s' = st_recv_seq s" "ch_queue (st_chan s') = ch_queue (st_chan s)"
  shows "in_order sent (s', taken, arrived)"
  using assms by (simp add: in_order_def)

lemma swap_remove_put_back:
  "\<lbrakk>imap_wf m; imap_get m k = Some v\<rbrakk> \<Longrightarrow> imap_get (imap_insert k v (imap_swap_remove k m)) = imap_get m"
  by (intro ext) (simp add: imap_get_insert imap_get_swap_remove)

declare drain_buf.simps [simp del]

lemma drain_buf_in_order:
  assumes "in_order sent (s, taken, arrived)" "drain_buf s = (Inr (), s')"
  shows "in_order sent (s', taken, arrived) \<and> drained s' \<and> ch_capacity (st_chan s') = ch_capacity (st_chan s)"
  using assms
proof (induction s rule: drain_buf.induct)
  case (1 s)
  let ?n = "st_recv_seq s + 1"
  let ?s1 = "s\<lparr>st_buf := imap_swap_remove ?n (st_buf s)\<rparr>"
  have wf: "imap_wf (st_buf s)" using "1.prems"(1) by (simp add: in_order_def)
  show ?case
  proof (cases "imap_get (st_buf s) ?n")
    case None
    then show ?thesis using "1.prems" by (simp add: drained_def drain_buf.simps [of s])
  next
    case (Some seg)
    have open_s: "st_sender s" using "1.prems"(2) Some by (cases "st_sender s") (simp_all add: drain_buf.simps [of s] Let_def)
    show ?thesis
    proof (cases seg)
      case (SeqData bs)
      show ?thesis
      proof (cases "try_send bs (st_chan s)")
        case (SendOk ch)
        let ?s2 = "?s1\<lparr>st_chan := ch, st_recv_seq := ?n\<rparr>"
        have step: "drain_buf s = drain_buf ?s2" using Some SeqData SendOk open_s by (simp add: drain_buf.simps [of s] Let_def)
        have "in_order sent (?s2, taken, arrived)"
          using "1.prems"(1) refl Some [unfolded SeqData, simplified]
          by (rule in_order_advance) (simp_all add: try_send_ok [OF SendOk])
        moreover have "ch_capacity ch = ch_capacity (st_chan s)" by (simp add: try_send_ok [OF SendOk])
        ultimately show ?thesis
          using "1.IH"(1) [OF Some refl _ SeqData, of ch] "1.prems"(2) open_s SendOk step by simp
      next
        case SendFull
        let ?s2 = "?s1\<lparr>st_buf := imap_insert ?n (SeqData bs) (st_buf ?s1)\<rparr>"
        have eq: "s' = ?s2" using "1.prems"(2) Some SeqData SendFull open_s by (simp add: drain_buf.simps [of s] Let_def)
        have "in_order sent (?s2, taken, arrived)"
          using "1.prems"(1)
          by (rule in_order_same) (use swap_remove_put_back [OF wf Some] wf SeqData in
              \<open>simp_all add: imap_wf_insert imap_wf_swap_remove\<close>)
        then show ?thesis using eq try_send_full [OF SendFull] by (simp add: drained_def imap_get_insert)
      next
        case SendClosed
        then show ?thesis using "1.prems"(2) Some SeqData open_s by (simp add: drain_buf.simps [of s] Let_def)
      qed
    next
      case SeqFin
      let ?s2 = "?s1\<lparr>st_sender := False, st_recv_seq := ?n\<rparr>"
      have live: "\<not> ch_closed (st_chan s)" using "1.prems"(2) Some SeqFin open_s by (cases "ch_closed (st_chan s)") (simp_all add: drain_buf.simps [of s] Let_def)
      have step: "drain_buf s = drain_buf ?s2" using Some SeqFin live open_s by (simp add: drain_buf.simps [of s] Let_def)
      have "in_order sent (?s2, taken, arrived)"
        using "1.prems"(1) refl Some [unfolded SeqFin, simplified] by (rule in_order_advance) simp_all
      then show ?thesis
        using "1.IH"(2) [OF Some refl _ SeqFin] "1.prems"(2) open_s live step by simp
    qed
  qed
qed

section \<open>Reachable states\<close>

lemma in_order_arrive:
  assumes "in_order sent (s, taken, arrived)" "0 < sq" "sq \<notin> arrived" "buffer sq (sent sq) s = Some (Inr (), s')"
  shows "in_order sent (s', taken, insert sq arrived) \<and> drained s' \<and> ch_capacity (st_chan s') = ch_capacity (st_chan s)"
proof -
  let ?s = "s\<lparr>st_buf := imap_insert sq (sent sq) (st_buf s)\<rparr>"
  have later: "st_recv_seq s < sq" using assms(1-3) by (auto simp: in_order_def)
  have "in_order sent (?s, taken, insert sq arrived)"
    using assms(1) later by (auto simp: in_order_def imap_wf_insert imap_get_insert dom_def simp del: map_of_eq_Some_iff)
  moreover have "drain_buf ?s = (Inr (), s')"
    using assms(4) by (cases "fst (drain_buf ?s)")
      (auto simp: buffer_def case_prod_beta' Let_def prod_eq_iff split: if_splits)
  ultimately show ?thesis using drain_buf_in_order by fastforce
qed

lemma rx_step_in_order: "\<lbrakk>rx_step sent x y; in_order sent x\<rbrakk> \<Longrightarrow> in_order sent y"
proof (induction rule: rx_step.induct)
  case (Arrive sq arrived s s' taken)
  then show ?case using in_order_arrive by blast
next
  case (Take s chunk rest taken arrived)
  then show ?case by (simp add: in_order_def)
next
  case (Assign s taken arrived)
  then show ?case by (simp add: in_order_def assign_seq_def)
qed

definition rx_start :: "nat \<Rightarrow> StreamSocket \<Rightarrow> bool" where
  "rx_start cap s \<longleftrightarrow> (\<exists>chan fw fr. StreamSocket_new cap chan fw fr = Some s)"

lemma rx_start_in_order: "rx_start cap s \<Longrightarrow> in_order sent (s, [], {})"
  by (auto simp: rx_start_def StreamSocket_new_def channel_new_def in_order_def data_upto_def split: if_splits)

lemma rx_reaches_in_order:
  assumes "rx_reaches sent (s, [], {}) y" "rx_start cap s"
  shows "in_order sent y"
  using assms(1) unfolding rx_reaches_def
  by (induction rule: rtranclp_induct) (use rx_start_in_order [OF assms(2)] rx_step_in_order in \<open>blast+\<close>)

text \<open>
  With room for everything that arrives, the socket is always drained: nothing that could be
  handed over is held back.
\<close>

lemma room_drained:
  assumes "in_order sent (s, taken, arrived)" "drained s" "\<forall>k \<in> arrived. k \<le> ch_capacity (st_chan s)"
  shows "imap_get (st_buf s) (st_recv_seq s + 1) = None"
proof (rule ccontr)
  assume waiting: "imap_get (st_buf s) (st_recv_seq s + 1) \<noteq> None"
  then have "st_recv_seq s + 1 \<in> arrived" using assms(1) by (auto simp: in_order_def)
  with assms(3) have "st_recv_seq s < ch_capacity (st_chan s)" by auto
  moreover have "length (ch_queue (st_chan s)) \<le> st_recv_seq s"
    using assms(1) length_data_upto [of sent "st_recv_seq s"] by (auto simp: in_order_def dest: arg_cong [of _ _ length])
  moreover obtain seg where "imap_get (st_buf s) (st_recv_seq s + 1) = Some seg" using waiting by blast
  ultimately show False using assms(2) by (cases seg) (simp_all add: drained_def)
qed

lemma rx_step_capacity: "rx_step sent x y \<Longrightarrow> in_order sent x \<Longrightarrow> ch_capacity (st_chan (fst y)) = ch_capacity (st_chan (fst x))"
  by (induction rule: rx_step.induct) (use in_order_arrive in \<open>auto simp: assign_seq_def\<close>)

lemma rx_reaches_prompt:
  assumes "rx_reaches sent (s0, [], {}) (s, taken, arrived)" "rx_start cap s0" "\<forall>k \<in> arrived. k \<le> cap"
  shows "ch_capacity (st_chan s) = cap \<and> imap_get (st_buf s) (st_recv_seq s + 1) = None"
  using assms(1,3) unfolding rx_reaches_def
proof (induction "(s, taken, arrived)" arbitrary: s taken arrived rule: rtranclp_induct)
  case base
  then show ?case using assms(2) by (auto simp: rx_start_def StreamSocket_new_def channel_new_def split: if_splits)
next
  case (step y)
  obtain s1 taken1 arrived1 where y: "y = (s1, taken1, arrived1)" by (cases y) auto
  have inv: "in_order sent (s1, taken1, arrived1)"
    using rx_reaches_in_order [of sent s0 y cap] step.hyps(1) assms(2) by (simp add: rx_reaches_def y)
  have sub: "arrived1 \<subseteq> arrived" using step.hyps(2) by (auto simp: y elim: rx_step.cases)
  with step.prems step.hyps(3) [OF y] have prev: "ch_capacity (st_chan s1) = cap" "imap_get (st_buf s1) (st_recv_seq s1 + 1) = None"
    by auto
  from step.hyps(2) [unfolded y] show ?case
  proof cases
    case (Arrive sq)
    then have *: "in_order sent (s, taken, arrived)" "drained s" "ch_capacity (st_chan s) = cap"
      using in_order_arrive [OF inv] prev by auto
    then show ?thesis using room_drained [OF *(1,2)] step.prems by simp
  qed (use prev in \<open>auto simp: assign_seq_def\<close>)
qed

text \<open>
  A simulated TCP stream delivers in order: however the network reorders the segments of a
  stream, what the application has read, followed by what is queued for it, is exactly the data
  of the first segments of the sequence, without loss, duplication or reordering; once all of
  the first \<open>n\<close> have arrived and the channel has room for \<open>n\<close> chunks, the data of all of them
  has been handed over.
\<close>

theorem stream_reorders:
  assumes "rx_start cap s0" "rx_reaches sent (s0, [], {}) (s, taken, arrived)"
  shows "taken @ ch_queue (st_chan s) = data_upto sent (st_recv_seq s) \<and>
    (arrived = {1..n} \<and> n \<le> cap \<longrightarrow> taken @ ch_queue (st_chan s) = data_upto sent n)"
proof -
  have inv: "in_order sent (s, taken, arrived)" using assms by (rule rx_reaches_in_order [rotated])
  then have out: "taken @ ch_queue (st_chan s) = data_upto sent (st_recv_seq s)" by (simp add: in_order_def)
  have "st_recv_seq s = n" if all: "arrived = {1..n}" "n \<le> cap"
  proof -
    have none: "imap_get (st_buf s) (st_recv_seq s + 1) = None"
      using rx_reaches_prompt [OF assms(2,1)] all by auto
    have arr: "{1..n} = {1..st_recv_seq s} \<union> dom (imap_get (st_buf s))" using inv all by (simp add: in_order_def)
    have "st_recv_seq s \<le> n" using arr by (metis Un_iff atLeastAtMost_iff le_zero_eq not_less_eq_eq One_nat_def le_refl nat_le_linear)
    moreover have "\<not> st_recv_seq s < n"
    proof
      assume "st_recv_seq s < n"
      then have "st_recv_seq s + 1 \<in> {1..st_recv_seq s} \<union> dom (imap_get (st_buf s))" unfolding arr [symmetric] by simp
      with none show False by auto
    qed
    ultimately show ?thesis by simp
  qed
  with out show ?thesis by auto
qed

theorem stream_reorders_witness:
  "\<exists>s0 s. rx_start 2 s0 \<and> rx_reaches (\<lambda>k. SeqData [word_of_nat k]) (s0, [], {}) (s, [], {1, 2}) \<and>
    [] @ ch_queue (st_chan s) = data_upto (\<lambda>k. SeqData [word_of_nat k]) (st_recv_seq s) \<and>
    [] @ ch_queue (st_chan s) = data_upto (\<lambda>k. SeqData [word_of_nat k]) 2 \<and>
    ch_queue (st_chan s) = [[1], [2]]"
proof -
  let ?sent = "\<lambda>k. SeqData [word_of_nat k]"
  define s0 where "s0 = the (StreamSocket_new 2 0 1 2)"
  have start: "rx_start 2 s0" by (simp add: s0_def rx_start_def StreamSocket_new_def channel_new_def)
  obtain s1 where s1: "buffer 2 (?sent 2) s0 = Some (Inr (), s1)" "s1 = s0\<lparr>st_buf := [(2, SeqData [2])]\<rparr>"
    by (simp add: buffer_def drain_buf.simps s0_def StreamSocket_new_def channel_new_def Let_def)
  obtain s where s: "buffer 1 (?sent 1) s1 = Some (Inr (), s)" "ch_queue (st_chan s) = [[1], [2]]"
    by (simp add: s1(2) buffer_def drain_buf.simps try_send_def s0_def StreamSocket_new_def channel_new_def Let_def)
  have "rx_step ?sent (s0, [], {}) (s1, [], {2})" using s1(1) by (intro Arrive) simp_all
  moreover have "rx_step ?sent (s1, [], {2}) (s, [], {1, 2})" using s(1) by (intro Arrive) simp_all
  ultimately have reach: "rx_reaches ?sent (s0, [], {}) (s, [], {1, 2})"
    unfolding rx_reaches_def by (rule converse_rtranclp_into_rtranclp [OF _ r_into_rtranclp])
  have "{1, 2} = {1..2 :: nat}" by auto
  then have "[] @ ch_queue (st_chan s) = data_upto ?sent (st_recv_seq s) \<and> [] @ ch_queue (st_chan s) = data_upto ?sent 2"
    using stream_reorders [OF start reach, of 2] by (auto simp del: append.simps)
  with start reach s(2) show ?thesis by blast
qed

end
