(* ===== verification/Sim_Udp.thy ===== *)
theory Sim_Udp
  imports Sim_World
begin

text \<open>
  \<^verbatim>\<open>turmoil/src/net/udp.rs\<close>: the UDP socket of a simulated host. A socket is its local address and the
  datagram stashed by \<^verbatim>\<open>readable\<close>; its channel is the queue of its bind on the host. An address
  argument is what it resolves to in the name table. \<^verbatim>\<open>send_loopback\<close> spawns a task that sleeps for one
  tick and delivers: the task is queued, and running it is an operation of its own. The mutex
  around the receiver is not contended within one call.
\<close>

fun is_multicast :: "IpAddr \<Rightarrow> bool" where
  "is_multicast (V4 a) = (drop_bit 28 a = 0xE)"
| "is_multicast (V6 a) = (drop_bit 120 a = 0xFF)"

fun is_broadcast :: "IpAddr \<Rightarrow> bool" where
  "is_broadcast (V4 a) = (a = 0xFFFFFFFF)"
| "is_broadcast (V6 a) = False"

record UdpSocket =
  us_local_addr :: SocketAddr
  us_buffer :: "(bytes \<times> SocketAddr) option"

definition UdpSocket_new :: "SocketAddr \<Rightarrow> UdpSocket" where
  "UdpSocket_new a = \<lparr>us_local_addr = a, us_buffer = None\<rparr>"

type_synonym to_socket_addr = "SimDns \<Rightarrow> SocketAddr io_result"

section \<open>Receiving\<close>

text \<open>\<^verbatim>\<open>mpsc::Receiver::try_recv\<close> on the channel of the socket's bind.\<close>

definition chan_take :: "SocketAddr \<Rightarrow> 'g World \<Rightarrow> ((bytes \<times> SocketAddr) \<times> 'g World) option" where
  "chan_take a w = do {
     h \<leftarrow> current_host w;
     b \<leftarrow> imap_get (udp_binds (host_udp h)) (sa_port a);
     case ch_queue (ub_queue b) of
       [] \<Rightarrow> None
     | x # xs \<Rightarrow> do {
         w1 \<leftarrow> set_current_host (h\<lparr>host_udp := (host_udp h)\<lparr>udp_binds := imap_insert (sa_port a)
           (b\<lparr>ub_queue := (ub_queue b)\<lparr>ch_queue := xs\<rparr>\<rparr>) (udp_binds (host_udp h))\<rparr>\<rparr>) w;
         Some (x, w1)
       }
   }"

text \<open>The result is the bytes written to the front of a buffer of the given size, and the origin.\<close>

definition rx_try_recv_from ::
  "nat \<Rightarrow> UdpSocket \<Rightarrow> 'g World \<Rightarrow> (bytes \<times> SocketAddr) io_result \<times> UdpSocket \<times> 'g World" where
  "rx_try_recv_from n s w =
     (case us_buffer s of
        Some (datagram, origin) \<Rightarrow> (Ok (take (min n (length datagram)) datagram, origin), s\<lparr>us_buffer := None\<rparr>, w)
      | None \<Rightarrow>
          (case chan_take (us_local_addr s) w of
             None \<Rightarrow> (Err (Kind WouldBlock), s, w)
           | Some ((datagram, origin), w1) \<Rightarrow> (Ok (take (min n (length datagram)) datagram, origin), s, w1)))"

definition rx_readable :: "UdpSocket \<Rightarrow> 'g World \<Rightarrow> unit io_result Poll \<times> UdpSocket \<times> 'g World" where
  "rx_readable s w =
     (case us_buffer s of
        Some _ \<Rightarrow> (Ready (Ok ()), s, w)
      | None \<Rightarrow>
          (case chan_take (us_local_addr s) w of
             None \<Rightarrow> (Pending, s, w)
           | Some (x, w1) \<Rightarrow> (Ready (Ok ()), s\<lparr>us_buffer := Some x\<rparr>, w1)))"

text \<open>One poll of \<^verbatim>\<open>recv_from\<close>.\<close>

definition UdpSocket_recv_from ::
  "nat \<Rightarrow> UdpSocket \<Rightarrow> 'g World \<Rightarrow> (bytes \<times> SocketAddr) io_result Poll \<times> UdpSocket \<times> 'g World" where
  "UdpSocket_recv_from n s w =
     (case rx_readable s w of
        (Pending, s1, w1) \<Rightarrow> (Pending, s1, w1)
      | (Ready (Err e), s1, w1) \<Rightarrow> (Ready (Err e), s1, w1)
      | (Ready (Ok _), s1, w1) \<Rightarrow> (let (r, s2, w2) = rx_try_recv_from n s1 w1 in (Ready r, s2, w2)))"

section \<open>Binding and sending\<close>

definition verify_ipv4_bind_interface :: "IpAddr \<Rightarrow> IpAddr \<Rightarrow> unit io_result option" where
  "verify_ipv4_bind_interface interface a =
     (if \<not> is_unspecified interface \<and> \<not> is_loopback interface then Some (Err (Kind AddrNotAvailable))
      else if is_ipv4 interface \<noteq> is_ipv4 a then None
      else Some (Ok ()))"

definition verify_ipv6_bind_interface :: "nat \<Rightarrow> unit io_result" where
  "verify_ipv6_bind_interface interface = (if interface \<noteq> 0 then Err (Kind AddrNotAvailable) else Ok ())"

definition destination_address :: "'g World \<Rightarrow> UdpSocket \<Rightarrow> SocketAddr option" where
  "destination_address w s = map_option (\<lambda>h. SocketAddr (host_addr h) (sa_port (us_local_addr s))) (current_host w)"

definition UdpSocket_bind :: "to_socket_addr \<Rightarrow> 'g World \<Rightarrow> (UdpSocket io_result \<times> 'g World) option" where
  "UdpSocket_bind to_addr w =
     (case to_addr (w_dns w) of
        Err e \<Rightarrow> Some (Err e, w)
      | Ok a \<Rightarrow> do {
          h \<leftarrow> current_host w;
          v \<leftarrow> verify_ipv4_bind_interface (sa_ip a) (host_addr h);
          case v of
            Err e \<Rightarrow> Some (Err e, w)
          | Ok _ \<Rightarrow> do {
              (port, h1) \<leftarrow> (if sa_port a = 0 then assign_ephemeral_port h else Some (sa_port a, h));
              (r, u) \<leftarrow> udp_bind (SocketAddr (sa_ip a) port) (host_udp h1);
              w1 \<leftarrow> set_current_host (h1\<lparr>host_udp := u\<rparr>) w;
              Some (map_sum id UdpSocket_new r, w1)
            }
        })"

definition UdpSocket_connect :: "to_socket_addr \<Rightarrow> UdpSocket \<Rightarrow> 'g World \<Rightarrow> (unit io_result \<times> 'g World) option" where
  "UdpSocket_connect to_addr s w =
     (case to_addr (w_dns w) of
        Err e \<Rightarrow> Some (Err e, w)
      | Ok a \<Rightarrow> do {
          h \<leftarrow> current_host w;
          u \<leftarrow> udp_connect (us_local_addr s) a (host_udp h);
          w1 \<leftarrow> set_current_host (h\<lparr>host_udp := u\<rparr>) w;
          Some (Ok (), w1)
        })"

definition send_loopback :: "SocketAddr \<Rightarrow> SocketAddr \<Rightarrow> Protocol \<Rightarrow> 'g World \<Rightarrow> 'g World option" where
  "send_loopback src dst message w = do {
     a \<leftarrow> w_current w;
     Some (w\<lparr>w_loopback := w_loopback w @ [(a, \<lparr>env_src = src, env_dst = dst, env_message = message\<rparr>)]\<rparr>)
   }"

text \<open>The body of the spawned task, on the host that spawned it; a reply is a panic.\<close>

definition run_loopback :: "'g World \<Rightarrow> 'g World option" where
  "run_loopback w =
     (case w_loopback w of
        [] \<Rightarrow> Some w
      | (a, e) # ts \<Rightarrow> do {
          h \<leftarrow> imap_get (w_hosts w) a;
          (r, h1) \<leftarrow> receive_from_network e h;
          case r of
            Inl _ \<Rightarrow> None
          | Inr _ \<Rightarrow> Some (w\<lparr>w_loopback := ts, w_hosts := imap_insert a h1 (w_hosts w)\<rparr>)
        })"

text \<open>\<^verbatim>\<open>try_for_each\<close>: the first error ends the loop.\<close>

fun try_for_each ::
  "('a \<Rightarrow> 'g World \<Rightarrow> (unit io_result \<times> 'g World) option) \<Rightarrow> 'a list \<Rightarrow> 'g World \<Rightarrow> (unit io_result \<times> 'g World) option" where
  "try_for_each f [] w = Some (Ok (), w)"
| "try_for_each f (x # xs) w = do {
     (r, w1) \<leftarrow> f x w;
     case r of Err e \<Rightarrow> Some (Err e, w1) | Ok _ \<Rightarrow> try_for_each f xs w1
   }"

definition broadcast_one ::
  "'g NetRng \<Rightarrow> SocketAddr \<Rightarrow> bytes \<Rightarrow> SocketAddr \<Rightarrow> 'g World \<Rightarrow> (unit io_result \<times> 'g World) option" where
  "broadcast_one rng src packet dst w =
     (if sa_ip src = sa_ip dst then do { w1 \<leftarrow> send_loopback src dst (ProtoUdp packet) w; Some (Ok (), w1) }
      else send_message rng src dst (ProtoUdp packet) w)"

definition multicast_one ::
  "'g NetRng \<Rightarrow> SocketAddr \<Rightarrow> bytes \<Rightarrow> SocketAddr \<Rightarrow> 'g World \<Rightarrow> (unit io_result \<times> 'g World) option" where
  "multicast_one rng src packet dst w =
     (if sa_ip src = sa_ip dst then do {
        h \<leftarrow> current_host w;
        if is_multicast_loop_enabled (host_udp h) (sa_port dst)
        then do { w1 \<leftarrow> send_loopback src dst (ProtoUdp packet) w; Some (Ok (), w1) }
        else Some (Ok (), w)
      }
      else send_message rng src dst (ProtoUdp packet) w)"

text \<open>The source address of a packet: the loopback address it goes to, or the host's own.\<close>

definition source_for :: "SimHost option \<Rightarrow> SocketAddr \<Rightarrow> SocketAddr \<Rightarrow> SocketAddr option" where
  "source_for host local_addr dst =
     (let src = (if is_loopback (sa_ip dst) then SocketAddr (sa_ip dst) (sa_port local_addr) else local_addr)
      in if is_unspecified (sa_ip src) then map_option (\<lambda>h. SocketAddr (host_addr h) (sa_port src)) host
         else Some src)"

definition broadcast_targets :: "'g World \<Rightarrow> u16 \<Rightarrow> SocketAddr list" where
  "broadcast_targets w port =
     map (\<lambda>(a, _). SocketAddr a port) (filter (\<lambda>(_, h). udp_is_port_assigned (host_udp h) port) (w_hosts w))"

definition UdpSocket_send ::
  "'g NetRng \<Rightarrow> UdpSocket \<Rightarrow> SocketAddr \<Rightarrow> bytes \<Rightarrow> 'g World \<Rightarrow> (unit io_result \<times> 'g World) option" where
  "UdpSocket_send rng s dst packet w = do {
     src \<leftarrow> source_for (current_host w) (us_local_addr s) dst;
     if is_broadcast (sa_ip dst) then do {
       h \<leftarrow> current_host w;
       if is_broadcast_enabled (host_udp h) (sa_port src)
       then try_for_each (broadcast_one rng src packet) (broadcast_targets w (sa_port dst)) w
       else Some (Err (Kind PermissionDenied), w)
     }
     else if is_multicast (sa_ip dst) then
       try_for_each (multicast_one rng src packet) (imap_keys (destination_addresses (w_groups w) dst)) w
     else if is_same src dst then do { w1 \<leftarrow> send_loopback src dst (ProtoUdp packet) w; Some (Ok (), w1) }
     else send_message rng src dst (ProtoUdp packet) w
   }"

text \<open>\<^verbatim>\<open>send_to\<close> and \<^verbatim>\<open>try_send_to\<close> have the same body.\<close>

definition UdpSocket_send_to ::
  "'g NetRng \<Rightarrow> UdpSocket \<Rightarrow> bytes \<Rightarrow> to_socket_addr \<Rightarrow> 'g World \<Rightarrow> (nat io_result \<times> 'g World) option" where
  "UdpSocket_send_to rng s buf target w =
     (case target (w_dns w) of
        Err e \<Rightarrow> Some (Err e, w)
      | Ok dst \<Rightarrow> do {
          (r, w1) \<leftarrow> UdpSocket_send rng s dst buf w;
          Some (map_sum id (\<lambda>_. length buf) r, w1)
        })"

section \<open>Options\<close>

definition on_udp :: "(HostUdp \<Rightarrow> HostUdp) \<Rightarrow> 'g World \<Rightarrow> 'g World option" where
  "on_udp f w = do { h \<leftarrow> current_host w; set_current_host (h\<lparr>host_udp := f (host_udp h)\<rparr>) w }"

definition UdpSocket_broadcast :: "UdpSocket \<Rightarrow> 'g World \<Rightarrow> bool option" where
  "UdpSocket_broadcast s w =
     map_option (\<lambda>h. is_broadcast_enabled (host_udp h) (sa_port (us_local_addr s))) (current_host w)"

definition UdpSocket_set_broadcast :: "UdpSocket \<Rightarrow> bool \<Rightarrow> 'g World \<Rightarrow> 'g World option" where
  "UdpSocket_set_broadcast s on w =
     (if is_ipv4 (sa_ip (us_local_addr s)) then on_udp (udp_set_broadcast (sa_port (us_local_addr s)) on) w else Some w)"

definition multicast_loop_v4 :: "UdpSocket \<Rightarrow> 'g World \<Rightarrow> bool option" where
  "multicast_loop_v4 s w =
     map_option (\<lambda>h. is_multicast_loop_enabled (host_udp h) (sa_port (us_local_addr s))) (current_host w)"

definition set_multicast_loop_v4 :: "UdpSocket \<Rightarrow> bool \<Rightarrow> 'g World \<Rightarrow> 'g World option" where
  "set_multicast_loop_v4 s on w =
     (if is_ipv4 (sa_ip (us_local_addr s)) then on_udp (udp_set_multicast_loop (sa_port (us_local_addr s)) on) w else Some w)"

definition multicast_loop_v6 :: "UdpSocket \<Rightarrow> 'g World \<Rightarrow> bool option" where
  "multicast_loop_v6 s w =
     map_option (\<lambda>h. is_multicast_loop_enabled (host_udp h) (sa_port (us_local_addr s))) (current_host w)"

definition set_multicast_loop_v6 :: "UdpSocket \<Rightarrow> bool \<Rightarrow> 'g World \<Rightarrow> 'g World option" where
  "set_multicast_loop_v6 s on w =
     (if \<not> is_ipv4 (sa_ip (us_local_addr s)) then on_udp (udp_set_multicast_loop (sa_port (us_local_addr s)) on) w else Some w)"

section \<open>Multicast membership and drop\<close>

definition join_multicast_v4 :: "UdpSocket \<Rightarrow> u32 \<Rightarrow> u32 \<Rightarrow> 'g World \<Rightarrow> (unit io_result \<times> 'g World) option" where
  "join_multicast_v4 s multiaddr interface w =
     (if \<not> is_multicast (V4 multiaddr) then Some (Err (Kind InvalidInput), w)
      else do {
        dst \<leftarrow> destination_address w s;
        v \<leftarrow> verify_ipv4_bind_interface (V4 interface) (sa_ip dst);
        case v of
          Err e \<Rightarrow> Some (Err e, w)
        | Ok _ \<Rightarrow> Some (Ok (), w\<lparr>w_groups := group_join (V4 multiaddr) dst (w_groups w)\<rparr>)
      })"

definition join_multicast_v6 :: "UdpSocket \<Rightarrow> u128 \<Rightarrow> nat \<Rightarrow> 'g World \<Rightarrow> (unit io_result \<times> 'g World) option" where
  "join_multicast_v6 s multiaddr interface w =
     (case verify_ipv6_bind_interface interface of
        Err e \<Rightarrow> Some (Err e, w)
      | Ok _ \<Rightarrow>
          if \<not> is_multicast (V6 multiaddr) then Some (Err (Kind InvalidInput), w)
          else do {
            dst \<leftarrow> destination_address w s;
            Some (Ok (), w\<lparr>w_groups := group_join (V6 multiaddr) dst (w_groups w)\<rparr>)
          })"

definition leave_group :: "IpAddr \<Rightarrow> SocketAddr \<Rightarrow> 'g World \<Rightarrow> unit io_result \<times> 'g World" where
  "leave_group grp dst w =
     (if \<not> contains_destination_address (w_groups w) grp dst then (Err (Kind AddrNotAvailable), w)
      else (Ok (), w\<lparr>w_groups := group_leave grp dst (w_groups w)\<rparr>))"

definition leave_multicast_v4 :: "UdpSocket \<Rightarrow> u32 \<Rightarrow> u32 \<Rightarrow> 'g World \<Rightarrow> (unit io_result \<times> 'g World) option" where
  "leave_multicast_v4 s multiaddr interface w =
     (if \<not> is_multicast (V4 multiaddr) then Some (Err (Kind InvalidInput), w)
      else do {
        dst \<leftarrow> destination_address w s;
        v \<leftarrow> verify_ipv4_bind_interface (V4 interface) (sa_ip dst);
        case v of Err e \<Rightarrow> Some (Err e, w) | Ok _ \<Rightarrow> Some (leave_group (V4 multiaddr) dst w)
      })"

definition leave_multicast_v6 :: "UdpSocket \<Rightarrow> u128 \<Rightarrow> nat \<Rightarrow> 'g World \<Rightarrow> (unit io_result \<times> 'g World) option" where
  "leave_multicast_v6 s multiaddr interface w =
     (case verify_ipv6_bind_interface interface of
        Err e \<Rightarrow> Some (Err e, w)
      | Ok _ \<Rightarrow>
          if \<not> is_multicast (V6 multiaddr) then Some (Err (Kind InvalidInput), w)
          else do {
            dst \<leftarrow> destination_address w s;
            Some (leave_group (V6 multiaddr) dst w)
          })"

definition UdpSocket_drop :: "UdpSocket \<Rightarrow> 'g World \<Rightarrow> 'g World option" where
  "UdpSocket_drop s w = do {
     dst \<leftarrow> destination_address w s;
     h \<leftarrow> current_host w;
     u \<leftarrow> udp_unbind (us_local_addr s) (host_udp h);
     set_current_host (h\<lparr>host_udp := u\<rparr>) (w\<lparr>w_groups := group_leave_all dst (w_groups w)\<rparr>)
   }"

end
