(* ===== verification/Sim_Tcp.thy ===== *)
theory Sim_Tcp
  imports Sim_Udp
begin

text \<open>
  \<^verbatim>\<open>turmoil/src/net/tcp/stream.rs\<close> and \<^verbatim>\<open>listener.rs\<close>: the streams and listeners of a simulated host. A
  stream has a read half and a write half over the stream socket of the host, and a flow control
  per direction whose credits bound the segments in flight. The tasks that wait on a half are a set
  named by a number; the set itself is in \<open>Sim_Wakers\<close>, and here the asynchronous waits are the
  polls they repeat. The one-shot sender of a handshake is dropped when no SYN carries it any more.
\<close>

section \<open>Flow control\<close>

definition FlowControl_new :: "nat \<Rightarrow> FlowControl" where
  "FlowControl_new cap = \<lparr>fc_credits = cap, fc_waker = None\<rparr>"

text \<open>The compare-and-swap loop succeeds at once without a concurrent update.\<close>

definition try_acquire :: "FlowControl \<Rightarrow> bool \<times> FlowControl" where
  "try_acquire f = (if fc_credits f = 0 then (False, f) else (True, f\<lparr>fc_credits := fc_credits f - 1\<rparr>))"

definition flow_release :: "FlowControl \<Rightarrow> waker list \<times> FlowControl" where
  "flow_release f =
     ((case fc_waker f of None \<Rightarrow> [] | Some w \<Rightarrow> [w]), f\<lparr>fc_credits := fc_credits f + 1, fc_waker := None\<rparr>)"

definition has_credits :: "FlowControl \<Rightarrow> bool" where
  "has_credits f \<longleftrightarrow> fc_credits f > 0"

definition register_waker :: "waker \<Rightarrow> FlowControl \<Rightarrow> FlowControl" where
  "register_waker w f = f\<lparr>fc_waker := Some w\<rparr>"

definition bidi_invert :: "nat \<times> nat \<Rightarrow> nat \<times> nat" where
  "bidi_invert b = (snd b, fst b)"

definition on_flow :: "nat \<Rightarrow> (FlowControl \<Rightarrow> FlowControl) \<Rightarrow> 'g World \<Rightarrow> 'g World" where
  "on_flow i f w = w\<lparr>w_flows := imap_modify i f (w_flows w)\<rparr>"

definition release_flow :: "nat \<Rightarrow> 'g World \<Rightarrow> 'g World" where
  "release_flow i w =
     (case imap_get (w_flows w) i of
        None \<Rightarrow> w
      | Some f \<Rightarrow> (on_flow i (\<lambda>f. snd (flow_release f)) w)\<lparr>w_woken := w_woken w @ fst (flow_release f)\<rparr>)"

section \<open>Streams\<close>

record ReadHalf =
  rh_pair :: SocketPair
  rh_chan :: nat
  rh_buffer :: "bytes option"
  rh_closed :: bool
  rh_flow :: nat
  rh_waiters :: waker

record WriteHalf =
  wh_pair :: SocketPair
  wh_shutdown :: bool
  wh_flow :: nat
  wh_waiters :: waker

record TcpStream =
  read_half :: ReadHalf
  write_half :: WriteHalf

text \<open>\<open>flow\<close> has the flow control of the write side and that of the read side.\<close>

definition TcpStream_new :: "SocketPair \<Rightarrow> nat \<Rightarrow> nat \<times> nat \<Rightarrow> waker \<Rightarrow> waker \<Rightarrow> TcpStream" where
  "TcpStream_new pair chan flow rw ww =
     \<lparr>read_half = \<lparr>rh_pair = pair, rh_chan = chan, rh_buffer = None, rh_closed = False, rh_flow = snd flow, rh_waiters = rw\<rparr>,
      write_half = \<lparr>wh_pair = pair, wh_shutdown = False, wh_flow = fst flow, wh_waiters = ww\<rparr>\<rparr>"

section \<open>The receiver of a read half\<close>

text \<open>The queue of the channel, and whether its sender still exists.\<close>

definition rx_queue :: "ReadHalf \<Rightarrow> HostTcp \<Rightarrow> bytes list \<times> bool" where
  "rx_queue r t =
     (case imap_get (tcp_sockets t) (rh_pair r) of
        Some s \<Rightarrow>
          if st_chan_id s = rh_chan r then (ch_queue (st_chan s), st_sender s)
          else (case imap_get (tcp_orphans t) (rh_chan r) of None \<Rightarrow> [] | Some q \<Rightarrow> q, False)
      | None \<Rightarrow> (case imap_get (tcp_orphans t) (rh_chan r) of None \<Rightarrow> [] | Some q \<Rightarrow> q, False))"

definition set_rx_queue :: "bytes list \<Rightarrow> ReadHalf \<Rightarrow> HostTcp \<Rightarrow> HostTcp" where
  "set_rx_queue q r t =
     (case imap_get (tcp_sockets t) (rh_pair r) of
        Some s \<Rightarrow>
          if st_chan_id s = rh_chan r
          then t\<lparr>tcp_sockets := imap_insert (rh_pair r) (s\<lparr>st_chan := (st_chan s)\<lparr>ch_queue := q\<rparr>\<rparr>) (tcp_sockets t)\<rparr>
          else t\<lparr>tcp_orphans := imap_insert (rh_chan r) q (tcp_orphans t)\<rparr>
      | None \<Rightarrow> t\<lparr>tcp_orphans := imap_insert (rh_chan r) q (tcp_orphans t)\<rparr>)"

datatype recv_outcome = Got bytes | RecvEmpty | RecvDisconnected

definition rx_try_recv :: "ReadHalf \<Rightarrow> 'g World \<Rightarrow> (recv_outcome \<times> 'g World) option" where
  "rx_try_recv r w = do {
     h \<leftarrow> current_host w;
     case rx_queue r (host_tcp h) of
       (x # xs, _) \<Rightarrow> do {
         w1 \<leftarrow> set_current_host (h\<lparr>host_tcp := set_rx_queue xs r (host_tcp h)\<rparr>) w;
         Some (Got x, w1)
       }
     | ([], True) \<Rightarrow> Some (RecvEmpty, w)
     | ([], False) \<Rightarrow> Some (RecvDisconnected, w)
   }"

definition current_stream_state :: "SocketPair \<Rightarrow> 'g World \<Rightarrow> StreamState option" where
  "current_stream_state pair w = map_option (\<lambda>h. stream_state pair (host_tcp h)) (current_host w)"

section \<open>Reading\<close>

text \<open>
  The inner loop of \<^verbatim>\<open>try_read_vectored\<close>: the sizes are what is left of each buffer from the current one
  on. It returns the bytes copied, the rest of the chunk and the sizes left.
\<close>

fun fill_bufs :: "bytes \<Rightarrow> nat list \<Rightarrow> bytes \<times> bytes \<times> nat list" where
  "fill_bufs bs [] = ([], bs, [])"
| "fill_bufs bs (k # ks) =
     (let l = min (length bs) k; rest = drop l bs; sizes = (if l = k then ks else (k - l) # ks)
      in if rest = [] then (take l bs, [], sizes)
         else (let (c, rest', sizes') = fill_bufs rest ks in (take l bs @ c, rest', sizes')))"

partial_function (option) read_loop ::
  "nat list \<Rightarrow> bytes \<Rightarrow> ReadHalf \<Rightarrow> 'g World \<Rightarrow> (bytes io_result \<times> ReadHalf \<times> 'g World) option" where
  "read_loop sizes got r w =
     (if rh_closed r then Some (Ok got, r, w)
      else do {
        (stop, r1, w1) \<leftarrow>
          (case rh_buffer r of
             Some _ \<Rightarrow> Some (None, r, w)
           | None \<Rightarrow> do {
               (out, w1) \<leftarrow> rx_try_recv r w;
               case out of
                 Got bs \<Rightarrow> Some (None, r\<lparr>rh_buffer := Some bs\<rparr>, release_flow (rh_flow r) w1)
               | RecvEmpty \<Rightarrow> Some (Some (if got \<noteq> [] then Ok got else Err (Kind WouldBlock)), r, w1)
               | RecvDisconnected \<Rightarrow>
                   if got \<noteq> [] then Some (Some (Ok got), r, w1)
                   else do {
                     st \<leftarrow> current_stream_state (rh_pair r) w1;
                     if st = Stream_ReadClosed then Some (Some (Ok got), r\<lparr>rh_closed := True\<rparr>, w1)
                     else Some (Some (Err (Kind ConnectionReset)), r, w1)
                   }
             });
        case stop of
          Some result \<Rightarrow> Some (result, r1, w1)
        | None \<Rightarrow>
            (let (c, rest, sizes1) = fill_bufs (case rh_buffer r1 of None \<Rightarrow> [] | Some bs \<Rightarrow> bs) sizes;
                 r2 = r1\<lparr>rh_buffer := (if rest = [] then None else Some rest)\<rparr>
             in if sizes1 = [] then Some (Ok (got @ c), r2, w1)
                else read_loop sizes1 (got @ c) r2 w1)
      })"

text \<open>The bytes are written to the buffers in order; their number is the result of the call.\<close>

definition try_read_vectored ::
  "nat list \<Rightarrow> ReadHalf \<Rightarrow> 'g World \<Rightarrow> (bytes io_result \<times> ReadHalf \<times> 'g World) option" where
  "try_read_vectored sizes r w = read_loop sizes [] r w"

definition poll_recv :: "ReadHalf \<Rightarrow> 'g World \<Rightarrow> (SequencedSegment io_result Poll \<times> ReadHalf \<times> 'g World) option" where
  "poll_recv r w = do {
     (out, w1) \<leftarrow> rx_try_recv r w;
     case out of
       RecvEmpty \<Rightarrow> Some (Pending, r, w1)
     | Got bs \<Rightarrow> Some (Ready (Ok (SeqData bs)), r, release_flow (rh_flow r) w1)
     | RecvDisconnected \<Rightarrow> do {
         st \<leftarrow> current_stream_state (rh_pair r) w1;
         if st \<noteq> Stream_ReadClosed then Some (Ready (Err (Kind ConnectionReset)), r, w1)
         else Some (Ready (Ok SeqFin), r\<lparr>rh_closed := True\<rparr>, w1)
       }
   }"

definition poll_fill :: "ReadHalf \<Rightarrow> 'g World \<Rightarrow> (unit io_result Poll \<times> ReadHalf \<times> 'g World) option" where
  "poll_fill r w =
     (if rh_closed r \<or> rh_buffer r \<noteq> None then Some (Ready (Ok ()), r, w)
      else do {
        (p, r1, w1) \<leftarrow> poll_recv r w;
        Some (case p of
          Pending \<Rightarrow> (Pending, r1, w1)
        | Ready (Err e) \<Rightarrow> (Ready (Err e), r1, w1)
        | Ready (Ok (SeqData bs)) \<Rightarrow> (Ready (Ok ()), r1\<lparr>rh_buffer := Some bs\<rparr>, w1)
        | Ready (Ok SeqFin) \<Rightarrow> (Ready (Ok ()), r1, w1))
      })"

definition put_slice :: "bytes \<Rightarrow> nat \<Rightarrow> bytes \<times> bytes option" where
  "put_slice avail n =
     (let amt = min (length avail) n; rest = drop amt avail
      in (take amt avail, if rest = [] then None else Some rest))"

text \<open>A read buffer is its capacity and what remains of it; the result is what is put into it.\<close>

definition poll_read_priv ::
  "nat \<Rightarrow> nat \<Rightarrow> ReadHalf \<Rightarrow> 'g World \<Rightarrow> (bytes io_result Poll \<times> ReadHalf \<times> 'g World) option" where
  "poll_read_priv cap n r w =
     (if cap = 0 then Some (Ready (Ok []), r, w)
      else do {
        (p, r1, w1) \<leftarrow> poll_fill r w;
        Some (case p of
          Pending \<Rightarrow> (Pending, r1, w1)
        | Ready (Err e) \<Rightarrow> (Ready (Err e), r1, w1)
        | Ready (Ok _) \<Rightarrow>
            (case rh_buffer r1 of
               None \<Rightarrow> (Ready (Ok []), r1, w1)
             | Some bs \<Rightarrow> (let (c, rest) = put_slice bs n in (Ready (Ok c), r1\<lparr>rh_buffer := rest\<rparr>, w1))))
      })"

definition poll_peek_priv ::
  "nat \<Rightarrow> nat \<Rightarrow> ReadHalf \<Rightarrow> 'g World \<Rightarrow> (bytes io_result Poll \<times> ReadHalf \<times> 'g World) option" where
  "poll_peek_priv cap n r w =
     (if cap = 0 then Some (Ready (Ok []), r, w)
      else do {
        (p, r1, w1) \<leftarrow> poll_fill r w;
        Some (case p of
          Pending \<Rightarrow> (Pending, r1, w1)
        | Ready (Err e) \<Rightarrow> (Ready (Err e), r1, w1)
        | Ready (Ok _) \<Rightarrow>
            (case rh_buffer r1 of
               None \<Rightarrow> (Ready (Ok []), r1, w1)
             | Some bs \<Rightarrow> (Ready (Ok (take (min (length bs) n) bs)), r1, w1)))
      })"

definition poll_read_ready :: "ReadHalf \<Rightarrow> 'g World \<Rightarrow> (unit io_result Poll \<times> ReadHalf \<times> 'g World) option" where
  "poll_read_ready r w = poll_fill r w"

section \<open>Writing\<close>

definition write_seq :: "WriteHalf \<Rightarrow> 'g World \<Rightarrow> (nat io_result \<times> 'g World) option" where
  "write_seq wh w = do {
     h \<leftarrow> current_host w;
     let (sq, t) = assign_send_seq (wh_pair wh) (host_tcp h);
     w1 \<leftarrow> set_current_host (h\<lparr>host_tcp := t\<rparr>) w;
     Some (case sq of None \<Rightarrow> Err (Kind BrokenPipe) | Some n \<Rightarrow> Ok n, w1)
   }"

text \<open>A message between the ends of a pair, over loopback if they are on one host.\<close>

definition send_on_pair ::
  "'g NetRng \<Rightarrow> SocketPair \<Rightarrow> Segment \<Rightarrow> 'g World \<Rightarrow> (unit io_result \<times> 'g World) option" where
  "send_on_pair rng pair segment w =
     (if is_same (pair_local pair) (pair_remote pair)
      then do { w1 \<leftarrow> send_loopback (pair_local pair) (pair_remote pair) (ProtoTcp segment) w; Some (Ok (), w1) }
      else send_message rng (pair_local pair) (pair_remote pair) (ProtoTcp segment) w)"

text \<open>The body of a loopback task: a reset goes back to the sender, and its outcome is ignored.\<close>

definition run_tcp_loopback :: "'g World \<Rightarrow> 'g World option" where
  "run_tcp_loopback w =
     (case w_loopback w of
        [] \<Rightarrow> Some w
      | (a, e) # ts \<Rightarrow> do {
          h \<leftarrow> imap_get (w_hosts w) a;
          (r, h1) \<leftarrow> receive_from_network e h;
          (_, h2) \<leftarrow> (case r of
                        Inr _ \<Rightarrow> Some (Inr (), h1)
                      | Inl rst \<Rightarrow> receive_from_network \<lparr>env_src = env_dst e, env_dst = env_src e, env_message = rst\<rparr> h1);
          Some (w\<lparr>w_loopback := ts, w_hosts := imap_insert a h2 (w_hosts w)\<rparr>)
        })"

definition try_write :: "'g NetRng \<Rightarrow> bytes \<Rightarrow> WriteHalf \<Rightarrow> 'g World \<Rightarrow> (nat io_result \<times> 'g World) option" where
  "try_write rng buf wh w =
     (if wh_shutdown wh then Some (Err (Kind BrokenPipe), w)
      else if buf = [] then Some (Ok 0, w)
      else do {
        st \<leftarrow> current_stream_state (wh_pair wh) w;
        if st = Stream_Reset then Some (Err (Kind BrokenPipe), w)
        else do {
          f \<leftarrow> imap_get (w_flows w) (wh_flow wh);
          if \<not> fst (try_acquire f) then Some (Err (Kind WouldBlock), w)
          else do {
            (sq, w1) \<leftarrow> write_seq wh (on_flow (wh_flow wh) (\<lambda>f. snd (try_acquire f)) w);
            case sq of
              Err e \<Rightarrow> Some (Err e, w1)
            | Ok n \<Rightarrow> do {
                (sent, w2) \<leftarrow> send_on_pair rng (wh_pair wh) (Data n buf) w1;
                Some (map_sum id (\<lambda>_. length buf) sent, w2)
              }
          }
        }
      })"

definition poll_writable :: "WriteHalf \<Rightarrow> 'g World \<Rightarrow> (unit io_result Poll \<times> 'g World) option" where
  "poll_writable wh w =
     (if wh_shutdown wh then Some (Ready (Err (Kind BrokenPipe)), w)
      else do {
        h \<leftarrow> current_host w;
        let (st, t) = poll_stream_state (wh_pair wh) (wh_waiters wh) (host_tcp h);
        w1 \<leftarrow> set_current_host (h\<lparr>host_tcp := t\<rparr>) w;
        if st = Stream_Reset then Some (Ready (Err (Kind BrokenPipe)), w1)
        else do {
          f \<leftarrow> imap_get (w_flows w1) (wh_flow wh);
          if has_credits f then Some (Ready (Ok ()), w1)
          else Some (Pending, on_flow (wh_flow wh) (register_waker (wh_waiters wh)) w1)
        }
      })"

definition poll_write :: "'g NetRng \<Rightarrow> bytes \<Rightarrow> WriteHalf \<Rightarrow> 'g World \<Rightarrow> (nat io_result Poll \<times> 'g World) option" where
  "poll_write rng buf wh w =
     (if buf \<noteq> [] then do {
        (p, w1) \<leftarrow> poll_writable wh w;
        case p of
          Pending \<Rightarrow> Some (Pending, w1)
        | Ready (Err e) \<Rightarrow> Some (Ready (Err e), w1)
        | Ready (Ok _) \<Rightarrow> do { (res, w2) \<leftarrow> try_write rng buf wh w1; Some (Ready res, w2) }
      }
      else do { (res, w2) \<leftarrow> try_write rng buf wh w; Some (Ready res, w2) })"

definition poll_shutdown_priv ::
  "'g NetRng \<Rightarrow> WriteHalf \<Rightarrow> 'g World \<Rightarrow> (unit io_result Poll \<times> WriteHalf \<times> 'g World) option" where
  "poll_shutdown_priv rng wh w =
     (if wh_shutdown wh then Some (Ready (Err (Kind NotConnected)), wh, w)
      else do {
        (sq, w1) \<leftarrow> write_seq wh w;
        case sq of
          Err e \<Rightarrow> Some (Ready (Err e), wh, w1)
        | Ok n \<Rightarrow> do {
            (sent, w2) \<leftarrow> send_on_pair rng (wh_pair wh) (Fin n) w1;
            case sent of
              Err e \<Rightarrow> Some (Ready (Err e), wh, w2)
            | Ok _ \<Rightarrow> Some (Ready (Ok ()), wh\<lparr>wh_shutdown := True\<rparr>, w2)
          }
      })"

section \<open>Readiness\<close>

text \<open>Whether an interest asks for reading and for writing; \<open>plain\<close> says that it asks for nothing else.\<close>

record Interest =
  in_readable :: bool
  in_writable :: bool
  in_plain :: bool

record ReadyFlags =
  rf_readable :: bool
  rf_read_closed :: bool
  rf_writable :: bool
  rf_write_closed :: bool

definition ready_empty :: ReadyFlags where
  "ready_empty = \<lparr>rf_readable = False, rf_read_closed = False, rf_writable = False, rf_write_closed = False\<rparr>"

definition poll_ready_read ::
  "TcpStream \<Rightarrow> 'g World \<Rightarrow> (ReadyFlags io_result \<times> TcpStream \<times> 'g World) option" where
  "poll_ready_read s w = do {
     st \<leftarrow> current_stream_state (rh_pair (read_half s)) w;
     if st \<noteq> Stream_Open
     then Some (Ok (ready_empty\<lparr>rf_readable := True, rf_read_closed := True\<rparr>), s, w)
     else do {
       (p, r1, w1) \<leftarrow> poll_read_ready (read_half s) w;
       Some (case p of
         Pending \<Rightarrow> (Ok ready_empty, s\<lparr>read_half := r1\<rparr>, w1)
       | Ready (Err e) \<Rightarrow> (Err e, s\<lparr>read_half := r1\<rparr>, w1)
       | Ready (Ok _) \<Rightarrow> (Ok (ready_empty\<lparr>rf_readable := True\<rparr>), s\<lparr>read_half := r1\<rparr>, w1))
     }
   }"

definition poll_ready ::
  "Interest \<Rightarrow> TcpStream \<Rightarrow> 'g World \<Rightarrow> (ReadyFlags io_result Poll \<times> TcpStream \<times> 'g World) option" where
  "poll_ready i s w =
     (if \<not> in_plain i \<or> \<not> (in_readable i \<or> in_writable i) then Some (Ready (Err (Kind InvalidInput)), s, w)
      else do {
        (r, s1, w1) \<leftarrow> (if in_readable i then poll_ready_read s w else Some (Ok ready_empty, s, w));
        case r of
          Err e \<Rightarrow> Some (Ready (Err e), s1, w1)
        | Ok flags \<Rightarrow> do {
            (flags1, w2) \<leftarrow>
              (if in_writable i then do {
                 (p, w2) \<leftarrow> poll_writable (write_half s1) w1;
                 Some (case p of
                   Pending \<Rightarrow> (flags, w2)
                 | Ready (Ok _) \<Rightarrow> (flags\<lparr>rf_writable := True\<rparr>, w2)
                 | Ready (Err _) \<Rightarrow> (flags\<lparr>rf_write_closed := True\<rparr>, w2))
               }
               else Some (flags, w1));
            Some (if flags1 = ready_empty then Pending else Ready (Ok flags1), s1, w2)
          }
      })"

section \<open>Closing\<close>

text \<open>Dropping the receiver closes the channel and forgets what is queued.\<close>

definition drop_receiver :: "ReadHalf \<Rightarrow> HostTcp \<Rightarrow> HostTcp" where
  "drop_receiver r t =
     (let t1 = t\<lparr>tcp_orphans := imap_shift_remove (rh_chan r) (tcp_orphans t)\<rparr>
      in case imap_get (tcp_sockets t1) (rh_pair r) of
           None \<Rightarrow> t1
         | Some s \<Rightarrow>
             if st_chan_id s = rh_chan r
             then t1\<lparr>tcp_sockets := imap_insert (rh_pair r)
               (s\<lparr>st_chan := (st_chan s)\<lparr>ch_closed := True, ch_queue := []\<rparr>\<rparr>) (tcp_sockets t1)\<rparr>
             else t1)"

definition ReadHalf_drop :: "'g NetRng \<Rightarrow> ReadHalf \<Rightarrow> 'g World \<Rightarrow> 'g World option" where
  "ReadHalf_drop rng r w = do {
     h \<leftarrow> current_host w;
     let has_unread = (\<not> rh_closed r \<and>
       (rh_buffer r \<noteq> None \<or> fst (rx_queue r (host_tcp h)) \<noteq> [] \<or> has_buffered_data (rh_pair r) (host_tcp h)));
     if has_unread then do {
       (_, w1) \<leftarrow> send_on_pair rng (rh_pair r) Rst w;
       h1 \<leftarrow> current_host w1;
       set_current_host (h1\<lparr>host_tcp := drop_receiver r (reset_stream (rh_pair r) (host_tcp h1))\<rparr>) w1
     }
     else do {
       t \<leftarrow> close_stream_half (rh_pair r) (host_tcp h);
       set_current_host (h\<lparr>host_tcp := drop_receiver r t\<rparr>) w
     }
   }"

definition WriteHalf_drop :: "'g NetRng \<Rightarrow> WriteHalf \<Rightarrow> 'g World \<Rightarrow> 'g World option" where
  "WriteHalf_drop rng wh w = do {
     w1 \<leftarrow>
       (if wh_shutdown wh then Some w
        else do {
          (sq, w1) \<leftarrow> write_seq wh w;
          case sq of
            Err _ \<Rightarrow> Some w1
          | Ok n \<Rightarrow> map_option snd (send_on_pair rng (wh_pair wh) (Fin n) w1)
        });
     h \<leftarrow> current_host w1;
     t \<leftarrow> close_stream_half (wh_pair wh) (host_tcp h);
     set_current_host (h\<lparr>host_tcp := t\<rparr>) w1
   }"

section \<open>Connecting\<close>

text \<open>The flow controls, the channel and the waiting sets of a new stream take five numbers.\<close>

definition open_stream ::
  "SocketPair \<Rightarrow> SimHost \<Rightarrow> 'g World \<Rightarrow> (nat \<times> 'g World) option" where
  "open_stream pair h w = do {
     let n = w_next_id w;
     t \<leftarrow> new_stream pair n (n + 1) (n + 2) (host_tcp h);
     w1 \<leftarrow> set_current_host (h\<lparr>host_tcp := t\<rparr>) w;
     Some (n, w1\<lparr>w_next_id := n + 5,
       w_flows := imap_insert (n + 2) (FlowControl_new (tcp_capacity (host_tcp h)))
         (imap_insert (n + 1) (FlowControl_new (tcp_capacity (host_tcp h))) (w_flows w1))\<rparr>)
   }"

text \<open>\<^verbatim>\<open>connect\<close> up to the wait: the stream to be, and the number of the handshake.\<close>

definition connect_start ::
  "'g NetRng \<Rightarrow> to_socket_addr \<Rightarrow> 'g World \<Rightarrow> ((TcpStream \<times> nat) io_result \<times> 'g World) option" where
  "connect_start rng to_addr w =
     (case to_addr (w_dns w) of
        Err e \<Rightarrow> Some (Err e, w)
      | Ok dst \<Rightarrow> do {
          h \<leftarrow> current_host w;
          (port, h1) \<leftarrow> assign_ephemeral_port h;
          let local = SocketAddr (if is_loopback (sa_ip dst) then sa_ip dst else host_addr h1) port;
          pair \<leftarrow> SocketPair_new local dst;
          (n, w1) \<leftarrow> open_stream pair h1 w;
          let ack = w_next_id w1;
          (r, w2) \<leftarrow> send_on_pair rng pair (Syn ack) (w1\<lparr>w_next_id := ack + 1\<rparr>);
          Some (map_sum id (\<lambda>_. (TcpStream_new pair n (n + 1, n + 2) (n + 3) (n + 4), ack)) r, w2)
        })"

text \<open>Whether a SYN with the sender of a handshake still exists, on a link, in a task or at a listener.\<close>

definition carries_syn :: "nat \<Rightarrow> Protocol \<Rightarrow> bool" where
  "carries_syn ack m \<longleftrightarrow> m = ProtoTcp (Syn ack)"

definition syn_alive :: "nat \<Rightarrow> 'g World \<Rightarrow> bool" where
  "syn_alive ack w \<longleftrightarrow>
     list_ex (\<lambda>(_, l). list_ex (\<lambda>m. carries_syn ack (sent_protocol m)) (link_sent l) \<or>
       list_ex (\<lambda>(_, es). list_ex (\<lambda>e. carries_syn ack (env_message e)) es) (deliverable l)) (links_of (w_topology w)) \<or>
     list_ex (\<lambda>(_, e). carries_syn ack (env_message e)) (w_loopback w) \<or>
     list_ex (\<lambda>(_, h). list_ex (\<lambda>(_, b). list_ex (\<lambda>(a, _). a = ack) (sv_deque b)) (tcp_binds (host_tcp h))) (w_hosts w)"

definition connect_poll :: "TcpStream \<Rightarrow> nat \<Rightarrow> 'g World \<Rightarrow> TcpStream io_result Poll" where
  "connect_poll s ack w =
     (if ack \<in> set (w_acked w) then Ready (Ok s)
      else if \<not> syn_alive ack w then Ready (Err (Kind ConnectionRefused))
      else Pending)"

text \<open>Dropping the future of a pending \<^verbatim>\<open>connect\<close>.\<close>

definition connect_cancel :: "nat \<Rightarrow> 'g World \<Rightarrow> 'g World" where
  "connect_cancel ack w = w\<lparr>w_cancelled := ack # w_cancelled w\<rparr>"

section \<open>Listening\<close>

definition TcpListener_bind :: "to_socket_addr \<Rightarrow> 'g World \<Rightarrow> (SocketAddr io_result \<times> 'g World) option" where
  "TcpListener_bind to_addr w =
     (case to_addr (w_dns w) of
        Err e \<Rightarrow> Some (Err e, w)
      | Ok a \<Rightarrow> do {
          h \<leftarrow> current_host w;
          if \<not> is_unspecified (sa_ip a) \<and> \<not> is_loopback (sa_ip a) then Some (Err (Kind AddrNotAvailable), w)
          else if is_ipv4 (sa_ip a) \<noteq> is_ipv4 (host_addr h) then None
          else do {
            (port, h1) \<leftarrow> (if sa_port a = 0 then assign_ephemeral_port h else Some (sa_port a, h));
            let (r, t) = tcp_bind (SocketAddr (sa_ip a) port) (host_tcp h1);
            w1 \<leftarrow> set_current_host (h1\<lparr>host_tcp := t\<rparr>) w;
            Some (r, w1)
          }
        })"

text \<open>The loop of \<^verbatim>\<open>accept\<close> over the queue: handshakes whose client has gone are skipped.\<close>

fun accept_scan :: "nat list \<Rightarrow> (nat \<times> SocketAddr) list \<Rightarrow> (nat \<times> SocketAddr) option \<times> (nat \<times> SocketAddr) list" where
  "accept_scan gone [] = (None, [])"
| "accept_scan gone ((syn, origin) # rest) =
     (if syn \<in> set gone then accept_scan gone rest else (Some (syn, origin), rest))"

definition accepted_pair :: "SocketAddr \<Rightarrow> SocketAddr \<Rightarrow> SimHost \<Rightarrow> SocketPair option" where
  "accepted_pair local origin h =
     (let a = (if is_loopback (sa_ip origin) then SocketAddr (sa_ip origin) (sa_port local) else local);
          b = (if is_unspecified (sa_ip a) then SocketAddr (host_addr h) (sa_port a) else a)
      in SocketPair_new b origin)"

text \<open>One poll of \<^verbatim>\<open>accept\<close>; a client whose stream socket is gone is a panic.\<close>

definition TcpListener_accept ::
  "SocketAddr \<Rightarrow> 'g World \<Rightarrow> ((TcpStream \<times> SocketAddr) io_result Poll \<times> 'g World) option" where
  "TcpListener_accept local w = do {
     h \<leftarrow> current_host w;
     b \<leftarrow> imap_get (tcp_binds (host_tcp h)) (sa_port local);
     let (next, rest) = accept_scan (w_cancelled w) (sv_deque b);
     let h1 = h\<lparr>host_tcp := (host_tcp h)\<lparr>tcp_binds := imap_insert (sa_port local) (b\<lparr>sv_deque := rest\<rparr>) (tcp_binds (host_tcp h))\<rparr>\<rparr>;
     case next of
       None \<Rightarrow> do { w1 \<leftarrow> set_current_host h1 w; Some (Pending, w1) }
     | Some (syn, origin) \<Rightarrow> do {
         pair \<leftarrow> accepted_pair local origin h1;
         (n, w1) \<leftarrow> open_stream pair h1 (w\<lparr>w_acked := syn # w_acked w\<rparr>);
         client_ip \<leftarrow> (if is_loopback (sa_ip origin) then w_current w1 else Some (sa_ip origin));
         client \<leftarrow> imap_get (w_hosts w1) client_ip;
         client_pair \<leftarrow> SocketPair_new origin (pair_local pair);
         bidi \<leftarrow> flow_control client_pair (host_tcp client);
         Some (Ready (Ok (TcpStream_new pair n (bidi_invert bidi) (n + 3) (n + 4), origin)), w1)
       }
   }"

definition TcpListener_drop :: "SocketAddr \<Rightarrow> 'g World \<Rightarrow> 'g World option" where
  "TcpListener_drop local w = do {
     h \<leftarrow> current_host w;
     t \<leftarrow> tcp_unbind local (host_tcp h);
     set_current_host (h\<lparr>host_tcp := t\<rparr>) w
   }"

end
