(* ===== verification/Sim_Flow.thy ===== *)
theory Sim_Flow
  imports Sim_Stream Sim_Tcp
begin

text \<open>
  One direction of a simulated TCP connection, with its flow control: the writer spends a credit for
  every chunk, the network holds the segments and hands them over in any order, the stream
  socket of the receiver puts them in order, and the reader returns a credit for every chunk it
  takes. The credits keep the channel of the receiver from ever being full, so nothing is held back.
\<close>

section \<open>The connection as a state machine\<close>

text \<open>
  \<open>cn_tx\<close> and \<open>cn_rx\<close> are the stream sockets of the two hosts, \<open>cn_net\<close> the segments in flight,
  \<open>cn_taken\<close> what the reader has taken and \<open>cn_written\<close> what the writer has sent.
\<close>

record Conn =
  cn_flow :: FlowControl
  cn_tx :: StreamSocket
  cn_net :: "(nat \<times> SequencedSegment) list"
  cn_rx :: StreamSocket
  cn_taken :: "bytes list"
  cn_written :: "SequencedSegment list"
  cn_shutdown :: bool

datatype ConnOp = WriteChunk bytes | ShutWrite | ArriveSegment nat | ReadChunk

definition conn_send :: "SequencedSegment \<Rightarrow> Conn \<Rightarrow> Conn" where
  "conn_send seg c =
     (let (sq, tx) = assign_seq (cn_tx c)
      in c\<lparr>cn_tx := tx, cn_net := cn_net c @ [(sq, seg)], cn_written := cn_written c @ [seg]\<rparr>)"

text \<open>A write without a credit blocks and changes nothing; a reset or a duplicate would be no step.\<close>

fun conn_step :: "Conn \<Rightarrow> ConnOp \<Rightarrow> Conn option" where
  "conn_step c (WriteChunk bs) =
     (if cn_shutdown c \<or> bs = [] then Some c
      else
        (case try_acquire (cn_flow c) of
           (False, _) \<Rightarrow> Some c
         | (True, f) \<Rightarrow> Some (conn_send (SeqData bs) (c\<lparr>cn_flow := f\<rparr>))))"
| "conn_step c ShutWrite =
     (if cn_shutdown c then Some c else Some ((conn_send SeqFin c)\<lparr>cn_shutdown := True\<rparr>))"
| "conn_step c (ArriveSegment i) =
     (if length (cn_net c) \<le> i then Some c
      else
        (case cn_net c ! i of (sq, seg) \<Rightarrow>
           (case buffer sq seg (cn_rx c) of
              Some (Inr _, rx) \<Rightarrow> Some (c\<lparr>cn_net := take i (cn_net c) @ drop (Suc i) (cn_net c), cn_rx := rx\<rparr>)
            | _ \<Rightarrow> None)))"
| "conn_step c ReadChunk =
     (case ch_queue (st_chan (cn_rx c)) of
        [] \<Rightarrow> Some c
      | b # bs \<Rightarrow>
          Some (c\<lparr>cn_rx := (cn_rx c)\<lparr>st_chan := (st_chan (cn_rx c))\<lparr>ch_queue := bs\<rparr>\<rparr>,
                  cn_taken := cn_taken c @ [b], cn_flow := snd (flow_release (cn_flow c))\<rparr>))"

definition Conn_new :: "nat \<Rightarrow> Conn option" where
  "Conn_new cap = do {
     tx \<leftarrow> StreamSocket_new cap 0 1 2;
     rx \<leftarrow> StreamSocket_new cap 3 4 5;
     Some \<lparr>cn_flow = FlowControl_new cap, cn_tx = tx, cn_net = [], cn_rx = rx, cn_taken = [], cn_written = [],
       cn_shutdown = False\<rparr>
   }"

section \<open>The invariant\<close>

definition sent_of :: "SequencedSegment list \<Rightarrow> nat \<Rightarrow> SequencedSegment" where
  "sent_of ws k = (if 0 < k \<and> k \<le> length ws then ws ! (k - 1) else SeqFin)"

definition all_data :: "SequencedSegment list \<Rightarrow> bytes list" where
  "all_data ws = concat (map seg_data ws)"

lemma data_upto_take: "n \<le> length ws \<Longrightarrow> data_upto (sent_of ws) n = all_data (take n ws)"
proof (induction n)
  case (Suc n)
  then show ?case by (simp add: data_upto_Suc sent_of_def take_Suc_conv_app_nth all_data_def)
qed (simp add: data_upto_def all_data_def)

lemma data_upto_all: "data_upto (sent_of ws) (length ws) = all_data ws"
  by (simp add: data_upto_take)

lemma data_upto_length: "n \<le> length ws \<Longrightarrow> length (data_upto (sent_of ws) n) \<le> length (all_data ws)"
  by (metis append_take_drop_id all_data_def concat_append data_upto_take length_append le_add1 map_append)

lemma sent_of_append: "k \<le> length ws \<Longrightarrow> 0 < k \<Longrightarrow> sent_of (ws @ [seg]) k = sent_of ws k"
  by (cases k) (simp_all add: sent_of_def nth_append)

text \<open>Only the segments that have arrived matter to the order at the receiver.\<close>

lemma in_order_cong:
  assumes "in_order sent (s, taken, arrived)" "\<And>k. k \<in> arrived \<Longrightarrow> sent' k = sent k"
  shows "in_order sent' (s, taken, arrived)"
proof -
  have arr: "arrived = {1..st_recv_seq s} \<union> dom (imap_get (st_buf s))" using assms(1) by (simp add: in_order_def)
  have "data_upto sent' (st_recv_seq s) = data_upto sent (st_recv_seq s)"
    unfolding data_upto_def using assms(2) arr by (intro arg_cong [of _ _ concat] map_cong) auto
  moreover have "sent' k = sent k" if "imap_get (st_buf s) k = Some seg" for k seg
    using assms(2) arr that by blast
  ultimately show ?thesis using assms(1) by (simp add: in_order_def del: map_of_eq_Some_iff)
qed

definition fin_last :: "SequencedSegment list \<Rightarrow> bool" where
  "fin_last ws \<longleftrightarrow> SeqFin \<notin> set (butlast ws)"

text \<open>The receiver dropped its sender exactly if it has passed a FIN.\<close>

definition open_until_fin :: "SequencedSegment list \<Rightarrow> StreamSocket \<Rightarrow> bool" where
  "open_until_fin ws s \<longleftrightarrow> (st_sender s \<longleftrightarrow> SeqFin \<notin> set (take (st_recv_seq s) ws)) \<and> \<not> ch_closed (st_chan s)"

definition arrived_of :: "Conn \<Rightarrow> nat set" where
  "arrived_of c = {1..length (cn_written c)} - fst ` set (cn_net c)"

definition conn_inv :: "nat \<Rightarrow> Conn \<Rightarrow> bool" where
  "conn_inv cap c \<longleftrightarrow>
     st_next_send_seq (cn_tx c) = Suc (length (cn_written c)) \<and>
     distinct (map fst (cn_net c)) \<and>
     (\<forall>(sq, seg) \<in> set (cn_net c). 0 < sq \<and> sq \<le> length (cn_written c) \<and> seg = sent_of (cn_written c) sq) \<and>
     fin_last (cn_written c) \<and> (cn_shutdown c \<longleftrightarrow> SeqFin \<in> set (cn_written c)) \<and>
     in_order (sent_of (cn_written c)) (cn_rx c, cn_taken c, arrived_of c) \<and>
     open_until_fin (cn_written c) (cn_rx c) \<and>
     imap_get (st_buf (cn_rx c)) (st_recv_seq (cn_rx c) + 1) = None \<and>
     ch_capacity (st_chan (cn_rx c)) = cap \<and>
     fc_credits (cn_flow c) + length (all_data (cn_written c)) = cap + length (cn_taken c)"

section \<open>The receiver never refuses\<close>

lemma fin_last_take:
  assumes "fin_last ws" "n < length ws"
  shows "SeqFin \<notin> set (take n ws)"
proof -
  have "take n ws = take n (butlast ws)" using assms(2) by (simp add: take_butlast)
  then show ?thesis using assms(1) by (auto simp: fin_last_def dest: in_set_takeD)
qed

lemma next_segment:
  assumes "in_order (sent_of ws) (s, taken, arrived)" "arrived \<subseteq> {1..length ws}"
    and "imap_get (st_buf s) (st_recv_seq s + 1) = Some seg"
  shows "st_recv_seq s < length ws" "seg = ws ! st_recv_seq s"
proof -
  have "st_recv_seq s + 1 \<in> arrived" using assms(1,3) by (auto simp: in_order_def)
  then show "st_recv_seq s < length ws" using assms(2) by auto
  moreover have "seg = sent_of ws (st_recv_seq s + 1)"
    using assms(1,3) by (auto simp: in_order_def simp del: map_of_eq_Some_iff)
  ultimately show "seg = ws ! st_recv_seq s" by (simp add: sent_of_def)
qed

lemma drain_total:
  assumes "in_order (sent_of ws) (s, taken, arrived)" "arrived \<subseteq> {1..length ws}" "fin_last ws" "open_until_fin ws s"
  shows "\<exists>s'. drain_buf s = (Inr (), s') \<and> open_until_fin ws s'"
  using assms
proof (induction s rule: drain_buf.induct)
  case (1 s)
  let ?n = "st_recv_seq s + 1"
  let ?s1 = "s\<lparr>st_buf := imap_swap_remove ?n (st_buf s)\<rparr>"
  show ?case
  proof (cases "imap_get (st_buf s) ?n")
    case None
    then show ?thesis using "1.prems" by (simp add: drain_buf.simps [of s])
  next
    case (Some seg)
    note nxt = next_segment [OF "1.prems"(1,2) Some]
    have open_s: "st_sender s" and live: "\<not> ch_closed (st_chan s)"
      using "1.prems"(4) fin_last_take [OF "1.prems"(3) nxt(1)] by (simp_all add: open_until_fin_def)
    have upto: "take ?n ws = take (st_recv_seq s) ws @ [seg]" using nxt by (simp add: take_Suc_conv_app_nth)
    have none: "SeqFin \<notin> set (take (st_recv_seq s) ws)" by (rule fin_last_take [OF "1.prems"(3) nxt(1)])
    show ?thesis
    proof (cases seg)
      case (SeqData bs)
      show ?thesis
      proof (cases "try_send bs (st_chan s)")
        case (SendOk ch)
        let ?s2 = "?s1\<lparr>st_chan := ch, st_recv_seq := ?n\<rparr>"
        have "in_order (sent_of ws) (?s2, taken, arrived)"
          using "1.prems"(1) refl Some [unfolded SeqData, simplified]
          by (rule in_order_advance) (simp_all add: try_send_ok [OF SendOk])
        moreover have "open_until_fin ws ?s2"
          using open_s live none upto by (simp add: open_until_fin_def SeqData try_send_ok [OF SendOk])
        ultimately show ?thesis
          using "1.IH"(1) [OF Some refl _ SeqData, of ch] "1.prems"(2,3) open_s SendOk Some SeqData
          by (simp add: drain_buf.simps [of s] Let_def)
      next
        case SendFull
        then show ?thesis
          using Some SeqData open_s live none by (simp add: drain_buf.simps [of s] Let_def open_until_fin_def)
      next
        case SendClosed
        then show ?thesis using live by (simp add: try_send_def split: if_splits)
      qed
    next
      case SeqFin
      let ?s2 = "?s1\<lparr>st_sender := False, st_recv_seq := ?n\<rparr>"
      have "in_order (sent_of ws) (?s2, taken, arrived)"
        using "1.prems"(1) refl Some [unfolded SeqFin, simplified] by (rule in_order_advance) simp_all
      moreover have "open_until_fin ws ?s2"
        using live upto by (simp add: open_until_fin_def SeqFin)
      ultimately show ?thesis
        using "1.IH"(2) [OF Some refl _ SeqFin] "1.prems"(2,3) open_s live Some SeqFin
        by (simp add: drain_buf.simps [of s] Let_def)
    qed
  qed
qed

lemma arrive_total:
  assumes inv: "in_order (sent_of ws) (s, taken, arrived)" and sq: "sq \<notin> arrived" "0 < sq" "sq \<le> length ws"
    and arr: "arrived \<subseteq> {1..length ws}" and ws: "fin_last ws" "open_until_fin ws s"
  shows "\<exists>s'. buffer sq (sent_of ws sq) s = Some (Inr (), s') \<and> open_until_fin ws s'"
proof -
  let ?s = "s\<lparr>st_buf := imap_insert sq (sent_of ws sq) (st_buf s)\<rparr>"
  have fresh: "imap_get (st_buf s) sq = None" using inv sq(1) by (auto simp: in_order_def)
  have later: "st_recv_seq s < sq" using inv sq by (auto simp: in_order_def)
  have "in_order (sent_of ws) (?s, taken, insert sq arrived)"
    using inv later by (auto simp: in_order_def imap_wf_insert imap_get_insert dom_def simp del: map_of_eq_Some_iff)
  then obtain s' where "drain_buf ?s = (Inr (), s')" "open_until_fin ws s'"
    using drain_total [of ws ?s taken "insert sq arrived"] arr sq ws by (auto simp: open_until_fin_def)
  then show ?thesis using fresh by (auto simp: buffer_def)
qed

text \<open>With the credits accounted for, a segment that could be handed over always fits.\<close>

lemma room_for_next:
  assumes inv: "in_order (sent_of ws) (s, taken, arrived)" and arr: "arrived \<subseteq> {1..length ws}" and "drained s"
    and credits: "length (all_data ws) \<le> ch_capacity (st_chan s) + length taken"
  shows "imap_get (st_buf s) (st_recv_seq s + 1) = None"
proof (rule ccontr)
  assume "imap_get (st_buf s) (st_recv_seq s + 1) \<noteq> None"
  then obtain bs where bs: "imap_get (st_buf s) (st_recv_seq s + 1) = Some (SeqData bs)"
    and full: "ch_capacity (st_chan s) \<le> length (ch_queue (st_chan s))"
    using \<open>drained s\<close> by (auto simp: drained_def split: option.splits SequencedSegment.splits)
  note nxt = next_segment [OF inv arr bs]
  have "length taken + length (ch_queue (st_chan s)) = length (data_upto (sent_of ws) (st_recv_seq s))"
    using inv by (auto simp: in_order_def dest: arg_cong [of _ _ length])
  moreover have "length (data_upto (sent_of ws) (Suc (st_recv_seq s))) = length (data_upto (sent_of ws) (st_recv_seq s)) + 1"
    using nxt by (simp add: data_upto_Suc sent_of_def flip: nxt(2))
  moreover have "length (data_upto (sent_of ws) (Suc (st_recv_seq s))) \<le> length (all_data ws)"
    using nxt(1) by (intro data_upto_length) simp
  ultimately show False using full credits by simp
qed

section \<open>Every step keeps the invariant\<close>

lemma conn_invD:
  assumes "conn_inv cap c"
  shows "st_next_send_seq (cn_tx c) = Suc (length (cn_written c))" "distinct (map fst (cn_net c))"
    "(sq, seg) \<in> set (cn_net c) \<Longrightarrow> 0 < sq \<and> sq \<le> length (cn_written c) \<and> seg = sent_of (cn_written c) sq"
    "fin_last (cn_written c)" "cn_shutdown c \<longleftrightarrow> SeqFin \<in> set (cn_written c)"
    "in_order (sent_of (cn_written c)) (cn_rx c, cn_taken c, arrived_of c)"
    "open_until_fin (cn_written c) (cn_rx c)"
    "imap_get (st_buf (cn_rx c)) (st_recv_seq (cn_rx c) + 1) = None"
    "ch_capacity (st_chan (cn_rx c)) = cap"
    "fc_credits (cn_flow c) + length (all_data (cn_written c)) = cap + length (cn_taken c)"
  using assms unfolding conn_inv_def by auto

lemma recv_le_written:
  assumes "in_order (sent_of ws) (s, taken, arrived)" "arrived \<subseteq> {1..length ws}"
  shows "st_recv_seq s \<le> length ws"
proof (cases "st_recv_seq s = 0")
  case False
  then have "st_recv_seq s \<in> arrived" using assms(1) by (auto simp: in_order_def)
  then show ?thesis using assms(2) by auto
qed simp

lemma arrived_bound: "arrived_of c \<subseteq> {1..length (cn_written c)}"
  by (auto simp: arrived_of_def)

text \<open>Sending a segment puts it into the network under the next number.\<close>

lemma conn_send_inv:
  assumes inv: "conn_inv cap c" and open_c: "\<not> cn_shutdown c"
    and flow: "fc_credits f + length (all_data (cn_written c @ [seg])) = cap + length (cn_taken c)"
  shows "conn_inv cap ((conn_send seg (c\<lparr>cn_flow := f\<rparr>))\<lparr>cn_shutdown := (seg = SeqFin)\<rparr>)"
proof -
  note D = conn_invD [OF inv]
  let ?ws = "cn_written c" let ?ws' = "?ws @ [seg]"
  have old: "sent_of ?ws' k = sent_of ?ws k" if "0 < k" "k \<le> length ?ws" for k
    using that by (rule sent_of_append [rotated])
  have new: "sent_of ?ws' (Suc (length ?ws)) = seg" by (simp add: sent_of_def)
  have fresh: "Suc (length ?ws) \<notin> fst ` set (cn_net c)" using D(3) by fastforce
  have arr: "{1..length ?ws'} - fst ` set (cn_net c @ [(Suc (length ?ws), seg)]) = arrived_of c"
    using fresh by (auto simp: arrived_of_def)
  have "in_order (sent_of ?ws') (cn_rx c, cn_taken c, arrived_of c)"
    by (rule in_order_cong [OF D(6)]) (use old arrived_bound [of c] in auto)
  moreover have "open_until_fin ?ws' (cn_rx c)"
    using D(7) recv_le_written [OF D(6) arrived_bound] by (simp add: open_until_fin_def)
  moreover have "fin_last ?ws'" using D(5) open_c by (simp add: fin_last_def)
  moreover have "\<forall>(sq, g) \<in> set (cn_net c @ [(Suc (length ?ws), seg)]). 0 < sq \<and> sq \<le> length ?ws' \<and> g = sent_of ?ws' sq"
    using D(3) old new by fastforce
  ultimately show ?thesis
    using D(1,2,5,8,9) flow fresh open_c arr
    by (auto simp: conn_inv_def conn_send_def assign_seq_def arrived_of_def)
qed

lemma conn_arrive_inv:
  assumes inv: "conn_inv cap c" and i: "i < length (cn_net c)"
  shows "returns (conn_step c (ArriveSegment i)) (conn_inv cap)"
proof -
  note D = conn_invD [OF inv]
  let ?ws = "cn_written c"
  obtain sq seg where e: "cn_net c ! i = (sq, seg)" by fastforce
  then have mem: "(sq, seg) \<in> set (cn_net c)" using i by (metis nth_mem)
  have seg: "0 < sq" "sq \<le> length ?ws" "seg = sent_of ?ws sq" using D(3) [OF mem] by auto
  have notin: "sq \<notin> arrived_of c" using mem by (force simp: arrived_of_def)
  obtain rx where rx: "buffer sq seg (cn_rx c) = Some (Inr (), rx)" "open_until_fin ?ws rx"
    using arrive_total [OF D(6) notin seg(1,2) arrived_bound D(4,7)] seg(3) by auto
  let ?net = "take i (cn_net c) @ drop (Suc i) (cn_net c)"
  let ?c = "c\<lparr>cn_net := ?net, cn_rx := rx\<rparr>"
  have split: "cn_net c = take i (cn_net c) @ (sq, seg) # drop (Suc i) (cn_net c)"
    using id_take_nth_drop [OF i] e by simp
  have all: "distinct (map fst (take i (cn_net c) @ (sq, seg) # drop (Suc i) (cn_net c)))"
    by (rule subst [of _ _ "\<lambda>n. distinct (map fst n)", OF split]) (rule D(2))
  then have dist: "distinct (map fst ?net)" by auto
  have "fst ` set (cn_net c) = insert sq (fst ` set ?net)"
    using arg_cong [OF split, of "\<lambda>n. fst ` set n"] by auto
  moreover have "sq \<notin> fst ` set ?net" using all by auto
  ultimately have keys: "fst ` set ?net = fst ` set (cn_net c) - {sq}" by auto
  have "arrived_of ?c = insert sq (arrived_of c)" unfolding arrived_of_def using seg(1,2) keys by auto
  moreover have "in_order (sent_of ?ws) (rx, cn_taken c, insert sq (arrived_of c)) \<and> drained rx \<and> ch_capacity (st_chan rx) = cap"
    using in_order_arrive [OF D(6) seg(1) notin, of rx] rx(1) D(9) seg(3) by simp
  moreover have "imap_get (st_buf rx) (st_recv_seq rx + 1) = None"
    using calculation D(10) arrived_bound [of ?c] by (intro room_for_next [of ?ws rx "cn_taken c" "arrived_of ?c"]) auto
  moreover have "\<forall>(q, g) \<in> set ?net. 0 < q \<and> q \<le> length ?ws \<and> g = sent_of ?ws q"
    using D(3) by (auto dest: in_set_takeD in_set_dropD)
  ultimately have "conn_inv cap ?c"
    using D(1,4,5,10) rx(2) dist unfolding conn_inv_def by simp
  then show ?thesis using i by (simp add: e rx(1))
qed

lemma conn_step_inv:
  assumes "conn_inv cap c"
  shows "returns (conn_step c op) (conn_inv cap)"
proof (cases op)
  case (WriteChunk bs)
  note D = conn_invD [OF assms]
  show ?thesis
  proof (cases "cn_shutdown c \<or> bs = [] \<or> fc_credits (cn_flow c) = 0")
    case False
    have "conn_inv cap ((conn_send (SeqData bs) (c\<lparr>cn_flow := (cn_flow c)\<lparr>fc_credits := fc_credits (cn_flow c) - 1\<rparr>\<rparr>))
        \<lparr>cn_shutdown := (SeqData bs = SeqFin)\<rparr>)"
      by (rule conn_send_inv) (use False D(10) in \<open>auto simp: assms all_data_def\<close>)
    moreover have "(conn_send (SeqData bs) (c\<lparr>cn_flow := f\<rparr>))\<lparr>cn_shutdown := False\<rparr> = conn_send (SeqData bs) (c\<lparr>cn_flow := f\<rparr>)" for f
      using False by (simp add: conn_send_def case_prod_beta' Let_def)
    ultimately show ?thesis using False by (simp add: WriteChunk try_acquire_def)
  qed (use assms in \<open>auto simp: WriteChunk try_acquire_def\<close>)
next
  case ShutWrite
  show ?thesis
  proof (cases "cn_shutdown c")
    case False
    have "conn_inv cap ((conn_send SeqFin (c\<lparr>cn_flow := cn_flow c\<rparr>))\<lparr>cn_shutdown := (SeqFin = SeqFin)\<rparr>)"
      by (rule conn_send_inv) (use False conn_invD(10) [OF assms] in \<open>simp_all add: assms all_data_def\<close>)
    then show ?thesis using False by (simp add: ShutWrite)
  qed (simp add: ShutWrite assms)
next
  case (ArriveSegment i)
  then show ?thesis using conn_arrive_inv [OF assms] assms by (cases "i < length (cn_net c)") auto
next
  case ReadChunk
  show ?thesis
  proof (cases "ch_queue (st_chan (cn_rx c))")
    case (Cons b bs)
    then show ?thesis
      using assms by (simp add: ReadChunk conn_inv_def in_order_def open_until_fin_def arrived_of_def flow_release_def)
  qed (simp add: ReadChunk assms)
qed

lemma Conn_new_inv: "Conn_new cap = Some c \<Longrightarrow> conn_inv cap c"
  by (auto simp: Conn_new_def StreamSocket_new_def channel_new_def conn_inv_def in_order_def open_until_fin_def
    arrived_of_def fin_last_def all_data_def data_upto_def FlowControl_new_def split: if_splits)

interpretation conn_run: invariant_system conn_step "conn_inv cap" "\<lambda>_ _. True" for cap
proof unfold_locales
  fix c op assume "conn_inv cap c"
  then obtain c' where "conn_step c op = Some c'" "conn_inv cap c'"
    using conn_step_inv [of cap c op] by (auto simp: returns_def)
  then show "\<exists>c'. conn_step c op = Some c'" and "\<And>c'. conn_step c op = Some c' \<Longrightarrow> conn_inv cap c'" by auto
qed

section \<open>What the reader gets\<close>

lemma all_arrived:
  assumes "conn_inv cap c" "cn_net c = []"
  shows "st_recv_seq (cn_rx c) = length (cn_written c)"
proof -
  note D = conn_invD [OF assms(1)]
  have arr: "{1..length (cn_written c)} = {1..st_recv_seq (cn_rx c)} \<union> dom (imap_get (st_buf (cn_rx c)))"
    using D(6) assms(2) by (simp add: in_order_def arrived_of_def)
  have "\<not> st_recv_seq (cn_rx c) < length (cn_written c)"
  proof
    assume "st_recv_seq (cn_rx c) < length (cn_written c)"
    then have "st_recv_seq (cn_rx c) + 1 \<in> {1..length (cn_written c)}" by simp
    then show False unfolding arr using D(8) by auto
  qed
  then show ?thesis using recv_le_written [OF D(6) arrived_bound] by simp
qed

text \<open>
  C18. One direction of a simulated TCP connection, with any capacity, any sequence of writes, reads and
  arrivals in any order, and a shutdown at any time: no arrival panics or is answered by a
  reset; what the reader has taken and what is queued for it are the first chunks written, in order and
  once, and all of them when nothing is in flight; and the credits left are the capacity less the
  chunks written and not yet read, so a writer is blocked only by that many unread chunks.
\<close>

theorem stream_delivers:
  assumes "Conn_new cap = Some c0"
  shows "\<exists>c. conn_run.run c0 ops = Some c \<and>
    (\<exists>rest. all_data (cn_written c) = cn_taken c @ ch_queue (st_chan (cn_rx c)) @ rest \<and> (cn_net c = [] \<longrightarrow> rest = [])) \<and>
    fc_credits (cn_flow c) + (length (all_data (cn_written c)) - length (cn_taken c)) = cap"
proof -
  have "conn_run.admissible_run c0 ops"
    by (induction ops arbitrary: c0) (simp_all split: option.splits)
  then obtain c where c: "conn_run.run c0 ops = Some c" "conn_inv cap c"
    using conn_run.run_inv [OF Conn_new_inv [OF assms]] by blast
  note D = conn_invD [OF c(2)]
  let ?n = "st_recv_seq (cn_rx c)" let ?ws = "cn_written c"
  have out: "cn_taken c @ ch_queue (st_chan (cn_rx c)) = all_data (take ?n ?ws)"
    using D(6) data_upto_take [OF recv_le_written [OF D(6) arrived_bound]] by (simp add: in_order_def)
  have "all_data ?ws = all_data (take ?n ?ws) @ all_data (drop ?n ?ws)"
    unfolding all_data_def by (simp flip: concat_append map_append)
  then have split: "all_data ?ws = cn_taken c @ ch_queue (st_chan (cn_rx c)) @ all_data (drop ?n ?ws)"
    by (simp flip: out)
  moreover have "all_data (drop ?n ?ws) = []" if "cn_net c = []"
    using all_arrived [OF c(2) that] by (simp add: all_data_def)
  moreover have "length (cn_taken c) \<le> length (all_data ?ws)" using split by simp
  ultimately show ?thesis using c(1) D(10) by (intro exI [of _ c]) auto
qed

theorem stream_delivers_witness:
  "\<exists>c0 c. Conn_new 2 = Some c0 \<and>
    conn_run.run c0 [WriteChunk [1], WriteChunk [2], WriteChunk [3], ArriveSegment 1, ArriveSegment 0, ReadChunk, ShutWrite] = Some c \<and>
    (\<exists>rest. all_data (cn_written c) = cn_taken c @ ch_queue (st_chan (cn_rx c)) @ rest) \<and>
    fc_credits (cn_flow c) + (length (all_data (cn_written c)) - length (cn_taken c)) = 2"
proof -
  obtain c0 where "Conn_new 2 = Some c0" by (simp add: Conn_new_def StreamSocket_new_def channel_new_def)
  then show ?thesis
    using stream_delivers [of 2 c0 "[WriteChunk [1], WriteChunk [2], WriteChunk [3], ArriveSegment 1, ArriveSegment 0,
      ReadChunk, ShutWrite]"] by blast
qed

end
