(* ===== verification/Sim_Read.thy ===== *)
theory Sim_Read
  imports Sim_Tcp
begin

text \<open>
  Reading from a simulated TCP stream: \<^verbatim>\<open>try_read_vectored\<close> ends, and hands over the front of the unread
  bytes, whatever the sizes of the buffers and the chunks. The last section shows what a
  refused connection leaves behind.
\<close>

section \<open>The unread bytes of a stream\<close>

definition unread :: "ReadHalf \<Rightarrow> HostTcp \<Rightarrow> bytes" where
  "unread r t = (case rh_buffer r of None \<Rightarrow> [] | Some b \<Rightarrow> b) @ concat (fst (rx_queue r t))"

definition no_empty_chunk :: "ReadHalf \<Rightarrow> HostTcp \<Rightarrow> bool" where
  "no_empty_chunk r t \<longleftrightarrow> rh_buffer r \<noteq> Some [] \<and> [] \<notin> set (fst (rx_queue r t))"

lemma rx_queue_set: "rx_queue r (set_rx_queue q r t) = (q, snd (rx_queue r t))"
  by (cases "imap_get (tcp_sockets t) (rh_pair r)") (simp_all add: rx_queue_def set_rx_queue_def imap_get_insert)

lemma rx_queue_half:
  "rx_queue (r\<lparr>rh_buffer := b\<rparr>) t = rx_queue r t" "rx_queue (r\<lparr>rh_closed := d\<rparr>) t = rx_queue r t"
  by (simp_all add: rx_queue_def cong: option.case_cong if_cong)

lemma release_flow_host [simp]: "current_host (release_flow i w) = current_host w"
  by (simp add: release_flow_def on_flow_def current_host_def split: option.splits)

lemma current_host_set:
  assumes "current_host w = Some h"
  shows "\<exists>w'. set_current_host h' w = Some w' \<and> current_host w' = Some h'"
  using assms by (auto simp: current_host_def set_current_host_def bind_Some_iff imap_get_insert simp del: map_of_eq_Some_iff)

text \<open>Taking a chunk from the channel of the current host.\<close>

lemma rx_try_recv_cases:
  assumes "current_host w = Some h"
  shows "case fst (rx_queue r (host_tcp h)) of
      [] \<Rightarrow> rx_try_recv r w = Some (RecvEmpty, w) \<or> rx_try_recv r w = Some (RecvDisconnected, w)
    | x # xs \<Rightarrow> (\<exists>w' h'. rx_try_recv r w = Some (Got x, w') \<and> current_host w' = Some h' \<and>
        fst (rx_queue r (host_tcp h')) = xs)"
proof (cases "fst (rx_queue r (host_tcp h))")
  case Nil
  then obtain b where "rx_queue r (host_tcp h) = ([], b)" by (metis prod.collapse)
  then show ?thesis using assms by (cases b) (simp_all add: rx_try_recv_def)
next
  case (Cons x xs)
  then obtain b where q: "rx_queue r (host_tcp h) = (x # xs, b)" by (metis prod.collapse)
  obtain w' where "set_current_host (h\<lparr>host_tcp := set_rx_queue xs r (host_tcp h)\<rparr>) w = Some w'"
    "current_host w' = Some (h\<lparr>host_tcp := set_rx_queue xs r (host_tcp h)\<rparr>)"
    using current_host_set [OF assms] by blast
  then show ?thesis using assms q by (auto simp: rx_try_recv_def rx_queue_set)
qed

section \<open>Filling the buffers\<close>

lemma fill_bufs_spec:
  "bs \<noteq> [] \<Longrightarrow> \<exists>sizes'. fill_bufs bs sizes = (take (sum_list sizes) bs, drop (sum_list sizes) bs, sizes') \<and>
     (if sizes' = [] then sum_list sizes \<le> length bs
      else length bs \<le> sum_list sizes \<and> sum_list sizes' = sum_list sizes - length bs)"
proof (induction sizes arbitrary: bs)
  case (Cons k ks)
  show ?case
  proof (cases "length bs \<le> k")
    case True
    then show ?thesis by (auto simp: Let_def min_def)
  next
    case False
    then have "drop k bs \<noteq> []" by simp
    then obtain sizes' where "fill_bufs (drop k bs) ks = (take (sum_list ks) (drop k bs), drop (sum_list ks) (drop k bs), sizes')"
      "if sizes' = [] then sum_list ks \<le> length (drop k bs)
       else length (drop k bs) \<le> sum_list ks \<and> sum_list sizes' = sum_list ks - length (drop k bs)"
      using Cons.IH by blast
    then show ?thesis using False by (auto simp: Let_def min_def take_add add.commute split: if_splits)
  qed
qed simp

section \<open>A read takes the front\<close>

declare fill_bufs.simps [simp del]

text \<open>With a chunk in hand, a round fills the buffers and either ends or goes on with the next chunk.\<close>

lemma read_round:
  assumes "\<not> rh_closed r" "rh_buffer r = Some b" "b \<noteq> []"
  shows "\<exists>sizes'. (if sizes' = [] then sum_list sizes \<le> length b
      else length b \<le> sum_list sizes \<and> sum_list sizes' = sum_list sizes - length b) \<and>
    read_loop sizes got r w =
      (if sizes' = []
       then Some (Ok (got @ take (sum_list sizes) b),
         r\<lparr>rh_buffer := (if drop (sum_list sizes) b = [] then None else Some (drop (sum_list sizes) b))\<rparr>, w)
       else read_loop sizes' (got @ b) (r\<lparr>rh_buffer := None\<rparr>) w)"
proof -
  obtain sizes' where f: "fill_bufs b sizes = (take (sum_list sizes) b, drop (sum_list sizes) b, sizes')"
    "if sizes' = [] then sum_list sizes \<le> length b
     else length b \<le> sum_list sizes \<and> sum_list sizes' = sum_list sizes - length b"
    using fill_bufs_spec [OF assms(3)] by blast
  then show ?thesis
    using assms by (intro exI [of _ sizes']) (subst read_loop.simps, simp add: Let_def)
qed

text \<open>What the loop promises of the state it starts in.\<close>

definition reads_front :: "nat list \<Rightarrow> bytes \<Rightarrow> ReadHalf \<Rightarrow> 'g World \<Rightarrow> SimHost \<Rightarrow> bool" where
  "reads_front sizes got r w h \<longleftrightarrow>
     (\<exists>r' w' h'. read_loop sizes got r w = Some (Ok (got @ take (sum_list sizes) (unread r (host_tcp h))), r', w') \<and>
        current_host w' = Some h' \<and> unread r' (host_tcp h') = drop (sum_list sizes) (unread r (host_tcp h)))"

lemma round_front:
  assumes "current_host w = Some h" "\<not> rh_closed r" "b \<noteq> []"
    and rest: "\<And>sizes'. reads_front sizes' (got @ b) (r\<lparr>rh_buffer := None\<rparr>) w h"
  shows "reads_front sizes got (r\<lparr>rh_buffer := Some b\<rparr>) w h"
proof -
  obtain sizes' where s: "if sizes' = [] then sum_list sizes \<le> length b
      else length b \<le> sum_list sizes \<and> sum_list sizes' = sum_list sizes - length b"
    "read_loop sizes got (r\<lparr>rh_buffer := Some b\<rparr>) w =
      (if sizes' = []
       then Some (Ok (got @ take (sum_list sizes) b),
         r\<lparr>rh_buffer := (if drop (sum_list sizes) b = [] then None else Some (drop (sum_list sizes) b))\<rparr>, w)
       else read_loop sizes' (got @ b) (r\<lparr>rh_buffer := None\<rparr>) w)"
    using read_round [of "r\<lparr>rh_buffer := Some b\<rparr>" b sizes got w] assms(2,3) by auto
  show ?thesis
  proof (cases "sizes' = []")
    case True
    then show ?thesis using s assms(1) by (auto simp: reads_front_def unread_def rx_queue_half)
  next
    case False
    then show ?thesis using s rest [of sizes'] by (auto simp: reads_front_def unread_def rx_queue_half)
  qed
qed

lemma read_empty_buffer:
  assumes "current_host w = Some h" "\<not> rh_closed r" "rh_buffer r = None" "[] \<notin> set (fst (rx_queue r (host_tcp h)))"
    "got \<noteq> [] \<or> fst (rx_queue r (host_tcp h)) \<noteq> []"
  shows "reads_front sizes got r w h"
  using assms
proof (induction "fst (rx_queue r (host_tcp h))" arbitrary: sizes got w h)
  case Nil
  then have "rx_try_recv r w = Some (RecvEmpty, w) \<or> rx_try_recv r w = Some (RecvDisconnected, w)"
    using rx_try_recv_cases [OF Nil.prems(1), of r] by simp
  then show ?case
    using Nil by (auto simp: reads_front_def unread_def read_loop.simps [of sizes got r w])
next
  case (Cons x xs)
  obtain w1 h1 where recv: "rx_try_recv r w = Some (Got x, w1)" "current_host w1 = Some h1"
    "fst (rx_queue r (host_tcp h1)) = xs"
    using rx_try_recv_cases [OF Cons.prems(1), of r] unfolding Cons.hyps(2) [symmetric] list.case by blast
  let ?w = "release_flow (rh_flow r) w1"
  have x: "x \<noteq> []" and xs: "[] \<notin> set xs" using Cons.prems(4) unfolding Cons.hyps(2) [symmetric] by auto
  have none: "r\<lparr>rh_buffer := None\<rparr> = r" using Cons.prems(3) by (cases r) simp
  have step: "read_loop sizes got r w = read_loop sizes got (r\<lparr>rh_buffer := Some x\<rparr>) ?w"
    unfolding read_loop.simps [of sizes got r w] read_loop.simps [of sizes got "r\<lparr>rh_buffer := Some x\<rparr>" ?w]
    by (simp add: Cons.prems(2,3) recv(1))
  have "reads_front sizes' (got @ x) (r\<lparr>rh_buffer := None\<rparr>) ?w h1" for sizes'
    unfolding none using recv Cons.prems(2,3) x xs by (intro Cons.hyps(1)) simp_all
  then have "reads_front sizes got (r\<lparr>rh_buffer := Some x\<rparr>) ?w h1"
    using recv(2) Cons.prems(2) x by (intro round_front) simp_all
  moreover have "unread (r\<lparr>rh_buffer := Some x\<rparr>) (host_tcp h1) = unread r (host_tcp h)"
    using recv(3) Cons.hyps(2) [symmetric] Cons.prems(3) by (simp add: unread_def rx_queue_half)
  ultimately show ?case by (simp add: reads_front_def step)
qed

text \<open>
  A vectored read on an open stream with unread bytes ends at once and returns the first unread
  bytes, as many as the buffers hold, over any number of buffers and chunks; the bytes left
  are exactly the rest.
\<close>

theorem read_takes_front:
  assumes "current_host w = Some h" "\<not> rh_closed r" "no_empty_chunk r (host_tcp h)" "unread r (host_tcp h) \<noteq> []"
  shows "\<exists>r' w' h'. try_read_vectored sizes r w = Some (Ok (take (sum_list sizes) (unread r (host_tcp h))), r', w') \<and>
    current_host w' = Some h' \<and> unread r' (host_tcp h') = drop (sum_list sizes) (unread r (host_tcp h))"
proof -
  have "reads_front sizes [] r w h"
  proof (cases "rh_buffer r")
    case None
    then show ?thesis using assms by (intro read_empty_buffer) (auto simp: no_empty_chunk_def unread_def)
  next
    case (Some b)
    have "reads_front sizes [] (r\<lparr>rh_buffer := Some b\<rparr>) w h"
      by (rule round_front) (use assms Some in \<open>auto simp: no_empty_chunk_def rx_queue_half intro!: read_empty_buffer\<close>)
    moreover have "r\<lparr>rh_buffer := Some b\<rparr> = r" using Some by (cases r) simp
    ultimately show ?thesis by simp
  qed
  then show ?thesis by (simp add: reads_front_def try_read_vectored_def)
qed

definition demo_pair :: SocketPair where
  "demo_pair = SocketPair (SocketAddr (V4 1) 80) (SocketAddr (V4 2) 49152)"

definition demo_socket :: StreamSocket where
  "demo_socket = \<lparr>st_buf = [], st_next_send_seq = 1, st_recv_seq = 2, st_sender = True,
     st_chan = \<lparr>ch_capacity = 4, ch_queue = [[1, 2, 3], [4]], ch_closed = False\<rparr>, st_chan_id = 0, st_flow_write = 1,
     st_flow_read = 2, st_reset_waker = None, st_ref_ct = 2\<rparr>"

definition reader_host :: SimHost where
  "reader_host = (SimHost_new ''a'' (V4 1) (HostTimer_new 0 0) (49152, 65535) 4 4)
     \<lparr>host_tcp := (HostTcp_new 4)\<lparr>tcp_sockets := [(demo_pair, demo_socket)]\<rparr>\<rparr>"

definition demo_world :: "unit World" where
  "demo_world = (World_new LinkConfig_default () (Iter4 1) 1)\<lparr>w_hosts := [(V4 1, reader_host)], w_current := Some (V4 1)\<rparr>"

definition demo_reader :: ReadHalf where
  "demo_reader = \<lparr>rh_pair = demo_pair, rh_chan = 0, rh_buffer = None, rh_closed = False, rh_flow = 2, rh_waiters = 3\<rparr>"

theorem read_takes_front_witness:
  "\<exists>r' w' h'. try_read_vectored [2, 0, 1] demo_reader demo_world = Some (Ok [1, 2, 3], r', w') \<and>
    current_host w' = Some h' \<and> unread r' (host_tcp h') = [4]"
proof -
  have "rx_queue demo_reader (host_tcp reader_host) = ([[1, 2, 3], [4]], True)"
    by (simp add: rx_queue_def demo_reader_def reader_host_def HostTcp_new_def demo_socket_def SimHost_new_def)
  then have "unread demo_reader (host_tcp reader_host) = [1, 2, 3, 4]" "no_empty_chunk demo_reader (host_tcp reader_host)"
    by (simp_all add: unread_def no_empty_chunk_def demo_reader_def)
  moreover have "current_host demo_world = Some reader_host"
    by (simp add: current_host_def demo_world_def World_new_def)
  ultimately show ?thesis
    using read_takes_front [of demo_world reader_host demo_reader "[2, 0, 1]"] by (simp add: demo_reader_def)
qed

section \<open>A refused connection\<close>

lemma assign_loop_tcp: "assign_loop n h = Some (port, h') \<Longrightarrow> host_tcp h' = host_tcp h"
  by (induction n arbitrary: h) (auto simp: Let_def split: if_splits)

lemma send_message_hosts:
  "send_message rng src dst m w = Some (r, w') \<Longrightarrow> w_hosts w' = w_hosts w \<and> w_current w' = w_current w"
  by (auto simp: send_message_def bind_Some_iff)

lemma send_on_pair_hosts:
  "send_on_pair rng pair seg w = Some (r, w') \<Longrightarrow> w_hosts w' = w_hosts w \<and> w_current w' = w_current w"
  by (auto simp: send_on_pair_def send_loopback_def bind_Some_iff send_message_hosts split: if_splits)

lemma length_insert_fresh: "imap_get m k = None \<Longrightarrow> length (imap_insert k v m) = Suc (length m)"
  by (induction m) (auto split: if_splits)

text \<open>
  A connection that is refused leaves its stream socket behind: \<^verbatim>\<open>connect\<close> returns the error without
  removing it, so the host counts one more established stream and its port stays taken. The same holds
  when the SYN is lost, since waiting for the handshake changes nothing.
\<close>

lemma refused_connect_leaks:
  assumes "current_host w = Some h" "to_addr (w_dns w) = Ok dst" "connect_start rng to_addr w = Some (Err e, w')"
  shows "\<exists>h'. current_host w' = Some h' \<and> stream_count (host_tcp h') = Suc (stream_count (host_tcp h))"
proof -
  obtain port h1 pair n w1 w2 where c: "assign_ephemeral_port h = Some (port, h1)" "open_stream pair h1 w = Some (n, w1)"
    "w2 = w1\<lparr>w_next_id := w_next_id w1 + 1\<rparr>" "\<exists>r. send_on_pair rng pair (Syn (w_next_id w1)) w2 = Some (r, w')"
    using assms by (auto simp: connect_start_def bind_Some_iff Let_def)
  have tcp: "host_tcp h1 = host_tcp h"
    using c(1) by (simp add: assign_ephemeral_port_def assign_loop_tcp)
  obtain t where t: "new_stream pair (w_next_id w) (w_next_id w + 1) (w_next_id w + 2) (host_tcp h1) = Some t"
    "current_host w1 = Some (h1\<lparr>host_tcp := t\<rparr>)"
    using c(2) assms(1) current_host_set [OF assms(1)]
    by (auto simp: open_stream_def bind_Some_iff Let_def current_host_def set_current_host_def imap_get_insert
      simp del: map_of_eq_Some_iff)
  have "stream_count t = Suc (stream_count (host_tcp h))"
    using t(1) by (auto simp: new_stream_def stream_count_def bind_Some_iff length_insert_fresh tcp split: if_splits)
  moreover have "current_host w' = current_host w1"
    using c(3,4) send_on_pair_hosts [of rng pair _ w2] by (auto simp: current_host_def)
  ultimately show ?thesis using t(2) by simp
qed

end
