(* ===== verification/Sim_Mesh.thy ===== *)
theory Sim_Mesh
  imports Sim_World
begin

text \<open>
  The hosts of a simulation are a full mesh: registering a host links it to every other one, and no
  operation removes a link. So a message between two hosts is never refused and no change to
  their link panics. The operations on the world are steps of a state machine whose invariant
  is the mesh.
\<close>

section \<open>The mesh\<close>

definition latency_ok :: "Latency \<Rightarrow> bool" where
  "latency_ok c \<longleftrightarrow> min_message_latency c \<le> max_message_latency c"

definition links_ok :: "LinkConfig \<Rightarrow> (Pair, Link) imap \<Rightarrow> bool" where
  "links_ok cfg ls \<longleftrightarrow> lc_message_loss cfg \<noteq> None \<and>
     (case lc_latency cfg of
        None \<Rightarrow> False
      | Some global \<Rightarrow> latency_ok global \<and> (\<forall>p l. imap_get ls p = Some l \<longrightarrow> latency_ok (link_latency global l)))"

definition top_mesh :: "IpAddr set \<Rightarrow> Topology \<Rightarrow> bool" where
  "top_mesh hs t \<longleftrightarrow> links_ok (top_config t) (links_of t) \<and>
     (\<forall>p. imap_get (links_of t) p \<noteq> None \<longleftrightarrow> fst p \<in> hs \<and> snd p \<in> hs \<and> fst p < snd p)"

lemma Pair_newE:
  assumes "a \<noteq> b"
  obtains p where "Pair_new a b = Some p" "fst p < snd p" "{fst p, snd p} = {a, b}"
  using assms by (cases "a < b") (auto simp: Pair_new_def insert_commute)

lemma mesh_link:
  assumes "top_mesh hs t" "a \<in> hs" "b \<in> hs" "a \<noteq> b"
  obtains p l where "Pair_new a b = Some p" "imap_get (links_of t) p = Some l"
proof -
  obtain p where p: "Pair_new a b = Some p" "fst p < snd p" "{fst p, snd p} = {a, b}"
    using Pair_newE [OF assms(4)] .
  then have "fst p \<in> hs \<and> snd p \<in> hs" using assms(2,3) by (auto simp: doubleton_eq_iff)
  then have "imap_get (links_of t) p \<noteq> None" using assms(1) p(2) unfolding top_mesh_def by blast
  then show ?thesis using p(1) that by blast
qed

lemma links_okD:
  "links_ok cfg ls \<Longrightarrow> lc_latency cfg = Some global \<Longrightarrow> imap_get ls p = Some l \<Longrightarrow> latency_ok (link_latency global l)"
  by (cases p) (simp add: links_ok_def del: map_of_eq_Some_iff)

lemma links_ok_insert:
  assumes "links_ok cfg ls" "\<And>global. lc_latency cfg = Some global \<Longrightarrow> latency_ok (link_latency global l)"
  shows "links_ok cfg (imap_insert p l ls)"
  using assms by (auto simp: links_ok_def imap_simps split: option.splits)

lemma mesh_update:
  assumes "top_mesh hs t" "imap_get (links_of t) p = Some l" "link_config l' = link_config l"
  shows "top_mesh hs (t\<lparr>links_of := imap_insert p l' (links_of t)\<rparr>)"
proof -
  have "link_latency global l' = link_latency global l" for global
    using assms(3) by (simp add: link_latency_def)
  then have "links_ok (top_config t) (imap_insert p l' (links_of t))"
    using assms by (intro links_ok_insert) (auto simp: top_mesh_def intro: links_okD)
  moreover have "imap_get (links_of t) p \<noteq> None" using assms(2) by simp
  ultimately show ?thesis using assms(1) unfolding top_mesh_def by (auto simp: imap_simps)
qed

lemma on_link_mesh:
  assumes "top_mesh hs t" "a \<in> hs" "b \<in> hs" "a \<noteq> b" "\<And>l. link_config (f l) = link_config l"
  shows "returns (on_link a b f t) (top_mesh hs)"
proof -
  obtain p l where "Pair_new a b = Some p" "imap_get (links_of t) p = Some l"
    using mesh_link [OF assms(1-4)] .
  then show ?thesis using mesh_update [OF assms(1) _ assms(5)] by (simp add: on_link_def del: map_of_eq_Some_iff)
qed

lemma link_changes_config:
  "link_config (link_hold l) = link_config l" "link_config (link_release l) = link_config l"
  "link_config (explicit_partition l) = link_config l" "link_config (link_partition_oneway a b l) = link_config l"
  "link_config (explicit_repair l) = link_config l" "link_config (link_repair_oneway a b l) = link_config l"
  by (simp_all add: link_hold_def link_release_def explicit_partition_def link_partition_oneway_def explicit_repair_def
    link_repair_oneway_def Let_def)

lemma link_ops_eta:
  "top_hold = (\<lambda>a b. on_link a b link_hold)" "top_release = (\<lambda>a b. on_link a b link_release)"
  "top_partition = (\<lambda>a b. on_link a b explicit_partition)"
  "top_partition_oneway = (\<lambda>a b. on_link a b (link_partition_oneway a b))"
  "top_repair = (\<lambda>a b. on_link a b explicit_repair)" "top_repair_oneway = (\<lambda>a b. on_link a b (link_repair_oneway a b))"
  by (simp_all add: fun_eq_iff top_hold_def top_release_def top_partition_def top_partition_oneway_def top_repair_def
    top_repair_oneway_def)

lemmas change_defs =
  hold_many_def release_many_def partition_many_def partition_oneway_many_def repair_many_def repair_oneway_many_def

section \<open>Sending over the mesh\<close>

lemma process_config [simp]: "link_config (process_deliverables l) = link_config l"
  by (simp add: process_deliverables_def case_prod_beta' Let_def)

lemma random_config: "link_config (fst (rand_partition_or_repair rng loss l g)) = link_config l"
  by (simp add: rand_partition_or_repair_def link_changes_config case_prod_beta' Let_def)

lemma enqueue_returns:
  assumes "latency_ok (link_latency global l)"
  shows "returns (link_enqueue rng global src dst message l g) (\<lambda>(l', g'). link_config l' = link_config l)"
  using assms
  by (simp add: link_enqueue_def delay_def latency_ok_def case_prod_beta' Let_def split: LinkState.splits)

lemma enqueue_message_returns:
  assumes "links_ok cfg ls" "imap_get ls p = Some l"
  shows "returns (link_enqueue_message rng cfg src dst message l g) (\<lambda>(l', g'). link_config l' = link_config l)"
proof -
  obtain loss global where cfg: "lc_message_loss cfg = Some loss" "lc_latency cfg = Some global"
    using assms(1) by (auto simp: links_ok_def split: option.splits)
  obtain l1 g1 where r: "rand_partition_or_repair rng loss l g = (l1, g1)" by fastforce
  then have l1: "link_config l1 = link_config l" using random_config [of rng loss l g] by simp
  then have "latency_ok (link_latency global l1)"
    using links_okD [OF assms(1) cfg(2) assms(2)] by (simp add: link_latency_def)
  from enqueue_returns [OF this, of rng src dst message g1] show ?thesis
    by (auto simp: link_enqueue_message_def cfg r l1 case_prod_beta' elim!: returns_mono)
qed

lemma top_enqueue_mesh:
  assumes "top_mesh hs t" "sa_ip src \<in> hs" "sa_ip dst \<in> hs" "sa_ip src \<noteq> sa_ip dst"
  shows "returns (top_enqueue_message rng src dst message t g) (\<lambda>(r, t', g'). r = Ok () \<and> top_mesh hs t')"
proof -
  obtain p l where p: "Pair_new (sa_ip src) (sa_ip dst) = Some p" "imap_get (links_of t) p = Some l"
    using mesh_link [OF assms] .
  have "returns (link_enqueue_message rng (top_config t) src dst message l g) (\<lambda>(l', g'). link_config l' = link_config l)"
    using assms(1) p(2) by (intro enqueue_message_returns) (auto simp: top_mesh_def)
  then show ?thesis
    using mesh_update [OF assms(1) p(2)]
    by (auto simp: top_enqueue_message_def p case_prod_beta' simp del: map_of_eq_Some_iff elim!: returns_mono)
qed

section \<open>Ticking and delivering\<close>

lemma map_links_get: "imap_get (map (\<lambda>(p, l). (p, f l)) ls) p = map_option f (imap_get ls p)"
  by (induction ls) auto

lemma tick_mesh:
  assumes "top_mesh hs t"
  shows "top_mesh hs (tick_by d t)"
proof -
  have "link_latency global (link_tick now l) = link_latency global l" for global now l
    by (simp add: link_latency_def link_tick_def)
  then show ?thesis
    using assms
    by (auto simp: top_mesh_def tick_by_def Let_def map_links_get links_ok_def split: option.splits simp del: map_of_eq_Some_iff)
qed

text \<open>A host keeps its address, and the links keep their configuration, whatever is delivered.\<close>

lemma receive_addr:
  assumes "receive_from_network e h = Some (r, h')"
  shows "host_addr h' = host_addr h"
  using assms by (auto simp: receive_from_network_def bind_Some_iff split: Protocol.splits)

lemma enqueue_config:
  assumes "link_enqueue rng global src dst message l g = Some (l', g')"
  shows "link_config l' = link_config l"
  using assms by (cases "get_state_for_message (sa_ip src) (sa_ip dst) l") (auto simp: link_enqueue_def bind_Some_iff)

lemma enqueue_message_config:
  assumes "link_enqueue_message rng cfg src dst message l g = Some (l', g')"
  shows "link_config l' = link_config l"
proof -
  obtain loss global l1 g1 l2 where "rand_partition_or_repair rng loss l g = (l1, g1)"
    "link_enqueue rng global src dst message l1 g1 = Some (l2, g')" "l' = process_deliverables l2"
    using assms by (auto simp: link_enqueue_message_def bind_Some_iff case_prod_beta' Let_def) (metis prod.collapse)
  then show ?thesis using random_config [of rng loss l g] enqueue_config [of rng global src dst message l1 g1] by simp
qed

lemma deliver_each_keeps:
  "deliver_each rng cfg es h l g = Some (h', l', g') \<Longrightarrow> host_addr h' = host_addr h \<and> link_config l' = link_config l"
proof (induction es arbitrary: h l g)
  case (Cons e es)
  then obtain r h1 l1 g1 where "receive_from_network e h = Some (r, h1)"
    "(case r of Inr _ \<Rightarrow> Some (l, g) | Inl reply \<Rightarrow> link_enqueue_message rng cfg (env_dst e) (env_src e) reply l g) = Some (l1, g1)"
    "deliver_each rng cfg es h1 l1 g1 = Some (h', l', g')"
    by (auto simp: bind_Some_iff)
  then show ?case
    using Cons.IH [of h1 l1 g1] receive_addr [of e h r h1] enqueue_message_config by (auto split: sum.splits)
qed simp

lemma deliver_links_keeps:
  "deliver_links rng cfg ls h g = Some (ls', h', g') \<Longrightarrow>
     host_addr h' = host_addr h \<and> map (\<lambda>(p, l). (p, link_config l)) ls' = map (\<lambda>(p, l). (p, link_config l)) ls"
proof (induction ls arbitrary: h g ls')
  case (Cons pl ls)
  obtain p l where pl: "pl = (p, l)" by fastforce
  then obtain h1 l1 g1 ls1 where
    "(if fst p = host_addr h \<or> snd p = host_addr h then link_deliver_messages rng cfg h l g else Some (h, l, g)) = Some (h1, l1, g1)"
    "deliver_links rng cfg ls h1 g1 = Some (ls1, h', g')" "ls' = (p, l1) # ls1"
    using Cons.prems by (auto simp: bind_Some_iff)
  then show ?case
    using Cons.IH [of h1 g1 ls1] deliver_each_keeps
    by (fastforce simp: pl link_deliver_messages_def Let_def split: if_splits)
qed simp

lemma map_config_get:
  assumes "map (\<lambda>(p, l). (p, link_config l)) ls' = map (\<lambda>(p, l). (p, link_config l)) ls"
  shows "map_option link_config (imap_get ls' p) = map_option link_config (imap_get ls p)"
  using arg_cong [OF assms, of "\<lambda>ls. imap_get ls p"] by (simp only: map_links_get)

lemma deliver_mesh:
  assumes "top_mesh hs t" "top_deliver_messages rng h t g = Some (h', t', g')"
  shows "top_mesh hs t' \<and> host_addr h' = host_addr h"
proof -
  obtain ls where d: "deliver_links rng (top_config t) (links_of t) h g = Some (ls, h', g')"
    and t': "t' = t\<lparr>links_of := ls\<rparr>"
    using assms(2) by (auto simp: top_deliver_messages_def bind_Some_iff)
  have get: "map_option link_config (imap_get ls p) = map_option link_config (imap_get (links_of t) p)" for p
    by (rule map_config_get) (rule conjunct2 [OF deliver_links_keeps [OF d]])
  have "latency_ok (link_latency global l)"
    if some: "imap_get ls p = Some l" "lc_latency (top_config t) = Some global" for p l global
  proof -
    obtain l0 where l0: "imap_get (links_of t) p = Some l0" "link_config l0 = link_config l"
      using get [of p] some(1) by (cases "imap_get (links_of t) p") (auto simp del: map_of_eq_Some_iff)
    have "latency_ok (link_latency global l0)"
      using assms(1) l0(1) some(2) by (auto simp: top_mesh_def intro: links_okD)
    then show ?thesis using l0(2) by (simp add: link_latency_def)
  qed
  moreover have "imap_get ls p \<noteq> None \<longleftrightarrow> imap_get (links_of t) p \<noteq> None" for p
    using get [of p] by (cases "imap_get ls p"; cases "imap_get (links_of t) p") auto
  ultimately show ?thesis
    using assms(1) deliver_links_keeps [OF d]
    by (auto simp: top_mesh_def links_ok_def t' simp del: map_of_eq_Some_iff split: option.splits)
qed

section \<open>Registering hosts\<close>

text \<open>While a host is being registered it has links to the hosts seen so far.\<close>

definition partial_mesh :: "IpAddr set \<Rightarrow> IpAddr \<Rightarrow> IpAddr set \<Rightarrow> Topology \<Rightarrow> bool" where
  "partial_mesh hs a seen t \<longleftrightarrow> links_ok (top_config t) (links_of t) \<and>
     (\<forall>p. imap_get (links_of t) p \<noteq> None \<longleftrightarrow> fst p < snd p \<and>
        (fst p \<in> hs \<and> snd p \<in> hs \<or> fst p = a \<and> snd p \<in> seen \<or> snd p = a \<and> fst p \<in> seen))"

lemma register_link:
  assumes "partial_mesh hs a seen t" "a \<notin> hs" "e \<in> hs" "e \<notin> seen" "seen \<subseteq> hs"
  shows "returns (top_register e a t) (partial_mesh hs a (insert e seen))"
proof -
  have "e \<noteq> a" using assms by auto
  then obtain p where p: "Pair_new e a = Some p" "fst p < snd p" "{fst p, snd p} = {e, a}"
    using Pair_newE by blast
  have fresh: "imap_get (links_of t) p = None"
    using assms p unfolding partial_mesh_def doubleton_eq_iff by blast
  have "links_ok (top_config t) (imap_insert p (Link_new (top_now t)) (links_of t))"
    using assms(1)
    by (intro links_ok_insert)
      (auto simp: partial_mesh_def links_ok_def Link_new_def LinkConfig_default_def link_latency_def split: option.splits)
  moreover have "q = p \<longleftrightarrow> fst q < snd q \<and> (fst q = a \<and> snd q = e \<or> snd q = a \<and> fst q = e)" for q
    using p(2,3) by (cases p; cases q) (auto simp: doubleton_eq_iff)
  ultimately have "partial_mesh hs a (insert e seen) (t\<lparr>links_of := imap_insert p (Link_new (top_now t)) (links_of t)\<rparr>)"
    using assms(1) unfolding partial_mesh_def by (simp add: imap_get_insert) blast
  then show ?thesis by (simp add: top_register_def p(1) fresh)
qed

lemma register_links_mesh:
  assumes "partial_mesh hs a seen t" "a \<notin> hs" "set es \<subseteq> hs" "distinct es" "seen \<inter> set es = {}" "seen \<subseteq> hs"
  shows "returns (register_links es a t) (partial_mesh hs a (seen \<union> set es))"
  using assms
proof (induction es arbitrary: seen t)
  case (Cons e es)
  have "returns (register_links es a t1) (partial_mesh hs a (seen \<union> set (e # es)))"
    if "partial_mesh hs a (insert e seen) t1" for t1
    using Cons.IH [OF that] Cons.prems by auto
  moreover have "returns (top_register e a t) (partial_mesh hs a (insert e seen))"
    using Cons.prems by (intro register_link) auto
  ultimately show ?case by (auto elim: returns_mono)
qed simp

lemma partial_mesh_full:
  assumes "a \<notin> hs"
  shows "partial_mesh hs a {} t \<longleftrightarrow> top_mesh hs t" "partial_mesh hs a hs t \<longleftrightarrow> top_mesh (insert a hs) t"
proof -
  have "fst p \<in> insert a hs \<and> snd p \<in> insert a hs \<and> fst p < snd p \<longleftrightarrow> fst p < snd p \<and>
      (fst p \<in> hs \<and> snd p \<in> hs \<or> fst p = a \<and> snd p \<in> hs \<or> snd p = a \<and> fst p \<in> hs)" for p :: Pair
    by auto
  then show "partial_mesh hs a hs t \<longleftrightarrow> top_mesh (insert a hs) t"
    unfolding partial_mesh_def top_mesh_def by simp
  show "partial_mesh hs a {} t \<longleftrightarrow> top_mesh hs t"
    unfolding partial_mesh_def top_mesh_def by auto
qed

lemma register_mesh:
  assumes "top_mesh (set es) t" "a \<notin> set es" "distinct es"
  shows "returns (register_links es a t) (top_mesh (insert a (set es)))"
  using register_links_mesh [of "set es" a "{}" t es] assms
  by (auto simp: partial_mesh_full elim!: returns_mono)

section \<open>The world as a state machine\<close>

datatype LinkChange = HoldLinks | ReleaseLinks | PartitionLinks | PartitionOneway | RepairLinks | RepairOneway

fun change_many :: "LinkChange \<Rightarrow> to_ip_addrs \<Rightarrow> to_ip_addrs \<Rightarrow> 'g World \<Rightarrow> 'g World option" where
  "change_many HoldLinks = hold_many"
| "change_many ReleaseLinks = release_many"
| "change_many PartitionLinks = partition_many"
| "change_many PartitionOneway = partition_oneway_many"
| "change_many RepairLinks = repair_many"
| "change_many RepairOneway = repair_oneway_many"

datatype WorldOp =
    RegisterHost IpAddr string HostTimer HostConfig
  | SendMessage SocketAddr SocketAddr Protocol
  | ChangeLinks LinkChange to_ip_addrs to_ip_addrs
  | TickLinks duration
  | TickHost IpAddr duration
  | DeliverTo IpAddr

text \<open>Delivery to a host as \<^verbatim>\<open>Sim::step\<close> calls it.\<close>

definition deliver_to :: "'g NetRng \<Rightarrow> IpAddr \<Rightarrow> 'g World \<Rightarrow> 'g World option" where
  "deliver_to rng a w = do {
     h \<leftarrow> imap_get (w_hosts w) a;
     (h1, t, g) \<leftarrow> top_deliver_messages rng h (w_topology w) (w_rng w);
     Some (w\<lparr>w_hosts := imap_insert a h1 (w_hosts w), w_topology := t, w_rng := g\<rparr>)
   }"

text \<open>A send that is refused counts as no step.\<close>

fun world_step :: "'g NetRng \<Rightarrow> 'g World \<Rightarrow> WorldOp \<Rightarrow> 'g World option" where
  "world_step rng w (RegisterHost a name timer cfg) = world_register a name timer cfg w"
| "world_step rng w (SendMessage src dst message) =
     Option.bind (send_message rng src dst message w) (\<lambda>(r, w1). case r of Err _ \<Rightarrow> None | Ok _ \<Rightarrow> Some w1)"
| "world_step rng w (ChangeLinks c a b) = change_many c a b w"
| "world_step rng w (TickLinks d) = Some (w\<lparr>w_topology := tick_by d (w_topology w)\<rparr>)"
| "world_step rng w (TickHost a d) = world_tick a d w"
| "world_step rng w (DeliverTo a) = deliver_to rng a w"

definition host_addrs :: "'g World \<Rightarrow> IpAddr set" where
  "host_addrs w = set (imap_keys (w_hosts w))"

text \<open>
  What a caller has to respect: addresses are registered once and named only after that, and a
  delivery makes no host panic (its listeners have room and no sequence number arrives twice).
\<close>

fun world_admissible :: "'g NetRng \<Rightarrow> 'g World \<Rightarrow> WorldOp \<Rightarrow> bool" where
  "world_admissible rng w (RegisterHost a name timer cfg) = (a \<notin> host_addrs w)"
| "world_admissible rng w (SendMessage src dst message) =
     (sa_ip src \<in> host_addrs w \<and> sa_ip dst \<in> host_addrs w \<and> sa_ip src \<noteq> sa_ip dst)"
| "world_admissible rng w (ChangeLinks c a b) =
     (set (fst (a (w_dns w))) \<subseteq> host_addrs w \<and> set (fst (b (snd (a (w_dns w))))) \<subseteq> host_addrs w)"
| "world_admissible rng w (TickLinks d) = True"
| "world_admissible rng w (TickHost a d) = (a \<in> host_addrs w)"
| "world_admissible rng w (DeliverTo a) =
     (case imap_get (w_hosts w) a of
        None \<Rightarrow> False
      | Some h \<Rightarrow> top_deliver_messages rng h (w_topology w) (w_rng w) \<noteq> None)"

definition world_mesh :: "'g World \<Rightarrow> bool" where
  "world_mesh w \<longleftrightarrow> imap_wf (w_hosts w) \<and> (\<forall>a h. imap_get (w_hosts w) a = Some h \<longrightarrow> host_addr h = a) \<and>
     top_mesh (host_addrs w) (w_topology w)"

lemma for_pairs_returns:
  assumes "\<And>a b s. a \<in> set as \<Longrightarrow> b \<in> set bs \<Longrightarrow> a \<noteq> b \<Longrightarrow> P s \<Longrightarrow> returns (f a b s) P" "P s"
  shows "returns (for_pairs as bs f s) P"
proof -
  have inner: "returns (fold (\<lambda>b so. Option.bind so (\<lambda>s. if a \<noteq> b then f a b s else Some s)) cs (Some s)) P"
    if "a \<in> set as" "set cs \<subseteq> set bs" "P s" for a cs s
    using that(2,3)
  proof (induction cs arbitrary: s)
    case (Cons c cs)
    have "returns (if a \<noteq> c then f a c s else Some s) P"
      using assms(1) that(1) Cons.prems by auto
    then obtain s1 where "(if a \<noteq> c then f a c s else Some s) = Some s1" "P s1"
      by (auto simp: returns_def)
    then show ?case using Cons.IH [of s1] Cons.prems by simp
  qed simp
  have "returns (for_pairs xs bs f s) P" if "set xs \<subseteq> set as" "P s" for xs s
    using that
  proof (induction xs arbitrary: s)
    case (Cons x xs)
    then have "returns (fold (\<lambda>b so. Option.bind so (\<lambda>s. if x \<noteq> b then f x b s else Some s)) bs (Some s)) P"
      by (intro inner) auto
    then show ?case using Cons by (auto elim!: returns_mono)
  qed simp
  then show ?thesis using assms(2) by simp
qed

lemma world_pairs_mesh:
  assumes "world_mesh w" "set (fst (a (w_dns w))) \<subseteq> host_addrs w" "set (fst (b (snd (a (w_dns w))))) \<subseteq> host_addrs w"
    and f: "\<And>x y t. x \<in> host_addrs w \<Longrightarrow> y \<in> host_addrs w \<Longrightarrow> x \<noteq> y \<Longrightarrow> top_mesh (host_addrs w) t \<Longrightarrow>
      returns (f x y t) (top_mesh (host_addrs w))"
  shows "returns (world_pairs f a b w) world_mesh"
proof -
  define P where "P w' \<longleftrightarrow> w_hosts w' = w_hosts w \<and> top_mesh (host_addrs w) (w_topology w')" for w' :: "'a World"
  let ?w = "w\<lparr>w_dns := snd (b (snd (a (w_dns w))))\<rparr>"
  have step: "returns (on_topology (f x y) w') P"
    if "x \<in> host_addrs w" "y \<in> host_addrs w" "x \<noteq> y" "P w'" for x y w'
    using f [of x y "w_topology w'"] that by (auto simp: on_topology_def P_def elim: returns_mono)
  have "P ?w" using assms(1) by (simp add: P_def world_mesh_def)
  then have "returns (for_pairs (fst (a (w_dns w))) (fst (b (snd (a (w_dns w)))))
      (\<lambda>x y. on_topology (f x y)) ?w) P"
    using assms(2,3) by (intro for_pairs_returns step) auto
  moreover have "world_pairs f a b w = for_pairs (fst (a (w_dns w))) (fst (b (snd (a (w_dns w)))))
      (\<lambda>x y. on_topology (f x y)) ?w"
    by (simp add: world_pairs_def world_lookup_many_def case_prod_beta' Let_def)
  moreover have "world_mesh w''" if "P w''" for w''
    using assms(1) that by (simp add: P_def world_mesh_def host_addrs_def)
  ultimately show ?thesis by (auto elim: returns_mono)
qed

lemma change_many_mesh:
  assumes "world_mesh w" "world_admissible rng w (ChangeLinks c a b)"
  shows "returns (change_many c a b w) world_mesh"
proof -
  have pairs: "returns (world_pairs (\<lambda>x y. on_link x y (g x y)) a b w) world_mesh"
    if "\<And>x y l. link_config (g x y l) = link_config l" for g
    by (rule world_pairs_mesh) (use assms that in \<open>auto intro: on_link_mesh\<close>)
  show ?thesis
    using pairs [of "\<lambda>_ _. link_hold"] pairs [of "\<lambda>_ _. link_release"] pairs [of "\<lambda>_ _. explicit_partition"]
      pairs [of link_partition_oneway] pairs [of "\<lambda>_ _. explicit_repair"] pairs [of link_repair_oneway]
    by (cases c) (simp_all add: change_defs link_ops_eta link_changes_config)
qed

lemma register_world_mesh:
  assumes "world_mesh w" "a \<notin> host_addrs w"
  shows "returns (world_register a name timer cfg w) world_mesh"
proof -
  have "imap_get (w_hosts w) a = None"
    using assms(2) by (simp add: host_addrs_def map_of_eq_None_iff)
  moreover have "returns (register_links (imap_keys (w_hosts w)) a (w_topology w)) (top_mesh (insert a (host_addrs w)))"
    using assms register_mesh [of "imap_keys (w_hosts w)" "w_topology w" a] by (simp add: world_mesh_def host_addrs_def)
  moreover have "world_mesh (w\<lparr>w_topology := t, w_hosts := imap_insert a
      (SimHost_new name a timer (cfg_ephemeral_ports cfg) (cfg_tcp_capacity cfg) (cfg_udp_capacity cfg)) (w_hosts w)\<rparr>)"
    if "top_mesh (insert a (host_addrs w)) t" for t
    using assms(1) that
    by (auto simp: world_mesh_def host_addrs_def dom_update imap_simps SimHost_new_def simp del: map_of_eq_Some_iff
      intro!: distinct_update)
  ultimately show ?thesis by (auto simp: world_register_def elim!: returns_mono)
qed

lemma host_update_mesh:
  assumes "world_mesh w" "imap_get (w_hosts w) a \<noteq> None" "host_addr h = a" "top_mesh (host_addrs w) t"
  shows "world_mesh (w\<lparr>w_hosts := imap_insert a h (w_hosts w), w_topology := t\<rparr>)"
proof -
  have "host_addrs (w\<lparr>w_hosts := imap_insert a h (w_hosts w), w_topology := t\<rparr>) = host_addrs w"
    using assms(2) by (auto simp: host_addrs_def dom_update map_of_eq_None_iff)
  then show ?thesis
    using assms by (auto simp: world_mesh_def imap_simps simp del: map_of_eq_Some_iff intro!: distinct_update)
qed

lemma world_step_mesh:
  assumes "world_mesh w" "world_admissible rng w op"
  shows "returns (world_step rng w op) world_mesh"
proof (cases op)
  case (RegisterHost a name timer cfg)
  then show ?thesis using assms register_world_mesh by simp
next
  case (SendMessage src dst message)
  have "returns (top_enqueue_message rng src dst message (w_topology w) (w_rng w))
      (\<lambda>(r, t, g). r = Ok () \<and> top_mesh (host_addrs w) t)"
    using assms by (intro top_enqueue_mesh) (auto simp: SendMessage world_mesh_def)
  then show ?thesis
    using assms(1) by (auto simp: SendMessage send_message_def world_mesh_def host_addrs_def elim!: returns_mono)
next
  case (ChangeLinks c a b)
  then show ?thesis using assms change_many_mesh by fastforce
next
  case (TickLinks d)
  then show ?thesis using assms(1) tick_mesh by (simp add: world_mesh_def host_addrs_def)
next
  case (TickHost a d)
  then obtain h where "imap_get (w_hosts w) a = Some h"
    using assms(2) by (cases "imap_get (w_hosts w) a") (auto simp: host_addrs_def map_of_eq_None_iff)
  then show ?thesis
    using assms(1) host_update_mesh [OF assms(1), of a "h\<lparr>host_timer := timer_tick d (host_timer h)\<rparr>" "w_topology w"]
    by (simp add: TickHost world_tick_def world_mesh_def del: map_of_eq_Some_iff)
next
  case (DeliverTo a)
  then obtain h h1 t g where h: "imap_get (w_hosts w) a = Some h"
    and d: "top_deliver_messages rng h (w_topology w) (w_rng w) = Some (h1, t, g)"
    using assms(2) by (auto simp del: map_of_eq_Some_iff split: option.splits)
  have m: "top_mesh (host_addrs w) t" "host_addr h1 = a"
    using assms(1) h deliver_mesh [OF _ d, of "host_addrs w"] by (auto simp: world_mesh_def simp del: map_of_eq_Some_iff)
  have "world_mesh (w\<lparr>w_hosts := imap_insert a h1 (w_hosts w), w_topology := t\<rparr>)"
    using host_update_mesh [OF assms(1) _ m(2,1)] h by simp
  then show ?thesis
    by (simp add: DeliverTo deliver_to_def h d world_mesh_def host_addrs_def)
qed

interpretation world_run: invariant_system "world_step rng" world_mesh "world_admissible rng" for rng :: "'g NetRng"
proof unfold_locales
  fix w :: "'g World" and op assume "world_mesh w" "world_admissible rng w op"
  then obtain w' where "world_step rng w op = Some w'" "world_mesh w'"
    using world_step_mesh [of w rng op] by (auto simp: returns_def)
  then show "\<exists>w'. world_step rng w op = Some w'" and "\<And>w'. world_step rng w op = Some w' \<Longrightarrow> world_mesh w'" by auto
qed

lemma new_world_mesh:
  assumes "lc_message_loss link \<noteq> None" "lc_latency link = Some global" "latency_ok global"
  shows "world_mesh (World_new link g it d)"
  using assms by (simp add: world_mesh_def World_new_def top_mesh_def links_ok_def Topology_new_def host_addrs_def)


text \<open>Three hosts, a hold between two sets of them, and a message that is held and delivered.\<close>

definition demo_cfg :: HostConfig where
  "demo_cfg = \<lparr>cfg_ephemeral_ports = (49152, 65535), cfg_tcp_capacity = 64, cfg_udp_capacity = 64\<rparr>"

definition demo_rng :: "nat NetRng" where
  "demo_rng = \<lparr>coin = (\<lambda>r g. (True, g + 1)), exp_sample = (\<lambda>r g. (1, g + 1))\<rparr>"

definition demo_links :: LinkConfig where
  "demo_links = \<lparr>lc_latency = Some Latency_default, lc_message_loss = Some MessageLoss_default\<rparr>"

definition demo_ops :: "WorldOp list" where
  "demo_ops = [RegisterHost (V4 1) ''a'' (HostTimer_new 0 0) demo_cfg, RegisterHost (V4 2) ''b'' (HostTimer_new 0 0) demo_cfg,
     ChangeLinks HoldLinks (\<lambda>d. ([V4 1], d)) (\<lambda>d. ([V4 1, V4 2], d)),
     SendMessage (SocketAddr (V4 1) 9) (SocketAddr (V4 2) 9) (ProtoUdp [5]),
     ChangeLinks ReleaseLinks (\<lambda>d. ([V4 1], d)) (\<lambda>d. ([V4 2], d)), TickLinks 1, DeliverTo (V4 2)]"

lemmas demo_simps =
  demo_ops_def demo_cfg_def demo_rng_def demo_links_def Latency_default_def MessageLoss_default_def World_new_def
  Topology_new_def world_register_def top_register_def Pair_new_def Link_new_def LinkConfig_default_def host_addrs_def
  change_defs world_pairs_def world_lookup_many_def on_topology_def on_link_def link_ops_eta link_hold_def link_release_def
  SimHost_new_def HostTimer_new_def HostUdp_new_def HostTcp_new_def send_message_def top_enqueue_message_def
  link_enqueue_message_def rand_partition_or_repair_def rand_partition_def toss_def link_loss_def link_enqueue_def
  get_state_for_message_def process_deliverables_def tick_by_def link_tick_def sent_deliver_def push_deliverable_def
  envelope_of_def deliver_to_def top_deliver_messages_def link_deliver_messages_def receive_from_network_def
  udp_receive_def


end
