(* ===== verification/Sim_Driver.thy ===== *)
theory Sim_Driver
  imports Sim_Mesh Net_Show
begin

text \<open>
  \<^verbatim>\<open>turmoil/src/sim.rs\<close> and \<^verbatim>\<open>turmoil/src/rt.rs\<close>: the simulation that owns the world and one
  runtime per host, and steps them. The tokio runtime and the software it runs are not part of
  the sources: their state has type \<open>'t\<close>, and \<open>Software\<close> collects what the driver does with it.
  Running software may use the world, with itself as the current host. The hooks of the file
  system and of the rings, which a step enters with the host's time and a crash calls, are the
  operations of those components.
\<close>

section \<open>Runtimes\<close>

datatype Kind = Client | Host_software | NoSoftware

text \<open>How the task of a host's software stands after its runtime has run.\<close>

datatype JoinState = Running | Joined_ok | Joined_error string | Joined_cancelled

text \<open>Why a step fails: the software returned an error, or the duration is over (with the steps so far).\<close>

datatype StepError = SoftwareError string | RanForDuration duration nat

text \<open>
  \<open>sw_client\<close>, \<open>sw_host\<close>: a fresh runtime, seeded, with the host's software spawned; \<open>sw_now\<close>:
  the runtime's clock; \<open>sw_run\<close>: block on a sleep, which lets the tasks run; \<open>sw_cancel\<close>: replace
  the runtime and drop every task, which runs their destructors; \<open>sw_respawn\<close>: spawn the software
  again. A panic is \<open>None\<close>.
\<close>

record ('t, 'g) Software =
  sw_client :: "IpAddr \<Rightarrow> bytes \<Rightarrow> 't"
  sw_host :: "IpAddr \<Rightarrow> bytes \<Rightarrow> 't"
  sw_now :: "'t \<Rightarrow> nat"
  sw_run :: "duration \<Rightarrow> 't \<Rightarrow> 'g World \<Rightarrow> (JoinState \<times> 't \<times> 'g World) option"
  sw_cancel :: "'t \<Rightarrow> 'g World \<Rightarrow> ('t \<times> 'g World) option"
  sw_respawn :: "'t \<Rightarrow> 'g World \<Rightarrow> ('t \<times> 'g World) option"
  sw_seed :: "'g \<Rightarrow> bytes \<times> 'g"
  sw_shuffle :: "IpAddr list \<Rightarrow> 'g \<Rightarrow> IpAddr list \<times> 'g"

record 't Rt =
  rt_kind :: Kind
  rt_tokio :: 't
  rt_nodename :: string
  rt_handle :: bool

definition Rt_client :: "('t, 'g) Software \<Rightarrow> string \<Rightarrow> IpAddr \<Rightarrow> bytes \<Rightarrow> 't Rt" where
  "Rt_client sw name a seed = \<lparr>rt_kind = Client, rt_tokio = sw_client sw a seed, rt_nodename = name, rt_handle = True\<rparr>"

definition Rt_host :: "('t, 'g) Software \<Rightarrow> string \<Rightarrow> IpAddr \<Rightarrow> bytes \<Rightarrow> 't Rt" where
  "Rt_host sw name a seed =
     \<lparr>rt_kind = Host_software, rt_tokio = sw_host sw a seed, rt_nodename = name, rt_handle = True\<rparr>"

definition is_client :: "'t Rt \<Rightarrow> bool" where
  "is_client rt \<longleftrightarrow> rt_kind rt = Client"

definition is_host :: "'t Rt \<Rightarrow> bool" where
  "is_host rt \<longleftrightarrow> rt_kind rt = Host_software"

definition is_software_running :: "'t Rt \<Rightarrow> bool" where
  "is_software_running rt \<longleftrightarrow> rt_handle rt"

text \<open>The handle of finished software is consumed; a cancelled task is not an error.\<close>

definition Rt_tick ::
  "('t, 'g) Software \<Rightarrow> duration \<Rightarrow> 't Rt \<Rightarrow> 'g World \<Rightarrow> ((StepError + bool) \<times> 't Rt \<times> 'g World) option" where
  "Rt_tick sw d rt w = do {
     (st, t, w1) \<leftarrow> sw_run sw d (rt_tokio rt) w;
     let rt1 = rt\<lparr>rt_tokio := t\<rparr>;
     Some (if \<not> rt_handle rt1 then (Inr True, rt1, w1)
           else
             (case st of
                Running \<Rightarrow> (Inr False, rt1, w1)
              | Joined_ok \<Rightarrow> (Inr True, rt1\<lparr>rt_handle := False\<rparr>, w1)
              | Joined_cancelled \<Rightarrow> (Inr True, rt1\<lparr>rt_handle := False\<rparr>, w1)
              | Joined_error e \<Rightarrow> (Inl (SoftwareError e), rt1\<lparr>rt_handle := False\<rparr>, w1)))
   }"

definition cancel_tasks :: "('t, 'g) Software \<Rightarrow> 't Rt \<Rightarrow> 'g World \<Rightarrow> ('t Rt \<times> 'g World) option" where
  "cancel_tasks sw rt w = do { (t, w1) \<leftarrow> sw_cancel sw (rt_tokio rt) w; Some (rt\<lparr>rt_tokio := t\<rparr>, w1) }"

definition Rt_crash :: "('t, 'g) Software \<Rightarrow> 't Rt \<Rightarrow> 'g World \<Rightarrow> ('t Rt \<times> 'g World) option" where
  "Rt_crash sw rt w =
     (if \<not> is_host rt then None
      else if rt_handle rt then cancel_tasks sw (rt\<lparr>rt_handle := False\<rparr>) w
      else Some (rt, w))"

definition Rt_bounce :: "('t, 'g) Software \<Rightarrow> 't Rt \<Rightarrow> 'g World \<Rightarrow> ('t Rt \<times> 'g World) option" where
  "Rt_bounce sw rt w =
     (if \<not> is_host rt then None
      else do {
        (rt1, w1) \<leftarrow> cancel_tasks sw rt w;
        (t, w2) \<leftarrow> sw_respawn sw (rt_tokio rt1) w1;
        Some (rt1\<lparr>rt_tokio := t, rt_handle := True\<rparr>, w2)
      })"

section \<open>The simulation\<close>

text \<open>The epoch is a time relative to the Unix epoch.\<close>

record SimConfig = HostConfig +
  cfg_duration :: duration
  cfg_tick :: duration
  cfg_epoch :: int
  cfg_random_node_order :: bool

definition SimConfig_default :: "int \<Rightarrow> SimConfig" where
  "SimConfig_default now = \<lparr>cfg_ephemeral_ports = (49152, 65535), cfg_tcp_capacity = 64, cfg_udp_capacity = 64,
     cfg_duration = 10 * 10 ^ 9, cfg_tick = 10 ^ 6, cfg_epoch = now, cfg_random_node_order = False\<rparr>"

record ('t, 'g) Sim =
  sim_config :: SimConfig
  sim_world :: "'g World"
  sim_rts :: "(IpAddr, 't Rt) imap"
  sim_since_epoch :: duration
  sim_time :: duration
  sim_steps :: nat

definition Sim_new :: "SimConfig \<Rightarrow> 'g World \<Rightarrow> ('t, 'g) Sim option" where
  "Sim_new cfg w =
     (if cfg_epoch cfg < 0 then None
      else Some \<lparr>sim_config = cfg, sim_world = w, sim_rts = [], sim_since_epoch = nat (cfg_epoch cfg),
        sim_time = 0, sim_steps = 1\<rparr>)"

definition Sim_elapsed :: "('t, 'g) Sim \<Rightarrow> duration" where
  "Sim_elapsed s = sim_time s"

definition Sim_since_epoch :: "('t, 'g) Sim \<Rightarrow> duration" where
  "Sim_since_epoch s = sim_since_epoch s + sim_time s"

text \<open>An address argument resolves through the name table, which may assign a new address.\<close>

type_synonym sim_addr = "SimDns \<Rightarrow> IpAddr \<times> SimDns"

definition Sim_lookup :: "sim_addr \<Rightarrow> ('t, 'g) Sim \<Rightarrow> IpAddr \<times> ('t, 'g) Sim" where
  "Sim_lookup addr s =
     (let (a, d) = addr (w_dns (sim_world s)) in (a, s\<lparr>sim_world := (sim_world s)\<lparr>w_dns := d\<rparr>\<rparr>))"

definition node_name :: "'g World \<Rightarrow> IpAddr \<Rightarrow> string" where
  "node_name w a = (case sim_reverse (w_dns w) a of None \<Rightarrow> show_ip a | Some n \<Rightarrow> n)"

text \<open>The common body of \<^verbatim>\<open>client\<close> and \<^verbatim>\<open>host\<close>.\<close>

definition add_node ::
  "('t, 'g) Software \<Rightarrow> (string \<Rightarrow> IpAddr \<Rightarrow> bytes \<Rightarrow> 't Rt) \<Rightarrow> sim_addr \<Rightarrow> ('t, 'g) Sim \<Rightarrow> ('t, 'g) Sim option" where
  "add_node sw mk addr s =
     (let (a, s1) = Sim_lookup addr s; name = node_name (sim_world s1) a
      in do {
        w \<leftarrow> world_register a name (HostTimer_new (sim_time s1) (sim_since_epoch s1)) (HostConfig.truncate (sim_config s1)) (sim_world s1);
        let (seed, g) = sw_seed sw (w_rng w);
        Some (s1\<lparr>sim_world := w\<lparr>w_rng := g\<rparr>, sim_rts := imap_insert a (mk name a seed) (sim_rts s1)\<rparr>)
      })"

definition Sim_client :: "('t, 'g) Software \<Rightarrow> sim_addr \<Rightarrow> ('t, 'g) Sim \<Rightarrow> ('t, 'g) Sim option" where
  "Sim_client sw = add_node sw (Rt_client sw)"

definition Sim_host :: "('t, 'g) Software \<Rightarrow> sim_addr \<Rightarrow> ('t, 'g) Sim \<Rightarrow> ('t, 'g) Sim option" where
  "Sim_host sw = add_node sw (Rt_host sw)"

text \<open>Call \<open>f\<close> on the runtime of each host, as the current host.\<close>

fun each_host ::
  "('t Rt \<Rightarrow> 'g World \<Rightarrow> ('t Rt \<times> 'g World) option) \<Rightarrow> IpAddr list \<Rightarrow> ('t, 'g) Sim \<Rightarrow> ('t, 'g) Sim option" where
  "each_host f [] s = Some s"
| "each_host f (a # as) s = do {
     rt \<leftarrow> imap_get (sim_rts s) a;
     (rt1, w) \<leftarrow> f rt ((sim_world s)\<lparr>w_current := Some a\<rparr>);
     each_host f as (s\<lparr>sim_world := w, sim_rts := imap_insert a rt1 (sim_rts s)\<rparr>)
   }"

definition run_with_hosts ::
  "to_ip_addrs \<Rightarrow> ('t Rt \<Rightarrow> 'g World \<Rightarrow> ('t Rt \<times> 'g World) option) \<Rightarrow> ('t, 'g) Sim \<Rightarrow> ('t, 'g) Sim option" where
  "run_with_hosts addrs f s =
     (let (as, w) = world_lookup_many addrs (sim_world s)
      in do {
        s1 \<leftarrow> each_host f as (s\<lparr>sim_world := w\<rparr>);
        Some (s1\<lparr>sim_world := (sim_world s1)\<lparr>w_current := None\<rparr>\<rparr>)
      })"

definition Sim_crash :: "('t, 'g) Software \<Rightarrow> to_ip_addrs \<Rightarrow> ('t, 'g) Sim \<Rightarrow> ('t, 'g) Sim option" where
  "Sim_crash sw addrs = run_with_hosts addrs (Rt_crash sw)"

definition Sim_bounce :: "('t, 'g) Software \<Rightarrow> to_ip_addrs \<Rightarrow> ('t, 'g) Sim \<Rightarrow> ('t, 'g) Sim option" where
  "Sim_bounce sw addrs = run_with_hosts addrs (Rt_bounce sw)"

definition is_host_running :: "sim_addr \<Rightarrow> ('t, 'g) Sim \<Rightarrow> (bool \<times> ('t, 'g) Sim) option" where
  "is_host_running addr s =
     (let (a, s1) = Sim_lookup addr s in map_option (\<lambda>rt. (is_software_running rt, s1)) (imap_get (sim_rts s1) a))"

definition Sim_reverse_lookup :: "('t, 'g) Sim \<Rightarrow> IpAddr \<Rightarrow> string option" where
  "Sim_reverse_lookup s a = reverse_lookup (sim_world s) a"

definition reverse_lookup_pair :: "('t, 'g) Sim \<Rightarrow> IpAddr \<times> IpAddr \<Rightarrow> (string \<times> string) option" where
  "reverse_lookup_pair s p = do {
     a \<leftarrow> sim_reverse (w_dns (sim_world s)) (fst p);
     b \<leftarrow> sim_reverse (w_dns (sim_world s)) (snd p);
     Some (a, b)
   }"

definition Sim_lookup_many :: "to_ip_addrs \<Rightarrow> ('t, 'g) Sim \<Rightarrow> IpAddr list \<times> ('t, 'g) Sim" where
  "Sim_lookup_many addrs s = (let (as, w) = world_lookup_many addrs (sim_world s) in (as, s\<lparr>sim_world := w\<rparr>))"

definition on_world :: "('g World \<Rightarrow> 'g World option) \<Rightarrow> ('t, 'g) Sim \<Rightarrow> ('t, 'g) Sim option" where
  "on_world f s = map_option (\<lambda>w. s\<lparr>sim_world := w\<rparr>) (f (sim_world s))"

definition Sim_hold :: "to_ip_addrs \<Rightarrow> to_ip_addrs \<Rightarrow> ('t, 'g) Sim \<Rightarrow> ('t, 'g) Sim option" where
  "Sim_hold a b = on_world (hold_many a b)"

definition Sim_release :: "to_ip_addrs \<Rightarrow> to_ip_addrs \<Rightarrow> ('t, 'g) Sim \<Rightarrow> ('t, 'g) Sim option" where
  "Sim_release a b = on_world (release_many a b)"

definition Sim_partition :: "to_ip_addrs \<Rightarrow> to_ip_addrs \<Rightarrow> ('t, 'g) Sim \<Rightarrow> ('t, 'g) Sim option" where
  "Sim_partition a b = on_world (partition_many a b)"

definition Sim_partition_oneway :: "to_ip_addrs \<Rightarrow> to_ip_addrs \<Rightarrow> ('t, 'g) Sim \<Rightarrow> ('t, 'g) Sim option" where
  "Sim_partition_oneway a b = on_world (partition_oneway_many a b)"

definition Sim_repair :: "to_ip_addrs \<Rightarrow> to_ip_addrs \<Rightarrow> ('t, 'g) Sim \<Rightarrow> ('t, 'g) Sim option" where
  "Sim_repair a b = on_world (repair_many a b)"

definition Sim_repair_oneway :: "to_ip_addrs \<Rightarrow> to_ip_addrs \<Rightarrow> ('t, 'g) Sim \<Rightarrow> ('t, 'g) Sim option" where
  "Sim_repair_oneway a b = on_world (repair_oneway_many a b)"

definition Sim_set_max_message_latency :: "duration \<Rightarrow> ('t, 'g) Sim \<Rightarrow> ('t, 'g) Sim option" where
  "Sim_set_max_message_latency v = on_world (on_topology (set_max_message_latency v))"

definition Sim_set_link_latency :: "to_ip_addrs \<Rightarrow> to_ip_addrs \<Rightarrow> duration \<Rightarrow> ('t, 'g) Sim \<Rightarrow> ('t, 'g) Sim option" where
  "Sim_set_link_latency a b v = on_world (world_pairs (\<lambda>x y. set_link_message_latency x y v) a b)"

definition Sim_set_link_max_message_latency ::
  "to_ip_addrs \<Rightarrow> to_ip_addrs \<Rightarrow> duration \<Rightarrow> ('t, 'g) Sim \<Rightarrow> ('t, 'g) Sim option" where
  "Sim_set_link_max_message_latency a b v = on_world (world_pairs (\<lambda>x y. set_link_max_message_latency x y v) a b)"

definition Sim_set_fail_rate :: "rat \<Rightarrow> ('t, 'g) Sim \<Rightarrow> ('t, 'g) Sim option" where
  "Sim_set_fail_rate v = on_world (on_topology (set_fail_rate v))"

definition Sim_set_link_fail_rate :: "to_ip_addrs \<Rightarrow> to_ip_addrs \<Rightarrow> rat \<Rightarrow> ('t, 'g) Sim \<Rightarrow> ('t, 'g) Sim option" where
  "Sim_set_link_fail_rate a b v = on_world (world_pairs (\<lambda>x y. set_link_fail_rate x y v) a b)"

section \<open>Stepping\<close>

text \<open>What a step does with one running host before its software runs.\<close>

definition enter_host :: "'g NetRng \<Rightarrow> IpAddr \<Rightarrow> nat \<Rightarrow> 'g World \<Rightarrow> 'g World option" where
  "enter_host net a now w = do {
     w1 \<leftarrow> deliver_to net a w;
     let w2 = w1\<lparr>w_current := Some a\<rparr>;
     h \<leftarrow> current_host w2;
     set_current_host (h\<lparr>host_timer := timer_now now (host_timer h)\<rparr>) w2
   }"

fun step_running ::
  "('t, 'g) Software \<Rightarrow> 'g NetRng \<Rightarrow> duration \<Rightarrow> IpAddr list \<Rightarrow> bool \<Rightarrow> ('t, 'g) Sim \<Rightarrow> ((StepError + bool) \<times> ('t, 'g) Sim) option" where
  "step_running sw net tick [] fin s = Some (Inr fin, s)"
| "step_running sw net tick (a # as) fin s = do {
     rt \<leftarrow> imap_get (sim_rts s) a;
     w1 \<leftarrow> enter_host net a (sw_now sw (rt_tokio rt)) (sim_world s);
     (r, rt1, w2) \<leftarrow> Rt_tick sw tick rt w1;
     let s1 = s\<lparr>sim_world := w2, sim_rts := imap_insert a rt1 (sim_rts s)\<rparr>;
     case r of
       Inl e \<Rightarrow> Some (Inl e, s1)
     | Inr finished \<Rightarrow> do {
         w3 \<leftarrow> world_tick a tick (w2\<lparr>w_current := None\<rparr>);
         step_running sw net tick as (if is_client rt1 then fin \<and> finished else fin) (s1\<lparr>sim_world := w3\<rparr>)
       }
   }"

fun step_stopped :: "duration \<Rightarrow> IpAddr list \<Rightarrow> ('t, 'g) Sim \<Rightarrow> ('t, 'g) Sim option" where
  "step_stopped tick [] s = Some s"
| "step_stopped tick (a # as) s = do { w \<leftarrow> world_tick a tick (sim_world s); step_stopped tick as (s\<lparr>sim_world := w\<rparr>) }"

definition nodes_where :: "('t Rt \<Rightarrow> bool) \<Rightarrow> ('t, 'g) Sim \<Rightarrow> IpAddr list" where
  "nodes_where P s = map fst (filter (\<lambda>(_, rt). P rt) (sim_rts s))"

definition tick_topology :: "duration \<Rightarrow> ('t, 'g) Sim \<Rightarrow> ('t, 'g) Sim" where
  "tick_topology tick s = s\<lparr>sim_world := (sim_world s)\<lparr>w_topology := tick_by tick (w_topology (sim_world s))\<rparr>\<rparr>"

definition ordered_nodes :: "('t, 'g) Software \<Rightarrow> ('t, 'g) Sim \<Rightarrow> IpAddr list \<times> ('t, 'g) Sim" where
  "ordered_nodes sw s =
     (let running = nodes_where is_software_running s
      in if cfg_random_node_order (sim_config s) then
           let (xs, g) = sw_shuffle sw running (w_rng (sim_world s))
           in (xs, s\<lparr>sim_world := (sim_world s)\<lparr>w_rng := g\<rparr>\<rparr>)
         else (running, s))"

definition finish_step :: "duration \<Rightarrow> bool \<Rightarrow> ('t, 'g) Sim \<Rightarrow> (StepError + bool) \<times> ('t, 'g) Sim" where
  "finish_step tick is_finished s =
     (let s1 = s\<lparr>sim_time := sim_time s + tick, sim_steps := sim_steps s + 1\<rparr>
      in (if cfg_duration (sim_config s1) < sim_time s1 \<and> \<not> is_finished
          then Inl (RanForDuration (cfg_duration (sim_config s1)) (sim_steps s1)) else Inr is_finished, s1))"

definition Sim_step ::
  "('t, 'g) Software \<Rightarrow> 'g NetRng \<Rightarrow> ('t, 'g) Sim \<Rightarrow> ((StepError + bool) \<times> ('t, 'g) Sim) option" where
  "Sim_step sw net s =
     (let tick = cfg_tick (sim_config s);
          s1 = tick_topology tick s;
          stopped = nodes_where (\<lambda>rt. \<not> is_software_running rt) s1;
          (order, s2) = ordered_nodes sw s1
      in do {
        (r, s3) \<leftarrow> step_running sw net tick order True s2;
        case r of
          Inl e \<Rightarrow> Some (Inl e, s3)
        | Inr is_finished \<Rightarrow> do { s4 \<leftarrow> step_stopped tick stopped s3; Some (finish_step tick is_finished s4) }
      })"

text \<open>The loop of \<^verbatim>\<open>run\<close> with a bound on its iterations; a panic is not a way to return.\<close>

datatype 's RunResult = Returned "StepError + unit" 's | Panicked | OutOfFuel

fun run_loop :: "('t, 'g) Software \<Rightarrow> 'g NetRng \<Rightarrow> nat \<Rightarrow> ('t, 'g) Sim \<Rightarrow> ('t, 'g) Sim RunResult" where
  "run_loop sw net 0 s = OutOfFuel"
| "run_loop sw net (Suc n) s =
     (case Sim_step sw net s of
        None \<Rightarrow> Panicked
      | Some (Inl e, s1) \<Rightarrow> Returned (Inl e) s1
      | Some (Inr True, s1) \<Rightarrow> Returned (Inr ()) s1
      | Some (Inr False, s1) \<Rightarrow> run_loop sw net n s1)"

definition Sim_run :: "('t, 'g) Software \<Rightarrow> 'g NetRng \<Rightarrow> nat \<Rightarrow> ('t, 'g) Sim \<Rightarrow> ('t, 'g) Sim RunResult" where
  "Sim_run sw net fuel s =
     (if \<not> list_ex (\<lambda>(_, rt). is_client rt) (sim_rts s) then Returned (Inr ()) s else run_loop sw net fuel s)"

end
