(* ===== verification/Sim_Time.thy ===== *)
theory Sim_Time
  imports Sim_Driver "HOL-Library.Multiset"
begin

text \<open>
  The driver's promises: the loop of \<^verbatim>\<open>run\<close> ends, it succeeds exactly when every client is
  done, and the clocks of all hosts, running or crashed, agree with the simulation's.
\<close>

section \<open>The loop ends\<close>

text \<open>One host's turn: the software runs between entering the host and ticking its clock.\<close>

lemma step_running_cons:
  assumes "step_running sw net tick (a # as) fin s = Some (r, s')"
  obtains (error) rt w1 e rt1 w2 where
    "imap_get (sim_rts s) a = Some rt" "enter_host net a (sw_now sw (rt_tokio rt)) (sim_world s) = Some w1"
    "Rt_tick sw tick rt w1 = Some (Inl e, rt1, w2)" "r = Inl e"
    "s' = s\<lparr>sim_world := w2, sim_rts := imap_insert a rt1 (sim_rts s)\<rparr>"
  | (ran) rt w1 finished rt1 w2 w3 where
    "imap_get (sim_rts s) a = Some rt" "enter_host net a (sw_now sw (rt_tokio rt)) (sim_world s) = Some w1"
    "Rt_tick sw tick rt w1 = Some (Inr finished, rt1, w2)" "world_tick a tick (w2\<lparr>w_current := None\<rparr>) = Some w3"
    "step_running sw net tick as (if is_client rt1 then fin \<and> finished else fin)
       (s\<lparr>sim_rts := imap_insert a rt1 (sim_rts s), sim_world := w3\<rparr>) = Some (r, s')"
proof -
  from assms obtain rt w1 q rt1 w2 where t:
    "imap_get (sim_rts s) a = Some rt" "enter_host net a (sw_now sw (rt_tokio rt)) (sim_world s) = Some w1"
    "Rt_tick sw tick rt w1 = Some (q, rt1, w2)"
    by (auto simp: bind_Some_iff)
  show thesis
  proof (cases q)
    case (Inl e)
    with assms t show thesis by (intro error [of rt w1 e rt1 w2]) auto
  next
    case (Inr finished)
    with assms t obtain w3 where "world_tick a tick (w2\<lparr>w_current := None\<rparr>) = Some w3"
      by (auto simp: bind_Some_iff Let_def)
    with assms t Inr show thesis by (intro ran [of rt w1 finished rt1 w2 w3]) (auto simp: Let_def)
  qed
qed

lemma step_running_frame:
  "step_running sw net tick as fin s = Some (r, s') \<Longrightarrow>
   sim_time s' = sim_time s \<and> sim_config s' = sim_config s \<and> sim_since_epoch s' = sim_since_epoch s"
proof (induction as arbitrary: fin s)
  case (Cons a as)
  from Cons.prems show ?case
  proof (cases rule: step_running_cons)
    case ran
    with Cons.IH [OF ran(5)] show ?thesis by simp
  qed simp
qed simp

text \<open>The running hosts' turns fail only with an error of the software.\<close>

definition software_error :: "('t, 'g) Software \<Rightarrow> StepError \<Rightarrow> bool" where
  "software_error sw e \<longleftrightarrow> (\<exists>x d t w t' w'. e = SoftwareError x \<and> sw_run sw d t w = Some (Joined_error x, t', w'))"

lemma Rt_tick_error: "Rt_tick sw d rt w = Some (Inl e, rt1, w1) \<Longrightarrow> software_error sw e"
  by (auto simp: Rt_tick_def software_error_def bind_Some_iff Let_def split: if_splits JoinState.splits) blast

lemma step_running_error:
  "step_running sw net tick as fin s = Some (Inl e, s') \<Longrightarrow> software_error sw e"
proof (induction as arbitrary: fin s)
  case (Cons a as)
  from Cons.prems show ?case
    by (cases rule: step_running_cons) (auto dest: Rt_tick_error Cons.IH)
qed simp

lemma step_error:
  assumes "Sim_step sw net s = Some (Inl (SoftwareError x), s')"
  shows "software_error sw (SoftwareError x)"
proof -
  obtain order s2 where o: "ordered_nodes sw (tick_topology (cfg_tick (sim_config s)) s) = (order, s2)" by (metis surj_pair)
  from assms o obtain r s3 where r: "step_running sw net (cfg_tick (sim_config s)) order True s2 = Some (r, s3)"
    by (auto simp: Sim_step_def Let_def bind_Some_iff)
  with assms o have "r = Inl (SoftwareError x)"
    by (cases r) (auto simp: Sim_step_def Let_def bind_Some_iff finish_step_def split: if_splits)
  with r show ?thesis using step_running_error by metis
qed

lemma step_stopped_frame:
  "step_stopped tick as s = Some s' \<Longrightarrow>
   sim_time s' = sim_time s \<and> sim_config s' = sim_config s \<and> sim_since_epoch s' = sim_since_epoch s \<and> sim_rts s' = sim_rts s"
proof (induction as arbitrary: s)
  case (Cons a as)
  then show ?case by (auto simp: bind_Some_iff)
qed simp

lemma nodes_where_world [simp]: "nodes_where P (s\<lparr>sim_world := w\<rparr>) = nodes_where P s"
  by (simp add: nodes_where_def)

lemma ordered_frame:
  "ordered_nodes sw s = (order, s') \<Longrightarrow> \<exists>g. s' = s\<lparr>sim_world := (sim_world s)\<lparr>w_rng := g\<rparr>\<rparr>"
  by (cases s, cases "sim_world s") (auto simp: ordered_nodes_def Let_def split: if_splits prod.splits intro: exI)

text \<open>A step that ends without an error of the software: which hosts ran, which were only ticked.\<close>

lemma step_ticked:
  assumes "Sim_step sw net s = Some (r, s')" "\<And>e. r \<noteq> Inl (SoftwareError e)"
  obtains fin order s2 s3 s4 where
    "ordered_nodes sw (tick_topology (cfg_tick (sim_config s)) s) = (order, s2)"
    "step_running sw net (cfg_tick (sim_config s)) order True s2 = Some (Inr fin, s3)"
    "step_stopped (cfg_tick (sim_config s)) (nodes_where (\<lambda>rt. \<not> is_software_running rt) s) s3 = Some s4"
    "(r, s') = finish_step (cfg_tick (sim_config s)) fin s4"
    "sim_time s4 = sim_time s" "sim_config s4 = sim_config s" "sim_since_epoch s4 = sim_since_epoch s"
proof -
  let ?t = "cfg_tick (sim_config s)"
  obtain order s2 where o: "ordered_nodes sw (tick_topology ?t s) = (order, s2)" by (metis surj_pair)
  from assms(1) o obtain r1 s3 where r1: "step_running sw net ?t order True s2 = Some (r1, s3)"
    by (auto simp: Sim_step_def Let_def bind_Some_iff)
  have s2: "sim_time s2 = sim_time s" "sim_config s2 = sim_config s" "sim_since_epoch s2 = sim_since_epoch s"
    using ordered_frame [OF o] by (auto simp: tick_topology_def)
  show thesis
  proof (cases r1)
    case (Inl e)
    with assms o r1 step_running_error [OF r1 [unfolded Inl]] show thesis by (auto simp: Sim_step_def Let_def software_error_def)
  next
    case (Inr fin)
    with assms(1) o r1 obtain s4 where
      s4: "step_stopped ?t (nodes_where (\<lambda>rt. \<not> is_software_running rt) s) s3 = Some s4" "(r, s') = finish_step ?t fin s4"
      by (auto simp: Sim_step_def Let_def bind_Some_iff tick_topology_def)
    from that [OF o r1 [unfolded Inr] s4] step_running_frame [OF r1] step_stopped_frame [OF s4(1)] s2 show thesis by simp
  qed
qed

lemma step_not_finished:
  assumes "Sim_step sw net s = Some (Inr False, s')"
  shows "sim_time s' = sim_time s + cfg_tick (sim_config s)" "sim_config s' = sim_config s"
    "sim_time s' \<le> cfg_duration (sim_config s)"
  using assms by (auto elim!: step_ticked simp: finish_step_def Let_def split: if_splits)

lemma run_loop_ends:
  assumes "0 < cfg_tick (sim_config s)" "cfg_duration (sim_config s) < sim_time s + n * cfg_tick (sim_config s)" "0 < n"
  shows "run_loop sw net n s \<noteq> OutOfFuel"
  using assms
proof (induction n arbitrary: s)
  case (Suc n)
  show ?case
  proof (cases "\<exists>s1. Sim_step sw net s = Some (Inr False, s1)")
    case True
    then obtain s1 where s1: "Sim_step sw net s = Some (Inr False, s1)" by blast
    note next_step = step_not_finished [OF s1]
    from next_step Suc.prems have "0 < n" by (cases n) auto
    with next_step Suc.IH [of s1] Suc.prems s1 show ?thesis by (simp add: algebra_simps)
  next
    case False
    then show ?thesis by (auto split: option.splits sum.splits bool.splits)
  qed
qed simp

text \<open>
  C30. The loop of \<^verbatim>\<open>run\<close> ends. Whatever the software does, with a positive tick the loop returns
  (or panics) within \<open>duration / tick + 1\<close> steps: every step that is not the last one advances the
  clock by a tick and leaves it within the configured duration.
\<close>

theorem run_terminates:
  assumes "0 < cfg_tick (sim_config s)"
  shows "Sim_run sw net (Suc (cfg_duration (sim_config s) div cfg_tick (sim_config s))) s \<noteq> OutOfFuel"
proof -
  let ?t = "cfg_tick (sim_config s)" and ?d = "cfg_duration (sim_config s)"
  have "?d < Suc (?d div ?t) * ?t" using assms by (simp add: dividend_less_div_times)
  then show ?thesis using run_loop_ends [OF assms, of "Suc (?d div ?t)"] by (simp add: Sim_run_def del: run_loop.simps)
qed

section \<open>What a step does to the runtimes\<close>

text \<open>The node order is drawn by a shuffle, which the random generator's library promises to be a permutation.\<close>

definition shuffles :: "('t, 'g) Software \<Rightarrow> bool" where
  "shuffles sw \<longleftrightarrow> (\<forall>xs g. mset (fst (sw_shuffle sw xs g)) = mset xs)"

lemma ordered_nodes_mset:
  assumes "shuffles sw" "ordered_nodes sw s = (order, s')"
  shows "mset order = mset (nodes_where is_software_running s)"
  using assms
  by (auto simp: ordered_nodes_def shuffles_def Let_def split: if_splits prod.splits)
    (metis fst_conv)

lemma nodes_where_set:
  assumes "imap_wf (sim_rts s)"
  shows "distinct (nodes_where P s)" "a \<in> set (nodes_where P s) \<longleftrightarrow> (\<exists>rt. imap_get (sim_rts s) a = Some rt \<and> P rt)"
proof -
  show "distinct (nodes_where P s)"
    using assms by (auto simp: nodes_where_def distinct_map intro: inj_on_subset)
  show "a \<in> set (nodes_where P s) \<longleftrightarrow> (\<exists>rt. imap_get (sim_rts s) a = Some rt \<and> P rt)"
    using assms by (force simp: nodes_where_def)
qed

lemma ordered_nodes_set:
  assumes "shuffles sw" "imap_wf (sim_rts s)" "ordered_nodes sw s = (order, s')"
  shows "distinct order" "a \<in> set order \<longleftrightarrow> (\<exists>rt. imap_get (sim_rts s) a = Some rt \<and> rt_handle rt)"
    "sim_rts s' = sim_rts s"
proof -
  note m = ordered_nodes_mset [OF assms(1,3)]
  show "distinct order" using m nodes_where_set(1) [OF assms(2)] by (metis mset_eq_imp_distinct_iff)
  show "a \<in> set order \<longleftrightarrow> (\<exists>rt. imap_get (sim_rts s) a = Some rt \<and> rt_handle rt)"
    using nodes_where_set(2) [OF assms(2)] mset_eq_setD [OF m] by (simp add: is_software_running_def)
  show "sim_rts s' = sim_rts s" using ordered_frame [OF assms(3)] by auto
qed

text \<open>A turn reports whether the software has finished, and keeps the kind of the runtime.\<close>

lemma Rt_tick_reports:
  assumes "Rt_tick sw d rt w = Some (Inr finished, rt1, w1)"
  shows "finished \<longleftrightarrow> \<not> rt_handle rt1" "is_client rt1 \<longleftrightarrow> is_client rt"
proof -
  from assms obtain st t w2 where run: "sw_run sw d (rt_tokio rt) w = Some (st, t, w2)"
    by (auto simp: Rt_tick_def bind_Some_iff)
  have "(finished \<longleftrightarrow> \<not> rt_handle rt1) \<and> rt_kind rt1 = rt_kind rt"
    using assms by (cases st; cases "rt_handle rt") (auto simp: Rt_tick_def run)
  then show "finished \<longleftrightarrow> \<not> rt_handle rt1" "is_client rt1 \<longleftrightarrow> is_client rt" by (auto simp: is_client_def)
qed

lemma step_running_rts:
  assumes "step_running sw net tick order fin s = Some (Inr fin', s')" "distinct order" "imap_wf (sim_rts s)"
  shows "imap_wf (sim_rts s') \<and> set (imap_keys (sim_rts s')) = set (imap_keys (sim_rts s)) \<and>
    (\<forall>a. a \<notin> set order \<longrightarrow> imap_get (sim_rts s') a = imap_get (sim_rts s) a) \<and>
    (fin' \<longleftrightarrow> fin \<and> (\<forall>a\<in>set order. \<forall>rt. imap_get (sim_rts s') a = Some rt \<longrightarrow> is_client rt \<longrightarrow> \<not> rt_handle rt))"
  using assms
proof (induction order arbitrary: fin s)
  case (Cons a order)
  from Cons.prems(1) show ?case
  proof (cases rule: step_running_cons)
    case (ran rt w1 finished rt1 w2 w3)
    let ?s = "s\<lparr>sim_rts := imap_insert a rt1 (sim_rts s), sim_world := w3\<rparr>"
    have dom: "a \<in> set (imap_keys (sim_rts s))" using ran(1) by (force dest: map_of_SomeD)
    have wf: "imap_wf (sim_rts ?s)" using Cons.prems(3) by (simp add: imap_wf_insert)
    note rest = Cons.IH [OF ran(5) _ wf]
    have "imap_get (sim_rts s') a = Some rt1"
      using rest Cons.prems(2) by (simp add: imap_simps del: map_of_eq_Some_iff)
    then show ?thesis
      using rest Cons.prems(2) dom Rt_tick_reports [OF ran(3)]
      by (auto simp: imap_simps dom_update simp del: map_of_eq_Some_iff split: if_splits)
  qed simp
qed simp

definition clients_done :: "('t, 'g) Sim \<Rightarrow> bool" where
  "clients_done s = list_all (\<lambda>(_, rt). is_client rt \<longrightarrow> \<not> is_software_running rt) (sim_rts s)"

lemma clients_done_get:
  assumes "imap_wf (sim_rts s)"
  shows "clients_done s \<longleftrightarrow> (\<forall>a rt. imap_get (sim_rts s) a = Some rt \<longrightarrow> is_client rt \<longrightarrow> \<not> rt_handle rt)"
  using assms by (fastforce simp: clients_done_def list_all_iff is_software_running_def)

text \<open>What a step that no software fails leaves: the runtimes of the same nodes, and the news about the clients.\<close>

lemma step_outcome:
  assumes "shuffles sw" "imap_wf (sim_rts s)" "Sim_step sw net s = Some (r, s')" "\<And>e. r \<noteq> Inl (SoftwareError e)"
  shows "imap_wf (sim_rts s')" "set (imap_keys (sim_rts s')) = set (imap_keys (sim_rts s))"
    "sim_config s' = sim_config s"
    "r = (if clients_done s' then Inr True
          else if cfg_duration (sim_config s) < sim_time s'
          then Inl (RanForDuration (cfg_duration (sim_config s)) (sim_steps s')) else Inr False)"
proof -
  from step_ticked [OF assms(3,4)] obtain fin order s2 s3 s4 where
    t: "ordered_nodes sw (tick_topology (cfg_tick (sim_config s)) s) = (order, s2)"
      "step_running sw net (cfg_tick (sim_config s)) order True s2 = Some (Inr fin, s3)"
      "step_stopped (cfg_tick (sim_config s)) (nodes_where (\<lambda>rt. \<not> is_software_running rt) s) s3 = Some s4"
      "(r, s') = finish_step (cfg_tick (sim_config s)) fin s4" "sim_config s4 = sim_config s" by metis
  have rts: "sim_rts (tick_topology (cfg_tick (sim_config s)) s) = sim_rts s" by (simp add: tick_topology_def)
  note o = ordered_nodes_set [OF assms(1) _ t(1), unfolded rts, OF assms(2)]
  note run = step_running_rts [OF t(2) o(1)] and stop = step_stopped_frame [OF t(3)]
  have s': "sim_rts s' = sim_rts s3" "sim_config s' = sim_config s"
    using t(4,5) stop by (auto simp: finish_step_def Let_def)
  show "imap_wf (sim_rts s')" "set (imap_keys (sim_rts s')) = set (imap_keys (sim_rts s))" "sim_config s' = sim_config s"
    using run s' o(3) assms(2) by auto
  have "fin \<longleftrightarrow> clients_done s'"
  proof -
    have "\<not> rt_handle rt" if "a \<notin> set order" "imap_get (sim_rts s') a = Some rt" for a rt
      using that run o s' assms(2) by (auto simp del: map_of_eq_Some_iff)
    then show ?thesis
      using run o(3) s' assms(2) by (subst clients_done_get) (auto simp del: map_of_eq_Some_iff)
  qed
  then show "r = (if clients_done s' then Inr True
          else if cfg_duration (sim_config s) < sim_time s'
          then Inl (RanForDuration (cfg_duration (sim_config s)) (sim_steps s')) else Inr False)"
    using t(4,5) by (auto simp: finish_step_def Let_def)
qed

text \<open>The report of a return, given the configuration the run started with.\<close>

definition report_ok :: "('t, 'g) Software \<Rightarrow> SimConfig \<Rightarrow> StepError + unit \<Rightarrow> ('t, 'g) Sim \<Rightarrow> bool" where
  "report_ok sw cfg r s = (case r of
      Inr _ \<Rightarrow> clients_done s
    | Inl (RanForDuration d n) \<Rightarrow> \<not> clients_done s \<and> d = cfg_duration cfg \<and> d < Sim_elapsed s \<and> n = sim_steps s
    | Inl (SoftwareError e) \<Rightarrow> software_error sw (SoftwareError e))"

lemma run_loop_report:
  assumes "shuffles sw"
  shows "imap_wf (sim_rts s) \<Longrightarrow> run_loop sw net fuel s = Returned r s' \<Longrightarrow> report_ok sw (sim_config s) r s'"
proof (induction fuel arbitrary: s)
  case (Suc n)
  from Suc.prems(2) obtain q s1 where q: "Sim_step sw net s = Some (q, s1)" by (auto split: option.splits)
  show ?case
  proof (cases "\<exists>e. q = Inl (SoftwareError e)")
    case True
    with Suc.prems(2) q step_error show ?thesis by (auto simp: report_ok_def)
  next
    case False
    then have out: "imap_wf (sim_rts s1)" "sim_config s1 = sim_config s"
      "q = (if clients_done s1 then Inr True else if cfg_duration (sim_config s) < sim_time s1
            then Inl (RanForDuration (cfg_duration (sim_config s)) (sim_steps s1)) else Inr False)"
      using step_outcome [OF assms Suc.prems(1) q] by auto
    with Suc.prems(2) q Suc.IH [OF out(1)] show ?thesis
      by (auto simp: report_ok_def Sim_elapsed_def split: if_splits)
  qed
qed simp

text \<open>
  C31. What \<^verbatim>\<open>run\<close> returns says how the simulation stands. When it returns \<^verbatim>\<open>Ok\<close> every client's software
  has finished; it reports that the duration is over only when some client has not finished and the
  simulation's clock is past the configured duration; any other error is one that some node's software
  returned.
\<close>

theorem run_outcome:
  assumes "shuffles sw" "imap_wf (sim_rts s)" "Sim_run sw net fuel s = Returned r s'"
  shows "case r of
      Inr _ \<Rightarrow> clients_done s'
    | Inl (RanForDuration d n) \<Rightarrow> \<not> clients_done s' \<and> d = cfg_duration (sim_config s) \<and> d < Sim_elapsed s' \<and> n = sim_steps s'
    | Inl (SoftwareError e) \<Rightarrow> \<exists>d t w t' w'. sw_run sw d t w = Some (Joined_error e, t', w')"
proof -
  have "report_ok sw (sim_config s) r s'"
  proof (cases "list_ex (\<lambda>(_, rt). is_client rt) (sim_rts s)")
    case True
    with assms run_loop_report show ?thesis by (simp add: Sim_run_def)
  next
    case False
    with assms(3) show ?thesis by (auto simp: Sim_run_def report_ok_def clients_done_def list_all_iff list_ex_iff)
  qed
  then show ?thesis by (auto simp: report_ok_def software_error_def split: sum.splits StepError.splits)
qed

section \<open>The clocks of the hosts\<close>

text \<open>What a host's timer says, without the time its runtime has moved since the last turn.\<close>

definition clock_at :: "'g World \<Rightarrow> IpAddr \<Rightarrow> (duration \<times> duration) option" where
  "clock_at w a = map_option (\<lambda>h. (ht_start_offset (host_timer h) + ht_elapsed (host_timer h), ht_since_epoch (host_timer h)))
     (imap_get (w_hosts w) a)"

definition advance :: "duration \<Rightarrow> duration \<times> duration \<Rightarrow> duration \<times> duration" where
  "advance d = (\<lambda>(t, e). (t + d, e))"

text \<open>The software reads its host's timer and never writes it: the timers are private to the simulation.\<close>

definition keeps_clocks :: "('t, 'g) Software \<Rightarrow> bool" where
  "keeps_clocks sw \<longleftrightarrow>
     (\<forall>d t w r t' w'. sw_run sw d t w = Some (r, t', w') \<longrightarrow> clock_at w' = clock_at w) \<and>
     (\<forall>t w t' w'. sw_cancel sw t w = Some (t', w') \<longrightarrow> clock_at w' = clock_at w) \<and>
     (\<forall>t w t' w'. sw_respawn sw t w = Some (t', w') \<longrightarrow> clock_at w' = clock_at w)"

lemma clock_at_hosts: "w_hosts w' = w_hosts w \<Longrightarrow> clock_at w' = clock_at w"
  by (simp add: clock_at_def fun_eq_iff)

lemma clock_at_insert:
  "clock_at (w\<lparr>w_hosts := imap_insert a h (w_hosts w)\<rparr>) =
     (clock_at w)(a \<mapsto> (ht_start_offset (host_timer h) + ht_elapsed (host_timer h), ht_since_epoch (host_timer h)))"
  by (simp add: clock_at_def fun_eq_iff imap_simps)

lemma receive_timer: "receive_from_network e h = Some (r, h') \<Longrightarrow> host_timer h' = host_timer h"
  by (auto simp: receive_from_network_def bind_Some_iff split: Protocol.splits)

lemma deliver_each_timer: "deliver_each rng cfg es h l g = Some (h', l', g') \<Longrightarrow> host_timer h' = host_timer h"
  by (induction es arbitrary: h l g) (auto simp: bind_Some_iff dest: receive_timer)

lemma deliver_links_timer: "deliver_links rng cfg ls h g = Some (ls', h', g') \<Longrightarrow> host_timer h' = host_timer h"
  by (induction ls arbitrary: h g ls')
    (auto simp: bind_Some_iff link_deliver_messages_def Let_def split: if_splits, (rule deliver_each_timer, assumption)+)

lemma enter_host_clock:
  assumes "enter_host net a now w = Some w'"
  shows "clock_at w' = clock_at w"
proof -
  from assms obtain h h1 t g where h: "imap_get (w_hosts w) a = Some h"
    and d: "top_deliver_messages net h (w_topology w) (w_rng w) = Some (h1, t, g)"
    and w': "w' = w\<lparr>w_hosts := imap_insert a (h1\<lparr>host_timer := timer_now now (host_timer h1)\<rparr>) (imap_insert a h1 (w_hosts w)),
      w_topology := t, w_current := Some a, w_rng := g\<rparr>"
    by (auto simp: enter_host_def deliver_to_def bind_Some_iff Let_def current_host_def set_current_host_def
      imap_simps simp del: map_of_eq_Some_iff)
  have "host_timer h1 = host_timer h"
    using d deliver_links_timer by (fastforce simp: top_deliver_messages_def bind_Some_iff)
  then show ?thesis
    by (simp add: w' clock_at_def fun_eq_iff imap_simps h timer_now_def del: map_of_eq_Some_iff)
qed

lemma world_tick_clock:
  assumes "world_tick a d w = Some w'"
  shows "clock_at w' = (clock_at w)(a := map_option (advance d) (clock_at w a))"
  using assms
  by (auto simp: world_tick_def bind_Some_iff clock_at_def fun_eq_iff imap_simps timer_tick_def advance_def
    simp del: map_of_eq_Some_iff)

lemma step_running_clock:
  assumes "keeps_clocks sw"
  shows "step_running sw net tick order fin s = Some (Inr fin', s') \<Longrightarrow> distinct order \<Longrightarrow>
    clock_at (sim_world s') = (\<lambda>a. if a \<in> set order then map_option (advance tick) (clock_at (sim_world s) a) else clock_at (sim_world s) a)"
proof (induction order arbitrary: fin s)
  case (Cons a order)
  from Cons.prems(1) show ?case
  proof (cases rule: step_running_cons)
    case (ran rt w1 finished rt1 w2 w3)
    have "clock_at w2 = clock_at w1"
      using assms ran(3) by (auto simp: keeps_clocks_def Rt_tick_def bind_Some_iff Let_def split: if_splits JoinState.splits)
    then have "clock_at (w2\<lparr>w_current := None\<rparr>) = clock_at (sim_world s)"
      using enter_host_clock [OF ran(2)] clock_at_hosts [of "w2\<lparr>w_current := None\<rparr>" w2] by simp
    with world_tick_clock [OF ran(4)] Cons.IH [OF ran(5)] Cons.prems(2) show ?thesis by (auto simp: fun_eq_iff)
  qed simp
qed simp

lemma step_stopped_clock:
  "step_stopped tick as s = Some s' \<Longrightarrow> distinct as \<Longrightarrow>
    clock_at (sim_world s') = (\<lambda>a. if a \<in> set as then map_option (advance tick) (clock_at (sim_world s) a) else clock_at (sim_world s) a)"
proof (induction as arbitrary: s)
  case (Cons a as)
  from Cons.prems(1) obtain w where w: "world_tick a tick (sim_world s) = Some w"
    "step_stopped tick as (s\<lparr>sim_world := w\<rparr>) = Some s'" by (auto simp: bind_Some_iff)
  with world_tick_clock [OF w(1)] Cons.IH [OF w(2)] Cons.prems(2) show ?case by (auto simp: fun_eq_iff)
qed simp

text \<open>The invariant: hosts are the nodes with a runtime, and every host's clock is the simulation's.\<close>

definition clocks_agree :: "('t, 'g) Sim \<Rightarrow> bool" where
  "clocks_agree s \<longleftrightarrow> imap_wf (sim_rts s) \<and>
     (\<forall>a. clock_at (sim_world s) a =
        (if a \<in> set (imap_keys (sim_rts s)) then Some (sim_time s, sim_since_epoch s) else None))"

lemma step_clocks:
  assumes "keeps_clocks sw" "shuffles sw" "clocks_agree s"
    and "Sim_step sw net s = Some (r, s')" "\<And>e. r \<noteq> Inl (SoftwareError e)"
  shows "clocks_agree s'"
proof -
  have wf: "imap_wf (sim_rts s)" using assms(3) by (simp add: clocks_agree_def)
  let ?d = "cfg_tick (sim_config s)" and ?stopped = "nodes_where (\<lambda>rt. \<not> is_software_running rt) s"
  from step_ticked [OF assms(4,5)] obtain fin order s2 s3 s4 where
    t: "ordered_nodes sw (tick_topology ?d s) = (order, s2)"
      "step_running sw net ?d order True s2 = Some (Inr fin, s3)"
      "step_stopped ?d ?stopped s3 = Some s4" "(r, s') = finish_step ?d fin s4"
      "sim_time s4 = sim_time s" "sim_since_epoch s4 = sim_since_epoch s" by metis
  have rts: "sim_rts (tick_topology ?d s) = sim_rts s" by (simp add: tick_topology_def)
  note o = ordered_nodes_set [OF assms(2) _ t(1), unfolded rts, OF wf]
  have s2: "clock_at (sim_world s2) = clock_at (sim_world s)"
    using ordered_frame [OF t(1)] by (auto intro!: clock_at_hosts simp: tick_topology_def)
  have s': "sim_world s' = sim_world s4" "sim_time s' = sim_time s + ?d" "sim_since_epoch s' = sim_since_epoch s"
    using t(4-6) by (auto simp: finish_step_def Let_def)
  have dom: "a \<in> set (imap_keys (sim_rts s)) \<longleftrightarrow> imap_get (sim_rts s) a \<noteq> None" for a by (simp add: map_of_eq_None_iff)
  have part: "a \<in> set (imap_keys (sim_rts s)) \<longleftrightarrow> a \<in> set order \<or> a \<in> set ?stopped"
    "\<not> (a \<in> set order \<and> a \<in> set ?stopped)" for a
    unfolding dom o(2) nodes_where_set(2) [OF wf] is_software_running_def by (cases "imap_get (sim_rts s) a"; simp)+
  have "clock_at (sim_world s') a =
      (if a \<in> set (imap_keys (sim_rts s)) then map_option (advance ?d) (clock_at (sim_world s) a) else clock_at (sim_world s) a)" for a
    using step_stopped_clock [OF t(3) nodes_where_set(1) [OF wf]] step_running_clock [OF assms(1) t(2) o(1)] part [of a]
    by (auto simp: s' s2)
  then show ?thesis
    using step_outcome(1,2) [OF assms(2) wf assms(4,5)] assms(3) by (auto simp: clocks_agree_def s' advance_def)
qed

text \<open>
  The calls of a test on its simulation, one step each: registering nodes, crashing and restarting hosts,
  changing links, and stepping, as long as no software fails (which ends the run).
\<close>

inductive driver_step :: "('t, 'g) Software \<Rightarrow> 'g NetRng \<Rightarrow> ('t, 'g) Sim \<Rightarrow> ('t, 'g) Sim \<Rightarrow> bool"
  for sw :: "('t, 'g) Software" and net :: "'g NetRng" where
  client: "Sim_client sw addr s = Some s' \<Longrightarrow> driver_step sw net s s'"
| host: "Sim_host sw addr s = Some s' \<Longrightarrow> driver_step sw net s s'"
| crash: "Sim_crash sw addrs s = Some s' \<Longrightarrow> driver_step sw net s s'"
| bounce: "Sim_bounce sw addrs s = Some s' \<Longrightarrow> driver_step sw net s s'"
| links: "on_world (change_many c as bs) s = Some s' \<Longrightarrow> driver_step sw net s s'"
| step: "Sim_step sw net s = Some (r, s') \<Longrightarrow> (\<And>e. r \<noteq> Inl (SoftwareError e)) \<Longrightarrow> driver_step sw net s s'"

lemma add_node_clocks:
  assumes "clocks_agree s" "add_node sw mk addr s = Some s'"
  shows "clocks_agree s'"
proof -
  obtain a s1 where l: "Sim_lookup addr s = (a, s1)" by (metis surj_pair)
  then have s1: "clock_at (sim_world s1) = clock_at (sim_world s)" "sim_time s1 = sim_time s"
      "sim_since_epoch s1 = sim_since_epoch s" "sim_rts s1 = sim_rts s"
    by (auto simp: Sim_lookup_def intro: clock_at_hosts split: prod.splits)
  let ?name = "node_name (sim_world s1) a" and ?timer = "HostTimer_new (sim_time s1) (sim_since_epoch s1)"
  from assms(2) l obtain w where
    r: "world_register a ?name ?timer (HostConfig.truncate (sim_config s1)) (sim_world s1) = Some w"
    by (auto simp: add_node_def bind_Some_iff Let_def)
  obtain seed g where seed: "sw_seed sw (w_rng w) = (seed, g)" by (metis surj_pair)
  from assms(2) l r seed
  have s': "s' = s1\<lparr>sim_rts := imap_insert a (mk ?name a seed) (sim_rts s1), sim_world := w\<lparr>w_rng := g\<rparr>\<rparr>"
    by (auto simp: add_node_def Let_def)
  from r obtain h where w: "w_hosts w = imap_insert a h (w_hosts (sim_world s1))" "host_timer h = ?timer"
    by (auto simp: world_register_def bind_Some_iff SimHost_new_def split: if_splits)
  have "clock_at (sim_world s') = (clock_at (sim_world s))(a \<mapsto> (sim_time s, sim_since_epoch s))"
    using w by (simp add: s' clock_at_def fun_eq_iff imap_simps HostTimer_new_def s1 flip: s1(1))
  then show ?thesis
    using assms(1) by (auto simp: clocks_agree_def s' s1 imap_wf_insert dom_update)
qed

lemma each_host_clocks:
  assumes "\<And>rt w rt' w'. f rt w = Some (rt', w') \<Longrightarrow> clock_at w' = clock_at w"
  shows "each_host f as s = Some s' \<Longrightarrow> clocks_agree s \<Longrightarrow> clocks_agree s'"
proof (induction as arbitrary: s)
  case (Cons a as)
  from Cons.prems(1) obtain rt rt1 w where f: "imap_get (sim_rts s) a = Some rt"
    "f rt ((sim_world s)\<lparr>w_current := Some a\<rparr>) = Some (rt1, w)"
    "each_host f as (s\<lparr>sim_world := w, sim_rts := imap_insert a rt1 (sim_rts s)\<rparr>) = Some s'"
    by (auto simp: bind_Some_iff)
  have "clock_at w = clock_at (sim_world s)"
    using assms [OF f(2)] clock_at_hosts [of "(sim_world s)\<lparr>w_current := Some a\<rparr>" "sim_world s"] by simp
  moreover have "a \<in> set (imap_keys (sim_rts s))" using f(1) by (force dest: map_of_SomeD)
  ultimately have "clocks_agree (s\<lparr>sim_world := w, sim_rts := imap_insert a rt1 (sim_rts s)\<rparr>)"
    using Cons.prems(2) by (auto simp: clocks_agree_def imap_wf_insert dom_update)
  with Cons.IH [OF f(3)] show ?case .
qed simp

lemma run_with_hosts_clocks:
  assumes "\<And>rt w rt' w'. f rt w = Some (rt', w') \<Longrightarrow> clock_at w' = clock_at w"
    and "run_with_hosts addrs f s = Some s'" "clocks_agree s"
  shows "clocks_agree s'"
proof -
  obtain as w where l: "world_lookup_many addrs (sim_world s) = (as, w)" by (metis surj_pair)
  with assms(2) obtain s1 where s1: "each_host f as (s\<lparr>sim_world := w\<rparr>) = Some s1"
    "s' = s1\<lparr>sim_world := (sim_world s1)\<lparr>w_current := None\<rparr>\<rparr>"
    by (auto simp: run_with_hosts_def bind_Some_iff)
  have "clock_at w = clock_at (sim_world s)"
    using l by (auto simp: world_lookup_many_def intro: clock_at_hosts split: prod.splits)
  with assms(3) have "clocks_agree (s\<lparr>sim_world := w\<rparr>)" by (simp add: clocks_agree_def)
  from each_host_clocks [OF assms(1) s1(1) this] show ?thesis
    using clock_at_hosts [of "(sim_world s1)\<lparr>w_current := None\<rparr>" "sim_world s1"] by (simp add: s1(2) clocks_agree_def)
qed

lemma software_clocks:
  assumes "keeps_clocks sw"
  shows "Rt_crash sw rt w = Some (rt', w') \<Longrightarrow> clock_at w' = clock_at w"
    and "Rt_bounce sw rt w = Some (rt', w') \<Longrightarrow> clock_at w' = clock_at w"
  using assms
  by (auto simp: Rt_crash_def Rt_bounce_def cancel_tasks_def keeps_clocks_def bind_Some_iff split: if_splits)

lemma for_pairs_hosts:
  assumes "\<And>a b w w'. f a b w = Some w' \<Longrightarrow> w_hosts w' = w_hosts w"
  shows "for_pairs as bs f w = Some w' \<Longrightarrow> w_hosts w' = w_hosts w"
proof (induction as arbitrary: w)
  case (Cons a as)
  have fold: "fold (\<lambda>b so. Option.bind so (\<lambda>s. if a \<noteq> b then f a b s else Some s)) bs (Some w) = Some w1 \<Longrightarrow> w_hosts w1 = w_hosts w"
    for w w1
  proof (induction bs arbitrary: w)
    case (Cons b bs)
    have none: "fold (\<lambda>b so. Option.bind so (\<lambda>s. if a \<noteq> b then f a b s else Some s)) bs None = None" for bs
      by (induction bs) auto
    from Cons.prems obtain w2 where "(if a \<noteq> b then f a b w else Some w) = Some w2"
      "fold (\<lambda>b so. Option.bind so (\<lambda>s. if a \<noteq> b then f a b s else Some s)) bs (Some w2) = Some w1"
      by (cases "if a \<noteq> b then f a b w else Some w") (auto simp: none)
    with Cons.IH assms show ?case by (auto split: if_splits)
  qed simp
  from Cons show ?case by (auto simp: bind_Some_iff dest!: fold)
qed simp

lemma change_many_hosts: "change_many c as bs w = Some w' \<Longrightarrow> w_hosts w' = w_hosts w"
  by (cases c) (auto simp: change_defs world_pairs_def world_lookup_many_def on_topology_def bind_Some_iff
    split: prod.splits dest!: for_pairs_hosts [rotated])

lemma new_clocks: "Sim_new cfg (World_new link g it d) = Some s \<Longrightarrow> clocks_agree s"
  by (auto simp: Sim_new_def clocks_agree_def clock_at_def World_new_def split: if_splits)

lemma driver_clocks:
  assumes "keeps_clocks sw" "shuffles sw" "driver_step sw net s s'" "clocks_agree s"
  shows "clocks_agree s'"
  using assms(3,4)
proof cases
  case (crash addrs)
  with assms(4) run_with_hosts_clocks [OF software_clocks(1) [OF assms(1)]] show ?thesis by (simp add: Sim_crash_def)
next
  case (bounce addrs)
  with assms(4) run_with_hosts_clocks [OF software_clocks(2) [OF assms(1)]] show ?thesis by (simp add: Sim_bounce_def)
next
  case (links c as bs)
  then obtain w where w: "change_many c as bs (sim_world s) = Some w" "s' = s\<lparr>sim_world := w\<rparr>"
    by (auto simp: on_world_def)
  from clock_at_hosts [OF change_many_hosts [OF w(1)]] assms(4) show ?thesis by (simp add: w(2) clocks_agree_def)
next
  case (step r)
  with step_clocks [OF assms(1,2,4)] show ?thesis by blast
qed (use assms(4) add_node_clocks in \<open>auto simp: Sim_client_def Sim_host_def\<close>)


section \<open>A simulation of one client and one host\<close>

text \<open>Software that finishes after a number of turns: two for the client, five for the host.\<close>

definition counting :: "(nat, nat) Software" where
  "counting = \<lparr>sw_client = (\<lambda>_ _. 2), sw_host = (\<lambda>_ _. 5), sw_now = id,
     sw_run = (\<lambda>d t w. Some (if t = 1 then Joined_ok else Running, t - 1, w)),
     sw_cancel = (\<lambda>t w. Some (0, w)), sw_respawn = (\<lambda>t w. Some (5, w)), sw_seed = (\<lambda>g. ([], g + 1)),
     sw_shuffle = (\<lambda>xs g. (rev xs, g + 1))\<rparr>"

definition demo_new :: "(nat, nat) Sim option" where
  "demo_new = Sim_new ((SimConfig_default 7)\<lparr>cfg_random_node_order := True\<rparr>) (World_new demo_links 0 (Iter4 1) 1)"

definition demo_nodes :: "(nat, nat) Sim option" where
  "demo_nodes = do { s0 \<leftarrow> demo_new; s1 \<leftarrow> Sim_client counting (\<lambda>d. (V4 1, d)) s0; Sim_host counting (\<lambda>d. (V4 2, d)) s1 }"

lemma counting_ok: "keeps_clocks counting" "shuffles counting"
  by (simp_all add: counting_def keeps_clocks_def shuffles_def)

lemmas driver_simps = demo_simps Let_def reverse_in_def demo_new_def demo_nodes_def counting_def SimConfig_default_def Sim_new_def Sim_client_def
  Sim_host_def add_node_def Sim_lookup_def node_name_def sim_reverse_def SimDns_new_def Rt_client_def Rt_host_def HostConfig.defs
  Sim_crash_def run_with_hosts_def Rt_crash_def is_host_def cancel_tasks_def Sim_step_def tick_topology_def ordered_nodes_def
  nodes_where_def is_software_running_def enter_host_def current_host_def set_current_host_def timer_now_def Rt_tick_def
  world_tick_def timer_tick_def finish_step_def is_client_def clients_done_def Sim_run_def

lemma demo_run:
  "case demo_nodes of None \<Rightarrow> False | Some s \<Rightarrow>
    (case Sim_run counting demo_rng 3 s of Returned (Inr _) s' \<Rightarrow> sim_time s' = 2000000 | _ \<Rightarrow> False)"
  by (simp add: driver_simps numeral_3_eq_3)

theorem run_terminates_witness:
  "case demo_nodes of None \<Rightarrow> False | Some s \<Rightarrow> 0 < cfg_tick (sim_config s) \<and>
     Sim_run counting demo_rng (Suc (cfg_duration (sim_config s) div cfg_tick (sim_config s))) s \<noteq> OutOfFuel"
proof -
  obtain s where s: "demo_nodes = Some s" "0 < cfg_tick (sim_config s)" by (simp add: driver_simps)
  show ?thesis unfolding s(1) using run_terminates [OF s(2), of counting demo_rng] s(2) by simp
qed

theorem run_outcome_witness:
  "\<exists>s s'. demo_nodes = Some s \<and> Sim_run counting demo_rng 3 s = Returned (Inr ()) s' \<and> sim_time s' = 2000000 \<and> clients_done s'"
proof -
  obtain s s' where s: "demo_nodes = Some s" "Sim_run counting demo_rng 3 s = Returned (Inr ()) s'" "sim_time s' = 2000000"
    using demo_run by (auto split: option.splits RunResult.splits sum.splits)
  have "case demo_nodes of None \<Rightarrow> False | Some s \<Rightarrow> imap_wf (sim_rts s)" by (simp add: driver_simps)
  then have "imap_wf (sim_rts s)" unfolding s(1) by simp
  with run_outcome [OF counting_ok(2) this s(2)] s show ?thesis by auto
qed

text \<open>The host runs for one step, crashes, and is stopped during the next: its clock still agrees.\<close>

lemma demo_crash:
  "\<exists>s0 s1 s2 s3 s4 s5. demo_new = Some s0 \<and> Sim_client counting (\<lambda>d. (V4 1, d)) s0 = Some s1 \<and>
     Sim_host counting (\<lambda>d. (V4 2, d)) s1 = Some s2 \<and> Sim_step counting demo_rng s2 = Some (Inr False, s3) \<and>
     Sim_crash counting (\<lambda>d. ([V4 2], d)) s3 = Some s4 \<and> Sim_step counting demo_rng s4 = Some (Inr True, s5) \<and>
     sim_time s5 = 2000000 \<and> imap_get (w_hosts (sim_world s5)) (V4 2) \<noteq> None"
  by (simp add: driver_simps)


end
