(* ===== verification/Fs_Config.thy ===== *)
theory Fs_Config
  imports Fs_Sync
begin

text \<open>
  The builder methods of \<^verbatim>\<open>FsConfig\<close>, \<^verbatim>\<open>IoLatency\<close> and \<^verbatim>\<open>PageCacheConfig\<close>
  (\<^verbatim>\<open>turmoil-fs/src/lib.rs\<close>), with their assertions, and the latency of an operation. A
  failed assertion panics and is \<open>None\<close>.
\<close>

section \<open>Builders\<close>

definition unit_interval :: "prob \<Rightarrow> bool" where
  "unit_interval v \<longleftrightarrow> 0 \<le> v \<and> v \<le> 1"

definition set_page_size :: "nat \<Rightarrow> PageCacheConfig \<Rightarrow> PageCacheConfig option" where
  "set_page_size n c = (if 0 < n then Some (c\<lparr>page_size := n\<rparr>) else None)"

definition set_max_pages :: "nat \<Rightarrow> PageCacheConfig \<Rightarrow> PageCacheConfig option" where
  "set_max_pages count c = Some (c\<lparr>max_pages := count\<rparr>)"

definition set_random_eviction_probability :: "prob \<Rightarrow> PageCacheConfig \<Rightarrow> PageCacheConfig option" where
  "set_random_eviction_probability pr c =
     (if unit_interval pr then Some (c\<lparr>random_eviction_probability := pr\<rparr>) else None)"

definition set_min_latency :: "duration \<Rightarrow> IoLatency \<Rightarrow> IoLatency option" where
  "set_min_latency v l = Some (l\<lparr>min_latency := v\<rparr>)"

definition set_max_latency :: "duration \<Rightarrow> IoLatency \<Rightarrow> IoLatency option" where
  "set_max_latency v l = Some (l\<lparr>max_latency := v\<rparr>)"

text \<open>Which rates \<^verbatim>\<open>Exp::new\<close> of the distribution crate accepts is a parameter.\<close>

definition set_distribution :: "(rat \<Rightarrow> bool) \<Rightarrow> rat \<Rightarrow> IoLatency \<Rightarrow> IoLatency option" where
  "set_distribution exp_new lambda l = (if exp_new lambda then Some (l\<lparr>distribution := lambda\<rparr>) else None)"

definition set_sync_probability :: "prob \<Rightarrow> FsConfig \<Rightarrow> FsConfig option" where
  "set_sync_probability v c = (if unit_interval v then Some (c\<lparr>cfg_sync_probability := v\<rparr>) else None)"

definition set_capacity :: "nat \<Rightarrow> FsConfig \<Rightarrow> FsConfig option" where
  "set_capacity bytes c = Some (c\<lparr>cfg_capacity := Some bytes\<rparr>)"

definition set_io_error_probability :: "prob \<Rightarrow> FsConfig \<Rightarrow> FsConfig option" where
  "set_io_error_probability v c =
     (if unit_interval v then Some (c\<lparr>cfg_io_error_probability := v\<rparr>) else None)"

definition set_corruption_probability :: "prob \<Rightarrow> FsConfig \<Rightarrow> FsConfig option" where
  "set_corruption_probability v c =
     (if unit_interval v then Some (c\<lparr>cfg_corruption_probability := v\<rparr>) else None)"

definition set_short_read_probability :: "prob \<Rightarrow> FsConfig \<Rightarrow> FsConfig option" where
  "set_short_read_probability v c =
     (if unit_interval v then Some (c\<lparr>cfg_short_read_probability := v\<rparr>) else None)"

definition set_noatime :: "bool \<Rightarrow> FsConfig \<Rightarrow> FsConfig option" where
  "set_noatime v c = (if \<not> v then None else Some (c\<lparr>cfg_noatime := v\<rparr>))"

text \<open>\<^verbatim>\<open>u64::is_power_of_two\<close>: one bit is set.\<close>

fun is_power_of_two :: "nat \<Rightarrow> bool" where
  "is_power_of_two n = (if n = 0 then False else if n = 1 then True else even n \<and> is_power_of_two (n div 2))"

declare is_power_of_two.simps [simp del]

definition set_direct_io_alignment :: "nat \<Rightarrow> FsConfig \<Rightarrow> FsConfig option" where
  "set_direct_io_alignment bytes c =
     (if 0 < bytes \<and> is_power_of_two bytes then Some (c\<lparr>cfg_direct_io_alignment := bytes\<rparr>) else None)"

definition set_block_size :: "nat \<Rightarrow> FsConfig \<Rightarrow> FsConfig option" where
  "set_block_size bytes c = (if 0 < bytes then Some (c\<lparr>cfg_block_size := Some bytes\<rparr>) else None)"

text \<open>
  \<^verbatim>\<open>io_latency()\<close> and \<^verbatim>\<open>page_cache()\<close> switch the simulation on with its default and lend
  the part to the caller, who may call its methods.
\<close>

definition with_io_latency :: "(IoLatency \<Rightarrow> IoLatency option) \<Rightarrow> FsConfig \<Rightarrow> FsConfig option" where
  "with_io_latency f c = do {
     l \<leftarrow> f (case cfg_io_latency c of None \<Rightarrow> IoLatency_default | Some l \<Rightarrow> l);
     Some (c\<lparr>cfg_io_latency := Some l\<rparr>)
   }"

definition with_page_cache :: "(PageCacheConfig \<Rightarrow> PageCacheConfig option) \<Rightarrow> FsConfig \<Rightarrow> FsConfig option" where
  "with_page_cache f c = do {
     p \<leftarrow> f (case cfg_page_cache c of None \<Rightarrow> PageCacheConfig_default | Some p \<Rightarrow> p);
     Some (c\<lparr>cfg_page_cache := Some p\<rparr>)
   }"

section \<open>The latency of an operation\<close>

text \<open>
  \<open>exp_draw\<close> is the sample of the distribution crate. \<^verbatim>\<open>Duration::mul_f64\<close> rounds to the
  nearest nanosecond; with rationals in place of floats that is the only rounding.
\<close>

definition mul_f64 :: "duration \<Rightarrow> rat \<Rightarrow> duration" where
  "mul_f64 d x = nat (round (of_nat d * x))"

definition calculate_latency ::
  "(rat \<Rightarrow> 'g \<Rightarrow> rat \<times> 'g) \<Rightarrow> bool \<Rightarrow> 'g FsState \<Rightarrow> duration \<times> 'g FsState" where
  "calculate_latency exp_draw cache_hit fs =
     (if cache_hit \<and> page_cache fs \<noteq> None then (100, fs)
      else
        (case io_latency fs of
           Some cfg \<Rightarrow>
             (let range = max_latency cfg - min_latency cfg;
                  (sample, g) = exp_draw (distribution cfg) (fs_rng fs)
              in (min_latency cfg + mul_f64 range (min sample 1), fs\<lparr>fs_rng := g\<rparr>))
         | None \<Rightarrow> (0, fs)))"

section \<open>The builder of a file system\<close>

text \<open>It forwards its settings to the configuration it holds; the corruption hook is user code.\<close>

record FsBuilder =
  fb_config :: FsConfig
  fb_seed :: "64 word"

definition FsBuilder_default :: FsBuilder where
  "FsBuilder_default = \<lparr>fb_config = FsConfig_default, fb_seed = 0\<rparr>"

definition fb_set_config :: "FsConfig \<Rightarrow> FsBuilder \<Rightarrow> FsBuilder" where
  "fb_set_config c b = b\<lparr>fb_config := c\<rparr>"

definition fb_set_seed :: "64 word \<Rightarrow> FsBuilder \<Rightarrow> FsBuilder" where
  "fb_set_seed v b = b\<lparr>fb_seed := v\<rparr>"

definition fb_on_config :: "(FsConfig \<Rightarrow> FsConfig option) \<Rightarrow> FsBuilder \<Rightarrow> FsBuilder option" where
  "fb_on_config f b = map_option (\<lambda>c. b\<lparr>fb_config := c\<rparr>) (f (fb_config b))"

definition fb_sync_probability :: "prob \<Rightarrow> FsBuilder \<Rightarrow> FsBuilder option" where
  "fb_sync_probability v = fb_on_config (set_sync_probability v)"

definition fb_capacity :: "nat \<Rightarrow> FsBuilder \<Rightarrow> FsBuilder option" where
  "fb_capacity n = fb_on_config (set_capacity n)"

definition fb_io_error_probability :: "prob \<Rightarrow> FsBuilder \<Rightarrow> FsBuilder option" where
  "fb_io_error_probability v = fb_on_config (set_io_error_probability v)"

definition fb_corruption_probability :: "prob \<Rightarrow> FsBuilder \<Rightarrow> FsBuilder option" where
  "fb_corruption_probability v = fb_on_config (set_corruption_probability v)"

definition fb_short_read_probability :: "prob \<Rightarrow> FsBuilder \<Rightarrow> FsBuilder option" where
  "fb_short_read_probability v = fb_on_config (set_short_read_probability v)"

definition fb_direct_io_alignment :: "nat \<Rightarrow> FsBuilder \<Rightarrow> FsBuilder option" where
  "fb_direct_io_alignment n = fb_on_config (set_direct_io_alignment n)"

definition fb_block_size :: "nat \<Rightarrow> FsBuilder \<Rightarrow> FsBuilder option" where
  "fb_block_size n = fb_on_config (set_block_size n)"

definition FsBuilder_build :: "(64 word \<Rightarrow> 'g) \<Rightarrow> FsBuilder \<Rightarrow> 'g FsState" where
  "FsBuilder_build seed_from_u64 b = FsState_new (fb_config b) (seed_from_u64 (fb_seed b))"

section \<open>What a configuration may hold\<close>

datatype ConfigCall =
    B_sync_probability prob | B_capacity nat | B_io_error_probability prob | B_corruption_probability prob
  | B_short_read_probability prob | B_noatime bool | B_direct_io_alignment nat | B_block_size nat
  | B_io_latency | B_min_latency duration | B_max_latency duration | B_distribution rat
  | B_page_cache | B_page_size nat | B_max_pages nat | B_random_eviction_probability prob

fun build_call :: "(rat \<Rightarrow> bool) \<Rightarrow> ConfigCall \<Rightarrow> FsConfig \<Rightarrow> FsConfig option" where
  "build_call exp_new (B_sync_probability v) c = set_sync_probability v c"
| "build_call exp_new (B_capacity n) c = set_capacity n c"
| "build_call exp_new (B_io_error_probability v) c = set_io_error_probability v c"
| "build_call exp_new (B_corruption_probability v) c = set_corruption_probability v c"
| "build_call exp_new (B_short_read_probability v) c = set_short_read_probability v c"
| "build_call exp_new (B_noatime b) c = set_noatime b c"
| "build_call exp_new (B_direct_io_alignment n) c = set_direct_io_alignment n c"
| "build_call exp_new (B_block_size n) c = set_block_size n c"
| "build_call exp_new B_io_latency c = with_io_latency Some c"
| "build_call exp_new (B_min_latency v) c = with_io_latency (set_min_latency v) c"
| "build_call exp_new (B_max_latency v) c = with_io_latency (set_max_latency v) c"
| "build_call exp_new (B_distribution v) c = with_io_latency (set_distribution exp_new v) c"
| "build_call exp_new B_page_cache c = with_page_cache Some c"
| "build_call exp_new (B_page_size n) c = with_page_cache (set_page_size n) c"
| "build_call exp_new (B_max_pages n) c = with_page_cache (set_max_pages n) c"
| "build_call exp_new (B_random_eviction_probability v) c = with_page_cache (set_random_eviction_probability v) c"

fun build_all :: "(rat \<Rightarrow> bool) \<Rightarrow> ConfigCall list \<Rightarrow> FsConfig \<Rightarrow> FsConfig option" where
  "build_all exp_new [] c = Some c"
| "build_all exp_new (b # bs) c = Option.bind (build_call exp_new b c) (build_all exp_new bs)"

definition cache_config_ok :: "PageCacheConfig \<Rightarrow> bool" where
  "cache_config_ok p \<longleftrightarrow> 0 < page_size p \<and> unit_interval (random_eviction_probability p)"

definition config_ok :: "FsConfig \<Rightarrow> bool" where
  "config_ok c \<longleftrightarrow>
     unit_interval (cfg_sync_probability c) \<and> unit_interval (cfg_io_error_probability c) \<and>
     unit_interval (cfg_corruption_probability c) \<and> unit_interval (cfg_short_read_probability c) \<and>
     cfg_noatime c \<and> is_power_of_two (cfg_direct_io_alignment c) \<and>
     pred_option (\<lambda>n. 0 < n) (cfg_block_size c) \<and> pred_option cache_config_ok (cfg_page_cache c)"

lemma config_ok_default: "config_ok FsConfig_default"
  by (simp add: config_ok_def FsConfig_default_def unit_interval_def is_power_of_two.simps)

lemma config_ok_call: "\<lbrakk>config_ok c; build_call exp_new b c = Some c'\<rbrakk> \<Longrightarrow> config_ok c'"
proof -
  assume ok: "config_ok c" and call: "build_call exp_new b c = Some c'"
  have cache: "cache_config_ok (case cfg_page_cache c of None \<Rightarrow> PageCacheConfig_default | Some p \<Rightarrow> p)"
    using ok by (auto simp: config_ok_def cache_config_ok_def PageCacheConfig_default_def unit_interval_def
        split: option.split)
  show ?thesis
  proof (cases b)
    case (B_page_size n)
    with ok call cache show ?thesis
      by (auto simp: with_page_cache_def set_page_size_def config_ok_def cache_config_ok_def split: if_splits)
  next
    case (B_max_pages n)
    with ok call cache show ?thesis
      by (auto simp: with_page_cache_def set_max_pages_def config_ok_def cache_config_ok_def)
  next
    case (B_random_eviction_probability v)
    with ok call cache show ?thesis
      by (auto simp: with_page_cache_def set_random_eviction_probability_def config_ok_def cache_config_ok_def split: if_splits)
  next
    case B_page_cache
    with ok call cache show ?thesis by (auto simp: with_page_cache_def config_ok_def)
  qed (use ok call in \<open>auto simp: set_sync_probability_def set_capacity_def set_io_error_probability_def
      set_corruption_probability_def set_short_read_probability_def set_noatime_def set_direct_io_alignment_def
      set_block_size_def with_io_latency_def bind_Some_iff config_ok_def split: if_splits\<close>)
qed

lemma power_of_two_pos: "is_power_of_two n \<Longrightarrow> 0 < n"
  by (cases n) (simp_all add: is_power_of_two.simps)

text \<open>
  C27. A configuration that is built with the builder methods, in any order and any number of
  calls none of which panics, is well formed, and so is the file system made from it: every
  probability is in the unit interval, the direct I/O alignment is a positive power of two (so
  the alignment checks divide by no zero), a block size and a cache page size are positive (so
  torn writes and page numbers are defined), and access times are not tracked.
\<close>

theorem built_configs_are_well_formed:
  assumes "build_all exp_new calls FsConfig_default = Some c"
  shows "config_ok c \<and>
    (let fs = FsState_new c seed
     in 0 \<le> sync_probability fs \<and> sync_probability fs \<le> 1 \<and>
        0 \<le> io_error_probability fs \<and> io_error_probability fs \<le> 1 \<and>
        0 \<le> corruption_probability fs \<and> corruption_probability fs \<le> 1 \<and>
        0 \<le> short_read_probability fs \<and> short_read_probability fs \<le> 1 \<and>
        is_power_of_two (direct_io_alignment fs) \<and> 0 < direct_io_alignment fs \<and>
        block_size fs \<noteq> Some 0 \<and>
        (\<forall>p. page_cache fs = Some p \<longrightarrow> 0 < page_size (pc_config p)))"
proof -
  have "config_ok c0 \<Longrightarrow> build_all exp_new calls c0 = Some c \<Longrightarrow> config_ok c" for c0
    by (induction calls arbitrary: c0) (auto simp: bind_Some_iff intro: config_ok_call)
  from this [OF config_ok_default assms] show ?thesis
    by (auto simp: config_ok_def unit_interval_def cache_config_ok_def FsState_new_def PageCache_new_def Let_def
        dest: power_of_two_pos split: option.splits)
qed

theorem built_configs_are_well_formed_witness:
  "let calls = [B_direct_io_alignment 8, B_page_size 16, B_max_latency 100, B_sync_probability (1 / 2), B_block_size 4];
       c = the (build_all (\<lambda>l. 0 < l) calls FsConfig_default)
   in build_all (\<lambda>l. 0 < l) calls FsConfig_default = Some c \<and> config_ok c \<and> 0 < direct_io_alignment (FsState_new c ())"
proof -
  let ?calls = "[B_direct_io_alignment 8, B_page_size 16, B_max_latency 100, B_sync_probability (1 / 2), B_block_size 4]"
  obtain c where c: "build_all (\<lambda>l. 0 < l) ?calls FsConfig_default = Some c"
    by (simp add: set_direct_io_alignment_def is_power_of_two.simps with_page_cache_def set_page_size_def
        with_io_latency_def set_max_latency_def set_sync_probability_def unit_interval_def set_block_size_def)
  from built_configs_are_well_formed [OF c, of "()"] c show ?thesis by (simp add: Let_def)
qed

section \<open>The range of a latency\<close>

lemma mul_f64_le: "\<lbrakk>0 \<le> x; x \<le> 1\<rbrakk> \<Longrightarrow> mul_f64 d x \<le> d"
proof -
  assume "0 \<le> x" "x \<le> 1"
  then have "of_nat d * x \<le> (of_nat d :: rat)" by (simp add: mult_left_le)
  then have "round (of_nat d * x) \<le> round (of_nat d :: rat)" by (rule round_mono)
  then show ?thesis by (simp add: mul_f64_def nat_le_iff)
qed

lemma latency_bounds:
  assumes "io_latency fs = Some cfg" "min_latency cfg \<le> max_latency cfg"
    "\<And>l g. 0 \<le> fst (draw l g)" "\<not> hit"
  shows "min_latency cfg \<le> fst (calculate_latency draw hit fs)" "fst (calculate_latency draw hit fs) \<le> max_latency cfg"
proof -
  let ?x = "min (fst (draw (distribution cfg) (fs_rng fs))) 1"
  have "mul_f64 (max_latency cfg - min_latency cfg) ?x \<le> max_latency cfg - min_latency cfg"
    using assms(3) by (intro mul_f64_le) auto
  with assms show "min_latency cfg \<le> fst (calculate_latency draw hit fs)" "fst (calculate_latency draw hit fs) \<le> max_latency cfg"
    by (auto simp: calculate_latency_def Let_def split: prod.split)
qed

end
