(* ===== verification/Ring_Queue.thy ===== *)
theory Ring_Queue
  imports Fs_Config "HOL-Library.Multiset"
begin

text \<open>
  \<^verbatim>\<open>turmoil-io-uring\<close>: submission entries and their builders (\<^verbatim>\<open>opcode.rs\<close>,
  \<^verbatim>\<open>squeue.rs\<close>, \<^verbatim>\<open>types.rs\<close>) and the state of one ring (\<^verbatim>\<open>RingState\<close> of
  \<^verbatim>\<open>sim.rs\<close>): scheduling, cancelling, and the promotion of matured entries. The locale
  \<open>completion_bag\<close> is what the completion queue relies on: a ring is a multiset of scheduled
  completions from which due ones are taken, each once.

  Addresses, lengths and file offsets are naturals; the tags \<^verbatim>\<open>user_data\<close> and the flag bits
  keep their width.
\<close>

type_synonym u64 = "64 word"

section \<open>Submission entries\<close>

datatype OpKind =
    OpRead RawFd nat nat nat
  | OpWrite RawFd nat nat nat
  | OpFsync RawFd
  | OpAsyncCancel u64

type_synonym Flags = u8

definition FIXED_FILE :: Flags where "FIXED_FILE = push_bit 0 1"
definition IO_DRAIN :: Flags where "IO_DRAIN = push_bit 1 1"
definition IO_LINK :: Flags where "IO_LINK = push_bit 2 1"
definition IO_HARDLINK :: Flags where "IO_HARDLINK = push_bit 3 1"
definition ASYNC :: Flags where "ASYNC = push_bit 4 1"
definition BUFFER_SELECT :: Flags where "BUFFER_SELECT = push_bit 5 1"

definition Flags_empty :: Flags where "Flags_empty = 0"

definition Flags_bitor :: "Flags \<Rightarrow> Flags \<Rightarrow> Flags" where
  "Flags_bitor a b = or a b"

definition REJECTED :: Flags where
  "REJECTED = or (or (or (or FIXED_FILE IO_DRAIN) IO_LINK) IO_HARDLINK) BUFFER_SELECT"

definition has_unsupported :: "Flags \<Rightarrow> bool" where
  "has_unsupported f \<longleftrightarrow> and f REJECTED \<noteq> 0"

record Sqe =
  sqe_op :: OpKind
  sqe_user_data :: u64
  sqe_flags :: Flags

definition Sqe_user_data :: "u64 \<Rightarrow> Sqe \<Rightarrow> Sqe" where
  "Sqe_user_data ud e = e\<lparr>sqe_user_data := ud\<rparr>"

definition Sqe_flags :: "Flags \<Rightarrow> Sqe \<Rightarrow> Sqe" where
  "Sqe_flags f e = e\<lparr>sqe_flags := f\<rparr>"

text \<open>The builders of \<^verbatim>\<open>opcode.rs\<close>. Read and write start at offset 0.\<close>

record Transfer =
  tr_fd :: RawFd
  tr_ptr :: nat
  tr_len :: nat
  tr_offset :: nat

definition Read_new :: "RawFd \<Rightarrow> nat \<Rightarrow> nat \<Rightarrow> Transfer" where
  "Read_new f ptr len = \<lparr>tr_fd = f, tr_ptr = ptr, tr_len = len, tr_offset = 0\<rparr>"

definition Read_offset :: "nat \<Rightarrow> Transfer \<Rightarrow> Transfer" where
  "Read_offset off t = t\<lparr>tr_offset := off\<rparr>"

definition Read_build :: "Transfer \<Rightarrow> Sqe" where
  "Read_build t = \<lparr>sqe_op = OpRead (tr_fd t) (tr_ptr t) (tr_len t) (tr_offset t),
     sqe_user_data = 0, sqe_flags = Flags_empty\<rparr>"

definition Write_new :: "RawFd \<Rightarrow> nat \<Rightarrow> nat \<Rightarrow> Transfer" where
  "Write_new f ptr len = \<lparr>tr_fd = f, tr_ptr = ptr, tr_len = len, tr_offset = 0\<rparr>"

definition Write_offset :: "nat \<Rightarrow> Transfer \<Rightarrow> Transfer" where
  "Write_offset off t = t\<lparr>tr_offset := off\<rparr>"

definition Write_build :: "Transfer \<Rightarrow> Sqe" where
  "Write_build t = \<lparr>sqe_op = OpWrite (tr_fd t) (tr_ptr t) (tr_len t) (tr_offset t),
     sqe_user_data = 0, sqe_flags = Flags_empty\<rparr>"

definition Fsync_build :: "RawFd \<Rightarrow> Sqe" where
  "Fsync_build f = \<lparr>sqe_op = OpFsync f, sqe_user_data = 0, sqe_flags = Flags_empty\<rparr>"

definition AsyncCancel_build :: "u64 \<Rightarrow> Sqe" where
  "AsyncCancel_build target = \<lparr>sqe_op = OpAsyncCancel target, sqe_user_data = 0, sqe_flags = Flags_empty\<rparr>"

section \<open>Vectors\<close>

text \<open>\<^verbatim>\<open>Iterator::position\<close>, \<^verbatim>\<open>Vec::swap_remove\<close> and \<^verbatim>\<open>VecDeque::remove\<close>.\<close>

fun position :: "('a \<Rightarrow> bool) \<Rightarrow> 'a list \<Rightarrow> nat option" where
  "position P [] = None"
| "position P (x # xs) = (if P x then Some 0 else map_option Suc (position P xs))"

definition swap_remove :: "nat \<Rightarrow> 'a list \<Rightarrow> 'a list" where
  "swap_remove i xs = butlast (xs[i := last xs])"

definition remove_at :: "nat \<Rightarrow> 'a list \<Rightarrow> 'a list" where
  "remove_at i xs = take i xs @ drop (Suc i) xs"

lemma position_Some:
  "position P xs = Some i \<Longrightarrow> i < length xs \<and> P (xs ! i) \<and> (\<forall>j < i. \<not> P (xs ! j))"
  by (induction xs arbitrary: i) (auto simp: less_Suc_eq_0_disj split: if_splits)

lemma position_None: "position P xs = None \<longleftrightarrow> (\<forall>x \<in> set xs. \<not> P x)"
  by (induction xs) auto

lemma swap_remove_split: "swap_remove (length xs) (xs @ y # ys) = xs @ (if ys = [] then [] else last ys # butlast ys)"
  by (cases ys rule: rev_cases) (auto simp: swap_remove_def butlast_append)

lemma mset_swap_remove: "i < length xs \<Longrightarrow> mset (swap_remove i xs) = mset xs - {#xs ! i#}"
proof -
  assume "i < length xs"
  then have split: "xs = take i xs @ xs ! i # drop (Suc i) xs" and len: "length (take i xs) = i"
    by (simp_all add: id_take_nth_drop)
  have rot: "ys \<noteq> [] \<Longrightarrow> mset (last ys # butlast ys) = mset ys" for ys :: "'a list"
    by (cases ys rule: rev_cases) auto
  have "swap_remove i xs = take i xs @ (let ys = drop (Suc i) xs in if ys = [] then [] else last ys # butlast ys)"
    using swap_remove_split [of "take i xs" "xs ! i" "drop (Suc i) xs"] split len by (simp add: Let_def)
  moreover have "mset xs = mset (take i xs @ xs ! i # drop (Suc i) xs)" using split by metis
  ultimately show ?thesis using rot [of "drop (Suc i) xs"] by (auto simp: Let_def)
qed

lemma length_swap_remove [simp]: "length (swap_remove i xs) = length xs - 1"
  by (simp add: swap_remove_def)

lemma mset_remove_at: "i < length xs \<Longrightarrow> mset (remove_at i xs) = mset xs - {#xs ! i#}"
proof -
  assume "i < length xs"
  then have "mset xs = mset (take i xs @ xs ! i # drop (Suc i) xs)"
    by (simp add: id_take_nth_drop [symmetric])
  then show ?thesis by (simp add: remove_at_def)
qed

section \<open>The state of a ring\<close>

datatype PendingApply =
    ApplyRead RawFd nat nat nat
  | ApplyWrite RawFd nat nat nat
  | ApplyFsync RawFd
  | ImmediateError int

record ScheduledCqe =
  cqe_when :: duration
  cqe_user_data :: u64
  cqe_apply :: PendingApply

text \<open>
  \<^verbatim>\<open>cq_notify\<close> is a shared \<^verbatim>\<open>tokio::sync::Notify\<close> on which only \<^verbatim>\<open>notify_waiters\<close> is
  called. A waiter that is registered when it is called is woken; the state keeps how often it
  has been called, and a waiter remembers the number it registered at.
\<close>

record RingState =
  depth :: nat
  sq :: "Sqe list"
  inflight :: "ScheduledCqe list"
  ready :: "ScheduledCqe list"
  cq_notify :: nat

definition RingState_new :: "nat \<Rightarrow> RingState" where
  "RingState_new d = \<lparr>depth = d, sq = [], inflight = [], ready = [], cq_notify = 0\<rparr>"

definition notify_waiters :: "RingState \<Rightarrow> RingState" where
  "notify_waiters r = r\<lparr>cq_notify := cq_notify r + 1\<rparr>"

definition ring_schedule :: "u64 \<Rightarrow> duration \<Rightarrow> PendingApply \<Rightarrow> RingState \<Rightarrow> RingState" where
  "ring_schedule ud w apply r =
     notify_waiters (r\<lparr>inflight := inflight r @ [\<lparr>cqe_when = w, cqe_user_data = ud, cqe_apply = apply\<rparr>]\<rparr>)"

definition post_immediate_error :: "u64 \<Rightarrow> int \<Rightarrow> duration \<Rightarrow> RingState \<Rightarrow> RingState" where
  "post_immediate_error ud errno now r =
     notify_waiters (r\<lparr>inflight := inflight r @
       [\<lparr>cqe_when = now, cqe_user_data = ud, cqe_apply = ImmediateError errno\<rparr>]\<rparr>)"

definition EBADF :: int where "EBADF = 9"
definition EIO :: int where "EIO = 5"
definition ECANCELED :: int where "ECANCELED = 125"
definition RING_ENOENT :: int where "RING_ENOENT = 2"
definition ENOSPC :: int where "ENOSPC = 28"
definition EINVAL :: int where "EINVAL = 22"

text \<open>The entry to cancel is dropped from either pool; the second component says whether there was one.\<close>

definition drop_target :: "u64 \<Rightarrow> RingState \<Rightarrow> RingState \<times> bool" where
  "drop_target target r =
     (case position (\<lambda>s. cqe_user_data s = target) (inflight r) of
        Some i \<Rightarrow> (r\<lparr>inflight := swap_remove i (inflight r)\<rparr>, True)
      | None \<Rightarrow>
          (case position (\<lambda>s. cqe_user_data s = target) (ready r) of
             Some i \<Rightarrow> (r\<lparr>ready := remove_at i (ready r)\<rparr>, True)
           | None \<Rightarrow> (r, False)))"

definition ring_cancel :: "u64 \<Rightarrow> u64 \<Rightarrow> duration \<Rightarrow> RingState \<Rightarrow> RingState" where
  "ring_cancel cancel_ud target_ud now r =
     (let (r1, found) = drop_target target_ud r;
          r2 = (if found then
                  r1\<lparr>inflight := inflight r1 @ [\<lparr>cqe_when = now, cqe_user_data = target_ud,
                       cqe_apply = ImmediateError (- ECANCELED)\<rparr>]\<rparr>
                else r1);
          cancel_result = (if found then 0 else - RING_ENOENT)
      in notify_waiters (r2\<lparr>inflight := inflight r2 @ [\<lparr>cqe_when = now, cqe_user_data = cancel_ud,
           cqe_apply = ImmediateError cancel_result\<rparr>]\<rparr>))"

definition next_deadline :: "RingState \<Rightarrow> duration option" where
  "next_deadline r =
     (if ready r \<noteq> [] then Some 0
      else if inflight r = [] then None
      else Some (Min (set (map cqe_when (inflight r)))))"

definition ready_cq_count :: "duration \<Rightarrow> RingState \<Rightarrow> nat" where
  "ready_cq_count now r = length (ready r) + length (filter (\<lambda>s. cqe_when s \<le> now) (inflight r))"

text \<open>The loop of \<^verbatim>\<open>promote_ready\<close>: index \<open>i\<close>, the entries in flight, the matured ones so far.\<close>

function promote_loop ::
  "duration \<Rightarrow> nat \<Rightarrow> ScheduledCqe list \<Rightarrow> ScheduledCqe list \<Rightarrow> ScheduledCqe list \<times> ScheduledCqe list" where
  "promote_loop now i fl matured =
     (if i < length fl then
        (if cqe_when (fl ! i) \<le> now then promote_loop now i (swap_remove i fl) (matured @ [fl ! i])
         else promote_loop now (i + 1) fl matured)
      else (fl, matured))"
  by pat_completeness auto
termination by (relation "measure (\<lambda>(now, i, fl, m). length fl - i)") auto

declare promote_loop.simps [simp del]

text \<open>
  The generator, a parameter: two raw words, the shuffle of a slice, the biased coin of the
  page cache and the sample of the latency distribution.
\<close>

record 'g RingRng =
  next_u64 :: "'g \<Rightarrow> u64 \<times> 'g"
  next_u32 :: "'g \<Rightarrow> u32 \<times> 'g"
  shuffle :: "ScheduledCqe list \<Rightarrow> 'g \<Rightarrow> ScheduledCqe list \<times> 'g"
  cache_coin :: "prob \<Rightarrow> 'g \<Rightarrow> bool \<times> 'g"
  exp_draw :: "rat \<Rightarrow> 'g \<Rightarrow> rat \<times> 'g"

definition promote_ready :: "'g RingRng \<Rightarrow> duration \<Rightarrow> RingState \<Rightarrow> 'g \<Rightarrow> RingState \<times> 'g" where
  "promote_ready rng now r g =
     (let (fl, matured) = promote_loop now 0 (inflight r) [];
          r1 = r\<lparr>inflight := fl\<rparr>
      in if matured = [] then (r1, g)
         else let (shuffled, g1) = shuffle rng matured g in (r1\<lparr>ready := ready r @ shuffled\<rparr>, g1))"

definition pop_ready ::
  "'g RingRng \<Rightarrow> duration \<Rightarrow> RingState \<Rightarrow> 'g \<Rightarrow> ScheduledCqe option \<times> RingState \<times> 'g" where
  "pop_ready rng now r g =
     (let (r1, g1) = promote_ready rng now r g
      in case ready r1 of
           [] \<Rightarrow> (None, r1, g1)
         | s # rest \<Rightarrow> (Some s, r1\<lparr>ready := rest\<rparr>, g1))"

end
