(* ===== verification/Ring_Host.thy ===== *)
theory Ring_Host
  imports Ring_Queue Fs_Shim
begin

text \<open>
  \<^verbatim>\<open>turmoil-io-uring\<close>: how a completion takes effect on the file system
  (\<^verbatim>\<open>PendingApply::execute\<close> of \<^verbatim>\<open>sim.rs\<close>), the rings of a host (\<^verbatim>\<open>host.rs\<close>,
  \<^verbatim>\<open>lib.rs\<close>), submission (\<^verbatim>\<open>squeue.rs\<close>, \<^verbatim>\<open>submit.rs\<close>), completion
  (\<^verbatim>\<open>cqueue.rs\<close>) and readiness (\<^verbatim>\<open>async_fd.rs\<close>).

  The buffers of the caller are raw pointers, so the operations act on an explicit memory, a
  function from addresses to bytes. The generator the code borrows beside the file system is the
  file system's own, so its state is threaded through \<^const>\<open>fs_rng\<close>.
\<close>

section \<open>Memory and draws\<close>

type_synonym memory = "nat \<Rightarrow> u8"

definition load :: "memory \<Rightarrow> nat \<Rightarrow> nat \<Rightarrow> bytes" where
  "load mem ptr len = map mem [ptr ..< ptr + len]"

definition store :: "memory \<Rightarrow> nat \<Rightarrow> bytes \<Rightarrow> memory" where
  "store mem ptr bs = (\<lambda>a. if ptr \<le> a \<and> a < ptr + length bs then bs ! (a - ptr) else mem a)"

text \<open>The cast \<^verbatim>\<open>as i32\<close>.\<close>

definition as_i32 :: "nat \<Rightarrow> int" where
  "as_i32 n = sint (word_of_nat n :: 32 word)"

text \<open>53 random bits scaled into the unit interval; no draw for the certain cases.\<close>

definition sample_prob :: "'g RingRng \<Rightarrow> prob \<Rightarrow> 'g FsState \<Rightarrow> bool \<times> 'g FsState" where
  "sample_prob rng p fs =
     (if p \<le> 0 then (False, fs)
      else if 1 \<le> p then (True, fs)
      else
        (let (w, g) = next_u64 rng (fs_rng fs)
         in (of_nat (unat (drop_bit 11 w)) / 2 ^ 53 < p, fs\<lparr>fs_rng := g\<rparr>)))"

definition sample_range :: "'g RingRng \<Rightarrow> nat \<Rightarrow> nat \<Rightarrow> 'g FsState \<Rightarrow> nat \<times> 'g FsState" where
  "sample_range rng start fin fs =
     (let (w, g) = next_u64 rng (fs_rng fs)
      in (start + unat w mod (fin - start), fs\<lparr>fs_rng := g\<rparr>))"

definition direct_io_aligned :: "'g FsState \<Rightarrow> nat \<Rightarrow> nat \<Rightarrow> nat \<Rightarrow> bool" where
  "direct_io_aligned fs ptr offset len =
     (let align = direct_io_alignment fs
      in align = 0 \<or> (ptr mod align = 0 \<and> offset mod align = 0 \<and> len mod align = 0))"

section \<open>Executing a completion\<close>

definition ring_shorten :: "'g RingRng \<Rightarrow> nat \<Rightarrow> bytes \<Rightarrow> 'g FsState \<Rightarrow> nat \<times> bytes \<times> 'g FsState" where
  "ring_shorten rng n buf fs =
     (if n \<le> 1 then (n, buf, fs)
      else
        (let (b, fs1) = sample_prob rng (short_read_probability fs) fs
         in if \<not> b then (n, buf, fs1)
            else
              (let (short, fs2) = sample_range rng 1 n fs1
               in (short, blit short (replicate (n - short) 0) buf, fs2))))"

definition ring_corrupt :: "'g RingRng \<Rightarrow> nat \<Rightarrow> bytes \<Rightarrow> 'g FsState \<Rightarrow> bytes \<times> 'g FsState" where
  "ring_corrupt rng n buf fs =
     (if n = 0 then (buf, fs)
      else
        (let (b, fs1) = sample_prob rng (corruption_probability fs) fs
         in if \<not> b then (buf, fs1)
            else
              (let (pos, fs2) = sample_range rng 0 n fs1;
                   (w, g) = next_u32 rng (fs_rng fs2);
                   byte = (ucast (and w 0xff) :: u8)
               in (buf[pos := xor (buf ! pos) (max byte 1)], fs2\<lparr>fs_rng := g\<rparr>))))"

definition exec_read ::
  "'g RingRng \<Rightarrow> 'g FsState \<Rightarrow> memory \<Rightarrow> RawFd \<Rightarrow> nat \<Rightarrow> nat \<Rightarrow> nat \<Rightarrow> (int \<times> 'g FsState \<times> memory) option" where
  "exec_read rng fs mem f ptr len offset =
     (case imap_get (open_handles fs) f of
        None \<Rightarrow> Some (- EBADF, fs, mem)
      | Some path \<Rightarrow>
          if iset_contains (direct_io_fds fs) f \<and> \<not> direct_io_aligned fs ptr offset len
          then Some (- EINVAL, fs, mem)
          else
            (let (io_error, fs1) = sample_prob rng (io_error_probability fs) fs
             in if io_error then Some (- EIO, fs1, mem)
                else do {
                  (n, buf1) \<leftarrow> read_file fs1 path (load mem ptr len) offset;
                  let (n2, buf2, fs2) = ring_shorten rng n buf1 fs1;
                  let (buf3, fs3) = ring_corrupt rng n2 buf2 fs2;
                  Some (as_i32 n2, fs3, store mem ptr buf3)
                }))"

text \<open>The end of the write is a 64-bit sum, which panics on overflow.\<close>

definition exec_write ::
  "'g RingRng \<Rightarrow> 'g FsState \<Rightarrow> memory \<Rightarrow> RawFd \<Rightarrow> nat \<Rightarrow> nat \<Rightarrow> nat \<Rightarrow> duration \<Rightarrow> (int \<times> 'g FsState) option" where
  "exec_write rng fs mem f ptr len offset now =
     (case imap_get (open_handles fs) f of
        None \<Rightarrow> Some (- EBADF, fs)
      | Some path \<Rightarrow>
          if iset_contains (direct_io_fds fs) f \<and> \<not> direct_io_aligned fs ptr offset len
          then Some (- EINVAL, fs)
          else
            (let (io_error, fs1) = sample_prob rng (io_error_probability fs) fs
             in if io_error then Some (- EIO, fs1)
                else do {
                  current_len \<leftarrow> file_len fs1 path;
                  write_end \<leftarrow> (if offset + len < 2 ^ 64 then Some (offset + len) else None);
                  let additional = write_end - current_len;
                  if 0 < additional \<and> isl (check_space fs1 additional) then Some (- ENOSPC, fs1)
                  else
                    (let fs2 = write_file fs1 path offset (load mem ptr len) now;
                         (b, fs3) = sample_prob rng (sync_probability fs2) fs2
                     in Some (as_i32 len, if b then snd (sync_file fs3 path) else fs3))
                }))"

definition exec_fsync :: "'g RingRng \<Rightarrow> 'g FsState \<Rightarrow> RawFd \<Rightarrow> int \<times> 'g FsState" where
  "exec_fsync rng fs f =
     (case imap_get (open_handles fs) f of
        None \<Rightarrow> (- EBADF, fs)
      | Some path \<Rightarrow>
          (let (io_error, fs1) = sample_prob rng (io_error_probability fs) fs
           in if io_error then (- EIO, fs1)
              else
                (case sync_file fs1 path of
                   (Inr _, fs2) \<Rightarrow> (0, fs2)
                 | (Inl _, fs2) \<Rightarrow> (- EIO, fs2))))"

fun execute ::
  "'g RingRng \<Rightarrow> PendingApply \<Rightarrow> 'g FsState \<Rightarrow> memory \<Rightarrow> duration \<Rightarrow> (int \<times> 'g FsState \<times> memory) option" where
  "execute rng (ImmediateError err) fs mem now = Some (err, fs, mem)"
| "execute rng (ApplyRead f ptr len offset) fs mem now = exec_read rng fs mem f ptr len offset"
| "execute rng (ApplyWrite f ptr len offset) fs mem now =
     map_option (\<lambda>(res, fs'). (res, fs', mem)) (exec_write rng fs mem f ptr len offset now)"
| "execute rng (ApplyFsync f) fs mem now = (let (res, fs') = exec_fsync rng fs f in Some (res, fs', mem))"

section \<open>The rings of a host\<close>

text \<open>
  The \<^verbatim>\<open>Notify\<close> of a ring is shared with the \<^verbatim>\<open>AsyncFd\<close> handles on it and outlives the
  ring; \<open>retired\<close> keeps the ones of removed rings. Descriptors are never reused.
\<close>

record IoUringHostState =
  rings :: "(RawFd, RingState) imap"
  next_ring_fd :: RawFd
  retired :: "(RawFd, nat) imap"

definition IO_URING_FD_OFFSET :: RawFd where
  "IO_URING_FD_OFFSET = 2 ^ 20"

definition IoUringHostState_new :: IoUringHostState where
  "IoUringHostState_new = \<lparr>rings = [], next_ring_fd = SIM_FD_BASE + IO_URING_FD_OFFSET, retired = []\<rparr>"

definition alloc_ring_fd :: "IoUringHostState \<Rightarrow> (RawFd \<times> IoUringHostState) option" where
  "alloc_ring_fd iou =
     (if next_ring_fd iou + 1 < 2 ^ 31
      then Some (next_ring_fd iou, iou\<lparr>next_ring_fd := next_ring_fd iou + 1\<rparr>) else None)"

definition retire :: "(RawFd \<times> RingState) list \<Rightarrow> IoUringHostState \<Rightarrow> IoUringHostState" where
  "retire gone iou = iou\<lparr>retired := map (\<lambda>(f, r). (f, cq_notify (notify_waiters r))) gone @ retired iou\<rparr>"

definition IoUring_crash :: "IoUringHostState \<Rightarrow> IoUringHostState" where
  "IoUring_crash iou = (retire (rings iou) iou)\<lparr>rings := []\<rparr>"

text \<open>The context a call runs in: the file system, the rings, the clock of the ring context, memory.\<close>

record 'g RingEnv =
  env_fs :: "'g FsState"
  env_iou :: IoUringHostState
  env_now :: duration
  env_mem :: memory

text \<open>\<^verbatim>\<open>u32::next_power_of_two\<close>.\<close>

fun next_power_of_two :: "nat \<Rightarrow> nat" where
  "next_power_of_two n = (if n \<le> 1 then 1 else 2 * next_power_of_two ((n + 1) div 2))"

declare next_power_of_two.simps [simp del]

record IoUring =
  ring_fd :: RawFd
  sq_entries :: nat
  cq_entries :: nat

text \<open>Both the rounding and the doubling are 32-bit and panic on overflow.\<close>

definition IoUring_new_inner :: "nat \<Rightarrow> IoUringHostState \<Rightarrow> (IoUring io_result \<times> IoUringHostState) option" where
  "IoUring_new_inner entries iou =
     (if entries = 0 then Some (Inl (Io_InvalidInput, ''io_uring entries must be > 0''), iou)
      else do {
        d \<leftarrow> (let p = next_power_of_two entries in if p < 2 ^ 32 then Some (max p 1) else None);
        (f, iou1) \<leftarrow> alloc_ring_fd iou;
        let iou2 = iou1\<lparr>rings := imap_insert f (RingState_new d) (rings iou1)\<rparr>;
        cq \<leftarrow> (if d * 2 < 2 ^ 32 then Some (d * 2) else None);
        Some (Inr \<lparr>ring_fd = f, sq_entries = d, cq_entries = cq\<rparr>, iou2)
      })"

definition IoUring_new :: "nat \<Rightarrow> IoUringHostState \<Rightarrow> (IoUring io_result \<times> IoUringHostState) option" where
  "IoUring_new entries iou = IoUring_new_inner entries iou"

record RingBuilder =
  b_sqpoll :: "nat option"
  b_iopoll :: bool

definition RingBuilder_default :: RingBuilder where
  "RingBuilder_default = \<lparr>b_sqpoll = None, b_iopoll = False\<rparr>"

definition setup_sqpoll :: "nat \<Rightarrow> RingBuilder \<Rightarrow> RingBuilder" where
  "setup_sqpoll idle_ms b = b\<lparr>b_sqpoll := Some idle_ms\<rparr>"

definition setup_iopoll :: "RingBuilder \<Rightarrow> RingBuilder" where
  "setup_iopoll b = b\<lparr>b_iopoll := True\<rparr>"

definition RingBuilder_build ::
  "RingBuilder \<Rightarrow> nat \<Rightarrow> IoUringHostState \<Rightarrow> (IoUring io_result \<times> IoUringHostState) option" where
  "RingBuilder_build b entries iou =
     (if b_sqpoll b \<noteq> None then
        Some (Inl (Io_InvalidInput, ''turmoil io_uring shim does not support IORING_SETUP_SQPOLL''), iou)
      else if b_iopoll b then
        Some (Inl (Io_InvalidInput, ''turmoil io_uring shim does not support IORING_SETUP_IOPOLL''), iou)
      else IoUring_new_inner entries iou)"

definition IoUring_drop :: "RawFd \<Rightarrow> IoUringHostState \<Rightarrow> IoUringHostState" where
  "IoUring_drop f iou =
     (case imap_get (rings iou) f of
        None \<Rightarrow> iou
      | Some r \<Rightarrow> (retire [(f, r)] iou)\<lparr>rings := imap_swap_remove f (rings iou)\<rparr>)"

section \<open>Submission\<close>

datatype PushError = PushError

definition sq_push :: "RawFd \<Rightarrow> Sqe \<Rightarrow> IoUringHostState \<Rightarrow> (PushError + unit) \<times> IoUringHostState" where
  "sq_push f e iou =
     (case imap_get (rings iou) f of
        None \<Rightarrow> (Inl PushError, iou)
      | Some r \<Rightarrow>
          if depth r \<le> length (sq r) then (Inl PushError, iou)
          else (Inr (), iou\<lparr>rings := imap_insert f (r\<lparr>sq := sq r @ [e]\<rparr>) (rings iou)\<rparr>))"

definition sq_len :: "RawFd \<Rightarrow> IoUringHostState \<Rightarrow> nat" where
  "sq_len f iou = (case imap_get (rings iou) f of None \<Rightarrow> 0 | Some r \<Rightarrow> length (sq r))"

definition sq_is_empty :: "RawFd \<Rightarrow> IoUringHostState \<Rightarrow> bool" where
  "sq_is_empty f iou \<longleftrightarrow> sq_len f iou = 0"

definition sq_is_full :: "RawFd \<Rightarrow> IoUringHostState \<Rightarrow> bool" where
  "sq_is_full f iou = (case imap_get (rings iou) f of None \<Rightarrow> True | Some r \<Rightarrow> depth r \<le> length (sq r))"

definition sq_capacity :: "RawFd \<Rightarrow> IoUringHostState \<Rightarrow> nat" where
  "sq_capacity f iou = (case imap_get (rings iou) f of None \<Rightarrow> 0 | Some r \<Rightarrow> depth r)"

definition libc_einval :: int where
  "libc_einval = - 22"

text \<open>The page cache at submission: a read probes and refreshes it, a write only fills it.\<close>

definition probe_cache :: "'g RingRng \<Rightarrow> RawFd \<Rightarrow> nat \<Rightarrow> 'g FsState \<Rightarrow> (bool \<times> 'g FsState) option" where
  "probe_cache rng f offset fs =
     (if iset_contains (direct_io_fds fs) f then Some (False, fs)
      else
        (case imap_get (open_handles fs) f of
           None \<Rightarrow> Some (False, fs)
         | Some path \<Rightarrow>
             (case page_cache fs of
                None \<Rightarrow> Some (False, fs)
              | Some c \<Rightarrow>
                  (let (hit, c1, g) = cache_access (cache_coin rng) c path offset (fs_rng fs)
                   in do {
                     c2 \<leftarrow> cache_insert c1 path offset;
                     Some (hit, fs\<lparr>page_cache := Some c2, fs_rng := g\<rparr>)
                   }))))"

definition fill_cache :: "RawFd \<Rightarrow> nat \<Rightarrow> 'g FsState \<Rightarrow> 'g FsState option" where
  "fill_cache f offset fs =
     (if iset_contains (direct_io_fds fs) f then Some fs
      else
        (case imap_get (open_handles fs) f of
           None \<Rightarrow> Some fs
         | Some path \<Rightarrow>
             (case page_cache fs of
                None \<Rightarrow> Some fs
              | Some c \<Rightarrow> map_option (\<lambda>c'. fs\<lparr>page_cache := Some c'\<rparr>) (cache_insert c path offset))))"

text \<open>\<^verbatim>\<open>rings.get_mut(&ring_fd).expect("ring vanished")\<close>.\<close>

definition on_ring :: "RawFd \<Rightarrow> (RingState \<Rightarrow> RingState) \<Rightarrow> IoUringHostState \<Rightarrow> IoUringHostState option" where
  "on_ring f upd iou =
     (case imap_get (rings iou) f of
        None \<Rightarrow> None | Some r \<Rightarrow> Some (iou\<lparr>rings := imap_insert f (upd r) (rings iou)\<rparr>))"

definition schedule_entry ::
  "'g RingRng \<Rightarrow> duration \<Rightarrow> RawFd \<Rightarrow> Sqe \<Rightarrow> 'g FsState \<times> IoUringHostState \<Rightarrow> ('g FsState \<times> IoUringHostState) option" where
  "schedule_entry rng now f e = (\<lambda>(fs, iou).
     if has_unsupported (sqe_flags e) then
       map_option (Pair fs) (on_ring f (post_immediate_error (sqe_user_data e) libc_einval now) iou)
     else
       (case sqe_op e of
          OpRead h ptr len offset \<Rightarrow> do {
            (hit, fs1) \<leftarrow> probe_cache rng h offset fs;
            let (latency, fs2) = calculate_latency (exp_draw rng) hit fs1;
            map_option (Pair fs2)
              (on_ring f (ring_schedule (sqe_user_data e) (now + latency) (ApplyRead h ptr len offset)) iou)
          }
        | OpWrite h ptr len offset \<Rightarrow> do {
            fs1 \<leftarrow> fill_cache h offset fs;
            let (latency, fs2) = calculate_latency (exp_draw rng) False fs1;
            map_option (Pair fs2)
              (on_ring f (ring_schedule (sqe_user_data e) (now + latency) (ApplyWrite h ptr len offset)) iou)
          }
        | OpFsync h \<Rightarrow>
            (let (latency, fs1) = calculate_latency (exp_draw rng) False fs
             in map_option (Pair fs1)
                  (on_ring f (ring_schedule (sqe_user_data e) (now + latency) (ApplyFsync h)) iou))
        | OpAsyncCancel target \<Rightarrow>
            map_option (Pair fs) (on_ring f (ring_cancel (sqe_user_data e) target now) iou)))"

fun schedule_entries ::
  "'g RingRng \<Rightarrow> duration \<Rightarrow> RawFd \<Rightarrow> Sqe list \<Rightarrow> 'g FsState \<times> IoUringHostState \<Rightarrow> ('g FsState \<times> IoUringHostState) option" where
  "schedule_entries rng now f [] s = Some s"
| "schedule_entries rng now f (e # es) s = Option.bind (schedule_entry rng now f e s) (schedule_entries rng now f es)"

definition schedule_pending :: "'g RingRng \<Rightarrow> RawFd \<Rightarrow> 'g RingEnv \<Rightarrow> (nat io_result \<times> 'g RingEnv) option" where
  "schedule_pending rng f env =
     (case imap_get (rings (env_iou env)) f of
        None \<Rightarrow> Some (Inl (Io_NotFound, ''io_uring ring is no longer registered''), env)
      | Some r \<Rightarrow> do {
          let iou1 = (env_iou env)\<lparr>rings := imap_insert f (r\<lparr>sq := []\<rparr>) (rings (env_iou env))\<rparr>;
          (fs2, iou2) \<leftarrow> schedule_entries rng (fs_now (env_fs env)) f (sq r) (env_fs env, iou1);
          Some (Inr (length (sq r)), env\<lparr>env_fs := fs2, env_iou := iou2\<rparr>)
        })"

definition submit :: "'g RingRng \<Rightarrow> RawFd \<Rightarrow> 'g RingEnv \<Rightarrow> (nat io_result \<times> 'g RingEnv) option" where
  "submit rng f env = schedule_pending rng f env"

text \<open>Timeouts carry seconds and nanoseconds; only their shape is checked.\<close>

record Timespec =
  ts_sec :: nat
  ts_nsec :: nat

definition Timespec_new :: Timespec where
  "Timespec_new = \<lparr>ts_sec = 0, ts_nsec = 0\<rparr>"

definition Timespec_from :: "duration \<Rightarrow> Timespec" where
  "Timespec_from d = \<lparr>ts_sec = d div 10 ^ 9, ts_nsec = d mod 10 ^ 9\<rparr>"

type_synonym SubmitArgs = "Timespec option"

definition submit_with_args ::
  "'g RingRng \<Rightarrow> RawFd \<Rightarrow> nat \<Rightarrow> SubmitArgs \<Rightarrow> 'g RingEnv \<Rightarrow> (nat io_result \<times> 'g RingEnv) option" where
  "submit_with_args rng f want args env =
     (if (case args of None \<Rightarrow> False | Some ts \<Rightarrow> 10 ^ 9 \<le> ts_nsec ts) then
        Some (Inl (Io_InvalidInput, ''SubmitArgs::timespec: nsec must be < 1_000_000_000''), env)
      else schedule_pending rng f env)"

definition submit_and_wait :: "'g RingRng \<Rightarrow> RawFd \<Rightarrow> nat \<Rightarrow> 'g RingEnv \<Rightarrow> (nat io_result \<times> 'g RingEnv) option" where
  "submit_and_wait rng f want env = submit_with_args rng f want None env"

section \<open>Completion\<close>

record Cqe =
  res_user_data :: u64
  res_result :: int
  res_flags :: u32

record CompletionQueue =
  cq_ring :: RawFd
  visible :: "nat option"

definition CompletionQueue_new :: "RawFd \<Rightarrow> CompletionQueue" where
  "CompletionQueue_new f = \<lparr>cq_ring = f, visible = None\<rparr>"

definition cq_sync :: "'g RingEnv \<Rightarrow> CompletionQueue \<Rightarrow> CompletionQueue" where
  "cq_sync env q = q\<lparr>visible := Some
     (case imap_get (rings (env_iou env)) (cq_ring q) of
        None \<Rightarrow> 0 | Some r \<Rightarrow> ready_cq_count (env_now env) r)\<rparr>"

definition cq_len :: "CompletionQueue \<Rightarrow> nat" where
  "cq_len q = (case visible q of None \<Rightarrow> 0 | Some n \<Rightarrow> n)"

definition cq_is_empty :: "CompletionQueue \<Rightarrow> bool" where
  "cq_is_empty q \<longleftrightarrow> cq_len q = 0"

definition cq_next ::
  "'g RingRng \<Rightarrow> CompletionQueue \<Rightarrow> 'g RingEnv \<Rightarrow> (Cqe option \<times> CompletionQueue \<times> 'g RingEnv) option" where
  "cq_next rng q env =
     (case visible q of
        None \<Rightarrow> Some (None, q, env)
      | Some remaining \<Rightarrow>
          if remaining = 0 then Some (None, q, env)
          else
            (case imap_get (rings (env_iou env)) (cq_ring q) of
               None \<Rightarrow> Some (None, q, env)
             | Some r \<Rightarrow>
                 (let fs = env_fs env; now = fs_now fs;
                      (popped, r1, g) = pop_ready rng now r (fs_rng fs);
                      fs1 = fs\<lparr>fs_rng := g\<rparr>;
                      iou1 = (env_iou env)\<lparr>rings := imap_insert (cq_ring q) r1 (rings (env_iou env))\<rparr>
                  in case popped of
                       None \<Rightarrow> Some (None, q, env\<lparr>env_fs := fs1, env_iou := iou1\<rparr>)
                     | Some s \<Rightarrow> do {
                         (res, fs2, mem2) \<leftarrow> execute rng (cqe_apply s) fs1 (env_mem env) now;
                         Some (Some \<lparr>res_user_data = cqe_user_data s, res_result = res, res_flags = 0\<rparr>,
                           q\<lparr>visible := Some (remaining - 1)\<rparr>,
                           env\<lparr>env_fs := fs2, env_iou := iou1, env_mem := mem2\<rparr>)
                       })))"

section \<open>Readiness\<close>

text \<open>
  \<^verbatim>\<open>AsyncFd\<close> holds the descriptor and the shared \<^verbatim>\<open>Notify\<close>. One turn of the loop of
  \<^verbatim>\<open>readable\<close> registers with the \<^verbatim>\<open>Notify\<close>, takes a snapshot and either returns or
  says what it waits for; \<open>notify_count\<close> is the number a waiter registers at.
\<close>

definition notify_count :: "RawFd \<Rightarrow> IoUringHostState \<Rightarrow> nat" where
  "notify_count f iou =
     (case imap_get (rings iou) f of
        Some r \<Rightarrow> cq_notify r
      | None \<Rightarrow> (case imap_get (retired iou) f of None \<Rightarrow> 0 | Some n \<Rightarrow> n))"

definition AsyncFd_new :: "RawFd \<Rightarrow> IoUringHostState \<Rightarrow> RawFd io_result" where
  "AsyncFd_new f iou =
     (case imap_get (rings iou) f of
        None \<Rightarrow> Inl (Io_NotFound, ''AsyncFd: fd '' @ decimal f @ '' is not a registered turmoil ring'')
      | Some _ \<Rightarrow> Inr f)"

datatype Readiness =
    Gone
  | Guard
  | SleepOrNotify nat duration
  | Yield nat
  | Notify nat

definition readable_turn :: "RawFd \<Rightarrow> 'g RingEnv \<Rightarrow> Readiness" where
  "readable_turn f env =
     (let registered = notify_count f (env_iou env); now = env_now env
      in case imap_get (rings (env_iou env)) f of
           None \<Rightarrow> Gone
         | Some r \<Rightarrow>
             if 0 < ready_cq_count now r then Guard
             else
               (case next_deadline r of
                  Some d \<Rightarrow> if now < d then SleepOrNotify registered (d - now) else Yield registered
                | None \<Rightarrow> Notify registered))"

text \<open>Each tick of the host enters both contexts with the same time.\<close>

definition ring_enter :: "duration \<Rightarrow> 'g RingEnv \<Rightarrow> 'g RingEnv" where
  "ring_enter now env = env\<lparr>env_fs := (env_fs env)\<lparr>fs_now := now\<rparr>, env_now := now\<rparr>"

end
