(* ===== verification/Ring_Bag.thy ===== *)
theory Ring_Bag
  imports Ring_Host Fs_Run
begin

text \<open>
  A ring as a multiset of scheduled completions. The locale \<open>completion_bag\<close> states what the
  consumer of a completion queue relies on; the ring's \<^verbatim>\<open>pop_ready\<close> provides it whatever
  permutation the shuffle draws.
\<close>

section \<open>The contract\<close>

locale completion_bag =
  fixes bag :: "'s \<Rightarrow> 'e multiset"
    and due :: "duration \<Rightarrow> 'e \<Rightarrow> bool"
    and wf_at :: "duration \<Rightarrow> 's \<Rightarrow> bool"
    and pop :: "duration \<Rightarrow> 's \<Rightarrow> 'g \<Rightarrow> 'e option \<times> 's \<times> 'g"
  assumes pop_Some: "\<lbrakk>wf_at t s; pop t s g = (Some e, s', g')\<rbrakk> \<Longrightarrow>
      due t e \<and> bag s = add_mset e (bag s') \<and> wf_at t s'"
    and pop_None: "\<lbrakk>wf_at t s; pop t s g = (None, s', g')\<rbrakk> \<Longrightarrow>
      filter_mset (due t) (bag s) = {#} \<and> bag s' = bag s \<and> wf_at t s'"
begin

text \<open>A consumer that takes up to \<open>n\<close> completions and handles each; handling may change what pops draw from.\<close>

fun drain :: "('e \<Rightarrow> 'g \<Rightarrow> 'g option) \<Rightarrow> nat \<Rightarrow> duration \<Rightarrow> 's \<Rightarrow> 'g \<Rightarrow> ('e list \<times> 's \<times> 'g) option" where
  "drain handle 0 t s g = Some ([], s, g)"
| "drain handle (Suc n) t s g =
     (case pop t s g of
        (None, s1, g1) \<Rightarrow> Some ([], s1, g1)
      | (Some e, s1, g1) \<Rightarrow> do {
          g2 \<leftarrow> handle e g1;
          (es, s3, g3) \<leftarrow> drain handle n t s1 g2;
          Some (e # es, s3, g3)
        })"

text \<open>With enough turns it takes every due completion exactly once, and nothing else.\<close>

lemma drain_all:
  assumes "wf_at t s" "drain handle n t s g = Some (es, s', g')" "size (filter_mset (due t) (bag s)) \<le> n"
  shows "mset es = filter_mset (due t) (bag s) \<and> bag s = mset es + bag s' \<and> wf_at t s'"
  using assms
proof (induction n arbitrary: s g es)
  case 0
  then show ?case by auto
next
  case (Suc n)
  obtain x s1 g1 where pop: "pop t s g = (x, s1, g1)" by (metis surj_pair)
  show ?case
  proof (cases x)
    case None
    from pop_None [OF Suc.prems(1)] pop None Suc.prems show ?thesis by auto
  next
    case (Some e)
    from pop_Some [OF Suc.prems(1)] pop Some
    have e: "due t e" "bag s = add_mset e (bag s1)" "wf_at t s1" by auto
    from Suc.prems(2) pop Some obtain g2 es' where
      rest: "drain handle n t s1 g2 = Some (es', s', g')" "es = e # es'"
      by (auto simp: bind_Some_iff)
    have "size (filter_mset (due t) (bag s1)) \<le> n" using Suc.prems(3) e by simp
    from Suc.IH [OF e(3) rest(1) this]
    have ih: "mset es' = filter_mset (due t) (bag s1)" "bag s1 = mset es' + bag s'" "wf_at t s'" by blast+
    have "mset es = filter_mset (due t) (bag s)" using ih(1) e(1) rest(2) by (simp add: e(2))
    moreover have "bag s = mset es + bag s'" by (simp add: e(2) rest(2) ih(2) flip: ih(1))
    ultimately show ?thesis using ih(3) by blast
  qed
qed

lemma drain_length:
  assumes "wf_at t s" "drain handle n t s g = Some (es, s', g')" "n = size (filter_mset (due t) (bag s))"
  shows "length es = n"
  using drain_all [OF assms(1,2)] assms(3) by (metis order_refl size_mset)

lemma drain_returns:
  assumes "wf_at t s" "R g"
    and pop_R: "\<And>s g e s' g'. \<lbrakk>wf_at t s; R g; pop t s g = (e, s', g')\<rbrakk> \<Longrightarrow> R g'"
    and handle_R: "\<And>e g. \<lbrakk>e \<in># bag s; R g\<rbrakk> \<Longrightarrow> \<exists>g'. handle e g = Some g' \<and> R g'"
  shows "\<exists>r. drain handle n t s g = Some r"
  using assms(1,2) handle_R
proof (induction n arbitrary: s g)
  case (Suc n)
  obtain x s1 g1 where pop: "pop t s g = (x, s1, g1)" by (metis surj_pair)
  show ?case
  proof (cases x)
    case (Some e)
    from pop_Some [OF Suc.prems(1)] pop Some
    have e: "bag s = add_mset e (bag s1)" "wf_at t s1" by auto
    from pop_R [OF Suc.prems(1,2) pop] Suc.prems(3) [of e g1] e obtain g2 where g2: "handle e g1 = Some g2" "R g2"
      by auto
    from Suc.IH [OF e(2) g2(2)] Suc.prems(3) e(1) obtain r where "drain handle n t s1 g2 = Some r"
      by (metis union_iff add_mset_add_single)
    with pop Some g2 show ?thesis by (cases r) auto
  qed (simp add: pop)
qed simp

end

section \<open>Promotion\<close>

definition cqe_due :: "duration \<Rightarrow> ScheduledCqe \<Rightarrow> bool" where
  "cqe_due now s \<longleftrightarrow> cqe_when s \<le> now"

definition ring_bag :: "RingState \<Rightarrow> ScheduledCqe multiset" where
  "ring_bag r = mset (inflight r) + mset (ready r)"

definition matured_at :: "duration \<Rightarrow> RingState \<Rightarrow> bool" where
  "matured_at now r \<longleftrightarrow> list_all (cqe_due now) (ready r)"

definition permutes_slices :: "'g RingRng \<Rightarrow> bool" where
  "permutes_slices rng \<longleftrightarrow> (\<forall>xs g. mset (fst (shuffle rng xs g)) = mset xs)"

lemma promote_loop_mset:
  "promote_loop now i fl m = (fl', m') \<Longrightarrow> mset fl' + mset m' = mset fl + mset m"
proof (induction now i fl m rule: promote_loop.induct)
  case (1 now i fl m)
  have "i < length fl \<Longrightarrow> add_mset (fl ! i) (mset fl - {#fl ! i#}) = mset fl" by simp
  with 1 show ?case
    by (subst (asm) promote_loop.simps) (auto simp: mset_swap_remove split: if_splits)
qed

lemma take_swap_remove: "i < length xs \<Longrightarrow> take i (swap_remove i xs) = take i xs"
  by (auto simp: swap_remove_def butlast_conv_take min_def)

lemma promote_loop_due:
  "\<lbrakk>promote_loop now i fl m = (fl', m'); i \<le> length fl; list_all (\<lambda>s. \<not> cqe_due now s) (take i fl);
    list_all (cqe_due now) m\<rbrakk> \<Longrightarrow>
   list_all (\<lambda>s. \<not> cqe_due now s) fl' \<and> list_all (cqe_due now) m'"
proof (induction now i fl m rule: promote_loop.induct)
  case (1 now i fl m)
  consider "i = length fl" | "i < length fl" "cqe_when (fl ! i) \<le> now" | "i < length fl" "\<not> cqe_when (fl ! i) \<le> now"
    using 1(4) by linarith
  then show ?case
  proof cases
    case 1
    with \<open>promote_loop now i fl m = (fl', m')\<close> \<open>list_all _ (take i fl)\<close> \<open>list_all (cqe_due now) m\<close>
    show ?thesis by (simp add: promote_loop.simps)
  next
    case 2
    have "promote_loop now i (swap_remove i fl) (m @ [fl ! i]) = (fl', m')"
      using 2 1(3) by (simp add: promote_loop.simps [of now i fl])
    from 1(1) [OF 2 this] 2 1(5,6) show ?thesis by (auto simp: take_swap_remove cqe_due_def)
  next
    case 3
    have "promote_loop now (i + 1) fl m = (fl', m')"
      using 3 1(3) by (simp add: promote_loop.simps [of now i fl])
    from 1(2) [OF 3 this] 3 1(5,6) show ?thesis by (auto simp: take_Suc_conv_app_nth cqe_due_def)
  qed
qed

text \<open>Promotion moves exactly the due entries and keeps every other.\<close>

lemma promote_ready_spec:
  assumes "permutes_slices rng" "matured_at now r" "promote_ready rng now r g = (r', g')"
  shows "ring_bag r' = ring_bag r" "matured_at now r'" "list_all (\<lambda>s. \<not> cqe_due now s) (inflight r')"
    "sq r' = sq r" "depth r' = depth r" "cq_notify r' = cq_notify r"
proof -
  obtain fl m where loop: "promote_loop now 0 (inflight r) [] = (fl, m)" by (metis surj_pair)
  note parts = promote_loop_mset [OF loop] promote_loop_due [OF loop]
  have sh: "mset (fst (shuffle rng m g)) = mset m" using assms(1) by (simp add: permutes_slices_def)
  then have "set (fst (shuffle rng m g)) = set m" by (metis set_mset_mset)
  with sh parts assms(2,3) loop
  show "ring_bag r' = ring_bag r" "matured_at now r'" "list_all (\<lambda>s. \<not> cqe_due now s) (inflight r')"
    "sq r' = sq r" "depth r' = depth r" "cq_notify r' = cq_notify r"
    by (auto simp: promote_ready_def ring_bag_def matured_at_def list_all_iff Let_def case_prod_beta'
        split: if_splits)
qed

lemma not_due_filter: "list_all (\<lambda>s. \<not> P s) xs \<Longrightarrow> filter_mset P (mset xs) = {#}"
  by (induction xs) auto

lemma pop_ready_Some:
  assumes "permutes_slices rng" "matured_at now r" "pop_ready rng now r g = (Some s, r', g')"
  shows "cqe_due now s" "ring_bag r = add_mset s (ring_bag r')" "matured_at now r'"
    "sq r' = sq r" "depth r' = depth r" "cq_notify r' = cq_notify r"
proof -
  obtain r1 g1 where p: "promote_ready rng now r g = (r1, g1)" by (metis surj_pair)
  note spec = promote_ready_spec [OF assms(1,2) p]
  show "cqe_due now s" "ring_bag r = add_mset s (ring_bag r')" "matured_at now r'"
    "sq r' = sq r" "depth r' = depth r" "cq_notify r' = cq_notify r"
    using assms(3) p spec
    by (auto simp: pop_ready_def ring_bag_def matured_at_def split: list.splits)
qed

lemma pop_ready_None:
  assumes "permutes_slices rng" "matured_at now r" "pop_ready rng now r g = (None, r', g')"
  shows "filter_mset (cqe_due now) (ring_bag r) = {#}" "ring_bag r' = ring_bag r" "matured_at now r'"
    "sq r' = sq r" "depth r' = depth r" "cq_notify r' = cq_notify r"
proof -
  obtain r1 g1 where p: "promote_ready rng now r g = (r1, g1)" by (metis surj_pair)
  note spec = promote_ready_spec [OF assms(1,2) p]
  have "ready r1 = []" "r' = r1"
    using assms(3) p by (auto simp: pop_ready_def split: list.splits)
  then show "filter_mset (cqe_due now) (ring_bag r) = {#}" "ring_bag r' = ring_bag r" "matured_at now r'"
    "sq r' = sq r" "depth r' = depth r" "cq_notify r' = cq_notify r"
    using spec not_due_filter [OF spec(3)] by (simp_all add: ring_bag_def flip: spec(1))
qed

text \<open>The pop of the completion queue: the draws come from the file system's generator.\<close>

definition pop_env ::
  "'g RingRng \<Rightarrow> duration \<Rightarrow> RingState \<Rightarrow> 'g FsState \<times> memory \<Rightarrow> ScheduledCqe option \<times> RingState \<times> 'g FsState \<times> memory" where
  "pop_env rng now r = (\<lambda>(fs, mem).
     let (s, r1, g) = pop_ready rng now r (fs_rng fs) in (s, r1, fs\<lparr>fs_rng := g\<rparr>, mem))"

interpretation ring: completion_bag ring_bag cqe_due "\<lambda>t r. permutes_slices rng \<and> matured_at t r" "pop_env rng"
  for rng :: "'g RingRng"
proof unfold_locales
  fix t r e r' and x x' :: "'g FsState \<times> memory"
  obtain fs mem s1 r1 g1 where x: "x = (fs, mem)" "pop_ready rng t r (fs_rng fs) = (s1, r1, g1)" by (metis surj_pair)
  assume "permutes_slices rng \<and> matured_at t r" "pop_env rng t r x = (Some e, r', x')"
  then show "cqe_due t e \<and> ring_bag r = add_mset e (ring_bag r') \<and> permutes_slices rng \<and> matured_at t r'"
    using x pop_ready_Some [of rng t r "fs_rng fs" e r1 g1] by (auto simp: pop_env_def)
next
  fix t r r' and x x' :: "'g FsState \<times> memory"
  obtain fs mem s1 r1 g1 where x: "x = (fs, mem)" "pop_ready rng t r (fs_rng fs) = (s1, r1, g1)" by (metis surj_pair)
  assume "permutes_slices rng \<and> matured_at t r" "pop_env rng t r x = (None, r', x')"
  then show "filter_mset (cqe_due t) (ring_bag r) = {#} \<and> ring_bag r' = ring_bag r \<and> permutes_slices rng \<and> matured_at t r'"
    using x pop_ready_None [of rng t r "fs_rng fs" r1 g1] by (auto simp: pop_env_def)
qed

lemma ready_cq_count_bag:
  "matured_at now r \<Longrightarrow> ready_cq_count now r = size (filter_mset (cqe_due now) (ring_bag r))"
proof -
  assume "matured_at now r"
  then have "filter (cqe_due now) (ready r) = ready r" by (simp add: matured_at_def list_all_iff filter_id_conv)
  then show ?thesis
    by (simp add: ready_cq_count_def ring_bag_def cqe_due_def [abs_def] flip: mset_filter)
qed

end
