(* ===== verification/Fs_Cache.thy ===== *)
theory Fs_Cache
  imports Fs_Config Fs_Run
begin

text \<open>
  The page cache and the latency draw of \<^verbatim>\<open>turmoil-fs/src/lib.rs\<close>: they change nothing of the files,
  the cache stays within its capacity, and a page that is put into it is found.
\<close>

section \<open>Draws and caches leave the file system alone\<close>

text \<open>What a completion or a submission may change besides contents: the generator and the cache.\<close>

definition same_files :: "'g FsState \<Rightarrow> 'g FsState \<Rightarrow> bool" where
  "same_files fs fs' \<longleftrightarrow> fs'\<lparr>fs_rng := fs_rng fs, page_cache := page_cache fs\<rparr> = fs"

definition cache_ok :: "'g FsState \<Rightarrow> bool" where
  "cache_ok fs \<longleftrightarrow> (case page_cache fs of None \<Rightarrow> True | Some c \<Rightarrow> 0 < max_pages (pc_config c))"

lemma same_files_simps [simp]:
  "same_files fs fs" "same_files fs (fs\<lparr>fs_rng := g\<rparr>)" "same_files fs (fs\<lparr>page_cache := c\<rparr>)"
  "same_files fs (fs\<lparr>page_cache := c, fs_rng := g\<rparr>)"
  by (cases fs, simp add: same_files_def)+

lemma same_files_trans: "\<lbrakk>same_files a b; same_files b c\<rbrakk> \<Longrightarrow> same_files a c"
  by (cases a, cases b, cases c) (simp add: same_files_def)

lemma same_files_inv: "\<lbrakk>same_files fs fs'; fs_inv fs\<rbrakk> \<Longrightarrow> fs_inv fs'"
  by (cases fs, cases fs') (simp add: same_files_def fs_inv_def fs_wf_def fds_ok_def)

lemma same_files_now: "same_files fs fs' \<Longrightarrow> fs_now fs' = fs_now fs"
  by (cases fs, cases fs') (simp add: same_files_def)

lemma evict_returns: "0 < mx \<Longrightarrow> \<exists>ps'. evict mx ps = Some ps'"
proof (induction "length ps" arbitrary: ps rule: less_induct)
  case less
  then show ?case by (subst evict.simps) (cases ps, auto)
qed

lemma cache_insert_returns:
  "0 < max_pages (pc_config c) \<Longrightarrow> \<exists>c'. cache_insert c p off = Some c' \<and> pc_config c' = pc_config c"
  using evict_returns [of "max_pages (pc_config c)" "pages c"] by (auto simp: cache_insert_def Let_def)

lemma cache_access_config: "cache_access coin c p off g = (hit, c', g') \<Longrightarrow> pc_config c' = pc_config c"
  by (auto simp: cache_access_def Let_def split: if_splits prod.splits)

lemma latency_same_files: "same_files fs (snd (calculate_latency draw hit fs))"
  by (auto simp: calculate_latency_def Let_def split: option.splits prod.splits)

lemma latency_cache [simp]: "cache_ok (snd (calculate_latency draw hit fs)) = cache_ok fs"
  by (auto simp: calculate_latency_def cache_ok_def Let_def split: option.splits prod.splits)

section \<open>Capacity and hits\<close>

lemma evict_spec: "0 < mx \<Longrightarrow> evict mx ps = Some (drop (Suc (length ps) - mx) ps)"
proof (induction "length ps" arbitrary: ps rule: less_induct)
  case less
  show ?case
  proof (cases "mx \<le> length ps")
    case True
    then obtain p qs where ps: "ps = p # qs" using less.prems by (cases ps) auto
    have "evict mx ps = evict mx qs" using True by (subst evict.simps) (simp add: ps)
    also have "\<dots> = Some (drop (Suc (length qs) - mx) qs)" using less.hyps [of qs] less.prems by (simp add: ps)
    finally show ?thesis using True by (simp add: ps Suc_diff_le)
  qed (subst evict.simps, simp)
qed

definition page_of :: "PageCache \<Rightarrow> Path \<Rightarrow> nat \<Rightarrow> Path \<times> nat" where
  "page_of c path offset = (path, offset div page_size (pc_config c))"

definition cached :: "PageCache \<Rightarrow> Path \<Rightarrow> nat \<Rightarrow> bool" where
  "cached c path offset \<longleftrightarrow> iset_contains (pages c) (page_of c path offset)"

text \<open>The cache holds no page twice and no more than it may.\<close>

definition cache_wf :: "PageCache \<Rightarrow> bool" where
  "cache_wf c \<longleftrightarrow> imap_wf (pages c) \<and> length (pages c) \<le> max_pages (pc_config c)"

lemma length_imap_swap:
  "length (imap_swap_remove k m) = (if k \<in> set (imap_keys m) then length m - 1 else length m)"
  by (induction m) (auto simp: Suc_pred length_pos_if_in_set split: if_splits)

lemma update_fresh: "k \<notin> set (imap_keys m) \<Longrightarrow> imap_insert k v m = m @ [(k, v)]"
  by (induction m) auto

text \<open>Taking a page out and putting it back at the end.\<close>

lemma refresh_pages:
  assumes "imap_wf ps"
  shows "iset_insert key (iset_swap_remove key ps) = iset_swap_remove key ps @ [(key, ())]"
    "imap_wf (iset_insert key (iset_swap_remove key ps))"
    "length (iset_insert key (iset_swap_remove key ps)) = (if key \<in> set (imap_keys ps) then length ps else Suc (length ps))"
proof -
  have "key \<notin> set (imap_keys (iset_swap_remove key ps))" using assms by (auto simp: set_imap_swap_remove)
  then show e: "iset_insert key (iset_swap_remove key ps) = iset_swap_remove key ps @ [(key, ())]" by (rule update_fresh)
  show "imap_wf (iset_insert key (iset_swap_remove key ps))" using assms by (simp add: imap_wf_insert imap_wf_swap_remove)
  show "length (iset_insert key (iset_swap_remove key ps)) = (if key \<in> set (imap_keys ps) then length ps else Suc (length ps))"
    unfolding e by (cases ps) (auto simp: length_imap_swap simp del: imap_swap_remove.simps)
qed

lemma insert_spec:
  assumes "0 < max_pages (pc_config c)"
  shows "cache_insert c path offset = Some (c\<lparr>pages :=
    (let ps = drop (Suc (length (pages c)) - max_pages (pc_config c)) (pages c)
     in iset_insert (page_of c path offset) (iset_swap_remove (page_of c path offset) ps))\<rparr>)"
  using assms by (simp add: cache_insert_def evict_spec page_of_def Let_def)

lemma page_of_pages [simp]: "page_of (c\<lparr>pages := ps\<rparr>) path offset = page_of c path offset"
  by (simp add: page_of_def)

lemma insert_fits:
  assumes "cache_wf c" "0 < max_pages (pc_config c)"
  shows "returns (cache_insert c path offset) (\<lambda>c'. cache_wf c' \<and> cached c' path offset \<and> pc_config c' = pc_config c)"
proof -
  define kept where "kept = drop (Suc (length (pages c)) - max_pages (pc_config c)) (pages c)"
  define ps where "ps = iset_insert (page_of c path offset) (iset_swap_remove (page_of c path offset) kept)"
  have wf: "imap_wf kept" using assms(1) by (simp add: cache_wf_def kept_def drop_map [symmetric])
  have "length kept < max_pages (pc_config c)" using assms by (auto simp: cache_wf_def kept_def)
  with refresh_pages [OF wf, of "page_of c path offset"] have "imap_wf ps" "length ps \<le> max_pages (pc_config c)"
    unfolding ps_def by (simp_all split: if_splits)
  moreover have "iset_contains ps (page_of c path offset)" by (simp add: ps_def imap_simps)
  moreover have "cache_insert c path offset = Some (c\<lparr>pages := ps\<rparr>)"
    using insert_spec [OF assms(2)] by (simp add: ps_def kept_def Let_def)
  ultimately show ?thesis by (simp add: cache_wf_def cached_def)
qed

lemma access_spec:
  assumes "cache_wf c" "random_eviction_probability (pc_config c) \<le> 0"
  shows "\<exists>c'. cache_access coin c path offset g = (cached c path offset, c', g) \<and> cache_wf c' \<and> pc_config c' = pc_config c"
  using assms refresh_pages(2,3) [of "pages c" "page_of c path offset"]
  by (auto simp: cache_access_def Let_def cached_def page_of_def cache_wf_def map_of_eq_None_iff simp flip: not_None_eq
    simp del: not_None_eq split: if_splits)

text \<open>
  A hit on a full cache costs another page. The read path puts the page it has hit into the
  cache once more, and an insertion into a full cache evicts first, although the page is there.
\<close>

theorem hit_evicts_another:
  assumes "imap_wf (pages c)" "length (pages c) = max_pages (pc_config c)" "2 \<le> max_pages (pc_config c)"
    and "random_eviction_probability (pc_config c) \<le> 0" "cached c path offset"
  shows "\<exists>c1 c2. cache_access coin c path offset g = (True, c1, g) \<and> cache_insert c1 path offset = Some c2 \<and>
    Suc (length (pages c2)) = length (pages c)"
proof -
  define key where "key = page_of c path offset"
  define ps where "ps = iset_insert key (iset_swap_remove key (pages c))"
  have key: "key \<in> set (imap_keys (pages c))"
    using assms(5) by (auto simp: cached_def key_def map_of_eq_None_iff simp flip: not_None_eq simp del: not_None_eq)
  have ps: "imap_wf ps" "length ps = length (pages c)" "ps = iset_swap_remove key (pages c) @ [(key, ())]"
    using refresh_pages [OF assms(1), of key] key by (auto simp: ps_def)
  have acc: "cache_access coin c path offset g = (True, c\<lparr>pages := ps\<rparr>, g)"
    using assms(4,5) by (simp add: cache_access_def Let_def cached_def page_of_def key_def ps_def)
  have wf: "imap_wf (drop 1 ps)" using ps(1) by (simp add: drop_map [symmetric] distinct_drop)
  have "1 \<le> length (iset_swap_remove key (pages c))" using ps(2,3) assms(2,3) by simp
  then have "key \<in> set (imap_keys (drop 1 ps))" by (simp add: ps(3))
  with refresh_pages(3) [OF wf, of key]
  have len: "length (iset_insert key (iset_swap_remove key (drop 1 ps))) = length ps - 1" by simp
  have "Suc (length ps) - max_pages (pc_config c) = 1" using ps(2) assms(2) by simp
  then have "cache_insert (c\<lparr>pages := ps\<rparr>) path offset = Some (c\<lparr>pages := iset_insert key (iset_swap_remove key (drop 1 ps))\<rparr>)"
    using insert_spec [of "c\<lparr>pages := ps\<rparr>" path offset] assms(3) by (simp add: Let_def key_def)
  with acc len ps(2) assms(2,3) show ?thesis by auto
qed

end
