(* ===== verification/Ring_Submit.thy ===== *)
theory Ring_Submit
  imports Ring_Bag Fs_Cache
begin

text \<open>
  What submission and completion do to the rings of a host and to the file system: every entry
  that is submitted becomes one scheduled completion, a cancelled one is replaced by an error
  that touches nothing, and executing a completion keeps the invariant of the file system.
\<close>

section \<open>One entry, one completion\<close>

definition tags :: "RingState \<Rightarrow> u64 multiset" where
  "tags r = image_mset cqe_user_data (ring_bag r)"

lemma ring_schedule_effect [simp]:
  "ring_bag (ring_schedule ud w a r) = add_mset \<lparr>cqe_when = w, cqe_user_data = ud, cqe_apply = a\<rparr> (ring_bag r)"
  "sq (ring_schedule ud w a r) = sq r" "depth (ring_schedule ud w a r) = depth r"
  "ready (ring_schedule ud w a r) = ready r" "cq_notify (ring_schedule ud w a r) = Suc (cq_notify r)"
  by (simp_all add: ring_schedule_def notify_waiters_def ring_bag_def)

lemma post_error_schedule: "post_immediate_error ud errno now r = ring_schedule ud now (ImmediateError errno) r"
  by (simp add: post_immediate_error_def ring_schedule_def)

lemma set_remove_at: "set (remove_at i xs) \<subseteq> set xs"
  by (auto simp: remove_at_def dest: in_set_takeD in_set_dropD)

lemma drop_target_effect:
  assumes "drop_target target r = (r1, found)"
  shows "sq r1 = sq r" "depth r1 = depth r" "cq_notify r1 = cq_notify r" "set (ready r1) \<subseteq> set (ready r)"
    "\<not> found \<Longrightarrow> r1 = r \<and> (\<forall>s \<in># ring_bag r. cqe_user_data s \<noteq> target)"
    "found \<Longrightarrow> \<exists>s. cqe_user_data s = target \<and> ring_bag r = add_mset s (ring_bag r1)"
  using assms
  by (auto simp: drop_target_def ring_bag_def position_None mset_swap_remove mset_remove_at
      dest!: position_Some dest: set_remove_at [THEN subsetD] split: option.splits)

lemma ring_cancel_effect:
  assumes "drop_target target r = (r1, found)"
  shows "ring_bag (ring_cancel ud target now r) =
      add_mset \<lparr>cqe_when = now, cqe_user_data = ud, cqe_apply = ImmediateError (if found then 0 else - RING_ENOENT)\<rparr>
        ((if found then {#\<lparr>cqe_when = now, cqe_user_data = target, cqe_apply = ImmediateError (- ECANCELED)\<rparr>#} else {#})
         + ring_bag r1)"
    "sq (ring_cancel ud target now r) = sq r" "depth (ring_cancel ud target now r) = depth r"
    "set (ready (ring_cancel ud target now r)) \<subseteq> set (ready r)"
    "cq_notify (ring_cancel ud target now r) = Suc (cq_notify r)"
  using drop_target_effect(1-4) [OF assms]
  by (auto simp: ring_cancel_def assms notify_waiters_def ring_bag_def)

text \<open>An accepted entry adds its tag, whatever its operation.\<close>

definition posted :: "u64 \<Rightarrow> RingState \<Rightarrow> RingState \<Rightarrow> bool" where
  "posted ud r r' \<longleftrightarrow> tags r' = add_mset ud (tags r) \<and> sq r' = sq r \<and> depth r' = depth r \<and>
     set (ready r') \<subseteq> set (ready r) \<and> cq_notify r' = Suc (cq_notify r)"

lemma posted_schedule: "posted ud r (ring_schedule ud w a r)"
  by (simp add: posted_def tags_def)

lemma posted_cancel: "posted ud r (ring_cancel ud target now r)"
proof -
  obtain r1 found where d: "drop_target target r = (r1, found)" by (metis surj_pair)
  from ring_cancel_effect [OF d] drop_target_effect(5,6) [OF d] show ?thesis
    by (cases found) (auto simp: posted_def tags_def)
qed

section \<open>The page cache at submission\<close>

lemma probe_returns:
  assumes "cache_ok fs"
  shows "returns (probe_cache rng f off fs) (\<lambda>(hit, fs'). same_files fs fs' \<and> cache_ok fs')"
proof (cases "imap_get (open_handles fs) f")
  case (Some path)
  show ?thesis
  proof (cases "page_cache fs")
    case c: (Some c)
    obtain hit c1 g where acc: "cache_access (cache_coin rng) c path off (fs_rng fs) = (hit, c1, g)" by (metis surj_pair)
    from cache_access_config [OF acc] assms c have "0 < max_pages (pc_config c1)" by (simp add: cache_ok_def)
    from cache_insert_returns [OF this] obtain c2 where "cache_insert c1 path off = Some c2" "pc_config c2 = pc_config c1"
      by blast
    with acc c Some \<open>0 < _\<close> assms show ?thesis
      by (auto simp: probe_cache_def cache_ok_def)
  qed (use assms Some in \<open>simp add: probe_cache_def\<close>)
qed (use assms in \<open>simp add: probe_cache_def\<close>)

lemma fill_returns:
  assumes "cache_ok fs"
  shows "returns (fill_cache f off fs) (\<lambda>fs'. same_files fs fs' \<and> cache_ok fs')"
proof (cases "imap_get (open_handles fs) f")
  case (Some path)
  show ?thesis
  proof (cases "page_cache fs")
    case c: (Some c)
    with assms have "0 < max_pages (pc_config c)" by (simp add: cache_ok_def)
    from cache_insert_returns [OF this] obtain c2 where "cache_insert c path off = Some c2" "pc_config c2 = pc_config c"
      by blast
    with c Some \<open>0 < _\<close> assms show ?thesis
      by (auto simp: fill_cache_def cache_ok_def)
  qed (use assms Some in \<open>simp add: fill_cache_def\<close>)
qed (use assms in \<open>simp add: fill_cache_def\<close>)

section \<open>Submitting\<close>

fun apply_fits :: "PendingApply \<Rightarrow> bool" where
  "apply_fits (ApplyWrite f ptr len offset) = (offset + len < 2 ^ 64)"
| "apply_fits _ = True"

fun sqe_fits :: "OpKind \<Rightarrow> bool" where
  "sqe_fits (OpWrite f ptr len offset) = (offset + len < 2 ^ 64)"
| "sqe_fits _ = True"

definition bag_fits :: "RingState \<Rightarrow> bool" where
  "bag_fits r \<longleftrightarrow> (\<forall>s \<in># ring_bag r. apply_fits (cqe_apply s))"

lemma bag_fits_schedule: "\<lbrakk>bag_fits r; apply_fits a\<rbrakk> \<Longrightarrow> bag_fits (ring_schedule ud w a r)"
  by (simp add: bag_fits_def)

lemma bag_fits_cancel: "bag_fits r \<Longrightarrow> bag_fits (ring_cancel ud target now r)"
proof -
  assume fits: "bag_fits r"
  obtain r1 found where d: "drop_target target r = (r1, found)" by (metis surj_pair)
  from ring_cancel_effect [OF d] drop_target_effect(5,6) [OF d] fits show ?thesis
    by (cases found) (auto simp: bag_fits_def)
qed

lemma imap_insert_twice [simp]: "imap_insert k v (imap_insert k w m) = imap_insert k v m"
  by (induction m) auto

lemma on_ring_some: "imap_get (rings iou) f = Some r \<Longrightarrow>
   on_ring f upd iou = Some (iou\<lparr>rings := imap_insert f (upd r) (rings iou)\<rparr>)"
  by (simp add: on_ring_def)

lemma schedule_entry_spec:
  assumes r: "imap_get (rings iou) f = Some r" and "cache_ok fs"
  shows "returns (schedule_entry rng now f e (fs, iou)) (\<lambda>(fs', iou'). same_files fs fs' \<and> cache_ok fs' \<and>
    (\<exists>r'. iou' = iou\<lparr>rings := imap_insert f r' (rings iou)\<rparr> \<and> posted (sqe_user_data e) r r' \<and>
       (bag_fits r \<longrightarrow> sqe_fits (sqe_op e) \<longrightarrow> bag_fits r')))"
proof (cases "has_unsupported (sqe_flags e)")
  case True
  with assms show ?thesis
    by (auto simp: schedule_entry_def on_ring_some [OF r] post_error_schedule intro!: exI posted_schedule bag_fits_schedule)
next
  case False
  note lat = latency_same_files [where draw = "exp_draw rng"]
  show ?thesis
  proof (cases "sqe_op e")
    case (OpRead h ptr len off)
    show ?thesis using False OpRead
      by (auto simp: schedule_entry_def on_ring_some [OF r] case_prod_beta' Let_def
          intro!: returns_mono [OF probe_returns [OF assms(2)]] exI posted_schedule bag_fits_schedule
          elim: same_files_trans [OF _ lat])
  next
    case (OpWrite h ptr len off)
    show ?thesis using False OpWrite
      by (auto simp: schedule_entry_def on_ring_some [OF r] case_prod_beta' Let_def
          intro!: returns_mono [OF fill_returns [OF assms(2)]] exI posted_schedule bag_fits_schedule
          elim: same_files_trans [OF _ lat])
  next
    case (OpFsync h)
    show ?thesis using False OpFsync assms(2) lat
      by (auto simp: schedule_entry_def on_ring_some [OF r] case_prod_beta' Let_def
          intro!: exI posted_schedule bag_fits_schedule)
  next
    case (OpAsyncCancel target)
    show ?thesis using False OpAsyncCancel assms(2)
      by (auto simp: schedule_entry_def on_ring_some [OF r] intro!: exI posted_cancel bag_fits_cancel)
  qed
qed

text \<open>A batch is posted entry by entry.\<close>

definition batch :: "Sqe list \<Rightarrow> RingState \<Rightarrow> RingState \<Rightarrow> bool" where
  "batch es r r' \<longleftrightarrow> tags r' = tags r + mset (map sqe_user_data es) \<and> sq r' = sq r \<and> depth r' = depth r \<and>
     set (ready r') \<subseteq> set (ready r) \<and> cq_notify r' = cq_notify r + length es \<and>
     (es = [] \<longrightarrow> ring_bag r' = ring_bag r)"

lemma schedule_entries_spec:
  assumes "imap_get (rings iou) f = Some r" "cache_ok fs"
  shows "returns (schedule_entries rng now f es (fs, iou)) (\<lambda>(fs', iou'). same_files fs fs' \<and> cache_ok fs' \<and>
    (\<exists>r'. iou' = iou\<lparr>rings := imap_insert f r' (rings iou)\<rparr> \<and> batch es r r' \<and>
       (bag_fits r \<longrightarrow> list_all (\<lambda>e. sqe_fits (sqe_op e)) es \<longrightarrow> bag_fits r')))"
  using assms
proof (induction es arbitrary: fs iou r)
  case Nil
  have "iou = iou\<lparr>rings := imap_insert f r (rings iou)\<rparr>"
    using Nil(1) by (cases iou) (simp add: update_triv)
  with Nil show ?case by (auto simp: batch_def intro!: exI [of _ r])
next
  case (Cons e es)
  have rest: "returns (schedule_entries rng now f es (fs1, iou\<lparr>rings := imap_insert f r1 (rings iou)\<rparr>))
      (\<lambda>(fs', iou'). same_files fs fs' \<and> cache_ok fs' \<and>
        (\<exists>r'. iou' = iou\<lparr>rings := imap_insert f r' (rings iou)\<rparr> \<and> batch (e # es) r r' \<and>
         (bag_fits r \<longrightarrow> list_all (\<lambda>e. sqe_fits (sqe_op e)) (e # es) \<longrightarrow> bag_fits r')))"
    if "same_files fs fs1" "cache_ok fs1" "posted (sqe_user_data e) r r1"
      "bag_fits r \<longrightarrow> sqe_fits (sqe_op e) \<longrightarrow> bag_fits r1" for fs1 r1
  proof -
    have "imap_get (rings (iou\<lparr>rings := imap_insert f r1 (rings iou)\<rparr>)) f = Some r1" by (simp add: imap_simps)
    from Cons.IH [OF this that(2)] show ?thesis
      by (rule returns_mono) (use that in \<open>auto simp: batch_def posted_def intro: same_files_trans\<close>)
  qed
  show ?case unfolding schedule_entries.simps returns_simps(3)
    by (rule returns_mono [OF schedule_entry_spec [OF Cons.prems, of rng now e]]) (use rest in auto)
qed

text \<open>\<^verbatim>\<open>submit\<close> moves the whole queue over, in one batch.\<close>

lemma schedule_pending_spec:
  assumes r: "imap_get (rings (env_iou env)) f = Some r" and c: "cache_ok (env_fs env)"
  shows "returns (schedule_pending rng f env) (\<lambda>(res, env'). res = Inr (length (sq r)) \<and>
    same_files (env_fs env) (env_fs env') \<and> cache_ok (env_fs env') \<and> env_now env' = env_now env \<and> env_mem env' = env_mem env \<and>
    (\<exists>r'. env_iou env' = (env_iou env)\<lparr>rings := imap_insert f r' (rings (env_iou env))\<rparr> \<and>
       batch (sq r) (r\<lparr>sq := []\<rparr>) r' \<and>
       (bag_fits r \<longrightarrow> list_all (\<lambda>e. sqe_fits (sqe_op e)) (sq r) \<longrightarrow> bag_fits r')))"
proof -
  let ?iou1 = "(env_iou env)\<lparr>rings := imap_insert f (r\<lparr>sq := []\<rparr>) (rings (env_iou env))\<rparr>"
  have g: "imap_get (rings ?iou1) f = Some (r\<lparr>sq := []\<rparr>)" by (simp add: imap_simps)
  have fits: "bag_fits (r\<lparr>sq := []\<rparr>) = bag_fits r" by (simp add: bag_fits_def ring_bag_def)
  have "schedule_pending rng f env =
    Option.bind (schedule_entries rng (fs_now (env_fs env)) f (sq r) (env_fs env, ?iou1))
      (\<lambda>(fs2, iou2). Some (Inr (length (sq r)), env\<lparr>env_fs := fs2, env_iou := iou2\<rparr>))"
    by (simp add: schedule_pending_def r)
  then show ?thesis unfolding returns_simps(3)
    by (auto simp: fits intro!: returns_mono [OF schedule_entries_spec [OF g c]])
qed

end
