(* ===== verification/Ring_Run.thy ===== *)
theory Ring_Run
  imports Ring_Submit
begin

text \<open>
  The rings of a host as a transition system over the calls of the shim, interleaved with the
  host's ticks and with any other use of the file system. Ghost counters record which tags were
  pushed and which were handed out; the invariant balances them.
\<close>

section \<open>Executing a completion\<close>

definition keeps_fs :: "'g FsState \<Rightarrow> 'g FsState \<Rightarrow> bool" where
  "keeps_fs fs fs' \<longleftrightarrow> fs_inv fs' \<and> fs_now fs' = fs_now fs \<and> page_cache fs' = page_cache fs"

lemma sample_prob_rng: "\<exists>g. snd (sample_prob rng p fs) = fs\<lparr>fs_rng := g\<rparr>"
  by (cases fs) (auto simp: sample_prob_def Let_def split: prod.split intro: exI)

lemma keeps_sample_prob:
  "\<lbrakk>sample_prob rng p fs = (b, fs'); fs_inv fs\<rbrakk> \<Longrightarrow> keeps_fs fs fs'"
  using sample_prob_rng [of rng p fs] by (auto simp: keeps_fs_def)

lemma keeps_sample_range:
  "\<lbrakk>sample_range rng a b fs = (n, fs'); fs_inv fs\<rbrakk> \<Longrightarrow> keeps_fs fs fs'"
  by (auto simp: sample_range_def keeps_fs_def Let_def split: prod.splits)

lemma keeps_trans: "\<lbrakk>keeps_fs a b; keeps_fs b c\<rbrakk> \<Longrightarrow> keeps_fs a c"
  by (simp add: keeps_fs_def)

lemma keeps_refl: "fs_inv fs \<Longrightarrow> keeps_fs fs fs"
  by (simp add: keeps_fs_def)

lemma keeps_inv: "keeps_fs a b \<Longrightarrow> fs_inv b"
  by (simp add: keeps_fs_def)

lemma keeps_shorten: "fs_inv fs \<Longrightarrow> keeps_fs fs (snd (snd (ring_shorten rng n buf fs)))"
  by (auto simp: ring_shorten_def Let_def keeps_refl split: prod.split
      dest!: keeps_sample_prob keeps_sample_range intro: keeps_trans keeps_inv)

lemma fold_apply_keeps:
  "fs_now (fold apply_op_to_persisted ops fs) = fs_now fs \<and>
   page_cache (fold apply_op_to_persisted ops fs) = page_cache fs"
proof (induction ops arbitrary: fs)
  case (Cons op ops)
  have "fs_now (apply_op_to_persisted op fs) = fs_now fs \<and> page_cache (apply_op_to_persisted op fs) = page_cache fs"
    by (cases op) (simp_all add: Let_def split: option.split)
  with Cons show ?case by simp
qed simp

lemma keeps_sync_file: "fs_inv fs \<Longrightarrow> keeps_fs fs (snd (sync_file fs p))"
  using inv_sync_file [of fs p]
  by (auto simp: keeps_fs_def sync_file_def fold_apply_keeps Let_def split: prod.splits)

lemma keeps_write_file: "fs_inv fs \<Longrightarrow> keeps_fs fs (write_file fs p off d t)"
  using inv_write_file [of fs p off d t] by (simp add: keeps_fs_def write_file_def push_op_def)

lemma keeps_corrupt: "fs_inv fs \<Longrightarrow> keeps_fs fs (snd (ring_corrupt rng n buf fs))"
proof -
  assume inv: "fs_inv fs"
  obtain b fs1 where s: "sample_prob rng (corruption_probability fs) fs = (b, fs1)" by (metis surj_pair)
  obtain pos fs2 where r: "sample_range rng 0 n fs1 = (pos, fs2)" by (metis surj_pair)
  note k1 = keeps_sample_prob [OF s inv]
  note k2 = keeps_trans [OF k1 keeps_sample_range [OF r keeps_inv [OF k1]]]
  from k1 k2 s r inv show ?thesis
    by (auto simp: ring_corrupt_def Let_def keeps_fs_def split: prod.split)
qed

lemma exec_read_keeps:
  assumes inv: "fs_inv fs"
  shows "returns (exec_read rng fs mem f ptr len off) (\<lambda>(res, fs', mem'). keeps_fs fs fs')"
proof -
  obtain b fs1 where s: "sample_prob rng (io_error_probability fs) fs = (b, fs1)" by (metis surj_pair)
  note k1 = keeps_sample_prob [OF s inv]
  show ?thesis
  proof (cases "imap_get (open_handles fs) f")
    case (Some p)
    obtain n buf1 where rd: "read_file fs1 p (load mem ptr len) off = Some (n, buf1)"
      using read_file_returns [OF keeps_inv [OF k1]] by (metis surj_pair)
    obtain n2 buf2 fs2 where sh: "ring_shorten rng n buf1 fs1 = (n2, buf2, fs2)" by (metis surj_pair)
    obtain buf3 fs3 where co: "ring_corrupt rng n2 buf2 fs2 = (buf3, fs3)" by (metis surj_pair)
    have "keeps_fs fs fs2" using keeps_trans [OF k1 keeps_shorten [OF keeps_inv [OF k1], of rng n buf1]] sh by simp
    then have "keeps_fs fs fs3" using keeps_trans keeps_corrupt [OF keeps_inv, of fs fs2 rng n2 buf2] co by fastforce
    with k1 s rd sh co inv Some show ?thesis by (simp add: exec_read_def keeps_refl)
  qed (simp add: exec_read_def keeps_refl inv)
qed

lemma exec_write_keeps:
  assumes inv: "fs_inv fs" and fits: "off + len < 2 ^ 64"
  shows "returns (exec_write rng fs mem f ptr len off now) (\<lambda>(res, fs'). keeps_fs fs fs')"
proof -
  obtain b fs1 where s: "sample_prob rng (io_error_probability fs) fs = (b, fs1)" by (metis surj_pair)
  note k1 = keeps_sample_prob [OF s inv]
  have "\<exists>n. file_len fs1 p = Some n" for p using file_len_returns [OF keeps_inv [OF k1]] .
  then obtain n where fl: "file_len fs1 p = Some (n p)" for p by metis
  define fs2 where "fs2 p = write_file fs1 p off (load mem ptr len) now" for p
  have k2: "keeps_fs fs (fs2 p)" for p
    unfolding fs2_def using keeps_trans [OF k1 keeps_write_file [OF keeps_inv [OF k1]]] .
  have k3: "keeps_fs fs (snd (sample_prob rng q (fs2 p)))" for q p
    using keeps_sample_prob [OF prod.collapse [symmetric] keeps_inv [OF k2]] keeps_trans k2 by blast
  have k4: "keeps_fs fs (snd (sync_file (snd (sample_prob rng q (fs2 p))) p))" for q p
    using keeps_trans [OF k3 keeps_sync_file [OF keeps_inv [OF k3]]] .
  from k1 k3 k4 s fl inv fits show ?thesis
    by (auto simp: exec_write_def keeps_refl case_prod_beta' Let_def simp flip: fs2_def split: option.split)
qed

lemma exec_fsync_keeps: "fs_inv fs \<Longrightarrow> keeps_fs fs (snd (exec_fsync rng fs f))"
proof -
  assume inv: "fs_inv fs"
  obtain b fs1 where s: "sample_prob rng (io_error_probability fs) fs = (b, fs1)" by (metis surj_pair)
  note k1 = keeps_sample_prob [OF s inv]
  have "keeps_fs fs (snd (sync_file fs1 p))" for p
    using keeps_trans [OF k1 keeps_sync_file [OF keeps_inv [OF k1]]] .
  with k1 s inv show ?thesis
    by (auto simp: exec_fsync_def keeps_refl split: option.split prod.split sum.split) (metis snd_conv)+
qed

lemma execute_keeps:
  "\<lbrakk>fs_inv fs; apply_fits a\<rbrakk> \<Longrightarrow> returns (execute rng a fs mem now) (\<lambda>(res, fs', mem'). keeps_fs fs fs')"
proof (cases a)
  case (ApplyWrite f ptr len off)
  assume "fs_inv fs" "apply_fits a"
  with ApplyWrite exec_write_keeps [of fs off len rng mem f ptr now] show ?thesis
    by (auto simp: returns_def)
next
  case (ApplyFsync f)
  assume "fs_inv fs"
  with ApplyFsync exec_fsync_keeps [of fs rng f] show ?thesis by (simp add: case_prod_beta' Let_def)
qed (simp_all add: exec_read_keeps keeps_refl)

section \<open>The transition system\<close>

record 'g RingSys =
  sys :: "'g RingEnv"
  cqs :: "CompletionQueue list"
  pushed :: "RawFd \<Rightarrow> u64 multiset"
  reaped :: "RawFd \<Rightarrow> u64 multiset"

datatype 'g RingCall =
    Rc_new nat
  | Rc_drop RawFd
  | Rc_crash
  | Rc_push RawFd Sqe
  | Rc_submit RawFd
  | Rc_submit_args RawFd nat SubmitArgs
  | Rc_completion RawFd
  | Rc_sync nat
  | Rc_next nat
  | Rc_tick duration
  | Rc_fs "'g FsState"

abbreviation set_iou :: "IoUringHostState \<Rightarrow> 'g RingSys \<Rightarrow> 'g RingSys" where
  "set_iou iou s \<equiv> s\<lparr>sys := (sys s)\<lparr>env_iou := iou\<rparr>\<rparr>"

abbreviation iou_of :: "'g RingSys \<Rightarrow> IoUringHostState" where
  "iou_of s \<equiv> env_iou (sys s)"

definition count_reaped :: "RawFd \<Rightarrow> Cqe option \<Rightarrow> 'g RingSys \<Rightarrow> 'g RingSys" where
  "count_reaped f c s = s\<lparr>reaped := (reaped s)(f := (case c of None \<Rightarrow> {#} | Some e \<Rightarrow> {#res_user_data e#}) + reaped s f)\<rparr>"

fun ring_step :: "'g RingRng \<Rightarrow> 'g RingSys \<Rightarrow> 'g RingCall \<Rightarrow> 'g RingSys option" where
  "ring_step rng s (Rc_new entries) = map_option (\<lambda>(_, iou). set_iou iou s) (IoUring_new entries (iou_of s))"
| "ring_step rng s (Rc_drop f) = Some (set_iou (IoUring_drop f (iou_of s)) s)"
| "ring_step rng s Rc_crash = Some (set_iou (IoUring_crash (iou_of s)) s)"
| "ring_step rng s (Rc_push f e) =
     (case sq_push f e (iou_of s) of
        (Inl _, iou) \<Rightarrow> Some (set_iou iou s)
      | (Inr _, iou) \<Rightarrow>
          Some (set_iou iou (s\<lparr>pushed := (pushed s)(f := add_mset (sqe_user_data e) (pushed s f))\<rparr>)))"
| "ring_step rng s (Rc_submit f) = map_option (\<lambda>(_, env). s\<lparr>sys := env\<rparr>) (submit rng f (sys s))"
| "ring_step rng s (Rc_submit_args f want args) =
     map_option (\<lambda>(_, env). s\<lparr>sys := env\<rparr>) (submit_with_args rng f want args (sys s))"
| "ring_step rng s (Rc_completion f) = Some (s\<lparr>cqs := cqs s @ [CompletionQueue_new f]\<rparr>)"
| "ring_step rng s (Rc_sync i) = Some (s\<lparr>cqs := (cqs s)[i := cq_sync (sys s) (cqs s ! i)]\<rparr>)"
| "ring_step rng s (Rc_next i) = do {
     (c, q, env) \<leftarrow> cq_next rng (cqs s ! i) (sys s);
     Some (count_reaped (cq_ring (cqs s ! i)) c (s\<lparr>sys := env, cqs := (cqs s)[i := q]\<rparr>))
   }"
| "ring_step rng s (Rc_tick t) = Some (s\<lparr>sys := ring_enter t (sys s)\<rparr>)"
| "ring_step rng s (Rc_fs fs) = Some (s\<lparr>sys := (sys s)\<lparr>env_fs := fs\<rparr>\<rparr>)"

text \<open>
  A call is admissible if its own preconditions hold: no overflow of a size or of the descriptor
  counter, handles that exist, time that does not go back, and other users of the file system that
  keep its invariant.
\<close>

fun ring_admissible :: "'g RingRng \<Rightarrow> 'g RingSys \<Rightarrow> 'g RingCall \<Rightarrow> bool" where
  "ring_admissible rng s (Rc_new entries) = (entries \<le> 2 ^ 30 \<and> next_ring_fd (iou_of s) + 1 < 2 ^ 31)"
| "ring_admissible rng s (Rc_push f e) = sqe_fits (sqe_op e)"
| "ring_admissible rng s (Rc_sync i) = (i < length (cqs s))"
| "ring_admissible rng s (Rc_next i) = (i < length (cqs s) \<and> permutes_slices rng)"
| "ring_admissible rng s (Rc_tick t) = (env_now (sys s) \<le> t)"
| "ring_admissible rng s (Rc_fs fs) = (fs_inv fs \<and> cache_ok fs \<and> fs_now fs = env_now (sys s))"
| "ring_admissible rng s _ = True"

definition ring_ok :: "duration \<Rightarrow> RingState \<Rightarrow> bool" where
  "ring_ok now r \<longleftrightarrow> length (sq r) \<le> depth r \<and> is_power_of_two (depth r) \<and> matured_at now r \<and> bag_fits r \<and>
     list_all (\<lambda>e. sqe_fits (sqe_op e)) (sq r)"

definition balanced :: "RawFd \<Rightarrow> RingState \<Rightarrow> 'g RingSys \<Rightarrow> bool" where
  "balanced f r s \<longleftrightarrow> pushed s f = mset (map sqe_user_data (sq r)) + tags r + reaped s f"

definition env_inv :: "'g RingEnv \<Rightarrow> bool" where
  "env_inv env \<longleftrightarrow> fs_inv (env_fs env) \<and> cache_ok (env_fs env) \<and> fs_now (env_fs env) = env_now env \<and>
     imap_wf (rings (env_iou env))"

definition ring_inv :: "'g RingSys \<Rightarrow> bool" where
  "ring_inv s \<longleftrightarrow> env_inv (sys s) \<and>
     (\<forall>f r. imap_get (rings (iou_of s)) f = Some r \<longrightarrow>
        f < next_ring_fd (iou_of s) \<and> ring_ok (env_now (sys s)) r \<and> balanced f r s) \<and>
     (\<forall>f \<ge> next_ring_fd (iou_of s). pushed s f = {#} \<and> reaped s f = {#})"

section \<open>Each call keeps the invariant\<close>

lemma next_power_of_two_ge: "n \<le> next_power_of_two n"
proof (induction n rule: next_power_of_two.induct)
  case (1 n)
  then show ?case by (cases "n \<le> 1") (simp add: next_power_of_two.simps, subst next_power_of_two.simps, force)
qed

lemma next_power_of_two_le: "n \<le> 2 ^ k \<Longrightarrow> next_power_of_two n \<le> 2 ^ k"
proof (induction k arbitrary: n)
  case (Suc k)
  then have "(n + 1) div 2 \<le> 2 ^ k" by simp
  from Suc.IH [OF this] show ?case by (subst next_power_of_two.simps) simp
qed (simp add: next_power_of_two.simps)

lemma next_power_of_two_power: "is_power_of_two (next_power_of_two n)"
proof (induction n rule: next_power_of_two.induct)
  case (1 n)
  show ?case
  proof (cases "n \<le> 1")
    case True
    then show ?thesis by (simp add: next_power_of_two.simps is_power_of_two.simps)
  next
    case False
    with next_power_of_two_ge [of "(n + 1) div 2"] have "0 < next_power_of_two ((n + 1) div 2)" by fastforce
    with False 1 show ?thesis
      by (subst next_power_of_two.simps, subst is_power_of_two.simps) auto
  qed
qed

lemma ring_new_ok: "ring_ok now (RingState_new (max (next_power_of_two n) 1))"
proof -
  have "max (next_power_of_two n) 1 = next_power_of_two n"
  proof (cases "n = 0")
    case False
    with next_power_of_two_ge [of n] show ?thesis by simp
  qed (simp add: next_power_of_two.simps)
  then show ?thesis
    by (simp add: ring_ok_def RingState_new_def next_power_of_two_power matured_at_def bag_fits_def ring_bag_def)
qed

lemma tags_new [simp]: "tags (RingState_new d) = {#}" "sq (RingState_new d) = []"
  by (simp_all add: tags_def ring_bag_def RingState_new_def)

lemma matured_mono: "\<lbrakk>matured_at t r; t \<le> t'\<rbrakk> \<Longrightarrow> matured_at t' r"
  by (auto simp: matured_at_def list_all_iff cqe_due_def)

lemma ring_ok_mono: "\<lbrakk>ring_ok t r; t \<le> t'\<rbrakk> \<Longrightarrow> ring_ok t' r"
  by (auto simp: ring_ok_def intro: matured_mono)

text \<open>The calls on one ring replace it and may change the counters of that ring only.\<close>

lemma ring_inv_update:
  assumes inv: "ring_inv s" and r: "imap_get (rings (iou_of s)) f = Some r"
    and sys: "env_inv (sys s')" "env_now (sys s') = env_now (sys s)"
      "rings (iou_of s') = imap_insert f r' (rings (iou_of s))" "next_ring_fd (iou_of s') = next_ring_fd (iou_of s)"
    and ok: "ring_ok (env_now (sys s)) r'" "balanced f r' s'"
    and rest: "\<And>h. h \<noteq> f \<Longrightarrow> pushed s' h = pushed s h \<and> reaped s' h = reaped s h"
  shows "ring_inv s'"
proof -
  have "f < next_ring_fd (iou_of s)" using inv r by (auto simp: ring_inv_def)
  with inv sys ok rest show ?thesis
    unfolding ring_inv_def by (auto simp: imap_simps balanced_def split: if_splits)
qed

lemma inv_push_call:
  assumes "ring_inv s" "sqe_fits (sqe_op e)"
  shows "returns (ring_step rng s (Rc_push f e)) ring_inv"
proof (cases "imap_get (rings (iou_of s)) f")
  case None
  then show ?thesis using assms by (simp add: sq_push_def)
next
  case (Some r)
  show ?thesis
  proof (cases "depth r \<le> length (sq r)")
    case True
    then show ?thesis using assms Some by (simp add: sq_push_def)
  next
    case False
    let ?r = "r\<lparr>sq := sq r @ [e]\<rparr>"
    have r: "ring_ok (env_now (sys s)) r" "balanced f r s" using assms(1) Some by (auto simp: ring_inv_def)
    have "ring_ok (env_now (sys s)) ?r"
      using r(1) assms(2) False by (auto simp: ring_ok_def matured_at_def bag_fits_def ring_bag_def)
    moreover have "env_inv ((sys s)\<lparr>env_iou := (iou_of s)\<lparr>rings := imap_insert f ?r (rings (iou_of s))\<rparr>\<rparr>)"
      using assms(1) by (auto simp: ring_inv_def env_inv_def distinct_update)
    ultimately show ?thesis using r(2) False Some
      by (auto simp: sq_push_def balanced_def tags_def ring_bag_def intro!: ring_inv_update [OF assms(1) Some, where r' = ?r])
  qed
qed

lemma inv_submit_call:
  fixes s :: "'a RingSys"
  assumes inv: "ring_inv s"
  shows "returns (schedule_pending rng f (sys s)) (\<lambda>(res, env). ring_inv (s\<lparr>sys := env\<rparr>))"
proof (cases "imap_get (rings (iou_of s)) f")
  case None
  then show ?thesis using inv by (simp add: schedule_pending_def)
next
  case (Some r)
  have r: "ring_ok (env_now (sys s)) r" "balanced f r s" "env_inv (sys s)" "cache_ok (env_fs (sys s))"
    using inv Some by (auto simp: ring_inv_def env_inv_def)
  from schedule_pending_spec [OF Some r(4)] show ?thesis
  proof (rule returns_mono, clarify)
    fix env :: "'a RingEnv" and r'
    assume fs: "same_files (env_fs (sys s)) (env_fs env)" "cache_ok (env_fs env)" "env_now env = env_now (sys s)"
      and iou: "env_iou env = (iou_of s)\<lparr>rings := imap_insert f r' (rings (iou_of s))\<rparr>"
      and b: "batch (sq r) (r\<lparr>sq := []\<rparr>) r'"
      and fits: "bag_fits r \<longrightarrow> list_all (\<lambda>e. sqe_fits (sqe_op e)) (sq r) \<longrightarrow> bag_fits r'"
    have "ring_ok (env_now (sys s)) r'"
      using r(1) b fits by (auto simp: ring_ok_def batch_def matured_at_def list_all_iff)
    moreover have "balanced f r' (s\<lparr>sys := env\<rparr>)"
      using r(2) b by (simp add: balanced_def batch_def tags_def ring_bag_def)
    moreover have "env_inv env"
      using r(3) fs iou same_files_inv [OF fs(1)] same_files_now [OF fs(1)] by (auto simp: env_inv_def distinct_update)
    ultimately show "ring_inv (s\<lparr>sys := env\<rparr>)"
      using fs iou by (auto intro!: ring_inv_update [OF inv Some, where r' = r'])
  qed
qed

text \<open>What one call of \<^verbatim>\<open>next\<close> does to the ring it reads and to its surroundings.\<close>

lemma cq_next_spec:
  fixes env :: "'g RingEnv"
  assumes "permutes_slices rng" "env_inv env" and r: "imap_get (rings (env_iou env)) (cq_ring q) = Some r"
    and ok: "ring_ok (env_now env) r"
  shows "returns (cq_next rng q env) (\<lambda>(c, q', env'). env_inv env' \<and> env_now env' = env_now env \<and> cq_ring q' = cq_ring q \<and>
    (\<exists>r'. env_iou env' = (env_iou env)\<lparr>rings := imap_insert (cq_ring q) r' (rings (env_iou env))\<rparr> \<and>
       ring_ok (env_now env) r' \<and> sq r' = sq r \<and> cq_notify r' = cq_notify r \<and>
       (case c of
          None \<Rightarrow> ring_bag r' = ring_bag r \<and> q' = q \<and>
            (case visible q of None \<Rightarrow> True | Some n \<Rightarrow> n = 0 \<or> filter_mset (cqe_due (env_now env)) (ring_bag r) = {#})
        | Some e \<Rightarrow> (\<exists>x n. cqe_user_data x = res_user_data e \<and> cqe_due (env_now env) x \<and>
            ring_bag r = add_mset x (ring_bag r') \<and> visible q = Some (Suc n) \<and> visible q' = Some n))))"
proof (cases "\<exists>n. visible q = Some (Suc n)")
  case False
  then have "cq_next rng q env = Some (None, q, env)" by (auto simp: cq_next_def gr0_conv_Suc split: option.split)
  moreover have "env_iou env = (env_iou env)\<lparr>rings := imap_insert (cq_ring q) r (rings (env_iou env))\<rparr>"
    using r by (cases "env_iou env") (simp add: update_triv)
  moreover have "visible q = None \<or> visible q = Some 0" using False by (metis not0_implies_Suc not_None_eq)
  ultimately show ?thesis using assms by (auto intro!: exI [of _ r])
next
  case True
  then obtain n where n: "visible q = Some (Suc n)" by blast
  let ?fs = "env_fs env"
  have env: "fs_inv ?fs" "cache_ok ?fs" "fs_now ?fs = env_now env" "imap_wf (rings (env_iou env))"
    using assms(2) by (auto simp: env_inv_def)
  have m: "matured_at (env_now env) r" using ok by (simp add: ring_ok_def)
  obtain c r1 g where pop: "pop_ready rng (env_now env) r (fs_rng ?fs) = (c, r1, g)" by (metis surj_pair)
  show ?thesis
  proof (cases c)
    case None
    note spec = pop_ready_None [OF assms(1) m pop [unfolded None]]
    have "ring_ok (env_now env) r1" using ok spec by (simp add: ring_ok_def bag_fits_def)
    with None pop n r env spec show ?thesis
      by (auto simp: cq_next_def env_inv_def cache_ok_def distinct_update intro!: exI [of _ r1])
  next
    case (Some x)
    note spec = pop_ready_Some [OF assms(1) m pop [unfolded Some]]
    have "ring_ok (env_now env) r1" "apply_fits (cqe_apply x)"
      using ok spec by (auto simp: ring_ok_def bag_fits_def)
    moreover have "fs_inv (?fs\<lparr>fs_rng := g\<rparr>)" using env by simp
    ultimately have "returns (execute rng (cqe_apply x) (?fs\<lparr>fs_rng := g\<rparr>) (env_mem env) (env_now env))
      (\<lambda>(res, fs', mem'). keeps_fs (?fs\<lparr>fs_rng := g\<rparr>) fs')"
      by (intro execute_keeps)
    then obtain res fs' mem' where
      "execute rng (cqe_apply x) (?fs\<lparr>fs_rng := g\<rparr>) (env_mem env) (env_now env) = Some (res, fs', mem')"
      "keeps_fs (?fs\<lparr>fs_rng := g\<rparr>) fs'" by (auto simp: returns_def)
    with Some pop n r env spec \<open>ring_ok (env_now env) r1\<close> show ?thesis
      by (auto simp: cq_next_def env_inv_def cache_ok_def keeps_fs_def distinct_update intro!: exI [of _ r1])
  qed
qed

lemma cq_next_gone:
  "imap_get (rings (env_iou env)) (cq_ring q) = None \<Longrightarrow> cq_next rng q env = Some (None, q, env)"
  by (auto simp: cq_next_def split: option.split)

lemma inv_next_call:
  fixes s :: "'a RingSys"
  assumes inv: "ring_inv s" and "permutes_slices rng"
  shows "returns (ring_step rng s (Rc_next i)) ring_inv"
proof (cases "imap_get (rings (iou_of s)) (cq_ring (cqs s ! i))")
  case None
  from cq_next_gone [OF this] inv show ?thesis by (simp add: count_reaped_def ring_inv_def balanced_def)
next
  case (Some r)
  have r: "ring_ok (env_now (sys s)) r" "balanced (cq_ring (cqs s ! i)) r s" "env_inv (sys s)"
    using inv Some by (auto simp: ring_inv_def)
  have "returns (cq_next rng (cqs s ! i) (sys s)) (\<lambda>(c, q, env).
    ring_inv (count_reaped (cq_ring (cqs s ! i)) c (s\<lparr>sys := env, cqs := (cqs s)[i := q]\<rparr>)))"
    using cq_next_spec [OF assms(2) r(3) Some r(1)]
  proof (rule returns_mono, clarify)
    fix c :: "Cqe option" and q r' and env :: "'a RingEnv"
    assume env: "env_inv env" "env_now env = env_now (sys s)"
      "env_iou env = (iou_of s)\<lparr>rings := imap_insert (cq_ring (cqs s ! i)) r' (rings (iou_of s))\<rparr>"
      and r': "ring_ok (env_now (sys s)) r'" "sq r' = sq r"
      and c: "case c of
          None \<Rightarrow> ring_bag r' = ring_bag r \<and> q = cqs s ! i \<and> (case visible (cqs s ! i) of None \<Rightarrow> True
            | Some n \<Rightarrow> n = 0 \<or> filter_mset (cqe_due (env_now (sys s))) (ring_bag r) = {#})
        | Some e \<Rightarrow> (\<exists>x n. cqe_user_data x = res_user_data e \<and> cqe_due (env_now (sys s)) x \<and>
            ring_bag r = add_mset x (ring_bag r') \<and> visible (cqs s ! i) = Some (Suc n) \<and> visible q = Some n)"
    have "balanced (cq_ring (cqs s ! i)) r' (count_reaped (cq_ring (cqs s ! i)) c (s\<lparr>sys := env, cqs := (cqs s)[i := q]\<rparr>))"
      using r(2) r'(2) c by (auto simp: balanced_def count_reaped_def tags_def split: option.splits)
    then show "ring_inv (count_reaped (cq_ring (cqs s ! i)) c (s\<lparr>sys := env, cqs := (cqs s)[i := q]\<rparr>))"
      using env r' by (auto simp: count_reaped_def intro!: ring_inv_update [OF inv Some, where r' = r'])
  qed
  then show ?thesis by (auto simp: case_prod_beta' returns_def)
qed

lemma inv_new_call:
  assumes inv: "ring_inv s" and "entries \<le> 2 ^ 30" "next_ring_fd (iou_of s) + 1 < 2 ^ 31"
  shows "returns (ring_step rng s (Rc_new entries)) ring_inv"
proof (cases "entries = 0")
  case False
  let ?d = "max (next_power_of_two entries) 1" and ?iou = "iou_of s"
  have le: "next_power_of_two entries \<le> 2 ^ 30" by (rule next_power_of_two_le [OF assms(2)])
  then have "?d * 2 < 2 ^ 32" by simp
  with False assms(3) le have step: "ring_step rng s (Rc_new entries) = Some (set_iou
      (?iou\<lparr>next_ring_fd := next_ring_fd ?iou + 1, rings := imap_insert (next_ring_fd ?iou) (RingState_new ?d) (rings ?iou)\<rparr>) s)"
    by (simp add: IoUring_new_def IoUring_new_inner_def alloc_ring_fd_def Let_def)
  have rest: "f < next_ring_fd ?iou" "ring_ok (env_now (sys s)) r" "balanced f r s"
    if "imap_get (rings ?iou) f = Some r" for f r
    using that inv by (auto simp: ring_inv_def)
  have "env_inv (sys s)" "pushed s (next_ring_fd ?iou) = {#} \<and> reaped s (next_ring_fd ?iou) = {#}"
    using inv by (auto simp: ring_inv_def)
  then show ?thesis unfolding step using inv ring_new_ok rest
    by (auto simp: ring_inv_def env_inv_def imap_simps balanced_def distinct_update less_SucI split: if_splits)
qed (use inv in \<open>simp add: IoUring_new_def IoUring_new_inner_def\<close>)

lemma inv_drop_call: "ring_inv s \<Longrightarrow> ring_inv (set_iou (IoUring_drop f (iou_of s)) s)"
  by (cases "imap_get (rings (iou_of s)) f")
    (simp_all add: ring_inv_def env_inv_def IoUring_drop_def retire_def balanced_def imap_get_swap_remove
      imap_wf_swap_remove del: map_of_eq_Some_iff)

lemma inv_clock [simp]: "fs_inv (fs\<lparr>fs_now := t\<rparr>) = fs_inv fs" "cache_ok (fs\<lparr>fs_now := t\<rparr>) = cache_ok fs"
  by (simp_all add: fs_inv_def fs_wf_def fds_ok_def cache_ok_def)

lemma inv_crash_call: "ring_inv s \<Longrightarrow> ring_inv (set_iou (IoUring_crash (iou_of s)) s)"
  by (auto simp: ring_inv_def env_inv_def IoUring_crash_def retire_def)

lemma ring_step_safe:
  fixes s :: "'a RingSys"
  assumes inv: "ring_inv s" and adm: "ring_admissible rng s c"
  shows "returns (ring_step rng s c) ring_inv"
proof (cases c)
  case (Rc_submit f)
  with inv_submit_call [OF inv, of rng f] show ?thesis by (auto simp: returns_def submit_def)
next
  case (Rc_submit_args f want args)
  with inv inv_submit_call [OF inv, of rng f] show ?thesis by (auto simp: returns_def submit_with_args_def)
next
  case (Rc_tick t)
  with inv adm have "ring_ok t r" if "imap_get (rings (iou_of s)) f = Some r" for f r
    using that ring_ok_mono [of "env_now (sys s)" r t] by (simp add: ring_inv_def del: map_of_eq_Some_iff)
  with Rc_tick inv show ?thesis
    by (simp add: ring_inv_def env_inv_def ring_enter_def balanced_def del: map_of_eq_Some_iff)
next
  case (Rc_fs fs)
  with inv adm show ?thesis by (auto simp: ring_inv_def env_inv_def balanced_def)
next
  case (Rc_completion f)
  with inv show ?thesis by (simp add: ring_inv_def balanced_def)
next
  case (Rc_sync i)
  with inv show ?thesis by (simp add: ring_inv_def balanced_def)
qed (use inv adm in \<open>simp_all add: inv_push_call inv_next_call inv_new_call inv_drop_call inv_crash_call del: ring_step.simps(1,4,9)\<close>)

interpretation ring_run: invariant_system "ring_step rng" ring_inv "ring_admissible rng" for rng
  by unfold_locales (use ring_step_safe in \<open>fastforce simp: returns_def\<close>)+

end
