(* ===== verification/Ring_Props.thy ===== *)
theory Ring_Props
  imports Ring_Run
begin

text \<open>
  What a user of the \<^verbatim>\<open>io_uring\<close> shim can rely on: every accepted entry completes exactly
  once, a synchronised queue hands out every due completion, a cancelled operation has no
  effect, no wake-up of \<^verbatim>\<open>AsyncFd::readable\<close> is lost, and a completion acts on the file
  system as the \<^verbatim>\<open>std::fs\<close> shim does.
\<close>

section \<open>Conservation\<close>

definition fresh_sys :: "'g FsState \<Rightarrow> memory \<Rightarrow> 'g RingSys" where
  "fresh_sys fs mem = \<lparr>sys = \<lparr>env_fs = fs, env_iou = IoUringHostState_new, env_now = fs_now fs, env_mem = mem\<rparr>,
     cqs = [], pushed = (\<lambda>_. {#}), reaped = (\<lambda>_. {#})\<rparr>"

lemma fresh_sys_inv: "\<lbrakk>fs_inv fs; cache_ok fs\<rbrakk> \<Longrightarrow> ring_inv (fresh_sys fs mem)"
  by (simp add: ring_inv_def env_inv_def fresh_sys_def IoUringHostState_new_def)

text \<open>
  C11. Every entry accepted by \<^verbatim>\<open>push\<close> is at any later time in exactly one place: still in the
  submission queue, scheduled or matured, or handed out by \<^verbatim>\<open>next\<close>. For every sequence of
  admissible calls on the rings of a host (interleaved with ticks and other uses of the file
  system) every call returns, and on every live ring the tags pushed are, as a multiset, the
  tags queued plus the tags scheduled plus the tags handed out; the submission queue never
  exceeds its depth, a power of two.
\<close>

theorem ring_conserves_entries:
  assumes "fs_inv fs" "cache_ok fs" "ring_run.admissible_run rng (fresh_sys fs mem) calls"
  shows "\<exists>s. ring_run.run rng (fresh_sys fs mem) calls = Some s \<and>
    (\<forall>f r. imap_get (rings (env_iou (sys s))) f = Some r \<longrightarrow>
       pushed s f = mset (map sqe_user_data (sq r)) + image_mset cqe_user_data (mset (inflight r @ ready r)) + reaped s f \<and>
       length (sq r) \<le> depth r \<and> is_power_of_two (depth r))"
proof -
  from ring_run.run_inv [OF fresh_sys_inv [OF assms(1,2)] assms(3)] obtain s where
    "ring_run.run rng (fresh_sys fs mem) calls = Some s" "ring_inv s" by blast
  then show ?thesis
    by (auto simp: ring_inv_def balanced_def ring_ok_def tags_def ring_bag_def simp del: map_of_eq_Some_iff)
qed

section \<open>Draining\<close>

text \<open>A consumer's loop: call \<^verbatim>\<open>next\<close> until it has nothing more, at most \<open>n\<close> times.\<close>

fun cq_collect ::
  "'g RingRng \<Rightarrow> nat \<Rightarrow> CompletionQueue \<Rightarrow> 'g RingEnv \<Rightarrow> (Cqe list \<times> CompletionQueue \<times> 'g RingEnv) option" where
  "cq_collect rng 0 q env = Some ([], q, env)"
| "cq_collect rng (Suc n) q env = do {
     (c, q1, env1) \<leftarrow> cq_next rng q env;
     case c of
       None \<Rightarrow> Some ([], q1, env1)
     | Some e \<Rightarrow> do {
         (es, q2, env2) \<leftarrow> cq_collect rng n q1 env1;
         Some (e # es, q2, env2)
       }
   }"

definition perform :: "'g RingRng \<Rightarrow> duration \<Rightarrow> ScheduledCqe \<Rightarrow> 'g FsState \<times> memory \<Rightarrow> ('g FsState \<times> memory) option" where
  "perform rng now x = (\<lambda>(fs, mem). map_option snd (execute rng (cqe_apply x) fs mem now))"

lemma perform_keeps:
  assumes "fs_inv fs" "apply_fits (cqe_apply x)"
  obtains res fs' mem' where "execute rng (cqe_apply x) fs mem now = Some (res, fs', mem')"
    "perform rng now x (fs, mem) = Some (fs', mem')" "fs_inv fs'" "fs_now fs' = fs_now fs"
  using execute_keeps [OF assms, of rng mem now] by (auto simp: returns_def perform_def keeps_fs_def)

lemma collect_drain:
  fixes env :: "'g RingEnv"
  assumes "imap_get (rings (env_iou env)) f = Some r" "fs_inv (env_fs env)" "fs_now (env_fs env) = now"
    "bag_fits r" "permutes_slices rng" "matured_at now r" "n \<le> v"
    "ring.drain rng (perform rng now) n now r (env_fs env, env_mem env) = Some (xs, r', fs', mem')"
  shows "\<exists>cs. cq_collect rng n \<lparr>cq_ring = f, visible = Some v\<rparr> env =
      Some (cs, \<lparr>cq_ring = f, visible = Some (v - length xs)\<rparr>,
        env\<lparr>env_fs := fs', env_iou := (env_iou env)\<lparr>rings := imap_insert f r' (rings (env_iou env))\<rparr>, env_mem := mem'\<rparr>) \<and>
    map res_user_data cs = map cqe_user_data xs"
  using assms
proof (induction n arbitrary: env r v xs)
  case 0
  then show ?case by (cases env, cases "env_iou env") (simp add: update_triv)
next
  case (Suc n)
  obtain c r1 g where pop: "pop_ready rng now r (fs_rng (env_fs env)) = (c, r1, g)" by (metis surj_pair)
  let ?fs1 = "(env_fs env)\<lparr>fs_rng := g\<rparr>"
  have pe: "pop_env rng now r (env_fs env, env_mem env) = (c, r1, ?fs1, env_mem env)" by (simp add: pop_env_def pop)
  from Suc.prems(7) obtain v' where v: "v = Suc v'" "n \<le> v'" by (cases v) auto
  show ?case
  proof (cases c)
    case None
    with Suc.prems pop pe v show ?thesis by (auto simp: cq_next_def)
  next
    case (Some x)
    note spec = pop_ready_Some [OF Suc.prems(5,6) pop [unfolded Some]]
    have fits: "apply_fits (cqe_apply x)" "bag_fits r1" using Suc.prems(4) spec(2) by (auto simp: bag_fits_def)
    have inv1: "fs_inv ?fs1" using Suc.prems(2) by simp
    obtain res fs2 mem2 where ex: "execute rng (cqe_apply x) ?fs1 (env_mem env) now = Some (res, fs2, mem2)"
      "perform rng now x (?fs1, env_mem env) = Some (fs2, mem2)" "fs_inv fs2" "fs_now fs2 = fs_now ?fs1"
      using perform_keeps [OF inv1 fits(1)] by metis
    from Suc.prems(8) pe Some ex obtain xs' where
      xs: "ring.drain rng (perform rng now) n now r1 (fs2, mem2) = Some (xs', r', fs', mem')" "xs = x # xs'"
      by (auto simp: bind_Some_iff)
    let ?env1 = "env\<lparr>env_fs := fs2, env_iou := (env_iou env)\<lparr>rings := imap_insert f r1 (rings (env_iou env))\<rparr>, env_mem := mem2\<rparr>"
    have "imap_get (rings (env_iou ?env1)) f = Some r1" by (simp add: imap_simps)
    from Suc.IH [of ?env1 r1 v' xs', OF this _ _ fits(2) Suc.prems(5) spec(3) v(2)] ex(3,4) Suc.prems(3) xs(1)
    obtain cs where
      "cq_collect rng n \<lparr>cq_ring = f, visible = Some v'\<rparr> ?env1 =
        Some (cs, \<lparr>cq_ring = f, visible = Some (v' - length xs')\<rparr>,
          ?env1\<lparr>env_fs := fs', env_iou := (env_iou ?env1)\<lparr>rings := imap_insert f r' (rings (env_iou ?env1))\<rparr>, env_mem := mem'\<rparr>)"
      "map res_user_data cs = map cqe_user_data xs'" by auto
    with Suc.prems pop Some v ex xs show ?thesis by (auto simp: cq_next_def)
  qed
qed

text \<open>
  C12. After \<^verbatim>\<open>sync\<close> on a fresh completion queue, calling \<^verbatim>\<open>next\<close> as often as \<^verbatim>\<open>len\<close> says
  returns each time; the entries handed out carry exactly the tags of the completions whose time
  has come, each once, in whatever order they were shuffled; what remains on the ring is exactly
  what is not yet due, and the queue is then empty until the next \<^verbatim>\<open>sync\<close>.
\<close>

theorem sync_then_next_yields_all_due:
  fixes env :: "'g RingEnv"
  assumes "permutes_slices rng" "env_inv env" "imap_get (rings (env_iou env)) f = Some r" "ring_ok (env_now env) r"
  shows "\<exists>cs q env' r'.
    cq_collect rng (cq_len (cq_sync env (CompletionQueue_new f))) (cq_sync env (CompletionQueue_new f)) env = Some (cs, q, env') \<and>
    mset (map res_user_data cs) = image_mset cqe_user_data (filter_mset (cqe_due (env_now env)) (ring_bag r)) \<and>
    imap_get (rings (env_iou env')) f = Some r' \<and>
    ring_bag r' = filter_mset (\<lambda>x. \<not> cqe_due (env_now env) x) (ring_bag r) \<and>
    cq_next rng q env' = Some (None, q, env')"
proof -
  let ?now = "env_now env" and ?n = "ready_cq_count (env_now env) r"
  have e: "fs_inv (env_fs env)" "fs_now (env_fs env) = ?now" using assms(2) by (auto simp: env_inv_def)
  have k: "bag_fits r" "matured_at ?now r" using assms(4) by (auto simp: ring_ok_def)
  have sync: "cq_sync env (CompletionQueue_new f) = \<lparr>cq_ring = f, visible = Some ?n\<rparr>"
    by (simp add: cq_sync_def CompletionQueue_new_def assms(3) del: map_of_eq_Some_iff)
  have n: "?n = size (filter_mset (cqe_due ?now) (ring_bag r))" by (rule ready_cq_count_bag [OF k(2)])
  have wf: "permutes_slices rng \<and> matured_at ?now r" using assms(1) k by simp
  have "\<exists>res. ring.drain rng (perform rng ?now) ?n ?now r (env_fs env, env_mem env) = Some res"
  proof (rule ring.drain_returns [OF wf, where R = "\<lambda>(fs, mem). fs_inv fs"])
    fix x and g :: "'g FsState \<times> memory"
    assume "x \<in># ring_bag r" "case g of (fs, mem) \<Rightarrow> fs_inv fs"
    with k(1) have "fs_inv (fst g)" "apply_fits (cqe_apply x)" by (auto simp: bag_fits_def)
    from perform_keeps [OF this, of rng "snd g" ?now]
    show "\<exists>g'. perform rng ?now x g = Some g' \<and> (case g' of (fs, mem) \<Rightarrow> fs_inv fs)" by (metis case_prod_conv prod.collapse)
  qed (use e in \<open>auto simp: pop_env_def Let_def split: prod.splits\<close>)
  then obtain xs r' fs' mem' where
    d: "ring.drain rng (perform rng ?now) ?n ?now r (env_fs env, env_mem env) = Some (xs, r', fs', mem')" by (metis surj_pair)
  have xs: "mset xs = filter_mset (cqe_due ?now) (ring_bag r)" "ring_bag r = mset xs + ring_bag r'"
    using ring.drain_all [OF wf d eq_refl [OF n [symmetric]]] by blast+
  have len: "length xs = ?n" using ring.drain_length [OF wf d n] .
  have left: "ring_bag r' = filter_mset (\<lambda>x. \<not> cqe_due ?now x) (ring_bag r)"
    by (rule add_left_imp_eq [of "mset xs"]) (metis xs multiset_partition)
  from collect_drain [OF assms(3) e k(1) assms(1) k(2) order_refl d] obtain cs where
    "cq_collect rng ?n \<lparr>cq_ring = f, visible = Some ?n\<rparr> env =
      Some (cs, \<lparr>cq_ring = f, visible = Some 0\<rparr>,
        env\<lparr>env_fs := fs', env_iou := (env_iou env)\<lparr>rings := imap_insert f r' (rings (env_iou env))\<rparr>, env_mem := mem'\<rparr>)"
    "map res_user_data cs = map cqe_user_data xs" using len by auto
  moreover from this(2) xs(1) have "mset (map res_user_data cs) = image_mset cqe_user_data (filter_mset (cqe_due ?now) (ring_bag r))"
    by (metis mset_map)
  ultimately show ?thesis unfolding sync using left
    by (intro exI [of _ cs] exI conjI) (auto simp: cq_len_def imap_simps cq_next_def)
qed

section \<open>Cancelling\<close>

lemma cancel_parts:
  assumes "count (tags r) target \<le> 1" "ud \<noteq> target"
  shows "target \<in># tags r \<Longrightarrow>
      {#x \<in># ring_bag (ring_cancel ud target now r). cqe_user_data x = target#} =
        {#\<lparr>cqe_when = now, cqe_user_data = target, cqe_apply = ImmediateError (- ECANCELED)\<rparr>#} \<and>
      \<lparr>cqe_when = now, cqe_user_data = ud, cqe_apply = ImmediateError 0\<rparr> \<in># ring_bag (ring_cancel ud target now r) \<and>
      (\<forall>fs mem t. execute rng (ImmediateError (- ECANCELED)) fs mem t = Some (- 125, fs, mem))"
    and "target \<notin># tags r \<Longrightarrow>
      ring_bag (ring_cancel ud target now r) =
        add_mset \<lparr>cqe_when = now, cqe_user_data = ud, cqe_apply = ImmediateError (- 2)\<rparr> (ring_bag r)"
proof -
  obtain r1 found where d: "drop_target target r = (r1, found)" by (metis surj_pair)
  note eff = ring_cancel_effect(1) [OF d, of ud now]
  { assume "target \<in># tags r"
    then have found using drop_target_effect(5) [OF d] by (auto simp: tags_def)
    with drop_target_effect(6) [OF d] obtain x where x: "cqe_user_data x = target" "ring_bag r = add_mset x (ring_bag r1)" by blast
    with assms(1) have "target \<notin># tags r1" by (simp add: tags_def count_eq_zero_iff)
    then have "{#x \<in># ring_bag r1. cqe_user_data x = target#} = {#}" by (auto simp: tags_def filter_mset_eq_mempty_iff)
    with eff \<open>found\<close> assms(2)
    show "{#x \<in># ring_bag (ring_cancel ud target now r). cqe_user_data x = target#} =
        {#\<lparr>cqe_when = now, cqe_user_data = target, cqe_apply = ImmediateError (- ECANCELED)\<rparr>#} \<and>
      \<lparr>cqe_when = now, cqe_user_data = ud, cqe_apply = ImmediateError 0\<rparr> \<in># ring_bag (ring_cancel ud target now r) \<and>
      (\<forall>fs mem t. execute rng (ImmediateError (- ECANCELED)) fs mem t = Some (- 125, fs, mem))"
      by (simp add: ECANCELED_def) }
  { assume t: "target \<notin># tags r"
    have "\<not> found" using t drop_target_effect(6) [OF d] by (auto simp: tags_def)
    with eff drop_target_effect(5) [OF d]
    show "ring_bag (ring_cancel ud target now r) =
        add_mset \<lparr>cqe_when = now, cqe_user_data = ud, cqe_apply = ImmediateError (- 2)\<rparr> (ring_bag r)"
      by (simp add: RING_ENOENT_def) }
qed

text \<open>
  C13. Cancelling a scheduled operation whose tag is unique on the ring leaves exactly one
  completion with that tag, and executing it reports \<^verbatim>\<open>-ECANCELED\<close> and changes neither the file
  system nor memory, so the buffer of the cancelled operation is never touched again; the cancel
  itself completes with 0. Without a match it completes with \<^verbatim>\<open>-ENOENT\<close> and the ring keeps every
  completion it had.
\<close>

theorem cancel_suppresses_effects:
  assumes "count (tags r) target \<le> 1" "ud \<noteq> target"
  shows "if target \<in># tags r
    then {#x \<in># ring_bag (ring_cancel ud target now r). cqe_user_data x = target#} =
        {#\<lparr>cqe_when = now, cqe_user_data = target, cqe_apply = ImmediateError (- ECANCELED)\<rparr>#} \<and>
      \<lparr>cqe_when = now, cqe_user_data = ud, cqe_apply = ImmediateError 0\<rparr> \<in># ring_bag (ring_cancel ud target now r) \<and>
      (\<forall>fs mem t. execute rng (ImmediateError (- ECANCELED)) fs mem t = Some (- 125, fs, mem))
    else ring_bag (ring_cancel ud target now r) =
        add_mset \<lparr>cqe_when = now, cqe_user_data = ud, cqe_apply = ImmediateError (- 2)\<rparr> (ring_bag r)"
  using cancel_parts [OF assms] by simp


section \<open>Wake-ups\<close>

text \<open>
  What may happen to ring \<open>f\<close> of a host between two looks: its \<^verbatim>\<open>Notify\<close> is called, or the ring
  stays and completions are only taken from it. A removed ring never comes back, because
  descriptors are not used twice.
\<close>

definition ring_moves :: "RawFd \<Rightarrow> IoUringHostState \<Rightarrow> IoUringHostState \<Rightarrow> bool" where
  "ring_moves f a b \<longleftrightarrow> next_ring_fd a \<le> next_ring_fd b \<and>
     (f < next_ring_fd a \<longrightarrow> notify_count f a \<le> notify_count f b \<and>
        (case imap_get (rings a) f of
           None \<Rightarrow> imap_get (rings b) f = None
         | Some r \<Rightarrow> notify_count f a < notify_count f b \<or>
             (\<exists>r'. imap_get (rings b) f = Some r' \<and> ring_bag r' \<subseteq># ring_bag r)))"

lemma moves_refl: "ring_moves f a a"
  by (auto simp: ring_moves_def simp del: map_of_eq_Some_iff split: option.split)

lemma moves_trans:
  assumes "ring_moves f a b" "ring_moves f b c"
  shows "ring_moves f a c"
proof (cases "f < next_ring_fd a")
  case True
  with assms have b: "f < next_ring_fd b" by (simp add: ring_moves_def)
  show ?thesis
  proof (cases "imap_get (rings a) f")
    case None
    with True b assms show ?thesis by (simp add: ring_moves_def del: map_of_eq_Some_iff)
  next
    case (Some r)
    with True b assms show ?thesis
      by (auto simp: ring_moves_def simp del: map_of_eq_Some_iff split: option.splits intro: subset_mset.trans)
  qed
qed (use assms in \<open>simp add: ring_moves_def\<close>)

lemma moves_update:
  assumes "imap_get (rings a) h = Some r"
    "cq_notify r < cq_notify r' \<or> cq_notify r' = cq_notify r \<and> ring_bag r' \<subseteq># ring_bag r"
    "b = a\<lparr>rings := imap_insert h r' (rings a)\<rparr>"
  shows "ring_moves f a b"
  using assms
  by (auto simp: ring_moves_def notify_count_def imap_simps simp del: map_of_eq_Some_iff split: option.split)

lemma moves_push: "sq_push h e a = (res, b) \<Longrightarrow> ring_moves f a b"
  by (cases "imap_get (rings a) h")
    (auto simp: sq_push_def moves_refl ring_bag_def simp del: map_of_eq_Some_iff split: if_splits
      intro!: moves_update [where r' = "(the (imap_get (rings a) h))\<lparr>sq := sq (the (imap_get (rings a) h)) @ [e]\<rparr>"])

lemma moves_new: "IoUring_new n a = Some (res, b) \<Longrightarrow> ring_moves f a b"
  by (auto simp: IoUring_new_def IoUring_new_inner_def alloc_ring_fd_def ring_moves_def notify_count_def imap_simps
      Let_def bind_Some_iff simp del: map_of_eq_Some_iff split: if_splits option.split)

lemma moves_drop: "imap_wf (rings a) \<Longrightarrow> ring_moves f a (IoUring_drop h a)"
  by (auto simp: IoUring_drop_def retire_def ring_moves_def notify_count_def notify_waiters_def imap_get_swap_remove
      simp del: map_of_eq_Some_iff split: option.splits)

lemma moves_crash: "ring_moves f a (IoUring_crash a)"
proof -
  have "imap_get (map (\<lambda>(f, r). (f, cq_notify (notify_waiters r))) rs @ m) f =
    (case imap_get rs f of None \<Rightarrow> imap_get m f | Some r \<Rightarrow> Some (Suc (cq_notify r)))" for rs m
    by (induction rs) (auto simp: notify_waiters_def)
  then show ?thesis
    by (auto simp: IoUring_crash_def retire_def ring_moves_def notify_count_def simp del: map_of_eq_Some_iff split: option.splits)
qed

lemma moves_submit:
  assumes inv: "ring_inv s" and sub: "schedule_pending rng h (sys s) = Some (res, env)"
  shows "ring_moves f (iou_of s) (env_iou env)"
proof (cases "imap_get (rings (iou_of s)) h")
  case None
  with sub show ?thesis by (simp add: schedule_pending_def moves_refl)
next
  case (Some r)
  have "cache_ok (env_fs (sys s))" using inv by (simp add: ring_inv_def env_inv_def)
  from schedule_pending_spec [OF Some this, of rng] sub obtain r' where
    "env_iou env = (iou_of s)\<lparr>rings := imap_insert h r' (rings (iou_of s))\<rparr>" "batch (sq r) (r\<lparr>sq := []\<rparr>) r'"
    by (auto simp: returns_def)
  then show ?thesis
    by (intro moves_update [OF Some]) (auto simp: batch_def ring_bag_def)
qed

lemma moves_next:
  assumes inv: "ring_inv s" and "permutes_slices rng" and nx: "cq_next rng q (sys s) = Some (c, q', env)"
  shows "ring_moves f (iou_of s) (env_iou env)"
proof (cases "imap_get (rings (iou_of s)) (cq_ring q)")
  case None
  with nx cq_next_gone [OF None] show ?thesis by (simp add: moves_refl)
next
  case (Some r)
  have r: "ring_ok (env_now (sys s)) r" "env_inv (sys s)" using inv Some by (auto simp: ring_inv_def)
  from cq_next_spec [OF assms(2) r(2) Some r(1)] nx obtain r' where
    "env_iou env = (iou_of s)\<lparr>rings := imap_insert (cq_ring q) r' (rings (iou_of s))\<rparr>" "cq_notify r' = cq_notify r"
    "ring_bag r' \<subseteq># ring_bag r"
    by (auto simp: returns_def split: option.splits)
  then show ?thesis by (intro moves_update [OF Some]) auto
qed

lemma step_moves:
  assumes inv: "ring_inv s" and "ring_admissible rng s c" "ring_step rng s c = Some s'"
  shows "ring_moves f (iou_of s) (iou_of s') \<and> env_now (sys s) \<le> env_now (sys s')"
proof -
  have wf: "imap_wf (rings (iou_of s))" using inv by (simp add: ring_inv_def env_inv_def)
  have now: "env_now env = env_now (sys s)" if "schedule_pending rng h (sys s) = Some (res, env)" for h res env
    using that schedule_pending_spec [of "sys s" h _ rng] inv
    by (cases "imap_get (rings (iou_of s)) h") (auto simp: schedule_pending_def ring_inv_def env_inv_def returns_def)
  have now': "env_now env = env_now (sys s)" if "cq_next rng q (sys s) = Some (x, q', env)" for q x q' env
    using that by (auto simp: cq_next_def Let_def bind_Some_iff split: option.splits if_splits prod.splits)
  show ?thesis
  proof (cases c)
    case (Rc_push h e)
    obtain res b where "sq_push h e (iou_of s) = (res, b)" by (metis surj_pair)
    with Rc_push assms moves_push [OF this] show ?thesis by (auto split: sum.splits)
  qed (use assms wf now now' in \<open>auto simp: moves_refl moves_drop moves_crash submit_def submit_with_args_def ring_enter_def
      count_reaped_def bind_Some_iff intro: moves_new moves_submit [OF inv] moves_next [OF inv] split: if_splits\<close>)
qed

lemma run_moves:
  "\<lbrakk>ring_inv s; ring_run.admissible_run rng s calls; ring_run.run rng s calls = Some s'\<rbrakk> \<Longrightarrow>
   ring_inv s' \<and> ring_moves f (iou_of s) (iou_of s') \<and> env_now (sys s) \<le> env_now (sys s')"
proof (induction calls arbitrary: s)
  case Nil
  then show ?case by (simp add: moves_refl)
next
  case (Cons c cs)
  then obtain s1 where s1: "ring_step rng s c = Some s1" "ring_run.run rng s1 cs = Some s'"
    by (auto simp: bind_Some_iff)
  have "ring_inv s1" using ring_step_safe [of s rng c] Cons.prems s1 by (auto simp: returns_def)
  with Cons.IH [of s1] Cons.prems s1 step_moves [of s rng c s1 f] show ?case
    by (auto intro: moves_trans)
qed

text \<open>A ring with nothing ready has its next deadline ahead.\<close>

lemma not_ready_deadline:
  assumes "ready_cq_count now r = 0"
  shows "case next_deadline r of None \<Rightarrow> ring_bag r = {#} | Some d \<Rightarrow> now < d \<and> (\<forall>x \<in># ring_bag r. d \<le> cqe_when x)"
proof -
  have "ready r = []" and later: "\<forall>x \<in> set (inflight r). now < cqe_when x"
    using assms by (auto simp: ready_cq_count_def filter_empty_conv)
  then show ?thesis
    by (auto simp: next_deadline_def ring_bag_def)
qed

lemma turn_suspends:
  "readable_turn f env = Notify c \<Longrightarrow>
     \<exists>r. imap_get (rings (env_iou env)) f = Some r \<and> c = notify_count f (env_iou env) \<and> ring_bag r = {#}"
  "readable_turn f env = SleepOrNotify c d \<Longrightarrow>
     \<exists>r. imap_get (rings (env_iou env)) f = Some r \<and> c = notify_count f (env_iou env) \<and>
       (\<forall>x \<in># ring_bag r. env_now env + d \<le> cqe_when x)"
proof -
  have some: "\<exists>r. imap_get (rings (env_iou env)) f = Some r \<and> ready_cq_count (env_now env) r = 0 \<and>
      (case next_deadline r of
         None \<Rightarrow> t = Notify (notify_count f (env_iou env))
       | Some D \<Rightarrow> t = SleepOrNotify (notify_count f (env_iou env)) (D - env_now env) \<or> t = Yield (notify_count f (env_iou env)))"
    if "readable_turn f env = t" "t \<noteq> Gone" "t \<noteq> Guard" for t
    using that
    by (cases "imap_get (rings (env_iou env)) f")
      (auto simp: readable_turn_def Let_def simp del: map_of_eq_Some_iff split: option.splits if_splits)
  show "\<exists>r. imap_get (rings (env_iou env)) f = Some r \<and> c = notify_count f (env_iou env) \<and> ring_bag r = {#}"
    if "readable_turn f env = Notify c"
    using some [OF that] by (auto simp del: map_of_eq_Some_iff dest: not_ready_deadline split: option.splits)
  show "\<exists>r. imap_get (rings (env_iou env)) f = Some r \<and> c = notify_count f (env_iou env) \<and>
       (\<forall>x \<in># ring_bag r. env_now env + d \<le> cqe_when x)"
    if "readable_turn f env = SleepOrNotify c d"
    using some [OF that] by (auto simp del: map_of_eq_Some_iff dest!: not_ready_deadline split: option.splits)
qed

lemma readable_parts:
  fixes s s' :: "'g RingSys"
  assumes "ring_inv s" "ring_run.admissible_run rng s calls" "ring_run.run rng s calls = Some s'"
  shows "\<And>c. readable_turn f (sys s) \<noteq> Yield c"
    and "\<And>c. \<lbrakk>readable_turn f (sys s) = Notify c; readable_turn f (sys s') \<in> {Guard, Gone}\<rbrakk> \<Longrightarrow>
      c < notify_count f (env_iou (sys s'))"
    and "\<And>c d. \<lbrakk>readable_turn f (sys s) = SleepOrNotify c d; readable_turn f (sys s') \<in> {Guard, Gone}\<rbrakk> \<Longrightarrow>
      c < notify_count f (env_iou (sys s')) \<or> env_now (sys s) + d \<le> env_now (sys s')"
proof -
  note moved = run_moves [OF assms, of f]
  show "readable_turn f (sys s) \<noteq> Yield c" for c
    using not_ready_deadline [of "env_now (sys s)"]
    by (fastforce simp: readable_turn_def Let_def simp del: map_of_eq_Some_iff split: option.splits if_splits)
  have waits: "c < notify_count f (iou_of s') \<or> (\<exists>x. x \<in># ring_bag r \<and> cqe_when x \<le> env_now (sys s'))"
    if r: "imap_get (rings (iou_of s)) f = Some r" and c: "c = notify_count f (iou_of s)"
      and turn: "readable_turn f (sys s') \<in> {Guard, Gone}" for c r
  proof (rule disjCI)
    assume none: "\<not> (\<exists>x. x \<in># ring_bag r \<and> cqe_when x \<le> env_now (sys s'))"
    have "f < next_ring_fd (iou_of s)" using assms(1) r by (simp add: ring_inv_def del: map_of_eq_Some_iff)
    with moved r c consider "c < notify_count f (iou_of s')"
      | r' where "imap_get (rings (iou_of s')) f = Some r'" "ring_bag r' \<subseteq># ring_bag r"
      by (auto simp: ring_moves_def simp del: map_of_eq_Some_iff)
    then show "c < notify_count f (iou_of s')"
    proof cases
      case (2 r')
      have "matured_at (env_now (sys s')) r'"
        using moved 2(1) by (simp add: ring_inv_def ring_ok_def del: map_of_eq_Some_iff)
      then have "ready_cq_count (env_now (sys s')) r' = 0"
        using none mset_subset_eqD [OF 2(2)] by (auto simp: ready_cq_count_bag cqe_due_def)
      with 2(1) turn show ?thesis
        by (auto simp: readable_turn_def Let_def simp del: map_of_eq_Some_iff split: option.splits if_splits)
    qed
  qed
  show "c < notify_count f (iou_of s')"
    if "readable_turn f (sys s) = Notify c" "readable_turn f (sys s') \<in> {Guard, Gone}" for c
    using turn_suspends(1) [OF that(1)] waits [OF _ _ that(2)] by fastforce
  show "c < notify_count f (iou_of s') \<or> env_now (sys s) + d \<le> env_now (sys s')"
    if "readable_turn f (sys s) = SleepOrNotify c d" "readable_turn f (sys s') \<in> {Guard, Gone}" for c d
    using turn_suspends(2) [OF that(1)] waits [OF _ _ that(2)] by fastforce
qed

text \<open>
  C14. \<^verbatim>\<open>AsyncFd::readable\<close> never misses its wake-up. If one turn of its loop suspends on the
  ring's \<^verbatim>\<open>Notify\<close> (with a sleep until the next deadline, when there is one), then after any
  sequence of admissible calls on the host's rings a new turn would return (a completion is
  ready, or the ring is gone) only if the \<^verbatim>\<open>Notify\<close> has been called since or the deadline has
  been reached. The arm of the loop that yields because the deadline has already passed is never
  taken.
\<close>

theorem readable_never_misses:
  fixes s s' :: "'g RingSys"
  assumes "ring_inv s" "ring_run.admissible_run rng s calls" "ring_run.run rng s calls = Some s'"
  shows "case readable_turn f (sys s) of
      Yield c \<Rightarrow> False
    | Notify c \<Rightarrow> readable_turn f (sys s') \<in> {Guard, Gone} \<longrightarrow> c < notify_count f (env_iou (sys s'))
    | SleepOrNotify c d \<Rightarrow> readable_turn f (sys s') \<in> {Guard, Gone} \<longrightarrow>
        c < notify_count f (env_iou (sys s')) \<or> env_now (sys s) + d \<le> env_now (sys s')
    | _ \<Rightarrow> True"
  using readable_parts [OF assms, of f] by (cases "readable_turn f (sys s)") auto


end
