(* ===== verification/Ring_Fs.thy ===== *)
theory Ring_Fs
  imports Ring_Props
begin

text \<open>
  The operations of a ring against those of the \<^verbatim>\<open>std::fs\<close> shim, and instances of the ring
  properties.
\<close>

section \<open>The same file system\<close>

text \<open>The error number a shim error stands for.\<close>

definition errno_of :: "IoKind \<times> string \<Rightarrow> int" where
  "errno_of e =
     (if e = HANDLE_GONE then EBADF
      else if fst e = Io_InvalidInput then EINVAL
      else if e = (Io_Other, ''No space left on device'') then ENOSPC
      else EIO)"

definition cqe_result :: "nat io_result \<Rightarrow> int" where
  "cqe_result r = (case r of Inl e \<Rightarrow> - errno_of e | Inr n \<Rightarrow> as_i32 n)"

lemma length_load [simp]: "length (load mem ptr len) = len"
  by (simp add: load_def)

lemma store_load [simp]: "store mem ptr (load mem ptr len) = mem"
  by (auto simp: store_def load_def fun_eq_iff)

definition faultless :: "'g FsState \<Rightarrow> bool" where
  "faultless fs \<longleftrightarrow> io_error_probability fs = 0 \<and> short_read_probability fs = 0 \<and>
     corruption_probability fs = 0 \<and> sync_probability fs = 0"

lemma faultless_draws:
  assumes "faultless fs"
  shows "sample_prob rng (io_error_probability fs) fs = (False, fs)" "flip rng' (io_error_probability fs) fs = (False, fs)"
    "ring_shorten rng n buf fs = (n, buf, fs)" "shorten rng' n buf fs = (n, buf, fs)"
    "ring_corrupt rng n buf fs = (buf, fs)" "corrupt rng' p off n buf fs = (buf, fs)"
  using assms
  by (simp_all add: faultless_def sample_prob_def flip_def ring_shorten_def shorten_def ring_corrupt_def corrupt_def)

lemma aligned_iff: "0 < direct_io_alignment fs \<Longrightarrow>
    misaligned h fs ptr off len \<longleftrightarrow> direct_io h \<and> \<not> direct_io_aligned fs ptr off len"
  by (auto simp: misaligned_def direct_io_aligned_def Let_def mod_eq_0_iff_dvd)

lemma check_space_error: "check_space fs n = Inl e \<Longrightarrow> e = ''No space left on device''"
  by (auto simp: check_space_def split: option.splits if_splits)

lemma errno_simps [simp]:
  "errno_of HANDLE_GONE = EBADF" "errno_of (misaligned_error fs) = EINVAL"
  "errno_of (Io_Other, ''No space left on device'') = ENOSPC" "errno_of (Io_Other, ''No such file or directory'') = EIO"
  by (simp_all add: errno_of_def misaligned_error_def)

lemma ring_shim_parts:
  assumes "fs_inv fs" "faultless fs" "0 < direct_io_alignment fs"
    and "direct_io h \<longleftrightarrow> iset_contains (direct_io_fds fs) (fd h)"
  shows "readable h \<Longrightarrow> exec_read rng fs mem (fd h) ptr len off =
      map_option (\<lambda>(r, buf, fs'). (cqe_result r, fs', store mem ptr buf))
        (read_at_internal rng' h fs ptr (load mem ptr len) off)"
    and "\<lbrakk>writable h; off + len < 2 ^ 64\<rbrakk> \<Longrightarrow> exec_write rng fs mem (fd h) ptr len off (fs_now fs) =
      map_option (\<lambda>(r, fs'). (cqe_result r, fs')) (write_at_internal rng' h fs ptr (load mem ptr len) off)"
    and "exec_fsync rng fs (fd h) =
      (case sync_all h fs of (Inl e, fs') \<Rightarrow> (- errno_of e, fs') | (Inr _, fs') \<Rightarrow> (0, fs'))"
proof -
  have gone: "\<not> direct_io h" if "imap_get (open_handles fs) (fd h) = None"
  proof -
    have "fd h \<notin> fst ` set (direct_io_fds fs)"
      using that assms(1) by (auto simp: fs_inv_def fds_ok_def map_of_eq_None_iff simp del: map_of_eq_Some_iff)
    then have "imap_get (direct_io_fds fs) (fd h) = None" by (simp add: map_of_eq_None_iff)
    with assms(4) show ?thesis by simp
  qed
  note q = faultless_draws [OF assms(2)]
  show "exec_read rng fs mem (fd h) ptr len off =
      map_option (\<lambda>(r, buf, fs'). (cqe_result r, fs', store mem ptr buf))
        (read_at_internal rng' h fs ptr (load mem ptr len) off)" if "readable h"
    using that gone aligned_iff [OF assms(3), of h ptr off len] assms(4)
    by (cases "imap_get (open_handles fs) (fd h)")
      (auto simp: exec_read_def read_at_internal_def q cqe_result_def simp del: map_of_eq_Some_iff split: Option.bind_splits)
  have maybe: "maybe_sync rng' p (write_file fs p off b t) = write_file fs p off b t" for p b t
    using assms(2) by (simp add: maybe_sync_def flip_def faultless_def write_file_def push_op_def)
  have nosync: "sample_prob rng (sync_probability (write_file fs p off b t)) (write_file fs p off b t) =
      (False, write_file fs p off b t)" for p b t
    using assms(2) by (simp add: sample_prob_def faultless_def write_file_def push_op_def)
  show "exec_write rng fs mem (fd h) ptr len off (fs_now fs) =
      map_option (\<lambda>(r, fs'). (cqe_result r, fs')) (write_at_internal rng' h fs ptr (load mem ptr len) off)"
    if "writable h" "off + len < 2 ^ 64"
    using that gone aligned_iff [OF assms(3), of h ptr off len] assms(4)
    by (cases "imap_get (open_handles fs) (fd h)")
      (auto simp: exec_write_def write_at_internal_def q maybe nosync cqe_result_def Let_def simp del: map_of_eq_Some_iff
        split: Option.bind_splits sum.splits dest: check_space_error)
  have err: "sync_file fs p = (Inl e, fs') \<Longrightarrow> e = ''No such file or directory''" for p e fs'
    by (auto simp: sync_file_def Let_def split: if_splits prod.splits)
  show "exec_fsync rng fs (fd h) =
      (case sync_all h fs of (Inl e, fs') \<Rightarrow> (- errno_of e, fs') | (Inr _, fs') \<Rightarrow> (0, fs'))"
    by (cases "imap_get (open_handles fs) (fd h)")
      (auto simp: exec_fsync_def sync_all_def q map_err_def simp del: map_of_eq_Some_iff split: sum.splits prod.splits
        dest!: err)
qed

text \<open>
  C15. There is one source of truth for file contents: on a file system that injects no faults, a
  read, write or fsync submitted to a ring with a descriptor has, when it completes, exactly the
  result and the effect of the \<^verbatim>\<open>std::fs\<close> shim's \<^verbatim>\<open>read_at\<close>, \<^verbatim>\<open>write_at\<close> and
  \<^verbatim>\<open>sync_all\<close> on a handle with that descriptor that is open for it: the same bytes in the
  buffer, the same file system, and the error number that names the shim's error.
\<close>

theorem ring_io_matches_shim:
  assumes "fs_inv fs" "faultless fs" "0 < direct_io_alignment fs"
    and "direct_io h \<longleftrightarrow> iset_contains (direct_io_fds fs) (fd h)"
  shows "(readable h \<longrightarrow> exec_read rng fs mem (fd h) ptr len off =
      map_option (\<lambda>(r, buf, fs'). (cqe_result r, fs', store mem ptr buf))
        (read_at_internal rng' h fs ptr (load mem ptr len) off)) \<and>
    (writable h \<and> off + len < 2 ^ 64 \<longrightarrow> exec_write rng fs mem (fd h) ptr len off (fs_now fs) =
      map_option (\<lambda>(r, fs'). (cqe_result r, fs')) (write_at_internal rng' h fs ptr (load mem ptr len) off)) \<and>
    exec_fsync rng fs (fd h) =
      (case sync_all h fs of (Inl e, fs') \<Rightarrow> (- errno_of e, fs') | (Inr _, fs') \<Rightarrow> (0, fs'))"
  using ring_shim_parts [OF assms] by blast


text \<open>
  The ring does not look at how the descriptor was opened: a write through a descriptor opened
  for reading only, which the shim refuses, takes effect.
\<close>

theorem ring_write_through_read_only:
  assumes "fs_inv fs" "faultless fs" "capacity fs = None" "imap_get (open_handles fs) (fd h) = Some path"
    and "\<not> iset_contains (direct_io_fds fs) (fd h)" "\<not> writable h" "0 < len" "off + len < 2 ^ 64"
  shows "write_at_internal rng' h fs ptr (load mem ptr len) off =
      Some (Inl (Io_PermissionDenied, ''file not opened for writing''), fs)"
    and "exec_write rng fs mem (fd h) ptr len off now =
      Some (as_i32 len, push_op (Write path off (load mem ptr len) now) fs)"
proof -
  obtain n where "file_len fs path = Some n" using file_len_returns [OF assms(1)] by blast
  moreover have "load mem ptr len \<noteq> []" using assms(7) by (metis length_load length_0_conv less_not_refl)
  moreover have "sample_prob rng (sync_probability (push_op op fs)) (push_op op fs) = (False, push_op op fs)" for op
    using assms(2) by (simp add: sample_prob_def faultless_def push_op_def)
  ultimately show "exec_write rng fs mem (fd h) ptr len off now =
      Some (as_i32 len, push_op (Write path off (load mem ptr len) now) fs)"
    using assms by (simp add: exec_write_def faultless_draws [OF assms(2)] check_space_def write_file_def Let_def del: map_of_eq_Some_iff)
qed (use assms(6) in \<open>simp add: write_at_internal_def\<close>)

section \<open>When an operation completes\<close>

text \<open>
  C28. With an I/O latency configured and no page cache, a read, write or fsync that is submitted
  at time \<open>now\<close> is scheduled exactly once, for a time between \<open>now\<close> plus the minimal and \<open>now\<close>
  plus the maximal latency, whatever the distribution draws; nothing else on the ring changes.
\<close>

theorem completion_time_bounds:
  assumes r: "imap_get (rings iou) f = Some r"
    and cfg: "page_cache fs = None" "io_latency fs = Some cfg" "min_latency cfg \<le> max_latency cfg"
    and draw: "\<And>l g. 0 \<le> fst (exp_draw rng l g)"
    and op: "\<not> has_unsupported (sqe_flags e)" "\<And>t. sqe_op e \<noteq> OpAsyncCancel t"
  shows "\<exists>fs' x r'. schedule_entry rng now f e (fs, iou) =
      Some (fs', iou\<lparr>rings := imap_insert f r' (rings iou)\<rparr>) \<and>
    ring_bag r' = add_mset x (ring_bag r) \<and> cqe_user_data x = sqe_user_data e \<and>
    now + min_latency cfg \<le> cqe_when x \<and> cqe_when x \<le> now + max_latency cfg"
proof -
  obtain lat fs' where lat: "calculate_latency (exp_draw rng) False fs = (lat, fs')" by (metis surj_pair)
  have b: "min_latency cfg \<le> lat" "lat \<le> max_latency cfg"
    using latency_bounds [of fs cfg "exp_draw rng" False] cfg draw lat by auto
  have cache: "probe_cache rng h off fs = Some (False, fs)" "fill_cache h off fs = Some fs" for h off
    by (auto simp: probe_cache_def fill_cache_def cfg(1) split: option.split)
  obtain a where "schedule_entry rng now f e (fs, iou) =
      Some (fs', iou\<lparr>rings := imap_insert f (ring_schedule (sqe_user_data e) (now + lat) a r) (rings iou)\<rparr>)"
    using op by (cases "sqe_op e") (auto simp: schedule_entry_def cache lat on_ring_some [OF r])
  with b show ?thesis
    by (intro exI [of _ fs'] exI [of _ "\<lparr>cqe_when = now + lat, cqe_user_data = sqe_user_data e, cqe_apply = a\<rparr>"]
        exI [of _ "ring_schedule (sqe_user_data e) (now + lat) a r"]) simp
qed

section \<open>Instances\<close>

definition demo_ring_rng :: "unit RingRng" where
  "demo_ring_rng = \<lparr>next_u64 = (\<lambda>g. (0, g)), next_u32 = (\<lambda>g. (0, g)), shuffle = (\<lambda>xs g. (rev xs, g)),
     cache_coin = (\<lambda>_ g. (False, g)), exp_draw = (\<lambda>_ g. (1 / 2, g))\<rparr>"

abbreviation demo_ring_fd :: RawFd where
  "demo_ring_fd \<equiv> 1074790400"

definition ring_fs :: "unit FsState" where
  "ring_fs = FsState_new FsConfig_default ()"

definition fsync_sqe :: "u64 \<Rightarrow> Sqe" where
  "fsync_sqe ud = Sqe_user_data ud (Fsync_build 3)"

definition cancel_sqe :: "u64 \<Rightarrow> u64 \<Rightarrow> Sqe" where
  "cancel_sqe ud target = Sqe_user_data ud (AsyncCancel_build target)"

lemma demo_permutes: "permutes_slices demo_ring_rng"
  by (simp add: permutes_slices_def demo_ring_rng_def)

lemma ring_fs_ok: "fs_inv ring_fs" "cache_ok ring_fs"
  by (simp_all add: ring_fs_def FsState_new_inv) (simp add: cache_ok_def FsState_new_def FsConfig_default_def)

lemma ring_demo_new:
  "IoUring_new 3 IoUringHostState_new = Some (Inr \<lparr>ring_fd = demo_ring_fd, sq_entries = 4, cq_entries = 8\<rparr>,
     \<lparr>rings = [(demo_ring_fd, RingState_new 4)], next_ring_fd = demo_ring_fd + 1, retired = []\<rparr>)"
proof -
  have "next_power_of_two 3 = 4" by (simp add: next_power_of_two.simps)
  then show ?thesis
    by (simp add: IoUring_new_def IoUring_new_inner_def alloc_ring_fd_def IoUringHostState_new_def SIM_FD_BASE_def IO_URING_FD_OFFSET_def)
qed

lemma demo_fd: "next_ring_fd IoUringHostState_new = demo_ring_fd"
  by (simp add: IoUringHostState_new_def SIM_FD_BASE_def IO_URING_FD_OFFSET_def)

definition ring_calls :: "unit RingCall list" where
  "ring_calls = [Rc_push demo_ring_fd (fsync_sqe 7), Rc_push demo_ring_fd (cancel_sqe 9 7), Rc_submit demo_ring_fd,
     Rc_completion demo_ring_fd, Rc_sync 0, Rc_next 0]"

lemmas ring_eval = ring_calls_def fresh_sys_def ring_demo_new sq_push_def fsync_sqe_def cancel_sqe_def Sqe_user_data_def
  Fsync_build_def AsyncCancel_build_def Flags_empty_def has_unsupported_def RingState_new_def submit_def schedule_pending_def
  schedule_entry_def on_ring_def calculate_latency_def ring_schedule_def ring_cancel_def drop_target_def notify_waiters_def
  swap_remove_def ring_fs_def FsState_new_def FsConfig_default_def cq_sync_def CompletionQueue_new_def ready_cq_count_def
  cq_next_def pop_ready_def promote_ready_def promote_loop.simps demo_ring_rng_def count_reaped_def demo_fd

theorem ring_conserves_entries_witness:
  "ring_run.admissible_run demo_ring_rng (fresh_sys ring_fs (\<lambda>_. 0)) (Rc_new 3 # ring_calls) \<and>
   (\<exists>s. ring_run.run demo_ring_rng (fresh_sys ring_fs (\<lambda>_. 0)) (Rc_new 3 # ring_calls) = Some s \<and>
    (\<forall>f r. imap_get (rings (env_iou (sys s))) f = Some r \<longrightarrow>
       pushed s f = mset (map sqe_user_data (sq r)) + image_mset cqe_user_data (mset (inflight r @ ready r)) + reaped s f \<and>
       length (sq r) \<le> depth r \<and> is_power_of_two (depth r)))"
proof -
  have "ring_run.admissible_run demo_ring_rng (fresh_sys ring_fs (\<lambda>_. 0)) (Rc_new 3 # ring_calls)"
    by (simp add: ring_eval demo_permutes [unfolded demo_ring_rng_def])
  with ring_conserves_entries [OF ring_fs_ok this] show ?thesis by blast
qed

theorem cancel_suppresses_effects_witness:
  "let r = ring_schedule 7 100 (ApplyFsync 3) (RingState_new 4)
   in count (tags r) 7 \<le> 1 \<and> 7 \<in># tags r \<and>
      {#x \<in># ring_bag (ring_cancel 9 7 50 r). cqe_user_data x = 7#} =
        {#\<lparr>cqe_when = 50, cqe_user_data = 7, cqe_apply = ImmediateError (- ECANCELED)\<rparr>#}"
proof -
  have "count (tags (ring_schedule 7 100 (ApplyFsync 3) (RingState_new 4))) 7 \<le> 1"
    "7 \<in># tags (ring_schedule 7 100 (ApplyFsync 3) (RingState_new 4))"
    by (simp_all add: tags_def) (simp add: ring_bag_def RingState_new_def)
  with cancel_suppresses_effects [OF this(1), of 9 50 demo_ring_rng] show ?thesis by (simp add: Let_def)
qed

theorem sync_then_next_yields_all_due_witness:
  "let r = ring_schedule 8 5 (ImmediateError 1) (ring_schedule 7 9 (ApplyFsync 3) (RingState_new 4));
       env = \<lparr>env_fs = ring_fs\<lparr>fs_now := 6\<rparr>, env_iou = \<lparr>rings = [(1, r)], next_ring_fd = 2, retired = []\<rparr>,
              env_now = 6, env_mem = (\<lambda>_. 0)\<rparr>
   in env_inv env \<and> ring_ok 6 r \<and>
      (\<exists>cs q env'. cq_collect demo_ring_rng 1 (cq_sync env (CompletionQueue_new 1)) env = Some (cs, q, env') \<and>
         mset (map res_user_data cs) = {#8#})"
proof -
  define r where "r = ring_schedule 8 5 (ImmediateError 1) (ring_schedule 7 9 (ApplyFsync 3) (RingState_new 4))"
  define env :: "unit RingEnv" where "env = \<lparr>env_fs = ring_fs\<lparr>fs_now := 6\<rparr>,
    env_iou = \<lparr>rings = [(1, r)], next_ring_fd = 2, retired = []\<rparr>, env_now = 6, env_mem = (\<lambda>_. 0)\<rparr>"
  have inv: "env_inv env" using ring_fs_ok by (simp add: env_inv_def env_def)
  have ok: "ring_ok (env_now env) r"
    by (simp add: ring_ok_def r_def env_def matured_at_def bag_fits_def) (simp add: RingState_new_def is_power_of_two.simps ring_bag_def)
  have bag: "filter_mset (cqe_due 6) (ring_bag r) = {#\<lparr>cqe_when = 5, cqe_user_data = 8, cqe_apply = ImmediateError 1\<rparr>#}"
    by (simp add: r_def cqe_due_def) (simp add: RingState_new_def ring_bag_def)
  have len: "cq_len (cq_sync env (CompletionQueue_new 1)) = 1"
    by (simp add: cq_len_def cq_sync_def env_def CompletionQueue_new_def ready_cq_count_bag)
      (simp add: r_def ring_schedule_def notify_waiters_def RingState_new_def ready_cq_count_def)
  have "imap_get (rings (env_iou env)) 1 = Some r" by (simp add: env_def)
  from sync_then_next_yields_all_due [OF demo_permutes inv this ok] len bag
  have "\<exists>cs q env'. cq_collect demo_ring_rng 1 (cq_sync env (CompletionQueue_new 1)) env = Some (cs, q, env') \<and>
         mset (map res_user_data cs) = {#8#}"
    by (auto simp: env_def)
  with inv ok show ?thesis unfolding Let_def env_def [unfolded r_def, symmetric] r_def [symmetric] by (simp add: env_def)
qed

theorem readable_never_misses_witness:
  "\<exists>s s' :: unit RingSys. ring_inv s \<and> readable_turn demo_ring_fd (sys s) = Notify 0 \<and>
     ring_run.run demo_ring_rng s ring_calls = Some s' \<and> readable_turn demo_ring_fd (sys s') = Guard \<and>
     0 < notify_count demo_ring_fd (env_iou (sys s'))"
proof -
  obtain s where s: "ring_step demo_ring_rng (fresh_sys ring_fs (\<lambda>_. 0)) (Rc_new 3) = Some s" "ring_inv s"
    using ring_step_safe [OF fresh_sys_inv [OF ring_fs_ok], of demo_ring_rng "\<lambda>_. 0" "Rc_new 3"]
    by (auto simp: returns_def fresh_sys_def demo_fd)
  then have turn: "readable_turn demo_ring_fd (sys s) = Notify 0"
    by (auto simp: fresh_sys_def ring_demo_new readable_turn_def ready_cq_count_def RingState_new_def next_deadline_def notify_count_def)
  have adm: "ring_run.admissible_run demo_ring_rng s ring_calls"
    using s by (auto simp: ring_eval demo_permutes [unfolded demo_ring_rng_def])
  from ring_run.run_inv [OF s(2) adm] obtain s' where s': "ring_run.run demo_ring_rng s ring_calls = Some s'" by blast
  have "readable_turn demo_ring_fd (sys s') = Guard"
    using s s' by (auto simp: ring_eval readable_turn_def)
  with readable_never_misses [OF s(2) adm s', of demo_ring_fd] s turn s' show ?thesis by auto
qed

theorem completion_time_bounds_witness:
  "let iou = \<lparr>rings = [(1, RingState_new 4)], next_ring_fd = 2, retired = []\<rparr>;
       fs = ring_fs\<lparr>io_latency := Some IoLatency_default\<rparr>
   in \<exists>fs' x r'. schedule_entry demo_ring_rng 10 1 (fsync_sqe 7) (fs, iou) =
        Some (fs', iou\<lparr>rings := imap_insert 1 r' (rings iou)\<rparr>) \<and>
      ring_bag r' = add_mset x (ring_bag (RingState_new 4)) \<and> cqe_user_data x = 7 \<and>
      50010 \<le> cqe_when x \<and> cqe_when x \<le> 5000010"
proof -
  define iou where "iou = \<lparr>rings = [(1, RingState_new 4)], next_ring_fd = 2, retired = []\<rparr>"
  define fs where "fs = ring_fs\<lparr>io_latency := Some IoLatency_default\<rparr>"
  have "imap_get (rings iou) 1 = Some (RingState_new 4)" "page_cache fs = None" "io_latency fs = Some IoLatency_default"
    "min_latency IoLatency_default \<le> max_latency IoLatency_default" "\<And>l g. 0 \<le> fst (exp_draw demo_ring_rng l g)"
    "\<not> has_unsupported (sqe_flags (fsync_sqe 7))" "\<And>t. sqe_op (fsync_sqe 7) \<noteq> OpAsyncCancel t"
    by (simp_all add: iou_def fs_def ring_eval IoLatency_default_def)
  from completion_time_bounds [OF this, of 10] show ?thesis
    unfolding iou_def [symmetric] fs_def [symmetric] Let_def
    by (simp add: IoLatency_default_def fsync_sqe_def Sqe_user_data_def)
qed

theorem ring_io_matches_shim_witness:
  "let fs = demo_fs\<lparr>open_handles := [(SIM_FD_BASE, path_a)], next_fd := SIM_FD_BASE + 1\<rparr>;
       h = FileHandle_from_parts SIM_FD_BASE True True False False;
       rng' = \<lparr>random_bool = (\<lambda>_ g. (False, g)), random_range = (\<lambda>lo _ g. (lo, g)), random_u8 = (\<lambda>g. (0, g))\<rparr>
   in fs_inv fs \<and> faultless fs \<and> readable h \<and>
      exec_read demo_ring_rng fs (\<lambda>_. 0) (fd h) 4096 2 1 =
        map_option (\<lambda>(r, buf, fs'). (cqe_result r, fs', store (\<lambda>_. 0) 4096 buf))
          (read_at_internal rng' h fs 4096 (load (\<lambda>_. 0) 4096 2) 1)"
proof -
  define fs where "fs = demo_fs\<lparr>open_handles := [(SIM_FD_BASE, path_a)], next_fd := SIM_FD_BASE + 1\<rparr>"
  define h where "h = FileHandle_from_parts SIM_FD_BASE True True False False"
  have inv: "fs_inv fs"
    by (simp add: fs_inv_def fs_wf_def fds_ok_def fs_def demo_fs_simps SIM_FD_BASE_def acyclic_def)
  have ok: "faultless fs" "0 < direct_io_alignment fs" "direct_io h \<longleftrightarrow> iset_contains (direct_io_fds fs) (fd h)" "readable h"
    by (simp_all add: faultless_def fs_def h_def demo_fs_simps FileHandle_from_parts_def)
  from ring_io_matches_shim [OF inv ok(1-3)] inv ok show ?thesis
    unfolding Let_def fs_def [symmetric] h_def [symmetric] by simp
qed

end
