(* ===== verification/Sim_Disk.thy ===== *)
theory Sim_Disk
  imports Sim_Time Ring_Fs
begin

text \<open>
  Hosts with storage: \<^verbatim>\<open>turmoil/src/sim.rs\<close> and \<^verbatim>\<open>host.rs\<close> as built with the features
  \<^verbatim>\<open>unstable-fs\<close> and \<^verbatim>\<open>unstable-io_uring\<close>. Each host owns a file system and its rings; a turn
  enters them at the host's time, a crash calls their crash hooks after it has stopped the
  software. No file system is current while a crash drops the software, so the destructors cannot
  reach the storage.
\<close>

section \<open>Storage of a host\<close>

record 'd Disk =
  disk_fs :: "'d FsState"
  disk_iou :: IoUringHostState

type_synonym 'd disks = "(IpAddr, 'd Disk) imap"

definition Disk_new :: "FsConfig \<Rightarrow> 'd \<Rightarrow> 'd Disk" where
  "Disk_new cfg seeded = \<lparr>disk_fs = FsState_new cfg seeded, disk_iou = IoUringHostState_new\<rparr>"

definition set_now :: "duration \<Rightarrow> 'd Disk \<Rightarrow> 'd Disk" where
  "set_now now k = k\<lparr>disk_fs := (disk_fs k)\<lparr>fs_now := now\<rparr>\<rparr>"

definition crash_hooks :: "(nat \<Rightarrow> nat \<Rightarrow> 'd \<Rightarrow> nat \<times> 'd) \<Rightarrow> 'd Disk \<Rightarrow> 'd Disk" where
  "crash_hooks rr k = k\<lparr>disk_fs := crash rr (disk_fs k), disk_iou := IoUring_crash (disk_iou k)\<rparr>"

text \<open>
  The storage a host's software sees in its turn, with the time of the ring context: both are
  the host's time since the epoch at the moment the turn begins.
\<close>

definition enter_disk :: "IpAddr \<Rightarrow> nat \<Rightarrow> 'g World \<Rightarrow> 'd disks \<Rightarrow> (duration \<times> 'd Disk) option" where
  "enter_disk a clock w ds = do {
     h \<leftarrow> imap_get (w_hosts w) a;
     now \<leftarrow> timer_since_epoch clock (host_timer h);
     k \<leftarrow> imap_get ds a;
     Some (now, set_now now k)
   }"

fun crash_each ::
  "('t, 'g) Software \<Rightarrow> (nat \<Rightarrow> nat \<Rightarrow> 'd \<Rightarrow> nat \<times> 'd) \<Rightarrow> IpAddr list \<Rightarrow> ('t, 'g) Sim \<times> 'd disks
     \<Rightarrow> (('t, 'g) Sim \<times> 'd disks) option" where
  "crash_each sw rr [] (s, ds) = Some (s, ds)"
| "crash_each sw rr (a # as) (s, ds) = do {
     rt \<leftarrow> imap_get (sim_rts s) a;
     (rt1, w) \<leftarrow> Rt_crash sw rt ((sim_world s)\<lparr>w_current := Some a\<rparr>);
     k \<leftarrow> imap_get ds a;
     crash_each sw rr as (s\<lparr>sim_world := w, sim_rts := imap_insert a rt1 (sim_rts s)\<rparr>, imap_insert a (crash_hooks rr k) ds)
   }"

definition crash_hosts ::
  "('t, 'g) Software \<Rightarrow> (nat \<Rightarrow> nat \<Rightarrow> 'd \<Rightarrow> nat \<times> 'd) \<Rightarrow> to_ip_addrs \<Rightarrow> ('t, 'g) Sim \<times> 'd disks
     \<Rightarrow> (('t, 'g) Sim \<times> 'd disks) option" where
  "crash_hosts sw rr addrs = (\<lambda>(s, ds).
     (let (as, w) = world_lookup_many addrs (sim_world s)
      in do {
        (s1, ds1) \<leftarrow> crash_each sw rr as (s\<lparr>sim_world := w\<rparr>, ds);
        Some (s1\<lparr>sim_world := (sim_world s1)\<lparr>w_current := None\<rparr>\<rparr>, ds1)
      }))"

section \<open>What a crash leaves\<close>

text \<open>On the simulation, a crash with storage is the crash without it.\<close>

lemma crash_each_sim:
  assumes "crash_each sw rr as (s, ds) = Some (s', ds')"
  shows "each_host (Rt_crash sw) as s = Some s'"
  using assms
proof (induction as arbitrary: s ds)
  case (Cons a as)
  then show ?case by (fastforce simp: bind_Some_iff)
qed simp

lemma crash_hosts_sim:
  assumes "crash_hosts sw rr addrs (s, ds) = Some (s', ds')"
  shows "Sim_crash sw addrs s = Some s'"
  using assms by (auto simp: crash_hosts_def Sim_crash_def run_with_hosts_def bind_Some_iff split: prod.splits dest!: crash_each_sim)

lemma each_host_time: "each_host f as s = Some s' \<Longrightarrow> sim_time s' = sim_time s"
  by (induction as arbitrary: s) (auto simp: bind_Some_iff)

text \<open>Crashing storage twice is crashing it once: there is nothing pending the second time.\<close>

lemma crash_twice: "crash rr (crash rr fs) = crash rr fs"
  by (cases "block_size fs")
    (auto simp: crash_def apply_torn_writes_def imap_retain_def Let_def split: prod.splits)

lemma crash_hooks_rings: "rings (disk_iou (crash_hooks rr k)) = []" "pending (disk_fs (crash_hooks rr k)) = []"
  by (simp_all add: crash_hooks_def IoUring_crash_def crash_def Let_def)

lemma crash_hooks_twice: "crash_hooks rr (crash_hooks rr k) = crash_hooks rr k"
  by (simp add: crash_hooks_def crash_twice IoUring_crash_def retire_def)

lemma Rt_crash_stops:
  assumes "Rt_crash sw rt w = Some (rt1, w1)"
  shows "is_host rt1" "\<not> rt_handle rt1"
  using assms by (auto simp: Rt_crash_def is_host_def cancel_tasks_def bind_Some_iff split: if_splits)

lemma Rt_crash_returns:
  assumes "is_host rt" "\<And>t w. sw_cancel sw t w \<noteq> None"
  shows "\<exists>rt1 w1. Rt_crash sw rt w = Some (rt1, w1)"
  using assms(1) assms(2) [of "rt_tokio rt" w] by (auto simp: Rt_crash_def cancel_tasks_def)

definition stopped_host :: "('t, 'g) Sim \<Rightarrow> IpAddr \<Rightarrow> bool" where
  "stopped_host s a \<longleftrightarrow> (\<exists>rt. imap_get (sim_rts s) a = Some rt \<and> is_host rt \<and> \<not> is_software_running rt)"

lemma crash_each_effect:
  assumes "\<And>t w. sw_cancel sw t w \<noteq> None"
    and "\<forall>a\<in>set as. \<exists>rt k. imap_get (sim_rts s) a = Some rt \<and> is_host rt \<and> imap_get ds a = Some k"
  shows "returns (crash_each sw rr as (s, ds)) (\<lambda>(s', ds').
    (\<forall>a\<in>set as. stopped_host s' a) \<and>
    (\<forall>a. a \<notin> set as \<longrightarrow> imap_get (sim_rts s') a = imap_get (sim_rts s) a) \<and>
    (\<forall>a. imap_get ds' a = (if a \<in> set as then map_option (crash_hooks rr) (imap_get ds a) else imap_get ds a)))"
  using assms(2)
proof (induction as arbitrary: s ds)
  case (Cons a as)
  from Cons.prems obtain rt k where a: "imap_get (sim_rts s) a = Some rt" "is_host rt" "imap_get ds a = Some k" by auto
  obtain rt1 w where c: "Rt_crash sw rt ((sim_world s)\<lparr>w_current := Some a\<rparr>) = Some (rt1, w)"
    using Rt_crash_returns [OF a(2) assms(1)] by blast
  let ?s = "s\<lparr>sim_world := w, sim_rts := imap_insert a rt1 (sim_rts s)\<rparr>" and ?ds = "imap_insert a (crash_hooks rr k) ds"
  have "\<forall>b\<in>set as. \<exists>rt k. imap_get (sim_rts ?s) b = Some rt \<and> is_host rt \<and> imap_get ?ds b = Some k"
    using Cons.prems Rt_crash_stops [OF c] by (auto simp: imap_simps simp del: map_of_eq_Some_iff)
  from Cons.IH [OF this] show ?case
    using a c Rt_crash_stops [OF c]
    by (auto simp: imap_simps crash_hooks_twice stopped_host_def is_software_running_def
      simp del: map_of_eq_Some_iff elim!: returns_mono split: if_splits) (metis option.map(2))
qed simp

text \<open>
  C6. A crash stops the hosts it names and no other. When every named address is a host with storage,
  a crash returns; afterwards no software runs on the named hosts, their file systems are the crashed
  ones, with nothing pending, and they have no rings; every other node keeps its runtime, running or
  not, and its storage; and the clocks of all hosts are as before.
\<close>

theorem crash_isolated:
  fixes s :: "('t, 'g) Sim" and ds :: "'d disks"
  assumes "keeps_clocks sw" "\<And>t w. sw_cancel sw t w \<noteq> None" "clocks_agree s"
    and "\<forall>a\<in>set (fst (addrs (w_dns (sim_world s)))). \<exists>rt k. imap_get (sim_rts s) a = Some rt \<and> is_host rt \<and> imap_get ds a = Some k"
  shows "\<exists>s' ds'. crash_hosts sw rr addrs (s, ds) = Some (s', ds') \<and> clocks_agree s' \<and> sim_time s' = sim_time s \<and>
    (\<forall>a. if a \<in> set (fst (addrs (w_dns (sim_world s))))
         then stopped_host s' a \<and> (\<exists>k k'. imap_get ds a = Some k \<and> imap_get ds' a = Some k' \<and>
           disk_fs k' = crash rr (disk_fs k) \<and> pending (disk_fs k') = [] \<and> rings (disk_iou k') = [])
         else imap_get (sim_rts s') a = imap_get (sim_rts s) a \<and> imap_get ds' a = imap_get ds a)"
proof -
  obtain as d where l: "addrs (w_dns (sim_world s)) = (as, d)" by (metis surj_pair)
  let ?s = "s\<lparr>sim_world := (sim_world s)\<lparr>w_dns := d\<rparr>\<rparr>"
  obtain s1 ds' where e: "crash_each sw rr as (?s, ds) = Some (s1, ds')"
    "\<forall>a\<in>set as. stopped_host s1 a" "\<forall>a. a \<notin> set as \<longrightarrow> imap_get (sim_rts s1) a = imap_get (sim_rts s) a"
    "\<forall>a. imap_get ds' a = (if a \<in> set as then map_option (crash_hooks rr) (imap_get ds a) else imap_get ds a)"
    using crash_each_effect [OF assms(2), of as ?s ds rr] assms(4) by (auto simp: returns_def l simp del: map_of_eq_Some_iff)
  let ?s' = "s1\<lparr>sim_world := (sim_world s1)\<lparr>w_current := None\<rparr>\<rparr>"
  have c: "crash_hosts sw rr addrs (s, ds) = Some (?s', ds')"
    using e(1) by (simp add: crash_hosts_def world_lookup_many_def l)
  have "clocks_agree ?s'"
    using run_with_hosts_clocks [OF software_clocks(1) [OF assms(1)] crash_hosts_sim [OF c, unfolded Sim_crash_def] assms(3)] .
  moreover have "sim_time ?s' = sim_time s"
    using each_host_time [OF crash_each_sim [OF e(1)]] by simp
  moreover have "\<exists>k k'. imap_get ds a = Some k \<and> imap_get ds' a = Some k' \<and>
      disk_fs k' = crash rr (disk_fs k) \<and> pending (disk_fs k') = [] \<and> rings (disk_iou k') = []" if a: "a \<in> set as" for a
  proof -
    obtain k where "imap_get ds a = Some k" using a assms(4) by (auto simp: l simp del: map_of_eq_Some_iff)
    with a e(4) crash_hooks_rings [of rr k] show ?thesis by (simp add: crash_hooks_def)
  qed
  moreover have "stopped_host ?s' a \<longleftrightarrow> stopped_host s1 a" for a by (simp add: stopped_host_def)
  ultimately show ?thesis
    using c e(2-4) by (intro exI [of _ ?s'] exI [of _ ds']) (simp add: l)
qed

text \<open>A host with a file and a ring crashes beside a client that runs on.\<close>

definition demo_disks :: "nat disks" where
  "demo_disks = [(V4 2, Disk_new FsConfig_default 0)]"

theorem crash_isolated_witness:
  "\<exists>s s' ds'. demo_nodes = Some s \<and> crash_hosts counting (\<lambda>lo hi g. (lo, g)) (\<lambda>d. ([V4 2], d)) (s, demo_disks) = Some (s', ds') \<and>
     stopped_host s' (V4 2) \<and> imap_get (sim_rts s') (V4 1) = imap_get (sim_rts s) (V4 1)"
proof -
  have "case demo_nodes of None \<Rightarrow> False | Some s \<Rightarrow> (\<exists>rt. imap_get (sim_rts s) (V4 2) = Some rt \<and> is_host rt)"
    by (simp add: driver_simps)
  then obtain s rt where s: "demo_nodes = Some s" "imap_get (sim_rts s) (V4 2) = Some rt" "is_host rt"
    by (auto split: option.splits simp del: map_of_eq_Some_iff)
  have "clocks_agree s"
  proof -
    from s(1) [unfolded demo_nodes_def bind_Some_iff] obtain s0 s1 where a: "demo_new = Some s0" "Sim_client counting (\<lambda>d. (V4 1, d)) s0 = Some s1"
      "Sim_host counting (\<lambda>d. (V4 2, d)) s1 = Some s" by blast
    have "clocks_agree s0" using a(1) by (auto simp: demo_new_def new_clocks)
    with add_node_clocks a(2,3) show ?thesis by (metis Sim_client_def Sim_host_def)
  qed
  moreover have "sw_cancel counting t w \<noteq> None" for t w by (simp add: counting_def)
  ultimately show ?thesis
    using crash_isolated [OF counting_ok(1), of s "\<lambda>d. ([V4 2], d)" demo_disks "\<lambda>lo hi g. (lo, g)"] s
    by (fastforce simp: demo_disks_def simp del: map_of_eq_Some_iff)
qed

text \<open>In its turn a host's storage has the simulation's time.\<close>

lemma disk_time:
  assumes "clocks_agree s" "enter_host net a clock (sim_world s) = Some w" "imap_get ds a = Some k"
  shows "enter_disk a clock w ds = Some (Sim_since_epoch s, set_now (Sim_since_epoch s) k)"
proof -
  from assms(2) obtain h where h: "imap_get (w_hosts w) a = Some h" "ht_now (host_timer h) = Some clock"
    by (auto simp: enter_host_def bind_Some_iff Let_def current_host_def set_current_host_def imap_simps timer_now_def
      simp del: map_of_eq_Some_iff)
  with assms(1) enter_host_clock [OF assms(2)] have "clock_at (sim_world s) a = clock_at w a" by simp
  then have "ht_start_offset (host_timer h) + ht_elapsed (host_timer h) = sim_time s \<and> ht_since_epoch (host_timer h) = sim_since_epoch s"
    using assms(1) h(1) by (auto simp: clocks_agree_def clock_at_def simp del: map_of_eq_Some_iff split: if_splits dest!: spec [of _ a])
  then show ?thesis
    using h assms(3)
    by (simp add: enter_disk_def timer_since_epoch_def sim_elapsed_def timer_elapsed_def Sim_since_epoch_def del: map_of_eq_Some_iff)
qed

end
