(* ===== verification/Fs_Meta.thy ===== *)
theory Fs_Meta
  imports Fs_Run
begin

text \<open>
  The rest of \<^verbatim>\<open>turmoil-fs/src/shim/std/fs/mod.rs\<close>: the types its calls hand out (directory
  entries, file types, permissions, the accessors of metadata), the options of an open, and
  reading a file as text.
\<close>

section \<open>File types and metadata\<close>

record FileType =
  ft_is_dir :: bool
  ft_is_symlink :: bool

definition ft_is_file :: "FileType \<Rightarrow> bool" where
  "ft_is_file t \<longleftrightarrow> \<not> ft_is_dir t \<and> \<not> ft_is_symlink t"

definition md_file_type :: "Metadata \<Rightarrow> FileType" where
  "md_file_type m = \<lparr>ft_is_dir = md_is_dir m, ft_is_symlink = md_is_symlink m\<rparr>"

text \<open>Times are nanoseconds since the Unix epoch; the access time is the time of creation.\<close>

definition md_modified :: "Metadata \<Rightarrow> duration io_result" where
  "md_modified m = Inr (md_mtime m)"

definition md_accessed :: "Metadata \<Rightarrow> duration io_result" where
  "md_accessed m = Inr (md_crtime m)"

definition md_created :: "Metadata \<Rightarrow> duration io_result" where
  "md_created m = Inr (md_crtime m)"

definition as_secs :: "duration \<Rightarrow> nat" where
  "as_secs d = d div 10 ^ 9"

definition subsec_nanos :: "duration \<Rightarrow> nat" where
  "subsec_nanos d = d mod 10 ^ 9"

definition unix_atime :: "Metadata \<Rightarrow> nat \<times> nat" where
  "unix_atime m = (as_secs (md_crtime m), subsec_nanos (md_crtime m))"

definition unix_mtime :: "Metadata \<Rightarrow> nat \<times> nat" where
  "unix_mtime m = (as_secs (md_mtime m), subsec_nanos (md_mtime m))"

definition unix_ctime :: "Metadata \<Rightarrow> nat \<times> nat" where
  "unix_ctime m = (as_secs (md_ctime m), subsec_nanos (md_ctime m))"

definition md_blksize :: "Metadata \<Rightarrow> nat" where
  "md_blksize m = 4096"

section \<open>Permissions\<close>

record Permissions =
  p_mode :: u32

definition p_readonly :: "Permissions \<Rightarrow> bool" where
  "p_readonly p \<longleftrightarrow> and (p_mode p) 0x80 = 0"

definition set_readonly :: "bool \<Rightarrow> Permissions \<Rightarrow> Permissions" where
  "set_readonly b p = p\<lparr>p_mode := if b then and (p_mode p) (not 0x92) else or (p_mode p) 0x80\<rparr>"

definition p_from_mode :: "u32 \<Rightarrow> Permissions" where
  "p_from_mode v = \<lparr>p_mode = v\<rparr>"

definition p_set_mode :: "u32 \<Rightarrow> Permissions \<Rightarrow> Permissions" where
  "p_set_mode v p = p\<lparr>p_mode := v\<rparr>"

definition md_permissions :: "Metadata \<Rightarrow> Permissions" where
  "md_permissions m = \<lparr>p_mode = md_mode m\<rparr>"

lemma readonly_set: "p_readonly (set_readonly b p) = b"
proof -
  have "and (and v (not (or m n))) m = 0" "and (or v m) m = m" for v m n :: u32
    by (auto simp: bit_eq_iff bit_simps)
  note * = this(1) [of _ "0x80" "0x12"] this(2) [of _ "0x80"]
  show ?thesis using * by (simp add: p_readonly_def set_readonly_def)
qed

section \<open>Directory entries\<close>

text \<open>The entries of an open directory, in the iteration order of a hash set.\<close>

record ReadDir =
  rd_entries :: "Path list"

record DirEntry =
  de_path :: Path

definition ReadDir_next :: "ReadDir \<Rightarrow> DirEntry io_result option \<times> ReadDir" where
  "ReadDir_next d =
     (case rd_entries d of
        [] \<Rightarrow> (None, d)
      | p # ps \<Rightarrow> (Some (Inr \<lparr>de_path = p\<rparr>), d\<lparr>rd_entries := ps\<rparr>))"

text \<open>The last component, empty when the path ends in none.\<close>

definition de_file_name :: "DirEntry \<Rightarrow> string" where
  "de_file_name e = (if de_path e = [] then [] else case last (de_path e) of Normal n \<Rightarrow> n | _ \<Rightarrow> [])"

definition de_metadata :: "DirEntry \<Rightarrow> 'g FsState \<Rightarrow> Metadata io_result option" where
  "de_metadata e fs = symlink_metadata fs (de_path e)"

definition de_file_type :: "DirEntry \<Rightarrow> 'g FsState \<Rightarrow> FileType io_result option" where
  "de_file_type e fs =
     map_option (\<lambda>r. case r of Inl err \<Rightarrow> Inl err
       | Inr m \<Rightarrow> Inr \<lparr>ft_is_dir = md_is_dir m, ft_is_symlink = md_is_symlink m\<rparr>) (symlink_metadata fs (de_path e))"

lemma metadata_of_kind: "md_is_dir (metadata_of len d l ts mode n) = d" "md_is_symlink (metadata_of len d l ts mode n) = l"
  by (simp_all add: metadata_of_def Let_def split: prod.split)

lemma file_metadata_kind:
  "file_metadata fs p = Some m \<Longrightarrow> \<not> md_is_dir m \<and> \<not> md_is_symlink m"
  by (auto simp: file_metadata_def bind_Some_iff metadata_of_kind)

text \<open>An entry's file type is its kind in the name space, links not followed.\<close>

lemma de_file_type_kind:
  assumes "de_file_type e fs = Some (Inr t)"
  shows "view fs (de_path e) = Some (if ft_is_symlink t then Symlink else if ft_is_dir t then Directory else File)"
proof -
  from assms obtain m where m: "symlink_metadata fs (de_path e) = Some (Inr m)"
    "t = \<lparr>ft_is_dir = md_is_dir m, ft_is_symlink = md_is_symlink m\<rparr>"
    by (auto simp: de_file_type_def split: sum.splits) (metis old.sum.exhaust surj_pair)
  then show ?thesis
    using file_metadata_kind [of fs "de_path e"]
    by (auto simp: symlink_metadata_def symlink_exists_def file_exists_def dir_exists_def dir_metadata_def metadata_of_kind
      split: if_splits)
qed

section \<open>Options\<close>

definition set_oo_read :: "bool \<Rightarrow> OpenOptions \<Rightarrow> OpenOptions" where
  "set_oo_read b opts = opts\<lparr>oo_read := b\<rparr>"

definition set_oo_write :: "bool \<Rightarrow> OpenOptions \<Rightarrow> OpenOptions" where
  "set_oo_write b opts = opts\<lparr>oo_write := b\<rparr>"

definition set_oo_append :: "bool \<Rightarrow> OpenOptions \<Rightarrow> OpenOptions" where
  "set_oo_append b opts = opts\<lparr>oo_append := b\<rparr>"

definition set_oo_truncate :: "bool \<Rightarrow> OpenOptions \<Rightarrow> OpenOptions" where
  "set_oo_truncate b opts = opts\<lparr>oo_truncate := b\<rparr>"

definition set_oo_create :: "bool \<Rightarrow> OpenOptions \<Rightarrow> OpenOptions" where
  "set_oo_create b opts = opts\<lparr>oo_create := b\<rparr>"

definition set_oo_create_new :: "bool \<Rightarrow> OpenOptions \<Rightarrow> OpenOptions" where
  "set_oo_create_new b opts = opts\<lparr>oo_create_new := b\<rparr>"

definition set_oo_direct_io :: "bool \<Rightarrow> OpenOptions \<Rightarrow> OpenOptions" where
  "set_oo_direct_io b opts = opts\<lparr>oo_direct_io := b\<rparr>"

definition set_oo_mode :: "u32 \<Rightarrow> OpenOptions \<Rightarrow> OpenOptions" where
  "set_oo_mode v opts = opts\<lparr>oo_mode := v\<rparr>"

definition set_oo_custom_flags :: "32 word \<Rightarrow> OpenOptions \<Rightarrow> OpenOptions" where
  "set_oo_custom_flags v opts = opts\<lparr>oo_custom_flags := v\<rparr>"

definition set_db_recursive :: "bool \<Rightarrow> DirBuilder \<Rightarrow> DirBuilder" where
  "set_db_recursive b d = d\<lparr>recursive := b\<rparr>"

definition set_db_mode :: "u32 \<Rightarrow> DirBuilder \<Rightarrow> DirBuilder" where
  "set_db_mode v d = d\<lparr>db_mode := v\<rparr>"

definition is_direct_io :: "FileHandle \<Rightarrow> bool" where
  "is_direct_io h = direct_io h"

definition as_raw_fd :: "FileHandle \<Rightarrow> RawFd" where
  "as_raw_fd h = fd h"

definition File_flush :: "FileHandle \<Rightarrow> unit io_result" where
  "File_flush h = Inr ()"

section \<open>Text\<close>

text \<open>
  \<^verbatim>\<open>String::from_utf8\<close>: the width of the character at the front, or how many bytes of it are
  wrong (\<open>None\<close>: the input ends in the middle of it).
\<close>

definition continuation :: "8 word \<Rightarrow> bool" where
  "continuation b \<longleftrightarrow> and b 0xC0 = 0x80"

definition second_ok :: "8 word \<Rightarrow> 8 word \<Rightarrow> bool" where
  "second_ok a b \<longleftrightarrow>
     (if a = 0xE0 then 0xA0 \<le> b \<and> b \<le> 0xBF
      else if a = 0xED then 0x80 \<le> b \<and> b \<le> 0x9F
      else if a = 0xF0 then 0x90 \<le> b \<and> b \<le> 0xBF
      else if a = 0xF4 then 0x80 \<le> b \<and> b \<le> 0x8F
      else 0x80 \<le> b \<and> b \<le> 0xBF)"

definition char_width :: "8 word \<Rightarrow> nat" where
  "char_width a =
     (if a < 0x80 then 1 else if a < 0xC2 then 0 else if a < 0xE0 then 2 else if a < 0xF0 then 3
      else if a < 0xF5 then 4 else 0)"

text \<open>The bytes after the second one, of which \<open>n\<close> are missing and \<open>seen\<close> have been read.\<close>

fun tail_bytes :: "nat \<Rightarrow> nat \<Rightarrow> bytes \<Rightarrow> nat option option" where
  "tail_bytes 0 seen bs = None"
| "tail_bytes (Suc n) seen [] = Some None"
| "tail_bytes (Suc n) seen (b # bs) = (if continuation b then tail_bytes n (seen + 1) bs else Some (Some seen))"

definition utf8_char :: "bytes \<Rightarrow> nat option + nat" where
  "utf8_char bs =
     (case bs of
        [] \<Rightarrow> Inr 0
      | a # rest \<Rightarrow>
          (let w = char_width a
           in if w = 0 then Inl (Some 1)
              else if w = 1 then Inr 1
              else
                (case rest of
                   [] \<Rightarrow> Inl None
                 | b # rest2 \<Rightarrow>
                     if \<not> second_ok a b then Inl (Some 1)
                     else (case tail_bytes (w - 2) 2 rest2 of None \<Rightarrow> Inr w | Some e \<Rightarrow> Inl e))))"

lemma utf8_char_width: "utf8_char bs = Inr w \<Longrightarrow> bs \<noteq> [] \<Longrightarrow> 0 < w"
  by (auto simp: utf8_char_def char_width_def Let_def split: list.splits if_splits option.splits)

text \<open>The position and the length of the first error.\<close>

function utf8_error :: "nat \<Rightarrow> bytes \<Rightarrow> (nat \<times> nat option) option" where
  "utf8_error index bs =
     (if bs = [] then None
      else (case utf8_char bs of
              Inl e \<Rightarrow> Some (index, e)
            | Inr w \<Rightarrow> utf8_error (index + w) (drop w bs)))"
  by pat_completeness auto

termination
  by (relation "measure (\<lambda>(i, bs). length bs)") (auto dest: utf8_char_width)

declare utf8_error.simps [simp del]

definition show_utf8_error :: "nat \<times> nat option \<Rightarrow> string" where
  "show_utf8_error e =
     (case e of
        (i, Some n) \<Rightarrow> ''invalid utf-8 sequence of '' @ decimal n @ '' bytes from index '' @ decimal i
      | (i, None) \<Rightarrow> ''incomplete utf-8 byte sequence from index '' @ decimal i)"

definition read_to_string :: "'g Rng \<Rightarrow> nat \<Rightarrow> 'g FsState \<Rightarrow> Path \<Rightarrow> (bytes io_result \<times> 'g FsState) option" where
  "read_to_string rng ptr fs path = do {
     (r, fs1) \<leftarrow> read_path rng ptr fs path;
     Some (case r of
             Inl e \<Rightarrow> Inl e
           | Inr bs \<Rightarrow> (case utf8_error 0 bs of None \<Rightarrow> Inr bs | Some e \<Rightarrow> Inl (Io_InvalidData, show_utf8_error e)), fs1)
   }"

text \<open>Plain text is valid, an error lies within the input, and what precedes it is valid.\<close>

lemma ascii_valid: "\<forall>b\<in>set bs. b < 0x80 \<Longrightarrow> utf8_error i bs = None"
proof (induction bs arbitrary: i)
  case (Cons b bs)
  then have "utf8_char (b # bs) = Inr 1" by (simp add: utf8_char_def char_width_def Let_def)
  then show ?case using Cons by (subst utf8_error.simps) simp
qed (simp add: utf8_error.simps)

lemma utf8_char_fits: "utf8_char bs = Inr w \<Longrightarrow> w \<le> length bs"
proof -
  have tail: "tail_bytes n seen xs = None \<Longrightarrow> n \<le> length xs" for n seen xs
    by (induction n seen xs rule: tail_bytes.induct) (auto split: if_splits)
  assume "utf8_char bs = Inr w"
  then show ?thesis
    using tail [of "w - 2" 2 "tl (tl bs)"] by (auto simp: utf8_char_def Let_def split: list.splits if_splits option.splits)
qed

lemma utf8_error_within: "utf8_error i bs = Some (j, e) \<Longrightarrow> i \<le> j \<and> j < i + length bs"
proof (induction i bs rule: utf8_error.induct)
  case (1 i bs)
  from 1(2) have ne: "bs \<noteq> []" by (auto simp: utf8_error.simps)
  show ?case
  proof (cases "utf8_char bs")
    case (Inl x)
    with 1(2) ne show ?thesis by (auto simp: utf8_error.simps [of i bs])
  next
    case (Inr w)
    with 1(2) ne have "utf8_error (i + w) (drop w bs) = Some (j, e)" by (simp add: utf8_error.simps [of i bs])
    with 1(1) [OF ne Inr] utf8_char_fits [OF Inr] show ?thesis by simp
  qed
qed

end
