(* ===== verification/Fs_Async.thy ===== *)
theory Fs_Async
  imports Fs_Cache Fs_Meta
begin

text \<open>
  \<^verbatim>\<open>turmoil-fs/src/shim/tokio/fs/mod.rs\<close>: the replacement of \<^verbatim>\<open>tokio::fs\<close>. An asynchronous call has
  its effect at once, through the \<^verbatim>\<open>std::fs\<close> shim, and then sleeps for the latency of the
  operation before it returns the result. A call of the model returns the result, the time it
  sleeps (nothing for zero), and the file system as the call leaves it when the sleep begins.
\<close>

section \<open>Latency\<close>

text \<open>The sample of the latency distribution, a parameter.\<close>

type_synonym 'g draw = "rat \<Rightarrow> 'g \<Rightarrow> rat \<times> 'g"

definition apply_io_latency :: "'g draw \<Rightarrow> 'g FsState \<Rightarrow> duration \<times> 'g FsState" where
  "apply_io_latency draw fs = calculate_latency draw False fs"

definition apply_read_latency ::
  "'g draw \<Rightarrow> 'g Rng \<Rightarrow> Path \<Rightarrow> nat \<Rightarrow> bool \<Rightarrow> 'g FsState \<Rightarrow> (duration \<times> 'g FsState) option" where
  "apply_read_latency draw rng path offset direct fs = do {
     (cache_hit, fs1) \<leftarrow>
       (if direct then Some (False, fs)
        else
          (case page_cache fs of
             None \<Rightarrow> Some (False, fs)
           | Some cache \<Rightarrow>
               (let (hit, c1, g) = cache_access (random_bool rng) cache path offset (fs_rng fs)
                in do {
                  c2 \<leftarrow> cache_insert c1 path offset;
                  Some (hit, fs\<lparr>page_cache := Some c2, fs_rng := g\<rparr>)
                })));
     Some (calculate_latency draw cache_hit fs1)
   }"

definition apply_write_latency ::
  "'g draw \<Rightarrow> Path \<Rightarrow> nat \<Rightarrow> bool \<Rightarrow> 'g FsState \<Rightarrow> (duration \<times> 'g FsState) option" where
  "apply_write_latency draw path offset direct fs = do {
     fs1 \<leftarrow>
       (if direct then Some fs
        else
          (case page_cache fs of
             None \<Rightarrow> Some fs
           | Some cache \<Rightarrow> do { c1 \<leftarrow> cache_insert cache path offset; Some (fs\<lparr>page_cache := Some c1\<rparr>) }));
     Some (calculate_latency draw False fs1)
   }"

text \<open>A call that sleeps after its effect, and one that does not.\<close>

definition then_sleep :: "'g draw \<Rightarrow> 'r \<times> 'g FsState \<Rightarrow> 'r \<times> duration \<times> 'g FsState" where
  "then_sleep draw = (\<lambda>(r, fs). (r, apply_io_latency draw fs))"

definition at_once :: "'r \<times> 'g FsState \<Rightarrow> 'r \<times> duration \<times> 'g FsState" where
  "at_once = (\<lambda>(r, fs). (r, 0, fs))"

section \<open>Calls on paths\<close>

definition async_canonicalize :: "'g FsState \<Rightarrow> Path \<Rightarrow> Path io_result \<times> duration \<times> 'g FsState" where
  "async_canonicalize fs path = at_once (canonicalize fs path, fs)"

definition async_copy ::
  "'g draw \<Rightarrow> 'g Rng \<Rightarrow> nat \<Rightarrow> 'g FsState \<Rightarrow> Path \<Rightarrow> Path \<Rightarrow> (nat io_result \<times> duration \<times> 'g FsState) option" where
  "async_copy draw rng ptr fs from to = map_option (then_sleep draw) (copy rng ptr fs from to)"

definition async_create_dir :: "'g FsState \<Rightarrow> Path \<Rightarrow> unit io_result \<times> duration \<times> 'g FsState" where
  "async_create_dir fs path = at_once (create_dir fs path)"

definition async_create_dir_all :: "'g FsState \<Rightarrow> Path \<Rightarrow> unit io_result \<times> duration \<times> 'g FsState" where
  "async_create_dir_all fs path = at_once (create_dir_all fs path)"

definition async_hard_link :: "'g FsState \<Rightarrow> Path \<Rightarrow> Path \<Rightarrow> unit io_result \<times> duration \<times> 'g FsState" where
  "async_hard_link fs original link = at_once (hard_link fs original link)"

definition async_metadata :: "'g draw \<Rightarrow> 'g FsState \<Rightarrow> Path \<Rightarrow> (Metadata io_result \<times> duration \<times> 'g FsState) option" where
  "async_metadata draw fs path = map_option (\<lambda>r. then_sleep draw (r, fs)) (metadata fs path)"

definition async_read ::
  "'g draw \<Rightarrow> 'g Rng \<Rightarrow> nat \<Rightarrow> 'g FsState \<Rightarrow> Path \<Rightarrow> (bytes io_result \<times> duration \<times> 'g FsState) option" where
  "async_read draw rng ptr fs path = map_option (then_sleep draw) (read_path rng ptr fs path)"

definition async_read_dir :: "'g draw \<Rightarrow> 'g FsState \<Rightarrow> Path \<Rightarrow> Path set io_result \<times> duration \<times> 'g FsState" where
  "async_read_dir draw fs path = then_sleep draw (read_dir fs path, fs)"

definition async_read_link :: "'g draw \<Rightarrow> 'g FsState \<Rightarrow> Path \<Rightarrow> Path io_result \<times> duration \<times> 'g FsState" where
  "async_read_link draw fs path = then_sleep draw (shim_read_link fs path, fs)"

definition async_read_to_string ::
  "'g draw \<Rightarrow> 'g Rng \<Rightarrow> nat \<Rightarrow> 'g FsState \<Rightarrow> Path \<Rightarrow> (bytes io_result \<times> duration \<times> 'g FsState) option" where
  "async_read_to_string draw rng ptr fs path = map_option (then_sleep draw) (read_to_string rng ptr fs path)"

definition async_remove_dir :: "'g FsState \<Rightarrow> Path \<Rightarrow> unit io_result \<times> duration \<times> 'g FsState" where
  "async_remove_dir fs path = at_once (remove_dir fs path)"

definition async_remove_dir_all ::
  "(Path set \<Rightarrow> Path list) \<Rightarrow> 'g FsState \<Rightarrow> Path \<Rightarrow> (unit io_result \<times> duration \<times> 'g FsState) option" where
  "async_remove_dir_all order fs path = map_option at_once (remove_dir_all order fs path)"

definition async_remove_file :: "'g FsState \<Rightarrow> Path \<Rightarrow> unit io_result \<times> duration \<times> 'g FsState" where
  "async_remove_file fs path = at_once (remove_file fs path)"

definition async_rename :: "'g FsState \<Rightarrow> Path \<Rightarrow> Path \<Rightarrow> unit io_result \<times> duration \<times> 'g FsState" where
  "async_rename fs from to = at_once (shim_rename fs from to)"

definition async_set_permissions :: "'g FsState \<Rightarrow> Path \<Rightarrow> u32 \<Rightarrow> unit io_result \<times> duration \<times> 'g FsState" where
  "async_set_permissions fs path mode = at_once (shim_set_permissions fs path mode)"

definition async_symlink :: "'g FsState \<Rightarrow> Path \<Rightarrow> Path \<Rightarrow> unit io_result \<times> duration \<times> 'g FsState" where
  "async_symlink fs original link = at_once (symlink fs original link)"

definition async_symlink_metadata ::
  "'g draw \<Rightarrow> 'g FsState \<Rightarrow> Path \<Rightarrow> (Metadata io_result \<times> duration \<times> 'g FsState) option" where
  "async_symlink_metadata draw fs path = map_option (\<lambda>r. then_sleep draw (r, fs)) (symlink_metadata fs path)"

definition async_write ::
  "'g draw \<Rightarrow> 'g Rng \<Rightarrow> nat \<Rightarrow> 'g FsState \<Rightarrow> Path \<Rightarrow> bytes \<Rightarrow> (unit io_result \<times> duration \<times> 'g FsState) option" where
  "async_write draw rng ptr fs path contents = map_option (then_sleep draw) (write_path rng ptr fs path contents)"

text \<open>Every failure to read the metadata, a broken link included, counts as not existing.\<close>

definition try_exists :: "'g FsState \<Rightarrow> Path \<Rightarrow> (bool io_result \<times> duration \<times> 'g FsState) option" where
  "try_exists fs path = map_option (\<lambda>r. at_once (Inr (\<not> isl r), fs)) (metadata fs path)"

definition async_sync_dir :: "'g draw \<Rightarrow> 'g FsState \<Rightarrow> Path \<Rightarrow> unit io_result \<times> duration \<times> 'g FsState" where
  "async_sync_dir draw fs path = then_sleep draw (shim_sync_dir fs path)"

section \<open>Files\<close>

text \<open>An asynchronous file wraps a file of the \<^verbatim>\<open>std::fs\<close> shim.\<close>

record AsyncFile =
  inner :: FileHandle

definition wrap_file :: "(FileHandle io_result \<times> 'g FsState) \<Rightarrow> AsyncFile io_result \<times> duration \<times> 'g FsState" where
  "wrap_file = (\<lambda>(r, fs). at_once (map_sum (\<lambda>e. e) (\<lambda>h. \<lparr>inner = h\<rparr>) r, fs))"

definition AsyncFile_open :: "'g FsState \<Rightarrow> Path \<Rightarrow> (AsyncFile io_result \<times> duration \<times> 'g FsState) option" where
  "AsyncFile_open fs path = map_option wrap_file (File_open fs path)"

definition AsyncFile_create :: "'g FsState \<Rightarrow> Path \<Rightarrow> (AsyncFile io_result \<times> duration \<times> 'g FsState) option" where
  "AsyncFile_create fs path = map_option wrap_file (File_create fs path)"

definition from_std :: "FileHandle \<Rightarrow> AsyncFile" where
  "from_std h = \<lparr>inner = h\<rparr>"

definition into_std :: "AsyncFile \<Rightarrow> FileHandle" where
  "into_std f = inner f"

definition async_sync_all :: "'g draw \<Rightarrow> AsyncFile \<Rightarrow> 'g FsState \<Rightarrow> unit io_result \<times> duration \<times> 'g FsState" where
  "async_sync_all draw f fs = then_sleep draw (sync_all (inner f) fs)"

definition async_sync_data :: "'g draw \<Rightarrow> AsyncFile \<Rightarrow> 'g FsState \<Rightarrow> unit io_result \<times> duration \<times> 'g FsState" where
  "async_sync_data draw f fs = then_sleep draw (sync_data (inner f) fs)"

definition async_set_len :: "'g draw \<Rightarrow> 'g Rng \<Rightarrow> AsyncFile \<Rightarrow> 'g FsState \<Rightarrow> nat \<Rightarrow> unit io_result \<times> duration \<times> 'g FsState" where
  "async_set_len draw rng f fs len = then_sleep draw (set_len rng (inner f) fs len)"

definition async_file_metadata ::
  "'g draw \<Rightarrow> AsyncFile \<Rightarrow> 'g FsState \<Rightarrow> (Metadata io_result \<times> duration \<times> 'g FsState) option" where
  "async_file_metadata draw f fs = map_option (\<lambda>r. then_sleep draw (r, fs)) (handle_metadata (inner f) fs)"

definition async_try_clone :: "AsyncFile \<Rightarrow> 'g FsState \<Rightarrow> (AsyncFile io_result \<times> duration \<times> 'g FsState) option" where
  "async_try_clone f fs = map_option wrap_file (try_clone (inner f) fs)"

text \<open>Positional reads and writes look at the page cache, whether they succeed or fail.\<close>

definition async_read_at ::
  "'g draw \<Rightarrow> 'g Rng \<Rightarrow> AsyncFile \<Rightarrow> 'g FsState \<Rightarrow> nat \<Rightarrow> bytes \<Rightarrow> nat
     \<Rightarrow> (nat io_result \<times> bytes \<times> duration \<times> 'g FsState) option" where
  "async_read_at draw rng f fs ptr buf offset = do {
     (r, buf1, fs1) \<leftarrow> read_at_internal rng (inner f) fs ptr buf offset;
     (d, fs2) \<leftarrow>
       (case handle_path (inner f) fs1 of
          Some path \<Rightarrow> apply_read_latency draw rng path offset (is_direct_io (inner f)) fs1
        | None \<Rightarrow> Some (apply_io_latency draw fs1));
     Some (r, buf1, d, fs2)
   }"

definition async_write_at ::
  "'g draw \<Rightarrow> 'g Rng \<Rightarrow> AsyncFile \<Rightarrow> 'g FsState \<Rightarrow> nat \<Rightarrow> bytes \<Rightarrow> nat
     \<Rightarrow> (nat io_result \<times> duration \<times> 'g FsState) option" where
  "async_write_at draw rng f fs ptr buf offset = do {
     (r, fs1) \<leftarrow> write_at_internal rng (inner f) fs ptr buf offset;
     (d, fs2) \<leftarrow>
       (case handle_path (inner f) fs1 of
          Some path \<Rightarrow> apply_write_latency draw path offset (is_direct_io (inner f)) fs1
        | None \<Rightarrow> Some (apply_io_latency draw fs1));
     Some (r, d, fs2)
   }"

definition async_as_raw_fd :: "AsyncFile \<Rightarrow> RawFd" where
  "async_as_raw_fd f = as_raw_fd (inner f)"

text \<open>
  The stream traits never wait: a poll is ready with the result of the synchronous call. A read
  goes to the unfilled part of the caller's buffer, which grows by what was read.
\<close>

definition File_poll_read ::
  "'g Rng \<Rightarrow> AsyncFile \<Rightarrow> 'g FsState \<Rightarrow> nat \<Rightarrow> bytes \<Rightarrow> nat \<Rightarrow> (unit io_result \<times> bytes \<times> nat \<times> AsyncFile \<times> 'g FsState) option" where
  "File_poll_read rng f fs ptr buf filled = do {
     (r, slice, h, fs1) \<leftarrow> File_read rng (inner f) fs (ptr + filled) (drop filled buf);
     Some (case r of
             Inr n \<Rightarrow> (Inr (), take filled buf @ slice, filled + n, f\<lparr>inner := h\<rparr>, fs1)
           | Inl e \<Rightarrow> (Inl e, take filled buf @ slice, filled, f\<lparr>inner := h\<rparr>, fs1))
   }"

definition File_poll_write ::
  "'g Rng \<Rightarrow> AsyncFile \<Rightarrow> 'g FsState \<Rightarrow> nat \<Rightarrow> bytes \<Rightarrow> (nat io_result \<times> AsyncFile \<times> 'g FsState) option" where
  "File_poll_write rng f fs ptr buf = map_option (\<lambda>(r, h, fs1). (r, f\<lparr>inner := h\<rparr>, fs1)) (File_write rng (inner f) fs ptr buf)"

definition File_poll_flush :: "AsyncFile \<Rightarrow> unit io_result" where
  "File_poll_flush f = File_flush (inner f)"

definition File_poll_shutdown :: "AsyncFile \<Rightarrow> unit io_result" where
  "File_poll_shutdown f = Inr ()"

definition start_seek :: "AsyncFile \<Rightarrow> 'g FsState \<Rightarrow> SeekFrom \<Rightarrow> (unit io_result \<times> AsyncFile) option" where
  "start_seek f fs position =
     map_option (\<lambda>(r, h). (map_sum (\<lambda>e. e) (\<lambda>_. ()) r, f\<lparr>inner := h\<rparr>)) (File_seek (inner f) fs position)"

text \<open>\<^verbatim>\<open>stream_position\<close> is a seek by nothing.\<close>

definition poll_complete :: "AsyncFile \<Rightarrow> 'g FsState \<Rightarrow> (nat io_result \<times> AsyncFile) option" where
  "poll_complete f fs = map_option (\<lambda>(r, h). (r, f\<lparr>inner := h\<rparr>)) (File_seek (inner f) fs (From_current 0))"

section \<open>Options\<close>

record AsyncOpenOptions =
  oo_inner :: OpenOptions

definition AsyncOpenOptions_new :: AsyncOpenOptions where
  "AsyncOpenOptions_new = \<lparr>oo_inner = OpenOptions_new\<rparr>"

definition aoo_read :: "bool \<Rightarrow> AsyncOpenOptions \<Rightarrow> AsyncOpenOptions" where
  "aoo_read b opts = opts\<lparr>oo_inner := set_oo_read b (oo_inner opts)\<rparr>"

definition aoo_write :: "bool \<Rightarrow> AsyncOpenOptions \<Rightarrow> AsyncOpenOptions" where
  "aoo_write b opts = opts\<lparr>oo_inner := set_oo_write b (oo_inner opts)\<rparr>"

definition aoo_append :: "bool \<Rightarrow> AsyncOpenOptions \<Rightarrow> AsyncOpenOptions" where
  "aoo_append b opts = opts\<lparr>oo_inner := set_oo_append b (oo_inner opts)\<rparr>"

definition aoo_truncate :: "bool \<Rightarrow> AsyncOpenOptions \<Rightarrow> AsyncOpenOptions" where
  "aoo_truncate b opts = opts\<lparr>oo_inner := set_oo_truncate b (oo_inner opts)\<rparr>"

definition aoo_create :: "bool \<Rightarrow> AsyncOpenOptions \<Rightarrow> AsyncOpenOptions" where
  "aoo_create b opts = opts\<lparr>oo_inner := set_oo_create b (oo_inner opts)\<rparr>"

definition aoo_create_new :: "bool \<Rightarrow> AsyncOpenOptions \<Rightarrow> AsyncOpenOptions" where
  "aoo_create_new b opts = opts\<lparr>oo_inner := set_oo_create_new b (oo_inner opts)\<rparr>"

definition aoo_direct_io :: "bool \<Rightarrow> AsyncOpenOptions \<Rightarrow> AsyncOpenOptions" where
  "aoo_direct_io b opts = opts\<lparr>oo_inner := set_oo_direct_io b (oo_inner opts)\<rparr>"

definition aoo_mode :: "u32 \<Rightarrow> AsyncOpenOptions \<Rightarrow> AsyncOpenOptions" where
  "aoo_mode v opts = opts\<lparr>oo_inner := set_oo_mode v (oo_inner opts)\<rparr>"

definition aoo_custom_flags :: "32 word \<Rightarrow> AsyncOpenOptions \<Rightarrow> AsyncOpenOptions" where
  "aoo_custom_flags v opts = opts\<lparr>oo_inner := set_oo_custom_flags v (oo_inner opts)\<rparr>"

definition aoo_open :: "AsyncOpenOptions \<Rightarrow> 'g FsState \<Rightarrow> Path \<Rightarrow> (AsyncFile io_result \<times> duration \<times> 'g FsState) option" where
  "aoo_open opts fs path = map_option wrap_file (open_file (oo_inner opts) fs path)"

record AsyncDirBuilder =
  db_inner :: DirBuilder

definition AsyncDirBuilder_new :: AsyncDirBuilder where
  "AsyncDirBuilder_new = \<lparr>db_inner = DirBuilder_new\<rparr>"

definition adb_recursive :: "bool \<Rightarrow> AsyncDirBuilder \<Rightarrow> AsyncDirBuilder" where
  "adb_recursive b d = d\<lparr>db_inner := set_db_recursive b (db_inner d)\<rparr>"

definition adb_mode :: "u32 \<Rightarrow> AsyncDirBuilder \<Rightarrow> AsyncDirBuilder" where
  "adb_mode v d = d\<lparr>db_inner := set_db_mode v (db_inner d)\<rparr>"

definition adb_create :: "AsyncDirBuilder \<Rightarrow> 'g FsState \<Rightarrow> Path \<Rightarrow> unit io_result \<times> duration \<times> 'g FsState" where
  "adb_create d fs path = at_once (DirBuilder_create (db_inner d) fs path)"

section \<open>Positional reads and writes and the cache\<close>

text \<open>What the synchronous calls leave alone.\<close>

definition settings :: "'g FsState \<Rightarrow> PageCache option \<times> IoLatency option \<times> (RawFd, Path) imap" where
  "settings fs = (page_cache fs, io_latency fs, open_handles fs)"

lemma settings_rng [simp]:
  "settings (fs\<lparr>fs_rng := g\<rparr>) = settings fs" "settings (fs\<lparr>fs_rng := g, corruptions := cs\<rparr>) = settings fs"
  "settings (fs\<lparr>corruptions := cs, fs_rng := g\<rparr>) = settings fs" "settings (push_op op fs) = settings fs"
  by (simp_all add: settings_def push_op_def)

lemma settings_flip [simp]: "settings (snd (flip rng pr fs)) = settings fs"
  by (simp add: flip_def case_prod_beta' Let_def)

lemma settings_fold [simp]: "settings (fold apply_op_to_persisted ops fs) = settings fs"
proof (induction ops arbitrary: fs)
  case (Cons op ops)
  have "settings (apply_op_to_persisted op fs) = settings fs"
    by (cases op) (simp_all add: settings_def Let_def split: option.split)
  with Cons show ?case by simp
qed simp

lemma settings_sync [simp]: "settings (snd (sync_file fs p)) = settings fs"
  by (auto simp: sync_file_def Let_def split: prod.splits) (simp add: settings_def)

lemma settings_maybe_sync [simp]: "settings (maybe_sync rng p fs) = settings fs"
  by (simp add: maybe_sync_def case_prod_beta' Let_def)

lemma settings_faults [simp]:
  "settings (snd (snd (shorten rng n buf fs))) = settings fs" "settings (snd (corrupt rng p off n buf fs)) = settings fs"
  by (simp_all add: shorten_def corrupt_def case_prod_beta' Let_def)

lemma settings_write_file [simp]: "settings (write_file fs p off d t) = settings fs"
  by (simp add: write_file_def)

lemma settings_read_at: "read_at_internal rng h fs ptr buf off = Some (r, buf', fs') \<Longrightarrow> settings fs' = settings fs"
  by (auto simp: read_at_internal_def case_prod_beta' Let_def bind_Some_iff split: if_splits option.splits)
    (metis settings_faults settings_flip snd_conv)

lemma settings_write_at: "write_at_internal rng h fs ptr buf off = Some (r, fs') \<Longrightarrow> settings fs' = settings fs"
  by (auto simp: write_at_internal_def case_prod_beta' Let_def bind_Some_iff split: if_splits option.splits sum.splits)

lemma settings_latency [simp]: "settings (snd (calculate_latency draw hit fs)) = settings fs"
  by (auto simp: calculate_latency_def Let_def split: option.split prod.split)

definition in_range :: "IoLatency \<Rightarrow> duration \<Rightarrow> bool" where
  "in_range cfg d \<longleftrightarrow> min_latency cfg \<le> d \<and> d \<le> max_latency cfg"

definition draws_positive :: "'g draw \<Rightarrow> bool" where
  "draws_positive draw \<longleftrightarrow> (\<forall>l g. 0 \<le> fst (draw l g))"

lemma miss_in_range:
  assumes "io_latency fs = Some cfg" "min_latency cfg \<le> max_latency cfg" "draws_positive draw"
  shows "in_range cfg (fst (calculate_latency draw False fs))"
  using assms latency_bounds [of fs cfg draw False] by (auto simp: in_range_def draws_positive_def)

text \<open>What the two positional calls do with the cache and how long they sleep.\<close>

lemma read_latency_effect:
  assumes "io_latency fs = Some cfg" "min_latency cfg \<le> max_latency cfg" "draws_positive draw"
    and "page_cache fs = Some c" "cache_wf c" "0 < max_pages (pc_config c)" "random_eviction_probability (pc_config c) \<le> 0"
  shows "returns (apply_read_latency draw rng path off direct fs) (\<lambda>(d, fs').
    if direct then in_range cfg d \<and> page_cache fs' = Some c
    else (if cached c path off then d = 100 else in_range cfg d) \<and>
      (\<exists>c'. page_cache fs' = Some c' \<and> cache_wf c' \<and> pc_config c' = pc_config c \<and> cached c' path off))"
proof (cases direct)
  case True
  then show ?thesis
    using miss_in_range [OF assms(1-3)] settings_latency [of draw False fs] assms(4)
    by (auto simp: apply_read_latency_def settings_def split: prod.split)
next
  case False
  obtain c1 where a: "cache_access (random_bool rng) c path off (fs_rng fs) = (cached c path off, c1, fs_rng fs)"
    "cache_wf c1" "pc_config c1 = pc_config c" using access_spec [OF assms(5,7), where coin = "random_bool rng" and path = path and offset = off and g = "fs_rng fs"] by blast
  with insert_fits [of c1 path off] assms(6) obtain c2 where
    c2: "cache_insert c1 path off = Some c2" "cache_wf c2" "cached c2 path off" "pc_config c2 = pc_config c"
    by (auto simp: returns_def)
  let ?fs = "fs\<lparr>page_cache := Some c2, fs_rng := fs_rng fs\<rparr>"
  have "page_cache (snd (calculate_latency draw hit ?fs)) = Some c2" for hit
    using settings_latency [of draw hit ?fs] by (simp add: settings_def)
  moreover have "in_range cfg (fst (calculate_latency draw False ?fs))"
    using miss_in_range [of ?fs cfg draw] assms(1-3) by simp
  moreover have "fst (calculate_latency draw True ?fs) = 100" by (simp add: calculate_latency_def)
  ultimately show ?thesis
    using False a c2 assms(4) by (cases "cached c path off") (auto simp: apply_read_latency_def case_prod_beta')
qed

lemma write_latency_effect:
  assumes "io_latency fs = Some cfg" "min_latency cfg \<le> max_latency cfg" "draws_positive draw"
    and "page_cache fs = Some c" "cache_wf c" "0 < max_pages (pc_config c)"
  shows "returns (apply_write_latency draw path off direct fs) (\<lambda>(d, fs'). in_range cfg d \<and>
    (\<exists>c'. page_cache fs' = Some c' \<and> cache_wf c' \<and> pc_config c' = pc_config c \<and> (if direct then c' = c else cached c' path off)))"
proof (cases direct)
  case True
  then show ?thesis
    using miss_in_range [OF assms(1-3)] settings_latency [of draw False fs] assms(4,5)
    by (auto simp: apply_write_latency_def settings_def split: prod.split)
next
  case False
  from insert_fits [of c path off] assms(5,6) obtain c2 where
    c2: "cache_insert c path off = Some c2" "cache_wf c2" "cached c2 path off" "pc_config c2 = pc_config c"
    by (auto simp: returns_def)
  let ?fs = "fs\<lparr>page_cache := Some c2\<rparr>"
  have "page_cache (snd (calculate_latency draw False ?fs)) = Some c2"
    using settings_latency [of draw False ?fs] by (simp add: settings_def)
  moreover have "in_range cfg (fst (calculate_latency draw False ?fs))"
    using miss_in_range [of ?fs cfg draw] assms(1-3) by simp
  ultimately show ?thesis
    using False c2 assms(4) by (auto simp: apply_write_latency_def split: prod.split)
qed


text \<open>A cache of two pages that holds the first page of the file.\<close>

definition cached_fs :: "unit FsState" where
  "cached_fs = demo_fs\<lparr>io_latency := Some IoLatency_default, open_handles := [(SIM_FD_BASE, path_a)],
     next_fd := SIM_FD_BASE + 1,
     page_cache := Some \<lparr>pages = [((path_a, 0), ())], pc_config = PageCacheConfig_default\<lparr>max_pages := 2\<rparr>\<rparr>\<rparr>"


end
