(* ===== verification/Sim_Build.thy ===== *)
theory Sim_Build
  imports Sim_Time
begin

text \<open>
  \<^verbatim>\<open>turmoil/src/builder.rs\<close>: the settings of a simulation and its construction. The generator is
  either seeded or draws its numbers from a function of the caller; seeding is the random
  library's, so the generator is an argument.
\<close>

section \<open>Settings\<close>

record Builder =
  bd_config :: SimConfig
  bd_ip_version :: IpVersion
  bd_link :: LinkConfig
  bd_rng_seed :: "64 word option"

definition Builder_new :: "int \<Rightarrow> Builder" where
  "Builder_new now = \<lparr>bd_config = SimConfig_default now, bd_ip_version = Ver4,
     bd_link = \<lparr>lc_latency = Some Latency_default, lc_message_loss = Some MessageLoss_default\<rparr>, bd_rng_seed = None\<rparr>"

text \<open>\<^verbatim>\<open>latency_mut\<close> and \<^verbatim>\<open>message_loss_mut\<close> panic when the setting is missing.\<close>

definition latency_mut :: "(Latency \<Rightarrow> Latency) \<Rightarrow> LinkConfig \<Rightarrow> LinkConfig option" where
  "latency_mut f l = map_option (\<lambda>v. l\<lparr>lc_latency := Some (f v)\<rparr>) (lc_latency l)"

definition message_loss_mut :: "(MessageLoss \<Rightarrow> MessageLoss) \<Rightarrow> LinkConfig \<Rightarrow> LinkConfig option" where
  "message_loss_mut f l = map_option (\<lambda>v. l\<lparr>lc_message_loss := Some (f v)\<rparr>) (lc_message_loss l)"

definition on_config :: "(SimConfig \<Rightarrow> SimConfig) \<Rightarrow> Builder \<Rightarrow> Builder option" where
  "on_config f b = Some (b\<lparr>bd_config := f (bd_config b)\<rparr>)"

definition bd_epoch :: "int \<Rightarrow> Builder \<Rightarrow> Builder option" where
  "bd_epoch v = on_config (cfg_epoch_update (\<lambda>_. v))"

definition bd_simulation_duration :: "duration \<Rightarrow> Builder \<Rightarrow> Builder option" where
  "bd_simulation_duration v = on_config (cfg_duration_update (\<lambda>_. v))"

definition bd_tick_duration :: "duration \<Rightarrow> Builder \<Rightarrow> Builder option" where
  "bd_tick_duration v = on_config (cfg_tick_update (\<lambda>_. v))"

definition bd_set_ip_version :: "IpVersion \<Rightarrow> Builder \<Rightarrow> Builder option" where
  "bd_set_ip_version v b = Some (b\<lparr>bd_ip_version := v\<rparr>)"

definition bd_min_message_latency :: "duration \<Rightarrow> Builder \<Rightarrow> Builder option" where
  "bd_min_message_latency v b =
     map_option (\<lambda>l. b\<lparr>bd_link := l\<rparr>) (latency_mut (min_message_latency_update (\<lambda>_. v)) (bd_link b))"

definition bd_max_message_latency :: "duration \<Rightarrow> Builder \<Rightarrow> Builder option" where
  "bd_max_message_latency v b =
     map_option (\<lambda>l. b\<lparr>bd_link := l\<rparr>) (latency_mut (max_message_latency_update (\<lambda>_. v)) (bd_link b))"

definition bd_fail_rate :: "rat \<Rightarrow> Builder \<Rightarrow> Builder option" where
  "bd_fail_rate v b =
     map_option (\<lambda>l. b\<lparr>bd_link := l\<rparr>) (message_loss_mut (fail_rate_update (\<lambda>_. v)) (bd_link b))"

definition bd_repair_rate :: "rat \<Rightarrow> Builder \<Rightarrow> Builder option" where
  "bd_repair_rate v b =
     map_option (\<lambda>l. b\<lparr>bd_link := l\<rparr>) (message_loss_mut (repair_rate_update (\<lambda>_. v)) (bd_link b))"

definition bd_ephemeral_ports :: "u16 \<times> u16 \<Rightarrow> Builder \<Rightarrow> Builder option" where
  "bd_ephemeral_ports v = on_config (cfg_ephemeral_ports_update (\<lambda>_. v))"

definition bd_tcp_capacity :: "nat \<Rightarrow> Builder \<Rightarrow> Builder option" where
  "bd_tcp_capacity v = on_config (cfg_tcp_capacity_update (\<lambda>_. v))"

definition bd_udp_capacity :: "nat \<Rightarrow> Builder \<Rightarrow> Builder option" where
  "bd_udp_capacity v = on_config (cfg_udp_capacity_update (\<lambda>_. v))"

definition bd_enable_random_order :: "Builder \<Rightarrow> Builder option" where
  "bd_enable_random_order = on_config (cfg_random_node_order_update (\<lambda>_. True))"

definition bd_set_rng_seed :: "64 word \<Rightarrow> Builder \<Rightarrow> Builder option" where
  "bd_set_rng_seed v b = Some (b\<lparr>bd_rng_seed := Some v\<rparr>)"

section \<open>Building\<close>

definition build_on :: "Builder \<Rightarrow> 'g \<Rightarrow> ('t, 'g) Sim option" where
  "build_on b rng = do {
     l \<leftarrow> lc_latency (bd_link b);
     if max_message_latency l < min_message_latency l then None
     else Sim_new (bd_config b) (World_new (bd_link b) rng (version_iter (bd_ip_version b)) (cfg_tick (bd_config b)))
   }"

text \<open>\<open>seed_from_u64\<close> and \<open>from_os_rng\<close> are the random library's.\<close>

definition Builder_build :: "(64 word \<Rightarrow> 'g) \<Rightarrow> 'g \<Rightarrow> Builder \<Rightarrow> ('t, 'g) Sim option" where
  "Builder_build seed_from_u64 from_os_rng b =
     build_on b (case bd_rng_seed b of Some seed \<Rightarrow> seed_from_u64 seed | None \<Rightarrow> from_os_rng)"

text \<open>
  A generator over the caller's function, whose state is \<open>'f\<close>: its 32-bit numbers are the high
  halves of its 64-bit ones.
\<close>

definition fn_next_u32 :: "('f \<Rightarrow> 64 word \<times> 'f) \<Rightarrow> 'f \<Rightarrow> u32 \<times> 'f" where
  "fn_next_u32 next s = (let (v, s1) = next s in (ucast (drop_bit 32 v), s1))"

definition build_with_rng :: "Builder \<Rightarrow> 'f \<Rightarrow> ('t, 'f) Sim option" where
  "build_with_rng b f = build_on b f"

section \<open>What can be built\<close>

text \<open>A call of the builder.\<close>

datatype BuilderCall =
    Set_epoch int | Set_duration duration | Set_tick duration | Set_version IpVersion
  | Set_min_latency duration | Set_max_latency duration | Set_fail_rate rat | Set_repair_rate rat
  | Set_ports "u16 \<times> u16" | Set_tcp_capacity nat | Set_udp_capacity nat | Random_order | Set_seed "64 word"

fun builder_call :: "BuilderCall \<Rightarrow> Builder \<Rightarrow> Builder option" where
  "builder_call (Set_epoch v) = bd_epoch v"
| "builder_call (Set_duration v) = bd_simulation_duration v"
| "builder_call (Set_tick v) = bd_tick_duration v"
| "builder_call (Set_version v) = bd_set_ip_version v"
| "builder_call (Set_min_latency v) = bd_min_message_latency v"
| "builder_call (Set_max_latency v) = bd_max_message_latency v"
| "builder_call (Set_fail_rate v) = bd_fail_rate v"
| "builder_call (Set_repair_rate v) = bd_repair_rate v"
| "builder_call (Set_ports v) = bd_ephemeral_ports v"
| "builder_call (Set_tcp_capacity v) = bd_tcp_capacity v"
| "builder_call (Set_udp_capacity v) = bd_udp_capacity v"
| "builder_call Random_order = bd_enable_random_order"
| "builder_call (Set_seed v) = bd_set_rng_seed v"

fun builder_calls :: "BuilderCall list \<Rightarrow> Builder \<Rightarrow> Builder option" where
  "builder_calls [] b = Some b"
| "builder_calls (c # cs) b = Option.bind (builder_call c b) (builder_calls cs)"

lemmas builder_defs =
  bd_epoch_def bd_simulation_duration_def bd_tick_duration_def bd_set_ip_version_def bd_min_message_latency_def
  bd_max_message_latency_def bd_fail_rate_def bd_repair_rate_def bd_ephemeral_ports_def bd_tcp_capacity_def
  bd_udp_capacity_def bd_enable_random_order_def bd_set_rng_seed_def on_config_def latency_mut_def message_loss_mut_def

definition link_complete :: "Builder \<Rightarrow> bool" where
  "link_complete b \<longleftrightarrow> lc_latency (bd_link b) \<noteq> None \<and> lc_message_loss (bd_link b) \<noteq> None"

lemma builder_call_complete: "link_complete b \<Longrightarrow> returns (builder_call c b) link_complete"
  by (cases c) (auto simp: builder_defs link_complete_def)

lemma builder_calls_complete: "link_complete b \<Longrightarrow> returns (builder_calls cs b) link_complete"
proof (induction cs arbitrary: b)
  case (Cons c cs)
  then show ?case by (auto elim!: returns_mono [OF builder_call_complete])
qed simp



end
