(* ===== verification/Sim_Barriers.thy ===== *)
theory Sim_Barriers
  imports Prelude "HOL-Library.Multiset"
begin

text \<open>
  \<^verbatim>\<open>turmoil/src/barriers.rs\<close>: rendezvous between simulated code and the test. Values of any type
  reach a barrier as \<^verbatim>\<open>dyn Any\<close>; here they have one type \<open>'a\<close>, and a barrier for type \<open>'b\<close> comes
  with the downcast from it. The channel from triggers to a barrier and the one-shot channels on
  which suspended code waits are explicit: a one-shot is open until its sender sends or is
  dropped, and dropping a message drops the sender in it.
\<close>

section \<open>State\<close>

datatype Reaction = Noop | Suspend | Panic

record 'a BarrierState =
  bs_id :: nat
  condition :: "'a \<Rightarrow> bool"
  reaction :: Reaction

text \<open>A message to the test: the value and the sender that releases the code which sent it.\<close>

type_synonym 'a release = "'a \<times> nat option"

text \<open>
  \<open>barriers\<close> is the registry; \<open>from_src\<close> has the queue of each barrier whose receiver is alive;
  \<open>held\<close> the handles the test has received and not dropped; \<open>waiting\<close> the one-shots that are open,
  that is, the code that is suspended.
\<close>

record 'a BarrierRepo =
  barriers :: "'a BarrierState list"
  from_src :: "(nat, 'a release list) imap"
  held :: "'a release list"
  waiting :: "nat list"
  next_oneshot :: nat

definition BarrierRepo_new :: "'a BarrierRepo" where
  "BarrierRepo_new = \<lparr>barriers = [], from_src = [], held = [], waiting = [], next_oneshot = 0\<rparr>"

definition repo_insert :: "'a BarrierState \<Rightarrow> 'a BarrierRepo \<Rightarrow> 'a BarrierRepo" where
  "repo_insert b s = s\<lparr>barriers := barriers s @ [b]\<rparr>"

definition repo_drop :: "nat \<Rightarrow> 'a BarrierRepo \<Rightarrow> 'a BarrierRepo" where
  "repo_drop i s = s\<lparr>barriers := filter (\<lambda>b. bs_id b \<noteq> i) (barriers s)\<rparr>"

text \<open>The first barrier whose condition holds.\<close>

definition find_barrier :: "'a \<Rightarrow> 'a BarrierRepo \<Rightarrow> 'a BarrierState option" where
  "find_barrier t s = find (\<lambda>b. condition b t) (barriers s)"

section \<open>Triggers\<close>

text \<open>Resolve the one-shots of dropped senders.\<close>

definition resolve :: "'a release list \<Rightarrow> 'a BarrierRepo \<Rightarrow> 'a BarrierRepo" where
  "resolve ms s = s\<lparr>waiting := filter (\<lambda>k. Some k \<notin> snd ` set ms) (waiting s)\<rparr>"

text \<open>A message to a barrier whose receiver is gone comes back in the error and is dropped.\<close>

definition send_to_test :: "nat \<Rightarrow> 'a release \<Rightarrow> 'a BarrierRepo \<Rightarrow> 'a BarrierRepo" where
  "send_to_test i m s =
     (case imap_get (from_src s) i of
        Some q \<Rightarrow> s\<lparr>from_src := imap_insert i (q @ [m]) (from_src s)\<rparr>
      | None \<Rightarrow> resolve [m] s)"

text \<open>What a trigger does to the code that calls it: it continues, or it waits on a one-shot.\<close>

datatype Outcome = Continue | WaitOn nat

text \<open>With \<^verbatim>\<open>Noop\<close> the one-shot is sent before anybody waits, so the code continues.\<close>

definition trigger :: "'a \<Rightarrow> 'a BarrierRepo \<Rightarrow> (Outcome \<times> 'a BarrierRepo) option" where
  "trigger t s =
     (case find_barrier t s of
        None \<Rightarrow> Some (Continue, s)
      | Some b \<Rightarrow>
          (case reaction b of
             Noop \<Rightarrow> Some (Continue, send_to_test (bs_id b) (t, None) s)
           | Suspend \<Rightarrow>
               (let k = next_oneshot s;
                    s1 = send_to_test (bs_id b) (t, Some k) (s\<lparr>next_oneshot := k + 1, waiting := waiting s @ [k]\<rparr>)
                in Some (if k \<in> set (waiting s1) then WaitOn k else Continue, s1))
           | Panic \<Rightarrow> None))"

definition trigger_noop :: "'a \<Rightarrow> 'a BarrierRepo \<Rightarrow> 'a BarrierRepo option" where
  "trigger_noop t s =
     (case find_barrier t s of
        None \<Rightarrow> Some s
      | Some b \<Rightarrow>
          (case reaction b of
             Suspend \<Rightarrow> None
           | Panic \<Rightarrow> None
           | Noop \<Rightarrow> Some (send_to_test (bs_id b) (t, None) s)))"

section \<open>Barriers of the test\<close>

text \<open>The identifier is a fresh random one, an argument.\<close>

definition Barrier_build ::
  "('a \<Rightarrow> 'b option) \<Rightarrow> nat \<Rightarrow> Reaction \<Rightarrow> ('b \<Rightarrow> bool) \<Rightarrow> 'a BarrierRepo \<Rightarrow> 'a BarrierRepo" where
  "Barrier_build downcast_ref i r c s =
     (repo_insert \<lparr>bs_id = i, condition = (\<lambda>t. case downcast_ref t of Some x \<Rightarrow> c x | None \<Rightarrow> False), reaction = r\<rparr> s)
       \<lparr>from_src := imap_insert i [] (from_src s)\<rparr>"

definition Barrier_new :: "('a \<Rightarrow> 'b option) \<Rightarrow> nat \<Rightarrow> ('b \<Rightarrow> bool) \<Rightarrow> 'a BarrierRepo \<Rightarrow> 'a BarrierRepo" where
  "Barrier_new downcast_ref i c = Barrier_build downcast_ref i Noop c"

text \<open>
  A poll of \<^verbatim>\<open>wait\<close>: nothing yet, or the handle of the next message. The registry keeps a sender
  as long as the barrier exists, so the channel is not closed; a failed downcast panics.
\<close>

definition Barrier_wait ::
  "('a \<Rightarrow> 'b option) \<Rightarrow> nat \<Rightarrow> 'a BarrierRepo \<Rightarrow> (('b \<times> 'a release) option \<times> 'a BarrierRepo) option" where
  "Barrier_wait downcast i s =
     (case imap_get (from_src s) i of
        None \<Rightarrow> None
      | Some [] \<Rightarrow> Some (None, s)
      | Some (m # q) \<Rightarrow>
          map_option (\<lambda>x. (Some (x, m), s\<lparr>from_src := imap_insert i q (from_src s), held := held s @ [m]\<rparr>))
            (downcast (fst m)))"

text \<open>Dropping a handle releases the code; dropping a barrier drops what is queued for it.\<close>

definition Triggered_drop :: "'a release \<Rightarrow> 'a BarrierRepo \<Rightarrow> 'a BarrierRepo" where
  "Triggered_drop m s = resolve [m] (s\<lparr>held := remove1 m (held s)\<rparr>)"

definition Barrier_drop :: "nat \<Rightarrow> 'a BarrierRepo \<Rightarrow> 'a BarrierRepo" where
  "Barrier_drop i s =
     (let s1 = repo_drop i s
      in (resolve (case imap_get (from_src s) i of Some q \<Rightarrow> q | None \<Rightarrow> []) s1)
           \<lparr>from_src := imap_shift_remove i (from_src s)\<rparr>)"

section \<open>Where the releases are\<close>

text \<open>The senders in a list of messages, in the queues, and in all hands.\<close>

definition oneshots :: "'a release list \<Rightarrow> nat multiset" where
  "oneshots ms = mset (List.map_filter snd ms)"

fun queued :: "(nat, 'a release list) imap \<Rightarrow> nat multiset" where
  "queued [] = {#}"
| "queued ((i, q) # qs) = oneshots q + queued qs"

definition open_senders :: "'a BarrierRepo \<Rightarrow> nat multiset" where
  "open_senders s = queued (from_src s) + oneshots (held s)"

lemma oneshots_simps [simp]:
  "oneshots [] = {#}" "oneshots (ms @ ns) = oneshots ms + oneshots ns"
  "oneshots ((t, Some k) # ms) = add_mset k (oneshots ms)" "oneshots ((t, None) # ms) = oneshots ms"
  by (simp_all add: oneshots_def List.map_filter_def)

lemma oneshots_cons: "oneshots (m # ms) = oneshots [m] + oneshots ms"
  by (cases m; cases "snd m") auto

lemma oneshots_mem: "k \<in># oneshots ms \<longleftrightarrow> Some k \<in> snd ` set ms"
  by (force simp: oneshots_def List.map_filter_def)

lemma oneshots_remove1: "m \<in> set ms \<Longrightarrow> oneshots ms = oneshots [m] + oneshots (remove1 m ms)"
proof (induction ms)
  case (Cons n ms)
  then show ?case using oneshots_cons [of n ms] oneshots_cons [of n "remove1 m ms"] by (auto simp: ac_simps)
qed simp

lemma queued_update: "imap_get qs i = Some q \<Longrightarrow> queued (imap_insert i q' qs) + oneshots q = queued qs + oneshots q'"
  by (induction qs) (auto simp: ac_simps simp del: map_of_eq_Some_iff split: if_splits)

lemma queued_fresh: "imap_get qs i = None \<Longrightarrow> queued (imap_insert i q' qs) = queued qs + oneshots q'"
  by (induction qs) (auto simp: ac_simps split: if_splits)

lemma queued_delete: "imap_wf qs \<Longrightarrow> imap_get qs i = Some q \<Longrightarrow> queued (imap_shift_remove i qs) + oneshots q = queued qs"
proof (induction qs)
  case (Cons p qs)
  show ?case
  proof (cases "fst p = i")
    case True
    then have "i \<notin> fst ` set qs" using Cons.prems(1) by simp
    then have "imap_shift_remove i qs = qs" unfolding AList.delete_eq by (intro filter_True) force
    with True Cons.prems(2) show ?thesis by (cases p) (simp add: ac_simps)
  next
    case False
    with Cons show ?thesis by (cases p) (auto simp: ac_simps simp del: map_of_eq_Some_iff)
  qed
qed simp

text \<open>Resolving the one-shots of messages that are dropped.\<close>

lemma resolve_mset:
  assumes "mset ks = oneshots ms + rest" "distinct ks"
  shows "mset (filter (\<lambda>k. Some k \<notin> snd ` set ms) ks) = rest"
proof -
  have sep: "k \<notin># rest" if "k \<in># oneshots ms" for k
  proof -
    have "count (oneshots ms) k + count rest k \<le> 1"
      using assms by (metis count_union distinct_count_atmost_1 le_refl order.refl zero_le_one)
    then show ?thesis using that by (simp add: not_in_iff flip: count_greater_zero_iff)
  qed
  have "mset (filter (\<lambda>k. Some k \<notin> snd ` set ms) ks) = filter_mset (\<lambda>k. k \<notin># oneshots ms) (oneshots ms + rest)"
    by (simp flip: assms(1) add: mset_filter oneshots_mem)
  also have "\<dots> = rest"
  proof -
    have "{#k \<in># oneshots ms. k \<notin># oneshots ms#} = {#}" by (simp add: filter_mset_eq_mempty_iff)
    moreover have "{#k \<in># rest. k \<notin># oneshots ms#} = rest" using sep by (auto simp: filter_mset_eq_conv)
    ultimately show ?thesis by simp
  qed
  finally show ?thesis .
qed

section \<open>Runs\<close>

text \<open>
  Calls of the simulated code and of the test. \<open>types\<close> gives the downcast of each barrier, a
  partial identity on the values.
\<close>

datatype 'a BarrierOp =
    Op_build nat Reaction "'a \<Rightarrow> bool"
  | Op_trigger 'a
  | Op_trigger_noop 'a
  | Op_wait nat
  | Op_drop_handle "'a release"
  | Op_drop_barrier nat

fun barrier_step :: "(nat \<Rightarrow> 'a \<Rightarrow> 'a option) \<Rightarrow> 'a BarrierRepo \<Rightarrow> 'a BarrierOp \<Rightarrow> 'a BarrierRepo option" where
  "barrier_step types s (Op_build i r c) = Some (Barrier_build (types i) i r c s)"
| "barrier_step types s (Op_trigger t) = map_option snd (trigger t s)"
| "barrier_step types s (Op_trigger_noop t) = trigger_noop t s"
| "barrier_step types s (Op_wait i) = map_option snd (Barrier_wait (types i) i s)"
| "barrier_step types s (Op_drop_handle m) = Some (Triggered_drop m s)"
| "barrier_step types s (Op_drop_barrier i) = Some (Barrier_drop i s)"

text \<open>
  What the callers respect: identifiers are fresh, a barrier is used while it exists, a handle is
  dropped once, and no trigger meets the panic it was asked for.
\<close>

fun barrier_admissible :: "'a BarrierRepo \<Rightarrow> 'a BarrierOp \<Rightarrow> bool" where
  "barrier_admissible s (Op_build i r c) = (imap_get (from_src s) i = None)"
| "barrier_admissible s (Op_trigger t) = (case find_barrier t s of None \<Rightarrow> True | Some b \<Rightarrow> reaction b \<noteq> Panic)"
| "barrier_admissible s (Op_trigger_noop t) = (case find_barrier t s of None \<Rightarrow> True | Some b \<Rightarrow> reaction b = Noop)"
| "barrier_admissible s (Op_wait i) = (imap_get (from_src s) i \<noteq> None)"
| "barrier_admissible s (Op_drop_handle m) = (m \<in> set (held s))"
| "barrier_admissible s (Op_drop_barrier i) = (imap_get (from_src s) i \<noteq> None)"

definition barrier_inv :: "(nat \<Rightarrow> 'a \<Rightarrow> 'a option) \<Rightarrow> 'a BarrierRepo \<Rightarrow> bool" where
  "barrier_inv types s \<longleftrightarrow>
     imap_wf (from_src s) \<and> bs_id ` set (barriers s) = set (imap_keys (from_src s)) \<and>
     mset (waiting s) = open_senders s \<and> distinct (waiting s) \<and> (\<forall>k\<in>set (waiting s). k < next_oneshot s) \<and>
     (\<forall>b\<in>set (barriers s). \<forall>t. condition b t \<longrightarrow> types (bs_id b) t \<noteq> None) \<and>
     (\<forall>i q m. imap_get (from_src s) i = Some q \<longrightarrow> m \<in> set q \<longrightarrow> types i (fst m) \<noteq> None)"

lemma found:
  assumes "find_barrier t s = Some b"
  shows "b \<in> set (barriers s)" "condition b t"
  using assms by (auto simp: find_barrier_def find_Some_iff)

lemma send_inv:
  assumes "imap_wf (from_src s)" "bs_id ` set (barriers s) = set (imap_keys (from_src s))"
    "mset (waiting s) = open_senders s + oneshots [(t, w)]" "distinct (waiting s)" "\<forall>k\<in>set (waiting s). k < next_oneshot s"
    "\<forall>b\<in>set (barriers s). \<forall>t. condition b t \<longrightarrow> types (bs_id b) t \<noteq> None"
    "\<forall>i q m. imap_get (from_src s) i = Some q \<longrightarrow> m \<in> set q \<longrightarrow> types i (fst m) \<noteq> None"
    and b: "b \<in> set (barriers s)" "condition b t"
  shows "barrier_inv types (send_to_test (bs_id b) (t, w) s)" "waiting (send_to_test (bs_id b) (t, w) s) = waiting s"
proof -
  obtain q where q: "imap_get (from_src s) (bs_id b) = Some q"
    using assms(2) b(1) by (cases "imap_get (from_src s) (bs_id b)") (auto simp: map_of_eq_None_iff)
  have up: "queued (imap_insert (bs_id b) (q @ [(t, w)]) (from_src s)) = queued (from_src s) + oneshots [(t, w)]"
    using queued_update [OF q, of "q @ [(t, w)]"] by (simp add: ac_simps)
  show "waiting (send_to_test (bs_id b) (t, w) s) = waiting s" by (simp add: send_to_test_def q)
  show "barrier_inv types (send_to_test (bs_id b) (t, w) s)"
    using assms q b
    by (auto simp: barrier_inv_def send_to_test_def open_senders_def up imap_wf_insert dom_update imap_simps
      simp del: map_of_eq_Some_iff split: if_splits) (metis Un_iff)+
qed

lemma trigger_inv:
  assumes inv: "barrier_inv types s" and ok: "barrier_admissible s (Op_trigger t)"
  shows "returns (trigger t s) (\<lambda>(r, s'). barrier_inv types s' \<and> (\<forall>k. r = WaitOn k \<longrightarrow> k \<in> set (waiting s')))"
proof (cases "find_barrier t s")
  case (Some b)
  note b = found [OF Some]
  note parts = inv [unfolded barrier_inv_def]
  show ?thesis
  proof (cases "reaction b")
    case Noop
    with Some send_inv(1) [of s t None types b] parts b show ?thesis by (simp add: trigger_def)
  next
    case Suspend
    let ?s = "s\<lparr>next_oneshot := next_oneshot s + 1, waiting := waiting s @ [next_oneshot s]\<rparr>"
    have "barrier_inv types (send_to_test (bs_id b) (t, Some (next_oneshot s)) ?s)"
      using parts b by (intro send_inv(1)) (auto simp: open_senders_def less_Suc_eq)
    with Suspend Some show ?thesis by (simp add: trigger_def Let_def)
  qed (use ok Some in simp)
qed (use inv in \<open>simp add: trigger_def\<close>)

lemma trigger_noop_inv:
  assumes inv: "barrier_inv types s" and ok: "barrier_admissible s (Op_trigger_noop t)"
  shows "returns (trigger_noop t s) (barrier_inv types)"
proof (cases "find_barrier t s")
  case (Some b)
  with ok send_inv(1) [of s t None types b] inv [unfolded barrier_inv_def] found [OF Some] show ?thesis
    by (simp add: trigger_noop_def)
qed (use inv in \<open>simp add: trigger_noop_def\<close>)

lemma wait_inv:
  assumes inv: "barrier_inv types s" and ok: "imap_get (from_src s) i \<noteq> None"
  shows "returns (Barrier_wait (types i) i s) (\<lambda>(r, s'). barrier_inv types s')"
proof -
  from ok obtain q where q: "imap_get (from_src s) i = Some q" by auto
  show ?thesis
  proof (cases q)
    case (Cons m ms)
    have "queued (imap_insert i ms (from_src s)) + oneshots [m] = queued (from_src s)"
      using queued_update [OF q, of ms] oneshots_cons [of m ms] by (simp add: Cons ac_simps)
    then have senders: "open_senders (s\<lparr>from_src := imap_insert i ms (from_src s), held := held s @ [m]\<rparr>) = open_senders s"
      by (simp add: open_senders_def ac_simps)
    have "i \<in> set (imap_keys (from_src s))" using q by (force dest: map_of_SomeD)
    then have keys: "set (imap_keys (imap_insert i ms (from_src s))) = set (imap_keys (from_src s))" by (auto simp: dom_update)
    have typed: "m' \<in> set q' \<Longrightarrow> types j (fst m') \<noteq> None" if "imap_get (from_src s) j = Some q'" for j q' m'
      using inv that unfolding barrier_inv_def by blast
    then obtain x where x: "types i (fst m) = Some x" using q Cons by fastforce
    have "m' \<in> set q' \<Longrightarrow> types j (fst m') \<noteq> None" if "imap_get (imap_insert i ms (from_src s)) j = Some q'" for j q' m'
      using that typed [of j "if j = i then q else q'" m'] q Cons by (auto simp: imap_simps simp del: map_of_eq_Some_iff split: if_splits)
    then have "barrier_inv types (s\<lparr>from_src := imap_insert i ms (from_src s), held := held s @ [m]\<rparr>)"
      using inv senders keys unfolding barrier_inv_def by (simp add: imap_wf_insert del: map_of_eq_Some_iff)
    then show ?thesis using q Cons x by (simp add: Barrier_wait_def del: map_of_eq_Some_iff)
  qed (use inv q in \<open>simp add: Barrier_wait_def\<close>)
qed

lemma resolve_waiting:
  assumes "mset (waiting s) = oneshots ms + rest" "distinct (waiting s)"
  shows "mset (waiting (resolve ms s)) = rest" "distinct (waiting (resolve ms s))" "set (waiting (resolve ms s)) \<subseteq> set (waiting s)"
  using resolve_mset [OF assms] assms(2) by (auto simp: resolve_def)

lemma drop_handle_inv:
  assumes inv: "barrier_inv types s" and ok: "m \<in> set (held s)"
  shows "barrier_inv types (Triggered_drop m s)"
proof -
  have "mset (waiting (s\<lparr>held := remove1 m (held s)\<rparr>)) = oneshots [m] + (queued (from_src s) + oneshots (remove1 m (held s)))"
    using inv oneshots_remove1 [OF ok] by (simp add: barrier_inv_def open_senders_def ac_simps)
  from resolve_waiting [OF this] inv show ?thesis
    by (auto simp: barrier_inv_def Triggered_drop_def open_senders_def resolve_def simp del: map_of_eq_Some_iff)
qed

lemma drop_barrier_inv:
  assumes inv: "barrier_inv types s" and ok: "imap_get (from_src s) i \<noteq> None"
  shows "barrier_inv types (Barrier_drop i s)"
proof -
  from ok obtain q where q: "imap_get (from_src s) i = Some q" by auto
  have "mset (waiting (repo_drop i s)) = oneshots q + (queued (imap_shift_remove i (from_src s)) + oneshots (held s))"
    using inv queued_delete [OF _ q] by (simp add: barrier_inv_def open_senders_def repo_drop_def ac_simps flip: queued_delete [OF _ q])
  from resolve_waiting [OF this] inv q show ?thesis
    by (auto simp: barrier_inv_def Barrier_drop_def open_senders_def repo_drop_def resolve_def Let_def distinct_delete
      delete_keys delete_conv' distinct_removeAll simp del: map_of_eq_Some_iff split: if_splits)
qed

lemma build_inv:
  assumes "barrier_inv types s" "imap_get (from_src s) i = None"
  shows "barrier_inv types (Barrier_build (types i) i r c s)"
  using assms queued_fresh [OF assms(2), of "[]"]
  by (auto simp: barrier_inv_def Barrier_build_def repo_insert_def open_senders_def imap_wf_insert dom_update imap_simps
    simp del: map_of_eq_Some_iff split: option.splits if_splits)

interpretation barrier_run: invariant_system "barrier_step types" "barrier_inv types" barrier_admissible
  for types :: "nat \<Rightarrow> 'a \<Rightarrow> 'a option"
proof unfold_locales
  fix s :: "'a BarrierRepo" and op
  assume a: "barrier_inv types s" "barrier_admissible s op"
  have "returns (barrier_step types s op) (barrier_inv types)"
  proof (cases op)
    case (Op_trigger t)
    then show ?thesis using trigger_inv [of types s t] a by (auto simp: returns_def)
  next
    case (Op_wait i)
    then show ?thesis using wait_inv [of types s i] a by (auto simp: returns_def)
  next
    case (Op_drop_barrier i)
    then show ?thesis using drop_barrier_inv [of types s i] a by simp
  qed (use a build_inv trigger_noop_inv drop_handle_inv in auto)
  then show "\<exists>s'. barrier_step types s op = Some s'" "\<And>s'. barrier_step types s op = Some s' \<Longrightarrow> barrier_inv types s'"
    by (auto simp: returns_def)
qed

lemma queued_mem:
  assumes "imap_wf qs"
  shows "k \<in># queued qs \<longleftrightarrow> (\<exists>i q. imap_get qs i = Some q \<and> Some k \<in> snd ` set q)"
proof -
  have "k \<in># queued qs \<longleftrightarrow> (\<exists>p\<in>set qs. Some k \<in> snd ` set (snd p))"
    by (induction qs rule: queued.induct) (auto simp: oneshots_mem)
  also have "\<dots> \<longleftrightarrow> (\<exists>i q. (i, q) \<in> set qs \<and> Some k \<in> snd ` set q)" by force
  finally show ?thesis using assms by simp
qed

lemma new_barriers: "barrier_inv types BarrierRepo_new"
  by (simp add: barrier_inv_def BarrierRepo_new_def open_senders_def)

text \<open>
  C22. Suspended code is always released. After any admissible sequence of calls, the code that is
  suspended at a trigger is exactly the code whose release is queued at a barrier or in a handle the
  test holds, each once. So when the test has dropped its barriers and its handles nothing stays
  suspended, and dropping one handle releases the one piece of code that waits for it.
\<close>

theorem suspended_code_is_released:
  assumes "barrier_run.admissible_run types BarrierRepo_new ops"
  shows "\<exists>s. barrier_run.run types BarrierRepo_new ops = Some s \<and> distinct (waiting s) \<and>
    (\<forall>k. k \<in> set (waiting s) \<longleftrightarrow>
       (\<exists>i q. imap_get (from_src s) i = Some q \<and> Some k \<in> snd ` set q) \<or> Some k \<in> snd ` set (held s)) \<and>
    (barriers s = [] \<and> held s = [] \<longrightarrow> waiting s = []) \<and>
    (\<forall>t k. (t, Some k) \<in> set (held s) \<longrightarrow> mset (waiting s) = add_mset k (mset (waiting (Triggered_drop (t, Some k) s))))"
proof -
  obtain s where s: "barrier_run.run types BarrierRepo_new ops = Some s" "barrier_inv types s"
    using barrier_run.run_inv [OF new_barriers assms] by blast
  note parts = s(2) [unfolded barrier_inv_def]
  have "k \<in> set (waiting s) \<longleftrightarrow> k \<in># open_senders s" for k using parts by (metis set_mset_mset)
  then have where_: "k \<in> set (waiting s) \<longleftrightarrow>
      (\<exists>i q. imap_get (from_src s) i = Some q \<and> Some k \<in> snd ` set q) \<or> Some k \<in> snd ` set (held s)" for k
    using queued_mem [of "from_src s" k] parts by (simp add: open_senders_def oneshots_mem)
  moreover have "waiting s = []" if "barriers s = []" "held s = []"
  proof -
    have "from_src s = []" using parts that(1) by auto
    with where_ that(2) show ?thesis by (cases "waiting s") auto
  qed
  moreover have "mset (waiting s) = add_mset k (mset (waiting (Triggered_drop (t, Some k) s)))"
    if "(t, Some k) \<in> set (held s)" for t k
  proof -
    have "mset (waiting s) = add_mset k (queued (from_src s) + oneshots (remove1 (t, Some k) (held s)))"
      using parts oneshots_remove1 [OF that] by (simp add: open_senders_def)
    moreover have "mset (waiting (Triggered_drop (t, Some k) s)) = queued (from_src s) + oneshots (remove1 (t, Some k) (held s))"
      using drop_handle_inv [OF s(2) that] by (simp add: barrier_inv_def open_senders_def Triggered_drop_def resolve_def)
    ultimately show ?thesis by simp
  qed
  ultimately show ?thesis using s(1) parts by blast
qed

text \<open>A suspended trigger is received by the test; both handle and barrier are dropped.\<close>

definition demo_barrier_ops :: "nat BarrierOp list" where
  "demo_barrier_ops = [Op_build 7 Suspend (\<lambda>t. t = 3), Op_trigger 3, Op_trigger 4, Op_wait 7, Op_trigger 3,
     Op_drop_handle (3, Some 0), Op_drop_barrier 7]"

theorem suspended_code_is_released_witness:
  "\<exists>s. barrier_run.run (\<lambda>_. Some) BarrierRepo_new demo_barrier_ops = Some s \<and> waiting s = []"
proof -
  have "barrier_run.admissible_run (\<lambda>_. Some) BarrierRepo_new demo_barrier_ops"
    by (simp add: demo_barrier_ops_def BarrierRepo_new_def Barrier_build_def repo_insert_def find_barrier_def trigger_def
      send_to_test_def Barrier_wait_def Triggered_drop_def resolve_def Let_def)
  from suspended_code_is_released [OF this] obtain s where
    s: "barrier_run.run (\<lambda>_. Some) BarrierRepo_new demo_barrier_ops = Some s" "barriers s = [] \<and> held s = [] \<longrightarrow> waiting s = []"
    by blast
  have "barriers s = []" "held s = []"
    using s(1) by (auto simp: demo_barrier_ops_def BarrierRepo_new_def Barrier_build_def repo_insert_def find_barrier_def trigger_def
      send_to_test_def Barrier_wait_def Triggered_drop_def resolve_def Let_def Barrier_drop_def repo_drop_def)
  with s show ?thesis by blast
qed

end
