(* ===== verification/Shim_Addr.thy ===== *)
theory Shim_Addr
  imports Scheduler
begin

text \<open>
  \<^verbatim>\<open>turmoil-net/src/shim/tokio/net/addr.rs\<close>: what a socket call accepts as an address, and how it is
  resolved against the name table of the current network. The parsers of the standard library
  for socket addresses and port numbers come first; the scope id of an IPv6 socket address is
  read and dropped, since addresses of the model have none.
\<close>

section \<open>Parsing\<close>

definition read_port :: "string \<Rightarrow> (int \<times> string) option" where
  "read_port s = do { s1 \<leftarrow> read_char CHR '':'' s; read_number 10 (length s) True 65536 s1 }"

definition read_scope_id :: "string \<Rightarrow> (int \<times> string) option" where
  "read_scope_id s = do { s1 \<leftarrow> read_char CHR ''%'' s; read_number 10 (length s) True (2 ^ 32) s1 }"

definition read_socket_addr_v4 :: "string \<Rightarrow> (SocketAddr \<times> string) option" where
  "read_socket_addr_v4 s = do {
     (ip, s1) \<leftarrow> read_ipv4 s;
     (port, s2) \<leftarrow> read_port s1;
     Some (SocketAddr (V4 (of_int ip)) (of_int port), s2)
   }"

definition read_socket_addr_v6 :: "string \<Rightarrow> (SocketAddr \<times> string) option" where
  "read_socket_addr_v6 s = do {
     s1 \<leftarrow> read_char CHR ''['' s;
     (ip, s2) \<leftarrow> read_ipv6 s1;
     s3 \<leftarrow> read_char CHR '']'' (case read_scope_id s2 of None \<Rightarrow> s2 | Some (_, r) \<Rightarrow> r);
     (port, s4) \<leftarrow> read_port s3;
     Some (SocketAddr (V6 (of_int ip)) (of_int port), s4)
   }"

definition parse_socket_addr :: "string \<Rightarrow> SocketAddr option" where
  "parse_socket_addr s =
     (case (case read_socket_addr_v4 s of Some r \<Rightarrow> Some r | None \<Rightarrow> read_socket_addr_v6 s) of
        Some (a, []) \<Rightarrow> Some a
      | _ \<Rightarrow> None)"

text \<open>\<^verbatim>\<open>str::parse::<u16>\<close>: digits with an optional plus sign.\<close>

definition parse_u16 :: "string \<Rightarrow> u16 option" where
  "parse_u16 s =
     (let ds = (case s of [] \<Rightarrow> [] | c # r \<Rightarrow> if c = CHR ''+'' then r else s)
      in case read_number 10 (length ds) True 65536 ds of Some (n, []) \<Rightarrow> Some (of_int n) | _ \<Rightarrow> None)"

fun rsplit_once :: "char \<Rightarrow> string \<Rightarrow> (string \<times> string) option" where
  "rsplit_once c [] = None"
| "rsplit_once c (d # s) =
     (case rsplit_once c s of
        Some (a, b) \<Rightarrow> Some (d # a, b)
      | None \<Rightarrow> if d = c then Some ([], s) else None)"

section \<open>Addresses of socket calls\<close>

text \<open>
  The implementations of the trait: a socket address of either family, an address with a port, a
  hostname with a port, and a text.
\<close>

datatype ToSocketAddrs = Ta_addr SocketAddr | Ta_ip IpAddr u16 | Ta_host string u16 | Ta_text string

definition resolve_host :: "'r Net \<Rightarrow> string \<Rightarrow> u16 \<Rightarrow> SocketAddr io_result" where
  "resolve_host n host port =
     (case parse_ip host of
        Some ip \<Rightarrow> Ok (SocketAddr ip port)
      | None \<Rightarrow>
          (case lookup_host host (Some n) of
             Some ip \<Rightarrow> Ok (SocketAddr ip port)
           | None \<Rightarrow> Err (Kind NotFound)))"

definition parse_text :: "'r Net \<Rightarrow> string \<Rightarrow> SocketAddr io_result" where
  "parse_text n s =
     (case parse_socket_addr s of
        Some sa \<Rightarrow> Ok sa
      | None \<Rightarrow>
          (case rsplit_once CHR '':'' s of
             None \<Rightarrow> Err (Kind InvalidInput)
           | Some (host, port) \<Rightarrow>
               (case parse_u16 port of
                  None \<Rightarrow> Err (Kind InvalidInput)
                | Some p \<Rightarrow> resolve_host n host p)))"

fun shim_socket_addr :: "'r Net \<Rightarrow> ToSocketAddrs \<Rightarrow> SocketAddr io_result" where
  "shim_socket_addr n (Ta_addr sa) = Ok sa"
| "shim_socket_addr n (Ta_ip ip port) = Ok (SocketAddr ip port)"
| "shim_socket_addr n (Ta_host host port) = resolve_host n host port"
| "shim_socket_addr n (Ta_text s) = parse_text n s"

section \<open>Resolution\<close>

lemma rsplit_once_None: "rsplit_once c s = None \<longleftrightarrow> c \<notin> set s"
  by (induction s) (auto split: option.splits if_splits)

lemma rsplit_once_last:
  "rsplit_once c s = Some (a, b) \<Longrightarrow> s = a @ c # b \<and> c \<notin> set b"
  by (induction s arbitrary: a) (auto simp: rsplit_once_None split: option.splits if_splits)

lemma rsplit_once_append: "c \<notin> set b \<Longrightarrow> rsplit_once c (a @ c # b) = Some (a, b)"
  by (induction a) (auto simp: rsplit_once_None [THEN iffD2])

end
