(* ===== verification/Shim_Net.thy ===== *)
theory Shim_Net
  imports Shim_Addr
begin

text \<open>
  \<^verbatim>\<open>turmoil-net/src/shim/tokio/net\<close>: the sockets of \<^verbatim>\<open>tokio::net\<close> over the kernel of the current host. A
  call of an asynchronous function is a poll of its future, with the waker of the task; a
  \<^verbatim>\<open>ReadBuf\<close> is the bytes filled so far and the room that is left. Values of the shim hold a
  descriptor, which the kernel frees when they are dropped.
\<close>

section \<open>Helpers\<close>

text \<open>\<^verbatim>\<open>Waker::noop\<close>, the waker of calls that do not wait.\<close>

definition noop_cx :: waker where
  "noop_cx = 0"

definition unwrap_try :: "'a io_result Poll \<Rightarrow> 'a io_result" where
  "unwrap_try p = (case p of Ready r \<Rightarrow> r | Pending \<Rightarrow> Err (Kind WouldBlock))"

text \<open>An internet address of a socket; any other kind does not occur and panics.\<close>

definition inet_addr :: "Addr io_result \<Rightarrow> SocketAddr io_result option" where
  "inet_addr r =
     (case r of Inl e \<Rightarrow> Some (Err e) | Inr (Addr_Inet sa) \<Rightarrow> Some (Ok sa) | Inr (Addr_Unix _) \<Rightarrow> None)"

definition fd_local_addr :: "Fd \<Rightarrow> 'r Net \<Rightarrow> (SocketAddr io_result \<times> 'r Net) option" where
  "fd_local_addr fd n = do {
     (r, n1) \<leftarrow> sys (\<lambda>k. Some (kernel_local_addr k fd, k)) n;
     a \<leftarrow> inet_addr r;
     Some (a, n1)
   }"

definition fd_peer_addr :: "Fd \<Rightarrow> 'r Net \<Rightarrow> (SocketAddr io_result \<times> 'r Net) option" where
  "fd_peer_addr fd n = do {
     (r, n1) \<leftarrow> sys (\<lambda>k. Some (kernel_peer_addr k fd, k)) n;
     a \<leftarrow> inet_addr r;
     Some (a, n1)
   }"

definition fd_set_ttl :: "Fd \<Rightarrow> u32 \<Rightarrow> 'r Net \<Rightarrow> (unit io_result \<times> 'r Net) option" where
  "fd_set_ttl fd v n =
     (if 255 < v then Some (Err (Kind InvalidInput), n)
      else sys (\<lambda>k. set_option k fd (IpTtl (ucast v))) n)"

definition fd_ttl :: "Fd \<Rightarrow> 'r Net \<Rightarrow> (u32 io_result \<times> 'r Net) option" where
  "fd_ttl fd n = do {
     (r, n1) \<leftarrow> sys (\<lambda>k. do { r \<leftarrow> get_option k fd K_IpTtl; Some (r, k) }) n;
     case r of
       Inl e \<Rightarrow> Some (Err e, n1)
     | Inr (IpTtl v) \<Rightarrow> Some (Ok (ucast v), n1)
     | Inr _ \<Rightarrow> None
   }"

definition fd_close :: "Fd \<Rightarrow> 'r Net \<Rightarrow> 'r Net option" where
  "fd_close fd n = do { (_, n1) \<leftarrow> sys (\<lambda>k. do { k1 \<leftarrow> kernel_close k fd; Some ((), k1) }) n; Some n1 }"

text \<open>A receive into a buffer of the caller.\<close>

definition fd_recv :: "Fd \<Rightarrow> waker \<Rightarrow> bytes \<Rightarrow> 'r Net \<Rightarrow> ((nat io_result Poll \<times> bytes) \<times> 'r Net) option" where
  "fd_recv fd w buf n = sys (\<lambda>k. do { (r, b, k1) \<leftarrow> kernel_poll_recv k fd w buf; Some ((r, b), k1) }) n"

definition fd_peek :: "Fd \<Rightarrow> waker \<Rightarrow> bytes \<Rightarrow> 'r Net \<Rightarrow> ((nat io_result Poll \<times> bytes) \<times> 'r Net) option" where
  "fd_peek fd w buf n = sys (\<lambda>k. do { (r, b, k1) \<leftarrow> kernel_poll_peek k fd w buf; Some ((r, b), k1) }) n"

record ReadBuf =
  rb_filled :: bytes
  rb_unfilled :: bytes

definition rb_advance :: "nat \<Rightarrow> bytes \<Rightarrow> ReadBuf \<Rightarrow> ReadBuf" where
  "rb_advance n region rb = \<lparr>rb_filled = rb_filled rb @ take n region, rb_unfilled = drop n region\<rparr>"

section \<open>UDP sockets\<close>

record UdpSock =
  us_fd :: Fd

definition us_bind :: "ToSocketAddrs \<Rightarrow> 'r Net \<Rightarrow> (UdpSock io_result \<times> 'r Net) option" where
  "us_bind addr n =
     (case shim_socket_addr n addr of
        Inl e \<Rightarrow> Some (Err e, n)
      | Inr a \<Rightarrow> do {
          (r, n1) \<leftarrow> sys (\<lambda>k. kernel_bind k (Addr_Inet a) Dgram) n;
          Some (map_sum id (\<lambda>fd. \<lparr>us_fd = fd\<rparr>) r, n1)
        })"

definition us_local_addr :: "UdpSock \<Rightarrow> 'r Net \<Rightarrow> (SocketAddr io_result \<times> 'r Net) option" where
  "us_local_addr u = fd_local_addr (us_fd u)"

definition us_peer_addr :: "UdpSock \<Rightarrow> 'r Net \<Rightarrow> (SocketAddr io_result \<times> 'r Net) option" where
  "us_peer_addr u = fd_peer_addr (us_fd u)"

definition us_connect :: "UdpSock \<Rightarrow> ToSocketAddrs \<Rightarrow> waker \<Rightarrow> 'r Net \<Rightarrow> (unit io_result Poll \<times> 'r Net) option" where
  "us_connect u addr w n =
     (case shim_socket_addr n addr of
        Inl e \<Rightarrow> Some (Ready (Err e), n)
      | Inr a \<Rightarrow> sys (\<lambda>k. kernel_poll_connect k (us_fd u) w (Addr_Inet a)) n)"

definition us_send_to :: "UdpSock \<Rightarrow> bytes \<Rightarrow> ToSocketAddrs \<Rightarrow> 'r Net \<Rightarrow> (nat io_result Poll \<times> 'r Net) option" where
  "us_send_to u buf target n =
     (case shim_socket_addr n target of
        Inl e \<Rightarrow> Some (Ready (Err e), n)
      | Inr a \<Rightarrow> sys (\<lambda>k. kernel_poll_send_to k (us_fd u) buf (Addr_Inet a)) n)"

definition us_send :: "UdpSock \<Rightarrow> waker \<Rightarrow> bytes \<Rightarrow> 'r Net \<Rightarrow> (nat io_result Poll \<times> 'r Net) option" where
  "us_send u w buf n = sys (\<lambda>k. kernel_poll_send k (us_fd u) w buf) n"

text \<open>The length and the sender of a datagram, with the bytes put into the buffer.\<close>

definition from_datagram ::
  "(Addr \<times> bytes) io_result Poll \<Rightarrow> (nat \<times> SocketAddr \<times> bytes) io_result Poll option" where
  "from_datagram r =
     (case r of
        Ready (Inr (Addr_Inet peer, d)) \<Rightarrow> Some (Ready (Ok (length d, peer, d)))
      | Ready (Inr (Addr_Unix _, _)) \<Rightarrow> None
      | Ready (Inl e) \<Rightarrow> Some (Ready (Err e))
      | Pending \<Rightarrow> Some Pending)"

definition us_recv_from ::
  "UdpSock \<Rightarrow> waker \<Rightarrow> nat \<Rightarrow> 'r Net \<Rightarrow> ((nat \<times> SocketAddr \<times> bytes) io_result Poll \<times> 'r Net) option" where
  "us_recv_from u w len n = do {
     (r, n1) \<leftarrow> sys (\<lambda>k. kernel_poll_recv_from k (us_fd u) w len) n;
     x \<leftarrow> from_datagram r;
     Some (x, n1)
   }"

definition us_peek_from ::
  "UdpSock \<Rightarrow> waker \<Rightarrow> nat \<Rightarrow> 'r Net \<Rightarrow> ((nat \<times> SocketAddr \<times> bytes) io_result Poll \<times> 'r Net) option" where
  "us_peek_from u w len n = do {
     (r, n1) \<leftarrow> sys (\<lambda>k. kernel_poll_peek_from k (us_fd u) w len) n;
     x \<leftarrow> from_datagram r;
     Some (x, n1)
   }"

definition us_recv :: "UdpSock \<Rightarrow> waker \<Rightarrow> bytes \<Rightarrow> 'r Net \<Rightarrow> ((nat io_result Poll \<times> bytes) \<times> 'r Net) option" where
  "us_recv u = fd_recv (us_fd u)"

definition us_try_send :: "UdpSock \<Rightarrow> bytes \<Rightarrow> 'r Net \<Rightarrow> (nat io_result \<times> 'r Net) option" where
  "us_try_send u buf n = map_option (map_prod unwrap_try id) (us_send u noop_cx buf n)"

definition us_try_send_to :: "UdpSock \<Rightarrow> bytes \<Rightarrow> SocketAddr \<Rightarrow> 'r Net \<Rightarrow> (nat io_result \<times> 'r Net) option" where
  "us_try_send_to u buf target n =
     map_option (map_prod unwrap_try id) (sys (\<lambda>k. kernel_poll_send_to k (us_fd u) buf (Addr_Inet target)) n)"

definition us_try_recv :: "UdpSock \<Rightarrow> bytes \<Rightarrow> 'r Net \<Rightarrow> ((nat io_result \<times> bytes) \<times> 'r Net) option" where
  "us_try_recv u buf n = map_option (map_prod (map_prod unwrap_try id) id) (fd_recv (us_fd u) noop_cx buf n)"

definition us_try_recv_from :: "UdpSock \<Rightarrow> nat \<Rightarrow> 'r Net \<Rightarrow> ((nat \<times> SocketAddr \<times> bytes) io_result \<times> 'r Net) option" where
  "us_try_recv_from u len n = map_option (map_prod unwrap_try id) (us_recv_from u noop_cx len n)"

definition us_set_broadcast :: "UdpSock \<Rightarrow> bool \<Rightarrow> 'r Net \<Rightarrow> (unit io_result \<times> 'r Net) option" where
  "us_set_broadcast u on n = sys (\<lambda>k. set_option k (us_fd u) (Broadcast on)) n"

definition us_broadcast :: "UdpSock \<Rightarrow> 'r Net \<Rightarrow> (bool io_result \<times> 'r Net) option" where
  "us_broadcast u n = do {
     (r, n1) \<leftarrow> sys (\<lambda>k. do { r \<leftarrow> get_option k (us_fd u) K_Broadcast; Some (r, k) }) n;
     case r of
       Inl e \<Rightarrow> Some (Err e, n1)
     | Inr (Broadcast v) \<Rightarrow> Some (Ok v, n1)
     | Inr _ \<Rightarrow> None
   }"

definition us_set_ttl :: "UdpSock \<Rightarrow> u32 \<Rightarrow> 'r Net \<Rightarrow> (unit io_result \<times> 'r Net) option" where
  "us_set_ttl u = fd_set_ttl (us_fd u)"

definition us_ttl :: "UdpSock \<Rightarrow> 'r Net \<Rightarrow> (u32 io_result \<times> 'r Net) option" where
  "us_ttl u = fd_ttl (us_fd u)"

definition us_drop :: "UdpSock \<Rightarrow> 'r Net \<Rightarrow> 'r Net option" where
  "us_drop u = fd_close (us_fd u)"

section \<open>TCP streams\<close>

record TcpSock =
  ts_fd :: Fd

text \<open>The guard of a connect closes its descriptor when it is dropped, unless it is disarmed.\<close>

record FdGuard =
  fg_fd :: Fd
  armed :: bool

definition FdGuard_new :: "Fd \<Rightarrow> FdGuard" where
  "FdGuard_new fd = \<lparr>fg_fd = fd, armed = True\<rparr>"

definition FdGuard_drop :: "FdGuard \<Rightarrow> 'r Net \<Rightarrow> 'r Net option" where
  "FdGuard_drop g n = (if armed g then fd_close (fg_fd g) n else Some n)"

text \<open>The guard is disarmed, then dropped.\<close>

definition FdGuard_disarm :: "FdGuard \<Rightarrow> 'r Net \<Rightarrow> (Fd \<times> 'r Net) option" where
  "FdGuard_disarm g n = do { n1 \<leftarrow> FdGuard_drop (g\<lparr>armed := False\<rparr>) n; Some (fg_fd g, n1) }"

definition domain_of :: "SocketAddr \<Rightarrow> Domain" where
  "domain_of peer = (case sa_ip peer of V4 _ \<Rightarrow> Inet | V6 _ \<Rightarrow> Inet6)"

text \<open>
  The future of a connect: before its first poll it is the address, then the guard and the resolved
  peer. A poll ends with a stream or an error, or leaves the future waiting; dropping a waiting
  future drops the guard.
\<close>

record ConnectFuture =
  cf_guard :: FdGuard
  cf_peer :: SocketAddr

definition ts_connect_poll ::
  "ConnectFuture \<Rightarrow> waker \<Rightarrow> 'r Net \<Rightarrow> ((TcpSock io_result + ConnectFuture) \<times> 'r Net) option" where
  "ts_connect_poll f w n = do {
     (r, n1) \<leftarrow> sys (\<lambda>k. kernel_poll_connect k (fg_fd (cf_guard f)) w (Addr_Inet (cf_peer f))) n;
     case r of
       Pending \<Rightarrow> Some (Inr f, n1)
     | Ready (Inl e) \<Rightarrow> do { n2 \<leftarrow> FdGuard_drop (cf_guard f) n1; Some (Inl (Err e), n2) }
     | Ready (Inr _) \<Rightarrow> do { (fd, n2) \<leftarrow> FdGuard_disarm (cf_guard f) n1; Some (Inl (Ok \<lparr>ts_fd = fd\<rparr>), n2) }
   }"

definition ts_connect ::
  "ToSocketAddrs \<Rightarrow> waker \<Rightarrow> 'r Net \<Rightarrow> ((TcpSock io_result + ConnectFuture) \<times> 'r Net) option" where
  "ts_connect addr w n =
     (case shim_socket_addr n addr of
        Inl e \<Rightarrow> Some (Inl (Err e), n)
      | Inr peer \<Rightarrow> do {
          (fd, n1) \<leftarrow> sys (\<lambda>k. Some (kernel_open k (domain_of peer) Stream)) n;
          ts_connect_poll \<lparr>cf_guard = FdGuard_new fd, cf_peer = peer\<rparr> w n1
        })"

definition ts_connect_cancel :: "ConnectFuture \<Rightarrow> 'r Net \<Rightarrow> 'r Net option" where
  "ts_connect_cancel f = FdGuard_drop (cf_guard f)"

definition from_fd :: "Fd \<Rightarrow> TcpSock" where
  "from_fd fd = \<lparr>ts_fd = fd\<rparr>"

definition ts_local_addr :: "TcpSock \<Rightarrow> 'r Net \<Rightarrow> (SocketAddr io_result \<times> 'r Net) option" where
  "ts_local_addr t = fd_local_addr (ts_fd t)"

definition ts_peer_addr :: "TcpSock \<Rightarrow> 'r Net \<Rightarrow> (SocketAddr io_result \<times> 'r Net) option" where
  "ts_peer_addr t = fd_peer_addr (ts_fd t)"

definition ts_try_read :: "TcpSock \<Rightarrow> bytes \<Rightarrow> 'r Net \<Rightarrow> ((nat io_result \<times> bytes) \<times> 'r Net) option" where
  "ts_try_read t buf n = map_option (map_prod (map_prod unwrap_try id) id) (fd_recv (ts_fd t) noop_cx buf n)"

definition ts_try_read_vectored ::
  "TcpSock \<Rightarrow> bytes list \<Rightarrow> 'r Net \<Rightarrow> ((nat io_result \<times> bytes list) \<times> 'r Net) option" where
  "ts_try_read_vectored t bufs n =
     sys (\<lambda>k. do { (r, b, k1) \<leftarrow> kernel_try_recv_vectored k (ts_fd t) bufs; Some ((r, b), k1) }) n"

definition ts_try_write :: "TcpSock \<Rightarrow> bytes \<Rightarrow> 'r Net \<Rightarrow> (nat io_result \<times> 'r Net) option" where
  "ts_try_write t buf n =
     map_option (map_prod unwrap_try id) (sys (\<lambda>k. kernel_poll_send k (ts_fd t) noop_cx buf) n)"

definition ts_peek :: "TcpSock \<Rightarrow> waker \<Rightarrow> bytes \<Rightarrow> 'r Net \<Rightarrow> ((nat io_result Poll \<times> bytes) \<times> 'r Net) option" where
  "ts_peek t = fd_peek (ts_fd t)"

definition ts_poll_peek :: "TcpSock \<Rightarrow> waker \<Rightarrow> ReadBuf \<Rightarrow> 'r Net \<Rightarrow> ((nat io_result Poll \<times> ReadBuf) \<times> 'r Net) option" where
  "ts_poll_peek t w rb n = do {
     ((r, b), n1) \<leftarrow> fd_peek (ts_fd t) w (rb_unfilled rb) n;
     Some ((r, case r of Ready (Inr m) \<Rightarrow> rb_advance m b rb | _ \<Rightarrow> rb), n1)
   }"

definition ts_set_ttl :: "TcpSock \<Rightarrow> u32 \<Rightarrow> 'r Net \<Rightarrow> (unit io_result \<times> 'r Net) option" where
  "ts_set_ttl t = fd_set_ttl (ts_fd t)"

definition ts_ttl :: "TcpSock \<Rightarrow> 'r Net \<Rightarrow> (u32 io_result \<times> 'r Net) option" where
  "ts_ttl t = fd_ttl (ts_fd t)"

definition ts_set_nodelay :: "TcpSock \<Rightarrow> bool \<Rightarrow> 'r Net \<Rightarrow> (unit io_result \<times> 'r Net) option" where
  "ts_set_nodelay t nodelay n = sys (\<lambda>k. set_option k (ts_fd t) (TcpNoDelay nodelay)) n"

definition ts_nodelay :: "TcpSock \<Rightarrow> 'r Net \<Rightarrow> (bool io_result \<times> 'r Net) option" where
  "ts_nodelay t n = do {
     (r, n1) \<leftarrow> sys (\<lambda>k. do { r \<leftarrow> get_option k (ts_fd t) K_TcpNoDelay; Some (r, k) }) n;
     case r of
       Inl e \<Rightarrow> Some (Err e, n1)
     | Inr (TcpNoDelay v) \<Rightarrow> Some (Ok v, n1)
     | Inr _ \<Rightarrow> None
   }"

definition ts_drop :: "TcpSock \<Rightarrow> 'r Net \<Rightarrow> 'r Net option" where
  "ts_drop t = fd_close (ts_fd t)"

definition ts_poll_read_priv :: "TcpSock \<Rightarrow> waker \<Rightarrow> ReadBuf \<Rightarrow> 'r Net \<Rightarrow> ((unit io_result Poll \<times> ReadBuf) \<times> 'r Net) option" where
  "ts_poll_read_priv t w rb n = do {
     ((r, b), n1) \<leftarrow> fd_recv (ts_fd t) w (rb_unfilled rb) n;
     Some (case r of
         Ready (Inr m) \<Rightarrow> (Ready (Ok ()), rb_advance m b rb)
       | Ready (Inl e) \<Rightarrow> (Ready (Err e), rb)
       | Pending \<Rightarrow> (Pending, rb), n1)
   }"

definition ts_poll_write_priv :: "TcpSock \<Rightarrow> waker \<Rightarrow> bytes \<Rightarrow> 'r Net \<Rightarrow> (nat io_result Poll \<times> 'r Net) option" where
  "ts_poll_write_priv t w buf n = sys (\<lambda>k. kernel_poll_send k (ts_fd t) w buf) n"

definition ts_poll_shutdown_priv :: "TcpSock \<Rightarrow> 'r Net \<Rightarrow> (unit io_result Poll \<times> 'r Net) option" where
  "ts_poll_shutdown_priv t n = sys (\<lambda>k. kernel_poll_shutdown_write k (ts_fd t)) n"

definition ts_poll_read :: "TcpSock \<Rightarrow> waker \<Rightarrow> ReadBuf \<Rightarrow> 'r Net \<Rightarrow> ((unit io_result Poll \<times> ReadBuf) \<times> 'r Net) option" where
  "ts_poll_read t = ts_poll_read_priv t"

definition ts_poll_write :: "TcpSock \<Rightarrow> waker \<Rightarrow> bytes \<Rightarrow> 'r Net \<Rightarrow> (nat io_result Poll \<times> 'r Net) option" where
  "ts_poll_write t = ts_poll_write_priv t"

definition ts_poll_flush :: "TcpSock \<Rightarrow> 'r Net \<Rightarrow> (unit io_result Poll \<times> 'r Net) option" where
  "ts_poll_flush t n = Some (Ready (Ok ()), n)"

definition ts_poll_shutdown :: "TcpSock \<Rightarrow> 'r Net \<Rightarrow> (unit io_result Poll \<times> 'r Net) option" where
  "ts_poll_shutdown t = ts_poll_shutdown_priv t"

section \<open>TCP listeners\<close>

record TcpListen =
  tl_fd :: Fd

definition tl_bind :: "ToSocketAddrs \<Rightarrow> 'r Net \<Rightarrow> (TcpListen io_result \<times> 'r Net) option" where
  "tl_bind addr n =
     (case shim_socket_addr n addr of
        Inl e \<Rightarrow> Some (Err e, n)
      | Inr a \<Rightarrow>
          sys (\<lambda>k. do {
            let bl = default_backlog k;
            (r, k1) \<leftarrow> kernel_bind k (Addr_Inet a) Stream;
            case r of
              Inl e \<Rightarrow> Some (Err e, k1)
            | Inr fd \<Rightarrow> do {
                (r2, k2) \<leftarrow> kernel_listen k1 fd bl;
                Some (case r2 of Inl e \<Rightarrow> Err e | Inr _ \<Rightarrow> Ok \<lparr>tl_fd = fd\<rparr>, k2)
              }
          }) n)"

definition tl_poll_accept ::
  "TcpListen \<Rightarrow> waker \<Rightarrow> 'r Net \<Rightarrow> ((TcpSock \<times> SocketAddr) io_result Poll \<times> 'r Net) option" where
  "tl_poll_accept l w n = do {
     (r, n1) \<leftarrow> sys (\<lambda>k. kernel_poll_accept k (tl_fd l) w) n;
     Some (case r of
         Ready (Inr (fd, peer)) \<Rightarrow> Ready (Ok (from_fd fd, peer))
       | Ready (Inl e) \<Rightarrow> Ready (Err e)
       | Pending \<Rightarrow> Pending, n1)
   }"

definition tl_local_addr :: "TcpListen \<Rightarrow> 'r Net \<Rightarrow> (SocketAddr io_result \<times> 'r Net) option" where
  "tl_local_addr l = fd_local_addr (tl_fd l)"

definition tl_set_ttl :: "TcpListen \<Rightarrow> u32 \<Rightarrow> 'r Net \<Rightarrow> (unit io_result \<times> 'r Net) option" where
  "tl_set_ttl l = fd_set_ttl (tl_fd l)"

definition tl_ttl :: "TcpListen \<Rightarrow> 'r Net \<Rightarrow> (u32 io_result \<times> 'r Net) option" where
  "tl_ttl l = fd_ttl (tl_fd l)"

definition tl_drop :: "TcpListen \<Rightarrow> 'r Net \<Rightarrow> 'r Net option" where
  "tl_drop l = fd_close (tl_fd l)"

end
