(* ===== verification/Shim_Halves.thy ===== *)
theory Shim_Halves
  imports Shim_Net
begin

text \<open>
  \<^verbatim>\<open>turmoil-net/src/shim/tokio/net/tcp/split.rs\<close> and \<^verbatim>\<open>split_owned.rs\<close>: the two halves of a stream. Borrowed
  halves are references to the stream; owned halves share it through an \<^verbatim>\<open>Arc\<close>, which is a
  cell with a reference count in the state. The last reference to a cell drops the stream in it.
\<close>

section \<open>Borrowed halves\<close>

datatype BorrowedRead = BorrowedRead (br_stream: TcpSock)

datatype BorrowedWrite = BorrowedWrite (bw_stream: TcpSock)

definition split_stream :: "TcpSock \<Rightarrow> BorrowedRead \<times> BorrowedWrite" where
  "split_stream t = (BorrowedRead t, BorrowedWrite t)"

definition br_try_read :: "BorrowedRead \<Rightarrow> bytes \<Rightarrow> 'r Net \<Rightarrow> ((nat io_result \<times> bytes) \<times> 'r Net) option" where
  "br_try_read h = ts_try_read (br_stream h)"

definition br_try_read_vectored ::
  "BorrowedRead \<Rightarrow> bytes list \<Rightarrow> 'r Net \<Rightarrow> ((nat io_result \<times> bytes list) \<times> 'r Net) option" where
  "br_try_read_vectored h = ts_try_read_vectored (br_stream h)"

definition br_peek :: "BorrowedRead \<Rightarrow> waker \<Rightarrow> bytes \<Rightarrow> 'r Net \<Rightarrow> ((nat io_result Poll \<times> bytes) \<times> 'r Net) option" where
  "br_peek h = ts_peek (br_stream h)"

definition br_poll_peek :: "BorrowedRead \<Rightarrow> waker \<Rightarrow> ReadBuf \<Rightarrow> 'r Net \<Rightarrow> ((nat io_result Poll \<times> ReadBuf) \<times> 'r Net) option" where
  "br_poll_peek h = ts_poll_peek (br_stream h)"

definition br_local_addr :: "BorrowedRead \<Rightarrow> 'r Net \<Rightarrow> (SocketAddr io_result \<times> 'r Net) option" where
  "br_local_addr h = ts_local_addr (br_stream h)"

definition br_peer_addr :: "BorrowedRead \<Rightarrow> 'r Net \<Rightarrow> (SocketAddr io_result \<times> 'r Net) option" where
  "br_peer_addr h = ts_peer_addr (br_stream h)"

definition br_poll_read :: "BorrowedRead \<Rightarrow> waker \<Rightarrow> ReadBuf \<Rightarrow> 'r Net \<Rightarrow> ((unit io_result Poll \<times> ReadBuf) \<times> 'r Net) option" where
  "br_poll_read h = ts_poll_read_priv (br_stream h)"

definition bw_try_write :: "BorrowedWrite \<Rightarrow> bytes \<Rightarrow> 'r Net \<Rightarrow> (nat io_result \<times> 'r Net) option" where
  "bw_try_write h = ts_try_write (bw_stream h)"

definition bw_local_addr :: "BorrowedWrite \<Rightarrow> 'r Net \<Rightarrow> (SocketAddr io_result \<times> 'r Net) option" where
  "bw_local_addr h = ts_local_addr (bw_stream h)"

definition bw_peer_addr :: "BorrowedWrite \<Rightarrow> 'r Net \<Rightarrow> (SocketAddr io_result \<times> 'r Net) option" where
  "bw_peer_addr h = ts_peer_addr (bw_stream h)"

definition bw_poll_write :: "BorrowedWrite \<Rightarrow> waker \<Rightarrow> bytes \<Rightarrow> 'r Net \<Rightarrow> (nat io_result Poll \<times> 'r Net) option" where
  "bw_poll_write h = ts_poll_write_priv (bw_stream h)"

definition bw_poll_flush :: "BorrowedWrite \<Rightarrow> 'r Net \<Rightarrow> (unit io_result Poll \<times> 'r Net) option" where
  "bw_poll_flush h n = Some (Ready (Ok ()), n)"

definition bw_poll_shutdown :: "BorrowedWrite \<Rightarrow> 'r Net \<Rightarrow> (unit io_result Poll \<times> 'r Net) option" where
  "bw_poll_shutdown h = ts_poll_shutdown_priv (bw_stream h)"

section \<open>Shared streams\<close>

text \<open>The network and the cells of the program; a cell is a stream and its reference count.\<close>

record 'r ShimState =
  sh_net :: "'r Net"
  sh_arcs :: "(nat, TcpSock \<times> nat) imap"
  sh_next :: nat

definition Arc_new :: "TcpSock \<Rightarrow> 'r ShimState \<Rightarrow> nat \<times> 'r ShimState" where
  "Arc_new t s = (sh_next s, s\<lparr>sh_arcs := imap_insert (sh_next s) (t, 1) (sh_arcs s), sh_next := sh_next s + 1\<rparr>)"

definition Arc_clone :: "nat \<Rightarrow> 'r ShimState \<Rightarrow> 'r ShimState" where
  "Arc_clone a s = s\<lparr>sh_arcs := imap_modify a (\<lambda>(t, c). (t, c + 1)) (sh_arcs s)\<rparr>"

definition Arc_get :: "nat \<Rightarrow> 'r ShimState \<Rightarrow> TcpSock option" where
  "Arc_get a s = map_option fst (imap_get (sh_arcs s) a)"

definition Arc_drop :: "nat \<Rightarrow> 'r ShimState \<Rightarrow> 'r ShimState option" where
  "Arc_drop a s = do {
     (t, c) \<leftarrow> imap_get (sh_arcs s) a;
     if c \<le> 1 then do {
       n \<leftarrow> ts_drop t (sh_net s);
       Some (s\<lparr>sh_net := n, sh_arcs := imap_shift_remove a (sh_arcs s)\<rparr>)
     }
     else Some (s\<lparr>sh_arcs := imap_modify a (\<lambda>(t, c). (t, c - 1)) (sh_arcs s)\<rparr>)
   }"

definition Arc_try_unwrap :: "nat \<Rightarrow> 'r ShimState \<Rightarrow> ((nat + TcpSock) \<times> 'r ShimState) option" where
  "Arc_try_unwrap a s = do {
     (t, c) \<leftarrow> imap_get (sh_arcs s) a;
     Some (if c = 1 then (Inr t, s\<lparr>sh_arcs := imap_shift_remove a (sh_arcs s)\<rparr>) else (Inl a, s))
   }"

text \<open>A call on the stream of a cell.\<close>

definition on_arc :: "nat \<Rightarrow> (TcpSock \<Rightarrow> 'r Net \<Rightarrow> ('a \<times> 'r Net) option) \<Rightarrow> 'r ShimState \<Rightarrow> ('a \<times> 'r ShimState) option" where
  "on_arc a f s = do {
     t \<leftarrow> Arc_get a s;
     (x, n) \<leftarrow> f t (sh_net s);
     Some (x, s\<lparr>sh_net := n\<rparr>)
   }"

section \<open>Owned halves\<close>

record OwnedReadHalf =
  orh_inner :: nat

record OwnedWriteHalf =
  owh_inner :: nat
  shutdown_on_drop :: bool

definition split_owned :: "TcpSock \<Rightarrow> 'r ShimState \<Rightarrow> (OwnedReadHalf \<times> OwnedWriteHalf) \<times> 'r ShimState" where
  "split_owned t s =
     (let (arc, s1) = Arc_new t s;
          s2 = Arc_clone arc s1
      in ((\<lparr>orh_inner = arc\<rparr>, \<lparr>owh_inner = arc, shutdown_on_drop = True\<rparr>), s2))"

definition owh_drop :: "OwnedWriteHalf \<Rightarrow> 'r ShimState \<Rightarrow> 'r ShimState option" where
  "owh_drop w s = do {
     s1 \<leftarrow> (if shutdown_on_drop w then map_option snd (on_arc (owh_inner w) ts_poll_shutdown_priv s) else Some s);
     Arc_drop (owh_inner w) s1
   }"

definition orh_drop :: "OwnedReadHalf \<Rightarrow> 'r ShimState \<Rightarrow> 'r ShimState option" where
  "orh_drop r = Arc_drop (orh_inner r)"

definition forget :: "OwnedWriteHalf \<Rightarrow> 'r ShimState \<Rightarrow> 'r ShimState option" where
  "forget w = owh_drop (w\<lparr>shutdown_on_drop := False\<rparr>)"

text \<open>
  The halves come back in the error when they do not belong together. The write half that was passed
  in is dropped at the end of the call on that path too.
\<close>

definition reunite ::
  "OwnedReadHalf \<Rightarrow> OwnedWriteHalf \<Rightarrow> 'r ShimState \<Rightarrow> (((OwnedReadHalf \<times> OwnedWriteHalf) + TcpSock) \<times> 'r ShimState) option" where
  "reunite r w s =
     (if orh_inner r = owh_inner w then do {
        s1 \<leftarrow> owh_drop (w\<lparr>shutdown_on_drop := False\<rparr>) s;
        (res, s2) \<leftarrow> Arc_try_unwrap (orh_inner r) s1;
        Some (case res of
            Inr t \<Rightarrow> (Inr t, s2)
          | Inl a \<Rightarrow> (Inl (\<lparr>orh_inner = a\<rparr>, \<lparr>owh_inner = a, shutdown_on_drop = True\<rparr>), Arc_clone a s2))
      }
      else do {
        let s1 = Arc_clone (owh_inner w) s;
        s2 \<leftarrow> owh_drop w s1;
        Some (Inl (r, \<lparr>owh_inner = owh_inner w, shutdown_on_drop = shutdown_on_drop w\<rparr>), s2)
      })"

definition orh_reunite ::
  "OwnedReadHalf \<Rightarrow> OwnedWriteHalf \<Rightarrow> 'r ShimState \<Rightarrow> (((OwnedReadHalf \<times> OwnedWriteHalf) + TcpSock) \<times> 'r ShimState) option" where
  "orh_reunite r other = reunite r other"

definition owh_reunite ::
  "OwnedWriteHalf \<Rightarrow> OwnedReadHalf \<Rightarrow> 'r ShimState \<Rightarrow> (((OwnedReadHalf \<times> OwnedWriteHalf) + TcpSock) \<times> 'r ShimState) option" where
  "owh_reunite w other = reunite other w"

definition orh_try_read :: "OwnedReadHalf \<Rightarrow> bytes \<Rightarrow> 'r ShimState \<Rightarrow> ((nat io_result \<times> bytes) \<times> 'r ShimState) option" where
  "orh_try_read r buf = on_arc (orh_inner r) (\<lambda>t. ts_try_read t buf)"

definition orh_try_read_vectored ::
  "OwnedReadHalf \<Rightarrow> bytes list \<Rightarrow> 'r ShimState \<Rightarrow> ((nat io_result \<times> bytes list) \<times> 'r ShimState) option" where
  "orh_try_read_vectored r bufs = on_arc (orh_inner r) (\<lambda>t. ts_try_read_vectored t bufs)"

definition orh_peek :: "OwnedReadHalf \<Rightarrow> waker \<Rightarrow> bytes \<Rightarrow> 'r ShimState \<Rightarrow> ((nat io_result Poll \<times> bytes) \<times> 'r ShimState) option" where
  "orh_peek r w buf = on_arc (orh_inner r) (\<lambda>t. ts_peek t w buf)"

definition orh_poll_peek ::
  "OwnedReadHalf \<Rightarrow> waker \<Rightarrow> ReadBuf \<Rightarrow> 'r ShimState \<Rightarrow> ((nat io_result Poll \<times> ReadBuf) \<times> 'r ShimState) option" where
  "orh_poll_peek r w rb = on_arc (orh_inner r) (\<lambda>t. ts_poll_peek t w rb)"

definition orh_local_addr :: "OwnedReadHalf \<Rightarrow> 'r ShimState \<Rightarrow> (SocketAddr io_result \<times> 'r ShimState) option" where
  "orh_local_addr r = on_arc (orh_inner r) ts_local_addr"

definition orh_peer_addr :: "OwnedReadHalf \<Rightarrow> 'r ShimState \<Rightarrow> (SocketAddr io_result \<times> 'r ShimState) option" where
  "orh_peer_addr r = on_arc (orh_inner r) ts_peer_addr"

definition orh_poll_read ::
  "OwnedReadHalf \<Rightarrow> waker \<Rightarrow> ReadBuf \<Rightarrow> 'r ShimState \<Rightarrow> ((unit io_result Poll \<times> ReadBuf) \<times> 'r ShimState) option" where
  "orh_poll_read r w rb = on_arc (orh_inner r) (\<lambda>t. ts_poll_read_priv t w rb)"

definition owh_try_write :: "OwnedWriteHalf \<Rightarrow> bytes \<Rightarrow> 'r ShimState \<Rightarrow> (nat io_result \<times> 'r ShimState) option" where
  "owh_try_write w buf = on_arc (owh_inner w) (\<lambda>t. ts_try_write t buf)"

definition owh_local_addr :: "OwnedWriteHalf \<Rightarrow> 'r ShimState \<Rightarrow> (SocketAddr io_result \<times> 'r ShimState) option" where
  "owh_local_addr w = on_arc (owh_inner w) ts_local_addr"

definition owh_peer_addr :: "OwnedWriteHalf \<Rightarrow> 'r ShimState \<Rightarrow> (SocketAddr io_result \<times> 'r ShimState) option" where
  "owh_peer_addr w = on_arc (owh_inner w) ts_peer_addr"

definition owh_poll_write ::
  "OwnedWriteHalf \<Rightarrow> waker \<Rightarrow> bytes \<Rightarrow> 'r ShimState \<Rightarrow> (nat io_result Poll \<times> 'r ShimState) option" where
  "owh_poll_write w cx buf = on_arc (owh_inner w) (\<lambda>t. ts_poll_write_priv t cx buf)"

definition owh_poll_flush :: "OwnedWriteHalf \<Rightarrow> 'r ShimState \<Rightarrow> (unit io_result Poll \<times> 'r ShimState) option" where
  "owh_poll_flush w s = Some (Ready (Ok ()), s)"

definition owh_poll_shutdown ::
  "OwnedWriteHalf \<Rightarrow> 'r ShimState \<Rightarrow> ((unit io_result Poll \<times> OwnedWriteHalf) \<times> 'r ShimState) option" where
  "owh_poll_shutdown w s = do {
     (res, s1) \<leftarrow> on_arc (owh_inner w) ts_poll_shutdown_priv s;
     Some ((res, case res of Ready (Inr _) \<Rightarrow> w\<lparr>shutdown_on_drop := False\<rparr> | _ \<Rightarrow> w), s1)
   }"

section \<open>Reuniting\<close>

text \<open>Two halves of one stream: splitting makes them, and reuniting gives the stream back.\<close>

definition halves_of :: "TcpSock \<Rightarrow> OwnedReadHalf \<Rightarrow> OwnedWriteHalf \<Rightarrow> 'r ShimState \<Rightarrow> bool" where
  "halves_of t r w s \<longleftrightarrow> orh_inner r = owh_inner w \<and> imap_get (sh_arcs s) (orh_inner r) = Some (t, 2)"

lemma split_halves: "split_owned t s = ((r, w), s1) \<Longrightarrow> halves_of t r w s1 \<and> sh_net s1 = sh_net s"
  by (auto simp: split_owned_def Arc_new_def Arc_clone_def halves_of_def imap_simps)

lemma delete_modify: "imap_shift_remove a (imap_modify a f m) = imap_shift_remove a m"
  by (induction m) auto

lemma reunite_same:
  assumes "halves_of t r w s"
  shows "reunite r w s = Some (Inr t, s\<lparr>sh_arcs := imap_shift_remove (orh_inner r) (sh_arcs s)\<rparr>)"
proof -
  have h: "orh_inner r = owh_inner w" "imap_get (sh_arcs s) (owh_inner w) = Some (t, 2)"
    using assms by (auto simp: halves_of_def)
  let ?s1 = "s\<lparr>sh_arcs := imap_modify (owh_inner w) (\<lambda>(t, c). (t, c - 1)) (sh_arcs s)\<rparr>"
  have "owh_drop (w\<lparr>shutdown_on_drop := False\<rparr>) s = Some ?s1"
    using h by (simp add: owh_drop_def Arc_drop_def)
  moreover have "Arc_try_unwrap (owh_inner w) ?s1 =
      Some (Inr t, s\<lparr>sh_arcs := imap_shift_remove (owh_inner w) (sh_arcs s)\<rparr>)"
    using h by (simp add: Arc_try_unwrap_def imap_simps delete_modify)
  ultimately show ?thesis using h(1) by (simp add: reunite_def)
qed

lemma remove_fresh: "imap_get m a = None \<Longrightarrow> imap_shift_remove a (imap_insert a v m) = m"
  by (induction m) (auto split: if_splits)

text \<open>
  C39. Splitting a stream into owned halves and reuniting them gives the stream back, from either half, and
  leaves no trace: the network and the shared streams are what they were, and only the
  next identity is spent.
\<close>

theorem split_reunite_roundtrip:
  assumes fresh: "imap_get (sh_arcs s) (sh_next s) = None"
  shows "\<exists>r w s1. split_owned t s = ((r, w), s1) \<and> sh_net s1 = sh_net s \<and>
    orh_reunite r w s1 = Some (Inr t, s\<lparr>sh_next := sh_next s + 1\<rparr>) \<and>
    owh_reunite w r s1 = Some (Inr t, s\<lparr>sh_next := sh_next s + 1\<rparr>)"
proof -
  obtain r w s1 where sp: "split_owned t s = ((r, w), s1)" by (metis prod.exhaust_sel)
  have h: "halves_of t r w s1" "sh_net s1 = sh_net s" using split_halves [OF sp] by simp_all
  have "s1\<lparr>sh_arcs := imap_shift_remove (orh_inner r) (sh_arcs s1)\<rparr> = s\<lparr>sh_next := sh_next s + 1\<rparr>"
    using sp remove_fresh [OF fresh] by (auto simp: split_owned_def Arc_new_def Arc_clone_def delete_modify)
  then show ?thesis using sp h reunite_same [OF h(1)] by (simp add: orh_reunite_def owh_reunite_def)
qed

theorem split_reunite_roundtrip_witness:
  "\<exists>r w s1. split_owned \<lparr>ts_fd = 7\<rparr> \<lparr>sh_net = Net_new, sh_arcs = [], sh_next = 0\<rparr> = ((r, w), s1) \<and>
     orh_reunite r w s1 = Some (Inr \<lparr>ts_fd = 7\<rparr>, \<lparr>sh_net = Net_new, sh_arcs = [], sh_next = 1\<rparr>)"
  using split_reunite_roundtrip [of "\<lparr>sh_net = Net_new, sh_arcs = [], sh_next = 0\<rparr>" "\<lparr>ts_fd = 7\<rparr>"] by auto

text \<open>A clone of a cell that is dropped leaves the cell as it was.\<close>

lemma clone_drop:
  assumes "imap_get (sh_arcs s) a = Some (t, c)" "0 < c"
  shows "Arc_drop a ((Arc_clone a s)\<lparr>sh_net := n\<rparr>) = Some (s\<lparr>sh_net := n\<rparr>)"
proof -
  have "imap_modify a (\<lambda>(t, c). (t, c - Suc 0)) (imap_modify a (\<lambda>(t, c). (t, Suc c)) m) = m" for m :: "(nat, TcpSock \<times> nat) imap"
    by (induction m) auto
  then show ?thesis using assms by (simp add: Arc_drop_def Arc_clone_def imap_simps)
qed

text \<open>What \<open>sys\<close> does on the kernel of the current host.\<close>

definition current_kernel :: "'r Net \<Rightarrow> Kernel option" where
  "current_kernel n = do { hid \<leftarrow> net_current n; kernel_of (net_fabric n) hid }"

lemma sys_current:
  assumes "current_kernel n = Some k" "g k = Some (x, k')"
  shows "\<exists>n'. sys g n = Some (x, n') \<and> current_kernel n' = Some k'"
  using assms by (auto simp: current_kernel_def sys_def bind_Some_iff kernel_of_def put_kernel_def imap_simps)

text \<open>
  A failed reunite shuts the stream of its write half down: the half is handed back in the error,
  but the original is dropped on the way out, and dropping it queues a FIN. Every later write
  on the returned half fails.
\<close>

theorem failed_reunite_shuts_down:
  assumes "orh_inner r \<noteq> owh_inner w" "shutdown_on_drop w" "imap_get (sh_arcs s) (owh_inner w) = Some (t, c)" "0 < c"
    and "current_kernel (sh_net s) = Some k" "lookup k (ts_fd t) = Some st" "sk_ty st = Stream" "tcb st = Some b"
    and "abort_error b = None" "\<not> wr_closed b"
  shows "\<exists>r' w' s'. reunite r w s = Some (Inl (r', w'), s') \<and>
    (\<exists>s''. owh_try_write w' buf s' = Some (Err (Kind BrokenPipe), s''))"
proof -
  let ?k = "modify (ts_fd t) (\<lambda>s. s\<lparr>tcb := Some (queue_fin b)\<rparr>) k" and ?w = "owh_inner w"
  have "kernel_poll_shutdown_write k (ts_fd t) = Some (Ready (Ok ()), ?k)"
    using assms by (simp add: kernel_poll_shutdown_write_def tcp_poll_shutdown_write_def)
  then obtain n where n: "ts_poll_shutdown_priv t (sh_net s) = Some (Ready (Ok ()), n)" "current_kernel n = Some ?k"
    unfolding ts_poll_shutdown_priv_def
    using sys_current [OF assms(5), of "\<lambda>k. kernel_poll_shutdown_write k (ts_fd t)"] by auto
  have "Arc_get ?w (Arc_clone ?w s) = Some t" "sh_net (Arc_clone ?w s) = sh_net s"
    using assms(3) by (simp_all add: Arc_get_def Arc_clone_def imap_simps)
  then have "owh_drop w (Arc_clone ?w s) = Some (s\<lparr>sh_net := n\<rparr>)" (is "_ = Some ?s")
    using assms(2) n(1) clone_drop [OF assms(3,4)] by (simp add: owh_drop_def on_arc_def)
  then have re: "reunite r w s = Some (Inl (r, \<lparr>owh_inner = ?w, shutdown_on_drop = True\<rparr>), ?s)"
    using assms(1,2) by (simp add: reunite_def Let_def)
  have "kernel_poll_send ?k (ts_fd t) noop_cx buf = Some (Ready (Err (Kind BrokenPipe)), ?k)"
    using assms(6-10) by (simp add: kernel_poll_send_def tcp_poll_send_def queue_fin_def abort_error_def split: if_splits)
  then obtain n' where "sys (\<lambda>k. kernel_poll_send k (ts_fd t) noop_cx buf) n = Some (Ready (Err (Kind BrokenPipe)), n')"
    using sys_current [OF n(2), of "\<lambda>k. kernel_poll_send k (ts_fd t) noop_cx buf"] by auto
  moreover have "Arc_get ?w ?s = Some t" using assms(3) by (simp add: Arc_get_def imap_simps)
  ultimately have "owh_try_write \<lparr>owh_inner = ?w, shutdown_on_drop = True\<rparr> buf ?s = Some (Err (Kind BrokenPipe), ?s\<lparr>sh_net := n'\<rparr>)"
    by (simp add: owh_try_write_def on_arc_def ts_try_write_def unwrap_try_def)
  with re show ?thesis by blast
qed

end
