(* ===== verification/Kernel_Keeps.thy ===== *)
theory Kernel_Keeps
  imports Kernel_Runs
begin

text \<open>
  What an application can rely on about the sockets it holds. A descriptor the application owns
  is open and in no accept queue. Whatever the kernel does on behalf of others (packets, egress passes, calls on other
  descriptors), an owned socket stays in the table with its type, and what was bound,
  connected or listening stays so. The lemmas are partial: that the calls return is
  shown in \<open>Kernel_Safety\<close>, \<open>Egress\<close> and \<open>Kernel_Runs\<close>.
\<close>

section \<open>Owned sockets\<close>

definition half_open :: "Socket \<Rightarrow> bool" where
  "half_open s = (case tcb s of None \<Rightarrow> False | Some t \<Rightarrow> tcb_state t = SynReceived)"

definition owned :: "Kernel \<Rightarrow> Fd \<Rightarrow> Socket \<Rightarrow> bool" where
  "owned k fd s \<longleftrightarrow> lookup k fd = Some s \<and> held k fd \<and> \<not> fd_closed s \<and> \<not> half_open s"

text \<open>Connections and listeners are stream sockets, and peers and senders are internet addresses.\<close>

definition typed :: "Socket \<Rightarrow> bool" where
  "typed s \<longleftrightarrow> (tcb s \<noteq> None \<or> listen s \<noteq> None \<longrightarrow> sk_ty s = Stream) \<and>
     (case sk_peer s of None \<Rightarrow> True | Some a \<Rightarrow> is_inet a) \<and>
     (\<forall>(from, _) \<in> set (recv_queue s). is_inet from)"

definition sockets_ok :: "Kernel \<Rightarrow> bool" where
  "sockets_ok k \<longleftrightarrow> imap_wf (sockets (table k)) \<and> (\<forall>fd s. lookup k fd = Some s \<longrightarrow> fd < next_id (table k) \<and> typed s)"

definition sock_keeps :: "Socket \<Rightarrow> Socket \<Rightarrow> bool" where
  "sock_keeps s s' \<longleftrightarrow> sk_ty s' = sk_ty s \<and> (listen s \<noteq> None \<longrightarrow> listen s' \<noteq> None) \<and>
     (tcb s \<noteq> None \<longrightarrow> tcb s' \<noteq> None) \<and> (bound s \<noteq> None \<longrightarrow> bound s' \<noteq> None)"

definition keeps :: "Fd set \<Rightarrow> Kernel \<Rightarrow> Kernel \<Rightarrow> bool" where
  "keeps F k k' \<longleftrightarrow> next_id (table k) \<le> next_id (table k') \<and>
     (\<forall>fd s. fd \<notin> F \<longrightarrow> owned k fd s \<longrightarrow> (\<exists>s'. owned k' fd s' \<and> sock_keeps s s'))"

definition good :: "Fd set \<Rightarrow> Kernel \<Rightarrow> Kernel \<Rightarrow> bool" where
  "good F k k' \<longleftrightarrow> (sockets_ok k \<longrightarrow> sockets_ok k' \<and> keeps F k k')"

lemma sock_keeps_refl [simp]: "sock_keeps s s"
  by (simp add: sock_keeps_def)

lemma sock_keeps_trans: "sock_keeps a b \<Longrightarrow> sock_keeps b c \<Longrightarrow> sock_keeps a c"
  by (auto simp: sock_keeps_def)

lemma good_refl [simp]: "good F k k"
  by (auto simp: good_def keeps_def)

lemma good_trans [trans]: "good F a b \<Longrightarrow> good F b c \<Longrightarrow> good F a c"
  unfolding good_def keeps_def by (meson order_trans sock_keeps_trans)

lemma good_mono: "good F a b \<Longrightarrow> F \<subseteq> G \<Longrightarrow> good G a b"
  unfolding good_def keeps_def by blast

text \<open>A change to a descriptor nobody owns is a change nobody sees.\<close>

lemma good_minus:
  assumes g: "good (A \<union> F) k k'" and A: "\<And>a s. sockets_ok k \<Longrightarrow> a \<in> A \<Longrightarrow> \<not> owned k a s"
  shows "good F k k'"
  unfolding good_def keeps_def
proof (intro impI conjI allI)
  assume ok: "sockets_ok k"
  with g show "sockets_ok k'" "next_id (table k) \<le> next_id (table k')" by (auto simp: good_def keeps_def)
  fix a s assume "a \<notin> F" "owned k a s"
  moreover from this have "a \<notin> A" using A [OF ok] by blast
  ultimately show "\<exists>s'. owned k' a s' \<and> sock_keeps s s'" using g ok by (auto simp: good_def keeps_def)
qed

lemma good_frame:
  assumes "sockets (table k') = sockets (table k)" "next_id (table k') = next_id (table k)"
  shows "good F k k'"
proof -
  have "lookup k' = lookup k" using assms(1) by (simp add: lookup_eq fun_eq_iff st_get_def)
  with assms show ?thesis by (auto simp: good_def keeps_def sockets_ok_def owned_def held_def)
qed

lemma good_frames [simp]:
  "good F k (wake ws k') = good F k k'" "good F k (emit a b sg k') = good F k k'"
  "good F k (push_outbound p k') = good F k k'" "good F k (k'\<lparr>tcp_isn := n\<rparr>) = good F k k'"
  "good F k (k'\<lparr>outbound := ps\<rparr>) = good F k k'"
  by (simp_all add: good_def keeps_def sockets_ok_def owned_def held_def)

section \<open>Updates of one socket\<close>

text \<open>Accept queues may only gain descriptors of \<open>F\<close>.\<close>

definition sock_ok :: "Fd set \<Rightarrow> Socket \<Rightarrow> Socket \<Rightarrow> bool" where
  "sock_ok F s s' \<longleftrightarrow> sock_keeps s s' \<and> (typed s \<longrightarrow> typed s') \<and> set (ready_of s') \<subseteq> set (ready_of s) \<union> F \<and>
     fd_closed s' = fd_closed s \<and> (half_open s' \<longrightarrow> half_open s)"

lemma good_modify:
  assumes ok: "\<And>s. lookup k fd = Some s \<Longrightarrow> sock_ok F s (f s)"
  shows "good F k (modify fd f k)"
proof -
  have look: "\<exists>s. lookup k a = Some s \<and> (u = s \<or> sock_ok F s u)" if "lookup (modify fd f k) a = Some u" for a u
    using that ok by (auto split: if_splits)
  have "held (modify fd f k) a" if "held k a" "a \<notin> F" for a
    using that look unfolding held_def sock_ok_def by (metis UnE subsetD)
  moreover have "sockets_ok (modify fd f k)" if "sockets_ok k"
    using that ok by (auto simp: sockets_ok_def sock_ok_def split: if_splits)
  ultimately show ?thesis
    using ok by (fastforce simp: good_def keeps_def owned_def sock_ok_def)
qed

lemma sock_ok_same:
  assumes "sk_ty s' = sk_ty s" "bound s' = bound s" "listen s' = listen s" "sk_peer s' = sk_peer s"
    "fd_closed s' = fd_closed s" "tcb s' = tcb s" "set (recv_queue s') \<subseteq> set (recv_queue s)"
  shows "sock_ok F s s'"
  using assms by (auto simp: sock_ok_def sock_keeps_def typed_def ready_of_def half_open_def)

lemma sock_ok_tcb:
  assumes "tcb s = Some t" "tcb s' = Some t'" "tcb_state t' = SynReceived \<longrightarrow> tcb_state t = SynReceived"
    "sk_ty s' = sk_ty s" "bound s' = bound s" "listen s' = listen s" "sk_peer s' = sk_peer s"
    "fd_closed s' = fd_closed s" "recv_queue s' = recv_queue s"
  shows "sock_ok F s s'"
  using assms by (auto simp: sock_ok_def sock_keeps_def typed_def ready_of_def half_open_def)

section \<open>Insertion and removal\<close>

lemma good_insert:
  assumes look: "lookup k' = (lookup k)(next_id (table k) \<mapsto> s)" "next_id (table k') = Suc (next_id (table k))"
    and "sockets_ok k \<Longrightarrow> typed s" "ready_of s = []"
    and "imap_wf (sockets (table k)) \<Longrightarrow> imap_wf (sockets (table k'))"
  shows "good F k k'"
proof -
  have "held k' a" if "held k a" for a using that assms(4) by (auto simp: held_def look)
  then show ?thesis
    using assms by (fastforce simp: good_def keeps_def sockets_ok_def owned_def less_Suc_eq)
qed

lemma sockets_insert: "imap_wf (sockets t) \<Longrightarrow> imap_wf (sockets (snd (st_insert s t)))"
  by (auto simp: st_insert_def Let_def intro: distinct_update)

lemma good_mk_socket: "good F k (snd (mk_socket d ty k))"
  by (rule good_insert [where s = "Socket_new d ty"])
    (auto simp: mk_socket_def split_beta st_get_insert lookup_eq sockets_insert Socket_new_def ready_of_def typed_def)

lemma good_remove: "good (insert fd F) k (put_table (st_remove fd (table k)) k)"
proof -
  let ?k = "put_table (st_remove fd (table k)) k"
  have look: "st_get (st_remove fd (table k)) = (lookup k)(fd := None)"
    by (simp add: st_get_remove lookup_eq)
  have "next_id (st_remove fd (table k)) = next_id (table k)"
    "imap_wf (sockets (table k)) \<Longrightarrow> imap_wf (sockets (st_remove fd (table k)))"
    by (auto simp: st_remove_def intro: distinct_delete)
  moreover have "held ?k a" if "held k a" for a using that by (auto simp: held_def look)
  ultimately show ?thesis by (auto simp: good_def keeps_def sockets_ok_def owned_def look)
qed

section \<open>Inbound packets\<close>

named_theorems good_intros "calls that keep the sockets of others"

lemma good_park_connect [good_intros]: "park_connect fd w k = Some k' \<Longrightarrow> good F k k'"
  by (auto simp: park_connect_def bind_Some_iff intro!: good_modify sock_ok_same)

lemma good_wake_connect [good_intros]: "wake_connect fd k = Some k' \<Longrightarrow> good F k k'"
  by (auto simp: wake_connect_def bind_Some_iff Let_def intro!: good_modify sock_ok_same split: option.splits)

lemma good_abort_with [good_intros]: "abort_with r fd k = Some k' \<Longrightarrow> good F k k'"
proof -
  have "sock_ok F s (s\<lparr>tcb := map_option (abort_tcb r) (tcb s), connect_waker := None, read_wakers := [], write_wakers := []\<rparr>)" for s
    by (auto simp: sock_ok_def sock_keeps_def typed_def ready_of_def half_open_def abort_tcb_def Let_def
      split: option.splits AbortReason.splits)
  then show "abort_with r fd k = Some k' \<Longrightarrow> good F k k'"
    by (auto simp: abort_with_def bind_Some_iff Let_def intro!: good_modify)
qed

lemma good_push_to_listener: "push_to_listener c loc k = Some k' \<Longrightarrow> good (insert c F) k k'"
  by (auto simp: push_to_listener_def bind_Some_iff sock_ok_def sock_keeps_def typed_def ready_of_def half_open_def
      intro!: good_modify split: option.splits)

lemma est_states:
  "est_ack sg t = Some t1 \<Longrightarrow> tcb_state t1 = SynReceived \<Longrightarrow> tcb_state t = SynReceived"
  "tcb_state (fst (est_data cap sg t)) = tcb_state t"
  "tcb_state (fst (est_fin sg t)) = SynReceived \<Longrightarrow> tcb_state t = SynReceived"
  by (auto simp: est_ack_def est_data_def est_fin_def Let_def fin_acked_state_def fin_received_state_def
      bind_Some_iff split: if_splits TcpState.splits option.splits)

lemma good_handle_established [good_intros]:
  assumes "handle_established fd loc rem sg k = Some k'"
  shows "good F k k'"
proof -
  obtain s t t1 where s: "lookup k fd = Some s" "tcb s = Some t" "est_ack sg t = Some t1"
    using assms by (auto simp: handle_established_def Let_def bind_Some_iff)
  let ?t = "fst (est_fin sg (fst (est_data (recv_buf_cap k) sg t1)))"
  have "tcb_state ?t = SynReceived \<longrightarrow> tcb_state t = SynReceived"
    using est_states(1) [OF s(3)] est_states(3) [of sg "fst (est_data (recv_buf_cap k) sg t1)"] by (simp add: est_states(2))
  then have "good F k (modify fd (\<lambda>_. s\<lparr>tcb := Some ?t, write_wakers := ws, read_wakers := rs\<rparr>) k)"
    "good F k (modify fd (\<lambda>_. s\<lparr>tcb := Some ?t, write_wakers := ws\<rparr>) k)"
    "good F k (modify fd (\<lambda>_. s\<lparr>tcb := Some ?t, read_wakers := rs\<rparr>) k)"
    "good F k (modify fd (\<lambda>_. s\<lparr>tcb := Some ?t\<rparr>) k)" for ws rs
    by (auto intro!: good_modify sock_ok_tcb [where t = t and t' = ?t] simp: s)
  then show ?thesis
    using assms s by (auto simp: handle_established_def Let_def bind_Some_iff split_beta split: if_splits)
qed

lemma good_handle_on_connection [good_intros]:
  assumes "handle_on_connection fd loc rem sg k = Some k'"
  shows "good F k k'"
proof (cases "fl_rst (seg_flags sg)")
  case True
  then show ?thesis
    using assms good_abort_with by (simp add: handle_on_connection_def abort_connection_def)
next
  case False
  then obtain s t where s: "lookup k fd = Some s" "tcb s = Some t"
    using assms by (auto simp: handle_on_connection_def bind_Some_iff)
  let ?synced = "modify fd (\<lambda>s. s\<lparr>tcb := Some (t\<lparr>tcb_state := Established, rcv_nxt := seg_seq sg + 1, snd_wnd := seg_window sg\<rparr>)\<rparr>) k"
  let ?acked = "modify fd (\<lambda>s. s\<lparr>tcb := Some (t\<lparr>tcb_state := Established, snd_wnd := seg_window sg\<rparr>)\<rparr>) k"
  have mod: "good G k ?synced" "good G k ?acked" for G
    using s by (auto intro!: good_modify sock_ok_tcb)
  have "good F k k'" if "wake_connect fd ?synced = Some k1" "k' = emit loc rem x k1" for k1 x
    using good_trans [OF mod(1) good_wake_connect [OF that(1)]] that(2) by simp
  moreover have "good F k k'" if "push_to_listener fd loc ?acked = Some k'" "tcb_state t = SynReceived"
  proof (rule good_minus)
    show "good ({fd} \<union> F) k k'" unfolding insert_is_Un [symmetric] using mod(2) good_push_to_listener [OF that(1)] by (rule good_trans)
    show "\<not> owned k a u" if "a \<in> {fd}" for a u using s \<open>tcb_state t = SynReceived\<close> that by (auto simp: owned_def half_open_def)
  qed
  ultimately show ?thesis
    using assms s False good_handle_established
    by (auto simp: handle_on_connection_def bind_Some_iff Let_def split: if_splits)
qed

lemma good_accept_syn [good_intros]:
  assumes "accept_syn lfd loc rem sg k = Some k'"
  shows "good F k k'"
proof -
  obtain st l where st: "lookup k lfd = Some st" "listen st = Some l"
    using assms by (auto simp: accept_syn_def bind_Some_iff)
  have typed: "sockets_ok k \<Longrightarrow> sk_ty st = Stream" using st by (auto simp: sockets_ok_def typed_def)
  show ?thesis
  proof (cases "count_children k lfd loc + length (ready l) \<ge> backlog l")
    case True
    then show ?thesis using assms st by (simp add: accept_syn_def)
  next
    case False
    let ?key = "\<lparr>bk_domain = sk_domain st, bk_ty = sk_ty st, local_addr = sa_ip loc, local_port = sa_port loc\<rparr>"
    let ?s = "(Socket_new (sk_domain st) (sk_ty st))\<lparr>bound := Some ?key, sk_peer := Some (Addr_Inet rem),
        tcb := Some (new_tcb SynReceived rem (tcp_isn k) (seg_window sg) (seg_seq sg + 1))\<rparr>"
    let ?t1 = "snd (st_insert (Socket_new (sk_domain st) (sk_ty st)) (table k))" and ?c = "next_id (table k)"
    let ?k3 = "modify ?c (\<lambda>c. c\<lparr>bound := Some ?key, sk_peer := Some (Addr_Inet rem),
        tcb := Some (new_tcb SynReceived rem (tcp_isn k) (seg_window sg) (seg_seq sg + 1))\<rparr>) (put_table (insert_binding ?key ?c ?t1) k)"
    have "\<exists>t4. insert_connection loc rem ?c (table ?k3) = Some t4 \<and> (\<exists>sg n. k' = emit loc rem sg ((put_table t4 ?k3)\<lparr>tcp_isn := n\<rparr>))"
      using assms st False
      by (auto simp: accept_syn_def Let_def bind_Some_iff split_beta st_get_insert initial_sequence_def)
    then obtain t4 sg' n where t4: "insert_connection loc rem ?c (table ?k3) = Some t4"
      "k' = emit loc rem sg' ((put_table t4 ?k3)\<lparr>tcp_isn := n\<rparr>)" by blast
    have tab: "st_get t4 = (lookup k)(?c \<mapsto> ?s)" "next_id t4 = Suc ?c" "sockets t4 = sockets (table ?k3)"
      using t4(1) by (auto simp: insert_connection_def st_get_def [abs_def] lookup_eq split: if_splits)
        (auto simp: st_modify_def insert_binding_def st_insert_def Let_def imap_simps intro!: ext)
    have "good F k (put_table t4 ?k3)"
      using tab typed
      by (intro good_insert [where s = ?s]) (auto simp: sockets_insert Socket_new_def ready_of_def typed_def)
    then show ?thesis using t4(2) by simp
  qed
qed

lemma good_udp_deliver: "udp_deliver k pkt d = Some k' \<Longrightarrow> good F k k'"
proof (cases "udp_target k pkt d")
  case (Some fd)
  assume u: "udp_deliver k pkt d = Some k'"
  with Some obtain s where s: "lookup k fd = Some s" by (auto simp: udp_deliver_def bind_Some_iff)
  have "good F k (modify fd (\<lambda>_. s\<lparr>recv_queue := recv_queue s @ [(Addr_Inet sa, b)], read_wakers := ws\<rparr>) k)" for sa b ws
    using s by (intro good_modify) (auto simp: sock_ok_def sock_keeps_def typed_def ready_of_def half_open_def)
  with u Some s show ?thesis
    by (simp add: udp_deliver_def Let_def split: if_split_asm) auto
qed (simp add: udp_deliver_def)

lemma good_deliver [good_intros]: "kernel_deliver k pkt = Some k' \<Longrightarrow> good F k k'"
proof (cases "pkt_payload pkt")
  case (Tcp sg)
  have "good F k (emit_rst loc rem sg k)" for loc rem by (simp add: emit_rst_def split_beta)
  moreover assume "kernel_deliver k pkt = Some k'"
  ultimately show ?thesis
    using Tcp by (auto simp: kernel_deliver_def tcp_deliver_def bind_Some_iff Let_def good_intros split: option.splits if_splits)
qed (simp add: kernel_deliver_def good_udp_deliver)

section \<open>Egress\<close>

lemma for_fds_good:
  assumes "\<And>fd k k'. f fd k = Some k' \<Longrightarrow> good F k k'"
  shows "for_fds f fds k = Some k' \<Longrightarrow> good F k k'"
  by (induction fds arbitrary: k) (auto simp: bind_Some_iff intro: good_trans assms)

lemma good_retx_sweep: "retx_sweep fds k = Some (k', ab, re) \<Longrightarrow> good F k k'"
proof (induction fds arbitrary: k ab re)
  case (Cons fd fds)
  obtain s t where s: "lookup k fd = Some s" "tcb s = Some t"
    using Cons.prems by (auto simp: bind_Some_iff)
  let ?t = "fst (retx_one (retx_threshold k) (retx_max k) t)"
  have "tcb_state ?t = tcb_state t" by (simp add: retx_one_def Let_def)
  then have "good F k (modify fd (\<lambda>s. s\<lparr>tcb := Some ?t\<rparr>) k)"
    using s by (intro good_modify sock_ok_tcb [where t = t and t' = ?t]) auto
  moreover obtain ab' re' where "retx_sweep fds (modify fd (\<lambda>s. s\<lparr>tcb := Some ?t\<rparr>) k) = Some (k', ab', re')"
    using Cons.prems s by (auto simp: bind_Some_iff split_beta)
  ultimately show ?case using Cons.IH good_trans by blast
qed simp

lemma good_check_retx: "check_retx k = Some k' \<Longrightarrow> good F k k'"
proof -
  assume "check_retx k = Some k'"
  then obtain k1 ab re k2 where k: "retx_sweep (map fst (filter (\<lambda>(_, s). retx_candidate s) (sockets (table k)))) k = Some (k1, ab, re)"
    "for_fds emit_handshake re k1 = Some k2" "for_fds abort_timed_out ab k2 = Some k'"
    by (auto simp: check_retx_def Let_def bind_Some_iff)
  have "good F k1 k2" by (rule for_fds_good [OF _ k(2)]) (auto simp: emit_handshake_def bind_Some_iff)
  moreover have "good F k2 k'" by (rule for_fds_good [OF _ k(3)]) (auto simp: abort_timed_out_def good_abort_with)
  ultimately show ?thesis using good_retx_sweep [OF k(1)] good_trans by blast
qed

lemma good_segment_loop: "segment_loop fd loc mss k = Some k' \<Longrightarrow> good F k k'"
proof (induction fd loc mss k k' rule: segment_loop.raw_induct [rotated, consumes 1, case_names step])
  case (step loop fd loc mss k k')
  obtain s t where s: "lookup k fd = Some s" "tcb s = Some t"
    using step(2) by (auto simp: bind_Some_iff)
  show ?case
  proof (cases "segment_next mss t")
    case None
    then show ?thesis using step(2) s by simp
  next
    case (Some r)
    obtain sq payload is_fin t1 where r: "r = (sq, payload, is_fin, t1)" by (cases r)
    have "tcb_state t1 = tcb_state t" using Some r by (auto simp: segment_next_def Let_def split: if_splits)
    then have "good F k (modify fd (\<lambda>s. s\<lparr>tcb := Some t1\<rparr>) k)"
      using s by (intro good_modify sock_ok_tcb [where t = t and t' = t1]) auto
    moreover have "good F (emit loc (tcb_peer t1) (data_segment loc (recv_buf_cap k) t1 sq payload is_fin)
        (modify fd (\<lambda>s. s\<lparr>tcb := Some t1\<rparr>) k)) k'"
      using step(2) s Some r by (intro step(1)) simp
    ultimately show ?thesis using good_trans good_frames(2) by blast
  qed
qed

lemma good_segment_all: "segment_all k = Some k' \<Longrightarrow> good F k k'"
  unfolding segment_all_def
  by (erule for_fds_good [rotated]) (auto simp: segment_one_def bind_Some_iff intro: good_segment_loop)

lemma good_route: "route_drained ps k out = Some (k', out') \<Longrightarrow> good F k k'"
  by (induction ps arbitrary: k out) (auto simp: bind_Some_iff split: if_splits intro: good_trans good_deliver)

lemma good_egress_loop: "egress_loop k out = Some (k', out') \<Longrightarrow> good F k k'"
proof (induction k out "(k', out')" rule: egress_loop.raw_induct [rotated, consumes 1, case_names step])
  case (step loop k out)
  obtain k1 where k1: "segment_all k = Some k1" using step(2) by (auto simp: bind_Some_iff)
  note g1 = good_segment_all [OF k1]
  show ?case
  proof (cases "outbound k1 = []")
    case True
    then show ?thesis using step(2) k1 g1 by simp
  next
    case False
    then obtain k2 out2 where k2: "route_drained (outbound k1) (k1\<lparr>outbound := []\<rparr>) out = Some (k2, out2)"
      "loop k2 out2 = Some (k', out')"
      using step(2) k1 by (auto simp: bind_Some_iff)
    have "good F k (k1\<lparr>outbound := []\<rparr>)" using g1 by simp
    then show ?thesis using good_route [OF k2(1)] step(1) [OF k2(2)] good_trans by blast
  qed
qed

text \<open>Reaping removes closed descriptors only.\<close>

lemma good_reap: "good F k (reap_closed k)"
proof -
  let ?vs = "map fst (filter (\<lambda>(_, s). reapable s) (sockets (table k)))"
  have fold: "good (set vs) k (fold (\<lambda>fd k. put_table (st_remove fd (table k)) k) vs k)" for vs k
  proof (induction vs arbitrary: k)
    case (Cons v vs)
    have "good (set (v # vs)) k (put_table (st_remove v (table k)) k)"
      using good_remove [of v "set vs"] by simp
    moreover have "good (set (v # vs)) k1 (fold (\<lambda>fd k. put_table (st_remove fd (table k)) k) vs k1)" for k1
      by (rule good_mono [OF Cons.IH]) auto
    ultimately show ?case using good_trans by simp
  qed simp
  have "\<not> owned k v s" if ok: "sockets_ok k" and v: "v \<in> set ?vs" for v s
  proof -
    obtain u where u: "(v, u) \<in> set (sockets (table k))" "fd_closed u" using v by (auto simp: reapable_def)
    then have "lookup k v = Some u" using ok by (simp add: sockets_ok_def lookup_def st_get_def)
    with u show ?thesis by (auto simp: owned_def)
  qed
  moreover have "good (set ?vs \<union> F) k (reap_closed k)"
    unfolding reap_closed_def Let_def by (rule good_mono [OF fold]) simp
  ultimately show ?thesis using good_minus by metis
qed

lemma good_egress [good_intros]: "kernel_egress k out = Some (k', out') \<Longrightarrow> good F k k'"
  by (auto simp: kernel_egress_def bind_Some_iff)
    (meson good_check_retx good_egress_loop good_reap good_trans)

section \<open>Calls\<close>

lemma good_put_table:
  "sockets t = sockets (table k) \<Longrightarrow> next_id t = next_id (table k) \<Longrightarrow> good F k (put_table t k)"
  by (rule good_frame) simp_all

lemma allocate_port_sockets:
  "allocate_port d ty t = Some (p, t') \<Longrightarrow> sockets t' = sockets t \<and> next_id t' = next_id t"
  by (auto simp: allocate_port_def bind_Some_iff)

lemma good_udp_auto_bind:
  assumes "udp_auto_bind k fd d ty dst = Some (r, k')"
  shows "good F k k'" "lookup k fd = Some s \<Longrightarrow> \<exists>s'. lookup k' fd = Some s' \<and> sk_ty s' = sk_ty s \<and> tcb s' = tcb s"
proof -
  have bound: "good F k (modify fd (\<lambda>s. s\<lparr>bound := Some key\<rparr>) (put_table (insert_binding key fd t) (put_table t k)))"
    if "sockets t = sockets (table k)" "next_id t = next_id (table k)" for t key
  proof -
    have "good F (put_table t k) (put_table (insert_binding key fd t) (put_table t k))" by (rule good_frame) simp_all
    moreover have "good F k1 (modify fd (\<lambda>s. s\<lparr>bound := Some key\<rparr>) k1)" for k1
      by (rule good_modify) (auto simp: sock_ok_def sock_keeps_def typed_def ready_of_def half_open_def)
    ultimately show ?thesis using good_put_table [OF that] good_trans by blast
  qed
  have look: "lookup (put_table t k) = lookup k" if "sockets t = sockets (table k)" for t
    using that by (simp add: lookup_eq fun_eq_iff st_get_def)
  show "good F k k'"
    using assms bound good_put_table
    by (auto simp: udp_auto_bind_def bind_Some_iff Let_def dest!: allocate_port_sockets split: option.splits)
  show "\<exists>s'. lookup k' fd = Some s' \<and> sk_ty s' = sk_ty s \<and> tcb s' = tcb s" if "lookup k fd = Some s"
    using assms that look
    by (auto simp: udp_auto_bind_def bind_Some_iff Let_def dest!: allocate_port_sockets split: option.splits)
qed

lemma good_connect_syn:
  assumes "connect_syn k fd w peer = Some (r, k')" "lookup k fd = Some s" "sk_ty s = Stream"
  shows "good F k k'"
proof -
  let ?f = "\<lambda>s. s\<lparr>tcb := Some (new_tcb SynSent peer (tcp_isn k) DEFAULT_WINDOW 0), sk_peer := Some (Addr_Inet peer)\<rparr>"
  obtain src t3 k4 sg n where k: "insert_connection src peer fd (table (modify fd ?f k)) = Some t3"
    "park_connect fd w (emit src peer sg ((put_table t3 (modify fd ?f k))\<lparr>tcp_isn := n\<rparr>)) = Some k'"
    using assms(1,2) by (auto simp: connect_syn_def Let_def bind_Some_iff initial_sequence_def)
  have "good F k (modify fd ?f k)"
    using assms(2,3) by (intro good_modify) (auto simp: sock_ok_def sock_keeps_def typed_def ready_of_def half_open_def new_tcb_def)
  moreover have "good F (modify fd ?f k) (put_table t3 (modify fd ?f k))"
    using k(1) by (intro good_put_table) (auto simp: insert_connection_def split: if_splits)
  ultimately have "good F k (put_table t3 (modify fd ?f k))" by (rule good_trans)
  then show ?thesis using good_park_connect [OF k(2)] good_trans good_frames(2,4) by blast
qed

lemma good_tcp_poll_connect:
  assumes c: "tcp_poll_connect k fd w d peer b = Some (r, k')" and s: "lookup k fd = Some s" "sk_ty s = Stream"
  shows "good F k k'"
proof (cases "tcb s")
  case (Some t)
  then show ?thesis
    using c s by (cases "tcb_state t") (auto simp: tcp_poll_connect_def bind_Some_iff intro: good_park_connect)
next
  case None
  have bind: "good F k k1 \<and> (\<exists>s'. lookup k1 fd = Some s' \<and> sk_ty s' = Stream)"
    if "(if b then Some (Ok (), k) else tcp_auto_bind k fd d (sa_ip peer)) = Some (q, k1)" for q k1
    using that s by (auto simp: tcp_auto_bind_eq bind_Some_iff split: if_splits
      dest: good_udp_auto_bind(1) good_udp_auto_bind(2) [OF _ s(1)])
  obtain q k1 where k1: "(if b then Some (Ok (), k) else tcp_auto_bind k fd d (sa_ip peer)) = Some (q, k1)"
    "(case q of Inl e \<Rightarrow> Some (Ready (Err e), k1) | Inr _ \<Rightarrow> connect_syn k1 fd w peer) = Some (r, k')"
    using c s None by (simp add: tcp_poll_connect_def bind_Some_iff split del: if_split) blast
  then show ?thesis
    using bind [OF k1(1)] good_connect_syn good_trans by (auto split: sum.splits)
qed

lemma good_poll_connect [good_intros]: "kernel_poll_connect k fd w a = Some (r, k') \<Longrightarrow> good F k k'"
proof -
  assume c: "kernel_poll_connect k fd w a = Some (r, k')"
  then obtain peer where a: "a = Addr_Inet peer" by (cases a) (auto simp: kernel_poll_connect_def)
  show ?thesis
  proof (cases "lookup k fd")
    case (Some s)
    have peer: "good F k1 (modify fd (\<lambda>s. s\<lparr>sk_peer := Some (Addr_Inet peer)\<rparr>) k1)" for k1
      by (rule good_modify) (auto simp: sock_ok_def sock_keeps_def typed_def ready_of_def half_open_def)
    have "good F k k1" if "(if bound s \<noteq> None then Some (Ok (), k) else do {
        (b, k1) \<leftarrow> udp_auto_bind k fd (sk_domain s) Dgram (sa_ip peer);
        Some (case b of Inl e \<Rightarrow> Err e | Inr _ \<Rightarrow> Ok (), k1) }) = Some (q, k1)" for q k1
      using that good_udp_auto_bind(1) by (auto simp: bind_Some_iff split: if_splits)
    then show ?thesis
      using c a Some good_tcp_poll_connect [of k fd w _ peer _ r k' s F] peer good_trans
      by (fastforce simp: kernel_poll_connect_def bind_Some_iff split: if_split_asm Type.splits sum.splits split del: if_split)
  qed (use c a in \<open>simp add: kernel_poll_connect_def\<close>)
qed

lemma good_bind [good_intros]: "kernel_bind k a ty = Some (r, k') \<Longrightarrow> good F k k'"
proof -
  assume b: "kernel_bind k a ty = Some (r, k')"
  then obtain sa where a: "a = Addr_Inet sa" by (cases a) (auto simp: kernel_bind_def)
  have port: "good F k k1" if "bind_port k d ty p = Some (q, k1)" for d p q k1
    using that by (auto simp: bind_port_def bind_Some_iff split: if_splits dest!: allocate_port_sockets intro!: good_put_table)
  have key: "good F k1 k2" if "bind_key_to k1 key = Some (q, k2)" for k1 k2 key q
  proof (cases "bind_conflict k1 key")
    case False
    let ?k = "snd (mk_socket (bk_domain key) (bk_ty key) k1)"
    let ?b = "put_table (insert_binding key (fst (mk_socket (bk_domain key) (bk_ty key) k1)) (table ?k)) ?k"
    have "k2 = modify (fst (mk_socket (bk_domain key) (bk_ty key) k1)) (\<lambda>s. s\<lparr>bound := Some key\<rparr>) ?b"
      using that False by (auto simp: bind_key_to_def Let_def bind_Some_iff split_beta)
    moreover have "good F k1 ?b" by (rule good_trans [OF good_mk_socket good_put_table]) simp_all
    moreover have "good F k3 (modify fd (\<lambda>s. s\<lparr>bound := Some key\<rparr>) k3)" for k3 fd
      by (rule good_modify) (auto simp: sock_ok_def sock_keeps_def typed_def ready_of_def half_open_def)
    ultimately show ?thesis by (metis good_trans)
  qed (use that in \<open>simp add: bind_key_to_def\<close>)
  show ?thesis
  proof (cases "\<not> is_unspecified (sa_ip sa) \<and> \<not> is_local k (sa_ip sa)")
    case True
    then show ?thesis using b a by (simp add: kernel_bind_def Let_def)
  next
    case False
    then obtain q k1 where q: "bind_port k (ip_domain (sa_ip sa)) ty (sa_port sa) = Some (q, k1)"
      using b a by (auto simp: kernel_bind_def Let_def bind_Some_iff split: if_splits)
    show ?thesis
    proof (cases q)
      case None
      then show ?thesis using b a False q port [OF q] by (auto simp: kernel_bind_def Let_def)
    next
      case (Some p)
      then have "bind_key_to k1 \<lparr>bk_domain = ip_domain (sa_ip sa), bk_ty = ty, local_addr = sa_ip sa, local_port = p\<rparr> = Some (r, k')"
        using b a False q by (auto simp: kernel_bind_def Let_def split: if_splits)
      then show ?thesis using port [OF q] key good_trans by blast
    qed
  qed
qed

lemma good_listen [good_intros]: "kernel_listen k fd n = Some (r, k') \<Longrightarrow> good F k k'"
  by (auto simp: kernel_listen_def sock_ok_def sock_keeps_def typed_def ready_of_def half_open_def ListenState_new_def
      intro!: good_modify split: option.splits if_splits)

lemma good_accept [good_intros]:
  assumes "kernel_poll_accept k fd w = Some (r, k')"
  shows "good F k k'"
proof (cases "lookup k fd")
  case (Some s)
  then obtain l where l: "listen s = Some l" using assms by (auto simp: kernel_poll_accept_def bind_Some_iff)
  have "good F k (modify fd (\<lambda>s. s\<lparr>listen := Some l'\<rparr>) k)" if "set (ready l') \<subseteq> set (ready l)" for l'
    using that Some l
    by (intro good_modify) (auto simp: sock_ok_def sock_keeps_def typed_def ready_of_def half_open_def)
  then show ?thesis
    using assms Some l
    by (cases "ready l") (auto simp: kernel_poll_accept_def bind_Some_iff Let_def subset_insertI)
qed (use assms in \<open>simp add: kernel_poll_accept_def\<close>)

lemma good_set_option [good_intros]: "set_option k fd opt = Some (r, k') \<Longrightarrow> good F k k'"
  by (auto simp: set_option_def intro!: good_modify sock_ok_same split: option.splits SocketOption.splits)

lemma udp_recv_same:
  "udp_recv_from s w n = (r, s') \<Longrightarrow> sock_ok F s s'" "udp_peek_from s w n = (r, s') \<Longrightarrow> sock_ok F s s'"
  "udp_recv s w n = (q, s') \<Longrightarrow> sock_ok F s s'"
  by (auto simp: udp_recv_def udp_recv_from_def udp_peek_from_def register_read_waker_def Let_def
      intro!: sock_ok_same split: list.splits prod.splits Poll.splits sum.splits)

lemma good_udp_send_to:
  assumes "udp_send_to k fd buf dst = Some (r, k')"
  shows "good F k k'"
proof -
  obtain s where s: "lookup k fd = Some s" using assms by (auto simp: udp_send_to_def bind_Some_iff)
  have src: "good F k k1"
    if "(case bound s of Some bk \<Rightarrow> Some (Ok bk, k) | None \<Rightarrow> udp_auto_bind k fd (sk_domain s) Dgram (sa_ip dst)) = Some (q, k1)" for q k1
    using that by (auto split: option.splits dest: good_udp_auto_bind(1))
  show ?thesis
  proof (cases "case bound s of Some bk \<Rightarrow> Some (Ok bk, k) | None \<Rightarrow> udp_auto_bind k fd (sk_domain s) Dgram (sa_ip dst)")
    case None
    then show ?thesis using assms s by (simp add: udp_send_to_def split: if_split_asm)
  next
    case (Some p)
    then obtain q k1 where "p = (q, k1)" "good F k k1" using src by (cases p) auto
    then show ?thesis using assms s Some by (cases q) (auto simp: udp_send_to_def split: if_split_asm)
  qed
qed

lemma good_dgram [good_intros]:
  "kernel_poll_send_to k fd buf a = Some (r, k') \<Longrightarrow> good F k k'"
  "kernel_poll_recv_from k fd w n = Some (q, k') \<Longrightarrow> good F k k'"
  "kernel_poll_peek_from k fd w n = Some (q, k') \<Longrightarrow> good F k k'"
  by (auto simp: kernel_poll_send_to_def kernel_poll_recv_from_def kernel_poll_peek_from_def udp_recv_same
      intro!: good_modify intro: good_udp_send_to split: Addr.splits option.splits if_splits prod.splits)

lemma good_tcp_recv: "tcp_poll_recv_vectored k fd cx bufs = Some (r, b, k') \<Longrightarrow> good F k k'"
proof -
  have "good F k (modify fd (\<lambda>s. s\<lparr>tcb := Some (t\<lparr>recv_buf := x\<rparr>)\<rparr>) k)"
    if "lookup k fd = Some s" "tcb s = Some t" for s t x
    using that by (auto intro!: good_modify sock_ok_tcb)
  moreover have "good F k (modify fd (register_read_waker w) k)" for w
    by (auto simp: register_read_waker_def intro!: good_modify sock_ok_same)
  ultimately show "tcp_poll_recv_vectored k fd cx bufs = Some (r, b, k') \<Longrightarrow> good F k k'"
    by (auto simp: tcp_poll_recv_vectored_def bind_Some_iff Let_def split_beta split: option.splits if_splits)
qed

lemma good_stream [good_intros]:
  "kernel_poll_recv k fd w buf = Some (r, b, k') \<Longrightarrow> good F k k'"
  "kernel_poll_peek k fd w buf = Some (r, b, k') \<Longrightarrow> good F k k'"
  "kernel_try_recv_vectored k fd bufs = Some (q, bs, k') \<Longrightarrow> good F k k'"
proof -
  have dgram: "good F k (modify fd (\<lambda>_. s') k)" if "lookup k fd = Some s" "sock_ok F s s'" for s s'
    using that by (intro good_modify) simp
  have peek: "tcp_poll_peek k fd w buf = (r, b, k') \<Longrightarrow> good F k k'" for r b
    by (auto simp: tcp_poll_peek_def Let_def register_read_waker_def intro!: good_modify sock_ok_same
        split: option.splits if_splits)
  show "kernel_poll_recv k fd w buf = Some (r, b, k') \<Longrightarrow> good F k k'"
    using udp_recv_same(3) good_tcp_recv dgram
    by (auto simp: kernel_poll_recv_def Let_def tcp_poll_recv_def bind_Some_iff
        split: option.splits Type.splits prod.splits Poll.splits sum.splits)
  show "kernel_poll_peek k fd w buf = Some (r, b, k') \<Longrightarrow> good F k k'"
    using udp_recv_same(2) dgram peek
    by (auto simp: kernel_poll_peek_def Let_def split: option.splits Type.splits prod.splits Poll.splits sum.splits)
  show "kernel_try_recv_vectored k fd bufs = Some (q, bs, k') \<Longrightarrow> good F k k'"
    using good_tcp_recv by (auto simp: kernel_try_recv_vectored_def bind_Some_iff split: option.splits if_splits)
qed

lemma good_send [good_intros]: "kernel_poll_send k fd w buf = Some (r, k') \<Longrightarrow> good F k k'"
proof -
  have "good F k (modify fd (\<lambda>s. s\<lparr>tcb := Some (t\<lparr>send_buf := x\<rparr>)\<rparr>) k)"
    if "lookup k fd = Some s" "tcb s = Some t" for s t x
    using that by (auto intro!: good_modify sock_ok_tcb)
  moreover have "good F k (modify fd (register_write_waker w) k)" for w
    by (auto simp: register_write_waker_def intro!: good_modify sock_ok_same)
  ultimately have "tcp_poll_send k fd w buf = (r, k') \<Longrightarrow> good F k k'"
    by (auto simp: tcp_poll_send_def Let_def split: option.splits if_splits)
  then show "kernel_poll_send k fd w buf = Some (r, k') \<Longrightarrow> good F k k'"
    using good_udp_send_to by (auto simp: kernel_poll_send_def split: option.splits Type.splits Addr.splits)
qed

lemma queue_fin_state: "tcb_state (queue_fin t) = SynReceived \<longleftrightarrow> tcb_state t = SynReceived"
  by (auto simp: queue_fin_def shutdown_state_def split: TcpState.splits)

lemma good_shutdown [good_intros]: "kernel_poll_shutdown_write k fd = Some (r, k') \<Longrightarrow> good F k k'"
  by (auto simp: kernel_poll_shutdown_write_def tcp_poll_shutdown_write_def queue_fin_state
      intro!: good_modify sock_ok_tcb split: option.splits if_splits)

section \<open>Close\<close>

lemma good_reset_children: "reset_children cs k = Some k' \<Longrightarrow> good (set cs \<union> F) k k'"
proof (induction cs arbitrary: k)
  case (Cons c cs)
  let ?G = "set (c # cs) \<union> F"
  have step: "good ?G k k'" if "reset_children cs (put_table (st_remove c (table k)) k1) = Some k'" "table k1 = table k" for k1
  proof -
    have "good ?G k k1" by (rule good_frame) (simp_all add: that(2))
    moreover have "good ?G k1 (put_table (st_remove c (table k)) k1)"
      using good_remove [of c "set cs \<union> F" k1] that(2) by simp
    moreover have "good ?G (put_table (st_remove c (table k)) k1) k'"
      by (rule good_mono [OF Cons.IH [OF that(1)]]) auto
    ultimately show ?thesis using good_trans by blast
  qed
  have skip: "good ?G k k'" if "reset_children cs k = Some k'"
    by (rule good_mono [OF Cons.IH [OF that]]) auto
  show ?case
    using Cons.prems by (auto simp: bind_Some_iff Let_def split: option.splits intro: step skip simp del: set_simps)
qed simp

text \<open>Closing a listener resets only connections that nobody has accepted.\<close>

lemma unaccepted_unowned:
  assumes "sockets_ok k" "c \<in> set (unaccepted_children k fd loc)"
  shows "\<not> owned k c s"
proof
  assume o: "owned k c s"
  then have "\<not> (\<exists>st. lookup k fd = Some st \<and> c \<in> set (ready_of st))" by (auto simp: owned_def held_def)
  then obtain st where st: "(c, st) \<in> set (sockets (table k))" "half_open_on loc st"
    using assms(2) by (cases "lookup k fd") (auto simp: unaccepted_children_def ready_of_def Let_def split: option.splits)
  then have "lookup k c = Some st" using assms(1) by (simp add: sockets_ok_def lookup_def st_get_def)
  with o st(2) show False by (auto simp: owned_def half_open_on_def half_open_def split: option.splits)
qed

lemma good_linger: "good {fd} k (modify fd (\<lambda>s. s\<lparr>fd_closed := True, tcb := Some t'\<rparr>) k)"
  if "lookup k fd = Some s" "tcb s = Some t"
proof -
  let ?k = "modify fd (\<lambda>s. s\<lparr>fd_closed := True, tcb := Some t'\<rparr>) k"
  have "held ?k a" if "held k a" for a using that by (auto simp: held_def ready_of_def)
  moreover have "sockets_ok ?k" if "sockets_ok k"
    using that \<open>lookup k fd = Some s\<close> \<open>tcb s = Some t\<close> by (auto simp: sockets_ok_def typed_def)
  ultimately show ?thesis by (auto simp: good_def keeps_def owned_def)
qed

lemma good_close_listener: "reset_children (unaccepted_children k fd loc) k = Some k' \<Longrightarrow> good {fd} k k'"
  by (rule good_minus [OF good_reset_children unaccepted_unowned])

lemma good_close: "kernel_close k fd = Some k' \<Longrightarrow> good {fd} k k'"
proof -
  assume c: "kernel_close k fd = Some k'"
  then obtain reap k1 where k1: "on_close fd k = Some (reap, k1)"
    "k' = (if reap then put_table (st_remove fd (table k1)) k1 else k1)"
    by (auto simp: kernel_close_def bind_Some_iff)
  have rm: "good {fd} k2 (put_table (st_remove fd (table k2)) k2)" for k2 using good_remove [of fd "{}"] by simp
  have "good {fd} k k1"
  proof (cases "lookup k fd")
    case (Some s)
    then obtain a where a: "close_action s = Some a" using k1(1) by (auto simp: on_close_def bind_Some_iff)
    show ?thesis
      using k1(1) Some a by (cases a) (auto simp: on_close_def bind_Some_iff intro: good_linger good_close_listener)
  qed (use k1(1) in \<open>simp add: on_close_def\<close>)
  then show ?thesis using k1(2) rm good_trans by auto
qed

end
