(* ===== verification/Shim_Calls.thy ===== *)
theory Shim_Calls
  imports Shim_Halves Kernel_Keeps Kernel_Props
begin

text \<open>
  Every call the shim makes on a socket it owns returns, keeps the invariants of the kernel and
  leaves the sockets of everybody else alone: on one kernel first, then on the network, where a
  call runs on the kernel of the current host.
\<close>

section \<open>Calls on owned sockets\<close>

datatype SockKind = Datagram | Listening | Connected

fun kind_ok :: "SockKind \<Rightarrow> Socket \<Rightarrow> bool" where
  "kind_ok Datagram s = (sk_ty s = Dgram)"
| "kind_ok Listening s = (listen s \<noteq> None)"
| "kind_ok Connected s = (tcb s \<noteq> None)"

lemma kind_keeps: "sock_keeps s s' \<Longrightarrow> kind_ok q s \<Longrightarrow> kind_ok q s'"
  by (cases q) (auto simp: sock_keeps_def)

definition sound :: "Fd set \<Rightarrow> Kernel \<Rightarrow> ('a \<times> Kernel) option \<Rightarrow> bool" where
  "sound F k m \<longleftrightarrow> returns m (\<lambda>(x, k'). kernel_inv k' \<and> good F k k')"

lemma soundI:
  assumes "returns m (\<lambda>(x, k'). kinv {} k')" "\<And>x k'. m = Some (x, k') \<Longrightarrow> good F k k'"
  shows "sound F k m"
  using assms by (auto simp: sound_def returns_def kernel_inv_def)

lemma sound_triple:
  assumes "returns m (\<lambda>(x, b, k'). kinv {} k')" "\<And>x b k'. m = Some (x, b, k') \<Longrightarrow> good F k k'"
  shows "sound F k (do { (r, b, k1) \<leftarrow> m; Some ((r, b), k1) })"
  using assms by (auto simp: sound_def returns_def kernel_inv_def)

lemma sound_read: "kernel_inv k \<Longrightarrow> sound F k (Some (x, k))"
  by (simp add: sound_def)

lemma owned_typed: "sockets_ok k \<Longrightarrow> owned k fd s \<Longrightarrow> typed s"
  by (auto simp: owned_def sockets_ok_def)

text \<open>What the calls of each kind of socket need.\<close>

lemma sound_dgram:
  assumes k: "kernel_inv k" "sockets_ok k" and s: "owned k fd s" "sk_ty s = Dgram"
  shows "sound F k (kernel_poll_connect k fd w (Addr_Inet peer))"
    "sound F k (kernel_poll_send_to k fd buf (Addr_Inet peer))"
    "sound F k (kernel_poll_recv_from k fd w n)" "sound F k (kernel_poll_peek_from k fd w n)"
proof -
  have inv: "kinv {} k" and fd: "lookup k fd = Some s" using k s by (auto simp: kernel_inv_def owned_def)
  show "sound F k (kernel_poll_connect k fd w (Addr_Inet peer))"
    using kernel_poll_connect_safe [OF inv, of fd w "Addr_Inet peer"] fd s(2)
    by (intro soundI good_poll_connect) (auto simp: on_fd_def)
  have d: "on_fd k fd (\<lambda>s. sk_ty s = Dgram)" using fd s(2) by (simp add: on_fd_def)
  show "sound F k (kernel_poll_send_to k fd buf (Addr_Inet peer))"
    "sound F k (kernel_poll_recv_from k fd w n)" "sound F k (kernel_poll_peek_from k fd w n)"
    by (rule soundI [OF dgram_calls_safe(3) [OF inv d]] soundI [OF dgram_calls_safe(1) [OF inv d]]
        soundI [OF dgram_calls_safe(2) [OF inv d]], erule good_dgram)+
qed

lemma sound_any:
  assumes k: "kernel_inv k" "sockets_ok k" and s: "owned k fd s" "sk_ty s \<noteq> SeqPacket"
  shows "sound F k (kernel_poll_send k fd w buf)"
    "sound F k (do { (r, b, k1) \<leftarrow> kernel_poll_recv k fd w buf; Some ((r, b), k1) })"
    "sound F k (do { (r, b, k1) \<leftarrow> kernel_poll_peek k fd w buf; Some ((r, b), k1) })"
    "sound F k (do { (r, b, k1) \<leftarrow> kernel_try_recv_vectored k fd bufs; Some ((r, b), k1) })"
proof -
  have inv: "kinv {} k" and fd: "lookup k fd = Some s" using k s by (auto simp: kernel_inv_def owned_def)
  have on: "on_fd k fd (\<lambda>s. sk_ty s \<noteq> SeqPacket)" using fd s(2) by (simp add: on_fd_def)
  have "admissible_call k (Call_send fd w buf)"
    using fd s(2) owned_typed [OF k(2) s(1)] by (simp add: on_fd_def typed_def)
  then show "sound F k (kernel_poll_send k fd w buf)"
    by (intro soundI kernel_poll_send_safe [OF inv] good_send)
  show "sound F k (do { (r, b, k1) \<leftarrow> kernel_poll_recv k fd w buf; Some ((r, b), k1) })"
    "sound F k (do { (r, b, k1) \<leftarrow> kernel_poll_peek k fd w buf; Some ((r, b), k1) })"
    "sound F k (do { (r, b, k1) \<leftarrow> kernel_try_recv_vectored k fd bufs; Some ((r, b), k1) })"
    by (rule sound_triple [OF kernel_poll_recv_safe(1) [OF inv on]] sound_triple [OF kernel_poll_recv_safe(2) [OF inv on]]
        sound_triple [OF kernel_try_recv_vectored_safe [OF inv]], erule good_stream)+
qed

lemma sound_option:
  assumes "kernel_inv k" "opt = Broadcast b \<or> opt = IpTtl v \<or> opt = TcpNoDelay b"
  shows "sound F k (set_option k fd opt)"
  using assms by (intro soundI set_option_safe good_set_option) (auto simp: kernel_inv_def)

lemma sound_shutdown:
  assumes "kernel_inv k" "owned k fd s" "sk_ty s = Stream"
  shows "sound F k (kernel_poll_shutdown_write k fd)"
  using assms by (intro soundI kernel_shutdown_safe good_shutdown) (auto simp: kernel_inv_def owned_def on_fd_def)

lemma sound_close:
  assumes "kernel_inv k" "owned k fd s"
  shows "sound {fd} k (do { k1 \<leftarrow> kernel_close k fd; Some ((), k1) })"
  using kernel_close_safe [of k fd] assms good_close [of k fd]
  by (auto simp: sound_def returns_def kernel_inv_def owned_def)

section \<open>New sockets\<close>

lemma fresh_held:
  assumes "kinv {} k" "lookup k fd = None"
  shows "held k fd"
  using kinv_socket(4) [OF assms(1)] assms(2) by (fastforce simp: held_def acceptable_def)

lemma new_owned:
  assumes inv: "kinv {} k" and look: "lookup k' = (lookup k)(next_id (table k) \<mapsto> s)"
    and s: "ready_of s = []" "\<not> fd_closed s" "\<not> half_open s"
  shows "owned k' (next_id (table k)) s" "\<not> owned k (next_id (table k)) u"
proof -
  have none: "lookup k (next_id (table k)) = None" using inv by (rule fresh_fd)
  then show "\<not> owned k (next_id (table k)) u" by (simp add: owned_def)
  have "held k (next_id (table k))" using inv none by (rule fresh_held)
  then have "held k' (next_id (table k))" using s(1) by (auto simp: held_def look)
  then show "owned k' (next_id (table k)) s" using s look by (simp add: owned_def)
qed

lemma open_owned:
  assumes "kernel_inv k" "kernel_open k d ty = (fd, k')"
  shows "owned k' fd (Socket_new d ty)" "\<not> owned k fd u" "sound F k (Some (fd, k'))"
proof -
  have inv: "kinv {} k" using assms(1) by (simp add: kernel_inv_def)
  note mk = kinv_mk_socket [OF inv, of d ty]
  have eq: "fd = next_id (table k)" "k' = snd (mk_socket d ty k)"
    using assms(2) mk(3) by (auto simp: kernel_open_def)
  have new: "ready_of (Socket_new d ty) = []" "\<not> fd_closed (Socket_new d ty)" "\<not> half_open (Socket_new d ty)"
    by (simp_all add: Socket_new_def ready_of_def half_open_def)
  show "owned k' fd (Socket_new d ty)" "\<not> owned k fd u"
    using new_owned [OF inv mk(2) new] by (simp_all add: eq)
  show "sound F k (Some (fd, k'))"
    using mk(1) good_mk_socket by (simp add: sound_def eq kernel_inv_def)
qed

lemma bind_owned:
  assumes k: "kernel_inv k" and b: "kernel_bind k (Addr_Inet sa) ty = Some (Inr fd, k')"
  shows "\<exists>s. owned k' fd s \<and> sk_ty s = ty \<and> bound s \<noteq> None" "\<not> owned k fd u"
proof -
  have inv: "kinv {} k" using k by (simp add: kernel_inv_def)
  obtain p k1 where p: "bind_port k (ip_domain (sa_ip sa)) ty (sa_port sa) = Some (Some p, k1)"
    and key: "bind_key_to k1 \<lparr>bk_domain = ip_domain (sa_ip sa), bk_ty = ty, local_addr = sa_ip sa, local_port = p\<rparr> = Some (Inr fd, k')"
      (is "bind_key_to k1 ?key = _")
    using b by (auto simp: kernel_bind_def Let_def bind_Some_iff split: if_splits option.splits)
  have k1: "kinv {} k1" using bind_port_safe [OF inv, of "ip_domain (sa_ip sa)" ty "sa_port sa"] p by (simp add: returns_def)
  have look: "lookup k1 = lookup k" "next_id (table k1) = next_id (table k)"
    using p allocate_port_sockets by (auto simp: bind_port_def bind_Some_iff lookup_eq fun_eq_iff st_get_def split: if_splits dest!: allocate_port_sockets)
  have nc: "\<not> bind_conflict k1 ?key" using key by (auto simp: bind_key_to_def)
  let ?s = "(Socket_new (bk_domain ?key) (bk_ty ?key))\<lparr>bound := Some ?key\<rparr>"
  obtain k2 where k2: "bind_key_to k1 ?key = Some (Inr (next_id (table k1)), k2)" "lookup k2 = (lookup k1)(next_id (table k1) \<mapsto> ?s)"
    using bind_key_to_result [OF k1 nc] by metis
  then have eq: "fd = next_id (table k1)" "k' = k2" using key by auto
  have "ready_of ?s = []" "\<not> fd_closed ?s" "\<not> half_open ?s" by (simp_all add: Socket_new_def ready_of_def half_open_def)
  note new = new_owned [OF k1 k2(2) this]
  show "\<exists>s. owned k' fd s \<and> sk_ty s = ty \<and> bound s \<noteq> None" using new(1) eq by (force simp: Socket_new_def)
  show "\<not> owned k fd u" using fresh_fd [OF k1] eq look by (simp add: owned_def)
qed

text \<open>An accepted connection leaves the accept queue, which was the only one to hold it.\<close>

lemma accept_owned:
  assumes k: "kernel_inv k" and s: "owned k fd s" and a: "kernel_poll_accept k fd w = Some (Ready (Inr (c, peer)), k')"
  shows "\<exists>u. owned k' c u \<and> tcb u \<noteq> None" "\<not> owned k c v"
proof -
  have inv: "kinv {} k" and fd: "lookup k fd = Some s" using k s by (auto simp: kernel_inv_def owned_def)
  obtain l where li: "listen s = Some l" using a fd by (auto simp: kernel_poll_accept_def bind_Some_iff)
  obtain rest where l: "listen s = Some l" "ready l = c # rest"
    and k': "k' = modify fd (\<lambda>s. s\<lparr>listen := Some (l\<lparr>ready := rest\<rparr>)\<rparr>) k"
    using a fd li by (cases "ready l") (auto simp: kernel_poll_accept_def bind_Some_iff Let_def)
  have ready: "ready_of s = c # rest" using l by (simp add: ready_of_def)
  then have nh: "\<not> held k c" using fd unfolding held_def by (metis list.set_intros(1))
  then show "\<not> owned k c v" by (simp add: owned_def)
  have "held k fd" using s by (simp add: owned_def)
  then have c: "c \<noteq> fd" using nh by auto
  obtain u t where u: "lookup k c = Some u" "tcb u = Some t" "tcb_state t \<noteq> SynReceived" "\<not> fd_closed u"
    using kinv_socket(4) [OF inv fd, of c] ready by (auto simp: acceptable_def)
  have "c \<notin> set (ready_of x)" if "lookup k b = Some x" "b \<noteq> fd" for b x
    using inv fd that ready unfolding kinv_def sockets_inv_def lookup_eq by (metis disjoint_iff list.set_intros(1))
  moreover have "c \<notin> set rest" using kinv_socket(3) [OF inv fd] ready by simp
  ultimately have "held k' c" by (auto simp: held_def k' ready_of_def split: if_splits)
  then show "\<exists>u. owned k' c u \<and> tcb u \<noteq> None" using u c by (auto simp: owned_def k' half_open_def)
qed

lemma connect_syn_tcb:
  assumes "connect_syn k fd w peer = Some (r, k')"
  shows "\<exists>s. lookup k' fd = Some s \<and> tcb s \<noteq> None"
proof -
  have look: "st_get t' = st_get t" if "insert_connection a b fd t = Some t'" for a b t t'
    using that by (auto simp: insert_connection_def st_get_def fun_eq_iff split: if_splits)
  show ?thesis
    using assms by (auto simp: connect_syn_def Let_def bind_Some_iff initial_sequence_def park_connect_def lookup_eq dest!: look)
qed

text \<open>A connect that does not fail leaves a socket with a control block.\<close>

lemma connect_tcb:
  assumes s: "lookup k fd = Some s" "sk_ty s = Stream"
    and c: "kernel_poll_connect k fd w (Addr_Inet peer) = Some (r, k')" and r: "\<And>e. r \<noteq> Ready (Inl e)"
  shows "\<exists>s'. lookup k' fd = Some s' \<and> tcb s' \<noteq> None"
proof -
  have tcp: "tcp_poll_connect k fd w (sk_domain s) peer (bound s \<noteq> None) = Some (r, k')"
    using c s r by (auto simp: kernel_poll_connect_def split: if_splits)
  show ?thesis
  proof (cases "tcb s")
    case (Some t)
    then show ?thesis
      using tcp s r by (cases "tcb_state t") (auto simp: tcp_poll_connect_def park_connect_def)
  next
    case None
    obtain q k1 where q: "(if bound s \<noteq> None then Some (Ok (), k) else tcp_auto_bind k fd (sk_domain s) (sa_ip peer)) = Some (q, k1)"
      "(case q of Inl e \<Rightarrow> Some (Ready (Err e), k1) | Inr _ \<Rightarrow> connect_syn k1 fd w peer) = Some (r, k')"
      using tcp s None by (simp add: tcp_poll_connect_def bind_Some_iff split del: if_split) blast
    then show ?thesis using r connect_syn_tcb by (cases q) auto
  qed
qed

lemma sound_connect:
  assumes k: "kernel_inv k" and s: "owned k fd s" "sk_ty s = Stream" "tcb s \<noteq> None \<or> bound s = None"
  shows "sound F k (kernel_poll_connect k fd w (Addr_Inet peer))"
  using kernel_poll_connect_safe [of k fd w "Addr_Inet peer"] k s
  by (intro soundI good_poll_connect) (auto simp: kernel_inv_def owned_def on_fd_def)

lemma sound_accept:
  assumes "kernel_inv k" "owned k fd s" "listen s \<noteq> None"
  shows "sound F k (kernel_poll_accept k fd w)"
  using assms by (intro soundI kernel_poll_accept_safe good_accept) (auto simp: kernel_inv_def owned_def)

section \<open>Calls on the network\<close>

definition net_ok :: "'r Net \<Rightarrow> bool" where
  "net_ok n \<longleftrightarrow> net_inv n \<and> (\<forall>hid k. kernel_of (net_fabric n) hid = Some k \<longrightarrow> sockets_ok k)"

definition owns :: "'r Net \<Rightarrow> HostId \<Rightarrow> Fd \<Rightarrow> SockKind \<Rightarrow> bool" where
  "owns n hid fd q \<longleftrightarrow> (\<exists>k s. kernel_of (net_fabric n) hid = Some k \<and> owned k fd s \<and> kind_ok q s)"

text \<open>The sockets outside \<open>F\<close> stay what they are, and no host disappears.\<close>

definition net_keeps :: "(HostId \<times> Fd) set \<Rightarrow> 'r Net \<Rightarrow> 'r Net \<Rightarrow> bool" where
  "net_keeps F n n' \<longleftrightarrow> net_ok n' \<and> (\<forall>hid fd q. (hid, fd) \<notin> F \<longrightarrow> owns n hid fd q \<longrightarrow> owns n' hid fd q) \<and>
     (\<forall>hid. kernel_of (net_fabric n) hid \<noteq> None \<longrightarrow> kernel_of (net_fabric n') hid \<noteq> None)"

lemma net_keeps_refl: "net_ok n \<Longrightarrow> net_keeps F n n"
  by (simp add: net_keeps_def)

lemma net_keeps_trans: "net_keeps F a b \<Longrightarrow> net_keeps F b c \<Longrightarrow> net_keeps F a c"
  unfolding net_keeps_def by blast

lemma net_keeps_mono: "net_keeps F a b \<Longrightarrow> F \<subseteq> G \<Longrightarrow> net_keeps G a b"
  unfolding net_keeps_def by blast

lemma owns_good:
  "good F k k' \<Longrightarrow> sockets_ok k \<Longrightarrow> owned k fd s \<Longrightarrow> fd \<notin> F \<Longrightarrow> kind_ok q s \<Longrightarrow> \<exists>s'. owned k' fd s' \<and> kind_ok q s'"
  unfolding good_def keeps_def using kind_keeps by blast

text \<open>A network whose kernels have moved on by good steps.\<close>

lemma kernels_keep:
  assumes ok: "net_ok n" and inv: "net_inv n'"
    and step: "\<And>hid k. kernel_of (net_fabric n) hid = Some k \<Longrightarrow>
      \<exists>k'. kernel_of (net_fabric n') hid = Some k' \<and> good {fd. (hid, fd) \<in> F} k k'"
    and dom: "\<And>hid k'. kernel_of (net_fabric n') hid = Some k' \<Longrightarrow> kernel_of (net_fabric n) hid \<noteq> None \<or> sockets_ok k'"
  shows "net_keeps F n n'"
proof -
  have "sockets_ok k'" if "kernel_of (net_fabric n') hid = Some k'" for hid k'
  proof (cases "kernel_of (net_fabric n) hid")
    case (Some k)
    then show ?thesis using step [OF Some] ok that by (auto simp: net_ok_def good_def)
  qed (use dom [OF that] in auto)
  moreover have "owns n' hid fd q" if "(hid, fd) \<notin> F" "owns n hid fd q" for hid fd q
  proof -
    obtain k s where k: "kernel_of (net_fabric n) hid = Some k" "owned k fd s" "kind_ok q s"
      using \<open>owns n hid fd q\<close> by (auto simp: owns_def)
    obtain k' where k': "kernel_of (net_fabric n') hid = Some k'" "good {fd. (hid, fd) \<in> F} k k'" using step [OF k(1)] by blast
    have "sockets_ok k" using ok k(1) by (simp add: net_ok_def)
    then show ?thesis using owns_good [OF k'(2) _ k(2) _ k(3)] k'(1) \<open>(hid, fd) \<notin> F\<close> by (auto simp: owns_def)
  qed
  ultimately show ?thesis using inv step by (fastforce simp: net_keeps_def net_ok_def)
qed

lemma sys_sound:
  assumes ok: "net_ok n" and cur: "net_current n = Some hid" and k: "kernel_of (net_fabric n) hid = Some k"
    and g: "sound F k (g k)"
  shows "returns (sys g n) (\<lambda>(x, n'). net_keeps ({hid} \<times> F) n n' \<and> net_current n' = Some hid \<and>
    (\<exists>k'. g k = Some (x, k') \<and> kernel_of (net_fabric n') hid = Some k'))"
proof -
  obtain x k' where x: "g k = Some (x, k')" "kernel_inv k'" "good F k k'" using g by (auto simp: sound_def returns_def)
  let ?n = "n\<lparr>net_fabric := put_kernel hid k' (net_fabric n)\<rparr>"
  have get: "kernel_of (put_kernel hid k' (net_fabric n)) h = (if h = hid then Some k' else kernel_of (net_fabric n) h)" for h
    using k by (auto simp: kernel_of_def put_kernel_def imap_simps)
  have "net_keeps ({hid} \<times> F) n ?n"
  proof (rule kernels_keep [OF ok])
    show "net_inv ?n" using ok fabric_inv_put [of "net_fabric n" k' hid] x(2) by (simp add: net_ok_def net_inv_def)
    show "\<exists>k''. kernel_of (net_fabric ?n) h = Some k'' \<and> good {fd. (h, fd) \<in> {hid} \<times> F} k0 k''"
      if "kernel_of (net_fabric n) h = Some k0" for h k0
      using that k x(3) by (cases "h = hid") (auto simp: get)
  qed (use k get in \<open>auto split: if_splits\<close>)
  then show ?thesis using cur k x(1) get by (simp add: sys_def returns_def)
qed

section \<open>Ticks and hosts\<close>

definition kernels_move :: "Fabric \<Rightarrow> Fabric \<Rightarrow> bool" where
  "kernels_move f f' \<longleftrightarrow> (\<forall>hid. rel_option (good {}) (kernel_of f hid) (kernel_of f' hid))"

lemma kernels_move_refl [simp]: "kernels_move f f"
  by (simp add: kernels_move_def option.rel_refl)

lemma kernels_move_trans: "kernels_move a b \<Longrightarrow> kernels_move b c \<Longrightarrow> kernels_move a c"
  unfolding kernels_move_def by (smt (verit) good_trans option.rel_cases option.rel_inject(2) option.rel_distinct)

lemma move_deliver: "fabric_deliver f pkt = Some f' \<Longrightarrow> kernels_move f f'"
  by (auto simp: fabric_deliver_def bind_Some_iff kernels_move_def kernel_of_def put_kernel_def imap_simps
      option.rel_refl good_deliver split: option.splits)

lemma move_egress_hosts:
  "egress_hosts hs out = Some (hs', out') \<Longrightarrow>
     rel_option (good {}) (map_option host_kernel (imap_get hs hid)) (map_option host_kernel (imap_get hs' hid))"
  by (induction hs arbitrary: out hs') (auto simp: bind_Some_iff good_egress)

lemma move_egress: "fabric_egress_all f out = Some (f', out') \<Longrightarrow> kernels_move f f'"
  by (auto simp: fabric_egress_all_def bind_Some_iff kernels_move_def kernel_of_def move_egress_hosts)

lemma move_guard_deliver: "guard_deliver p n = Some n' \<Longrightarrow> kernels_move (net_fabric n) (net_fabric n')"
  by (auto simp: bind_Some_iff guard_deliver_def dest!: move_deliver)

lemma move_deliver_all: "deliver_all ps n = Some n' \<Longrightarrow> kernels_move (net_fabric n) (net_fabric n')"
proof (induction ps arbitrary: n)
  case (Cons p ps)
  then obtain n1 where "guard_deliver p n = Some n1" "deliver_all ps n1 = Some n'" by (auto simp: bind_Some_iff)
  then show ?case using Cons.IH move_guard_deliver kernels_move_trans by blast
qed simp

lemma evaluate_fabric: "net_evaluate on_packet p n = (v, n') \<Longrightarrow> net_fabric n' = net_fabric n"
  by (auto simp: net_evaluate_def Let_def split_beta)

lemma move_route_all:
  "route_all on_packet ps s n = Some (s', n') \<Longrightarrow> kernels_move (net_fabric n) (net_fabric n')"
proof (induction ps arbitrary: s n)
  case (Cons p ps)
  obtain v n1 where v: "net_evaluate on_packet p n = (v, n1)" by (cases "net_evaluate on_packet p n")
  note fab = evaluate_fabric [OF v]
  have now: "kernels_move (net_fabric n) (net_fabric n')"
    if r: "do { n2 \<leftarrow> guard_deliver p n1; route_all on_packet ps s n2 } = Some (s', n')"
  proof -
    obtain n2 where "guard_deliver p n1 = Some n2" "route_all on_packet ps s n2 = Some (s', n')"
      using r by (auto simp: bind_Some_iff)
    then show ?thesis using Cons.IH move_guard_deliver kernels_move_trans fab by metis
  qed
  have skip: "kernels_move (net_fabric n) (net_fabric n')" if "route_all on_packet ps s1 n1 = Some (s', n')" for s1
    using Cons.IH [OF that] fab by simp
  show ?case
  proof (cases v)
    case (Deliver d)
    then show ?thesis using Cons.prems v now skip by (simp split: if_split_asm)
  qed (use Cons.prems v now skip in simp_all)
qed simp

lemma move_tick: "tick on_packet dt s n = Some (s', n') \<Longrightarrow> kernels_move (net_fabric n) (net_fabric n')"
proof -
  assume "tick on_packet dt s n = Some (s', n')"
  then obtain n1 n2 eg s1 where t: "deliver_all (map sch_pkt (takeWhile (\<lambda>p. \<not> sch_now s + dt < deliver_at p) (sch_pending s))) n = Some n1"
    "guard_egress_all n1 (sch_egress s) = Some (n2, eg)" "route_all on_packet eg s1 n2 = Some (s', n')"
    by (auto simp: tick_def Let_def bind_Some_iff)
  have "kernels_move (net_fabric n1) (net_fabric n2)"
    using t(2) by (auto simp: guard_egress_all_def bind_Some_iff dest!: move_egress)
  then show ?thesis using move_deliver_all [OF t(1)] move_route_all [OF t(3)] kernels_move_trans by blast
qed

lemma moves_keep:
  assumes "net_ok n" "net_inv n'" "kernels_move (net_fabric n) (net_fabric n')"
  shows "net_keeps F n n'"
proof (rule kernels_keep [OF assms(1,2)])
  show "\<exists>k'. kernel_of (net_fabric n') hid = Some k' \<and> good {fd. (hid, fd) \<in> F} k k'"
    if "kernel_of (net_fabric n) hid = Some k" for hid k
    using assms(3) that good_mono [of "{}"] unfolding kernels_move_def
    by (metis (no_types) empty_subsetI option.rel_cases option.inject option.distinct(1))
  show "kernel_of (net_fabric n) hid \<noteq> None \<or> sockets_ok k'" if "kernel_of (net_fabric n') hid = Some k'" for hid k'
    using assms(3) that unfolding kernels_move_def by (metis option.rel_distinct(1))
qed

text \<open>A new host has an empty socket table.\<close>

lemma add_addresses_table: "table (fold add_address addrs k) = table k"
  by (induction addrs arbitrary: k) (auto simp: add_address_def)

lemma add_host_keeps:
  assumes "net_ok n" "net_inv n'" "net_add_host as n = Some (hid, n')"
  shows "net_keeps F n n'"
proof (rule kernels_keep [OF assms(1,2)])
  obtain ips where f: "fabric_add_host ips (net_fabric n) = Some (hid, net_fabric n')"
    using assms(3) by (auto simp: net_add_host_def bind_Some_iff Let_def split_beta)
  have fresh: "imap_get (fb_hosts (net_fabric n)) (fb_next_id (net_fabric n)) = None"
    using assms(1) by (intro fabric_inv_fresh) (simp add: net_ok_def net_inv_def)
  let ?k = "fold add_address ips (Kernel_with_config (default_cfg (net_fabric n)))"
  have hosts: "fb_hosts (net_fabric n') =
      imap_insert (fb_next_id (net_fabric n)) \<lparr>host_addrs = ips, host_kernel = ?k\<rparr> (fb_hosts (net_fabric n))"
    using f by (cases "check_addrs (net_fabric n) ips")
      (auto simp: fabric_add_host_def try_add_host_def Let_def split: if_split_asm dest!: arg_cong [where f = fb_hosts])
  have get: "kernel_of (net_fabric n') h = (if h = fb_next_id (net_fabric n) then Some ?k else kernel_of (net_fabric n) h)" for h
    by (simp add: kernel_of_def hosts imap_simps)
  have "lookup ?k fd = None" "imap_wf (sockets (table ?k))" for fd
    by (simp_all add: lookup_def st_get_def add_addresses_table Kernel_with_config_def SocketTable_new_def)
  then have "sockets_ok ?k" by (simp add: sockets_ok_def)
  then show "kernel_of (net_fabric n) h \<noteq> None \<or> sockets_ok k'" if "kernel_of (net_fabric n') h = Some k'" for h k'
    using that get by (auto split: if_splits)
  show "\<exists>k'. kernel_of (net_fabric n') h = Some k' \<and> good {fd. (h, fd) \<in> F} k k'"
    if "kernel_of (net_fabric n) h = Some k" for h k
    using that get fresh by (auto simp: kernel_of_def)
qed

end
