(* ===== verification/Shim_Ops.thy ===== *)
theory Shim_Ops
  imports Shim_Calls
begin

text \<open>
  The calls a task makes on the values of the shim, as data, and what each of them does: on a
  value whose socket is owned, with its host current, every call returns and every owned socket of
  the network stays owned and keeps its kind.
\<close>

section \<open>Quiet steps\<close>

definition stays_quiet :: "HostId \<Rightarrow> 'r Net \<Rightarrow> 'r Net option \<Rightarrow> bool" where
  "stays_quiet hid n m \<longleftrightarrow> returns m (\<lambda>n'. net_keeps {} n n' \<and> net_current n' = Some hid)"

lemma quiet_refl: "net_ok n \<Longrightarrow> net_current n = Some hid \<Longrightarrow> stays_quiet hid n (Some n)"
  by (simp add: stays_quiet_def net_keeps_refl)

lemma owns_socket:
  assumes "net_ok n" "owns n hid fd q"
  obtains k s where "kernel_of (net_fabric n) hid = Some k" "owned k fd s" "kind_ok q s" "kernel_inv k" "sockets_ok k" "typed s"
  using assms owned_typed fabric_inv_kernel unfolding owns_def net_ok_def net_inv_def by metis

text \<open>A system call, and what the shim makes of its result.\<close>

lemma quiet_then:
  assumes n: "net_ok n" "net_current n = Some hid" "kernel_of (net_fabric n) hid = Some k" and g: "sound {} k (g k)"
    and h: "\<And>x k' n1. g k = Some (x, k') \<Longrightarrow> map_option snd (h x n1) = Some n1"
  shows "stays_quiet hid n (map_option snd (Option.bind (sys g n) (\<lambda>(x, n1). h x n1)))"
proof -
  obtain x n' k' where x: "sys g n = Some (x, n')" "net_keeps {} n n'" "net_current n' = Some hid" "g k = Some (x, k')"
    using sys_sound [where g = g, OF n g] by (auto simp: returns_def)
  then show ?thesis using h [OF x(4), of n'] by (auto simp: stays_quiet_def)
qed

lemma quiet_sys:
  assumes "net_ok n" "net_current n = Some hid" "kernel_of (net_fabric n) hid = Some k" "sound {} k (g k)"
  shows "stays_quiet hid n (map_option snd (sys g n))"
  using quiet_then [where g = g, OF assms, where h = "\<lambda>x n. Some (x, n)"] by simp

lemma snd_after: "m \<noteq> None \<Longrightarrow> map_option snd (do { a \<leftarrow> m; Some (a, n) }) = Some n"
  by auto

lemma map_snd_prod: "map_option snd (map_option (map_prod f id) m) = map_option snd m"
  by (cases m) auto

section \<open>Calls on any socket\<close>

lemma inet_local: "inet_addr (kernel_local_addr k fd) \<noteq> None"
  by (auto simp: inet_addr_def kernel_local_addr_def split: option.splits)

lemma inet_peer: "lookup k fd = Some s \<Longrightarrow> typed s \<Longrightarrow> inet_addr (kernel_peer_addr k fd) \<noteq> None"
  by (auto simp: inet_addr_def kernel_peer_addr_def typed_def split: option.splits Addr.splits)

lemma fd_quiet:
  assumes n: "net_ok n" "net_current n = Some hid" and fd: "owns n hid fd q"
  shows "stays_quiet hid n (map_option snd (fd_local_addr fd n))" "stays_quiet hid n (map_option snd (fd_peer_addr fd n))"
    "stays_quiet hid n (map_option snd (fd_set_ttl fd v n))" "stays_quiet hid n (map_option snd (fd_ttl fd n))"
proof -
  obtain k s where k: "kernel_of (net_fabric n) hid = Some k" "owned k fd s" "kernel_inv k" "typed s"
    using owns_socket [OF n(1) fd] by metis
  then have look: "lookup k fd = Some s" by (simp add: owned_def)
  show "stays_quiet hid n (map_option snd (fd_local_addr fd n))"
    unfolding fd_local_addr_def 
    by (rule quiet_then [OF n k(1)], rule sound_read [OF k(3)], rule snd_after) (auto simp: inet_local simp del: not_None_eq)
  show "stays_quiet hid n (map_option snd (fd_peer_addr fd n))"
    unfolding fd_peer_addr_def
    by (rule quiet_then [OF n k(1)], rule sound_read [OF k(3)], rule snd_after)
      (auto simp: inet_peer [OF look k(4)] simp del: not_None_eq)
  show "stays_quiet hid n (map_option snd (fd_set_ttl fd v n))"
    using quiet_refl [OF n] quiet_sys [OF n k(1), of "\<lambda>k. set_option k fd (IpTtl (ucast v))"] sound_option [OF k(3)]
    by (simp add: fd_set_ttl_def)
  show "stays_quiet hid n (map_option snd (fd_ttl fd n))"
    unfolding fd_ttl_def
    by (rule quiet_then [OF n k(1)]) (use look sound_read [OF k(3)] in \<open>auto simp: get_option_def\<close>)
qed

lemma fd_data_quiet:
  assumes n: "net_ok n" "net_current n = Some hid" and fd: "owns n hid fd q"
  shows "stays_quiet hid n (map_option snd (fd_recv fd w buf n))" "stays_quiet hid n (map_option snd (fd_peek fd w buf n))"
    "stays_quiet hid n (map_option snd (sys (\<lambda>k. kernel_poll_send k fd w buf) n))"
    "stays_quiet hid n (map_option snd (sys (\<lambda>k. do { (r, b, k1) \<leftarrow> kernel_try_recv_vectored k fd bufs; Some ((r, b), k1) }) n))"
    "stays_quiet hid n (map_option snd (sys (\<lambda>k. set_option k fd (Broadcast on)) n))"
    "stays_quiet hid n (map_option snd (sys (\<lambda>k. set_option k fd (TcpNoDelay on)) n))"
proof -
  obtain k s where k: "kernel_of (net_fabric n) hid = Some k" "owned k fd s" "kernel_inv k" "sockets_ok k" "kind_ok q s" "typed s"
    using owns_socket [OF n(1) fd] by metis
  have "sk_ty s \<noteq> SeqPacket" using k(5,6) by (cases q) (auto simp: typed_def)
  note any = sound_any [OF k(3,4,2) this]
  show "stays_quiet hid n (map_option snd (fd_recv fd w buf n))" "stays_quiet hid n (map_option snd (fd_peek fd w buf n))"
    "stays_quiet hid n (map_option snd (sys (\<lambda>k. kernel_poll_send k fd w buf) n))"
    "stays_quiet hid n (map_option snd (sys (\<lambda>k. do { (r, b, k1) \<leftarrow> kernel_try_recv_vectored k fd bufs; Some ((r, b), k1) }) n))"
    "stays_quiet hid n (map_option snd (sys (\<lambda>k. set_option k fd (Broadcast on)) n))"
    "stays_quiet hid n (map_option snd (sys (\<lambda>k. set_option k fd (TcpNoDelay on)) n))"
    unfolding fd_recv_def fd_peek_def by (rule quiet_sys [OF n k(1)], (rule any | rule sound_option [OF k(3)]), simp?)+
qed

section \<open>Datagram sockets\<close>

datatype UdpCall =
    U_local_addr | U_peer_addr | U_connect ToSocketAddrs waker | U_send_to bytes ToSocketAddrs | U_send waker bytes
  | U_recv_from waker nat | U_peek_from waker nat | U_recv waker bytes | U_try_send bytes | U_try_send_to bytes SocketAddr
  | U_try_recv bytes | U_try_recv_from nat | U_set_broadcast bool | U_broadcast | U_set_ttl u32 | U_ttl

fun udp_call :: "UdpSock \<Rightarrow> UdpCall \<Rightarrow> 'r Net \<Rightarrow> 'r Net option" where
  "udp_call u U_local_addr n = map_option snd (us_local_addr u n)"
| "udp_call u U_peer_addr n = map_option snd (us_peer_addr u n)"
| "udp_call u (U_connect a w) n = map_option snd (us_connect u a w n)"
| "udp_call u (U_send_to buf a) n = map_option snd (us_send_to u buf a n)"
| "udp_call u (U_send w buf) n = map_option snd (us_send u w buf n)"
| "udp_call u (U_recv_from w len) n = map_option snd (us_recv_from u w len n)"
| "udp_call u (U_peek_from w len) n = map_option snd (us_peek_from u w len n)"
| "udp_call u (U_recv w buf) n = map_option snd (us_recv u w buf n)"
| "udp_call u (U_try_send buf) n = map_option snd (us_try_send u buf n)"
| "udp_call u (U_try_send_to buf a) n = map_option snd (us_try_send_to u buf a n)"
| "udp_call u (U_try_recv buf) n = map_option snd (us_try_recv u buf n)"
| "udp_call u (U_try_recv_from len) n = map_option snd (us_try_recv_from u len n)"
| "udp_call u (U_set_broadcast on) n = map_option snd (us_set_broadcast u on n)"
| "udp_call u U_broadcast n = map_option snd (us_broadcast u n)"
| "udp_call u (U_set_ttl v) n = map_option snd (us_set_ttl u v n)"
| "udp_call u U_ttl n = map_option snd (us_ttl u n)"

lemma datagram_inet:
  assumes "lookup k fd = Some s" "typed s"
  shows "kernel_poll_recv_from k fd w len = Some (r, k') \<Longrightarrow> from_datagram r \<noteq> None"
    "kernel_poll_peek_from k fd w len = Some (r, k') \<Longrightarrow> from_datagram r \<noteq> None"
  using assms by (auto simp: kernel_poll_recv_from_def kernel_poll_peek_from_def udp_recv_from_def udp_peek_from_def
      from_datagram_def typed_def split: if_splits list.splits Addr.splits)

lemma dgram_quiet:
  assumes n: "net_ok n" "net_current n = Some hid" and fd: "owns n hid fd Datagram"
  shows "stays_quiet hid n (map_option snd (sys (\<lambda>k. kernel_poll_connect k fd w (Addr_Inet a)) n))"
    "stays_quiet hid n (map_option snd (sys (\<lambda>k. kernel_poll_send_to k fd buf (Addr_Inet a)) n))"
    "stays_quiet hid n (map_option snd (us_recv_from \<lparr>us_fd = fd\<rparr> w len n))"
    "stays_quiet hid n (map_option snd (us_peek_from \<lparr>us_fd = fd\<rparr> w len n))"
    "stays_quiet hid n (map_option snd (us_broadcast \<lparr>us_fd = fd\<rparr> n))"
proof -
  obtain k s where k: "kernel_of (net_fabric n) hid = Some k" "owned k fd s" "kernel_inv k" "sockets_ok k" "sk_ty s = Dgram" "typed s"
    using owns_socket [OF n(1) fd] by (metis kind_ok.simps(1))
  then have look: "lookup k fd = Some s" by (simp add: owned_def)
  note dg = sound_dgram [OF k(3,4,2,5)] and inet = datagram_inet [OF look k(6)]
  show "stays_quiet hid n (map_option snd (sys (\<lambda>k. kernel_poll_connect k fd w (Addr_Inet a)) n))"
    "stays_quiet hid n (map_option snd (sys (\<lambda>k. kernel_poll_send_to k fd buf (Addr_Inet a)) n))"
    by (rule quiet_sys [OF n k(1)], rule dg)+
  show "stays_quiet hid n (map_option snd (us_recv_from \<lparr>us_fd = fd\<rparr> w len n))"
    "stays_quiet hid n (map_option snd (us_peek_from \<lparr>us_fd = fd\<rparr> w len n))"
    unfolding us_recv_from_def us_peek_from_def UdpSock.simps
    by (rule quiet_then [OF n k(1)], rule dg, rule snd_after, rule inet, assumption)+
  show "stays_quiet hid n (map_option snd (us_broadcast \<lparr>us_fd = fd\<rparr> n))"
    unfolding us_broadcast_def UdpSock.simps
    by (rule quiet_then [OF n k(1)]) (use look sound_read [OF k(3)] in \<open>auto simp: get_option_def\<close>)
qed

lemma udp_call_quiet:
  assumes n: "net_ok n" "net_current n = Some hid" and u: "owns n hid (us_fd u) Datagram"
  shows "stays_quiet hid n (udp_call u c n)"
proof -
  have eq: "u = \<lparr>us_fd = us_fd u\<rparr>" by simp
  note d = dgram_quiet [OF n u, folded eq] and any = fd_quiet [OF n u] fd_data_quiet [OF n u] quiet_refl [OF n]
  show ?thesis
    by (cases c) (auto simp: us_local_addr_def us_peer_addr_def us_connect_def us_send_to_def us_send_def us_recv_def
        us_try_send_def us_try_send_to_def us_try_recv_def us_try_recv_from_def us_set_broadcast_def us_set_ttl_def us_ttl_def
        map_snd_prod d any split: sum.split)
qed

section \<open>Streams and listeners\<close>

datatype StreamCall =
    S_local_addr | S_peer_addr | S_try_read bytes | S_try_read_vectored "bytes list" | S_try_write bytes
  | S_peek waker bytes | S_poll_peek waker ReadBuf | S_set_ttl u32 | S_ttl | S_set_nodelay bool | S_nodelay
  | S_poll_read waker ReadBuf | S_poll_write waker bytes | S_poll_flush | S_poll_shutdown

fun stream_call :: "TcpSock \<Rightarrow> StreamCall \<Rightarrow> 'r Net \<Rightarrow> 'r Net option" where
  "stream_call t S_local_addr n = map_option snd (ts_local_addr t n)"
| "stream_call t S_peer_addr n = map_option snd (ts_peer_addr t n)"
| "stream_call t (S_try_read buf) n = map_option snd (ts_try_read t buf n)"
| "stream_call t (S_try_read_vectored bufs) n = map_option snd (ts_try_read_vectored t bufs n)"
| "stream_call t (S_try_write buf) n = map_option snd (ts_try_write t buf n)"
| "stream_call t (S_peek w buf) n = map_option snd (ts_peek t w buf n)"
| "stream_call t (S_poll_peek w rb) n = map_option snd (ts_poll_peek t w rb n)"
| "stream_call t (S_set_ttl v) n = map_option snd (ts_set_ttl t v n)"
| "stream_call t S_ttl n = map_option snd (ts_ttl t n)"
| "stream_call t (S_set_nodelay on) n = map_option snd (ts_set_nodelay t on n)"
| "stream_call t S_nodelay n = map_option snd (ts_nodelay t n)"
| "stream_call t (S_poll_read w rb) n = map_option snd (ts_poll_read t w rb n)"
| "stream_call t (S_poll_write w buf) n = map_option snd (ts_poll_write t w buf n)"
| "stream_call t S_poll_flush n = map_option snd (ts_poll_flush t n)"
| "stream_call t S_poll_shutdown n = map_option snd (ts_poll_shutdown t n)"

lemma after_recv: "map_option snd (do { ((r, b), n1) \<leftarrow> m; Some (f r b, n1) }) = map_option snd m"
  by (cases m) auto

lemma stream_quiet:
  assumes n: "net_ok n" "net_current n = Some hid" and fd: "owns n hid (ts_fd t) Connected"
  shows "stays_quiet hid n (map_option snd (ts_nodelay t n))" "stays_quiet hid n (map_option snd (ts_poll_shutdown_priv t n))"
proof -
  obtain k s where k: "kernel_of (net_fabric n) hid = Some k" "owned k (ts_fd t) s" "kernel_inv k" "sk_ty s = Stream"
    using owns_socket [OF n(1) fd] by (metis kind_ok.simps(3) typed_def)
  then have look: "lookup k (ts_fd t) = Some s" by (simp add: owned_def)
  show "stays_quiet hid n (map_option snd (ts_nodelay t n))"
    unfolding ts_nodelay_def
    by (rule quiet_then [OF n k(1)]) (use look sound_read [OF k(3)] in \<open>auto simp: get_option_def\<close>)
  show "stays_quiet hid n (map_option snd (ts_poll_shutdown_priv t n))"
    unfolding ts_poll_shutdown_priv_def by (rule quiet_sys [OF n k(1)], rule sound_shutdown [OF k(3,2,4)])
qed

lemma stream_call_quiet:
  assumes n: "net_ok n" "net_current n = Some hid" and t: "owns n hid (ts_fd t) Connected"
  shows "stays_quiet hid n (stream_call t c n)"
proof -
  note any = fd_quiet [OF n t] fd_data_quiet [OF n t] quiet_refl [OF n] stream_quiet [OF n t]
  show ?thesis
    by (cases c) (auto simp: ts_local_addr_def ts_peer_addr_def ts_try_read_def ts_try_read_vectored_def ts_try_write_def
        ts_peek_def ts_poll_peek_def ts_set_ttl_def ts_ttl_def ts_set_nodelay_def ts_poll_read_def ts_poll_read_priv_def
        ts_poll_write_def ts_poll_write_priv_def ts_poll_flush_def ts_poll_shutdown_def map_snd_prod after_recv any)
qed

datatype ListenerCall = L_local_addr | L_set_ttl u32 | L_ttl

fun listener_call :: "TcpListen \<Rightarrow> ListenerCall \<Rightarrow> 'r Net \<Rightarrow> 'r Net option" where
  "listener_call l L_local_addr n = map_option snd (tl_local_addr l n)"
| "listener_call l (L_set_ttl v) n = map_option snd (tl_set_ttl l v n)"
| "listener_call l L_ttl n = map_option snd (tl_ttl l n)"

lemma listener_call_quiet:
  assumes n: "net_ok n" "net_current n = Some hid" and l: "owns n hid (tl_fd l) Listening"
  shows "stays_quiet hid n (listener_call l c n)"
  using fd_quiet [OF n l] by (cases c) (simp_all add: tl_local_addr_def tl_set_ttl_def tl_ttl_def)

section \<open>Sockets that come and go\<close>

definition opened :: "'r Net \<Rightarrow> 'r Net \<Rightarrow> HostId \<Rightarrow> Fd \<Rightarrow> SockKind \<Rightarrow> bool" where
  "opened n n' hid fd q \<longleftrightarrow> owns n' hid fd q \<and> (\<forall>q'. \<not> owns n hid fd q')"

lemma net_keeps_minus: "net_keeps {(hid, fd)} n n' \<Longrightarrow> (\<And>q. \<not> owns n hid fd q) \<Longrightarrow> net_keeps {} n n'"
  unfolding net_keeps_def by (metis empty_iff prod.inject singletonD)

lemma net_ok_kernel: "net_ok n \<Longrightarrow> kernel_of (net_fabric n) hid = Some k \<Longrightarrow> kernel_inv k"
  using fabric_inv_kernel by (auto simp: net_ok_def net_inv_def)

lemma openedI:
  assumes "kernel_of (net_fabric n) hid = Some k" "\<And>u. \<not> owned k fd u"
    and "kernel_of (net_fabric n') hid = Some k'" "owned k' fd s" "kind_ok q s"
  shows "opened n n' hid fd q"
  using assms by (auto simp: opened_def owns_def)

lemma close_keeps:
  assumes n: "net_ok n" "net_current n = Some hid" and k: "kernel_of (net_fabric n) hid = Some k" "owned k fd s"
  shows "returns (fd_close fd n) (\<lambda>n'. net_keeps {(hid, fd)} n n' \<and> net_current n' = Some hid)"
proof -
  note g = sound_close [OF net_ok_kernel [OF n(1) k(1)] k(2)]
  show ?thesis
    using sys_sound [where g = "\<lambda>k. do { k1 \<leftarrow> kernel_close k fd; Some ((), k1) }", OF n k(1) g]
    by (auto simp: fd_close_def returns_def)
qed

lemma us_bind_opens:
  assumes n: "net_ok n" "net_current n = Some hid" and k: "kernel_of (net_fabric n) hid = Some k"
  shows "returns (us_bind a n) (\<lambda>(r, n'). net_keeps {} n n' \<and> net_current n' = Some hid \<and>
    (\<forall>u. r = Ok u \<longrightarrow> opened n n' hid (us_fd u) Datagram))"
proof (cases "shim_socket_addr n a")
  case (Inr sa)
  note inv = net_ok_kernel [OF n(1) k]
  have g: "sound {} k (kernel_bind k (Addr_Inet sa) Dgram)"
    using inv by (intro soundI kernel_bind_safe good_bind) (auto simp: kernel_inv_def)
  obtain r n' k' where r: "sys (\<lambda>k. kernel_bind k (Addr_Inet sa) Dgram) n = Some (r, n')" "net_keeps {} n n'"
      "net_current n' = Some hid" "kernel_bind k (Addr_Inet sa) Dgram = Some (r, k')" "kernel_of (net_fabric n') hid = Some k'"
    using sys_sound [where g = "\<lambda>k. kernel_bind k (Addr_Inet sa) Dgram", OF n k g] by (auto simp: returns_def)
  have "opened n n' hid fd Datagram" if "r = Ok fd" for fd
  proof -
    note b = bind_owned [OF inv r(4) [unfolded that]]
    then show ?thesis using openedI [OF k b(2) r(5)] by auto
  qed
  then show ?thesis using Inr r by (cases r) (auto simp: us_bind_def)
qed (use net_keeps_refl [OF n(1)] n(2) in \<open>simp add: us_bind_def\<close>)

lemma tl_bind_opens:
  assumes n: "net_ok n" "net_current n = Some hid" and k: "kernel_of (net_fabric n) hid = Some k"
  shows "returns (tl_bind a n) (\<lambda>(r, n'). net_keeps {} n n' \<and> net_current n' = Some hid \<and>
    (\<forall>l. r = Ok l \<longrightarrow> opened n n' hid (tl_fd l) Listening))"
proof (cases "shim_socket_addr n a")
  case (Inr sa)
  note inv = net_ok_kernel [OF n(1) k]
  let ?g = "\<lambda>k. do {
      let bl = default_backlog k;
      (r, k1) \<leftarrow> kernel_bind k (Addr_Inet sa) Stream;
      case r of
        Inl e \<Rightarrow> Some (Err e, k1)
      | Inr fd \<Rightarrow> do {
          (r2, k2) \<leftarrow> kernel_listen k1 fd bl;
          Some (case r2 of Inl e \<Rightarrow> Err e | Inr _ \<Rightarrow> Ok \<lparr>tl_fd = fd\<rparr>, k2)
        }
    }"
  obtain r k1 where b: "kernel_bind k (Addr_Inet sa) Stream = Some (r, k1)" "kinv {} k1"
    using kernel_bind_safe [of "{}" k sa Stream] inv by (auto simp: returns_def kernel_inv_def)
  have g: "sound {} k (?g k) \<and> (\<forall>l k'. ?g k = Some (Ok l, k') \<longrightarrow> (\<forall>u. \<not> owned k (tl_fd l) u) \<and>
      (\<exists>s. owned k' (tl_fd l) s \<and> listen s \<noteq> None))"
  proof (cases r)
    case (Inl e)
    then show ?thesis using b good_bind [OF b(1)] by (simp add: sound_def kernel_inv_def)
  next
    case (Inr fd)
    note o = bind_owned [OF inv b(1) [unfolded Inr]]
    obtain s where s: "owned k1 fd s" "sk_ty s = Stream" "bound s \<noteq> None" using o(1) by blast
    let ?k = "modify fd (\<lambda>s. s\<lparr>listen := Some (ListenState_new (default_backlog k))\<rparr>) k1"
    have li: "kernel_listen k1 fd (default_backlog k) = Some (Ok (), ?k)" using s by (simp add: kernel_listen_def owned_def)
    have "kinv {} ?k" using kernel_listen_safe [OF b(2), of fd "default_backlog k"] s li by (auto simp: returns_def owned_def)
    moreover have "good {} k ?k" using good_trans [OF good_bind [OF b(1)] good_listen [OF li]] .
    moreover have "owned ?k fd (s\<lparr>listen := Some (ListenState_new (default_backlog k))\<rparr>)"
      using s by (auto simp: owned_def half_open_def held_def ready_of_def ListenState_new_def split: if_splits)
    ultimately show ?thesis using b(1) Inr li o(2) by (force simp: sound_def kernel_inv_def)
  qed
  then obtain x n' k' where x: "sys ?g n = Some (x, n')" "net_keeps {} n n'" "net_current n' = Some hid"
      "?g k = Some (x, k')" "kernel_of (net_fabric n') hid = Some k'"
    using sys_sound [where g = ?g and F = "{}", OF n k] unfolding returns_def by auto
  then have "opened n n' hid (tl_fd l) Listening" if "x = Ok l" for l
    using g that openedI [OF k _ x(5)] by (metis kind_ok.simps(2))
  then show ?thesis using Inr x(1-3) by (simp add: tl_bind_def)
qed (use net_keeps_refl [OF n(1)] n(2) in \<open>simp add: tl_bind_def\<close>)

lemma tl_accept_opens:
  assumes n: "net_ok n" "net_current n = Some hid" and l: "owns n hid (tl_fd l) Listening"
  shows "returns (tl_poll_accept l w n) (\<lambda>(r, n'). net_keeps {} n n' \<and> net_current n' = Some hid \<and>
    (\<forall>t peer. r = Ready (Ok (t, peer)) \<longrightarrow> opened n n' hid (ts_fd t) Connected))"
proof -
  obtain k s where k: "kernel_of (net_fabric n) hid = Some k" "owned k (tl_fd l) s" "kernel_inv k" "listen s \<noteq> None"
    using owns_socket [OF n(1) l] by (metis kind_ok.simps(2))
  note g = sound_accept [OF k(3,2,4)]
  obtain r n' k' where r: "sys (\<lambda>k. kernel_poll_accept k (tl_fd l) w) n = Some (r, n')" "net_keeps {} n n'"
      "net_current n' = Some hid" "kernel_poll_accept k (tl_fd l) w = Some (r, k')" "kernel_of (net_fabric n') hid = Some k'"
    using sys_sound [where g = "\<lambda>k. kernel_poll_accept k (tl_fd l) w" and F = "{}", OF n k(1) g] by (auto simp: returns_def)
  have "opened n n' hid c Connected" if "r = Ready (Ok (c, peer))" for c peer
  proof -
    note a = accept_owned [OF k(3,2) r(4) [unfolded that]]
    then show ?thesis using openedI [OF k(1) a(2) r(5)] by auto
  qed
  then show ?thesis
    using r(1-3) by (auto simp: tl_poll_accept_def from_fd_def split: Poll.split sum.split)
qed

text \<open>A poll of a connect: it fails and its socket is gone, it succeeds, or it waits for the handshake.\<close>

lemma ts_connect_poll_cases:
  assumes n: "net_ok n" "net_current n = Some hid" and k: "kernel_of (net_fabric n) hid = Some k"
    and f: "cf_guard f = \<lparr>fg_fd = fd, armed = True\<rparr>"
    and s: "owned k fd s" "sk_ty s = Stream" "tcb s \<noteq> None \<or> bound s = None"
  shows "returns (ts_connect_poll f w n) (\<lambda>(r, n'). net_current n' = Some hid \<and>
    (case r of
       Inl (Inl _) \<Rightarrow> net_keeps {(hid, fd)} n n'
     | Inl (Inr t) \<Rightarrow> net_keeps {} n n' \<and> owns n' hid fd Connected \<and> ts_fd t = fd
     | Inr f' \<Rightarrow> net_keeps {} n n' \<and> owns n' hid fd Connected \<and> f' = f))"
proof -
  let ?g = "\<lambda>k. kernel_poll_connect k fd w (Addr_Inet (cf_peer f))"
  note g = sound_connect [OF net_ok_kernel [OF n(1) k] s]
  obtain r n1 k1 where r: "sys ?g n = Some (r, n1)" "net_keeps {} n n1" "net_current n1 = Some hid" "?g k = Some (r, k1)"
      "kernel_of (net_fabric n1) hid = Some k1"
    using sys_sound [where g = ?g and F = "{}", OF n k g] by (auto simp: returns_def)
  note keep = good_poll_connect [OF r(4), of "{}"]
  have ok: "net_ok n1" "sockets_ok k" using r(2) n(1) k by (auto simp: net_keeps_def net_ok_def)
  obtain s1 where s1: "owned k1 fd s1" using keep ok(2) s(1) by (auto simp: good_def keeps_def)
  have conn: "owns n1 hid fd Connected" if "\<And>e. r \<noteq> Ready (Inl e)"
    using connect_tcb [OF _ s(2) r(4) that] s(1) s1 r(5) by (auto simp: owned_def owns_def)
  show ?thesis
  proof (cases "\<exists>e. r = Ready (Inl e)")
    case True
    then obtain e where e: "r = Ready (Inl e)" by blast
    obtain n2 where n2: "fd_close fd n1 = Some n2" "net_keeps {(hid, fd)} n1 n2" "net_current n2 = Some hid"
      using close_keeps [OF ok(1) r(3,5) s1] by (auto simp: returns_def)
    have "net_keeps {(hid, fd)} n n2" using net_keeps_trans [OF net_keeps_mono [OF r(2)] n2(2)] by simp
    then show ?thesis using r(1) f e n2(1,3) by (simp add: ts_connect_poll_def FdGuard_drop_def)
  next
    case False
    then have conn: "owns n1 hid fd Connected" using conn by blast
    show ?thesis
    proof (cases r)
      case (Ready x)
      then obtain y where "x = Inr y" using False by (cases x) auto
      then show ?thesis using r(1-3) f conn Ready by (simp add: ts_connect_poll_def FdGuard_disarm_def FdGuard_drop_def)
    qed (use r(1-3) f conn in \<open>simp add: ts_connect_poll_def\<close>)
  qed
qed

lemma ts_connect_opens:
  assumes n: "net_ok n" "net_current n = Some hid" and k: "kernel_of (net_fabric n) hid = Some k"
  shows "returns (ts_connect a w n) (\<lambda>(r, n'). net_keeps {} n n' \<and> net_current n' = Some hid \<and>
    (case r of
       Inl (Inl _) \<Rightarrow> True
     | Inl (Inr t) \<Rightarrow> opened n n' hid (ts_fd t) Connected
     | Inr f \<Rightarrow> armed (cf_guard f) \<and> opened n n' hid (fg_fd (cf_guard f)) Connected))"
proof (cases "shim_socket_addr n a")
  case (Inr peer)
  let ?d = "domain_of peer"
  obtain fd k1 where op: "kernel_open k ?d Stream = (fd, k1)" by (cases "kernel_open k ?d Stream")
  note o = open_owned [OF net_ok_kernel [OF n(1) k] op]
  have g: "sound {} k (Some (kernel_open k ?d Stream))" using o(3) op by simp
  obtain n1 where n1: "sys (\<lambda>k. Some (kernel_open k ?d Stream)) n = Some (fd, n1)" "net_keeps {} n n1" "net_current n1 = Some hid"
      "kernel_of (net_fabric n1) hid = Some k1"
    using sys_sound [where g = "\<lambda>k. Some (kernel_open k ?d Stream)", OF n k g] op by (auto simp: returns_def)
  have ok: "net_ok n1" using n1(2) by (simp add: net_keeps_def)
  have new: "\<not> owns n hid fd q" for q using o(2) k by (auto simp: owns_def)
  let ?f = "\<lparr>cf_guard = FdGuard_new fd, cf_peer = peer\<rparr>"
  obtain r n2 where r: "ts_connect_poll ?f w n1 = Some (r, n2)" "net_current n2 = Some hid"
      "case r of
         Inl (Inl _) \<Rightarrow> net_keeps {(hid, fd)} n1 n2
       | Inl (Inr t) \<Rightarrow> net_keeps {} n1 n2 \<and> owns n2 hid fd Connected \<and> ts_fd t = fd
       | Inr f' \<Rightarrow> net_keeps {} n1 n2 \<and> owns n2 hid fd Connected \<and> f' = ?f"
    using ts_connect_poll_cases [OF ok n1(3,4), of ?f fd "Socket_new ?d Stream" w] o(1)
    by (auto simp: returns_def FdGuard_new_def Socket_new_def)
  have con: "ts_connect a w n = Some (r, n2)" using Inr n1(1) r(1) by (simp add: ts_connect_def)
  have "net_keeps {(hid, fd)} n n2"
    using r(3) net_keeps_trans [OF net_keeps_mono [OF n1(2)]] net_keeps_mono [of "{}" n1 n2]
    by (auto split: sum.splits)
  then have "net_keeps {} n n2" using new by (rule net_keeps_minus)
  then show ?thesis
    using con r(2,3) new by (auto simp: opened_def FdGuard_new_def split: sum.splits)
qed (use net_keeps_refl [OF n(1)] n(2) in \<open>simp add: ts_connect_def\<close>)

end
