(* ===== verification/Shim_Prog.thy ===== *)
theory Shim_Prog
  imports Shim_Ops
begin

text \<open>
  Programs over the network shim. A program holds values of the shim (sockets, listeners, streams,
  connects that wait, halves of streams) and calls them, with the host of the value current, while
  the network ticks. A value is gone once it is dropped or consumed. The steps are executable.
\<close>

section \<open>Values and programs\<close>

datatype Handle =
    is_H_udp: H_udp UdpSock | is_H_listener: H_listener TcpListen | is_H_connecting: H_connecting ConnectFuture
  | is_H_stream: H_stream TcpSock | is_H_read: H_read OwnedReadHalf | is_H_write: H_write OwnedWriteHalf

record 'r Prog =
  pg_sched :: Scheduler
  pg_shim :: "'r ShimState"
  pg_handles :: "(nat, HostId \<times> Handle) imap"
  pg_next :: nat

definition Prog_new :: "KernelConfig \<Rightarrow> 'r Prog" where
  "Prog_new cfg = \<lparr>pg_sched = Scheduler_new, pg_shim = \<lparr>sh_net = Net_with_config cfg, sh_arcs = [], sh_next = 0\<rparr>,
     pg_handles = [], pg_next = 0\<rparr>"

definition pg_net :: "'r Prog \<Rightarrow> 'r Net" where
  "pg_net p = sh_net (pg_shim p)"

definition put_net :: "'r Net \<Rightarrow> 'r Prog \<Rightarrow> 'r Prog" where
  "put_net n p = p\<lparr>pg_shim := (pg_shim p)\<lparr>sh_net := n\<rparr>\<rparr>"

definition run_on :: "HostId \<Rightarrow> 'r Prog \<Rightarrow> 'r Prog" where
  "run_on hid p = put_net (set_current hid (pg_net p)) p"

definition set_handle :: "nat \<Rightarrow> HostId \<Rightarrow> Handle \<Rightarrow> 'r Prog \<Rightarrow> 'r Prog" where
  "set_handle i hid h p = p\<lparr>pg_handles := imap_insert i (hid, h) (pg_handles p)\<rparr>"

definition keep_handle :: "HostId \<Rightarrow> Handle \<Rightarrow> 'r Prog \<Rightarrow> 'r Prog" where
  "keep_handle hid h p = (set_handle (pg_next p) hid h p)\<lparr>pg_next := pg_next p + 1\<rparr>"

definition drop_handle :: "nat \<Rightarrow> 'r Prog \<Rightarrow> 'r Prog" where
  "drop_handle i p = p\<lparr>pg_handles := imap_shift_remove i (pg_handles p)\<rparr>"

section \<open>Calls on halves\<close>

datatype ReadCall =
    R_try_read bytes | R_try_read_vectored "bytes list" | R_peek waker bytes | R_poll_peek waker ReadBuf
  | R_local_addr | R_peer_addr | R_poll_read waker ReadBuf

fun read_call :: "OwnedReadHalf \<Rightarrow> ReadCall \<Rightarrow> 'r ShimState \<Rightarrow> 'r ShimState option" where
  "read_call r (R_try_read buf) s = map_option snd (orh_try_read r buf s)"
| "read_call r (R_try_read_vectored bufs) s = map_option snd (orh_try_read_vectored r bufs s)"
| "read_call r (R_peek w buf) s = map_option snd (orh_peek r w buf s)"
| "read_call r (R_poll_peek w rb) s = map_option snd (orh_poll_peek r w rb s)"
| "read_call r R_local_addr s = map_option snd (orh_local_addr r s)"
| "read_call r R_peer_addr s = map_option snd (orh_peer_addr r s)"
| "read_call r (R_poll_read w rb) s = map_option snd (orh_poll_read r w rb s)"

datatype WriteCall =
    W_try_write bytes | W_local_addr | W_peer_addr | W_poll_write waker bytes | W_poll_flush

fun write_call :: "OwnedWriteHalf \<Rightarrow> WriteCall \<Rightarrow> 'r ShimState \<Rightarrow> 'r ShimState option" where
  "write_call w (W_try_write buf) s = map_option snd (owh_try_write w buf s)"
| "write_call w W_local_addr s = map_option snd (owh_local_addr w s)"
| "write_call w W_peer_addr s = map_option snd (owh_peer_addr w s)"
| "write_call w (W_poll_write cx buf) s = map_option snd (owh_poll_write w cx buf s)"
| "write_call w W_poll_flush s = map_option snd (owh_poll_flush w s)"

section \<open>Steps\<close>

datatype HandleOp =
    O_udp UdpCall | O_listener ListenerCall | O_accept waker | O_poll waker | O_stream StreamCall | O_split
  | O_read ReadCall | O_write WriteCall | O_shutdown | O_forget | O_drop

fun on_udp_sock :: "nat \<Rightarrow> HostId \<Rightarrow> UdpSock \<Rightarrow> HandleOp \<Rightarrow> 'r Prog \<Rightarrow> 'r Prog option" where
  "on_udp_sock i hid u (O_udp c) p = map_option (\<lambda>n. put_net n p) (udp_call u c (pg_net p))"
| "on_udp_sock i hid u O_drop p = map_option (\<lambda>n. drop_handle i (put_net n p)) (us_drop u (pg_net p))"
| "on_udp_sock i hid u _ p = None"

fun on_listener :: "nat \<Rightarrow> HostId \<Rightarrow> TcpListen \<Rightarrow> HandleOp \<Rightarrow> 'r Prog \<Rightarrow> 'r Prog option" where
  "on_listener i hid l (O_listener c) p = map_option (\<lambda>n. put_net n p) (listener_call l c (pg_net p))"
| "on_listener i hid l (O_accept w) p = do {
     (r, n) \<leftarrow> tl_poll_accept l w (pg_net p);
     let p1 = put_net n p;
     Some (case r of Ready (Inr (t, _)) \<Rightarrow> keep_handle hid (H_stream t) p1 | _ \<Rightarrow> p1)
   }"
| "on_listener i hid l O_drop p = map_option (\<lambda>n. drop_handle i (put_net n p)) (tl_drop l (pg_net p))"
| "on_listener i hid l _ p = None"

fun on_connecting :: "nat \<Rightarrow> HostId \<Rightarrow> ConnectFuture \<Rightarrow> HandleOp \<Rightarrow> 'r Prog \<Rightarrow> 'r Prog option" where
  "on_connecting i hid f (O_poll w) p = do {
     (r, n) \<leftarrow> ts_connect_poll f w (pg_net p);
     let p1 = put_net n p;
     Some (case r of
         Inl (Inl _) \<Rightarrow> drop_handle i p1
       | Inl (Inr t) \<Rightarrow> set_handle i hid (H_stream t) p1
       | Inr f' \<Rightarrow> set_handle i hid (H_connecting f') p1)
   }"
| "on_connecting i hid f O_drop p = map_option (\<lambda>n. drop_handle i (put_net n p)) (ts_connect_cancel f (pg_net p))"
| "on_connecting i hid f _ p = None"

fun on_stream :: "nat \<Rightarrow> HostId \<Rightarrow> TcpSock \<Rightarrow> HandleOp \<Rightarrow> 'r Prog \<Rightarrow> 'r Prog option" where
  "on_stream i hid t (O_stream c) p = map_option (\<lambda>n. put_net n p) (stream_call t c (pg_net p))"
| "on_stream i hid t O_split p =
     (let ((r, w), s) = split_owned t (pg_shim p)
      in Some (keep_handle hid (H_write w) (set_handle i hid (H_read r) (p\<lparr>pg_shim := s\<rparr>))))"
| "on_stream i hid t O_drop p = map_option (\<lambda>n. drop_handle i (put_net n p)) (ts_drop t (pg_net p))"
| "on_stream i hid t _ p = None"

fun on_read :: "nat \<Rightarrow> HostId \<Rightarrow> OwnedReadHalf \<Rightarrow> HandleOp \<Rightarrow> 'r Prog \<Rightarrow> 'r Prog option" where
  "on_read i hid r (O_read c) p = map_option (\<lambda>s. p\<lparr>pg_shim := s\<rparr>) (read_call r c (pg_shim p))"
| "on_read i hid r O_drop p = map_option (\<lambda>s. drop_handle i (p\<lparr>pg_shim := s\<rparr>)) (orh_drop r (pg_shim p))"
| "on_read i hid r _ p = None"

fun on_write :: "nat \<Rightarrow> HostId \<Rightarrow> OwnedWriteHalf \<Rightarrow> HandleOp \<Rightarrow> 'r Prog \<Rightarrow> 'r Prog option" where
  "on_write i hid w (O_write c) p = map_option (\<lambda>s. p\<lparr>pg_shim := s\<rparr>) (write_call w c (pg_shim p))"
| "on_write i hid w O_shutdown p = do {
     ((_, w'), s) \<leftarrow> owh_poll_shutdown w (pg_shim p);
     Some (set_handle i hid (H_write w') (p\<lparr>pg_shim := s\<rparr>))
   }"
| "on_write i hid w O_forget p = map_option (\<lambda>s. drop_handle i (p\<lparr>pg_shim := s\<rparr>)) (forget w (pg_shim p))"
| "on_write i hid w O_drop p = map_option (\<lambda>s. drop_handle i (p\<lparr>pg_shim := s\<rparr>)) (owh_drop w (pg_shim p))"
| "on_write i hid w _ p = None"

definition on_handle :: "nat \<Rightarrow> HostId \<Rightarrow> Handle \<Rightarrow> HandleOp \<Rightarrow> 'r Prog \<Rightarrow> 'r Prog option" where
  "on_handle i hid h =
     (case h of
        H_udp u \<Rightarrow> on_udp_sock i hid u
      | H_listener l \<Rightarrow> on_listener i hid l
      | H_connecting f \<Rightarrow> on_connecting i hid f
      | H_stream t \<Rightarrow> on_stream i hid t
      | H_read r \<Rightarrow> on_read i hid r
      | H_write w \<Rightarrow> on_write i hid w)"

text \<open>Which calls a value has; the types of the program see to it.\<close>

definition has_call :: "Handle \<Rightarrow> HandleOp \<Rightarrow> bool" where
  "has_call h c =
     (case c of
        O_udp _ \<Rightarrow> is_H_udp h
      | O_listener _ \<Rightarrow> is_H_listener h
      | O_accept _ \<Rightarrow> is_H_listener h
      | O_poll _ \<Rightarrow> is_H_connecting h
      | O_stream _ \<Rightarrow> is_H_stream h
      | O_split \<Rightarrow> is_H_stream h
      | O_read _ \<Rightarrow> is_H_read h
      | O_write _ \<Rightarrow> is_H_write h
      | O_shutdown \<Rightarrow> is_H_write h
      | O_forget \<Rightarrow> is_H_write h
      | O_drop \<Rightarrow> True)"

definition reunite_handles :: "nat \<Rightarrow> HostId \<Rightarrow> OwnedReadHalf \<Rightarrow> nat \<Rightarrow> HostId \<Rightarrow> OwnedWriteHalf \<Rightarrow> 'r Prog \<Rightarrow> 'r Prog option" where
  "reunite_handles i hid r j hid' w p = do {
     (res, s) \<leftarrow> reunite r w (pg_shim p);
     let p1 = p\<lparr>pg_shim := s\<rparr>;
     Some (case res of
         Inr t \<Rightarrow> set_handle i hid (H_stream t) (drop_handle j p1)
       | Inl (r', w') \<Rightarrow> set_handle i hid (H_read r') (set_handle j hid' (H_write w') p1))
   }"

datatype 'r ShimOp =
    Do_tick duration | Do_rule 'r | Do_unrule RuleId | Do_add_host "ToIpAddr list"
  | Do_udp_bind HostId ToSocketAddrs | Do_tcp_bind HostId ToSocketAddrs | Do_connect HostId ToSocketAddrs waker
  | Do_on nat HandleOp | Do_reunite nat nat

fun shim_step :: "('r \<Rightarrow> Packet \<Rightarrow> Verdict \<times> 'r) \<Rightarrow> 'r Prog \<Rightarrow> 'r ShimOp \<Rightarrow> 'r Prog option" where
  "shim_step on_packet p (Do_tick dt) =
     map_option (\<lambda>(s, n). put_net n (p\<lparr>pg_sched := s\<rparr>)) (tick on_packet dt (pg_sched p) (pg_net p))"
| "shim_step on_packet p (Do_rule r) = Some (put_net (snd (net_install_rule r (pg_net p))) p)"
| "shim_step on_packet p (Do_unrule rid) = Some (put_net (net_uninstall_rule rid (pg_net p)) p)"
| "shim_step on_packet p (Do_add_host as) = map_option (\<lambda>(_, n). put_net n p) (net_add_host as (pg_net p))"
| "shim_step on_packet p (Do_udp_bind hid a) = do {
     let p1 = run_on hid p;
     (r, n) \<leftarrow> us_bind a (pg_net p1);
     let p2 = put_net n p1;
     Some (case r of Inl _ \<Rightarrow> p2 | Inr u \<Rightarrow> keep_handle hid (H_udp u) p2)
   }"
| "shim_step on_packet p (Do_tcp_bind hid a) = do {
     let p1 = run_on hid p;
     (r, n) \<leftarrow> tl_bind a (pg_net p1);
     let p2 = put_net n p1;
     Some (case r of Inl _ \<Rightarrow> p2 | Inr l \<Rightarrow> keep_handle hid (H_listener l) p2)
   }"
| "shim_step on_packet p (Do_connect hid a w) = do {
     let p1 = run_on hid p;
     (r, n) \<leftarrow> ts_connect a w (pg_net p1);
     let p2 = put_net n p1;
     Some (case r of
         Inl (Inl _) \<Rightarrow> p2
       | Inl (Inr t) \<Rightarrow> keep_handle hid (H_stream t) p2
       | Inr f \<Rightarrow> keep_handle hid (H_connecting f) p2)
   }"
| "shim_step on_packet p (Do_on i c) = do {
     (hid, h) \<leftarrow> imap_get (pg_handles p) i;
     on_handle i hid h c (run_on hid p)
   }"
| "shim_step on_packet p (Do_reunite i j) = do {
     (hid, h) \<leftarrow> imap_get (pg_handles p) i;
     (hid', h') \<leftarrow> imap_get (pg_handles p) j;
     case (h, h') of
       (H_read r, H_write w) \<Rightarrow> reunite_handles i hid r j hid' w (run_on hid' p)
     | _ \<Rightarrow> None
   }"

text \<open>
  What is asked of a program: it names hosts that exist and addresses nobody has, it uses a
  value it still holds, and as what it is.
\<close>

fun shim_admissible :: "'r Prog \<Rightarrow> 'r ShimOp \<Rightarrow> bool" where
  "shim_admissible p (Do_add_host as) =
     (fb_next_id (net_fabric (pg_net p)) + 1 < 2 ^ 32 \<and>
      (\<forall>a \<in> set (fst (to_ip_addrs as (net_dns (pg_net p)))). \<not> is_unspecified a \<and> \<not> is_loopback a \<and>
         host_for_ip (net_fabric (pg_net p)) a = None))"
| "shim_admissible p (Do_udp_bind hid a) = (kernel_of (net_fabric (pg_net p)) hid \<noteq> None)"
| "shim_admissible p (Do_tcp_bind hid a) = (kernel_of (net_fabric (pg_net p)) hid \<noteq> None)"
| "shim_admissible p (Do_connect hid a w) = (kernel_of (net_fabric (pg_net p)) hid \<noteq> None)"
| "shim_admissible p (Do_on i c) = (case imap_get (pg_handles p) i of None \<Rightarrow> False | Some (_, h) \<Rightarrow> has_call h c)"
| "shim_admissible p (Do_reunite i j) =
     (case (imap_get (pg_handles p) i, imap_get (pg_handles p) j) of
        (Some (_, H_read _), Some (_, H_write _)) \<Rightarrow> True
      | _ \<Rightarrow> False)"
| "shim_admissible p op = True"

section \<open>Ownership\<close>

text \<open>
  Every value a program holds has an open socket of its kind on its host, two values share a socket only
  when they are halves of one stream, and the reference count of a shared stream is the number of its
  halves. One lemma for each way a program changes what it holds.
\<close>

fun cell_of :: "Handle \<Rightarrow> nat option" where
  "cell_of (H_read r) = Some (orh_inner r)"
| "cell_of (H_write w) = Some (owh_inner w)"
| "cell_of _ = None"

fun kind_of :: "Handle \<Rightarrow> SockKind" where
  "kind_of (H_udp _) = Datagram"
| "kind_of (H_listener _) = Listening"
| "kind_of _ = Connected"

fun fd_of :: "'r ShimState \<Rightarrow> Handle \<Rightarrow> Fd option" where
  "fd_of s (H_udp u) = Some (us_fd u)"
| "fd_of s (H_listener l) = Some (tl_fd l)"
| "fd_of s (H_connecting f) = Some (fg_fd (cf_guard f))"
| "fd_of s (H_stream t) = Some (ts_fd t)"
| "fd_of s (H_read r) = map_option ts_fd (Arc_get (orh_inner r) s)"
| "fd_of s (H_write w) = map_option ts_fd (Arc_get (owh_inner w) s)"

fun guard_ok :: "Handle \<Rightarrow> bool" where
  "guard_ok (H_connecting f) = armed (cf_guard f)"
| "guard_ok _ = True"

definition handle_ok :: "'r ShimState \<Rightarrow> HostId \<Rightarrow> Handle \<Rightarrow> bool" where
  "handle_ok s hid h \<longleftrightarrow> guard_ok h \<and> (\<exists>fd. fd_of s h = Some fd \<and> owns (sh_net s) hid fd (kind_of h))"

type_synonym holdings = "nat \<rightharpoonup> HostId \<times> Handle"

definition refs :: "holdings \<Rightarrow> nat \<Rightarrow> nat set" where
  "refs H a = {i. \<exists>hid h. H i = Some (hid, h) \<and> cell_of h = Some a}"

definition exclusive :: "'r ShimState \<Rightarrow> holdings \<Rightarrow> bool" where
  "exclusive s H \<longleftrightarrow> (\<forall>i j hid h h'. i \<noteq> j \<longrightarrow> H i = Some (hid, h) \<longrightarrow> H j = Some (hid, h') \<longrightarrow>
     fd_of s h = fd_of s h' \<longrightarrow> (\<exists>a. cell_of h = Some a \<and> cell_of h' = Some a))"

definition same_host :: "holdings \<Rightarrow> bool" where
  "same_host H \<longleftrightarrow> (\<forall>i j hid hid' h h' a. H i = Some (hid, h) \<longrightarrow> H j = Some (hid', h') \<longrightarrow>
     cell_of h = Some a \<longrightarrow> cell_of h' = Some a \<longrightarrow> hid = hid')"

definition claims :: "'r ShimState \<Rightarrow> holdings \<Rightarrow> bool" where
  "claims s H \<longleftrightarrow> (\<forall>i hid h. H i = Some (hid, h) \<longrightarrow> handle_ok s hid h) \<and> exclusive s H \<and> same_host H \<and>
     (\<forall>a t c. imap_get (sh_arcs s) a = Some (t, c) \<longrightarrow> c = card (refs H a)) \<and> finite (dom H)"

lemma fd_of_net [simp]: "fd_of (s\<lparr>sh_net := n\<rparr>) h = fd_of s h"
  by (cases h) (simp_all add: Arc_get_def)

lemma fd_of_direct: "cell_of h = None \<Longrightarrow> fd_of s h = fd_of s' h"
  by (cases h) simp_all

lemma fd_of_cell: "cell_of h = Some a \<Longrightarrow> fd_of s h = map_option ts_fd (Arc_get a s)"
  by (cases h) auto

lemma refs_finite: "finite (dom H) \<Longrightarrow> finite (refs H a)"
  by (rule finite_subset [of _ "dom H"]) (auto simp: refs_def)

lemma refs_update:
  "refs (H(i \<mapsto> (hid, h))) a = (if cell_of h = Some a then insert i (refs H a) else refs H a - {i})"
  "refs (H(i := None)) a = refs H a - {i}"
  by (auto simp: refs_def)

lemma exclusiveD:
  "exclusive s H \<Longrightarrow> i \<noteq> j \<Longrightarrow> H i = Some (hid, h) \<Longrightarrow> H j = Some (hid, h') \<Longrightarrow> fd_of s h = fd_of s h' \<Longrightarrow>
     \<exists>a. cell_of h = Some a \<and> cell_of h' = Some a"
  unfolding exclusive_def by blast

lemma same_hostD:
  "same_host H \<Longrightarrow> H i = Some (hid, h) \<Longrightarrow> H j = Some (hid', h') \<Longrightarrow> cell_of h = Some a \<Longrightarrow> cell_of h' = Some a \<Longrightarrow> hid = hid'"
  unfolding same_host_def by blast

lemma exclusive_cong:
  assumes "exclusive s H" "\<And>i hid h. H i = Some (hid, h) \<Longrightarrow> fd_of s' h = fd_of s h"
  shows "exclusive s' H"
  using assms unfolding exclusive_def by metis

lemma exclusive_net [simp]: "exclusive (s\<lparr>sh_net := n\<rparr>) H = exclusive s H"
  by (simp add: exclusive_def)

lemma exclusive_update:
  assumes "exclusive s H"
    and "\<And>j h'. j \<noteq> i \<Longrightarrow> H j = Some (hid, h') \<Longrightarrow> fd_of s h' = fd_of s h \<Longrightarrow> \<exists>a. cell_of h = Some a \<and> cell_of h' = Some a"
  shows "exclusive s (H(i \<mapsto> (hid, h)))"
  unfolding exclusive_def
proof (intro allI impI)
  fix j k hid' h1 h2
  assume "j \<noteq> k" "(H(i \<mapsto> (hid, h))) j = Some (hid', h1)" "(H(i \<mapsto> (hid, h))) k = Some (hid', h2)" "fd_of s h1 = fd_of s h2"
  then show "\<exists>a. cell_of h1 = Some a \<and> cell_of h2 = Some a"
    using assms(1) assms(2) [of j h1] assms(2) [of k h2] unfolding exclusive_def
    by (cases "j = i"; cases "k = i") auto
qed

lemma exclusive_drop: "exclusive s H \<Longrightarrow> exclusive s (H(i := None))"
  unfolding exclusive_def fun_upd_apply by (metis option.distinct(1))

lemma same_host_update:
  assumes "same_host H" "\<And>j hid' h' a. j \<noteq> i \<Longrightarrow> H j = Some (hid', h') \<Longrightarrow> cell_of h = Some a \<Longrightarrow> cell_of h' = Some a \<Longrightarrow> hid' = hid"
  shows "same_host (H(i \<mapsto> (hid, h)))"
  unfolding same_host_def
proof (intro allI impI)
  fix j k hid1 hid2 h1 h2 a
  assume "(H(i \<mapsto> (hid, h))) j = Some (hid1, h1)" "(H(i \<mapsto> (hid, h))) k = Some (hid2, h2)" "cell_of h1 = Some a" "cell_of h2 = Some a"
  then show "hid1 = hid2"
    using assms(1) assms(2) [of j hid1 h1 a] assms(2) [of k hid2 h2 a] unfolding same_host_def
    by (cases "j = i"; cases "k = i") auto
qed

lemma same_host_drop: "same_host H \<Longrightarrow> same_host (H(i := None))"
  unfolding same_host_def fun_upd_apply by (metis option.distinct(1))

lemma handle_ok_keeps:
  assumes "handle_ok s hid h" "net_keeps {(hid', fd')} (sh_net s) (sh_net s')" "hid = hid' \<longrightarrow> fd_of s h \<noteq> Some fd'"
    "fd_of s' h = fd_of s h"
  shows "handle_ok s' hid h"
  using assms unfolding handle_ok_def net_keeps_def by (metis prod.inject singletonD)

text \<open>The network moves on, and everybody keeps their sockets.\<close>

lemma claims_net:
  assumes "claims s H" "net_keeps {} (sh_net s) n"
  shows "claims (s\<lparr>sh_net := n\<rparr>) H"
  using assms unfolding claims_def exclusive_net handle_ok_def net_keeps_def by fastforce

text \<open>A value for a socket that was just opened.\<close>

lemma claims_open:
  assumes c: "claims s H" and n: "net_keeps {} (sh_net s) n" "opened (sh_net s) n hid fd (kind_of h)"
    and h: "H i = None" "cell_of h = None" "fd_of s h = Some fd" "guard_ok h"
  shows "claims (s\<lparr>sh_net := n\<rparr>) (H(i \<mapsto> (hid, h)))"
proof -
  have c': "claims (s\<lparr>sh_net := n\<rparr>) H" using c n(1) by (rule claims_net)
  have "fd_of s h' \<noteq> Some fd" if "H j = Some (hid, h')" for j h'
    using c that n(2) unfolding claims_def handle_ok_def opened_def by (metis option.inject)
  then have "exclusive s (H(i \<mapsto> (hid, h)))" using c h(3) by (intro exclusive_update) (auto simp: claims_def)
  moreover have "same_host (H(i \<mapsto> (hid, h)))" using c h(2) by (intro same_host_update) (auto simp: claims_def)
  moreover have "i \<notin> refs H a" for a using h(1) by (simp add: refs_def)
  ultimately show ?thesis
    using c' h n(2) by (auto simp: claims_def handle_ok_def opened_def refs_update)
qed

text \<open>A value is dropped and its socket closed.\<close>

lemma claims_close:
  assumes c: "claims s H" and h: "H i = Some (hid, h)" "cell_of h = None" "fd_of s h = Some fd"
    and n: "net_keeps {(hid, fd)} (sh_net s) n"
  shows "claims (s\<lparr>sh_net := n\<rparr>) (H(i := None))"
proof -
  have "handle_ok (s\<lparr>sh_net := n\<rparr>) hid' h'" if "H j = Some (hid', h')" "j \<noteq> i" for j hid' h'
  proof -
    have "hid' = hid \<longrightarrow> fd_of s h' \<noteq> Some fd"
      using c h that unfolding claims_def exclusive_def by (metis option.distinct(1))
    then show ?thesis using handle_ok_keeps [of s hid' h' hid fd] c that n by (simp add: claims_def)
  qed
  moreover have "i \<notin> refs H a" for a using h by (simp add: refs_def)
  ultimately show ?thesis using c exclusive_drop same_host_drop by (auto simp: claims_def refs_update)
qed

text \<open>A value turns into another one of the same socket.\<close>

lemma claims_turn:
  assumes c: "claims s H" and h: "H i = Some (hid, h)"
    and h': "cell_of h' = cell_of h" "fd_of s h' = fd_of s h" "kind_of h' = kind_of h" "guard_ok h'"
  shows "claims s (H(i \<mapsto> (hid, h')))"
proof -
  have "refs (H(i \<mapsto> (hid, h'))) a = refs H a" for a using h h'(1) by (auto simp: refs_def)
  moreover have "exclusive s (H(i \<mapsto> (hid, h')))"
  proof (rule exclusive_update)
    show "exclusive s H" using c by (simp add: claims_def)
    then show "\<exists>a. cell_of h' = Some a \<and> cell_of g = Some a"
      if "j \<noteq> i" "H j = Some (hid, g)" "fd_of s g = fd_of s h'" for j g
      using exclusiveD [of s H i j hid h g] h h'(1,2) that by simp
  qed
  moreover have "same_host (H(i \<mapsto> (hid, h')))"
  proof (rule same_host_update)
    show "same_host H" using c by (simp add: claims_def)
    then show "hid' = hid" if "H j = Some (hid', g)" "cell_of h' = Some a" "cell_of g = Some a" for j hid' g a
      using same_hostD [OF _ that(1) h that(3)] h'(1) that(2) by simp
  qed
  ultimately show ?thesis using c h h' by (auto simp: claims_def handle_ok_def)
qed

section \<open>Halves\<close>

lemma claims_cell:
  assumes "claims s H" "H i = Some (hid, h)" "cell_of h = Some a"
  obtains t where "imap_get (sh_arcs s) a = Some (t, card (refs H a))" "fd_of s h = Some (ts_fd t)"
    "owns (sh_net s) hid (ts_fd t) Connected" "i \<in> refs H a" "0 < card (refs H a)"
proof -
  have "handle_ok s hid h" using assms(1,2) by (auto simp: claims_def)
  then obtain t c where t: "imap_get (sh_arcs s) a = Some (t, c)" "fd_of s h = Some (ts_fd t)" "owns (sh_net s) hid (ts_fd t) (kind_of h)"
    using \<open>handle_ok s hid h\<close> assms(3) by (auto simp: handle_ok_def fd_of_cell Arc_get_def)
  have "kind_of h = Connected" using assms(3) by (cases h) auto
  moreover have "i \<in> refs H a" using assms by (auto simp: refs_def)
  moreover have "0 < card (refs H a)"
    using \<open>i \<in> refs H a\<close> refs_finite [of H a] assms(1) by (auto simp: claims_def card_gt_0_iff)
  ultimately show thesis using that t assms(1) by (auto simp: claims_def)
qed

text \<open>The owner of a socket is one value, or the halves of one cell.\<close>

lemma claims_apart:
  assumes c: "claims s H" and h: "H i = Some (hid, h)" "fd_of s h = Some fd" and h': "H j = Some (hid, h')" "i \<noteq> j"
    and "\<And>a. cell_of h = Some a \<Longrightarrow> cell_of h' \<noteq> Some a"
  shows "fd_of s h' \<noteq> Some fd"
  using exclusiveD [of s H i j hid h h'] assms by (auto simp: claims_def)

lemma claims_split:
  assumes c: "claims s H" and i: "H i = Some (hid, H_stream t)" and j: "H j = None"
    and new: "imap_get (sh_arcs s) (sh_next s) = None" and sp: "split_owned t s = ((r, w), s')"
  shows "claims s' (H(i \<mapsto> (hid, H_read r), j \<mapsto> (hid, H_write w)))"
proof -
  let ?a = "sh_next s"
  have s': "orh_inner r = ?a" "owh_inner w = ?a" "sh_net s' = sh_net s"
    "imap_get (sh_arcs s') = (imap_get (sh_arcs s))(?a \<mapsto> (t, 2))"
    using sp by (auto simp: split_owned_def Arc_new_def Arc_clone_def imap_simps fun_eq_iff)
  have no: "cell_of h \<noteq> Some ?a" if "H k = Some (hid', h)" for k hid' h
    using claims_cell [OF c that, of ?a] new by auto
  then have refs: "refs H ?a = {}" by (auto simp: refs_def)
  have fd: "fd_of s' h = fd_of s h" if "H k = Some (hid', h)" for k hid' h
    using no [OF that] by (cases h) (auto simp: Arc_get_def s')
  have half: "fd_of s' (H_read r) = Some (ts_fd t)" "fd_of s' (H_write w) = Some (ts_fd t)" by (simp_all add: Arc_get_def s')
  let ?H = "H(i \<mapsto> (hid, H_read r))"
  have ij: "i \<noteq> j" using i j by auto
  have apart: "fd_of s' h \<noteq> Some (ts_fd t)" if "H k = Some (hid, h)" "k \<noteq> i" for k h
    using claims_apart [OF c i _ that(1)] that fd [OF that(1)] by auto
  have e: "exclusive s' ?H"
    using exclusive_cong [of s H s'] c fd apart half
    by (intro exclusive_update) (auto simp: claims_def)
  have "exclusive s' (?H(j \<mapsto> (hid, H_write w)))"
    by (rule exclusive_update [OF e]) (use apart half s'(1,2) in \<open>auto split: if_splits\<close>)
  moreover have "same_host (?H(j \<mapsto> (hid, H_write w)))"
    using c no s'(1,2) by (intro same_host_update) (auto simp: claims_def split: if_splits)
  moreover have "handle_ok s' hid' h" if "(?H(j \<mapsto> (hid, H_write w))) k = Some (hid', h)" for k hid' h
    using that c i half fd by (auto simp: claims_def handle_ok_def s'(3) split: if_splits) (metis fd_of.simps(4) kind_of.simps(4) option.inject)+
  moreover have "refs (?H(j \<mapsto> (hid, H_write w))) b = (if b = ?a then {i, j} else refs H b)" for b
    using i j refs s'(1,2) by (auto simp: refs_def)
  ultimately show ?thesis using c ij by (auto simp: claims_def s'(4) split: if_splits)
qed

lemma claims_unref:
  assumes c: "claims s H" and i: "H i = Some (hid, h)" "cell_of h = Some a"
    and a: "imap_get (sh_arcs s) a = Some (t, c)"
  shows "1 < c \<Longrightarrow> claims (s\<lparr>sh_arcs := imap_modify a (\<lambda>(t, c). (t, c - 1)) (sh_arcs s)\<rparr>) (H(i := None))"
    "c = 1 \<Longrightarrow> net_keeps {(hid, ts_fd t)} (sh_net s) n \<Longrightarrow>
       claims (s\<lparr>sh_net := n, sh_arcs := imap_shift_remove a (sh_arcs s)\<rparr>) (H(i := None))"
proof -
  have t: "c = card (refs H a)" "fd_of s h = Some (ts_fd t)" "i \<in> refs H a"
    using claims_cell [OF c i] a by auto
  have fin: "finite (refs H a)" using c refs_finite by (auto simp: claims_def)
  have minus: "refs H b - {i} = refs H b" if "b \<noteq> a" for b
    using i that by (auto simp: refs_def)
  note drop = exclusive_drop same_host_drop
  {
    let ?s = "s\<lparr>sh_arcs := imap_modify a (\<lambda>(t, c). (t, c - 1)) (sh_arcs s)\<rparr>"
    have fd: "fd_of ?s h' = fd_of s h'" for h'
      by (cases h') (auto simp: Arc_get_def imap_get_modify option.map_comp comp_def split_beta)
    have "exclusive ?s H" using exclusive_cong [of s H ?s] c fd by (simp add: claims_def)
    moreover have "c' = card (refs (H(i := None)) b)" if b: "imap_get (sh_arcs ?s) b = Some (t', c')" for b t' c'
    proof (cases "b = a")
      case True
      then show ?thesis using b a t(1,3) fin by (auto simp: refs_update imap_get_modify)
    next
      case False
      then have "imap_get (sh_arcs s) b = Some (t', c')" using b by (simp add: imap_get_modify)
      then show ?thesis using c minus [OF False] by (simp add: claims_def refs_update)
    qed
    moreover have "handle_ok ?s hid' h' = handle_ok s hid' h'" for hid' h' unfolding handle_ok_def fd by simp
    ultimately show "claims ?s (H(i := None))"
      using c drop unfolding claims_def by simp
  }
  assume one: "c = 1" and n: "net_keeps {(hid, ts_fd t)} (sh_net s) n"
  let ?s = "s\<lparr>sh_net := n, sh_arcs := imap_shift_remove a (sh_arcs s)\<rparr>" and ?H = "H(i := None)"
  have only: "refs H a = {i}" using t(1,3) one by (metis card_1_singletonE singletonD)
  have other: "cell_of h' \<noteq> Some a" if "?H k = Some (hid', h')" for k hid' h'
    using only that by (auto simp: refs_def split: if_splits)
  have fd: "fd_of ?s h' = fd_of s h'" if "?H k = Some (hid', h')" for k hid' h'
    using other [OF that] by (cases h') (auto simp: Arc_get_def imap_simps)
  have "handle_ok ?s hid' h'" if h': "?H k = Some (hid', h')" for k hid' h'
  proof -
    have k: "H k = Some (hid', h')" "i \<noteq> k" using h' by (auto split: if_splits)
    have "hid' = hid \<longrightarrow> fd_of s h' \<noteq> Some (ts_fd t)"
      using claims_apart [OF c i(1) t(2), of k h'] k other [OF h'] i(2) by auto
    then show ?thesis using handle_ok_keeps [of s hid' h' hid "ts_fd t" ?s] c k(1) n fd [OF h'] by (simp add: claims_def)
  qed
  moreover have "exclusive ?s ?H"
    using exclusive_cong [OF exclusive_drop fd] c by (auto simp: claims_def)
  ultimately show "claims ?s ?H"
    using c drop(2) by (auto simp: claims_def refs_update minus imap_simps split: if_splits)
qed

lemma claims_unite:
  assumes c: "claims s H" and i: "H i = Some (hid, H_read r)" and j: "H j = Some (hid', H_write w)"
    and a: "orh_inner r = a" "owh_inner w = a" "imap_get (sh_arcs s) a = Some (t, 2)"
  shows "claims (s\<lparr>sh_arcs := imap_shift_remove a (sh_arcs s)\<rparr>) (H(j := None, i \<mapsto> (hid, H_stream t)))"
proof -
  let ?s = "s\<lparr>sh_arcs := imap_shift_remove a (sh_arcs s)\<rparr>" and ?H = "H(j := None)"
  have t: "card (refs H a) = 2" "fd_of s (H_read r) = Some (ts_fd t)" "i \<in> refs H a" "j \<in> refs H a"
    "owns (sh_net s) hid (ts_fd t) Connected"
    using claims_cell [OF c i, of a] claims_cell [OF c j, of a] a by auto
  have ij: "i \<noteq> j" using i j by auto
  have "finite (refs H a)" using c refs_finite by (auto simp: claims_def)
  then have only: "refs H a = {i, j}" using t(1,3,4) ij by (metis card_2_iff doubleton_eq_iff insertE singletonD)
  have other: "cell_of h \<noteq> Some a" if "H k = Some (hid1, h)" "k \<noteq> i" "k \<noteq> j" for k hid1 h
    using only that by (auto simp: refs_def)
  have fd: "fd_of ?s h = fd_of s h" if "H k = Some (hid1, h)" "k \<noteq> i" "k \<noteq> j" for k hid1 h
    using other [OF that] by (cases h) (auto simp: Arc_get_def imap_simps)
  have "exclusive ?s (H(j := None, i := None))"
    by (rule exclusive_cong [of s], (rule exclusive_drop)+) (use c fd in \<open>auto simp: claims_def split: if_splits\<close>)
  then have "exclusive ?s (H(j := None, i := None, i \<mapsto> (hid, H_stream t)))"
  proof (rule exclusive_update)
    fix k h assume k: "k \<noteq> i" "(H(j := None, i := None)) k = Some (hid, h)" "fd_of ?s h = fd_of ?s (H_stream t)"
    then have "H k = Some (hid, h)" "k \<noteq> j" by (auto split: if_splits)
    then show "\<exists>a. cell_of (H_stream t) = Some a \<and> cell_of h = Some a"
      using claims_apart [OF c i t(2), of k h] k fd other a by auto
  qed
  moreover have "same_host (H(j := None, i \<mapsto> (hid, H_stream t)))"
    using c same_host_drop by (intro same_host_update) (auto simp: claims_def)
  moreover have "refs (H(j := None, i \<mapsto> (hid, H_stream t))) b = (if b = a then {} else refs H b)" for b
    using only i j a by (auto simp: refs_def)
  moreover have "handle_ok ?s hid1 h" if "(H(j := None, i \<mapsto> (hid, H_stream t))) k = Some (hid1, h)" for k hid1 h
    using that c fd t(5) by (auto simp: claims_def handle_ok_def split: if_splits)
  ultimately show ?thesis using c by (auto simp: claims_def imap_simps split: if_splits)
qed

end
