(* ===== verification/Shim_Safe.thy ===== *)
theory Shim_Safe
  imports Shim_Prog
begin

text \<open>
  Programs over the network shim keep the ownership of their sockets, step by step, so that they
  never make the kernel panic; and connects that fail or are dropped leak no descriptor.
\<close>

section \<open>The invariant of a program\<close>

definition prog_inv :: "'r Prog \<Rightarrow> bool" where
  "prog_inv p \<longleftrightarrow> sched_inv (pg_sched p) \<and> net_ok (pg_net p) \<and> claims (pg_shim p) (imap_get (pg_handles p)) \<and>
     (\<forall>i. imap_get (pg_handles p) i \<noteq> None \<longrightarrow> i < pg_next p) \<and>
     (\<forall>a. imap_get (sh_arcs (pg_shim p)) a \<noteq> None \<longrightarrow> a < sh_next (pg_shim p))"

abbreviation held_by :: "'r Prog \<Rightarrow> nat \<Rightarrow> HostId \<Rightarrow> Handle \<Rightarrow> bool" where
  "held_by p i hid h \<equiv> imap_get (pg_handles p) i = Some (hid, h)"

lemma put_net_simps [simp]:
  "pg_net (put_net n p) = n" "pg_handles (put_net n p) = pg_handles p" "sh_arcs (pg_shim (put_net n p)) = sh_arcs (pg_shim p)"
  "pg_next (put_net n p) = pg_next p" "pg_sched (put_net n p) = pg_sched p" "pg_shim (put_net n p) = (pg_shim p)\<lparr>sh_net := n\<rparr>"
  by (simp_all add: put_net_def pg_net_def)

lemma get_updates:
  "imap_get (imap_insert i v m) = (imap_get m)(i \<mapsto> v)" "imap_get (imap_shift_remove i m) = (imap_get m)(i := None)"
  by (simp_all add: fun_eq_iff imap_simps)

lemma inv_owns:
  assumes "prog_inv p" "held_by p i hid h"
  obtains fd where "fd_of (pg_shim p) h = Some fd" "owns (pg_net p) hid fd (kind_of h)" "guard_ok h" "net_ok (pg_net p)"
proof -
  have "handle_ok (pg_shim p) hid h" using assms by (auto simp: prog_inv_def claims_def)
  then show thesis using that assms(1) by (auto simp: handle_ok_def prog_inv_def pg_net_def)
qed

lemma inv_put: "prog_inv p \<Longrightarrow> net_keeps {} (pg_net p) n \<Longrightarrow> prog_inv (put_net n p)"
  using claims_net [of "pg_shim p" _ n] by (auto simp: prog_inv_def pg_net_def net_keeps_def)

lemma inv_quiet: "prog_inv p \<Longrightarrow> stays_quiet hid (pg_net p) m \<Longrightarrow> returns (map_option (\<lambda>n. put_net n p) m) prog_inv"
  using inv_put by (auto simp: stays_quiet_def returns_def)

lemma inv_keep:
  assumes "prog_inv p" "net_keeps {} (pg_net p) n" "opened (pg_net p) n hid fd (kind_of h)"
    and "cell_of h = None" "fd_of (pg_shim p) h = Some fd" "guard_ok h"
  shows "prog_inv (keep_handle hid h (put_net n p))"
proof -
  have "imap_get (pg_handles p) (pg_next p) = None" using assms(1) unfolding prog_inv_def by blast
  then have "claims ((pg_shim p)\<lparr>sh_net := n\<rparr>) ((imap_get (pg_handles p))(pg_next p \<mapsto> (hid, h)))"
    using claims_open [of "pg_shim p" "imap_get (pg_handles p)" n hid fd h "pg_next p"] assms by (simp add: prog_inv_def pg_net_def)
  then show ?thesis
    using assms(1,2) by (auto simp: prog_inv_def pg_net_def keep_handle_def set_handle_def get_updates net_keeps_def less_Suc_eq)
qed

lemma inv_dropped:
  assumes "prog_inv p" "held_by p i hid h" "cell_of h = None" "fd_of (pg_shim p) h = Some fd"
    and "net_keeps {(hid, fd)} (pg_net p) n"
  shows "prog_inv (drop_handle i (put_net n p))"
  using claims_close [of "pg_shim p" "imap_get (pg_handles p)" i hid h fd n] assms
  by (auto simp: prog_inv_def pg_net_def drop_handle_def get_updates net_keeps_def)

lemma inv_turn:
  assumes "prog_inv p" "held_by p i hid h" "cell_of h' = cell_of h" "fd_of (pg_shim p) h' = fd_of (pg_shim p) h"
    and "kind_of h' = kind_of h" "guard_ok h'"
  shows "prog_inv (set_handle i hid h' p)"
  using claims_turn [of "pg_shim p" "imap_get (pg_handles p)" i hid h h'] assms
  by (auto simp: prog_inv_def pg_net_def set_handle_def get_updates)

lemma run_on_inv:
  assumes "prog_inv p"
  shows "prog_inv (run_on hid p)" "net_current (pg_net (run_on hid p)) = Some hid" "pg_handles (run_on hid p) = pg_handles p"
    "net_fabric (pg_net (run_on hid p)) = net_fabric (pg_net p)"
proof -
  let ?n = "set_current hid (pg_net p)"
  have fab: "net_fabric ?n = net_fabric (pg_net p)" "net_current ?n = Some hid" by (simp_all add: set_current_def)
  have "net_ok (pg_net p)" using assms by (simp add: prog_inv_def)
  then have "net_keeps {} (pg_net p) ?n" by (simp add: net_keeps_def net_ok_def net_inv_def owns_def fab)
  then show "prog_inv (run_on hid p)" using assms by (simp add: run_on_def inv_put)
  show "net_current (pg_net (run_on hid p)) = Some hid" "pg_handles (run_on hid p) = pg_handles p"
    "net_fabric (pg_net (run_on hid p)) = net_fabric (pg_net p)" by (simp_all add: run_on_def fab)
qed

text \<open>Dropping a value with a socket of its own.\<close>

lemma close_inv:
  assumes p: "prog_inv p" "net_current (pg_net p) = Some hid"
    and h: "held_by p i hid h" "cell_of h = None" "fd_of (pg_shim p) h = Some fd"
  shows "returns (map_option (\<lambda>n. drop_handle i (put_net n p)) (fd_close fd (pg_net p))) prog_inv"
proof -
  obtain k s where "net_ok (pg_net p)" "kernel_of (net_fabric (pg_net p)) hid = Some k" "owned k fd s"
    using inv_owns [OF p(1) h(1)] h(3) unfolding owns_def by (metis option.inject)
  then obtain n where n: "fd_close fd (pg_net p) = Some n" "net_keeps {(hid, fd)} (pg_net p) n"
    using close_keeps [of "pg_net p" hid k fd s] p(2) by (auto simp: returns_def)
  then show ?thesis using inv_dropped [OF p(1) h n(2)] by simp
qed

section \<open>Steps on sockets and listeners\<close>

lemma on_udp_inv:
  assumes p: "prog_inv p" "net_current (pg_net p) = Some hid" and h: "held_by p i hid (H_udp u)" "has_call (H_udp u) c"
  shows "returns (on_udp_sock i hid u c p) prog_inv"
proof -
  have o: "net_ok (pg_net p)" "owns (pg_net p) hid (us_fd u) Datagram" using inv_owns [OF p(1) h(1)] by auto
  show ?thesis
    using h inv_quiet [OF p(1) udp_call_quiet [OF o(1) p(2) o(2)]] close_inv [OF p h(1)]
    by (cases c) (simp_all add: has_call_def us_drop_def)
qed

lemma on_listener_inv:
  assumes p: "prog_inv p" "net_current (pg_net p) = Some hid" and h: "held_by p i hid (H_listener l)" "has_call (H_listener l) c"
  shows "returns (on_listener i hid l c p) prog_inv"
proof -
  have o: "net_ok (pg_net p)" "owns (pg_net p) hid (tl_fd l) Listening" using inv_owns [OF p(1) h(1)] by auto
  have acc: "returns (on_listener i hid l (O_accept w) p) prog_inv" for w
  proof -
    obtain r n where r: "tl_poll_accept l w (pg_net p) = Some (r, n)" "net_keeps {} (pg_net p) n"
        "\<And>t peer. r = Ready (Ok (t, peer)) \<Longrightarrow> opened (pg_net p) n hid (ts_fd t) Connected"
      using tl_accept_opens [OF o(1) p(2) o(2), of w] by (auto simp: returns_def)
    then show ?thesis
      using inv_put [OF p(1) r(2)] inv_keep [OF p(1) r(2), of hid _ "H_stream _"]
      by (auto simp: Let_def split: Poll.split sum.split)
  qed
  show ?thesis
    using h acc inv_quiet [OF p(1) listener_call_quiet [OF o(1) p(2) o(2)]] close_inv [OF p h(1)]
    by (cases c) (simp_all add: has_call_def tl_drop_def)
qed

lemma on_connecting_inv:
  assumes p: "prog_inv p" "net_current (pg_net p) = Some hid" and h: "held_by p i hid (H_connecting f)" "has_call (H_connecting f) c"
  shows "returns (on_connecting i hid f c p) prog_inv"
proof -
  let ?fd = "fg_fd (cf_guard f)"
  have o: "net_ok (pg_net p)" "owns (pg_net p) hid ?fd Connected" and ar: "armed (cf_guard f)"
    using inv_owns [OF p(1) h(1)] by auto
  have g: "cf_guard f = \<lparr>fg_fd = ?fd, armed = True\<rparr>" using ar by (cases "cf_guard f") simp
  obtain k s where k: "kernel_of (net_fabric (pg_net p)) hid = Some k" "owned k ?fd s" "tcb s \<noteq> None" "typed s"
    using owns_socket [OF o] by (metis kind_ok.simps(3))
  have ty: "sk_ty s = Stream" using k(3,4) by (simp add: typed_def)
  have poll: "returns (on_connecting i hid f (O_poll w) p) prog_inv" for w
  proof -
    obtain r n where r: "ts_connect_poll f w (pg_net p) = Some (r, n)"
        "case r of
           Inl (Inl _) \<Rightarrow> net_keeps {(hid, ?fd)} (pg_net p) n
         | Inl (Inr t) \<Rightarrow> net_keeps {} (pg_net p) n \<and> owns n hid ?fd Connected \<and> ts_fd t = ?fd
         | Inr f' \<Rightarrow> net_keeps {} (pg_net p) n \<and> owns n hid ?fd Connected \<and> f' = f"
      using ts_connect_poll_cases [OF o(1) p(2) k(1) g k(2) ty, of w] k(3) by (auto simp: returns_def)
    have "prog_inv (drop_handle i (put_net n p))" if "net_keeps {(hid, ?fd)} (pg_net p) n"
      using inv_dropped [OF p(1) h(1) _ _ that] by simp
    moreover have "prog_inv (set_handle i hid h' (put_net n p))"
      if "net_keeps {} (pg_net p) n" "h' = H_connecting f \<or> h' = H_stream t \<and> ts_fd t = ?fd" for h' t
      using inv_turn [OF inv_put [OF p(1) that(1)], of i hid "H_connecting f" h'] h(1) that(2) ar by auto
    ultimately show ?thesis using r by (auto simp: Let_def split: sum.splits)
  qed
  have "returns (map_option (\<lambda>n. drop_handle i (put_net n p)) (ts_connect_cancel f (pg_net p))) prog_inv"
    using close_inv [OF p h(1)] ar by (simp add: ts_connect_cancel_def FdGuard_drop_def)
  then show ?thesis using h poll by (cases c) (simp_all add: has_call_def)
qed

lemma inv_split:
  assumes p: "prog_inv p" and h: "held_by p i hid (H_stream t)"
  shows "returns (on_stream i hid t O_split p) prog_inv"
proof -
  obtain r w s where sp: "split_owned t (pg_shim p) = ((r, w), s)" by (metis prod.exhaust_sel)
  have none: "imap_get (pg_handles p) (pg_next p) = None" "imap_get (sh_arcs (pg_shim p)) (sh_next (pg_shim p)) = None"
    using p unfolding prog_inv_def by blast+
  have c: "claims s ((imap_get (pg_handles p))(i \<mapsto> (hid, H_read r), pg_next p \<mapsto> (hid, H_write w)))"
    using claims_split [OF _ h none sp] p by (simp add: prog_inv_def)
  have s: "sh_net s = sh_net (pg_shim p)" "\<And>a. imap_get (sh_arcs s) a \<noteq> None \<Longrightarrow> a < sh_next s"
    using sp p by (auto simp: split_owned_def Arc_new_def Arc_clone_def imap_simps prog_inv_def less_Suc_eq split: if_splits)
  have i: "i < pg_next p" using p h by (auto simp: prog_inv_def)
  show ?thesis
    using p c s i by (auto simp: sp prog_inv_def keep_handle_def set_handle_def get_updates pg_net_def less_Suc_eq)
qed

lemma on_stream_inv:
  assumes p: "prog_inv p" "net_current (pg_net p) = Some hid" and h: "held_by p i hid (H_stream t)" "has_call (H_stream t) c"
  shows "returns (on_stream i hid t c p) prog_inv"
proof -
  have o: "net_ok (pg_net p)" "owns (pg_net p) hid (ts_fd t) Connected" using inv_owns [OF p(1) h(1)] by auto
  show ?thesis
    using h inv_quiet [OF p(1) stream_call_quiet [OF o(1) p(2) o(2)]] close_inv [OF p h(1)] inv_split [OF p(1) h(1)]
    by (cases c) (simp_all add: has_call_def ts_drop_def del: on_stream.simps(2))
qed

section \<open>Steps on halves\<close>

lemma put_net_eq: "p\<lparr>pg_shim := (pg_shim p)\<lparr>sh_net := n\<rparr>\<rparr> = put_net n p"
  by (simp add: put_net_def)

lemma on_arc_quiet:
  assumes p: "prog_inv p" and h: "held_by p i hid h" "cell_of h = Some a"
    and f: "\<And>t. owns (pg_net p) hid (ts_fd t) Connected \<Longrightarrow> stays_quiet hid (pg_net p) (map_option snd (f t (pg_net p)))"
  shows "returns (on_arc a f (pg_shim p)) (\<lambda>(x, s). \<exists>n. s = (pg_shim p)\<lparr>sh_net := n\<rparr> \<and>
    net_keeps {} (pg_net p) n \<and> net_current n = Some hid)"
proof -
  have c: "claims (pg_shim p) (imap_get (pg_handles p))" using p by (simp add: prog_inv_def)
  obtain t c where t: "imap_get (sh_arcs (pg_shim p)) a = Some (t, c)" "owns (pg_net p) hid (ts_fd t) Connected"
    using claims_cell [OF c h] unfolding pg_net_def by metis
  then show ?thesis
    using f [OF t(2)] by (auto simp: on_arc_def Arc_get_def stays_quiet_def returns_def pg_net_def)
qed

lemma arc_call_inv:
  assumes p: "prog_inv p" and h: "held_by p i hid h" "cell_of h = Some a"
    and f: "\<And>t. owns (pg_net p) hid (ts_fd t) Connected \<Longrightarrow> stays_quiet hid (pg_net p) (map_option snd (f t (pg_net p)))"
  shows "returns (map_option (\<lambda>s. p\<lparr>pg_shim := s\<rparr>) (map_option snd (on_arc a f (pg_shim p)))) prog_inv"
  using on_arc_quiet [where f = f, OF p h f] inv_put [OF p] by (auto simp: returns_def put_net_eq)

text \<open>A reference is given up; the last one closes the socket.\<close>

lemma unref_inv:
  assumes p: "prog_inv p" "net_current (pg_net p) = Some hid" and h: "held_by p i hid h" "cell_of h = Some a"
  shows "returns (Arc_drop a (pg_shim p)) (\<lambda>s. prog_inv (drop_handle i (p\<lparr>pg_shim := s\<rparr>)))"
proof -
  let ?s = "pg_shim p" and ?H = "imap_get (pg_handles p)"
  have c: "claims ?s ?H" "net_ok (sh_net ?s)" using p by (simp_all add: prog_inv_def pg_net_def)
  obtain t where t: "imap_get (sh_arcs ?s) a = Some (t, card (refs ?H a))" "owns (sh_net ?s) hid (ts_fd t) Connected" "0 < card (refs ?H a)"
    using claims_cell [OF c(1) h] by metis
  note un = claims_unref [OF c(1) h t(1)]
  show ?thesis
  proof (cases "card (refs ?H a) = 1")
    case True
    obtain k st where k: "kernel_of (net_fabric (sh_net ?s)) hid = Some k" "owned k (ts_fd t) st" using t(2) by (auto simp: owns_def)
    obtain n where n: "fd_close (ts_fd t) (sh_net ?s) = Some n" "net_keeps {(hid, ts_fd t)} (sh_net ?s) n"
      using close_keeps [OF c(2) _ k] p(2) by (auto simp: returns_def pg_net_def)
    have "net_ok n" using n(2) by (simp add: net_keeps_def)
    then show ?thesis
      using un(2) [OF True n(2)] t(1) True n(1) p(1)
      by (auto simp: Arc_drop_def ts_drop_def prog_inv_def pg_net_def drop_handle_def get_updates split: if_splits)
  next
    case False
    then have "1 < card (refs ?H a)" using t(3) by simp
    then show ?thesis
      using un(1) t(1) p(1) by (auto simp: Arc_drop_def prog_inv_def pg_net_def drop_handle_def get_updates imap_get_modify split: if_splits)
  qed
qed

lemma owh_drop_inv:
  assumes p: "prog_inv p" "net_current (pg_net p) = Some hid" and h: "held_by p i hid h" "cell_of h = Some (owh_inner w)"
  shows "returns (map_option (\<lambda>s. drop_handle i (p\<lparr>pg_shim := s\<rparr>)) (owh_drop w (pg_shim p))) prog_inv"
proof (cases "shutdown_on_drop w")
  case True
  have ok: "net_ok (pg_net p)" using p(1) by (simp add: prog_inv_def)
  obtain x n where x: "on_arc (owh_inner w) ts_poll_shutdown_priv (pg_shim p) = Some (x, (pg_shim p)\<lparr>sh_net := n\<rparr>)"
      "net_keeps {} (pg_net p) n" "net_current n = Some hid"
    using on_arc_quiet [OF p(1) h, of ts_poll_shutdown_priv] stream_quiet(2) [OF ok p(2)] by (auto simp: returns_def)
  have "returns (Arc_drop (owh_inner w) (pg_shim (put_net n p))) (\<lambda>s. prog_inv (drop_handle i ((put_net n p)\<lparr>pg_shim := s\<rparr>)))"
    using inv_put [OF p(1) x(2)] x(3) h by (intro unref_inv) simp_all
  then show ?thesis using True x(1) by (auto simp: owh_drop_def returns_def put_net_def)
next
  case False
  then show ?thesis using unref_inv [OF p h] by (auto simp: owh_drop_def returns_def)
qed

lemma on_read_inv:
  assumes p: "prog_inv p" "net_current (pg_net p) = Some hid" and h: "held_by p i hid (H_read r)" "has_call (H_read r) c"
  shows "returns (on_read i hid r c p) prog_inv"
proof -
  have ok: "net_ok (pg_net p)" using p(1) by (simp add: prog_inv_def)
  note q = stream_call_quiet [OF ok p(2)]
  note call = arc_call_inv [OF p(1) h(1), where a = "orh_inner r"]
  have "returns (map_option (\<lambda>s. p\<lparr>pg_shim := s\<rparr>) (read_call r rc (pg_shim p))) prog_inv" for rc
    using call [of "\<lambda>t. ts_try_read t _", OF _ q [of _ "S_try_read _", simplified]]
      call [of "\<lambda>t. ts_try_read_vectored t _", OF _ q [of _ "S_try_read_vectored _", simplified]]
      call [of "\<lambda>t. ts_peek t _ _", OF _ q [of _ "S_peek _ _", simplified]]
      call [of "\<lambda>t. ts_poll_peek t _ _", OF _ q [of _ "S_poll_peek _ _", simplified]]
      call [of ts_local_addr, OF _ q [of _ S_local_addr, simplified]]
      call [of ts_peer_addr, OF _ q [of _ S_peer_addr, simplified]]
      call [of "\<lambda>t. ts_poll_read_priv t _ _", OF _ q [of _ "S_poll_read _ _", simplified ts_poll_read_def stream_call.simps]]
    by (cases rc) (simp_all add: orh_try_read_def orh_try_read_vectored_def orh_peek_def orh_poll_peek_def orh_local_addr_def
        orh_peer_addr_def orh_poll_read_def)
  then show ?thesis
    using h unref_inv [OF p h(1), of "orh_inner r"] by (cases c) (simp_all add: has_call_def orh_drop_def comp_def)
qed

lemma on_write_inv:
  assumes p: "prog_inv p" "net_current (pg_net p) = Some hid" and h: "held_by p i hid (H_write w)" "has_call (H_write w) c"
  shows "returns (on_write i hid w c p) prog_inv"
proof -
  have ok: "net_ok (pg_net p)" using p(1) by (simp add: prog_inv_def)
  note q = stream_call_quiet [OF ok p(2)]
  note call = arc_call_inv [OF p(1) h(1), where a = "owh_inner w"]
  have "returns (map_option (\<lambda>s. p\<lparr>pg_shim := s\<rparr>) (write_call w wc (pg_shim p))) prog_inv" for wc
    using call [of "\<lambda>t. ts_try_write t _", OF _ q [of _ "S_try_write _", simplified]]
      call [of ts_local_addr, OF _ q [of _ S_local_addr, simplified]]
      call [of ts_peer_addr, OF _ q [of _ S_peer_addr, simplified]]
      call [of "\<lambda>t. ts_poll_write_priv t _ _", OF _ q [of _ "S_poll_write _ _", simplified ts_poll_write_def stream_call.simps]] p(1)
    by (cases wc) (simp_all add: owh_try_write_def owh_local_addr_def owh_peer_addr_def owh_poll_write_def owh_poll_flush_def)
  moreover have "returns (on_write i hid w O_shutdown p) prog_inv"
  proof -
    obtain x n where x: "on_arc (owh_inner w) ts_poll_shutdown_priv (pg_shim p) = Some (x, (pg_shim p)\<lparr>sh_net := n\<rparr>)"
        "net_keeps {} (pg_net p) n"
      using on_arc_quiet [OF p(1) h(1), of _ ts_poll_shutdown_priv] stream_quiet(2) [OF ok p(2)] by (auto simp: returns_def)
    have "prog_inv (set_handle i hid (H_write w') (put_net n p))" if "owh_inner w' = owh_inner w" for w'
      using inv_turn [OF inv_put [OF p(1) x(2)], of i hid "H_write w" "H_write w'"] h(1) that by simp
    then show ?thesis using x(1) by (auto simp: owh_poll_shutdown_def put_net_eq split: Poll.split sum.split)
  qed
  moreover have "returns (on_write i hid w O_forget p) prog_inv" "returns (on_write i hid w O_drop p) prog_inv"
    using owh_drop_inv [OF p h(1), of "w\<lparr>shutdown_on_drop := False\<rparr>"] owh_drop_inv [OF p h(1), of w]
    by (simp_all add: forget_def)
  ultimately show ?thesis using h(2) by (cases c) (simp_all add: has_call_def del: on_write.simps(2-4))
qed

lemma on_handle_inv:
  assumes "prog_inv p" "net_current (pg_net p) = Some hid" "held_by p i hid h" "has_call h c"
  shows "returns (on_handle i hid h c p) prog_inv"
  using assms on_udp_inv on_listener_inv on_connecting_inv on_stream_inv on_read_inv on_write_inv
  by (cases h) (simp_all add: on_handle_def)

section \<open>Reuniting halves\<close>

lemma modify_back:
  "imap_get m a = Some (t, c) \<Longrightarrow> 0 < c \<Longrightarrow>
     imap_modify a (\<lambda>(t, c). (t, c + 1)) (imap_modify a (\<lambda>(t, c). (t, c - 1)) m) = (m :: (nat, TcpSock \<times> nat) imap)"
  by (induction m) auto

lemma reunite_other_inv:
  assumes p: "prog_inv p" "net_current (pg_net p) = Some hid'"
    and h: "held_by p i hid (H_read r)" "held_by p j hid' (H_write w)" and ne: "orh_inner r \<noteq> owh_inner w"
  shows "returns (reunite_handles i hid r j hid' w p) prog_inv"
proof -
  let ?a = "owh_inner w" and ?s = "pg_shim p"
  have c: "claims ?s (imap_get (pg_handles p))" and ok: "net_ok (pg_net p)" using p(1) by (auto simp: prog_inv_def)
  obtain t m where t: "imap_get (sh_arcs ?s) ?a = Some (t, m)" "0 < m" "owns (pg_net p) hid' (ts_fd t) Connected"
    using claims_cell [OF c h(2), of ?a] unfolding pg_net_def by (metis cell_of.simps(2))
  have get: "Arc_get ?a (Arc_clone ?a ?s) = Some t" "sh_net (Arc_clone ?a ?s) = pg_net p"
    using t(1) by (simp_all add: Arc_get_def Arc_clone_def imap_simps pg_net_def)
  have "\<exists>n. owh_drop w (Arc_clone ?a ?s) = Some (?s\<lparr>sh_net := n\<rparr>) \<and> net_keeps {} (pg_net p) n"
  proof (cases "shutdown_on_drop w")
    case True
    obtain n where "map_option snd (ts_poll_shutdown_priv t (pg_net p)) = Some n" "net_keeps {} (pg_net p) n"
      using stream_quiet(2) [OF ok p(2) t(3)] by (auto simp: stays_quiet_def returns_def)
    then show ?thesis using True get clone_drop [OF t(1,2)] by (auto simp: owh_drop_def on_arc_def)
  next
    case False
    have "Arc_clone ?a ?s = (Arc_clone ?a ?s)\<lparr>sh_net := pg_net p\<rparr>" using get(2) by simp
    then have "Arc_drop ?a (Arc_clone ?a ?s) = Some (?s\<lparr>sh_net := pg_net p\<rparr>)" using clone_drop [OF t(1,2)] by metis
    then show ?thesis using False net_keeps_refl [OF ok] by (auto simp: owh_drop_def)
  qed
  then obtain n where n: "owh_drop w (Arc_clone ?a ?s) = Some (?s\<lparr>sh_net := n\<rparr>)" "net_keeps {} (pg_net p) n" by blast
  let ?q = "put_net n p"
  have "prog_inv (set_handle j hid' (H_write w) ?q)"
    using inv_turn [OF inv_put [OF p(1) n(2)], of j hid' "H_write w" "H_write w"] h(2) by simp
  then have "prog_inv (set_handle i hid (H_read r) (set_handle j hid' (H_write w) ?q))"
    using h by (intro inv_turn [of _ i hid "H_read r"]) (auto simp: set_handle_def imap_simps)
  moreover have w: "\<lparr>owh_inner = ?a, shutdown_on_drop = shutdown_on_drop w\<rparr> = w" by (cases w) simp
  ultimately show ?thesis using ne n(1) by (simp add: reunite_handles_def reunite_def Let_def put_net_eq w)
qed

lemma reunite_same_inv:
  assumes p: "prog_inv p" "net_current (pg_net p) = Some hid'"
    and h: "held_by p i hid (H_read r)" "held_by p j hid' (H_write w)" and eq: "orh_inner r = owh_inner w"
  shows "returns (reunite_handles i hid r j hid' w p) prog_inv"
proof -
  let ?a = "owh_inner w" and ?s = "pg_shim p" and ?H = "imap_get (pg_handles p)"
  have c: "claims ?s ?H" using p(1) by (auto simp: prog_inv_def)
  obtain t where t: "imap_get (sh_arcs ?s) ?a = Some (t, card (refs ?H ?a))" "i \<in> refs ?H ?a" "j \<in> refs ?H ?a"
    using claims_cell [OF c h(1), of ?a] claims_cell [OF c h(2), of ?a] eq by (metis cell_of.simps(1,2))
  have ij: "i \<noteq> j" using h by auto
  have fin: "finite (refs ?H ?a)" using c refs_finite by (auto simp: claims_def)
  have two: "2 \<le> card (refs ?H ?a)" using card_mono [OF fin, of "{i, j}"] t(2,3) ij by simp
  show ?thesis
  proof (cases "card (refs ?H ?a) = 2")
    case True
    then have re: "reunite r w ?s = Some (Inr t, ?s\<lparr>sh_arcs := imap_shift_remove ?a (sh_arcs ?s)\<rparr>)"
      using reunite_same [of t r w ?s] eq t(1) by (simp add: halves_of_def)
    have "claims (?s\<lparr>sh_arcs := imap_shift_remove ?a (sh_arcs ?s)\<rparr>) (?H(j := None, i \<mapsto> (hid, H_stream t)))"
      using claims_unite [OF c h eq refl] t(1) True by simp
    then show ?thesis
      using p(1) h re by (auto simp: reunite_handles_def Let_def prog_inv_def pg_net_def set_handle_def drop_handle_def get_updates)
  next
    case False
    then have three: "2 < card (refs ?H ?a)" using two by simp
    let ?s1 = "?s\<lparr>sh_arcs := imap_modify ?a (\<lambda>(t, c). (t, c - 1)) (sh_arcs ?s)\<rparr>"
    have "owh_drop (w\<lparr>shutdown_on_drop := False\<rparr>) ?s = Some ?s1"
      using t(1) three by (simp add: owh_drop_def Arc_drop_def)
    moreover have "Arc_try_unwrap ?a ?s1 = Some (Inl ?a, ?s1)"
      using t(1) three by (simp add: Arc_try_unwrap_def imap_get_modify)
    moreover have "Arc_clone ?a ?s1 = ?s" using modify_back [OF t(1)] three by (simp add: Arc_clone_def)
    ultimately have re: "reunite r w ?s = Some (Inl (\<lparr>orh_inner = ?a\<rparr>, \<lparr>owh_inner = ?a, shutdown_on_drop = True\<rparr>), ?s)"
      using eq by (simp add: reunite_def)
    let ?w = "\<lparr>owh_inner = ?a, shutdown_on_drop = True\<rparr>"
    have "prog_inv (set_handle j hid' (H_write ?w) p)"
      using inv_turn [OF p(1) h(2), of "H_write ?w"] by simp
    then have "prog_inv (set_handle i hid (H_read r) (set_handle j hid' (H_write ?w) p))"
      using h by (intro inv_turn [of _ i hid "H_read r"]) (auto simp: set_handle_def imap_simps)
    moreover have "\<lparr>orh_inner = ?a\<rparr> = r" using eq by (cases r) simp
    ultimately show ?thesis using re by (simp add: reunite_handles_def Let_def)
  qed
qed

section \<open>Programs are safe\<close>

lemma bind_step_inv:
  assumes p: "prog_inv p" and k: "kernel_of (net_fabric (pg_net p)) hid \<noteq> None"
  shows "returns (shim_step on_packet p (Do_udp_bind hid a)) prog_inv"
    "returns (shim_step on_packet p (Do_tcp_bind hid a)) prog_inv"
    "returns (shim_step on_packet p (Do_connect hid a w)) prog_inv"
proof -
  note e = run_on_inv [OF p, of hid]
  let ?p = "run_on hid p" and ?n = "pg_net (run_on hid p)"
  have ok: "net_ok ?n" using e(1) by (simp add: prog_inv_def)
  obtain k where k: "kernel_of (net_fabric ?n) hid = Some k" using k e(4) by auto
  note put = inv_put [OF e(1)] and keep = inv_keep [OF e(1)]
  obtain r n where u: "us_bind a ?n = Some (r, n)" "net_keeps {} ?n n" "\<And>u. r = Ok u \<Longrightarrow> opened ?n n hid (us_fd u) Datagram"
    using us_bind_opens [OF ok e(2) k, of a] by (auto simp: returns_def)
  then show "returns (shim_step on_packet p (Do_udp_bind hid a)) prog_inv"
    using put [OF u(2)] keep [OF u(2), of hid _ "H_udp _"] by (auto simp: Let_def split: sum.split)
  obtain r n where l: "tl_bind a ?n = Some (r, n)" "net_keeps {} ?n n" "\<And>l. r = Ok l \<Longrightarrow> opened ?n n hid (tl_fd l) Listening"
    using tl_bind_opens [OF ok e(2) k, of a] by (auto simp: returns_def)
  then show "returns (shim_step on_packet p (Do_tcp_bind hid a)) prog_inv"
    using put [OF l(2)] keep [OF l(2), of hid _ "H_listener _"] by (auto simp: Let_def split: sum.split)
  obtain r n where c: "ts_connect a w ?n = Some (r, n)" "net_keeps {} ?n n"
      "case r of
         Inl (Inl _) \<Rightarrow> True
       | Inl (Inr t) \<Rightarrow> opened ?n n hid (ts_fd t) Connected
       | Inr f \<Rightarrow> armed (cf_guard f) \<and> opened ?n n hid (fg_fd (cf_guard f)) Connected"
    using ts_connect_opens [OF ok e(2) k, of a w] by (auto simp: returns_def)
  then show "returns (shim_step on_packet p (Do_connect hid a w)) prog_inv"
    using put [OF c(2)] keep [OF c(2), of hid _ "H_stream _"] keep [OF c(2), of hid _ "H_connecting _"]
    by (auto simp: Let_def split: sum.splits)
qed

lemma net_move_inv:
  assumes p: "prog_inv p"
  shows "returns (shim_step on_packet p (Do_tick dt)) prog_inv"
    "shim_admissible p (Do_add_host as) \<Longrightarrow> returns (shim_step on_packet p (Do_add_host as)) prog_inv"
    "returns (shim_step on_packet p (Do_rule r)) prog_inv" "returns (shim_step on_packet p (Do_unrule rid)) prog_inv"
proof -
  have i: "sched_inv (pg_sched p)" "net_ok (pg_net p)" "net_inv (pg_net p)" using p by (auto simp: prog_inv_def net_ok_def)
  obtain s n where t: "tick on_packet dt (pg_sched p) (pg_net p) = Some (s, n)" "sim_inv (s, n)"
    using net_step_safe [of "(pg_sched p, pg_net p)" "Op_tick dt" on_packet] i by (auto simp: sim_inv_def returns_def)
  have keep: "net_keeps {} (pg_net p) n"
    using moves_keep [OF i(2) _ move_tick [OF t(1)]] t(2) by (simp add: sim_inv_def)
  have "prog_inv (put_net n p)" by (rule inv_put [OF p keep])
  then show "returns (shim_step on_packet p (Do_tick dt)) prog_inv"
    using t by (auto simp: prog_inv_def sim_inv_def put_net_def pg_net_def)
  have "net_keeps {} (pg_net p) (snd (net_install_rule r (pg_net p)))" "net_keeps {} (pg_net p) (net_uninstall_rule rid (pg_net p))"
    using i(2) by (auto simp: net_keeps_def net_ok_def net_inv_def owns_def net_install_rule_def net_uninstall_rule_def)
  then show "returns (shim_step on_packet p (Do_rule r)) prog_inv" "returns (shim_step on_packet p (Do_unrule rid)) prog_inv"
    using inv_put [OF p] by simp_all
  show "returns (shim_step on_packet p (Do_add_host as)) prog_inv" if adm: "shim_admissible p (Do_add_host as)"
  proof -
    obtain hid n where n: "net_add_host as (pg_net p) = Some (hid, n)" "net_inv n"
      using add_host_safe [OF i(3), of "pg_sched p" as] adm by (auto simp: returns_def)
    show ?thesis using n(1) inv_put [OF p add_host_keeps [OF i(2) n(2,1)]] by simp
  qed
qed

lemma shim_step_safe:
  assumes p: "prog_inv p" and a: "shim_admissible p op"
  shows "returns (shim_step on_packet p op) prog_inv"
proof (cases op)
  case (Do_on i c)
  then obtain hid h where h: "held_by p i hid h" "has_call h c" using a by (auto split: option.splits)
  show ?thesis
    using on_handle_inv [OF run_on_inv(1,2) [OF p], of hid i h c] run_on_inv(3) [OF p, of hid] h Do_on by simp
next
  case (Do_reunite i j)
  then obtain hid r hid' w where h: "held_by p i hid (H_read r)" "held_by p j hid' (H_write w)"
    using a by (auto split: option.splits Handle.splits)
  show ?thesis
    using reunite_same_inv [OF run_on_inv(1,2) [OF p, of hid'], of i hid r j w]
      reunite_other_inv [OF run_on_inv(1,2) [OF p, of hid'], of i hid r j w] run_on_inv(3) [OF p, of hid'] h Do_reunite
    by (cases "orh_inner r = owh_inner w") simp_all
qed (use a net_move_inv [OF p] bind_step_inv [OF p] in \<open>simp_all del: shim_step.simps\<close>)

interpretation shim_run: invariant_system "shim_step on_packet" prog_inv shim_admissible
  for on_packet :: "'r \<Rightarrow> Packet \<Rightarrow> Verdict \<times> 'r"
proof unfold_locales
  fix p :: "'r Prog" and op :: "'r ShimOp"
  assume "prog_inv p" "shim_admissible p op"
  then obtain p' where p': "shim_step on_packet p op = Some p'" "prog_inv p'"
    using shim_step_safe [of p op on_packet] by (auto simp: returns_def)
  then show "\<exists>p'. shim_step on_packet p op = Some p'" by blast
  show "prog_inv s'" if "shim_step on_packet p op = Some s'" for s' using that p' by simp
qed

lemma prog_inv_new:
  assumes "valid_cfg cfg"
  shows "prog_inv (Prog_new cfg)"
proof -
  let ?n = "Net_with_config cfg"
  have "net_inv ?n" using fabric_inv_new [OF assms] by (simp add: net_inv_def Net_with_config_def)
  moreover have none: "kernel_of (net_fabric ?n) hid = None" for hid
    by (simp add: Net_with_config_def Fabric_new_def kernel_of_def)
  ultimately show ?thesis
    by (simp add: none prog_inv_def Prog_new_def pg_net_def net_ok_def claims_def exclusive_def same_host_def sched_inv_def Scheduler_new_def)
qed


lemma first_port:
  "\<not> in_use 49152 \<Longrightarrow>
     allocate in_use (PortAllocator_new 49152 65535) = Some (Some 49152, (PortAllocator_new 49152 65535)\<lparr>cursor := 49153\<rparr>)"
  unfolding allocate_def by (subst allocate_loop.simps) (simp add: PortAllocator_new_def next_port_def Let_def)

lemmas demo_shim_eval = Prog_new_def pg_net_def put_net_def run_on_def keep_handle_def set_handle_def
  Net_with_config_def Fabric_new_def net_add_host_def fabric_add_host_def
  try_add_host_def Let_def kernel_of_def sys_def
  put_kernel_def set_current_def tl_bind_def us_bind_def ts_connect_def ts_connect_poll_def kernel_bind_def bind_port_def bind_key_to_def
  bind_conflict_def bindings_on_port_def add_address_def put_table_def find_by_bind_def st_modify_def ip_domain_def
  mk_socket_def Kernel_with_config_def SocketTable_new_def st_insert_def st_get_def lookup_def modify_def insert_binding_def
  kernel_listen_def Socket_new_def config_defs ListenState_new_def kernel_open_def domain_of_def
  kernel_poll_connect_def tcp_poll_connect_def FdGuard_new_def
  family_matches_def is_local_def tcp_auto_bind_def allocate_port_def connect_syn_def initial_sequence_def insert_connection_def park_connect_def first_port port_in_use_def local_endpoint_def

text \<open>
  A server listens on the loopback address and a client of the same host connects to it; ticks, a
  poll of the connect and an accept follow.
\<close>

definition demo_shim_start :: "duration ShimOp list" where
  "demo_shim_start =
    [Do_add_host [], Do_tcp_bind 0 (Ta_addr (SocketAddr (V4 0x7F000001) 80)),
     Do_connect 0 (Ta_addr (SocketAddr (V4 0x7F000001) 80)) 1]"

definition demo_shim_rest :: "duration ShimOp list" where
  "demo_shim_rest = [Do_tick 1, Do_on 1 (O_poll 1), Do_tick 1, Do_on 0 (O_accept 2), Do_tick 1]"

lemma poll_frame:
  assumes "on_connecting i hid f (O_poll w) p = Some p'" "i \<noteq> j"
  shows "imap_get (pg_handles p') j = imap_get (pg_handles p) j"
proof -
  obtain r n where "ts_connect_poll f w (pg_net p) = Some (r, n)" using assms(1) by (auto simp: bind_Some_iff)
  then show ?thesis
    using assms by (cases r rule: sum.exhaust; cases "projl r")
      (auto simp: Let_def set_handle_def drop_handle_def imap_simps)
qed

lemma demo_shim_rest_ok:
  assumes "imap_get (pg_handles p) 0 = Some (0, H_listener l)" "imap_get (pg_handles p) 1 = Some (0, H_connecting f)"
  shows "shim_run.admissible_run latency_on_packet p demo_shim_rest"
  using assms
  by (auto simp: demo_shim_rest_def has_call_def on_handle_def run_on_def simp del: on_connecting.simps split: option.split
      dest!: poll_frame [where i = "Suc 0" and j = 0])


section \<open>Connects do not leak\<close>

lemma closed_unowned:
  assumes "kernel_close k fd = Some k'"
  shows "\<not> owned k' fd u"
proof -
  obtain reap k1 where k1: "on_close fd k = Some (reap, k1)" "k' = (if reap then put_table (st_remove fd (table k1)) k1 else k1)"
    using assms by (auto simp: kernel_close_def bind_Some_iff)
  show ?thesis
  proof (cases reap)
    case True
    then show ?thesis using k1(2) by (simp add: owned_def st_get_remove lookup_eq)
  next
    case False
    then obtain s a where s: "lookup k fd = Some s" "close_action s = Some a"
      using k1(1) by (auto simp: on_close_def bind_Some_iff split: option.splits)
    show ?thesis
      using k1 False s by (cases a) (auto simp: on_close_def bind_Some_iff owned_def)
  qed
qed

lemma close_frees:
  assumes "net_current n = Some hid" "fd_close fd n = Some n'"
  shows "\<not> owns n' hid fd q"
  using assms closed_unowned
  by (auto simp: fd_close_def sys_def bind_Some_iff owns_def kernel_of_def put_kernel_def imap_simps)

text \<open>
  C35. A connect that does not succeed leaks nothing. Take a connect that waits for its handshake,
  with the host it was started on current. Dropping its future (a timeout, a \<^verbatim>\<open>select!\<close>) closes the
  descriptor; polling it either keeps it waiting, or hands the descriptor to the stream
  it returns, or fails, and then the descriptor is closed as well. The open sockets of everybody else stay
  open in every case.
\<close>

theorem waiting_connect_never_leaks:
  assumes n: "net_ok n" "net_current n = Some hid"
    and f: "armed (cf_guard f)" "fg_fd (cf_guard f) = fd" "owns n hid fd Connected"
  shows "(\<exists>n'. ts_connect_cancel f n = Some n' \<and> net_keeps {(hid, fd)} n n' \<and> (\<forall>q. \<not> owns n' hid fd q)) \<and>
    (\<exists>r n'. ts_connect_poll f w n = Some (r, n') \<and>
       (case r of
          Inl (Inl _) \<Rightarrow> net_keeps {(hid, fd)} n n' \<and> (\<forall>q. \<not> owns n' hid fd q)
        | Inl (Inr t) \<Rightarrow> net_keeps {} n n' \<and> owns n' hid fd Connected \<and> ts_fd t = fd
        | Inr f' \<Rightarrow> net_keeps {} n n' \<and> owns n' hid fd Connected \<and> f' = f))"
proof -
  obtain k s where k: "kernel_of (net_fabric n) hid = Some k" "owned k fd s" "tcb s \<noteq> None" "typed s"
    using owns_socket [OF n(1) f(3)] by (metis kind_ok.simps(3))
  have ty: "sk_ty s = Stream" using k(3,4) by (simp add: typed_def)
  have g: "cf_guard f = \<lparr>fg_fd = fd, armed = True\<rparr>" using f by (cases "cf_guard f") simp
  obtain n' where n': "fd_close fd n = Some n'" "net_keeps {(hid, fd)} n n'"
    using close_keeps [OF n k(1,2)] by (auto simp: returns_def)
  have cancel: "ts_connect_cancel f n = Some n'" using n'(1) g by (simp add: ts_connect_cancel_def FdGuard_drop_def)
  obtain r m where r: "ts_connect_poll f w n = Some (r, m)" "case r of
          Inl (Inl _) \<Rightarrow> net_keeps {(hid, fd)} n m
        | Inl (Inr t) \<Rightarrow> net_keeps {} n m \<and> owns m hid fd Connected \<and> ts_fd t = fd
        | Inr f' \<Rightarrow> net_keeps {} n m \<and> owns m hid fd Connected \<and> f' = f"
    using ts_connect_poll_cases [OF n k(1) g k(2) ty, of w] k(3) by (auto simp: returns_def)
  have "\<not> owns m hid fd q" if e: "r = Inl (Inl e)" for e q
  proof -
    obtain x n1 where x: "sys (\<lambda>k. kernel_poll_connect k fd w (Addr_Inet (cf_peer f))) n = Some (x, n1)"
      using r(1) g by (auto simp: ts_connect_poll_def bind_Some_iff)
    have "fd_close fd n1 = Some m"
    proof (cases x)
      case (Ready y)
      then show ?thesis
        using x r(1) g e by (cases y) (auto simp: ts_connect_poll_def bind_Some_iff FdGuard_drop_def FdGuard_disarm_def)
    qed (use x r(1) g e in \<open>simp add: ts_connect_poll_def\<close>)
    moreover have "net_current n1 = Some hid" using x n(2) by (auto simp: sys_def bind_Some_iff)
    ultimately show ?thesis using close_frees by blast
  qed
  then show ?thesis using cancel n'(2) close_frees [OF n(2) n'(1)] r by (auto split: sum.splits)
qed

lemma demo_shim_waits:
  "\<exists>p f. shim_run.run latency_on_packet (Prog_new KernelConfig_default) demo_shim_start = Some p \<and>
     held_by p 1 0 (H_connecting f) \<and> net_current (pg_net p) = Some 0"
  by (simp add: demo_shim_start_def demo_shim_eval emit_def new_tcb_def imap_simps)

theorem waiting_connect_never_leaks_witness:
  "\<exists>p f n'. shim_run.run latency_on_packet (Prog_new KernelConfig_default) demo_shim_start = Some p \<and>
     held_by p 1 0 (H_connecting f) \<and> ts_connect_cancel f (pg_net p) = Some n' \<and> \<not> owns n' 0 (fg_fd (cf_guard f)) Connected"
proof -
  obtain p f where p: "shim_run.run latency_on_packet (Prog_new KernelConfig_default) demo_shim_start = Some p"
      "held_by p 1 0 (H_connecting f)" "net_current (pg_net p) = Some 0"
    using demo_shim_waits by blast
  have "shim_run.admissible_run latency_on_packet (Prog_new KernelConfig_default) demo_shim_start"
    by (simp add: demo_shim_start_def demo_shim_eval emit_def new_tcb_def imap_simps)
  then have inv: "prog_inv p"
    using shim_run.run_inv [OF prog_inv_new, of KernelConfig_default latency_on_packet demo_shim_start] p(1)
    by (simp add: valid_cfg_def config_defs)
  have "net_ok (pg_net p)" "armed (cf_guard f)" "owns (pg_net p) 0 (fg_fd (cf_guard f)) Connected"
    using inv_owns [OF inv p(2)] by auto
  then show ?thesis using waiting_connect_never_leaks [of "pg_net p" 0 f] p by blast
qed

end
