(* ===== verification/Fixture.thy ===== *)
theory Fixture
  imports Scheduler Netstat
begin

text \<open>
  The rest of \<^verbatim>\<open>turmoil-net/src/lib.rs\<close> and \<^verbatim>\<open>rule.rs\<close> (the free functions over the thread-local network, the
  guards), the setters of \<^verbatim>\<open>KernelConfig\<close>, and \<^verbatim>\<open>fixture/mod.rs\<close> and \<^verbatim>\<open>client_server.rs\<close>. The network a thread
  has entered is an optional value, the slot; a call on an empty slot panics. The \<^verbatim>\<open>LocalSet\<close> of tokio
  and the futures of a test are parameters.
\<close>

section \<open>Configuration of a kernel\<close>

definition with_mtu :: "nat \<Rightarrow> KernelConfig \<Rightarrow> KernelConfig" where
  "with_mtu v c = c\<lparr>cfg_mtu := v\<rparr>"

definition with_loopback_mtu :: "nat \<Rightarrow> KernelConfig \<Rightarrow> KernelConfig" where
  "with_loopback_mtu v c = c\<lparr>cfg_loopback_mtu := v\<rparr>"

definition with_send_buf_cap :: "nat \<Rightarrow> KernelConfig \<Rightarrow> KernelConfig" where
  "with_send_buf_cap v c = c\<lparr>cfg_send_buf_cap := v\<rparr>"

definition with_recv_buf_cap :: "nat \<Rightarrow> KernelConfig \<Rightarrow> KernelConfig" where
  "with_recv_buf_cap v c = c\<lparr>cfg_recv_buf_cap := v\<rparr>"

definition with_default_backlog :: "nat \<Rightarrow> KernelConfig \<Rightarrow> KernelConfig" where
  "with_default_backlog v c = c\<lparr>cfg_default_backlog := v\<rparr>"

definition with_retx_threshold :: "nat \<Rightarrow> KernelConfig \<Rightarrow> KernelConfig" where
  "with_retx_threshold v c = c\<lparr>cfg_retx_threshold := v\<rparr>"

definition with_retx_max :: "nat \<Rightarrow> KernelConfig \<Rightarrow> KernelConfig" where
  "with_retx_max v c = c\<lparr>cfg_retx_max := v\<rparr>"

definition kernel_sockets :: "Kernel \<Rightarrow> (Fd \<times> Socket) list" where
  "kernel_sockets k = sockets (table k)"

section \<open>The network of a thread\<close>

definition EnterGuard_drop :: "'r Net option \<Rightarrow> 'r Net option" where
  "EnterGuard_drop slot = None"

definition guard_evaluate ::
  "('r \<Rightarrow> Packet \<Rightarrow> Verdict \<times> 'r) \<Rightarrow> Packet \<Rightarrow> 'r Net option \<Rightarrow> (Verdict \<times> 'r Net option) option" where
  "guard_evaluate on_packet pkt slot = do {
     n \<leftarrow> slot;
     let (v, n1) = net_evaluate on_packet pkt n;
     Some (v, Some n1)
   }"

definition slot_set_current :: "HostId \<Rightarrow> 'r Net option \<Rightarrow> 'r Net option option" where
  "slot_set_current hid slot = do { n \<leftarrow> slot; Some (Some (set_current hid n)) }"

definition slot_install_rule :: "'r \<Rightarrow> 'r Net option \<Rightarrow> (RuleId \<times> 'r Net option) option" where
  "slot_install_rule r slot = do {
     n \<leftarrow> slot;
     let (rid, n1) = net_install_rule r n;
     Some (rid, Some n1)
   }"

text \<open>Without a network there is nothing to do: the order of drops at the end of a test is not fixed.\<close>

definition slot_uninstall_rule :: "RuleId \<Rightarrow> 'r Net option \<Rightarrow> 'r Net option" where
  "slot_uninstall_rule rid slot = map_option (net_uninstall_rule rid) slot"

definition slot_netstat :: "ToIpAddr \<Rightarrow> 'r Net option \<Rightarrow> NetstatEntry list option" where
  "slot_netstat host slot = do {
     n \<leftarrow> slot;
     ip \<leftarrow> try_to_ip_addr host (net_dns n);
     hid \<leftarrow> host_for_ip (net_fabric n) ip;
     k \<leftarrow> kernel_of (net_fabric n) hid;
     Some (snapshot k)
   }"

section \<open>Rules with an owner\<close>

definition net_rule :: "'r \<Rightarrow> 'r Net \<Rightarrow> 'r Net" where
  "net_rule r n = snd (net_install_rule r n)"

definition Latency_fixed :: "duration \<Rightarrow> duration" where
  "Latency_fixed delay = delay"

record RuleGuard =
  rg_id :: RuleId

definition RuleGuard_new :: "RuleId \<Rightarrow> RuleGuard" where
  "RuleGuard_new rid = \<lparr>rg_id = rid\<rparr>"

text \<open>A guard that is forgotten leaves its rule in place.\<close>

definition RuleGuard_forget :: "RuleGuard \<Rightarrow> 'r Net option \<Rightarrow> 'r Net option" where
  "RuleGuard_forget g slot = slot"

definition RuleGuard_drop :: "RuleGuard \<Rightarrow> 'r Net option \<Rightarrow> 'r Net option" where
  "RuleGuard_drop g slot = slot_uninstall_rule (rg_id g) slot"

definition install_guarded :: "'r \<Rightarrow> 'r Net option \<Rightarrow> (RuleGuard \<times> 'r Net option) option" where
  "install_guarded r slot = do { (rid, slot1) \<leftarrow> slot_install_rule r slot; Some (RuleGuard_new rid, slot1) }"

section \<open>Fixtures\<close>

definition TICK :: duration where
  "TICK = 1000000"

text \<open>
  A \<^verbatim>\<open>LocalSet\<close>: an empty set, a new task in it, a drain that polls its tasks until they wait or the
  tick has passed, and the result of the task whose end is waited for, the last one spawned.
\<close>

record ('t, 'w, 'a, 'r) LocalSet =
  ls_new :: 'w
  ls_spawn :: "'t \<Rightarrow> 'w \<Rightarrow> 'w"
  ls_run :: "('t \<Rightarrow> 'r Net \<Rightarrow> ('t \<times> 'r Net) option) \<Rightarrow> 'w \<Rightarrow> 'r Net \<Rightarrow> ('w \<times> 'r Net) option"
  ls_result :: "'w \<Rightarrow> 'a option"

partial_function (option) fixture_loop ::
  "('t, 'w, 'a, 'r) LocalSet \<Rightarrow> ('t \<Rightarrow> 'r Net \<Rightarrow> ('t \<times> 'r Net) option) \<Rightarrow> ('r \<Rightarrow> Packet \<Rightarrow> Verdict \<times> 'r) \<Rightarrow>
    'w \<Rightarrow> Scheduler \<Rightarrow> 'r Net \<Rightarrow> ('a \<times> 'r Net) option" where
  "fixture_loop ls poll on_packet w s n = do {
     (w1, n1) \<leftarrow> ls_run ls poll w n;
     (s1, n2) \<leftarrow> tick on_packet TICK s n1;
     case ls_result ls w1 of
       Some x \<Rightarrow> Some (x, n2)
     | None \<Rightarrow> fixture_loop ls poll on_packet w1 s1 n2
   }"

definition lo_with_config ::
  "('t, 'w, 'a, 'r) LocalSet \<Rightarrow> ('t \<Rightarrow> 'r Net \<Rightarrow> ('t \<times> 'r Net) option) \<Rightarrow> ('r \<Rightarrow> Packet \<Rightarrow> Verdict \<times> 'r) \<Rightarrow>
    KernelConfig \<Rightarrow> 't \<Rightarrow> 'a option" where
  "lo_with_config ls poll on_packet cfg fut = do {
     (_, n) \<leftarrow> net_add_host [] (Net_with_config cfg);
     let w = ls_spawn ls fut (ls_new ls);
     (x, _) \<leftarrow> fixture_loop ls poll on_packet w Scheduler_new n;
     Some x
   }"

definition lo ::
  "('t, 'w, 'a, 'r) LocalSet \<Rightarrow> ('t \<Rightarrow> 'r Net \<Rightarrow> ('t \<times> 'r Net) option) \<Rightarrow> ('r \<Rightarrow> Packet \<Rightarrow> Verdict \<times> 'r) \<Rightarrow>
    't \<Rightarrow> 'a option" where
  "lo ls poll on_packet fut = lo_with_config ls poll on_packet KernelConfig_default fut"

record ('r, 'f) ClientServer =
  cs_net :: "'r Net"
  cs_servers :: "(HostId \<times> 'f) list"

definition ClientServer_with_config :: "KernelConfig \<Rightarrow> ('r, 'f) ClientServer" where
  "ClientServer_with_config cfg = \<lparr>cs_net = Net_with_config cfg, cs_servers = []\<rparr>"

definition ClientServer_new :: "('r, 'f) ClientServer" where
  "ClientServer_new = ClientServer_with_config KernelConfig_default"

definition cs_server :: "ToIpAddr list \<Rightarrow> 'f \<Rightarrow> ('r, 'f) ClientServer \<Rightarrow> ('r, 'f) ClientServer option" where
  "cs_server addrs fut cs = do {
     (hid, n) \<leftarrow> net_add_host addrs (cs_net cs);
     Some (cs\<lparr>cs_net := n, cs_servers := cs_servers cs @ [(hid, fut)]\<rparr>)
   }"

record 'f HostScoped =
  hs_id :: HostId
  hs_inner :: 'f

text \<open>Every poll of a task starts with its host current.\<close>

definition HostScoped_poll ::
  "('f \<Rightarrow> 'r Net \<Rightarrow> ('f \<times> 'r Net) option) \<Rightarrow> 'f HostScoped \<Rightarrow> 'r Net \<Rightarrow> ('f HostScoped \<times> 'r Net) option" where
  "HostScoped_poll poll t n = do {
     (f, n1) \<leftarrow> poll (hs_inner t) (set_current (hs_id t) n);
     Some (t\<lparr>hs_inner := f\<rparr>, n1)
   }"

definition cs_run ::
  "('f HostScoped, 'w, 'a, 'r) LocalSet \<Rightarrow> ('f \<Rightarrow> 'r Net \<Rightarrow> ('f \<times> 'r Net) option) \<Rightarrow>
    ('r \<Rightarrow> Packet \<Rightarrow> Verdict \<times> 'r) \<Rightarrow> ToIpAddr list \<Rightarrow> 'f \<Rightarrow> ('r, 'f) ClientServer \<Rightarrow> 'a option" where
  "cs_run ls poll on_packet addrs fut cs =
     (if cs_servers cs = [] then None
      else do {
        (client, n) \<leftarrow> net_add_host addrs (cs_net cs);
        let w = fold (\<lambda>(hid, f). ls_spawn ls \<lparr>hs_id = hid, hs_inner = f\<rparr>) (cs_servers cs) (ls_new ls);
        let w1 = ls_spawn ls \<lparr>hs_id = client, hs_inner = fut\<rparr> w;
        (x, _) \<leftarrow> fixture_loop ls (HostScoped_poll poll) on_packet w1 Scheduler_new n;
        Some x
      })"

section \<open>Guards give back what they took\<close>

lemma remove_new: "imap_get m k = None \<Longrightarrow> imap_shift_remove k (imap_insert k v m) = m"
  by (induction m) (auto split: if_splits)

text \<open>
  Dropping the guard of a rule takes exactly that rule away, and a guard that outlives the network does nothing.
\<close>

lemma rule_guard_roundtrip:
  assumes "imap_get (net_rules n) (next_rule_id n) = None"
  shows "\<exists>g n1. install_guarded r (Some n) = Some (g, Some n1) \<and>
    RuleGuard_drop g (Some n1) = Some (n\<lparr>next_rule_id := next_rule_id n + 1\<rparr>)" "RuleGuard_drop g None = None"
  using remove_new [OF assms] by (simp_all add: install_guarded_def slot_install_rule_def net_install_rule_def
      RuleGuard_drop_def RuleGuard_new_def slot_uninstall_rule_def net_uninstall_rule_def)

section \<open>Fixtures return\<close>

lemma fixture_loop_returns:
  assumes run: "\<And>w n. net_inv n \<Longrightarrow> returns (ls_run ls poll w n) (\<lambda>(_, n'). net_inv n')"
    and progress: "\<And>w n w' n'. ls_run ls poll w n = Some (w', n') \<Longrightarrow> ls_result ls w' = None \<Longrightarrow> m w' < (m w :: nat)"
  shows "sched_inv s \<Longrightarrow> net_inv n \<Longrightarrow> \<exists>x n'. fixture_loop ls poll on_packet w s n = Some (x, n') \<and> net_inv n'"
proof (induction "m w" arbitrary: w s n rule: less_induct)
  case less
  obtain w1 n1 where w1: "ls_run ls poll w n = Some (w1, n1)" "net_inv n1"
    using run [OF less.prems(2), of w] by (auto simp: returns_def)
  obtain s1 n2 where t: "tick on_packet TICK s n1 = Some (s1, n2)" "sched_inv s1" "net_inv n2"
    using net_step_safe [of "(s, n1)" "Op_tick TICK" on_packet] less.prems(1) w1(2) by (auto simp: sim_inv_def returns_def)
  show ?case
  proof (cases "ls_result ls w1")
    case None
    then obtain x n' where "fixture_loop ls poll on_packet w1 s1 n2 = Some (x, n')" "net_inv n'"
      using less.hyps [OF progress [OF w1(1) None] t(2,3)] by blast
    then show ?thesis using w1(1) t(1) None by (subst fixture_loop.simps) simp
  next
    case (Some x)
    then show ?thesis using w1(1) t(1,3) by (subst fixture_loop.simps) simp
  qed
qed

end
