(* ===== verification/Sim_Halves.thy ===== *)
theory Sim_Halves
  imports Sim_Tcp
begin

text \<open>
  \<^verbatim>\<open>turmoil/src/net/tcp/stream.rs\<close> and \<^verbatim>\<open>split_owned.rs\<close>: the public calls of a simulated stream, which
  forward to its halves, and the owned halves with their reunion. An asynchronous wait is one of the
  polls it repeats. The allocation that both halves of a stream share is as old as the two
  waiting sets made with it, whose numbers follow each other, so that the halves of one stream
  are told by these numbers.
\<close>

section \<open>Flow control of both directions\<close>

definition BidiFlowControl_new :: "nat \<Rightarrow> FlowControl \<times> FlowControl" where
  "BidiFlowControl_new cap = (FlowControl_new cap, FlowControl_new cap)"

section \<open>Halves\<close>

definition rh_poll_peek ::
  "nat \<Rightarrow> nat \<Rightarrow> ReadHalf \<Rightarrow> 'g World \<Rightarrow> (bytes io_result Poll \<times> ReadHalf \<times> 'g World) option" where
  "rh_poll_peek cap n r w = poll_peek_priv cap n r w"

text \<open>\<^verbatim>\<open>peek\<close> has a fresh buffer, whose room is its capacity.\<close>

definition rh_peek :: "nat \<Rightarrow> ReadHalf \<Rightarrow> 'g World \<Rightarrow> (bytes io_result Poll \<times> ReadHalf \<times> 'g World) option" where
  "rh_peek n r w = poll_peek_priv n n r w"

definition rh_poll_read ::
  "nat \<Rightarrow> nat \<Rightarrow> ReadHalf \<Rightarrow> 'g World \<Rightarrow> (bytes io_result Poll \<times> ReadHalf \<times> 'g World) option" where
  "rh_poll_read cap n r w = poll_read_priv cap n r w"

definition wh_poll_flush :: "WriteHalf \<Rightarrow> unit io_result Poll" where
  "wh_poll_flush wh = Ready (Ok ())"

definition wh_poll_shutdown ::
  "'g NetRng \<Rightarrow> WriteHalf \<Rightarrow> 'g World \<Rightarrow> (unit io_result Poll \<times> WriteHalf \<times> 'g World) option" where
  "wh_poll_shutdown rng wh w = poll_shutdown_priv rng wh w"

section \<open>Streams\<close>

definition on_read_half ::
  "(ReadHalf \<Rightarrow> 'g World \<Rightarrow> ('a \<times> ReadHalf \<times> 'g World) option) \<Rightarrow> TcpStream \<Rightarrow> 'g World \<Rightarrow> ('a \<times> TcpStream \<times> 'g World) option" where
  "on_read_half f s w = do { (x, r, w1) \<leftarrow> f (read_half s) w; Some (x, s\<lparr>read_half := r\<rparr>, w1) }"

definition on_write_half ::
  "(WriteHalf \<Rightarrow> 'g World \<Rightarrow> ('a \<times> WriteHalf \<times> 'g World) option) \<Rightarrow> TcpStream \<Rightarrow> 'g World \<Rightarrow> ('a \<times> TcpStream \<times> 'g World) option" where
  "on_write_half f s w = do { (x, wh, w1) \<leftarrow> f (write_half s) w; Some (x, s\<lparr>write_half := wh\<rparr>, w1) }"

definition stream_try_read_vectored ::
  "nat list \<Rightarrow> TcpStream \<Rightarrow> 'g World \<Rightarrow> (bytes io_result \<times> TcpStream \<times> 'g World) option" where
  "stream_try_read_vectored sizes = on_read_half (try_read_vectored sizes)"

definition stream_try_write :: "'g NetRng \<Rightarrow> bytes \<Rightarrow> TcpStream \<Rightarrow> 'g World \<Rightarrow> (nat io_result \<times> 'g World) option" where
  "stream_try_write rng buf s w = try_write rng buf (write_half s) w"

definition stream_local_addr :: "TcpStream \<Rightarrow> SocketAddr io_result" where
  "stream_local_addr s = Ok (pair_local (rh_pair (read_half s)))"

definition stream_peer_addr :: "TcpStream \<Rightarrow> SocketAddr io_result" where
  "stream_peer_addr s = Ok (pair_remote (rh_pair (read_half s)))"

definition stream_reunite :: "ReadHalf \<Rightarrow> WriteHalf \<Rightarrow> TcpStream" where
  "stream_reunite r wh = \<lparr>read_half = r, write_half = wh\<rparr>"

definition stream_writable :: "TcpStream \<Rightarrow> 'g World \<Rightarrow> (unit io_result Poll \<times> 'g World) option" where
  "stream_writable s w = poll_writable (write_half s) w"

definition stream_set_nodelay :: "bool \<Rightarrow> TcpStream \<Rightarrow> unit io_result" where
  "stream_set_nodelay nodelay s = Ok ()"

definition stream_ready ::
  "Interest \<Rightarrow> TcpStream \<Rightarrow> 'g World \<Rightarrow> (ReadyFlags io_result Poll \<times> TcpStream \<times> 'g World) option" where
  "stream_ready i s w = poll_ready i s w"

definition READABLE :: Interest where
  "READABLE = \<lparr>in_readable = True, in_writable = False, in_plain = True\<rparr>"

definition drop_flags :: "ReadyFlags io_result Poll \<Rightarrow> unit io_result Poll" where
  "drop_flags p = (case p of Pending \<Rightarrow> Pending | Ready (Inl e) \<Rightarrow> Ready (Err e) | Ready (Inr _) \<Rightarrow> Ready (Ok ()))"

definition stream_readable :: "TcpStream \<Rightarrow> 'g World \<Rightarrow> (unit io_result Poll \<times> TcpStream \<times> 'g World) option" where
  "stream_readable s w = do { (p, s1, w1) \<leftarrow> stream_ready READABLE s w; Some (drop_flags p, s1, w1) }"

definition stream_poll_read_ready :: "TcpStream \<Rightarrow> 'g World \<Rightarrow> (unit io_result Poll \<times> TcpStream \<times> 'g World) option" where
  "stream_poll_read_ready s w = do { (p, s1, w1) \<leftarrow> poll_ready READABLE s w; Some (drop_flags p, s1, w1) }"

definition stream_poll_write_ready :: "TcpStream \<Rightarrow> 'g World \<Rightarrow> (unit io_result Poll \<times> 'g World) option" where
  "stream_poll_write_ready s w = poll_writable (write_half s) w"

definition stream_peek :: "nat \<Rightarrow> TcpStream \<Rightarrow> 'g World \<Rightarrow> (bytes io_result Poll \<times> TcpStream \<times> 'g World) option" where
  "stream_peek n = on_read_half (rh_peek n)"

definition stream_poll_peek :: "nat \<Rightarrow> nat \<Rightarrow> TcpStream \<Rightarrow> 'g World \<Rightarrow> (bytes io_result Poll \<times> TcpStream \<times> 'g World) option" where
  "stream_poll_peek cap n = on_read_half (rh_poll_peek cap n)"

definition stream_poll_read :: "nat \<Rightarrow> nat \<Rightarrow> TcpStream \<Rightarrow> 'g World \<Rightarrow> (bytes io_result Poll \<times> TcpStream \<times> 'g World) option" where
  "stream_poll_read cap n = on_read_half (rh_poll_read cap n)"

definition stream_poll_write :: "'g NetRng \<Rightarrow> bytes \<Rightarrow> TcpStream \<Rightarrow> 'g World \<Rightarrow> (nat io_result Poll \<times> 'g World) option" where
  "stream_poll_write rng buf s w = poll_write rng buf (write_half s) w"

definition stream_poll_flush :: "TcpStream \<Rightarrow> unit io_result Poll" where
  "stream_poll_flush s = wh_poll_flush (write_half s)"

definition stream_poll_shutdown :: "'g NetRng \<Rightarrow> TcpStream \<Rightarrow> 'g World \<Rightarrow> (unit io_result Poll \<times> TcpStream \<times> 'g World) option" where
  "stream_poll_shutdown rng = on_write_half (wh_poll_shutdown rng)"

text \<open>The read half is dropped first, then the write half.\<close>

definition stream_drop :: "'g NetRng \<Rightarrow> TcpStream \<Rightarrow> 'g World \<Rightarrow> 'g World option" where
  "stream_drop rng s w = do { w1 \<leftarrow> ReadHalf_drop rng (read_half s) w; WriteHalf_drop rng (write_half s) w1 }"

section \<open>Owned halves\<close>

record SimOwnedRead =
  sor_inner :: ReadHalf

record SimOwnedWrite =
  sow_inner :: WriteHalf

definition into_split :: "TcpStream \<Rightarrow> SimOwnedRead \<times> SimOwnedWrite" where
  "into_split s = (\<lparr>sor_inner = read_half s\<rparr>, \<lparr>sow_inner = write_half s\<rparr>)"

definition on_sor ::
  "(ReadHalf \<Rightarrow> 'g World \<Rightarrow> ('a \<times> ReadHalf \<times> 'g World) option) \<Rightarrow> SimOwnedRead \<Rightarrow> 'g World \<Rightarrow> ('a \<times> SimOwnedRead \<times> 'g World) option" where
  "on_sor f o_r w = do { (x, r, w1) \<leftarrow> f (sor_inner o_r) w; Some (x, \<lparr>sor_inner = r\<rparr>, w1) }"

definition sor_try_read_vectored ::
  "nat list \<Rightarrow> SimOwnedRead \<Rightarrow> 'g World \<Rightarrow> (bytes io_result \<times> SimOwnedRead \<times> 'g World) option" where
  "sor_try_read_vectored sizes = on_sor (try_read_vectored sizes)"

definition sor_local_addr :: "SimOwnedRead \<Rightarrow> SocketAddr io_result" where
  "sor_local_addr o_r = Ok (pair_local (rh_pair (sor_inner o_r)))"

definition sor_peer_addr :: "SimOwnedRead \<Rightarrow> SocketAddr io_result" where
  "sor_peer_addr o_r = Ok (pair_remote (rh_pair (sor_inner o_r)))"

definition sor_poll_peek ::
  "nat \<Rightarrow> nat \<Rightarrow> SimOwnedRead \<Rightarrow> 'g World \<Rightarrow> (bytes io_result Poll \<times> SimOwnedRead \<times> 'g World) option" where
  "sor_poll_peek cap n = on_sor (rh_poll_peek cap n)"

definition sor_peek :: "nat \<Rightarrow> SimOwnedRead \<Rightarrow> 'g World \<Rightarrow> (bytes io_result Poll \<times> SimOwnedRead \<times> 'g World) option" where
  "sor_peek n = on_sor (rh_peek n)"

definition sor_poll_read ::
  "nat \<Rightarrow> nat \<Rightarrow> SimOwnedRead \<Rightarrow> 'g World \<Rightarrow> (bytes io_result Poll \<times> SimOwnedRead \<times> 'g World) option" where
  "sor_poll_read cap n = on_sor (rh_poll_read cap n)"

definition sow_local_addr :: "SimOwnedWrite \<Rightarrow> SocketAddr io_result" where
  "sow_local_addr ow = Ok (pair_local (wh_pair (sow_inner ow)))"

definition sow_peer_addr :: "SimOwnedWrite \<Rightarrow> SocketAddr io_result" where
  "sow_peer_addr ow = Ok (pair_remote (wh_pair (sow_inner ow)))"

definition sow_poll_write :: "'g NetRng \<Rightarrow> bytes \<Rightarrow> SimOwnedWrite \<Rightarrow> 'g World \<Rightarrow> (nat io_result Poll \<times> 'g World) option" where
  "sow_poll_write rng buf ow w = poll_write rng buf (sow_inner ow) w"

definition sow_poll_flush :: "SimOwnedWrite \<Rightarrow> unit io_result Poll" where
  "sow_poll_flush ow = wh_poll_flush (sow_inner ow)"

definition sow_poll_shutdown ::
  "'g NetRng \<Rightarrow> SimOwnedWrite \<Rightarrow> 'g World \<Rightarrow> (unit io_result Poll \<times> SimOwnedWrite \<times> 'g World) option" where
  "sow_poll_shutdown rng ow w = do {
     (p, wh, w1) \<leftarrow> wh_poll_shutdown rng (sow_inner ow) w;
     Some (p, \<lparr>sow_inner = wh\<rparr>, w1)
   }"

definition ptr_eq :: "ReadHalf \<Rightarrow> WriteHalf \<Rightarrow> bool" where
  "ptr_eq r wh \<longleftrightarrow> wh_waiters wh = rh_waiters r + 1"

definition sim_reunite :: "SimOwnedRead \<Rightarrow> SimOwnedWrite \<Rightarrow> (SimOwnedRead \<times> SimOwnedWrite) + TcpStream" where
  "sim_reunite o_r ow =
     (if ptr_eq (sor_inner o_r) (sow_inner ow) then Inr (stream_reunite (sor_inner o_r) (sow_inner ow))
      else Inl (o_r, ow))"

definition sor_reunite :: "SimOwnedRead \<Rightarrow> SimOwnedWrite \<Rightarrow> (SimOwnedRead \<times> SimOwnedWrite) + TcpStream" where
  "sor_reunite o_r other = sim_reunite o_r other"

definition sow_reunite :: "SimOwnedWrite \<Rightarrow> SimOwnedRead \<Rightarrow> (SimOwnedRead \<times> SimOwnedWrite) + TcpStream" where
  "sow_reunite ow other = sim_reunite other ow"

section \<open>Reuniting\<close>

text \<open>What a stream is born with, and what no call on it changes.\<close>

definition whole :: "TcpStream \<Rightarrow> bool" where
  "whole s \<longleftrightarrow> ptr_eq (read_half s) (write_half s)"

lemma map_sum_Inr: "map_sum f g r = Inr y \<longleftrightarrow> (\<exists>x. r = Inr x \<and> y = g x)"
  by (cases r) auto

lemma connect_whole:
  assumes "connect_start rng to_addr w = Some (Ok (s, ack), w')"
  shows "whole s"
  using assms by (auto simp: connect_start_def whole_def ptr_eq_def TcpStream_new_def Let_def bind_Some_iff map_sum_Inr
      split: sum.splits)

lemma accept_whole:
  assumes "TcpListener_accept loc w = Some (Ready (Ok (s, origin)), w')"
  shows "whole s"
  using assms by (auto simp: TcpListener_accept_def whole_def ptr_eq_def TcpStream_new_def Let_def bind_Some_iff split_beta
      split: option.splits)

lemma fill_waiters:
  assumes "poll_fill r w = Some (p, r', w')"
  shows "rh_waiters r' = rh_waiters r"
proof (cases "rh_closed r \<or> rh_buffer r \<noteq> None")
  case False
  then obtain out w1 where "rx_try_recv r w = Some (out, w1)"
    using assms by (auto simp: poll_fill_def poll_recv_def bind_Some_iff)
  then show ?thesis
    using assms False by (cases out) (auto simp: poll_fill_def poll_recv_def bind_Some_iff split: if_splits)
qed (use assms in \<open>auto simp: poll_fill_def\<close>)

lemma poll_read_whole:
  assumes "stream_poll_read cap n s w = Some (p, s', w')" "whole s"
  shows "whole s'"
proof (cases "cap = 0")
  case True
  then show ?thesis using assms by (auto simp: stream_poll_read_def on_read_half_def rh_poll_read_def poll_read_priv_def)
next
  case False
  then obtain q r1 w1 where "poll_fill (read_half s) w = Some (q, r1, w1)"
    using assms(1) by (auto simp: stream_poll_read_def on_read_half_def rh_poll_read_def poll_read_priv_def bind_Some_iff)
  note fill = this fill_waiters [OF this]
  have "rh_waiters (read_half s') = rh_waiters (read_half s) \<and> write_half s' = write_half s"
    using assms(1) fill False
    by (cases q rule: Poll.exhaust [case_product option.exhaust [of "rh_buffer r1"]])
      (auto simp: stream_poll_read_def on_read_half_def rh_poll_read_def poll_read_priv_def split_beta Let_def split: sum.splits)
  then show ?thesis using assms(2) by (simp add: whole_def ptr_eq_def)
qed

text \<open>Splitting is undone by reuniting, from either half; halves of different streams do not reunite and come back.\<close>

lemma sim_split_reunite:
  assumes "whole s" "whole s'" "into_split s = (r, wh)" "into_split s' = (r', wh')"
  shows "sor_reunite r wh = Inr s" "sow_reunite wh r = Inr s"
    "rh_waiters (read_half s) \<noteq> rh_waiters (read_half s') \<Longrightarrow> sor_reunite r wh' = Inl (r, wh')"
  using assms by (auto simp: whole_def ptr_eq_def into_split_def sor_reunite_def sow_reunite_def sim_reunite_def stream_reunite_def)

end
