(* ===== verification/Sim_Wakers.thy ===== *)
theory Sim_Wakers
  imports Sim_Halves
begin

text \<open>
  The tasks that wait on one half of a simulated stream (\<^verbatim>\<open>WakerSet\<close> in \<^verbatim>\<open>turmoil/src/net/tcp/stream.rs\<close>). A source
  of readiness keeps a single waker, so the waker of the set is registered there and the set wakes its
  tasks. The \<^verbatim>\<open>Notify\<close> of tokio is the number of its \<^verbatim>\<open>notify_waiters\<close> calls: a waiter is woken when the number has
  grown since the waiter was enabled. The locale \<open>waker_source\<close> says what a source owes the set; the reset
  of a stream together with its flow control, on which a writer waits, is one.
\<close>

section \<open>The set\<close>

record WakerSet =
  ws_notified :: nat
  ws_poll_waker :: "nat option"

definition WakerSet_default :: WakerSet where
  "WakerSet_default = \<lparr>ws_notified = 0, ws_poll_waker = None\<rparr>"

definition register_poll :: "nat \<Rightarrow> WakerSet \<Rightarrow> WakerSet" where
  "register_poll task ws = ws\<lparr>ws_poll_waker := Some task\<rparr>"

text \<open>One turn of \<^verbatim>\<open>wait_for\<close>: its result, or the number that the waiter was enabled at.\<close>

definition wait_turn :: "('s \<Rightarrow> 'a Poll \<times> 's) \<Rightarrow> WakerSet \<Rightarrow> 's \<Rightarrow> ('a + nat) \<times> 's" where
  "wait_turn poll ws s =
     (let registered = ws_notified ws
      in case poll s of
           (Ready x, s1) \<Rightarrow> (Inl x, s1)
         | (Pending, s1) \<Rightarrow> (Inr registered, s1))"

definition notified :: "nat \<Rightarrow> WakerSet \<Rightarrow> bool" where
  "notified registered ws \<longleftrightarrow> registered < ws_notified ws"

text \<open>The task of the polls that is woken, if there is one, and the set.\<close>

definition wake_by_ref :: "WakerSet \<Rightarrow> nat option \<times> WakerSet" where
  "wake_by_ref ws = (ws_poll_waker ws, \<lparr>ws_notified = ws_notified ws + 1, ws_poll_waker = None\<rparr>)"

section \<open>What a writer waits on\<close>

text \<open>The checks of \<^verbatim>\<open>poll_writable\<close> over the stream table of the host and the flow control of the half.\<close>

definition writer_poll :: "SocketPair \<Rightarrow> waker \<Rightarrow> HostTcp \<times> FlowControl \<Rightarrow> unit io_result Poll \<times> (HostTcp \<times> FlowControl)" where
  "writer_poll pair me s =
     (let (t, f) = s; (st, t1) = poll_stream_state pair me t
      in if st = Stream_Reset then (Ready (Err (Kind BrokenPipe)), (t1, f))
         else if has_credits f then (Ready (Ok ()), (t1, f))
         else (Pending, (t1, register_waker me f)))"

text \<open>
  What happens in between: a segment of any stream arrives at the host, another half sends, the reader on
  the other side gives a credit back, somebody takes one.
\<close>

datatype WriterEvent = Segment_in SocketAddr SocketAddr Segment | Seq_taken SocketPair | Credit_back | Credit_taken

fun writer_event :: "WriterEvent \<Rightarrow> HostTcp \<times> FlowControl \<Rightarrow> (waker list \<times> (HostTcp \<times> FlowControl)) option" where
  "writer_event (Segment_in src dst segment) (t, f) = do {
     (_, t1) \<leftarrow> tcp_receive src dst segment t;
     Some (drop (length (tcp_woken t)) (tcp_woken t1), (t1, f))
   }"
| "writer_event (Seq_taken pair) (t, f) = Some ([], (snd (assign_send_seq pair t), f))"
| "writer_event Credit_back (t, f) = (let (ws, f1) = flow_release f in Some (ws, (t, f1)))"
| "writer_event Credit_taken (t, f) = Some ([], (t, snd (try_acquire f)))"

section \<open>Tasks\<close>

text \<open>
  A half with its waiting tasks: the asynchronous ones with the number they were enabled at, and the task
  whose last poll was pending and that has not been woken since.
\<close>

record 's Waiting =
  wt_source :: 's
  wt_set :: WakerSet
  wt_parked :: "nat \<Rightarrow> nat option"
  wt_polling :: "nat option"

inductive wait_step ::
  "('s \<Rightarrow> 'a Poll \<times> 's) \<Rightarrow> ('e \<Rightarrow> 's \<Rightarrow> (waker list \<times> 's) option) \<Rightarrow> waker \<Rightarrow> 's Waiting \<Rightarrow> 's Waiting \<Rightarrow> bool"
  for poll event me where
  park: "wait_turn poll (wt_set x) (wt_source x) = (Inr n, s) \<Longrightarrow>
    wait_step poll event me x (x\<lparr>wt_source := s, wt_parked := (wt_parked x)(i \<mapsto> n)\<rparr>)"
| finish: "wait_turn poll (wt_set x) (wt_source x) = (Inl a, s) \<Longrightarrow>
    wait_step poll event me x (x\<lparr>wt_source := s, wt_parked := (wt_parked x)(i := None)\<rparr>)"
| cancel: "wait_step poll event me x (x\<lparr>wt_parked := (wt_parked x)(i := None)\<rparr>)"
| polled: "poll (wt_source x) = (p, s) \<Longrightarrow>
    wait_step poll event me x (x\<lparr>wt_source := s, wt_set := register_poll i (wt_set x),
      wt_polling := (case p of Pending \<Rightarrow> Some i | Ready _ \<Rightarrow> None)\<rparr>)"
| woken: "event e (wt_source x) = Some (ws, s) \<Longrightarrow> me \<in> set ws \<Longrightarrow>
    wait_step poll event me x (x\<lparr>wt_source := s, wt_set := snd (wake_by_ref (wt_set x)),
      wt_polling := (if fst (wake_by_ref (wt_set x)) = wt_polling x then None else wt_polling x)\<rparr>)"
| silent: "event e (wt_source x) = Some (ws, s) \<Longrightarrow> me \<notin> set ws \<Longrightarrow>
    wait_step poll event me x (x\<lparr>wt_source := s\<rparr>)"

definition Waiting_new :: "'s \<Rightarrow> 's Waiting" where
  "Waiting_new s = \<lparr>wt_source = s, wt_set = WakerSet_default, wt_parked = (\<lambda>_. None), wt_polling = None\<rparr>"

section \<open>The contract of a source\<close>

text \<open>
  A poll that is pending leaves the waker of the set with every source it looked at; an armed source is
  pending, and stays armed until an event takes the waker out and wakes it.
\<close>

locale waker_source =
  fixes poll :: "'s \<Rightarrow> 'a Poll \<times> 's"
    and event :: "'e \<Rightarrow> 's \<Rightarrow> (waker list \<times> 's) option"
    and me :: waker
    and good :: "'s \<Rightarrow> bool"
    and armed :: "'s \<Rightarrow> bool"
  assumes poll_good: "good s \<Longrightarrow> good (snd (poll s))"
    and event_good: "good s \<Longrightarrow> event e s = Some (ws, s1) \<Longrightarrow> good s1"
    and pending_arms: "good s \<Longrightarrow> fst (poll s) = Pending \<Longrightarrow> armed (snd (poll s))"
    and armed_pending: "good s \<Longrightarrow> armed s \<Longrightarrow> fst (poll s) = Pending"
    and event_wakes: "good s \<Longrightarrow> armed s \<Longrightarrow> event e s = Some (ws, s1) \<Longrightarrow> me \<in> set ws \<or> armed s1"
begin

definition waiting_ok :: "'s Waiting \<Rightarrow> bool" where
  "waiting_ok x \<longleftrightarrow> good (wt_source x) \<and>
     (\<forall>i n. wt_parked x i = Some n \<longrightarrow> n \<le> ws_notified (wt_set x) \<and> (notified n (wt_set x) \<or> armed (wt_source x))) \<and>
     (\<forall>i. wt_polling x = Some i \<longrightarrow> ws_poll_waker (wt_set x) = Some i \<and> armed (wt_source x))"

lemma new_ok: "good s \<Longrightarrow> waiting_ok (Waiting_new s)"
  by (simp add: waiting_ok_def Waiting_new_def)

lemma poll_keeps_armed: "good s \<Longrightarrow> armed s \<Longrightarrow> poll s = (p, s1) \<Longrightarrow> p = Pending \<and> armed s1"
  using armed_pending [of s] pending_arms [of s] by simp

lemma turn_cases:
  "wait_turn poll ws s = (Inr n, s1) \<longleftrightarrow> poll s = (Pending, s1) \<and> n = ws_notified ws"
  "wait_turn poll ws s = (Inl a, s1) \<longleftrightarrow> poll s = (Ready a, s1)"
  by (auto simp: wait_turn_def split: Poll.splits prod.splits)

lemma step_ok: "wait_step poll event me x y \<Longrightarrow> waiting_ok x \<Longrightarrow> waiting_ok y"
proof (induction rule: wait_step.induct)
  case (park x n s i)
  then have "poll (wt_source x) = (Pending, s)" "n = ws_notified (wt_set x)" "good (wt_source x)"
    by (simp_all add: turn_cases waiting_ok_def)
  moreover from this have "armed s" "good s" using pending_arms [of "wt_source x"] poll_good [of "wt_source x"] by simp_all
  ultimately show ?case using park.prems by (auto simp: waiting_ok_def)
next
  case (finish x a s i)
  then have p: "poll (wt_source x) = (Ready a, s)" "good (wt_source x)" by (simp_all add: turn_cases waiting_ok_def)
  then have "\<not> armed (wt_source x)" "good s" using poll_keeps_armed [of "wt_source x"] poll_good [of "wt_source x"] by auto
  then show ?case using finish.prems by (auto simp: waiting_ok_def)
next
  case (polled x p s i)
  have g: "good (wt_source x)" "good s" using polled poll_good [of "wt_source x"] by (simp_all add: waiting_ok_def)
  have "armed s" if "armed (wt_source x) \<or> p = Pending"
    using that polled.hyps poll_keeps_armed [OF g(1)] pending_arms [OF g(1)] by auto
  then show ?case using polled.prems g
    by (auto simp: waiting_ok_def register_poll_def notified_def split: Poll.splits)
next
  case (woken e x ws s)
  have "good s" using event_good woken.hyps(1) woken.prems by (auto simp: waiting_ok_def)
  moreover have "n \<le> ws_notified (wt_set x)" if "wt_parked x i = Some n" for i n
    using that woken.prems by (simp add: waiting_ok_def)
  moreover have "wt_polling x = None \<or> ws_poll_waker (wt_set x) = wt_polling x"
    using woken.prems by (cases "wt_polling x") (simp_all add: waiting_ok_def)
  ultimately show ?case by (auto simp: waiting_ok_def wake_by_ref_def notified_def less_Suc_eq_le intro: le_SucI)
next
  case (silent e x ws s)
  have "good s" using event_good silent.hyps(1) silent.prems by (auto simp: waiting_ok_def)
  moreover have "armed s" if "armed (wt_source x)"
    using event_wakes [OF _ that silent.hyps(1)] silent.hyps(2) silent.prems by (auto simp: waiting_ok_def)
  ultimately show ?case using silent.prems by (auto simp: waiting_ok_def)
qed (auto simp: waiting_ok_def)

lemma run_ok: "(wait_step poll event me)\<^sup>*\<^sup>* x y \<Longrightarrow> waiting_ok x \<Longrightarrow> waiting_ok y"
  by (induction rule: rtranclp_induct) (auto intro: step_ok)

lemma never_missed:
  assumes "good s" "(wait_step poll event me)\<^sup>*\<^sup>* (Waiting_new s) x" "fst (poll (wt_source x)) \<noteq> Pending"
  shows "wt_parked x i = Some n \<Longrightarrow> notified n (wt_set x)" "wt_polling x = None"
  using run_ok [OF assms(2) new_ok [OF assms(1)]] armed_pending [of "wt_source x"] assms(3)
  by (fastforce simp: waiting_ok_def)+

end

section \<open>A writer's source keeps the contract\<close>

definition writer_good :: "HostTcp \<times> FlowControl \<Rightarrow> bool" where
  "writer_good s \<longleftrightarrow> imap_wf (tcp_sockets (fst s))"

definition writer_armed :: "SocketPair \<Rightarrow> waker \<Rightarrow> HostTcp \<times> FlowControl \<Rightarrow> bool" where
  "writer_armed pair me s \<longleftrightarrow>
     (\<exists>sock. imap_get (tcp_sockets (fst s)) pair = Some sock \<and> st_reset_waker sock = Some me) \<and>
     \<not> has_credits (snd s) \<and> fc_waker (snd s) = Some me"

lemma socket_state_not_reset [simp]: "socket_state s \<noteq> Stream_Reset"
  by (simp add: socket_state_def)

lemma drain_reset_waker: "st_reset_waker (snd (drain_buf s)) = st_reset_waker s"
proof (induction s rule: drain_buf.induct)
  case (1 s)
  show ?case
    by (subst drain_buf.simps)
      (use 1 in \<open>auto simp: Let_def split: option.splits SequencedSegment.splits send_outcome.splits\<close>)
qed

lemma buffer_reset_waker: "buffer sq seg s = Some (r, s1) \<Longrightarrow> st_reset_waker s1 = st_reset_waker s"
  using drain_reset_waker [of "s\<lparr>st_buf := imap_insert sq seg (st_buf s)\<rparr>"]
  by (auto simp: buffer_def split_beta Let_def split: if_splits)

text \<open>What a segment does to the stream of a pair: it wakes the waker of a reset, or leaves it in place.\<close>

lemma to_stream_keeps:
  assumes "to_stream p sq seg t = Some (r, t1)" "imap_wf (tcp_sockets t)"
  shows "imap_wf (tcp_sockets t1)" "tcp_woken t1 = tcp_woken t"
    "imap_get (tcp_sockets t) pair = Some sock \<Longrightarrow>
       \<exists>sock1. imap_get (tcp_sockets t1) pair = Some sock1 \<and> st_reset_waker sock1 = st_reset_waker sock"
  using assms by (auto simp: to_stream_def bind_Some_iff imap_simps buffer_reset_waker
      intro: distinct_update split: option.splits simp del: map_of_eq_Some_iff)

lemma reset_wakes:
  assumes "imap_wf (tcp_sockets t)" "imap_get (tcp_sockets t) pair = Some sock" "st_reset_waker sock = Some me"
  shows "me \<in> set (drop (length (tcp_woken t)) (tcp_woken (reset_stream p t))) \<or>
    imap_get (tcp_sockets (reset_stream p t)) pair = Some sock"
  using assms by (auto simp: reset_stream_def remove_socket_def imap_get_swap_remove
      split: option.splits simp del: map_of_eq_Some_iff)

lemma reset_wf: "imap_wf (tcp_sockets t) \<Longrightarrow> imap_wf (tcp_sockets (reset_stream p t))"
  by (simp add: reset_stream_def remove_socket_def imap_wf_swap_remove split: option.splits)

lemma receive_keeps:
  assumes "tcp_receive src dst segment t = Some (r, t1)" "imap_wf (tcp_sockets t)"
  shows "imap_wf (tcp_sockets t1)"
    "imap_get (tcp_sockets t) pair = Some sock \<Longrightarrow> st_reset_waker sock = Some me \<Longrightarrow>
       me \<in> set (drop (length (tcp_woken t)) (tcp_woken t1)) \<or>
       (\<exists>sock1. imap_get (tcp_sockets t1) pair = Some sock1 \<and> st_reset_waker sock1 = Some me)"
  using assms reset_wakes [OF assms(2), of pair sock me] to_stream_keeps(3) [of _ _ _ t r t1 pair sock]
  by (cases segment; force simp: tcp_receive_def bind_Some_iff reset_wf to_stream_keeps split: option.splits if_splits
      simp del: map_of_eq_Some_iff)+

lemma assign_keeps:
  assumes "imap_wf (tcp_sockets t)"
  shows "imap_wf (tcp_sockets (snd (assign_send_seq p t)))"
    "imap_get (tcp_sockets t) pair = Some sock \<Longrightarrow>
       \<exists>sock1. imap_get (tcp_sockets (snd (assign_send_seq p t))) pair = Some sock1 \<and> st_reset_waker sock1 = st_reset_waker sock"
  using assms by (auto simp: assign_send_seq_def assign_seq_def imap_simps intro: distinct_update split: option.splits
      simp del: map_of_eq_Some_iff)

interpretation writer: waker_source "writer_poll pair me" writer_event me writer_good "writer_armed pair me"
proof unfold_locales
  fix s :: "HostTcp \<times> FlowControl"
  obtain t f where s: "s = (t, f)" by force
  assume g: "writer_good s"
  show "writer_good (snd (writer_poll pair me s))"
    using g by (auto simp: s writer_good_def writer_poll_def poll_stream_state_def intro: distinct_update split: option.splits)
  show "fst (writer_poll pair me s) = Pending \<Longrightarrow> writer_armed pair me (snd (writer_poll pair me s))"
    by (auto simp: s writer_poll_def writer_armed_def poll_stream_state_def register_waker_def has_credits_def imap_simps
        split: option.splits if_splits simp del: map_of_eq_Some_iff)
  show "writer_armed pair me s \<Longrightarrow> fst (writer_poll pair me s) = Pending"
    by (auto simp: s writer_poll_def writer_armed_def poll_stream_state_def simp del: map_of_eq_Some_iff)
  fix e ws s1
  assume e: "writer_event e s = Some (ws, s1)"
  show "writer_good s1"
    using e g by (cases e) (auto simp: s writer_good_def bind_Some_iff split_beta Let_def receive_keeps assign_keeps)
  show "writer_armed pair me s \<Longrightarrow> me \<in> set ws \<or> writer_armed pair me s1"
    using e g receive_keeps(2) [of _ _ _ t _ _ pair _ me] assign_keeps(2) [of t pair]
    by (cases e) (fastforce simp: s writer_good_def writer_armed_def bind_Some_iff flow_release_def try_acquire_def has_credits_def
        simp del: map_of_eq_Some_iff)+
qed

section \<open>No writer is missed\<close>

lemma poll_writable_source:
  assumes "\<not> wh_shutdown wh" "current_host w = Some h" "imap_get (w_flows w) (wh_flow wh) = Some f"
    "poll_writable wh w = Some (p, w1)"
  shows "p = fst (writer_poll (wh_pair wh) (wh_waiters wh) (host_tcp h, f))"
  using assms by (auto simp: poll_writable_def writer_poll_def set_current_host_def current_host_def bind_Some_iff split_beta Let_def
      split: if_splits simp del: map_of_eq_Some_iff)

text \<open>
  C19. No blocked writer is missed. Let any number of tasks wait for a write half to become writable, by
  awaiting and by polling, and be cancelled, while segments arrive, sequence numbers are taken and credits come and go in
  any order. Whenever \<^verbatim>\<open>poll_writable\<close> would be ready, with a credit or with the error of a reset stream, every task that is still
  parked has been notified, and the last task that polled has been woken: nobody sleeps through the
  event it waits for, although each source keeps one waker only.
\<close>

theorem blocked_writer_never_missed:
  assumes "imap_wf (tcp_sockets t)" "\<not> wh_shutdown wh"
    "(wait_step (writer_poll (wh_pair wh) (wh_waiters wh)) writer_event (wh_waiters wh))\<^sup>*\<^sup>* (Waiting_new (t, f)) x"
    "current_host w = Some h" "imap_get (w_flows w) (wh_flow wh) = Some f'" "wt_source x = (host_tcp h, f')"
    "poll_writable wh w = Some (Ready r, w1)"
  shows "(\<forall>i n. wt_parked x i = Some n \<longrightarrow> notified n (wt_set x)) \<and> wt_polling x = None"
proof -
  have "writer_good (t, f)" using assms(1) by (simp add: writer_good_def)
  note missed = writer.never_missed [OF this assms(3)]
  have "fst (writer_poll (wh_pair wh) (wh_waiters wh) (wt_source x)) = Ready r"
    using poll_writable_source [OF assms(2,4,5,7)] assms(6) by simp
  then show ?thesis using missed by simp
qed

definition wk_addr :: "u16 \<Rightarrow> SocketAddr" where
  "wk_addr p = SocketAddr (V4 0x0A000001) p"

definition wk_pair :: SocketPair where
  "wk_pair = SocketPair (wk_addr 1) (wk_addr 2)"

definition wk_sock :: "waker option \<Rightarrow> StreamSocket" where
  "wk_sock wk = \<lparr>st_buf = [], st_next_send_seq = 1, st_recv_seq = 0, st_sender = True, st_chan = \<lparr>ch_capacity = 1, ch_queue = [], ch_closed = False\<rparr>,
     st_chan_id = 0, st_flow_write = 0, st_flow_read = 1, st_reset_waker = wk, st_ref_ct = 2\<rparr>"

definition wk_tcp :: "waker option \<Rightarrow> HostTcp" where
  "wk_tcp wk = (HostTcp_new 1)\<lparr>tcp_sockets := [(wk_pair, wk_sock wk)]\<rparr>"

definition wk_half :: WriteHalf where
  "wk_half = \<lparr>wh_pair = wk_pair, wh_shutdown = False, wh_flow = 0, wh_waiters = 5\<rparr>"

definition wk_host :: SimHost where
  "wk_host = (SimHost_new ''a'' (V4 0x0A000001) (HostTimer_new 0 0) (1, 9) 1 1)\<lparr>host_tcp := wk_tcp (Some 5)\<rparr>"

definition wk_world :: "nat World" where
  "wk_world = (World_new LinkConfig_default 0 (Iter4 1) 1)
     \<lparr>w_hosts := [(V4 0x0A000001, wk_host)], w_current := Some (V4 0x0A000001), w_flows := [(0, \<lparr>fc_credits = 1, fc_waker = None\<rparr>)]\<rparr>"

definition wk_end :: "(HostTcp \<times> FlowControl) Waiting" where
  "wk_end = \<lparr>wt_source = (wk_tcp (Some 5), \<lparr>fc_credits = 1, fc_waker = None\<rparr>), wt_set = \<lparr>ws_notified = 1, ws_poll_waker = None\<rparr>,
     wt_parked = [7 \<mapsto> 0], wt_polling = None\<rparr>"

text \<open>Task 7 parks without a credit, task 8 polls, and a credit comes back.\<close>

theorem blocked_writer_never_missed_witness:
  "wt_parked wk_end 7 = Some 0 \<and> notified 0 (wt_set wk_end) \<and> wt_polling wk_end = None"
proof -
  let ?poll = "writer_poll (wh_pair wk_half) (wh_waiters wk_half)" and ?s = "(wk_tcp (Some 5), \<lparr>fc_credits = 0, fc_waker = Some 5\<rparr>)"
  let ?x0 = "Waiting_new (wk_tcp None, \<lparr>fc_credits = 0, fc_waker = None\<rparr>)"
  let ?x1 = "?x0\<lparr>wt_source := ?s, wt_parked := (wt_parked ?x0)(7 \<mapsto> 0)\<rparr>"
  let ?x2 = "?x1\<lparr>wt_source := ?s, wt_set := register_poll 8 (wt_set ?x1), wt_polling := Some 8\<rparr>"
  note defs = wk_half_def wk_tcp_def wk_sock_def HostTcp_new_def writer_poll_def poll_stream_state_def socket_state_def
    has_credits_def register_waker_def Waiting_new_def
  have p: "?poll (wk_tcp None, \<lparr>fc_credits = 0, fc_waker = None\<rparr>) = (Pending, ?s)" "?poll ?s = (Pending, ?s)"
    by (simp_all add: defs)
  have "wait_step ?poll writer_event 5 ?x0 ?x1"
    by (rule wait_step.park) (simp add: wait_turn_def Waiting_new_def WakerSet_default_def p)
  moreover have "wait_step ?poll writer_event 5 ?x1 ?x2"
    using wait_step.polled [of ?poll ?x1 Pending ?s writer_event 5 8] p(2) by simp
  moreover have "wait_step ?poll writer_event 5 ?x2 wk_end"
    using wait_step.woken [of writer_event Credit_back ?x2 "[5]" "(wk_tcp (Some 5), \<lparr>fc_credits = 1, fc_waker = None\<rparr>)" 5 ?poll]
    by (simp add: wk_end_def flow_release_def Waiting_new_def WakerSet_default_def wake_by_ref_def register_poll_def)
  ultimately have run: "(wait_step ?poll writer_event (wh_waiters wk_half))\<^sup>*\<^sup>* ?x0 wk_end"
    by (simp add: wk_half_def converse_rtranclp_into_rtranclp)
  have w: "current_host wk_world = Some wk_host" "imap_get (w_flows wk_world) (wh_flow wk_half) = Some \<lparr>fc_credits = 1, fc_waker = None\<rparr>"
    "wt_source wk_end = (host_tcp wk_host, \<lparr>fc_credits = 1, fc_waker = None\<rparr>)" "\<not> wh_shutdown wk_half" "imap_wf (tcp_sockets (wk_tcp None))"
    by (simp_all add: wk_world_def current_host_def wk_half_def wk_end_def wk_host_def wk_tcp_def)
  have "\<exists>w1. poll_writable wk_half wk_world = Some (Ready (Ok ()), w1)"
    using w by (simp add: poll_writable_def wk_half_def wk_world_def set_current_host_def wk_host_def defs split: if_splits)
  then show ?thesis
    using blocked_writer_never_missed [OF w(5,4) run w(1-3)] by (auto simp: wk_end_def)
qed

end
