(* ===== verification/Sim_Entry.thy ===== *)
theory Sim_Entry
  imports Sim_Time Sim_Links Sim_Udp Shim_Addr
begin

text \<open>
  What simulated code calls: the free functions of \<^verbatim>\<open>turmoil/src/lib.rs\<close> and \<^verbatim>\<open>net/mod.rs\<close> over the world that
  is current on the thread (\<^verbatim>\<open>world.rs\<close>), the address arguments of \<^verbatim>\<open>dns.rs\<close>, the non-blocking calls of a
  UDP socket, the iterators over links and messages of \<^verbatim>\<open>top.rs\<close>, and the text of a message in a trace
  (\<^verbatim>\<open>envelope.rs\<close>). The clock is the instant of the runtime that is executing.
\<close>

section \<open>The current world\<close>

text \<open>The scoped cell of the thread: not set, or set to a world that nobody or somebody has borrowed.\<close>

datatype 'g CurrentWorld = Not_set | Idle "'g World" | Borrowed "'g World"

definition World_current ::
  "('g World \<Rightarrow> ('a \<times> 'g World) option) \<Rightarrow> 'g CurrentWorld \<Rightarrow> ('a \<times> 'g CurrentWorld) option" where
  "World_current f c =
     (case c of
        Idle w \<Rightarrow> do { (x, w1) \<leftarrow> f w; Some (x, Idle w1) }
      | _ \<Rightarrow> None)"

definition current_if_set :: "('g World \<Rightarrow> 'g World option) \<Rightarrow> 'g CurrentWorld \<Rightarrow> 'g CurrentWorld option" where
  "current_if_set f c =
     (case c of
        Not_set \<Rightarrow> Some Not_set
      | _ \<Rightarrow> map_option snd (World_current (\<lambda>w. map_option (Pair ()) (f w)) c))"

definition try_current :: "('g World \<Rightarrow> 'a option) \<Rightarrow> 'g CurrentWorld \<Rightarrow> (string + 'a) option" where
  "try_current f c =
     (case c of
        Not_set \<Rightarrow> Some (Inl ''World not set'')
      | Borrowed _ \<Rightarrow> Some (Inl ''World already borrowed'')
      | Idle w \<Rightarrow> map_option Inr (f w))"

text \<open>The cell holds the world while \<open>f\<close> runs, and what it held before afterwards.\<close>

definition World_enter ::
  "('g CurrentWorld \<Rightarrow> ('a \<times> 'g CurrentWorld) option) \<Rightarrow> 'g World \<Rightarrow> 'g CurrentWorld \<Rightarrow>
    ('a \<times> 'g World \<times> 'g CurrentWorld) option" where
  "World_enter f w c =
     (case f (Idle w) of
        Some (x, Idle w1) \<Rightarrow> Some (x, w1, c)
      | _ \<Rightarrow> None)"

definition world_hold :: "IpAddr \<Rightarrow> IpAddr \<Rightarrow> 'g World \<Rightarrow> 'g World option" where
  "world_hold a b = on_topology (top_hold a b)"

definition world_release :: "IpAddr \<Rightarrow> IpAddr \<Rightarrow> 'g World \<Rightarrow> 'g World option" where
  "world_release a b = on_topology (top_release a b)"

definition world_partition :: "IpAddr \<Rightarrow> IpAddr \<Rightarrow> 'g World \<Rightarrow> 'g World option" where
  "world_partition a b = on_topology (top_partition a b)"

definition world_partition_oneway :: "IpAddr \<Rightarrow> IpAddr \<Rightarrow> 'g World \<Rightarrow> 'g World option" where
  "world_partition_oneway a b = on_topology (top_partition_oneway a b)"

definition world_repair :: "IpAddr \<Rightarrow> IpAddr \<Rightarrow> 'g World \<Rightarrow> 'g World option" where
  "world_repair a b = on_topology (top_repair a b)"

definition world_repair_oneway :: "IpAddr \<Rightarrow> IpAddr \<Rightarrow> 'g World \<Rightarrow> 'g World option" where
  "world_repair_oneway a b = on_topology (top_repair_oneway a b)"

section \<open>Address arguments\<close>

datatype SimToIpAddr = Sim_name string | Sim_ip IpAddr | Sim_v4 u32 | Sim_v6 u128

fun sim_to_ip_addr :: "SimToIpAddr \<Rightarrow> sim_addr" where
  "sim_to_ip_addr (Sim_name n) d = name_to_ip_addr n d"
| "sim_to_ip_addr (Sim_ip a) d = (a, d)"
| "sim_to_ip_addr (Sim_v4 a) d = (V4 a, d)"
| "sim_to_ip_addr (Sim_v6 a) d = (V6 a, d)"

text \<open>Everything that resolves to one address resolves to a list of one.\<close>

definition one_ip_addr :: "SimToIpAddr \<Rightarrow> to_ip_addrs" where
  "one_ip_addr a d = (let (ip, d1) = sim_to_ip_addr a d in ([ip], d1))"

definition sim_dns_lookup_addr :: "SimToIpAddr \<Rightarrow> SimDns \<Rightarrow> IpAddr \<times> SimDns" where
  "sim_dns_lookup_addr a d = sim_to_ip_addr a d"

definition sim_dns_lookup_many :: "to_ip_addrs \<Rightarrow> SimDns \<Rightarrow> IpAddr list \<times> SimDns" where
  "sim_dns_lookup_many addrs d = addrs d"

datatype SimToSocketAddrs =
  Ss_addr SocketAddr | Ss_ip IpAddr u16 | Ss_v4 u32 u16 | Ss_v6 u128 u16 | Ss_name string u16 | Ss_text string

definition text_to_socket_addr :: "string \<Rightarrow> SimDns \<Rightarrow> SocketAddr io_result" where
  "text_to_socket_addr s d =
     (case parse_socket_addr s of
        Some sa \<Rightarrow> Ok sa
      | None \<Rightarrow>
          (case rsplit_once CHR '':'' s of
             None \<Rightarrow> Err (Kind InvalidInput)
           | Some (host, port_str) \<Rightarrow>
               (case parse_u16 port_str of
                  None \<Rightarrow> Err (Kind InvalidInput)
                | Some port \<Rightarrow> name_port_to_socket_addr host port d)))"

fun sim_to_socket_addr :: "SimToSocketAddrs \<Rightarrow> to_socket_addr" where
  "sim_to_socket_addr (Ss_addr sa) d = Ok sa"
| "sim_to_socket_addr (Ss_ip a p) d = Ok (SocketAddr a p)"
| "sim_to_socket_addr (Ss_v4 a p) d = Ok (SocketAddr (V4 a) p)"
| "sim_to_socket_addr (Ss_v6 a p) d = Ok (SocketAddr (V6 a) p)"
| "sim_to_socket_addr (Ss_name n p) d = name_port_to_socket_addr n p d"
| "sim_to_socket_addr (Ss_text s) d = text_to_socket_addr s d"

section \<open>The functions of the crate\<close>

definition in_simulation :: "'g CurrentWorld \<Rightarrow> bool option" where
  "in_simulation c = map_option (\<lambda>r. case r of Inl _ \<Rightarrow> False | Inr _ \<Rightarrow> True) (try_current (\<lambda>_. Some ()) c)"

definition turmoil_elapsed :: "nat \<Rightarrow> 'g CurrentWorld \<Rightarrow> (duration \<times> 'g CurrentWorld) option" where
  "turmoil_elapsed clock =
     World_current (\<lambda>w. do { h \<leftarrow> current_host w; e \<leftarrow> timer_elapsed clock (host_timer h); Some (e, w) })"

text \<open>What a clock of the current host says, \<open>None\<close> when there is no world or no current host.\<close>

definition read_clock :: "(HostTimer \<Rightarrow> duration option) \<Rightarrow> 'g CurrentWorld \<Rightarrow> duration option option" where
  "read_clock read c =
     map_option (\<lambda>r. case r of Inl _ \<Rightarrow> None | Inr x \<Rightarrow> x)
       (try_current (\<lambda>w. case try_current_host w of Inl _ \<Rightarrow> Some None | Inr h \<Rightarrow> map_option Some (read (host_timer h))) c)"

definition turmoil_sim_elapsed :: "nat \<Rightarrow> 'g CurrentWorld \<Rightarrow> duration option option" where
  "turmoil_sim_elapsed clock = read_clock (sim_elapsed clock)"

definition turmoil_since_epoch :: "nat \<Rightarrow> 'g CurrentWorld \<Rightarrow> duration option option" where
  "turmoil_since_epoch clock = read_clock (timer_since_epoch clock)"

definition turmoil_lookup :: "SimToIpAddr \<Rightarrow> 'g CurrentWorld \<Rightarrow> (IpAddr \<times> 'g CurrentWorld) option" where
  "turmoil_lookup addr =
     World_current (\<lambda>w. let (a, d) = sim_dns_lookup_addr addr (w_dns w) in Some (a, w\<lparr>w_dns := d\<rparr>))"

definition turmoil_reverse_lookup :: "IpAddr \<Rightarrow> 'g CurrentWorld \<Rightarrow> (string option \<times> 'g CurrentWorld) option" where
  "turmoil_reverse_lookup addr = World_current (\<lambda>w. Some (reverse_lookup w addr, w))"

definition turmoil_lookup_many :: "to_ip_addrs \<Rightarrow> 'g CurrentWorld \<Rightarrow> (IpAddr list \<times> 'g CurrentWorld) option" where
  "turmoil_lookup_many addrs = World_current (\<lambda>w. Some (world_lookup_many addrs w))"

text \<open>A call for its effect on the world.\<close>

definition run_current :: "('g World \<Rightarrow> 'g World option) \<Rightarrow> 'g CurrentWorld \<Rightarrow> 'g CurrentWorld option" where
  "run_current f c = map_option snd (World_current (\<lambda>w. map_option (Pair ()) (f w)) c)"

definition turmoil_hold :: "to_ip_addrs \<Rightarrow> to_ip_addrs \<Rightarrow> 'g CurrentWorld \<Rightarrow> 'g CurrentWorld option" where
  "turmoil_hold a b = run_current (hold_many a b)"

definition turmoil_release :: "to_ip_addrs \<Rightarrow> to_ip_addrs \<Rightarrow> 'g CurrentWorld \<Rightarrow> 'g CurrentWorld option" where
  "turmoil_release a b = run_current (release_many a b)"

definition turmoil_partition :: "to_ip_addrs \<Rightarrow> to_ip_addrs \<Rightarrow> 'g CurrentWorld \<Rightarrow> 'g CurrentWorld option" where
  "turmoil_partition a b = run_current (partition_many a b)"

definition turmoil_partition_oneway :: "to_ip_addrs \<Rightarrow> to_ip_addrs \<Rightarrow> 'g CurrentWorld \<Rightarrow> 'g CurrentWorld option" where
  "turmoil_partition_oneway a b = run_current (partition_oneway_many a b)"

definition turmoil_repair :: "to_ip_addrs \<Rightarrow> to_ip_addrs \<Rightarrow> 'g CurrentWorld \<Rightarrow> 'g CurrentWorld option" where
  "turmoil_repair a b = run_current (repair_many a b)"

definition turmoil_repair_oneway :: "to_ip_addrs \<Rightarrow> to_ip_addrs \<Rightarrow> 'g CurrentWorld \<Rightarrow> 'g CurrentWorld option" where
  "turmoil_repair_oneway a b = run_current (repair_oneway_many a b)"

definition established_tcp_stream_count :: "'g CurrentWorld \<Rightarrow> (nat \<times> 'g CurrentWorld) option" where
  "established_tcp_stream_count = World_current (\<lambda>w. do { n \<leftarrow> est_tcp_streams w; Some (n, w) })"

definition established_tcp_stream_count_on :: "string \<Rightarrow> 'g CurrentWorld \<Rightarrow> (nat \<times> 'g CurrentWorld) option" where
  "established_tcp_stream_count_on n = World_current (est_tcp_streams_on n)"

definition turmoil_lookup_host :: "SimToSocketAddrs \<Rightarrow> 'g CurrentWorld \<Rightarrow> (SocketAddr list io_result \<times> 'g CurrentWorld) option" where
  "turmoil_lookup_host host =
     World_current (\<lambda>w. Some (map_sum id (\<lambda>a. [a]) (sim_to_socket_addr host (w_dns w)), w))"

section \<open>Non-blocking calls of a UDP socket\<close>

text \<open>\<open>locked\<close> says that another task is waiting in a receive call of the same socket.\<close>

definition UdpSocket_try_send_to ::
  "'g NetRng \<Rightarrow> UdpSocket \<Rightarrow> bytes \<Rightarrow> to_socket_addr \<Rightarrow> 'g World \<Rightarrow> (nat io_result \<times> 'g World) option" where
  "UdpSocket_try_send_to rng s buf target w =
     (case target (w_dns w) of
        Err e \<Rightarrow> Some (Err e, w)
      | Ok dst \<Rightarrow> do {
          (r, w1) \<leftarrow> UdpSocket_send rng s dst buf w;
          Some (map_sum id (\<lambda>_. length buf) r, w1)
        })"

definition UdpSocket_writable :: "UdpSocket \<Rightarrow> unit io_result Poll" where
  "UdpSocket_writable s = Ready (Ok ())"

definition UdpSocket_try_recv_from ::
  "bool \<Rightarrow> nat \<Rightarrow> UdpSocket \<Rightarrow> 'g World \<Rightarrow> (bytes \<times> SocketAddr) io_result \<times> UdpSocket \<times> 'g World" where
  "UdpSocket_try_recv_from locked n s w =
     (if locked then (Err (Kind WouldBlock), s, w) else rx_try_recv_from n s w)"

definition UdpSocket_try_recv :: "bool \<Rightarrow> nat \<Rightarrow> UdpSocket \<Rightarrow> 'g World \<Rightarrow> bytes io_result \<times> UdpSocket \<times> 'g World" where
  "UdpSocket_try_recv locked n s w =
     (let (r, s1, w1) = UdpSocket_try_recv_from locked n s w in (map_sum id fst r, s1, w1))"

definition UdpSocket_readable :: "bool \<Rightarrow> UdpSocket \<Rightarrow> 'g World \<Rightarrow> unit io_result Poll \<times> UdpSocket \<times> 'g World" where
  "UdpSocket_readable locked s w = (if locked then (Pending, s, w) else rx_readable s w)"

definition UdpSocket_local_addr :: "UdpSocket \<Rightarrow> SocketAddr io_result" where
  "UdpSocket_local_addr s = Ok (us_local_addr s)"

section \<open>Links and the messages on them\<close>

type_synonym LinksIter = "(Pair \<times> Link) list"

record LinkIter =
  li_a :: IpAddr
  li_b :: IpAddr
  li_now :: nat
  li_iter :: "Sent list"

record SentRef =
  sr_src :: SocketAddr
  sr_dst :: SocketAddr
  sr_now :: nat
  sr_sent :: Sent

definition top_iter_mut :: "Topology \<Rightarrow> LinksIter" where
  "top_iter_mut t = links_of t"

fun LinksIter_next :: "LinksIter \<Rightarrow> (LinkIter \<times> LinksIter) option" where
  "LinksIter_next [] = None"
| "LinksIter_next ((pair, link) # rest) =
     Some (\<lparr>li_a = fst pair, li_b = snd pair, li_now = link_now link, li_iter = link_sent link\<rparr>, rest)"

definition LinkIter_pair :: "LinkIter \<Rightarrow> IpAddr \<times> IpAddr" where
  "LinkIter_pair it = (li_a it, li_b it)"

definition LinkIter_next :: "LinkIter \<Rightarrow> (SentRef \<times> LinkIter) option" where
  "LinkIter_next it =
     (case li_iter it of
        [] \<Rightarrow> None
      | sent # rest \<Rightarrow>
          Some (\<lparr>sr_src = sent_src sent, sr_dst = sent_dst sent, sr_now = li_now it, sr_sent = sent\<rparr>, it\<lparr>li_iter := rest\<rparr>))"

definition SentRef_pair :: "SentRef \<Rightarrow> SocketAddr \<times> SocketAddr" where
  "SentRef_pair r = (sr_src r, sr_dst r)"

definition SentRef_protocol :: "SentRef \<Rightarrow> Protocol" where
  "SentRef_protocol r = sent_protocol (sr_sent r)"

text \<open>The message as it is behind the reference afterwards.\<close>

definition SentRef_deliver :: "SentRef \<Rightarrow> Sent" where
  "SentRef_deliver r = sent_deliver (sr_now r) (sr_sent r)"

text \<open>
  A test walks the iterators and calls \<^verbatim>\<open>deliver\<close> on the references it chooses; everything else it can do
  with them is to look. The choice is the parameter \<open>pick\<close>.
\<close>

function visit_link :: "(SentRef \<Rightarrow> bool) \<Rightarrow> LinkIter \<Rightarrow> Sent list" where
  "visit_link pick it =
     (case LinkIter_next it of
        None \<Rightarrow> []
      | Some (r, it1) \<Rightarrow> (if pick r then SentRef_deliver r else sr_sent r) # visit_link pick it1)"
  by pat_completeness auto
termination
  by (relation "measure (\<lambda>(_, it). length (li_iter it))") (auto simp: LinkIter_next_def split: list.splits)

declare visit_link.simps [simp del]

fun visit_links :: "(IpAddr \<times> IpAddr \<Rightarrow> SentRef \<Rightarrow> bool) \<Rightarrow> LinksIter \<Rightarrow> LinksIter" where
  "visit_links pick [] = []"
| "visit_links pick ((pair, link) # rest) =
     (case LinksIter_next ((pair, link) # rest) of
        None \<Rightarrow> []
      | Some (it, rest1) \<Rightarrow> (pair, link\<lparr>link_sent := visit_link (pick (LinkIter_pair it)) it\<rparr>) # visit_links pick rest)"

definition Sim_links :: "(IpAddr \<times> IpAddr \<Rightarrow> SentRef \<Rightarrow> bool) \<Rightarrow> ('t, 'g) Sim \<Rightarrow> ('t, 'g) Sim" where
  "Sim_links pick s =
     (let w = sim_world s; top = w_topology w
      in s\<lparr>sim_world := w\<lparr>w_topology := top\<lparr>links_of := visit_links pick (top_iter_mut top)\<rparr>\<rparr>\<rparr>)"

section \<open>Messages in a trace\<close>

definition upper_digit :: "nat \<Rightarrow> char" where
  "upper_digit n = char_of (if n < 10 then 48 + n else 55 + n)"

text \<open>Two upper-case digits after the prefix.\<close>

definition show_byte :: "u8 \<Rightarrow> string" where
  "show_byte b = ''0x'' @ [upper_digit (unat b div 16), upper_digit (unat b mod 16)]"

fun hex_items :: "bytes \<Rightarrow> string" where
  "hex_items [] = []"
| "hex_items [b] = show_byte b"
| "hex_items (b # c # bs) = show_byte b @ '', '' @ hex_items (c # bs)"

definition hex :: "string \<Rightarrow> bytes \<Rightarrow> string" where
  "hex protocol bytes = protocol @ '' ['' @ hex_items bytes @ '']''"

fun show_segment :: "Segment \<Rightarrow> string" where
  "show_segment (Segment.Syn _) = ''TCP SYN''"
| "show_segment (Segment.Data _ data) = hex ''TCP'' data"
| "show_segment (Segment.Fin _) = ''TCP FIN''"
| "show_segment Segment.Rst = ''TCP RST''"

definition show_datagram :: "bytes \<Rightarrow> string" where
  "show_datagram d = hex ''UDP'' d"

fun show_protocol :: "Protocol \<Rightarrow> string" where
  "show_protocol (ProtoTcp segment) = show_segment segment"
| "show_protocol (ProtoUdp datagram) = show_datagram datagram"

fun show_sequenced :: "SequencedSegment \<Rightarrow> string" where
  "show_sequenced (SeqData data) = hex ''TCP'' data"
| "show_sequenced SeqFin = ''TCP FIN''"

section \<open>Entering and leaving\<close>

text \<open>Entering a world restores what was current, and simulated code knows that it is in a simulation.\<close>

lemma enter_restores: "World_enter f w c = Some (x, w1, c1) \<Longrightarrow> c1 = c"
  by (auto simp: World_enter_def split: option.splits CurrentWorld.splits)

lemma in_simulation_entered:
  "World_enter (\<lambda>c. do { b \<leftarrow> in_simulation c; Some (b, c) }) w c = Some (True, w, c)" "in_simulation Not_set = Some False"
  by (simp_all add: World_enter_def in_simulation_def try_current_def)

text \<open>
  The clocks report nothing, without a panic, when there is no world, no current host or a borrow; on a host
  that a step has entered they report its time.
\<close>

lemma read_clock_cases:
  "read_clock f Not_set = Some None" "read_clock f (Borrowed w) = Some None"
  "w_current w = None \<Longrightarrow> read_clock f (Idle w) = Some None"
  "current_host w = Some h \<Longrightarrow> read_clock f (Idle w) = map_option Some (f (host_timer h))"
  by (auto simp: read_clock_def try_current_def try_current_host_def current_host_def option.map_comp comp_def bind_Some_iff
      simp del: map_of_eq_Some_iff split: option.splits)

text \<open>A hostname resolves the same in both crates, and a text that names no port is refused.\<close>

lemma text_agrees:
  assumes "\<And>h. lookup_host h (Some n) = imap_get (sd_names d) h"
  shows "text_to_socket_addr s d = parse_text n s"
  using assms by (simp add: text_to_socket_addr_def parse_text_def resolve_host_def name_port_to_socket_addr_def split: option.splits)

lemma text_without_port:
  assumes "parse_socket_addr s = None" "CHR '':'' \<notin> set s"
  shows "text_to_socket_addr s d = Err (Kind InvalidInput)"
  using assms by (simp add: text_to_socket_addr_def rsplit_once_None [THEN iffD2])

section \<open>Delivering by hand\<close>

lemma visit_link_map:
  "visit_link pick it =
     map (\<lambda>m. if pick \<lparr>sr_src = sent_src m, sr_dst = sent_dst m, sr_now = li_now it, sr_sent = m\<rparr> then sent_deliver (li_now it) m else m)
       (li_iter it)"
proof (induction "li_iter it" arbitrary: it)
  case Nil
  then show ?case by (subst visit_link.simps) (simp add: LinkIter_next_def)
next
  case (Cons m ms)
  then show ?case
    using Cons.hyps(1) [of "it\<lparr>li_iter := ms\<rparr>"] by (subst visit_link.simps) (simp add: LinkIter_next_def SentRef_deliver_def Cons.hyps(2) [symmetric])
qed

lemma visit_all_delivers:
  "visit_link (\<lambda>_. True) \<lparr>li_a = a, li_b = b, li_now = link_now l, li_iter = link_sent l\<rparr> = link_sent (link_deliver_all l)"
  by (simp add: visit_link_map link_deliver_all_def)

text \<open>
  What a test delivers by hand leaves the link at the next tick, held or not, and what it does not touch
  stays exactly as it was.
\<close>

lemma delivered_by_hand:
  assumes "l' = l\<lparr>link_sent := visit_link pick \<lparr>li_a = a, li_b = b, li_now = link_now l, li_iter = link_sent l\<rparr>\<rparr>"
    "link_now l \<le> t" "\<forall>m \<in> set (link_sent l). \<not> is_due t m"
  shows "link_sent (link_tick t l') =
    filter (\<lambda>m. \<not> pick \<lparr>sr_src = sent_src m, sr_dst = sent_dst m, sr_now = link_now l, sr_sent = m\<rparr>) (link_sent l)"
proof -
  let ?p = "\<lambda>m. pick \<lparr>sr_src = sent_src m, sr_dst = sent_dst m, sr_now = link_now l, sr_sent = m\<rparr>"
  let ?f = "\<lambda>m. if ?p m then sent_deliver (link_now l) m else m"
  have due: "is_due t (?f m) \<longleftrightarrow> ?p m" if "m \<in> set (link_sent l)" for m
    using assms(2,3) that by (auto simp: sent_deliver_def)
  have "filter (\<lambda>m. \<not> is_due t m) (map ?f ms) = filter (\<lambda>m. \<not> ?p m) ms" if "set ms \<subseteq> set (link_sent l)" for ms
    using that by (induction ms) (use due in auto)
  from this [OF order.refl] show ?thesis by (simp add: link_tick_def process_sent assms(1) visit_link_map del: is_due.simps cong del: if_weak_cong)
qed

section \<open>Traces can be read back\<close>

lemma upper_digit_code: "n < 16 \<Longrightarrow> (of_char (upper_digit n) :: nat) = (if n < 10 then 48 + n else 55 + n)"
  by (simp add: upper_digit_def)

lemma upper_digit_inj: "m < 16 \<Longrightarrow> n < 16 \<Longrightarrow> upper_digit m = upper_digit n \<longleftrightarrow> m = n"
proof -
  assume mn: "m < 16" "n < 16"
  have "m = n" if "upper_digit m = upper_digit n"
    using upper_digit_code [OF mn(1), unfolded that upper_digit_code [OF mn(2)]] mn by (simp split: if_splits)
  then show ?thesis by blast
qed

lemma show_byte_inj: "show_byte b = show_byte c \<longleftrightarrow> b = c"
proof -
  have lt: "unat a div 16 < 16" for a :: u8 using unsigned_less [of a, where ?'a = nat] by simp
  have "b = c" if "unat b div 16 = unat c div 16" "unat b mod 16 = unat c mod 16"
    using that by (intro unsigned_word_eqI [where ?'a = nat]) (metis div_mult_mod_eq)
  then show ?thesis by (auto simp: show_byte_def upper_digit_inj [OF lt lt] upper_digit_inj)
qed

lemma show_byte_not_nil: "length (show_byte b) = 4" "show_byte b \<noteq> []" "[] \<noteq> show_byte b"
  by (simp_all add: show_byte_def)

lemma hex_items_inj: "hex_items xs = hex_items ys \<Longrightarrow> xs = ys"
proof (induction xs arbitrary: ys rule: hex_items.induct)
  case 1
  then show ?case by (cases ys rule: hex_items.cases) (simp_all add: show_byte_not_nil)
next
  case (2 b)
  then show ?case
    by (cases ys rule: hex_items.cases) (auto simp: show_byte_not_nil show_byte_inj dest: arg_cong [of _ _ length])
next
  case (3 b c bs)
  show ?case
  proof (cases ys rule: hex_items.cases)
    case (2 d)
    then show ?thesis using "3.prems" by (auto simp: show_byte_not_nil dest: arg_cong [of _ _ length])
  next
    case (3 d e ds)
    then show ?thesis using "3.prems" "3.IH" [of "e # ds"] by (simp add: append_eq_append_conv show_byte_not_nil show_byte_inj)
  qed (use "3.prems" in \<open>simp add: show_byte_not_nil\<close>)
qed

text \<open>A trace shows the whole payload: two datagrams with the same text are the same.\<close>

lemma hex_inj: "hex p xs = hex p ys \<longleftrightarrow> xs = ys"
  by (auto simp: hex_def dest: hex_items_inj)

lemma show_byte_pads: "show_byte 13 = ''0x0D''"
  by code_simp

end
