(* ===== verification/Ring_Enter.thy ===== *)
theory Ring_Enter
  imports Ring_Host Fs_Config
begin

text \<open>
  The file system and the rings that a thread has entered (\<^verbatim>\<open>turmoil-fs/src/lib.rs\<close>, \<^verbatim>\<open>turmoil-io-uring/src/host.rs\<close>). A
  handle is the address of a shared state, kept in a store; entering puts it into a cell of the thread, and
  the guard puts back what was there. A call locks the state it works on for its own duration, so
  threads interleave by calls and no lock is held between them.
\<close>

section \<open>Cells and store\<close>

type_synonym handle = nat

record Thread =
  th_fs :: "handle option"
  th_iou :: "handle option"
  th_now :: duration

definition Thread_new :: Thread where
  "Thread_new = \<lparr>th_fs = None, th_iou = None, th_now = 0\<rparr>"

record 'g Store =
  sto_fs :: "(handle, 'g FsState) imap"
  sto_iou :: "(handle, IoUringHostState) imap"

section \<open>Entering a file system\<close>

record FsEnterGuard =
  fg_prev :: "handle option"

definition fs_enter :: "handle \<Rightarrow> Thread \<Rightarrow> FsEnterGuard \<times> Thread" where
  "fs_enter a th = (\<lparr>fg_prev = th_fs th\<rparr>, th\<lparr>th_fs := Some a\<rparr>)"

definition FsEnterGuard_drop :: "FsEnterGuard \<Rightarrow> Thread \<Rightarrow> Thread" where
  "FsEnterGuard_drop g th = th\<lparr>th_fs := fg_prev g\<rparr>"

text \<open>\<open>f\<close> gets the state and its clock.\<close>

definition FsContext_current ::
  "('g FsState \<Rightarrow> duration \<Rightarrow> ('a \<times> 'g FsState) option) \<Rightarrow> Thread \<Rightarrow> 'g Store \<Rightarrow> ('a \<times> 'g Store) option" where
  "FsContext_current f th sto = do {
     a \<leftarrow> th_fs th;
     fs \<leftarrow> imap_get (sto_fs sto) a;
     (x, fs1) \<leftarrow> f fs (fs_now fs);
     Some (x, sto\<lparr>sto_fs := imap_insert a fs1 (sto_fs sto)\<rparr>)
   }"

definition FsContext_current_if_set ::
  "('g FsState \<Rightarrow> duration \<Rightarrow> 'g FsState option) \<Rightarrow> Thread \<Rightarrow> 'g Store \<Rightarrow> 'g Store option" where
  "FsContext_current_if_set f th sto =
     (case th_fs th of
        None \<Rightarrow> Some sto
      | Some a \<Rightarrow> do {
          fs \<leftarrow> imap_get (sto_fs sto) a;
          fs1 \<leftarrow> f fs (fs_now fs);
          Some (sto\<lparr>sto_fs := imap_insert a fs1 (sto_fs sto)\<rparr>)
        })"

definition Fs_current :: "Thread \<Rightarrow> handle option" where
  "Fs_current th = th_fs th"

definition Fs_enter :: "handle \<Rightarrow> Thread \<Rightarrow> FsEnterGuard \<times> Thread" where
  "Fs_enter a th = fs_enter a th"

definition Fs_set_now :: "duration \<Rightarrow> handle \<Rightarrow> 'g Store \<Rightarrow> 'g Store option" where
  "Fs_set_now now a sto = do {
     fs \<leftarrow> imap_get (sto_fs sto) a;
     Some (sto\<lparr>sto_fs := imap_insert a (fs\<lparr>fs_now := now\<rparr>) (sto_fs sto)\<rparr>)
   }"

definition Fs_crash :: "'g Rng \<Rightarrow> handle \<Rightarrow> 'g Store \<Rightarrow> 'g Store option" where
  "Fs_crash rng a sto = do {
     fs \<leftarrow> imap_get (sto_fs sto) a;
     Some (sto\<lparr>sto_fs := imap_insert a (crash (random_range rng) fs) (sto_fs sto)\<rparr>)
   }"

definition FsState_default :: "(64 word \<Rightarrow> 'g) \<Rightarrow> 'g FsState" where
  "FsState_default seed_rng = FsState_new FsConfig_default (seed_rng 0)"

section \<open>Entering the rings\<close>

record IoUringEnterGuard =
  ig_prev :: "handle option"
  ig_prev_now :: duration

definition iou_enter :: "handle \<Rightarrow> duration \<Rightarrow> Thread \<Rightarrow> IoUringEnterGuard \<times> Thread" where
  "iou_enter a now th = (\<lparr>ig_prev = th_iou th, ig_prev_now = th_now th\<rparr>, th\<lparr>th_iou := Some a, th_now := now\<rparr>)"

definition IoUringEnterGuard_drop :: "IoUringEnterGuard \<Rightarrow> Thread \<Rightarrow> Thread" where
  "IoUringEnterGuard_drop g th = th\<lparr>th_iou := ig_prev g, th_now := ig_prev_now g\<rparr>"

definition IoUringContext_current ::
  "(IoUringHostState \<Rightarrow> duration \<Rightarrow> ('a \<times> IoUringHostState) option) \<Rightarrow> Thread \<Rightarrow> 'g Store \<Rightarrow> ('a \<times> 'g Store) option" where
  "IoUringContext_current f th sto = do {
     a \<leftarrow> th_iou th;
     iou \<leftarrow> imap_get (sto_iou sto) a;
     (x, iou1) \<leftarrow> f iou (th_now th);
     Some (x, sto\<lparr>sto_iou := imap_insert a iou1 (sto_iou sto)\<rparr>)
   }"

definition IoUringContext_current_if_set ::
  "(IoUringHostState \<Rightarrow> duration \<Rightarrow> IoUringHostState option) \<Rightarrow> Thread \<Rightarrow> 'g Store \<Rightarrow> 'g Store option" where
  "IoUringContext_current_if_set f th sto =
     (case th_iou th of
        None \<Rightarrow> Some sto
      | Some a \<Rightarrow> do {
          iou \<leftarrow> imap_get (sto_iou sto) a;
          iou1 \<leftarrow> f iou (th_now th);
          Some (sto\<lparr>sto_iou := imap_insert a iou1 (sto_iou sto)\<rparr>)
        })"

text \<open>Both states at once, at the clock of the file system; the generator is a part of the file system.\<close>

definition with_fs_and_io_uring ::
  "('g FsState \<Rightarrow> IoUringHostState \<Rightarrow> duration \<Rightarrow> ('a \<times> 'g FsState \<times> IoUringHostState) option) \<Rightarrow> Thread \<Rightarrow> 'g Store \<Rightarrow>
    ('a \<times> 'g Store) option" where
  "with_fs_and_io_uring f th sto = do {
     a \<leftarrow> th_fs th;
     fs \<leftarrow> imap_get (sto_fs sto) a;
     b \<leftarrow> th_iou th;
     iou \<leftarrow> imap_get (sto_iou sto) b;
     (x, fs1, iou1) \<leftarrow> f fs iou (fs_now fs);
     Some (x, sto\<lparr>sto_fs := imap_insert a fs1 (sto_fs sto), sto_iou := imap_insert b iou1 (sto_iou sto)\<rparr>)
   }"

section \<open>Scopes\<close>

text \<open>Code with lexical scopes: calls, and blocks that enter a file system, run and drop the guard.\<close>

datatype 'c Script = Call 'c | Within handle "'c Script list"

fun run_script :: "('c \<Rightarrow> 'g FsState \<Rightarrow> duration \<Rightarrow> 'g FsState option) \<Rightarrow> 'c Script \<Rightarrow> Thread \<times> 'g Store \<Rightarrow> (Thread \<times> 'g Store) option"
  and run_scripts :: "('c \<Rightarrow> 'g FsState \<Rightarrow> duration \<Rightarrow> 'g FsState option) \<Rightarrow> 'c Script list \<Rightarrow> Thread \<times> 'g Store \<Rightarrow> (Thread \<times> 'g Store) option"
where
  "run_script step (Call c) (th, sto) =
     map_option (\<lambda>(_, sto1). (th, sto1)) (FsContext_current (\<lambda>fs now. map_option (Pair ()) (step c fs now)) th sto)"
| "run_script step (Within a ps) (th, sto) =
     (let (g, th1) = fs_enter a th
      in map_option (\<lambda>(th2, sto1). (FsEnterGuard_drop g th2, sto1)) (run_scripts step ps (th1, sto)))"
| "run_scripts step [] x = Some x"
| "run_scripts step (p # ps) x = Option.bind (run_script step p x) (run_scripts step ps)"

text \<open>The calls of a script with the file system that each is meant for: that of the innermost block.\<close>

fun addressed :: "handle option \<Rightarrow> 'c Script \<Rightarrow> (handle option \<times> 'c) list"
  and addressed_all :: "handle option \<Rightarrow> 'c Script list \<Rightarrow> (handle option \<times> 'c) list" where
  "addressed cur (Call c) = [(cur, c)]"
| "addressed cur (Within a ps) = addressed_all (Some a) ps"
| "addressed_all cur [] = []"
| "addressed_all cur (p # ps) = addressed cur p @ addressed_all cur ps"

fun apply_calls :: "('c \<Rightarrow> 'g FsState \<Rightarrow> duration \<Rightarrow> 'g FsState option) \<Rightarrow> (handle option \<times> 'c) list \<Rightarrow> 'g Store \<Rightarrow> 'g Store option" where
  "apply_calls step [] sto = Some sto"
| "apply_calls step ((cur, c) # cs) sto = do {
     a \<leftarrow> cur;
     fs \<leftarrow> imap_get (sto_fs sto) a;
     fs1 \<leftarrow> step c fs (fs_now fs);
     apply_calls step cs (sto\<lparr>sto_fs := imap_insert a fs1 (sto_fs sto)\<rparr>)
   }"

lemma apply_calls_append: "apply_calls step (xs @ ys) sto = Option.bind (apply_calls step xs sto) (apply_calls step ys)"
  by (induction xs arbitrary: sto) (simp_all add: split_paired_all)

text \<open>
  Nested scopes leave the thread as they found it, and every call works on the file system of the innermost
  scope around it.
\<close>

lemma run_addressed:
  "run_script step p (th, sto) = map_option (Pair th) (apply_calls step (addressed (th_fs th) p) sto)"
  "run_scripts step ps (th, sto) = map_option (Pair th) (apply_calls step (addressed_all (th_fs th) ps) sto)"
proof (induction step p "(th, sto)" and step ps "(th, sto)" arbitrary: th sto and th sto rule: run_script_run_scripts.induct)
  case (1 step c th sto)
  show ?case by (cases "th_fs th") (simp_all add: FsContext_current_def split: bind_splits option.splits)
next
  case (2 step a ps th sto)
  have th: "FsEnterGuard_drop (fst (fs_enter a th)) (snd (fs_enter a th)) = th" "th_fs (snd (fs_enter a th)) = Some a"
    by (simp_all add: fs_enter_def FsEnterGuard_drop_def)
  have "run_scripts step ps (snd (fs_enter a th), sto) =
      map_option (Pair (snd (fs_enter a th))) (apply_calls step (addressed_all (Some a) ps) sto)"
    using 2 th(2) by (simp add: prod_eq_iff)
  then show ?case by (simp add: split_beta option.map_comp comp_def th)
next
  case (4 step p ps th sto)
  then show ?case by (cases "run_script step p (th, sto)") (auto simp: apply_calls_append split: bind_splits)
qed simp

text \<open>
  Guards that are dropped in the order they were made leave the first file system current after both are
  gone.
\<close>

lemma guards_out_of_order:
  assumes "fs_enter a th = (g1, th1)" "fs_enter b th1 = (g2, th2)"
  shows "th_fs (FsEnterGuard_drop g2 (FsEnterGuard_drop g1 th2)) = Some a"
    "th_fs (FsEnterGuard_drop g1 (FsEnterGuard_drop g2 th2)) = th_fs th"
  using assms by (auto simp: fs_enter_def FsEnterGuard_drop_def)

text \<open>A call on the rings restores nothing of the file system, and the clock of the rings comes back with them.\<close>

lemma rings_nest:
  assumes "iou_enter a now th = (g, th1)"
  shows "IoUringEnterGuard_drop g th1 = th" "th_fs th1 = th_fs th"
  using assms by (auto simp: iou_enter_def IoUringEnterGuard_drop_def)

end
