(* ===== verification/Spec2Isabelle.thy ===== *)
theory Spec2Isabelle
  imports Tcp_Stream Kernel_Props Tcp_Limits Netstat Scheduler Fs_Limits Sim_Links Sim_Groups Sim_Flow Sim_Read Sim_Disk Fs_Async Sim_Build Sim_Barriers
    Shim_Safe Fixture Sim_Wakers Sim_Entry Ring_Enter
begin

text \<open>
  A verification development of turmoil, a deterministic simulator for distributed systems:
  a simulated network stack, a simulated file system with crashes, and the simulation that
  drives hosts over them. Everything here is a shallow embedding of the Rust sources under
  \<^verbatim>\<open>src/crates\<close>; names follow the code.

  \<^bold>\<open>The program.\<close> \<^verbatim>\<open>turmoil-net\<close> gives every host a kernel (sockets, UDP, TCP) and connects the
  kernels by a fabric: packets leave a kernel in an egress pass, rules pass, delay or drop
  them, and a scheduler delivers them when they are due. \<^verbatim>\<open>turmoil-fs\<close> gives every host a file
  system: calls queue pending operations, reads see the persisted state with the queue applied,
  syncs move operations to the persisted state, a crash drops the queue, possibly tearing
  writes. \<^verbatim>\<open>turmoil-io-uring\<close> gives every host rings, whose entries take effect on the file system
  when they complete. \<^verbatim>\<open>turmoil\<close> is the simulation: host names and addresses, links between hosts,
  and the steps that run the tasks of user code, which live on tokio.

  \<^bold>\<open>The network stack\<close> (\<^verbatim>\<open>turmoil-net/src/kernel\<close>).
  \<^item> \<open>Prelude\<close>: machine integers, insertion-ordered maps, the locale of finite maps, the locale
    \<open>invariant_system\<close> of transition systems with an invariant, and \<open>returns\<close>, total
    correctness of computations that may panic or diverge.
  \<^item> \<open>Net_Addr\<close>, \<open>Packet\<close>, \<open>Socket\<close>, \<open>Kernel_State\<close>: addresses, packets and their sizes
    (\<^verbatim>\<open>packet.rs\<close>), sockets and the socket table (\<^verbatim>\<open>socket.rs\<close>), the state of a kernel.
  \<^item> \<open>Udp\<close>, \<open>Tcp\<close>, \<open>Tcp_Calls\<close>, \<open>Kernel\<close>: \<^verbatim>\<open>udp.rs\<close>, \<^verbatim>\<open>tcp.rs\<close> (handlers, then calls and
    timers), \<^verbatim>\<open>mod.rs\<close>, one definition per function of the code.
  \<^item> \<open>Port_Facts\<close>, \<open>Kernel_Inv\<close>, \<open>Tcb_Facts\<close>, \<open>Kernel_Safety\<close>, \<open>Segmentation\<close>, \<open>Egress\<close>,
    \<open>Kernel_Runs\<close>: the invariant of the socket table, that every call keeps it and returns, that
    segmentation and the egress loop end, and so that every run of a host is safe.
  \<^item> \<open>Tcp_Stream\<close>, \<open>Tcp_Props\<close>, \<open>Kernel_Props\<close>: what the protocol does: bytes arrive in order
    and once, handshake, acknowledgement, retransmission and abort, close, bind, ports, UDP.
  \<^item> \<open>Tcp_Limits\<close>: where TCP departs from what is expected of it.
  \<^item> \<open>Net_Show\<close>, \<open>Netstat\<close>: printed addresses, the snapshot of a socket table and its table of text
    (\<^verbatim>\<open>netstat.rs\<close>); the snapshot shows every live connection and the table can be read back.

  \<^bold>\<open>Names, fabric, scheduler\<close> (\<^verbatim>\<open>turmoil-net/src\<close>, \<^verbatim>\<open>turmoil/src/ip.rs\<close>, \<^verbatim>\<open>turmoil/src/dns.rs\<close>).
  \<^item> \<open>Ip_Parse\<close>, \<open>Name_Table\<close>, \<open>Net_Dns\<close>, \<open>Sim_Dns\<close>: address literals, the locale \<open>name_table\<close>
    of name services, and its interpretations for the two name services of the code.
  \<^item> \<open>Fabric\<close>, \<open>Fabric_Props\<close>, \<open>Scheduler\<close>: hosts, routing, rules, the delivery queue and the
    tick; a whole simulation step is safe, delivers exactly what is due, and keeps the order of
    packets with equal latency.
  \<^item> \<open>Fixture\<close>: the network a thread has entered, rules that last as long as their guard, the setters of a
    kernel's configuration, and the two fixtures (\<^verbatim>\<open>fixture/mod.rs\<close>, \<^verbatim>\<open>client_server.rs\<close>), whose loop returns
    when the tasks make progress.

  \<^bold>\<open>The tokio shim of the network\<close> (\<^verbatim>\<open>turmoil-net/src/shim/tokio/net\<close>).
  \<^item> \<open>Shim_Addr\<close>, \<open>Shim_Net\<close>, \<open>Shim_Halves\<close>: \<^verbatim>\<open>addr.rs\<close> with the parsers of the standard library; \<^verbatim>\<open>udp.rs\<close>, \<^verbatim>\<open>tcp/stream.rs\<close>,
    \<^verbatim>\<open>tcp/listener.rs\<close> and the future of a connect; \<^verbatim>\<open>tcp/split.rs\<close> and \<^verbatim>\<open>tcp/split_owned.rs\<close> with the reference
    count the owned halves share. Splitting and reuniting is a round trip; a failed reunite is not harmless.
  \<^item> \<open>Kernel_Keeps\<close>: what every system call leaves alone, of the sockets of others. \<open>Shim_Calls\<close>, \<open>Shim_Ops\<close>: the same for
    the calls of the shim. \<open>Shim_Prog\<close>, \<open>Shim_Safe\<close>: programs that hold sockets, streams, listeners, halves
    and futures on several hosts; no admissible program panics, each value it holds has its own open socket,
    and a connect that fails or is dropped gives its descriptor back.

  \<^bold>\<open>The file system\<close> (\<^verbatim>\<open>turmoil-fs/src/lib.rs\<close> and \<^verbatim>\<open>shim/std/fs/mod.rs\<close>).
  \<^item> \<open>Fs_Data\<close>, \<open>Fs_State\<close>, \<open>Fs_Sync\<close>: paths, pending operations, inodes, page cache; resolution
    through the queue and the operations that add to it; sync, crash, reads and metadata.
  \<^item> \<open>Fs_View\<close>: the name space as the replay of the queue, and that the name-space calls refine
    their specification. \<open>Fs_Content\<close>: contents as a replay, and that reads return slices of it.
    \<open>Fs_Durable\<close>: what a crash leaves.
  \<^item> \<open>Fs_Shim\<close>, \<open>Fs_Shim_Props\<close>, \<open>Fs_Run\<close>: the \<^verbatim>\<open>std::fs\<close> calls with fault injection, their round
    trip and fault bounds, and the invariant of every run.
  \<^item> \<open>Fs_Config\<close>: the configuration builders and the latency of an operation; what is built is in
    range, and the latency is within its bounds.
  \<^item> \<open>Fs_Meta\<close>: the accessors of metadata, permissions and directory entries, options, and UTF-8
    validation. \<open>Fs_Cache\<close>: the page cache, and that a hit on a full cache costs another page.
  \<^item> \<open>Fs_Async\<close>: the \<^verbatim>\<open>tokio::fs\<close> calls (\<^verbatim>\<open>shim/tokio/fs/mod.rs\<close>), each with the time it sleeps for;
    positional I/O takes the latency its page and flags call for.
  \<^item> \<open>Fs_Limits\<close>: where the file system departs from POSIX.

  \<^bold>\<open>The rings\<close> (\<^verbatim>\<open>turmoil-io-uring/src\<close>).
  \<^item> \<open>Ring_Queue\<close>, \<open>Ring_Host\<close>: entries, flags and a ring's queues (\<^verbatim>\<open>squeue.rs\<close>, \<^verbatim>\<open>opcode.rs\<close>, \<^verbatim>\<open>sim.rs\<close>);
    executing a completion on the file system and the caller's memory, the rings of a host,
    submission, completion and readiness (\<^verbatim>\<open>host.rs\<close>, \<^verbatim>\<open>lib.rs\<close>, \<^verbatim>\<open>submit.rs\<close>, \<^verbatim>\<open>cqueue.rs\<close>, \<^verbatim>\<open>async_fd.rs\<close>).
  \<^item> \<open>Ring_Bag\<close>, \<open>Ring_Submit\<close>, \<open>Ring_Run\<close>: the locale \<open>completion_bag\<close>, which sees a ring as the bag of
    its pending completions, and its interpretation; every run of a host's rings is safe.
  \<^item> \<open>Ring_Props\<close>, \<open>Ring_Fs\<close>: no entry is lost or doubled, what is due is yielded, cancelling has no
    effect on files, a reader never misses its wake-up; I/O through a ring is I/O through the
    \<^verbatim>\<open>std::fs\<close> shim, within the latency bounds.
  \<^item> \<open>Ring_Enter\<close>: the file system and the rings a thread has entered; nested scopes restore the thread and
    every call works on the file system of the innermost scope.

  \<^bold>\<open>The simulation\<close> (\<^verbatim>\<open>turmoil/src\<close>).
  \<^item> \<open>Sim_Host\<close>, \<open>Sim_Stream\<close>: \<^verbatim>\<open>host.rs\<close>, \<^verbatim>\<open>envelope.rs\<close>: UDP binds, listeners and stream sockets of a
    host, ports and timers; a stream socket puts segments back in order.
  \<^item> \<open>Sim_Top\<close>, \<open>Sim_Links\<close>: \<^verbatim>\<open>top.rs\<close> and the link part of \<^verbatim>\<open>config.rs\<close>: links with latency, failure,
    partitions and holds; a healthy link delivers each message once within its bounds, a held link
    keeps everything until it is released; where random failure departs from its description.
  \<^item> \<open>Sim_World\<close>, \<open>Sim_Mesh\<close>, \<open>Sim_Groups\<close>, \<open>Sim_Udp\<close>: \<^verbatim>\<open>world.rs\<close>, \<^verbatim>\<open>net/udp.rs\<close>: hosts, names, links
    and multicast groups of a world and the UDP sockets over them; every run keeps a full mesh of
    links, and the table of groups refines a set of memberships.
  \<^item> \<open>Sim_Tcp\<close>, \<open>Sim_Flow\<close>, \<open>Sim_Read\<close>: \<^verbatim>\<open>net/tcp/stream.rs\<close>, \<^verbatim>\<open>net/tcp/listener.rs\<close>: streams, listeners and
    flow control; whatever order segments arrive in, the reader gets what was written, in order and
    once, and the credits keep its channel from filling up; a read takes the front of what is unread.
  \<^item> \<open>Sim_Halves\<close>, \<open>Sim_Wakers\<close>: the calls of a whole stream, the owned halves (\<^verbatim>\<open>net/tcp/split_owned.rs\<close>), and the set of
    tasks that wait on a half. The locale \<open>waker_source\<close> says what a source of readiness owes such a set; a
    blocked writer never misses the event it waits for.
  \<^item> \<open>Sim_Driver\<close>, \<open>Sim_Time\<close>: \<^verbatim>\<open>sim.rs\<close>, \<^verbatim>\<open>rt.rs\<close>, \<^verbatim>\<open>config.rs\<close>: runtimes, the registration, crash and restart
    of nodes, the step and the run loop; the loop ends, its result says how the clients stand, and
    the clocks of all hosts agree.
  \<^item> \<open>Sim_Disk\<close>: hosts with a file system and rings; a crash stops the hosts it names, crashes their
    storage and leaves every other node alone.
  \<^item> \<open>Sim_Build\<close>: \<^verbatim>\<open>builder.rs\<close>; exactly which settings build, and what a new simulation satisfies.
  \<^item> \<open>Sim_Barriers\<close>: \<^verbatim>\<open>barriers.rs\<close>: triggers in simulated code and the barriers of a test; whatever is
    suspended has its release in a queue or in a handle, so it is released.
  \<^item> \<open>Sim_Entry\<close>: what simulated code calls (\<^verbatim>\<open>lib.rs\<close>, \<^verbatim>\<open>net/mod.rs\<close>) over the current world, address arguments, the
    non-blocking UDP calls, messages in flight delivered by hand, and the text of a message in a trace.

  \<^bold>\<open>How state and effects are modelled.\<close> A struct is a record, an enum a datatype; an operation
  takes the state and returns it. A call that can fail returns a sum with the code's error; the
  outer \<open>option\<close> is \<open>None\<close> for a panic and for a call that does not end
  (\<^theory_text>\<open>partial_function (option)\<close>), so a theorem that says \<open>returns\<close> or \<open>= Some\<close> excludes both.
  Loops are structural, measured, or partial functions proved to end. Only the loop of
  \<^verbatim>\<open>Sim::run\<close>, which is endless when the tick is zero, has fuel: one more than the duration divided
  by the tick is enough (\<open>run_terminates\<close>).
  Index maps are association lists without duplicate keys, in the order of the code.
  Sequence numbers, windows, ports and addresses are words; sizes, offsets and times are
  natural numbers, without the 64-bit bound of the code. Probabilities are rationals. Wakers
  are flags or counters, and tasks where a theorem is about waking them. Thread-local cells are explicit
  arguments. The random number generator, rules, regular expressions, the iteration order
  of hash sets and the tokio runtime with the software on it (\<open>Software\<close>) are parameters; where a
  theorem needs something of them, it is a named hypothesis (\<open>draws_in_range\<close>, \<open>shuffles\<close>, \<open>keeps_clocks\<close>).

  \<^bold>\<open>Not modelled.\<close> The exponential distribution itself, whose samples are parameters, and with it the
  setting of the latency curve; futures, tasks and runtimes of tokio: an asynchronous call is the
  poll it repeats, and the runtime with the tasks on it is a parameter (\<open>Software\<close>, \<open>LocalSet\<close>); the body of the hook
  that observes corruption, which is user code; the scope id and flow label of IPv6 socket addresses; tracing and the \<^verbatim>\<open>Debug\<close> implementations;
  \<^verbatim>\<open>uds.rs\<close>, which holds only a comment; the examples, which are user code.
\<close>

end
